(* ===== verification/CR_Prelude.thy ===== *)
theory CR_Prelude
  imports Complex_Main "HOL-Library.Word" "HOL-Library.Multiset"
begin

text \<open>
  Prelude of the cc-relay development: the fact collections, Go's machine integers and the
  parts of its standard library that several components use (\<open>strconv.Itoa\<close>,
  \<open>strconv.Atoi\<close>, \<open>http.Header.Get\<close>, \<open>time\<close>), the third-party helper package
  \<open>samber/lo\<close> as a record of parameters with its documented contract, and weighted choice.

  Conventions. An \<open>int\<close> or \<open>int64\<close> of the source is an \<^typ>\<open>int\<close>, and every place where
  the source's arithmetic can wrap is written with \<open>wrap64\<close>. A \<open>time.Time\<close> is the number of
  nanoseconds since Go's zero time, so \<open>IsZero\<close> is \<open>t = 0\<close>; a \<open>time.Duration\<close> is a number of
  nanoseconds. A string is a list of bytes.
\<close>

named_theorems go_defs \<open>unfoldings of the small definitions of the Go layer\<close>

named_theorems contract \<open>facts a caller may use about a called operation\<close>

type_synonym go_time = int
type_synonym duration = int

section \<open>Machine integers\<close>

definition wrap64 :: "int \<Rightarrow> int" where
  "wrap64 x = (x + 2 ^ 63) mod 2 ^ 64 - 2 ^ 63"

definition in_int64 :: "int \<Rightarrow> bool" where
  "in_int64 x \<longleftrightarrow> - (2 ^ 63) \<le> x \<and> x < 2 ^ 63"

lemma wrap64_id [simp]: "in_int64 x \<Longrightarrow> wrap64 x = x"
  by (simp add: wrap64_def in_int64_def)

lemma in_int64_wrap64 [simp]: "in_int64 (wrap64 x)"
  by (simp add: wrap64_def in_int64_def)

lemma wrap64_small: "0 \<le> x \<Longrightarrow> x < 2 ^ 63 \<Longrightarrow> wrap64 x = x"
  by (simp add: wrap64_def)

lemma wrap64_mod: "wrap64 x mod 2 ^ 64 = x mod 2 ^ 64"
proof -
  have "wrap64 x mod 2 ^ 64 = ((x + 2 ^ 63) mod 2 ^ 64 - 2 ^ 63) mod 2 ^ 64"
    by (simp only: wrap64_def)
  also have "\<dots> = (x + 2 ^ 63 - 2 ^ 63) mod 2 ^ 64"
    by (rule mod_diff_left_eq)
  finally show ?thesis by simp
qed

lemma wrap64_cong: "x mod 2 ^ 64 = y mod 2 ^ 64 \<Longrightarrow> wrap64 x = wrap64 y"
  unfolding wrap64_def by (metis mod_add_left_eq)

lemma wrap64_add_left [simp]: "wrap64 (wrap64 x + y) = wrap64 (x + y)"
  by (rule wrap64_cong) (metis mod_add_left_eq wrap64_mod)

text \<open>Go's integer remainder takes the sign of the dividend.\<close>

definition go_rem :: "int \<Rightarrow> int \<Rightarrow> int" where
  "go_rem a b = sgn a * (\<bar>a\<bar> mod \<bar>b\<bar>)"

lemma go_rem_nonneg [simp]: "0 \<le> a \<Longrightarrow> 0 < b \<Longrightarrow> go_rem a b = a mod b"
  by (cases "a = 0") (simp_all add: go_rem_def)

section \<open>Time\<close>

definition nsec_per_sec :: int where "nsec_per_sec = 1000000000"

definition seconds :: "int \<Rightarrow> duration" where "seconds n = n * nsec_per_sec"
definition minutes :: "int \<Rightarrow> duration" where "minutes n = n * 60 * nsec_per_sec"
definition hours :: "int \<Rightarrow> duration" where "hours n = n * 3600 * nsec_per_sec"
definition millis :: "int \<Rightarrow> duration" where "millis n = n * 1000000"

lemmas time_defs = nsec_per_sec_def seconds_def minutes_def hours_def millis_def
declare time_defs [go_defs]

text \<open>\<open>time.Until t\<close> saturates at the bounds of a \<open>Duration\<close>.\<close>

definition time_until :: "go_time \<Rightarrow> go_time \<Rightarrow> duration" where
  "time_until now t = max (- (2 ^ 63)) (min (2 ^ 63 - 1) (t - now))"

text \<open>\<open>UnixNano\<close>: nanoseconds since 1970, wrapped to 64 bits.\<close>

definition unix_nano :: "go_time \<Rightarrow> int" where
  "unix_nano t = wrap64 (t - 62135596800 * nsec_per_sec)"

section \<open>Decimal numbers: \<open>strconv\<close>\<close>

definition digit_char :: "nat \<Rightarrow> char" where
  "digit_char d = char_of (48 + d)"

definition is_digit :: "char \<Rightarrow> bool" where
  "is_digit c \<longleftrightarrow> 48 \<le> (of_char c :: nat) \<and> (of_char c :: nat) \<le> 57"

definition digit_val :: "char \<Rightarrow> nat" where
  "digit_val c = of_char c - 48"

fun nat_digits :: "nat \<Rightarrow> string" where
  "nat_digits n = (if n < 10 then [digit_char n]
                   else nat_digits (n div 10) @ [digit_char (n mod 10)])"

declare nat_digits.simps [simp del]

definition itoa :: "int \<Rightarrow> string" where
  "itoa i = (if i < 0 then CHR ''-'' # nat_digits (nat (- i)) else nat_digits (nat i))"

fun digits_val :: "nat \<Rightarrow> string \<Rightarrow> nat" where
  "digits_val acc [] = acc"
| "digits_val acc (c # cs) = digits_val (10 * acc + digit_val c) cs"

definition parse_nat :: "string \<Rightarrow> nat option" where
  "parse_nat s = (if s \<noteq> [] \<and> list_all is_digit s then Some (digits_val 0 s) else None)"

text \<open>\<open>strconv.Atoi\<close>: an optional sign and decimal digits, an error out of the 64-bit range.\<close>

definition atoi :: "string \<Rightarrow> int option" where
  "atoi s =
     (let (neg, body) =
        (case s of [] \<Rightarrow> (False, [])
         | c # cs \<Rightarrow> if c = CHR ''-'' then (True, cs)
                     else if c = CHR ''+'' then (False, cs) else (False, c # cs))
      in case parse_nat body of
           None \<Rightarrow> None
         | Some n \<Rightarrow> (let v = (if neg then - int n else int n)
                      in if in_int64 v then Some v else None))"

lemma of_digit_char: "d < 10 \<Longrightarrow> (of_char (digit_char d) :: nat) = 48 + d"
  by (simp add: digit_char_def)

lemma is_digit_digit_char [simp]: "d < 10 \<Longrightarrow> is_digit (digit_char d)"
  by (simp add: is_digit_def of_digit_char)

lemma digit_val_digit_char [simp]: "d < 10 \<Longrightarrow> digit_val (digit_char d) = d"
  by (simp add: digit_val_def of_digit_char)

lemma not_digit_sign [simp]: "\<not> is_digit (CHR ''-'')" "\<not> is_digit (CHR ''+'')"
  by (simp_all add: is_digit_def)

lemma nat_digits_digits: "list_all is_digit (nat_digits n)"
proof (induction n rule: nat_digits.induct)
  case (1 n)
  then show ?case by (cases "n < 10") (simp_all add: nat_digits.simps [of n])
qed

lemma nat_digits_nonempty [simp]: "nat_digits n \<noteq> []"
  by (subst nat_digits.simps) simp

lemma digits_val_append: "digits_val acc (xs @ ys) = digits_val (digits_val acc xs) ys"
  by (induction xs arbitrary: acc) auto

lemma digits_val_nat_digits: "digits_val 0 (nat_digits n) = n"
proof (induction n rule: nat_digits.induct)
  case (1 n)
  then show ?case
    by (cases "n < 10") (simp_all add: nat_digits.simps [of n] digits_val_append)
qed

lemma parse_nat_digits [simp]: "parse_nat (nat_digits n) = Some n"
  by (simp add: parse_nat_def nat_digits_digits digits_val_nat_digits)

lemma nat_digits_inj: "nat_digits m = nat_digits n \<Longrightarrow> m = n"
  by (metis digits_val_nat_digits)

lemma nat_digits_Cons: "\<exists>c cs. nat_digits n = c # cs \<and> is_digit c"
proof (cases "nat_digits n")
  case Nil
  then show ?thesis by simp
next
  case (Cons c cs)
  with nat_digits_digits [of n] show ?thesis by simp
qed

lemma atoi_itoa: "in_int64 i \<Longrightarrow> atoi (itoa i) = Some i"
proof (cases "i < 0")
  case True
  assume "in_int64 i"
  with True show ?thesis by (simp add: atoi_def itoa_def)
next
  case False
  assume "in_int64 i"
  obtain c cs where ds: "nat_digits (nat i) = c # cs" and "is_digit c"
    using nat_digits_Cons by blast
  then have "c \<noteq> CHR ''-''" "c \<noteq> CHR ''+''" by auto
  moreover have "parse_nat (c # cs) = Some (nat i)"
    using parse_nat_digits [of "nat i"] by (simp only: ds)
  ultimately show ?thesis
    using False \<open>in_int64 i\<close> by (simp add: atoi_def itoa_def ds)
qed

lemma atoi_in_int64: "atoi s = Some v \<Longrightarrow> in_int64 v"
  by (auto simp: atoi_def Let_def split: prod.splits option.splits if_splits)

section \<open>HTTP headers\<close>

text \<open>
  \<open>http.Header\<close> is a map from canonical keys to value lists; \<open>Get\<close> canonicalises its argument
  and returns the first value, or the empty string.
\<close>

type_synonym header = "string \<Rightarrow> string list"

definition is_upper :: "char \<Rightarrow> bool" where
  "is_upper c \<longleftrightarrow> 65 \<le> (of_char c :: nat) \<and> (of_char c :: nat) \<le> 90"

definition is_lower :: "char \<Rightarrow> bool" where
  "is_lower c \<longleftrightarrow> 97 \<le> (of_char c :: nat) \<and> (of_char c :: nat) \<le> 122"

definition to_upper :: "char \<Rightarrow> char" where
  "to_upper c = (if is_lower c then char_of (of_char c - (32 :: nat)) else c)"

definition to_lower :: "char \<Rightarrow> char" where
  "to_lower c = (if is_upper c then char_of (of_char c + (32 :: nat)) else c)"

definition is_token_char :: "char \<Rightarrow> bool" where
  "is_token_char c \<longleftrightarrow> is_upper c \<or> is_lower c \<or> is_digit c \<or> c \<in> set ''!#$%&*+-.^_|~'' \<or>
     c = char_of (39 :: nat) \<or> c = char_of (96 :: nat)"

fun canon_from :: "bool \<Rightarrow> string \<Rightarrow> string" where
  "canon_from up [] = []"
| "canon_from up (c # cs) =
     (if up then to_upper c else to_lower c) # canon_from (c = CHR ''-'') cs"

definition canonical_key :: "string \<Rightarrow> string" where
  "canonical_key s = (if list_all is_token_char s then canon_from True s else s)"

definition header_get :: "header \<Rightarrow> string \<Rightarrow> string" where
  "header_get h k = (case h (canonical_key k) of [] \<Rightarrow> [] | v # _ \<Rightarrow> v)"

definition header_set :: "header \<Rightarrow> string \<Rightarrow> string \<Rightarrow> header" where
  "header_set h k v = h(canonical_key k := [v])"

lemma header_get_set [simp]: "header_get (header_set h k v) k = v"
  by (simp add: header_get_def header_set_def)

lemma header_get_set_other [simp]:
  "canonical_key j \<noteq> canonical_key k \<Longrightarrow> header_get (header_set h k v) j = header_get h j"
  by (simp add: header_get_def header_set_def)

section \<open>The package \<open>samber/lo\<close>\<close>

text \<open>
  The source filters and ranks slices with the third-party package \<open>samber/lo\<close>. It is a
  parameter of every definition that uses it, and \<open>lo_ok\<close> is its documented contract:
  \<open>Filter\<close> keeps the elements for which the predicate holds, in order; \<open>MaxBy\<close> returns the
  first of the greatest elements, \<open>MinBy\<close> the first of the least ones, \<open>SumBy\<close> adds. The comparisons the
  source passes all compare a number computed from each side.
\<close>

record 'a lo =
  lo_filter :: "('a \<Rightarrow> bool) \<Rightarrow> 'a list \<Rightarrow> 'a list"
  lo_max_by :: "('a \<Rightarrow> 'a \<Rightarrow> bool) \<Rightarrow> 'a list \<Rightarrow> 'a"
  lo_min_by :: "('a \<Rightarrow> 'a \<Rightarrow> bool) \<Rightarrow> 'a list \<Rightarrow> 'a"
  lo_sum_by :: "('a \<Rightarrow> int) \<Rightarrow> 'a list \<Rightarrow> int"

text \<open>Adding up numbers with Go's wrapping addition.\<close>

definition wrap_sum :: "int list \<Rightarrow> int" where
  "wrap_sum ws = foldl (\<lambda>acc w. wrap64 (acc + w)) 0 ws"

lemma foldl_wrap: "in_int64 a \<Longrightarrow> foldl (\<lambda>acc w. wrap64 (acc + w)) a ws = wrap64 (a + sum_list ws)"
  by (induction ws arbitrary: a) (simp_all add: add.assoc)

lemma wrap_sum_eq: "wrap_sum ws = wrap64 (sum_list ws)"
  by (simp add: wrap_sum_def foldl_wrap in_int64_def)

lemma wrap_sum_small:
  "\<forall>w \<in> set ws. 0 \<le> w \<Longrightarrow> sum_list ws < 2 ^ 63 \<Longrightarrow> wrap_sum ws = sum_list ws"
  by (simp add: wrap_sum_eq wrap64_small sum_list_nonneg)

definition first_greatest :: "('a \<Rightarrow> rat) \<Rightarrow> 'a list \<Rightarrow> 'a \<Rightarrow> bool" where
  "first_greatest f xs r \<longleftrightarrow>
     (\<exists>i < length xs. r = xs ! i \<and> (\<forall>j < length xs. f (xs ! j) \<le> f r) \<and>
        (\<forall>j < i. f (xs ! j) < f r))"

definition lo_ok :: "'a lo \<Rightarrow> bool" where
  "lo_ok L \<longleftrightarrow>
     (\<forall>p xs. lo_filter L p xs = filter p xs) \<and>
     (\<forall>f xs. lo_sum_by L f xs = wrap_sum (map f xs)) \<and>
     (\<forall>f xs. xs \<noteq> [] \<longrightarrow> first_greatest f xs (lo_max_by L (\<lambda>a b. f a > f b) xs)) \<and>
     (\<forall>f xs. xs \<noteq> [] \<longrightarrow> first_greatest (\<lambda>x. - f x) xs (lo_min_by L (\<lambda>a b. f a < f b) xs))"

lemma lo_ok_filter [simp]: "lo_ok L \<Longrightarrow> lo_filter L p xs = filter p xs"
  by (simp add: lo_ok_def)

lemma lo_ok_sum_by [simp]: "lo_ok L \<Longrightarrow> lo_sum_by L f xs = wrap_sum (map f xs)"
  by (simp add: lo_ok_def)

lemma first_greatest_mem: "first_greatest f xs r \<Longrightarrow> r \<in> set xs"
  by (auto simp: first_greatest_def)

lemma first_greatest_max: "first_greatest f xs r \<Longrightarrow> x \<in> set xs \<Longrightarrow> f x \<le> f r"
  by (auto simp: first_greatest_def in_set_conv_nth)

lemma lo_max_by_first:
  "lo_ok L \<Longrightarrow> xs \<noteq> [] \<Longrightarrow> first_greatest f xs (lo_max_by L (\<lambda>a b. f a > f b) xs)"
  unfolding lo_ok_def by blast

lemma lo_min_by_first:
  "lo_ok L \<Longrightarrow> xs \<noteq> [] \<Longrightarrow> first_greatest (\<lambda>x. - f x) xs (lo_min_by L (\<lambda>a b. f a < f b) xs)"
  unfolding lo_ok_def by blast

lemma lo_max_by_mem:
  fixes f :: "'a \<Rightarrow> rat"
  shows "lo_ok L \<Longrightarrow> xs \<noteq> [] \<Longrightarrow> lo_max_by L (\<lambda>a b. f a > f b) xs \<in> set xs"
  by (rule first_greatest_mem [OF lo_max_by_first])

lemma lo_max_by_greatest:
  assumes "lo_ok L" and "x \<in> set xs"
  shows "f x \<le> (f (lo_max_by L (\<lambda>a b. f a > f b) xs) :: rat)"
proof -
  from assms(2) have "xs \<noteq> []" by auto
  from first_greatest_max [OF lo_max_by_first [OF assms(1) this] assms(2)] show ?thesis .
qed

lemma lo_min_by_mem:
  fixes f :: "'a \<Rightarrow> rat"
  shows "lo_ok L \<Longrightarrow> xs \<noteq> [] \<Longrightarrow> lo_min_by L (\<lambda>a b. f a < f b) xs \<in> set xs"
  by (rule first_greatest_mem [OF lo_min_by_first])

lemma lo_min_by_least:
  assumes "lo_ok L" and "x \<in> set xs"
  shows "(f (lo_min_by L (\<lambda>a b. f a < f b) xs) :: rat) \<le> f x"
proof -
  from assms(2) have "xs \<noteq> []" by auto
  from first_greatest_max [OF lo_min_by_first [OF assms(1) this] assms(2)] show ?thesis by simp
qed

text \<open>An instance that meets the contract, for the witnesses.\<close>

fun best_by :: "('a \<Rightarrow> 'a \<Rightarrow> bool) \<Rightarrow> 'a \<Rightarrow> 'a list \<Rightarrow> 'a" where
  "best_by gt b [] = b"
| "best_by gt b (x # xs) = best_by gt (if gt x b then x else b) xs"

definition pick_best :: "('a \<Rightarrow> 'a \<Rightarrow> bool) \<Rightarrow> 'a list \<Rightarrow> 'a" where
  "pick_best gt xs = best_by gt (hd xs) (tl xs)"

definition std_lo :: "'a lo" where
  "std_lo = \<lparr>lo_filter = filter, lo_max_by = pick_best, lo_min_by = pick_best,
     lo_sum_by = (\<lambda>f xs. wrap_sum (map f xs))\<rparr>"

lemma first_greatest_snoc:
  assumes "first_greatest f xs r"
  shows "first_greatest f (xs @ [x]) (if f x > f r then x else r)"
proof (cases "f x > f r")
  case True
  have "f (xs ! j) < f x" if "j < length xs" for j
    using assms True that by (fastforce simp: first_greatest_def)
  then have "(\<forall>j < length (xs @ [x]). f ((xs @ [x]) ! j) \<le> f x) \<and>
      (\<forall>j < length xs. f ((xs @ [x]) ! j) < f x)"
    by (auto simp: nth_append less_Suc_eq intro: less_imp_le)
  then show ?thesis
    using True by (auto simp: first_greatest_def intro!: exI [of _ "length xs"])
next
  case False
  obtain i where i: "i < length xs" "r = xs ! i" "\<forall>j < length xs. f (xs ! j) \<le> f r"
    "\<forall>j < i. f (xs ! j) < f r"
    using assms by (auto simp: first_greatest_def)
  then have "\<forall>j < length (xs @ [x]). f ((xs @ [x]) ! j) \<le> f r"
    using False by (auto simp: nth_append less_Suc_eq)
  moreover have "r = (xs @ [x]) ! i" "i < length (xs @ [x])"
      "\<forall>j < i. f ((xs @ [x]) ! j) < f r"
    using i by (auto simp: nth_append)
  ultimately show ?thesis
    using False unfolding first_greatest_def by auto
qed

lemma best_by_first_greatest:
  "first_greatest f xs r \<Longrightarrow> first_greatest f (xs @ ys) (best_by (\<lambda>a b. f a > f b) r ys)"
proof (induction ys arbitrary: xs r)
  case Nil
  then show ?case by simp
next
  case (Cons y ys)
  from Cons.IH [OF first_greatest_snoc [OF Cons.prems, of y]] show ?case by simp
qed

lemma pick_best_first_greatest:
  assumes "xs \<noteq> []"
  shows "first_greatest f xs (pick_best (\<lambda>a b. f a > f b) xs)"
proof -
  have "first_greatest f [hd xs] (hd xs)" by (simp add: first_greatest_def)
  from best_by_first_greatest [OF this, of "tl xs"] assms show ?thesis
    by (simp add: pick_best_def)
qed

lemma std_lo_ok [simp]: "lo_ok std_lo"
proof -
  have "first_greatest (\<lambda>x. - f x) xs (pick_best (\<lambda>a b. f a < f b) xs)"
    if "xs \<noteq> []" for f :: "'a \<Rightarrow> rat" and xs
    using pick_best_first_greatest [OF that, of "\<lambda>x. - f x"] by simp
  then show ?thesis by (simp add: lo_ok_def std_lo_def pick_best_first_greatest)
qed

section \<open>Weighted choice\<close>

text \<open>
  Three functions of the source pick an element by walking the weights with a random roll.
  \<open>pick_index\<close> is what they share: the index of the first element whose weight exceeds what is
  left of the roll.
\<close>

fun pick_index :: "int list \<Rightarrow> int \<Rightarrow> nat option" where
  "pick_index [] roll = None"
| "pick_index (w # ws) roll =
     (if roll < w then Some 0 else map_option Suc (pick_index ws (roll - w)))"

lemma pick_index_bound: "pick_index ws r = Some i \<Longrightarrow> i < length ws"
  by (induction ws r arbitrary: i rule: pick_index.induct) (auto split: if_splits)

lemma pick_index_total:
  "0 \<le> r \<Longrightarrow> r < sum_list ws \<Longrightarrow> \<exists>i. pick_index ws r = Some i"
  by (induction ws r rule: pick_index.induct) (auto split: if_splits)

lemma pick_index_iff:
  assumes "\<forall>w \<in> set ws. 0 < w" and "0 \<le> r"
  shows "pick_index ws r = Some i \<longleftrightarrow>
    i < length ws \<and> sum_list (take i ws) \<le> r \<and> r < sum_list (take (Suc i) ws)"
  using assms
proof (induction ws r arbitrary: i rule: pick_index.induct)
  case (1 roll)
  then show ?case by simp
next
  case (2 w ws roll)
  show ?case
  proof (cases "roll < w")
    case True
    have nn: "0 \<le> sum_list (take j ws)" for j
      using 2 by (intro sum_list_nonneg) (auto dest: in_set_takeD intro: less_imp_le)
    have "roll < w + sum_list (take j ws)" for j
      using nn [of j] True by simp
    with True 2 show ?thesis by (cases i) (auto simp: not_le)
  next
    case False
    with 2 show ?thesis by (cases i) (auto simp: algebra_simps)
  qed
qed

lemma pick_index_share:
  assumes "\<forall>w \<in> set ws. 0 < w" and "i < length ws"
  shows "card {r. 0 \<le> r \<and> r < sum_list ws \<and> pick_index ws r = Some i} = nat (ws ! i)"
proof -
  let ?lo = "sum_list (take i ws)" and ?hi = "sum_list (take (Suc i) ws)"
  have hi: "?hi = ?lo + ws ! i"
    using assms(2) by (simp add: take_Suc_conv_app_nth)
  have lo: "0 \<le> ?lo"
    using assms(1) by (intro sum_list_nonneg) (auto dest: in_set_takeD intro: less_imp_le)
  have "sum_list ws = ?hi + sum_list (drop (Suc i) ws)"
    by (metis append_take_drop_id sum_list_append)
  moreover have "0 \<le> sum_list (drop (Suc i) ws)"
    using assms(1) by (intro sum_list_nonneg) (auto dest: in_set_dropD intro: less_imp_le)
  ultimately have le: "?hi \<le> sum_list ws" by simp
  have "{r. 0 \<le> r \<and> r < sum_list ws \<and> pick_index ws r = Some i} = {?lo ..< ?hi}"
    using assms lo le by (auto simp: pick_index_iff)
  then show ?thesis by (simp add: hi)
qed

section \<open>Random numbers\<close>

text \<open>
  \<open>randIntn\<close> of the packages keypool and router: \<open>crypto/rand.Int\<close> gives a number below the
  bound or fails (\<^term>\<open>None\<close>), and on failure the clock is used. The outcome of the random
  source is an argument; \<open>rand_ok\<close> is the contract of \<open>rand.Int\<close>.
\<close>

type_synonym rand_src = "int \<Rightarrow> int option"

definition rand_ok :: "rand_src \<Rightarrow> bool" where
  "rand_ok R \<longleftrightarrow> (\<forall>n v. 0 < n \<longrightarrow> R n = Some v \<longrightarrow> 0 \<le> v \<and> v < n)"

definition clock_ok :: "go_time \<Rightarrow> bool" where
  "clock_ok now \<longleftrightarrow> 0 \<le> unix_nano now"

text \<open>
  The outcome both copies of \<open>randIntn\<close> compute: within the bound, whether or not the random
  source failed.
\<close>

definition rand_outcome :: "go_time \<Rightarrow> rand_src \<Rightarrow> int \<Rightarrow> int" where
  "rand_outcome now R upperBound =
     (case R upperBound of Some v \<Rightarrow> v | None \<Rightarrow> go_rem (unix_nano now) upperBound)"

lemma rand_outcome_bounds:
  assumes "rand_ok R" "clock_ok now" "0 < n"
  shows "0 \<le> rand_outcome now R n" "rand_outcome now R n < n"
  using assms by (auto simp: rand_outcome_def rand_ok_def clock_ok_def split: option.split)

lemma rand_ok_const: "0 \<le> v \<Longrightarrow> rand_ok (\<lambda>n. if v < n then Some v else None)"
  by (simp add: rand_ok_def)

section \<open>Lists\<close>

text \<open>A Go slice has fewer than \<open>2 ^ 63\<close> elements.\<close>

definition slice_ok :: "'a list \<Rightarrow> bool" where
  "slice_ok xs \<longleftrightarrow> length xs < 2 ^ 63"

lemma slice_ok_filter [simp]: "slice_ok xs \<Longrightarrow> slice_ok (filter P xs)"
  unfolding slice_ok_def by (rule le_less_trans [OF length_filter_le])

lemma slice_ok_Nil [simp]: "slice_ok []"
  by (simp add: slice_ok_def)

text \<open>An index drawn from an unsigned counter modulo the length of a slice.\<close>

lemma counter_index:
  fixes idx :: "64 word"
  assumes "slice_ok xs" and "xs \<noteq> []"
  shows "unat (idx mod word_of_nat (length xs)) = unat idx mod length xs"
    and "unat (idx mod word_of_nat (length xs)) < length xs"
proof -
  have "unat (word_of_nat (length xs) :: 64 word) = length xs"
    using assms(1) by (simp add: slice_ok_def unat_of_nat)
  then show "unat (idx mod word_of_nat (length xs)) = unat idx mod length xs"
    by (simp add: unat_mod)
  with assms(2) show "unat (idx mod word_of_nat (length xs)) < length xs" by simp
qed

lemma rotate_nth_mset:
  "mset (map (\<lambda>i. xs ! ((s + i) mod length xs)) [0..<length xs]) = mset xs"
proof (cases "xs = []")
  case True
  then show ?thesis by simp
next
  case False
  have "map (\<lambda>i. xs ! ((s + i) mod length xs)) [0..<length xs] = rotate s xs"
    by (rule nth_equalityI) (simp_all add: nth_rotate add.commute)
  moreover have "mset (rotate s xs) = mset (take (s mod length xs) xs @ drop (s mod length xs) xs)"
    by (simp only: rotate_drop_take mset_append union_commute)
  ultimately show ?thesis by simp
qed

text \<open>Grouping by an integer key, as a Go map of appended slices.\<close>

definition group_by :: "('a \<Rightarrow> int) \<Rightarrow> 'a list \<Rightarrow> int \<Rightarrow> 'a list" where
  "group_by f xs = foldl (\<lambda>tiers x. tiers(f x := tiers (f x) @ [x])) (\<lambda>_. []) xs"

definition levels_desc :: "('a \<Rightarrow> int) \<Rightarrow> 'a list \<Rightarrow> int list" where
  "levels_desc f xs = rev (sort (remdups (map f xs)))"

lemma group_by_foldl:
  "foldl (\<lambda>tiers x. tiers(f x := tiers (f x) @ [x])) t xs p = t p @ filter (\<lambda>x. f x = p) xs"
  by (induction xs arbitrary: t) auto

lemma group_by_filter: "group_by f xs p = filter (\<lambda>x. f x = p) xs"
  by (simp add: group_by_def group_by_foldl)

lemma set_levels_desc [simp]: "set (levels_desc f xs) = f ` set xs"
  by (simp add: levels_desc_def)

lemma sorted_levels_desc: "sorted_wrt (\<ge>) (levels_desc f xs)"
  by (simp add: levels_desc_def sorted_wrt_rev)

lemma distinct_levels_desc: "distinct (levels_desc f xs)"
  by (simp add: levels_desc_def)

lemma filter_eq_Nil_iff: "filter P xs = [] \<longleftrightarrow> (\<forall>x \<in> set xs. \<not> P x)"
  by (induction xs) auto

lemma sum_list_pos:
  "xs \<noteq> [] \<Longrightarrow> \<forall>x \<in> set xs. (0 :: int) < x \<Longrightarrow> 0 < sum_list xs"
  by (induction xs) (auto intro: add_pos_nonneg sum_list_nonneg less_imp_le)

lemma length_filter_remove_less:
  "x \<in> set xs \<Longrightarrow> \<not> P x \<Longrightarrow> length (filter P xs) < length xs"
  by (rule length_filter_less)

section \<open>Errors\<close>

text \<open>
  Go error values: the two sentinels of package \<open>context\<close>, errors of package \<open>net\<close>, the sentinel
  errors the program declares, other errors, and errors wrapped with a message. \<open>GoPanic\<close> is not
  an error value but the outcome of a call that panics.
\<close>

datatype go_error =
    DeadlineExceeded
  | Canceled
  | NetError string
  | Sentinel string
  | OtherError string
  | Wrapped string go_error
  | GoPanic string

text \<open>\<open>errors.Is\<close>, and \<open>errors.As\<close> with a \<open>net.Error\<close>, which \<open>DeadlineExceeded\<close> implements.\<close>

fun errors_is :: "go_error \<Rightarrow> go_error \<Rightarrow> bool" where
  "errors_is (Wrapped m e) target = (Wrapped m e = target \<or> errors_is e target)"
| "errors_is e target = (e = target)"

fun as_net_error :: "go_error \<Rightarrow> bool" where
  "as_net_error DeadlineExceeded = True"
| "as_net_error (NetError _) = True"
| "as_net_error (Wrapped _ e) = as_net_error e"
| "as_net_error _ = False"

section \<open>Stable sorting with a comparison function\<close>

text \<open>
  \<open>slices.SortStableFunc\<close>: for a comparison that is a total preorder the result is determined;
  insertion from the right computes it.
\<close>

fun insort_cmp :: "('a \<Rightarrow> 'a \<Rightarrow> int) \<Rightarrow> 'a \<Rightarrow> 'a list \<Rightarrow> 'a list" where
  "insort_cmp cmp x [] = [x]"
| "insort_cmp cmp x (y # ys) = (if cmp x y \<le> 0 then x # y # ys else y # insort_cmp cmp x ys)"

definition sort_stable :: "('a \<Rightarrow> 'a \<Rightarrow> int) \<Rightarrow> 'a list \<Rightarrow> 'a list" where
  "sort_stable cmp xs = foldr (insort_cmp cmp) xs []"

lemma mset_insort_cmp [simp]: "mset (insort_cmp cmp x xs) = add_mset x (mset xs)"
  by (induction xs) auto

lemma mset_sort_stable [simp]: "mset (sort_stable cmp xs) = mset xs"
  by (induction xs) (simp_all add: sort_stable_def)

lemma set_sort_stable [simp]: "set (sort_stable cmp xs) = set xs"
  by (metis mset_sort_stable set_mset_mset)

lemma length_sort_stable [simp]: "length (sort_stable cmp xs) = length xs"
  by (metis mset_sort_stable size_mset)

lemma insort_cmp_insort_key:
  assumes "\<forall>y \<in> set ys. cmp x y \<le> 0 \<longleftrightarrow> f x \<le> f y"
  shows "insort_cmp cmp x ys = insort_key f x ys"
  using assms by (induction ys) auto

lemma sort_stable_sort_key:
  assumes "\<forall>x \<in> set xs. \<forall>y \<in> set xs. cmp x y \<le> 0 \<longleftrightarrow> f x \<le> f y"
  shows "sort_stable cmp xs = sort_key f xs"
  using assms
proof (induction xs)
  case Nil
  then show ?case by (simp add: sort_stable_def)
next
  case (Cons x xs)
  then have "sort_stable cmp xs = sort_key f xs" by simp
  moreover have "insort_cmp cmp x (sort_key f xs) = insort_key f x (sort_key f xs)"
    using Cons.prems by (intro insort_cmp_insort_key) auto
  ultimately show ?case by (simp add: sort_stable_def)
qed

text \<open>The conversion of a \<open>float64\<close> to \<open>int\<close> drops the fraction.\<close>

definition float_to_int :: "rat \<Rightarrow> int" where
  "float_to_int x = (if x < 0 then \<lceil>x\<rceil> else \<lfloor>x\<rfloor>)"

end
