(* ===== verification/Key_Metadata.thy ===== *)
theory Key_Metadata
  imports CR_Prelude
begin

text \<open>
  The state of one API key (\<open>internal/keypool/key.go\<close>): the record \<open>key_metadata\<close>, the
  construction of the log-friendly identifier, availability and capacity score, the learning of
  limits from Anthropic response headers, cooldown and health marking. \<open>time.Parse\<close> of an
  RFC 3339 stamp and the rounding of \<open>float64\<close> are arguments.
\<close>

section \<open>State\<close>

record key_metadata =
  k_RPMResetAt :: go_time
  k_ITPMResetAt :: go_time
  k_OTPMResetAt :: go_time
  k_LastErrorAt :: go_time
  k_CooldownUntil :: go_time
  k_LastError :: "string option"
  k_APIKey :: string
  k_ID :: string
  k_RPMLimit :: int
  k_ITPMLimit :: int
  k_OTPMLimit :: int
  k_RPMRemaining :: int
  k_ITPMRemaining :: int
  k_OTPMRemaining :: int
  k_Priority :: int
  k_Weight :: int
  k_Healthy :: bool

definition key_tail :: "string \<Rightarrow> string" where
  "key_tail apiKey = (if 4 < length apiKey then drop (length apiKey - 4) apiKey else ''****'')"

definition key_id :: "int \<Rightarrow> string \<Rightarrow> string" where
  "key_id idx apiKey = ''['' @ itoa idx @ ''-****'' @ key_tail apiKey @ '']''"

definition NewKeyMetadata :: "int \<Rightarrow> string \<Rightarrow> int \<Rightarrow> int \<Rightarrow> int \<Rightarrow> key_metadata" where
  "NewKeyMetadata idx apiKey rpm itpm otpm =
     \<lparr>k_RPMResetAt = 0, k_ITPMResetAt = 0, k_OTPMResetAt = 0, k_LastErrorAt = 0,
      k_CooldownUntil = 0, k_LastError = None, k_APIKey = apiKey, k_ID = key_id idx apiKey,
      k_RPMLimit = rpm, k_ITPMLimit = itpm, k_OTPMLimit = otpm,
      k_RPMRemaining = rpm, k_ITPMRemaining = itpm, k_OTPMRemaining = otpm,
      k_Priority = 1, k_Weight = 1, k_Healthy = True\<rparr>"

section \<open>Availability and capacity\<close>

definition IsAvailable :: "go_time \<Rightarrow> key_metadata \<Rightarrow> bool" where
  "IsAvailable now k \<longleftrightarrow> k_Healthy k \<and> k_CooldownUntil k < now"

text \<open>
  \<open>GetCapacityScore\<close> computes in \<open>float64\<close>: \<open>fl\<close> is the rounding of an exact result. The sums
  of the token counts are Go \<open>int\<close> additions.
\<close>

definition GetCapacityScore :: "(rat \<Rightarrow> rat) \<Rightarrow> go_time \<Rightarrow> key_metadata \<Rightarrow> rat" where
  "GetCapacityScore fl now k =
     (if \<not> k_Healthy k \<or> now < k_CooldownUntil k then 0
      else
        let rpmScore = (if 0 < k_RPMLimit k
              then fl (fl (of_int (k_RPMRemaining k)) / fl (of_int (k_RPMLimit k))) else 1);
            totalTPMLimit = wrap64 (k_ITPMLimit k + k_OTPMLimit k);
            totalTPMRemaining = wrap64 (k_ITPMRemaining k + k_OTPMRemaining k);
            tpmScore = (if 0 < totalTPMLimit
              then fl (fl (of_int totalTPMRemaining) / fl (of_int totalTPMLimit)) else 1)
        in fl (fl (rpmScore + tpmScore) / 2))"

section \<open>Learning limits from headers\<close>

text \<open>The three pointers of \<open>parseLimits\<close> are passed and returned as a triple.\<close>

definition parseLimits ::
    "(string \<Rightarrow> go_time option) \<Rightarrow> header \<Rightarrow> string \<Rightarrow> string \<Rightarrow> string \<Rightarrow>
     int \<times> int \<times> go_time \<Rightarrow> int \<times> int \<times> go_time" where
  "parseLimits parse_time headers limitKey remainingKey resetKey st =
     (let (limit, remaining, resetAt) = st;
          limit' =
            (let val = header_get headers limitKey in
             if val \<noteq> [] then
               (case atoi val of Some parsed \<Rightarrow> if 0 < parsed then parsed else limit | None \<Rightarrow> limit)
             else limit);
          remaining' =
            (let val = header_get headers remainingKey in
             if val \<noteq> [] then
               (case atoi val of Some parsed \<Rightarrow> if 0 \<le> parsed then parsed else remaining
                | None \<Rightarrow> remaining)
             else remaining);
          resetAt' =
            (let val = header_get headers resetKey in
             if val \<noteq> [] then
               (case parse_time val of Some parsed \<Rightarrow> parsed | None \<Rightarrow> resetAt)
             else resetAt)
      in (limit', remaining', resetAt'))"

definition UpdateFromHeaders ::
    "(string \<Rightarrow> go_time option) \<Rightarrow> header \<Rightarrow> key_metadata \<Rightarrow> key_metadata" where
  "UpdateFromHeaders parse_time headers k =
     (let (l1, r1, t1) = parseLimits parse_time headers
            ''anthropic-ratelimit-requests-limit''
            ''anthropic-ratelimit-requests-remaining''
            ''anthropic-ratelimit-requests-reset''
            (k_RPMLimit k, k_RPMRemaining k, k_RPMResetAt k);
          k1 = k\<lparr>k_RPMLimit := l1, k_RPMRemaining := r1, k_RPMResetAt := t1\<rparr>;
          (l2, r2, t2) = parseLimits parse_time headers
            ''anthropic-ratelimit-input-tokens-limit''
            ''anthropic-ratelimit-input-tokens-remaining''
            ''anthropic-ratelimit-input-tokens-reset''
            (k_ITPMLimit k1, k_ITPMRemaining k1, k_ITPMResetAt k1);
          k2 = k1\<lparr>k_ITPMLimit := l2, k_ITPMRemaining := r2, k_ITPMResetAt := t2\<rparr>;
          (l3, r3, t3) = parseLimits parse_time headers
            ''anthropic-ratelimit-output-tokens-limit''
            ''anthropic-ratelimit-output-tokens-remaining''
            ''anthropic-ratelimit-output-tokens-reset''
            (k_OTPMLimit k2, k_OTPMRemaining k2, k_OTPMResetAt k2)
      in k2\<lparr>k_OTPMLimit := l3, k_OTPMRemaining := r3, k_OTPMResetAt := t3\<rparr>)"

section \<open>Cooldown, health, snapshot\<close>

definition SetCooldown :: "go_time \<Rightarrow> key_metadata \<Rightarrow> key_metadata" where
  "SetCooldown until k = k\<lparr>k_CooldownUntil := until\<rparr>"

definition MarkUnhealthy :: "go_time \<Rightarrow> string \<Rightarrow> key_metadata \<Rightarrow> key_metadata" where
  "MarkUnhealthy now err k = k\<lparr>k_Healthy := False, k_LastError := Some err, k_LastErrorAt := now\<rparr>"

definition MarkHealthy :: "key_metadata \<Rightarrow> key_metadata" where
  "MarkHealthy k = k\<lparr>k_Healthy := True, k_LastError := None\<rparr>"

record key_status =
  ks_ID :: string
  ks_Available :: bool
  ks_Healthy :: bool
  ks_CooldownUntil :: go_time
  ks_RPMRemaining :: int
  ks_RPMLimit :: int
  ks_ITPMRemaining :: int
  ks_ITPMLimit :: int
  ks_OTPMLimit :: int

definition Snapshot :: "go_time \<Rightarrow> key_metadata \<Rightarrow> key_status" where
  "Snapshot now k =
     \<lparr>ks_ID = k_ID k, ks_Available = (k_Healthy k \<and> k_CooldownUntil k < now),
      ks_Healthy = k_Healthy k, ks_CooldownUntil = k_CooldownUntil k,
      ks_RPMRemaining = k_RPMRemaining k, ks_RPMLimit = k_RPMLimit k,
      ks_ITPMRemaining = k_ITPMRemaining k, ks_ITPMLimit = k_ITPMLimit k,
      ks_OTPMLimit = k_OTPMLimit k\<rparr>"

definition show_bool :: "bool \<Rightarrow> string" where
  "show_bool b = (if b then ''true'' else ''false'')"

definition key_String :: "key_metadata \<Rightarrow> string" where
  "key_String k =
     ''Key['' @ k_ID k @ ''] rpm='' @ itoa (k_RPMRemaining k) @ ''/'' @ itoa (k_RPMLimit k) @
     '' itpm='' @ itoa (k_ITPMRemaining k) @ ''/'' @ itoa (k_ITPMLimit k) @
     '' otpm='' @ itoa (k_OTPMRemaining k) @ ''/'' @ itoa (k_OTPMLimit k) @
     '' healthy='' @ show_bool (k_Healthy k)"

section \<open>Facts\<close>

lemma takeWhile_digits: "list_all P xs \<Longrightarrow> \<not> P c \<Longrightarrow> takeWhile P (xs @ c # ys) = xs"
  by (induction xs) auto

lemma key_id_inj:
  assumes "0 \<le> i" "0 \<le> j" "key_id i a = key_id j b"
  shows "i = j"
proof -
  have index: "takeWhile is_digit (tl (key_id n x)) = nat_digits (nat n)" if "0 \<le> n" for n x
    using that by (simp add: key_id_def itoa_def takeWhile_digits nat_digits_digits)
  from assms(3) have "nat_digits (nat i) = nat_digits (nat j)"
    using index [OF assms(1), of a] index [OF assms(2), of b] by simp
  then have "nat i = nat j" by (rule nat_digits_inj)
  with assms(1,2) show ?thesis by simp
qed

text \<open>What an update can change: nothing but the nine rate-limit fields.\<close>

lemma UpdateFromHeaders_frame [simp]:
  "k_ID (UpdateFromHeaders pt h k) = k_ID k"
  "k_APIKey (UpdateFromHeaders pt h k) = k_APIKey k"
  "k_Healthy (UpdateFromHeaders pt h k) = k_Healthy k"
  "k_CooldownUntil (UpdateFromHeaders pt h k) = k_CooldownUntil k"
  "k_Priority (UpdateFromHeaders pt h k) = k_Priority k"
  "k_Weight (UpdateFromHeaders pt h k) = k_Weight k"
  "k_LastError (UpdateFromHeaders pt h k) = k_LastError k"
  by (simp_all add: UpdateFromHeaders_def Let_def split: prod.split)

lemma mark_frame [simp]:
  "k_ID (SetCooldown t k) = k_ID k" "k_APIKey (SetCooldown t k) = k_APIKey k"
  "k_Priority (SetCooldown t k) = k_Priority k" "k_Weight (SetCooldown t k) = k_Weight k"
  "k_ID (MarkUnhealthy now e k) = k_ID k" "k_APIKey (MarkUnhealthy now e k) = k_APIKey k"
  "k_Priority (MarkUnhealthy now e k) = k_Priority k" "k_Weight (MarkUnhealthy now e k) = k_Weight k"
  "k_ID (MarkHealthy k) = k_ID k" "k_APIKey (MarkHealthy k) = k_APIKey k"
  "k_Priority (MarkHealthy k) = k_Priority k" "k_Weight (MarkHealthy k) = k_Weight k"
  by (simp_all add: SetCooldown_def MarkUnhealthy_def MarkHealthy_def)

lemma NewKeyMetadata_fields [simp]:
  "k_ID (NewKeyMetadata i a r it ot) = key_id i a"
  "k_APIKey (NewKeyMetadata i a r it ot) = a"
  "k_Healthy (NewKeyMetadata i a r it ot)"
  "k_CooldownUntil (NewKeyMetadata i a r it ot) = 0"
  by (simp_all add: NewKeyMetadata_def)

text \<open>The rate-limit triple a call of \<open>parseLimits\<close> leaves is the old one or a valid reading.\<close>

lemma parseLimits_limit:
  "fst (parseLimits pt h lk rk tk (l, r, t)) = l \<or>
   0 < fst (parseLimits pt h lk rk tk (l, r, t)) \<and>
   atoi (header_get h lk) = Some (fst (parseLimits pt h lk rk tk (l, r, t)))"
  by (cases "atoi (header_get h lk)") (simp_all add: parseLimits_def Let_def)

lemma parseLimits_remaining:
  "fst (snd (parseLimits pt h lk rk tk (l, r, t))) = r \<or>
   0 \<le> fst (snd (parseLimits pt h lk rk tk (l, r, t))) \<and>
   atoi (header_get h rk) = Some (fst (snd (parseLimits pt h lk rk tk (l, r, t))))"
  by (cases "atoi (header_get h rk)") (simp_all add: parseLimits_def Let_def)

lemma parseLimits_nonneg:
  assumes "parseLimits pt h lk rk tk (l, r, t) = (l', r', t')" and "0 \<le> l" and "0 \<le> r"
  shows "0 \<le> l'" "0 \<le> r'"
  using parseLimits_limit [of pt h lk rk tk l r t] parseLimits_remaining [of pt h lk rk tk l r t]
    assms by auto

definition limits_sane :: "key_metadata \<Rightarrow> bool" where
  "limits_sane k \<longleftrightarrow>
     0 \<le> k_RPMRemaining k \<and> 0 \<le> k_ITPMRemaining k \<and> 0 \<le> k_OTPMRemaining k \<and>
     0 \<le> k_RPMLimit k \<and> 0 \<le> k_ITPMLimit k \<and> 0 \<le> k_OTPMLimit k"

lemma UpdateFromHeaders_sane:
  assumes "limits_sane k"
  shows "limits_sane (UpdateFromHeaders pt h k)"
proof -
  obtain l1 r1 t1 where p1: "parseLimits pt h ''anthropic-ratelimit-requests-limit''
      ''anthropic-ratelimit-requests-remaining'' ''anthropic-ratelimit-requests-reset''
      (k_RPMLimit k, k_RPMRemaining k, k_RPMResetAt k) = (l1, r1, t1)"
    by (cases rule: prod_cases3)
  obtain l2 r2 t2 where p2: "parseLimits pt h ''anthropic-ratelimit-input-tokens-limit''
      ''anthropic-ratelimit-input-tokens-remaining'' ''anthropic-ratelimit-input-tokens-reset''
      (k_ITPMLimit k, k_ITPMRemaining k, k_ITPMResetAt k) = (l2, r2, t2)"
    by (cases rule: prod_cases3)
  obtain l3 r3 t3 where p3: "parseLimits pt h ''anthropic-ratelimit-output-tokens-limit''
      ''anthropic-ratelimit-output-tokens-remaining'' ''anthropic-ratelimit-output-tokens-reset''
      (k_OTPMLimit k, k_OTPMRemaining k, k_OTPMResetAt k) = (l3, r3, t3)"
    by (cases rule: prod_cases3)
  have "0 \<le> l1" "0 \<le> r1" "0 \<le> l2" "0 \<le> r2" "0 \<le> l3" "0 \<le> r3"
    using parseLimits_nonneg [OF p1] parseLimits_nonneg [OF p2] parseLimits_nonneg [OF p3] assms
    by (simp_all add: limits_sane_def)
  then show ?thesis
    by (simp add: UpdateFromHeaders_def p1 p2 p3 limits_sane_def)
qed

section \<open>The capacity score\<close>

text \<open>
  What the score needs of \<open>float64\<close> rounding: it is monotone and exact on small integers.
\<close>

definition float_ok :: "(rat \<Rightarrow> rat) \<Rightarrow> bool" where
  "float_ok fl \<longleftrightarrow> (\<forall>x y. x \<le> y \<longrightarrow> fl x \<le> fl y) \<and> (\<forall>n :: int. \<bar>n\<bar> \<le> 2 ^ 53 \<longrightarrow> fl (of_int n) = of_int n)"

lemma float_ok_mono: "float_ok fl \<Longrightarrow> x \<le> y \<Longrightarrow> fl x \<le> fl y"
  by (simp add: float_ok_def)

lemma float_ok_0: "float_ok fl \<Longrightarrow> fl 0 = 0"
  unfolding float_ok_def by (drule conjunct2, drule spec [of _ 0]) simp

lemma float_ok_1: "float_ok fl \<Longrightarrow> fl 1 = 1"
  unfolding float_ok_def by (drule conjunct2, drule spec [of _ 1]) simp

lemma float_ok_2: "float_ok fl \<Longrightarrow> fl 2 = 2"
  unfolding float_ok_def by (drule conjunct2, drule spec [of _ 2]) simp

lemma float_ok_id [simp]: "float_ok (\<lambda>x. x)"
  by (simp add: float_ok_def)

lemma fl_unit: "float_ok fl \<Longrightarrow> 0 \<le> x \<Longrightarrow> x \<le> 1 \<Longrightarrow> 0 \<le> fl x \<and> fl x \<le> 1"
  using float_ok_mono [of fl 0 x] float_ok_mono [of fl x 1] by (simp add: float_ok_0 float_ok_1)

lemma fl_ratio_unit:
  assumes "float_ok fl" and "0 \<le> r" and "r \<le> l" and "0 < l"
  shows "0 \<le> fl (fl (of_int r) / fl (of_int l)) \<and> fl (fl (of_int r) / fl (of_int l)) \<le> 1"
proof (rule fl_unit [OF assms(1)])
  have "fl 0 \<le> fl (of_int r)" "fl (of_int r) \<le> fl (of_int l)" "fl 1 \<le> fl (of_int l)"
    using assms by (simp_all add: float_ok_mono)
  then show "0 \<le> fl (of_int r) / fl (of_int l)" "fl (of_int r) / fl (of_int l) \<le> 1"
    using assms(1) by (simp_all add: float_ok_0 float_ok_1)
qed

lemma fl_average_unit:
  assumes "float_ok fl" and "0 \<le> a" "a \<le> 1" "0 \<le> b" "b \<le> 1"
  shows "0 \<le> fl (fl (a + b) / 2) \<and> fl (fl (a + b) / 2) \<le> 1"
proof (rule fl_unit [OF assms(1)])
  have "fl 0 \<le> fl (a + b)" "fl (a + b) \<le> fl 2"
    using assms by (simp_all add: float_ok_mono)
  then show "0 \<le> fl (a + b) / 2" "fl (a + b) / 2 \<le> 1"
    using assms(1) by (simp_all add: float_ok_0 float_ok_2)
qed

text \<open>
  As long as every remaining count lies between 0 and its limit and the token limits do not
  overflow when added, the capacity score of a key lies between 0 and 1; it is 0 for a key that
  is unhealthy or whose cooldown has not ended.
\<close>

lemma capacity_score_unit:
  assumes "float_ok fl"
    and "0 \<le> k_RPMRemaining k" "k_RPMRemaining k \<le> k_RPMLimit k"
    and "0 \<le> k_ITPMRemaining k" "k_ITPMRemaining k \<le> k_ITPMLimit k"
    and "0 \<le> k_OTPMRemaining k" "k_OTPMRemaining k \<le> k_OTPMLimit k"
    and "k_ITPMLimit k + k_OTPMLimit k < 2 ^ 63"
  shows "0 \<le> GetCapacityScore fl now k \<and> GetCapacityScore fl now k \<le> 1 \<and>
    (\<not> k_Healthy k \<or> now < k_CooldownUntil k \<longrightarrow> GetCapacityScore fl now k = 0)"
proof (cases "\<not> k_Healthy k \<or> now < k_CooldownUntil k")
  case True
  then show ?thesis by (simp add: GetCapacityScore_def)
next
  case False
  define rpm where "rpm = (if 0 < k_RPMLimit k
    then fl (fl (of_int (k_RPMRemaining k)) / fl (of_int (k_RPMLimit k))) else 1)"
  define L where "L = k_ITPMLimit k + k_OTPMLimit k"
  define R where "R = k_ITPMRemaining k + k_OTPMRemaining k"
  define tpm where "tpm = (if 0 < L then fl (fl (of_int R) / fl (of_int L)) else 1)"
  have RL: "0 \<le> R" "R \<le> L" "L < 2 ^ 63" using assms by (simp_all add: R_def L_def)
  then have wrap: "wrap64 L = L" "wrap64 R = R" by (simp_all add: wrap64_small)
  have "0 \<le> rpm" "rpm \<le> 1" "0 \<le> tpm" "tpm \<le> 1"
    using assms RL by (auto simp: rpm_def tpm_def dest: fl_ratio_unit)
  then have "0 \<le> fl (fl (rpm + tpm) / 2) \<and> fl (fl (rpm + tpm) / 2) \<le> 1"
    by (rule fl_average_unit [OF assms(1)])
  moreover have "GetCapacityScore fl now k = fl (fl (rpm + tpm) / 2)"
    using False wrap by (simp add: GetCapacityScore_def rpm_def tpm_def L_def R_def Let_def)
  ultimately show ?thesis using False by simp
qed

lemma capacity_score_unit_witness:
  "0 \<le> GetCapacityScore (\<lambda>x. x) 5 (NewKeyMetadata 0 ''sk-abcdef'' 50 30000 30000) \<and>
   GetCapacityScore (\<lambda>x. x) 5 (NewKeyMetadata 0 ''sk-abcdef'' 50 30000 30000) \<le> 1"
  using capacity_score_unit [of "\<lambda>x. x" "NewKeyMetadata 0 ''sk-abcdef'' 50 30000 30000" 5]
  by (simp add: NewKeyMetadata_def)

text \<open>
  \<open>UpdateFromHeaders\<close> does not keep remaining counts below the limits, so the documented
  range of the score is not an invariant: a response that reports 100 remaining requests to a key
  configured with a limit of 50 gives that key a score of 3/2, above every honest key.
\<close>

lemma capacity_score_exceeds_one:
  "GetCapacityScore (\<lambda>x. x) 5
     (UpdateFromHeaders (\<lambda>_. None)
        (header_set (\<lambda>_. []) ''anthropic-ratelimit-requests-remaining'' ''100'')
        (NewKeyMetadata 0 ''sk-abcdef'' 50 30000 30000)) = 3 / 2"
  by code_simp

end
