(* ===== verification/Key_Selectors.thy ===== *)
theory Key_Selectors
  imports Key_Metadata
begin

text \<open>
  Key selection inside a pool (\<open>internal/keypool\<close>: \<open>selector.go\<close>, \<open>least_loaded.go\<close>,
  \<open>round_robin.go\<close>, \<open>random.go\<close>, \<open>random_util.go\<close>, \<open>weighted.go\<close>, \<open>priority_tier.go\<close>). The
  interface \<open>KeySelector\<close> is the locale \<open>key_selector\<close>; each strategy is an interpretation, and
  the priority tiers are shown, over any inner selector, to serve the best available tier.
\<close>

datatype key_err =
    ErrKeyNotFound
  | ErrAllKeysExhausted
  | ErrNoKeys
  | ErrNoKeysConfigured string
  | ErrUnknownStrategy string
  | PanicNilLimiter

text \<open>What a selection reads from its surroundings: the clock, rounding, randomness, \<open>lo\<close>.\<close>

record sel_env =
  env_now :: go_time
  env_fl :: "rat \<Rightarrow> rat"
  env_rand :: rand_src
  env_lo :: "key_metadata lo"

definition env_ok :: "sel_env \<Rightarrow> bool" where
  "env_ok env \<longleftrightarrow> lo_ok (env_lo env) \<and> rand_ok (env_rand env) \<and> clock_ok (env_now env)"

definition kp_randIntn :: "sel_env \<Rightarrow> int \<Rightarrow> int" where
  "kp_randIntn env upperBound =
     (if upperBound \<le> 0 then 0
      else case env_rand env upperBound of
             Some v \<Rightarrow> v
           | None \<Rightarrow> go_rem (unix_nano (env_now env)) upperBound)"

lemma kp_randIntn_outcome:
  "0 < n \<Longrightarrow> kp_randIntn env n = rand_outcome (env_now env) (env_rand env) n"
  by (simp add: kp_randIntn_def rand_outcome_def)

lemma kp_randIntn_bounds [contract]:
  "env_ok env \<Longrightarrow> 0 < n \<Longrightarrow> 0 \<le> kp_randIntn env n \<and> kp_randIntn env n < n"
  by (simp add: kp_randIntn_outcome env_ok_def rand_outcome_bounds)

section \<open>The strategies\<close>

definition LeastLoaded_Select :: "sel_env \<Rightarrow> key_metadata list \<Rightarrow> key_err + key_metadata" where
  "LeastLoaded_Select env keys =
     (if keys = [] then Inl ErrNoKeys
      else let availableKeys = lo_filter (env_lo env) (IsAvailable (env_now env)) keys
           in if availableKeys = [] then Inl ErrAllKeysExhausted
              else Inr (lo_max_by (env_lo env)
                (\<lambda>a b. GetCapacityScore (env_fl env) (env_now env) a >
                       GetCapacityScore (env_fl env) (env_now env) b) availableKeys))"

text \<open>The loop of the round robin over the offsets from the start index.\<close>

fun rr_scan :: "go_time \<Rightarrow> key_metadata list \<Rightarrow> nat \<Rightarrow> nat list \<Rightarrow> key_err + key_metadata" where
  "rr_scan now keys startIdx [] = Inl ErrAllKeysExhausted"
| "rr_scan now keys startIdx (i # is) =
     (let key = keys ! ((startIdx + i) mod length keys)
      in if IsAvailable now key then Inr key else rr_scan now keys startIdx is)"

definition RoundRobin_Select ::
    "sel_env \<Rightarrow> 64 word \<Rightarrow> key_metadata list \<Rightarrow> (key_err + key_metadata) \<times> 64 word" where
  "RoundRobin_Select env index keys =
     (if keys = [] then (Inl ErrNoKeys, index)
      else let index' = index + 1;
               nextIndex = index' - 1;
               startIdx64 = nextIndex mod word_of_nat (length keys);
               maxInt = (2 ^ 63 - 1 :: 64 word)
           in if startIdx64 > maxInt then (Inl ErrNoKeys, index')
              else (rr_scan (env_now env) keys (unat startIdx64) [0..<length keys], index'))"

definition Random_Select :: "sel_env \<Rightarrow> key_metadata list \<Rightarrow> key_err + key_metadata" where
  "Random_Select env keys =
     (if keys = [] then Inl ErrNoKeys
      else let availableKeys = lo_filter (env_lo env) (IsAvailable (env_now env)) keys
           in if availableKeys = [] then Inl ErrAllKeysExhausted
              else Inr (availableKeys ! nat (kp_randIntn env (int (length availableKeys)))))"

definition effectiveKeyWeight :: "int \<Rightarrow> int" where
  "effectiveKeyWeight weight = (if weight \<le> 0 then 1 else weight)"

fun weighted_walk :: "key_metadata list \<Rightarrow> int \<Rightarrow> key_metadata option" where
  "weighted_walk [] roll = None"
| "weighted_walk (key # keys) roll =
     (let w = effectiveKeyWeight (k_Weight key)
      in if roll < w then Some key else weighted_walk keys (roll - w))"

definition Weighted_Select :: "sel_env \<Rightarrow> key_metadata list \<Rightarrow> key_err + key_metadata" where
  "Weighted_Select env keys =
     (if keys = [] then Inl ErrNoKeys
      else let availableKeys = lo_filter (env_lo env) (IsAvailable (env_now env)) keys
           in if availableKeys = [] then Inl ErrAllKeysExhausted
              else let totalWeight =
                         wrap_sum (map (\<lambda>key. effectiveKeyWeight (k_Weight key)) availableKeys)
                   in if totalWeight \<le> 0 then Inr (hd availableKeys)
                      else case weighted_walk availableKeys (kp_randIntn env totalWeight) of
                             Some key \<Rightarrow> Inr key
                           | None \<Rightarrow> Inr (last availableKeys))"

text \<open>A \<open>KeySelector\<close> value with its state; only the round robin has one.\<close>

datatype selector = LeastLoaded | RoundRobin "64 word" | RandomSelector | Weighted

definition inner_Select ::
    "sel_env \<Rightarrow> selector \<Rightarrow> key_metadata list \<Rightarrow> (key_err + key_metadata) \<times> selector" where
  "inner_Select env s keys =
     (case s of
        LeastLoaded \<Rightarrow> (LeastLoaded_Select env keys, s)
      | RoundRobin index \<Rightarrow>
          (let (r, index') = RoundRobin_Select env index keys in (r, RoundRobin index'))
      | RandomSelector \<Rightarrow> (Random_Select env keys, s)
      | Weighted \<Rightarrow> (Weighted_Select env keys, s))"

definition selector_Name :: "selector \<Rightarrow> string" where
  "selector_Name s =
     (case s of LeastLoaded \<Rightarrow> ''least_loaded'' | RoundRobin _ \<Rightarrow> ''round_robin''
      | RandomSelector \<Rightarrow> ''random'' | Weighted \<Rightarrow> ''weighted'')"

definition NewSelector :: "string \<Rightarrow> key_err + selector" where
  "NewSelector strategy =
     (if strategy = ''least_loaded'' \<or> strategy = '''' then Inr LeastLoaded
      else if strategy = ''round_robin'' then Inr (RoundRobin 0)
      else if strategy = ''random'' then Inr RandomSelector
      else if strategy = ''weighted'' then Inr Weighted
      else Inl (ErrUnknownStrategy strategy))"

section \<open>Priority tiers\<close>

fun tier_loop ::
    "('s \<Rightarrow> key_metadata list \<Rightarrow> (key_err + key_metadata) \<times> 's) \<Rightarrow>
     (int \<Rightarrow> key_metadata list) \<Rightarrow> 's \<Rightarrow> int list \<Rightarrow> (key_err + key_metadata) \<times> 's" where
  "tier_loop inner tiers s [] = (Inl ErrAllKeysExhausted, s)"
| "tier_loop inner tiers s (level # levels) =
     (case inner s (tiers level) of
        (Inr key, s') \<Rightarrow> (Inr key, s')
      | (Inl err, s') \<Rightarrow>
          if err = ErrAllKeysExhausted then tier_loop inner tiers s' levels else (Inl err, s'))"

definition PriorityTier_Select ::
    "('s \<Rightarrow> key_metadata list \<Rightarrow> (key_err + key_metadata) \<times> 's) \<Rightarrow>
     's \<Rightarrow> key_metadata list \<Rightarrow> (key_err + key_metadata) \<times> 's" where
  "PriorityTier_Select inner s keys =
     (if keys = [] then (Inl ErrNoKeys, s)
      else tier_loop inner (group_by k_Priority keys) s (levels_desc k_Priority keys))"

definition tier_Name :: "selector \<Rightarrow> string" where
  "tier_Name s = ''priority_tier('' @ selector_Name s @ '')''"

section \<open>The contract of a key selector\<close>

locale key_selector =
  fixes sel :: "sel_env \<Rightarrow> 's \<Rightarrow> key_metadata list \<Rightarrow> (key_err + key_metadata) \<times> 's"
  assumes sel_empty: "env_ok env \<Longrightarrow> fst (sel env s []) = Inl ErrNoKeys"
    and sel_none: "env_ok env \<Longrightarrow> slice_ok keys \<Longrightarrow> keys \<noteq> [] \<Longrightarrow>
      \<forall>k \<in> set keys. \<not> IsAvailable (env_now env) k \<Longrightarrow>
      fst (sel env s keys) = Inl ErrAllKeysExhausted"
    and sel_some: "env_ok env \<Longrightarrow> slice_ok keys \<Longrightarrow>
      \<exists>k \<in> set keys. IsAvailable (env_now env) k \<Longrightarrow>
      \<exists>r. fst (sel env s keys) = Inr r \<and> r \<in> set keys \<and> IsAvailable (env_now env) r"
begin

lemma sel_Inr:
  assumes "env_ok env" "slice_ok keys" "fst (sel env s keys) = Inr r"
  shows "r \<in> set keys \<and> IsAvailable (env_now env) r"
proof (cases "\<exists>k \<in> set keys. IsAvailable (env_now env) k")
  case True
  with sel_some [OF assms(1,2)] assms(3) show ?thesis by (metis Inr_inject)
next
  case False
  with sel_none [OF assms(1,2)] sel_empty [OF assms(1)] assms(3) show ?thesis
    by (cases "keys = []") auto
qed

lemma tier_loop_none:
  assumes "env_ok env"
    and "\<forall>l \<in> set levels. slice_ok (tiers l) \<and> tiers l \<noteq> [] \<and>
      (\<forall>k \<in> set (tiers l). \<not> IsAvailable (env_now env) k)"
  shows "fst (tier_loop (sel env) tiers s levels) = Inl ErrAllKeysExhausted"
  using assms(2)
proof (induction levels arbitrary: s)
  case Nil
  then show ?case by simp
next
  case (Cons l levels)
  then have "fst (sel env s (tiers l)) = Inl ErrAllKeysExhausted"
    by (intro sel_none [OF assms(1)]) auto
  with Cons show ?case by (auto split: prod.split sum.split)
qed

lemma tier_loop_some:
  assumes env: "env_ok env"
    and "\<forall>l \<in> set levels. slice_ok (tiers l) \<and> tiers l \<noteq> []"
    and "\<exists>l \<in> set levels. \<exists>k \<in> set (tiers l). IsAvailable (env_now env) k"
    and "sorted_wrt (\<ge>) levels"
  shows "\<exists>r l. fst (tier_loop (sel env) tiers s levels) = Inr r \<and> l \<in> set levels \<and>
    r \<in> set (tiers l) \<and> IsAvailable (env_now env) r \<and>
    (\<forall>m \<in> set levels. (\<exists>k \<in> set (tiers m). IsAvailable (env_now env) k) \<longrightarrow> m \<le> l)"
  using assms(2-)
proof (induction levels arbitrary: s)
  case Nil
  then show ?case by simp
next
  case (Cons l levels)
  show ?case
  proof (cases "\<exists>k \<in> set (tiers l). IsAvailable (env_now env) k")
    case True
    then obtain r where "fst (sel env s (tiers l)) = Inr r" "r \<in> set (tiers l)"
      "IsAvailable (env_now env) r"
      using sel_some [OF env, of "tiers l" s] Cons.prems by auto
    then show ?thesis
      using Cons.prems(3) by (auto split: prod.split intro!: exI [of _ l])
  next
    case False
    then have "fst (sel env s (tiers l)) = Inl ErrAllKeysExhausted"
      using Cons.prems by (intro sel_none [OF env]) auto
    then obtain s' where s': "sel env s (tiers l) = (Inl ErrAllKeysExhausted, s')"
      by (metis prod.collapse)
    have "\<exists>r m. fst (tier_loop (sel env) tiers s' levels) = Inr r \<and> m \<in> set levels \<and>
        r \<in> set (tiers m) \<and> IsAvailable (env_now env) r \<and>
        (\<forall>q \<in> set levels. (\<exists>k \<in> set (tiers q). IsAvailable (env_now env) k) \<longrightarrow> q \<le> m)"
      by (rule Cons.IH) (use Cons.prems False in auto)
    with s' False show ?thesis by auto
  qed
qed

lemma tier_empty: "fst (PriorityTier_Select (sel env) s []) = Inl ErrNoKeys"
  by (simp add: PriorityTier_Select_def)

lemma tier_none:
  assumes "env_ok env" "slice_ok keys" "keys \<noteq> []"
    and "\<forall>k \<in> set keys. \<not> IsAvailable (env_now env) k"
  shows "fst (PriorityTier_Select (sel env) s keys) = Inl ErrAllKeysExhausted"
  using assms tier_loop_none [OF assms(1), of "levels_desc k_Priority keys" "group_by k_Priority keys" s]
  by (auto simp: PriorityTier_Select_def group_by_filter filter_empty_conv)

lemma tier_top:
  assumes "env_ok env" "slice_ok keys"
    and "\<exists>k \<in> set keys. IsAvailable (env_now env) k"
  shows "\<exists>r. fst (PriorityTier_Select (sel env) s keys) = Inr r \<and> r \<in> set keys \<and>
    IsAvailable (env_now env) r \<and>
    (\<forall>k \<in> set keys. IsAvailable (env_now env) k \<longrightarrow> k_Priority k \<le> k_Priority r)"
proof -
  let ?T = "group_by k_Priority keys" and ?L = "levels_desc k_Priority keys"
  have "\<forall>l \<in> set ?L. slice_ok (?T l) \<and> ?T l \<noteq> []"
    using assms(2) by (auto simp: group_by_filter filter_empty_conv)
  moreover have "\<exists>l \<in> set ?L. \<exists>k \<in> set (?T l). IsAvailable (env_now env) k"
    using assms(3) by (auto simp: group_by_filter)
  ultimately obtain r l where r: "fst (tier_loop (sel env) ?T s ?L) = Inr r" "l \<in> set ?L"
      "r \<in> set (?T l)" "IsAvailable (env_now env) r"
    and top: "\<forall>m \<in> set ?L. (\<exists>k \<in> set (?T m). IsAvailable (env_now env) k) \<longrightarrow> m \<le> l"
    using tier_loop_some [OF assms(1) _ _ sorted_levels_desc] by blast
  have "k_Priority k \<le> k_Priority r" if "k \<in> set keys" "IsAvailable (env_now env) k" for k
    using that top r(3) by (auto simp: group_by_filter)
  moreover have "keys \<noteq> []" using assms(3) by auto
  ultimately show ?thesis
    using r by (auto simp: PriorityTier_Select_def group_by_filter)
qed

end

text \<open>A selector that also serves the highest available priority, as the pool's does.\<close>

locale tiered_selector = key_selector +
  assumes sel_top: "env_ok env \<Longrightarrow> slice_ok keys \<Longrightarrow> fst (sel env s keys) = Inr r \<Longrightarrow>
    k \<in> set keys \<Longrightarrow> IsAvailable (env_now env) k \<Longrightarrow> k_Priority k \<le> k_Priority r"

section \<open>The strategies meet the contract\<close>

lemma available_filter [simp]:
  "env_ok env \<Longrightarrow> lo_filter (env_lo env) P keys = filter P keys"
  by (simp add: env_ok_def)

lemma LeastLoaded_Select_Inr:
  assumes "env_ok env" "\<exists>k \<in> set keys. IsAvailable (env_now env) k"
  shows "\<exists>r. LeastLoaded_Select env keys = Inr r \<and> r \<in> set keys \<and> IsAvailable (env_now env) r \<and>
    (\<forall>k \<in> set keys. IsAvailable (env_now env) k \<longrightarrow>
       GetCapacityScore (env_fl env) (env_now env) k \<le> GetCapacityScore (env_fl env) (env_now env) r)"
proof -
  let ?A = "filter (IsAvailable (env_now env)) keys"
  let ?f = "GetCapacityScore (env_fl env) (env_now env)"
  let ?r = "lo_max_by (env_lo env) (\<lambda>a b. ?f a > ?f b) ?A"
  have ne: "?A \<noteq> []" using assms(2) by (simp add: filter_empty_conv)
  have lo: "lo_ok (env_lo env)" using assms(1) by (simp add: env_ok_def)
  have "?r \<in> set ?A" by (rule lo_max_by_mem [OF lo ne])
  moreover have "?f k \<le> ?f ?r" if "k \<in> set ?A" for k
    by (rule lo_max_by_greatest [OF lo that])
  moreover have "LeastLoaded_Select env keys = Inr ?r"
    using assms ne by (auto simp: LeastLoaded_Select_def Let_def)
  ultimately show ?thesis by auto
qed

interpretation ll: key_selector "\<lambda>env s keys. (LeastLoaded_Select env keys, s)"
proof unfold_locales
  fix env :: sel_env and s and keys :: "key_metadata list"
  assume "env_ok env" "\<exists>k \<in> set keys. IsAvailable (env_now env) k"
  then show "\<exists>r. fst (LeastLoaded_Select env keys, s) = Inr r \<and> r \<in> set keys \<and>
      IsAvailable (env_now env) r"
    using LeastLoaded_Select_Inr by fastforce
qed (auto simp: LeastLoaded_Select_def Let_def filter_empty_conv)

lemma rr_scan_none:
  "\<forall>i \<in> set is. \<not> IsAvailable now (keys ! ((s + i) mod length keys)) \<Longrightarrow>
   rr_scan now keys s is = Inl ErrAllKeysExhausted"
  by (induction "is") (auto simp: Let_def)

lemma rr_scan_some:
  "\<exists>i \<in> set is. IsAvailable now (keys ! ((s + i) mod length keys)) \<Longrightarrow>
   \<exists>i \<in> set is. rr_scan now keys s is = Inr (keys ! ((s + i) mod length keys)) \<and>
     IsAvailable now (keys ! ((s + i) mod length keys))"
  by (induction "is") (auto simp: Let_def)

lemma rotation_reaches:
  assumes "k \<in> set xs"
  shows "\<exists>i < length xs. xs ! ((s + i) mod length xs) = k"
proof -
  have "k \<in> set (map (\<lambda>i. xs ! ((s + i) mod length xs)) [0..<length xs])"
    using rotate_nth_mset [of xs s] assms by (metis set_mset_mset)
  then show ?thesis by auto
qed

lemma start_index_small:
  fixes idx :: "64 word"
  assumes "slice_ok xs" "xs \<noteq> []"
  shows "\<not> idx mod word_of_nat (length xs) > 2 ^ 63 - 1"
proof -
  have "unat (idx mod word_of_nat (length xs)) < 2 ^ 63"
    using counter_index(2) [OF assms, of idx] assms(1) by (simp add: slice_ok_def)
  then show ?thesis by (simp add: word_less_nat_alt)
qed

lemma RoundRobin_Select_eq:
  assumes "slice_ok keys" "keys \<noteq> []"
  shows "RoundRobin_Select env idx keys =
    (rr_scan (env_now env) keys (unat idx mod length keys) [0..<length keys], idx + 1)"
  using assms counter_index [OF assms, of idx] start_index_small [OF assms, of idx]
  by (simp add: RoundRobin_Select_def Let_def)

interpretation rr: key_selector RoundRobin_Select
proof unfold_locales
  fix env :: sel_env and idx :: "64 word" and keys :: "key_metadata list"
  assume "slice_ok keys" "keys \<noteq> []" "\<forall>k \<in> set keys. \<not> IsAvailable (env_now env) k"
  then show "fst (RoundRobin_Select env idx keys) = Inl ErrAllKeysExhausted"
    by (simp add: RoundRobin_Select_eq) (rule rr_scan_none, simp)
next
  fix env :: sel_env and idx :: "64 word" and keys :: "key_metadata list"
  assume a: "slice_ok keys" "\<exists>k \<in> set keys. IsAvailable (env_now env) k"
  then have ne: "keys \<noteq> []" by auto
  let ?s = "unat idx mod length keys"
  obtain i where "i < length keys" "IsAvailable (env_now env) (keys ! ((?s + i) mod length keys))"
    using a(2) rotation_reaches by metis
  then have "\<exists>i \<in> set [0..<length keys]. IsAvailable (env_now env) (keys ! ((?s + i) mod length keys))"
    by auto
  from rr_scan_some [OF this] obtain j where
    "rr_scan (env_now env) keys ?s [0..<length keys] = Inr (keys ! ((?s + j) mod length keys))"
    "IsAvailable (env_now env) (keys ! ((?s + j) mod length keys))"
    by blast
  then show "\<exists>r. fst (RoundRobin_Select env idx keys) = Inr r \<and> r \<in> set keys \<and>
      IsAvailable (env_now env) r"
    using ne by (simp add: RoundRobin_Select_eq [OF a(1) ne])
qed (simp add: RoundRobin_Select_def)

lemma random_pick_mem:
  assumes "env_ok env" "xs \<noteq> []"
  shows "xs ! nat (kp_randIntn env (int (length xs))) \<in> set xs"
  using kp_randIntn_bounds [OF assms(1), of "int (length xs)"] assms(2) 
  by (intro nth_mem) (simp add: nat_less_iff)

interpretation rnd: key_selector "\<lambda>env s keys. (Random_Select env keys, s)"
proof unfold_locales
  fix env :: sel_env and s and keys :: "key_metadata list"
  assume a: "env_ok env" "\<exists>k \<in> set keys. IsAvailable (env_now env) k"
  let ?A = "filter (IsAvailable (env_now env)) keys"
  have "?A \<noteq> []" using a(2) by (simp add: filter_empty_conv)
  from random_pick_mem [OF a(1) this] this a
  show "\<exists>r. fst (Random_Select env keys, s) = Inr r \<and> r \<in> set keys \<and> IsAvailable (env_now env) r"
    by (auto simp: Random_Select_def Let_def)
qed (auto simp: Random_Select_def Let_def filter_empty_conv)

lemma weighted_walk_mem: "weighted_walk keys r = Some k \<Longrightarrow> k \<in> set keys"
  by (induction keys r rule: weighted_walk.induct) (auto simp: Let_def split: if_splits)

lemma weighted_walk_index:
  "weighted_walk keys r =
     map_option ((!) keys) (pick_index (map (\<lambda>k. effectiveKeyWeight (k_Weight k)) keys) r)"
  by (induction keys r rule: weighted_walk.induct) (auto simp: Let_def option.map_comp comp_def)

interpretation wt: key_selector "\<lambda>env s keys. (Weighted_Select env keys, s)"
proof unfold_locales
  fix env :: sel_env and s and keys :: "key_metadata list"
  assume a: "env_ok env" "\<exists>k \<in> set keys. IsAvailable (env_now env) k"
  let ?A = "filter (IsAvailable (env_now env)) keys"
  have ne: "?A \<noteq> []" using a(2) by (simp add: filter_empty_conv)
  have "hd ?A \<in> set ?A" by (rule hd_in_set [OF ne])
  moreover have "last ?A \<in> set ?A" by (rule last_in_set [OF ne])
  ultimately have "\<exists>r \<in> set ?A. Weighted_Select env keys = Inr r"
    using a ne by (auto simp: Weighted_Select_def Let_def split: option.split dest: weighted_walk_mem)
  then show "\<exists>r. fst (Weighted_Select env keys, s) = Inr r \<and> r \<in> set keys \<and>
      IsAvailable (env_now env) r"
    by auto
qed (auto simp: Weighted_Select_def Let_def filter_empty_conv)

lemma inner_Select_cases:
  "fst (inner_Select env s keys) =
     (case s of LeastLoaded \<Rightarrow> LeastLoaded_Select env keys
      | RoundRobin index \<Rightarrow> fst (RoundRobin_Select env index keys)
      | RandomSelector \<Rightarrow> Random_Select env keys
      | Weighted \<Rightarrow> Weighted_Select env keys)"
  by (simp add: inner_Select_def split: selector.split prod.split)

lemmas selector_empty = ll.sel_empty rr.sel_empty rnd.sel_empty wt.sel_empty
lemmas selector_none = ll.sel_none rr.sel_none rnd.sel_none wt.sel_none
lemmas selector_some = ll.sel_some rr.sel_some rnd.sel_some wt.sel_some

interpretation inner: key_selector inner_Select
proof unfold_locales
  fix env :: sel_env and s
  assume "env_ok env"
  with selector_empty [OF this] show "fst (inner_Select env s []) = Inl ErrNoKeys"
    by (simp add: inner_Select_cases split: selector.split)
next
  fix env :: sel_env and s and keys :: "key_metadata list"
  assume "env_ok env" "slice_ok keys" "keys \<noteq> []" "\<forall>k \<in> set keys. \<not> IsAvailable (env_now env) k"
  with selector_none [OF this] show "fst (inner_Select env s keys) = Inl ErrAllKeysExhausted"
    by (simp add: inner_Select_cases split: selector.split)
next
  fix env :: sel_env and s and keys :: "key_metadata list"
  assume "env_ok env" "slice_ok keys" "\<exists>k \<in> set keys. IsAvailable (env_now env) k"
  with selector_some [OF this] show "\<exists>r. fst (inner_Select env s keys) = Inr r \<and> r \<in> set keys \<and>
      IsAvailable (env_now env) r"
    by (simp add: inner_Select_cases split: selector.split)
qed

interpretation tier: tiered_selector "\<lambda>env. PriorityTier_Select (inner_Select env)"
proof unfold_locales
  fix env :: sel_env and s and keys :: "key_metadata list"
  assume "env_ok env" "slice_ok keys" "\<exists>k \<in> set keys. IsAvailable (env_now env) k"
  from inner.tier_top [OF this, of s]
  show "\<exists>r. fst (PriorityTier_Select (inner_Select env) s keys) = Inr r \<and> r \<in> set keys \<and>
      IsAvailable (env_now env) r"
    by blast
next
  fix env :: sel_env and s r k and keys :: "key_metadata list"
  assume a: "env_ok env" "slice_ok keys" "fst (PriorityTier_Select (inner_Select env) s keys) = Inr r"
    "k \<in> set keys" "IsAvailable (env_now env) k"
  then have "\<exists>k \<in> set keys. IsAvailable (env_now env) k" by blast
  from inner.tier_top [OF a(1,2) this, of s] a(3-) show "k_Priority k \<le> k_Priority r" by auto
qed (simp_all add: inner.tier_empty inner.tier_none)

section \<open>Properties\<close>

text \<open>
  The selector a pool uses (priority tiers over any of the four strategies) returns an
  available key of the highest priority that has one whenever some key is available, reports
  \<open>ErrAllKeysExhausted\<close> when none is, and \<open>ErrNoKeys\<close> for an empty list.
\<close>

lemma PriorityTier_Select_spec:
  assumes "env_ok env" and "slice_ok keys"
  shows "case fst (PriorityTier_Select (inner_Select env) s keys) of
      Inr r \<Rightarrow> r \<in> set keys \<and> IsAvailable (env_now env) r \<and>
        (\<forall>k \<in> set keys. IsAvailable (env_now env) k \<longrightarrow> k_Priority k \<le> k_Priority r)
    | Inl e \<Rightarrow> (\<forall>k \<in> set keys. \<not> IsAvailable (env_now env) k) \<and>
        e = (if keys = [] then ErrNoKeys else ErrAllKeysExhausted)"
proof (cases "\<exists>k \<in> set keys. IsAvailable (env_now env) k")
  case True
  from inner.tier_top [OF assms this, of s] show ?thesis by auto
next
  case False
  then show ?thesis
    using inner.tier_none [OF assms, of s] inner.tier_empty by (cases "keys = []") auto
qed

definition demo_env :: sel_env where
  "demo_env = \<lparr>env_now = 70000000000 * nsec_per_sec, env_fl = (\<lambda>x. x),
     env_rand = (\<lambda>_. None), env_lo = std_lo\<rparr>"

lemma demo_env_ok [simp]: "env_ok demo_env"
  by (simp add: env_ok_def demo_env_def rand_ok_def clock_ok_def unix_nano_def wrap64_def nsec_per_sec_def)

definition demo_key :: key_metadata where
  "demo_key = NewKeyMetadata 0 ''sk-abcdef'' 50 30000 30000"

lemma demo_key_available [simp]: "IsAvailable (env_now demo_env) demo_key"
  by (simp add: IsAvailable_def demo_key_def demo_env_def nsec_per_sec_def)

lemma PriorityTier_Select_spec_witness:
  "case fst (PriorityTier_Select (inner_Select demo_env) Weighted [demo_key]) of
     Inr r \<Rightarrow> r = demo_key | Inl e \<Rightarrow> False"
  using PriorityTier_Select_spec [of demo_env "[demo_key]" Weighted]
  by (auto simp: slice_ok_def split: sum.splits)

text \<open>
  The least-loaded strategy returns a key whose capacity score no available key exceeds.
\<close>

lemma LeastLoaded_Select_maximal:
  assumes "env_ok env" and "LeastLoaded_Select env keys = Inr r"
    and "k \<in> set keys" and "IsAvailable (env_now env) k"
  shows "r \<in> set keys \<and> IsAvailable (env_now env) r \<and>
    GetCapacityScore (env_fl env) (env_now env) k \<le> GetCapacityScore (env_fl env) (env_now env) r"
  using LeastLoaded_Select_Inr [OF assms(1), of keys] assms by auto

lemma LeastLoaded_Select_maximal_witness:
  "\<exists>r. LeastLoaded_Select demo_env [demo_key\<lparr>k_RPMRemaining := 1\<rparr>, demo_key] = Inr r \<and>
     GetCapacityScore (env_fl demo_env) (env_now demo_env) demo_key \<le>
     GetCapacityScore (env_fl demo_env) (env_now demo_env) r"
proof -
  let ?keys = "[demo_key\<lparr>k_RPMRemaining := 1\<rparr>, demo_key]"
  have "\<exists>k \<in> set ?keys. IsAvailable (env_now demo_env) k" by simp
  then obtain r where r: "LeastLoaded_Select demo_env ?keys = Inr r"
    using LeastLoaded_Select_Inr [OF demo_env_ok] by blast
  from LeastLoaded_Select_maximal [OF demo_env_ok r, of demo_key] r show ?thesis by auto
qed

text \<open>The keys that \<open>n\<close> consecutive round-robin selections return.\<close>

fun rr_run :: "sel_env \<Rightarrow> nat \<Rightarrow> 64 word \<Rightarrow> key_metadata list \<Rightarrow> (key_err + key_metadata) list" where
  "rr_run env 0 idx keys = []"
| "rr_run env (Suc n) idx keys =
     (let (r, idx') = RoundRobin_Select env idx keys in r # rr_run env n idx' keys)"

lemma rr_run_eq:
  assumes "slice_ok keys" "keys \<noteq> []" "\<forall>k \<in> set keys. IsAvailable (env_now env) k"
  shows "unat idx + n \<le> 2 ^ 64 - 1 \<Longrightarrow> rr_run env n idx keys =
    map (\<lambda>i. Inr (keys ! ((unat idx + i) mod length keys))) [0..<n]"
proof (induction n arbitrary: idx)
  case 0
  then show ?case by simp
next
  case (Suc n)
  have step: "RoundRobin_Select env idx keys = (Inr (keys ! (unat idx mod length keys)), idx + 1)"
  proof -
    have "keys ! (unat idx mod length keys) \<in> set keys" using assms(2) by simp
    moreover have "[0..<length keys] = 0 # [Suc 0..<length keys]"
      using assms(2) by (simp add: upt_conv_Cons)
    ultimately show ?thesis
      using assms(3) by (simp add: RoundRobin_Select_eq [OF assms(1,2)])
  qed
  have "unat (idx + 1) = unat idx + 1"
    using Suc.prems by (simp add: unat_word_ariths)
  with Suc show ?case
    by (simp add: step upt_conv_Cons map_Suc_upt [symmetric] comp_def del: upt_Suc)
qed

text \<open>
  Round robin is fair: over as many consecutive selections as there are keys, all available,
  every key is returned exactly once, from any counter value that does not wrap on the way.
\<close>

lemma RoundRobin_fair:
  assumes "slice_ok keys" and "\<forall>k \<in> set keys. IsAvailable (env_now env) k"
    and "unat idx + length keys \<le> 2 ^ 64 - 1"
  shows "mset (rr_run env (length keys) idx keys) = mset (map Inr keys)"
proof (cases "keys = []")
  case True
  then show ?thesis by simp
next
  case False
  let ?served = "map (\<lambda>i. keys ! ((unat idx + i) mod length keys)) [0..<length keys]"
  have "rr_run env (length keys) idx keys = map Inr ?served"
    using rr_run_eq [OF assms(1) False assms(2,3)] by (simp add: comp_def)
  then have "mset (rr_run env (length keys) idx keys) = image_mset Inr (mset ?served)"
    by (simp only: mset_map)
  also have "\<dots> = mset (map Inr keys)"
    by (subst rotate_nth_mset) simp
  finally show ?thesis .
qed

lemma RoundRobin_fair_witness:
  "mset (rr_run demo_env (length [demo_key, demo_key\<lparr>k_ID := ''b''\<rparr>]) 7
     [demo_key, demo_key\<lparr>k_ID := ''b''\<rparr>]) =
   mset (map Inr [demo_key, demo_key\<lparr>k_ID := ''b''\<rparr>])"
proof (rule RoundRobin_fair)
  have "IsAvailable (env_now demo_env) (demo_key\<lparr>k_ID := ''b''\<rparr>)" by code_simp
  then show "\<forall>k \<in> set [demo_key, demo_key\<lparr>k_ID := ''b''\<rparr>]. IsAvailable (env_now demo_env) k" by simp
qed (simp_all add: slice_ok_def)

lemma effectiveKeyWeight_pos [simp]: "0 < effectiveKeyWeight w"
  by (simp add: effectiveKeyWeight_def)

text \<open>
  Weighted selection is proportional: among the rolls below the total weight of the available
  keys, exactly the effective weight of a key many select it (keys pairwise different, total
  below \<open>2 ^ 63\<close>).
\<close>

lemma Weighted_Select_share:
  fixes env :: sel_env and keys :: "key_metadata list"
  defines "A \<equiv> filter (IsAvailable (env_now env)) keys"
  defines "W \<equiv> sum_list (map (\<lambda>k. effectiveKeyWeight (k_Weight k)) A)"
  assumes "env_ok env" and "distinct A" and "i < length A" and "W < 2 ^ 63"
  shows "card {r. 0 \<le> r \<and> r < W \<and>
      Weighted_Select (env\<lparr>env_rand := (\<lambda>_. Some r)\<rparr>) keys = Inr (A ! i)} =
    nat (effectiveKeyWeight (k_Weight (A ! i)))"
proof -
  let ?w = "\<lambda>k. effectiveKeyWeight (k_Weight k)"
  have ne: "A \<noteq> []" "keys \<noteq> []" using assms(5) by (auto simp: A_def)
  have tot: "wrap_sum (map ?w A) = W"
    using assms(6) by (simp add: W_def wrap_sum_small less_imp_le)
  have pos: "0 < W"
    using ne(1) by (simp add: W_def sum_list_pos)
  have lo: "lo_ok (env_lo env)" using assms(3) by (simp add: env_ok_def)
  have sel: "Weighted_Select (env\<lparr>env_rand := (\<lambda>_. Some r)\<rparr>) keys = Inr (A ! i) \<longleftrightarrow>
      pick_index (map ?w A) r = Some i" if r: "0 \<le> r" "r < W" for r
  proof -
    obtain j where j: "pick_index (map ?w A) r = Some j"
      using pick_index_total r by (metis W_def)
    then have "j < length A" using pick_index_bound by fastforce
    then have "A ! j = A ! i \<longleftrightarrow> j = i"
      using assms(4,5) by (simp add: nth_eq_iff_index_eq)
    moreover have "Weighted_Select (env\<lparr>env_rand := (\<lambda>_. Some r)\<rparr>) keys = Inr (A ! j)"
      using ne pos lo j
      by (simp add: Weighted_Select_def kp_randIntn_def A_def [symmetric] tot weighted_walk_index)
    ultimately show ?thesis using j by simp
  qed
  have "{r. 0 \<le> r \<and> r < W \<and> Weighted_Select (env\<lparr>env_rand := (\<lambda>_. Some r)\<rparr>) keys = Inr (A ! i)} =
      {r. 0 \<le> r \<and> r < sum_list (map ?w A) \<and> pick_index (map ?w A) r = Some i}"
    using sel by (auto simp: W_def)
  then show ?thesis
    using pick_index_share [of "map ?w A" i] assms(5) by simp
qed

lemma Weighted_Select_share_witness:
  "card {r. 0 \<le> r \<and> r < 4 \<and>
     Weighted_Select (demo_env\<lparr>env_rand := (\<lambda>_. Some r)\<rparr>)
       [demo_key, demo_key\<lparr>k_Weight := 3\<rparr>] = Inr (demo_key\<lparr>k_Weight := 3\<rparr>)} = 3"
proof -
  have av: "IsAvailable (env_now demo_env) (demo_key\<lparr>k_Weight := 3\<rparr>)" by code_simp
  have w: "k_Weight demo_key = 1" by code_simp
  then have ne: "demo_key \<noteq> demo_key\<lparr>k_Weight := 3\<rparr>" by (metis key_metadata.select_convs(16) key_metadata.surjective key_metadata.update_convs(16) numeral_eq_one_iff semiring_norm(84))
  show ?thesis
    using Weighted_Select_share [of demo_env "[demo_key, demo_key\<lparr>k_Weight := 3\<rparr>]" 1] av ne w
    by (simp add: effectiveKeyWeight_def)
qed

end
