(* ===== verification/Rate_Limit.thy ===== *)
theory Rate_Limit
  imports CR_Prelude
begin

text \<open>
  The per-key rate limiter (\<open>internal/ratelimit\<close>): \<open>TokenBucketLimiter\<close> keeps two limiters of
  the third-party package \<open>golang.org/x/time/rate\<close>, one for requests and one for tokens. That
  package is a parameter (\<open>rate_lib\<close>) with its documented contract (\<open>rate_ok\<close>): a new limiter is
  full, \<open>Allow\<close> takes one token if there is one, and a reservation is OK exactly when it does
  not exceed the burst. The reactive helpers of \<open>ro_limiter.go\<close> close the theory.
\<close>

section \<open>The interface of \<open>golang.org/x/time/rate\<close>\<close>

datatype rl_err = ErrRateLimitExceeded | ErrContextCancelled | RateErr string

text \<open>
  \<open>rl_wait_n\<close> returns the error of \<open>WaitN\<close>, whether the context is done when it returns, and
  the limiter. A context is whatever the caller passes (\<open>'c\<close>).
\<close>

record ('l, 'r, 'c) rate_lib =
  rl_new :: "rat \<Rightarrow> int \<Rightarrow> 'l"
  rl_burst :: "'l \<Rightarrow> int"
  rl_tokens :: "go_time \<Rightarrow> 'l \<Rightarrow> rat"
  rl_allow :: "go_time \<Rightarrow> 'l \<Rightarrow> bool \<times> 'l"
  rl_reserve_n :: "go_time \<Rightarrow> int \<Rightarrow> 'l \<Rightarrow> 'r \<times> 'l"
  rl_res_ok :: "'r \<Rightarrow> bool"
  rl_cancel :: "go_time \<Rightarrow> 'r \<Rightarrow> 'l \<Rightarrow> 'l"
  rl_wait_n :: "'c \<Rightarrow> int \<Rightarrow> 'l \<Rightarrow> string option \<times> bool \<times> 'l"

definition rate_ok :: "('l, 'r, 'c) rate_lib \<Rightarrow> bool" where
  "rate_ok RL \<longleftrightarrow>
     (\<forall>r b. rl_burst RL (rl_new RL r b) = b) \<and>
     (\<forall>r b now. 0 \<le> b \<longrightarrow> rl_tokens RL now (rl_new RL r b) = of_int b) \<and>
     (\<forall>now l. fst (rl_allow RL now l) \<longleftrightarrow> 1 \<le> rl_tokens RL now l) \<and>
     (\<forall>now l. rl_burst RL (snd (rl_allow RL now l)) = rl_burst RL l) \<and>
     (\<forall>now l. rl_tokens RL now (snd (rl_allow RL now l)) =
        (if fst (rl_allow RL now l) then rl_tokens RL now l - 1 else rl_tokens RL now l)) \<and>
     (\<forall>now n l. rl_res_ok RL (fst (rl_reserve_n RL now n l)) \<longleftrightarrow> n \<le> rl_burst RL l)"

section \<open>The token bucket limiter\<close>

record 'l token_bucket =
  tb_request :: 'l
  tb_token :: 'l
  tb_rpm :: int
  tb_tpm :: int

definition unlimitedRate :: int where "unlimitedRate = 1000000"

definition per_second :: "(rat \<Rightarrow> rat) \<Rightarrow> int \<Rightarrow> rat" where
  "per_second fl n = fl (fl (of_int n) / 60)"

definition NewTokenBucketLimiter ::
    "('l, 'r, 'c) rate_lib \<Rightarrow> (rat \<Rightarrow> rat) \<Rightarrow> int \<Rightarrow> int \<Rightarrow> 'l token_bucket" where
  "NewTokenBucketLimiter RL fl rpm tpm =
     (let rpm = (if rpm \<le> 0 then unlimitedRate else rpm);
          tpm = (if tpm \<le> 0 then unlimitedRate else tpm)
      in \<lparr>tb_request = rl_new RL (per_second fl rpm) rpm,
          tb_token = rl_new RL (per_second fl tpm) tpm,
          tb_rpm = rpm, tb_tpm = tpm\<rparr>)"

definition tb_Allow ::
    "('l, 'r, 'c) rate_lib \<Rightarrow> go_time \<Rightarrow> 'l token_bucket \<Rightarrow> bool \<times> 'l token_bucket" where
  "tb_Allow RL now l =
     (let (ok, req) = rl_allow RL now (tb_request l) in (ok, l\<lparr>tb_request := req\<rparr>))"

definition wait_result :: "string option \<Rightarrow> bool \<Rightarrow> rl_err option" where
  "wait_result err ctx_done =
     (case err of None \<Rightarrow> None
      | Some e \<Rightarrow> if ctx_done then Some ErrContextCancelled else Some (RateErr e))"

definition tb_Wait ::
    "('l, 'r, 'c) rate_lib \<Rightarrow> 'c \<Rightarrow> 'l token_bucket \<Rightarrow> rl_err option \<times> 'l token_bucket" where
  "tb_Wait RL ctx l =
     (let (err, ctx_done, req) = rl_wait_n RL ctx 1 (tb_request l)
      in (wait_result err ctx_done, l\<lparr>tb_request := req\<rparr>))"

definition tb_SetLimit ::
    "('l, 'r, 'c) rate_lib \<Rightarrow> (rat \<Rightarrow> rat) \<Rightarrow> int \<Rightarrow> int \<Rightarrow> 'l token_bucket \<Rightarrow> 'l token_bucket" where
  "tb_SetLimit RL fl rpm tpm l =
     (let rpm = (if rpm \<le> 0 then unlimitedRate else rpm);
          tpm = (if tpm \<le> 0 then unlimitedRate else tpm)
      in l\<lparr>tb_request := rl_new RL (per_second fl rpm) rpm,
           tb_token := rl_new RL (per_second fl tpm) tpm,
           tb_rpm := rpm, tb_tpm := tpm\<rparr>)"

record usage =
  u_RequestsUsed :: int
  u_RequestsLimit :: int
  u_TokensUsed :: int
  u_TokensLimit :: int
  u_RequestsRemaining :: int
  u_TokensRemaining :: int

definition clampUsage :: "int \<Rightarrow> int \<Rightarrow> int" where
  "clampUsage remaining limit =
     (if remaining < 0 then 0 else if limit < remaining then limit else remaining)"

definition GetUsage :: "('l, 'r, 'c) rate_lib \<Rightarrow> go_time \<Rightarrow> 'l token_bucket \<Rightarrow> usage" where
  "GetUsage RL now l =
     (let requestsRemaining = clampUsage (float_to_int (rl_tokens RL now (tb_request l))) (tb_rpm l);
          tokensRemaining = clampUsage (float_to_int (rl_tokens RL now (tb_token l))) (tb_tpm l)
      in \<lparr>u_RequestsUsed = tb_rpm l - requestsRemaining, u_RequestsLimit = tb_rpm l,
          u_TokensUsed = tb_tpm l - tokensRemaining, u_TokensLimit = tb_tpm l,
          u_RequestsRemaining = requestsRemaining, u_TokensRemaining = tokensRemaining\<rparr>)"

definition tb_Reserve ::
    "('l, 'r, 'c) rate_lib \<Rightarrow> go_time \<Rightarrow> int \<Rightarrow> 'l token_bucket \<Rightarrow> bool \<times> 'l token_bucket" where
  "tb_Reserve RL now tokens l =
     (let (reservation, tok) = rl_reserve_n RL now tokens (tb_token l)
      in if \<not> rl_res_ok RL reservation then (False, l\<lparr>tb_token := tok\<rparr>)
         else (True, l\<lparr>tb_token := rl_cancel RL now reservation tok\<rparr>))"

definition tb_ConsumeTokens ::
    "('l, 'r, 'c) rate_lib \<Rightarrow> 'c \<Rightarrow> int \<Rightarrow> 'l token_bucket \<Rightarrow> rl_err option \<times> 'l token_bucket" where
  "tb_ConsumeTokens RL ctx tokens l =
     (let (err, ctx_done, tok) = rl_wait_n RL ctx tokens (tb_token l)
      in (wait_result err ctx_done, l\<lparr>tb_token := tok\<rparr>))"

section \<open>The contract at work\<close>

lemma rate_ok_new_tokens [contract]:
  "rate_ok RL \<Longrightarrow> 0 \<le> b \<Longrightarrow> rl_tokens RL now (rl_new RL r b) = of_int b"
  by (simp add: rate_ok_def)

lemma rate_ok_new_burst [contract]: "rate_ok RL \<Longrightarrow> rl_burst RL (rl_new RL r b) = b"
  by (simp add: rate_ok_def)

lemma rate_ok_allow [contract]:
  "rate_ok RL \<Longrightarrow> fst (rl_allow RL now l) \<longleftrightarrow> 1 \<le> rl_tokens RL now l"
  by (simp add: rate_ok_def)

lemma rate_ok_allow_tokens [contract]:
  "rate_ok RL \<Longrightarrow> rl_tokens RL now (snd (rl_allow RL now l)) =
     (if 1 \<le> rl_tokens RL now l then rl_tokens RL now l - 1 else rl_tokens RL now l)"
  by (simp add: rate_ok_def)

lemma rate_ok_reserve [contract]:
  "rate_ok RL \<Longrightarrow> rl_res_ok RL (fst (rl_reserve_n RL now n l)) \<longleftrightarrow> n \<le> rl_burst RL l"
  by (simp add: rate_ok_def)

lemma tb_Allow_fst: "fst (tb_Allow RL now l) = fst (rl_allow RL now (tb_request l))"
  by (simp add: tb_Allow_def split: prod.split)

lemma tb_Allow_request: "tb_request (snd (tb_Allow RL now l)) = snd (rl_allow RL now (tb_request l))"
  by (simp add: tb_Allow_def split: prod.split)

lemma tb_Allow_frame [simp]:
  "tb_rpm (snd (tb_Allow RL now l)) = tb_rpm l" "tb_tpm (snd (tb_Allow RL now l)) = tb_tpm l"
  "tb_token (snd (tb_Allow RL now l)) = tb_token l"
  by (simp_all add: tb_Allow_def split: prod.split)

text \<open>
  A limiter that has just been built or re-limited: full, and with the limits it reports.
\<close>

definition effective_limit :: "int \<Rightarrow> int" where
  "effective_limit n = (if n \<le> 0 then unlimitedRate else n)"

lemma effective_limit_pos: "1 \<le> effective_limit n"
  by (simp add: effective_limit_def unlimitedRate_def)

definition tb_fresh :: "('l, 'r, 'c) rate_lib \<Rightarrow> int \<Rightarrow> int \<Rightarrow> 'l token_bucket \<Rightarrow> bool" where
  "tb_fresh RL rpm tpm l \<longleftrightarrow>
     (\<forall>now. rl_tokens RL now (tb_request l) = of_int rpm \<and> rl_tokens RL now (tb_token l) = of_int tpm) \<and>
     rl_burst RL (tb_request l) = rpm \<and> rl_burst RL (tb_token l) = tpm \<and>
     tb_rpm l = rpm \<and> tb_tpm l = tpm \<and> 1 \<le> rpm \<and> 1 \<le> tpm"

lemma NewTokenBucketLimiter_fresh:
  assumes "rate_ok RL"
  shows "tb_fresh RL (effective_limit rpm) (effective_limit tpm) (NewTokenBucketLimiter RL fl rpm tpm)"
  using assms effective_limit_pos [of rpm] effective_limit_pos [of tpm]
  by (simp add: NewTokenBucketLimiter_def tb_fresh_def effective_limit_def [symmetric] Let_def contract)

lemma SetLimit_fresh:
  assumes "rate_ok RL"
  shows "tb_fresh RL (effective_limit rpm) (effective_limit tpm) (tb_SetLimit RL fl rpm tpm l)"
  using assms effective_limit_pos [of rpm] effective_limit_pos [of tpm]
  by (simp add: tb_SetLimit_def tb_fresh_def effective_limit_def [symmetric] Let_def contract)

lemma fresh_Allow: "rate_ok RL \<Longrightarrow> tb_fresh RL rpm tpm l \<Longrightarrow> fst (tb_Allow RL now l)"
  by (simp add: tb_Allow_fst tb_fresh_def contract)

text \<open>The answers of \<open>n\<close> consecutive calls of \<open>Allow\<close> at one instant.\<close>

fun allow_burst ::
    "('l, 'r, 'c) rate_lib \<Rightarrow> go_time \<Rightarrow> nat \<Rightarrow> 'l token_bucket \<Rightarrow> bool list" where
  "allow_burst RL now 0 l = []"
| "allow_burst RL now (Suc n) l =
     (let (ok, l') = tb_Allow RL now l in ok # allow_burst RL now n l')"

lemma allow_burst_refused:
  assumes "rate_ok RL" and "rl_tokens RL now (tb_request l) < 1"
  shows "allow_burst RL now n l = replicate n False"
  using assms(2)
proof (induction n arbitrary: l)
  case 0
  then show ?case by simp
next
  case (Suc n)
  obtain ok l' where a: "tb_Allow RL now l = (ok, l')" by fastforce
  have "\<not> ok"
    using a Suc.prems assms(1) tb_Allow_fst [of RL now l] by (simp add: contract)
  moreover have "rl_tokens RL now (tb_request l') < 1"
    using a Suc.prems assms(1) tb_Allow_request [of RL now l] by (simp add: contract)
  ultimately show ?case using a Suc.IH by simp
qed

lemma allow_burst_count:
  assumes "rate_ok RL" and "rl_tokens RL now (tb_request l) = of_nat k"
  shows "allow_burst RL now (k + m) l = replicate k True @ replicate m False"
  using assms(2)
proof (induction k arbitrary: l)
  case 0
  then show ?case using allow_burst_refused [OF assms(1)] by simp
next
  case (Suc k)
  obtain ok l' where a: "tb_Allow RL now l = (ok, l')" by fastforce
  have "ok"
    using a Suc.prems assms(1) tb_Allow_fst [of RL now l] by (simp add: contract)
  moreover have "rl_tokens RL now (tb_request l') = of_nat k"
    using a Suc.prems assms(1) tb_Allow_request [of RL now l] by (simp add: contract)
  ultimately show ?case using a Suc.IH by simp
qed

text \<open>
  A new limiter with a positive limit \<open>rpm\<close> admits exactly \<open>rpm\<close> requests at one instant and
  refuses every further one, whatever the token limit is.
\<close>

lemma NewTokenBucketLimiter_burst:
  assumes "rate_ok RL" and "0 < rpm"
  shows "allow_burst RL now (nat rpm + m) (NewTokenBucketLimiter RL fl rpm tpm) =
    replicate (nat rpm) True @ replicate m False"
proof (rule allow_burst_count [OF assms(1)])
  show "rl_tokens RL now (tb_request (NewTokenBucketLimiter RL fl rpm tpm)) = of_nat (nat rpm)"
    using NewTokenBucketLimiter_fresh [OF assms(1), of rpm tpm fl] assms(2)
    by (simp add: tb_fresh_def effective_limit_def)
qed

text \<open>
  \<open>SetLimit\<close> refills: after it, a full burst of the new request limit is admitted at once, even
  when the limiter had just been emptied and the limits given are the ones it already had.
\<close>

lemma SetLimit_refills:
  assumes "rate_ok RL" and "0 < rpm"
  shows "allow_burst RL now (nat rpm + m) (tb_SetLimit RL fl rpm tpm l) =
    replicate (nat rpm) True @ replicate m False"
proof (rule allow_burst_count [OF assms(1)])
  show "rl_tokens RL now (tb_request (tb_SetLimit RL fl rpm tpm l)) = of_nat (nat rpm)"
    using SetLimit_fresh [OF assms(1), of rpm tpm fl l] assms(2)
    by (simp add: tb_fresh_def effective_limit_def)
qed

text \<open>
  The usage a limiter reports is consistent: used and remaining add up to the limit and both
  lie between 0 and the limit, for requests and for tokens.
\<close>

lemma GetUsage_consistent:
  assumes "0 \<le> tb_rpm l" and "0 \<le> tb_tpm l"
  shows "u_RequestsUsed (GetUsage RL now l) + u_RequestsRemaining (GetUsage RL now l) = tb_rpm l \<and>
    u_TokensUsed (GetUsage RL now l) + u_TokensRemaining (GetUsage RL now l) = tb_tpm l \<and>
    u_RequestsRemaining (GetUsage RL now l) \<in> {0 .. tb_rpm l} \<and>
    u_TokensRemaining (GetUsage RL now l) \<in> {0 .. tb_tpm l}"
  using assms by (simp add: GetUsage_def clampUsage_def Let_def)

text \<open>
  \<open>Reserve\<close> does not look at the fill of the bucket: on a limiter whose burst is its limit it
  answers yes exactly when the amount does not exceed the token limit per minute, even if all
  tokens are spent.
\<close>

lemma Reserve_ignores_fill:
  assumes "rate_ok RL" and "rl_burst RL (tb_token l) = tb_tpm l"
  shows "fst (tb_Reserve RL now tokens l) \<longleftrightarrow> tokens \<le> tb_tpm l"
proof -
  obtain r tok where "rl_reserve_n RL now tokens (tb_token l) = (r, tok)" by fastforce
  with rate_ok_reserve [OF assms(1), of now tokens "tb_token l"] assms(2) show ?thesis
    by (simp add: tb_Reserve_def)
qed

section \<open>A token bucket that meets the contract\<close>

text \<open>
  An instance for the witnesses: \<open>bkt_last\<close> is \<^term>\<open>None\<close> until the first event; tokens flow in
  at the rate and are capped by the burst.
\<close>

record bucket =
  bkt_rate :: rat
  bkt_burst :: int
  bkt_level :: rat
  bkt_last :: "go_time option"

definition bkt_tokens :: "go_time \<Rightarrow> bucket \<Rightarrow> rat" where
  "bkt_tokens now b = (case bkt_last b of None \<Rightarrow> min (of_int (bkt_burst b)) (bkt_level b)
     | Some t \<Rightarrow> min (of_int (bkt_burst b))
         (bkt_level b + bkt_rate b * of_int (max 0 (now - t)) / 1000000000))"

definition bkt_take :: "go_time \<Rightarrow> rat \<Rightarrow> bucket \<Rightarrow> bucket" where
  "bkt_take now x b = b\<lparr>bkt_level := bkt_tokens now b - x, bkt_last := Some now\<rparr>"

definition bkt_lib :: "(bucket, bool, unit) rate_lib" where
  "bkt_lib = \<lparr>
     rl_new = (\<lambda>r b. \<lparr>bkt_rate = r, bkt_burst = b, bkt_level = of_int b, bkt_last = None\<rparr>),
     rl_burst = bkt_burst,
     rl_tokens = bkt_tokens,
     rl_allow = (\<lambda>now b. if 1 \<le> bkt_tokens now b
        then (True, bkt_take now 1 b) else (False, b)),
     rl_reserve_n = (\<lambda>now n b. (n \<le> bkt_burst b, b)),
     rl_res_ok = (\<lambda>r. r),
     rl_cancel = (\<lambda>now r b. b),
     rl_wait_n = (\<lambda>ctx n b. if n \<le> bkt_burst b then (None, False, b)
        else (Some ''rate: Wait(n) exceeds limiter burst'', False, b))\<rparr>"

lemma bkt_tokens_take: "0 \<le> x \<Longrightarrow> bkt_tokens now (bkt_take now x b) = bkt_tokens now b - x"
  by (auto simp: bkt_tokens_def bkt_take_def split: option.split)

lemma bkt_burst_lib [simp]: "rl_burst bkt_lib = bkt_burst"
  by (simp add: bkt_lib_def)

lemma bkt_lib_ok [simp]: "rate_ok bkt_lib"
  unfolding rate_ok_def
proof (intro conjI allI)
  fix now :: go_time and l :: bucket
  show "rl_burst bkt_lib (snd (rl_allow bkt_lib now l)) = rl_burst bkt_lib l"
    by (simp add: bkt_lib_def bkt_take_def)
  show "rl_tokens bkt_lib now (snd (rl_allow bkt_lib now l)) =
      (if fst (rl_allow bkt_lib now l) then rl_tokens bkt_lib now l - 1 else rl_tokens bkt_lib now l)"
    by (simp add: bkt_lib_def bkt_tokens_take)
qed (simp_all add: bkt_lib_def bkt_tokens_def)

lemma NewTokenBucketLimiter_burst_witness:
  "allow_burst bkt_lib 7 (nat 2 + 1) (NewTokenBucketLimiter bkt_lib (\<lambda>x. x) 2 0) = [True, True, False]"
  using NewTokenBucketLimiter_burst [of bkt_lib 2 7 1 "\<lambda>x. x" 0] by (simp add: numeral_2_eq_2)

lemma SetLimit_refills_witness:
  "allow_burst bkt_lib 7 (nat 2 + 1) (tb_SetLimit bkt_lib (\<lambda>x. x) 2 0
     (snd (tb_Allow bkt_lib 7 (NewTokenBucketLimiter bkt_lib (\<lambda>x. x) 1 0)))) = [True, True, False]"
  using SetLimit_refills [of bkt_lib 2 7 1 "\<lambda>x. x" 0
      "snd (tb_Allow bkt_lib 7 (NewTokenBucketLimiter bkt_lib (\<lambda>x. x) 1 0))"]
  by (simp add: numeral_2_eq_2)

lemma GetUsage_consistent_witness:
  "u_RequestsUsed (GetUsage bkt_lib 7 (NewTokenBucketLimiter bkt_lib (\<lambda>x. x) 50 9)) +
   u_RequestsRemaining (GetUsage bkt_lib 7 (NewTokenBucketLimiter bkt_lib (\<lambda>x. x) 50 9)) = 50"
  using GetUsage_consistent [of "NewTokenBucketLimiter bkt_lib (\<lambda>x. x) 50 9" bkt_lib 7]
  by (simp add: NewTokenBucketLimiter_def)

lemma Reserve_ignores_fill_witness:
  "fst (tb_Reserve bkt_lib 7 9 ((NewTokenBucketLimiter bkt_lib (\<lambda>x. x) 50 9)
      \<lparr>tb_token := \<lparr>bkt_rate = 1, bkt_burst = 9, bkt_level = 0, bkt_last = Some 7\<rparr>\<rparr>))"
  using Reserve_ignores_fill [of bkt_lib "(NewTokenBucketLimiter bkt_lib (\<lambda>x. x) 50 9)
      \<lparr>tb_token := \<lparr>bkt_rate = 1, bkt_burst = 9, bkt_level = 0, bkt_last = Some 7\<rparr>\<rparr>" 7 9]
  by (simp add: NewTokenBucketLimiter_def)

section \<open>Reactive helpers\<close>

text \<open>
  \<open>ro_limiter.go\<close> wraps the third-party operator \<open>NewRateLimiter\<close>; the operator and \<open>ro.Pipe1\<close>
  are arguments.
\<close>

record ro_config =
  ro_Count :: int
  ro_Interval :: duration

definition DefaultInterval :: duration where "DefaultInterval = minutes 1"

definition normalizeInterval :: "duration \<Rightarrow> duration" where
  "normalizeInterval interval = (if interval = 0 then DefaultInterval else interval)"

definition ro_Limit ::
    "('o \<Rightarrow> ('o \<Rightarrow> 'o) \<Rightarrow> 'o) \<Rightarrow> (int \<Rightarrow> duration \<Rightarrow> ('t \<Rightarrow> string) \<Rightarrow> 'o \<Rightarrow> 'o) \<Rightarrow>
     'o \<Rightarrow> int \<Rightarrow> duration \<Rightarrow> ('t \<Rightarrow> string) \<Rightarrow> 'o" where
  "ro_Limit pipe1 newRateLimiter source cnt interval keyGetter =
     pipe1 source (newRateLimiter cnt (normalizeInterval interval) keyGetter)"

definition ro_LimitGlobal ::
    "('o \<Rightarrow> ('o \<Rightarrow> 'o) \<Rightarrow> 'o) \<Rightarrow> (int \<Rightarrow> duration \<Rightarrow> ('t \<Rightarrow> string) \<Rightarrow> 'o \<Rightarrow> 'o) \<Rightarrow>
     'o \<Rightarrow> int \<Rightarrow> duration \<Rightarrow> 'o" where
  "ro_LimitGlobal pipe1 newRateLimiter source cnt interval =
     ro_Limit pipe1 newRateLimiter source cnt interval (\<lambda>_. '''')"

definition ro_LimitWithConfig ::
    "('o \<Rightarrow> ('o \<Rightarrow> 'o) \<Rightarrow> 'o) \<Rightarrow> (int \<Rightarrow> duration \<Rightarrow> ('t \<Rightarrow> string) \<Rightarrow> 'o \<Rightarrow> 'o) \<Rightarrow>
     'o \<Rightarrow> ro_config \<Rightarrow> ('t \<Rightarrow> string) \<Rightarrow> 'o" where
  "ro_LimitWithConfig pipe1 newRateLimiter source cfg keyGetter =
     ro_Limit pipe1 newRateLimiter source (ro_Count cfg) (ro_Interval cfg) keyGetter"

definition ro_NewLimitOperator ::
    "(int \<Rightarrow> duration \<Rightarrow> ('t \<Rightarrow> string) \<Rightarrow> 'o \<Rightarrow> 'o) \<Rightarrow>
     int \<Rightarrow> duration \<Rightarrow> ('t \<Rightarrow> string) \<Rightarrow> 'o \<Rightarrow> 'o" where
  "ro_NewLimitOperator newRateLimiter cnt interval keyGetter =
     newRateLimiter cnt (normalizeInterval interval) keyGetter"

definition ro_NewGlobalLimitOperator ::
    "(int \<Rightarrow> duration \<Rightarrow> ('t \<Rightarrow> string) \<Rightarrow> 'o \<Rightarrow> 'o) \<Rightarrow> int \<Rightarrow> duration \<Rightarrow> 'o \<Rightarrow> 'o" where
  "ro_NewGlobalLimitOperator newRateLimiter cnt interval =
     ro_NewLimitOperator newRateLimiter cnt interval (\<lambda>_. '''')"

lemma ro_Limit_operator:
  "ro_Limit pipe1 nrl src c i g = pipe1 src (ro_NewLimitOperator nrl c i g)"
  by (simp add: ro_Limit_def ro_NewLimitOperator_def)

end
