(* ===== verification/Key_Pool.thy ===== *)
theory Key_Pool
  imports Key_Selectors Rate_Limit
begin

text \<open>
  The pool of API keys of one provider (\<open>internal/keypool/pool.go\<close>): construction from the
  configuration, \<open>GetKey\<close> with its retry over rate-limited keys, learning from response headers,
  cooldown and health marks, reset times and statistics. The key objects are shared by pointer
  between \<open>keys\<close> and \<open>keyMap\<close>, so the pool has an explicit heap of them; an address is the
  position at which the constructor allocated the object. Every exported method holds the pool's
  lock or works on a copy, and is one atomic step here.
\<close>

section \<open>State and configuration\<close>

record key_config =
  kc_APIKey :: string
  kc_RPMLimit :: int
  kc_ITPMLimit :: int
  kc_OTPMLimit :: int
  kc_Priority :: int
  kc_Weight :: int

record pool_config =
  pc_Strategy :: string
  pc_Keys :: "key_config list"

record ('l, 's) key_pool =
  p_heap :: "nat \<Rightarrow> key_metadata"
  p_keys :: "nat list"
  p_keyMap :: "string \<rightharpoonup> nat"
  p_limiters :: "string \<rightharpoonup> 'l token_bucket"
  p_selector :: 's
  p_provider :: string

definition pool_Keys :: "('l, 's) key_pool \<Rightarrow> key_metadata list" where
  "pool_Keys p = map (p_heap p) (p_keys p)"

definition init_key :: "nat \<Rightarrow> key_config \<Rightarrow> key_metadata" where
  "init_key idx c =
     (let key = NewKeyMetadata (int idx) (kc_APIKey c) (kc_RPMLimit c) (kc_ITPMLimit c) (kc_OTPMLimit c);
          key = (if 0 < kc_Priority c then key\<lparr>k_Priority := kc_Priority c\<rparr> else key)
      in if 0 < kc_Weight c then key\<lparr>k_Weight := kc_Weight c\<rparr> else key)"

definition add_key ::
    "('l, 'r, 'c) rate_lib \<Rightarrow> (rat \<Rightarrow> rat) \<Rightarrow> nat \<Rightarrow> key_config \<Rightarrow> ('l, 's) key_pool \<Rightarrow> ('l, 's) key_pool" where
  "add_key RL fl idx c p =
     (let key = init_key idx c;
          limiter = NewTokenBucketLimiter RL fl (kc_RPMLimit c) (wrap64 (kc_ITPMLimit c + kc_OTPMLimit c))
      in p\<lparr>p_heap := (p_heap p)(idx := key),
           p_keys := p_keys p @ [idx],
           p_keyMap := (p_keyMap p)(k_ID key \<mapsto> idx),
           p_limiters := (p_limiters p)(k_ID key \<mapsto> limiter)\<rparr>)"

fun add_keys ::
    "('l, 'r, 'c) rate_lib \<Rightarrow> (rat \<Rightarrow> rat) \<Rightarrow> nat \<Rightarrow> key_config list \<Rightarrow> ('l, 's) key_pool \<Rightarrow> ('l, 's) key_pool" where
  "add_keys RL fl idx [] p = p"
| "add_keys RL fl idx (c # cs) p = add_keys RL fl (Suc idx) cs (add_key RL fl idx c p)"

definition NewKeyPool ::
    "('l, 'r, 'c) rate_lib \<Rightarrow> (rat \<Rightarrow> rat) \<Rightarrow> string \<Rightarrow> pool_config \<Rightarrow>
     key_err + ('l, selector) key_pool" where
  "NewKeyPool RL fl provider cfg =
     (if pc_Keys cfg = [] then Inl (ErrNoKeysConfigured provider)
      else case NewSelector (pc_Strategy cfg) of
             Inl e \<Rightarrow> Inl e
           | Inr baseSelector \<Rightarrow>
               Inr (add_keys RL fl 0 (pc_Keys cfg)
                 \<lparr>p_heap = (\<lambda>_. NewKeyMetadata 0 '''' 0 0 0), p_keys = [], p_keyMap = Map.empty,
                  p_limiters = Map.empty, p_selector = baseSelector, p_provider = provider\<rparr>))"

section \<open>Getting a key\<close>

text \<open>
  \<open>sel\<close> is the \<open>KeySelector\<close> of the pool; \<open>envs\<close> gives the clock and the random source of each
  attempt. A missing limiter would be a call on a nil interface, which panics.
\<close>

fun GetKey_loop ::
    "(sel_env \<Rightarrow> 's \<Rightarrow> key_metadata list \<Rightarrow> (key_err + key_metadata) \<times> 's) \<Rightarrow>
     ('l, 'r, 'c) rate_lib \<Rightarrow> (nat \<Rightarrow> sel_env) \<Rightarrow> nat \<Rightarrow> nat \<Rightarrow> key_metadata list \<Rightarrow>
     ('l, 's) key_pool \<Rightarrow> (key_err + string \<times> string) \<times> ('l, 's) key_pool" where
  "GetKey_loop sel RL envs attempt 0 availableKeys p = (Inl ErrAllKeysExhausted, p)"
| "GetKey_loop sel RL envs attempt (Suc n) availableKeys p =
     (case sel (envs attempt) (p_selector p) availableKeys of
        (Inl err, s') \<Rightarrow> (Inl err, p\<lparr>p_selector := s'\<rparr>)
      | (Inr key, s') \<Rightarrow>
          (case p_limiters p (k_ID key) of
             None \<Rightarrow> (Inl PanicNilLimiter, p\<lparr>p_selector := s'\<rparr>)
           | Some limiter \<Rightarrow>
               (let (ok, limiter') = tb_Allow RL (env_now (envs attempt)) limiter;
                    p' = p\<lparr>p_limiters := (p_limiters p)(k_ID key \<mapsto> limiter'), p_selector := s'\<rparr>
                in if ok then (Inr (k_ID key, k_APIKey key), p')
                   else GetKey_loop sel RL envs (Suc attempt) n
                     (lo_filter (env_lo (envs attempt)) (\<lambda>k. k_ID k \<noteq> k_ID key) availableKeys) p')))"

definition GetKey ::
    "('l, 'r, 'c) rate_lib \<Rightarrow> (nat \<Rightarrow> sel_env) \<Rightarrow> ('l, selector) key_pool \<Rightarrow>
     (key_err + string \<times> string) \<times> ('l, selector) key_pool" where
  "GetKey RL envs p =
     GetKey_loop (\<lambda>env. PriorityTier_Select (inner_Select env)) RL envs 0
       (length (pool_Keys p)) (pool_Keys p) p"

record key_selection =
  sel_KeyID :: string
  sel_APIKey :: string

definition GetKeyResult ::
    "('l, 'r, 'c) rate_lib \<Rightarrow> (nat \<Rightarrow> sel_env) \<Rightarrow> ('l, selector) key_pool \<Rightarrow>
     (key_err + key_selection) \<times> ('l, selector) key_pool" where
  "GetKeyResult RL envs p =
     (case GetKey RL envs p of
        (Inl err, p') \<Rightarrow> (Inl err, p')
      | (Inr (keyID, apiKey), p') \<Rightarrow> (Inr \<lparr>sel_KeyID = keyID, sel_APIKey = apiKey\<rparr>, p'))"

section \<open>Feedback from responses\<close>

definition pool_map_key :: "nat \<Rightarrow> (key_metadata \<Rightarrow> key_metadata) \<Rightarrow> ('l, 's) key_pool \<Rightarrow> ('l, 's) key_pool" where
  "pool_map_key a f p = p\<lparr>p_heap := (p_heap p)(a := f (p_heap p a))\<rparr>"

definition UpdateKeyFromHeaders ::
    "('l, 'r, 'c) rate_lib \<Rightarrow> (rat \<Rightarrow> rat) \<Rightarrow> (string \<Rightarrow> go_time option) \<Rightarrow> string \<Rightarrow> header \<Rightarrow>
     ('l, 's) key_pool \<Rightarrow> key_err option \<times> ('l, 's) key_pool" where
  "UpdateKeyFromHeaders RL fl parse_time keyID headers p =
     (case p_keyMap p keyID of
        None \<Rightarrow> (Some ErrKeyNotFound, p)
      | Some a \<Rightarrow>
          (let p1 = pool_map_key a (UpdateFromHeaders parse_time headers) p;
               key = p_heap p1 a;
               rpm = k_RPMLimit key;
               tpm = wrap64 (k_ITPMLimit key + k_OTPMLimit key)
           in case p_limiters p1 keyID of
                None \<Rightarrow> (Some PanicNilLimiter, p1)
              | Some limiter \<Rightarrow>
                  (None, p1\<lparr>p_limiters := (p_limiters p1)(keyID \<mapsto> tb_SetLimit RL fl rpm tpm limiter)\<rparr>)))"

definition UpdateKeyFromHeadersResult ::
    "('l, 'r, 'c) rate_lib \<Rightarrow> (rat \<Rightarrow> rat) \<Rightarrow> (string \<Rightarrow> go_time option) \<Rightarrow> string \<Rightarrow> header \<Rightarrow>
     ('l, 's) key_pool \<Rightarrow> (key_err + bool) \<times> ('l, 's) key_pool" where
  "UpdateKeyFromHeadersResult RL fl parse_time keyID headers p =
     (case UpdateKeyFromHeaders RL fl parse_time keyID headers p of
        (Some err, p') \<Rightarrow> (Inl err, p')
      | (None, p') \<Rightarrow> (Inr True, p'))"

definition MarkKeyExhausted ::
    "go_time \<Rightarrow> string \<Rightarrow> duration \<Rightarrow> ('l, 's) key_pool \<Rightarrow> ('l, 's) key_pool" where
  "MarkKeyExhausted now keyID retryAfter p =
     (case p_keyMap p keyID of None \<Rightarrow> p
      | Some a \<Rightarrow> pool_map_key a (SetCooldown (now + retryAfter)) p)"

definition MarkKeyUnhealthy ::
    "go_time \<Rightarrow> string \<Rightarrow> string \<Rightarrow> ('l, 's) key_pool \<Rightarrow> ('l, 's) key_pool" where
  "MarkKeyUnhealthy now keyID err p =
     (case p_keyMap p keyID of None \<Rightarrow> p | Some a \<Rightarrow> pool_map_key a (MarkUnhealthy now err) p)"

definition MarkKeyHealthy :: "string \<Rightarrow> ('l, 's) key_pool \<Rightarrow> ('l, 's) key_pool" where
  "MarkKeyHealthy keyID p =
     (case p_keyMap p keyID of None \<Rightarrow> p | Some a \<Rightarrow> pool_map_key a MarkHealthy p)"

section \<open>Reset time and statistics\<close>

record pool_stats =
  st_TotalKeys :: int
  st_AvailableKeys :: int
  st_ExhaustedKeys :: int
  st_TotalRPM :: int
  st_RemainingRPM :: int

text \<open>Three more functions of \<open>samber/lo\<close>, at the types used here.\<close>

record lo_pool =
  lp_filter_map :: "(key_metadata \<Rightarrow> go_time \<times> bool) \<Rightarrow> key_metadata list \<Rightarrow> go_time list"
  lp_times :: "go_time lo"
  lp_reduce :: "(pool_stats \<Rightarrow> key_metadata \<Rightarrow> pool_stats) \<Rightarrow> key_metadata list \<Rightarrow> pool_stats \<Rightarrow> pool_stats"

definition lo_pool_ok :: "lo_pool \<Rightarrow> bool" where
  "lo_pool_ok L \<longleftrightarrow>
     (\<forall>f xs. lp_filter_map L f xs = map (fst \<circ> f) (filter (snd \<circ> f) xs)) \<and> lo_ok (lp_times L) \<and>
     (\<forall>f xs z. lp_reduce L f xs z = foldl f z xs)"

definition GetEarliestResetTime :: "lo_pool \<Rightarrow> go_time \<Rightarrow> ('l, 's) key_pool \<Rightarrow> duration" where
  "GetEarliestResetTime L now p =
     (let resetTimes = lp_filter_map L (\<lambda>key. (k_RPMResetAt key, k_RPMResetAt key \<noteq> 0)) (pool_Keys p)
      in if resetTimes = [] then seconds 60
         else let earliest = lo_min_by (lp_times L) (\<lambda>a b. a < b) resetTimes;
                  d = time_until now earliest
              in if d < 0 then 0 else d)"

definition stats_step :: "go_time \<Rightarrow> pool_stats \<Rightarrow> key_metadata \<Rightarrow> pool_stats" where
  "stats_step now st key =
     (let st = st\<lparr>st_TotalRPM := wrap64 (st_TotalRPM st + k_RPMLimit key),
                  st_RemainingRPM := wrap64 (st_RemainingRPM st + k_RPMRemaining key)\<rparr>
      in if IsAvailable now key then st\<lparr>st_AvailableKeys := st_AvailableKeys st + 1\<rparr>
         else st\<lparr>st_ExhaustedKeys := st_ExhaustedKeys st + 1\<rparr>)"

definition GetStats :: "lo_pool \<Rightarrow> go_time \<Rightarrow> ('l, 's) key_pool \<Rightarrow> pool_stats" where
  "GetStats L now p =
     lp_reduce L (stats_step now) (pool_Keys p)
       \<lparr>st_TotalKeys = int (length (p_keys p)), st_AvailableKeys = 0, st_ExhaustedKeys = 0,
        st_TotalRPM = 0, st_RemainingRPM = 0\<rparr>"

section \<open>The pool invariant\<close>

definition pool_ok :: "('l, 's) key_pool \<Rightarrow> bool" where
  "pool_ok p \<longleftrightarrow>
     distinct (map k_ID (pool_Keys p)) \<and> slice_ok (pool_Keys p) \<and>
     (\<forall>a \<in> set (p_keys p). p_keyMap p (k_ID (p_heap p a)) = Some a) \<and>
     (\<forall>i a. p_keyMap p i = Some a \<longrightarrow> a \<in> set (p_keys p) \<and> k_ID (p_heap p a) = i) \<and>
     dom (p_limiters p) = dom (p_keyMap p)"

lemma pool_ok_keyMap_iff:
  "pool_ok p \<Longrightarrow> p_keyMap p i = Some a \<longleftrightarrow> a \<in> set (p_keys p) \<and> k_ID (p_heap p a) = i"
  unfolding pool_ok_def by (metis option.inject)

lemma pool_ok_dom: "pool_ok p \<Longrightarrow> dom (p_limiters p) = k_ID ` set (pool_Keys p)"
  by (auto simp: pool_ok_def pool_Keys_def dom_def) blast+

lemma init_key_ID [simp]: "k_ID (init_key idx c) = key_id (int idx) (kc_APIKey c)"
  by (simp add: init_key_def Let_def)

lemma init_key_APIKey [simp]: "k_APIKey (init_key idx c) = kc_APIKey c"
  by (simp add: init_key_def Let_def)

text \<open>What the constructor's loop has built after \<open>n\<close> keys.\<close>

definition built :: "nat \<Rightarrow> ('l, 's) key_pool \<Rightarrow> bool" where
  "built n p \<longleftrightarrow> p_keys p = [0..<n] \<and>
     (\<forall>a < n. \<exists>api. k_ID (p_heap p a) = key_id (int a) api) \<and>
     (\<forall>i a. p_keyMap p i = Some a \<longleftrightarrow> a < n \<and> k_ID (p_heap p a) = i) \<and>
     dom (p_limiters p) = dom (p_keyMap p)"

lemma built_add_key:
  assumes "built n p"
  shows "built (Suc n) (add_key RL fl n c p)"
proof -
  let ?q = "add_key RL fl n c p" and ?id = "key_id (int n) (kc_APIKey c)"
  have heap: "p_heap ?q = (p_heap p)(n := init_key n c)"
    and keyMap: "p_keyMap ?q = (p_keyMap p)(?id \<mapsto> n)"
    and lims: "dom (p_limiters ?q) = insert ?id (dom (p_limiters p))"
    and keys: "p_keys ?q = p_keys p @ [n]"
    by (simp_all add: add_key_def Let_def)
  have fresh: "k_ID (p_heap p a) \<noteq> ?id" if "a < n" for a
  proof -
    obtain api where "k_ID (p_heap p a) = key_id (int a) api"
      using assms \<open>a < n\<close> by (auto simp: built_def)
    with \<open>a < n\<close> key_id_inj [of "int a" "int n" api "kc_APIKey c"] show ?thesis by auto
  qed
  have "p_keyMap ?q i = Some a \<longleftrightarrow> a < Suc n \<and> k_ID (p_heap ?q a) = i" for i a
    using assms fresh by (auto simp: keyMap heap built_def less_Suc_eq)
  moreover have "\<exists>api. k_ID (p_heap ?q a) = key_id (int a) api" if "a < Suc n" for a
    using assms that by (auto simp: heap built_def less_Suc_eq)
  ultimately show ?thesis
    using assms by (simp add: built_def lims keyMap keys)
qed

lemma built_add_keys: "built n p \<Longrightarrow> built (n + length cs) (add_keys RL fl n cs p)"
proof (induction cs arbitrary: n p)
  case Nil
  then show ?case by simp
next
  case (Cons c cs)
  from Cons.IH [OF built_add_key [OF Cons.prems]] show ?case by simp
qed

lemma built_pool_ok:
  assumes "built n p" and "n < 2 ^ 63"
  shows "pool_ok p"
proof -
  have "inj_on (\<lambda>a. k_ID (p_heap p a)) {0..<n}"
    using assms(1) by (intro inj_onI) (metis atLeastLessThan_iff built_def key_id_inj of_nat_0_le_iff of_nat_eq_iff)
  then have "distinct (map k_ID (pool_Keys p))"
    using assms(1) by (simp add: pool_Keys_def built_def distinct_map comp_def)
  moreover have "slice_ok (pool_Keys p)"
    using assms by (simp add: pool_Keys_def built_def slice_ok_def)
  ultimately show ?thesis
    using assms(1) by (auto simp: pool_ok_def built_def)
qed

lemma NewKeyPool_built:
  assumes "NewKeyPool RL fl provider cfg = Inr p"
  shows "built (length (pc_Keys cfg)) p"
proof -
  let ?p0 = "\<lambda>s. \<lparr>p_heap = (\<lambda>_. NewKeyMetadata 0 '''' 0 0 0), p_keys = [], p_keyMap = Map.empty,
    p_limiters = Map.empty, p_selector = s, p_provider = provider\<rparr>"
  have start: "built 0 (?p0 s)" for s :: selector by (simp add: built_def)
  have "built (length (pc_Keys cfg)) (add_keys RL fl 0 (pc_Keys cfg) (?p0 s))" for s :: selector
    using built_add_keys [OF start, where RL = RL and fl = fl and cs = "pc_Keys cfg"] by simp
  then show ?thesis
    using assms by (auto simp: NewKeyPool_def split: if_splits sum.splits)
qed

text \<open>Changing a key in place without touching its identifier keeps the invariant.\<close>

lemma pool_map_key_Keys:
  "pool_Keys (pool_map_key a f p) = map (\<lambda>b. if b = a then f (p_heap p a) else p_heap p b) (p_keys p)"
  by (simp add: pool_Keys_def pool_map_key_def)

lemma pool_map_key_ok:
  assumes "pool_ok p" and "\<And>k. k_ID (f k) = k_ID k"
  shows "pool_ok (pool_map_key a f p)"
proof -
  have "k_ID (p_heap (pool_map_key a f p) b) = k_ID (p_heap p b)" for b
    by (simp add: pool_map_key_def assms(2))
  then show ?thesis
    using assms(1) unfolding pool_ok_def
    by (simp add: pool_Keys_def pool_map_key_def comp_def slice_ok_def)
qed

lemma pool_ok_limiters:
  "pool_ok p \<Longrightarrow> dom L = dom (p_limiters p) \<Longrightarrow> pool_ok (p\<lparr>p_limiters := L\<rparr>)"
  by (simp add: pool_ok_def pool_Keys_def)

lemma pool_ok_selector: "pool_ok (p\<lparr>p_selector := s\<rparr>) \<longleftrightarrow> pool_ok p"
  by (simp add: pool_ok_def pool_Keys_def)

lemma MarkKeyExhausted_ok: "pool_ok p \<Longrightarrow> pool_ok (MarkKeyExhausted now i d p)"
  by (simp add: MarkKeyExhausted_def pool_map_key_ok split: option.split)

lemma MarkKeyUnhealthy_ok: "pool_ok p \<Longrightarrow> pool_ok (MarkKeyUnhealthy now i e p)"
  by (simp add: MarkKeyUnhealthy_def pool_map_key_ok split: option.split)

lemma MarkKeyHealthy_ok: "pool_ok p \<Longrightarrow> pool_ok (MarkKeyHealthy i p)"
  by (simp add: MarkKeyHealthy_def pool_map_key_ok split: option.split)

lemma UpdateKeyFromHeaders_known:
  assumes "pool_ok p" and "p_keyMap p i = Some a"
  obtains limiter where "p_limiters p i = Some limiter"
    and "UpdateKeyFromHeaders RL fl pt i h p =
      (None, (pool_map_key a (UpdateFromHeaders pt h) p)
        \<lparr>p_limiters := (p_limiters p)(i \<mapsto>
           tb_SetLimit RL fl (k_RPMLimit (UpdateFromHeaders pt h (p_heap p a)))
             (wrap64 (k_ITPMLimit (UpdateFromHeaders pt h (p_heap p a)) +
                      k_OTPMLimit (UpdateFromHeaders pt h (p_heap p a)))) limiter)\<rparr>)"
proof -
  have "i \<in> dom (p_limiters p)" using assms by (auto simp: pool_ok_def)
  then obtain limiter where l: "p_limiters p i = Some limiter" by auto
  show thesis
    by (rule that [OF l]) (simp add: UpdateKeyFromHeaders_def assms(2) l pool_map_key_def Let_def)
qed

lemma UpdateKeyFromHeaders_ok:
  assumes "pool_ok p"
  shows "pool_ok (snd (UpdateKeyFromHeaders RL fl pt i h p))"
proof (cases "p_keyMap p i")
  case None
  with assms show ?thesis by (simp add: UpdateKeyFromHeaders_def)
next
  case (Some a)
  have "pool_ok (pool_map_key a (UpdateFromHeaders pt h) p)"
    by (rule pool_map_key_ok [OF assms]) simp
  moreover have "i \<in> dom (p_limiters p)" using assms Some by (auto simp: pool_ok_def)
  moreover obtain limiter where "UpdateKeyFromHeaders RL fl pt i h p =
      (None, (pool_map_key a (UpdateFromHeaders pt h) p)
        \<lparr>p_limiters := (p_limiters p)(i \<mapsto>
           tb_SetLimit RL fl (k_RPMLimit (UpdateFromHeaders pt h (p_heap p a)))
             (wrap64 (k_ITPMLimit (UpdateFromHeaders pt h (p_heap p a)) +
                      k_OTPMLimit (UpdateFromHeaders pt h (p_heap p a)))) limiter)\<rparr>)"
    using UpdateKeyFromHeaders_known [OF assms Some] by blast
  ultimately show ?thesis
    by (simp add: pool_ok_limiters insert_absorb pool_map_key_def)
qed

end
