(* ===== verification/Key_Pool_Facts.thy ===== *)
theory Key_Pool_Facts
  imports Key_Pool
begin

text \<open>
  What the key pool guarantees: the correctness of the selection loop, proved over any selector
  with the \<open>tiered_selector\<close> contract, the reachable pools and their invariant, and the
  properties of \<open>GetKey\<close>, of the feedback operations and of the statistics.
\<close>

section \<open>The selection loop over any tiered selector\<close>

definition loop_ready :: "('l, 's) key_pool \<Rightarrow> key_metadata list \<Rightarrow> bool" where
  "loop_ready p ks \<longleftrightarrow> distinct (map k_ID ks) \<and> slice_ok ks \<and> k_ID ` set ks \<subseteq> dom (p_limiters p)"

lemma loop_ready_filter:
  "loop_ready p ks \<Longrightarrow> dom (p_limiters p) \<subseteq> dom (p_limiters q) \<Longrightarrow> loop_ready q (filter P ks)"
  unfolding loop_ready_def by (intro conjI) (simp_all add: distinct_map_filter, blast)

lemma length_filter_ID:
  "r \<in> set ks \<Longrightarrow> length ks \<le> Suc n \<Longrightarrow> length (filter (\<lambda>k. k_ID k \<noteq> k_ID r) ks) \<le> n"
  using length_filter_remove_less [of r ks "\<lambda>k. k_ID k \<noteq> k_ID r"] by simp

lemma length_filter_distinct:
  "distinct (map f ks) \<Longrightarrow> r \<in> set ks \<Longrightarrow> Suc (length (filter (\<lambda>k. f k \<noteq> f r) ks)) = length ks"
proof (induction ks)
  case Nil
  then show ?case by simp
next
  case (Cons k ks)
  show ?case
  proof (cases "f k = f r")
    case True
    then have "\<forall>x \<in> set ks. f x \<noteq> f r" using Cons.prems(1) by (metis image_eqI list.map(2) distinct.simps(2) list.set_map)
    with True show ?thesis by simp
  next
    case False
    with Cons show ?thesis by auto
  qed
qed

declare GetKey_loop.simps(2) [simp del]

context tiered_selector
begin

text \<open>One round of the loop: refused by the selector, granted, or rate limited and retried.\<close>

lemma GetKey_loop_cases:
  assumes "\<And>i. env_ok (envs i)" and "loop_ready p ks"
  obtains (none) s' where
      "GetKey_loop sel RL envs i (Suc n) ks p =
        (Inl (if ks = [] then ErrNoKeys else ErrAllKeysExhausted), p\<lparr>p_selector := s'\<rparr>)"
      "\<forall>k \<in> set ks. \<not> IsAvailable (env_now (envs i)) k"
  | (granted) key lmt s' where "key \<in> set ks" "IsAvailable (env_now (envs i)) key"
      "\<forall>k \<in> set ks. IsAvailable (env_now (envs i)) k \<longrightarrow> k_Priority k \<le> k_Priority key"
      "p_limiters p (k_ID key) = Some lmt" "fst (tb_Allow RL (env_now (envs i)) lmt)"
      "GetKey_loop sel RL envs i (Suc n) ks p =
        (Inr (k_ID key, k_APIKey key), p\<lparr>p_limiters := (p_limiters p)(k_ID key \<mapsto>
           snd (tb_Allow RL (env_now (envs i)) lmt)), p_selector := s'\<rparr>)"
  | (limited) key lmt s' where "key \<in> set ks" "IsAvailable (env_now (envs i)) key"
      "p_limiters p (k_ID key) = Some lmt" "\<not> fst (tb_Allow RL (env_now (envs i)) lmt)"
      "GetKey_loop sel RL envs i (Suc n) ks p =
        GetKey_loop sel RL envs (Suc i) n (filter (\<lambda>k. k_ID k \<noteq> k_ID key) ks)
          (p\<lparr>p_limiters := (p_limiters p)(k_ID key \<mapsto>
             snd (tb_Allow RL (env_now (envs i)) lmt)), p_selector := s'\<rparr>)"
proof -
  have small: "slice_ok ks" using assms(2) by (simp add: loop_ready_def)
  obtain res s' where res: "sel (envs i) (p_selector p) ks = (res, s')" by fastforce
  then have fres: "fst (sel (envs i) (p_selector p) ks) = res" by simp
  show thesis
  proof (cases res)
    case (Inl e)
    have un: "\<forall>k \<in> set ks. \<not> IsAvailable (env_now (envs i)) k"
      using sel_some [OF assms(1) small] Inl fres by (metis sum.distinct(1))
    then have "e = (if ks = [] then ErrNoKeys else ErrAllKeysExhausted)"
      using Inl fres sel_empty [OF assms(1)] sel_none [OF assms(1) small]
      by (metis Inl_inject)
    then show thesis using res Inl by (intro none [OF _ un]) (simp add: GetKey_loop.simps(2))
  next
    case (Inr key)
    then have sel: "fst (sel (envs i) (p_selector p) ks) = Inr key" by (simp add: fres)
    then have key: "key \<in> set ks" "IsAvailable (env_now (envs i)) key"
      using sel_Inr [OF assms(1) small] by blast+
    have top: "\<forall>k \<in> set ks. IsAvailable (env_now (envs i)) k \<longrightarrow> k_Priority k \<le> k_Priority key"
      using sel_top [OF assms(1) small sel] by blast
    obtain lmt where lmt: "p_limiters p (k_ID key) = Some lmt"
      using key assms(2) by (auto simp: loop_ready_def)
    obtain ok lmt' where allow: "tb_Allow RL (env_now (envs i)) lmt = (ok, lmt')" by fastforce
    show thesis
    proof (cases ok)
      case True
      then show thesis
        using res Inr lmt allow by (intro granted [OF key top lmt, of s']) (simp_all add: GetKey_loop.simps(2))
    next
      case False
      then show thesis
        using res Inr lmt allow assms(1) by (intro limited [OF key lmt, of s']) (simp_all add: GetKey_loop.simps(2) env_ok_def)
    qed
  qed
qed

lemma GetKey_loop_frame:
  assumes "\<And>i. env_ok (envs i)" and "loop_ready p ks"
  shows "\<exists>L s. snd (GetKey_loop sel RL envs i n ks p) = p\<lparr>p_limiters := L, p_selector := s\<rparr> \<and>
    dom L = dom (p_limiters p)"
  using assms(2)
proof (induction n arbitrary: i ks p)
  case 0
  show ?case by (rule exI [of _ "p_limiters p"], rule exI [of _ "p_selector p"]) simp
next
  case (Suc n)
  show ?case
  proof (cases rule: GetKey_loop_cases [where envs = envs and i = i and RL = RL and n = n,
        OF assms(1) Suc.prems, case_names none granted limited])
    case (none s')
    then show ?thesis by (intro exI [of _ "p_limiters p"] exI [of _ s']) simp
  next
    case (granted key lmt s')
    let ?L = "(p_limiters p)(k_ID key \<mapsto> snd (tb_Allow RL (env_now (envs i)) lmt))"
    have "snd (GetKey_loop sel RL envs i (Suc n) ks p) = p\<lparr>p_limiters := ?L, p_selector := s'\<rparr>"
      using granted(6) by simp
    moreover have "dom ?L = dom (p_limiters p)"
      using granted(4) by auto
    ultimately show ?thesis by blast
  next
    case (limited key lmt s')
    let ?L = "(p_limiters p)(k_ID key \<mapsto> snd (tb_Allow RL (env_now (envs i)) lmt))"
    let ?q = "p\<lparr>p_limiters := ?L, p_selector := s'\<rparr>"
    have "loop_ready ?q (filter (\<lambda>k. k_ID k \<noteq> k_ID key) ks)"
      by (rule loop_ready_filter [OF Suc.prems]) auto
    from Suc.IH [OF this, of "Suc i"] obtain L s where
      "snd (GetKey_loop sel RL envs (Suc i) n (filter (\<lambda>k. k_ID k \<noteq> k_ID key) ks) ?q) =
        ?q\<lparr>p_limiters := L, p_selector := s\<rparr>" and "dom L = dom (p_limiters ?q)"
      by blast
    moreover have "dom (p_limiters ?q) = dom (p_limiters p)"
      using limited(3) by auto
    ultimately show ?thesis
      using limited(5) by (intro exI [of _ L] exI [of _ s]) simp
  qed
qed

lemma GetKey_loop_sound:
  assumes "\<And>i. env_ok (envs i)" and "loop_ready p ks"
    and "fst (GetKey_loop sel RL envs i n ks p) = Inr (keyID, apiKey)"
  shows "\<exists>k \<in> set ks. \<exists>j. keyID = k_ID k \<and> apiKey = k_APIKey k \<and> IsAvailable (env_now (envs j)) k"
  using assms(2,3)
proof (induction n arbitrary: i ks p)
  case 0
  then show ?case by simp
next
  case (Suc n)
  show ?case
  proof (cases rule: GetKey_loop_cases [where envs = envs and i = i and RL = RL and n = n,
        OF assms(1) Suc.prems(1), case_names none granted limited])
    case none
    with Suc.prems show ?thesis by simp
  next
    case granted
    with Suc.prems show ?thesis by auto
  next
    case (limited key lmt s')
    let ?q = "p\<lparr>p_limiters := (p_limiters p)(k_ID key \<mapsto> snd (tb_Allow RL (env_now (envs i)) lmt)),
      p_selector := s'\<rparr>"
    have "loop_ready ?q (filter (\<lambda>k. k_ID k \<noteq> k_ID key) ks)"
      by (rule loop_ready_filter [OF Suc.prems(1)]) auto
    from Suc.IH [OF this, of "Suc i"] limited Suc.prems(2) show ?thesis by auto
  qed
qed

lemma GetKey_loop_error:
  assumes "\<And>i. env_ok (envs i)" and "loop_ready p ks" and "length ks = n"
    and "fst (GetKey_loop sel RL envs i n ks p) = Inl e"
  shows "e = ErrAllKeysExhausted"
  using assms(2-)
proof (induction n arbitrary: i ks p)
  case 0
  then show ?case by simp
next
  case (Suc n)
  show ?case
  proof (cases rule: GetKey_loop_cases [where envs = envs and i = i and RL = RL and n = n,
        OF assms(1) Suc.prems(1), case_names none granted limited])
    case none
    with Suc.prems show ?thesis by (auto split: if_splits)
  next
    case granted
    with Suc.prems show ?thesis by auto
  next
    case (limited key lmt s')
    let ?q = "p\<lparr>p_limiters := (p_limiters p)(k_ID key \<mapsto> snd (tb_Allow RL (env_now (envs i)) lmt)),
      p_selector := s'\<rparr>"
    let ?ks = "filter (\<lambda>k. k_ID k \<noteq> k_ID key) ks"
    have "loop_ready ?q ?ks"
      by (rule loop_ready_filter [OF Suc.prems(1)]) auto
    moreover have "length ?ks = n"
      using length_filter_distinct [of k_ID ks key] Suc.prems(1,2) limited(1)
      by (simp add: loop_ready_def)
    ultimately show ?thesis
      using Suc.IH [of ?q ?ks "Suc i"] limited(5) Suc.prems(3) by simp
  qed
qed

text \<open>
  At a fixed instant: a key with capacity (available and not refused by its limiter) is never
  passed over for one of lower priority, and is never missed.
\<close>

lemma GetKey_loop_best:
  assumes "\<And>i. env_ok (envs i)" and "\<And>i. env_now (envs i) = now"
    and "loop_ready p ks" and "length ks \<le> n"
    and "k \<in> set ks" "IsAvailable now k" "p_limiters p (k_ID k) = Some lmt"
    and "fst (tb_Allow RL now lmt)"
  shows "\<exists>r \<in> set ks. fst (GetKey_loop sel RL envs i n ks p) = Inr (k_ID r, k_APIKey r) \<and>
    k_Priority k \<le> k_Priority r"
  using assms(3-)
proof (induction n arbitrary: i ks p)
  case 0
  then show ?case by simp
next
  case (Suc n)
  show ?case
  proof (cases rule: GetKey_loop_cases [where envs = envs and i = i and RL = RL and n = n,
        OF assms(1) Suc.prems(1), case_names none granted limited])
    case none
    with Suc.prems assms(2) show ?thesis by simp
  next
    case (granted key lmt s')
    with Suc.prems assms(2) show ?thesis by auto
  next
    case (limited key lmt' s')
    let ?q = "p\<lparr>p_limiters := (p_limiters p)(k_ID key \<mapsto> snd (tb_Allow RL (env_now (envs i)) lmt')),
      p_selector := s'\<rparr>"
    let ?ks = "filter (\<lambda>k. k_ID k \<noteq> k_ID key) ks"
    have ne: "k_ID k \<noteq> k_ID key"
      using limited Suc.prems assms(2) by auto
    have "\<exists>r \<in> set ?ks. fst (GetKey_loop sel RL envs (Suc i) n ?ks ?q) = Inr (k_ID r, k_APIKey r) \<and>
        k_Priority k \<le> k_Priority r"
    proof (rule Suc.IH)
      show "loop_ready ?q ?ks" by (rule loop_ready_filter [OF Suc.prems(1)]) auto
      show "length ?ks \<le> n" by (rule length_filter_ID [OF limited(1) Suc.prems(2)])
      show "p_limiters ?q (k_ID k) = Some lmt" using ne Suc.prems by simp
    qed (use ne Suc.prems in auto)
    then show ?thesis using limited(5) by auto
  qed
qed

end

section \<open>The pool's own selection\<close>

lemma pool_ok_loop_ready: "pool_ok p \<Longrightarrow> loop_ready p (pool_Keys p)"
  using pool_ok_dom [of p] by (simp add: loop_ready_def pool_ok_def)

lemma GetKey_ok:
  assumes "\<And>i. env_ok (envs i)" and "pool_ok p"
  shows "pool_ok (snd (GetKey RL envs p))"
proof -
  obtain L s where "snd (GetKey RL envs p) = p\<lparr>p_limiters := L, p_selector := s\<rparr>"
    "dom L = dom (p_limiters p)"
    using tier.GetKey_loop_frame [where envs = envs, OF assms(1) pool_ok_loop_ready [OF assms(2)]]
    by (metis GetKey_def)
  then show ?thesis
    using assms(2) by (simp add: pool_ok_def pool_Keys_def)
qed

section \<open>Reachable pools\<close>

datatype pool_op =
    OpGetKey "nat \<Rightarrow> sel_env"
  | OpUpdate string header
  | OpExhausted go_time string duration
  | OpUnhealthy go_time string string
  | OpHealthy string

fun pool_apply ::
    "('l, 'r, 'c) rate_lib \<Rightarrow> (rat \<Rightarrow> rat) \<Rightarrow> (string \<Rightarrow> go_time option) \<Rightarrow> pool_op \<Rightarrow>
     ('l, selector) key_pool \<Rightarrow> ('l, selector) key_pool" where
  "pool_apply RL fl pt (OpGetKey envs) p = snd (GetKey RL envs p)"
| "pool_apply RL fl pt (OpUpdate i h) p = snd (UpdateKeyFromHeaders RL fl pt i h p)"
| "pool_apply RL fl pt (OpExhausted now i d) p = MarkKeyExhausted now i d p"
| "pool_apply RL fl pt (OpUnhealthy now i e) p = MarkKeyUnhealthy now i e p"
| "pool_apply RL fl pt (OpHealthy i) p = MarkKeyHealthy i p"

fun op_env_ok :: "pool_op \<Rightarrow> bool" where
  "op_env_ok (OpGetKey envs) = (\<forall>i. env_ok (envs i))"
| "op_env_ok _ = True"

inductive pool_reachable ::
    "('l, 'r, 'c) rate_lib \<Rightarrow> (rat \<Rightarrow> rat) \<Rightarrow> (string \<Rightarrow> go_time option) \<Rightarrow>
     ('l, selector) key_pool \<Rightarrow> bool"
  for RL fl pt where
  created: "NewKeyPool RL fl provider cfg = Inr p \<Longrightarrow> slice_ok (pc_Keys cfg) \<Longrightarrow>
     pool_reachable RL fl pt p"
| operated: "pool_reachable RL fl pt p \<Longrightarrow> op_env_ok op \<Longrightarrow>
     pool_reachable RL fl pt (pool_apply RL fl pt op p)"

lemma pool_apply_ok: "pool_ok p \<Longrightarrow> op_env_ok op \<Longrightarrow> pool_ok (pool_apply RL fl pt op p)"
  by (cases op)
    (simp_all add: GetKey_ok UpdateKeyFromHeaders_ok MarkKeyExhausted_ok MarkKeyUnhealthy_ok MarkKeyHealthy_ok)

lemma reachable_ok: "pool_reachable RL fl pt p \<Longrightarrow> pool_ok p"
proof (induction rule: pool_reachable.induct)
  case (created provider cfg p)
  from NewKeyPool_built [OF created(1)] created(2) show ?case
    by (intro built_pool_ok) (auto simp: slice_ok_def)
next
  case (operated p op)
  then show ?case by (simp add: pool_apply_ok)
qed

section \<open>Properties of the construction\<close>

lemma add_keys_Keys:
  "built n p \<Longrightarrow> pool_Keys (add_keys RL fl n cs p) = pool_Keys p @ map2 init_key [n..<n + length cs] cs"
proof (induction cs arbitrary: n p)
  case Nil
  then show ?case by simp
next
  case (Cons c cs)
  have "pool_Keys (add_key RL fl n c p) = pool_Keys p @ [init_key n c]"
    using Cons.prems by (simp add: pool_Keys_def add_key_def Let_def built_def)
  with Cons.IH [OF built_add_key [OF Cons.prems, of RL fl c]] show ?case
    by (simp add: upt_conv_Cons del: upt_Suc)
qed

lemma NewKeyPool_Keys:
  assumes "NewKeyPool RL fl provider cfg = Inr p"
  shows "pool_Keys p = map2 init_key [0..<length (pc_Keys cfg)] (pc_Keys cfg)"
proof -
  obtain s where p: "p = add_keys RL fl 0 (pc_Keys cfg)
      \<lparr>p_heap = (\<lambda>_. NewKeyMetadata 0 '''' 0 0 0), p_keys = [], p_keyMap = Map.empty,
       p_limiters = Map.empty, p_selector = s, p_provider = provider\<rparr>"
    using assms by (auto simp: NewKeyPool_def split: if_splits sum.splits)
  show ?thesis
    unfolding p by (subst add_keys_Keys) (simp_all add: built_def pool_Keys_def)
qed

text \<open>
  \<open>NewKeyPool\<close> fails exactly when no key is configured or the strategy is unknown; otherwise it
  returns a pool that satisfies the pool invariant and holds one key per configured key, in order,
  with that key's secret and pairwise different identifiers.
\<close>

lemma NewKeyPool_spec:
  assumes "slice_ok (pc_Keys cfg)"
  shows "case NewKeyPool RL fl provider cfg of
      Inl e \<Rightarrow> pc_Keys cfg = [] \<or>
        pc_Strategy cfg \<notin> {'''', ''least_loaded'', ''round_robin'', ''random'', ''weighted''}
    | Inr p \<Rightarrow> pc_Keys cfg \<noteq> [] \<and> pool_ok p \<and> distinct (map k_ID (pool_Keys p)) \<and>
        map k_APIKey (pool_Keys p) = map kc_APIKey (pc_Keys cfg)"
proof (cases "NewKeyPool RL fl provider cfg")
  case (Inl e)
  then show ?thesis by (auto simp: NewKeyPool_def NewSelector_def split: if_splits)
next
  case (Inr p)
  have ok: "pool_ok p"
    using NewKeyPool_built [OF Inr] assms by (intro built_pool_ok) (auto simp: slice_ok_def)
  have "map k_APIKey (pool_Keys p) = map kc_APIKey (pc_Keys cfg)"
    by (rule nth_equalityI) (simp_all add: NewKeyPool_Keys [OF Inr])
  moreover have "pc_Keys cfg \<noteq> []"
    using Inr by (auto simp: NewKeyPool_def)
  moreover have "distinct (map k_ID (pool_Keys p))"
    using ok unfolding pool_ok_def by blast
  ultimately show ?thesis using Inr ok by simp
qed

definition demo_cfg :: pool_config where
  "demo_cfg = \<lparr>pc_Strategy = ''round_robin'',
     pc_Keys = [\<lparr>kc_APIKey = ''sk-aaaa'', kc_RPMLimit = 1, kc_ITPMLimit = 0, kc_OTPMLimit = 0,
                 kc_Priority = 2, kc_Weight = 0\<rparr>,
                \<lparr>kc_APIKey = ''sk-bbbb'', kc_RPMLimit = 5, kc_ITPMLimit = 0, kc_OTPMLimit = 0,
                 kc_Priority = 0, kc_Weight = 0\<rparr>]\<rparr>"

definition demo_pool :: "(bucket, selector) key_pool" where
  "demo_pool = (case NewKeyPool bkt_lib (\<lambda>x. x) ''anthropic'' demo_cfg of Inr p \<Rightarrow> p)"

lemma demo_pool_new: "NewKeyPool bkt_lib (\<lambda>x. x) ''anthropic'' demo_cfg = Inr demo_pool"
  by (simp add: demo_pool_def NewKeyPool_def NewSelector_def demo_cfg_def)

lemma demo_pool_reachable: "pool_reachable bkt_lib (\<lambda>x. x) pt demo_pool"
  by (rule pool_reachable.created [OF demo_pool_new]) (simp add: demo_cfg_def slice_ok_def)

lemma demo_pool_Keys:
  "pool_Keys demo_pool = [init_key 0 (pc_Keys demo_cfg ! 0), init_key 1 (pc_Keys demo_cfg ! 1)]"
  by (simp add: NewKeyPool_Keys [OF demo_pool_new] demo_cfg_def upt_conv_Cons)

lemma NewKeyPool_spec_witness:
  "case NewKeyPool bkt_lib (\<lambda>x. x) ''anthropic'' demo_cfg of Inl e \<Rightarrow> False
   | Inr p \<Rightarrow> map k_APIKey (pool_Keys p) = [''sk-aaaa'', ''sk-bbbb'']"
  using NewKeyPool_spec [of demo_cfg bkt_lib "\<lambda>x. x" "''anthropic''"]
  by (simp add: demo_pool_new) (simp add: demo_cfg_def slice_ok_def)

section \<open>Properties of the selection\<close>


text \<open>
  C13: \<open>GetKey\<close> misses no capacity: at a fixed instant, if some key is available and its limiter has
  a request left, a key is returned, and its priority is at least that key's.
\<close>

theorem GetKey_complete:
  assumes "pool_reachable RL fl pt p" and "\<And>i. env_ok (envs i)" and "\<And>i. env_now (envs i) = now"
    and "k \<in> set (pool_Keys p)" and "IsAvailable now k"
    and "p_limiters p (k_ID k) = Some l" and "fst (tb_Allow RL now l)"
  shows "\<exists>r \<in> set (pool_Keys p). fst (GetKey RL envs p) = Inr (k_ID r, k_APIKey r) \<and>
    k_Priority k \<le> k_Priority r"
  unfolding GetKey_def
  by (rule tier.GetKey_loop_best [where envs = envs, OF assms(2,3)
        pool_ok_loop_ready [OF reachable_ok [OF assms(1)]] order_refl assms(4-7)])


lemma demo_pool_limiter:
  "\<exists>l. p_limiters demo_pool (k_ID (init_key 1 (pc_Keys demo_cfg ! 1))) = Some l \<and>
     fst (tb_Allow bkt_lib now l)"
proof -
  have "p_limiters demo_pool (k_ID (init_key 1 (pc_Keys demo_cfg ! 1))) =
      Some (NewTokenBucketLimiter bkt_lib (\<lambda>x. x) 5 (wrap64 (0 + 0)))"
    by (simp add: demo_pool_def NewKeyPool_def NewSelector_def demo_cfg_def add_key_def Let_def)
  then show ?thesis
    using fresh_Allow [OF bkt_lib_ok NewTokenBucketLimiter_fresh [OF bkt_lib_ok]] by auto
qed

lemma GetKey_complete_witness:
  "\<exists>r \<in> set (pool_Keys demo_pool).
     fst (GetKey bkt_lib (\<lambda>_. demo_env) demo_pool) = Inr (k_ID r, k_APIKey r)"
proof -
  let ?k = "init_key 1 (pc_Keys demo_cfg ! 1)"
  obtain l where l: "p_limiters demo_pool (k_ID ?k) = Some l" "fst (tb_Allow bkt_lib (env_now demo_env) l)"
    using demo_pool_limiter by blast
  have "?k \<in> set (pool_Keys demo_pool)" by (simp add: demo_pool_Keys)
  moreover have "IsAvailable (env_now demo_env) ?k"
    by (simp add: IsAvailable_def init_key_def demo_cfg_def NewKeyMetadata_def demo_env_def nsec_per_sec_def)
  ultimately show ?thesis
    using GetKey_complete [OF demo_pool_reachable, of "\<lambda>_. demo_env" "env_now demo_env" ?k l] l by auto
qed

section \<open>Properties of the feedback\<close>

lemma mark_excludes:
  assumes ok: "pool_ok p" and a: "p_keyMap p keyID = Some a" and f: "\<And>k. k_ID (f k) = k_ID k"
    and "\<And>i. env_ok (envs i)" and un: "\<And>i. \<not> IsAvailable (env_now (envs i)) (f (p_heap p a))"
    and get: "fst (GetKey RL envs (pool_map_key a f p)) = Inr (id', api)"
  shows "id' \<noteq> keyID"
proof
  assume "id' = keyID"
  let ?q = "pool_map_key a f p"
  obtain k j where k: "k \<in> set (pool_Keys ?q)" "id' = k_ID k" "IsAvailable (env_now (envs j)) k"
    using tier.GetKey_loop_sound [where envs = envs, OF assms(4)
        pool_ok_loop_ready [OF pool_map_key_ok [OF ok f]] get [unfolded GetKey_def]] by blast
  then obtain b where b: "b \<in> set (p_keys p)" "k = (if b = a then f (p_heap p a) else p_heap p b)"
    by (auto simp: pool_map_key_Keys)
  then have "k_ID (p_heap p b) = keyID"
    using k(2) \<open>id' = keyID\<close> f by (auto split: if_splits)
  then have "b = a" using a b(1) pool_ok_keyMap_iff [OF ok] by (metis option.inject)
  then show False using b(2) k(3) un by simp
qed

lemma exhausted_excluded:
  assumes "pool_ok p" and "keyID \<in> dom (p_keyMap p)" and "\<And>i. env_ok (envs i)"
    and "\<And>i. env_now (envs i) \<le> now + retryAfter"
  shows "fst (GetKey RL envs (MarkKeyExhausted now keyID retryAfter p)) \<noteq> Inr (keyID, api)"
proof -
  obtain a where a: "p_keyMap p keyID = Some a" using assms(2) by auto
  have "\<not> IsAvailable (env_now (envs i)) (SetCooldown (now + retryAfter) (p_heap p a))" for i
    using assms(4) [of i] by (simp add: IsAvailable_def SetCooldown_def)
  from mark_excludes [where envs = envs and f = "SetCooldown (now + retryAfter)" and RL = RL,
      OF assms(1) a mark_frame(1) assms(3) this] show ?thesis
    by (fastforce simp: MarkKeyExhausted_def a)
qed

lemma unhealthy_excluded:
  assumes "pool_ok p" and "keyID \<in> dom (p_keyMap p)" and "\<And>i. env_ok (envs i)"
  shows "fst (GetKey RL envs (MarkKeyUnhealthy now keyID err p)) \<noteq> Inr (keyID, api)"
proof -
  obtain a where a: "p_keyMap p keyID = Some a" using assms(2) by auto
  have "\<not> IsAvailable (env_now (envs i)) (MarkUnhealthy now err (p_heap p a))" for i
    by (simp add: IsAvailable_def MarkUnhealthy_def)
  from mark_excludes [where envs = envs and f = "MarkUnhealthy now err" and RL = RL,
      OF assms(1) a mark_frame(5) assms(3) this] show ?thesis
    by (fastforce simp: MarkKeyUnhealthy_def a)
qed

text \<open>
  A key marked exhausted for a duration is not handed out by \<open>GetKey\<close> at any time up to the end
  of its cooldown, and a key marked unhealthy is not handed out at all.
\<close>

lemma marked_key_not_selected:
  assumes "pool_reachable RL fl pt p" and "keyID \<in> dom (p_keyMap p)" and "\<And>i. env_ok (envs i)"
  shows "((\<forall>i. env_now (envs i) \<le> now + retryAfter) \<longrightarrow>
      fst (GetKey RL envs (MarkKeyExhausted now keyID retryAfter p)) \<noteq> Inr (keyID, api)) \<and>
    fst (GetKey RL envs (MarkKeyUnhealthy now keyID err p)) \<noteq> Inr (keyID, api)"
  using exhausted_excluded [where envs = envs, OF reachable_ok [OF assms(1)] assms(2,3)]
    unhealthy_excluded [where envs = envs, OF reachable_ok [OF assms(1)] assms(2,3)] by blast

lemma demo_pool_keyMap: "p_keyMap demo_pool (k_ID (init_key 1 (pc_Keys demo_cfg ! 1))) = Some 1"
  by (simp add: demo_pool_def NewKeyPool_def NewSelector_def demo_cfg_def add_key_def Let_def)

lemma marked_key_not_selected_witness:
  "fst (GetKey bkt_lib (\<lambda>_. demo_env) (MarkKeyExhausted (env_now demo_env)
      (k_ID (init_key 1 (pc_Keys demo_cfg ! 1))) (seconds 20) demo_pool)) \<noteq>
   Inr (k_ID (init_key 1 (pc_Keys demo_cfg ! 1)), ''sk-bbbb'')"
  using marked_key_not_selected [OF demo_pool_reachable, where envs = "\<lambda>_. demo_env"
      and keyID = "k_ID (init_key 1 (pc_Keys demo_cfg ! 1))" and now = "env_now demo_env"
      and retryAfter = "seconds 20" and api = "''sk-bbbb''"] demo_pool_keyMap
  by (auto simp: seconds_def nsec_per_sec_def)

text \<open>
  Every successful \<open>UpdateKeyFromHeaders\<close> refills the key's limiter: whatever the headers say
  and however many requests were already admitted, a full minute's burst of the key's request
  limit is admitted again at once.
\<close>

lemma UpdateKeyFromHeaders_refills:
  assumes "rate_ok RL" and "pool_reachable RL fl pt p" and "p_keyMap p keyID = Some a"
  shows "\<exists>p' l. UpdateKeyFromHeaders RL fl pt keyID headers p = (None, p') \<and>
    p_limiters p' keyID = Some l \<and>
    allow_burst RL now (nat (effective_limit (k_RPMLimit (p_heap p' a))) + m) l =
      replicate (nat (effective_limit (k_RPMLimit (p_heap p' a)))) True @ replicate m False"
proof -
  let ?k = "UpdateFromHeaders pt headers (p_heap p a)"
  obtain limiter where u: "UpdateKeyFromHeaders RL fl pt keyID headers p =
      (None, (pool_map_key a (UpdateFromHeaders pt headers) p)
        \<lparr>p_limiters := (p_limiters p)(keyID \<mapsto> tb_SetLimit RL fl (k_RPMLimit ?k)
             (wrap64 (k_ITPMLimit ?k + k_OTPMLimit ?k)) limiter)\<rparr>)"
    using UpdateKeyFromHeaders_known [OF reachable_ok [OF assms(2)] assms(3)] by blast
  let ?lim = "tb_SetLimit RL fl (k_RPMLimit ?k) (wrap64 (k_ITPMLimit ?k + k_OTPMLimit ?k)) limiter"
  let ?rpm = "effective_limit (k_RPMLimit ?k)"
  have "rl_tokens RL now (tb_request ?lim) = of_nat (nat ?rpm)"
    using SetLimit_fresh [OF assms(1), of "k_RPMLimit ?k" "wrap64 (k_ITPMLimit ?k + k_OTPMLimit ?k)" fl limiter]
    by (simp add: tb_fresh_def)
  from allow_burst_count [OF assms(1) this, of m]
  show ?thesis unfolding u by (simp add: pool_map_key_def)
qed

lemma UpdateKeyFromHeaders_refills_witness:
  "\<exists>p' l. UpdateKeyFromHeaders bkt_lib (\<lambda>x. x) (\<lambda>_. None) (k_ID (init_key 1 (pc_Keys demo_cfg ! 1)))
     (\<lambda>_. []) demo_pool = (None, p') \<and>
   p_limiters p' (k_ID (init_key 1 (pc_Keys demo_cfg ! 1))) = Some l"
  using UpdateKeyFromHeaders_refills [OF bkt_lib_ok demo_pool_reachable demo_pool_keyMap,
      where headers = "\<lambda>_. []"] by blast

section \<open>Properties of the statistics\<close>

lemma stats_foldl:
  "st_AvailableKeys (foldl (stats_step now) st ks) =
     st_AvailableKeys st + int (length (filter (IsAvailable now) ks)) \<and>
   st_ExhaustedKeys (foldl (stats_step now) st ks) =
     st_ExhaustedKeys st + int (length (filter (\<lambda>k. \<not> IsAvailable now k) ks)) \<and>
   st_TotalKeys (foldl (stats_step now) st ks) = st_TotalKeys st"
  by (induction ks arbitrary: st) (simp_all add: stats_step_def Let_def)

text \<open>
  The statistics count every key once: available and exhausted keys add up to the total, and
  the available ones are those \<open>IsAvailable\<close> accepts.
\<close>

lemma GetStats_partition:
  assumes "lo_pool_ok L"
  shows "st_AvailableKeys (GetStats L now p) + st_ExhaustedKeys (GetStats L now p) =
      st_TotalKeys (GetStats L now p) \<and>
    st_TotalKeys (GetStats L now p) = int (length (pool_Keys p)) \<and>
    st_AvailableKeys (GetStats L now p) = int (length (filter (IsAvailable now) (pool_Keys p)))"
  using assms stats_foldl [of now _ "pool_Keys p"]
    sum_length_filter_compl [of "IsAvailable now" "pool_Keys p"]
  by (simp add: GetStats_def lo_pool_ok_def pool_Keys_def flip: of_nat_add)

text \<open>
  The wait advertised when all keys are exhausted is never negative, is 60 seconds when no reset
  time is known, and otherwise never exceeds the time until any key's known reset (or 0 if past).
\<close>

lemma GetEarliestResetTime_spec:
  assumes "lo_pool_ok L"
  shows "0 \<le> GetEarliestResetTime L now p \<and>
    ((\<forall>k \<in> set (pool_Keys p). k_RPMResetAt k = 0) \<longrightarrow> GetEarliestResetTime L now p = seconds 60) \<and>
    (\<forall>k \<in> set (pool_Keys p). k_RPMResetAt k \<noteq> 0 \<longrightarrow>
       GetEarliestResetTime L now p \<le> max 0 (time_until now (k_RPMResetAt k)))"
proof -
  let ?T = "map k_RPMResetAt (filter (\<lambda>k. k_RPMResetAt k \<noteq> 0) (pool_Keys p))"
  let ?e = "lo_min_by (lp_times L) (\<lambda>a b. a < b) ?T"
  have T: "lp_filter_map L (\<lambda>key. (k_RPMResetAt key, k_RPMResetAt key \<noteq> 0)) (pool_Keys p) = ?T"
    using assms by (simp add: lo_pool_ok_def comp_def)
  have lo: "lo_ok (lp_times L)" using assms by (simp add: lo_pool_ok_def)
  have least: "?e \<le> t" if "t \<in> set ?T" for t
    using lo_min_by_least [OF lo that, of of_int] by simp
  have "GetEarliestResetTime L now p = (if ?T = [] then seconds 60 else max 0 (time_until now ?e))"
    by (simp only: GetEarliestResetTime_def T Let_def) (simp add: max_def)
  moreover have "time_until now ?e \<le> time_until now t" if "t \<in> set ?T" for t
    using least [OF that] by (auto simp: time_until_def)
  moreover have "time_until now ?e \<le> time_until now (k_RPMResetAt k)"
    if "k \<in> set (pool_Keys p)" "k_RPMResetAt k \<noteq> 0" for k
    by (rule calculation(2)) (use that in auto)
  ultimately show ?thesis
    by (auto simp: filter_empty_conv time_defs max.coboundedI2)
qed

definition std_lo_pool :: lo_pool where
  "std_lo_pool = \<lparr>lp_filter_map = (\<lambda>f xs. map (fst \<circ> f) (filter (snd \<circ> f) xs)),
     lp_times = std_lo, lp_reduce = (\<lambda>f xs z. foldl f z xs)\<rparr>"

lemma std_lo_pool_ok [simp]: "lo_pool_ok std_lo_pool"
  by (simp add: lo_pool_ok_def std_lo_pool_def)

lemma GetStats_partition_witness:
  "st_TotalKeys (GetStats std_lo_pool 5 demo_pool) = 2"
  using GetStats_partition [OF std_lo_pool_ok, of 5 demo_pool] by (simp add: demo_pool_Keys)

lemma GetEarliestResetTime_spec_witness:
  "GetEarliestResetTime std_lo_pool 5 demo_pool = seconds 60"
  using GetEarliestResetTime_spec [OF std_lo_pool_ok, of 5 demo_pool]
  by (simp add: demo_pool_Keys init_key_def NewKeyMetadata_def Let_def)

end
