(* ===== verification/Provider_Router.thy ===== *)
theory Provider_Router
  imports CR_Prelude
begin

text \<open>
  Provider selection (\<open>internal/router\<close>), first part: the routing metadata of a provider, health
  filtering, sorting by priority, and the stateful strategies round robin, shuffle, smooth weighted
  round robin and least loaded. The contract of a \<open>ProviderRouter\<close> is the locale
  \<open>provider_router\<close>; every strategy is an interpretation of it.
\<close>

section \<open>Providers\<close>

text \<open>
  Of the interface \<open>providers.Provider\<close> routing reads \<open>Name\<close> and \<open>Owner\<close>. \<open>pi_Provider\<close> is
  \<^term>\<open>None\<close> for a nil provider; \<open>pi_IsHealthy\<close> is \<^term>\<open>None\<close> for a nil function and otherwise
  holds what the health closure answers at the moment of the selection.
\<close>

record provider =
  prov_Name :: string
  prov_Owner :: string

record provider_info =
  pi_Provider :: "provider option"
  pi_IsHealthy :: "bool option"
  pi_Weight :: int
  pi_Priority :: int

definition ErrNoProviders :: go_error where
  "ErrNoProviders = Sentinel ''router: no providers configured''"

definition ErrAllProvidersUnhealthy :: go_error where
  "ErrAllProvidersUnhealthy = Sentinel ''router: all providers unhealthy''"

lemma router_errors_distinct [simp]:
  "ErrNoProviders \<noteq> ErrAllProvidersUnhealthy" "ErrAllProvidersUnhealthy \<noteq> ErrNoProviders"
  by (simp_all add: ErrNoProviders_def ErrAllProvidersUnhealthy_def)

text \<open>What a selection reads from its surroundings.\<close>

record route_env =
  re_now :: go_time
  re_rand :: "nat \<Rightarrow> rand_src"
  re_lo :: "provider_info lo"
  re_shuffle :: "nat list \<Rightarrow> nat list"

text \<open>
  \<open>re_rand i\<close> is the random source of the \<open>i\<close>-th draw of a call; \<open>re_shuffle\<close> is the third-party
  \<open>lom.Shuffle\<close>, whose contract is to permute.
\<close>

definition route_env_ok :: "route_env \<Rightarrow> bool" where
  "route_env_ok env \<longleftrightarrow> lo_ok (re_lo env) \<and> (\<forall>i. rand_ok (re_rand env i)) \<and> clock_ok (re_now env) \<and>
     (\<forall>xs. mset (re_shuffle env xs) = mset xs)"

definition Healthy :: "provider_info \<Rightarrow> bool" where
  "Healthy p = (case pi_IsHealthy p of None \<Rightarrow> True | Some h \<Rightarrow> h)"

definition FilterHealthy :: "route_env \<Rightarrow> provider_info list \<Rightarrow> provider_info list" where
  "FilterHealthy env ps = lo_filter (re_lo env) Healthy ps"

definition rt_randIntn :: "route_env \<Rightarrow> nat \<Rightarrow> int \<Rightarrow> int" where
  "rt_randIntn env i upperBound =
     (if upperBound \<le> 0 then 0
      else case re_rand env i upperBound of
             Some v \<Rightarrow> v
           | None \<Rightarrow> go_rem (unix_nano (re_now env)) upperBound)"

lemma rt_randIntn_outcome:
  "0 < n \<Longrightarrow> rt_randIntn env i n = rand_outcome (re_now env) (re_rand env i) n"
  by (simp add: rt_randIntn_def rand_outcome_def)

lemma rt_randIntn_bounds [contract]:
  "route_env_ok env \<Longrightarrow> 0 < n \<Longrightarrow> 0 \<le> rt_randIntn env i n \<and> rt_randIntn env i n < n"
  by (simp add: rt_randIntn_outcome route_env_ok_def rand_outcome_bounds)

lemma FilterHealthy_eq [simp]: "route_env_ok env \<Longrightarrow> FilterHealthy env ps = filter Healthy ps"
  by (simp add: FilterHealthy_def route_env_ok_def)

lemma route_env_sum [simp]:
  "route_env_ok env \<Longrightarrow> lo_sum_by (re_lo env) f ps = wrap_sum (map f ps)"
  by (simp add: route_env_ok_def)

text \<open>Both checks every \<open>Select\<close> starts with.\<close>

definition check_healthy :: "route_env \<Rightarrow> provider_info list \<Rightarrow> go_error + provider_info list" where
  "check_healthy env ps =
     (if ps = [] then Inl ErrNoProviders
      else let healthy = FilterHealthy env ps
           in if healthy = [] then Inl ErrAllProvidersUnhealthy else Inr healthy)"

lemma check_healthy_empty [simp]: "check_healthy env [] = Inl ErrNoProviders"
  by (simp add: check_healthy_def)

lemma check_healthy_none:
  "route_env_ok env \<Longrightarrow> ps \<noteq> [] \<Longrightarrow> \<forall>p \<in> set ps. \<not> Healthy p \<Longrightarrow>
   check_healthy env ps = Inl ErrAllProvidersUnhealthy"
  by (simp add: check_healthy_def)

lemma check_healthy_some:
  "route_env_ok env \<Longrightarrow> \<exists>p \<in> set ps. Healthy p \<Longrightarrow> check_healthy env ps = Inr (filter Healthy ps)"
  by (auto simp: check_healthy_def Let_def filter_empty_conv)

section \<open>Sorting by priority\<close>

definition priority_cmp :: "provider_info \<Rightarrow> provider_info \<Rightarrow> int" where
  "priority_cmp a b = wrap64 (pi_Priority b - pi_Priority a)"

definition sortByPriority :: "provider_info list \<Rightarrow> provider_info list" where
  "sortByPriority ps = sort_stable priority_cmp ps"

text \<open>Priorities whose differences do not overflow.\<close>

definition small_priorities :: "provider_info list \<Rightarrow> bool" where
  "small_priorities ps \<longleftrightarrow> (\<forall>p \<in> set ps. \<bar>pi_Priority p\<bar> < 2 ^ 62)"

lemma sortByPriority_sort_key:
  assumes "small_priorities ps"
  shows "sortByPriority ps = sort_key (\<lambda>p. - pi_Priority p) ps"
  unfolding sortByPriority_def
proof (rule sort_stable_sort_key, intro ballI)
  fix a b assume "a \<in> set ps" "b \<in> set ps"
  then have "\<bar>pi_Priority a\<bar> < 2 ^ 62" "\<bar>pi_Priority b\<bar> < 2 ^ 62"
    using assms unfolding small_priorities_def by blast+
  then have "in_int64 (pi_Priority b - pi_Priority a)"
    unfolding in_int64_def by (auto simp: abs_less_iff)
  then show "priority_cmp a b \<le> 0 \<longleftrightarrow> - pi_Priority a \<le> - pi_Priority b"
    by (simp add: priority_cmp_def)
qed

lemma sortByPriority_set [simp]: "set (sortByPriority ps) = set ps"
  by (simp add: sortByPriority_def)

lemma sortByPriority_length [simp]: "length (sortByPriority ps) = length ps"
  by (simp add: sortByPriority_def)

lemma sortByPriority_Nil [simp]: "sortByPriority ps = [] \<longleftrightarrow> ps = []"
  by (metis length_0_conv sortByPriority_length)

lemma sortByPriority_sorted:
  "small_priorities ps \<Longrightarrow> sorted (map (\<lambda>p. - pi_Priority p) (sortByPriority ps))"
  by (simp add: sortByPriority_sort_key)

lemma sortByPriority_hd:
  assumes "small_priorities ps" and "p \<in> set ps"
  shows "pi_Priority p \<le> pi_Priority (hd (sortByPriority ps))"
proof -
  have "p \<in> set (sortByPriority ps)" using assms(2) by simp
  with sortByPriority_sorted [OF assms(1)] show ?thesis
    by (cases "sortByPriority ps") auto
qed

lemma small_priorities_filter [simp]: "small_priorities ps \<Longrightarrow> small_priorities (filter P ps)"
  by (simp add: small_priorities_def)

section \<open>Round robin\<close>

definition RoundRobinRouter_Select ::
    "route_env \<Rightarrow> 64 word \<Rightarrow> provider_info list \<Rightarrow> (go_error + provider_info) \<times> 64 word" where
  "RoundRobinRouter_Select env index ps =
     (case check_healthy env ps of
        Inl e \<Rightarrow> (Inl e, index)
      | Inr healthy \<Rightarrow>
          (let index' = index + 1;
               nextIndex = index' - 1;
               idx64 = nextIndex mod word_of_nat (length healthy);
               maxInt = (2 ^ 63 - 1 :: 64 word)
           in if idx64 > maxInt then (Inl ErrNoProviders, index')
              else (Inr (healthy ! unat idx64), index')))"

section \<open>Shuffle\<close>

record shuffle_router =
  sr_order :: "nat list"
  sr_position :: nat
  sr_lastLen :: nat

definition NewShuffleRouter :: shuffle_router where
  "NewShuffleRouter = \<lparr>sr_order = [], sr_position = 0, sr_lastLen = 0\<rparr>"

definition reshuffle :: "route_env \<Rightarrow> nat \<Rightarrow> shuffle_router \<Rightarrow> shuffle_router" where
  "reshuffle env numProviders r =
     r\<lparr>sr_order := re_shuffle env [0..<numProviders], sr_position := 0, sr_lastLen := numProviders\<rparr>"

definition ShuffleRouter_Select ::
    "route_env \<Rightarrow> shuffle_router \<Rightarrow> provider_info list \<Rightarrow> (go_error + provider_info) \<times> shuffle_router" where
  "ShuffleRouter_Select env r ps =
     (case check_healthy env ps of
        Inl e \<Rightarrow> (Inl e, r)
      | Inr healthy \<Rightarrow>
          (let needsReshuffle = (sr_order r = [] \<or> length healthy \<noteq> sr_lastLen r \<or>
                 length (sr_order r) \<le> sr_position r);
               r = (if needsReshuffle then reshuffle env (length healthy) r else r)
           in if length (sr_order r) \<le> sr_position r
              then (Inl (GoPanic ''index out of range''), r)
              else let idx = sr_order r ! sr_position r;
                       r = r\<lparr>sr_position := sr_position r + 1\<rparr>
                   in if length healthy \<le> idx then (Inl (GoPanic ''index out of range''), r)
                      else (Inr (healthy ! idx), r)))"

section \<open>Smooth weighted round robin\<close>

record wrr_router =
  wr_currentWeights :: "int list"
  wr_lastProviderIDs :: "string list"

definition NewWeightedRoundRobinRouter :: wrr_router where
  "NewWeightedRoundRobinRouter = \<lparr>wr_currentWeights = [], wr_lastProviderIDs = []\<rparr>"

definition getEffectiveWeight :: "provider_info \<Rightarrow> int" where
  "getEffectiveWeight p = (if pi_Weight p \<le> 0 then 1 else pi_Weight p)"

definition getProviderIDs :: "provider_info list \<Rightarrow> string list" where
  "getProviderIDs ps = map (\<lambda>p. case pi_Provider p of Some prov \<Rightarrow> prov_Name prov | None \<Rightarrow> '''') ps"

fun stringSliceEqual :: "string list \<Rightarrow> string list \<Rightarrow> bool" where
  "stringSliceEqual [] [] = True"
| "stringSliceEqual (a # as) (b # bs) = (a = b \<and> stringSliceEqual as bs)"
| "stringSliceEqual _ _ = False"

text \<open>The loop for the greatest current weight: the first index that attains it.\<close>

fun max_index :: "nat \<Rightarrow> int \<Rightarrow> nat \<Rightarrow> int list \<Rightarrow> nat" where
  "max_index maxIdx maxWeight i [] = maxIdx"
| "max_index maxIdx maxWeight i (w # ws) =
     (if maxWeight < w then max_index i w (Suc i) ws else max_index maxIdx maxWeight (Suc i) ws)"

definition wrr_step :: "int list \<Rightarrow> int list \<Rightarrow> int \<Rightarrow> nat \<times> int list" where
  "wrr_step current weights totalWeight =
     (let cs = map2 (\<lambda>c w. wrap64 (c + w)) current weights;
          maxIdx = max_index 0 (hd cs) 1 (tl cs)
      in (maxIdx, cs[maxIdx := wrap64 (cs ! maxIdx - totalWeight)]))"

definition WeightedRoundRobinRouter_Select ::
    "route_env \<Rightarrow> wrr_router \<Rightarrow> provider_info list \<Rightarrow> (go_error + provider_info) \<times> wrr_router" where
  "WeightedRoundRobinRouter_Select env r ps =
     (case check_healthy env ps of
        Inl e \<Rightarrow> (Inl e, r)
      | Inr healthy \<Rightarrow>
          (let currentIDs = getProviderIDs healthy;
               r = (if \<not> stringSliceEqual (wr_lastProviderIDs r) currentIDs
                    then r\<lparr>wr_currentWeights := replicate (length healthy) 0,
                           wr_lastProviderIDs := currentIDs\<rparr>
                    else r);
               totalWeight = lo_sum_by (re_lo env) getEffectiveWeight healthy;
               (maxIdx, cs) = wrr_step (wr_currentWeights r) (map getEffectiveWeight healthy) totalWeight
           in (Inr (healthy ! maxIdx), r\<lparr>wr_currentWeights := cs\<rparr>)))"

section \<open>Least loaded\<close>

text \<open>In-flight counters by provider name; a missing counter is created at zero.\<close>

type_synonym ll_router = "string \<rightharpoonup> int"

definition getCounter :: "string \<Rightarrow> ll_router \<Rightarrow> int \<times> ll_router" where
  "getCounter name r = (case r name of Some c \<Rightarrow> (c, r) | None \<Rightarrow> (0, r(name \<mapsto> 0)))"

definition counter_Add :: "string \<Rightarrow> int \<Rightarrow> ll_router \<Rightarrow> ll_router" where
  "counter_Add name delta r = (let (c, r) = getCounter name r in r(name \<mapsto> wrap64 (c + delta)))"

definition LeastLoaded_Acquire :: "provider \<Rightarrow> ll_router \<Rightarrow> ll_router" where
  "LeastLoaded_Acquire p r = counter_Add (prov_Name p) 1 r"

definition LeastLoaded_Release :: "provider \<Rightarrow> ll_router \<Rightarrow> ll_router" where
  "LeastLoaded_Release p r = counter_Add (prov_Name p) (- 1) r"

text \<open>
  The scan over the healthy providers with \<open>minLoad\<close> starting at the sentinel \<open>-1\<close>. A nil
  provider panics at \<open>Name()\<close>.
\<close>

fun ll_scan ::
    "int \<Rightarrow> provider_info list \<Rightarrow> ll_router \<Rightarrow> provider_info list \<Rightarrow>
     (go_error + provider_info list) \<times> ll_router" where
  "ll_scan minLoad candidates r [] = (Inr candidates, r)"
| "ll_scan minLoad candidates r (p # ps) =
     (case pi_Provider p of
        None \<Rightarrow> (Inl (GoPanic ''nil provider''), r)
      | Some prov \<Rightarrow>
          (let (load, r) = getCounter (prov_Name prov) r
           in if minLoad = - 1 \<or> load < minLoad then ll_scan load [p] r ps
              else if load = minLoad then ll_scan minLoad (candidates @ [p]) r ps
              else ll_scan minLoad candidates r ps))"

definition LeastLoadedRouter_Select ::
    "route_env \<Rightarrow> ll_router \<Rightarrow> provider_info list \<Rightarrow> (go_error + provider_info) \<times> ll_router" where
  "LeastLoadedRouter_Select env r ps =
     (case check_healthy env ps of
        Inl e \<Rightarrow> (Inl e, r)
      | Inr healthy \<Rightarrow>
          (case ll_scan (- 1) [] r healthy of
             (Inl e, r') \<Rightarrow> (Inl e, r')
           | (Inr candidates, r') \<Rightarrow>
               (let candidates = sortByPriority candidates;
                    highestPriority = pi_Priority (hd candidates);
                    priorityTies = takeWhile (\<lambda>p. pi_Priority p = highestPriority) candidates
                in if length priorityTies = 1 then (Inr (hd priorityTies), r')
                   else (Inr (priorityTies ! nat (rt_randIntn env 0 (int (length priorityTies)))), r'))))"

section \<open>The contract of a provider router\<close>

text \<open>
  \<open>inv\<close> is what the strategy keeps of its own state. The providers of a request are usable when
  none is nil; routing is only promised on slices of representable length.
\<close>

definition usable :: "provider_info list \<Rightarrow> bool" where
  "usable ps \<longleftrightarrow> slice_ok ps \<and> (\<forall>p \<in> set ps. pi_Provider p \<noteq> None)"

locale provider_router =
  fixes sel :: "route_env \<Rightarrow> 's \<Rightarrow> provider_info list \<Rightarrow> (go_error + provider_info) \<times> 's"
    and inv :: "'s \<Rightarrow> bool"
  assumes sel_empty: "route_env_ok env \<Longrightarrow> inv s \<Longrightarrow> fst (sel env s []) = Inl ErrNoProviders"
    and sel_unhealthy: "route_env_ok env \<Longrightarrow> inv s \<Longrightarrow> ps \<noteq> [] \<Longrightarrow> \<forall>p \<in> set ps. \<not> Healthy p \<Longrightarrow>
      fst (sel env s ps) = Inl ErrAllProvidersUnhealthy"
    and sel_healthy: "route_env_ok env \<Longrightarrow> inv s \<Longrightarrow> usable ps \<Longrightarrow> \<exists>p \<in> set ps. Healthy p \<Longrightarrow>
      \<exists>r. fst (sel env s ps) = Inr r \<and> r \<in> set ps \<and> Healthy r"
    and sel_inv: "route_env_ok env \<Longrightarrow> inv s \<Longrightarrow> usable ps \<Longrightarrow> inv (snd (sel env s ps))"
begin

lemma sel_Inr:
  assumes "route_env_ok env" "inv s" "usable ps" "fst (sel env s ps) = Inr r"
  shows "r \<in> set ps \<and> Healthy r"
proof (cases "\<exists>p \<in> set ps. Healthy p")
  case True
  with sel_healthy [OF assms(1-3)] assms(4) show ?thesis by (metis Inr_inject)
next
  case False
  with sel_unhealthy [OF assms(1,2)] sel_empty [OF assms(1,2)] assms(4) show ?thesis
    by (cases "ps = []") auto
qed

lemma sel_Inl_iff:
  assumes "route_env_ok env" "inv s" "usable ps"
  shows "fst (sel env s ps) = Inl e \<longleftrightarrow> (\<forall>p \<in> set ps. \<not> Healthy p) \<and>
    e = (if ps = [] then ErrNoProviders else ErrAllProvidersUnhealthy)"
proof (cases "\<exists>p \<in> set ps. Healthy p")
  case True
  with sel_healthy [OF assms] show ?thesis by auto
next
  case False
  with sel_unhealthy [OF assms(1,2)] sel_empty [OF assms(1,2)] show ?thesis
    by (cases "ps = []") auto
qed

end

section \<open>Round robin meets the contract\<close>

lemma RoundRobinRouter_Select_eq:
  assumes "route_env_ok env" "slice_ok ps" "\<exists>p \<in> set ps. Healthy p"
  shows "RoundRobinRouter_Select env idx ps =
    (Inr (filter Healthy ps ! (unat idx mod length (filter Healthy ps))), idx + 1)"
proof -
  let ?H = "filter Healthy ps"
  have H: "slice_ok ?H" "?H \<noteq> []" using assms(2,3) by (simp_all add: filter_empty_conv)
  have "unat (idx mod word_of_nat (length ?H)) < 2 ^ 63"
    using counter_index(2) [OF H, of idx] H(1) by (simp add: slice_ok_def)
  then have "\<not> idx mod word_of_nat (length ?H) > 2 ^ 63 - 1"
    by (simp add: word_less_nat_alt)
  then show ?thesis
    using check_healthy_some [OF assms(1,3)] counter_index(1) [OF H, of idx]
    by (simp add: RoundRobinRouter_Select_def Let_def)
qed

lemma nth_filter_mem: "i < length (filter P xs) \<Longrightarrow> filter P xs ! i \<in> set xs \<and> P (filter P xs ! i)"
  using nth_mem [of i "filter P xs"] by auto

interpretation rrp: provider_router RoundRobinRouter_Select "\<lambda>_. True"
proof unfold_locales
  fix env :: route_env and s :: "64 word" and ps :: "provider_info list"
  assume a: "route_env_ok env" "usable ps" "\<exists>p \<in> set ps. Healthy p"
  then have "unat s mod length (filter Healthy ps) < length (filter Healthy ps)"
    by (simp add: filter_empty_conv)
  from nth_filter_mem [OF this] a
  show "\<exists>r. fst (RoundRobinRouter_Select env s ps) = Inr r \<and> r \<in> set ps \<and> Healthy r"
    by (simp add: RoundRobinRouter_Select_eq usable_def)
qed (simp_all add: RoundRobinRouter_Select_def check_healthy_none)

section \<open>Shuffle meets the contract\<close>

definition shuffle_inv :: "shuffle_router \<Rightarrow> bool" where
  "shuffle_inv r \<longleftrightarrow> mset (sr_order r) = mset [0..<sr_lastLen r]"

lemma shuffle_inv_new: "shuffle_inv NewShuffleRouter"
  by (simp add: shuffle_inv_def NewShuffleRouter_def)

lemma shuffle_inv_facts:
  assumes "shuffle_inv r"
  shows "length (sr_order r) = sr_lastLen r" and "set (sr_order r) = {0..<sr_lastLen r}"
proof -
  show "length (sr_order r) = sr_lastLen r"
    using assms by (metis diff_zero length_upt shuffle_inv_def size_mset)
  show "set (sr_order r) = {0..<sr_lastLen r}"
    using assms by (metis atLeastLessThan_upt set_mset_mset shuffle_inv_def)
qed

lemma reshuffle_inv: "route_env_ok env \<Longrightarrow> shuffle_inv (reshuffle env n r)"
  by (simp add: shuffle_inv_def reshuffle_def route_env_ok_def)

text \<open>The state a deal starts from.\<close>

definition dealing :: "route_env \<Rightarrow> shuffle_router \<Rightarrow> nat \<Rightarrow> shuffle_router" where
  "dealing env r n = (if sr_order r = [] \<or> n \<noteq> sr_lastLen r \<or> length (sr_order r) \<le> sr_position r
     then reshuffle env n r else r)"

lemma dealing_facts:
  assumes "route_env_ok env" "shuffle_inv r" "0 < n"
  shows "shuffle_inv (dealing env r n)" "sr_lastLen (dealing env r n) = n"
    "sr_position (dealing env r n) < n"
proof -
  show inv: "shuffle_inv (dealing env r n)"
    using assms reshuffle_inv by (simp add: dealing_def)
  show len: "sr_lastLen (dealing env r n) = n"
    by (simp add: dealing_def reshuffle_def)
  show "sr_position (dealing env r n) < n"
    using assms(3) shuffle_inv_facts(1) [OF assms(2)]
    by (auto simp: dealing_def reshuffle_def)
qed

lemma ShuffleRouter_Select_eq:
  assumes "route_env_ok env" "shuffle_inv r" "\<exists>p \<in> set ps. Healthy p"
  defines "d \<equiv> dealing env r (length (filter Healthy ps))"
  shows "ShuffleRouter_Select env r ps =
    (Inr (filter Healthy ps ! (sr_order d ! sr_position d)), d\<lparr>sr_position := sr_position d + 1\<rparr>)"
    and "sr_order d ! sr_position d < length (filter Healthy ps)"
proof -
  let ?H = "filter Healthy ps"
  have pos: "0 < length ?H" using assms(3) by (simp add: filter_empty_conv)
  note d = dealing_facts [OF assms(1,2) pos, folded d_def]
  have len: "length (sr_order d) = length ?H" using shuffle_inv_facts(1) [OF d(1)] d(2) by simp
  show idx: "sr_order d ! sr_position d < length ?H"
    using shuffle_inv_facts(2) [OF d(1)] d(2,3) len nth_mem [of "sr_position d" "sr_order d"] by auto
  have "ShuffleRouter_Select env r ps =
     (if length (sr_order d) \<le> sr_position d then (Inl (GoPanic ''index out of range''), d)
      else if length ?H \<le> sr_order d ! sr_position d
        then (Inl (GoPanic ''index out of range''), d\<lparr>sr_position := sr_position d + 1\<rparr>)
      else (Inr (?H ! (sr_order d ! sr_position d)), d\<lparr>sr_position := sr_position d + 1\<rparr>))"
    unfolding d_def dealing_def
    by (simp only: ShuffleRouter_Select_def check_healthy_some [OF assms(1,3)] sum.case Let_def)
  then show "ShuffleRouter_Select env r ps =
      (Inr (?H ! (sr_order d ! sr_position d)), d\<lparr>sr_position := sr_position d + 1\<rparr>)"
    using idx d(3) len by simp
qed

lemma shuffle_inv_position [simp]: "shuffle_inv (r\<lparr>sr_position := n\<rparr>) \<longleftrightarrow> shuffle_inv r"
  by (simp add: shuffle_inv_def)

interpretation shp: provider_router ShuffleRouter_Select shuffle_inv
proof unfold_locales
  fix env :: route_env and s :: shuffle_router and ps :: "provider_info list"
  assume a: "route_env_ok env" "shuffle_inv s" "\<exists>p \<in> set ps. Healthy p"
  from nth_filter_mem [OF ShuffleRouter_Select_eq(2) [OF a]]
  show "\<exists>r. fst (ShuffleRouter_Select env s ps) = Inr r \<and> r \<in> set ps \<and> Healthy r"
    by (simp add: ShuffleRouter_Select_eq(1) [OF a])
next
  fix env :: route_env and s :: shuffle_router and ps :: "provider_info list"
  assume a: "route_env_ok env" "shuffle_inv s"
  show "shuffle_inv (snd (ShuffleRouter_Select env s ps))"
  proof (cases "\<exists>p \<in> set ps. Healthy p")
    case True
    then have "0 < length (filter Healthy ps)" by (simp add: filter_empty_conv)
    from dealing_facts(1) [OF a this] show ?thesis by (simp add: ShuffleRouter_Select_eq(1) [OF a True])
  next
    case False
    with a show ?thesis
      by (cases "ps = []") (simp_all add: ShuffleRouter_Select_def check_healthy_none)
  qed
qed (simp_all add: ShuffleRouter_Select_def check_healthy_none)

section \<open>Smooth weighted round robin meets the contract\<close>

definition wrr_inv :: "wrr_router \<Rightarrow> bool" where
  "wrr_inv r \<longleftrightarrow> length (wr_currentWeights r) = length (wr_lastProviderIDs r)"

lemma wrr_inv_new: "wrr_inv NewWeightedRoundRobinRouter"
  by (simp add: wrr_inv_def NewWeightedRoundRobinRouter_def)

lemma stringSliceEqual_eq [simp]: "stringSliceEqual xs ys \<longleftrightarrow> xs = ys"
  by (induction xs ys rule: stringSliceEqual.induct) auto

lemma getProviderIDs_length [simp]: "length (getProviderIDs ps) = length ps"
  by (simp add: getProviderIDs_def)

lemma getEffectiveWeight_pos [simp]: "0 < getEffectiveWeight p"
  by (simp add: getEffectiveWeight_def)

lemma max_index_spec:
  assumes "m < length pre" "w = pre ! m" "\<forall>x \<in> set pre. x \<le> w"
  shows "max_index m w (length pre) suf < length (pre @ suf) \<and>
    (\<forall>x \<in> set (pre @ suf). x \<le> (pre @ suf) ! max_index m w (length pre) suf)"
  using assms
proof (induction suf arbitrary: m w pre)
  case Nil
  then show ?case by simp
next
  case (Cons x suf)
  show ?case
  proof (cases "w < x")
    case True
    with Cons.prems Cons.IH [of "length pre" "pre @ [x]" x] show ?thesis by fastforce
  next
    case False
    with Cons.prems Cons.IH [of m "pre @ [x]" w] show ?thesis by (auto simp: nth_append)
  qed
qed

lemma max_index_greatest:
  assumes "cs \<noteq> []"
  shows "max_index 0 (hd cs) 1 (tl cs) < length cs"
    and "x \<in> set cs \<Longrightarrow> x \<le> cs ! max_index 0 (hd cs) 1 (tl cs)"
proof -
  from assms obtain c t where cs: "cs = c # t" by (cases cs) auto
  from max_index_spec [of 0 "[c]" c t]
  show "max_index 0 (hd cs) 1 (tl cs) < length cs"
    and "x \<in> set cs \<Longrightarrow> x \<le> cs ! max_index 0 (hd cs) 1 (tl cs)"
    by (auto simp: cs)
qed

lemma wrr_step_facts:
  assumes "length cs = length ws" "ws \<noteq> []"
  shows "fst (wrr_step cs ws W) < length ws" "length (snd (wrr_step cs ws W)) = length ws"
proof -
  have ne: "map2 (\<lambda>c w. wrap64 (c + w)) cs ws \<noteq> []" using assms by (cases cs; cases ws) auto
  show "fst (wrr_step cs ws W) < length ws" "length (snd (wrr_step cs ws W)) = length ws"
    using max_index_greatest(1) [OF ne] assms(1) by (simp_all add: wrr_step_def Let_def)
qed

text \<open>The weights a selection starts from.\<close>

definition wrr_view :: "wrr_router \<Rightarrow> provider_info list \<Rightarrow> int list" where
  "wrr_view r H = (if wr_lastProviderIDs r = getProviderIDs H then wr_currentWeights r
     else replicate (length H) 0)"

lemma wrr_view_length: "wrr_inv r \<Longrightarrow> length (wrr_view r H) = length H"
  by (auto simp: wrr_view_def wrr_inv_def)

lemma WeightedRoundRobinRouter_Select_eq:
  fixes r :: wrr_router
  assumes "route_env_ok env" "\<exists>p \<in> set ps. Healthy p"
  defines "H \<equiv> filter Healthy ps"
  defines "step \<equiv> wrr_step (wrr_view r H) (map getEffectiveWeight H) (wrap_sum (map getEffectiveWeight H))"
  shows "WeightedRoundRobinRouter_Select env r ps =
    (Inr (H ! fst step), r\<lparr>wr_currentWeights := snd step, wr_lastProviderIDs := getProviderIDs H\<rparr>)"
  using check_healthy_some [OF assms(1,2)] assms(1)
  by (simp add: WeightedRoundRobinRouter_Select_def Let_def step_def H_def wrr_view_def split: prod.split)

interpretation wrrp: provider_router WeightedRoundRobinRouter_Select wrr_inv
proof unfold_locales
  fix env :: route_env and s :: wrr_router and ps :: "provider_info list"
  assume a: "route_env_ok env" "wrr_inv s" "\<exists>p \<in> set ps. Healthy p"
  let ?H = "filter Healthy ps"
  have "?H \<noteq> []" using a(3) by (simp add: filter_empty_conv)
  then have "fst (wrr_step (wrr_view s ?H) (map getEffectiveWeight ?H)
      (wrap_sum (map getEffectiveWeight ?H))) < length ?H"
    using wrr_step_facts(1) [of "wrr_view s ?H" "map getEffectiveWeight ?H"] wrr_view_length [OF a(2)]
    by simp
  from nth_filter_mem [OF this]
  show "\<exists>r. fst (WeightedRoundRobinRouter_Select env s ps) = Inr r \<and> r \<in> set ps \<and> Healthy r"
    by (simp add: WeightedRoundRobinRouter_Select_eq [OF a(1,3)])
next
  fix env :: route_env and s :: wrr_router and ps :: "provider_info list"
  assume a: "route_env_ok env" "wrr_inv s"
  show "wrr_inv (snd (WeightedRoundRobinRouter_Select env s ps))"
  proof (cases "\<exists>p \<in> set ps. Healthy p")
    case True
    let ?H = "filter Healthy ps"
    have "?H \<noteq> []" using True by (simp add: filter_empty_conv)
    then show ?thesis
      using wrr_step_facts(2) [of "wrr_view s ?H" "map getEffectiveWeight ?H"] wrr_view_length [OF a(2)]
      by (simp add: WeightedRoundRobinRouter_Select_eq [OF a(1) True] wrr_inv_def)
  next
    case False
    with a show ?thesis
      by (cases "ps = []") (simp_all add: WeightedRoundRobinRouter_Select_def check_healthy_none)
  qed
qed (simp_all add: WeightedRoundRobinRouter_Select_def check_healthy_none)

section \<open>Least loaded meets the contract\<close>

text \<open>The load a provider is ranked by.\<close>

definition name_load :: "ll_router \<Rightarrow> string \<Rightarrow> int" where
  "name_load r n = (case r n of Some c \<Rightarrow> c | None \<Rightarrow> 0)"

definition load_of :: "ll_router \<Rightarrow> provider_info \<Rightarrow> int" where
  "load_of r p = (case pi_Provider p of Some prov \<Rightarrow> name_load r (prov_Name prov) | None \<Rightarrow> 0)"

lemma getCounter_load: "fst (getCounter n r) = name_load r n"
  "name_load (snd (getCounter n r)) = name_load r"
  by (auto simp: getCounter_def name_load_def split: option.split)

lemma counter_Add_load:
  "name_load (counter_Add n d r) m = (if m = n then wrap64 (name_load r n + d) else name_load r m)"
  by (auto simp: counter_Add_def getCounter_def name_load_def split: option.split)

lemma ll_scan_facts:
  assumes "\<forall>p \<in> set ps. pi_Provider p \<noteq> None" "ps \<noteq> [] \<and> m = - 1 \<or> cands \<noteq> []"
  shows "\<exists>cs. fst (ll_scan m cands r ps) = Inr cs \<and> cs \<noteq> [] \<and> set cs \<subseteq> set cands \<union> set ps"
  using assms
proof (induction ps arbitrary: m cands r)
  case Nil
  then show ?case by simp
next
  case (Cons p ps)
  obtain prov where prov: "pi_Provider p = Some prov" using Cons.prems by auto
  obtain c r' where c: "getCounter (prov_Name prov) r = (c, r')" by fastforce
  have IH: "cands' \<noteq> [] \<Longrightarrow> set cands' \<subseteq> insert p (set cands) \<Longrightarrow>
      \<exists>cs. fst (ll_scan m' cands' r' ps) = Inr cs \<and> cs \<noteq> [] \<and> set cs \<subseteq> insert p (set cands) \<union> set ps"
    for m' cands'
    using Cons.IH [of m' cands' r'] Cons.prems(1) by fastforce
  have "\<not> (m = - 1 \<or> c < m) \<Longrightarrow> cands \<noteq> []" using Cons.prems(2) by auto
  then show ?case
    using IH [of "[p]" c] IH [of "cands @ [p]" m] IH [of cands m]
    by (auto simp: prov c)
qed

lemma LeastLoadedRouter_Select_cases:
  assumes "route_env_ok env" "usable ps" "\<exists>p \<in> set ps. Healthy p"
  obtains cands r' p where "ll_scan (- 1) [] r (filter Healthy ps) = (Inr cands, r')"
    "cands \<noteq> []" "set cands \<subseteq> set (filter Healthy ps)"
    "LeastLoadedRouter_Select env r ps = (Inr p, r')" "p \<in> set cands"
    "pi_Priority p = pi_Priority (hd (sortByPriority cands))"
proof -
  let ?H = "filter Healthy ps"
  have H: "?H \<noteq> []" "\<forall>p \<in> set ?H. pi_Provider p \<noteq> None"
    using assms(2,3) by (auto simp: filter_empty_conv usable_def)
  obtain cands r' where sc: "ll_scan (- 1) [] r ?H = (Inr cands, r')" "cands \<noteq> []" "set cands \<subseteq> set ?H"
    using ll_scan_facts [of ?H "- 1" "[]" r] H by (metis (no_types) Un_empty_left fst_conv prod.collapse set_empty)
  define S where "S = sortByPriority cands"
  define T where "T = takeWhile (\<lambda>p. pi_Priority p = pi_Priority (hd S)) S"
  have T: "T \<noteq> []" using sc(2) by (cases S) (auto simp: T_def S_def takeWhile_eq_Nil_iff)
  have sub: "set T \<subseteq> set cands" using set_takeWhileD by (fastforce simp: T_def S_def)
  have prio: "\<forall>p \<in> set T. pi_Priority p = pi_Priority (hd S)" by (auto simp: T_def dest: set_takeWhileD)
  define i where "i = nat (rt_randIntn env 0 (int (length T)))"
  have i: "i < length T"
    using rt_randIntn_bounds [OF assms(1), of "int (length T)" 0] T by (auto simp: i_def)
  define p where "p = (if length T = 1 then hd T else T ! i)"
  have "p \<in> set T" using T i by (simp add: p_def)
  moreover have "LeastLoadedRouter_Select env r ps = (Inr p, r')"
    using check_healthy_some [OF assms(1,3)] sc(1)
    by (simp add: LeastLoadedRouter_Select_def Let_def p_def i_def T_def S_def)
  ultimately show ?thesis
    using that [OF sc] sub prio by (auto simp: S_def)
qed

interpretation llp: provider_router LeastLoadedRouter_Select "\<lambda>_. True"
proof unfold_locales
  fix env :: route_env and s :: ll_router and ps :: "provider_info list"
  assume a: "route_env_ok env" "usable ps" "\<exists>p \<in> set ps. Healthy p"
  show "\<exists>r. fst (LeastLoadedRouter_Select env s ps) = Inr r \<and> r \<in> set ps \<and> Healthy r"
    by (rule LeastLoadedRouter_Select_cases [OF a, of s]) fastforce
qed (simp_all add: LeastLoadedRouter_Select_def check_healthy_none)

end
