(* ===== verification/Provider_Router_Facts.thy ===== *)
theory Provider_Router_Facts
  imports Provider_Router
begin

text \<open>
  What the stateful provider strategies promise over a run of consecutive selections from the same
  provider list: one full round of round robin and one deck of the shuffle serve every healthy
  provider once, one period of smooth weighted round robin serves each exactly as often as its
  weight, and least loaded serves one with the fewest requests in flight.
\<close>

section \<open>Runs of selections\<close>

fun serve :: "(route_env \<Rightarrow> 's \<Rightarrow> provider_info list \<Rightarrow> (go_error + provider_info) \<times> 's) \<Rightarrow>
    (nat \<Rightarrow> route_env) \<Rightarrow> 's \<Rightarrow> provider_info list \<Rightarrow> nat \<Rightarrow> (go_error + provider_info) list \<times> 's" where
  "serve sel envs s ps 0 = ([], s)"
| "serve sel envs s ps (Suc n) =
     (let (rs, s') = serve sel envs s ps n; (r, s'') = sel (envs n) s' ps in (rs @ [r], s''))"

declare serve.simps(2) [simp del]

lemma serve_Suc:
  "serve sel envs s ps (Suc n) =
     (fst (serve sel envs s ps n) @ [fst (sel (envs n) (snd (serve sel envs s ps n)) ps)],
      snd (sel (envs n) (snd (serve sel envs s ps n)) ps))"
  by (simp add: serve.simps(2) split: prod.split)

context provider_router
begin

lemma serve_inv:
  "(\<And>i. route_env_ok (envs i)) \<Longrightarrow> inv s \<Longrightarrow> usable ps \<Longrightarrow> inv (snd (serve sel envs s ps n))"
proof (induction n)
  case 0
  then show ?case by simp
next
  case (Suc n)
  then show ?case
    using sel_inv [of "envs n" "snd (serve sel envs s ps n)" ps] by (simp add: serve_Suc)
qed

lemma serve_healthy:
  assumes "\<And>i. route_env_ok (envs i)" "inv s" "usable ps" "\<exists>p \<in> set ps. Healthy p"
  shows "\<forall>x \<in> set (fst (serve sel envs s ps n)). \<exists>p. x = Inr p \<and> p \<in> set ps \<and> Healthy p"
proof (induction n)
  case 0
  then show ?case by simp
next
  case (Suc n)
  have "inv (snd (serve sel envs s ps n))" using assms by (intro serve_inv) auto
  then obtain p where "fst (sel (envs n) (snd (serve sel envs s ps n)) ps) = Inr p" "p \<in> set ps" "Healthy p"
    using sel_healthy [OF assms(1) _ assms(3,4)] by blast
  then show ?case using Suc.IH by (auto simp: serve_Suc)
qed

end

section \<open>Round robin\<close>

lemma rr_serve:
  assumes "\<And>i. route_env_ok (envs i)" "slice_ok ps" "\<exists>p \<in> set ps. Healthy p" "unat idx + n < 2 ^ 64"
  shows "serve RoundRobinRouter_Select envs idx ps n =
    (map (\<lambda>i. Inr (filter Healthy ps ! ((unat idx + i) mod length (filter Healthy ps)))) [0..<n],
     idx + word_of_nat n)"
  using assms(4)
proof (induction n)
  case 0
  then show ?case by simp
next
  case (Suc n)
  have "unat (idx + word_of_nat n) = unat idx + n"
    using Suc.prems by (simp add: unat_word_ariths unat_of_nat take_bit_eq_mod)
  with Suc show ?case
    by (simp add: serve_Suc RoundRobinRouter_Select_eq [OF assms(1-3)] add.assoc)
qed

text \<open>
  Provider round robin is fair: as many consecutive selections as there are healthy providers
  serve each healthy provider exactly once, from any value of the shared counter that does not wrap on
  the way, whatever unhealthy providers are interspersed in the list.
\<close>

lemma RoundRobinRouter_fair:
  assumes "\<And>i. route_env_ok (envs i)" "slice_ok ps" "\<exists>p \<in> set ps. Healthy p"
    and "unat idx + length (filter Healthy ps) < 2 ^ 64"
  shows "mset (fst (serve RoundRobinRouter_Select envs idx ps (length (filter Healthy ps)))) =
    mset (map Inr (filter Healthy ps))"
proof -
  let ?H = "filter Healthy ps"
  have "mset (fst (serve RoundRobinRouter_Select envs idx ps (length ?H))) =
      image_mset Inr (mset (map (\<lambda>i. ?H ! ((unat idx + i) mod length ?H)) [0..<length ?H]))"
    using rr_serve [OF assms(1-4)] by (simp add: multiset.map_comp comp_def)
  also have "\<dots> = mset (map Inr ?H)"
    by (subst rotate_nth_mset) simp
  finally show ?thesis .
qed

definition demo_prov :: "string \<Rightarrow> int \<Rightarrow> bool \<Rightarrow> provider_info" where
  "demo_prov n w h = \<lparr>pi_Provider = Some \<lparr>prov_Name = n, prov_Owner = ''o''\<rparr>, pi_IsHealthy = Some h,
     pi_Weight = w, pi_Priority = 1\<rparr>"

definition demo_renv :: route_env where
  "demo_renv = \<lparr>re_now = 62135596800 * nsec_per_sec + 10 ^ 18, re_rand = (\<lambda>_ _. Some 0), re_lo = std_lo,
     re_shuffle = rev\<rparr>"

lemma demo_renv_ok [simp]: "route_env_ok demo_renv"
  by (simp add: route_env_ok_def demo_renv_def rand_ok_def clock_ok_def unix_nano_def wrap64_def)

definition demo_provs :: "provider_info list" where
  "demo_provs = [demo_prov ''a'' 2 True, demo_prov ''b'' 1 False, demo_prov ''c'' 1 True]"

lemma demo_provs_facts [simp]:
  "slice_ok demo_provs" "\<exists>p \<in> set demo_provs. Healthy p" "usable demo_provs"
  "filter Healthy demo_provs = [demo_prov ''a'' 2 True, demo_prov ''c'' 1 True]"
  by (simp_all add: demo_provs_def slice_ok_def usable_def Healthy_def demo_prov_def)

lemma RoundRobinRouter_fair_witness:
  "mset (fst (serve RoundRobinRouter_Select (\<lambda>_. demo_renv) 5 demo_provs (Suc (Suc 0)))) =
   mset [Inr (demo_prov ''a'' 2 True), Inr (demo_prov ''c'' 1 True)]"
  using RoundRobinRouter_fair [of "\<lambda>_. demo_renv" demo_provs 5]
  by simp

section \<open>Shuffle\<close>

text \<open>The next selection among \<open>n\<close> healthy providers starts a new deck.\<close>

definition new_deck :: "shuffle_router \<Rightarrow> nat \<Rightarrow> bool" where
  "new_deck r n \<longleftrightarrow> sr_order r = [] \<or> n \<noteq> sr_lastLen r \<or> length (sr_order r) \<le> sr_position r"

lemma shuffle_serve:
  fixes ps :: "provider_info list" and envs :: "nat \<Rightarrow> route_env"
  defines "H \<equiv> filter Healthy ps" and "ord \<equiv> re_shuffle (envs 0) [0..<length (filter Healthy ps)]"
  assumes "\<And>i. route_env_ok (envs i)" "shuffle_inv r" "\<exists>p \<in> set ps. Healthy p" "new_deck r (length H)"
  shows "Suc n \<le> length H \<Longrightarrow> serve ShuffleRouter_Select envs r ps (Suc n) =
    (map (\<lambda>i. Inr (H ! (ord ! i))) [0..<Suc n], \<lparr>sr_order = ord, sr_position = Suc n, sr_lastLen = length H\<rparr>)"
proof (induction n)
  case 0
  have "dealing (envs 0) r (length H) = \<lparr>sr_order = ord, sr_position = 0, sr_lastLen = length H\<rparr>"
    using assms(6) by (cases r) (simp add: dealing_def new_deck_def reshuffle_def ord_def H_def)
  then show ?case
    using ShuffleRouter_Select_eq(1) [OF assms(3-5), of 0] by (simp add: H_def serve_Suc)
next
  case (Suc n)
  let ?r = "\<lparr>sr_order = ord, sr_position = Suc n, sr_lastLen = length H\<rparr>"
  have "mset ord = mset [0..<length H]"
    using assms(3) by (simp add: ord_def route_env_ok_def H_def)
  then have inv: "shuffle_inv ?r" by (simp add: shuffle_inv_def)
  then have "length ord = length H" using shuffle_inv_facts(1) by fastforce
  then have "dealing (envs (Suc n)) ?r (length H) = ?r"
    using Suc.prems by (auto simp: dealing_def)
  moreover have "serve ShuffleRouter_Select envs r ps (Suc n) =
      (map (\<lambda>i. Inr (H ! (ord ! i))) [0..<Suc n], ?r)"
    using Suc.IH Suc.prems by simp
  ultimately show ?case
    using ShuffleRouter_Select_eq(1) [OF assms(3) inv assms(5), of "Suc n"]
    by (simp add: H_def serve_Suc [of _ _ _ _ "Suc n"])
qed

lemma map_nth_mset:
  assumes "mset is = mset [0..<length xs]"
  shows "mset (map (\<lambda>i. xs ! i) is) = mset xs"
  by (metis assms map_nth mset_map)

text \<open>
  The shuffle deals like a deck of cards: from any state in which a new deck starts, the next
  selections, one per healthy provider, serve each healthy provider exactly once whatever
  permutation the shuffle produced, no selection panics, and a new deck starts after them.
\<close>

lemma ShuffleRouter_deck:
  assumes "\<And>i. route_env_ok (envs i)" "shuffle_inv r" "\<exists>p \<in> set ps. Healthy p"
    and "new_deck r (length (filter Healthy ps))"
  shows "mset (fst (serve ShuffleRouter_Select envs r ps (length (filter Healthy ps)))) =
      mset (map Inr (filter Healthy ps)) \<and>
    new_deck (snd (serve ShuffleRouter_Select envs r ps (length (filter Healthy ps)))) (length (filter Healthy ps))"
proof -
  let ?H = "filter Healthy ps"
  let ?ord = "re_shuffle (envs 0) [0..<length ?H]"
  obtain n where n: "length ?H = Suc n"
    using assms(3) by (cases "length ?H") (auto simp: filter_empty_conv)
  have ord: "mset ?ord = mset [0..<length ?H]"
    using assms(1) by (simp add: route_env_ok_def)
  then have len: "length ?ord = length ?H" by (metis diff_zero length_upt size_mset)
  have "serve ShuffleRouter_Select envs r ps (length ?H) =
      (map (\<lambda>i. Inr (?H ! (?ord ! i))) [0..<length ?H],
       \<lparr>sr_order = ?ord, sr_position = length ?H, sr_lastLen = length ?H\<rparr>)"
    using shuffle_serve [OF assms(1-4), of n] n by simp
  moreover have "map (\<lambda>i. (Inr :: _ \<Rightarrow> go_error + provider_info) (?H ! (?ord ! i))) [0..<length ?H] =
      map Inr (map (\<lambda>i. ?H ! i) ?ord)"
    by (rule nth_equalityI) (simp_all add: len)
  moreover have "mset (map (Inr :: _ \<Rightarrow> go_error + provider_info) (map (\<lambda>i. ?H ! i) ?ord)) = mset (map Inr ?H)"
    using map_nth_mset [OF ord] by (simp only: mset_map)
  ultimately show ?thesis
    by (simp only: fst_conv snd_conv new_deck_def len shuffle_router.simps order_refl simp_thms)
qed

lemma ShuffleRouter_deck_witness:
  "mset (fst (serve ShuffleRouter_Select (\<lambda>_. demo_renv) NewShuffleRouter demo_provs (Suc (Suc 0)))) =
   mset [Inr (demo_prov ''a'' 2 True), Inr (demo_prov ''c'' 1 True)]"
  using ShuffleRouter_deck [of "\<lambda>_. demo_renv" NewShuffleRouter demo_provs]
  by (simp add: shuffle_inv_new) (simp add: NewShuffleRouter_def new_deck_def)

section \<open>Smooth weighted round robin\<close>

lemma nonneg_member_le_sum:
  "\<forall>x \<in> set xs. (0 :: int) \<le> x \<Longrightarrow> y \<in> set xs \<Longrightarrow> y \<le> sum_list xs"
proof (induction xs)
  case Nil
  then show ?case by simp
next
  case (Cons x xs)
  then have "0 \<le> sum_list xs" by (intro sum_list_nonneg) auto
  with Cons show ?case by auto
qed

lemma sum_list_shift: "sum_list (map (\<lambda>x. x + W) xs) = sum_list xs + int (length xs) * W"
  by (induction xs) (simp_all add: algebra_simps)

lemma member_bound:
  assumes "\<forall>x \<in> set xs. - W \<le> x" "y \<in> set xs" "sum_list xs = 0"
  shows "y \<le> (int (length xs) - 1) * W"
proof -
  have "y + W \<le> sum_list (map (\<lambda>x. x + W) xs)"
    using assms(1,2) by (intro nonneg_member_le_sum) auto
  then show ?thesis using assms(3) by (simp add: sum_list_shift algebra_simps)
qed

lemma sum_list_map2_add:
  "length xs = length ys \<Longrightarrow> sum_list (map2 (+) xs ys) = sum_list xs + (sum_list ys :: int)"
  by (induction xs ys rule: list_induct2) simp_all

lemma sum_list_replace:
  "i < length xs \<Longrightarrow> sum_list (xs[i := v]) = sum_list xs - xs ! i + (v :: int)"
proof (induction xs arbitrary: i)
  case Nil
  then show ?case by simp
next
  case (Cons x xs)
  then show ?case by (cases i) auto
qed

lemma sum_list_pos_witness: "0 < sum_list xs \<Longrightarrow> \<exists>x \<in> set xs. (0 :: int) < x"
  by (meson linorder_not_le sum_list_nonpos)

text \<open>
  The state of the algorithm after the selections \<open>P\<close>: the current weight of a provider is what it
  has earned less what it has been charged.
\<close>

definition wrr_balanced :: "int list \<Rightarrow> nat list \<Rightarrow> int list \<Rightarrow> bool" where
  "wrr_balanced ws P cs \<longleftrightarrow> length cs = length ws \<and> sum_list cs = 0 \<and> set P \<subseteq> {..<length ws} \<and>
     (\<forall>i < length ws. cs ! i = int (length P) * ws ! i - sum_list ws * int (count_list P i) \<and>
        - sum_list ws < cs ! i)"

lemma wrr_balanced_step:
  assumes bal: "wrr_balanced ws P cs" and ne: "ws \<noteq> []" and pos: "\<forall>w \<in> set ws. 0 < w"
    and small: "(int (length ws) + 1) * sum_list ws < 2 ^ 63"
  shows "wrr_balanced ws (P @ [fst (wrr_step cs ws (sum_list ws))]) (snd (wrr_step cs ws (sum_list ws)))"
proof -
  let ?W = "sum_list ws" and ?ds = "map2 (+) cs ws"
  define m where "m = max_index 0 (hd ?ds) 1 (tl ?ds)"
  have len: "length cs = length ws" and sum0: "sum_list cs = 0"
    and cs: "\<forall>i < length ws. cs ! i = int (length P) * ws ! i - ?W * int (count_list P i) \<and> - ?W < cs ! i"
    using bal by (auto simp: wrr_balanced_def)
  have W: "0 < ?W" using sum_list_pos [OF ne pos] .
  have cs_ge: "\<forall>x \<in> set cs. - ?W \<le> x" using cs len by (metis in_set_conv_nth less_imp_le)
  have ws_le: "w \<le> ?W" if "w \<in> set ws" for w
    using nonneg_member_le_sum [OF _ that] pos by (simp add: less_imp_le)
  have cs_le: "x \<le> (int (length ws) - 1) * ?W" if "x \<in> set cs" for x
    using member_bound [OF cs_ge that sum0] len by simp
  have nW: "(int (length ws) + 1) * ?W = (int (length ws) - 1) * ?W + 2 * ?W"
    by (simp add: algebra_simps)
  have "in_int64 (x + y)" if "x \<in> set cs" "y \<in> set ws" for x y
    using cs_ge cs_le [OF that(1)] ws_le [OF that(2)] that pos small W nW
    unfolding in_int64_def by fastforce
  then have ds: "map2 (\<lambda>c w. wrap64 (c + w)) cs ws = ?ds"
    by (intro map_cong refl) (clarsimp, metis set_zip_leftD set_zip_rightD wrap64_id)
  have ds_ne: "?ds \<noteq> []" and ds_len: "length ?ds = length ws" using ne len by (cases cs; cases ws; auto)+
  have m: "m < length ws" using max_index_greatest(1) [OF ds_ne] ds_len by (simp add: m_def)
  have "0 < sum_list ?ds" using W sum0 len by (simp add: sum_list_map2_add)
  then obtain x where "x \<in> set ?ds" "0 < x" using sum_list_pos_witness by blast
  then have top: "0 < ?ds ! m" using max_index_greatest(2) [OF ds_ne] by (fastforce simp: m_def)
  have "?ds ! m \<le> (int (length ws) - 1) * ?W + ?W"
    using m len cs_le [of "cs ! m"] ws_le [of "ws ! m"] by (auto intro: add_mono)
  then have "in_int64 (?ds ! m - ?W)"
    using top small nW W unfolding in_int64_def by linarith
  then have step: "wrr_step cs ws ?W = (m, ?ds[m := ?ds ! m - ?W])"
    by (simp add: wrr_step_def ds m_def Let_def)
  have "- ?W < ?ds[m := ?ds ! m - ?W] ! i \<and>
      ?ds[m := ?ds ! m - ?W] ! i = int (Suc (length P)) * ws ! i - ?W * int (count_list (P @ [m]) i)"
    if i: "i < length ws" for i
  proof (cases "i = m")
    case True
    have "?ds ! m = cs ! m + ws ! m" using m len by simp
    moreover have "cs ! m = int (length P) * ws ! m - ?W * int (count_list P m)" using m cs by blast
    ultimately show ?thesis using True top m len by (simp add: algebra_simps)
  next
    case False
    have ci: "- ?W < cs ! i" "0 < ws ! i" "cs ! i = int (length P) * ws ! i - ?W * int (count_list P i)"
      using i cs pos nth_mem [OF i] by blast+
    moreover have "?ds[m := ?ds ! m - ?W] ! i = cs ! i + ws ! i" using False i len by simp
    ultimately show ?thesis using False by (simp add: algebra_simps)
  qed
  moreover have "sum_list (?ds[m := ?ds ! m - ?W]) = 0"
    using sum_list_replace [of m ?ds "?ds ! m - ?W"] sum_list_map2_add [OF len] m ds_len sum0 by simp
  moreover have "set (P @ [m]) \<subseteq> {..<length ws}" using bal m by (simp add: wrr_balanced_def)
  ultimately have "wrr_balanced ws (P @ [m]) (?ds[m := ?ds ! m - ?W])"
    unfolding wrr_balanced_def using ds_len by (simp only: length_list_update length_append_singleton) blast
  then show ?thesis by (simp only: step fst_conv snd_conv)
qed

text \<open>After one period the balance pins every count.\<close>

lemma wrr_balanced_period:
  assumes bal: "wrr_balanced ws P cs" and ne: "ws \<noteq> []" and pos: "\<forall>w \<in> set ws. 0 < w"
    and len: "int (length P) = sum_list ws"
  shows "\<forall>i < length ws. int (count_list P i) = ws ! i"
proof -
  let ?W = "sum_list ws" and ?c = "\<lambda>i. int (count_list P i)"
  have W: "0 < ?W" using sum_list_pos [OF ne pos] .
  have le: "?c i \<le> ws ! i" if "i < length ws" for i
  proof -
    have "- ?W < ?W * ws ! i - ?W * ?c i"
      using bal that len by (auto simp: wrr_balanced_def)
    then have "?W * ?c i < ?W * (ws ! i + 1)" by (simp add: algebra_simps)
    then show ?thesis using W by (simp add: mult_less_cancel_left)
  qed
  have "set P \<subseteq> {..<length ws}" using bal by (simp add: wrr_balanced_def)
  then have "sum (count_list P) {..<length ws} = length P"
    by (metis (no_types) finite_lessThan sum_count_set)
  then have "(\<Sum>i < length ws. ?c i) = int (length P)"
    by (metis of_nat_sum)
  also have "\<dots> = (\<Sum>i < length ws. ws ! i)"
    using len by (simp add: sum_list_sum_nth lessThan_atLeast0)
  finally have eq: "(\<Sum>i < length ws. ?c i) = (\<Sum>i < length ws. ws ! i)" .
  have "(\<Sum>i < length ws. ws ! i - ?c i) = 0" by (simp add: sum_subtractf eq)
  then have "\<forall>i \<in> {..<length ws}. ws ! i - ?c i = 0"
    using le by (subst (asm) sum_nonneg_eq_0_iff) auto
  then show ?thesis by simp
qed

lemma wrr_serve:
  fixes ps :: "provider_info list" and envs :: "nat \<Rightarrow> route_env"
  defines "H \<equiv> filter Healthy ps"
  defines "ws \<equiv> map getEffectiveWeight H"
  assumes env: "\<And>i. route_env_ok (envs i)" and ex: "\<exists>p \<in> set ps. Healthy p"
    and small: "(int (length H) + 1) * sum_list ws < 2 ^ 63"
    and fresh: "wrr_view r H = replicate (length H) 0"
  shows "\<exists>P. length P = n \<and>
    fst (serve WeightedRoundRobinRouter_Select envs r ps n) = map (\<lambda>i. Inr (H ! i)) P \<and>
    wrr_balanced ws P (wrr_view (snd (serve WeightedRoundRobinRouter_Select envs r ps n)) H)"
proof (induction n)
  case 0
  then show ?case
    using sum_list_pos [of ws] ex fresh
    by (auto simp: wrr_balanced_def ws_def H_def filter_empty_conv sum_list_replicate)
next
  case (Suc n)
  let ?s = "snd (serve WeightedRoundRobinRouter_Select envs r ps n)"
  obtain P where P: "length P = n"
    "fst (serve WeightedRoundRobinRouter_Select envs r ps n) = map (\<lambda>i. Inr (H ! i)) P"
    "wrr_balanced ws P (wrr_view ?s H)" using Suc.IH by blast
  have ne: "ws \<noteq> []" using ex by (simp add: ws_def H_def filter_empty_conv)
  have pos: "\<forall>w \<in> set ws. 0 < w" by (auto simp: ws_def)
  have W: "0 < sum_list ws" using sum_list_pos [OF ne pos] .
  have "1 * sum_list ws \<le> (int (length H) + 1) * sum_list ws"
    using W by (intro mult_right_mono) auto
  then have ws: "wrap_sum ws = sum_list ws"
    using pos small by (intro wrap_sum_small) (auto simp: less_imp_le)
  let ?step = "wrr_step (wrr_view ?s H) ws (sum_list ws)"
  have sel: "WeightedRoundRobinRouter_Select (envs n) ?s ps =
      (Inr (H ! fst ?step), ?s\<lparr>wr_currentWeights := snd ?step, wr_lastProviderIDs := getProviderIDs H\<rparr>)"
    using WeightedRoundRobinRouter_Select_eq [OF env ex, of n ?s] ws by (simp add: H_def ws_def)
  have "wrr_balanced ws (P @ [fst ?step]) (snd ?step)"
    using wrr_balanced_step [OF P(3) ne pos] small by (simp add: ws_def)
  then show ?case
    using P(1,2) by (intro exI [of _ "P @ [fst ?step]"]) (simp add: serve_Suc sel wrr_view_def)
qed

text \<open>
  C15: Smooth weighted round robin is exact: from a fresh router (or one whose provider set changed), over
  one period, that is as many consecutive selections as the total effective weight of the healthy
  providers, no selection fails and each healthy provider is served exactly as many times as its
  effective weight (a weight of zero or less counts as one). The bound on the weights rules out
  overflow of the running weights.
\<close>

theorem WeightedRoundRobin_exact:
  fixes ps :: "provider_info list" and envs :: "nat \<Rightarrow> route_env"
  defines "H \<equiv> filter Healthy ps"
  defines "W \<equiv> sum_list (map getEffectiveWeight (filter Healthy ps))"
  assumes "\<And>i. route_env_ok (envs i)" "\<exists>p \<in> set ps. Healthy p"
    and "(int (length H) + 1) * W < 2 ^ 63" and "wr_lastProviderIDs r \<noteq> getProviderIDs H"
  shows "\<exists>P. fst (serve WeightedRoundRobinRouter_Select envs r ps (nat W)) = map (\<lambda>i. Inr (H ! i)) P \<and>
    length P = nat W \<and> (\<forall>i < length H. int (count_list P i) = getEffectiveWeight (H ! i))"
proof -
  have ne: "map getEffectiveWeight H \<noteq> []" using assms(4) by (simp add: H_def filter_empty_conv)
  then have "0 < W" unfolding W_def H_def by (intro sum_list_pos) auto
  have "wrr_view r H = replicate (length H) 0" using assms(6) by (simp add: wrr_view_def)
  then obtain P where P: "length P = nat W"
    "fst (serve WeightedRoundRobinRouter_Select envs r ps (nat W)) = map (\<lambda>i. Inr (H ! i)) P"
    "wrr_balanced (map getEffectiveWeight H) P
       (wrr_view (snd (serve WeightedRoundRobinRouter_Select envs r ps (nat W))) H)"
    using wrr_serve [where envs = envs and ps = ps and r = r and n = "nat W", OF assms(3,4)] assms(5)
    unfolding H_def W_def by blast
  have "\<forall>i < length (map getEffectiveWeight H). int (count_list P i) = map getEffectiveWeight H ! i"
    by (rule wrr_balanced_period [OF P(3) ne]) (use P(1) \<open>0 < W\<close> in \<open>auto simp: W_def H_def\<close>)
  with P(1,2) show ?thesis by auto
qed

lemma WeightedRoundRobin_exact_witness:
  "\<exists>P. fst (serve WeightedRoundRobinRouter_Select (\<lambda>_. demo_renv) NewWeightedRoundRobinRouter demo_provs 3) =
     map (\<lambda>i. Inr ([demo_prov ''a'' 2 True, demo_prov ''c'' 1 True] ! i)) P \<and> length P = 3 \<and>
     count_list P 0 = 2"
proof -
  have W: "sum_list (map getEffectiveWeight (filter Healthy demo_provs)) = 3"
    by (simp add: getEffectiveWeight_def) (simp add: demo_prov_def)
  from WeightedRoundRobin_exact [of "\<lambda>_. demo_renv" demo_provs NewWeightedRoundRobinRouter]
  obtain P where P: "fst (serve WeightedRoundRobinRouter_Select (\<lambda>_. demo_renv) NewWeightedRoundRobinRouter
      demo_provs 3) = map (\<lambda>i. Inr ([demo_prov ''a'' 2 True, demo_prov ''c'' 1 True] ! i)) P"
    "length P = 3" "int (count_list P 0) = getEffectiveWeight (demo_prov ''a'' 2 True)"
    unfolding W by (auto simp: NewWeightedRoundRobinRouter_def getProviderIDs_def)
  moreover have "getEffectiveWeight (demo_prov ''a'' 2 True) = 2"
    by (simp add: getEffectiveWeight_def demo_prov_def)
  ultimately show ?thesis by auto
qed

section \<open>Least loaded\<close>

lemma load_of_getCounter [simp]: "load_of (snd (getCounter n r)) = load_of r"
  by (simp add: load_of_def fun_eq_iff getCounter_load split: option.split)

lemma ll_scan_least:
  assumes "ll_scan m cands r ps = (Inr cs, r')" "cands \<noteq> []" "0 \<le> m" "\<forall>q \<in> set cands. load_of r q = m"
    and "\<forall>q \<in> set ps. 0 \<le> load_of r q"
  shows "\<exists>k. set cs = {q \<in> set cands \<union> set ps. load_of r q = k} \<and>
    (\<forall>q \<in> set cands \<union> set ps. k \<le> load_of r q)"
  using assms
proof (induction m cands r ps rule: ll_scan.induct)
  case (1 m cands r)
  then show ?case by (auto intro!: exI [of _ m])
next
  case (2 m cands r p ps)
  obtain prov where prov: "pi_Provider p = Some prov" using "2.prems"(1) by (cases "pi_Provider p") auto
  obtain c r1 where c: "getCounter (prov_Name prov) r = (c, r1)" by fastforce
  have load: "load_of r1 = load_of r" using load_of_getCounter [of "prov_Name prov" r] c by simp
  have cp: "load_of r p = c" using getCounter_load(1) [of "prov_Name prov" r] c prov by (simp add: load_of_def)
  have m1: "m \<noteq> - 1" using "2.prems"(3) by simp
  consider (lt) "c < m" | (eq) "c = m" | (gt) "m < c" by linarith
  then show ?case
  proof cases
    case lt
    then have "ll_scan c [p] r1 ps = (Inr cs, r')" using "2.prems"(1) by (simp add: prov c)
    from "2.IH"(1) [OF prov c [symmetric] refl _ this] lt "2.prems"(3-5) cp load
    obtain k where k: "set cs = {q \<in> insert p (set ps). load_of r q = k}"
      "\<forall>q \<in> insert p (set ps). k \<le> load_of r q" by auto
    with lt cp "2.prems"(4) have "\<forall>q \<in> set cands. k < load_of r q" by fastforce
    with k show ?thesis by (intro exI [of _ k]) (auto simp: less_imp_le)
  next
    case eq
    then have "ll_scan m (cands @ [p]) r1 ps = (Inr cs, r')" using "2.prems"(1) m1 by (simp add: prov c)
    from "2.IH"(2) [OF prov c [symmetric] refl _ _ this] eq m1 "2.prems"(3-5) cp load show ?thesis by auto
  next
    case gt
    then have "ll_scan m cands r1 ps = (Inr cs, r')" using "2.prems"(1) m1 by (simp add: prov c)
    from "2.IH"(3) [OF prov c [symmetric] refl _ _ this] gt m1 "2.prems"(2-5) cp load
    obtain k where k: "set cs = {q \<in> set cands \<union> set ps. load_of r q = k}"
      "\<forall>q \<in> set cands \<union> set ps. k \<le> load_of r q" by auto
    have "k \<le> m" using k(2) "2.prems"(2,4) by (cases cands) auto
    with k gt cp show ?thesis by (intro exI [of _ k]) auto
  qed
qed

text \<open>
  Least loaded picks a provider with the fewest requests in flight among the healthy ones, and among
  the least loaded ones one of the highest priority, provided no counter is negative (and priorities are
  below \<open>2 ^ 62\<close> in absolute value, so that their differences do not overflow).
\<close>

lemma LeastLoadedRouter_minimal:
  assumes env: "route_env_ok env" and ps: "usable ps" "\<exists>p \<in> set ps. Healthy p" "small_priorities ps"
    and loads: "\<forall>p \<in> set ps. 0 \<le> load_of r p"
  shows "\<exists>p r'. LeastLoadedRouter_Select env r ps = (Inr p, r') \<and> p \<in> set ps \<and> Healthy p \<and>
    (\<forall>q \<in> set ps. Healthy q \<longrightarrow> load_of r p \<le> load_of r q) \<and>
    (\<forall>q \<in> set ps. Healthy q \<longrightarrow> load_of r q = load_of r p \<longrightarrow> pi_Priority q \<le> pi_Priority p)"
proof (rule LeastLoadedRouter_Select_cases [OF env ps(1,2), of r])
  fix cands r' p
  let ?H = "filter Healthy ps"
  assume scan: "ll_scan (- 1) [] r ?H = (Inr cands, r')" and ne: "cands \<noteq> []" and sub: "set cands \<subseteq> set ?H"
    and sel: "LeastLoadedRouter_Select env r ps = (Inr p, r')" and p: "p \<in> set cands"
      "pi_Priority p = pi_Priority (hd (sortByPriority cands))"
  obtain q qs where H: "?H = q # qs" using sub ne by (cases ?H) auto
  obtain prov where prov: "pi_Provider q = Some prov"
    using scan by (cases "pi_Provider q") (auto simp: H)
  obtain c r1 where c: "getCounter (prov_Name prov) r = (c, r1)" by fastforce
  have load: "load_of r1 = load_of r" using load_of_getCounter [of "prov_Name prov" r] c by simp
  have cq: "load_of r q = c" using getCounter_load(1) [of "prov_Name prov" r] c prov by (simp add: load_of_def)
  have nn: "\<forall>x \<in> set ?H. 0 \<le> load_of r x" using loads by simp
  have "ll_scan c [q] r1 qs = (Inr cands, r')" using scan by (simp add: H prov c)
  from ll_scan_least [OF this] obtain k where
    k: "set cands = {x \<in> set ?H. load_of r x = k}" "\<forall>x \<in> set ?H. k \<le> load_of r x"
    using nn cq unfolding H load by auto
  have "small_priorities cands" using ps(3) sub by (auto simp: small_priorities_def)
  then have "\<forall>x \<in> set cands. pi_Priority x \<le> pi_Priority p" using sortByPriority_hd p(2) by simp
  with sel p(1) k sub show ?thesis by (intro exI [of _ p] exI [of _ r']) auto
qed

lemma LeastLoadedRouter_minimal_witness:
  "\<exists>p r'. LeastLoadedRouter_Select demo_renv [''a'' \<mapsto> 3, ''c'' \<mapsto> 1] demo_provs = (Inr p, r') \<and>
     load_of [''a'' \<mapsto> 3, ''c'' \<mapsto> 1] p \<le> 1"
proof -
  have "\<forall>p \<in> set demo_provs. 0 \<le> load_of [''a'' \<mapsto> 3, ''c'' \<mapsto> 1] p"
    by (simp add: demo_provs_def demo_prov_def load_of_def name_load_def)
  moreover have "small_priorities demo_provs"
    by (simp add: demo_provs_def demo_prov_def small_priorities_def)
  ultimately obtain p r' where "LeastLoadedRouter_Select demo_renv [''a'' \<mapsto> 3, ''c'' \<mapsto> 1] demo_provs = (Inr p, r')"
    "\<forall>q \<in> set demo_provs. Healthy q \<longrightarrow> load_of [''a'' \<mapsto> 3, ''c'' \<mapsto> 1] p \<le> load_of [''a'' \<mapsto> 3, ''c'' \<mapsto> 1] q"
    using LeastLoadedRouter_minimal [of demo_renv demo_provs "[''a'' \<mapsto> 3, ''c'' \<mapsto> 1]"] by auto
  then show ?thesis
    by (auto simp: demo_provs_def Healthy_def demo_prov_def load_of_def name_load_def)
qed

text \<open>
  The scan of least loaded uses the load \<open>-1\<close> as "no candidate yet", so a healthy provider whose
  counter is \<open>-1\<close> (a release without its acquire) is forgotten as soon as another provider
  follows: the strategy then returns the busier one.
\<close>

lemma LeastLoadedRouter_sentinel:
  assumes "route_env_ok env" and "Healthy p" "Healthy q"
    and "pi_Provider p = Some pp" "pi_Provider q = Some pq" "load_of r p = - 1" "load_of r q = k" "0 \<le> k"
  shows "fst (LeastLoadedRouter_Select env r [p, q]) = Inr q"
proof -
  obtain c r1 where c: "getCounter (prov_Name pp) r = (c, r1)" by fastforce
  obtain d r2 where d: "getCounter (prov_Name pq) r1 = (d, r2)" by fastforce
  have "c = - 1" using getCounter_load(1) [of "prov_Name pp" r] c assms(4,6) by (simp add: load_of_def)
  moreover have "d = k"
    using getCounter_load(1) [of "prov_Name pq" r1] getCounter_load(2) [of "prov_Name pp" r] c d assms(5,7)
    by (simp add: load_of_def)
  ultimately have "ll_scan (- 1) [] r [p, q] = (Inr [q], r2)"
    using assms by (simp add: c d)
  then show ?thesis
    using assms(1-3) check_healthy_some [OF assms(1), of "[p, q]"]
    by (simp add: LeastLoadedRouter_Select_def sortByPriority_def sort_stable_def)
qed

lemma LeastLoadedRouter_sentinel_witness:
  "fst (LeastLoadedRouter_Select demo_renv (LeastLoaded_Release \<lparr>prov_Name = ''a'', prov_Owner = ''o''\<rparr> [''b'' \<mapsto> 7])
     [demo_prov ''a'' 1 True, demo_prov ''b'' 1 True]) = Inr (demo_prov ''b'' 1 True)"
  by (rule LeastLoadedRouter_sentinel [where k = 7])
    (simp_all add: demo_prov_def Healthy_def LeastLoaded_Release_def counter_Add_def getCounter_def
       load_of_def name_load_def in_int64_def)

text \<open>
  Requests in flight: the handler acquires a provider before the upstream call and releases it after.
\<close>

datatype load_event = Acquired provider | Released provider

definition load_apply :: "load_event \<Rightarrow> ll_router \<Rightarrow> ll_router" where
  "load_apply ev r = (case ev of Acquired p \<Rightarrow> LeastLoaded_Acquire p r | Released p \<Rightarrow> LeastLoaded_Release p r)"

definition in_flight :: "string \<Rightarrow> load_event list \<Rightarrow> int" where
  "in_flight n evs = (\<Sum>ev \<leftarrow> evs. case ev of
     Acquired p \<Rightarrow> if prov_Name p = n then 1 else 0 | Released p \<Rightarrow> if prov_Name p = n then - 1 else 0)"

lemma load_apply_load:
  "name_load (load_apply ev r) n = (if in_flight n [ev] = 0 then name_load r n
     else wrap64 (name_load r n + in_flight n [ev]))"
  by (cases ev) (simp_all add: load_apply_def LeastLoaded_Acquire_def LeastLoaded_Release_def counter_Add_load in_flight_def)

text \<open>
  The counters of least loaded count the requests in flight: after any sequence of acquires and
  releases from a new router the load of a name is the number of its acquires less its releases.
\<close>

lemma LeastLoaded_counts_in_flight:
  assumes "length evs < 2 ^ 62"
  shows "name_load (fold load_apply evs Map.empty) n = in_flight n evs"
proof -
  have "name_load (fold load_apply evs Map.empty) n = in_flight n evs \<and> \<bar>in_flight n evs\<bar> \<le> int (length evs)"
    using assms
  proof (induction evs rule: rev_induct)
    case Nil
    then show ?case by (simp add: name_load_def in_flight_def)
  next
    case (snoc ev evs)
    have split: "in_flight n (evs @ [ev]) = in_flight n evs + in_flight n [ev]"
      by (simp add: in_flight_def)
    have one: "\<bar>in_flight n [ev]\<bar> \<le> 1"
      by (cases ev) (simp_all add: in_flight_def)
    have "int (length evs) < 2 ^ 62" using snoc.prems by simp
    then have "in_int64 (in_flight n evs + in_flight n [ev])"
      using snoc one unfolding in_int64_def by (auto simp: abs_le_iff)
    with snoc split one show ?case by (simp add: load_apply_load) linarith
  qed
  then show ?thesis by blast
qed

lemma LeastLoaded_counts_in_flight_witness:
  "name_load (fold load_apply [Acquired \<lparr>prov_Name = ''a'', prov_Owner = ''''\<rparr>,
     Acquired \<lparr>prov_Name = ''b'', prov_Owner = ''''\<rparr>, Acquired \<lparr>prov_Name = ''a'', prov_Owner = ''''\<rparr>] Map.empty) ''a'' = 2"
  by (subst LeastLoaded_counts_in_flight) (simp_all add: in_flight_def)

end
