(* ===== verification/Failover_Router.thy ===== *)
theory Failover_Router
  imports Provider_Router
begin

text \<open>
  Provider selection, second part (\<open>internal/router\<close>): the failover triggers, the strategies
  failover, weighted failover and priority-weighted failover with their retry loops, and the
  construction of a router from the configured strategy name.
\<close>

section \<open>Triggers\<close>

text \<open>An error argument is \<^term>\<open>None\<close> for Go's nil.\<close>

datatype FailoverTrigger =
    StatusCodeTrigger "int list"
  | TimeoutTrigger
  | ConnectionTrigger

fun trigger_ShouldFailover :: "FailoverTrigger \<Rightarrow> go_error option \<Rightarrow> int \<Rightarrow> bool" where
  "trigger_ShouldFailover (StatusCodeTrigger codes) err statusCode = (statusCode \<in> set codes)"
| "trigger_ShouldFailover TimeoutTrigger err statusCode =
     (case err of None \<Rightarrow> False | Some e \<Rightarrow> errors_is e DeadlineExceeded)"
| "trigger_ShouldFailover ConnectionTrigger err statusCode =
     (case err of None \<Rightarrow> False | Some e \<Rightarrow> as_net_error e)"

fun trigger_Name :: "FailoverTrigger \<Rightarrow> string" where
  "trigger_Name (StatusCodeTrigger codes) = ''status_code''"
| "trigger_Name TimeoutTrigger = ''timeout''"
| "trigger_Name ConnectionTrigger = ''connection''"

definition DefaultTriggers :: "FailoverTrigger list" where
  "DefaultTriggers = [StatusCodeTrigger [403, 429, 500, 502, 503, 504], TimeoutTrigger, ConnectionTrigger]"

fun ShouldFailover :: "FailoverTrigger list \<Rightarrow> go_error option \<Rightarrow> int \<Rightarrow> bool" where
  "ShouldFailover [] err statusCode = False"
| "ShouldFailover (t # ts) err statusCode =
     (if trigger_ShouldFailover t err statusCode then True else ShouldFailover ts err statusCode)"

fun FindMatchingTrigger :: "FailoverTrigger list \<Rightarrow> go_error option \<Rightarrow> int \<Rightarrow> FailoverTrigger option" where
  "FindMatchingTrigger [] err statusCode = None"
| "FindMatchingTrigger (t # ts) err statusCode =
     (if trigger_ShouldFailover t err statusCode then Some t else FindMatchingTrigger ts err statusCode)"

lemma ShouldFailover_iff: "ShouldFailover ts err code \<longleftrightarrow> (\<exists>t \<in> set ts. trigger_ShouldFailover t err code)"
  by (induction ts) auto

lemma FindMatchingTrigger_find:
  "FindMatchingTrigger ts err code = find (\<lambda>t. trigger_ShouldFailover t err code) ts"
  by (induction ts) auto

section \<open>The failover router\<close>

record failover_router =
  fr_triggers :: "FailoverTrigger list"
  fr_timeout :: duration

definition NewFailoverRouter :: "duration \<Rightarrow> FailoverTrigger list \<Rightarrow> failover_router" where
  "NewFailoverRouter timeout triggers =
     \<lparr>fr_triggers = (if triggers = [] then DefaultTriggers else triggers),
      fr_timeout = (if timeout = 0 then seconds 5 else timeout)\<rparr>"

definition FailoverRouter_Select ::
    "route_env \<Rightarrow> failover_router \<Rightarrow> provider_info list \<Rightarrow> (go_error + provider_info) \<times> failover_router" where
  "FailoverRouter_Select env r ps =
     (case check_healthy env ps of
        Inl e \<Rightarrow> (Inl e, r)
      | Inr healthy \<Rightarrow> (Inr (hd (sortByPriority healthy)), r))"

text \<open>
  The retry loops call back into \<open>tryProvider\<close>. \<open>attempt i p\<close> is what the \<open>i\<close>-th call of it
  (counting from 0) answers for provider \<open>p\<close>: a status code and an error or nil. The results of a retry are
  the provider and error returned, and the providers tried, in order.
\<close>

type_synonym attempt = "nat \<Rightarrow> provider_info \<Rightarrow> int \<times> go_error option"

record routing_result =
  rr_Provider :: provider_info
  rr_Err :: "go_error option"

definition zero_provider :: provider_info where
  "zero_provider = \<lparr>pi_Provider = None, pi_IsHealthy = None, pi_Weight = 0, pi_Priority = 0\<rparr>"

text \<open>
  The receive loop of the race. Each goroutine sends exactly one result into a channel of sufficient
  capacity; \<open>results\<close> are the results in the order of their arrival.
\<close>

fun race_loop :: "go_error option \<Rightarrow> routing_result list \<Rightarrow> provider_info \<times> go_error option" where
  "race_loop lastErr [] =
     (zero_provider, Some (case lastErr of None \<Rightarrow> DeadlineExceeded | Some e \<Rightarrow> e))"
| "race_loop lastErr (res # rest) =
     (case rr_Err res of
        None \<Rightarrow> (rr_Provider res, None)
      | Some e \<Rightarrow> race_loop (Some e) rest)"

definition parallelRace ::
    "(nat \<Rightarrow> nat list) \<Rightarrow> attempt \<Rightarrow> nat \<Rightarrow> provider_info list \<Rightarrow> provider_info \<times> go_error option" where
  "parallelRace arrival att k ps =
     race_loop None (map (\<lambda>i. \<lparr>rr_Provider = ps ! i, rr_Err = snd (att (k + i) (ps ! i))\<rparr>) (arrival (length ps)))"

text \<open>
  The scheduler decides the order of arrival: any permutation of the goroutines. The \<open>i\<close>-th goroutine
  makes the call number \<open>k + i\<close>.
\<close>

definition arrival_ok :: "(nat \<Rightarrow> nat list) \<Rightarrow> bool" where
  "arrival_ok arrival \<longleftrightarrow> (\<forall>n. mset (arrival n) = mset [0..<n])"

definition FailoverRouter_SelectWithRetry ::
    "route_env \<Rightarrow> (nat \<Rightarrow> nat list) \<Rightarrow> attempt \<Rightarrow> failover_router \<Rightarrow> provider_info list \<Rightarrow>
     (provider_info \<times> go_error option) \<times> provider_info list" where
  "FailoverRouter_SelectWithRetry env arrival att r ps =
     (case check_healthy env ps of
        Inl e \<Rightarrow> ((zero_provider, Some e), [])
      | Inr healthy \<Rightarrow>
          (let sorted = sortByPriority healthy
           in if length sorted = 1 then ((hd sorted, snd (att 0 (hd sorted))), [hd sorted])
              else let primary = hd sorted;
                       (statusCode, err) = att 0 primary
                   in case err of
                        None \<Rightarrow> ((primary, None), [primary])
                      | Some e \<Rightarrow>
                          if \<not> ShouldFailover (fr_triggers r) err statusCode
                          then ((primary, err), [primary])
                          else (parallelRace arrival att 1 sorted, primary # sorted)))"

section \<open>The weighted failover router\<close>

definition effectiveWeight :: "int \<Rightarrow> int" where
  "effectiveWeight weight = (if weight \<le> 0 then 1 else weight)"

definition weightedIndex :: "route_env \<Rightarrow> nat \<Rightarrow> provider_info list \<Rightarrow> nat" where
  "weightedIndex env draw ps =
     (let ws = map (\<lambda>p. effectiveWeight (pi_Weight p)) ps;
          W = wrap_sum ws
      in if W \<le> 0 then 0
         else case pick_index ws (rt_randIntn env draw W) of
                Some i \<Rightarrow> i
              | None \<Rightarrow> length ps - 1)"

lemma weightedIndex_bound: "ps \<noteq> [] \<Longrightarrow> weightedIndex env k ps < length ps"
  by (auto simp: weightedIndex_def Let_def dest: pick_index_bound split: option.split)

function weightedOrder_loop :: "route_env \<Rightarrow> nat \<Rightarrow> provider_info list \<Rightarrow> provider_info list" where
  "weightedOrder_loop env draw remaining =
     (if remaining = [] then []
      else let idx = weightedIndex env draw remaining
           in remaining ! idx #
              weightedOrder_loop env (draw + 1) (take idx remaining @ drop (idx + 1) remaining))"
  by pat_completeness auto
termination
proof (relation "measure (\<lambda>(env, k, remaining). length remaining)", goal_cases)
  case (2 env draw remaining idx)
  then show ?case using weightedIndex_bound [of remaining env draw] by auto
qed auto

declare weightedOrder_loop.simps [simp del]

definition weightedOrder :: "route_env \<Rightarrow> provider_info list \<Rightarrow> provider_info list" where
  "weightedOrder env ps = weightedOrder_loop env 0 ps"

definition WeightedFailoverRouter_Select ::
    "route_env \<Rightarrow> failover_router \<Rightarrow> provider_info list \<Rightarrow> (go_error + provider_info) \<times> failover_router" where
  "WeightedFailoverRouter_Select env r ps =
     (case check_healthy env ps of
        Inl e \<Rightarrow> (Inl e, r)
      | Inr healthy \<Rightarrow> (Inr (hd (weightedOrder env healthy)), r))"

fun failover_loop ::
    "failover_router \<Rightarrow> attempt \<Rightarrow> nat \<Rightarrow> go_error option \<Rightarrow> provider_info list \<Rightarrow>
     (provider_info \<times> go_error option) \<times> provider_info list" where
  "failover_loop r att k lastErr [] =
     ((zero_provider, Some (case lastErr of None \<Rightarrow> DeadlineExceeded | Some e \<Rightarrow> e)), [])"
| "failover_loop r att k lastErr (p # ps) =
     (let (statusCode, err) = att k p
      in case err of
           None \<Rightarrow> ((p, None), [p])
         | Some e \<Rightarrow>
             if \<not> ShouldFailover (fr_triggers r) err statusCode then ((p, err), [p])
             else let (res, tried) = failover_loop r att (k + 1) err ps in (res, p # tried))"

definition WeightedFailoverRouter_SelectWithRetry ::
    "route_env \<Rightarrow> attempt \<Rightarrow> failover_router \<Rightarrow> provider_info list \<Rightarrow>
     (provider_info \<times> go_error option) \<times> provider_info list" where
  "WeightedFailoverRouter_SelectWithRetry env att r ps =
     (case check_healthy env ps of
        Inl e \<Rightarrow> ((zero_provider, Some e), [])
      | Inr healthy \<Rightarrow> failover_loop r att 0 None (weightedOrder env healthy))"

section \<open>The priority-weighted failover router\<close>

definition groupByPriorityDesc :: "provider_info list \<Rightarrow> provider_info list list" where
  "groupByPriorityDesc ps =
     (let tiers = group_by pi_Priority ps; levels = levels_desc pi_Priority ps
      in map (\<lambda>level. tiers level) levels)"

definition providerEffectiveWeight :: "int \<Rightarrow> int" where
  "providerEffectiveWeight w = (if w \<le> 0 then 1 else w)"

definition weightedRandomSelect :: "route_env \<Rightarrow> nat \<Rightarrow> provider_info list \<Rightarrow> go_error + provider_info" where
  "weightedRandomSelect env draw ps =
     (if ps = [] then Inl ErrAllProvidersUnhealthy
      else if length ps = 1 then Inr (hd ps)
      else let ws = map (\<lambda>p. providerEffectiveWeight (pi_Weight p)) ps;
               totalWeight = wrap_sum ws
           in if totalWeight \<le> 0 then Inr (hd ps)
              else case pick_index ws (rt_randIntn env draw totalWeight) of
                     Some i \<Rightarrow> Inr (ps ! i)
                   | None \<Rightarrow> Inr (last ps))"

fun group_loop :: "route_env \<Rightarrow> nat \<Rightarrow> provider_info list list \<Rightarrow> go_error + provider_info" where
  "group_loop env draw [] = Inl ErrAllProvidersUnhealthy"
| "group_loop env draw (g # gs) =
     (case weightedRandomSelect env draw g of
        Inr p \<Rightarrow> Inr p
      | Inl e \<Rightarrow> group_loop env (draw + 1) gs)"

definition PriorityWeightedFailoverRouter_Select ::
    "route_env \<Rightarrow> unit \<Rightarrow> provider_info list \<Rightarrow> (go_error + provider_info) \<times> unit" where
  "PriorityWeightedFailoverRouter_Select env r ps =
     (case check_healthy env ps of
        Inl e \<Rightarrow> (Inl e, r)
      | Inr healthy \<Rightarrow> (group_loop env 0 (groupByPriorityDesc healthy), r))"

section \<open>Order and selection lemmas\<close>

lemma mset_take_drop: "i < length xs \<Longrightarrow> add_mset (xs ! i) (mset (take i xs @ drop (i + 1) xs)) = mset xs"
  by (metis Suc_eq_plus1 id_take_nth_drop mset.simps(2) mset_append union_mset_add_mset_right)

lemma weightedOrder_loop_mset: "mset (weightedOrder_loop env k ps) = mset ps"
proof (induction env k ps rule: weightedOrder_loop.induct)
  case (1 env k ps)
  show ?case
  proof (cases "ps = []")
    case True
    then show ?thesis by (simp add: weightedOrder_loop.simps)
  next
    case False
    with 1 mset_take_drop [OF weightedIndex_bound [OF False, of env k]] show ?thesis
      by (subst weightedOrder_loop.simps) (simp add: Let_def)
  qed
qed

lemma weightedOrder_mset [simp]: "mset (weightedOrder env ps) = mset ps"
  by (simp add: weightedOrder_def weightedOrder_loop_mset)

lemma weightedOrder_set [simp]: "set (weightedOrder env ps) = set ps"
  by (metis set_mset_mset weightedOrder_mset)

lemma weightedOrder_Nil [simp]: "weightedOrder env ps = [] \<longleftrightarrow> ps = []"
  by (metis mset_zero_iff_right weightedOrder_mset)

lemma groupByPriorityDesc_eq:
  "groupByPriorityDesc ps = map (\<lambda>l. filter (\<lambda>p. pi_Priority p = l) ps) (levels_desc pi_Priority ps)"
  by (simp add: groupByPriorityDesc_def group_by_filter Let_def)

text \<open>The first group holds the providers of the greatest priority.\<close>

definition top_tier :: "provider_info list \<Rightarrow> provider_info list" where
  "top_tier ps = filter (\<lambda>p. \<forall>q \<in> set ps. pi_Priority q \<le> pi_Priority p) ps"

lemma groupByPriorityDesc_Cons:
  assumes "ps \<noteq> []"
  shows "\<exists>gs. groupByPriorityDesc ps = top_tier ps # gs" and "top_tier ps \<noteq> []"
proof -
  have "levels_desc pi_Priority ps \<noteq> []"
    using assms set_levels_desc [of pi_Priority ps] by (metis image_is_empty set_empty)
  then obtain l ls where ls: "levels_desc pi_Priority ps = l # ls" by (cases "levels_desc pi_Priority ps") auto
  have mem: "pi_Priority ` set ps = insert l (set ls)" using set_levels_desc [of pi_Priority ps] ls by simp
  then have top: "\<forall>q \<in> set ps. pi_Priority q \<le> l"
    using sorted_levels_desc [of pi_Priority ps] by (auto simp: ls)
  obtain p where p: "p \<in> set ps" "pi_Priority p = l" using mem by (metis image_iff insertI1)
  have "filter (\<lambda>p. pi_Priority p = l) ps = top_tier ps"
    unfolding top_tier_def using top p by (intro filter_cong) (auto intro: antisym)
  then show "\<exists>gs. groupByPriorityDesc ps = top_tier ps # gs"
    by (simp add: groupByPriorityDesc_eq ls)
  show "top_tier ps \<noteq> []" using top p by (auto simp: top_tier_def filter_empty_conv)
qed

lemma weightedRandomSelect_mem:
  assumes "ps \<noteq> []"
  obtains p where "weightedRandomSelect env k ps = Inr p" "p \<in> set ps"
proof (cases "length ps = 1 \<or> wrap_sum (map (\<lambda>p. providerEffectiveWeight (pi_Weight p)) ps) \<le> 0")
  case True
  with assms that [of "hd ps"] show ?thesis by (auto simp: weightedRandomSelect_def Let_def)
next
  case False
  show ?thesis
  proof (cases "pick_index (map (\<lambda>p. providerEffectiveWeight (pi_Weight p)) ps)
      (rt_randIntn env k (wrap_sum (map (\<lambda>p. providerEffectiveWeight (pi_Weight p)) ps)))")
    case None
    with False assms that [of "last ps"] show ?thesis by (simp add: weightedRandomSelect_def)
  next
    case (Some i)
    with pick_index_bound [OF Some] False assms that [of "ps ! i"] show ?thesis
      by (simp add: weightedRandomSelect_def)
  qed
qed

lemma PriorityWeightedFailoverRouter_Select_eq:
  assumes "route_env_ok env" "\<exists>p \<in> set ps. Healthy p"
  shows "PriorityWeightedFailoverRouter_Select env r ps =
    (weightedRandomSelect env 0 (top_tier (filter Healthy ps)), r)"
proof -
  have ne: "filter Healthy ps \<noteq> []" using assms(2) by (simp add: filter_empty_conv)
  obtain gs where gs: "groupByPriorityDesc (filter Healthy ps) = top_tier (filter Healthy ps) # gs"
    using groupByPriorityDesc_Cons(1) [OF ne] by blast
  obtain p where "weightedRandomSelect env 0 (top_tier (filter Healthy ps)) = Inr p"
    using weightedRandomSelect_mem [OF groupByPriorityDesc_Cons(2) [OF ne], of env 0] by blast
  then show ?thesis
    using check_healthy_some [OF assms] by (simp add: PriorityWeightedFailoverRouter_Select_def gs)
qed

section \<open>The strategies meet the contract\<close>

lemma FailoverRouter_Select_eq:
  assumes "route_env_ok env" "\<exists>p \<in> set ps. Healthy p"
  shows "FailoverRouter_Select env r ps = (Inr (hd (sortByPriority (filter Healthy ps))), r)"
  using check_healthy_some [OF assms] by (simp add: FailoverRouter_Select_def)

lemma WeightedFailoverRouter_Select_eq:
  assumes "route_env_ok env" "\<exists>p \<in> set ps. Healthy p"
  shows "WeightedFailoverRouter_Select env r ps = (Inr (hd (weightedOrder env (filter Healthy ps))), r)"
  using check_healthy_some [OF assms] by (simp add: WeightedFailoverRouter_Select_def)

interpretation fop: provider_router FailoverRouter_Select "\<lambda>_. True"
proof unfold_locales
  fix env :: route_env and s :: failover_router and ps :: "provider_info list"
  assume a: "route_env_ok env" "\<exists>p \<in> set ps. Healthy p"
  then have "hd (sortByPriority (filter Healthy ps)) \<in> set (sortByPriority (filter Healthy ps))"
    by (intro hd_in_set) (simp add: filter_empty_conv)
  then show "\<exists>r. fst (FailoverRouter_Select env s ps) = Inr r \<and> r \<in> set ps \<and> Healthy r"
    by (simp add: FailoverRouter_Select_eq [OF a])
qed (simp_all add: FailoverRouter_Select_def check_healthy_none)

interpretation wfp: provider_router WeightedFailoverRouter_Select "\<lambda>_. True"
proof unfold_locales
  fix env :: route_env and s :: failover_router and ps :: "provider_info list"
  assume a: "route_env_ok env" "\<exists>p \<in> set ps. Healthy p"
  then have "hd (weightedOrder env (filter Healthy ps)) \<in> set (weightedOrder env (filter Healthy ps))"
    by (intro hd_in_set) (simp add: filter_empty_conv)
  then show "\<exists>r. fst (WeightedFailoverRouter_Select env s ps) = Inr r \<and> r \<in> set ps \<and> Healthy r"
    by (simp add: WeightedFailoverRouter_Select_eq [OF a])
qed (simp_all add: WeightedFailoverRouter_Select_def check_healthy_none)

lemma top_tier_sub: "p \<in> set (top_tier ps) \<Longrightarrow> p \<in> set ps \<and> (\<forall>q \<in> set ps. pi_Priority q \<le> pi_Priority p)"
  by (simp add: top_tier_def)

lemma PriorityWeighted_selects_top:
  assumes "route_env_ok env" "\<exists>p \<in> set ps. Healthy p"
  shows "\<exists>p \<in> set (top_tier (filter Healthy ps)). fst (PriorityWeightedFailoverRouter_Select env r ps) = Inr p"
proof -
  have "filter Healthy ps \<noteq> []" using assms(2) by (simp add: filter_empty_conv)
  from weightedRandomSelect_mem [OF groupByPriorityDesc_Cons(2) [OF this], of env 0]
  show ?thesis by (metis PriorityWeightedFailoverRouter_Select_eq [OF assms] fst_conv)
qed

interpretation pwp: provider_router PriorityWeightedFailoverRouter_Select "\<lambda>_. True"
proof unfold_locales
  fix env :: route_env and s :: unit and ps :: "provider_info list"
  assume a: "route_env_ok env" "\<exists>p \<in> set ps. Healthy p"
  from PriorityWeighted_selects_top [OF this, of s]
  show "\<exists>r. fst (PriorityWeightedFailoverRouter_Select env s ps) = Inr r \<and> r \<in> set ps \<and> Healthy r"
    by (auto dest!: top_tier_sub)
qed (simp_all add: PriorityWeightedFailoverRouter_Select_def check_healthy_none)

section \<open>Properties of failover\<close>

definition fo_prov :: "string \<Rightarrow> int \<Rightarrow> int \<Rightarrow> provider_info" where
  "fo_prov n w pr = \<lparr>pi_Provider = Some \<lparr>prov_Name = n, prov_Owner = ''o''\<rparr>, pi_IsHealthy = None,
     pi_Weight = w, pi_Priority = pr\<rparr>"

definition fo_env :: route_env where
  "fo_env = \<lparr>re_now = 62135596800 * nsec_per_sec + 10 ^ 18, re_rand = (\<lambda>_ _. Some 0), re_lo = std_lo,
     re_shuffle = rev\<rparr>"

lemma fo_env_ok [simp]: "route_env_ok fo_env"
  by (simp add: route_env_ok_def fo_env_def rand_ok_def clock_ok_def unix_nano_def wrap64_def)

lemma fo_prov_Healthy [simp]: "Healthy (fo_prov n w pr)"
  by (simp add: Healthy_def fo_prov_def)

text \<open>
  The default triggers fail over exactly for the statuses 403, 429, 500, 502, 503 and 504, for errors
  that wrap a deadline and for network errors, and the trigger reported for logging is found exactly
  when a failover happens. (The documentation of \<open>DefaultTriggers\<close> does not list 403.)
\<close>

lemma DefaultTriggers_spec:
  "(ShouldFailover DefaultTriggers err statusCode \<longleftrightarrow>
     statusCode \<in> {403, 429, 500, 502, 503, 504} \<or>
     (case err of None \<Rightarrow> False | Some e \<Rightarrow> errors_is e DeadlineExceeded \<or> as_net_error e)) \<and>
   (FindMatchingTrigger ts err statusCode = None \<longleftrightarrow> \<not> ShouldFailover ts err statusCode)"
  by (auto simp: ShouldFailover_iff DefaultTriggers_def FindMatchingTrigger_find find_None_iff split: option.splits)

lemma hd_insort_key: "hd (insort_key f x xs) = (if xs = [] \<or> f x \<le> f (hd xs) then x else hd xs)"
  by (cases xs) auto

lemma hd_sort_key_first:
  "xs \<noteq> [] \<Longrightarrow> \<exists>pre post. xs = pre @ hd (sort_key f xs) # post \<and>
    (\<forall>y \<in> set pre. f (hd (sort_key f xs)) < f y) \<and> (\<forall>y \<in> set post. f (hd (sort_key f xs)) \<le> f y)"
proof (induction xs)
  case Nil
  then show ?case by simp
next
  case (Cons x xs)
  show ?case
  proof (cases "xs = []")
    case True
    then show ?thesis by (intro exI [of _ "[]"]) simp
  next
    case False
    let ?h = "hd (sort_key f xs)"
    obtain pre post where xs: "xs = pre @ ?h # post" "\<forall>y \<in> set pre. f ?h < f y" "\<forall>y \<in> set post. f ?h \<le> f y"
      using Cons.IH False by blast
    have ne: "sort_key f xs \<noteq> []" using False by (metis length_0_conv length_sort)
    show ?thesis
    proof (cases "f x \<le> f ?h")
      case True
      then have "hd (sort_key f (x # xs)) = x" by (simp add: hd_insort_key)
      moreover have "set xs = set pre \<union> insert ?h (set post)"
        by (metis list.simps(15) set_append xs(1))
      then have "\<forall>y \<in> set xs. f x \<le> f y"
        using xs(2,3) True by force
      ultimately show ?thesis by (intro exI [of _ "[]"] exI [of _ xs]) simp
    next
      case f: False
      then have "hd (sort_key f (x # xs)) = ?h" using ne by (simp add: hd_insort_key)
      with f xs show ?thesis by (intro exI [of _ "x # pre"] exI [of _ post]) auto
    qed
  qed
qed

text \<open>
  Failover serves the first healthy provider of the greatest priority in the order of the
  configuration: the ones before it are of lower priority, the ones after it not of higher.
\<close>

lemma FailoverRouter_Select_priority:
  assumes "route_env_ok env" "\<exists>p \<in> set ps. Healthy p" "small_priorities ps"
  shows "\<exists>pre p post. filter Healthy ps = pre @ p # post \<and> FailoverRouter_Select env r ps = (Inr p, r) \<and>
    (\<forall>q \<in> set pre. pi_Priority q < pi_Priority p) \<and> (\<forall>q \<in> set post. pi_Priority q \<le> pi_Priority p)"
proof -
  have ne: "filter Healthy ps \<noteq> []" using assms(2) by (simp add: filter_empty_conv)
  from hd_sort_key_first [OF ne, of "\<lambda>p. - pi_Priority p"] show ?thesis
    using sortByPriority_sort_key [OF small_priorities_filter [OF assms(3)], of Healthy]
    by (simp add: FailoverRouter_Select_eq [OF assms(1,2)])
qed

lemma FailoverRouter_Select_priority_witness:
  "fst (FailoverRouter_Select fo_env (NewFailoverRouter 0 []) [fo_prov ''a'' 1 1, fo_prov ''b'' 1 5]) =
     Inr (fo_prov ''b'' 1 5)"
proof -
  have "small_priorities [fo_prov ''a'' 1 1, fo_prov ''b'' 1 5]"
    by (simp add: small_priorities_def fo_prov_def)
  from FailoverRouter_Select_priority [OF fo_env_ok _ this, of "NewFailoverRouter 0 []"]
  obtain pre p post where "[fo_prov ''a'' 1 1, fo_prov ''b'' 1 5] = pre @ p # post"
    "FailoverRouter_Select fo_env (NewFailoverRouter 0 []) [fo_prov ''a'' 1 1, fo_prov ''b'' 1 5] =
       (Inr p, NewFailoverRouter 0 [])"
    "\<forall>q \<in> set post. pi_Priority q \<le> pi_Priority p" by auto
  then show ?thesis by (cases pre) (auto simp: Cons_eq_append_conv fo_prov_def)
qed

section \<open>Properties of the retry loops\<close>

lemma race_loop_success:
  assumes "\<exists>x \<in> set rs. rr_Err x = None"
  shows "\<exists>x \<in> set rs. rr_Err x = None \<and> race_loop l rs = (rr_Provider x, None)"
  using assms by (induction l rs rule: race_loop.induct) (auto split: option.splits)

lemma race_loop_failure:
  assumes "\<forall>x \<in> set rs. rr_Err x \<noteq> None"
  shows "\<exists>e. race_loop l rs = (zero_provider, Some e)"
  using assms by (induction l rs rule: race_loop.induct) (auto split: option.splits)

lemma parallelRace_cases:
  assumes "arrival_ok arrival"
  shows "(\<exists>i < length ps. snd (att (k + i) (ps ! i)) = None \<and> parallelRace arrival att k ps = (ps ! i, None)) \<or>
    (\<forall>i < length ps. snd (att (k + i) (ps ! i)) \<noteq> None) \<and>
      (\<exists>e. parallelRace arrival att k ps = (zero_provider, Some e))"
proof -
  let ?rs = "map (\<lambda>i. \<lparr>rr_Provider = ps ! i, rr_Err = snd (att (k + i) (ps ! i))\<rparr>) (arrival (length ps))"
  have "mset (arrival (length ps)) = mset [0..<length ps]" using assms unfolding arrival_ok_def by blast
  then have arr: "set (arrival (length ps)) = {0..<length ps}" by (metis set_mset_mset set_upt)
  show ?thesis
  proof (cases "\<exists>i < length ps. snd (att (k + i) (ps ! i)) = None")
    case True
    then have "\<exists>x \<in> set ?rs. rr_Err x = None" using arr by force
    from race_loop_success [OF this, of None] obtain i where "i \<in> set (arrival (length ps))"
      "snd (att (k + i) (ps ! i)) = None" "race_loop None ?rs = (ps ! i, None)" by auto
    then show ?thesis unfolding parallelRace_def arr by (intro disjI1 exI [of _ i]) simp
  next
    case False
    then have "\<forall>x \<in> set ?rs. rr_Err x \<noteq> None" using arr by auto
    from race_loop_failure [OF this, of None]
    obtain e where "race_loop None ?rs = (zero_provider, Some e)" ..
    then show ?thesis using False unfolding parallelRace_def by (intro disjI2 conjI exI [of _ e]) simp_all
  qed
qed

text \<open>
  Failover with retry succeeds exactly when it can: it returns without error if and only if the first
  attempt (at the healthy provider of the greatest priority) succeeds, or there are at least two healthy
  providers, the first error fires a trigger and some attempt of the race succeeds, whatever the order in
  which the racers finish; and the provider returned is one whose own attempt succeeded.
\<close>

lemma FailoverRouter_SelectWithRetry_spec:
  fixes ps :: "provider_info list" and env :: route_env and r :: failover_router and att :: attempt
    and arrival :: "nat \<Rightarrow> nat list"
  defines "S \<equiv> sortByPriority (filter Healthy ps)"
  defines "R \<equiv> fst (FailoverRouter_SelectWithRetry env arrival att r ps)"
  assumes env: "route_env_ok env" and ex: "\<exists>p \<in> set ps. Healthy p" and arr: "arrival_ok arrival"
  shows "(snd R = None \<longleftrightarrow> snd (att 0 (hd S)) = None \<or>
      2 \<le> length S \<and> ShouldFailover (fr_triggers r) (snd (att 0 (hd S))) (fst (att 0 (hd S))) \<and>
      (\<exists>i < length S. snd (att (1 + i) (S ! i)) = None)) \<and>
    (snd R = None \<longrightarrow> fst R \<in> set S \<and> (\<exists>k. snd (att k (fst R)) = None))"
proof -
  have ne: "S \<noteq> []" using ex by (simp add: S_def filter_empty_conv)
  have mem: "hd S \<in> set S" using ne by simp
  obtain c err where a0: "att 0 (hd S) = (c, err)" by fastforce
  have run: "R = (if length S = 1 then (hd S, err) else case err of None \<Rightarrow> (hd S, None)
      | Some e \<Rightarrow> if \<not> ShouldFailover (fr_triggers r) err c then (hd S, err) else parallelRace arrival att 1 S)"
    using check_healthy_some [OF env ex] a0
    by (auto simp: R_def FailoverRouter_SelectWithRetry_def S_def [symmetric] Let_def split: option.split)
  have len: "length S = 1 \<or> 2 \<le> length S" using ne by (cases S; cases "tl S") auto
  show ?thesis
  proof (cases "length S = 1 \<or> err = None \<or> \<not> ShouldFailover (fr_triggers r) err c")
    case True
    then have "R = (hd S, err)" using run by (auto split: option.splits)
    with True a0 mem len show ?thesis by (auto intro: exI [of _ 0])
  next
    case False
    then have "R = parallelRace arrival att 1 S" using run by (auto split: option.splits)
    with parallelRace_cases [OF arr, where ps = S and att = att and k = 1] False a0 len nth_mem
    show ?thesis by (elim disjE) (auto intro: exI [of _ "Suc _"])
  qed
qed

lemma FailoverRouter_SelectWithRetry_spec_witness:
  "snd (fst (FailoverRouter_SelectWithRetry fo_env (\<lambda>n. rev [0..<n])
     (\<lambda>k p. if k = 2 then (200, None) else (503, Some (OtherError ''unavailable'')))
     (NewFailoverRouter 0 []) [fo_prov ''a'' 1 1, fo_prov ''b'' 1 5])) = None"
proof -
  have "arrival_ok (\<lambda>n. rev [0..<n])" by (simp add: arrival_ok_def)
  moreover have "sortByPriority (filter Healthy [fo_prov ''a'' 1 1, fo_prov ''b'' 1 5]) = [fo_prov ''b'' 1 5, fo_prov ''a'' 1 1]"
    by (simp add: sortByPriority_def sort_stable_def priority_cmp_def in_int64_def fo_prov_def Healthy_def)
  moreover have "ShouldFailover (fr_triggers (NewFailoverRouter 0 [])) err 503" for err
    by (simp add: NewFailoverRouter_def DefaultTriggers_def)
  ultimately show ?thesis
    using FailoverRouter_SelectWithRetry_spec [OF fo_env_ok, where
        ps = "[fo_prov ''a'' 1 1, fo_prov ''b'' 1 5]" and arrival = "\<lambda>n. rev [0..<n]" and
        att = "\<lambda>k p. if k = 2 then (200, None) else (503, Some (OtherError ''unavailable''))" and
        r = "NewFailoverRouter 0 []"]
    by (auto intro: exI [of _ 1])
qed

text \<open>A call of \<open>tryProvider\<close> that ends in an error on which the router moves on.\<close>

definition moves_on :: "failover_router \<Rightarrow> int \<times> go_error option \<Rightarrow> bool" where
  "moves_on r a \<longleftrightarrow> snd a \<noteq> None \<and> ShouldFailover (fr_triggers r) (snd a) (fst a)"

lemma failover_loop_cases:
  "(\<exists>m < length ps. snd (failover_loop r att k l ps) = take (Suc m) ps \<and>
      (\<forall>j < m. moves_on r (att (k + j) (ps ! j))) \<and> \<not> moves_on r (att (k + m) (ps ! m)) \<and>
      fst (failover_loop r att k l ps) = (ps ! m, snd (att (k + m) (ps ! m)))) \<or>
   snd (failover_loop r att k l ps) = ps \<and> (\<forall>j < length ps. moves_on r (att (k + j) (ps ! j))) \<and>
     fst (fst (failover_loop r att k l ps)) = zero_provider \<and> snd (fst (failover_loop r att k l ps)) \<noteq> None"
proof (induction ps arbitrary: k l)
  case Nil
  then show ?case by simp
next
  case (Cons p ps)
  obtain c err where a: "att k p = (c, err)" by fastforce
  show ?case
  proof (cases "moves_on r (att k p)")
    case False
    then have "failover_loop r att k l (p # ps) = ((p, err), [p])"
      by (auto simp: a moves_on_def split: option.split)
    with False show ?thesis by (intro disjI1 exI [of _ 0]) (simp add: a)
  next
    case True
    let ?t = "failover_loop r att (k + 1) err ps"
    have run: "failover_loop r att k l (p # ps) = (fst ?t, p # snd ?t)"
      using True by (auto simp: a moves_on_def split: prod.split)
    have all: "(\<forall>j < Suc m. moves_on r (att (k + j) ((p # ps) ! j))) \<longleftrightarrow>
        (\<forall>j < m. moves_on r (att (k + 1 + j) (ps ! j)))" for m
      using True by (simp add: All_less_Suc2)
    from Cons.IH [of "k + 1" err] show ?thesis
    proof (elim disjE exE conjE)
      fix m assume "m < length ps" "snd ?t = take (Suc m) ps" "\<forall>j < m. moves_on r (att (k + 1 + j) (ps ! j))"
        "\<not> moves_on r (att (k + 1 + m) (ps ! m))" "fst ?t = (ps ! m, snd (att (k + 1 + m) (ps ! m)))"
      then show ?thesis using all [of m] by (intro disjI1 exI [of _ "Suc m"]) (simp add: run del: failover_loop.simps)
    next
      assume "snd ?t = ps" "\<forall>j < length ps. moves_on r (att (k + 1 + j) (ps ! j))"
        "fst (fst ?t) = zero_provider" "snd (fst ?t) \<noteq> None"
      then show ?thesis using all [of "length ps"] by (intro disjI2) (simp add: run del: failover_loop.simps)
    qed
  qed
qed

text \<open>
  Weighted failover tries the healthy providers one at a time, each at most once, in an order that is a
  permutation of them. It stops at the first attempt that succeeds or fails without firing a trigger and
  returns that provider with that attempt's error; only if every healthy provider has failed with a
  trigger does it return no provider, with an error.
\<close>

lemma WeightedFailoverRouter_SelectWithRetry_spec:
  fixes ps :: "provider_info list" and env :: route_env and r :: failover_router and att :: attempt
  defines "run \<equiv> WeightedFailoverRouter_SelectWithRetry env att r ps"
  assumes env: "route_env_ok env" and ex: "\<exists>p \<in> set ps. Healthy p"
  shows "\<exists>ord. mset ord = mset (filter Healthy ps) \<and>
    ((\<exists>m < length ord. snd run = take (Suc m) ord \<and> (\<forall>j < m. moves_on r (att j (ord ! j))) \<and>
        \<not> moves_on r (att m (ord ! m)) \<and> fst run = (ord ! m, snd (att m (ord ! m)))) \<or>
     snd run = ord \<and> (\<forall>j < length ord. moves_on r (att j (ord ! j))) \<and>
        fst (fst run) = zero_provider \<and> snd (fst run) \<noteq> None)"
proof -
  have "run = failover_loop r att 0 None (weightedOrder env (filter Healthy ps))"
    using check_healthy_some [OF env ex] by (simp add: run_def WeightedFailoverRouter_SelectWithRetry_def)
  with failover_loop_cases [where ps = "weightedOrder env (filter Healthy ps)" and r = r and att = att
      and k = 0 and l = None]
  show ?thesis by (intro exI [of _ "weightedOrder env (filter Healthy ps)"]) simp
qed

lemma WeightedFailoverRouter_SelectWithRetry_spec_witness:
  "set (snd (WeightedFailoverRouter_SelectWithRetry fo_env (\<lambda>k p. (429, Some (OtherError ''limited'')))
     (NewFailoverRouter 0 []) [fo_prov ''a'' 1 1, fo_prov ''b'' 4 5])) = {fo_prov ''a'' 1 1, fo_prov ''b'' 4 5}"
proof -
  let ?att = "\<lambda>(k :: nat) (p :: provider_info). (429 :: int, Some (OtherError ''limited''))"
  have mv: "moves_on (NewFailoverRouter 0 []) (?att k p)" for k p
    by (simp add: moves_on_def NewFailoverRouter_def DefaultTriggers_def)
  obtain ord where "mset ord = mset [fo_prov ''a'' 1 1, fo_prov ''b'' 4 5]"
    "snd (WeightedFailoverRouter_SelectWithRetry fo_env ?att (NewFailoverRouter 0 [])
       [fo_prov ''a'' 1 1, fo_prov ''b'' 4 5]) = ord"
    using WeightedFailoverRouter_SelectWithRetry_spec [OF fo_env_ok, where att = ?att and
        r = "NewFailoverRouter 0 []" and ps = "[fo_prov ''a'' 1 1, fo_prov ''b'' 4 5]"] mv by auto
  then show ?thesis by (metis set_mset_mset list.set(1,2))
qed

lemma providerEffectiveWeight_pos [simp]: "0 < providerEffectiveWeight w"
  by (simp add: providerEffectiveWeight_def)

text \<open>
  Priority-weighted failover is proportional within the top tier: only the healthy providers of the
  greatest priority are served, and among the rolls below their total weight exactly the effective
  weight of a provider many serve it (providers pairwise different, total below \<open>2 ^ 63\<close>).
\<close>

lemma PriorityWeightedFailover_share:
  fixes ps :: "provider_info list" and env :: route_env
  defines "T \<equiv> top_tier (filter Healthy ps)"
  defines "W \<equiv> sum_list (map (\<lambda>p. providerEffectiveWeight (pi_Weight p)) T)"
  assumes "lo_ok (re_lo env)" and "\<And>xs. mset (re_shuffle env xs) = mset xs" and "clock_ok (re_now env)"
    and "distinct T" "i < length T" "W < 2 ^ 63"
  shows "card {roll. 0 \<le> roll \<and> roll < W \<and>
      fst (PriorityWeightedFailoverRouter_Select
        (env\<lparr>re_rand := \<lambda>_ n. if roll < n then Some roll else None\<rparr>) () ps) = Inr (T ! i)} =
    nat (providerEffectiveWeight (pi_Weight (T ! i)))"
proof -
  let ?w = "\<lambda>p. providerEffectiveWeight (pi_Weight p)"
  let ?env = "\<lambda>roll. env\<lparr>re_rand := \<lambda>_ n. if roll < n then Some roll else None\<rparr>"
  have ne: "T \<noteq> []" using assms(7) by auto
  have tot: "wrap_sum (map ?w T) = W" using assms(8) by (simp add: W_def wrap_sum_small less_imp_le)
  have pos: "0 < W" unfolding W_def using ne by (intro sum_list_pos) auto
  have ex: "\<exists>p \<in> set ps. Healthy p" using ne by (auto simp: T_def top_tier_def filter_empty_conv)
  have sel: "fst (PriorityWeightedFailoverRouter_Select (?env roll) () ps) = Inr (T ! i) \<longleftrightarrow>
      pick_index (map ?w T) roll = Some i" if r: "0 \<le> roll" "roll < W" for roll
  proof -
    obtain j where j: "pick_index (map ?w T) roll = Some j" using pick_index_total r by (metis W_def)
    then have jl: "j < length T" using pick_index_bound by fastforce
    then have eq: "T ! j = T ! i \<longleftrightarrow> j = i" using assms(6,7) by (simp add: nth_eq_iff_index_eq)
    have ok: "route_env_ok (?env roll)"
      using assms(3-5) r(1) rand_ok_const [OF r(1)] by (simp add: route_env_ok_def)
    have "weightedRandomSelect (?env roll) 0 T = Inr (T ! j)"
    proof (cases "length T = 1")
      case True
      with jl ne show ?thesis by (simp add: weightedRandomSelect_def hd_conv_nth)
    next
      case False
      with ne pos r j show ?thesis by (simp add: weightedRandomSelect_def tot rt_randIntn_def)
    qed
    with eq j show ?thesis
      using PriorityWeightedFailoverRouter_Select_eq [OF ok ex, of "()"] by (simp add: T_def)
  qed
  have "{roll. 0 \<le> roll \<and> roll < W \<and>
      fst (PriorityWeightedFailoverRouter_Select (?env roll) () ps) = Inr (T ! i)} =
      {roll. 0 \<le> roll \<and> roll < sum_list (map ?w T) \<and> pick_index (map ?w T) roll = Some i}"
    using sel by (auto simp: W_def)
  then show ?thesis using pick_index_share [of "map ?w T" i] assms(7) by simp
qed

lemma PriorityWeightedFailover_share_witness:
  "card {roll. 0 \<le> roll \<and> roll < 4 \<and>
     fst (PriorityWeightedFailoverRouter_Select (fo_env\<lparr>re_rand := \<lambda>_ n. if roll < n then Some roll else None\<rparr>) ()
       [fo_prov ''a'' 1 5, fo_prov ''b'' 3 5, fo_prov ''c'' 9 1]) = Inr (fo_prov ''b'' 3 5)} = 3"
proof -
  have T: "top_tier (filter Healthy [fo_prov ''a'' 1 5, fo_prov ''b'' 3 5, fo_prov ''c'' 9 1]) =
      [fo_prov ''a'' 1 5, fo_prov ''b'' 3 5]" by (simp add: top_tier_def) (simp add: fo_prov_def)
  show ?thesis
    using PriorityWeightedFailover_share [of fo_env
        "[fo_prov ''a'' 1 5, fo_prov ''b'' 3 5, fo_prov ''c'' 9 1]" 1] fo_env_ok
    unfolding T by (simp add: route_env_ok_def) (simp add: fo_prov_def providerEffectiveWeight_def)
qed

end
