(* ===== verification/Config.thy ===== *)
theory Config
  imports CR_Prelude
begin

text \<open>
  The configuration (\<open>internal/config\<close>): the sections the other components read, their getters with
  defaults, and the validator. An integer field is a Go \<open>int\<close>; a Go pointer field is an option.
\<close>

section \<open>Retry and routing\<close>

record retry_config =
  rc_Enabled :: bool
  rc_SameKeyRetries :: int
  rc_SameKeyBackoffSec :: int
  rc_KeyRetries :: int
  rc_ProviderRetries :: int
  rc_ProviderBackoffSec :: int
  rc_MaxTotalAttempts :: int

definition GetSameKeyRetries :: "retry_config \<Rightarrow> int" where
  "GetSameKeyRetries c = (if rc_SameKeyRetries c \<le> 0 then 1 else rc_SameKeyRetries c)"

definition GetSameKeyBackoff :: "retry_config \<Rightarrow> duration" where
  "GetSameKeyBackoff c =
     (if rc_SameKeyBackoffSec c \<le> 0 then seconds 2 else wrap64 (seconds (rc_SameKeyBackoffSec c)))"

definition GetKeyRetries :: "retry_config \<Rightarrow> int" where
  "GetKeyRetries c = (if rc_KeyRetries c \<le> 0 then 2 else rc_KeyRetries c)"

definition GetProviderRetries :: "retry_config \<Rightarrow> int" where
  "GetProviderRetries c = (if rc_ProviderRetries c \<le> 0 then 1 else rc_ProviderRetries c)"

definition GetProviderBackoff :: "retry_config \<Rightarrow> duration" where
  "GetProviderBackoff c =
     (if rc_ProviderBackoffSec c \<le> 0 then seconds 2 else wrap64 (seconds (rc_ProviderBackoffSec c)))"

definition GetMaxTotalAttempts :: "retry_config \<Rightarrow> int" where
  "GetMaxTotalAttempts c = (if rc_MaxTotalAttempts c \<le> 0 then 5 else rc_MaxTotalAttempts c)"

lemma retry_getters_pos [simp]:
  "0 < GetSameKeyRetries c" "0 < GetKeyRetries c" "0 < GetProviderRetries c" "0 < GetMaxTotalAttempts c"
  by (simp_all add: GetSameKeyRetries_def GetKeyRetries_def GetProviderRetries_def GetMaxTotalAttempts_def)

record routing_config =
  rt_ModelMapping :: "string \<rightharpoonup> string"
  rt_Strategy :: string
  rt_DefaultProvider :: string
  rt_FailoverTimeout :: int
  rt_Debug :: bool
  rt_Retry :: retry_config

definition Routing_GetEffectiveStrategy :: "routing_config \<Rightarrow> string" where
  "Routing_GetEffectiveStrategy r = (if rt_Strategy r = '''' then ''failover'' else rt_Strategy r)"

definition GetFailoverTimeoutOption :: "routing_config \<Rightarrow> duration option" where
  "GetFailoverTimeoutOption r =
     (if rt_FailoverTimeout r \<le> 0 then None else Some (wrap64 (millis (rt_FailoverTimeout r))))"

definition IsDebugEnabled :: "routing_config \<Rightarrow> bool" where
  "IsDebugEnabled r = rt_Debug r"

section \<open>Server and authentication\<close>

record auth_config =
  au_APIKey :: string
  au_BearerSecret :: string
  au_AllowBearer :: bool
  au_AllowSubscription :: bool

record server_config =
  sv_Listen :: string
  sv_APIKey :: string
  sv_Auth :: auth_config
  sv_TimeoutMS :: int
  sv_MaxConcurrent :: int
  sv_MaxBodyBytes :: int
  sv_EnableHTTP2 :: bool

definition Auth_IsEnabled :: "auth_config \<Rightarrow> bool" where
  "Auth_IsEnabled a \<longleftrightarrow> au_APIKey a \<noteq> '''' \<or> au_AllowBearer a \<or> au_AllowSubscription a"

definition IsBearerEnabled :: "auth_config \<Rightarrow> bool" where
  "IsBearerEnabled a \<longleftrightarrow> au_AllowBearer a \<or> au_AllowSubscription a"

definition GetEffectiveAPIKey :: "server_config \<Rightarrow> string" where
  "GetEffectiveAPIKey s = (if au_APIKey (sv_Auth s) \<noteq> '''' then au_APIKey (sv_Auth s) else sv_APIKey s)"

definition GetTimeoutOption :: "server_config \<Rightarrow> duration option" where
  "GetTimeoutOption s = (if sv_TimeoutMS s \<le> 0 then None else Some (wrap64 (millis (sv_TimeoutMS s))))"

definition GetMaxConcurrentOption :: "server_config \<Rightarrow> int option" where
  "GetMaxConcurrentOption s = (if sv_MaxConcurrent s \<le> 0 then None else Some (sv_MaxConcurrent s))"

definition GetMaxBodyBytesOption :: "server_config \<Rightarrow> int option" where
  "GetMaxBodyBytesOption s = (if sv_MaxBodyBytes s \<le> 0 then None else Some (sv_MaxBodyBytes s))"

section \<open>Keys and providers\<close>

record config_key =
  ck_Key :: string
  ck_RPMLimit :: int
  ck_ITPMLimit :: int
  ck_OTPMLimit :: int
  ck_Priority :: int
  ck_Weight :: int
  ck_Enabled :: "bool option"
  ck_TPMLimit :: int

definition Key_IsEnabled :: "config_key \<Rightarrow> bool" where
  "Key_IsEnabled k = (case ck_Enabled k of None \<Rightarrow> True | Some b \<Rightarrow> b)"

definition GetEffectiveTPM :: "config_key \<Rightarrow> int \<times> int" where
  "GetEffectiveTPM k =
     (if ck_ITPMLimit k > 0 \<or> ck_OTPMLimit k > 0 then (ck_ITPMLimit k, ck_OTPMLimit k)
      else if ck_TPMLimit k > 0 then (ck_TPMLimit k div 2, ck_TPMLimit k div 2)
      else (0, 0))"

datatype key_error = ErrKeyRequired | InvalidPriorityError int | InvalidWeightError int

definition Key_Validate :: "config_key \<Rightarrow> key_error option" where
  "Key_Validate k =
     (if ck_Key k = '''' then Some ErrKeyRequired
      else if ck_Priority k < 0 \<or> ck_Priority k > 2 then Some (InvalidPriorityError (ck_Priority k))
      else if ck_Weight k < 0 then Some (InvalidWeightError (ck_Weight k))
      else None)"

definition limit_option :: "int \<Rightarrow> int option" where
  "limit_option n = (if n \<le> 0 then None else Some n)"

definition GetRPMLimitOption :: "config_key \<Rightarrow> int option" where
  "GetRPMLimitOption k = limit_option (ck_RPMLimit k)"

definition GetITPMLimitOption :: "config_key \<Rightarrow> int option" where
  "GetITPMLimitOption k = limit_option (ck_ITPMLimit k)"

definition GetOTPMLimitOption :: "config_key \<Rightarrow> int option" where
  "GetOTPMLimitOption k = limit_option (ck_OTPMLimit k)"

record pooling_config =
  po_Strategy :: string
  po_Enabled :: bool

record provider_config =
  pv_ModelMapping :: "string \<rightharpoonup> string"
  pv_AWSRegion :: string
  pv_GCPProjectID :: string
  pv_AzureAPIVersion :: string
  pv_Name :: string
  pv_Type :: string
  pv_BaseURL :: string
  pv_ResponsesURL :: string
  pv_AzureDeploymentID :: string
  pv_AWSAccessKeyID :: string
  pv_AzureResourceName :: string
  pv_AWSSecretAccessKey :: string
  pv_GCPRegion :: string
  pv_Keys :: "config_key list"
  pv_Models :: "string list"
  pv_Pooling :: pooling_config
  pv_Enabled :: bool
  pv_Zhipu :: bool
  pv_AuthMethod :: string
  pv_CooldownStrategy :: string
  pv_Priority :: int
  pv_Weight :: int

definition GetEffectivePriority :: "provider_config \<Rightarrow> int" where
  "GetEffectivePriority p = pv_Priority p"

definition GetEffectiveWeight :: "provider_config \<Rightarrow> int" where
  "GetEffectiveWeight p = (if pv_Weight p \<le> 0 then 1 else pv_Weight p)"

definition Provider_GetEffectiveStrategy :: "provider_config \<Rightarrow> string" where
  "Provider_GetEffectiveStrategy p =
     (if po_Strategy (pv_Pooling p) \<noteq> '''' then po_Strategy (pv_Pooling p) else ''least_loaded'')"

definition IsPoolingEnabled :: "provider_config \<Rightarrow> bool" where
  "IsPoolingEnabled p = (if po_Enabled (pv_Pooling p) then True else length (pv_Keys p) > 1)"

definition GetCooldownStrategy :: "provider_config \<Rightarrow> string" where
  "GetCooldownStrategy p =
     (if pv_CooldownStrategy p \<noteq> '''' then pv_CooldownStrategy p
      else if pv_Type p = ''zai'' then ''zai'' else ''generic'')"

definition GetAzureAPIVersion :: "provider_config \<Rightarrow> string" where
  "GetAzureAPIVersion p = (if pv_AzureAPIVersion p = '''' then ''2024-06-01'' else pv_AzureAPIVersion p)"

definition ValidateCloudConfig :: "provider_config \<Rightarrow> string option" where
  "ValidateCloudConfig p =
     (if pv_Type p = ''bedrock'' then
        (if pv_AWSRegion p = '''' then Some ''config: aws_region required for bedrock provider'' else None)
      else if pv_Type p = ''vertex'' then
        (if pv_GCPProjectID p = '''' then Some ''config: gcp_project_id required for vertex provider''
         else if pv_GCPRegion p = '''' then Some ''config: gcp_region required for vertex provider'' else None)
      else if pv_Type p = ''azure'' then
        (if pv_AzureResourceName p = '''' then Some ''config: azure_resource_name required for azure provider''
         else None)
      else None)"

section \<open>Logging and the whole configuration\<close>

record debug_options =
  do_LogRequestBody :: bool
  do_LogResponseHeaders :: bool
  do_LogTLSMetrics :: bool
  do_MaxBodyLogSize :: int

definition GetMaxBodyLogSize :: "debug_options \<Rightarrow> int" where
  "GetMaxBodyLogSize d = (if do_MaxBodyLogSize d \<le> 0 then 1000 else do_MaxBodyLogSize d)"

definition Debug_IsEnabled :: "debug_options \<Rightarrow> bool" where
  "Debug_IsEnabled d \<longleftrightarrow> do_LogRequestBody d \<or> do_LogResponseHeaders d \<or> do_LogTLSMetrics d"

definition GetMaxBodyLogSizeOption :: "debug_options \<Rightarrow> int option" where
  "GetMaxBodyLogSizeOption d = limit_option (do_MaxBodyLogSize d)"

record logging_config =
  lg_Level :: string
  lg_Format :: string
  lg_Output :: string
  lg_Pretty :: bool
  lg_DebugOptions :: debug_options

datatype log_level = DebugLevel | InfoLevel | WarnLevel | ErrorLevel

definition ParseLevel :: "logging_config \<Rightarrow> log_level" where
  "ParseLevel l =
     (let s = map to_lower (lg_Level l)
      in if s = ''debug'' then DebugLevel else if s = ''info'' then InfoLevel
         else if s = ''warn'' then WarnLevel else if s = ''error'' then ErrorLevel else InfoLevel)"

definition EnableAllDebugOptions :: "logging_config \<Rightarrow> logging_config" where
  "EnableAllDebugOptions l = l\<lparr>lg_Level := ''debug'',
     lg_DebugOptions := \<lparr>do_LogRequestBody = True, do_LogResponseHeaders = True, do_LogTLSMetrics = True,
       do_MaxBodyLogSize = 1000\<rparr>\<rparr>"

record config =
  cf_Providers :: "provider_config list"
  cf_OpenAIProviders :: "provider_config list"
  cf_Routing :: routing_config
  cf_Logging :: logging_config
  cf_Server :: server_config

fun find_provider :: "string \<Rightarrow> provider_config list \<Rightarrow> provider_config option" where
  "find_provider n [] = None"
| "find_provider n (p # ps) = (if pv_Name p = n then Some p else find_provider n ps)"

definition IsZhipuProvider :: "config \<Rightarrow> string \<Rightarrow> bool" where
  "IsZhipuProvider c n =
     (case find_provider n (cf_Providers c) of
        Some p \<Rightarrow> pv_Zhipu p
      | None \<Rightarrow> (case find_provider n (cf_OpenAIProviders c) of Some p \<Rightarrow> pv_Zhipu p | None \<Rightarrow> False))"

definition FindProviderCooldownStrategy :: "config \<Rightarrow> string \<Rightarrow> string" where
  "FindProviderCooldownStrategy c n =
     (case find_provider n (cf_Providers c) of
        Some p \<Rightarrow> GetCooldownStrategy p
      | None \<Rightarrow> (case find_provider n (cf_OpenAIProviders c) of
                   Some p \<Rightarrow> GetCooldownStrategy p | None \<Rightarrow> ''generic''))"

section \<open>The validator\<close>

text \<open>
  A collected error is the format string and its arguments; the rendering of \<open>%q\<close>, \<open>%s\<close> and \<open>%d\<close> by
  \<open>fmt.Sprintf\<close> is left symbolic.
\<close>

datatype fmt_arg = ArgS string | ArgI int | ArgPath string "fmt_arg list"

datatype verror = Verror string "fmt_arg list"

type_synonym verrors = "verror list"

definition Add :: "string \<Rightarrow> verrors \<Rightarrow> verrors" where
  "Add msg errs = errs @ [Verror msg []]"

definition Addf :: "string \<Rightarrow> fmt_arg list \<Rightarrow> verrors \<Rightarrow> verrors" where
  "Addf format args errs = errs @ [Verror format args]"

definition ToError :: "verrors \<Rightarrow> verrors option" where
  "ToError errs = (if errs \<noteq> [] then Some errs else None)"

definition validRoutingStrategies :: "string set" where
  "validRoutingStrategies = {'''', ''failover'', ''round_robin'', ''weighted_round_robin'', ''shuffle'',
     ''model_based'', ''least_loaded'', ''weighted_failover'', ''priority_weighted_failover''}"

definition validPoolingStrategies :: "string set" where
  "validPoolingStrategies = {'''', ''least_loaded'', ''round_robin'', ''random'', ''weighted''}"

definition validCooldownStrategies :: "string set" where
  "validCooldownStrategies = {'''', ''generic'', ''openai'', ''zai''}"

definition validProviderTypes :: "string set" where
  "validProviderTypes = {''anthropic'', ''openai'', ''zai'', ''minimax'', ''ollama'', ''bedrock'', ''vertex'', ''azure''}"

definition validLogLevels :: "string set" where
  "validLogLevels = {'''', ''debug'', ''info'', ''warn'', ''error''}"

definition validLogFormats :: "string set" where
  "validLogFormats = {'''', ''json'', ''console'', ''text'', ''pretty''}"

text \<open>
  \<open>net.SplitHostPort\<close> of the standard library: host and port around the last colon, with a host in
  brackets when it contains colons.
\<close>

definition last_index :: "char \<Rightarrow> string \<Rightarrow> nat option" where
  "last_index c s = (if c \<in> set s then Some (length s - 1 - length (takeWhile (\<lambda>x. x \<noteq> c) (rev s))) else None)"

definition first_index :: "char \<Rightarrow> string \<Rightarrow> nat option" where
  "first_index c s = (if c \<in> set s then Some (length (takeWhile (\<lambda>x. x \<noteq> c) s)) else None)"

definition split_host_port :: "string \<Rightarrow> (string \<times> string) option" where
  "split_host_port hp =
     (case last_index (CHR '':'') hp of
        None \<Rightarrow> None
      | Some i \<Rightarrow>
          if hp ! 0 = CHR ''['' then
            (case first_index (CHR '']'') hp of
               None \<Rightarrow> None
             | Some e \<Rightarrow>
                 if e + 1 \<noteq> i then None
                 else if CHR ''['' \<in> set (drop 1 hp) \<or> CHR '']'' \<in> set (drop (e + 1) hp) then None
                 else Some (take (e - 1) (drop 1 hp), drop (i + 1) hp))
          else
            (let host = take i hp
             in if CHR '':'' \<in> set host \<or> CHR ''['' \<in> set hp \<or> CHR '']'' \<in> set hp then None
                else Some (host, drop (i + 1) hp)))"

text \<open>\<open>net.ParseIP\<close> only decides whether the host is looked at as a name; it is a parameter.\<close>

definition validateListenAddress :: "(string \<Rightarrow> bool) \<Rightarrow> string \<Rightarrow> verrors \<Rightarrow> verrors" where
  "validateListenAddress parseIP addr errs =
     (case split_host_port addr of
        None \<Rightarrow> Addf ''server.listen must be in host:port format (got %q)'' [ArgS addr] errs
      | Some (host, port) \<Rightarrow>
          (let errs = (if host \<noteq> '''' \<and> \<not> parseIP host \<and> (\<exists>c \<in> set host. c \<in> {CHR '' '', CHR 0x09, CHR 0x0A})
                       then Add ''server.listen host contains invalid characters'' errs else errs)
           in if port = '''' then Add ''server.listen port is required'' errs else errs))"

definition validateServer :: "(string \<Rightarrow> bool) \<Rightarrow> config \<Rightarrow> verrors \<Rightarrow> verrors" where
  "validateServer parseIP cfg errs =
     (let s = cf_Server cfg;
          errs = (if sv_Listen s = '''' then Add ''server.listen is required'' errs
                  else validateListenAddress parseIP (sv_Listen s) errs);
          errs = (if sv_TimeoutMS s < 0 then Add ''server.timeout_ms must be >= 0'' errs else errs);
          errs = (if sv_MaxConcurrent s < 0 then Add ''server.max_concurrent must be >= 0'' errs else errs)
      in if sv_MaxBodyBytes s < 0 then Add ''server.max_body_bytes must be >= 0'' errs else errs)"

text \<open>The prefix of a message names the provider, or its index when it has no name.\<close>

definition path_of :: "string \<Rightarrow> string \<Rightarrow> provider_config \<Rightarrow> nat \<Rightarrow> string \<Rightarrow> fmt_arg" where
  "path_of named indexed p index field =
     (if pv_Name p \<noteq> '''' then ArgPath named [ArgS (pv_Name p), ArgS field]
      else ArgPath indexed [ArgI (int index), ArgS field])"

definition validateCloudProviderConfig :: "provider_config \<Rightarrow> (string \<Rightarrow> fmt_arg) \<Rightarrow> verrors \<Rightarrow> verrors" where
  "validateCloudProviderConfig p pfx errs =
     (if pv_Type p = ''bedrock'' then
        (if pv_AWSRegion p = '''' then Addf ''%s is required for bedrock provider'' [pfx ''aws_region''] errs else errs)
      else if pv_Type p = ''vertex'' then
        (let errs = (if pv_GCPProjectID p = ''''
                     then Addf ''%s is required for vertex provider'' [pfx ''gcp_project_id''] errs else errs)
         in if pv_GCPRegion p = '''' then Addf ''%s is required for vertex provider'' [pfx ''gcp_region''] errs
            else errs)
      else if pv_Type p = ''azure'' then
        (if pv_AzureResourceName p = ''''
         then Addf ''%s is required for azure provider'' [pfx ''azure_resource_name''] errs else errs)
      else errs)"

definition validateProviderKey :: "string \<Rightarrow> nat \<Rightarrow> config_key \<Rightarrow> verrors \<Rightarrow> verrors" where
  "validateProviderKey providerName index k errs =
     (if ck_Key k = '''' then
        Addf ''%s is required''
          [if providerName \<noteq> '''' then ArgPath ''provider[%s].keys[%d].%s'' [ArgS providerName, ArgI (int index), ArgS ''key'']
           else ArgPath ''keys[%d].%s'' [ArgI (int index), ArgS ''key'']] errs
      else errs)"

fun validate_keys :: "string \<Rightarrow> nat \<Rightarrow> config_key list \<Rightarrow> verrors \<Rightarrow> verrors" where
  "validate_keys n i [] errs = errs"
| "validate_keys n i (k # ks) errs = validate_keys n (Suc i) ks (validateProviderKey n i k errs)"

text \<open>What the two provider validators share after the name, in order.\<close>

definition validate_type :: "provider_config \<Rightarrow> (string \<Rightarrow> fmt_arg) \<Rightarrow> verrors \<Rightarrow> verrors" where
  "validate_type p pfx errs =
     (if pv_Type p = '''' then Addf ''%s is required'' [pfx ''type''] errs
      else if pv_Type p \<notin> validProviderTypes
        then Addf ''%s is invalid (got %q, valid: anthropic, openai, zai, ollama, bedrock, vertex, azure)''
               [pfx ''type'', ArgS (pv_Type p)] errs
      else errs)"

definition validate_rest :: "provider_config \<Rightarrow> (string \<Rightarrow> fmt_arg) \<Rightarrow> verrors \<Rightarrow> verrors" where
  "validate_rest p pfx errs =
     (let errs = validateCloudProviderConfig p pfx errs;
          errs = validate_keys (pv_Name p) 0 (pv_Keys p) errs;
          errs = (if po_Strategy (pv_Pooling p) \<noteq> '''' \<and> po_Strategy (pv_Pooling p) \<notin> validPoolingStrategies
                  then Addf ''%s is invalid (got %q)'' [pfx ''pooling.strategy'', ArgS (po_Strategy (pv_Pooling p))] errs
                  else errs);
          errs = (if pv_CooldownStrategy p \<notin> validCooldownStrategies
                  then Addf ''%s is invalid (got %q, valid: generic, openai, zai)''
                         [pfx ''cooldown_strategy'', ArgS (pv_CooldownStrategy p)] errs
                  else errs);
          errs = (if pv_Priority p < 0
                  then Addf ''%s must be >= 0 (got %d)'' [pfx ''priority'', ArgI (pv_Priority p)] errs else errs)
      in if pv_Weight p < 0 then Addf ''%s must be >= 0 (got %d)'' [pfx ''weight'', ArgI (pv_Weight p)] errs else errs)"

definition validateProvider ::
    "provider_config \<Rightarrow> nat \<Rightarrow> string set \<times> verrors \<Rightarrow> string set \<times> verrors" where
  "validateProvider p index st =
     (let (seen, errs) = st;
          pfx = path_of ''provider[%s].%s'' ''providers[%d].%s'' p index;
          (seen, errs) =
            (if pv_Name p = '''' then (seen, Addf ''providers[%d].name is required'' [ArgI (int index)] errs)
             else (insert (pv_Name p) seen,
                   if pv_Name p \<in> seen then Addf ''duplicate provider name: %s'' [ArgS (pv_Name p)] errs else errs))
      in (seen, validate_rest p pfx (validate_type p pfx errs)))"

definition validateOpenAIProvider ::
    "provider_config \<Rightarrow> nat \<Rightarrow> string set \<times> verrors \<Rightarrow> string set \<times> verrors" where
  "validateOpenAIProvider p index st =
     (let (seen, errs) = st;
          pfx = path_of ''openai_provider[%s].%s'' ''openai_providers[%d].%s'' p index;
          (seen, errs) =
            (if pv_Name p = '''' then (seen, Addf ''openai_providers[%d].name is required'' [ArgI (int index)] errs)
             else (insert (pv_Name p) seen,
                   if pv_Name p \<in> seen then Addf ''duplicate openai provider name: %s'' [ArgS (pv_Name p)] errs else errs));
          errs = validate_type p pfx errs;
          errs = (if pv_Type p = ''openai'' \<and> pv_BaseURL p = ''''
                  then Addf ''%s is required for openai provider'' [pfx ''base_url''] errs else errs)
      in (seen, validate_rest p pfx errs))"

fun validate_all ::
    "(provider_config \<Rightarrow> nat \<Rightarrow> string set \<times> verrors \<Rightarrow> string set \<times> verrors) \<Rightarrow> nat \<Rightarrow>
     provider_config list \<Rightarrow> string set \<times> verrors \<Rightarrow> string set \<times> verrors" where
  "validate_all v i [] st = st"
| "validate_all v i (p # ps) st = validate_all v (Suc i) ps (v p i st)"

definition validateProviders :: "config \<Rightarrow> verrors \<Rightarrow> verrors" where
  "validateProviders cfg errs = snd (validate_all validateProvider 0 (cf_Providers cfg) ({}, errs))"

definition validateOpenAIProviders :: "config \<Rightarrow> verrors \<Rightarrow> verrors" where
  "validateOpenAIProviders cfg errs = snd (validate_all validateOpenAIProvider 0 (cf_OpenAIProviders cfg) ({}, errs))"

definition validateRouting :: "config \<Rightarrow> verrors \<Rightarrow> verrors" where
  "validateRouting cfg errs =
     (let r = cf_Routing cfg;
          errs = (if rt_Strategy r \<notin> validRoutingStrategies
                  then Addf ''routing.strategy is invalid (got %q, valid: failover, round_robin, weighted_round_robin, shuffle, model_based, least_loaded, weighted_failover, priority_weighted_failover)''
                         [ArgS (rt_Strategy r)] errs else errs);
          errs = (if rt_Strategy r = ''model_based'' \<and> rt_ModelMapping r = Map.empty
                  then Add ''routing.model_mapping is required when strategy is model_based'' errs else errs)
      in if rt_FailoverTimeout r < 0 then Add ''routing.failover_timeout must be >= 0'' errs else errs)"

definition validateLogging :: "config \<Rightarrow> verrors \<Rightarrow> verrors" where
  "validateLogging cfg errs =
     (let l = cf_Logging cfg;
          errs = (if lg_Level l \<notin> validLogLevels
                  then Addf ''logging.level is invalid (got %q, valid: debug, info, warn, error)'' [ArgS (lg_Level l)] errs
                  else errs);
          errs = (if lg_Format l \<notin> validLogFormats
                  then Addf ''logging.format is invalid (got %q, valid: json, console, text, pretty)'' [ArgS (lg_Format l)] errs
                  else errs)
      in if do_MaxBodyLogSize (lg_DebugOptions l) < 0
         then Add ''logging.debug_options.max_body_log_size must be >= 0'' errs else errs)"

definition Validate :: "(string \<Rightarrow> bool) \<Rightarrow> config \<Rightarrow> verrors option" where
  "Validate parseIP c =
     (let errs = validateServer parseIP c [];
          errs = validateProviders c errs;
          errs = validateOpenAIProviders c errs;
          errs = validateRouting c errs;
          errs = validateLogging c errs
      in ToError errs)"

section \<open>What the validator accepts\<close>

lemma Add_nonempty [simp]: "Add m errs \<noteq> []" "Addf f a errs \<noteq> []"
  by (simp_all add: Add_def Addf_def)

definition listen_ok :: "(string \<Rightarrow> bool) \<Rightarrow> string \<Rightarrow> bool" where
  "listen_ok parseIP addr = (case split_host_port addr of None \<Rightarrow> False
     | Some (host, port) \<Rightarrow> port \<noteq> '''' \<and>
         (parseIP host \<or> set host \<inter> {CHR '' '', CHR 0x09, CHR 0x0A} = {}))"

definition server_ok :: "(string \<Rightarrow> bool) \<Rightarrow> server_config \<Rightarrow> bool" where
  "server_ok parseIP s \<longleftrightarrow> sv_Listen s \<noteq> '''' \<and> listen_ok parseIP (sv_Listen s) \<and>
     0 \<le> sv_TimeoutMS s \<and> 0 \<le> sv_MaxConcurrent s \<and> 0 \<le> sv_MaxBodyBytes s"

definition cloud_ok :: "provider_config \<Rightarrow> bool" where
  "cloud_ok p \<longleftrightarrow> (pv_Type p = ''bedrock'' \<longrightarrow> pv_AWSRegion p \<noteq> '''') \<and>
     (pv_Type p = ''vertex'' \<longrightarrow> pv_GCPProjectID p \<noteq> '''' \<and> pv_GCPRegion p \<noteq> '''') \<and>
     (pv_Type p = ''azure'' \<longrightarrow> pv_AzureResourceName p \<noteq> '''')"

definition provider_ok :: "provider_config \<Rightarrow> bool" where
  "provider_ok p \<longleftrightarrow> pv_Name p \<noteq> '''' \<and> pv_Type p \<in> validProviderTypes \<and> cloud_ok p \<and>
     (\<forall>k \<in> set (pv_Keys p). ck_Key k \<noteq> '''') \<and> po_Strategy (pv_Pooling p) \<in> validPoolingStrategies \<and>
     pv_CooldownStrategy p \<in> validCooldownStrategies \<and> 0 \<le> pv_Priority p \<and> 0 \<le> pv_Weight p"

definition routing_ok :: "routing_config \<Rightarrow> bool" where
  "routing_ok r \<longleftrightarrow> rt_Strategy r \<in> validRoutingStrategies \<and>
     (rt_Strategy r = ''model_based'' \<longrightarrow> rt_ModelMapping r \<noteq> Map.empty) \<and> 0 \<le> rt_FailoverTimeout r"

definition logging_ok :: "logging_config \<Rightarrow> bool" where
  "logging_ok l \<longleftrightarrow> lg_Level l \<in> validLogLevels \<and> lg_Format l \<in> validLogFormats \<and>
     0 \<le> do_MaxBodyLogSize (lg_DebugOptions l)"

definition valid_config :: "(string \<Rightarrow> bool) \<Rightarrow> config \<Rightarrow> bool" where
  "valid_config parseIP c \<longleftrightarrow> server_ok parseIP (cf_Server c) \<and>
     (\<forall>p \<in> set (cf_Providers c). provider_ok p) \<and> distinct (map pv_Name (cf_Providers c)) \<and>
     (\<forall>p \<in> set (cf_OpenAIProviders c). provider_ok p \<and> (pv_Type p = ''openai'' \<longrightarrow> pv_BaseURL p \<noteq> '''')) \<and>
     distinct (map pv_Name (cf_OpenAIProviders c)) \<and> routing_ok (cf_Routing c) \<and> logging_ok (cf_Logging c)"

lemma validateListenAddress_Nil:
  "validateListenAddress parseIP a errs = [] \<longleftrightarrow> errs = [] \<and> listen_ok parseIP a"
proof (cases "split_host_port a")
  case (Some hp)
  obtain host port where hp: "hp = (host, port)" by fastforce
  show ?thesis
    by (cases "host = ''''") (auto simp: Some hp validateListenAddress_def listen_ok_def Let_def)
qed (simp add: validateListenAddress_def listen_ok_def)

lemma validateServer_Nil: "validateServer parseIP c errs = [] \<longleftrightarrow> errs = [] \<and> server_ok parseIP (cf_Server c)"
  by (auto simp: validateServer_def server_ok_def validateListenAddress_Nil Let_def not_less)

lemma validateCloudProviderConfig_Nil:
  "validateCloudProviderConfig p pfx errs = [] \<longleftrightarrow> errs = [] \<and> cloud_ok p"
  by (auto simp: validateCloudProviderConfig_def cloud_ok_def Let_def)

lemma validate_keys_Nil:
  "validate_keys n i ks errs = [] \<longleftrightarrow> errs = [] \<and> (\<forall>k \<in> set ks. ck_Key k \<noteq> '''')"
  by (induction n i ks errs rule: validate_keys.induct) (auto simp: validateProviderKey_def)

lemma validate_type_Nil: "validate_type p pfx errs = [] \<longleftrightarrow> errs = [] \<and> pv_Type p \<in> validProviderTypes"
  by (auto simp: validate_type_def validProviderTypes_def)

lemma validate_rest_Nil:
  "validate_rest p pfx errs = [] \<longleftrightarrow> errs = [] \<and> cloud_ok p \<and> (\<forall>k \<in> set (pv_Keys p). ck_Key k \<noteq> '''') \<and>
     po_Strategy (pv_Pooling p) \<in> validPoolingStrategies \<and>
     pv_CooldownStrategy p \<in> validCooldownStrategies \<and> 0 \<le> pv_Priority p \<and> 0 \<le> pv_Weight p"
proof -
  have "'''' \<in> validPoolingStrategies" by (simp add: validPoolingStrategies_def)
  then show ?thesis
    by (auto simp: validate_rest_def validateCloudProviderConfig_Nil validate_keys_Nil Let_def not_less)
qed

lemma validateProvider_Nil:
  "snd (validateProvider p i (seen, errs)) = [] \<longleftrightarrow> errs = [] \<and> provider_ok p \<and> pv_Name p \<notin> seen"
  "fst (validateProvider p i (seen, errs)) = (if pv_Name p = '''' then seen else insert (pv_Name p) seen)"
  by (auto simp: validateProvider_def validate_rest_Nil validate_type_Nil provider_ok_def Let_def split: prod.splits)

lemma validateOpenAIProvider_Nil:
  "snd (validateOpenAIProvider p i (seen, errs)) = [] \<longleftrightarrow>
     errs = [] \<and> provider_ok p \<and> (pv_Type p = ''openai'' \<longrightarrow> pv_BaseURL p \<noteq> '''') \<and> pv_Name p \<notin> seen"
  "fst (validateOpenAIProvider p i (seen, errs)) = (if pv_Name p = '''' then seen else insert (pv_Name p) seen)"
  by (auto simp: validateOpenAIProvider_def validate_rest_Nil validate_type_Nil provider_ok_def Let_def split: prod.splits)

lemma validate_all_Nil:
  assumes "\<And>p i seen errs. snd (v p i (seen, errs)) = [] \<longleftrightarrow> errs = [] \<and> Q p \<and> pv_Name p \<notin> seen"
    and "\<And>p i seen errs. fst (v p i (seen, errs)) = (if pv_Name p = '''' then seen else insert (pv_Name p) seen)"
    and "\<And>p. Q p \<Longrightarrow> pv_Name p \<noteq> ''''"
  shows "snd (validate_all v i ps (seen, errs)) = [] \<longleftrightarrow>
    errs = [] \<and> (\<forall>p \<in> set ps. Q p) \<and> distinct (map pv_Name ps) \<and> set (map pv_Name ps) \<inter> seen = {}"
proof (induction ps arbitrary: i seen errs)
  case Nil
  then show ?case by simp
next
  case (Cons p ps)
  obtain seen' errs' where v: "v p i (seen, errs) = (seen', errs')" by fastforce
  have "errs' = [] \<longleftrightarrow> errs = [] \<and> Q p \<and> pv_Name p \<notin> seen"
    "seen' = (if pv_Name p = '''' then seen else insert (pv_Name p) seen)"
    using assms(1,2) [of p i seen errs] by (simp_all add: v)
  then show ?case
    using Cons.IH [of "Suc i" seen' errs'] assms(3) [of p] by (auto simp: v)
qed

lemma validateRouting_Nil: "validateRouting c errs = [] \<longleftrightarrow> errs = [] \<and> routing_ok (cf_Routing c)"
  by (auto simp: validateRouting_def routing_ok_def Let_def not_less)

lemma validateLogging_Nil: "validateLogging c errs = [] \<longleftrightarrow> errs = [] \<and> logging_ok (cf_Logging c)"
  by (auto simp: validateLogging_def logging_ok_def Let_def not_less)

lemma validateProviders_Nil: "validateProviders c errs = [] \<longleftrightarrow> errs = [] \<and>
    (\<forall>p \<in> set (cf_Providers c). provider_ok p) \<and> distinct (map pv_Name (cf_Providers c))"
  using validate_all_Nil [of validateProvider provider_ok 0 "cf_Providers c" "{}" errs]
  by (simp add: validateProviders_def validateProvider_Nil) (simp add: provider_ok_def)

lemma validateOpenAIProviders_Nil: "validateOpenAIProviders c errs = [] \<longleftrightarrow> errs = [] \<and>
    (\<forall>p \<in> set (cf_OpenAIProviders c). provider_ok p \<and> (pv_Type p = ''openai'' \<longrightarrow> pv_BaseURL p \<noteq> '''')) \<and>
    distinct (map pv_Name (cf_OpenAIProviders c))"
  using validate_all_Nil [of validateOpenAIProvider
      "\<lambda>p. provider_ok p \<and> (pv_Type p = ''openai'' \<longrightarrow> pv_BaseURL p \<noteq> '''')" 0 "cf_OpenAIProviders c" "{}" errs]
  by (simp add: validateOpenAIProviders_def validateOpenAIProvider_Nil conj_assoc) (auto simp: provider_ok_def)


end
