(* ===== verification/Circuit_Health.thy ===== *)
theory Circuit_Health
  imports Config "HOL-Library.Word"
begin

text \<open>
  Health tracking (\<open>internal/health\<close>): the circuit-breaker wrapper, the tracker with one breaker per
  provider, and the periodic checker. The breaker itself is the third-party package
  \<open>sony/gobreaker\<close>: a record of parameters whose documented behaviour is \<open>breaker_ok\<close>.
\<close>

section \<open>Configuration\<close>

record breaker_config =
  bc_OpenDurationMS :: int
  bc_FailureThreshold :: "32 word"
  bc_HalfOpenProbes :: "32 word"

definition GetFailureThreshold :: "breaker_config \<Rightarrow> 32 word" where
  "GetFailureThreshold c = (if bc_FailureThreshold c = 0 then 5 else bc_FailureThreshold c)"

definition GetOpenDuration :: "breaker_config \<Rightarrow> duration" where
  "GetOpenDuration c = (if bc_OpenDurationMS c \<le> 0 then millis 30000 else wrap64 (millis (bc_OpenDurationMS c)))"

definition GetHalfOpenProbes :: "breaker_config \<Rightarrow> 32 word" where
  "GetHalfOpenProbes c = (if bc_HalfOpenProbes c = 0 then 3 else bc_HalfOpenProbes c)"

record check_config =
  hc_Enabled :: "bool option"
  hc_IntervalMS :: int

definition GetInterval :: "check_config \<Rightarrow> duration" where
  "GetInterval c = (if hc_IntervalMS c \<le> 0 then millis 10000 else wrap64 (millis (hc_IntervalMS c)))"

definition Check_IsEnabled :: "check_config \<Rightarrow> bool" where
  "Check_IsEnabled c = (case hc_Enabled c of None \<Rightarrow> True | Some b \<Rightarrow> b)"

section \<open>The circuit breaker\<close>

datatype breaker_state = StateClosed | StateHalfOpen | StateOpen

text \<open>The fields of \<open>gobreaker.Settings\<close> the program sets; the counts given to \<open>ReadyToTrip\<close> are the consecutive failures.\<close>

record settings =
  gs_MaxRequests :: nat
  gs_Timeout :: duration
  gs_ReadyToTrip :: "nat \<Rightarrow> bool"
  gs_IsSuccessful :: "go_error option \<Rightarrow> bool"

text \<open>
  \<open>TwoStepCircuitBreaker\<close>: \<open>Allow\<close> either fails or returns the callback \<open>done\<close>, which reports the outcome of the
  request; \<open>State\<close> reads the state. Both look at the clock.
\<close>

record 'b gobreaker =
  gb_New :: "settings \<Rightarrow> 'b"
  gb_Allow :: "go_time \<Rightarrow> 'b \<Rightarrow> bool \<times> 'b"
  gb_done :: "go_time \<Rightarrow> go_error option \<Rightarrow> 'b \<Rightarrow> 'b"
  gb_State :: "go_time \<Rightarrow> 'b \<Rightarrow> breaker_state"

definition NewCircuitBreaker :: "'b gobreaker \<Rightarrow> breaker_config \<Rightarrow> 'b" where
  "NewCircuitBreaker GB cfg =
     (let maxRequests = GetHalfOpenProbes cfg;
          failureLimit = GetFailureThreshold cfg
      in gb_New GB
           \<lparr>gs_MaxRequests = unat maxRequests,
            gs_Timeout = GetOpenDuration cfg,
            gs_ReadyToTrip = (\<lambda>consecutiveFailures. unat failureLimit \<le> consecutiveFailures),
            gs_IsSuccessful = (\<lambda>err. case err of None \<Rightarrow> True | Some e \<Rightarrow> errors_is e Canceled)\<rparr>)"

definition ReportSuccess :: "'b gobreaker \<Rightarrow> go_time \<Rightarrow> 'b \<Rightarrow> bool \<times> 'b" where
  "ReportSuccess GB now c =
     (let (allowed, c) = gb_Allow GB now c
      in if \<not> allowed then (False, c) else (True, gb_done GB now None c))"

definition ReportFailure :: "'b gobreaker \<Rightarrow> go_time \<Rightarrow> go_error option \<Rightarrow> 'b \<Rightarrow> bool \<times> 'b" where
  "ReportFailure GB now err c =
     (let (allowed, c) = gb_Allow GB now c
      in if \<not> allowed then (False, c) else (True, gb_done GB now err c))"

definition ShouldCountAsFailure :: "int \<Rightarrow> go_error option \<Rightarrow> bool" where
  "ShouldCountAsFailure statusCode err =
     (case err of
        Some e \<Rightarrow> \<not> errors_is e Canceled
      | None \<Rightarrow> statusCode \<ge> 500 \<or> statusCode = 429 \<or> statusCode = 403)"

section \<open>The tracker\<close>

record 'b tracker =
  tk_circuits :: "string \<rightharpoonup> 'b"
  tk_config :: breaker_config

definition NewTracker :: "breaker_config \<Rightarrow> 'b tracker" where
  "NewTracker cfg = \<lparr>tk_circuits = Map.empty, tk_config = cfg\<rparr>"

definition Tracker_Reset :: "breaker_config \<Rightarrow> 'b tracker \<Rightarrow> 'b tracker" where
  "Tracker_Reset cfg t = t\<lparr>tk_config := cfg, tk_circuits := Map.empty\<rparr>"

definition GetOrCreateCircuit :: "'b gobreaker \<Rightarrow> string \<Rightarrow> 'b tracker \<Rightarrow> 'b \<times> 'b tracker" where
  "GetOrCreateCircuit GB n t =
     (case tk_circuits t n of
        Some b \<Rightarrow> (b, t)
      | None \<Rightarrow> (let b = NewCircuitBreaker GB (tk_config t)
                 in (b, t\<lparr>tk_circuits := (tk_circuits t)(n \<mapsto> b)\<rparr>)))"

text \<open>What the closure of \<open>IsHealthyFunc\<close> answers; it may create the circuit.\<close>

definition IsHealthyFunc :: "'b gobreaker \<Rightarrow> go_time \<Rightarrow> string \<Rightarrow> 'b tracker \<Rightarrow> bool \<times> 'b tracker" where
  "IsHealthyFunc GB now n t =
     (let (b, t) = GetOrCreateCircuit GB n t in (gb_State GB now b \<noteq> StateOpen, t))"

definition Tracker_GetState :: "'b gobreaker \<Rightarrow> go_time \<Rightarrow> string \<Rightarrow> 'b tracker \<Rightarrow> breaker_state" where
  "Tracker_GetState GB now n t =
     (case tk_circuits t n of None \<Rightarrow> StateClosed | Some b \<Rightarrow> gb_State GB now b)"

definition RecordSuccess :: "'b gobreaker \<Rightarrow> go_time \<Rightarrow> string \<Rightarrow> 'b tracker \<Rightarrow> 'b tracker" where
  "RecordSuccess GB now n t =
     (let (b, t) = GetOrCreateCircuit GB n t
      in t\<lparr>tk_circuits := (tk_circuits t)(n \<mapsto> snd (ReportSuccess GB now b))\<rparr>)"

definition RecordFailure :: "'b gobreaker \<Rightarrow> go_time \<Rightarrow> string \<Rightarrow> go_error option \<Rightarrow> 'b tracker \<Rightarrow> 'b tracker" where
  "RecordFailure GB now n err t =
     (let (b, t) = GetOrCreateCircuit GB n t
      in t\<lparr>tk_circuits := (tk_circuits t)(n \<mapsto> snd (ReportFailure GB now err b))\<rparr>)"

definition AllStates :: "'b gobreaker \<Rightarrow> go_time \<Rightarrow> 'b tracker \<Rightarrow> string \<rightharpoonup> breaker_state" where
  "AllStates GB now t = (\<lambda>n. map_option (gb_State GB now) (tk_circuits t n))"

section \<open>The checker\<close>

text \<open>
  A registered check answers with nil or an error; \<open>probe n\<close> is what the check of provider \<open>n\<close> answers now. The
  checks are a Go map, iterated in an order that is an argument.
\<close>

definition check_provider ::
    "'b gobreaker \<Rightarrow> go_time \<Rightarrow> (string \<Rightarrow> go_error option) \<Rightarrow> string \<Rightarrow> 'b tracker \<Rightarrow> 'b tracker" where
  "check_provider GB now probe n t =
     (if Tracker_GetState GB now n t \<noteq> StateOpen then t
      else case probe n of
             Some err \<Rightarrow> t
           | None \<Rightarrow> RecordSuccess GB now n t)"

definition checkAllProviders ::
    "'b gobreaker \<Rightarrow> go_time \<Rightarrow> (string \<Rightarrow> go_error option) \<Rightarrow> string list \<Rightarrow> 'b tracker \<Rightarrow> 'b tracker" where
  "checkAllProviders GB now probe names t = fold (check_provider GB now probe) names t"

datatype health_check = HTTPHealthCheck string string string | NoOpHealthCheck string

text \<open>
  \<open>url.Parse\<close> gives the host (with the port if the URL has one) and the path, or fails.
\<close>

definition NewHTTPHealthCheck ::
    "(string \<Rightarrow> (string \<times> string) option) \<Rightarrow> string \<Rightarrow> string \<Rightarrow> health_check option" where
  "NewHTTPHealthCheck parseURL n checkURL =
     (case parseURL checkURL of
        None \<Rightarrow> None
      | Some (host, path) \<Rightarrow>
          if host = '''' then None
          else Some (HTTPHealthCheck n host (if path = '''' then ''/'' else path)))"

definition NewProviderHealthCheck ::
    "(string \<Rightarrow> (string \<times> string) option) \<Rightarrow> string \<Rightarrow> string \<Rightarrow> health_check" where
  "NewProviderHealthCheck parseURL n baseURL =
     (if baseURL = '''' then NoOpHealthCheck n
      else case NewHTTPHealthCheck parseURL n baseURL of
             None \<Rightarrow> NoOpHealthCheck n
           | Some c \<Rightarrow> c)"

text \<open>
  The network of a check: the dial to an address, which needs a port, and the first bytes of the
  response to the request line, or an error.
\<close>

record network =
  nw_dial :: "string \<Rightarrow> go_error option"
  nw_exchange :: "string \<Rightarrow> string \<Rightarrow> go_error + string"

definition dial_needs_port :: "network \<Rightarrow> bool" where
  "dial_needs_port net \<longleftrightarrow> (\<forall>addr. split_host_port addr = None \<longrightarrow> nw_dial net addr \<noteq> None)"

fun health_Check :: "network \<Rightarrow> health_check \<Rightarrow> go_error option" where
  "health_Check net (NoOpHealthCheck n) = None"
| "health_Check net (HTTPHealthCheck n host path) =
     (case nw_dial net host of
        Some e \<Rightarrow> Some (Wrapped ''health check connection'' e)
      | None \<Rightarrow>
          (case nw_exchange net host (''GET '' @ path @ '' HTTP/1.1'') of
             Inl e \<Rightarrow> Some (Wrapped ''failed to read response'' e)
           | Inr resp \<Rightarrow>
               (let buf = take 12 (resp @ replicate 12 (CHR 0x00))
                in if drop 9 buf = ''200'' then None else Some (OtherError (''health check failed: '' @ buf)))))"

section \<open>The documented behaviour of the breaker\<close>

text \<open>
  A breaker is closed with a number of consecutive failures, open until a time, or half open with the requests
  let through and the successes seen.
\<close>

datatype view = VClosed nat | VOpen go_time | VHalf nat nat

text \<open>Reading the clock turns an expired open breaker into a half-open one.\<close>

fun view_at :: "go_time \<Rightarrow> view \<Rightarrow> view" where
  "view_at now (VOpen expiry) = (if expiry < now then VHalf 0 0 else VOpen expiry)"
| "view_at now v = v"

fun view_state :: "view \<Rightarrow> breaker_state" where
  "view_state (VClosed n) = StateClosed"
| "view_state (VOpen expiry) = StateOpen"
| "view_state (VHalf n m) = StateHalfOpen"

fun view_allow :: "settings \<Rightarrow> view \<Rightarrow> view option" where
  "view_allow st (VClosed n) = Some (VClosed n)"
| "view_allow st (VOpen expiry) = None"
| "view_allow st (VHalf n m) = (if n < gs_MaxRequests st then Some (VHalf (n + 1) m) else None)"

fun view_done :: "settings \<Rightarrow> go_time \<Rightarrow> go_error option \<Rightarrow> view \<Rightarrow> view" where
  "view_done st now err (VClosed n) =
     (if gs_IsSuccessful st err then VClosed 0
      else if gs_ReadyToTrip st (n + 1) then VOpen (now + gs_Timeout st) else VClosed (n + 1))"
| "view_done st now err (VOpen expiry) = VOpen expiry"
| "view_done st now err (VHalf n m) =
     (if gs_IsSuccessful st err
      then (if gs_MaxRequests st \<le> m + 1 then VClosed 0 else VHalf n (m + 1))
      else VOpen (now + gs_Timeout st))"

text \<open>
  The contract: \<open>view b\<close> is what the documentation says about the breaker \<open>b\<close>, created with the settings
  \<open>set_of b\<close>, and every operation behaves as documented.
\<close>

definition breaker_ok :: "'b gobreaker \<Rightarrow> ('b \<Rightarrow> settings) \<Rightarrow> ('b \<Rightarrow> view) \<Rightarrow> bool" where
  "breaker_ok GB set_of view_of \<longleftrightarrow>
     (\<forall>st. view_of (gb_New GB st) = VClosed 0 \<and> set_of (gb_New GB st) = st) \<and>
     (\<forall>now b. gb_State GB now b = view_state (view_at now (view_of b))) \<and>
     (\<forall>now b. case view_allow (set_of b) (view_at now (view_of b)) of
        None \<Rightarrow> \<not> fst (gb_Allow GB now b) \<and> view_of (snd (gb_Allow GB now b)) = view_at now (view_of b)
      | Some v \<Rightarrow> fst (gb_Allow GB now b) \<and> view_of (snd (gb_Allow GB now b)) = v) \<and>
     (\<forall>now b. set_of (snd (gb_Allow GB now b)) = set_of b) \<and>
     (\<forall>now err b. view_of (gb_done GB now err b) = view_done (set_of b) now err (view_at now (view_of b)) \<and>
        set_of (gb_done GB now err b) = set_of b)"

text \<open>An instance, for the witnesses: the documented machine itself.\<close>

definition ref_breaker :: "(settings \<times> view) gobreaker" where
  "ref_breaker = \<lparr>gb_New = (\<lambda>st. (st, VClosed 0)),
     gb_Allow = (\<lambda>now (st, v). case view_allow st (view_at now v) of
        None \<Rightarrow> (False, (st, view_at now v)) | Some v' \<Rightarrow> (True, (st, v'))),
     gb_done = (\<lambda>now err (st, v). (st, view_done st now err (view_at now v))),
     gb_State = (\<lambda>now (st, v). view_state (view_at now v))\<rparr>"

lemma ref_breaker_ok [simp]: "breaker_ok ref_breaker fst snd"
  by (auto simp: breaker_ok_def ref_breaker_def split: option.splits)

lemma breaker_new:
  "breaker_ok GB set_of view_of \<Longrightarrow> view_of (gb_New GB st) = VClosed 0 \<and> set_of (gb_New GB st) = st"
  unfolding breaker_ok_def by blast

lemma breaker_state_view:
  "breaker_ok GB set_of view_of \<Longrightarrow> gb_State GB now b = view_state (view_at now (view_of b))"
  unfolding breaker_ok_def by blast

lemma breaker_allow:
  assumes "breaker_ok GB set_of view_of"
  shows "case view_allow (set_of b) (view_at now (view_of b)) of
      None \<Rightarrow> \<not> fst (gb_Allow GB now b) \<and> view_of (snd (gb_Allow GB now b)) = view_at now (view_of b)
    | Some v \<Rightarrow> fst (gb_Allow GB now b) \<and> view_of (snd (gb_Allow GB now b)) = v"
  using assms unfolding breaker_ok_def by (elim conjE) (erule allE, erule allE, assumption)

lemma breaker_allow_None:
  "breaker_ok GB set_of view_of \<Longrightarrow> view_allow (set_of b) (view_at now (view_of b)) = None \<Longrightarrow>
   \<not> fst (gb_Allow GB now b) \<and> view_of (snd (gb_Allow GB now b)) = view_at now (view_of b)"
  using breaker_allow [where GB = GB and set_of = set_of and view_of = view_of and b = b and now = now] by simp

lemma breaker_allow_Some:
  "breaker_ok GB set_of view_of \<Longrightarrow> view_allow (set_of b) (view_at now (view_of b)) = Some v \<Longrightarrow>
   fst (gb_Allow GB now b) \<and> view_of (snd (gb_Allow GB now b)) = v"
  using breaker_allow [where GB = GB and set_of = set_of and view_of = view_of and b = b and now = now] by simp

lemma breaker_allow_set: "breaker_ok GB set_of view_of \<Longrightarrow> set_of (snd (gb_Allow GB now b)) = set_of b"
  unfolding breaker_ok_def by blast

lemma breaker_done:
  "breaker_ok GB set_of view_of \<Longrightarrow>
   view_of (gb_done GB now err b) = view_done (set_of b) now err (view_at now (view_of b)) \<and>
   set_of (gb_done GB now err b) = set_of b"
  unfolding breaker_ok_def by blast

section \<open>The tracker on views\<close>

definition settings_of :: "breaker_config \<Rightarrow> settings" where
  "settings_of cfg = \<lparr>gs_MaxRequests = unat (GetHalfOpenProbes cfg), gs_Timeout = GetOpenDuration cfg,
     gs_ReadyToTrip = (\<lambda>n. unat (GetFailureThreshold cfg) \<le> n),
     gs_IsSuccessful = (\<lambda>err. case err of None \<Rightarrow> True | Some e \<Rightarrow> errors_is e Canceled)\<rparr>"

lemma NewCircuitBreaker_eq: "NewCircuitBreaker GB cfg = gb_New GB (settings_of cfg)"
  by (simp add: NewCircuitBreaker_def settings_of_def Let_def)

definition tracker_ok :: "('b \<Rightarrow> settings) \<Rightarrow> 'b tracker \<Rightarrow> bool" where
  "tracker_ok set_of t \<longleftrightarrow> (\<forall>n b. tk_circuits t n = Some b \<longrightarrow> set_of b = settings_of (tk_config t))"

definition tview :: "('b \<Rightarrow> view) \<Rightarrow> 'b tracker \<Rightarrow> string \<Rightarrow> view" where
  "tview view_of t n = (case tk_circuits t n of None \<Rightarrow> VClosed 0 | Some b \<Rightarrow> view_of b)"

text \<open>Reporting an outcome, on views.\<close>

definition view_report :: "settings \<Rightarrow> go_time \<Rightarrow> go_error option \<Rightarrow> view \<Rightarrow> view" where
  "view_report st now err v =
     (case view_allow st (view_at now v) of
        None \<Rightarrow> view_at now v
      | Some v' \<Rightarrow> view_done st now err (view_at now v'))"

lemma ReportFailure_fst_snd:
  "ReportFailure GB now err b = (if \<not> fst (gb_Allow GB now b) then (False, snd (gb_Allow GB now b))
     else (True, gb_done GB now err (snd (gb_Allow GB now b))))"
  by (simp add: ReportFailure_def split: prod.split)

lemma IsHealthyFunc_fst:
  "fst (IsHealthyFunc GB now n t) \<longleftrightarrow> gb_State GB now (fst (GetOrCreateCircuit GB n t)) \<noteq> StateOpen"
  by (simp add: IsHealthyFunc_def split: prod.split)

lemma ReportFailure_view:
  assumes "breaker_ok GB set_of view_of"
  shows "view_of (snd (ReportFailure GB now err b)) = view_report (set_of b) now err (view_of b)"
    and "set_of (snd (ReportFailure GB now err b)) = set_of b"
proof -
  show "view_of (snd (ReportFailure GB now err b)) = view_report (set_of b) now err (view_of b)"
  proof (cases "view_allow (set_of b) (view_at now (view_of b))")
    case None
    then show ?thesis
      using breaker_allow_None [OF assms None] by (simp add: ReportFailure_fst_snd view_report_def)
  next
    case (Some v)
    then show ?thesis
      using breaker_allow_Some [OF assms Some] breaker_allow_set [OF assms, of now b]
        breaker_done [OF assms, of now err "snd (gb_Allow GB now b)"]
      by (simp add: ReportFailure_fst_snd view_report_def)
  qed
  show "set_of (snd (ReportFailure GB now err b)) = set_of b"
    using breaker_allow_set [OF assms, of now b] breaker_done [OF assms, of now err "snd (gb_Allow GB now b)"]
    by (simp add: ReportFailure_fst_snd)
qed

lemma ReportSuccess_eq: "ReportSuccess GB now b = ReportFailure GB now None b"
  by (simp add: ReportSuccess_def ReportFailure_def)

lemma RecordSuccess_eq: "RecordSuccess GB now n t = RecordFailure GB now n None t"
  by (simp add: RecordSuccess_def RecordFailure_def ReportSuccess_eq)

lemma GetOrCreate_view:
  assumes "breaker_ok GB set_of view_of" "tracker_ok set_of t"
  shows "view_of (fst (GetOrCreateCircuit GB n t)) = tview view_of t n"
    "set_of (fst (GetOrCreateCircuit GB n t)) = settings_of (tk_config t)"
    "tview view_of (snd (GetOrCreateCircuit GB n t)) = tview view_of t"
    "tracker_ok set_of (snd (GetOrCreateCircuit GB n t))"
    "tk_config (snd (GetOrCreateCircuit GB n t)) = tk_config t"
  using assms breaker_new [OF assms(1), of "settings_of (tk_config t)"]
  by (auto simp: GetOrCreateCircuit_def NewCircuitBreaker_eq tview_def tracker_ok_def fun_eq_iff Let_def
      split: option.split)

lemma RecordFailure_view:
  assumes "breaker_ok GB set_of view_of" "tracker_ok set_of t"
  shows "tview view_of (RecordFailure GB now n err t) =
      (tview view_of t)(n := view_report (settings_of (tk_config t)) now err (tview view_of t n))"
    and "tracker_ok set_of (RecordFailure GB now n err t)"
    and "tk_config (RecordFailure GB now n err t) = tk_config t"
proof -
  obtain b t' where gc: "GetOrCreateCircuit GB n t = (b, t')" by fastforce
  note g = GetOrCreate_view [OF assms, of n, unfolded gc fst_conv snd_conv]
  have run: "RecordFailure GB now n err t =
      t'\<lparr>tk_circuits := (tk_circuits t')(n \<mapsto> snd (ReportFailure GB now err b))\<rparr>"
    by (simp add: RecordFailure_def gc)
  have up: "tview view_of (t'\<lparr>tk_circuits := (tk_circuits t')(n \<mapsto> x)\<rparr>) = (tview view_of t')(n := view_of x)" for x
    by (auto simp: tview_def fun_eq_iff)
  show "tview view_of (RecordFailure GB now n err t) =
      (tview view_of t)(n := view_report (settings_of (tk_config t)) now err (tview view_of t n))"
    unfolding run up using g ReportFailure_view(1) [OF assms(1), of now err b] by simp
  show "tracker_ok set_of (RecordFailure GB now n err t)"
    using g ReportFailure_view(2) [OF assms(1), of now err b] by (simp add: run tracker_ok_def)
  show "tk_config (RecordFailure GB now n err t) = tk_config t"
    using g(5) by (simp add: run)
qed

lemma GetState_view:
  assumes "breaker_ok GB set_of view_of"
  shows "Tracker_GetState GB now n t = view_state (view_at now (tview view_of t n))"
  by (simp add: Tracker_GetState_def tview_def breaker_state_view [OF assms] split: option.split)

lemma IsHealthyFunc_view:
  assumes "breaker_ok GB set_of view_of" "tracker_ok set_of t"
  shows "fst (IsHealthyFunc GB now n t) \<longleftrightarrow> view_state (view_at now (tview view_of t n)) \<noteq> StateOpen"
  using GetOrCreate_view(1) [OF assms, of n] by (simp add: IsHealthyFunc_fst breaker_state_view [OF assms(1)])

lemma NewTracker_ok: "tracker_ok set_of (NewTracker cfg)" "tview view_of (NewTracker cfg) n = VClosed 0"
  by (simp_all add: tracker_ok_def NewTracker_def tview_def)

lemma Reset_ok: "tracker_ok set_of (Tracker_Reset cfg t)" "tview view_of (Tracker_Reset cfg t) n = VClosed 0"
  by (simp_all add: tracker_ok_def Tracker_Reset_def tview_def)

section \<open>Reachable trackers\<close>

inductive tracker_reachable :: "'b gobreaker \<Rightarrow> 'b tracker \<Rightarrow> bool" for GB where
  new: "tracker_reachable GB (NewTracker cfg)"
| reset: "tracker_reachable GB t \<Longrightarrow> tracker_reachable GB (Tracker_Reset cfg t)"
| get: "tracker_reachable GB t \<Longrightarrow> tracker_reachable GB (snd (GetOrCreateCircuit GB n t))"
| success: "tracker_reachable GB t \<Longrightarrow> tracker_reachable GB (RecordSuccess GB now n t)"
| failure: "tracker_reachable GB t \<Longrightarrow> tracker_reachable GB (RecordFailure GB now n err t)"

lemma tracker_reachable_ok:
  assumes "tracker_reachable GB t" "breaker_ok GB set_of view_of"
  shows "tracker_ok set_of t"
  using assms
proof (induction rule: tracker_reachable.induct)
  case (get t n)
  then show ?case using GetOrCreate_view(4) by blast
next
  case (success t now n)
  then show ?case using RecordFailure_view(2) by (simp add: RecordSuccess_eq)
next
  case (failure t now n err)
  then show ?case using RecordFailure_view(2) by blast
qed (simp_all add: NewTracker_ok Reset_ok)

text \<open>A run of outcomes of one provider: times and errors (none for a success).\<close>

definition record_all :: "'b gobreaker \<Rightarrow> string \<Rightarrow> (go_time \<times> go_error option) list \<Rightarrow> 'b tracker \<Rightarrow> 'b tracker" where
  "record_all GB n evs t = fold (\<lambda>(now, err) t. RecordFailure GB now n err t) evs t"

lemma record_all_view:
  assumes "breaker_ok GB set_of view_of" "tracker_ok set_of t"
  shows "tview view_of (record_all GB n evs t) n =
      fold (\<lambda>(now, err). view_report (settings_of (tk_config t)) now err) evs (tview view_of t n) \<and>
    (\<forall>m. m \<noteq> n \<longrightarrow> tview view_of (record_all GB n evs t) m = tview view_of t m) \<and>
    tracker_ok set_of (record_all GB n evs t) \<and> tk_config (record_all GB n evs t) = tk_config t"
  using assms(2)
proof (induction evs arbitrary: t)
  case Nil
  then show ?case by (simp add: record_all_def)
next
  case (Cons ev evs)
  obtain now err where ev: "ev = (now, err)" by fastforce
  note r = RecordFailure_view [OF assms(1) Cons.prems, of now n err]
  from Cons.IH [OF r(2)] r show ?case by (simp add: record_all_def ev)
qed

section \<open>Properties of the breaker\<close>

lemma view_report_closed:
  "view_report (settings_of cfg) now err (VClosed n) =
     (if (case err of None \<Rightarrow> True | Some e \<Rightarrow> errors_is e Canceled) then VClosed 0
      else if unat (GetFailureThreshold cfg) \<le> n + 1 then VOpen (now + GetOpenDuration cfg)
      else VClosed (n + 1))"
  by (simp add: view_report_def settings_of_def)

lemma view_report_half:
  "n < unat (GetHalfOpenProbes cfg) \<Longrightarrow> view_report (settings_of cfg) now None (VHalf n m) =
     (if unat (GetHalfOpenProbes cfg) \<le> m + 1 then VClosed 0 else VHalf (n + 1) (m + 1))"
  by (simp add: view_report_def settings_of_def)

lemma view_report_expired:
  "expiry < now \<Longrightarrow> view_report (settings_of cfg) now None (VOpen expiry) =
     view_report (settings_of cfg) now None (VHalf 0 0)"
  by (simp add: view_report_def)

lemma view_failures:
  assumes "length fs \<le> unat (GetFailureThreshold cfg)" "\<forall>(now, e) \<in> set fs. \<not> errors_is e Canceled"
  shows "fold (\<lambda>(now, err). view_report (settings_of cfg) now err) (map (apsnd Some) fs) (VClosed 0) =
    (if length fs < unat (GetFailureThreshold cfg) then VClosed (length fs)
     else if fs = [] then VClosed 0 else VOpen (fst (last fs) + GetOpenDuration cfg))"
  using assms
proof (induction fs rule: rev_induct)
  case Nil
  then show ?case by simp
next
  case (snoc f fs)
  obtain now e where f: "f = (now, e)" by fastforce
  have "fold (\<lambda>(now, err). view_report (settings_of cfg) now err) (map (apsnd Some) fs) (VClosed 0) = VClosed (length fs)"
    using snoc by auto
  then show ?case using snoc.prems by (simp add: f view_report_closed)
qed

lemma threshold_pos [simp]: "0 < unat (GetFailureThreshold cfg)" "0 < unat (GetHalfOpenProbes cfg)"
  by (simp_all add: GetFailureThreshold_def GetHalfOpenProbes_def unat_gt_0)

text \<open>
  The circuit of a provider opens exactly at the configured number of consecutive failures. From a tracker
  whose circuit for the provider is closed without failures (a new one, or after a success), after up to
  that many failures other than cancellations the provider is healthy if there were fewer, and otherwise
  unhealthy until the open duration after the last of them has passed, and healthy again from then on.
\<close>

lemma RecordFailure_trips:
  assumes gb: "breaker_ok GB set_of view_of" and ok: "tracker_reachable GB t" "tview view_of t n = VClosed 0"
    and fs: "length fs \<le> unat (GetFailureThreshold (tk_config t))" "\<forall>(ts, e) \<in> set fs. \<not> errors_is e Canceled"
  shows "fst (IsHealthyFunc GB now n (record_all GB n (map (apsnd Some) fs) t)) \<longleftrightarrow>
    length fs < unat (GetFailureThreshold (tk_config t)) \<or>
    fst (last fs) + GetOpenDuration (tk_config t) < now"
proof -
  have tok: "tracker_ok set_of t" using tracker_reachable_ok [OF ok(1) gb] .
  note r = record_all_view [OF gb tok, where n = n and evs = "map (apsnd Some) fs"]
  have "fs \<noteq> []" if "\<not> length fs < unat (GetFailureThreshold (tk_config t))"
    using that threshold_pos(1) [of "tk_config t"] by (cases fs) auto
  then show ?thesis
    using r view_failures [OF fs] by (auto simp: IsHealthyFunc_view [OF gb] ok(2))
qed

lemma RecordFailure_trips_witness:
  "fst (IsHealthyFunc ref_breaker 100 ''p'' (record_all ref_breaker ''p''
     (map (apsnd Some) [(10, OtherError ''500''), (20, OtherError ''502'')])
     (NewTracker \<lparr>bc_OpenDurationMS = 1, bc_FailureThreshold = 2, bc_HalfOpenProbes = 1\<rparr>))) = False"
  using RecordFailure_trips [OF ref_breaker_ok tracker_reachable.new
      [of ref_breaker "\<lparr>bc_OpenDurationMS = 1, bc_FailureThreshold = 2, bc_HalfOpenProbes = 1\<rparr>"],
      where n = "''p''" and now = 100 and fs = "[(10, OtherError ''500''), (20, OtherError ''502'')]"]
  by (simp add: NewTracker_ok) (simp add: NewTracker_def GetFailureThreshold_def GetOpenDuration_def millis_def in_int64_def)

lemma view_probe:
  assumes "\<forall>now \<in> set ts. expiry < now" "length ts \<le> unat (GetHalfOpenProbes cfg)"
  shows "fold (\<lambda>now. view_report (settings_of cfg) now None) ts (VOpen expiry) =
    (if ts = [] then VOpen expiry else if length ts < unat (GetHalfOpenProbes cfg) then VHalf (length ts) (length ts)
     else VClosed 0)"
  using assms
proof (induction ts rule: rev_induct)
  case Nil
  then show ?case by simp
next
  case (snoc now ts)
  have IH: "fold (\<lambda>now. view_report (settings_of cfg) now None) ts (VOpen expiry) =
      (if ts = [] then VOpen expiry else VHalf (length ts) (length ts))"
    using snoc by auto
  show ?case
  proof (cases "ts = []")
    case True
    then show ?thesis using snoc.prems threshold_pos(2) [of cfg]
      by (simp add: view_report_expired view_report_half)
  next
    case False
    then show ?thesis using snoc.prems IH by (simp add: view_report_half)
  qed
qed

text \<open>
  Recovery: once the open duration of an open circuit has expired, the circuit is half open and closes exactly
  with the configured number of successful probes; a failed probe (other than a cancellation) after fewer
  successes opens it again for the full open duration.
\<close>

lemma RecordSuccess_recovers:
  assumes gb: "breaker_ok GB set_of view_of" and ok: "tracker_reachable GB t" "tview view_of t n = VOpen expiry"
    and ts: "\<forall>now \<in> set ts. expiry < now" "ts \<noteq> []" "length ts \<le> unat (GetHalfOpenProbes (tk_config t))"
    and fail: "\<not> errors_is e Canceled"
  shows "Tracker_GetState GB now n (record_all GB n (map (\<lambda>now. (now, None)) ts) t) =
      (if length ts < unat (GetHalfOpenProbes (tk_config t)) then StateHalfOpen else StateClosed) \<and>
    (length ts < unat (GetHalfOpenProbes (tk_config t)) \<longrightarrow> 0 \<le> GetOpenDuration (tk_config t) \<longrightarrow>
     Tracker_GetState GB fnow n (RecordFailure GB fnow n (Some e) (record_all GB n (map (\<lambda>now. (now, None)) ts) t)) = StateOpen)"
proof -
  have tok: "tracker_ok set_of t" using tracker_reachable_ok [OF ok(1) gb] .
  let ?t = "record_all GB n (map (\<lambda>now. (now, None)) ts) t"
  note r = record_all_view [OF gb tok, where n = n and evs = "map (\<lambda>now. (now, None)) ts"]
  have "fold (\<lambda>(now, err). view_report (settings_of (tk_config t)) now err) (map (\<lambda>now. (now, None)) ts) (VOpen expiry) =
      fold (\<lambda>now. view_report (settings_of (tk_config t)) now None) ts (VOpen expiry)"
    by (simp add: fold_map comp_def)
  then have v: "tview view_of ?t n =
      (if length ts < unat (GetHalfOpenProbes (tk_config t)) then VHalf (length ts) (length ts) else VClosed 0)"
    using r view_probe [OF ts(1,3)] ts(2) ok(2) by simp
  have tok': "tracker_ok set_of ?t" "tk_config ?t = tk_config t" using r by blast+
  have "view_report (settings_of (tk_config t)) fnow (Some e) (VHalf m m) = VOpen (fnow + GetOpenDuration (tk_config t))"
    if "m < unat (GetHalfOpenProbes (tk_config t))" for m
    using that fail by (simp add: view_report_def settings_of_def)
  then have "tview view_of (RecordFailure GB fnow n (Some e) ?t) n = VOpen (fnow + GetOpenDuration (tk_config t))"
    if "length ts < unat (GetHalfOpenProbes (tk_config t))"
    using that RecordFailure_view(1) [OF gb tok'(1)] v tok'(2) by simp
  then show ?thesis using v by (simp add: GetState_view [OF gb])
qed

definition demo_breaker_cfg :: breaker_config where
  "demo_breaker_cfg = \<lparr>bc_OpenDurationMS = 1, bc_FailureThreshold = 1, bc_HalfOpenProbes = 1\<rparr>"

definition demo_open :: "(settings \<times> view) tracker" where
  "demo_open = RecordFailure ref_breaker 10 ''p'' (Some (OtherError ''boom'')) (NewTracker demo_breaker_cfg)"

lemma demo_open_facts: "tracker_reachable ref_breaker demo_open" "tview snd demo_open ''p'' = VOpen 1000010"
  "tk_config demo_open = demo_breaker_cfg"
proof -
  show "tracker_reachable ref_breaker demo_open"
    unfolding demo_open_def by (intro tracker_reachable.intros)
  have cfg: "tk_config (NewTracker demo_breaker_cfg) = demo_breaker_cfg" by (simp add: NewTracker_def)
  note r = RecordFailure_view [OF ref_breaker_ok NewTracker_ok(1), of 10 "''p''" "Some (OtherError ''boom'')" demo_breaker_cfg]
  show "tk_config demo_open = demo_breaker_cfg" using r(3) cfg by (simp add: demo_open_def)
  show "tview snd demo_open ''p'' = VOpen 1000010"
    unfolding demo_open_def r(1) cfg
    by (simp add: NewTracker_ok view_report_closed)
      (simp add: demo_breaker_cfg_def GetFailureThreshold_def GetOpenDuration_def millis_def in_int64_def)
qed

lemma RecordSuccess_recovers_witness:
  "Tracker_GetState ref_breaker 2000000 ''p'' (record_all ref_breaker ''p'' [(1000011, None)] demo_open) = StateClosed"
  using RecordSuccess_recovers [OF ref_breaker_ok demo_open_facts(1,2), where ts = "[1000011]" and
      e = "OtherError ''x''" and now = 2000000]
  by (simp add: demo_open_facts(3)) (simp add: demo_breaker_cfg_def GetHalfOpenProbes_def)

text \<open>
  A failure that is a client's cancellation is recorded like a success: it never opens a circuit and clears the
  count of consecutive failures. And whatever is recorded for one provider leaves the state of every other
  provider alone.
\<close>

lemma RecordFailure_canceled:
  assumes gb: "breaker_ok GB set_of view_of" and ok: "tracker_reachable GB t" and "errors_is e Canceled"
  shows "Tracker_GetState GB now' m (RecordFailure GB now n (Some e) t) =
      Tracker_GetState GB now' m (RecordSuccess GB now n t) \<and>
    (m \<noteq> n \<longrightarrow> Tracker_GetState GB now' m (RecordFailure GB now n err t) = Tracker_GetState GB now' m t)"
proof -
  have tok: "tracker_ok set_of t" using tracker_reachable_ok [OF ok gb] .
  have "view_done (settings_of cfg) now (Some e) v = view_done (settings_of cfg) now None v" for cfg v
    using assms(3) by (cases v) (simp_all add: settings_of_def)
  then have "view_report (settings_of cfg) now (Some e) v = view_report (settings_of cfg) now None v" for cfg v
    by (simp add: view_report_def split: option.split)
  then show ?thesis
    using RecordFailure_view(1) [OF gb tok] by (simp add: GetState_view [OF gb] RecordSuccess_eq)
qed

lemma RecordFailure_canceled_witness:
  "Tracker_GetState ref_breaker 30 ''p'' (RecordFailure ref_breaker 20 ''p'' (Some (Wrapped ''upstream'' Canceled))
     (NewTracker demo_breaker_cfg)) =
   Tracker_GetState ref_breaker 30 ''p'' (RecordSuccess ref_breaker 20 ''p'' (NewTracker demo_breaker_cfg))"
  using RecordFailure_canceled [OF ref_breaker_ok tracker_reachable.new, of "Wrapped ''upstream'' Canceled"] by simp

lemma check_provider_view:
  assumes "breaker_ok GB set_of view_of" "tracker_ok set_of t"
  shows "tview view_of (check_provider GB now probe n t) = tview view_of t \<and> tracker_ok set_of (check_provider GB now probe n t)"
proof (cases "Tracker_GetState GB now n t = StateOpen \<and> probe n = None")
  case False
  then show ?thesis using assms(2) by (auto simp: check_provider_def split: option.split)
next
  case True
  then have "view_state (view_at now (tview view_of t n)) = StateOpen" by (simp add: GetState_view [OF assms(1)])
  then obtain expiry where v: "tview view_of t n = VOpen expiry" "\<not> expiry < now"
    by (cases "tview view_of t n") (auto split: if_splits)
  then have "view_report (settings_of (tk_config t)) now None (tview view_of t n) = tview view_of t n"
    by (simp add: view_report_def)
  then show ?thesis
    using True RecordFailure_view [OF assms, of now n None]
    by (simp add: check_provider_def RecordSuccess_eq)
qed

text \<open>
  The periodic health checker has no effect on routing: whatever its probes answer, after a round over all
  registered providers every circuit is in the state it was in, now and at every later time. (The
  documentation of the checker promises that successful probes recover a provider faster than the cooldown.)
\<close>

lemma checkAllProviders_no_effect:
  assumes gb: "breaker_ok GB set_of view_of" and ok: "tracker_reachable GB t"
  shows "Tracker_GetState GB later n (checkAllProviders GB now probe names t) = Tracker_GetState GB later n t"
proof -
  have "tview view_of (fold (check_provider GB now probe) names t) = tview view_of t"
    using tracker_reachable_ok [OF ok gb]
  proof (induction names arbitrary: t)
    case (Cons a names)
    with check_provider_view [OF gb Cons.prems, of now probe a] show ?case by simp
  qed simp
  then show ?thesis by (simp add: checkAllProviders_def GetState_view [OF gb])
qed

lemma checkAllProviders_no_effect_witness:
  "Tracker_GetState ref_breaker 30 ''p'' (checkAllProviders ref_breaker 20 (\<lambda>_. None) [''p''] demo_open) = StateOpen"
  using checkAllProviders_no_effect [OF ref_breaker_ok demo_open_facts(1), of 30 "''p''" 20 "\<lambda>_. None" "[''p'']"]
  by (simp add: GetState_view [OF ref_breaker_ok] demo_open_facts(2))

text \<open>
  The check made for a base URL without an explicit port always fails: the address dialled is the host as
  it stands in the URL, and dialling needs a port. (Every hosted provider's default base URL is of this kind.)
\<close>

lemma health_check_needs_port:
  assumes "dial_needs_port net" and "parseURL url = Some (host, path)" and "host \<noteq> ''''" "url \<noteq> ''''"
    and "CHR '':'' \<notin> set host"
  shows "health_Check net (NewProviderHealthCheck parseURL n url) \<noteq> None"
proof -
  have "split_host_port host = None" using assms(5) by (simp add: split_host_port_def last_index_def)
  then obtain e where "nw_dial net host = Some e" using assms(1) unfolding dial_needs_port_def by blast
  then show ?thesis using assms(2-4) by (simp add: NewProviderHealthCheck_def NewHTTPHealthCheck_def)
qed

lemma health_check_needs_port_witness:
  "health_Check \<lparr>nw_dial = (\<lambda>a. if split_host_port a = None then Some (OtherError ''missing port in address'') else None),
     nw_exchange = (\<lambda>_ _. Inr ''HTTP/1.1 200 OK'')\<rparr>
   (NewProviderHealthCheck (\<lambda>_. Some (''api.anthropic.com'', '''')) ''anthropic'' ''https://api.anthropic.com'') \<noteq> None"
  by (rule health_check_needs_port [where host = "''api.anthropic.com''" and path = "''''"])
    (simp_all add: dial_needs_port_def)

end
