(* ===== verification/Event_Stream.thy ===== *)
theory Event_Stream
  imports CR_Prelude
begin

text \<open>
  The conversion of AWS Event Stream responses to server-sent events
  (\<open>internal/providers/eventstream.go\<close>): the binary frame parser with its checksums and 32-bit
  lengths, the header parser, the read loop over a response body and the SSE formatter. Bytes are
  \<^typ>\<open>8 word\<close>; a Go string is its bytes. An index or slice out of range is the outcome \<open>GoPanic\<close>.
\<close>

type_synonym byte = "8 word"
type_synonym bytes = "byte list"

definition bytes_of :: "string \<Rightarrow> bytes" where
  "bytes_of s = map (\<lambda>c. word_of_nat (of_char c)) s"

section \<open>Big-endian integers, slices and checksums\<close>

definition get16 :: "bytes \<Rightarrow> 16 word" where
  "get16 b = word_of_nat (unat (b ! 0) * 2 ^ 8 + unat (b ! 1))"

definition get32 :: "bytes \<Rightarrow> 32 word" where
  "get32 b = word_of_nat (unat (b ! 0) * 2 ^ 24 + unat (b ! 1) * 2 ^ 16 + unat (b ! 2) * 2 ^ 8 + unat (b ! 3))"

text \<open>\<open>data[lo:hi]\<close> of a slice whose capacity is its length; \<^term>\<open>None\<close> is a panic.\<close>

definition go_slice :: "'a list \<Rightarrow> nat \<Rightarrow> nat \<Rightarrow> 'a list option" where
  "go_slice xs lo hi = (if lo \<le> hi \<and> hi \<le> length xs then Some (take (hi - lo) (drop lo xs)) else None)"

text \<open>CRC-32C of the package \<open>hash/crc32\<close>: the reflected Castagnoli polynomial, bit by bit.\<close>

unbundle bit_operations_syntax

definition crc_bit :: "32 word \<Rightarrow> 32 word" where
  "crc_bit c = (if bit c 0 then drop_bit 1 c XOR 0x82F63B78 else drop_bit 1 c)"

definition crc_byte :: "byte \<Rightarrow> 32 word \<Rightarrow> 32 word" where
  "crc_byte b c = (crc_bit ^^ 8) (c XOR ucast b)"

definition crc32c :: "bytes \<Rightarrow> 32 word" where
  "crc32c bs = NOT (fold crc_byte bs (NOT 0))"

section \<open>Messages\<close>

record message =
  em_Headers :: "bytes \<rightharpoonup> bytes"
  em_Payload :: bytes

definition eventStreamPreludeLen :: nat where "eventStreamPreludeLen = 12"
definition eventStreamTrailerLen :: nat where "eventStreamTrailerLen = 4"
definition eventStreamMinMsgLen :: nat where
  "eventStreamMinMsgLen = eventStreamPreludeLen + eventStreamTrailerLen"

lemmas stream_lens = eventStreamPreludeLen_def eventStreamTrailerLen_def eventStreamMinMsgLen_def
declare stream_lens [simp]

definition parseAndValidatePrelude :: "bytes \<Rightarrow> go_error + 32 word \<times> 32 word" where
  "parseAndValidatePrelude data =
     (let totalLen = get32 (take 4 data);
          headersLen = get32 (take 4 (drop 4 data));
          preludeCRC = get32 (take 4 (drop 8 data))
      in if unat totalLen < eventStreamMinMsgLen then Inl (OtherError ''eventstream: invalid total length'')
         else if length data < unat totalLen then Inl (OtherError ''eventstream: incomplete message'')
         else if crc32c (take 8 data) \<noteq> preludeCRC then Inl (OtherError ''eventstream: prelude CRC mismatch'')
         else Inr (totalLen, headersLen))"

definition verifyMessageCRC :: "bytes \<Rightarrow> 32 word \<Rightarrow> go_error option" where
  "verifyMessageCRC data totalLen =
     (let msgCRCOffset = unat (totalLen - 4);
          expectedMsgCRC = get32 (take 4 (drop msgCRCOffset data))
      in if crc32c (take msgCRCOffset data) \<noteq> expectedMsgCRC
         then Some (OtherError ''eventstream: message CRC mismatch'') else None)"

definition readByte :: "bytes \<Rightarrow> nat \<Rightarrow> go_error + byte \<times> nat" where
  "readByte data offset =
     (if length data \<le> offset then Inl (OtherError ''offset out of bounds'')
      else Inr (data ! offset, offset + 1))"

definition readSlice :: "bytes \<Rightarrow> nat \<Rightarrow> nat \<Rightarrow> go_error + bytes \<times> nat" where
  "readSlice data offset len =
     (if length data < offset + len then Inl (OtherError ''slice out of bounds'')
      else Inr (take len (drop offset data), offset + len))"

definition advanceOffset :: "bytes \<Rightarrow> nat \<Rightarrow> nat \<Rightarrow> go_error + bytes option \<times> nat" where
  "advanceOffset data offset len =
     (if length data < offset + len then Inl (OtherError ''header value truncated'')
      else Inr (None, offset + len))"

definition parseHeaderName :: "bytes \<Rightarrow> nat \<Rightarrow> go_error + bytes \<times> nat" where
  "parseHeaderName data offset =
     (case readByte data offset of
        Inl e \<Rightarrow> Inl e
      | Inr (b, nxt) \<Rightarrow>
          (case readSlice data nxt (unat b) of
             Inl e \<Rightarrow> Inl (OtherError ''header name truncated'')
           | Inr (nameBytes, e) \<Rightarrow> Inr (nameBytes, e)))"

definition parseStringHeaderValue :: "bytes \<Rightarrow> nat \<Rightarrow> go_error + bytes option \<times> nat" where
  "parseStringHeaderValue data offset =
     (if length data < offset + 2 then Inl (OtherError ''header value length truncated'')
      else case readSlice data offset 2 of
             Inl e \<Rightarrow> Inl (OtherError ''header value length truncated'')
           | Inr (lenBytes, nxt) \<Rightarrow>
               (let valueLen = unat (get16 lenBytes)
                in if length data < nxt + valueLen then Inl (OtherError ''header value truncated'')
                   else case readSlice data nxt valueLen of
                          Inl e \<Rightarrow> Inl (OtherError ''header value truncated'')
                        | Inr (valueBytes, e) \<Rightarrow> Inr (Some valueBytes, e)))"

definition fixedSizeHeaderTypes :: "nat \<rightharpoonup> nat" where
  "fixedSizeHeaderTypes = [2 \<mapsto> 1, 3 \<mapsto> 2, 4 \<mapsto> 4, 5 \<mapsto> 8, 8 \<mapsto> 8, 9 \<mapsto> 16]"

definition skipNonStringHeader :: "bytes \<Rightarrow> nat \<Rightarrow> byte \<Rightarrow> go_error + bytes option \<times> nat" where
  "skipNonStringHeader data offset headerType =
     (if headerType = 0 \<or> headerType = 1 then Inr (None, offset)
      else case fixedSizeHeaderTypes (unat headerType) of
             Some width \<Rightarrow> advanceOffset data offset width
           | None \<Rightarrow>
               if headerType = 6 then
                 (case readSlice data offset 2 of
                    Inl e \<Rightarrow> Inl (OtherError ''bytes header length truncated'')
                  | Inr (lenBytes, nxt) \<Rightarrow> advanceOffset data nxt (unat (get16 lenBytes)))
               else Inl (OtherError ''unknown header type''))"

definition parseHeaderValue :: "bytes \<Rightarrow> nat \<Rightarrow> byte \<Rightarrow> go_error + bytes option \<times> nat" where
  "parseHeaderValue data offset headerType =
     (if headerType = 7 then parseStringHeaderValue data offset
      else skipNonStringHeader data offset headerType)"

text \<open>Every operation of the header parser moves forward.\<close>

lemma parseHeaderName_forward: "parseHeaderName data offset = Inr (n, off) \<Longrightarrow> offset < off \<and> offset < length data"
  by (auto simp: parseHeaderName_def readByte_def readSlice_def split: sum.splits if_splits)

lemma parseHeaderValue_forward: "parseHeaderValue data offset t = Inr (v, off) \<Longrightarrow> offset \<le> off"
  by (auto simp: parseHeaderValue_def parseStringHeaderValue_def skipNonStringHeader_def advanceOffset_def
      readSlice_def Let_def split: sum.splits if_splits option.splits)

function parse_headers_loop :: "bytes \<Rightarrow> nat \<Rightarrow> (bytes \<rightharpoonup> bytes) \<Rightarrow> go_error + (bytes \<rightharpoonup> bytes)" where
  "parse_headers_loop data offset headers =
     (if \<not> offset < length data then Inr headers
      else case parseHeaderName data offset of
             Inl e \<Rightarrow> Inl e
           | Inr (name, off) \<Rightarrow>
               (if length data \<le> off then Inl (OtherError ''header type missing'')
                else case parseHeaderValue data (off + 1) (data ! off) of
                       Inl e \<Rightarrow> Inl e
                     | Inr (v, off') \<Rightarrow>
                         parse_headers_loop data off'
                           (case v of Some x \<Rightarrow> headers(name \<mapsto> x) | None \<Rightarrow> headers)))"
  by pat_completeness auto
termination
  by (relation "measure (\<lambda>(data, offset, headers). length data - offset)")
    (auto dest!: parseHeaderName_forward parseHeaderValue_forward)

declare parse_headers_loop.simps [simp del]

definition parseEventStreamHeaders :: "bytes \<Rightarrow> go_error + (bytes \<rightharpoonup> bytes)" where
  "parseEventStreamHeaders data = parse_headers_loop data 0 Map.empty"

definition out_of_range :: "go_error" where
  "out_of_range = GoPanic ''slice bounds out of range''"

definition ParseEventStreamMessage :: "bytes \<Rightarrow> go_error + message \<times> nat" where
  "ParseEventStreamMessage data =
     (if length data < eventStreamMinMsgLen then Inl (OtherError ''eventstream: message too short'')
      else case parseAndValidatePrelude data of
        Inl e \<Rightarrow> Inl e
      | Inr (totalLen, headersLen) \<Rightarrow>
          (let payloadLen = totalLen - 12 - headersLen - 4
           in case verifyMessageCRC data totalLen of
                Some e \<Rightarrow> Inl e
              | None \<Rightarrow>
                  (case go_slice data 12 (unat (12 + headersLen)) of
                     None \<Rightarrow> Inl out_of_range
                   | Some hb \<Rightarrow>
                       (case parseEventStreamHeaders hb of
                          Inl e \<Rightarrow> Inl (Wrapped ''eventstream'' e)
                        | Inr headers \<Rightarrow>
                            (let payloadStart = 12 + headersLen
                             in case go_slice data (unat payloadStart) (unat (payloadStart + payloadLen)) of
                                  None \<Rightarrow> Inl out_of_range
                                | Some payload \<Rightarrow>
                                    Inr (\<lparr>em_Headers = headers, em_Payload = payload\<rparr>, unat totalLen))))))"

section \<open>Server-sent events\<close>

fun split_lines :: "bytes \<Rightarrow> bytes list" where
  "split_lines [] = [[]]"
| "split_lines (c # cs) =
     (if c = 10 then [] # split_lines cs
      else case split_lines cs of l # ls \<Rightarrow> (c # l) # ls | [] \<Rightarrow> [[c]])"

text \<open>Both branches of the switch return the type unchanged.\<close>

definition mapBedrockEventType :: "bytes \<Rightarrow> bytes" where
  "mapBedrockEventType bedrockType =
     (if bedrockType \<in> bytes_of ` {''message_start'', ''content_block_start'', ''content_block_delta'',
          ''content_block_stop'', ''message_delta'', ''message_stop'', ''ping''}
      then bedrockType else bedrockType)"

fun data_lines :: "bytes list \<Rightarrow> bytes" where
  "data_lines [] = []"
| "data_lines [l] = bytes_of ''data: '' @ l"
| "data_lines (l # m # ls) = bytes_of ''data: '' @ l @ [10] @ data_lines (m # ls)"

definition formatSSEEvent :: "bytes \<Rightarrow> bytes \<Rightarrow> bytes" where
  "formatSSEEvent eventType payload =
     bytes_of ''event: '' @ mapBedrockEventType eventType @ [10] @ data_lines (split_lines payload) @ [10, 10]"

text \<open>\<open>quote\<close> is the verb \<open>%q\<close> of \<open>fmt\<close>.\<close>

definition formatExceptionAsSSE :: "(bytes \<Rightarrow> bytes) \<Rightarrow> bytes \<Rightarrow> bytes \<Rightarrow> bytes" where
  "formatExceptionAsSSE quote exceptionType payload =
     bytes_of ''event: error'' @ [10] @ bytes_of ''data: {'' @ [34] @ bytes_of ''error'' @ [34] @ bytes_of '':{'' @
     [34] @ bytes_of ''type'' @ [34] @ bytes_of '':'' @ quote exceptionType @ bytes_of '','' @
     [34] @ bytes_of ''message'' @ [34] @ bytes_of '':'' @ quote payload @ bytes_of ''}}'' @ [10, 10]"

definition header_of :: "message \<Rightarrow> string \<Rightarrow> bytes" where
  "header_of msg k = (case em_Headers msg (bytes_of k) of None \<Rightarrow> [] | Some v \<Rightarrow> v)"

definition FormatMessageAsSSE :: "(bytes \<Rightarrow> bytes) \<Rightarrow> message option \<Rightarrow> bytes" where
  "FormatMessageAsSSE quote m =
     (case m of
        None \<Rightarrow> []
      | Some msg \<Rightarrow>
          if header_of msg '':exception-type'' \<noteq> []
          then formatExceptionAsSSE quote (header_of msg '':exception-type'') (em_Payload msg)
          else if header_of msg '':event-type'' = [] then []
          else formatSSEEvent (header_of msg '':event-type'') (em_Payload msg))"

section \<open>The conversion loop\<close>

definition EOF :: go_error where "EOF = Sentinel ''EOF''"
definition ErrUnexpectedEOF :: go_error where "ErrUnexpectedEOF = Sentinel ''unexpected EOF''"
definition ErrMessageSkipped :: go_error where
  "ErrMessageSkipped = Sentinel ''eventstream: message skipped due to parse error''"

text \<open>\<open>io.ReadFull\<close> on what is left of the body: \<open>EOF\<close> only if nothing at all was read.\<close>

definition ReadFull :: "nat \<Rightarrow> bytes \<Rightarrow> (go_error + bytes) \<times> bytes" where
  "ReadFull n body =
     (if n \<le> length body then (Inr (take n body), drop n body)
      else (Inl (if body = [] then EOF else ErrUnexpectedEOF), []))"

definition readNextMessage :: "bytes \<Rightarrow> (go_error + message) \<times> bytes" where
  "readNextMessage body =
     (case ReadFull eventStreamPreludeLen body of
        (Inl e, rest) \<Rightarrow> (Inl e, rest)
      | (Inr prelude, rest) \<Rightarrow>
          (let totalLen = get32 (take 4 prelude)
           in if unat totalLen < eventStreamMinMsgLen
              then (Inl (OtherError ''eventstream: invalid message length''), rest)
              else case ReadFull (unat totalLen - eventStreamPreludeLen) rest of
                     (Inl e, rest) \<Rightarrow> (Inl (Wrapped ''eventstream: failed to read message body'' e), rest)
                   | (Inr tail, rest) \<Rightarrow>
                       (case ParseEventStreamMessage (prelude @ tail) of
                          Inl (GoPanic m) \<Rightarrow> (Inl (GoPanic m), rest)
                        | Inl e \<Rightarrow> (Inl ErrMessageSkipped, rest)
                        | Inr (msg, n) \<Rightarrow> (Inr msg, rest))))"

lemma readNextMessage_shorter:
  "fst (readNextMessage body) \<noteq> Inl e \<or> errors_is e ErrMessageSkipped \<Longrightarrow>
   fst (readNextMessage body) = Inl e \<or> (\<exists>m. fst (readNextMessage body) = Inr m) \<Longrightarrow>
   length (snd (readNextMessage body)) < length body"
  by (auto simp: readNextMessage_def ReadFull_def Let_def EOF_def ErrUnexpectedEOF_def ErrMessageSkipped_def
      split: if_splits sum.splits go_error.splits prod.splits)

text \<open>
  The response writer: \<open>wr k\<close> is the outcome of the \<open>k\<close>-th write, and the writes that succeeded are collected,
  each followed by a flush.
\<close>

type_synonym writer = "nat \<Rightarrow> go_error option"

definition writeSSEEvent ::
    "(bytes \<Rightarrow> bytes) \<Rightarrow> writer \<Rightarrow> message \<Rightarrow> bytes list \<Rightarrow> (go_error + bool) \<times> bytes list" where
  "writeSSEEvent quote wr msg out =
     (if header_of msg '':exception-type'' \<noteq> [] then
        (case wr (length out) of
           Some e \<Rightarrow> (Inl (Wrapped ''eventstream: failed to write error event'' e), out)
         | None \<Rightarrow> (Inr True, out @ [formatExceptionAsSSE quote (header_of msg '':exception-type'') (em_Payload msg)]))
      else if header_of msg '':event-type'' = [] then (Inr False, out)
      else case wr (length out) of
             Some e \<Rightarrow> (Inl (Wrapped ''eventstream: failed to write SSE event'' e), out)
           | None \<Rightarrow> (Inr True, out @ [formatSSEEvent (header_of msg '':event-type'') (em_Payload msg)]))"

function process_loop ::
    "(bytes \<Rightarrow> bytes) \<Rightarrow> writer \<Rightarrow> nat \<Rightarrow> bytes list \<Rightarrow> bytes \<Rightarrow> (nat \<times> go_error option) \<times> bytes list" where
  "process_loop quote wr eventCount out body =
     (case readNextMessage body of
        (Inl err, rest) \<Rightarrow>
          if errors_is err EOF then ((eventCount, None), out)
          else if errors_is err ErrMessageSkipped then process_loop quote wr eventCount out rest
          else ((eventCount, Some err), out)
      | (Inr msg, rest) \<Rightarrow>
          (case writeSSEEvent quote wr msg out of
             (Inl err, out) \<Rightarrow> ((eventCount, Some err), out)
           | (Inr written, out) \<Rightarrow>
               process_loop quote wr (if written then eventCount + 1 else eventCount) out rest))"
  by pat_completeness auto
termination
proof (relation "measure (\<lambda>(quote, wr, n, out, body). length body)", goal_cases)
  case (2 quote wr eventCount out body x rest err)
  then show ?case using readNextMessage_shorter [of body err] by (auto simp: prod_eq_iff)
next
  case (3 quote wr eventCount out body x rest msg)
  then have "readNextMessage body = (Inr msg, rest)" by (simp add: prod_eq_iff)
  then show ?case using readNextMessage_shorter [of body EOF] by simp
qed auto

declare process_loop.simps [simp del]

definition processEventStream ::
    "(bytes \<Rightarrow> bytes) \<Rightarrow> writer \<Rightarrow> bytes \<Rightarrow> (nat \<times> go_error option) \<times> bytes list" where
  "processEventStream quote wr body = process_loop quote wr 0 [] body"

end
