(* ===== verification/Event_Stream_Facts.thy ===== *)
theory Event_Stream_Facts
  imports Event_Stream
begin

text \<open>
  What the Event Stream conversion does on well-formed input, stated against an encoder of the
  AWS framing: parsing returns what was encoded, a stream is converted frame by frame with
  corrupt frames skipped, and the SSE text carries the payload unchanged; and two defects: a frame
  with a header length beyond its end makes the parser panic, and a body cut right after a prelude passes for complete.
\<close>

section \<open>The encoder\<close>

definition put16 :: "nat \<Rightarrow> bytes" where
  "put16 n = [word_of_nat (n div 2 ^ 8), word_of_nat n]"

definition put32 :: "nat \<Rightarrow> bytes" where
  "put32 n = [word_of_nat (n div 2 ^ 24), word_of_nat (n div 2 ^ 16), word_of_nat (n div 2 ^ 8), word_of_nat n]"

lemma unat_byte [simp]: "unat (word_of_nat n :: byte) = n mod 256"
  by (simp add: unat_of_nat)

lemma put_length [simp]: "length (put16 n) = 2" "length (put32 n) = 4"
  by (simp_all add: put16_def put32_def)

lemma get16_put16 [simp]: "n < 2 ^ 16 \<Longrightarrow> get16 (put16 n) = word_of_nat n"
proof -
  assume "n < 2 ^ 16"
  then have "n div 256 mod 256 * 256 + n mod 256 = n" by (simp add: div_mult_mod_eq)
  then show ?thesis by (simp add: get16_def put16_def)
qed

lemma get32_put32 [simp]:
  assumes "n < 2 ^ 32"
  shows "get32 (put32 n) = word_of_nat n"
proof -
  have q: "n div 16777216 mod 256 = n div 16777216" using assms by simp
  have "n div 16777216 * 256 + n div 65536 mod 256 = n div 65536"
    using div_mult_mod_eq [of "n div 65536" 256] by (simp add: div_mult2_eq [symmetric])
  moreover have "n div 65536 * 256 + n div 256 mod 256 = n div 256"
    using div_mult_mod_eq [of "n div 256" 256] by (simp add: div_mult2_eq [symmetric])
  moreover have "n div 256 * 256 + n mod 256 = n" by (rule div_mult_mod_eq)
  ultimately have "n div 16777216 * 16777216 + n div 65536 mod 256 * 65536 + n div 256 mod 256 * 256 + n mod 256 = n"
    by linarith
  then show ?thesis
    unfolding get32_def put32_def by (simp add: q del: of_nat_add of_nat_mult)
qed

definition encode_header :: "bytes \<times> bytes \<Rightarrow> bytes" where
  "encode_header h = word_of_nat (length (fst h)) # fst h @ [7] @ put16 (length (snd h)) @ snd h"

definition encode_headers :: "(bytes \<times> bytes) list \<Rightarrow> bytes" where
  "encode_headers hs = concat (map encode_header hs)"

definition header_fits :: "bytes \<times> bytes \<Rightarrow> bool" where
  "header_fits h \<longleftrightarrow> length (fst h) < 2 ^ 8 \<and> length (snd h) < 2 ^ 16"

text \<open>A frame with valid checksums around \<open>rest\<close> that declares \<open>hlen\<close> bytes of headers.\<close>

definition prelude :: "nat \<Rightarrow> nat \<Rightarrow> bytes" where
  "prelude len hlen = put32 len @ put32 hlen @ put32 (unat (crc32c (put32 len @ put32 hlen)))"

definition frame :: "nat \<Rightarrow> bytes \<Rightarrow> bytes" where
  "frame hlen rest =
     (let body = prelude (16 + length rest) hlen @ rest in body @ put32 (unat (crc32c body)))"

definition encode_message :: "(bytes \<times> bytes) list \<Rightarrow> bytes \<Rightarrow> bytes" where
  "encode_message hs payload = frame (length (encode_headers hs)) (encode_headers hs @ payload)"

lemma prelude_length [simp]: "length (prelude len hlen) = 12"
  by (simp add: prelude_def)

lemma frame_length [simp]: "length (frame hlen rest) = 16 + length rest"
  by (simp add: frame_def Let_def)

lemma unat_lt32 [simp]: "unat (w :: 32 word) < 4294967296"
  using unsigned_less [of w] by simp

section \<open>Checksums and lengths of a frame\<close>

lemma frame_prelude:
  assumes "16 + length rest < 2 ^ 32" "hlen < 2 ^ 32"
  shows "parseAndValidatePrelude (frame hlen rest @ tl') = Inr (word_of_nat (16 + length rest), word_of_nat hlen)"
proof -
  let ?n = "16 + length rest"
  have un: "unat (word_of_nat ?n :: 32 word) = ?n"
    using assms(1) by (simp add: unat_of_nat del: of_nat_add)
  have split: "take 4 (frame hlen rest @ tl') = put32 ?n" "take 4 (drop 4 (frame hlen rest @ tl')) = put32 hlen"
    "take 4 (drop 8 (frame hlen rest @ tl')) = put32 (unat (crc32c (put32 ?n @ put32 hlen)))"
    "take 8 (frame hlen rest @ tl') = put32 ?n @ put32 hlen"
    by (simp_all add: frame_def prelude_def Let_def)
  show ?thesis
    using assms un unfolding parseAndValidatePrelude_def Let_def split
    by (simp del: of_nat_add)
qed

lemma frame_crc:
  assumes "16 + length rest < 2 ^ 32"
  shows "verifyMessageCRC (frame hlen rest @ tl') (word_of_nat (16 + length rest)) = None"
proof -
  let ?n = "16 + length rest" and ?body = "prelude (16 + length rest) hlen @ rest"
  have "word_of_nat ?n - 4 = (word_of_nat (12 + length rest) :: 32 word)" by simp
  then have off: "unat (word_of_nat ?n - 4 :: 32 word) = length ?body"
    using assms by (simp add: unat_of_nat del: of_nat_add)
  have "take (length ?body) (frame hlen rest @ tl') = ?body"
    "take 4 (drop (length ?body) (frame hlen rest @ tl')) = put32 (unat (crc32c ?body))"
    by (simp_all add: frame_def Let_def)
  then show ?thesis
    unfolding verifyMessageCRC_def Let_def off by simp
qed

section \<open>Headers\<close>

lemma parse_one_header:
  assumes "header_fits (n, v)" "data = pre @ encode_header (n, v) @ post"
  shows "parse_headers_loop data (length pre) headers =
    parse_headers_loop data (length pre + length (encode_header (n, v))) (headers(n \<mapsto> v))"
proof -
  let ?o = "length pre" and ?l = "length n"
  have len: "length (encode_header (n, v)) = ?l + 4 + length v" by (simp add: encode_header_def)
  have dl: "length data = ?o + (?l + 4 + length v) + length post" using assms(2) len by simp
  have un: "unat (word_of_nat ?l :: byte) = ?l" "unat (word_of_nat (length v) :: 16 word) = length v"
    using assms(1) by (simp_all add: header_fits_def unat_of_nat)
  have b0: "data ! ?o = word_of_nat ?l" and nm: "take ?l (drop (?o + 1) data) = n"
    and ty: "data ! (?o + 1 + ?l) = 7" and vl: "take 2 (drop (?o + 2 + ?l) data) = put16 (length v)"
    by (simp_all add: assms(2) encode_header_def nth_append)
  have "data = (pre @ [word_of_nat ?l] @ n @ [7] @ put16 (length v)) @ v @ post"
    by (simp add: assms(2) encode_header_def)
  moreover have "length (pre @ [word_of_nat ?l] @ n @ [7] @ put16 (length v)) = ?o + 4 + ?l" by simp
  ultimately have "drop (?o + 4 + ?l) data = v @ post" by (metis append_eq_conv_conj)
  then have vb: "take (length v) (drop (?o + 4 + ?l) data) = v" by simp
  moreover have "?o + 4 + ?l = Suc (Suc (Suc (Suc (?l + ?o))))" by simp
  ultimately have vb': "take (length v) (drop (Suc (Suc (Suc (Suc (?l + ?o))))) data) = v" by simp
  have name: "parseHeaderName data ?o = Inr (n, ?o + 1 + ?l)"
    using dl assms(1) nm by (simp add: parseHeaderName_def readByte_def readSlice_def b0 header_fits_def)
  have val: "parseHeaderValue data (?o + 1 + ?l + 1) 7 = Inr (Some v, ?o + 4 + ?l + length v)"
    using dl vl vb' assms(1) un
    by (simp add: parseHeaderValue_def parseStringHeaderValue_def readSlice_def header_fits_def Let_def
        add.commute add.left_commute)
  have "parse_headers_loop data ?o headers = parse_headers_loop data (?o + 4 + ?l + length v) (headers(n \<mapsto> v))"
    using dl by (subst parse_headers_loop.simps) (simp only: name sum.case prod.case ty val option.case, simp)
  then show ?thesis by (simp add: len add.commute add.left_commute)
qed

lemma parse_headers_encoded:
  assumes "\<forall>h \<in> set hs. header_fits h"
  shows "parse_headers_loop (pre @ encode_headers hs) (length pre) m = Inr (m ++ map_of (rev hs))"
  using assms
proof (induction hs arbitrary: pre m)
  case Nil
  then show ?case by (simp add: encode_headers_def parse_headers_loop.simps)
next
  case (Cons h hs)
  obtain n v where h: "h = (n, v)" by fastforce
  have fits: "header_fits (n, v)" using Cons.prems by (simp add: h)
  have data: "pre @ encode_headers (h # hs) = pre @ encode_header (n, v) @ encode_headers hs"
    by (simp add: encode_headers_def h)
  have "parse_headers_loop (pre @ encode_headers (h # hs)) (length pre) m =
      parse_headers_loop ((pre @ encode_header (n, v)) @ encode_headers hs) (length (pre @ encode_header (n, v))) (m(n \<mapsto> v))"
    using parse_one_header [OF fits data] by (simp add: data)
  also have "\<dots> = Inr (m(n \<mapsto> v) ++ map_of (rev hs))"
    using Cons.prems by (intro Cons.IH) simp
  also have "m(n \<mapsto> v) ++ map_of (rev hs) = m ++ map_of (rev (h # hs))"
    by (simp add: h)
  finally show ?case .
qed

lemma parse_encoded_headers:
  "\<forall>h \<in> set hs. header_fits h \<Longrightarrow> parseEventStreamHeaders (encode_headers hs) = Inr (map_of (rev hs))"
  using parse_headers_encoded [of hs "[]" Map.empty] by (simp add: parseEventStreamHeaders_def)

section \<open>Parsing\<close>

lemma parse_frame:
  assumes "16 + length rest < 2 ^ 32" "hlen < 2 ^ 32"
  shows "ParseEventStreamMessage (frame hlen rest @ tl') =
    (case go_slice (frame hlen rest @ tl') 12 (unat (12 + word_of_nat hlen :: 32 word)) of
       None \<Rightarrow> Inl out_of_range
     | Some hb \<Rightarrow>
         (case parseEventStreamHeaders hb of
            Inl e \<Rightarrow> Inl (Wrapped ''eventstream'' e)
          | Inr headers \<Rightarrow>
              (case go_slice (frame hlen rest @ tl') (unat (12 + word_of_nat hlen :: 32 word)) (12 + length rest) of
                 None \<Rightarrow> Inl out_of_range
               | Some payload \<Rightarrow> Inr (\<lparr>em_Headers = headers, em_Payload = payload\<rparr>, 16 + length rest))))"
proof -
  have "12 + word_of_nat hlen + (word_of_nat (16 + length rest) - 12 - word_of_nat hlen - 4) =
      (word_of_nat (12 + length rest) :: 32 word)" by simp
  then have e: "unat (12 + word_of_nat hlen + (word_of_nat (16 + length rest) - 12 - word_of_nat hlen - 4) :: 32 word) =
      12 + length rest"
    using assms(1) by (simp add: unat_of_nat del: of_nat_add)
  have t: "unat (word_of_nat (16 + length rest) :: 32 word) = 16 + length rest"
    using assms(1) by (simp add: unat_of_nat del: of_nat_add)
  show ?thesis
    unfolding ParseEventStreamMessage_def frame_prelude [OF assms] sum.case prod.case Let_def
      frame_crc [OF assms(1)] option.case e t
    by simp
qed

lemma parse_encoded_message:
  assumes "\<forall>h \<in> set hs. header_fits h" "16 + length (encode_headers hs) + length payload < 2 ^ 32"
  shows "ParseEventStreamMessage (encode_message hs payload @ more_bytes) =
    Inr (\<lparr>em_Headers = map_of (rev hs), em_Payload = payload\<rparr>, length (encode_message hs payload))"
proof -
  let ?h = "encode_headers hs" and ?f = "frame (length (encode_headers hs)) (encode_headers hs @ payload) @ more_bytes"
  have u: "unat (12 + word_of_nat (length ?h) :: 32 word) = 12 + length ?h"
  proof -
    have "(12 + word_of_nat (length ?h) :: 32 word) = word_of_nat (12 + length ?h)" by simp
    then show ?thesis using assms(2) by (simp only: unat_of_nat) simp
  qed
  have f: "?f = prelude (16 + length (?h @ payload)) (length ?h) @ ?h @ payload @
      put32 (unat (crc32c (prelude (16 + length (?h @ payload)) (length ?h) @ ?h @ payload))) @ more_bytes"
    by (simp add: frame_def Let_def)
  have s1: "go_slice ?f 12 (12 + length ?h) = Some ?h"
    and s2: "go_slice ?f (12 + length ?h) (12 + length (?h @ payload)) = Some payload"
    unfolding f by (simp_all add: go_slice_def)
  have "ParseEventStreamMessage ?f =
      Inr (\<lparr>em_Headers = map_of (rev hs), em_Payload = payload\<rparr>, 16 + length (?h @ payload))"
    using assms parse_frame [of "?h @ payload" "length ?h" more_bytes]
    unfolding u s1 s2 by (simp add: parse_encoded_headers)
  then show ?thesis by (simp add: encode_message_def)
qed

text \<open>
  Round trip of the Event Stream framing: a frame encoded with string headers and a payload, followed by any
  further bytes, parses to exactly those headers (the last one of a name wins) and that payload, and the
  number of bytes consumed is the length of the frame.
\<close>

lemma ParseEventStreamMessage_encode:
  assumes "\<forall>h \<in> set hs. header_fits h" "16 + length (encode_headers hs) + length payload < 2 ^ 32"
  shows "ParseEventStreamMessage (encode_message hs payload @ more_bytes) =
    Inr (\<lparr>em_Headers = map_of (rev hs), em_Payload = payload\<rparr>, length (encode_message hs payload))"
  using assms by (rule parse_encoded_message)

lemma ParseEventStreamMessage_encode_witness:
  "ParseEventStreamMessage (encode_message [(bytes_of '':event-type'', bytes_of ''ping'')] (bytes_of ''{}'') @ [1, 2]) =
   Inr (\<lparr>em_Headers = [bytes_of '':event-type'' \<mapsto> bytes_of ''ping''], em_Payload = bytes_of ''{}''\<rparr>,
        length (encode_message [(bytes_of '':event-type'', bytes_of ''ping'')] (bytes_of ''{}'')))"
  by (subst ParseEventStreamMessage_encode)
    (simp_all add: header_fits_def bytes_of_def encode_headers_def encode_header_def)

text \<open>
  The header length of a frame is not checked against its total length: a frame with correct checksums whose
  declared header length reaches more than four bytes past the space for headers and payload makes the parser
  panic with a slice out of range, and with it the conversion of the response.
\<close>

lemma ParseEventStreamMessage_panics:
  assumes "16 + length rest < 2 ^ 32" "length rest + 4 < hlen" "hlen < 2 ^ 32"
  shows "ParseEventStreamMessage (frame hlen rest) = Inl out_of_range"
proof -
  let ?u = "unat (12 + word_of_nat hlen :: 32 word)"
  have "(12 + word_of_nat hlen :: 32 word) = word_of_nat (12 + hlen)" by simp
  then have u: "?u = (12 + hlen) mod 2 ^ 32" by (simp only: unat_of_nat) simp
  have "?u < 12 \<or> 16 + length rest < ?u"
  proof (cases "12 + hlen < 2 ^ 32")
    case True
    with assms(2) show ?thesis by (simp add: u)
  next
    case False
    then have "(12 + hlen) mod 2 ^ 32 = 12 + hlen - 2 ^ 32"
      using assms(3) by (simp add: mod_if)
    then have "?u < 12" using assms(3) unfolding u by linarith
    then show ?thesis ..
  qed
  then have "go_slice (frame hlen rest) 12 ?u = None" by (auto simp: go_slice_def)
  then show ?thesis using parse_frame [OF assms(1,3), of "[]"] by simp
qed

lemma ParseEventStreamMessage_panics_witness:
  "ParseEventStreamMessage (frame 100 []) = Inl (GoPanic ''slice bounds out of range'')"
  using ParseEventStreamMessage_panics [of "[]" 100] by (simp add: out_of_range_def)

section \<open>Streams\<close>

text \<open>A sequence of bytes whose first four bytes announce its length, intact or corrupt otherwise.\<close>

definition framed :: "bytes \<Rightarrow> bool" where
  "framed b \<longleftrightarrow> 16 \<le> length b \<and> length b < 2 ^ 32 \<and> get32 (take 4 b) = word_of_nat (length b)"

definition no_panic :: "bytes \<Rightarrow> bool" where
  "no_panic b = (case ParseEventStreamMessage b of Inl (GoPanic m) \<Rightarrow> False | _ \<Rightarrow> True)"

definition convert :: "(bytes \<Rightarrow> bytes) \<Rightarrow> bytes \<Rightarrow> bytes" where
  "convert quote b = (case ParseEventStreamMessage b of
     Inr (m, n) \<Rightarrow> FormatMessageAsSSE quote (Some m) | Inl e \<Rightarrow> [])"

lemma framed_len: "framed b \<Longrightarrow> unat (get32 (take 4 b)) = length b"
  by (simp add: framed_def unat_of_nat)

lemma ReadFull_append: "length a = n \<Longrightarrow> ReadFull n (a @ b) = (Inr a, b)"
  by (simp add: ReadFull_def)

lemma readNextMessage_framed:
  assumes "framed b"
  shows "readNextMessage (b @ rest) =
    (case ParseEventStreamMessage b of
       Inl (GoPanic m) \<Rightarrow> Inl (GoPanic m) | Inl e \<Rightarrow> Inl ErrMessageSkipped | Inr (msg, n) \<Rightarrow> Inr msg, rest)"
proof -
  have len: "16 \<le> length b" using assms by (simp add: framed_def)
  have "ReadFull 12 (b @ rest) = ReadFull 12 (take 12 b @ drop 12 b @ rest)"
    by (metis append.assoc append_take_drop_id)
  also have "\<dots> = (Inr (take 12 b), drop 12 b @ rest)" using len by (intro ReadFull_append) simp
  finally have 1: "ReadFull 12 (b @ rest) = (Inr (take 12 b), drop 12 b @ rest)" .
  have 2: "ReadFull (length b - 12) (drop 12 b @ rest) = (Inr (drop 12 b), rest)"
    by (rule ReadFull_append) simp
  have "take 4 (take 12 b) = take 4 b" by simp
  then show ?thesis
    using framed_len [OF assms] len by (simp add: readNextMessage_def 1 2 split: sum.split go_error.split)
qed

lemma writeSSEEvent_ok:
  "writeSSEEvent quote (\<lambda>_. None) msg out =
    (Inr (FormatMessageAsSSE quote (Some msg) \<noteq> []),
     if FormatMessageAsSSE quote (Some msg) \<noteq> [] then out @ [FormatMessageAsSSE quote (Some msg)] else out)"
  by (simp add: writeSSEEvent_def FormatMessageAsSSE_def formatExceptionAsSSE_def formatSSEEvent_def bytes_of_def)

lemma process_loop_framed:
  assumes "framed b" "no_panic b"
  shows "process_loop quote (\<lambda>_. None) n out (b @ rest) =
    (if convert quote b \<noteq> [] then process_loop quote (\<lambda>_. None) (n + 1) (out @ [convert quote b]) rest
     else process_loop quote (\<lambda>_. None) n out rest)"
proof (cases "ParseEventStreamMessage b")
  case (Inl e)
  with assms(2) have "readNextMessage (b @ rest) = (Inl ErrMessageSkipped, rest)"
    by (simp add: readNextMessage_framed [OF assms(1)] no_panic_def split: go_error.splits)
  then show ?thesis
    by (subst process_loop.simps) (simp add: convert_def Inl ErrMessageSkipped_def EOF_def)
next
  case (Inr r)
  obtain m k where r: "r = (m, k)" by fastforce
  have "readNextMessage (b @ rest) = (Inr m, rest)"
    by (simp add: readNextMessage_framed [OF assms(1)] Inr r)
  then show ?thesis
    by (subst process_loop.simps) (simp add: convert_def Inr r writeSSEEvent_ok)
qed

lemma process_loop_frames:
  assumes "\<forall>b \<in> set bs. framed b \<and> no_panic b"
  shows "process_loop quote (\<lambda>_. None) n out (concat bs @ rest) =
    process_loop quote (\<lambda>_. None) (n + length (filter (\<lambda>x. x \<noteq> []) (map (convert quote) bs)))
      (out @ filter (\<lambda>x. x \<noteq> []) (map (convert quote) bs)) rest"
  using assms by (induction bs arbitrary: n out) (simp_all add: process_loop_framed)

lemma process_loop_EOF: "process_loop quote wr n out [] = ((n, None), out)"
  by (subst process_loop.simps) (simp add: readNextMessage_def ReadFull_def EOF_def)

text \<open>
  A response body that is a sequence of frames is converted frame by frame, in order, with a writer that
  does not fail: every frame that parses is written as its own SSE event (frames without an event type write
  nothing), frames that fail a checksum or the header parse are skipped without losing what follows, and
  the count returned is the number of events written.
\<close>

lemma processEventStream_frames:
  assumes "\<forall>b \<in> set bs. framed b \<and> no_panic b"
  shows "processEventStream quote (\<lambda>_. None) (concat bs) =
    ((length (filter (\<lambda>x. x \<noteq> []) (map (convert quote) bs)), None),
     filter (\<lambda>x. x \<noteq> []) (map (convert quote) bs))"
  using process_loop_frames [OF assms, where rest = "[]"]
  by (simp add: processEventStream_def process_loop_EOF)

lemma take4_frame: "take 4 (frame hlen rest) = put32 (16 + length rest)"
  by (simp add: frame_def prelude_def Let_def)

lemma framed_encode:
  assumes "16 + length (encode_headers hs) + length payload < 2 ^ 32"
  shows "framed (encode_message hs payload)"
  using assms by (simp add: framed_def encode_message_def take4_frame)

lemma no_panic_encode:
  assumes "\<forall>h \<in> set hs. header_fits h" "16 + length (encode_headers hs) + length payload < 2 ^ 32"
  shows "no_panic (encode_message hs payload)"
    and "convert quote (encode_message hs payload) =
      FormatMessageAsSSE quote (Some \<lparr>em_Headers = map_of (rev hs), em_Payload = payload\<rparr>)"
  using parse_encoded_message [OF assms, of "[]"] by (simp_all add: no_panic_def convert_def)

lemma processEventStream_frames_witness:
  "processEventStream id (\<lambda>_. None) (concat [encode_message [(bytes_of '':event-type'', bytes_of ''ping'')] [], encode_message [] [1]]) =
   ((1, None), [formatSSEEvent (bytes_of ''ping'') []])"
proof -
  let ?h = "[(bytes_of '':event-type'', bytes_of ''ping'')]"
  have h: "\<forall>h \<in> set ?h. header_fits h" "16 + length (encode_headers ?h) + length ([] :: bytes) < 2 ^ 32"
    by (simp_all add: header_fits_def bytes_of_def encode_headers_def encode_header_def)
  have e: "\<forall>h \<in> set []. header_fits h" "16 + length (encode_headers []) + length ([1] :: bytes) < 2 ^ 32"
    by (simp_all add: encode_headers_def)
  have c: "convert id (encode_message ?h []) = formatSSEEvent (bytes_of ''ping'') []"
    "convert id (encode_message [] [1]) = []"
    unfolding no_panic_encode(2) [OF h] no_panic_encode(2) [OF e]
    by (simp_all add: FormatMessageAsSSE_def header_of_def) (simp add: bytes_of_def)
  have "formatSSEEvent (bytes_of ''ping'') [] \<noteq> []" by (simp add: formatSSEEvent_def)
  then show ?thesis
    using processEventStream_frames [of "[encode_message ?h [], encode_message [] [1]]" id]
      framed_encode [OF h(2)] framed_encode [OF e(2)] no_panic_encode(1) [OF h] no_panic_encode(1) [OF e] c
    by simp
qed

text \<open>
  A body that is cut off right after the prelude of a frame is taken for a complete one: the conversion ends
  without error, with the events of the frames before the cut. (A cut anywhere else inside a frame is
  reported.)
\<close>

lemma processEventStream_truncated:
  assumes "\<forall>b \<in> set bs. framed b \<and> no_panic b" "framed b"
  shows "processEventStream quote (\<lambda>_. None) (concat bs @ take 12 b) = processEventStream quote (\<lambda>_. None) (concat bs) \<and>
    (k < length b \<longrightarrow> k \<noteq> 0 \<longrightarrow> k \<noteq> 12 \<longrightarrow>
      snd (fst (processEventStream quote (\<lambda>_. None) (concat bs @ take k b))) \<noteq> None)"
proof -
  have len: "16 \<le> length b" using assms(2) by (simp add: framed_def)
  let ?E = "filter (\<lambda>x. x \<noteq> []) (map (convert quote) bs)"
  have run: "processEventStream quote (\<lambda>_. None) (concat bs @ rest) =
      process_loop quote (\<lambda>_. None) (length ?E) ?E rest" for rest
    unfolding processEventStream_def using process_loop_frames [OF assms(1), of quote 0 "[]" rest] by simp
  have t: "take 4 (take k b) = take 4 b" if "4 \<le> k" for k using that by (simp add: min_def)
  have "readNextMessage (take 12 b) = (Inl (Wrapped ''eventstream: failed to read message body'' EOF), [])"
    using len framed_len [OF assms(2)] t [of 12] by (simp add: readNextMessage_def ReadFull_def Let_def)
  then have "process_loop quote (\<lambda>_. None) n out (take 12 b) = ((n, None), out)" for n out
    by (subst process_loop.simps) (simp add: EOF_def)
  then have cut: "processEventStream quote (\<lambda>_. None) (concat bs @ take 12 b) = processEventStream quote (\<lambda>_. None) (concat bs)"
    using run [of "take 12 b"] run [of "[]"] by (simp add: process_loop_EOF)
  have "\<exists>e. readNextMessage (take k b) = (Inl e, []) \<and> (e = ErrUnexpectedEOF \<or>
      e = Wrapped ''eventstream: failed to read message body'' ErrUnexpectedEOF)"
    if k: "k < length b" "k \<noteq> 0" "k \<noteq> 12"
  proof (cases "k < 12")
    case True
    then have "\<not> 12 \<le> length (take k b)" "take k b \<noteq> []" using k(2) len by auto
    then show ?thesis using True by (simp add: readNextMessage_def ReadFull_def)
  next
    case False
    then have "take 12 (take k b) = take 12 b" "drop 12 (take k b) \<noteq> []" "12 \<le> length (take k b)"
      "length (drop 12 (take k b)) < length b - 12"
      using k len by (auto simp: min_def)
    then show ?thesis
      using len k framed_len [OF assms(2)] t [of 12] by (simp add: readNextMessage_def ReadFull_def Let_def)
  qed
  then have "snd (fst (processEventStream quote (\<lambda>_. None) (concat bs @ take k b))) \<noteq> None"
    if "k < length b" "k \<noteq> 0" "k \<noteq> 12"
    using that unfolding run
    by (subst process_loop.simps) (auto simp: EOF_def ErrUnexpectedEOF_def ErrMessageSkipped_def)
  with cut show ?thesis by blast
qed

lemma processEventStream_truncated_witness:
  "processEventStream id (\<lambda>_. None) (take 12 (encode_message [] [1, 2, 3])) = ((0, None), [])"
proof -
  have "framed (encode_message [] [1, 2, 3])" by (rule framed_encode) (simp add: encode_headers_def)
  from processEventStream_truncated [of "[]" "encode_message [] [1, 2, 3]" id 12, OF _ this] show ?thesis
    by (simp add: processEventStream_def process_loop_EOF)
qed

section \<open>The SSE text\<close>

text \<open>What a client of the stream reads: the data lines of an event, joined by newlines.\<close>

fun join_lines :: "bytes list \<Rightarrow> bytes" where
  "join_lines [] = []"
| "join_lines [l] = l"
| "join_lines (l # m # ls) = l @ [10] @ join_lines (m # ls)"

definition sse_data :: "bytes \<Rightarrow> bytes" where
  "sse_data ev = join_lines (map (drop 6) (filter (\<lambda>l. take 6 l = bytes_of ''data: '') (split_lines ev)))"

lemma split_lines_nonempty [simp]: "split_lines b \<noteq> []"
  by (induction b) (auto split: list.splits)

lemma split_lines_append: "split_lines (a @ 10 # b) = split_lines a @ split_lines b"
  by (induction a) (auto split: list.splits)

lemma split_lines_no_newline: "10 \<notin> set l \<Longrightarrow> split_lines l = [l]"
  by (induction l) auto

lemma split_lines_lines: "l \<in> set (split_lines b) \<Longrightarrow> 10 \<notin> set l"
  by (induction b arbitrary: l) (auto split: list.splits if_splits)

lemma join_split: "join_lines (split_lines b) = b"
proof (induction b)
  case Nil
  then show ?case by simp
next
  case (Cons c b)
  obtain l ls where "split_lines b = l # ls" by (cases "split_lines b") auto
  with Cons show ?case by (cases ls) auto
qed

lemma data_lines_join: "data_lines ls = join_lines (map ((@) (bytes_of ''data: '')) ls)"
  by (induction ls rule: data_lines.induct) simp_all

lemma split_join:
  "ls \<noteq> [] \<Longrightarrow> \<forall>l \<in> set ls. 10 \<notin> set l \<Longrightarrow> split_lines (join_lines ls) = ls"
  by (induction ls rule: join_lines.induct) (simp_all add: split_lines_no_newline split_lines_append)

text \<open>
  The SSE text carries the payload unchanged: a client that joins the data lines of the event written for an
  event type without newline gets the payload back byte for byte, newlines included.
\<close>

lemma formatSSEEvent_payload:
  assumes "10 \<notin> set eventType"
  shows "sse_data (formatSSEEvent eventType payload) = payload"
proof -
  let ?d = "bytes_of ''data: ''" and ?L = "split_lines payload"
  have d: "10 \<notin> set ?d" "length ?d = 6" "10 \<notin> set (bytes_of ''event: '')" by (simp_all add: bytes_of_def)
  have "formatSSEEvent eventType payload =
      (bytes_of ''event: '' @ eventType) @ 10 # (join_lines (map ((@) ?d) ?L) @ 10 # [10])"
    by (simp add: formatSSEEvent_def mapBedrockEventType_def data_lines_join)
  moreover have "split_lines (bytes_of ''event: '' @ eventType) = [bytes_of ''event: '' @ eventType]"
    using assms d by (intro split_lines_no_newline) simp
  moreover have "split_lines (join_lines (map ((@) ?d) ?L)) = map ((@) ?d) ?L"
    using d split_lines_lines by (intro split_join) auto
  ultimately have "split_lines (formatSSEEvent eventType payload) =
      (bytes_of ''event: '' @ eventType) # map ((@) ?d) ?L @ [[], []]"
    by (simp only: split_lines_append) simp
  moreover have "take 6 (bytes_of ''event: '' @ eventType) \<noteq> ?d" by (simp add: bytes_of_def)
  moreover have "take 6 [] \<noteq> ?d" by (simp add: bytes_of_def)
  moreover have "filter (\<lambda>l. take 6 l = ?d) (map ((@) ?d) ?L) = map ((@) ?d) ?L"
    using d(2) by (simp add: filter_id_conv)
  moreover have "map (drop 6) (map ((@) ?d) ?L) = ?L"
    using d(2) by (simp add: map_idI)
  ultimately show ?thesis
    by (simp only: sse_data_def filter.simps filter_append if_False append_Nil2 map_append join_split)
qed

lemma formatSSEEvent_payload_witness:
  "sse_data (formatSSEEvent (bytes_of ''content_block_delta'') [123, 10, 125]) = [123, 10, 125]"
  by (rule formatSSEEvent_payload) (simp add: bytes_of_def)

end
