(* ===== verification/ZAI_Cooldown.thy ===== *)
theory ZAI_Cooldown
  imports CR_Prelude
begin

text \<open>
  How long a key rests after a rate-limit response (\<open>internal/providers/cooldown.go\<close>,
  \<open>zai_errors.go\<close>): the three resolvers, the Retry-After header and the business error codes of Z.AI.
\<close>

section \<open>The surroundings of a response\<close>

text \<open>A JSON document as decoded by \<open>encoding/json\<close>; object members in the order of the text.\<close>

datatype json = JNull | JBool bool | JNum string | JStr string | JArr "json list" | JObj "(string \<times> json) list"

text \<open>
  What the resolvers read besides the response: the clock, the syntax of JSON, the two date formats of
  the standard library, and \<open>time.ParseInLocation\<close> with the local time zone (layout first).
\<close>

record cd_env =
  ce_now :: go_time
  ce_json :: "string \<Rightarrow> json option"
  ce_rfc3339 :: "string \<Rightarrow> go_time option"
  ce_http_time :: "string \<Rightarrow> go_time option"
  ce_parse_local :: "string \<Rightarrow> string \<Rightarrow> go_time option"

text \<open>The body is what reading it to the end gives.\<close>

record response =
  rs_StatusCode :: int
  rs_Header :: header
  rs_Body :: "go_error + string"

section \<open>Error codes\<close>

datatype zai_category = ZAICatTransient | ZAICatQuotaExhausted | ZAICatPermanent

definition classifyZAIError :: "string \<Rightarrow> zai_category" where
  "classifyZAIError code =
     (if code \<in> {''1302'', ''1303'', ''1305'', ''1312'', ''1234''} then ZAICatTransient
      else if code \<in> {''1304'', ''1308'', ''1310''} then ZAICatQuotaExhausted
      else if code \<in> {''1309'', ''1311'', ''1313'', ''1112'', ''1113'', ''1121''} then ZAICatPermanent
      else ZAICatTransient)"

definition suggestedCooldown :: "string \<Rightarrow> duration" where
  "suggestedCooldown code =
     (if code = ''1302'' then seconds 20
      else if code = ''1303'' then seconds 20
      else if code = ''1304'' then hours 1
      else if code = ''1305'' \<or> code = ''1312'' then seconds 20
      else if code = ''1234'' then seconds 30
      else if code = ''1308'' then hours 5
      else if code = ''1310'' then hours 1
      else if code \<in> {''1309'', ''1311'', ''1313'', ''1112'', ''1113'', ''1121''} then 0
      else seconds 20)"

definition IsZAIRetryable400Code :: "string \<Rightarrow> bool" where
  "IsZAIRetryable400Code code \<longleftrightarrow> code = ''1234''"

text \<open>
  \<open>parseResetTimeFromMessage\<close>: the regular expression \<open>\d{4}-\d{1,2}-\d{1,2}[\sT]\d{1,2}:\d{2}(?::\d{2})?\<close> as a
  parser that gives the matched text and the rest of the input. Every \<open>\d{1,2}\<close> is followed by a character
  that is no digit, so taking as many digits as allowed is the only way to match.
\<close>

fun re_digits :: "nat \<Rightarrow> nat \<Rightarrow> string \<Rightarrow> (string \<times> string) option" where
  "re_digits at_least at_most s =
     (let n = length (takeWhile is_digit (take at_most s))
      in if n < at_least then None else Some (take n s, drop n s))"

fun re_class :: "char set \<Rightarrow> string \<Rightarrow> (string \<times> string) option" where
  "re_class cs [] = None"
| "re_class cs (c # s) = (if c \<in> cs then Some ([c], s) else None)"

fun re_seq :: "(string \<Rightarrow> (string \<times> string) option) list \<Rightarrow> string \<Rightarrow> (string \<times> string) option" where
  "re_seq [] s = Some ([], s)"
| "re_seq (p # ps) s =
     (case p s of None \<Rightarrow> None
      | Some (m, rest) \<Rightarrow> map_option (\<lambda>(m', rest'). (m @ m', rest')) (re_seq ps rest))"

definition re_space_or_T :: "char set" where
  "re_space_or_T = {CHR 0x09, CHR 0x0A, CHR 0x0C, CHR 0x0D, CHR 0x20, CHR ''T''}"

definition zaiDatetimeRe :: "string \<Rightarrow> string option" where
  "zaiDatetimeRe s =
     (case re_seq [re_digits 4 4, re_class {CHR ''-''}, re_digits 1 2, re_class {CHR ''-''}, re_digits 1 2,
                   re_class re_space_or_T, re_digits 1 2, re_class {CHR '':''}, re_digits 2 2] s of
        None \<Rightarrow> None
      | Some (m, rest) \<Rightarrow>
          (case re_seq [re_class {CHR '':''}, re_digits 2 2] rest of
             None \<Rightarrow> Some m
           | Some (m', _) \<Rightarrow> Some (m @ m')))"

text \<open>\<open>FindString\<close>: the leftmost match, empty when there is none.\<close>

fun FindString :: "string \<Rightarrow> string" where
  "FindString [] = []"
| "FindString (c # s) = (case zaiDatetimeRe (c # s) of Some m \<Rightarrow> m | None \<Rightarrow> FindString s)"

definition zaiTimeFormats :: "string list" where
  "zaiTimeFormats = [''2006-01-02 15:04:05'', ''2006-01-02T15:04:05'', ''2006-01-02 15:04'', ''2006-01-02T15:04'']"

fun parse_layouts :: "cd_env \<Rightarrow> string \<Rightarrow> string list \<Rightarrow> go_time" where
  "parse_layouts env m [] = 0"
| "parse_layouts env m (layout # layouts) =
     (case ce_parse_local env layout m of Some t \<Rightarrow> t | None \<Rightarrow> parse_layouts env m layouts)"

definition parseResetTimeFromMessage :: "cd_env \<Rightarrow> string \<Rightarrow> go_time" where
  "parseResetTimeFromMessage env msg =
     (if FindString msg = [] then 0 else parse_layouts env (FindString msg) zaiTimeFormats)"

record zai_info =
  zi_Code :: string
  zi_Message :: string
  zi_Category :: zai_category
  zi_Cooldown :: duration
  zi_IsPermanent :: bool
  zi_ResetTime :: go_time

text \<open>
  \<open>json.Unmarshal\<close> into a struct of strings: members whose name matches a field up to letter case set it, a null
  leaves it, and a value of another kind is an error.
\<close>

definition name_matches :: "string \<Rightarrow> string \<Rightarrow> bool" where
  "name_matches field k \<longleftrightarrow> map to_lower k = map to_lower field"

fun set_string :: "json \<Rightarrow> string \<Rightarrow> string option" where
  "set_string (JStr s) old = Some s"
| "set_string JNull old = Some old"
| "set_string v old = None"

fun decode_detail :: "(string \<times> json) list \<Rightarrow> string \<times> string \<Rightarrow> (string \<times> string) option" where
  "decode_detail [] d = Some d"
| "decode_detail ((k, v) # ms) (c, m) =
     (if name_matches ''code'' k then (case set_string v c of None \<Rightarrow> None | Some c' \<Rightarrow> decode_detail ms (c', m))
      else if name_matches ''message'' k then (case set_string v m of None \<Rightarrow> None | Some m' \<Rightarrow> decode_detail ms (c, m'))
      else decode_detail ms (c, m))"

fun decode_error :: "(string \<times> json) list \<Rightarrow> string \<times> string \<Rightarrow> (string \<times> string) option" where
  "decode_error [] d = Some d"
| "decode_error ((k, v) # ms) d =
     (if name_matches ''error'' k
      then (case v of
              JObj det \<Rightarrow> (case decode_detail det d of None \<Rightarrow> None | Some d' \<Rightarrow> decode_error ms d')
            | JNull \<Rightarrow> decode_error ms d
            | _ \<Rightarrow> None)
      else decode_error ms d)"

definition decode_zai :: "json \<Rightarrow> (string \<times> string) option" where
  "decode_zai j = (case j of JObj ms \<Rightarrow> decode_error ms ([], []) | JNull \<Rightarrow> Some ([], []) | _ \<Rightarrow> None)"

definition ParseZAI429Error :: "cd_env \<Rightarrow> go_error + string \<Rightarrow> (zai_info option \<times> string) option" where
  "ParseZAI429Error env body =
     (case body of
        Inl e \<Rightarrow> None
      | Inr bodyBytes \<Rightarrow>
          (case Option.bind (ce_json env bodyBytes) decode_zai of
             None \<Rightarrow> Some (None, bodyBytes)
           | Some (code, message) \<Rightarrow>
               if code = [] then Some (None, bodyBytes)
               else
                 (let info = \<lparr>zi_Code = code, zi_Message = message, zi_Category = classifyZAIError code,
                        zi_Cooldown = suggestedCooldown code,
                        zi_IsPermanent = (classifyZAIError code = ZAICatPermanent), zi_ResetTime = 0\<rparr>;
                      resetTime = parseResetTimeFromMessage env message;
                      cooldown = time_until (ce_now env) resetTime
                  in Some (Some (if code = ''1308'' \<and> resetTime \<noteq> 0 \<and> 0 < cooldown
                                 then info\<lparr>zi_Cooldown := cooldown, zi_ResetTime := resetTime\<rparr> else info),
                           bodyBytes))))"

section \<open>The resolvers\<close>

definition MaxCooldownCap :: duration where "MaxCooldownCap = hours 6"
definition defaultCooldown :: duration where "defaultCooldown = seconds 20"

record decision =
  cd_Cooldown :: duration
  cd_IsPermanent :: bool
  cd_SkipCB :: bool

definition no_decision :: decision where
  "no_decision = \<lparr>cd_Cooldown = 0, cd_IsPermanent = False, cd_SkipCB = False\<rparr>"

definition parseRetryAfterHeader :: "cd_env \<Rightarrow> header \<Rightarrow> duration" where
  "parseRetryAfterHeader env headers =
     (let val = header_get headers ''Retry-After''
      in if val = [] then defaultCooldown
         else case atoi val of
                Some secs \<Rightarrow> wrap64 (secs * nsec_per_sec)
              | None \<Rightarrow>
                  (case ce_http_time env val of
                     Some t \<Rightarrow> (let d = time_until (ce_now env) t in if 0 < d then d else defaultCooldown)
                   | None \<Rightarrow> defaultCooldown))"

definition cap_cooldown :: "duration \<Rightarrow> duration" where
  "cap_cooldown cd = (if MaxCooldownCap < cd then MaxCooldownCap else cd)"

definition generic_Resolve :: "cd_env \<Rightarrow> response \<Rightarrow> decision" where
  "generic_Resolve env resp =
     (if rs_StatusCode resp \<noteq> 429 then no_decision
      else no_decision\<lparr>cd_Cooldown := cap_cooldown (parseRetryAfterHeader env (rs_Header resp))\<rparr>)"

fun reset_headers_loop :: "cd_env \<Rightarrow> header \<Rightarrow> string list \<Rightarrow> duration" where
  "reset_headers_loop env h [] = 0"
| "reset_headers_loop env h (key # keys) =
     (let val = header_get h key
      in if val = [] then reset_headers_loop env h keys
         else case ce_rfc3339 env val of
                Some t \<Rightarrow> (let d = time_until (ce_now env) t in if 0 < d then d else reset_headers_loop env h keys)
              | None \<Rightarrow> reset_headers_loop env h keys)"

definition parseResetHeaders :: "cd_env \<Rightarrow> header \<Rightarrow> duration" where
  "parseResetHeaders env h = reset_headers_loop env h [''X-RateLimit-Reset-Requests'', ''X-RateLimit-Reset-Tokens'']"

definition openAI_Resolve :: "cd_env \<Rightarrow> response \<Rightarrow> decision" where
  "openAI_Resolve env resp =
     (if rs_StatusCode resp \<noteq> 429 then no_decision
      else let cd = parseResetHeaders env (rs_Header resp)
           in if 0 < cd then no_decision\<lparr>cd_Cooldown := cap_cooldown cd\<rparr>
              else no_decision\<lparr>cd_Cooldown := cap_cooldown (parseRetryAfterHeader env (rs_Header resp))\<rparr>)"

text \<open>The Z.AI resolver reads the body and puts back what it read.\<close>

definition zai_resolve429 :: "cd_env \<Rightarrow> response \<Rightarrow> decision \<times> response" where
  "zai_resolve429 env resp =
     (case ParseZAI429Error env (rs_Body resp) of
        None \<Rightarrow> (no_decision\<lparr>cd_Cooldown := parseRetryAfterHeader env (rs_Header resp)\<rparr>, resp\<lparr>rs_Body := Inr []\<rparr>)
      | Some (info, bodyBytes) \<Rightarrow>
          (let resp = resp\<lparr>rs_Body := Inr bodyBytes\<rparr>
           in case info of
                None \<Rightarrow> (no_decision\<lparr>cd_Cooldown := parseRetryAfterHeader env (rs_Header resp)\<rparr>, resp)
              | Some i \<Rightarrow>
                  if zi_IsPermanent i then (\<lparr>cd_Cooldown = 0, cd_IsPermanent = True, cd_SkipCB = True\<rparr>, resp)
                  else (\<lparr>cd_Cooldown = cap_cooldown (zi_Cooldown i), cd_IsPermanent = False,
                          cd_SkipCB = (zi_Category i = ZAICatTransient)\<rparr>, resp)))"

definition zai_resolve400 :: "cd_env \<Rightarrow> response \<Rightarrow> decision \<times> response" where
  "zai_resolve400 env resp =
     (case ParseZAI429Error env (rs_Body resp) of
        None \<Rightarrow> (no_decision, resp\<lparr>rs_Body := Inr []\<rparr>)
      | Some (info, bodyBytes) \<Rightarrow>
          (let resp = resp\<lparr>rs_Body := Inr bodyBytes\<rparr>
           in case info of
                None \<Rightarrow> (no_decision, resp)
              | Some i \<Rightarrow>
                  if \<not> IsZAIRetryable400Code (zi_Code i) then (no_decision, resp)
                  else (\<lparr>cd_Cooldown = seconds 30, cd_IsPermanent = False, cd_SkipCB = True\<rparr>, resp)))"

definition zai_Resolve :: "cd_env \<Rightarrow> response \<Rightarrow> decision \<times> response" where
  "zai_Resolve env resp =
     (if rs_StatusCode resp = 429 then zai_resolve429 env resp
      else if rs_StatusCode resp = 400 then zai_resolve400 env resp
      else (no_decision, resp))"

text \<open>\<open>NewCooldownResolver\<close> and the call of the resolver it returns.\<close>

definition Resolve :: "cd_env \<Rightarrow> string \<Rightarrow> response \<Rightarrow> decision \<times> response" where
  "Resolve env strategy resp =
     (if strategy = ''zai'' then zai_Resolve env resp
      else if strategy = ''openai'' then (openAI_Resolve env resp, resp)
      else (generic_Resolve env resp, resp))"

definition ZAI429Details :: "cd_env \<Rightarrow> response \<Rightarrow> (string \<times> string \<times> string \<times> duration) \<times> response" where
  "ZAI429Details env resp =
     (case ParseZAI429Error env (rs_Body resp) of
        None \<Rightarrow> (([], [], [], 0), resp\<lparr>rs_Body := Inr []\<rparr>)
      | Some (None, bodyBytes) \<Rightarrow> (([], [], [], 0), resp\<lparr>rs_Body := Inr bodyBytes\<rparr>)
      | Some (Some i, bodyBytes) \<Rightarrow>
          ((zi_Code i, zi_Message i,
            (case zi_Category i of ZAICatTransient \<Rightarrow> ''transient'' | ZAICatQuotaExhausted \<Rightarrow> ''quota_exhausted''
             | ZAICatPermanent \<Rightarrow> ''permanent''), zi_Cooldown i), resp\<lparr>rs_Body := Inr bodyBytes\<rparr>))"

definition Description :: "zai_info \<Rightarrow> string" where
  "Description i =
     (let c = zi_Code i; m = zi_Message i
      in if c = ''1302'' then ''ZAI: Too many concurrent requests. Please reduce parallelism.''
         else if c = ''1303'' then ''ZAI: Request frequency too high. Please slow down.''
         else if c = ''1304'' then ''ZAI: Daily API call limit reached. Limit resets at midnight.''
         else if c = ''1305'' then ''ZAI: Traffic limit triggered. Please retry in a few minutes.''
         else if c = ''1308'' then ''ZAI: Usage limit reached. '' @ m
         else if c = ''1312'' then ''ZAI: Model is currently overloaded. Please retry later or switch models.''
         else if c = ''1309'' then ''ZAI: GLM Coding Plan has expired. Please renew at https://bigmodel.cn/claude-code''
         else if c = ''1310'' then ''ZAI: Weekly/monthly usage limit reached. '' @ m
         else if c = ''1311'' then ''ZAI: Current subscription does not include this model. '' @ m
         else if c = ''1112'' then ''ZAI: Account has been locked. Please contact support.''
         else if c = ''1113'' then ''ZAI: Account is in arrears. Please add funds to continue.''
         else if c = ''1121'' then ''ZAI: Account has policy violations and has been locked. Please contact service@zhipuai.cn.''
         else if c = ''1313'' then
           ''ZAI: Fair use policy violation. Request frequency has been limited. Please apply for restriction removal in your account settings '' @
             [CHR 0x28, CHR 0xE4, CHR 0xB8, CHR 0xAA, CHR 0xE4, CHR 0xBA, CHR 0xBA, CHR 0xE4, CHR 0xB8, CHR 0xAD,
              CHR 0xE5, CHR 0xBF, CHR 0x83, CHR 0x20, CHR 0xE2, CHR 0x86, CHR 0x92, CHR 0x20, CHR 0xE7, CHR 0xBC,
              CHR 0x96, CHR 0xE7, CHR 0xA8, CHR 0x8B, CHR 0xE5, CHR 0xA5, CHR 0x97, CHR 0xE9, CHR 0xA4, CHR 0x90,
              CHR 0xE6, CHR 0x80, CHR 0xBB, CHR 0xE8, CHR 0xA7, CHR 0x88, CHR 0x29, CHR 0x2E]
         else if c = ''1234'' then ''ZAI: Retryable bad request error. Please retry after cooldown.''
         else if m \<noteq> [] then ''ZAI: '' @ m
         else ''ZAI: Rate limit reached.'')"

section \<open>Properties\<close>

lemma cap_cooldown_le [simp]: "cap_cooldown d \<le> MaxCooldownCap"
  by (simp add: cap_cooldown_def)

lemma ParseZAI429Error_Inr:
  "\<exists>i. ParseZAI429Error env (Inr b) = Some (i, b) \<and>
     (\<forall>x. i = Some x \<longrightarrow> zi_Code x \<noteq> [] \<and> zi_Category x = classifyZAIError (zi_Code x) \<and>
        zi_IsPermanent x = (classifyZAIError (zi_Code x) = ZAICatPermanent) \<and> 0 \<le> zi_Cooldown x)"
  by (auto simp: ParseZAI429Error_def Let_def suggestedCooldown_def time_defs split: option.splits)

text \<open>The code a body carries, if any.\<close>

definition zai_code :: "cd_env \<Rightarrow> response \<Rightarrow> string" where
  "zai_code env resp = (case ParseZAI429Error env (rs_Body resp) of Some (Some i, b) \<Rightarrow> zi_Code i | _ \<Rightarrow> [])"

text \<open>
  Whatever the strategy, resolving a response whose body can be read leaves the response as it was, body
  included, decides nothing unless the status is 429 (or 400 for Z.AI), and declares a key error permanent
  exactly for a Z.AI 429 with one of the six account and plan codes, in which case it gives no cooldown and does
  not blame the provider. A cooldown taken from a Z.AI code or by another strategy never exceeds the cap.
\<close>

lemma Resolve_spec:
  assumes "rs_Body resp = Inr b"
  shows "snd (Resolve env strategy resp) = resp \<and>
    (rs_StatusCode resp \<noteq> 429 \<longrightarrow> \<not> (strategy = ''zai'' \<and> rs_StatusCode resp = 400) \<longrightarrow>
       fst (Resolve env strategy resp) = no_decision) \<and>
    (cd_IsPermanent (fst (Resolve env strategy resp)) \<longleftrightarrow> strategy = ''zai'' \<and> rs_StatusCode resp = 429 \<and>
       zai_code env resp \<in> {''1309'', ''1311'', ''1313'', ''1112'', ''1113'', ''1121''}) \<and>
    (cd_IsPermanent (fst (Resolve env strategy resp)) \<longrightarrow>
       cd_Cooldown (fst (Resolve env strategy resp)) = 0 \<and> cd_SkipCB (fst (Resolve env strategy resp))) \<and>
    (strategy \<noteq> ''zai'' \<or> zai_code env resp \<noteq> [] \<longrightarrow> cd_Cooldown (fst (Resolve env strategy resp)) \<le> MaxCooldownCap)"
proof -
  have cap: "0 \<le> MaxCooldownCap" "seconds 30 \<le> MaxCooldownCap" by (simp_all add: MaxCooldownCap_def time_defs)
  show ?thesis
  proof (cases "strategy = ''zai''")
    case False
    then show ?thesis
      using cap by (auto simp: Resolve_def openAI_Resolve_def generic_Resolve_def no_decision_def Let_def)
  next
    case True
    obtain i where i: "ParseZAI429Error env (Inr b) = Some (i, b)"
      and x: "\<And>x. i = Some x \<Longrightarrow> zi_Code x \<noteq> [] \<and>
        zi_IsPermanent x = (classifyZAIError (zi_Code x) = ZAICatPermanent)"
      using ParseZAI429Error_Inr by blast
    have perm: "classifyZAIError c = ZAICatPermanent \<longleftrightarrow>
        c \<in> {''1309'', ''1311'', ''1313'', ''1112'', ''1113'', ''1121''}" for c
      by (simp add: classifyZAIError_def)
    have upd: "resp\<lparr>rs_Body := Inr b\<rparr> = resp" using assms by simp
    show ?thesis
    proof (cases i)
      case None
      then show ?thesis
        using True i assms upd cap
        by (simp add: Resolve_def zai_Resolve_def zai_resolve429_def zai_resolve400_def no_decision_def zai_code_def Let_def)
    next
      case (Some y)
      then show ?thesis
        using True i assms upd cap x [OF Some] perm [of "zi_Code y"]
        by (simp add: Resolve_def zai_Resolve_def zai_resolve429_def zai_resolve400_def no_decision_def zai_code_def Let_def)
    qed
  qed
qed

definition demo_cd_env :: cd_env where
  "demo_cd_env = \<lparr>ce_now = 0, ce_json = (\<lambda>s. if s = ''J'' then Some (JObj [(''error'', JObj [(''code'', JStr ''1113'')])]) else None),
     ce_rfc3339 = (\<lambda>_. None), ce_http_time = (\<lambda>_. None), ce_parse_local = (\<lambda>_ _. None)\<rparr>"

lemma Resolve_spec_witness:
  "cd_IsPermanent (fst (Resolve demo_cd_env ''zai'' \<lparr>rs_StatusCode = 429, rs_Header = (\<lambda>_. []), rs_Body = Inr ''J''\<rparr>))"
proof -
  have "zai_code demo_cd_env \<lparr>rs_StatusCode = 429, rs_Header = (\<lambda>_. []), rs_Body = Inr ''J''\<rparr> = ''1113''"
    by (simp add: zai_code_def ParseZAI429Error_def demo_cd_env_def decode_zai_def name_matches_def Let_def to_lower_def is_upper_def)
  then show ?thesis
    using Resolve_spec [of "\<lparr>rs_StatusCode = 429, rs_Header = (\<lambda>_. []), rs_Body = Inr ''J''\<rparr>" "''J''" demo_cd_env "''zai''"]
    by simp
qed

text \<open>
  A long Retry-After overflows. The number of seconds is multiplied into nanoseconds in 64 bits before the cap is
  applied, so a value whose nanoseconds fall between \<open>2 ^ 63\<close> and \<open>2 ^ 64\<close> (about 292 to 584 years; also any
  negative number that fits) gives a negative cooldown, which the caller ignores: the key is not rested at all.
\<close>

lemma RetryAfter_overflows:
  assumes "rs_StatusCode resp = 429" "strategy \<noteq> ''zai''" "strategy \<noteq> ''openai''"
    and "header_get (rs_Header resp) ''Retry-After'' = itoa n" "in_int64 n"
    and "2 ^ 63 \<le> n * nsec_per_sec \<and> n * nsec_per_sec < 2 ^ 64 \<or> n < 0 \<and> - (2 ^ 63) \<le> n * nsec_per_sec"
  shows "cd_Cooldown (fst (Resolve env strategy resp)) < 0"
proof -
  have "itoa n \<noteq> []" by (simp add: itoa_def)
  then have "parseRetryAfterHeader env (rs_Header resp) = wrap64 (n * nsec_per_sec)"
    using assms(4,5) by (simp add: parseRetryAfterHeader_def atoi_itoa)
  moreover have "wrap64 (n * nsec_per_sec) < 0"
    using assms(6)
  proof (elim disjE conjE)
    assume "2 ^ 63 \<le> n * nsec_per_sec" "n * nsec_per_sec < 2 ^ 64"
    then have "(n * nsec_per_sec + 2 ^ 63) mod 2 ^ 64 = n * nsec_per_sec + 2 ^ 63 - 2 ^ 64"
      using mod_add_self2 [of "n * nsec_per_sec - 2 ^ 63" "2 ^ 64 :: int"] by (simp add: add.commute)
    with \<open>n * nsec_per_sec < 2 ^ 64\<close> show ?thesis by (simp add: wrap64_def)
  next
    assume "n < 0" "- (2 ^ 63) \<le> n * nsec_per_sec"
    then have "in_int64 (n * nsec_per_sec)" "n * nsec_per_sec < 0"
      by (simp_all add: in_int64_def nsec_per_sec_def)
    then show ?thesis by simp
  qed
  moreover have "0 \<le> MaxCooldownCap" by (simp add: MaxCooldownCap_def time_defs)
  ultimately show ?thesis
    using assms(1-3) by (simp add: Resolve_def generic_Resolve_def cap_cooldown_def)
qed

lemma RetryAfter_overflows_witness:
  "cd_Cooldown (fst (Resolve demo_cd_env ''generic''
     \<lparr>rs_StatusCode = 429, rs_Header = header_set (\<lambda>_. []) ''Retry-After'' (itoa 10000000000), rs_Body = Inr []\<rparr>)) < 0"
  by (rule RetryAfter_overflows [where n = 10000000000]) (simp_all add: in_int64_def nsec_per_sec_def)

text \<open>
  The cap on cooldowns is missing in one place: for a Z.AI 429 without a recognisable error code the Retry-After
  header is taken as it is, however long, while every other strategy caps the same header.
\<close>

lemma zai_fallback_uncapped:
  assumes "rs_StatusCode resp = 429" "zai_code env resp = []"
  shows "cd_Cooldown (fst (Resolve env ''zai'' resp)) = parseRetryAfterHeader env (rs_Header resp) \<and>
    cd_Cooldown (fst (Resolve env ''generic'' resp)) = min MaxCooldownCap (parseRetryAfterHeader env (rs_Header resp))"
proof -
  have "\<exists>b. ParseZAI429Error env (rs_Body resp) = None \<or> ParseZAI429Error env (rs_Body resp) = Some (None, b)"
  proof (cases "rs_Body resp")
    case (Inl e)
    then show ?thesis by (simp add: ParseZAI429Error_def)
  next
    case (Inr b)
    obtain i where "ParseZAI429Error env (Inr b) = Some (i, b)" "\<And>x. i = Some x \<Longrightarrow> zi_Code x \<noteq> []"
      using ParseZAI429Error_Inr by blast
    with assms(2) Inr show ?thesis by (cases i) (simp_all add: zai_code_def)
  qed
  then show ?thesis
    using assms(1) by (auto simp: Resolve_def zai_Resolve_def zai_resolve429_def generic_Resolve_def cap_cooldown_def)
qed

lemma zai_fallback_uncapped_witness:
  "MaxCooldownCap < cd_Cooldown (fst (Resolve demo_cd_env ''zai''
     \<lparr>rs_StatusCode = 429, rs_Header = header_set (\<lambda>_. []) ''Retry-After'' (itoa 86400), rs_Body = Inr ''busy''\<rparr>))"
proof -
  have "zai_code demo_cd_env \<lparr>rs_StatusCode = 429, rs_Header = header_set (\<lambda>_. []) ''Retry-After'' (itoa 86400), rs_Body = Inr ''busy''\<rparr> = []"
    by (simp add: zai_code_def ParseZAI429Error_def demo_cd_env_def)
  moreover have "itoa 86400 \<noteq> []" by (simp add: itoa_def)
  moreover have "atoi (itoa 86400) = Some 86400" by (rule atoi_itoa) (simp add: in_int64_def)
  ultimately show ?thesis
    using zai_fallback_uncapped [of "\<lparr>rs_StatusCode = 429, rs_Header = header_set (\<lambda>_. []) ''Retry-After'' (itoa 86400),
      rs_Body = Inr ''busy''\<rparr>" demo_cd_env]
    by (simp add: parseRetryAfterHeader_def MaxCooldownCap_def time_defs in_int64_def)
qed

end
