(* ===== verification/Key_Updater.thy ===== *)
theory Key_Updater
  imports Key_Pool_Facts ZAI_Cooldown
begin

text \<open>
  What the proxy does to the key pool with the response of a provider (\<open>internal/proxy/keypool_updater.go\<close>).
  The two steps read the clock of \<open>env\<close>; \<open>now\<close> is the clock when the mark is made.
\<close>

section \<open>The update\<close>

definition anthropic_owners :: "string set" where
  "anthropic_owners = {''anthropic'', ''aws'', ''google''}"

definition applyCooldownDecision ::
    "go_time \<Rightarrow> decision \<Rightarrow> string \<Rightarrow> ('l, 's) key_pool \<Rightarrow> bool \<times> ('l, 's) key_pool" where
  "applyCooldownDecision now d keyID p =
     (if cd_IsPermanent d
      then (cd_SkipCB d, MarkKeyUnhealthy now keyID ''permanent key error, marking unhealthy'' p)
      else (cd_SkipCB d, if 0 < cd_Cooldown d then MarkKeyExhausted now keyID (cd_Cooldown d) p else p))"

text \<open>The part after the learning from headers; \<open>resp\<close> may have its body read and restored.\<close>

definition mark_from_status ::
    "cd_env \<Rightarrow> go_time \<Rightarrow> string \<Rightarrow> string \<Rightarrow> response \<Rightarrow> ('l, 's) key_pool \<Rightarrow>
     bool \<times> response \<times> ('l, 's) key_pool" where
  "mark_from_status env now cooldownStrategy keyID resp p =
     (if rs_StatusCode resp = 429
      then (let (d, resp) = Resolve env cooldownStrategy resp;
                (skip, p) = applyCooldownDecision now d keyID p
            in (skip, resp, p))
      else if rs_StatusCode resp = 403 then (True, resp, MarkKeyExhausted now keyID (hours 5) p)
      else if rs_StatusCode resp = 400 \<and> cooldownStrategy = ''zai''
      then (let (d, resp) = Resolve env cooldownStrategy resp
            in if 0 < cd_Cooldown d
               then let (skip, p) = applyCooldownDecision now d keyID p in (skip, resp, p)
               else (False, resp, p))
      else (False, resp, p))"

text \<open>
  \<open>keyID\<close> is the value of the request's context, \<open>owner\<close> the provider's. An error of the header update is
  logged only; a missing limiter panics there.
\<close>

definition UpdateKeyPoolFromResponse ::
    "('l, 'r, 'c) rate_lib \<Rightarrow> (rat \<Rightarrow> rat) \<Rightarrow> cd_env \<Rightarrow> go_time \<Rightarrow> string \<Rightarrow> string \<Rightarrow> string option \<Rightarrow>
     response \<Rightarrow> ('l, 's) key_pool \<Rightarrow> (key_err + bool) \<times> response \<times> ('l, 's) key_pool" where
  "UpdateKeyPoolFromResponse RL fl env now owner cooldownStrategy keyIDval resp p =
     (case keyIDval of None \<Rightarrow> (Inr False, resp, p)
      | Some keyID \<Rightarrow>
          if keyID = [] then (Inr False, resp, p)
          else (let (err, p) = (if owner \<in> anthropic_owners
                      then UpdateKeyFromHeaders RL fl (ce_rfc3339 env) keyID (rs_Header resp) p
                      else (None, p))
                in if err = Some PanicNilLimiter then (Inl PanicNilLimiter, resp, p)
                   else let (skip, resp, p) = mark_from_status env now cooldownStrategy keyID resp p
                        in (Inr skip, resp, p)))"

section \<open>The pool stays well formed\<close>

lemma applyCooldownDecision_ok: "pool_ok p \<Longrightarrow> pool_ok (snd (applyCooldownDecision now d i p))"
  by (simp add: applyCooldownDecision_def MarkKeyUnhealthy_ok MarkKeyExhausted_ok)

lemma mark_from_status_ok: "pool_ok p \<Longrightarrow> pool_ok (snd (snd (mark_from_status env now st i resp p)))"
  by (simp add: mark_from_status_def MarkKeyExhausted_ok split_def Let_def applyCooldownDecision_ok)

lemma header_step_ok:
  assumes "pool_ok p"
  shows "pool_ok (snd (if b then UpdateKeyFromHeaders RL fl pt i h p else (None, p)))"
    and "fst (if b then UpdateKeyFromHeaders RL fl pt i h p else (None, p)) \<noteq> Some PanicNilLimiter"
proof -
  show "pool_ok (snd (if b then UpdateKeyFromHeaders RL fl pt i h p else (None, p)))"
    using assms by (simp add: UpdateKeyFromHeaders_ok)
  show "fst (if b then UpdateKeyFromHeaders RL fl pt i h p else (None, p)) \<noteq> Some PanicNilLimiter"
  proof (cases "p_keyMap p i")
    case None
    then show ?thesis by (simp add: UpdateKeyFromHeaders_def)
  next
    case (Some a)
    show ?thesis by (rule UpdateKeyFromHeaders_known [OF assms Some, of RL fl pt h]) simp
  qed
qed

text \<open>On a well-formed pool the update is the header step followed by the mark.\<close>

lemma Update_eq:
  assumes "pool_ok p" "keyID \<noteq> []"
  shows "UpdateKeyPoolFromResponse RL fl env now owner st (Some keyID) resp p =
    (let q = snd (if owner \<in> anthropic_owners then UpdateKeyFromHeaders RL fl (ce_rfc3339 env) keyID (rs_Header resp) p
                  else (None, p));
         m = mark_from_status env now st keyID resp q
     in (Inr (fst m), fst (snd m), snd (snd m)))"
  using header_step_ok(2) [OF assms(1), of "owner \<in> anthropic_owners" RL fl "ce_rfc3339 env" keyID "rs_Header resp"]
  by (simp add: UpdateKeyPoolFromResponse_def assms(2) split_def Let_def)

lemma UpdateKeyPoolFromResponse_ok:
  assumes "pool_ok p"
  shows "pool_ok (snd (snd (UpdateKeyPoolFromResponse RL fl env now owner st i resp p)))"
proof (cases "i = None \<or> i = Some []")
  case True
  with assms show ?thesis by (auto simp: UpdateKeyPoolFromResponse_def)
next
  case False
  then obtain keyID where "i = Some keyID" "keyID \<noteq> []" by auto
  then show ?thesis
    using assms by (simp add: Update_eq Let_def mark_from_status_ok header_step_ok(1))
qed

section \<open>Properties\<close>

lemma UpdateKeyFromHeaders_frame:
  assumes "pool_ok p" and "p_keyMap p keyID = Some a" and "q = snd (UpdateKeyFromHeaders RL fl pt keyID h p)"
  shows "p_keyMap q = p_keyMap p" and "p_keys q = p_keys p" and "p_selector q = p_selector p"
    and "b \<noteq> a \<Longrightarrow> p_heap q b = p_heap p b" and "j \<noteq> keyID \<Longrightarrow> p_limiters q j = p_limiters p j"
  unfolding assms(3)
  by (rule UpdateKeyFromHeaders_known [OF assms(1,2), of RL fl pt h], simp add: pool_map_key_def)+

text \<open>The pool after the learning from the headers.\<close>

definition learned ::
    "('l, 'r, 'c) rate_lib \<Rightarrow> (rat \<Rightarrow> rat) \<Rightarrow> cd_env \<Rightarrow> string \<Rightarrow> string \<Rightarrow> response \<Rightarrow>
     ('l, 's) key_pool \<Rightarrow> ('l, 's) key_pool" where
  "learned RL fl env owner keyID resp p =
     snd (if owner \<in> anthropic_owners then UpdateKeyFromHeaders RL fl (ce_rfc3339 env) keyID (rs_Header resp) p
          else (None, p))"

lemma learned_frame:
  assumes "pool_ok p" and "p_keyMap p keyID = Some a"
  shows "pool_ok (learned RL fl env owner keyID resp p)"
    and "p_keyMap (learned RL fl env owner keyID resp p) = p_keyMap p"
    and "p_keys (learned RL fl env owner keyID resp p) = p_keys p"
    and "p_selector (learned RL fl env owner keyID resp p) = p_selector p"
    and "b \<noteq> a \<Longrightarrow> p_heap (learned RL fl env owner keyID resp p) b = p_heap p b"
    and "j \<noteq> keyID \<Longrightarrow> p_limiters (learned RL fl env owner keyID resp p) j = p_limiters p j"
  unfolding learned_def
  by (simp_all add: UpdateKeyFromHeaders_frame [OF assms refl] UpdateKeyFromHeaders_ok [OF assms(1)] assms(1))

lemma Update_learned:
  assumes "pool_ok p" "keyID \<noteq> []"
    and "UpdateKeyPoolFromResponse RL fl env now owner st (Some keyID) resp p = (Inr skip, resp', p')"
  shows "skip = fst (mark_from_status env now st keyID resp (learned RL fl env owner keyID resp p))"
    and "p' = snd (snd (mark_from_status env now st keyID resp (learned RL fl env owner keyID resp p)))"
  using assms(3) unfolding Update_eq [OF assms(1,2)] learned_def by (simp_all add: Let_def)

lemma mark_status_mem:
  "snd (snd (mark_from_status env now st keyID resp p)) \<in>
     {p} \<union> range (\<lambda>d. MarkKeyExhausted now keyID d p) \<union> range (\<lambda>e. MarkKeyUnhealthy now keyID e p)"
  by (simp add: mark_from_status_def applyCooldownDecision_def split_def Let_def rangeI)

lemma mark_status_cases:
  obtains "snd (snd (mark_from_status env now st keyID resp p)) = p"
  | d where "snd (snd (mark_from_status env now st keyID resp p)) = MarkKeyExhausted now keyID d p"
  | e where "snd (snd (mark_from_status env now st keyID resp p)) = MarkKeyUnhealthy now keyID e p"
  using mark_status_mem [of env now st keyID resp p] unfolding Un_iff singleton_iff by (elim disjE rangeE)

lemma mark_frames:
  assumes "p_keyMap p keyID = Some a"
  shows "p_keyMap (MarkKeyExhausted now keyID d p) = p_keyMap p" "p_keys (MarkKeyExhausted now keyID d p) = p_keys p"
    "p_selector (MarkKeyExhausted now keyID d p) = p_selector p" "p_limiters (MarkKeyExhausted now keyID d p) = p_limiters p"
    "b \<noteq> a \<Longrightarrow> p_heap (MarkKeyExhausted now keyID d p) b = p_heap p b"
    "p_keyMap (MarkKeyUnhealthy now keyID e p) = p_keyMap p" "p_keys (MarkKeyUnhealthy now keyID e p) = p_keys p"
    "p_selector (MarkKeyUnhealthy now keyID e p) = p_selector p" "p_limiters (MarkKeyUnhealthy now keyID e p) = p_limiters p"
    "b \<noteq> a \<Longrightarrow> p_heap (MarkKeyUnhealthy now keyID e p) b = p_heap p b"
  by (simp_all add: MarkKeyExhausted_def MarkKeyUnhealthy_def pool_map_key_def assms)

text \<open>
  A response rests its key. After a 403 the key is not handed out for five hours and the circuit breaker is
  not charged; after a 429 the key is not handed out for the cooldown the resolver decided, and after a permanent
  error not at all. The pool stays well formed, so the other keys go on being served.
\<close>

lemma response_rests_key:
  assumes "pool_reachable RL fl pt p" and "keyID \<in> dom (p_keyMap p)" and "keyID \<noteq> []" and "\<And>i. env_ok (envs i)"
    and "UpdateKeyPoolFromResponse RL fl env now owner st (Some keyID) resp p = (Inr skip, resp', p')"
  shows "pool_ok p' \<and>
    (rs_StatusCode resp = 403 \<longrightarrow> skip \<and>
       ((\<forall>i. env_now (envs i) \<le> now + hours 5) \<longrightarrow> fst (GetKey RL envs p') \<noteq> Inr (keyID, api))) \<and>
    (rs_StatusCode resp = 429 \<longrightarrow> skip = cd_SkipCB (fst (Resolve env st resp)) \<and>
       (cd_IsPermanent (fst (Resolve env st resp)) \<longrightarrow> fst (GetKey RL envs p') \<noteq> Inr (keyID, api)) \<and>
       (0 < cd_Cooldown (fst (Resolve env st resp)) \<longrightarrow>
          (\<forall>i. env_now (envs i) \<le> now + cd_Cooldown (fst (Resolve env st resp))) \<longrightarrow>
          fst (GetKey RL envs p') \<noteq> Inr (keyID, api)))"
proof -
  have ok: "pool_ok p" using assms(1) by (rule reachable_ok)
  obtain a where a: "p_keyMap p keyID = Some a" using assms(2) by auto
  let ?q = "learned RL fl env owner keyID resp p"
  have q: "pool_ok ?q" by (rule learned_frame(1) [OF ok a])
  have known: "keyID \<in> dom (p_keyMap ?q)" using assms(2) by (simp only: learned_frame(2) [OF ok a])
  show ?thesis
    unfolding Update_learned [OF ok assms(3,5)]
    by (intro conjI impI mark_from_status_ok q)
      (simp_all add: mark_from_status_def applyCooldownDecision_def split_def Let_def exhausted_excluded [where envs = envs, OF q known assms(4)]
        unhealthy_excluded [where envs = envs, OF q known assms(4)])
qed

text \<open>
  A response touches its own key only: every other key object and limiter of the pool, the keys, the selector
  and the lookup table are what they were, whatever the response says.
\<close>

lemma response_touches_its_key_only:
  assumes "pool_reachable RL fl pt p" and "p_keyMap p keyID = Some a" and "keyID \<noteq> []"
    and "UpdateKeyPoolFromResponse RL fl env now owner st (Some keyID) resp p = (Inr skip, resp', p')"
  shows "p_keys p' = p_keys p \<and> p_keyMap p' = p_keyMap p \<and> p_selector p' = p_selector p \<and>
    (\<forall>b. b \<noteq> a \<longrightarrow> p_heap p' b = p_heap p b) \<and> (\<forall>j. j \<noteq> keyID \<longrightarrow> p_limiters p' j = p_limiters p j)"
proof -
  have ok: "pool_ok p" using assms(1) by (rule reachable_ok)
  let ?q = "learned RL fl env owner keyID resp p"
  note fr = learned_frame [OF ok assms(2)]
  have a: "p_keyMap ?q keyID = Some a" by (simp only: fr(2) assms(2))
  show ?thesis
    unfolding Update_learned(2) [OF ok assms(3,4)]
    by (rule mark_status_cases [of env now st keyID resp ?q]) (simp_all add: fr mark_frames [OF a])
qed

section \<open>Witnesses\<close>

definition demo_key_id :: string where
  "demo_key_id = k_ID (init_key 1 (pc_Keys demo_cfg ! 1))"

definition demo_403 :: response where
  "demo_403 = \<lparr>rs_StatusCode = 403, rs_Header = (\<lambda>_. []), rs_Body = Inr []\<rparr>"

lemma demo_key_id: "p_keyMap demo_pool demo_key_id = Some 1" "demo_key_id \<noteq> []"
  using demo_pool_keyMap by (simp_all add: demo_key_id_def key_id_def)

lemma demo_update_403:
  "UpdateKeyPoolFromResponse bkt_lib (\<lambda>x. x) demo_cd_env 5 ''openai'' ''generic'' (Some demo_key_id) demo_403 demo_pool =
     (Inr True, demo_403, MarkKeyExhausted 5 demo_key_id (hours 5) demo_pool)"
  by (simp add: UpdateKeyPoolFromResponse_def demo_key_id anthropic_owners_def mark_from_status_def demo_403_def)

lemma response_rests_key_witness:
  "fst (GetKey bkt_lib (\<lambda>_. demo_env) (MarkKeyExhausted (env_now demo_env) demo_key_id (hours 5) demo_pool)) \<noteq>
     Inr (demo_key_id, ''sk-bbbb'')"
proof -
  have "UpdateKeyPoolFromResponse bkt_lib (\<lambda>x. x) demo_cd_env (env_now demo_env) ''openai'' ''generic'' (Some demo_key_id)
      demo_403 demo_pool = (Inr True, demo_403, MarkKeyExhausted (env_now demo_env) demo_key_id (hours 5) demo_pool)"
    by (simp add: UpdateKeyPoolFromResponse_def demo_key_id anthropic_owners_def mark_from_status_def demo_403_def)
  from response_rests_key [OF demo_pool_reachable _ demo_key_id(2) _ this, where envs = "\<lambda>_. demo_env" and api = "''sk-bbbb''"]
  show ?thesis by (simp add: demo_key_id(1) domI demo_403_def time_defs)
qed

lemma response_touches_its_key_only_witness:
  "p_heap (MarkKeyExhausted 5 demo_key_id (hours 5) demo_pool) 0 = p_heap demo_pool 0"
  using response_touches_its_key_only [OF demo_pool_reachable demo_key_id demo_update_403] by simp

end
