(* ===== verification/Router_Service.thy ===== *)
theory Router_Service
  imports Provider_Router_Facts Failover_Router Config
begin

text \<open>
  From the configuration to the router of a request: \<open>NewRouter\<close> and the \<open>LiveRouter\<close> of
  \<open>internal/router/router.go\<close>, and the service that caches the router and replaces it when the
  configuration changes (\<open>internal/di/router_service.go\<close>).
\<close>

section \<open>One type for all routers\<close>

datatype router =
    RRoundRobin "64 word"
  | RShuffle shuffle_router
  | RWeightedRoundRobin wrr_router
  | RFailover failover_router
  | RLeastLoaded ll_router
  | RWeightedFailover failover_router
  | RPriorityWeightedFailover

text \<open>\<open>Select\<close> of the dynamic type, with the state of the router object.\<close>

fun router_Select ::
    "route_env \<Rightarrow> router \<Rightarrow> provider_info list \<Rightarrow> (go_error + provider_info) \<times> router" where
  "router_Select env (RRoundRobin r) ps = apsnd RRoundRobin (RoundRobinRouter_Select env r ps)"
| "router_Select env (RShuffle r) ps = apsnd RShuffle (ShuffleRouter_Select env r ps)"
| "router_Select env (RWeightedRoundRobin r) ps = apsnd RWeightedRoundRobin (WeightedRoundRobinRouter_Select env r ps)"
| "router_Select env (RFailover r) ps = apsnd RFailover (FailoverRouter_Select env r ps)"
| "router_Select env (RLeastLoaded r) ps = apsnd RLeastLoaded (LeastLoadedRouter_Select env r ps)"
| "router_Select env (RWeightedFailover r) ps = apsnd RWeightedFailover (WeightedFailoverRouter_Select env r ps)"
| "router_Select env RPriorityWeightedFailover ps =
     apsnd (\<lambda>_. RPriorityWeightedFailover) (PriorityWeightedFailoverRouter_Select env () ps)"

fun router_Name :: "router \<Rightarrow> string" where
  "router_Name (RRoundRobin _) = ''round_robin''"
| "router_Name (RShuffle _) = ''shuffle''"
| "router_Name (RWeightedRoundRobin _) = ''weighted_round_robin''"
| "router_Name (RFailover _) = ''failover''"
| "router_Name (RLeastLoaded _) = ''least_loaded''"
| "router_Name (RWeightedFailover _) = ''weighted_failover''"
| "router_Name RPriorityWeightedFailover = ''priority_weighted_failover''"

text \<open>Only least loaded implements \<open>ProviderLoadTracker\<close>; the type assertion fails for the others.\<close>

fun tracker_Acquire :: "provider \<Rightarrow> router \<Rightarrow> router" where
  "tracker_Acquire p (RLeastLoaded r) = RLeastLoaded (LeastLoaded_Acquire p r)"
| "tracker_Acquire p r = r"

fun tracker_Release :: "provider \<Rightarrow> router \<Rightarrow> router" where
  "tracker_Release p (RLeastLoaded r) = RLeastLoaded (LeastLoaded_Release p r)"
| "tracker_Release p r = r"

definition NewRouter :: "string \<Rightarrow> duration \<Rightarrow> go_error + router" where
  "NewRouter strategy timeout =
     (let strategy = (if strategy = '''' then ''failover'' else strategy)
      in if strategy = ''round_robin'' then Inr (RRoundRobin 0)
         else if strategy = ''shuffle'' then Inr (RShuffle NewShuffleRouter)
         else if strategy = ''weighted_round_robin'' then Inr (RWeightedRoundRobin NewWeightedRoundRobinRouter)
         else if strategy = ''failover'' then Inr (RFailover (NewFailoverRouter timeout []))
         else if strategy = ''model_based'' then Inr (RFailover (NewFailoverRouter timeout []))
         else if strategy = ''least_loaded'' then Inr (RLeastLoaded Map.empty)
         else if strategy = ''weighted_failover'' then Inr (RWeightedFailover (NewFailoverRouter timeout []))
         else if strategy = ''priority_weighted_failover'' then Inr RPriorityWeightedFailover
         else Inl (OtherError ''router: unknown strategy''))"

text \<open>The name of the unknown strategy in the error text is left out.\<close>

section \<open>The cached router\<close>

text \<open>
  The cache entry: the object it points to, with its state, and the configuration it was built for. An entry
  that was replaced is reached by nobody who asks the service again.
\<close>

record router_cache =
  rc_router :: "router option"
  rc_strategy :: string
  rc_timeout :: duration

definition NewRouterService :: router_cache where
  "NewRouterService = \<lparr>rc_router = None, rc_strategy = '''', rc_timeout = 0\<rparr>"

text \<open>\<^term>\<open>None\<close> is the panic of the last fallback.\<close>

definition GetRouter :: "routing_config \<Rightarrow> router_cache \<Rightarrow> router_cache option" where
  "GetRouter cfg s =
     (let strategy = Routing_GetEffectiveStrategy cfg;
          timeout = (case GetFailoverTimeoutOption cfg of Some t \<Rightarrow> t | None \<Rightarrow> seconds 5)
      in if rc_strategy s = strategy \<and> rc_timeout s = timeout then Some s
         else case NewRouter strategy timeout of
                Inr rtr \<Rightarrow> Some \<lparr>rc_router = Some rtr, rc_strategy = strategy, rc_timeout = timeout\<rparr>
              | Inl _ \<Rightarrow>
                  (case NewRouter ''failover'' timeout of
                     Inr rtr \<Rightarrow> Some \<lparr>rc_router = Some rtr, rc_strategy = strategy, rc_timeout = timeout\<rparr>
                   | Inl _ \<Rightarrow>
                       (case NewRouter ''failover'' (seconds 5) of
                          Inr rtr \<Rightarrow> Some \<lparr>rc_router = Some rtr, rc_strategy = strategy, rc_timeout = timeout\<rparr>
                        | Inl _ \<Rightarrow> None)))"

text \<open>
  The operations of \<open>LiveRouter\<close>: each asks the service for the current router, with the configuration current
  at that moment, and works on the object it gets. A nil router panics.
\<close>

definition live_Select ::
    "route_env \<Rightarrow> routing_config \<Rightarrow> router_cache \<Rightarrow> provider_info list \<Rightarrow>
     (go_error + provider_info) \<times> router_cache" where
  "live_Select env cfg s ps =
     (case GetRouter cfg s of
        None \<Rightarrow> (Inl (GoPanic ''router: failed to create default failover router''), s)
      | Some s \<Rightarrow>
          (case rc_router s of
             None \<Rightarrow> (Inl (GoPanic ''nil router''), s)
           | Some r \<Rightarrow> (let (res, r) = router_Select env r ps in (res, s\<lparr>rc_router := Some r\<rparr>))))"

definition live_track :: "(router \<Rightarrow> router) \<Rightarrow> routing_config \<Rightarrow> router_cache \<Rightarrow> router_cache" where
  "live_track f cfg s =
     (case GetRouter cfg s of
        None \<Rightarrow> s
      | Some s \<Rightarrow> s\<lparr>rc_router := map_option f (rc_router s)\<rparr>)"

definition live_Acquire :: "provider \<Rightarrow> routing_config \<Rightarrow> router_cache \<Rightarrow> router_cache" where
  "live_Acquire p = live_track (tracker_Acquire p)"

definition live_Release :: "provider \<Rightarrow> routing_config \<Rightarrow> router_cache \<Rightarrow> router_cache" where
  "live_Release p = live_track (tracker_Release p)"

definition live_Name :: "routing_config \<Rightarrow> router_cache \<Rightarrow> string" where
  "live_Name cfg s = (case Option.bind (GetRouter cfg s) rc_router of Some r \<Rightarrow> router_Name r | None \<Rightarrow> '''')"

section \<open>Every router meets the contract\<close>

fun router_inv :: "router \<Rightarrow> bool" where
  "router_inv (RShuffle r) = shuffle_inv r"
| "router_inv (RWeightedRoundRobin r) = wrr_inv r"
| "router_inv _ = True"

interpretation anyr: provider_router router_Select router_inv
proof unfold_locales
  fix env s
  assume "route_env_ok env" "router_inv s"
  then show "fst (router_Select env s []) = Inl ErrNoProviders"
    by (cases s) (simp_all add: rrp.sel_empty shp.sel_empty wrrp.sel_empty fop.sel_empty llp.sel_empty
        wfp.sel_empty pwp.sel_empty)
next
  fix env s and ps :: "provider_info list"
  assume "route_env_ok env" "router_inv s" "ps \<noteq> []" "\<forall>p \<in> set ps. \<not> Healthy p"
  then show "fst (router_Select env s ps) = Inl ErrAllProvidersUnhealthy"
    by (cases s) (simp_all add: rrp.sel_unhealthy shp.sel_unhealthy wrrp.sel_unhealthy fop.sel_unhealthy
        llp.sel_unhealthy wfp.sel_unhealthy pwp.sel_unhealthy)
next
  fix env s and ps :: "provider_info list"
  assume "route_env_ok env" "router_inv s" "usable ps" "\<exists>p \<in> set ps. Healthy p"
  then show "\<exists>r. fst (router_Select env s ps) = Inr r \<and> r \<in> set ps \<and> Healthy r"
    by (cases s) (simp_all add: rrp.sel_healthy shp.sel_healthy wrrp.sel_healthy fop.sel_healthy
        llp.sel_healthy wfp.sel_healthy pwp.sel_healthy)
next
  fix env s and ps :: "provider_info list"
  assume "route_env_ok env" "router_inv s" "usable ps"
  then show "router_inv (snd (router_Select env s ps))"
    by (cases s) (simp_all add: shp.sel_inv wrrp.sel_inv)
qed

lemma router_track_inv: "router_inv s \<Longrightarrow> router_inv (tracker_Acquire p s)" "router_inv s \<Longrightarrow> router_inv (tracker_Release p s)"
  by (cases s; simp)+

section \<open>Properties\<close>

lemma NewRouter_inv: "NewRouter strategy timeout = Inr r \<Longrightarrow> router_inv r"
  by (auto simp: NewRouter_def Let_def shuffle_inv_new wrr_inv_new split: if_splits)

text \<open>
  The validator and the router factory agree: the strategies the validator accepts are exactly those for which
  \<open>NewRouter\<close> builds a router, so a validated configuration never falls back to another strategy.
\<close>

lemma NewRouter_validated: "(\<exists>r. NewRouter strategy timeout = Inr r) \<longleftrightarrow> strategy \<in> validRoutingStrategies"
  by (simp add: NewRouter_def validRoutingStrategies_def Let_def)

text \<open>The states the service can be in: fresh, or after some requests under some configurations.\<close>

definition cache_ok :: "router_cache \<Rightarrow> bool" where
  "cache_ok s \<longleftrightarrow> (rc_strategy s \<noteq> '''' \<longrightarrow> rc_router s \<noteq> None) \<and> (\<forall>r. rc_router s = Some r \<longrightarrow> router_inv r)"

lemma cache_ok_new: "cache_ok NewRouterService"
  by (simp add: cache_ok_def NewRouterService_def)

definition routing_key :: "routing_config \<Rightarrow> string \<times> duration" where
  "routing_key cfg = (Routing_GetEffectiveStrategy cfg,
     case GetFailoverTimeoutOption cfg of Some t \<Rightarrow> t | None \<Rightarrow> seconds 5)"

lemma effective_strategy_nonempty [simp]: "Routing_GetEffectiveStrategy cfg \<noteq> ''''"
  by (simp add: Routing_GetEffectiveStrategy_def)

lemma GetRouter_cases:
  assumes "cache_ok s"
  obtains (cached) r where "GetRouter cfg s = Some s" "rc_router s = Some r" "router_inv r"
      "(rc_strategy s, rc_timeout s) = routing_key cfg"
  | (fresh) r where "GetRouter cfg s =
        Some \<lparr>rc_router = Some r, rc_strategy = fst (routing_key cfg), rc_timeout = snd (routing_key cfg)\<rparr>"
      "router_inv r" "(rc_strategy s, rc_timeout s) \<noteq> routing_key cfg"
      "NewRouter (fst (routing_key cfg)) (snd (routing_key cfg)) = Inr r \<or>
       fst (routing_key cfg) \<notin> validRoutingStrategies \<and> NewRouter ''failover'' (snd (routing_key cfg)) = Inr r"
proof (cases "(rc_strategy s, rc_timeout s) = routing_key cfg")
  case True
  then have "rc_strategy s = Routing_GetEffectiveStrategy cfg" by (simp add: routing_key_def)
  then have "rc_strategy s \<noteq> ''''" by simp
  then show thesis
    using assms True cached by (auto simp: cache_ok_def GetRouter_def routing_key_def Let_def)
next
  case False
  obtain st tm where k: "routing_key cfg = (st, tm)" by fastforce
  have fo: "NewRouter ''failover'' tm = Inr (RFailover (NewFailoverRouter tm []))"
    by (simp add: NewRouter_def)
  have g: "GetRouter cfg s = (case NewRouter st tm of
        Inr rtr \<Rightarrow> Some \<lparr>rc_router = Some rtr, rc_strategy = st, rc_timeout = tm\<rparr>
      | Inl _ \<Rightarrow> Some \<lparr>rc_router = Some (RFailover (NewFailoverRouter tm [])), rc_strategy = st, rc_timeout = tm\<rparr>)"
    using False k fo by (auto simp: GetRouter_def routing_key_def Let_def split: sum.split)
  show thesis
  proof (cases "NewRouter st tm")
    case (Inr r)
    then show thesis using fresh [of r] g k False NewRouter_inv by simp
  next
    case (Inl e)
    then have "st \<notin> validRoutingStrategies" 
      by (auto simp: NewRouter_def validRoutingStrategies_def Let_def split: if_splits)
    then show thesis using fresh [of "RFailover (NewFailoverRouter tm [])"] g k False Inl fo by simp
  qed
qed

lemma GetRouter_ok: "cache_ok s \<Longrightarrow> \<exists>s' r. GetRouter cfg s = Some s' \<and> cache_ok s' \<and> rc_router s' = Some r \<and> router_inv r"
  by (erule GetRouter_cases [where cfg = cfg]) (auto simp: cache_ok_def)

lemma live_Select_ok:
  assumes "cache_ok s" "route_env_ok env" "usable ps"
  shows "cache_ok (snd (live_Select env cfg s ps))"
proof -
  obtain s' r where r: "GetRouter cfg s = Some s'" "cache_ok s'" "rc_router s' = Some r" "router_inv r"
    using GetRouter_ok [OF assms(1)] by blast
  have "router_inv (snd (router_Select env r ps))" by (rule anyr.sel_inv [OF assms(2) r(4) assms(3)])
  then show ?thesis using r by (simp add: live_Select_def split_def Let_def cache_ok_def)
qed

lemma live_Select_sound:
  assumes "cache_ok s" and "route_env_ok env" and "usable ps"
  shows "(case fst (live_Select env cfg s ps) of
      Inr r \<Rightarrow> r \<in> set ps \<and> Healthy r
    | Inl e \<Rightarrow> (\<forall>p \<in> set ps. \<not> Healthy p) \<and> e = (if ps = [] then ErrNoProviders else ErrAllProvidersUnhealthy))"
proof -
  obtain s' r where r: "GetRouter cfg s = Some s'" "rc_router s' = Some r" "router_inv r"
    using GetRouter_ok [OF assms(1)] by blast
  have "fst (live_Select env cfg s ps) = fst (router_Select env r ps)"
    using r by (simp add: live_Select_def split_def Let_def)
  then show ?thesis
    using anyr.sel_Inr [OF assms(2) r(3) assms(3)] anyr.sel_Inl_iff [OF assms(2) r(3) assms(3)]
    by (auto split: sum.split)
qed

lemma live_track_ok:
  assumes "cache_ok s" "\<And>r. router_inv r \<Longrightarrow> router_inv (f r)"
  shows "cache_ok (live_track f cfg s)"
proof -
  obtain s' r where r: "GetRouter cfg s = Some s'" "cache_ok s'" "rc_router s' = Some r" "router_inv r"
    using GetRouter_ok [OF assms(1)] by blast
  then show ?thesis using assms(2) by (simp add: live_track_def cache_ok_def)
qed

inductive cache_reachable :: "router_cache \<Rightarrow> bool" where
  cr_new: "cache_reachable NewRouterService"
| cr_select: "cache_reachable s \<Longrightarrow> route_env_ok env \<Longrightarrow> usable ps \<Longrightarrow> cache_reachable (snd (live_Select env cfg s ps))"
| cr_acquire: "cache_reachable s \<Longrightarrow> cache_reachable (live_Acquire p cfg s)"
| cr_release: "cache_reachable s \<Longrightarrow> cache_reachable (live_Release p cfg s)"

lemma cache_reachable_ok: "cache_reachable s \<Longrightarrow> cache_ok s"
  by (induction rule: cache_reachable.induct)
    (simp_all add: cache_ok_new live_Select_ok live_Acquire_def live_Release_def live_track_ok router_track_inv)

text \<open>
  Whatever the configuration says now or said before (unknown strategies included), a selection through the live
  router gives a healthy provider of the request as soon as there is one, and otherwise the error that says why.
\<close>

lemma live_Select_spec:
  assumes "cache_reachable s" and "route_env_ok env" and "usable ps"
  shows "(case fst (live_Select env cfg s ps) of
      Inr r \<Rightarrow> r \<in> set ps \<and> Healthy r
    | Inl e \<Rightarrow> (\<forall>p \<in> set ps. \<not> Healthy p) \<and> e = (if ps = [] then ErrNoProviders else ErrAllProvidersUnhealthy))"
  by (rule live_Select_sound [OF cache_reachable_ok [OF assms(1)] assms(2,3)])

text \<open>
  The router's state survives everything but a change of its configuration: when the effective strategy and
  the timeout are those of the cached router, the service gives back this very router; otherwise it
  gives a new one, with the state its constructor leaves.
\<close>

lemma GetRouter_keeps_state:
  assumes "cache_reachable s" and "Routing_GetEffectiveStrategy cfg \<in> validRoutingStrategies"
  shows "GetRouter cfg s =
    (if (rc_strategy s, rc_timeout s) = routing_key cfg then Some s
     else map_option (\<lambda>r. \<lparr>rc_router = Some r, rc_strategy = fst (routing_key cfg), rc_timeout = snd (routing_key cfg)\<rparr>)
       (case NewRouter (fst (routing_key cfg)) (snd (routing_key cfg)) of Inr r \<Rightarrow> Some r | Inl _ \<Rightarrow> None))"
proof -
  have "fst (routing_key cfg) \<in> validRoutingStrategies" using assms(2) by (simp add: routing_key_def)
  with cache_reachable_ok [OF assms(1)] show ?thesis
    by (elim GetRouter_cases [where cfg = cfg]) auto
qed

lemma GetRouter_key: "GetRouter cfg s = Some s' \<Longrightarrow> cache_ok s \<Longrightarrow> (rc_strategy s', rc_timeout s') = routing_key cfg"
  by (erule GetRouter_cases [where cfg = cfg]) auto

lemma GetRouter_least_loaded:
  assumes "cache_ok s" and "Routing_GetEffectiveStrategy cfg = ''least_loaded''"
    and "(rc_strategy s, rc_timeout s) \<noteq> routing_key cfg"
  shows "\<exists>s'. GetRouter cfg s = Some s' \<and> rc_router s' = Some (RLeastLoaded Map.empty)"
proof -
  have key: "fst (routing_key cfg) = ''least_loaded''" using assms(2) by (simp add: routing_key_def)
  then have "NewRouter (fst (routing_key cfg)) t = Inr (RLeastLoaded Map.empty)" for t
    by (simp add: NewRouter_def)
  with key assms(1,3) show ?thesis
    by (elim GetRouter_cases [where cfg = cfg]) (auto simp: validRoutingStrategies_def)
qed

text \<open>
  A reload between the acquire and the release of a request leaves a counter at \<open>-1\<close>. The release asks for the
  router again; when the timeout has changed meanwhile it gets a new least-loaded router that never saw the acquire,
  and takes one off a counter at zero. \<open>-1\<close> is the value the scan of least loaded takes for "none yet".
\<close>

lemma reload_unbalances_counters:
  assumes "cache_reachable s" and "routing_key cfg \<noteq> routing_key cfg'"
    and "Routing_GetEffectiveStrategy cfg' = ''least_loaded''"
  shows "\<exists>r. rc_router (live_Release p cfg' (live_Acquire p cfg s)) = Some (RLeastLoaded r) \<and>
    name_load r (prov_Name p) = - 1"
proof -
  let ?s1 = "live_Acquire p cfg s"
  have ok: "cache_ok ?s1" using assms(1) by (intro cache_reachable_ok cr_acquire)
  obtain s0 where s0: "GetRouter cfg s = Some s0"
    using GetRouter_ok [OF cache_reachable_ok [OF assms(1)]] by blast
  have "(rc_strategy ?s1, rc_timeout ?s1) = routing_key cfg"
    using GetRouter_key [OF s0 cache_reachable_ok [OF assms(1)]] s0 by (simp add: live_Acquire_def live_track_def)
  with assms(2) have "(rc_strategy ?s1, rc_timeout ?s1) \<noteq> routing_key cfg'" by simp
  from GetRouter_least_loaded [OF ok assms(3) this] obtain s2
    where s2: "GetRouter cfg' ?s1 = Some s2" "rc_router s2 = Some (RLeastLoaded Map.empty)" by blast
  have "name_load (LeastLoaded_Release p Map.empty) (prov_Name p) = wrap64 (- 1)"
    by (simp add: LeastLoaded_Release_def counter_Add_load) (simp add: name_load_def)
  then show ?thesis
    using s2 by (simp add: live_Release_def live_track_def wrap64_def)
qed

section \<open>Witnesses\<close>

definition demo_routing :: "string \<Rightarrow> int \<Rightarrow> routing_config" where
  "demo_routing strategy timeout =
     \<lparr>rt_ModelMapping = Map.empty, rt_Strategy = strategy, rt_DefaultProvider = '''', rt_FailoverTimeout = timeout,
      rt_Debug = False,
      rt_Retry = \<lparr>rc_Enabled = True, rc_SameKeyRetries = 0, rc_SameKeyBackoffSec = 0, rc_KeyRetries = 0,
        rc_ProviderRetries = 0, rc_ProviderBackoffSec = 0, rc_MaxTotalAttempts = 0\<rparr>\<rparr>"

lemma demo_routing_key: "routing_key (demo_routing ''least_loaded'' 10) \<noteq> routing_key (demo_routing ''least_loaded'' 20)"
  by (simp add: routing_key_def demo_routing_def Routing_GetEffectiveStrategy_def GetFailoverTimeoutOption_def
      time_defs wrap64_def)

lemma reload_unbalances_counters_witness:
  "\<exists>r. rc_router (live_Release \<lparr>prov_Name = ''a'', prov_Owner = ''x''\<rparr> (demo_routing ''least_loaded'' 20)
       (live_Acquire \<lparr>prov_Name = ''a'', prov_Owner = ''x''\<rparr> (demo_routing ''least_loaded'' 10) NewRouterService)) =
     Some (RLeastLoaded r) \<and> name_load r ''a'' = - 1"
  using reload_unbalances_counters [OF cr_new demo_routing_key, of "\<lparr>prov_Name = ''a'', prov_Owner = ''x''\<rparr>"]
  by (simp add: demo_routing_def Routing_GetEffectiveStrategy_def)

lemma live_Select_spec_witness:
  "\<exists>r. fst (live_Select demo_renv (demo_routing ''nonsense'' 10) NewRouterService demo_provs) = Inr r \<and>
     r \<in> set demo_provs \<and> Healthy r"
  using live_Select_spec [OF cr_new demo_renv_ok demo_provs_facts(3), of "demo_routing ''nonsense'' 10"]
    bspec [of "set demo_provs" "\<lambda>p. \<not> Healthy p" "demo_prov ''a'' 2 True"]
  by (simp add: demo_provs_def demo_prov_def Healthy_def split: sum.splits)

lemma GetRouter_keeps_state_witness:
  "GetRouter (demo_routing ''shuffle'' 10) NewRouterService \<noteq> None"
  using GetRouter_keeps_state [OF cr_new, of "demo_routing ''shuffle'' 10"]
  by (simp add: demo_routing_def Routing_GetEffectiveStrategy_def validRoutingStrategies_def NewRouterService_def
      routing_key_def NewRouter_def)

end
