(* ===== verification/Pool_Service.thy ===== *)
theory Pool_Service
  imports Key_Pool_Facts Router_Service
begin

text \<open>
  Key pools and routing metadata from the configuration (\<open>internal/di/keypool_service.go\<close>,
  \<open>internal/di/provider_info_service.go\<close>): which keys end up in which pool, and what a reload replaces.
\<close>

section \<open>Pools\<close>

definition pool_key :: "config_key \<Rightarrow> key_config" where
  "pool_key k =
     (let (itpm, otpm) = GetEffectiveTPM k
      in \<lparr>kc_APIKey = ck_Key k, kc_RPMLimit = ck_RPMLimit k, kc_ITPMLimit = itpm, kc_OTPMLimit = otpm,
          kc_Priority = ck_Priority k, kc_Weight = ck_Weight k\<rparr>)"

definition buildPoolConfig :: "provider_config \<Rightarrow> pool_config" where
  "buildPoolConfig p =
     \<lparr>pc_Strategy = Provider_GetEffectiveStrategy p, pc_Keys = map pool_key (filter Key_IsEnabled (pv_Keys p))\<rparr>"

fun first_enabled_key :: "config_key list \<Rightarrow> string option" where
  "first_enabled_key [] = None"
| "first_enabled_key (k # ks) = (if Key_IsEnabled k then Some (ck_Key k) else first_enabled_key ks)"

record 'l pool_maps =
  pm_Pools :: "string \<rightharpoonup> ('l, selector) key_pool"
  pm_Keys :: "string \<rightharpoonup> string"

definition rebuild_step ::
    "('l, 'r, 'c) rate_lib \<Rightarrow> (rat \<Rightarrow> rat) \<Rightarrow> provider_config \<Rightarrow> 'l pool_maps \<times> key_err option \<Rightarrow>
     'l pool_maps \<times> key_err option" where
  "rebuild_step RL fl cfg st =
     (let (m, rebuildErr) = st
      in if \<not> pv_Enabled cfg then st
         else let m = (case first_enabled_key (pv_Keys cfg) of
                         None \<Rightarrow> m
                       | Some k \<Rightarrow> m\<lparr>pm_Keys := (pm_Keys m)(pv_Name cfg \<mapsto> k)\<rparr>)
              in if \<not> IsPoolingEnabled cfg then (m, rebuildErr)
                 else case NewKeyPool RL fl (pv_Name cfg) (buildPoolConfig cfg) of
                        Inl err \<Rightarrow> (m, Some err)
                      | Inr pool \<Rightarrow> (m\<lparr>pm_Pools := (pm_Pools m)(pv_Name cfg \<mapsto> pool)\<rparr>, rebuildErr))"

fun rebuild_loop ::
    "('l, 'r, 'c) rate_lib \<Rightarrow> (rat \<Rightarrow> rat) \<Rightarrow> provider_config list \<Rightarrow> 'l pool_maps \<times> key_err option \<Rightarrow>
     'l pool_maps \<times> key_err option" where
  "rebuild_loop RL fl [] st = st"
| "rebuild_loop RL fl (cfg # cfgs) st = rebuild_loop RL fl cfgs (rebuild_step RL fl cfg st)"

definition rebuildKeyPoolMap ::
    "('l, 'r, 'c) rate_lib \<Rightarrow> (rat \<Rightarrow> rat) \<Rightarrow> provider_config list \<Rightarrow> 'l pool_maps \<times> key_err option" where
  "rebuildKeyPoolMap RL fl cfgs = rebuild_loop RL fl cfgs (\<lparr>pm_Pools = Map.empty, pm_Keys = Map.empty\<rparr>, None)"

text \<open>
  \<open>RebuildFrom\<close> of the two services of maps: the new maps are stored whatever failed; the service of the OpenAI
  section drops the error.
\<close>

definition pools_RebuildFrom ::
    "('l, 'r, 'c) rate_lib \<Rightarrow> (rat \<Rightarrow> rat) \<Rightarrow> config \<Rightarrow> 'l pool_maps \<Rightarrow> key_err option \<times> 'l pool_maps" where
  "pools_RebuildFrom RL fl cfg s = prod.swap (rebuildKeyPoolMap RL fl (cf_Providers cfg))"

definition openai_RebuildFrom ::
    "('l, 'r, 'c) rate_lib \<Rightarrow> (rat \<Rightarrow> rat) \<Rightarrow> config \<Rightarrow> 'l pool_maps \<Rightarrow> key_err option \<times> 'l pool_maps" where
  "openai_RebuildFrom RL fl cfg s = (None, fst (rebuildKeyPoolMap RL fl (cf_OpenAIProviders cfg)))"

text \<open>The primary pool: that of the first enabled provider. An error leaves the service as it was.\<close>

record 'l key_pool_service =
  ks_Pool :: "('l, selector) key_pool option"
  ks_ProviderName :: string

fun primary_RebuildFrom ::
    "('l, 'r, 'c) rate_lib \<Rightarrow> (rat \<Rightarrow> rat) \<Rightarrow> provider_config list \<Rightarrow> 'l key_pool_service \<Rightarrow>
     key_err option \<times> 'l key_pool_service" where
  "primary_RebuildFrom RL fl [] s = (None, \<lparr>ks_Pool = None, ks_ProviderName = ''''\<rparr>)"
| "primary_RebuildFrom RL fl (cfg # cfgs) s =
     (if \<not> pv_Enabled cfg then primary_RebuildFrom RL fl cfgs s
      else if \<not> IsPoolingEnabled cfg then (None, \<lparr>ks_Pool = None, ks_ProviderName = pv_Name cfg\<rparr>)
      else case NewKeyPool RL fl (pv_Name cfg) (buildPoolConfig cfg) of
             Inl err \<Rightarrow> (Some err, s)
           | Inr pool \<Rightarrow> (None, \<lparr>ks_Pool = Some pool, ks_ProviderName = pv_Name cfg\<rparr>))"

section \<open>Routing metadata\<close>

text \<open>\<open>healthy\<close> is what the tracker's closures answer when they are called.\<close>

fun rebuildProviderInfos ::
    "provider_config list \<Rightarrow> (string \<rightharpoonup> provider) \<Rightarrow> (string \<Rightarrow> bool) \<Rightarrow> provider_info list" where
  "rebuildProviderInfos [] pm healthy = []"
| "rebuildProviderInfos (cfg # cfgs) pm healthy =
     (if \<not> pv_Enabled cfg then rebuildProviderInfos cfgs pm healthy
      else case pm (pv_Name cfg) of
             None \<Rightarrow> rebuildProviderInfos cfgs pm healthy
           | Some prov \<Rightarrow>
               \<lparr>pi_Provider = Some prov, pi_IsHealthy = Some (healthy (pv_Name cfg)),
                pi_Weight = GetEffectiveWeight cfg, pi_Priority = GetEffectivePriority cfg\<rparr> #
               rebuildProviderInfos cfgs pm healthy)"

section \<open>What a pool is built from\<close>

lemma NewKeyPool_iff:
  assumes "po_Strategy (pv_Pooling p) \<in> validPoolingStrategies"
  shows "(\<exists>q. NewKeyPool RL fl n (buildPoolConfig p) = Inr q) \<longleftrightarrow> filter Key_IsEnabled (pv_Keys p) \<noteq> []"
proof -
  have "\<exists>s. NewSelector (Provider_GetEffectiveStrategy p) = Inr s"
    using assms by (auto simp: Provider_GetEffectiveStrategy_def validPoolingStrategies_def NewSelector_def)
  then show ?thesis by (auto simp: NewKeyPool_def buildPoolConfig_def)
qed

lemma first_enabled_key_eq:
  "first_enabled_key ks = (case filter Key_IsEnabled ks of [] \<Rightarrow> None | k # _ \<Rightarrow> Some (ck_Key k))"
  by (induction ks) simp_all

text \<open>The pool an enabled provider gets.\<close>

definition pool_for ::
    "('l, 'r, 'c) rate_lib \<Rightarrow> (rat \<Rightarrow> rat) \<Rightarrow> provider_config \<Rightarrow> ('l, selector) key_pool option" where
  "pool_for RL fl p =
     (if IsPoolingEnabled p
      then case NewKeyPool RL fl (pv_Name p) (buildPoolConfig p) of Inr q \<Rightarrow> Some q | Inl _ \<Rightarrow> None
      else None)"

lemma rebuild_step_other:
  assumes "n \<noteq> pv_Name c \<or> \<not> pv_Enabled c"
  shows "pm_Pools (fst (rebuild_step RL fl c st)) n = pm_Pools (fst st) n"
    and "pm_Keys (fst (rebuild_step RL fl c st)) n = pm_Keys (fst st) n"
  using assms by (auto simp: rebuild_step_def split_def Let_def split: option.split sum.split)

lemma rebuild_loop_other:
  assumes "\<forall>c \<in> set cfgs. pv_Enabled c \<longrightarrow> pv_Name c \<noteq> n"
  shows "pm_Pools (fst (rebuild_loop RL fl cfgs st)) n = pm_Pools (fst st) n \<and>
    pm_Keys (fst (rebuild_loop RL fl cfgs st)) n = pm_Keys (fst st) n"
  using assms
proof (induction cfgs arbitrary: st)
  case (Cons c cfgs)
  then show ?case using rebuild_step_other [of n c RL fl st] by auto
qed simp

lemma rebuild_loop_own:
  assumes "p \<in> set cfgs" and "pv_Enabled p" and "distinct (map pv_Name (filter pv_Enabled cfgs))"
    and "pm_Pools (fst st) (pv_Name p) = None" and "pm_Keys (fst st) (pv_Name p) = None"
  shows "pm_Pools (fst (rebuild_loop RL fl cfgs st)) (pv_Name p) = pool_for RL fl p \<and>
    pm_Keys (fst (rebuild_loop RL fl cfgs st)) (pv_Name p) = first_enabled_key (pv_Keys p)"
  using assms
proof (induction cfgs arbitrary: st)
  case Nil
  then show ?case by simp
next
  case (Cons c cfgs)
  show ?case
  proof (cases "c = p")
    case True
    have rest: "\<forall>d \<in> set cfgs. pv_Enabled d \<longrightarrow> pv_Name d \<noteq> pv_Name p"
      using Cons.prems(2,3) True by (auto simp: image_iff)
    show ?thesis
      using rebuild_loop_other [OF rest, of RL fl "rebuild_step RL fl p st"] True Cons.prems(2,4,5)
      by (auto simp: rebuild_step_def split_def Let_def pool_for_def split: option.split sum.split)
  next
    case False
    then have "p \<in> set cfgs" using Cons.prems(1) by simp
    moreover have "pv_Name p \<noteq> pv_Name c \<or> \<not> pv_Enabled c"
      using Cons.prems(2,3) \<open>p \<in> set cfgs\<close> by (auto simp: image_iff split: if_splits)
    moreover have "distinct (map pv_Name (filter pv_Enabled cfgs))"
      using Cons.prems(3) by (simp split: if_splits)
    ultimately show ?thesis
      using Cons.IH [of "rebuild_step RL fl c st"] Cons.prems(2,4,5)
        rebuild_step_other [of "pv_Name p" c RL fl st] by simp
  qed
qed

lemma rebuild_loop_err:
  "snd (rebuild_loop RL fl cfgs st) = None \<longleftrightarrow> snd st = None \<and>
     (\<forall>p \<in> set cfgs. pv_Enabled p \<longrightarrow> IsPoolingEnabled p \<longrightarrow>
        (\<exists>q. NewKeyPool RL fl (pv_Name p) (buildPoolConfig p) = Inr q))"
proof (induction cfgs arbitrary: st)
  case (Cons c cfgs)
  have "snd (rebuild_step RL fl c st) = None \<longleftrightarrow> snd st = None \<and>
      (pv_Enabled c \<longrightarrow> IsPoolingEnabled c \<longrightarrow> (\<exists>q. NewKeyPool RL fl (pv_Name c) (buildPoolConfig c) = Inr q))"
    by (cases "NewKeyPool RL fl (pv_Name c) (buildPoolConfig c)") (simp_all add: rebuild_step_def split_def Let_def)
  with Cons.IH show ?case by simp
qed simp

section \<open>The secrets of a pool never change\<close>

lemma pool_map_key_APIKeys:
  "(\<And>k. k_APIKey (f k) = k_APIKey k) \<Longrightarrow> map k_APIKey (pool_Keys (pool_map_key a f q)) = map k_APIKey (pool_Keys q)"
  unfolding pool_map_key_Keys by (simp add: pool_Keys_def)

lemma pool_apply_APIKeys:
  assumes "pool_ok q" and "op_env_ok op"
  shows "map k_APIKey (pool_Keys (pool_apply RL fl pt op q)) = map k_APIKey (pool_Keys q)"
proof (cases op)
  case (OpGetKey envs)
  then have "\<And>i. env_ok (envs i)" using assms(2) by simp
  from tier.GetKey_loop_frame [where envs = envs, OF this pool_ok_loop_ready [OF assms(1)]]
  obtain L s where "snd (GetKey RL envs q) = q\<lparr>p_limiters := L, p_selector := s\<rparr>" by (metis GetKey_def)
  with OpGetKey show ?thesis by (simp add: pool_Keys_def)
next
  case (OpUpdate i h)
  have keep: "map k_APIKey (pool_Keys (pool_map_key a (UpdateFromHeaders pt h) q)) = map k_APIKey (pool_Keys q)" for a
    by (rule pool_map_key_APIKeys) simp
  show ?thesis
  proof (cases "p_keyMap q i")
    case None
    with OpUpdate show ?thesis by (simp add: UpdateKeyFromHeaders_def)
  next
    case (Some a)
    show ?thesis
      by (rule UpdateKeyFromHeaders_known [OF assms(1) Some, of RL fl pt h])
        (use OpUpdate keep [of a] in \<open>simp add: pool_Keys_def\<close>)
  qed
qed (auto simp: MarkKeyExhausted_def MarkKeyUnhealthy_def MarkKeyHealthy_def pool_map_key_APIKeys split: option.split)

lemma pool_run:
  assumes "pool_ok q" and "\<forall>op \<in> set ops. op_env_ok op"
  shows "pool_ok (fold (pool_apply RL fl pt) ops q)"
    and "map k_APIKey (pool_Keys (fold (pool_apply RL fl pt) ops q)) = map k_APIKey (pool_Keys q)"
  using assms
proof (induction ops arbitrary: q)
  case (Cons op ops)
  { case 1 then show ?case using Cons.IH(1) by (simp add: pool_apply_ok) }
  { case 2 then show ?case using Cons.IH(2) by (simp add: pool_apply_ok pool_apply_APIKeys) }
qed simp_all

lemma buildPoolConfig_slice: "slice_ok (pv_Keys p) \<Longrightarrow> slice_ok (pc_Keys (buildPoolConfig p))"
  by (simp add: slice_ok_def buildPoolConfig_def le_less_trans [OF length_filter_le])

lemma pool_key_APIKey [simp]: "kc_APIKey (pool_key k) = ck_Key k"
  by (simp add: pool_key_def split_def Let_def)

lemma built_pool_APIKeys:
  assumes "NewKeyPool RL fl n (buildPoolConfig p) = Inr q"
  shows "map k_APIKey (pool_Keys q) = map ck_Key (filter Key_IsEnabled (pv_Keys p))"
proof -
  have "map k_APIKey (map2 init_key [m..<m + length cs] cs) = map kc_APIKey cs" for m cs
  proof (induction cs arbitrary: m)
    case (Cons c cs)
    from Cons.IH [of "Suc m"] show ?case by (simp add: upt_conv_Cons del: upt_Suc)
  qed simp
  from this [of 0 "pc_Keys (buildPoolConfig p)"] show ?thesis
    unfolding NewKeyPool_Keys [OF assms] by (simp add: buildPoolConfig_def comp_def)
qed

section \<open>Properties\<close>

text \<open>
  From a valid configuration every enabled provider gets what it needs: its fallback key is its first enabled
  key, and it has a key pool exactly when pooling is on for it and some key is enabled. The rebuild reports no error
  exactly when every enabled provider with pooling has an enabled key.
\<close>

lemma rebuildKeyPoolMap_spec:
  assumes "valid_config parseIP c"
  shows "(\<forall>p \<in> set (cf_Providers c). pv_Enabled p \<longrightarrow>
      pm_Keys (fst (rebuildKeyPoolMap RL fl (cf_Providers c))) (pv_Name p) =
        (case filter Key_IsEnabled (pv_Keys p) of [] \<Rightarrow> None | k # _ \<Rightarrow> Some (ck_Key k)) \<and>
      ((\<exists>q. pm_Pools (fst (rebuildKeyPoolMap RL fl (cf_Providers c))) (pv_Name p) = Some q) \<longleftrightarrow>
        IsPoolingEnabled p \<and> (\<exists>k \<in> set (pv_Keys p). Key_IsEnabled k))) \<and>
    (snd (rebuildKeyPoolMap RL fl (cf_Providers c)) = None \<longleftrightarrow>
      (\<forall>p \<in> set (cf_Providers c). pv_Enabled p \<longrightarrow> IsPoolingEnabled p \<longrightarrow> (\<exists>k \<in> set (pv_Keys p). Key_IsEnabled k)))"
proof -
  let ?ps = "cf_Providers c"
  have dist: "distinct (map pv_Name (filter pv_Enabled ?ps))"
    using assms by (simp add: valid_config_def distinct_map_filter)
  have strat: "po_Strategy (pv_Pooling p) \<in> validPoolingStrategies" if "p \<in> set ?ps" for p
    using assms that by (simp add: valid_config_def provider_ok_def)
  have pool: "(\<exists>q. NewKeyPool RL fl (pv_Name p) (buildPoolConfig p) = Inr q) \<longleftrightarrow> (\<exists>k \<in> set (pv_Keys p). Key_IsEnabled k)"
    if "p \<in> set ?ps" for p
    using NewKeyPool_iff [OF strat [OF that], of RL fl "pv_Name p"] by (simp add: filter_empty_conv)
  have "(\<exists>q. pool_for RL fl p = Some q) \<longleftrightarrow> IsPoolingEnabled p \<and> (\<exists>k \<in> set (pv_Keys p). Key_IsEnabled k)"
    if "p \<in> set ?ps" for p
    unfolding pool [OF that, symmetric]
    by (cases "NewKeyPool RL fl (pv_Name p) (buildPoolConfig p)") (simp_all add: pool_for_def)
  then show ?thesis
    using pool rebuild_loop_own [OF _ _ dist, of _ "(\<lparr>pm_Pools = Map.empty, pm_Keys = Map.empty\<rparr>, None)" RL fl]
      rebuild_loop_err [of RL fl ?ps "(\<lparr>pm_Pools = Map.empty, pm_Keys = Map.empty\<rparr>, None)"]
    by (simp add: rebuildKeyPoolMap_def first_enabled_key_eq)
qed

text \<open>
  C22: A request only ever carries a configured secret. Whatever happened to the pool of a provider since it was
  built (selections, header updates, marks, in any order), \<open>GetKey\<close> gives the secret of an enabled key of that
  provider's configuration, and the secret is not empty.
\<close>

theorem served_key_is_configured:
  assumes "valid_config parseIP c" and "p \<in> set (cf_Providers c)" and "pv_Enabled p" and "slice_ok (pv_Keys p)"
    and "pm_Pools (fst (rebuildKeyPoolMap RL fl (cf_Providers c))) (pv_Name p) = Some q"
    and "\<forall>op \<in> set ops. op_env_ok op" and "\<And>i. env_ok (envs i)"
    and "fst (GetKey RL envs (fold (pool_apply RL fl pt) ops q)) = Inr (keyID, api)"
  shows "\<exists>k \<in> set (pv_Keys p). Key_IsEnabled k \<and> ck_Key k = api \<and> api \<noteq> ''''"
proof -
  have dist: "distinct (map pv_Name (filter pv_Enabled (cf_Providers c)))"
    using assms(1) by (simp add: valid_config_def distinct_map_filter)
  have "pool_for RL fl p = Some q"
    using rebuild_loop_own [OF assms(2,3) dist, of "(\<lparr>pm_Pools = Map.empty, pm_Keys = Map.empty\<rparr>, None)" RL fl] assms(5)
    by (simp add: rebuildKeyPoolMap_def)
  then have new: "NewKeyPool RL fl (pv_Name p) (buildPoolConfig p) = Inr q"
    by (simp add: pool_for_def split: if_splits sum.splits)
  have ok: "pool_ok q"
    by (rule reachable_ok [OF pool_reachable.created [OF new buildPoolConfig_slice [OF assms(4)]]])
  from tier.GetKey_loop_sound [where envs = envs, OF assms(7) pool_ok_loop_ready [OF pool_run(1) [OF ok assms(6)]]
      assms(8) [unfolded GetKey_def]]
  have "api \<in> set (map k_APIKey (pool_Keys (fold (pool_apply RL fl pt) ops q)))" by auto
  then have "api \<in> ck_Key ` set (filter Key_IsEnabled (pv_Keys p))"
    by (simp only: pool_run(2) [OF ok assms(6)] built_pool_APIKeys [OF new] set_map)
  moreover have "ck_Key k \<noteq> ''''" if "k \<in> set (pv_Keys p)" for k
    using assms(1,2) that by (simp add: valid_config_def provider_ok_def)
  ultimately show ?thesis by auto
qed

text \<open>
  The routing metadata are those of the enabled providers that have an instance, in the order of the
  configuration, with a positive weight and the health the tracker reports; none is nil, so every strategy can work
  with them.
\<close>

lemma rebuildProviderInfos_spec:
  assumes "slice_ok cfgs"
  shows "usable (rebuildProviderInfos cfgs pm healthy) \<and>
    map (\<lambda>i. (pi_Provider i, pi_IsHealthy i, pi_Weight i, pi_Priority i)) (rebuildProviderInfos cfgs pm healthy) =
      map (\<lambda>c. (pm (pv_Name c), Some (healthy (pv_Name c)), if pv_Weight c \<le> 0 then 1 else pv_Weight c, pv_Priority c))
        (filter (\<lambda>c. pv_Enabled c \<and> pm (pv_Name c) \<noteq> None) cfgs)"
proof -
  have "length (rebuildProviderInfos cfgs pm healthy) \<le> length cfgs"
    by (induction cfgs) (auto split: option.split)
  moreover have "\<forall>i \<in> set (rebuildProviderInfos cfgs pm healthy). pi_Provider i \<noteq> None"
    by (induction cfgs) (auto split: option.split)
  moreover have "map (\<lambda>i. (pi_Provider i, pi_IsHealthy i, pi_Weight i, pi_Priority i)) (rebuildProviderInfos cfgs pm healthy) =
      map (\<lambda>c. (pm (pv_Name c), Some (healthy (pv_Name c)), if pv_Weight c \<le> 0 then 1 else pv_Weight c, pv_Priority c))
        (filter (\<lambda>c. pv_Enabled c \<and> pm (pv_Name c) \<noteq> None) cfgs)"
    by (induction cfgs) (auto simp: GetEffectiveWeight_def GetEffectivePriority_def split: option.split)
  ultimately show ?thesis using assms by (simp add: usable_def slice_ok_def)
qed

section \<open>Witnesses\<close>

definition demo_config_key :: "string \<Rightarrow> bool \<Rightarrow> config_key" where
  "demo_config_key s b = \<lparr>ck_Key = s, ck_RPMLimit = 5, ck_ITPMLimit = 0, ck_OTPMLimit = 0, ck_Priority = 0, ck_Weight = 0,
     ck_Enabled = Some b, ck_TPMLimit = 0\<rparr>"

definition demo_provider :: provider_config where
  "demo_provider = \<lparr>pv_ModelMapping = Map.empty, pv_AWSRegion = '''', pv_GCPProjectID = '''', pv_AzureAPIVersion = '''',
     pv_Name = ''a'', pv_Type = ''anthropic'', pv_BaseURL = '''', pv_ResponsesURL = '''', pv_AzureDeploymentID = '''', pv_AWSAccessKeyID = '''', pv_AzureResourceName = '''', pv_AWSSecretAccessKey = '''', pv_GCPRegion = '''',
     pv_Keys = [demo_config_key ''sk-1'' False, demo_config_key ''sk-2'' True], pv_Models = [],
     pv_Pooling = \<lparr>po_Strategy = '''', po_Enabled = True\<rparr>, pv_Enabled = True, pv_Zhipu = False, pv_AuthMethod = '''',
     pv_CooldownStrategy = '''', pv_Priority = 0, pv_Weight = 0\<rparr>"

definition demo_config :: config where
  "demo_config = \<lparr>cf_Providers = [demo_provider], cf_OpenAIProviders = [], cf_Routing = demo_routing ''shuffle'' 10,
     cf_Logging = \<lparr>lg_Level = '''', lg_Format = '''', lg_Output = '''', lg_Pretty = False,
       lg_DebugOptions = \<lparr>do_LogRequestBody = False, do_LogResponseHeaders = False, do_LogTLSMetrics = False,
         do_MaxBodyLogSize = 0\<rparr>\<rparr>,
     cf_Server = \<lparr>sv_Listen = ''h:1'', sv_APIKey = '''', sv_Auth = \<lparr>au_APIKey = '''', au_BearerSecret = '''',
       au_AllowBearer = False, au_AllowSubscription = False\<rparr>, sv_TimeoutMS = 0, sv_MaxConcurrent = 0,
       sv_MaxBodyBytes = 0, sv_EnableHTTP2 = False\<rparr>\<rparr>"

lemma demo_config_valid: "valid_config (\<lambda>_. False) demo_config"
  by (simp add: valid_config_def demo_config_def server_ok_def listen_ok_def split_host_port_def last_index_def
      provider_ok_def demo_provider_def demo_config_key_def cloud_ok_def validProviderTypes_def validPoolingStrategies_def
      validCooldownStrategies_def routing_ok_def demo_routing_def validRoutingStrategies_def logging_ok_def
      validLogLevels_def validLogFormats_def)

lemma rebuildKeyPoolMap_spec_witness:
  "\<exists>q. pm_Pools (fst (rebuildKeyPoolMap bkt_lib (\<lambda>x. x) (cf_Providers demo_config))) ''a'' = Some q"
  using rebuildKeyPoolMap_spec [OF demo_config_valid, of bkt_lib "\<lambda>x. x"]
  by (simp add: demo_config_def demo_provider_def demo_config_key_def IsPoolingEnabled_def Key_IsEnabled_def)

lemma rebuildProviderInfos_spec_witness:
  "map pi_Weight (rebuildProviderInfos [demo_provider] [''a'' \<mapsto> \<lparr>prov_Name = ''a'', prov_Owner = ''x''\<rparr>] (\<lambda>_. True)) = [1]"
  using arg_cong [OF conjunct2 [OF rebuildProviderInfos_spec [of "[demo_provider]"
      "[''a'' \<mapsto> \<lparr>prov_Name = ''a'', prov_Owner = ''x''\<rparr>]" "\<lambda>_. True"]], of "map (\<lambda>x. fst (snd (snd x)))"]
  by (simp add: slice_ok_def comp_def demo_provider_def)

definition demo_built :: "(bucket, selector) key_pool" where
  "demo_built = projr (NewKeyPool bkt_lib (\<lambda>x. x) ''a'' (buildPoolConfig demo_provider))"

lemma demo_built: "NewKeyPool bkt_lib (\<lambda>x. x) ''a'' (buildPoolConfig demo_provider) = Inr demo_built"
  "pool_Keys demo_built = [init_key 0 (pool_key (demo_config_key ''sk-2'' True))]"
  "p_limiters demo_built (key_id 0 ''sk-2'') = Some (NewTokenBucketLimiter bkt_lib (\<lambda>x. x) 5 0)"
  by (simp_all add: demo_built_def NewKeyPool_def buildPoolConfig_def demo_provider_def demo_config_key_def Key_IsEnabled_def
      Provider_GetEffectiveStrategy_def NewSelector_def add_key_def pool_Keys_def pool_key_def GetEffectiveTPM_def wrap64_def)

lemma demo_built_GetKey: "\<exists>keyID api. fst (GetKey bkt_lib (\<lambda>_. demo_env) demo_built) = Inr (keyID, api)"
proof -
  let ?k = "init_key 0 (pool_key (demo_config_key ''sk-2'' True))"
  have reach: "pool_reachable bkt_lib (\<lambda>x. x) (\<lambda>_. None) demo_built"
    by (rule pool_reachable.created [OF demo_built(1) buildPoolConfig_slice]) (simp add: slice_ok_def demo_provider_def)
  have avail: "IsAvailable (env_now demo_env) ?k"
    by (simp add: IsAvailable_def init_key_def pool_key_def GetEffectiveTPM_def demo_config_key_def NewKeyMetadata_def
        demo_env_def nsec_per_sec_def)
  have limiter: "p_limiters demo_built (k_ID ?k) = Some (NewTokenBucketLimiter bkt_lib (\<lambda>x. x) 5 0)"
    using demo_built(3) by (simp add: demo_config_key_def)
  have allow: "fst (tb_Allow bkt_lib (env_now demo_env) (NewTokenBucketLimiter bkt_lib (\<lambda>x. x) 5 0))"
    using fresh_Allow [OF bkt_lib_ok NewTokenBucketLimiter_fresh [OF bkt_lib_ok]] by auto
  from tier.GetKey_loop_best [where envs = "\<lambda>_. demo_env", OF _ refl pool_ok_loop_ready [OF reachable_ok [OF reach]]
      order_refl _ avail limiter allow]
  show ?thesis unfolding GetKey_def by (auto simp: demo_built(2))
qed

lemma served_key_is_configured_witness:
  "\<exists>k \<in> set (pv_Keys demo_provider). Key_IsEnabled k \<and> ck_Key k \<noteq> ''''"
proof -
  obtain keyID api where g: "fst (GetKey bkt_lib (\<lambda>_. demo_env) demo_built) = Inr (keyID, api)"
    using demo_built_GetKey by blast
  have "pm_Pools (fst (rebuildKeyPoolMap bkt_lib (\<lambda>x. x) (cf_Providers demo_config))) (pv_Name demo_provider) = Some demo_built"
    using demo_built(1)
    by (simp add: rebuildKeyPoolMap_def demo_config_def rebuild_step_def demo_provider_def IsPoolingEnabled_def split_def Let_def
        split: option.split)
  from served_key_is_configured [OF demo_config_valid _ _ _ this, of "[]" "\<lambda>_. demo_env" "\<lambda>_. None" keyID api] g
  show ?thesis by (auto simp: demo_config_def slice_ok_def) (auto simp: demo_provider_def slice_ok_def)
qed

end
