(* ===== verification/Model_Routing.thy ===== *)
theory Model_Routing
  imports Router_Service "HOL-Library.Sublist"
begin

text \<open>
  Which providers a request may go to (\<open>internal/proxy/model_filter.go\<close> and the selection part of
  \<open>handler.go\<close>): routing by the longest prefix of the model's name, and the affinity of a conversation with
  thinking blocks to one provider.
\<close>

section \<open>Filtering by model\<close>

definition HasPrefix :: "string \<Rightarrow> string \<Rightarrow> bool" where
  "HasPrefix s p \<longleftrightarrow> take (length p) s = p"

lemma HasPrefix_prefix: "HasPrefix s p \<longleftrightarrow> prefix p s"
  by (metis HasPrefix_def append_eq_conv_conj prefix_def)

text \<open>
  A Go map is enumerated in an arbitrary order: \<open>entries\<close> is the order \<open>lo.Entries\<close> gave this time.
\<close>

definition findProviderForModel ::
    "(string \<times> string) lo \<Rightarrow> (string \<times> string) list \<Rightarrow> string \<Rightarrow> string option" where
  "findProviderForModel L entries model =
     (let matches = lo_filter L (\<lambda>e. HasPrefix model (fst e)) entries
      in if matches = [] then None
         else Some (snd (lo_max_by L (\<lambda>a b. length (fst a) > length (fst b)) matches)))"

text \<open>A nil provider panics at \<open>Name()\<close>.\<close>

definition FilterProvidersByModel ::
    "(string \<times> string) lo \<Rightarrow> provider_info lo \<Rightarrow> string \<Rightarrow> provider_info list \<Rightarrow> (string \<times> string) list \<Rightarrow> string \<Rightarrow>
     go_error + provider_info list" where
  "FilterProvidersByModel L LP model providers entries defaultProviderName =
     (if model = '''' \<or> entries = [] then Inr providers
      else let targetProviderName = (case findProviderForModel L entries model of Some t \<Rightarrow> t | None \<Rightarrow> defaultProviderName)
           in if targetProviderName = '''' then Inr providers
              else if list_ex (\<lambda>p. pi_Provider p = None) providers then Inl (GoPanic ''nil provider'')
              else let filtered = lo_filter LP (\<lambda>p. map_option prov_Name (pi_Provider p) = Some targetProviderName) providers
                   in Inr (if filtered = [] then providers else filtered))"

section \<open>The handler's candidates\<close>

text \<open>
  What a handler reads to select: whether it has a router, the providers now, the static routing
  configuration, and the order in which the model mapping is enumerated.
\<close>

record selection_env =
  se_has_router :: bool
  se_providers :: "provider_info list option"
  se_default :: "provider option"
  se_routing :: "routing_config option"
  se_entries :: "(string \<times> string) list"
  se_lo_entries :: "(string \<times> string) lo"
  se_lo_infos :: "provider_info lo"

text \<open>\<^term>\<open>se_providers\<close> is \<^term>\<open>None\<close> when the handler has no provider function.\<close>

definition providerCandidates :: "selection_env \<Rightarrow> provider_info list option" where
  "providerCandidates se =
     (if \<not> se_has_router se then None
      else case se_providers se of None \<Rightarrow> None | Some ps \<Rightarrow> if ps = [] then None else Some ps)"

definition defaultProviderInfo :: "selection_env \<Rightarrow> provider_info" where
  "defaultProviderInfo se =
     \<lparr>pi_Provider = se_default se, pi_IsHealthy = Some True, pi_Weight = 0, pi_Priority = 0\<rparr>"

definition isModelBasedRouting :: "selection_env \<Rightarrow> bool" where
  "isModelBasedRouting se =
     (case se_routing se of None \<Rightarrow> False | Some r \<Rightarrow> rt_Strategy r = ''model_based'' \<and> se_entries se \<noteq> [])"

definition applyModelRouting ::
    "selection_env \<Rightarrow> provider_info list \<Rightarrow> string \<Rightarrow> go_error + provider_info list option" where
  "applyModelRouting se candidates model =
     (if \<not> isModelBasedRouting se \<or> model = '''' then Inr (Some candidates)
      else case se_routing se of
             None \<Rightarrow> Inr None
           | Some r \<Rightarrow>
               (case FilterProvidersByModel (se_lo_entries se) (se_lo_infos se) model candidates (se_entries se)
                       (rt_DefaultProvider r) of
                  Inl e \<Rightarrow> Inl e | Inr ps \<Rightarrow> Inr (Some ps)))"

definition applyThinkingAffinity :: "route_env \<Rightarrow> provider_info list \<Rightarrow> bool \<Rightarrow> provider_info list" where
  "applyThinkingAffinity env candidates hasThinkingAffinity =
     (if \<not> hasThinkingAffinity \<or> length candidates \<le> 1 then candidates
      else let healthy = FilterHealthy env candidates
           in if healthy \<noteq> [] then take 1 healthy else candidates)"

text \<open>The selection of the path without retry; the result says whether the provider was acquired.\<close>

definition selectProvider ::
    "selection_env \<Rightarrow> route_env \<Rightarrow> routing_config \<Rightarrow> string \<Rightarrow> bool \<Rightarrow> router_cache \<Rightarrow>
     (go_error + provider_info) \<times> router_cache" where
  "selectProvider se env cfg model hasThinkingAffinity s =
     (case providerCandidates se of
        None \<Rightarrow> (Inr (defaultProviderInfo se), s)
      | Some candidates \<Rightarrow>
          (case applyModelRouting se candidates model of
             Inl e \<Rightarrow> (Inl e, s)
           | Inr None \<Rightarrow> (Inr (defaultProviderInfo se), s)
           | Inr (Some candidates) \<Rightarrow>
               live_Select env cfg s (applyThinkingAffinity env candidates hasThinkingAffinity)))"

section \<open>Facts\<close>

text \<open>An enumeration of a map.\<close>

definition enumerates :: "(string \<times> string) list \<Rightarrow> (string \<rightharpoonup> string) \<Rightarrow> bool" where
  "enumerates entries m \<longleftrightarrow> distinct entries \<and> set entries = {(k, v). m k = Some v}"

text \<open>The key of the mapping that decides for a model.\<close>

definition longest_prefix :: "(string \<rightharpoonup> string) \<Rightarrow> string \<Rightarrow> string \<Rightarrow> bool" where
  "longest_prefix m model k \<longleftrightarrow> k \<in> dom m \<and> prefix k model \<and> (\<forall>k' \<in> dom m. prefix k' model \<longrightarrow> length k' \<le> length k)"

lemma longest_prefix_unique: "longest_prefix m model k \<Longrightarrow> longest_prefix m model k' \<Longrightarrow> k = k'"
  unfolding longest_prefix_def by (metis antisym prefix_length_prefix prefix_order.antisym)

lemma findProviderForModel_spec:
  assumes "lo_ok L" and "enumerates entries m"
  shows "findProviderForModel L entries model = Some t \<longleftrightarrow> (\<exists>k. longest_prefix m model k \<and> m k = Some t)"
    and "findProviderForModel L entries model = None \<longleftrightarrow> (\<forall>k \<in> dom m. \<not> prefix k model)"
proof -
  let ?M = "filter (\<lambda>e. HasPrefix model (fst e)) entries"
  let ?b = "lo_max_by L (\<lambda>a b. length (fst a) > length (fst b)) ?M"
  have M: "set ?M = {(k, v). m k = Some v \<and> prefix k model}"
    using assms(2) by (auto simp: enumerates_def HasPrefix_prefix)
  have rank: "(\<lambda>a b. length (fst a) > length (fst b)) = (\<lambda>a b. rat_of_nat (length (fst a)) > rat_of_nat (length (fst b)))"
    for a b :: "string \<times> string" by simp
  have f: "findProviderForModel L entries model = (if ?M = [] then None else Some (snd ?b))"
    using assms(1) by (simp add: findProviderForModel_def Let_def)
  show "findProviderForModel L entries model = None \<longleftrightarrow> (\<forall>k \<in> dom m. \<not> prefix k model)"
  proof -
    have "?M = [] \<longleftrightarrow> (\<forall>k v. \<not> (m k = Some v \<and> prefix k model))"
      using M unfolding set_empty [symmetric] by auto
    then show ?thesis unfolding f by auto
  qed
  have best: "?b \<in> set ?M \<and> (\<forall>x \<in> set ?M. length (fst x) \<le> length (fst ?b))" if "?M \<noteq> []"
    using lo_max_by_mem [OF assms(1) that, of "\<lambda>e. rat_of_nat (length (fst e))"]
      lo_max_by_greatest [OF assms(1), of _ ?M "\<lambda>e. rat_of_nat (length (fst e))"] by simp
  show "findProviderForModel L entries model = Some t \<longleftrightarrow> (\<exists>k. longest_prefix m model k \<and> m k = Some t)"
  proof (cases "?M = []")
    case True
    then have "\<forall>k v. \<not> (m k = Some v \<and> prefix k model)" using M by auto
    with True f show ?thesis by (auto simp: longest_prefix_def)
  next
    case False
    obtain k v where kv: "?b = (k, v)" by fastforce
    then have b: "(k, v) \<in> set ?M" "\<forall>x \<in> set ?M. length (fst x) \<le> length k"
      using best [OF False] by simp_all
    have "m k = Some v" "prefix k model" using b(1) unfolding M by auto
    moreover have "length k' \<le> length k" if "m k' = Some v'" "prefix k' model" for k' v'
    proof -
      have "(k', v') \<in> set ?M" using that M by blast
      with b(2) show ?thesis by fastforce
    qed
    ultimately have k: "longest_prefix m model k" "m k = Some v" by (auto simp: longest_prefix_def)
    have "k' = k" if "longest_prefix m model k'" for k'
      by (rule longest_prefix_unique [OF that k(1)])
    then have "(\<exists>k'. longest_prefix m model k' \<and> m k' = Some t) \<longleftrightarrow> v = t" using k by (metis option.inject)
    then show ?thesis unfolding f using False kv by simp
  qed
qed

section \<open>Properties\<close>

definition named :: "string \<Rightarrow> provider_info \<Rightarrow> bool" where
  "named n p \<longleftrightarrow> map_option prov_Name (pi_Provider p) = Some n"

lemma FilterProvidersByModel_eq:
  assumes "lo_ok L" "lo_ok LP" "\<forall>p \<in> set ps. pi_Provider p \<noteq> None"
  shows "FilterProvidersByModel L LP model ps entries dflt = Inr
    (if model = '''' \<or> entries = [] then ps
     else let t = (case findProviderForModel L entries model of Some t \<Rightarrow> t | None \<Rightarrow> dflt)
          in if t = '''' \<or> filter (named t) ps = [] then ps else filter (named t) ps)"
proof -
  have "\<not> list_ex (\<lambda>p. pi_Provider p = None) ps" using assms(3) by (auto simp: list_ex_iff)
  moreover have "(\<lambda>p. map_option prov_Name (pi_Provider p) = Some t) = named t" for t
    by (simp add: named_def fun_eq_iff)
  ultimately show ?thesis using assms(1,2) by (simp only: FilterProvidersByModel_def Let_def lo_ok_filter) simp
qed

text \<open>
  Routing by model follows the longest prefix, whatever order the mapping is enumerated in: a model with a matching
  prefix goes to the providers its longest one names, a model without goes to the default provider, and when that
  leaves nobody all providers stay eligible, so filtering never makes a request unservable.
\<close>

lemma FilterProvidersByModel_spec:
  assumes "lo_ok L" and "lo_ok LP" and "enumerates entries m" and "\<forall>p \<in> set ps. pi_Provider p \<noteq> None"
    and "model \<noteq> ''''" and "m \<noteq> Map.empty"
  shows "\<exists>r. FilterProvidersByModel L LP model ps entries dflt = Inr r \<and> set r \<subseteq> set ps \<and> (ps \<noteq> [] \<longrightarrow> r \<noteq> []) \<and>
    (\<forall>k t. longest_prefix m model k \<longrightarrow> m k = Some t \<longrightarrow> t \<noteq> '''' \<longrightarrow>
       r = (if \<exists>p \<in> set ps. named t p then filter (named t) ps else ps)) \<and>
    ((\<forall>k \<in> dom m. \<not> prefix k model) \<longrightarrow> dflt \<noteq> '''' \<longrightarrow>
       r = (if \<exists>p \<in> set ps. named dflt p then filter (named dflt) ps else ps))"
proof -
  have ne: "entries \<noteq> []" using assms(3,6) by (auto simp: enumerates_def)
  have keep: "filter (named t) ps = [] \<longleftrightarrow> \<not> (\<exists>p \<in> set ps. named t p)" for t
    by (auto simp: filter_empty_conv)
  show ?thesis
  proof (cases "findProviderForModel L entries model")
    case None
    then have "\<forall>k \<in> dom m. \<not> prefix k model" using findProviderForModel_spec(2) [OF assms(1,3)] by blast
    then have "\<not> longest_prefix m model k" for k by (auto simp: longest_prefix_def)
    with None ne assms(5) show ?thesis
      unfolding FilterProvidersByModel_eq [OF assms(1,2,4)] by (auto simp: Let_def keep)
  next
    case (Some t)
    then obtain k where k: "longest_prefix m model k" "m k = Some t"
      using findProviderForModel_spec(1) [OF assms(1,3)] by blast
    have uniq: "longest_prefix m model k' \<Longrightarrow> k' = k" for k' using longest_prefix_unique [OF _ k(1)] .
    have "\<not> (\<forall>k \<in> dom m. \<not> prefix k model)" using k(1) by (auto simp: longest_prefix_def)
    with Some ne assms(5) show ?thesis
      unfolding FilterProvidersByModel_eq [OF assms(1,2,4)] using k(2) by (auto simp: Let_def keep dest: uniq)
  qed
qed

text \<open>
  A conversation with thinking signatures is routed deterministically. Whatever the strategy, the state of the
  router and the random source, it goes to the first healthy provider among the candidates of its model.
\<close>

lemma selectProvider_affinity:
  assumes "cache_reachable s" and "route_env_ok env" and "se_has_router se" and "se_providers se = Some ps" and "ps \<noteq> []"
    and "applyModelRouting se ps model = Inr (Some cands)" and "usable cands" and "\<exists>p \<in> set cands. Healthy p"
  shows "fst (selectProvider se env cfg model True s) = Inr (hd (filter Healthy cands))"
proof -
  let ?c = "applyThinkingAffinity env cands True"
  have H: "filter Healthy cands \<noteq> []" using assms(8) by (simp add: filter_empty_conv)
  have c: "set ?c \<subseteq> {p \<in> set cands. p = hd (filter Healthy cands) \<or> \<not> Healthy p}" "hd (filter Healthy cands) \<in> set ?c"
  proof -
    consider "length cands \<le> 1" | "1 < length cands" by linarith
    then have "set ?c \<subseteq> {p \<in> set cands. p = hd (filter Healthy cands) \<or> \<not> Healthy p} \<and> hd (filter Healthy cands) \<in> set ?c"
    proof cases
      case 1
      then show ?thesis using assms(8) by (cases cands) (auto simp: applyThinkingAffinity_def)
    next
      case 2
      then have "?c = [hd (filter Healthy cands)]"
        using H assms(2) by (cases "filter Healthy cands") (simp_all add: applyThinkingAffinity_def Let_def)
      moreover have "hd (filter Healthy cands) \<in> set cands" using H list.set_sel(1) by fastforce
      ultimately show ?thesis by simp
    qed
    then show "set ?c \<subseteq> {p \<in> set cands. p = hd (filter Healthy cands) \<or> \<not> Healthy p}" "hd (filter Healthy cands) \<in> set ?c" by blast+
  qed
  have "length ?c \<le> length cands"
    using assms(2) by (auto simp: applyThinkingAffinity_def Let_def)
  then have us: "usable ?c" using assms(7) c(1) by (auto simp: usable_def slice_ok_def)
  obtain s' r where r: "GetRouter cfg s = Some s'" "rc_router s' = Some r" "router_inv r"
    using GetRouter_ok [OF cache_reachable_ok [OF assms(1)]] by blast
  have eq: "fst (selectProvider se env cfg model True s) = fst (router_Select env r ?c)"
    using assms(3-6) r by (simp add: selectProvider_def providerCandidates_def live_Select_def split_def Let_def)
  have "Healthy (hd (filter Healthy cands))" using hd_in_set [OF H] by auto
  with c(2) obtain q where "fst (router_Select env r ?c) = Inr q" "q \<in> set ?c" "Healthy q"
    using anyr.sel_healthy [OF assms(2) r(3) us] by blast
  with c(1) show ?thesis unfolding eq by auto
qed

section \<open>Witnesses\<close>

lemma FilterProvidersByModel_spec_witness:
  "\<exists>r. FilterProvidersByModel std_lo std_lo ''claude-opus-4'' demo_provs [(''claude'', ''a''), (''claude-opus'', ''c'')] '''' = Inr r \<and>
     r = filter (named ''c'') demo_provs"
proof -
  have en: "enumerates [(''claude'', ''a''), (''claude-opus'', ''c'')] [''claude'' \<mapsto> ''a'', ''claude-opus'' \<mapsto> ''c'']"
    by (auto simp: enumerates_def split: if_splits)
  have lp: "longest_prefix [''claude'' \<mapsto> ''a'', ''claude-opus'' \<mapsto> ''c''] ''claude-opus-4'' ''claude-opus''"
    by (auto simp: longest_prefix_def)
  have "\<forall>p \<in> set demo_provs. pi_Provider p \<noteq> None" by (simp add: demo_provs_def demo_prov_def)
  from FilterProvidersByModel_spec [OF std_lo_ok std_lo_ok en this, of "''claude-opus-4''" "''''"]
  obtain r where r: "FilterProvidersByModel std_lo std_lo ''claude-opus-4'' demo_provs [(''claude'', ''a''), (''claude-opus'', ''c'')] '''' = Inr r"
    "\<forall>k t. longest_prefix [''claude'' \<mapsto> ''a'', ''claude-opus'' \<mapsto> ''c''] ''claude-opus-4'' k \<longrightarrow>
       [''claude'' \<mapsto> ''a'', ''claude-opus'' \<mapsto> ''c''] k = Some t \<longrightarrow> t \<noteq> '''' \<longrightarrow>
       r = (if \<exists>p \<in> set demo_provs. named t p then filter (named t) demo_provs else demo_provs)"
    by auto
  then show ?thesis using lp by (auto simp: demo_provs_def demo_prov_def named_def)
qed

definition demo_selection :: selection_env where
  "demo_selection = \<lparr>se_has_router = True, se_providers = Some demo_provs, se_default = None,
     se_routing = Some (demo_routing ''shuffle'' 10), se_entries = [], se_lo_entries = std_lo, se_lo_infos = std_lo\<rparr>"

lemma selectProvider_affinity_witness:
  "fst (selectProvider demo_selection demo_renv (demo_routing ''shuffle'' 10) ''m'' True NewRouterService) =
     Inr (demo_prov ''a'' 2 True)"
  using selectProvider_affinity [OF cr_new demo_renv_ok, of demo_selection demo_provs "''m''" demo_provs "demo_routing ''shuffle'' 10"]
  by (simp add: demo_selection_def applyModelRouting_def isModelBasedRouting_def) (simp add: demo_provs_def)

end
