(* ===== verification/Retry_Loop.thy ===== *)
theory Retry_Loop
  imports Provider_Router Config ZAI_Cooldown
begin

text \<open>
  The three nested retry loops of the proxy (\<open>internal/proxy/retry.go\<close>, \<open>serveWithRetry\<close> in
  \<open>handler.go\<close>, \<open>serveOpenAIWithRetry\<close> in \<open>openai_retry.go\<close>): the same key again, another key, another
  provider. The loops are stated over the operations they call, which change a world of type \<open>'w\<close>.
\<close>

section \<open>The retry context\<close>

record retry_ctx =
  rx_excludedProviders :: "string set"
  rx_excludedKeys :: "string set"
  rx_attemptCount :: int
  rx_lastRetryAfter :: duration
  rx_lastZAIInfo :: "zai_info option"
  rx_lastProviderName :: string
  rx_lastKeyID :: string
  rx_triedProviders :: "string list"
  rx_triedKeys :: "string list"

definition newRetryContext :: retry_ctx where
  "newRetryContext =
     \<lparr>rx_excludedProviders = {}, rx_excludedKeys = {}, rx_attemptCount = 0, rx_lastRetryAfter = 0, rx_lastZAIInfo = None,
      rx_lastProviderName = '''', rx_lastKeyID = '''', rx_triedProviders = [], rx_triedKeys = []\<rparr>"

definition canRetry :: "retry_config \<Rightarrow> retry_ctx \<Rightarrow> bool" where
  "canRetry cfg rx \<longleftrightarrow> rx_attemptCount rx < GetMaxTotalAttempts cfg"

definition key_path :: "string \<Rightarrow> string \<Rightarrow> string" where
  "key_path providerName keyID = providerName @ '':'' @ keyID"

definition recordAttempt :: "string \<Rightarrow> string \<Rightarrow> retry_ctx \<Rightarrow> retry_ctx" where
  "recordAttempt providerName keyID rx =
     rx\<lparr>rx_attemptCount := rx_attemptCount rx + 1, rx_lastProviderName := providerName, rx_lastKeyID := keyID,
        rx_triedProviders := (if providerName \<in> set (rx_triedProviders rx) then rx_triedProviders rx
                              else rx_triedProviders rx @ [providerName]),
        rx_triedKeys := rx_triedKeys rx @ [key_path providerName keyID]\<rparr>"

definition excludeProvider :: "string \<Rightarrow> retry_ctx \<Rightarrow> retry_ctx" where
  "excludeProvider name rx = rx\<lparr>rx_excludedProviders := insert name (rx_excludedProviders rx)\<rparr>"

definition excludeKey :: "string \<Rightarrow> string \<Rightarrow> retry_ctx \<Rightarrow> retry_ctx" where
  "excludeKey providerName keyID rx = rx\<lparr>rx_excludedKeys := insert (key_path providerName keyID) (rx_excludedKeys rx)\<rparr>"

definition isKeyExcluded :: "string \<Rightarrow> string \<Rightarrow> retry_ctx \<Rightarrow> bool" where
  "isKeyExcluded providerName keyID rx \<longleftrightarrow> key_path providerName keyID \<in> rx_excludedKeys rx"

definition sameKeyBackoff :: "retry_config \<Rightarrow> retry_ctx \<Rightarrow> duration" where
  "sameKeyBackoff cfg rx =
     (let backoff = GetSameKeyBackoff cfg;
          backoff = (if 0 < rx_lastRetryAfter rx \<and> rx_lastRetryAfter rx < backoff then rx_lastRetryAfter rx else backoff)
      in if seconds 5 < backoff then seconds 5 else backoff)"

definition isRetryableStatusCode :: "int \<Rightarrow> bool" where
  "isRetryableStatusCode code \<longleftrightarrow> code = 429 \<or> code = 403"

definition isTransient429 :: "retry_ctx \<Rightarrow> bool" where
  "isTransient429 rx = (case rx_lastZAIInfo rx of Some i \<Rightarrow> zi_Category i = ZAICatTransient | None \<Rightarrow> True)"

definition ClientRetryAfterSec :: int where "ClientRetryAfterSec = 2"

definition overrideRetryAfter :: "response \<Rightarrow> response" where
  "overrideRetryAfter resp = resp\<lparr>rs_Header := header_set (rs_Header resp) ''Retry-After'' (itoa ClientRetryAfterSec)\<rparr>"

definition parseRetryAfter :: "cd_env \<Rightarrow> header \<Rightarrow> duration" where
  "parseRetryAfter env headers =
     (let val = header_get headers ''Retry-After''
      in if val = '''' then seconds 60
         else case atoi val of
                Some n \<Rightarrow> wrap64 (n * nsec_per_sec)
              | None \<Rightarrow>
                  (case ce_http_time env val of
                     Some t \<Rightarrow> (let d = time_until (ce_now env) t in if 0 < d then d else seconds 60)
                   | None \<Rightarrow> seconds 60))"

section \<open>What the loops call\<close>

text \<open>
  An attempt is one request to an upstream: provider, key and body. \<open>op_select\<close> chooses a provider and says whether
  it has to be released; \<open>op_proxy\<close> gives its proxy: whether it has a key pool, and its fallback key; \<open>op_key\<close>
  takes a key from the pool; \<open>op_send\<close> forwards the request and gives the recorded response, after the
  response hook has run; \<open>op_clock\<close> is the clock and the date parser. A panic of a callee ends the request.
\<close>

record upstream_attempt =
  at_provider :: provider
  at_keyID :: string
  at_apiKey :: string
  at_body :: "string option"

record 'w retry_ops =
  op_select :: "retry_ctx \<Rightarrow> 'w \<Rightarrow> (go_error + provider \<times> bool) \<times> 'w"
  op_proxy :: "provider \<Rightarrow> 'w \<Rightarrow> (go_error + bool \<times> string) \<times> 'w"
  op_key :: "provider \<Rightarrow> retry_ctx \<Rightarrow> 'w \<Rightarrow> (go_error + (string \<times> string) option) \<times> 'w"
  op_send :: "upstream_attempt \<Rightarrow> 'w \<Rightarrow> (go_error + response) \<times> 'w"
  op_sleep :: "duration \<Rightarrow> 'w \<Rightarrow> 'w"
  op_release :: "provider \<Rightarrow> 'w \<Rightarrow> 'w"
  op_clock :: "'w \<Rightarrow> cd_env"

record 'w retry_state =
  rs_rx :: retry_ctx
  rs_last :: "response option"
  rs_world :: 'w

datatype step = SDone response | SPanic go_error | SEscalate

section \<open>The loops\<close>

text \<open>Every loop counts down the rounds it has left, one more than the configured number of retries.\<close>

fun same_key_loop ::
    "'w retry_ops \<Rightarrow> retry_config \<Rightarrow> upstream_attempt \<Rightarrow> bool \<Rightarrow> nat \<Rightarrow> 'w retry_state \<Rightarrow> step \<times> 'w retry_state" where
  "same_key_loop ops cfg a first 0 st = (SEscalate, st)"
| "same_key_loop ops cfg a first (Suc n) st =
     (if \<not> canRetry cfg (rs_rx st) then (SEscalate, st)
      else let w = (if first then rs_world st else op_sleep ops (sameKeyBackoff cfg (rs_rx st)) (rs_world st));
               rx = recordAttempt (prov_Name (at_provider a)) (at_keyID a) (rs_rx st)
           in case op_send ops a w of
                (Inl e, w) \<Rightarrow> (SPanic e, st\<lparr>rs_rx := rx, rs_world := w\<rparr>)
              | (Inr resp, w) \<Rightarrow>
                  (let rx' = rx\<lparr>rx_lastRetryAfter := parseRetryAfter (op_clock ops w) (rs_Header resp)\<rparr>
                   in if \<not> isRetryableStatusCode (rs_StatusCode resp)
                      then (SDone resp, \<lparr>rs_rx = rx, rs_last = Some resp, rs_world = w\<rparr>)
                      else if rs_StatusCode resp = 403 \<or> \<not> isTransient429 rx'
                      then (SEscalate, \<lparr>rs_rx = rx', rs_last = Some resp, rs_world = w\<rparr>)
                      else same_key_loop ops cfg a False n \<lparr>rs_rx = rx', rs_last = Some resp, rs_world = w\<rparr>))"

text \<open>Without a pool the key is the proxy's own, under the name \<open>default\<close>.\<close>

definition pick_key ::
    "'w retry_ops \<Rightarrow> provider \<Rightarrow> bool \<Rightarrow> string \<Rightarrow> retry_ctx \<Rightarrow> 'w \<Rightarrow>
     (go_error + (string \<times> string) option) \<times> 'w" where
  "pick_key ops prov pooled apiKey rx w =
     (if pooled then op_key ops prov rx w else (Inr (Some (''default'', apiKey)), w))"

fun key_loop ::
    "'w retry_ops \<Rightarrow> retry_config \<Rightarrow> provider \<Rightarrow> bool \<Rightarrow> string \<Rightarrow> string option \<Rightarrow> nat \<Rightarrow>
     'w retry_state \<Rightarrow> step \<times> 'w retry_state" where
  "key_loop ops cfg prov pooled apiKey body 0 st = (SEscalate, st)"
| "key_loop ops cfg prov pooled apiKey body (Suc n) st =
     (case pick_key ops prov pooled apiKey (rs_rx st) (rs_world st) of
        (Inl e, w) \<Rightarrow> (SPanic e, st\<lparr>rs_world := w\<rparr>)
      | (Inr None, w) \<Rightarrow> (SEscalate, st\<lparr>rs_world := w\<rparr>)
      | (Inr (Some (keyID, key)), w) \<Rightarrow>
          (case same_key_loop ops cfg \<lparr>at_provider = prov, at_keyID = keyID, at_apiKey = key, at_body = body\<rparr> True
                  (nat (GetSameKeyRetries cfg) + 1) (st\<lparr>rs_world := w\<rparr>) of
             (SEscalate, st) \<Rightarrow>
               (let st = st\<lparr>rs_rx := excludeKey (prov_Name prov) keyID (rs_rx st)\<rparr>
                in if \<not> canRetry cfg (rs_rx st) then (SEscalate, st)
                   else key_loop ops cfg prov pooled apiKey body n st)
           | r \<Rightarrow> r))"

text \<open>
  What is written to the client: a recorded response, or an error of the proxy itself. \<open>acquired\<close> are the
  providers whose release is deferred to the end of the request, the last one first.
\<close>

datatype reply = Flush response | NoProvider go_error | NoProxy go_error | NoAttempt | Panicked go_error

definition give_up :: "reply \<Rightarrow> 'w retry_state \<Rightarrow> reply" where
  "give_up r st = (case rs_last st of Some resp \<Rightarrow> Flush (overrideRetryAfter resp) | None \<Rightarrow> r)"

definition failed :: "(go_error \<Rightarrow> reply) \<Rightarrow> go_error \<Rightarrow> 'w retry_state \<Rightarrow> reply" where
  "failed r e st = (case e of GoPanic m \<Rightarrow> Panicked e | _ \<Rightarrow> give_up (r e) st)"

text \<open>
  The body of an attempt: for another provider than the first, a conversation with thinking blocks is sent from its
  original body with the blocks stripped (\<open>StripThinkingForProviderSwitch\<close>, an argument here).
\<close>

record retry_request =
  rq_body :: "string option"
  rq_original :: "string option"
  rq_hasThinking :: bool

definition attempt_body :: "(string \<Rightarrow> string) \<Rightarrow> retry_request \<Rightarrow> nat \<Rightarrow> string option" where
  "attempt_body strip rq providerAttempt =
     (case rq_body rq of
        None \<Rightarrow> None
      | Some b \<Rightarrow>
          (case rq_original rq of
             Some orig \<Rightarrow> if 0 < providerAttempt \<and> rq_hasThinking rq then Some (strip orig) else Some b
           | None \<Rightarrow> Some b))"

fun provider_loop ::
    "'w retry_ops \<Rightarrow> retry_config \<Rightarrow> (string \<Rightarrow> string) \<Rightarrow> retry_request \<Rightarrow> nat \<Rightarrow> nat \<Rightarrow> provider list \<Rightarrow>
     'w retry_state \<Rightarrow> reply \<times> provider list \<times> 'w retry_state" where
  "provider_loop ops cfg strip rq i 0 acquired st = (give_up NoAttempt st, acquired, st)"
| "provider_loop ops cfg strip rq i (Suc n) acquired st =
     (case op_select ops (rs_rx st) (rs_world st) of
        (Inl e, w) \<Rightarrow> (failed NoProvider e st, acquired, st\<lparr>rs_world := w\<rparr>)
      | (Inr (prov, tracked), w) \<Rightarrow>
          (let acquired = (if tracked then prov # acquired else acquired)
           in case op_proxy ops prov w of
                (Inl e, w) \<Rightarrow> (failed NoProxy e st, acquired, st\<lparr>rs_world := w\<rparr>)
              | (Inr (pooled, apiKey), w) \<Rightarrow>
                  (case key_loop ops cfg prov pooled apiKey (attempt_body strip rq i)
                          (nat (GetKeyRetries cfg) + 1) (st\<lparr>rs_world := w\<rparr>) of
                     (SDone resp, st) \<Rightarrow> (Flush resp, acquired, st)
                   | (SPanic e, st) \<Rightarrow> (Panicked e, acquired, st)
                   | (SEscalate, st) \<Rightarrow>
                       (let st = st\<lparr>rs_rx := excludeProvider (prov_Name prov) (rs_rx st)\<rparr>
                        in if \<not> canRetry cfg (rs_rx st) then (give_up NoAttempt st, acquired, st)
                           else provider_loop ops cfg strip rq (i + 1) n acquired
                             (if int i < GetProviderRetries cfg
                              then st\<lparr>rs_world := op_sleep ops (GetProviderBackoff cfg) (rs_world st)\<rparr> else st)))))"

definition retry_run ::
    "'w retry_ops \<Rightarrow> retry_config \<Rightarrow> (string \<Rightarrow> string) \<Rightarrow> retry_request \<Rightarrow> 'w \<Rightarrow>
     reply \<times> provider list \<times> 'w retry_state" where
  "retry_run ops cfg strip rq w =
     provider_loop ops cfg strip rq 0 (nat (GetProviderRetries cfg) + 1) []
       \<lparr>rs_rx = newRetryContext, rs_last = None, rs_world = w\<rparr>"

definition serveWithRetry ::
    "'w retry_ops \<Rightarrow> retry_config \<Rightarrow> (string \<Rightarrow> string) \<Rightarrow> retry_request \<Rightarrow> 'w \<Rightarrow> reply \<times> 'w" where
  "serveWithRetry ops cfg strip rq w =
     (let (r, acquired, st) = retry_run ops cfg strip rq w
      in (r, fold (op_release ops) acquired (rs_world st)))"

end
