(* ===== verification/Retry_Facts.thy ===== *)
theory Retry_Facts
  imports Retry_Loop
begin

text \<open>
  What the retry loops guarantee, stated over the history of a request: the attempts made, with the response to each.
  The locale \<open>retry_history\<close> says that sending is what extends the history; \<open>retry_contract\<close> adds
  that nothing excluded is selected again.
\<close>

section \<open>Histories\<close>

type_synonym history = "(upstream_attempt \<times> response) list"

definition at_path :: "upstream_attempt \<Rightarrow> string" where
  "at_path a = key_path (prov_Name (at_provider a)) (at_keyID a)"

abbreviation retried :: "upstream_attempt \<times> response \<Rightarrow> bool" where
  "retried x \<equiv> isRetryableStatusCode (rs_StatusCode (snd x))"

text \<open>What holds while the loops go on: every response so far asked for a retry, and the last one is kept.\<close>

definition going_on :: "retry_config \<Rightarrow> history \<Rightarrow> retry_ctx \<Rightarrow> response option \<Rightarrow> bool" where
  "going_on cfg h rx lst \<longleftrightarrow>
     rx_attemptCount rx = int (length h) \<and> int (length h) \<le> GetMaxTotalAttempts cfg \<and>
     rx_triedKeys rx = map (at_path \<circ> fst) h \<and> (\<forall>x \<in> set h. retried x) \<and>
     lst = (if h = [] then None else Some (snd (last h)))"

definition done_with :: "retry_config \<Rightarrow> history \<Rightarrow> response \<Rightarrow> bool" where
  "done_with cfg h resp \<longleftrightarrow> int (length h) \<le> GetMaxTotalAttempts cfg \<and>
     h \<noteq> [] \<and> snd (last h) = resp \<and> (\<forall>x \<in> set (butlast h). retried x) \<and> \<not> retried (last h)"

text \<open>What the client gets, given the history.\<close>

definition reply_ok :: "history \<Rightarrow> reply \<Rightarrow> bool" where
  "reply_ok h reply =
     (case reply of
        Flush r \<Rightarrow> h \<noteq> [] \<and> (\<forall>x \<in> set (butlast h). retried x) \<and>
          r = (if retried (last h) then overrideRetryAfter (snd (last h)) else snd (last h))
      | Panicked e \<Rightarrow> True
      | _ \<Rightarrow> h = [])"

definition loop_post :: "('w \<Rightarrow> history) \<Rightarrow> retry_config \<Rightarrow> step \<times> 'w retry_state \<Rightarrow> bool" where
  "loop_post hist cfg r =
     (let st = snd r; h = hist (rs_world st)
      in case fst r of
           SEscalate \<Rightarrow> going_on cfg h (rs_rx st) (rs_last st)
         | SDone resp \<Rightarrow> done_with cfg h resp
         | SPanic e \<Rightarrow> int (length h) \<le> GetMaxTotalAttempts cfg)"

lemma going_on_rx:
  "going_on cfg h (rx\<lparr>rx_lastRetryAfter := d\<rparr>) lst = going_on cfg h rx lst"
  "going_on cfg h (excludeKey p k rx) lst = going_on cfg h rx lst"
  "going_on cfg h (excludeProvider p rx) lst = going_on cfg h rx lst"
  by (simp_all add: going_on_def excludeKey_def excludeProvider_def)

lemma going_on_step:
  assumes "going_on cfg h rx lst" "canRetry cfg rx"
  shows "isRetryableStatusCode (rs_StatusCode resp) \<Longrightarrow>
      going_on cfg (h @ [(a, resp)]) (recordAttempt (prov_Name (at_provider a)) (at_keyID a) rx) (Some resp)"
    and "\<not> isRetryableStatusCode (rs_StatusCode resp) \<Longrightarrow> done_with cfg (h @ [(a, resp)]) resp"
    and "int (length h) \<le> GetMaxTotalAttempts cfg"
  using assms by (auto simp: going_on_def done_with_def recordAttempt_def canRetry_def at_path_def)

lemma give_up_ok:
  assumes "going_on cfg h (rs_rx st) (rs_last st)" "r \<in> {NoProvider e, NoProxy e, NoAttempt}"
  shows "reply_ok h (give_up r st)"
proof -
  have "x \<in> set (butlast h) \<Longrightarrow> x \<in> set h" for x by (rule in_set_butlastD)
  with assms show ?thesis
    by (cases "h = []") (auto simp: give_up_def going_on_def reply_ok_def)
qed

lemma failed_ok:
  "going_on cfg h (rs_rx st) (rs_last st) \<Longrightarrow> r = NoProvider \<or> r = NoProxy \<Longrightarrow> reply_ok h (failed r e st)"
  using give_up_ok [of cfg h st "r e" e] by (cases e) (auto simp: failed_def reply_ok_def [of _ "Panicked _"])

locale retry_history =
  fixes ops :: "'w retry_ops" and hist :: "'w \<Rightarrow> history"
  assumes select_hist: "hist (snd (op_select ops rx w)) = hist w"
    and proxy_hist: "hist (snd (op_proxy ops p w)) = hist w"
    and key_hist: "hist (snd (op_key ops p rx w)) = hist w"
    and sleep_hist: "hist (op_sleep ops d w) = hist w"
    and send_hist: "hist (snd (op_send ops a w)) =
      (case fst (op_send ops a w) of Inr resp \<Rightarrow> hist w @ [(a, resp)] | Inl e \<Rightarrow> hist w)"
begin

lemma pick_key_hist: "hist (snd (pick_key ops p b k rx w)) = hist w"
  by (simp add: pick_key_def key_hist)

text \<open>One round of the innermost loop.\<close>

lemma same_key_step:
  obtains (stop) "same_key_loop ops cfg a first (Suc n) st = (SEscalate, st)" "\<not> canRetry cfg (rs_rx st)"
  | (panic) e rx w where "same_key_loop ops cfg a first (Suc n) st = (SPanic e, st\<lparr>rs_rx := rx, rs_world := w\<rparr>)"
      "hist w = hist (rs_world st)" "canRetry cfg (rs_rx st)"
  | (finished) resp rx w where "same_key_loop ops cfg a first (Suc n) st =
        (SDone resp, \<lparr>rs_rx = rx, rs_last = Some resp, rs_world = w\<rparr>)"
      "hist w = hist (rs_world st) @ [(a, resp)]" "\<not> isRetryableStatusCode (rs_StatusCode resp)" "canRetry cfg (rs_rx st)"
  | (retry) resp d w where "same_key_loop ops cfg a first (Suc n) st =
        (if rs_StatusCode resp = 403 \<or> \<not> isTransient429 (rs_rx st)
         then (SEscalate, \<lparr>rs_rx = (recordAttempt (prov_Name (at_provider a)) (at_keyID a) (rs_rx st))\<lparr>rx_lastRetryAfter := d\<rparr>,
                           rs_last = Some resp, rs_world = w\<rparr>)
         else same_key_loop ops cfg a False n
                \<lparr>rs_rx = (recordAttempt (prov_Name (at_provider a)) (at_keyID a) (rs_rx st))\<lparr>rx_lastRetryAfter := d\<rparr>,
                 rs_last = Some resp, rs_world = w\<rparr>)"
      "hist w = hist (rs_world st) @ [(a, resp)]" "isRetryableStatusCode (rs_StatusCode resp)" "canRetry cfg (rs_rx st)"
proof (cases "canRetry cfg (rs_rx st)")
  case False
  then show thesis using stop by simp
next
  case True
  define w0 where "w0 = (if first then rs_world st else op_sleep ops (sameKeyBackoff cfg (rs_rx st)) (rs_world st))"
  have h0: "hist w0 = hist (rs_world st)" by (simp add: w0_def sleep_hist)
  obtain res w where s: "op_send ops a w0 = (res, w)" by fastforce
  then have h: "hist w = (case res of Inr resp \<Rightarrow> hist (rs_world st) @ [(a, resp)] | Inl e \<Rightarrow> hist (rs_world st))"
    using send_hist [of a w0] h0 by (cases res) simp_all
  have tr: "isTransient429 ((recordAttempt p k rx)\<lparr>rx_lastRetryAfter := d\<rparr>) = isTransient429 rx" for p k rx d
    by (simp add: isTransient429_def recordAttempt_def)
  show thesis
  proof (cases res)
    case (Inl e)
    then show thesis using panic True s h by (simp add: Let_def flip: w0_def)
  next
    case (Inr resp)
    show thesis
    proof (cases "isRetryableStatusCode (rs_StatusCode resp)")
      case False
      then show thesis using finished [OF _ _ False True] True s h Inr by (simp add: Let_def flip: w0_def)
    next
      case ret: True
      show thesis
        by (rule retry [of resp "parseRetryAfter (op_clock ops w) (rs_Header resp)" w, OF _ _ ret True]) (use True s h Inr ret in \<open>simp_all add: Let_def tr flip: w0_def\<close>)
    qed
  qed
qed

declare same_key_loop.simps(2) [simp del]

lemma same_key_loop_post:
  assumes "going_on cfg (hist (rs_world st)) (rs_rx st) (rs_last st)"
  shows "loop_post hist cfg (same_key_loop ops cfg a first n st)"
  using assms
proof (induction n arbitrary: first st)
  case 0
  then show ?case by (simp add: loop_post_def)
next
  case (Suc n)
  show ?case
  proof (cases rule: same_key_step [of cfg a first n st, case_names stop panic finished retry])
    case stop
    with Suc.prems show ?thesis by (simp add: loop_post_def)
  next
    case panic
    with Suc.prems show ?thesis by (simp add: loop_post_def going_on_def)
  next
    case finished
    with going_on_step(2) [OF Suc.prems] show ?thesis by (simp add: loop_post_def)
  next
    case (retry resp d w)
    then have "going_on cfg (hist w)
        ((recordAttempt (prov_Name (at_provider a)) (at_keyID a) (rs_rx st))\<lparr>rx_lastRetryAfter := d\<rparr>) (Some resp)"
      using going_on_step(1) [OF Suc.prems] by (simp add: going_on_rx)
    then show ?thesis
      using Suc.IH [of "\<lparr>rs_rx = (recordAttempt (prov_Name (at_provider a)) (at_keyID a) (rs_rx st))\<lparr>rx_lastRetryAfter := d\<rparr>,
          rs_last = Some resp, rs_world = w\<rparr>" False] retry(1)
      by (auto simp: loop_post_def)
  qed
qed

text \<open>The loop over keys, and the loop over providers.\<close>

lemma key_loop_post:
  assumes "going_on cfg (hist (rs_world st)) (rs_rx st) (rs_last st)"
  shows "loop_post hist cfg (key_loop ops cfg prov pooled apiKey body n st)"
  using assms
proof (induction n arbitrary: st)
  case 0
  then show ?case by (simp add: loop_post_def)
next
  case (Suc n)
  obtain k w where k: "pick_key ops prov pooled apiKey (rs_rx st) (rs_world st) = (k, w)" by fastforce
  have w: "hist w = hist (rs_world st)" using pick_key_hist [of prov pooled apiKey "rs_rx st" "rs_world st"] by (simp add: k)
  consider (panic) e where "k = Inl e" | (none) "k = Inr None" | (key) kk where "k = Inr (Some kk)"
    by (metis not_Some_eq obj_sumE)
  then show ?case
  proof cases
    case panic
    then show ?thesis using Suc.prems k w by (simp add: loop_post_def going_on_def)
  next
    case none
    then show ?thesis using Suc.prems k w by (simp add: loop_post_def)
  next
    case Some: (key kk)
    obtain keyID key where kk: "kk = (keyID, key)" by fastforce
    obtain r st' where r: "same_key_loop ops cfg \<lparr>at_provider = prov, at_keyID = keyID, at_apiKey = key, at_body = body\<rparr> True
        (nat (GetSameKeyRetries cfg) + 1) (st\<lparr>rs_world := w\<rparr>) = (r, st')" by fastforce
    have post: "loop_post hist cfg (r, st')"
      unfolding r [symmetric] by (rule same_key_loop_post) (simp add: w Suc.prems)
    show ?thesis
    proof (cases r)
      case SEscalate
      let ?st = "st'\<lparr>rs_rx := excludeKey (prov_Name prov) keyID (rs_rx st')\<rparr>"
      have "going_on cfg (hist (rs_world ?st)) (rs_rx ?st) (rs_last ?st)"
        using post SEscalate by (simp add: loop_post_def going_on_rx)
      from Suc.IH [OF this] this show ?thesis
        using k Some kk r SEscalate by (simp add: Let_def loop_post_def)
    qed (use k Some kk r post in simp_all)
  qed
qed

lemma provider_loop_post:
  assumes "going_on cfg (hist (rs_world st)) (rs_rx st) (rs_last st)"
    and "provider_loop ops cfg strip rq i n acquired st = (reply, acq, st')"
  shows "int (length (hist (rs_world st'))) \<le> GetMaxTotalAttempts cfg \<and>
    reply_ok (hist (rs_world st')) reply"
  using assms
proof (induction n arbitrary: i acquired st)
  case 0
  then show ?case by (auto intro: give_up_ok) (auto simp: going_on_def)
next
  case (Suc n)
  have stop: ?case
    if "reply = failed r0 e st1 \<and> (r0 = NoProvider \<or> r0 = NoProxy) \<or> reply = give_up NoAttempt st1"
      "hist (rs_world st') = hist (rs_world st1)"
      "going_on cfg (hist (rs_world st1)) (rs_rx st1) (rs_last st1)" for r0 e st1
    using that give_up_ok [OF that(3), of NoAttempt] failed_ok [OF that(3), of r0 e] by (auto simp: going_on_def)
  obtain s w where s: "op_select ops (rs_rx st) (rs_world st) = (s, w)" by fastforce
  have w: "hist w = hist (rs_world st)" using select_hist [of "rs_rx st" "rs_world st"] by (simp add: s)
  show ?case
  proof (cases s)
    case (Inl e)
    then show ?thesis using Suc.prems s w by (intro stop [of NoProvider e st]) auto
  next
    case (Inr pt)
    obtain prov tracked where pt: "pt = (prov, tracked)" by fastforce
    obtain x w' where x: "op_proxy ops prov w = (x, w')" by fastforce
    have w': "hist w' = hist (rs_world st)" using proxy_hist [of prov w] w by (simp add: x)
    show ?thesis
    proof (cases x)
      case (Inl e)
      then show ?thesis using Suc.prems s Inr pt x w' by (intro stop [of NoProxy e st]) auto
    next
      case x2: (Inr pa)
      obtain pooled apiKey where pa: "pa = (pooled, apiKey)" by fastforce
      obtain r st1 where r: "key_loop ops cfg prov pooled apiKey (attempt_body strip rq i) (nat (GetKeyRetries cfg) + 1)
          (st\<lparr>rs_world := w'\<rparr>) = (r, st1)" by fastforce
      have post: "loop_post hist cfg (r, st1)"
        unfolding r [symmetric] by (rule key_loop_post) (simp add: w' Suc.prems(1))
      note run = Suc.prems(2) [unfolded provider_loop.simps(2) s Inr pt x x2 pa r prod.case sum.case Let_def]
      show ?thesis
      proof (cases r)
        case (SDone resp)
        then show ?thesis using run post by (auto simp: loop_post_def done_with_def reply_ok_def Let_def)
      next
        case (SPanic e)
        then show ?thesis using run post by (auto simp: loop_post_def reply_ok_def Let_def)
      next
        case SEscalate
        let ?st = "st1\<lparr>rs_rx := excludeProvider (prov_Name prov) (rs_rx st1)\<rparr>"
        have g: "going_on cfg (hist (rs_world ?st)) (rs_rx ?st) (rs_last ?st)"
          using post SEscalate by (simp add: loop_post_def going_on_rx)
        show ?thesis
        proof (cases "canRetry cfg (rs_rx ?st)")
          case False
          then show ?thesis using run SEscalate r by (intro stop [of NoProxy undefined ?st] g) auto
        next
          case True
          show ?thesis
            by (rule Suc.IH [OF _ trans [OF _ run]]) (use g True SEscalate r in \<open>auto simp: sleep_hist\<close>)
        qed
      qed
    qed
  qed
qed

end

section \<open>Nothing is tried again\<close>

abbreviation code_of :: "upstream_attempt \<times> response \<Rightarrow> int" where
  "code_of x \<equiv> rs_StatusCode (snd x)"

abbreviation path_of_attempt :: "upstream_attempt \<times> response \<Rightarrow> string" where
  "path_of_attempt x \<equiv> at_path (fst x)"

abbreviation provider_of :: "upstream_attempt \<times> response \<Rightarrow> string" where
  "provider_of x \<equiv> prov_Name (at_provider (fst x))"

text \<open>A key is used at most \<open>m\<close> times, and never again after a 403.\<close>

definition spent_once :: "nat \<Rightarrow> history \<Rightarrow> bool" where
  "spent_once m h \<longleftrightarrow>
     (\<forall>i j. i < j \<longrightarrow> j < length h \<longrightarrow> code_of (h ! i) = 403 \<longrightarrow> path_of_attempt (h ! j) \<noteq> path_of_attempt (h ! i)) \<and>
     (\<forall>k. length (filter (\<lambda>x. path_of_attempt x = k) h) \<le> m)"

text \<open>A provider that was left for another is not used again.\<close>

definition never_back :: "history \<Rightarrow> bool" where
  "never_back h \<longleftrightarrow>
     (\<forall>i j k. i < j \<longrightarrow> j < k \<longrightarrow> k < length h \<longrightarrow> provider_of (h ! i) \<noteq> provider_of (h ! j) \<longrightarrow>
        provider_of (h ! k) \<noteq> provider_of (h ! i))"

lemma spent_once_append:
  assumes "spent_once m h" and "\<forall>x \<in> set b. path_of_attempt x = c" and "\<forall>x \<in> set h. path_of_attempt x \<noteq> c"
    and "length b \<le> m" and "\<forall>x \<in> set (butlast b). code_of x \<noteq> 403"
  shows "spent_once m (h @ b)"
  unfolding spent_once_def
proof (intro conjI allI impI)
  fix i j assume ij: "i < j" "j < length (h @ b)" "code_of ((h @ b) ! i) = 403"
  consider "j < length h" | "i < length h" "length h \<le> j" | "length h \<le> i" by linarith
  then show "path_of_attempt ((h @ b) ! j) \<noteq> path_of_attempt ((h @ b) ! i)"
  proof cases
    case 1
    then show ?thesis using ij assms(1) by (simp add: spent_once_def nth_append)
  next
    case 2
    then have "b ! (j - length h) \<in> set b" "h ! i \<in> set h" using ij(2) by simp_all
    then have "path_of_attempt (b ! (j - length h)) = c" "path_of_attempt (h ! i) \<noteq> c"
      using assms(2,3) by blast+
    then show ?thesis using 2 by (simp add: nth_append)
  next
    case 3
    then have "i - length h < length (butlast b)" using ij(1,2) by simp
    then have "b ! (i - length h) \<in> set (butlast b)" by (metis nth_butlast nth_mem)
    then show ?thesis using 3 ij(3) assms(5) by (simp add: nth_append)
  qed
next
  fix k
  have "length (filter (\<lambda>x. path_of_attempt x = k) b) = 0" if "k \<noteq> c" using that assms(2) by auto
  moreover have "length (filter (\<lambda>x. path_of_attempt x = c) h) = 0" using assms(3) by auto
  moreover have "length (filter (\<lambda>x. path_of_attempt x = k) h) \<le> m" using assms(1) by (simp add: spent_once_def)
  moreover have "length (filter (\<lambda>x. path_of_attempt x = k) b) \<le> m" using assms(4) by (metis le_trans length_filter_le)
  ultimately show "length (filter (\<lambda>x. path_of_attempt x = k) (h @ b)) \<le> m"
    by (cases "k = c") simp_all
qed

lemma never_back_append:
  assumes "never_back h" and "\<forall>x \<in> set b. provider_of x = c" and "\<forall>x \<in> set h. provider_of x \<noteq> c"
  shows "never_back (h @ b)"
  unfolding never_back_def
proof (intro allI impI)
  fix i j k
  assume ijk: "i < j" "j < k" "k < length (h @ b)" "provider_of ((h @ b) ! i) \<noteq> provider_of ((h @ b) ! j)"
  have inb: "provider_of ((h @ b) ! l) = c" if "length h \<le> l" "l < length (h @ b)" for l
    using that assms(2) by (simp add: nth_append)
  show "provider_of ((h @ b) ! k) \<noteq> provider_of ((h @ b) ! i)"
  proof (cases "k < length h")
    case True
    then show ?thesis using ijk assms(1) by (simp add: never_back_def nth_append)
  next
    case False
    then have "i < length h" using ijk inb [of i] inb [of j] by force
    then have "provider_of ((h @ b) ! i) \<noteq> c" using assms(3) by (simp add: nth_append)
    then show ?thesis using inb [of k] False ijk(3) by auto
  qed
qed

context retry_history begin

text \<open>The innermost loop adds a block of attempts with one key, all but the last answered 429.\<close>

lemma same_key_loop_block:
  "\<exists>b. hist (rs_world (snd (same_key_loop ops cfg a first n st))) = hist (rs_world st) @ b \<and>
     (\<forall>x \<in> set b. fst x = a) \<and> length b \<le> n \<and> (\<forall>x \<in> set (butlast b). code_of x = 429) \<and>
     (fst (same_key_loop ops cfg a first n st) = SEscalate \<longrightarrow>
        rx_excludedKeys (rs_rx (snd (same_key_loop ops cfg a first n st))) = rx_excludedKeys (rs_rx st) \<and>
        rx_excludedProviders (rs_rx (snd (same_key_loop ops cfg a first n st))) = rx_excludedProviders (rs_rx st))"
proof (induction n arbitrary: first st)
  case 0
  show ?case by (rule exI [of _ "[]"]) simp
next
  case (Suc n)
  show ?case
  proof (cases rule: same_key_step [of cfg a first n st, case_names stop panic finished retry])
    case (retry resp d w)
    let ?st = "\<lparr>rs_rx = (recordAttempt (prov_Name (at_provider a)) (at_keyID a) (rs_rx st))\<lparr>rx_lastRetryAfter := d\<rparr>,
      rs_last = Some resp, rs_world = w\<rparr>"
    have same: "rx_excludedKeys (rs_rx ?st) = rx_excludedKeys (rs_rx st)"
      "rx_excludedProviders (rs_rx ?st) = rx_excludedProviders (rs_rx st)"
      by (simp_all add: recordAttempt_def)
    show ?thesis
    proof (cases "rs_StatusCode resp = 403 \<or> \<not> isTransient429 (rs_rx st)")
      case True
      then show ?thesis using retry same by (intro exI [of _ "[(a, resp)]"]) simp
    next
      case False
      obtain b where b: "hist (rs_world (snd (same_key_loop ops cfg a False n ?st))) = hist w @ b"
        "\<forall>x \<in> set b. fst x = a" "length b \<le> n" "\<forall>x \<in> set (butlast b). code_of x = 429"
        "fst (same_key_loop ops cfg a False n ?st) = SEscalate \<longrightarrow>
          rx_excludedKeys (rs_rx (snd (same_key_loop ops cfg a False n ?st))) = rx_excludedKeys (rs_rx ?st) \<and>
          rx_excludedProviders (rs_rx (snd (same_key_loop ops cfg a False n ?st))) = rx_excludedProviders (rs_rx ?st)"
        using Suc.IH [of False ?st] by auto
      have "rs_StatusCode resp = 429" using False retry(3) by (simp add: isRetryableStatusCode_def)
      then show ?thesis
        using retry(1,2) False b same by (intro exI [of _ "(a, resp) # b"]) simp
    qed
  qed (auto intro: exI [of _ "[]"])
qed

end

text \<open>
  \<open>inv\<close> is what the world keeps during a request; the providers selected have key pools.
\<close>

locale retry_contract = retry_history ops hist for ops :: "'w retry_ops" and hist +
  fixes inv :: "'w \<Rightarrow> bool" and has_pool :: "provider \<Rightarrow> bool"
  assumes select_fresh: "inv w \<Longrightarrow> op_select ops rx w = (Inr (p, t), w') \<Longrightarrow>
      prov_Name p \<notin> rx_excludedProviders rx \<and> has_pool p"
    and key_fresh: "inv w \<Longrightarrow> has_pool p \<Longrightarrow> op_key ops p rx w = (Inr (Some (k, apiKey)), w') \<Longrightarrow>
      \<not> isKeyExcluded (prov_Name p) k rx"
    and pooled: "inv w \<Longrightarrow> has_pool p \<Longrightarrow> op_proxy ops p w = (Inr (b, apiKey), w') \<Longrightarrow> b"
    and select_inv: "inv w \<Longrightarrow> inv (snd (op_select ops rx w))"
    and proxy_inv: "inv w \<Longrightarrow> inv (snd (op_proxy ops p w))"
    and key_inv: "inv w \<Longrightarrow> inv (snd (op_key ops p rx w))"
    and sleep_inv: "inv w \<Longrightarrow> inv (op_sleep ops d w)"
    and send_inv: "inv w \<Longrightarrow> inv (snd (op_send ops a w))"
begin

lemma same_key_loop_inv:
  "inv (rs_world st) \<Longrightarrow> inv (rs_world (snd (same_key_loop ops cfg a first n st)))"
proof (induction n arbitrary: first st)
  case (Suc n)
  let ?w = "if first then rs_world st else op_sleep ops (sameKeyBackoff cfg (rs_rx st)) (rs_world st)"
  obtain res w where s: "op_send ops a ?w = (res, w)" by fastforce
  have "inv ?w" using Suc.prems by (simp add: sleep_inv)
  with send_inv [of ?w a] s have w: "inv w" by simp
  show ?case
    using Suc s w by (cases res) (auto simp: same_key_loop.simps(2) Let_def)
qed simp

abbreviation rounds :: "retry_config \<Rightarrow> nat" where
  "rounds cfg \<equiv> nat (GetSameKeyRetries cfg) + 1"

lemma key_loop_block:
  assumes "inv (rs_world st)" and "has_pool prov" and "spent_once (rounds cfg) (hist (rs_world st))"
    and "\<forall>x \<in> set (hist (rs_world st)). path_of_attempt x \<in> rx_excludedKeys (rs_rx st)"
    and "key_loop ops cfg prov True apiKey body n st = (r, st')"
  shows "\<exists>b. hist (rs_world st') = hist (rs_world st) @ b \<and> (\<forall>x \<in> set b. provider_of x = prov_Name prov) \<and>
    spent_once (rounds cfg) (hist (rs_world st')) \<and> inv (rs_world st') \<and>
    (r = SEscalate \<longrightarrow> rx_excludedProviders (rs_rx st') = rx_excludedProviders (rs_rx st) \<and>
       (\<forall>x \<in> set (hist (rs_world st')). path_of_attempt x \<in> rx_excludedKeys (rs_rx st')))"
  using assms
proof (induction n arbitrary: st)
  case 0
  then show ?case by (intro exI [of _ "[]"]) auto
next
  case (Suc n)
  obtain k w where k: "op_key ops prov (rs_rx st) (rs_world st) = (k, w)" by fastforce
  then have pk: "pick_key ops prov True apiKey (rs_rx st) (rs_world st) = (k, w)" by (simp add: pick_key_def)
  have w: "hist w = hist (rs_world st)" using key_hist [of prov "rs_rx st" "rs_world st"] by (simp add: k)
  have iw: "inv w" using key_inv [OF Suc.prems(1), of prov "rs_rx st"] by (simp add: k)
  consider (panic) e where "k = Inl e" | (none) "k = Inr None" | (key) kk where "k = Inr (Some kk)"
    by (metis not_Some_eq obj_sumE)
  then show ?case
  proof cases
    case panic
    then have "r \<noteq> SEscalate" "st' = st\<lparr>rs_world := w\<rparr>" using Suc.prems(5) pk by auto
    then show ?thesis using Suc.prems(3,4) w iw by (intro exI [of _ "[]"]) simp
  next
    case none
    then have "r = SEscalate" "st' = st\<lparr>rs_world := w\<rparr>" using Suc.prems(5) pk by auto
    then show ?thesis using Suc.prems(3,4) w iw by (intro exI [of _ "[]"]) simp
  next
    case Some: (key kk)
    obtain keyID key where kk: "kk = (keyID, key)" by fastforce
    let ?a = "\<lparr>at_provider = prov, at_keyID = keyID, at_apiKey = key, at_body = body\<rparr>"
    let ?c = "key_path (prov_Name prov) keyID"
    obtain r1 st1 where r1: "same_key_loop ops cfg ?a True (rounds cfg) (st\<lparr>rs_world := w\<rparr>) = (r1, st1)" by fastforce
    obtain b where b: "hist (rs_world st1) = hist (rs_world st) @ b" "\<forall>x \<in> set b. fst x = ?a" "length b \<le> rounds cfg"
      "\<forall>x \<in> set (butlast b). code_of x = 429"
      "r1 = SEscalate \<longrightarrow> rx_excludedKeys (rs_rx st1) = rx_excludedKeys (rs_rx st) \<and>
        rx_excludedProviders (rs_rx st1) = rx_excludedProviders (rs_rx st)"
      using same_key_loop_block [of cfg ?a True "rounds cfg" "st\<lparr>rs_world := w\<rparr>"] r1 w by auto
    have fresh: "\<forall>x \<in> set (hist (rs_world st)). path_of_attempt x \<noteq> ?c"
      using key_fresh [OF Suc.prems(1,2), of "rs_rx st" keyID key w] k Some kk Suc.prems(4) by (auto simp: isKeyExcluded_def)
    have inb: "\<forall>x \<in> set b. path_of_attempt x = ?c" "\<forall>x \<in> set b. provider_of x = prov_Name prov"
      using b(2) by (auto simp: at_path_def)
    have sp: "spent_once (rounds cfg) (hist (rs_world st1))"
      unfolding b(1) by (rule spent_once_append [OF Suc.prems(3) inb(1) fresh b(3)]) (use b(4) in auto)
    have i1: "inv (rs_world st1)"
      using same_key_loop_inv [of "st\<lparr>rs_world := w\<rparr>" cfg ?a True "rounds cfg"] r1 iw by simp
    show ?thesis
    proof (cases "r1 = SEscalate")
      case False
      then have "r = r1" "st' = st1" using Suc.prems(5) pk Some kk r1 by (auto split: step.splits)
      then show ?thesis using b(1) inb(2) sp False i1 by (intro exI [of _ b]) simp
    next
      case True
      let ?st = "st1\<lparr>rs_rx := excludeKey (prov_Name prov) keyID (rs_rx st1)\<rparr>"
      have ex: "\<forall>x \<in> set (hist (rs_world ?st)). path_of_attempt x \<in> rx_excludedKeys (rs_rx ?st)"
        using b(1,5) True inb(1) Suc.prems(4) by (auto simp: excludeKey_def)
      have prov: "rx_excludedProviders (rs_rx ?st) = rx_excludedProviders (rs_rx st)"
        using b(5) True by (simp add: excludeKey_def)
      show ?thesis
      proof (cases "canRetry cfg (rs_rx ?st)")
        case False
        then have "r = SEscalate" "st' = ?st" using Suc.prems(5) pk Some kk r1 True by (auto simp: Let_def)
        then show ?thesis using b(1) inb(2) sp ex prov i1 by (intro exI [of _ b]) simp
      next
        case go: True
        have run: "key_loop ops cfg prov True apiKey body n ?st = (r, st')"
          using Suc.prems(5) pk Some kk r1 True go by (simp add: Let_def)
        have "spent_once (rounds cfg) (hist (rs_world ?st))" "inv (rs_world ?st)" using sp i1 by simp_all
        from Suc.IH [OF this(2) Suc.prems(2) this(1) ex run] obtain b2 where "hist (rs_world st') = hist (rs_world ?st) @ b2"
          "\<forall>x \<in> set b2. provider_of x = prov_Name prov" "spent_once (rounds cfg) (hist (rs_world st'))" "inv (rs_world st')"
          "r = SEscalate \<longrightarrow> rx_excludedProviders (rs_rx st') = rx_excludedProviders (rs_rx ?st) \<and>
             (\<forall>x \<in> set (hist (rs_world st')). path_of_attempt x \<in> rx_excludedKeys (rs_rx st'))"
          by blast
        then show ?thesis using b(1) inb(2) prov by (intro exI [of _ "b @ b2"]) auto
      qed
    qed
  qed
qed

lemma provider_loop_block:
  assumes "inv (rs_world st)" and "spent_once (rounds cfg) (hist (rs_world st))" and "never_back (hist (rs_world st))"
    and "\<forall>x \<in> set (hist (rs_world st)). path_of_attempt x \<in> rx_excludedKeys (rs_rx st)"
    and "\<forall>x \<in> set (hist (rs_world st)). provider_of x \<in> rx_excludedProviders (rs_rx st)"
    and "provider_loop ops cfg strip rq i n acquired st = (reply, acq, st')"
  shows "spent_once (rounds cfg) (hist (rs_world st')) \<and> never_back (hist (rs_world st'))"
  using assms
proof (induction n arbitrary: i acquired st)
  case 0
  then show ?case by simp
next
  case (Suc n)
  obtain s w where s: "op_select ops (rs_rx st) (rs_world st) = (s, w)" by fastforce
  have w: "hist w = hist (rs_world st)" using select_hist [of "rs_rx st" "rs_world st"] by (simp add: s)
  have iw: "inv w" using select_inv [OF Suc.prems(1), of "rs_rx st"] by (simp add: s)
  show ?case
  proof (cases s)
    case (Inl e)
    then have "st' = st\<lparr>rs_world := w\<rparr>" using Suc.prems(6) s by simp
    then show ?thesis using Suc.prems(2,3) w by simp
  next
    case (Inr pt)
    obtain prov tracked where pt: "pt = (prov, tracked)" by fastforce
    have sel: "prov_Name prov \<notin> rx_excludedProviders (rs_rx st)" "has_pool prov"
      using select_fresh [OF Suc.prems(1), of "rs_rx st" prov tracked w] s Inr pt by auto
    have fresh: "\<forall>x \<in> set (hist (rs_world st)). provider_of x \<noteq> prov_Name prov"
      using sel(1) Suc.prems(5) by auto
    obtain x w' where x: "op_proxy ops prov w = (x, w')" by fastforce
    have w': "hist w' = hist (rs_world st)" using proxy_hist [of prov w] w by (simp add: x)
    have iw': "inv w'" using proxy_inv [OF iw, of prov] by (simp add: x)
    show ?thesis
    proof (cases x)
      case (Inl e)
      then have "st' = st\<lparr>rs_world := w'\<rparr>" using Suc.prems(6) s Inr pt x by (simp add: Let_def)
      then show ?thesis using Suc.prems(2,3) w' by simp
    next
      case x2: (Inr pa)
      obtain pl apiKey where pa: "pa = (pl, apiKey)" by fastforce
      have "pl" using pooled [OF iw sel(2), of pl apiKey w'] x x2 pa by simp
      obtain r st1 where r: "key_loop ops cfg prov True apiKey (attempt_body strip rq i) (nat (GetKeyRetries cfg) + 1)
          (st\<lparr>rs_world := w'\<rparr>) = (r, st1)" by fastforce
      have st_w': "spent_once (rounds cfg) (hist (rs_world (st\<lparr>rs_world := w'\<rparr>)))"
        "\<forall>x \<in> set (hist (rs_world (st\<lparr>rs_world := w'\<rparr>))). path_of_attempt x \<in> rx_excludedKeys (rs_rx (st\<lparr>rs_world := w'\<rparr>))"
        using Suc.prems(2,4) w' by simp_all
      obtain b where b: "hist (rs_world st1) = hist (rs_world st) @ b" "\<forall>x \<in> set b. provider_of x = prov_Name prov"
        "spent_once (rounds cfg) (hist (rs_world st1))" "inv (rs_world st1)"
        "r = SEscalate \<longrightarrow> rx_excludedProviders (rs_rx st1) = rx_excludedProviders (rs_rx st) \<and>
           (\<forall>x \<in> set (hist (rs_world st1)). path_of_attempt x \<in> rx_excludedKeys (rs_rx st1))"
        using key_loop_block [OF _ sel(2) st_w' r] w' iw' by auto
      have nb: "never_back (hist (rs_world st1))"
        unfolding b(1) by (rule never_back_append [OF Suc.prems(3) b(2) fresh])
      note run = Suc.prems(6) [unfolded provider_loop.simps(2) s Inr pt x x2 pa prod.case sum.case Let_def]
      show ?thesis
      proof (cases "r = SEscalate")
        case False
        then have "st' = st1" using run r \<open>pl\<close> by (auto split: step.splits)
        then show ?thesis using b(3) nb by simp
      next
        case True
        let ?st = "st1\<lparr>rs_rx := excludeProvider (prov_Name prov) (rs_rx st1)\<rparr>"
        let ?st2 = "if int i < GetProviderRetries cfg
          then ?st\<lparr>rs_world := op_sleep ops (GetProviderBackoff cfg) (rs_world ?st)\<rparr> else ?st"
        have invs: "inv (rs_world ?st2)" "spent_once (rounds cfg) (hist (rs_world ?st2))" "never_back (hist (rs_world ?st2))"
          "\<forall>x \<in> set (hist (rs_world ?st2)). path_of_attempt x \<in> rx_excludedKeys (rs_rx ?st2)"
          "\<forall>x \<in> set (hist (rs_world ?st2)). provider_of x \<in> rx_excludedProviders (rs_rx ?st2)"
          using b nb True Suc.prems(5) by (auto simp: sleep_hist sleep_inv excludeProvider_def)
        show ?thesis
        proof (cases "canRetry cfg (rs_rx ?st)")
          case False
          then have "st' = ?st" using run r \<open>pl\<close> True by simp
          then show ?thesis using b(3) nb by simp
        next
          case go: True
          show ?thesis
            by (rule Suc.IH [OF invs trans [OF _ run]]) (use go True r \<open>pl\<close> in simp)
        qed
      qed
    qed
  qed
qed

lemma retry_run_block:
  assumes "inv w" and "hist w = []" and "retry_run ops cfg strip rq w = (reply, acq, st')"
  shows "spent_once (rounds cfg) (hist (rs_world st')) \<and> never_back (hist (rs_world st'))"
proof -
  have "spent_once m []" "never_back []" for m by (simp_all add: spent_once_def never_back_def)
  then show ?thesis
    using provider_loop_block [OF _ _ _ _ _ assms(3) [unfolded retry_run_def]] assms(1,2) by simp
qed

end

context retry_history begin

lemma retry_run_post:
  assumes "hist w = []" and "retry_run ops cfg strip rq w = (reply, acq, st')"
  shows "int (length (hist (rs_world st'))) \<le> GetMaxTotalAttempts cfg \<and> reply_ok (hist (rs_world st')) reply"
proof -
  have "going_on cfg [] newRetryContext None"
    by (simp add: going_on_def newRetryContext_def less_imp_le)
  then show ?thesis
    using provider_loop_post [OF _ assms(2) [unfolded retry_run_def]] assms(1) by simp
qed

end

end
