(* ===== verification/Retry_Properties.thy ===== *)
theory Retry_Properties
  imports Retry_Facts
begin

text \<open>
  The guarantees of the retry loops for every handler, that is for every instance of the operations they call: the
  world is paired with the history of the request.
\<close>

section \<open>Any operations, with a history\<close>

definition logged :: "'w retry_ops \<Rightarrow> ('w \<times> history) retry_ops" where
  "logged ops =
     \<lparr>op_select = (\<lambda>rx (w, h). apsnd (\<lambda>w. (w, h)) (op_select ops rx w)),
      op_proxy = (\<lambda>p (w, h). apsnd (\<lambda>w. (w, h)) (op_proxy ops p w)),
      op_key = (\<lambda>p rx (w, h). apsnd (\<lambda>w. (w, h)) (op_key ops p rx w)),
      op_send = (\<lambda>a (w, h).
        (case op_send ops a w of
           (Inr resp, w) \<Rightarrow> (Inr resp, (w, h @ [(a, resp)]))
         | (Inl e, w) \<Rightarrow> (Inl e, (w, h)))),
      op_sleep = (\<lambda>d (w, h). (op_sleep ops d w, h)),
      op_release = (\<lambda>p (w, h). (op_release ops p w, h)),
      op_clock = (\<lambda>(w, h). op_clock ops w)\<rparr>"

interpretation lg: retry_history "logged ops" snd for ops :: "'w retry_ops"
  by unfold_locales (auto simp: logged_def split: prod.splits sum.splits)

section \<open>Properties\<close>



lemma same_key_loop_403:
  assumes "op_send ops a (rs_world st) = (Inr resp, w)" and "rs_StatusCode resp = 403" and "canRetry cfg (rs_rx st)"
  shows "\<exists>rx. same_key_loop ops cfg a True (Suc n) st = (SEscalate, \<lparr>rs_rx = rx, rs_last = Some resp, rs_world = w\<rparr>) \<and>
    rx_attemptCount rx = rx_attemptCount (rs_rx st) + 1 \<and>
    rx_triedKeys rx = rx_triedKeys (rs_rx st) @ [key_path (prov_Name (at_provider a)) (at_keyID a)]"
  using assms by (simp add: same_key_loop.simps(2) isRetryableStatusCode_def Let_def recordAttempt_def)

text \<open>
  A 403 is meant never to be retried with the same key. Without a key pool it is: the loop over keys excludes the
  key, under the name \<open>default\<close>, and then takes it again, because only the selection from a pool looks at the
  exclusions. Against an upstream that answers 403 every time, all rounds go to one and the same key.
\<close>

lemma single_key_retried_after_403:
  assumes "\<And>a w. \<exists>resp w'. op_send ops a w = (Inr resp, w') \<and> rs_StatusCode resp = 403"
    and "rx_attemptCount (rs_rx st) + int n \<le> GetMaxTotalAttempts cfg"
  shows "rx_triedKeys (rs_rx (snd (key_loop ops cfg prov False apiKey body n st))) =
    rx_triedKeys (rs_rx st) @ replicate n (key_path (prov_Name prov) ''default'')"
  using assms(2)
proof (induction n arbitrary: st)
  case 0
  then show ?case by simp
next
  case (Suc n)
  let ?a = "\<lparr>at_provider = prov, at_keyID = ''default'', at_apiKey = apiKey, at_body = body\<rparr>"
  obtain resp w where s: "op_send ops ?a (rs_world st) = (Inr resp, w)" "rs_StatusCode resp = 403"
    using assms(1) by blast
  have "canRetry cfg (rs_rx st)" using Suc.prems by (simp add: canRetry_def)
  from same_key_loop_403 [of ops ?a st, OF s this] obtain rx
    where rx: "same_key_loop ops cfg ?a True (Suc (nat (GetSameKeyRetries cfg))) st =
        (SEscalate, \<lparr>rs_rx = rx, rs_last = Some resp, rs_world = w\<rparr>)"
      "rx_attemptCount rx = rx_attemptCount (rs_rx st) + 1"
      "rx_triedKeys rx = rx_triedKeys (rs_rx st) @ [key_path (prov_Name prov) ''default'']" by auto
  let ?st = "\<lparr>rs_rx = excludeKey (prov_Name prov) ''default'' rx, rs_last = Some resp, rs_world = w\<rparr>"
  have step: "key_loop ops cfg prov False apiKey body (Suc n) st =
    (if canRetry cfg (rs_rx ?st) then key_loop ops cfg prov False apiKey body n ?st else (SEscalate, ?st))"
    using rx(1) by (simp add: pick_key_def)
  have "rx_attemptCount (rs_rx ?st) + int n \<le> GetMaxTotalAttempts cfg"
    using Suc.prems rx(2) by (simp add: excludeKey_def)
  from Suc.IH [OF this] have "rx_triedKeys (rs_rx (snd (key_loop ops cfg prov False apiKey body n ?st))) =
      rx_triedKeys (rs_rx st) @ replicate (Suc n) (key_path (prov_Name prov) ''default'')"
    using rx(3) by (simp add: excludeKey_def)
  moreover have "n = 0" if "\<not> canRetry cfg (rs_rx ?st)"
    using that Suc.prems rx(2) by (simp add: canRetry_def excludeKey_def)
  ultimately show ?case
    unfolding step by (cases "canRetry cfg (rs_rx ?st)") simp_all
qed

section \<open>Witnesses\<close>

definition demo_prov_of :: "string \<Rightarrow> provider" where
  "demo_prov_of n = \<lparr>prov_Name = n, prov_Owner = ''anthropic''\<rparr>"

definition demo_response :: "int \<Rightarrow> response" where
  "demo_response code = \<lparr>rs_StatusCode = code, rs_Header = (\<lambda>_. []), rs_Body = Inr ''''\<rparr>"

definition demo_clock :: cd_env where
  "demo_clock = \<lparr>ce_now = 0, ce_json = (\<lambda>_. None), ce_rfc3339 = (\<lambda>_. None), ce_http_time = (\<lambda>_. None),
     ce_parse_local = (\<lambda>_ _. None)\<rparr>"

text \<open>One provider without a pool; the world counts the requests, and \<open>codes\<close> answers them.\<close>

definition demo_ops :: "(nat \<Rightarrow> int) \<Rightarrow> nat retry_ops" where
  "demo_ops codes =
     \<lparr>op_select = (\<lambda>rx w. (Inr (demo_prov_of ''a'', False), w)), op_proxy = (\<lambda>p w. (Inr (False, ''sk''), w)),
      op_key = (\<lambda>p rx w. (Inr None, w)), op_send = (\<lambda>a w. (Inr (demo_response (codes w)), Suc w)),
      op_sleep = (\<lambda>d w. w), op_release = (\<lambda>p w. w), op_clock = (\<lambda>w. demo_clock)\<rparr>"

definition demo_retry :: retry_config where
  "demo_retry = \<lparr>rc_Enabled = True, rc_SameKeyRetries = 0, rc_SameKeyBackoffSec = 0, rc_KeyRetries = 0,
     rc_ProviderRetries = 0, rc_ProviderBackoffSec = 0, rc_MaxTotalAttempts = 0\<rparr>"

lemma single_key_retried_after_403_witness:
  "rx_triedKeys (rs_rx (snd (key_loop (demo_ops (\<lambda>_. 403)) demo_retry (demo_prov_of ''a'') False ''sk'' None 3
      \<lparr>rs_rx = newRetryContext, rs_last = None, rs_world = 0\<rparr>))) = replicate 3 ''a:default''"
  using single_key_retried_after_403 [of "demo_ops (\<lambda>_. 403)"
      "\<lparr>rs_rx = newRetryContext, rs_last = None, rs_world = 0\<rparr>" 3 demo_retry "demo_prov_of ''a''" "''sk''" None]
  by (simp add: demo_ops_def demo_response_def newRetryContext_def key_path_def demo_prov_of_def
      GetMaxTotalAttempts_def demo_retry_def)


end
