(* ===== verification/Retry_Invariant.thy ===== *)
theory Retry_Invariant
  imports Retry_Loop
begin

text \<open>
  Invariants of the retry loops over the providers acquired so far: what every operation keeps holds at the
  end, and releasing what was acquired takes it back to an invariant without acquired providers.
\<close>

locale retry_invariant =
  fixes ops :: "'w retry_ops" and I :: "provider list \<Rightarrow> 'w \<Rightarrow> bool"
  assumes select_err: "I acq w \<Longrightarrow> op_select ops rx w = (Inl e, w') \<Longrightarrow> I acq w'"
    and select_ok: "I acq w \<Longrightarrow> op_select ops rx w = (Inr (p, t), w') \<Longrightarrow> I (if t then p # acq else acq) w'"
    and proxy_I: "I acq w \<Longrightarrow> I acq (snd (op_proxy ops p w))"
    and key_I: "I acq w \<Longrightarrow> I acq (snd (op_key ops p rx w))"
    and send_I: "I acq w \<Longrightarrow> I acq (snd (op_send ops a w))"
    and sleep_I: "I acq w \<Longrightarrow> I acq (op_sleep ops d w)"
    and release_I: "I (p # acq) w \<Longrightarrow> I acq (op_release ops p w)"
begin

lemma same_key_loop_I: "I acq (rs_world st) \<Longrightarrow> I acq (rs_world (snd (same_key_loop ops cfg a first n st)))"
proof (induction n arbitrary: first st)
  case (Suc n)
  let ?w = "if first then rs_world st else op_sleep ops (sameKeyBackoff cfg (rs_rx st)) (rs_world st)"
  obtain res w where s: "op_send ops a ?w = (res, w)" by fastforce
  have "I acq ?w" using Suc.prems by (simp add: sleep_I)
  with send_I [of acq ?w a] s have w: "I acq w" by simp
  show ?case
    using Suc s w by (cases res) (auto simp: same_key_loop.simps(2) Let_def)
qed simp

lemma pick_key_I: "I acq w \<Longrightarrow> I acq (snd (pick_key ops prov pooled apiKey rx w))"
  by (simp add: pick_key_def key_I)

lemma key_loop_I: "I acq (rs_world st) \<Longrightarrow> I acq (rs_world (snd (key_loop ops cfg prov pooled apiKey body n st)))"
proof (induction n arbitrary: st)
  case (Suc n)
  obtain k w where k: "pick_key ops prov pooled apiKey (rs_rx st) (rs_world st) = (k, w)" by fastforce
  have w: "I acq w" using pick_key_I [OF Suc.prems, of prov pooled apiKey "rs_rx st"] k by simp
  consider (panic) e where "k = Inl e" | (none) "k = Inr None" | (key) keyID key where "k = Inr (Some (keyID, key))"
    by (metis not_Some_eq obj_sumE prod.exhaust)
  then show ?case
  proof cases
    case (key keyID apiK)
    let ?a = "\<lparr>at_provider = prov, at_keyID = keyID, at_apiKey = apiK, at_body = body\<rparr>"
    obtain r st' where r: "same_key_loop ops cfg ?a True (nat (GetSameKeyRetries cfg) + 1) (st\<lparr>rs_world := w\<rparr>) = (r, st')"
      by fastforce
    have "I acq (rs_world st')"
      using same_key_loop_I [of acq "st\<lparr>rs_world := w\<rparr>" cfg ?a True "nat (GetSameKeyRetries cfg) + 1"] w
      unfolding r by simp
    then show ?thesis
      using Suc.IH [of "st'\<lparr>rs_rx := excludeKey (prov_Name prov) keyID (rs_rx st')\<rparr>"] k key r
      by (cases r) (simp_all add: Let_def)
  qed (use k w in simp_all)
qed simp

lemma provider_loop_I:
  assumes "I acquired (rs_world st)"
    and "provider_loop ops cfg strip rq i n acquired st = (reply, acquired', st')"
  shows "I acquired' (rs_world st')"
  using assms
proof (induction n arbitrary: i acquired st)
  case (Suc n)
  obtain s w where s: "op_select ops (rs_rx st) (rs_world st) = (s, w)" by fastforce
  show ?case
  proof (cases s)
    case (Inl e)
    then show ?thesis using Suc.prems s select_err [OF Suc.prems(1)] by auto
  next
    case (Inr pt)
    obtain prov t where pt: "pt = (prov, t)" by fastforce
    let ?acq = "if t then prov # acquired else acquired"
    have w: "I ?acq w" using select_ok [OF Suc.prems(1)] s Inr pt by blast
    obtain x w' where x: "op_proxy ops prov w = (x, w')" by fastforce
    have w': "I ?acq w'" using proxy_I [OF w, of prov] by (simp only: x snd_conv)
    show ?thesis
    proof (cases x)
      case (Inl e)
      then show ?thesis using Suc.prems(2) s Inr pt x w' by (auto simp: Let_def split: if_splits)
    next
      case x2: (Inr pa)
      obtain pooled apiKey where pa: "pa = (pooled, apiKey)" by fastforce
      obtain r st1 where r: "key_loop ops cfg prov pooled apiKey (attempt_body strip rq i) (nat (GetKeyRetries cfg) + 1)
          (st\<lparr>rs_world := w'\<rparr>) = (r, st1)" by fastforce
      have st1: "I ?acq (rs_world st1)"
        using key_loop_I [of ?acq "st\<lparr>rs_world := w'\<rparr>" cfg prov pooled apiKey "attempt_body strip rq i"
            "nat (GetKeyRetries cfg) + 1"] w' unfolding r by simp
      let ?st = "st1\<lparr>rs_rx := excludeProvider (prov_Name prov) (rs_rx st1)\<rparr>"
      note run = Suc.prems(2) [unfolded provider_loop.simps(2) s Inr pt x x2 pa r prod.case sum.case Let_def]
      show ?thesis
      proof (cases "r = SEscalate \<and> canRetry cfg (rs_rx ?st)")
        case False
        then have "acquired' = ?acq \<and> rs_world st' = rs_world st1" using run by (cases r) auto
        then show ?thesis using st1 by simp
      next
        case True
        let ?st2 = "if int i < GetProviderRetries cfg
          then ?st\<lparr>rs_world := op_sleep ops (GetProviderBackoff cfg) (rs_world ?st)\<rparr> else ?st"
        have "I ?acq (rs_world ?st2)" 
          using st1 sleep_I [OF st1] by (cases "int i < GetProviderRetries cfg") (simp_all split del: if_split)
        then show ?thesis
          by (rule Suc.IH [OF _ trans [OF _ run]]) (use True in simp)
      qed
    qed
  qed
qed simp

lemma serveWithRetry_I:
  assumes "I [] w" and "serveWithRetry ops cfg strip rq w = (reply, w')"
  shows "I [] w'"
proof -
  obtain acq st where run: "retry_run ops cfg strip rq w = (reply, acq, st)" and w': "w' = fold (op_release ops) acq (rs_world st)"
    using assms(2) by (auto simp: serveWithRetry_def split: prod.splits)
  have "I acq (rs_world st)"
    by (rule provider_loop_I [OF _ run [unfolded retry_run_def]]) (simp add: assms(1))
  moreover have "I [] (fold (op_release ops) acq v)" if "I acq v" for v
    using that by (induction acq arbitrary: v) (simp_all add: release_I)
  ultimately show ?thesis using w' by simp
qed

end

end
