(* ===== verification/Error_Responses.thy ===== *)
theory Error_Responses
  imports ZAI_Cooldown Key_Metadata
begin

text \<open>
  The errors the proxy answers itself (\<open>internal/proxy/errors.go\<close>, \<open>writeOpenAIError\<close> in
  \<open>openai_handler.go\<close>), with the JSON text that \<open>encoding/json\<close> produces for them.
\<close>

section \<open>JSON text\<close>

text \<open>
  A string literal as \<open>json.Encoder\<close> writes it: quotes, backslashes and control characters are escaped, and so
  are the three characters that matter in HTML. Bytes above 127 are taken to be valid UTF-8 and stay (the two line
  separators that the encoder escapes as well do not occur in the texts of the proxy).
\<close>

definition hex_digit :: "nat \<Rightarrow> char" where
  "hex_digit n = ''0123456789abcdef'' ! n"

definition must_escape :: "char \<Rightarrow> bool" where
  "must_escape c \<longleftrightarrow> (of_char c :: nat) < 32 \<or> c \<in> {CHR 34, CHR 92, CHR 60, CHR 62, CHR 38}"

definition json_char :: "char \<Rightarrow> string" where
  "json_char c =
     (if c = CHR 34 \<or> c = CHR 92 then [CHR 92, c]
      else if c = CHR 8 then [CHR 92, CHR ''b'']
      else if c = CHR 12 then [CHR 92, CHR ''f'']
      else if c = CHR 10 then [CHR 92, CHR ''n'']
      else if c = CHR 13 then [CHR 92, CHR ''r'']
      else if c = CHR 9 then [CHR 92, CHR ''t'']
      else if must_escape c
      then [CHR 92, CHR ''u'', CHR ''0'', CHR ''0'', hex_digit (of_char c div 16), hex_digit (of_char c mod 16)]
      else [c])"

definition json_quote :: "string \<Rightarrow> string" where
  "json_quote s = [CHR 34] @ concat (map json_char s) @ [CHR 34]"

fun json_join :: "string list \<Rightarrow> string" where
  "json_join [] = []"
| "json_join [s] = s"
| "json_join (s # t # ss) = s @ '','' @ json_join (t # ss)"

fun json_text :: "json \<Rightarrow> string" where
  "json_text JNull = ''null''"
| "json_text (JBool b) = (if b then ''true'' else ''false'')"
| "json_text (JNum s) = s"
| "json_text (JStr s) = json_quote s"
| "json_text (JArr xs) = ''['' @ json_join (map json_text xs) @ '']''"
| "json_text (JObj ms) = ''{'' @ json_join (map (\<lambda>(k, v). json_quote k @ '':'' @ json_text v) ms) @ ''}''"

section \<open>Errors\<close>

text \<open>
  \<open>writer\<close> are the headers set on the response writer before; the answer is what the client receives.
\<close>

definition writeJSON :: "header \<Rightarrow> int \<Rightarrow> json \<Rightarrow> response" where
  "writeJSON writer statusCode payload =
     \<lparr>rs_StatusCode = statusCode, rs_Header = header_set writer ''Content-Type'' ''application/json'',
      rs_Body = Inr (json_text payload @ [CHR 10])\<rparr>"

definition WriteError :: "header \<Rightarrow> int \<Rightarrow> string \<Rightarrow> string \<Rightarrow> response" where
  "WriteError writer statusCode errorType message =
     writeJSON writer statusCode
       (JObj [(''type'', JStr ''error''), (''error'', JObj [(''type'', JStr errorType), (''message'', JStr message)])])"

definition WriteBodyTooLargeError :: "header \<Rightarrow> response" where
  "WriteBodyTooLargeError writer =
     WriteError writer 413 ''request_too_large'' ''Request body exceeds the maximum allowed size''"

text \<open>
  \<open>Duration.Seconds\<close> adds whole seconds and the fraction as floating-point numbers; \<open>fl\<close> rounds, and \<open>int(\<dots>)\<close>
  cuts the fraction off.
\<close>

definition duration_seconds :: "(rat \<Rightarrow> rat) \<Rightarrow> duration \<Rightarrow> rat" where
  "duration_seconds fl d =
     fl (of_int (sgn d * (\<bar>d\<bar> div nsec_per_sec)) + fl (of_int (go_rem d nsec_per_sec) / of_int nsec_per_sec))"

definition WriteRateLimitError :: "(rat \<Rightarrow> rat) \<Rightarrow> header \<Rightarrow> duration \<Rightarrow> response" where
  "WriteRateLimitError fl writer retryAfter =
     WriteError (header_set writer ''Retry-After'' (itoa (max (float_to_int (duration_seconds fl retryAfter)) 1))) 429
       ''rate_limit_error''
       ''All API keys are currently at rate limit capacity. Please retry after the specified time.''"

text \<open>An empty code is left out (\<open>omitempty\<close>).\<close>

definition writeOpenAIError :: "header \<Rightarrow> int \<Rightarrow> string \<Rightarrow> string \<Rightarrow> string \<Rightarrow> response" where
  "writeOpenAIError writer status msg errType code =
     writeJSON writer status
       (JObj [(''error'', JObj ([(''message'', JStr msg), (''type'', JStr errType)] @
          (if code = '''' then [] else [(''code'', JStr code)])))])"

section \<open>Reading a literal back\<close>

text \<open>The reference: unescaping as RFC 8259 has it, for the escapes of bytes.\<close>

definition unhex :: "char \<Rightarrow> nat option" where
  "unhex c =
     (if is_digit c then Some (of_char c - 48)
      else if CHR ''a'' = c \<or> CHR ''b'' = c \<or> CHR ''c'' = c \<or> CHR ''d'' = c \<or> CHR ''e'' = c \<or> CHR ''f'' = c
      then Some (of_char c - 87) else None)"

definition simple_escape :: "char \<Rightarrow> char option" where
  "simple_escape c =
     map_of [(CHR 34, CHR 34), (CHR 92, CHR 92), (CHR ''/'', CHR ''/''), (CHR ''b'', CHR 8), (CHR ''f'', CHR 12),
       (CHR ''n'', CHR 10), (CHR ''r'', CHR 13), (CHR ''t'', CHR 9)] c"

fun unquote_rest :: "string \<Rightarrow> (string \<times> string) option" where
  "unquote_rest [] = None"
| "unquote_rest (c # cs) =
     (if c = CHR 34 then Some ([], cs)
      else if (of_char c :: nat) < 32 then None
      else if c \<noteq> CHR 92 then map_option (apfst ((#) c)) (unquote_rest cs)
      else case cs of
             [] \<Rightarrow> None
           | e # ds \<Rightarrow>
               (case simple_escape e of
                  Some x \<Rightarrow> map_option (apfst ((#) x)) (unquote_rest ds)
                | None \<Rightarrow>
                    (case ds of
                       a # b # h # l # rest \<Rightarrow>
                         if e = CHR ''u'' \<and> a = CHR ''0'' \<and> b = CHR ''0''
                         then (case (unhex h, unhex l) of
                             (Some x, Some y) \<Rightarrow> map_option (apfst ((#) (char_of (16 * x + y)))) (unquote_rest rest)
                           | _ \<Rightarrow> None)
                         else None
                     | _ \<Rightarrow> None)))"


lemma unhex_hex_digit: "n < 16 \<Longrightarrow> unhex (hex_digit n) = Some n"
proof -
  have "\<forall>n \<in> {0..<16}. unhex (hex_digit n) = Some n"
    by (simp add: atLeastLessThan_nat_numeral unhex_def hex_digit_def is_digit_def)
  then show "n < 16 \<Longrightarrow> ?thesis" by simp
qed

lemma char_of_digits: "char_of (16 * (of_char c div 16) + of_char c mod 16 :: nat) = c" "(of_char c :: nat) div 16 < 16"
  using less_mult_imp_div_less [of "of_char c" 16 16] by simp_all

lemma simple_escape_u [simp]: "simple_escape (CHR ''u'') = None"
  by (simp add: simple_escape_def)

lemma unquote_escape:
  "simple_escape e = Some x \<Longrightarrow> unquote_rest (CHR 92 # e # r) = map_option (apfst ((#) x)) (unquote_rest r)"
  by simp

lemma unquote_hex:
  "unquote_rest (CHR 92 # CHR ''u'' # CHR ''0'' # CHR ''0'' # hex_digit (of_char c div 16) # hex_digit (of_char c mod 16) # r) =
     map_option (apfst ((#) c)) (unquote_rest r)"
  using char_of_digits [of c] by (simp add: unhex_hex_digit)

lemma unquote_plain:
  "\<not> must_escape c \<Longrightarrow> unquote_rest (c # r) = map_option (apfst ((#) c)) (unquote_rest r)"
  by (simp add: must_escape_def)

lemma unquote_json_char: "unquote_rest (json_char c @ r) = map_option (apfst ((#) c)) (unquote_rest r)"
proof -
  consider "c = CHR 34 \<or> c = CHR 92" | "c = CHR 8" | "c = CHR 12" | "c = CHR 10" | "c = CHR 13" | "c = CHR 9"
    | "c \<notin> {CHR 34, CHR 92, CHR 8, CHR 12, CHR 10, CHR 13, CHR 9}" by blast
  then show ?thesis
  proof cases
    case 7
    then show ?thesis using unquote_hex [of c r] unquote_plain [of c r] by (simp add: json_char_def del: unquote_rest.simps)
  qed (auto simp: json_char_def unquote_escape simple_escape_def simp del: unquote_rest.simps)
qed

section \<open>Properties\<close>

text \<open>
  What the proxy writes into an error can be read back. The literal of any message is read by a JSON reader as this
  very message, up to the closing quote the encoder wrote, so no message (a provider's name, an error text from upstream)
  breaks out of its place in the body.
\<close>

lemma json_quote_roundtrip: "unquote_rest (tl (json_quote s) @ rest) = Some (s, rest)"
proof -
  have "unquote_rest (concat (map json_char s) @ CHR 34 # rest) = Some (s, rest)"
    by (induction s) (simp_all add: unquote_json_char)
  then show ?thesis by (simp add: json_quote_def)
qed

lemma canonical_literals:
  "canonical_key ''Retry-After'' = ''Retry-After''" "canonical_key ''Content-Type'' = ''Content-Type''"
  by code_simp+

lemma duration_seconds_bounds:
  assumes "float_ok fl" and "0 \<le> d" and "d < 2 ^ 63"
  shows "d div nsec_per_sec \<le> \<lfloor>duration_seconds fl d\<rfloor>" "\<lfloor>duration_seconds fl d\<rfloor> \<le> d div nsec_per_sec + 1"
    "0 \<le> duration_seconds fl d"
proof -
  let ?q = "d div nsec_per_sec" and ?r = "d mod nsec_per_sec"
  have q: "0 \<le> ?q" "?q + 1 \<le> 2 ^ 53" using assms(2,3) by (auto simp: nsec_per_sec_def pos_imp_zdiv_nonneg_iff)
  have "0 \<le> ?r" "?r \<le> nsec_per_sec" by (simp_all add: nsec_per_sec_def less_imp_le)
  then have r: "0 \<le> (of_int ?r :: rat) / of_int nsec_per_sec" "(of_int ?r :: rat) / of_int nsec_per_sec \<le> 1"
    by (simp_all add: nsec_per_sec_def divide_le_eq)
  have f: "0 \<le> fl (of_int ?r / of_int nsec_per_sec)" "fl (of_int ?r / of_int nsec_per_sec) \<le> 1"
    using fl_unit [OF assms(1) r] by simp_all
  have e: "duration_seconds fl d = fl (of_int ?q + fl (of_int ?r / of_int nsec_per_sec))"
    using assms(2) by (cases "d = 0") (simp_all add: duration_seconds_def nsec_per_sec_def)
  have ex: "fl (of_int ?q) = of_int ?q" "fl (of_int (?q + 1)) = of_int (?q + 1)"
    using assms(1) q unfolding float_ok_def by (smt (verit) abs_of_nonneg)+
  have lo: "of_int ?q \<le> duration_seconds fl d"
    unfolding e using float_ok_mono [OF assms(1), of "of_int ?q"] f(1) ex(1) by simp
  have hi: "duration_seconds fl d \<le> of_int (?q + 1)"
    unfolding e using float_ok_mono [OF assms(1), of _ "of_int (?q + 1)"] f(2) ex(2) by simp
  show "?q \<le> \<lfloor>duration_seconds fl d\<rfloor>" using lo by (simp add: le_floor_iff)
  show "\<lfloor>duration_seconds fl d\<rfloor> \<le> ?q + 1" using hi by (metis floor_mono floor_of_int)
  show "0 \<le> duration_seconds fl d" using lo q(1) by (meson of_int_0_le_iff order_trans)
qed

text \<open>
  The wait advertised with a 429 of the proxy is a positive number of whole seconds: the whole seconds of the wait, or
  one more where the sum of the floating-point parts rounds up, and never 0.
\<close>

lemma WriteRateLimitError_wait:
  assumes "float_ok fl" and "0 \<le> d" and "d < 2 ^ 63"
  shows "\<exists>n. header_get (rs_Header (WriteRateLimitError fl writer d)) ''Retry-After'' = itoa n \<and> 1 \<le> n \<and>
      n \<in> {d div nsec_per_sec, d div nsec_per_sec + 1} \<and> rs_StatusCode (WriteRateLimitError fl writer d) = 429 \<and>
      header_get (rs_Header (WriteRateLimitError fl writer d)) ''Content-Type'' = ''application/json''"
proof -
  let ?q = "d div nsec_per_sec" and ?n = "max (float_to_int (duration_seconds fl d)) 1"
  have n: "float_to_int (duration_seconds fl d) \<in> {?q, ?q + 1}" "0 \<le> ?q"
    using duration_seconds_bounds [OF assms] assms(2) by (auto simp: float_to_int_def nsec_per_sec_def pos_imp_zdiv_nonneg_iff)
  show ?thesis
  proof (intro exI conjI)
    show "?n \<in> {?q, ?q + 1}" using n by auto
    show "header_get (rs_Header (WriteRateLimitError fl writer d)) ''Retry-After'' = itoa ?n"
      by (simp add: WriteRateLimitError_def WriteError_def writeJSON_def canonical_literals)
  qed (simp_all add: WriteRateLimitError_def WriteError_def writeJSON_def)
qed

section \<open>Witnesses\<close>

lemma WriteRateLimitError_wait_witness:
  "\<exists>n. header_get (rs_Header (WriteRateLimitError (\<lambda>x. x) (\<lambda>_. []) (seconds 90))) ''Retry-After'' = itoa n \<and>
     (n = 90 \<or> n = 91)"
  using WriteRateLimitError_wait [OF float_ok_id, of "seconds 90" "\<lambda>_. []"] by (auto simp: time_defs)

end
