(* ===== verification/Handler_Retry.thy ===== *)
theory Handler_Retry
  imports Retry_Properties Model_Routing Key_Updater Circuit_Health Error_Responses
begin

text \<open>
  The operations the retry loops call, as the messages handler has them (\<open>internal/proxy/handler.go\<close>,
  \<open>retry.go\<close>): selecting a provider and a key that were not given up, finding or building the proxy of a
  provider, and the hook that learns from each response.
\<close>

section \<open>The handler\<close>

text \<open>
  A cached reverse proxy with the provider and the credentials it was built for; key pools are pointers.
\<close>

record provider_proxy =
  pp_Provider :: provider
  pp_APIKey :: string
  pp_KeyPool :: "nat option"

text \<open>What a request changes. \<open>hw_tick\<close> counts the calls that read the surroundings, \<open>hw_log\<close> the requests sent.\<close>

record ('l, 'b) handler_state =
  hw_router :: router_cache
  hw_pools :: "nat \<Rightarrow> ('l, selector) key_pool"
  hw_proxies :: "string \<rightharpoonup> provider_proxy"
  hw_tracker :: "'b tracker option"
  hw_tick :: nat
  hw_log :: history

text \<open>
  What it reads: the libraries, the configuration and the maps of pools and keys, the same during the request, and what
  may differ from call to call: clock, random sources, the health of the providers, which is asked of the
  tracker, and the upstreams. \<open>he_BaseURL\<close> is the base URL of a provider by its name, and \<open>he_parse_url\<close> is
  \<open>url.Parse\<close>, \<^term>\<open>None\<close> without an error. A response is what the reverse proxy hands to the hook; without
  one the connection failed.
\<close>

record ('l, 'r, 'c, 'b) handler_env =
  he_RL :: "('l, 'r, 'c) rate_lib"
  he_fl :: "rat \<Rightarrow> rat"
  he_GB :: "'b gobreaker"
  he_config :: "config option"
  he_routing :: routing_config
  he_keymap :: "(string \<rightharpoonup> string) option"
  he_poolmap :: "(string \<rightharpoonup> nat) option"
  he_lo_pool :: lo_pool
  he_parse_url :: "string \<Rightarrow> string option"
  he_BaseURL :: "string \<Rightarrow> string"
  he_select :: "nat \<Rightarrow> 'b tracker option \<Rightarrow> selection_env"
  he_route :: "nat \<Rightarrow> route_env"
  he_keys :: "nat \<Rightarrow> nat \<Rightarrow> sel_env"
  he_clock :: "nat \<Rightarrow> cd_env"
  he_mark :: "nat \<Rightarrow> go_time"
  he_upstream :: "nat \<Rightarrow> upstream_attempt \<Rightarrow> response option"

section \<open>Selecting a provider\<close>

definition currentKeyPool ::
    "('l, 'r, 'c, 'b) handler_env \<Rightarrow> string \<Rightarrow> string \<times> nat option" where
  "currentKeyPool he provName =
     (case Option.bind (he_keymap he) (\<lambda>m. m provName) of Some k \<Rightarrow> k | None \<Rightarrow> '''',
      Option.bind (he_poolmap he) (\<lambda>m. m provName))"

definition hasAvailableKeys ::
    "('l, 'r, 'c, 'b) handler_env \<Rightarrow> ('l, 'b) handler_state \<Rightarrow> string \<Rightarrow> bool" where
  "hasAvailableKeys he w provName =
     (case snd (currentKeyPool he provName) of
        None \<Rightarrow> True
      | Some a \<Rightarrow> 0 < st_AvailableKeys (GetStats (he_lo_pool he) (he_mark he (hw_tick w)) (hw_pools w a)))"

text \<open>A selected provider is used by its name at once, which panics when it is nil.\<close>

definition selected :: "bool \<Rightarrow> provider_info \<Rightarrow> go_error + provider \<times> bool" where
  "selected tracked p =
     (case pi_Provider p of None \<Rightarrow> Inl (GoPanic ''nil provider'') | Some prov \<Rightarrow> Inr (prov, tracked))"

definition eligible ::
    "('l, 'r, 'c, 'b) handler_env \<Rightarrow> ('l, 'b) handler_state \<Rightarrow> retry_ctx \<Rightarrow> bool \<Rightarrow> provider_info list \<Rightarrow>
     provider_info list" where
  "eligible he w rx hasThinking candidates =
     (let name = (\<lambda>c. case pi_Provider c of Some p \<Rightarrow> prov_Name p | None \<Rightarrow> '''');
          candidates = filter (\<lambda>c. hasAvailableKeys he w (name c)) candidates;
          candidates = (if rx_excludedProviders rx = {} then candidates
                        else filter (\<lambda>c. name c \<notin> rx_excludedProviders rx) candidates)
      in applyThinkingAffinity (he_route he (hw_tick w)) candidates hasThinking)"

definition selectProviderExcluding ::
    "('l, 'r, 'c, 'b) handler_env \<Rightarrow> string \<Rightarrow> bool \<Rightarrow> retry_ctx \<Rightarrow> ('l, 'b) handler_state \<Rightarrow>
     (go_error + provider \<times> bool) \<times> ('l, 'b) handler_state" where
  "selectProviderExcluding he model hasThinking rx w =
     (let se = he_select he (hw_tick w) (hw_tracker w);
          w' = w\<lparr>hw_tick := Suc (hw_tick w)\<rparr>
      in case providerCandidates se of
           None \<Rightarrow> (selected False (defaultProviderInfo se), w')
         | Some candidates \<Rightarrow>
             (case applyModelRouting se candidates model of
                Inl e \<Rightarrow> (Inl e, w')
              | Inr None \<Rightarrow> (selected False (defaultProviderInfo se), w')
              | Inr (Some candidates) \<Rightarrow>
                  if list_ex (\<lambda>c. pi_Provider c = None) candidates then (Inl (GoPanic ''nil provider''), w')
                  else let candidates = eligible he w rx hasThinking candidates
                       in if candidates = [] then (Inl (OtherError ''all providers excluded after retry''), w')
                          else case live_Select (he_route he (hw_tick w)) (he_routing he) (hw_router w) candidates of
                                 (Inl e, r) \<Rightarrow> (Inl e, w'\<lparr>hw_router := r\<rparr>)
                               | (Inr p, r) \<Rightarrow>
                                   (selected True p,
                                    w'\<lparr>hw_router := (case pi_Provider p of
                                         Some prov \<Rightarrow> live_Acquire prov (he_routing he) r | None \<Rightarrow> r)\<rparr>)))"

definition release_provider ::
    "('l, 'r, 'c, 'b) handler_env \<Rightarrow> provider \<Rightarrow> ('l, 'b) handler_state \<Rightarrow> ('l, 'b) handler_state" where
  "release_provider he prov w = w\<lparr>hw_router := live_Release prov (he_routing he) (hw_router w)\<rparr>"

section \<open>The proxy of a provider\<close>

text \<open>
  The two checks for a fresh proxy. Providers are compared by value: one built anew with equal content is taken
  for the old one, whose proxy does the same.
\<close>

definition proxyMatches ::
    "('l, 'r, 'c, 'b) handler_env \<Rightarrow> provider \<Rightarrow> string \<Rightarrow> nat option \<Rightarrow> provider_proxy option \<Rightarrow> bool" where
  "proxyMatches he prov key pool pp =
     (case pp of
        None \<Rightarrow> False
      | Some pp \<Rightarrow> pp_Provider pp = prov \<and> (he_keymap he = None \<or> pp_APIKey pp = key) \<and>
          (he_poolmap he = None \<or> pp_KeyPool pp = pool))"

definition preserveProxyAuthInputs ::
    "('l, 'r, 'c, 'b) handler_env \<Rightarrow> provider_proxy option \<Rightarrow> string \<Rightarrow> nat option \<Rightarrow> string \<times> nat option" where
  "preserveProxyAuthInputs he pp key pool =
     (case pp of
        None \<Rightarrow> (key, pool)
      | Some pp \<Rightarrow>
          (if he_keymap he = None \<and> pp_APIKey pp \<noteq> '''' then pp_APIKey pp else key,
           if he_poolmap he = None \<and> pp_KeyPool pp \<noteq> None then pp_KeyPool pp else pool))"

definition NewProviderProxy ::
    "('l, 'r, 'c, 'b) handler_env \<Rightarrow> provider \<Rightarrow> string \<Rightarrow> nat option \<Rightarrow> go_error + provider_proxy" where
  "NewProviderProxy he prov key pool =
     (case he_parse_url he (he_BaseURL he (prov_Name prov)) of
        Some e \<Rightarrow> Inl (Wrapped ''invalid provider base URL'' (OtherError e))
      | None \<Rightarrow> Inr \<lparr>pp_Provider = prov, pp_APIKey = key, pp_KeyPool = pool\<rparr>)"

definition getOrCreateProxy ::
    "('l, 'r, 'c, 'b) handler_env \<Rightarrow> provider \<Rightarrow> ('l, 'b) handler_state \<Rightarrow>
     (go_error + provider_proxy) \<times> ('l, 'b) handler_state" where
  "getOrCreateProxy he prov w =
     (let (key, pool) = currentKeyPool he (prov_Name prov);
          old = hw_proxies w (prov_Name prov)
      in if proxyMatches he prov key pool old then (Inr (the old), w)
         else let (key, pool) = preserveProxyAuthInputs he old key pool
              in case NewProviderProxy he prov key pool of
                   Inl e \<Rightarrow> (Inl (Wrapped ''failed to create proxy'' e), w)
                 | Inr pp \<Rightarrow> (Inr pp, w\<lparr>hw_proxies := (hw_proxies w)(prov_Name prov \<mapsto> pp)\<rparr>))"

definition proxy_of ::
    "('l, 'r, 'c, 'b) handler_env \<Rightarrow> provider \<Rightarrow> ('l, 'b) handler_state \<Rightarrow>
     (go_error + bool \<times> string) \<times> ('l, 'b) handler_state" where
  "proxy_of he prov w =
     apfst (map_sum id (\<lambda>pp. (pp_KeyPool pp \<noteq> None, pp_APIKey pp))) (getOrCreateProxy he prov w)"

section \<open>A key that was not given up\<close>

text \<open>Three tries at most; any error of the pool ends them.\<close>

fun select_key_tries ::
    "('l, 'r, 'c, 'b) handler_env \<Rightarrow> nat \<Rightarrow> string \<Rightarrow> retry_ctx \<Rightarrow> nat \<Rightarrow> ('l, 'b) handler_state \<Rightarrow>
     (go_error + (string \<times> string) option) \<times> ('l, 'b) handler_state" where
  "select_key_tries he a providerName rx 0 w = (Inr None, w)"
| "select_key_tries he a providerName rx (Suc n) w =
     (let (r, p) = GetKey (he_RL he) (he_keys he (hw_tick w)) (hw_pools w a);
          w = w\<lparr>hw_tick := Suc (hw_tick w), hw_pools := (hw_pools w)(a := p)\<rparr>
      in case r of
           Inl PanicNilLimiter \<Rightarrow> (Inl (GoPanic ''nil limiter''), w)
         | Inl e \<Rightarrow> (Inr None, w)
         | Inr (kid, key) \<Rightarrow>
             if \<not> isKeyExcluded providerName kid rx then (Inr (Some (kid, key)), w)
             else select_key_tries he a providerName rx n w)"

definition selectKeyFromPoolExcluding ::
    "('l, 'r, 'c, 'b) handler_env \<Rightarrow> provider \<Rightarrow> retry_ctx \<Rightarrow> ('l, 'b) handler_state \<Rightarrow>
     (go_error + (string \<times> string) option) \<times> ('l, 'b) handler_state" where
  "selectKeyFromPoolExcluding he prov rx w =
     (case Option.bind (hw_proxies w (prov_Name prov)) pp_KeyPool of
        None \<Rightarrow> (Inr None, w)
      | Some a \<Rightarrow> select_key_tries he a (prov_Name prov) rx 3 w)"

section \<open>What is learned from a response\<close>

definition resolveCooldownStrategy :: "('l, 'r, 'c, 'b) handler_env \<Rightarrow> string \<Rightarrow> string" where
  "resolveCooldownStrategy he providerName =
     (case he_config he of Some cfg \<Rightarrow> FindProviderCooldownStrategy cfg providerName | None \<Rightarrow> ''generic'')"

definition reportOutcomeWithSkip ::
    "('l, 'r, 'c, 'b) handler_env \<Rightarrow> string \<Rightarrow> response \<Rightarrow> bool \<Rightarrow> ('l, 'b) handler_state \<Rightarrow>
     ('l, 'b) handler_state" where
  "reportOutcomeWithSkip he providerName resp skip w =
     (case hw_tracker w of
        None \<Rightarrow> w
      | Some t \<Rightarrow>
          if providerName = '''' \<or> skip then w
          else w\<lparr>hw_tracker := Some
            (if ShouldCountAsFailure (rs_StatusCode resp) None
             then RecordFailure (he_GB he) (he_mark he (hw_tick w)) providerName
               (Some (OtherError (''HTTP '' @ itoa (rs_StatusCode resp)))) t
             else RecordSuccess (he_GB he) (he_mark he (hw_tick w)) providerName t)\<rparr>)"

text \<open>
  The hook of the reverse proxy. The provider's name and the key are in the request's context; the peek for the debug
  log puts back what it reads.
\<close>

definition handler_modifyResponse ::
    "('l, 'r, 'c, 'b) handler_env \<Rightarrow> string \<Rightarrow> string option \<Rightarrow> response \<Rightarrow> ('l, 'b) handler_state \<Rightarrow>
     (go_error + response) \<times> ('l, 'b) handler_state" where
  "handler_modifyResponse he providerName keyID resp w =
     (case (if providerName = '''' then None else hw_proxies w providerName) of
        Some pp \<Rightarrow>
          (case pp_KeyPool pp of
             Some a \<Rightarrow>
               (let (r, resp, p) = UpdateKeyPoolFromResponse (he_RL he) (he_fl he) (he_clock he (hw_tick w))
                       (he_mark he (hw_tick w)) (prov_Owner (pp_Provider pp)) (resolveCooldownStrategy he providerName)
                       keyID resp (hw_pools w a);
                    w = w\<lparr>hw_pools := (hw_pools w)(a := p)\<rparr>
                in case r of
                     Inl e \<Rightarrow> (Inl (GoPanic ''nil limiter''), w)
                   | Inr skip \<Rightarrow> (Inr resp, reportOutcomeWithSkip he providerName resp skip w))
           | None \<Rightarrow> (Inr resp, reportOutcomeWithSkip he providerName resp False w))
      | None \<Rightarrow> (Inr resp, reportOutcomeWithSkip he providerName resp False w))"

text \<open>
  One attempt: the reverse proxy answers 502 itself when the upstream gives no response, and then calls no hook.
\<close>

definition bad_gateway :: response where
  "bad_gateway = WriteError (\<lambda>_. []) 502 ''api_error'' ''upstream connection failed''"

definition send_attempt ::
    "('l, 'r, 'c, 'b) handler_env \<Rightarrow> upstream_attempt \<Rightarrow> ('l, 'b) handler_state \<Rightarrow>
     (go_error + response) \<times> ('l, 'b) handler_state" where
  "send_attempt he a w =
     (let up = he_upstream he (hw_tick w) a;
          w = w\<lparr>hw_tick := Suc (hw_tick w)\<rparr>;
          (r, w) = (case up of
             None \<Rightarrow> (Inr bad_gateway, w)
           | Some resp \<Rightarrow> handler_modifyResponse he (prov_Name (at_provider a)) (Some (at_keyID a)) resp w)
      in case r of
           Inl e \<Rightarrow> (Inl e, w)
         | Inr resp \<Rightarrow> (Inr resp, w\<lparr>hw_log := hw_log w @ [(a, resp)]\<rparr>))"

definition handler_ops ::
    "('l, 'r, 'c, 'b) handler_env \<Rightarrow> string \<Rightarrow> bool \<Rightarrow> ('l, 'b) handler_state retry_ops" where
  "handler_ops he model hasThinking =
     \<lparr>op_select = selectProviderExcluding he model hasThinking, op_proxy = proxy_of he,
      op_key = selectKeyFromPoolExcluding he, op_send = send_attempt he,
      op_sleep = (\<lambda>d w. w\<lparr>hw_tick := Suc (hw_tick w)\<rparr>), op_release = release_provider he,
      op_clock = (\<lambda>w. he_clock he (hw_tick w))\<rparr>"

end
