(* ===== verification/Handler_Retry_Facts.thy ===== *)
theory Handler_Retry_Facts
  imports Handler_Retry Retry_Invariant
begin

text \<open>
  The handler's operations keep the contract of the retry loops (an interpretation of \<open>retry_contract\<close>), so a
  request never comes back to a key or a provider it gave up; and the counters of the router are balanced at its end.
\<close>

section \<open>The contract\<close>

text \<open>
  A handler with a router and several providers, each with a key pool: at any moment the candidates for the model are a
  non-empty list of providers.
\<close>

definition handler_ok :: "('l, 'r, 'c, 'b) handler_env \<Rightarrow> string \<Rightarrow> bool" where
  "handler_ok he model \<longleftrightarrow>
     (\<forall>i. route_env_ok (he_route he i)) \<and>
     (\<forall>i t. \<exists>cs cs'. providerCandidates (he_select he i t) = Some cs \<and>
        applyModelRouting (he_select he i t) cs model = Inr (Some cs') \<and> usable cs' \<and>
        (\<forall>c \<in> set cs'. \<forall>p. pi_Provider c = Some p \<longrightarrow> snd (currentKeyPool he (prov_Name p)) \<noteq> None))"

definition handler_inv :: "('l, 'r, 'c, 'b) handler_env \<Rightarrow> string \<Rightarrow> ('l, 'b) handler_state \<Rightarrow> bool" where
  "handler_inv he model w \<longleftrightarrow> handler_ok he model \<and> cache_ok (hw_router w)"

definition pooled_provider :: "('l, 'r, 'c, 'b) handler_env \<Rightarrow> provider \<Rightarrow> bool" where
  "pooled_provider he p \<longleftrightarrow> snd (currentKeyPool he (prov_Name p)) \<noteq> None"

lemma handler_ok_candidates:
  assumes "handler_ok he model"
  obtains cs cs' where "providerCandidates (he_select he i t) = Some cs"
    "applyModelRouting (he_select he i t) cs model = Inr (Some cs')" "usable cs'"
    "\<And>c p. c \<in> set cs' \<Longrightarrow> pi_Provider c = Some p \<Longrightarrow> pooled_provider he p"
    "\<not> list_ex (\<lambda>c. pi_Provider c = None) cs'"
proof -
  obtain cs cs' where c: "providerCandidates (he_select he i t) = Some cs"
    "applyModelRouting (he_select he i t) cs model = Inr (Some cs')" "usable cs'"
    "\<forall>c \<in> set cs'. \<forall>p. pi_Provider c = Some p \<longrightarrow> snd (currentKeyPool he (prov_Name p)) \<noteq> None"
    using assms unfolding handler_ok_def by blast
  show thesis
    by (rule that [OF c(1-3)]) (use c(3,4) in \<open>auto simp: pooled_provider_def usable_def list_ex_iff\<close>)
qed

lemma affinity_subset: "route_env_ok env \<Longrightarrow> set (applyThinkingAffinity env cs b) \<subseteq> set cs"
  by (auto simp: applyThinkingAffinity_def Let_def dest!: in_set_takeD)

lemma affinity_length: "route_env_ok env \<Longrightarrow> length (applyThinkingAffinity env cs b) \<le> length cs"
  by (auto simp: applyThinkingAffinity_def Let_def)

lemma eligible_facts:
  assumes "\<And>i. route_env_ok (he_route he i)"
  shows "c \<in> set (eligible he w rx b cs) \<Longrightarrow> pi_Provider c = Some p \<Longrightarrow>
      c \<in> set cs \<and> prov_Name p \<notin> rx_excludedProviders rx"
    and "usable cs \<Longrightarrow> usable (eligible he w rx b cs)"
proof -
  let ?name = "\<lambda>c. case pi_Provider c of Some p \<Rightarrow> prov_Name p | None \<Rightarrow> ''''"
  let ?fs = "filter (\<lambda>c. hasAvailableKeys he w (?name c)) cs"
  let ?gs = "if rx_excludedProviders rx = {} then ?fs else filter (\<lambda>c. ?name c \<notin> rx_excludedProviders rx) ?fs"
  have e: "eligible he w rx b cs = applyThinkingAffinity (he_route he (hw_tick w)) ?gs b"
    by (simp add: eligible_def Let_def)
  have sub: "set (eligible he w rx b cs) \<subseteq> set ?gs" unfolding e by (rule affinity_subset [OF assms])
  have "length ?gs \<le> length cs"
    by (auto intro: le_trans [OF length_filter_le] simp del: filter_filter)
  then have len: "length (eligible he w rx b cs) \<le> length cs"
    unfolding e using affinity_length [OF assms] le_trans by blast
  show "c \<in> set (eligible he w rx b cs) \<Longrightarrow> pi_Provider c = Some p \<Longrightarrow>
      c \<in> set cs \<and> prov_Name p \<notin> rx_excludedProviders rx"
    using sub by (auto split: if_splits)
  show "usable (eligible he w rx b cs)" if "usable cs"
  proof -
    have "set ?gs \<subseteq> set cs" by auto
    then show ?thesis using sub len that by (fastforce simp: usable_def slice_ok_def)
  qed
qed

text \<open>The outcomes of a selection.\<close>

lemma selectProviderExcluding_cases:
  assumes "handler_inv he model w"
  obtains (err) e r where
      "selectProviderExcluding he model b rx w = (Inl e, w\<lparr>hw_tick := Suc (hw_tick w), hw_router := r\<rparr>)" "cache_ok r"
      "r = hw_router w \<or> (\<exists>ps. r = snd (live_Select (he_route he (hw_tick w)) (he_routing he) (hw_router w) ps))"
  | (chosen) p r where
      "selectProviderExcluding he model b rx w =
        (Inr (p, True), w\<lparr>hw_tick := Suc (hw_tick w), hw_router := live_Acquire p (he_routing he) r\<rparr>)"
      "cache_ok r" "prov_Name p \<notin> rx_excludedProviders rx" "pooled_provider he p"
      "\<exists>ps. r = snd (live_Select (he_route he (hw_tick w)) (he_routing he) (hw_router w) ps)"
proof -
  have ok: "handler_ok he model" and r0: "cache_ok (hw_router w)" using assms by (simp_all add: handler_inv_def)
  have env: "route_env_ok (he_route he i)" for i using ok by (simp add: handler_ok_def)
  obtain cs cs' where cs: "providerCandidates (he_select he (hw_tick w) (hw_tracker w)) = Some cs"
    "applyModelRouting (he_select he (hw_tick w) (hw_tracker w)) cs model = Inr (Some cs')" "usable cs'"
    "\<And>c p. c \<in> set cs' \<Longrightarrow> pi_Provider c = Some p \<Longrightarrow> pooled_provider he p"
    "\<not> list_ex (\<lambda>c. pi_Provider c = None) cs'"
    using handler_ok_candidates [OF ok, where i = "hw_tick w" and t = "hw_tracker w"] by metis
  let ?ps = "eligible he w rx b cs'"
  have us: "usable ?ps" by (rule eligible_facts(2) [OF env cs(3)])
  obtain res r where s: "live_Select (he_route he (hw_tick w)) (he_routing he) (hw_router w) ?ps = (res, r)" by fastforce
  have r: "cache_ok r" using live_Select_ok [OF r0 env us, of "hw_tick w" "he_routing he"] s by simp
  show thesis
  proof (cases "?ps = []")
    case True
    then show thesis
      using err [of "OtherError ''all providers excluded after retry''" "hw_router w"] cs(1,2,5) r0
      by (simp add: selectProviderExcluding_def Let_def)
  next
    case ne: False
    show thesis
    proof (cases res)
      case (Inl e)
      then have "selectProviderExcluding he model b rx w = (Inl e, w\<lparr>hw_tick := Suc (hw_tick w), hw_router := r\<rparr>)"
        using cs(1,2,5) ne s by (simp add: selectProviderExcluding_def Let_def)
      then show thesis by (rule err [OF _ r disjI2 [OF exI [of _ ?ps]]]) (simp add: s)
    next
      case (Inr c)
      have mem: "c \<in> set ?ps"
        using live_Select_sound [OF r0 env us, of "hw_tick w" "he_routing he"] s Inr by simp
      then obtain p where p: "pi_Provider c = Some p" using us by (auto simp: usable_def)
      have "selectProviderExcluding he model b rx w =
          (Inr (p, True), w\<lparr>hw_tick := Suc (hw_tick w), hw_router := live_Acquire p (he_routing he) r\<rparr>)"
        using cs(1,2,5) ne s Inr p by (simp add: selectProviderExcluding_def Let_def selected_def)
      then show thesis
        by (rule chosen [OF _ r _ _ exI [of _ ?ps]])
          (use eligible_facts(1) [OF env mem p] cs(4) p s in auto)
    qed
  qed
qed


text \<open>What each operation leaves alone.\<close>

lemma selectProviderExcluding_log: "hw_log (snd (selectProviderExcluding he model b rx w)) = hw_log w"
  by (auto simp: selectProviderExcluding_def Let_def split: option.splits sum.splits prod.splits)

lemma getOrCreateProxy_frame:
  "hw_log (snd (getOrCreateProxy he p w)) = hw_log w" "hw_router (snd (getOrCreateProxy he p w)) = hw_router w"
  by (auto simp: getOrCreateProxy_def Let_def split: sum.splits prod.splits)

lemma select_key_tries_frame:
  "hw_log (snd (select_key_tries he a n rx i w)) = hw_log w"
  "hw_router (snd (select_key_tries he a n rx i w)) = hw_router w"
  by (induction i arbitrary: w)
    (auto simp: Let_def split: sum.splits prod.splits key_err.splits)

lemma selectKeyFromPoolExcluding_frame:
  "hw_log (snd (selectKeyFromPoolExcluding he p rx w)) = hw_log w"
  "hw_router (snd (selectKeyFromPoolExcluding he p rx w)) = hw_router w"
  by (simp_all add: selectKeyFromPoolExcluding_def select_key_tries_frame split: option.split)

lemma reportOutcomeWithSkip_frame:
  "hw_log (reportOutcomeWithSkip he n resp b w) = hw_log w"
  "hw_router (reportOutcomeWithSkip he n resp b w) = hw_router w"
  "hw_pools (reportOutcomeWithSkip he n resp b w) = hw_pools w"
  "hw_proxies (reportOutcomeWithSkip he n resp b w) = hw_proxies w"
  by (simp_all add: reportOutcomeWithSkip_def split: option.split)

lemma handler_modifyResponse_frame:
  "hw_log (snd (handler_modifyResponse he n k resp w)) = hw_log w"
  "hw_router (snd (handler_modifyResponse he n k resp w)) = hw_router w"
  "hw_proxies (snd (handler_modifyResponse he n k resp w)) = hw_proxies w"
  by (auto simp: handler_modifyResponse_def reportOutcomeWithSkip_frame Let_def
      split: option.splits prod.splits sum.splits)

lemma send_attempt_frame:
  "hw_router (snd (send_attempt he a w)) = hw_router w"
  "hw_log (snd (send_attempt he a w)) =
    (case fst (send_attempt he a w) of Inr resp \<Rightarrow> hw_log w @ [(a, resp)] | Inl e \<Rightarrow> hw_log w)"
  using handler_modifyResponse_frame [of he "prov_Name (at_provider a)" "Some (at_keyID a)"]
  by (auto simp: send_attempt_def Let_def split_def split: option.splits prod.splits sum.splits)

lemma select_key_fresh: "fst (select_key_tries he a n rx i w) = Inr (Some (k, key)) \<Longrightarrow> \<not> isKeyExcluded n k rx"
  by (induction i arbitrary: w)
    (auto simp: Let_def split: sum.splits prod.splits key_err.splits if_splits)

lemma getOrCreateProxy_pooled:
  assumes "pooled_provider he p" and "fst (getOrCreateProxy he p w) = Inr pp"
  shows "pp_KeyPool pp \<noteq> None"
proof -
  have map: "he_poolmap he \<noteq> None" using assms(1) by (cases "he_poolmap he") (auto simp: pooled_provider_def currentKeyPool_def)
  obtain key pool where k: "currentKeyPool he (prov_Name p) = (key, pool)" by fastforce
  then have "pool \<noteq> None" using assms(1) by (simp add: pooled_provider_def)
  show ?thesis
  proof (cases "proxyMatches he p key pool (hw_proxies w (prov_Name p))")
    case True
    then show ?thesis
      using assms(2) k map \<open>pool \<noteq> None\<close>
      by (auto simp: getOrCreateProxy_def proxyMatches_def split: option.splits)
  next
    case False
    then show ?thesis
      using assms(2) k map \<open>pool \<noteq> None\<close>
      by (auto simp: getOrCreateProxy_def preserveProxyAuthInputs_def NewProviderProxy_def Let_def split: option.splits)
  qed
qed

lemma handler_ops_simps [simp]:
  "op_select (handler_ops he model b) = selectProviderExcluding he model b"
  "op_proxy (handler_ops he model b) = proxy_of he"
  "op_key (handler_ops he model b) = selectKeyFromPoolExcluding he"
  "op_send (handler_ops he model b) = send_attempt he"
  "op_sleep (handler_ops he model b) d w = w\<lparr>hw_tick := Suc (hw_tick w)\<rparr>"
  "op_release (handler_ops he model b) = release_provider he"
  "op_clock (handler_ops he model b) w = he_clock he (hw_tick w)"
  by (simp_all add: handler_ops_def)

interpretation hr: retry_contract "handler_ops he model b" hw_log "handler_inv he model" "pooled_provider he"
  for he :: "('l, 'r, 'c, 'b) handler_env" and model b
proof unfold_locales
  fix w rx p t and w' :: "('l, 'b) handler_state"
  assume "handler_inv he model w" "op_select (handler_ops he model b) rx w = (Inr (p, t), w')"
  then show "prov_Name p \<notin> rx_excludedProviders rx \<and> pooled_provider he p"
    by (auto elim: selectProviderExcluding_cases [where b = b and rx = rx])
next
  fix w rx and w' :: "('l, 'b) handler_state"
  assume "handler_inv he model w"
  then have "cache_ok (hw_router (snd (selectProviderExcluding he model b rx w)))"
    by (rule selectProviderExcluding_cases [where b = b and rx = rx])
      (simp_all add: live_Acquire_def live_track_ok router_track_inv)
  then show "handler_inv he model (snd (op_select (handler_ops he model b) rx w))"
    using \<open>handler_inv he model w\<close> by (simp add: handler_inv_def)
next
  fix w w' :: "('l, 'b) handler_state" and p rx k apiKey
  assume "op_key (handler_ops he model b) p rx w = (Inr (Some (k, apiKey)), w')"
  then show "\<not> isKeyExcluded (prov_Name p) k rx"
    by (auto simp: selectKeyFromPoolExcluding_def split: option.splits intro!: select_key_fresh dest: arg_cong [of _ _ fst])
next
  fix w w' :: "('l, 'b) handler_state" and p pl apiKey
  assume "pooled_provider he p" "op_proxy (handler_ops he model b) p w = (Inr (pl, apiKey), w')"
  then show pl
    using getOrCreateProxy_pooled [of he p w] by (cases "fst (getOrCreateProxy he p w)") (auto simp: proxy_of_def apfst_def map_prod_def split_def)
qed (simp_all add: handler_inv_def selectProviderExcluding_log proxy_of_def getOrCreateProxy_frame
    selectKeyFromPoolExcluding_frame send_attempt_frame)

section \<open>Properties\<close>



section \<open>The load counters\<close>

text \<open>
  What holds of the least-loaded router while the configuration stays the same: every counter is what it was, plus the
  acquisitions of this request that are still to be released.
\<close>

definition held :: "string \<Rightarrow> provider list \<Rightarrow> int" where
  "held n acq = int (length (filter (\<lambda>p. prov_Name p = n) acq))"

definition balanced ::
    "('l, 'r, 'c, 'b) handler_env \<Rightarrow> string \<Rightarrow> (string \<Rightarrow> int) \<Rightarrow> provider list \<Rightarrow> ('l, 'b) handler_state \<Rightarrow> bool" where
  "balanced he model L acq w \<longleftrightarrow> handler_inv he model w \<and>
     (rc_strategy (hw_router w), rc_timeout (hw_router w)) = routing_key (he_routing he) \<and>
     (\<exists>r. rc_router (hw_router w) = Some (RLeastLoaded r) \<and> (\<forall>n. name_load r n = wrap64 (L n + held n acq)))"

lemma held_simps [simp]:
  "held n [] = 0" "held n (p # acq) = held n acq + (if prov_Name p = n then 1 else 0)"
  by (simp_all add: held_def)

lemma ll_scan_load: "name_load (snd (ll_scan m cs r ps)) = name_load r"
proof (induction ps arbitrary: m cs r)
  case (Cons p ps)
  then show ?case
    using getCounter_load(2) by (auto simp: split_def Let_def split: option.split)
qed simp

lemma LeastLoadedRouter_Select_load: "name_load (snd (LeastLoadedRouter_Select env r ps)) = name_load r"
proof (cases "check_healthy env ps")
  case (Inr h)
  obtain x r' where x: "ll_scan (- 1) [] r h = (x, r')" by fastforce
  have "name_load r' = name_load r" using ll_scan_load [of "- 1" "[]" r h] by (simp add: x)
  then show ?thesis by (cases x) (simp_all add: LeastLoadedRouter_Select_def Inr x Let_def)
qed (simp add: LeastLoadedRouter_Select_def)

lemma GetRouter_steady: "(rc_strategy s, rc_timeout s) = routing_key cfg \<Longrightarrow> GetRouter cfg s = Some s"
  by (simp add: GetRouter_def routing_key_def Let_def)

lemma live_Select_steady:
  assumes "(rc_strategy s, rc_timeout s) = routing_key cfg" and "rc_router s = Some (RLeastLoaded r)"
  shows "\<exists>r'. snd (live_Select env cfg s ps) = s\<lparr>rc_router := Some (RLeastLoaded r')\<rparr> \<and> name_load r' = name_load r"
proof -
  obtain x r' where x: "LeastLoadedRouter_Select env r ps = (x, r')" by fastforce
  then have "name_load r' = name_load r" using LeastLoadedRouter_Select_load [of env r ps] by simp
  then show ?thesis
    using assms(2) x by (intro exI [of _ r']) (simp add: live_Select_def GetRouter_steady [OF assms(1)])
qed

lemma track_steady:
  assumes "(rc_strategy s, rc_timeout s) = routing_key cfg" and "rc_router s = Some (RLeastLoaded r)"
  shows "live_Acquire p cfg s = s\<lparr>rc_router := Some (RLeastLoaded (LeastLoaded_Acquire p r))\<rparr>"
    and "live_Release p cfg s = s\<lparr>rc_router := Some (RLeastLoaded (LeastLoaded_Release p r))\<rparr>"
  using assms(2) by (simp_all add: live_Acquire_def live_Release_def live_track_def GetRouter_steady [OF assms(1)])


lemma wrap64_move: "wrap64 (y + wrap64 x) = wrap64 (y + x)" "wrap64 (wrap64 x - y) = wrap64 (x - y)"
  using wrap64_add_left [of x y] wrap64_add_left [of x "- y"] by (simp_all add: add.commute)

lemma balanced_frame:
  "balanced he model L acq w \<Longrightarrow> hw_router w' = hw_router w \<Longrightarrow> balanced he model L acq w'"
  by (simp add: balanced_def handler_inv_def)

lemma balanced_select:
  assumes "balanced he model L acq w"
  shows "selectProviderExcluding he model b rx w = (Inl e, w') \<Longrightarrow> balanced he model L acq w'"
    and "selectProviderExcluding he model b rx w = (Inr (p, t), w') \<Longrightarrow>
      balanced he model L (if t then p # acq else acq) w'"
proof -
  obtain r where r: "rc_router (hw_router w) = Some (RLeastLoaded r)" "\<forall>n. name_load r n = wrap64 (L n + held n acq)"
    and inv: "handler_inv he model w" "(rc_strategy (hw_router w), rc_timeout (hw_router w)) = routing_key (he_routing he)"
    using assms by (auto simp: balanced_def)
  show "balanced he model L acq w'" if sel: "selectProviderExcluding he model b rx w = (Inl e, w')"
  proof (cases rule: selectProviderExcluding_cases [OF inv(1), where b = b and rx = rx, case_names err chosen])
    case (err e' s)
    obtain r' where "s = (hw_router w)\<lparr>rc_router := Some (RLeastLoaded r')\<rparr>" "name_load r' = name_load r"
      using err(3) live_Select_steady [OF inv(2) r(1)] r(1) by (metis router_cache.surjective router_cache.update_convs(1))
    then show ?thesis
      using sel err(1,2) inv r(2) by (auto simp: balanced_def handler_inv_def)
  next
    case (chosen p s)
    then show ?thesis using sel by simp
  qed
  show "balanced he model L (if t then p # acq else acq) w'"
    if sel: "selectProviderExcluding he model b rx w = (Inr (p, t), w')"
  proof (cases rule: selectProviderExcluding_cases [OF inv(1), where b = b and rx = rx, case_names err chosen])
    case (err e' s)
    then show ?thesis using sel by simp
  next
    case (chosen p' s)
    then obtain r' where s: "s = (hw_router w)\<lparr>rc_router := Some (RLeastLoaded r')\<rparr>" "name_load r' = name_load r"
      using live_Select_steady [OF inv(2) r(1)] by metis
    have acq: "live_Acquire p' (he_routing he) s = s\<lparr>rc_router := Some (RLeastLoaded (LeastLoaded_Acquire p' r'))\<rparr>"
      by (rule track_steady) (use s inv(2) in simp_all)
    have "cache_ok (live_Acquire p' (he_routing he) s)"
      using chosen(2) by (simp add: live_Acquire_def live_track_ok router_track_inv)
    then show ?thesis
      using sel chosen(1) inv s r(2) acq
      by (auto simp: balanced_def handler_inv_def LeastLoaded_Acquire_def counter_Add_load wrap64_move algebra_simps)
  qed
qed


lemma balanced_release: "balanced he model L (p # acq) w \<Longrightarrow> balanced he model L acq (release_provider he p w)"
proof -
  assume b: "balanced he model L (p # acq) w"
  then obtain r where r: "rc_router (hw_router w) = Some (RLeastLoaded r)" "\<forall>n. name_load r n = wrap64 (L n + held n (p # acq))"
    and inv: "handler_inv he model w" "(rc_strategy (hw_router w), rc_timeout (hw_router w)) = routing_key (he_routing he)"
    by (auto simp: balanced_def)
  have "cache_ok (live_Release p (he_routing he) (hw_router w))"
    using inv(1) by (simp add: handler_inv_def live_Release_def live_track_ok router_track_inv)
  then show ?thesis
    using inv r(2) track_steady(2) [OF inv(2) r(1), of p]
    by (auto simp: balanced_def handler_inv_def release_provider_def LeastLoaded_Release_def counter_Add_load wrap64_move algebra_simps)
qed

interpretation hb: retry_invariant "handler_ops he model b" "balanced he model L"
  for he :: "('l, 'r, 'c, 'b) handler_env" and model b L
proof unfold_locales
  fix acq rx e p t and w w' :: "('l, 'b) handler_state"
  assume "balanced he model L acq w"
  then show "op_select (handler_ops he model b) rx w = (Inl e, w') \<Longrightarrow> balanced he model L acq w'"
    and "op_select (handler_ops he model b) rx w = (Inr (p, t), w') \<Longrightarrow> balanced he model L (if t then p # acq else acq) w'"
    using balanced_select [of he model L acq w b rx] by (simp_all split del: if_split)
next
  fix acq p and w :: "('l, 'b) handler_state"
  assume "balanced he model L (p # acq) w"
  then show "balanced he model L acq (op_release (handler_ops he model b) p w)" by (simp add: balanced_release)
qed (erule balanced_frame, simp add: proxy_of_def getOrCreateProxy_frame selectKeyFromPoolExcluding_frame send_attempt_frame)+



section \<open>Connection failures\<close>

text \<open>A state the tracker does not learn from: the tracker is \<open>T\<close>, whatever was sent.\<close>

definition unreported :: "('l, 'r, 'c, 'b) handler_env \<Rightarrow> 'b tracker option \<Rightarrow> provider list \<Rightarrow> ('l, 'b) handler_state \<Rightarrow> bool" where
  "unreported he T acq w \<longleftrightarrow> (\<forall>i a. he_upstream he i a = None) \<and> hw_tracker w = T"

lemma selectProviderExcluding_tracker:
  "hw_tracker (snd (selectProviderExcluding he model b rx w)) = hw_tracker w"
  by (auto simp: selectProviderExcluding_def Let_def split: option.splits sum.splits prod.splits)

lemma getOrCreateProxy_tracker: "hw_tracker (snd (getOrCreateProxy he p w)) = hw_tracker w"
  by (auto simp: getOrCreateProxy_def Let_def split: sum.splits prod.splits)

lemma select_key_tries_tracker: "hw_tracker (snd (select_key_tries he a n rx i w)) = hw_tracker w"
  by (induction i arbitrary: w)
    (auto simp: Let_def split: sum.splits prod.splits key_err.splits)

lemma selectKeyFromPoolExcluding_tracker: "hw_tracker (snd (selectKeyFromPoolExcluding he p rx w)) = hw_tracker w"
  by (simp add: selectKeyFromPoolExcluding_def select_key_tries_tracker split: option.split)

interpretation hu: retry_invariant "handler_ops he model b" "unreported he T"
  for he :: "('l, 'r, 'c, 'b) handler_env" and model b T
  using selectProviderExcluding_tracker [of he model b]
  by unfold_locales
    (auto simp: unreported_def proxy_of_def getOrCreateProxy_tracker selectKeyFromPoolExcluding_tracker send_attempt_def
      release_provider_def dest: arg_cong [of _ _ "hw_tracker \<circ> snd"])

text \<open>
  A provider that cannot be reached is never reported. When every connection fails, serving a request leaves the
  circuit breakers as they were, so no number of network errors opens one; the documentation counts
  them as failures, but the reverse proxy answers them with its own 502 and calls the hook for responses only.
\<close>

lemma connection_failures_unreported:
  assumes "\<And>i a. he_upstream he i a = None"
    and "serveWithRetry (handler_ops he model hasThinking) cfg strip rq w = (reply, w')"
  shows "hw_tracker w' = hw_tracker w"
  using hu.serveWithRetry_I [OF _ assms(2), of "hw_tracker w"] assms(1) by (simp add: unreported_def)


section \<open>Witnesses\<close>

text \<open>Three providers that share a pool of two keys; \<open>up\<close> are the upstreams.\<close>

definition demo_handler ::
    "(nat \<Rightarrow> upstream_attempt \<Rightarrow> response option) \<Rightarrow> (bucket, bool, unit, settings \<times> view) handler_env" where
  "demo_handler up =
     \<lparr>he_RL = bkt_lib, he_fl = (\<lambda>x. x), he_GB = ref_breaker, he_config = None,
      he_routing = demo_routing ''least_loaded'' 10, he_keymap = None, he_poolmap = Some (\<lambda>_. Some 0),
      he_lo_pool = std_lo_pool, he_parse_url = (\<lambda>_. None), he_BaseURL = (\<lambda>_. ''http://h''),
      he_select = (\<lambda>_ _. demo_selection), he_route = (\<lambda>_. demo_renv), he_keys = (\<lambda>_ _. demo_env),
      he_clock = (\<lambda>_. demo_clock), he_mark = (\<lambda>_. env_now demo_env), he_upstream = up\<rparr>"

definition demo_state :: "(bucket, settings \<times> view) handler_state" where
  "demo_state =
     \<lparr>hw_router = \<lparr>rc_router = Some (RLeastLoaded Map.empty), rc_strategy = ''least_loaded'', rc_timeout = millis 10\<rparr>,
      hw_pools = (\<lambda>_. demo_pool), hw_proxies = Map.empty, hw_tracker = Some (NewTracker demo_breaker_cfg), hw_tick = 0,
      hw_log = []\<rparr>"

definition demo_request :: retry_request where
  "demo_request = \<lparr>rq_body = Some ''{}'', rq_original = None, rq_hasThinking = False\<rparr>"

lemma demo_handler_ok: "handler_ok (demo_handler up) ''m''"
proof -
  have "providerCandidates demo_selection = Some demo_provs"
    "applyModelRouting demo_selection demo_provs ''m'' = Inr (Some demo_provs)"
    by (simp_all add: demo_selection_def providerCandidates_def applyModelRouting_def isModelBasedRouting_def demo_provs_def)
  then show ?thesis
    using demo_provs_facts(3) demo_renv_ok by (simp add: handler_ok_def demo_handler_def currentKeyPool_def)
qed

lemma demo_state_facts:
  "cache_ok (hw_router demo_state)" "hw_log demo_state = []"
  "(rc_strategy (hw_router demo_state), rc_timeout (hw_router demo_state)) = routing_key (he_routing (demo_handler up))"
  "rc_router (hw_router demo_state) = Some (RLeastLoaded Map.empty)" "in_int64 (name_load Map.empty n)"
  by (simp_all add: demo_state_def cache_ok_def demo_handler_def demo_routing_def routing_key_def
      Routing_GetEffectiveStrategy_def GetFailoverTimeoutOption_def time_defs name_load_def in_int64_def wrap64_def)



lemma connection_failures_unreported_witness:
  "\<exists>reply w'. serveWithRetry (handler_ops (demo_handler (\<lambda>_ _. None)) ''m'' False) demo_retry id demo_request demo_state = (reply, w') \<and>
     hw_tracker w' = Some (NewTracker demo_breaker_cfg)"
proof -
  obtain reply w' where s: "serveWithRetry (handler_ops (demo_handler (\<lambda>_ _. None)) ''m'' False) demo_retry id demo_request demo_state =
      (reply, w')" by fastforce
  have "he_upstream (demo_handler (\<lambda>_ _. None)) i a = None" for i a by (simp add: demo_handler_def)
  from connection_failures_unreported [OF this s] show ?thesis using s by (simp add: demo_state_def)
qed

end
