(* ===== verification/Providers.thy ===== *)
theory Providers
  imports Config
begin

text \<open>
  The providers (\<open>internal/providers/*.go\<close>) and their factory (\<open>internal/di/provider_factory.go\<close>): how a
  request is authenticated, which headers go on, which model and URL the upstream sees.
\<close>

section \<open>Headers and paths\<close>

definition header_del :: "header \<Rightarrow> string \<Rightarrow> header" where
  "header_del h k = h(canonical_key k := [])"

text \<open>\<open>url.PathEscape\<close>: what a path segment keeps, and the rest as percent and two hexadecimal digits.\<close>

definition hex_char :: "nat \<Rightarrow> char" where
  "hex_char n = ''0123456789ABCDEF'' ! n"

definition segment_char :: "char \<Rightarrow> bool" where
  "segment_char c \<longleftrightarrow> is_upper c \<or> is_lower c \<or> is_digit c \<or> c \<in> set ''-_.~$&+=:@''"

fun PathEscape :: "string \<Rightarrow> string" where
  "PathEscape [] = []"
| "PathEscape (c # cs) =
     (if segment_char c then c # PathEscape cs
      else CHR ''%'' # hex_char (of_char c div 16) # hex_char (of_char c mod 16) # PathEscape cs)"

section \<open>The provider types\<close>

text \<open>\<open>BaseProvider\<close>, which \<open>OpenAIProvider\<close> has field by field; a nil mapping is the empty one.\<close>

record base_provider =
  bp_modelMapping :: "string \<rightharpoonup> string"
  bp_name :: string
  bp_baseURL :: string
  bp_owner :: string
  bp_models :: "string list"

datatype provider_impl =
    AnthropicProvider base_provider
  | ZAIProvider base_provider
  | MiniMaxProvider base_provider
  | OllamaProvider base_provider
  | GenericProvider base_provider string
  | OpenAIProvider base_provider
  | AzureProvider base_provider string string string string
  | BedrockProvider base_provider string
  | VertexProvider base_provider string string

fun impl_base :: "provider_impl \<Rightarrow> base_provider" where
  "impl_base (AnthropicProvider b) = b"
| "impl_base (ZAIProvider b) = b"
| "impl_base (MiniMaxProvider b) = b"
| "impl_base (OllamaProvider b) = b"
| "impl_base (GenericProvider b _) = b"
| "impl_base (OpenAIProvider b) = b"
| "impl_base (AzureProvider b _ _ _ _) = b"
| "impl_base (BedrockProvider b _) = b"
| "impl_base (VertexProvider b _ _) = b"

text \<open>
  What the cloud providers use: the AWS credentials and the SigV4 signer, which signs headers and body for a region; the
  OAuth token source; \<open>gjson\<close> and \<open>sjson\<close> on a body. No credentials or no token source is \<^term>\<open>None\<close>.
\<close>

record 'c cloud =
  cl_credentials :: "(go_error + 'c) option"
  cl_sign :: "'c \<Rightarrow> string \<Rightarrow> header \<Rightarrow> string option \<Rightarrow> go_error + header"
  cl_token :: "(go_error + string) option"
  cl_get_string :: "string \<Rightarrow> string \<Rightarrow> string"
  cl_get_bool :: "string \<Rightarrow> string \<Rightarrow> bool option"
  cl_delete :: "string \<Rightarrow> string \<Rightarrow> go_error + string"
  cl_set :: "string \<Rightarrow> string \<Rightarrow> string \<Rightarrow> go_error + string"

section \<open>The methods\<close>

text \<open>A request is its headers and its body; an error leaves it as it was.\<close>

definition Bedrock_Authenticate ::
    "'c cloud \<Rightarrow> string \<Rightarrow> string option \<Rightarrow> header \<Rightarrow> go_error option \<times> header" where
  "Bedrock_Authenticate cl region body h =
     (case cl_credentials cl of
        None \<Rightarrow> (Some (OtherError ''bedrock: no credentials provider configured''), h)
      | Some (Inl e) \<Rightarrow> (Some (Wrapped ''bedrock: failed to retrieve credentials'' e), h)
      | Some (Inr c) \<Rightarrow>
          (case cl_sign cl c region h body of
             Inl e \<Rightarrow> (Some (Wrapped ''bedrock: failed to sign request'' e), h)
           | Inr h \<Rightarrow> (None, h)))"

definition Vertex_Authenticate :: "'c cloud \<Rightarrow> header \<Rightarrow> go_error option \<times> header" where
  "Vertex_Authenticate cl h =
     (case cl_token cl of
        None \<Rightarrow> (Some (OtherError ''vertex: no token source configured''), h)
      | Some (Inl e) \<Rightarrow> (Some (Wrapped ''vertex: failed to get token'' e), h)
      | Some (Inr t) \<Rightarrow> (None, header_set h ''Authorization'' (''Bearer '' @ t)))"

definition bearer_auth :: "string \<Rightarrow> header \<Rightarrow> go_error option \<times> header" where
  "bearer_auth key h = (None, header_set h ''Authorization'' (''Bearer '' @ key))"

definition api_key_auth :: "string \<Rightarrow> header \<Rightarrow> go_error option \<times> header" where
  "api_key_auth key h = (None, header_set h ''x-api-key'' key)"

fun Authenticate :: "'c cloud \<Rightarrow> provider_impl \<Rightarrow> string \<Rightarrow> string option \<Rightarrow> header \<Rightarrow> go_error option \<times> header" where
  "Authenticate cl (AnthropicProvider b) key body h = api_key_auth key h"
| "Authenticate cl (ZAIProvider b) key body h = api_key_auth key h"
| "Authenticate cl (MiniMaxProvider b) key body h = bearer_auth key h"
| "Authenticate cl (OllamaProvider b) key body h = api_key_auth key h"
| "Authenticate cl (GenericProvider b authMethod) key body h =
     (if authMethod = ''bearer'' then bearer_auth key h else api_key_auth key h)"
| "Authenticate cl (OpenAIProvider b) key body h = bearer_auth key h"
| "Authenticate cl (AzureProvider b resourceName deploymentID apiVersion authMethod) key body h =
     (if authMethod = ''entra_id'' then bearer_auth key h else api_key_auth key h)"
| "Authenticate cl (BedrockProvider b region) key body h = Bedrock_Authenticate cl region body h"
| "Authenticate cl (VertexProvider b projectID region) key body h = Vertex_Authenticate cl h"

text \<open>The headers of a request come from the server with canonical keys.\<close>

definition anthropic_header :: "string \<Rightarrow> bool" where
  "anthropic_header k \<longleftrightarrow> take 10 k = ''Anthropic-''"

definition Base_ForwardHeaders :: "header \<Rightarrow> header" where
  "Base_ForwardHeaders h =
     header_set (\<lambda>k. if anthropic_header k then h k else []) ''Content-Type'' ''application/json''"

definition Azure_ForwardHeaders :: "header \<Rightarrow> header" where
  "Azure_ForwardHeaders h =
     (let headers = Base_ForwardHeaders h
      in if header_get headers ''Anthropic-Version'' = ''''
         then header_set headers ''Anthropic-Version'' ''2023-06-01'' else headers)"

fun ForwardHeaders :: "provider_impl \<Rightarrow> header \<Rightarrow> header" where
  "ForwardHeaders (OpenAIProvider b) h = header_set (\<lambda>_. []) ''Content-Type'' ''application/json''"
| "ForwardHeaders (AzureProvider b resourceName deploymentID apiVersion authMethod) h = Azure_ForwardHeaders h"
| "ForwardHeaders (BedrockProvider b region) h = header_del (Base_ForwardHeaders h) ''Anthropic-Version''"
| "ForwardHeaders (VertexProvider b projectID region) h = header_del (Base_ForwardHeaders h) ''Anthropic-Version''"
| "ForwardHeaders p h = Base_ForwardHeaders h"

fun SupportsTransparentAuth :: "provider_impl \<Rightarrow> bool" where
  "SupportsTransparentAuth (AnthropicProvider b) = True"
| "SupportsTransparentAuth p = False"

fun RequiresBodyTransform :: "provider_impl \<Rightarrow> bool" where
  "RequiresBodyTransform (BedrockProvider b region) = True"
| "RequiresBodyTransform (VertexProvider b projectID region) = True"
| "RequiresBodyTransform p = False"

fun StreamingContentType :: "provider_impl \<Rightarrow> string" where
  "StreamingContentType (BedrockProvider b region) = ''application/vnd.amazon.eventstream''"
| "StreamingContentType p = ''text/event-stream''"

definition MapModel :: "base_provider \<Rightarrow> string \<Rightarrow> string" where
  "MapModel b model = (case bp_modelMapping b model of Some m \<Rightarrow> m | None \<Rightarrow> model)"

text \<open>A model of the list: its identifier, type, display name and creation time, which is now.\<close>

record model_info =
  mi_ID :: string
  mi_Type :: string
  mi_DisplayName :: string
  mi_CreatedAt :: string

definition ListModels :: "string \<Rightarrow> base_provider \<Rightarrow> model_info list" where
  "ListModels now b =
     map (\<lambda>m. \<lparr>mi_ID = m, mi_Type = ''model'', mi_DisplayName = m, mi_CreatedAt = now\<rparr>) (bp_models b)"

section \<open>Bodies of cloud requests\<close>

definition IsStreamingRequest :: "'c cloud \<Rightarrow> string \<Rightarrow> bool" where
  "IsStreamingRequest cl body = (cl_get_bool cl body ''stream'' = Some True)"

definition TransformBodyForCloudProvider :: "'c cloud \<Rightarrow> string \<Rightarrow> string \<Rightarrow> go_error + string \<times> string" where
  "TransformBodyForCloudProvider cl body anthropicVersion =
     (let model = cl_get_string cl body ''model''
      in case cl_delete cl body ''model'' of
           Inl e \<Rightarrow> Inl e
         | Inr newBody \<Rightarrow>
             (case cl_set cl newBody ''anthropic_version'' anthropicVersion of
                Inl e \<Rightarrow> Inl e
              | Inr newBody \<Rightarrow> Inr (newBody, model)))"

definition Bedrock_TransformRequest :: "'c cloud \<Rightarrow> base_provider \<Rightarrow> string \<Rightarrow> go_error + string \<times> string" where
  "Bedrock_TransformRequest cl b body =
     (case TransformBodyForCloudProvider cl body ''bedrock-2023-05-31'' of
        Inl e \<Rightarrow> Inl (Wrapped ''bedrock: transform failed'' e)
      | Inr (newBody, model) \<Rightarrow>
          Inr (newBody, bp_baseURL b @ ''/model/'' @ PathEscape (MapModel b model) @ ''/invoke-with-response-stream''))"

definition Vertex_TransformRequest ::
    "'c cloud \<Rightarrow> base_provider \<Rightarrow> string \<Rightarrow> string \<Rightarrow> string \<Rightarrow> go_error + string \<times> string" where
  "Vertex_TransformRequest cl b projectID region body =
     (let isStreaming = IsStreamingRequest cl body
      in case TransformBodyForCloudProvider cl body ''vertex-2023-10-16'' of
           Inl e \<Rightarrow> Inl (Wrapped ''vertex: transform failed'' e)
         | Inr (newBody, model) \<Rightarrow>
             (let action = (if isStreaming then ''streamRawPredict'' else ''rawPredict'')
              in Inr (newBody, bp_baseURL b @ ''/v1/projects/'' @ PathEscape projectID @ ''/locations/'' @ PathEscape region @
                   ''/publishers/anthropic/models/'' @ PathEscape (MapModel b model) @ '':'' @ action)))"

fun TransformRequest :: "'c cloud \<Rightarrow> provider_impl \<Rightarrow> string \<Rightarrow> string \<Rightarrow> go_error + string \<times> string" where
  "TransformRequest cl (BedrockProvider b region) body endpoint = Bedrock_TransformRequest cl b body"
| "TransformRequest cl (VertexProvider b projectID region) body endpoint =
     Vertex_TransformRequest cl b projectID region body"
| "TransformRequest cl (AzureProvider b resourceName deploymentID apiVersion authMethod) body endpoint =
     Inr (body, bp_baseURL b @ ''/models/chat/completions?api-version='' @ apiVersion)"
| "TransformRequest cl p body endpoint = Inr (body, bp_baseURL (impl_base p) @ endpoint)"


section \<open>The factory\<close>

definition NewBaseProviderWithMapping ::
    "string \<Rightarrow> string \<Rightarrow> string \<Rightarrow> string list \<Rightarrow> (string \<rightharpoonup> string) \<Rightarrow> base_provider" where
  "NewBaseProviderWithMapping name baseURL owner models modelMapping =
     \<lparr>bp_modelMapping = modelMapping, bp_name = name, bp_baseURL = baseURL, bp_owner = owner, bp_models = models\<rparr>"

definition DefaultAnthropicModels :: "string list" where
  "DefaultAnthropicModels =
     [''claude-opus-4-6'', ''claude-sonnet-4-5-20250514'', ''claude-opus-4-5-20250514'', ''claude-haiku-3-5-20241022'']"

definition DefaultZAIModels :: "string list" where
  "DefaultZAIModels = [''GLM-5'', ''GLM-4.7'', ''GLM-4.5-Air'']"

definition DefaultMiniMaxModels :: "string list" where
  "DefaultMiniMaxModels =
     [''MiniMax-M2.5'', ''MiniMax-M2.5-highspeed'', ''MiniMax-M2.1'', ''MiniMax-M2.1-highspeed'', ''MiniMax-M2'']"

definition DefaultAzureModels :: "string list" where
  "DefaultAzureModels =
     [''claude-opus-4-6'', ''claude-sonnet-4-5-20250514'', ''claude-opus-4-5-20250514'', ''claude-haiku-3-5-20241022'']"

definition DefaultBedrockModels :: "string list" where
  "DefaultBedrockModels =
     [''anthropic.claude-opus-4-6-v1:0'', ''anthropic.claude-sonnet-4-5-20250514-v1:0'',
      ''anthropic.claude-opus-4-5-20250514-v1:0'', ''anthropic.claude-haiku-3-5-20241022-v1:0'']"

definition DefaultVertexModels :: "string list" where
  "DefaultVertexModels =
     [''claude-opus-4-6'', ''claude-sonnet-4-5@20250514'', ''claude-opus-4-5@20250514'', ''claude-haiku-3-5@20241022'']"

definition or_default :: "'a list \<Rightarrow> 'a list \<Rightarrow> 'a list" where
  "or_default xs d = (if xs = [] then d else xs)"

text \<open>The constructors that \<open>createProvider\<close> calls.\<close>

definition NewAnthropicProviderWithMapping ::
    "string \<Rightarrow> string \<Rightarrow> string list \<Rightarrow> (string \<rightharpoonup> string) \<Rightarrow> provider_impl" where
  "NewAnthropicProviderWithMapping name baseURL models modelMapping =
     AnthropicProvider (NewBaseProviderWithMapping name (or_default baseURL ''https://api.anthropic.com'') ''anthropic''
       (or_default models DefaultAnthropicModels) modelMapping)"

definition NewZAIProviderWithMapping ::
    "string \<Rightarrow> string \<Rightarrow> string list \<Rightarrow> (string \<rightharpoonup> string) \<Rightarrow> provider_impl" where
  "NewZAIProviderWithMapping name baseURL models modelMapping =
     ZAIProvider (NewBaseProviderWithMapping name (or_default baseURL ''https://api.z.ai/api/anthropic'') ''zhipu''
       (or_default models DefaultZAIModels) modelMapping)"

definition NewMiniMaxProviderWithMapping ::
    "string \<Rightarrow> string \<Rightarrow> string list \<Rightarrow> (string \<rightharpoonup> string) \<Rightarrow> provider_impl" where
  "NewMiniMaxProviderWithMapping name baseURL models modelMapping =
     MiniMaxProvider (NewBaseProviderWithMapping name (or_default baseURL ''https://api.minimax.io/anthropic'') ''minimax''
       (or_default models DefaultMiniMaxModels) modelMapping)"

definition NewOllamaProviderWithMapping ::
    "string \<Rightarrow> string \<Rightarrow> string list \<Rightarrow> (string \<rightharpoonup> string) \<Rightarrow> provider_impl" where
  "NewOllamaProviderWithMapping name baseURL models modelMapping =
     OllamaProvider (NewBaseProviderWithMapping name (or_default baseURL ''http://localhost:11434'') ''ollama'' models modelMapping)"

definition NewGenericProviderWithMapping ::
    "string \<Rightarrow> string \<Rightarrow> string list \<Rightarrow> (string \<rightharpoonup> string) \<Rightarrow> string \<Rightarrow> provider_impl" where
  "NewGenericProviderWithMapping name baseURL models modelMapping authMethod =
     GenericProvider (NewBaseProviderWithMapping name baseURL ''generic'' models modelMapping) authMethod"

definition NewOpenAIProviderWithMapping ::
    "string \<Rightarrow> string \<Rightarrow> string list \<Rightarrow> (string \<rightharpoonup> string) \<Rightarrow> provider_impl" where
  "NewOpenAIProviderWithMapping name baseURL models modelMapping =
     OpenAIProvider (NewBaseProviderWithMapping name baseURL ''openai'' models modelMapping)"

definition NewAzureProvider ::
    "string \<Rightarrow> string \<Rightarrow> string \<Rightarrow> string \<Rightarrow> string \<Rightarrow> string list \<Rightarrow> (string \<rightharpoonup> string) \<Rightarrow>
     go_error + provider_impl" where
  "NewAzureProvider name resourceName deploymentID apiVersion authMethod models modelMapping =
     (if resourceName = '''' then Inl (OtherError ''azure: resource_name is required'')
      else Inr (AzureProvider
        (NewBaseProviderWithMapping name (''https://'' @ resourceName @ ''.services.ai.azure.com'') ''azure''
          (or_default models DefaultAzureModels) modelMapping)
        resourceName deploymentID (or_default apiVersion ''2024-06-01'') (or_default authMethod ''api_key'')))"

text \<open>
  The two that look for credentials when they are built; \<open>aws_config\<close> and \<open>google_creds\<close> are the results of
  \<open>LoadDefaultConfig\<close> and \<open>FindDefaultCredentials\<close>, an error or \<^term>\<open>None\<close>.
\<close>

definition NewBedrockProvider ::
    "go_error option \<Rightarrow> string \<Rightarrow> string \<Rightarrow> string list \<Rightarrow> (string \<rightharpoonup> string) \<Rightarrow> go_error + provider_impl" where
  "NewBedrockProvider aws_config name region models modelMapping =
     (if region = '''' then Inl (OtherError ''bedrock: region is required'')
      else case aws_config of
             Some e \<Rightarrow> Inl (Wrapped ''bedrock: failed to load AWS config'' e)
           | None \<Rightarrow> Inr (BedrockProvider
               (NewBaseProviderWithMapping name (''https://bedrock-runtime.'' @ region @ ''.amazonaws.com'') ''aws''
                 (or_default models DefaultBedrockModels) modelMapping) region))"

definition NewVertexProvider ::
    "go_error option \<Rightarrow> string \<Rightarrow> string \<Rightarrow> string \<Rightarrow> string list \<Rightarrow> (string \<rightharpoonup> string) \<Rightarrow>
     go_error + provider_impl" where
  "NewVertexProvider google_creds name projectID region models modelMapping =
     (if projectID = '''' then Inl (OtherError ''vertex: project_id is required'')
      else if region = '''' then Inl (OtherError ''vertex: region is required'')
      else case google_creds of
             Some e \<Rightarrow> Inl (Wrapped ''vertex: failed to find credentials'' e)
           | None \<Rightarrow> Inr (VertexProvider
               (NewBaseProviderWithMapping name (''https://'' @ region @ ''-aiplatform.googleapis.com'') ''google''
                 (or_default models DefaultVertexModels) modelMapping) projectID region))"

definition createCloudProvider ::
    "go_error option \<Rightarrow> go_error option \<Rightarrow> provider_config \<Rightarrow> go_error + provider_impl" where
  "createCloudProvider aws_config google_creds c =
     (case ValidateCloudConfig c of
        Some e \<Rightarrow> Inl (Wrapped (pv_Type c @ '' provider '' @ pv_Name c) (OtherError e))
      | None \<Rightarrow>
          if pv_Type c = ''bedrock''
          then NewBedrockProvider aws_config (pv_Name c) (pv_AWSRegion c) (pv_Models c) (pv_ModelMapping c)
          else if pv_Type c = ''vertex''
          then NewVertexProvider google_creds (pv_Name c) (pv_GCPProjectID c) (pv_GCPRegion c) (pv_Models c)
            (pv_ModelMapping c)
          else if pv_Type c = ''azure''
          then NewAzureProvider (pv_Name c) (pv_AzureResourceName c) (pv_AzureDeploymentID c) (GetAzureAPIVersion c) ''''
            (pv_Models c) (pv_ModelMapping c)
          else Inl (Sentinel ''unknown provider type''))"

definition createProvider ::
    "go_error option \<Rightarrow> go_error option \<Rightarrow> provider_config \<Rightarrow> go_error + provider_impl" where
  "createProvider aws_config google_creds c =
     (let name = pv_Name c; url = pv_BaseURL c; models = pv_Models c; mapping = pv_ModelMapping c
      in if pv_Type c = ''anthropic'' then Inr (NewAnthropicProviderWithMapping name url models mapping)
         else if pv_Type c = ''zai'' then Inr (NewZAIProviderWithMapping name url models mapping)
         else if pv_Type c = ''minimax'' then Inr (NewMiniMaxProviderWithMapping name url models mapping)
         else if pv_Type c = ''ollama'' then Inr (NewOllamaProviderWithMapping name url models mapping)
         else if pv_Type c = ''generic'' then Inr (NewGenericProviderWithMapping name url models mapping (pv_AuthMethod c))
         else if pv_Type c = ''openai'' then Inr (NewOpenAIProviderWithMapping name url models mapping)
         else if pv_Type c \<in> {''bedrock'', ''vertex'', ''azure''} then createCloudProvider aws_config google_creds c
         else Inl (Sentinel ''unknown provider type''))"

lemmas new_provider_defs =
  NewAnthropicProviderWithMapping_def NewZAIProviderWithMapping_def NewMiniMaxProviderWithMapping_def
  NewOllamaProviderWithMapping_def NewGenericProviderWithMapping_def NewOpenAIProviderWithMapping_def NewAzureProvider_def
  NewBedrockProvider_def NewVertexProvider_def NewBaseProviderWithMapping_def or_default_def


section \<open>The map of providers\<close>

text \<open>\<open>rebuildProviderMap\<close> of \<open>internal/di/provider_map_service.go\<close>: a provider that cannot be built is left out.\<close>

record provider_map_result =
  pr_ProviderMap :: "string \<rightharpoonup> provider_impl"
  pr_AllProviders :: "provider_impl list"
  pr_PrimaryProvider :: "provider_impl option"
  pr_PrimaryKey :: string

definition primary_key_of :: "config_key list \<Rightarrow> string \<Rightarrow> string" where
  "primary_key_of ks dflt = (case filter Key_IsEnabled ks of [] \<Rightarrow> dflt | k # _ \<Rightarrow> ck_Key k)"

fun provider_map_loop ::
    "go_error option \<Rightarrow> go_error option \<Rightarrow> provider_config list \<Rightarrow> provider_map_result \<Rightarrow> provider_map_result" where
  "provider_map_loop aws_config google_creds [] r = r"
| "provider_map_loop aws_config google_creds (c # cs) r =
     (if \<not> pv_Enabled c then provider_map_loop aws_config google_creds cs r
      else case createProvider aws_config google_creds c of
             Inl e \<Rightarrow> provider_map_loop aws_config google_creds cs r
           | Inr prov \<Rightarrow>
               (let r = r\<lparr>pr_ProviderMap := (pr_ProviderMap r)(pv_Name c \<mapsto> prov),
                          pr_AllProviders := pr_AllProviders r @ [prov]\<rparr>;
                    r = (if pr_PrimaryProvider r = None
                         then r\<lparr>pr_PrimaryProvider := Some prov,
                                pr_PrimaryKey := primary_key_of (pv_Keys c) (pr_PrimaryKey r)\<rparr>
                         else r)
                in provider_map_loop aws_config google_creds cs r))"

definition rebuildProviderMap ::
    "go_error option \<Rightarrow> go_error option \<Rightarrow> provider_config list \<Rightarrow> provider_map_result" where
  "rebuildProviderMap aws_config google_creds cs =
     provider_map_loop aws_config google_creds cs
       \<lparr>pr_ProviderMap = Map.empty, pr_AllProviders = [], pr_PrimaryProvider = None, pr_PrimaryKey = ''''\<rparr>"

text \<open>A reload that leaves no provider keeps the current ones; at the start it is an error.\<close>

definition providers_RebuildFrom ::
    "go_error option \<Rightarrow> go_error option \<Rightarrow> config \<Rightarrow> provider_map_result \<Rightarrow> provider_map_result" where
  "providers_RebuildFrom aws_config google_creds cfg s =
     (let r = rebuildProviderMap aws_config google_creds (cf_Providers cfg)
      in if pr_PrimaryProvider r = None then s else r)"

definition NewProviderMap :: "go_error option \<Rightarrow> go_error option \<Rightarrow> config \<Rightarrow> go_error + provider_map_result" where
  "NewProviderMap aws_config google_creds cfg =
     (let r = rebuildProviderMap aws_config google_creds (cf_Providers cfg)
      in if pr_PrimaryProvider r = None then Inl (OtherError ''no enabled provider found'') else Inr r)"

section \<open>Facts\<close>

lemma PathEscape_append: "PathEscape (s @ t) = PathEscape s @ PathEscape t"
  by (induction s) simp_all

lemma createProvider_name: "createProvider a g c = Inr p \<Longrightarrow> bp_name (impl_base p) = pv_Name c"
  by (auto simp: createProvider_def createCloudProvider_def new_provider_defs Let_def split: if_splits option.splits)

lemma createProvider_plain:
  assumes "pv_Type c \<in> {''anthropic'', ''zai'', ''minimax'', ''ollama'', ''generic'', ''openai''}"
  shows "\<exists>p. createProvider a g c = Inr p"
  using assms by (auto simp: createProvider_def Let_def)

lemma createProvider_cloud:
  assumes "pv_Type c \<in> {''bedrock'', ''vertex'', ''azure''}" and "ValidateCloudConfig c = None"
    and "a = None" and "g = None"
  shows "\<exists>p. createProvider a g c = Inr p"
  using assms
  by (auto simp: createProvider_def createCloudProvider_def ValidateCloudConfig_def new_provider_defs Let_def split: if_splits)

text \<open>What an enabled entry contributes.\<close>

definition built_provider :: "go_error option \<Rightarrow> go_error option \<Rightarrow> provider_config \<Rightarrow> provider_impl option" where
  "built_provider a g c =
     (if pv_Enabled c then (case createProvider a g c of Inr p \<Rightarrow> Some p | Inl _ \<Rightarrow> None) else None)"

definition built_entries ::
    "go_error option \<Rightarrow> go_error option \<Rightarrow> provider_config list \<Rightarrow> (provider_config \<times> provider_impl) list" where
  "built_entries a g cs = map (\<lambda>c. (c, the (built_provider a g c))) (filter (\<lambda>c. built_provider a g c \<noteq> None) cs)"

lemma built_entries_simps [simp]:
  "built_entries a g [] = []"
  "built_entries a g (c # cs) = (case built_provider a g c of None \<Rightarrow> [] | Some p \<Rightarrow> [(c, p)]) @ built_entries a g cs"
  by (auto simp: built_entries_def split: option.split)

lemma provider_map_loop_spec:
  "provider_map_loop a g cs r =
     (let es = built_entries a g cs
      in \<lparr>pr_ProviderMap = pr_ProviderMap r ++ map_of (rev (map (\<lambda>(c, p). (pv_Name c, p)) es)),
          pr_AllProviders = pr_AllProviders r @ map snd es,
          pr_PrimaryProvider = (case pr_PrimaryProvider r of Some p \<Rightarrow> Some p
            | None \<Rightarrow> (case es of [] \<Rightarrow> None | (c, p) # _ \<Rightarrow> Some p)),
          pr_PrimaryKey = (case pr_PrimaryProvider r of Some p \<Rightarrow> pr_PrimaryKey r
            | None \<Rightarrow> (case es of [] \<Rightarrow> pr_PrimaryKey r | (c, p) # _ \<Rightarrow> primary_key_of (pv_Keys c) (pr_PrimaryKey r)))\<rparr>)"
proof (induction cs arbitrary: r)
  case Nil
  show ?case by (cases r) (simp split: option.split)
next
  case (Cons c cs)
  show ?case
  proof (cases "built_provider a g c")
    case None
    then have "provider_map_loop a g (c # cs) r = provider_map_loop a g cs r"
      by (auto simp: built_provider_def split: if_splits sum.splits)
    then show ?thesis using Cons None by simp
  next
    case (Some p)
    then have "pv_Enabled c" "createProvider a g c = Inr p"
      by (auto simp: built_provider_def split: if_splits sum.splits)
    then show ?thesis
      using Cons Some by (cases "pr_PrimaryProvider r") (simp_all add: Let_def map_add_upd_left map_add_assoc split: option.split)
  qed
qed


lemma hex_char_inj: "hex_char m = hex_char n \<Longrightarrow> m < 16 \<Longrightarrow> n < 16 \<Longrightarrow> m = n"
proof -
  assume eq: "hex_char m = hex_char n" and b: "m < 16" "n < 16"
  have "distinct ''0123456789ABCDEF''" "length ''0123456789ABCDEF'' = 16" by simp_all
  then show "m = n" using eq b unfolding hex_char_def by (metis nth_eq_iff_index_eq)
qed

lemma char_of_hex: "(of_char c :: nat) = 16 * (of_char c div 16) + of_char c mod 16" "(of_char c :: nat) div 16 < 16"
  using less_mult_imp_div_less [of "of_char c" 16 16] by simp_all

lemma percent_not_segment [simp]: "\<not> segment_char (CHR ''%'')"
  by (simp add: segment_char_def is_upper_def is_lower_def is_digit_def)

lemma PathEscape_inj: "PathEscape s = PathEscape t \<Longrightarrow> s = t"
proof (induction s arbitrary: t)
  case Nil
  then show ?case by (cases t) (auto split: if_splits)
next
  case (Cons c cs)
  obtain d ds where t: "t = d # ds" using Cons.prems by (cases t) (auto split: if_splits)
  have "c = d \<and> PathEscape cs = PathEscape ds"
  proof (cases "segment_char c")
    case True
    then show ?thesis using Cons.prems t by (auto split: if_splits)
  next
    case False
    then have d: "\<not> segment_char d" using Cons.prems t by (auto split: if_splits)
    have "(of_char c :: nat) div 16 = of_char d div 16" "(of_char c :: nat) mod 16 = of_char d mod 16"
      using Cons.prems t False d char_of_hex(2) [of c] char_of_hex(2) [of d] by (auto dest: hex_char_inj)
    then have "(of_char c :: nat) = of_char d" using char_of_hex(1) [of c] char_of_hex(1) [of d] by simp
    then show ?thesis using Cons.prems t False d by simp
  qed
  then show ?case using Cons.IH t by simp
qed

lemma hex_char_segment: "n < 16 \<Longrightarrow> segment_char (hex_char n)"
proof -
  assume "n < 16"
  then have "hex_char n \<in> set ''0123456789ABCDEF''" unfolding hex_char_def by (intro nth_mem) simp
  then show ?thesis by (auto simp: segment_char_def is_upper_def is_lower_def is_digit_def)
qed

lemma PathEscape_chars: "c \<in> set (PathEscape s) \<Longrightarrow> segment_char c \<or> c = CHR ''%''"
  using char_of_hex(2)
  by (induction s) (auto split: if_splits intro: hex_char_segment)

section \<open>Properties\<close>

text \<open>
  The model name cannot leave its place in the URL of a Bedrock request. Whatever a client sends as the model, what
  stands between the two fixed parts has no slash, question mark or fragment, and two mapped models
  that differ go to two URLs that differ.
\<close>

lemma Bedrock_url_safe:
  assumes "Bedrock_TransformRequest cl b body = Inr (newBody, url)"
    and "Bedrock_TransformRequest cl b body' = Inr (newBody', url')"
  shows "\<exists>seg. url = bp_baseURL b @ ''/model/'' @ seg @ ''/invoke-with-response-stream'' \<and>
      set seg \<inter> set ''/?#'' = {} \<and>
      (url = url' \<longleftrightarrow> MapModel b (cl_get_string cl body ''model'') = MapModel b (cl_get_string cl body' ''model''))"
proof -
  have u: "url = bp_baseURL b @ ''/model/'' @ PathEscape (MapModel b (cl_get_string cl body ''model'')) @ ''/invoke-with-response-stream''"
    "url' = bp_baseURL b @ ''/model/'' @ PathEscape (MapModel b (cl_get_string cl body' ''model'')) @ ''/invoke-with-response-stream''"
    using assms by (auto simp: Bedrock_TransformRequest_def TransformBodyForCloudProvider_def Let_def split: sum.splits)
  have "set (PathEscape s) \<inter> set ''/?#'' = {}" for s
    by (auto dest: PathEscape_chars simp: segment_char_def is_upper_def is_lower_def is_digit_def)
  then show ?thesis using u PathEscape_inj by auto
qed

text \<open>
  The map of providers holds what the configuration says and nothing else: every entry was built from an enabled
  entry of its name, an entry that cannot be built (unknown type, missing cloud settings) leaves the others as they
  are, and the primary provider is the first one built, with the first enabled key of its entry.
\<close>

lemma rebuildProviderMap_spec:
  assumes "distinct (map pv_Name (filter pv_Enabled cs))" and "rebuildProviderMap a g cs = r"
  shows "(\<forall>c \<in> set cs. pv_Enabled c \<longrightarrow>
      pr_ProviderMap r (pv_Name c) = (case createProvider a g c of Inr p \<Rightarrow> Some p | Inl _ \<Rightarrow> None)) \<and>
    (\<forall>n p. pr_ProviderMap r n = Some p \<longrightarrow> bp_name (impl_base p) = n \<and>
      (\<exists>c \<in> set cs. pv_Enabled c \<and> pv_Name c = n \<and> createProvider a g c = Inr p)) \<and>
    pr_PrimaryProvider r = (case pr_AllProviders r of [] \<Rightarrow> None | p # _ \<Rightarrow> Some p)"
proof -
  let ?es = "built_entries a g cs"
  let ?m = "map (\<lambda>(c, p). (pv_Name c, p)) ?es"
  have mem: "(c, p) \<in> set ?es \<longleftrightarrow> c \<in> set cs \<and> pv_Enabled c \<and> createProvider a g c = Inr p" for c p
    by (auto simp: built_entries_def built_provider_def split: if_splits sum.splits)
  have "distinct (map fst ?m)"
  proof -
    have "map fst ?m = map pv_Name (filter (\<lambda>c. built_provider a g c \<noteq> None) (filter pv_Enabled cs))"
      by (auto simp: built_entries_def built_provider_def comp_def intro!: arg_cong [of _ _ "map pv_Name"] filter_cong)
    then show ?thesis using assms(1) by (simp only: distinct_map_filter)
  qed
  then have m: "map_of (rev ?m) n = Some p \<longleftrightarrow> (\<exists>c. (c, p) \<in> set ?es \<and> pv_Name c = n)" for n p
    by (auto simp: rev_map [symmetric] map_of_eq_Some_iff simp flip: rev_map)
  have r: "pr_ProviderMap r = map_of (rev ?m)" "pr_AllProviders r = map snd ?es"
    "pr_PrimaryProvider r = (case ?es of [] \<Rightarrow> None | (c, p) # _ \<Rightarrow> Some p)"
    using assms(2) by (auto simp: rebuildProviderMap_def provider_map_loop_spec Let_def split: list.splits)
  have uniq: "c = c'" if "c \<in> set cs" "c' \<in> set cs" "pv_Enabled c" "pv_Enabled c'" "pv_Name c = pv_Name c'" for c c'
    using assms(1) that by (auto simp: distinct_map inj_on_def)
  have "pr_ProviderMap r (pv_Name c) = (case createProvider a g c of Inr p \<Rightarrow> Some p | Inl _ \<Rightarrow> None)"
    if c: "c \<in> set cs" "pv_Enabled c" for c
  proof (cases "createProvider a g c")
    case (Inr p)
    then show ?thesis using c m mem r(1) by auto
  next
    case (Inl e)
    have "map_of (rev ?m) (pv_Name c) \<noteq> Some p" for p
      using uniq [OF c(1) _ c(2)] Inl unfolding m mem by fastforce
    then show ?thesis using Inl r(1) by (cases "map_of (rev ?m) (pv_Name c)") auto
  qed
  moreover have "bp_name (impl_base p) = n \<and> (\<exists>c \<in> set cs. pv_Enabled c \<and> pv_Name c = n \<and> createProvider a g c = Inr p)"
    if "pr_ProviderMap r n = Some p" for n p
    using that unfolding r(1) m mem by (auto dest: createProvider_name)
  moreover have "pr_PrimaryProvider r = (case pr_AllProviders r of [] \<Rightarrow> None | p # _ \<Rightarrow> Some p)"
    using r(2,3) by (auto split: list.splits)
  ultimately show ?thesis by blast
qed


section \<open>Witnesses\<close>

text \<open>A body that is just the model's name.\<close>

definition demo_cloud :: "string cloud" where
  "demo_cloud =
     \<lparr>cl_credentials = Some (Inr ''AKIA''), cl_sign = (\<lambda>c region h body. Inr (header_set h ''Authorization'' (''AWS4 '' @ c))),
      cl_token = Some (Inr ''ya29''), cl_get_string = (\<lambda>body path. body), cl_get_bool = (\<lambda>_ _. None),
      cl_delete = (\<lambda>_ _. Inr ''{}''), cl_set = (\<lambda>body path v. Inr (body @ v))\<rparr>"

definition demo_base :: base_provider where
  "demo_base = NewBaseProviderWithMapping ''b'' ''https://h'' ''aws'' [] [''m'' \<mapsto> ''a/b?'']"

lemma Bedrock_url_safe_witness:
  "\<exists>newBody url. Bedrock_TransformRequest demo_cloud demo_base ''m'' = Inr (newBody, url) \<and>
     url = ''https://h/model/a%2Fb%3F/invoke-with-response-stream'' \<and>
     (\<exists>seg. url = ''https://h'' @ ''/model/'' @ seg @ ''/invoke-with-response-stream'' \<and> set seg \<inter> set ''/?#'' = {})"
proof -
  have run: "Bedrock_TransformRequest demo_cloud demo_base ''m'' =
      Inr (''{}bedrock-2023-05-31'', ''https://h/model/a%2Fb%3F/invoke-with-response-stream'')"
    by (simp add: Bedrock_TransformRequest_def TransformBodyForCloudProvider_def demo_cloud_def demo_base_def MapModel_def
        NewBaseProviderWithMapping_def segment_char_def is_upper_def is_lower_def is_digit_def hex_char_def)
  from Bedrock_url_safe [OF run run] run show ?thesis by (simp add: demo_base_def NewBaseProviderWithMapping_def)
qed

definition demo_entry :: "string \<Rightarrow> string \<Rightarrow> provider_config" where
  "demo_entry name ty =
     \<lparr>pv_ModelMapping = Map.empty, pv_AWSRegion = '''', pv_GCPProjectID = '''', pv_AzureAPIVersion = '''', pv_Name = name,
      pv_Type = ty, pv_BaseURL = '''', pv_ResponsesURL = '''', pv_AzureDeploymentID = '''', pv_AWSAccessKeyID = '''',
      pv_AzureResourceName = '''', pv_AWSSecretAccessKey = '''', pv_GCPRegion = '''', pv_Keys = [], pv_Models = [],
      pv_Pooling = \<lparr>po_Strategy = '''', po_Enabled = False\<rparr>, pv_Enabled = True, pv_Zhipu = False, pv_AuthMethod = '''',
      pv_CooldownStrategy = '''', pv_Priority = 0, pv_Weight = 0\<rparr>"

lemma rebuildProviderMap_spec_witness:
  "pr_ProviderMap (rebuildProviderMap None None [demo_entry ''x'' ''nope'', demo_entry ''a'' ''ollama'', demo_entry ''b'' ''bedrock'']) ''a'' =
     Some (NewOllamaProviderWithMapping ''a'' '''' [] Map.empty) \<and>
   pr_ProviderMap (rebuildProviderMap None None [demo_entry ''x'' ''nope'', demo_entry ''a'' ''ollama'', demo_entry ''b'' ''bedrock'']) ''b'' = None"
  using rebuildProviderMap_spec [OF _ refl,
      of "[demo_entry ''x'' ''nope'', demo_entry ''a'' ''ollama'', demo_entry ''b'' ''bedrock'']" None None]
  by (simp add: demo_entry_def createProvider_def createCloudProvider_def ValidateCloudConfig_def Let_def)

end
