(* ===== verification/Proxy_Auth.thy ===== *)
theory Proxy_Auth
  imports Providers Error_Responses Key_Pool_Facts
begin

text \<open>
  Credentials on their way to a provider: the selection of a key before a request without retry
  (\<open>handleAuthAndKeySelection\<close> and \<open>selectKeyFromPool\<close> in \<open>internal/proxy/handler.go\<close>) and the rewriting of
  the outgoing request by its reverse proxy (\<open>internal/proxy/provider_proxy.go\<close>).
\<close>

section \<open>The outgoing request\<close>

text \<open>
  The incoming request with its headers, body (a read error is \<^term>\<open>Inl\<close>), path and connection, and the URL for the
  responses API that its context may hold.
\<close>

record in_request =
  iq_Header :: header
  iq_Body :: "(go_error + string) option"
  iq_Path :: string
  iq_Host :: string
  iq_ClientIP :: "string option"
  iq_TLS :: bool
  iq_responsesURL :: "string option"

text \<open>\<open>SetURL\<close> joins the path of the request to the target; other targets are complete.\<close>

datatype out_url = JoinURL string string | FullURL string

record out_request =
  oq_Header :: header
  oq_Body :: "(go_error + string) option"
  oq_URL :: out_url

definition client_auth :: "header \<Rightarrow> bool" where
  "client_auth h \<longleftrightarrow> header_get h ''Authorization'' \<noteq> '''' \<or> header_get h ''x-api-key'' \<noteq> ''''"

definition transparent :: "provider_impl \<Rightarrow> header \<Rightarrow> bool" where
  "transparent p h \<longleftrightarrow> client_auth h \<and> SupportsTransparentAuth p"

text \<open>Setting every header of \<open>new\<close>; the proxy's headers never have empty value lists.\<close>

definition header_override :: "header \<Rightarrow> header \<Rightarrow> header" where
  "header_override new h = (\<lambda>k. if new k = [] then h k else new k)"

text \<open>
  \<open>body\<close> is the outgoing body, which a signer reads. An error of \<open>Authenticate\<close> is logged, no more.
\<close>

definition setAuth ::
    "'c cloud \<Rightarrow> provider_impl \<Rightarrow> string \<Rightarrow> header \<Rightarrow> string option \<Rightarrow> header \<Rightarrow> header" where
  "setAuth cl p apiKey inH body out =
     (let out = header_del out ''X-Selected-Key''
      in if transparent p inH
         then header_set (header_override (\<lambda>k. if anthropic_header k then inH k else []) out) ''Content-Type'' ''application/json''
         else let out = header_del (header_del out ''Authorization'') ''x-api-key'';
                  selectedKey = header_get inH ''X-Selected-Key'';
                  selectedKey = (if selectedKey = '''' then apiKey else selectedKey);
                  out = (if selectedKey \<noteq> '''' then snd (Authenticate cl p selectedKey body out) else out)
              in header_override (ForwardHeaders p inH) out)"

text \<open>\<open>SetXForwarded\<close> of the standard library.\<close>

definition SetXForwarded :: "in_request \<Rightarrow> header \<Rightarrow> header" where
  "SetXForwarded inq out =
     (let out = (case iq_ClientIP inq of
            Some ip \<Rightarrow> header_set out ''X-Forwarded-For''
              (case out (canonical_key ''X-Forwarded-For'') of [] \<Rightarrow> ip
               | prior \<Rightarrow> foldr (\<lambda>a b. a @ '', '' @ b) prior ip)
          | None \<Rightarrow> header_del out ''X-Forwarded-For'');
          out = header_set out ''X-Forwarded-Host'' (iq_Host inq)
      in header_set out ''X-Forwarded-Proto'' (if iq_TLS inq then ''https'' else ''http''))"

definition finish :: "'c cloud \<Rightarrow> provider_impl \<Rightarrow> string \<Rightarrow> in_request \<Rightarrow> out_request \<Rightarrow> out_request" where
  "finish cl p apiKey inq out =
     out\<lparr>oq_Header := setAuth cl p apiKey (iq_Header inq) (case oq_Body out of Some (Inr b) \<Rightarrow> Some b | _ \<Rightarrow> None)
       (SetXForwarded inq (oq_Header out))\<rparr>"

text \<open>
  For the cloud providers; \<open>parse_url\<close> is whether \<open>url.Parse\<close> accepts a text. Without a body the transformation gets
  the empty one.
\<close>

definition rewriteWithTransform ::
    "'c cloud \<Rightarrow> (string \<Rightarrow> bool) \<Rightarrow> provider_impl \<Rightarrow> string \<Rightarrow> in_request \<Rightarrow> out_request \<Rightarrow> out_request" where
  "rewriteWithTransform cl parse_url p apiKey inq out =
     (let static = JoinURL (bp_baseURL (impl_base p)) (iq_Path inq)
      in case iq_Body inq of
           Some (Inl e) \<Rightarrow> finish cl p apiKey inq (out\<lparr>oq_URL := static\<rparr>)
         | b \<Rightarrow>
             (let originalBody = (case b of Some (Inr s) \<Rightarrow> s | _ \<Rightarrow> '''')
              in case TransformRequest cl p originalBody (iq_Path inq) of
                   Inl e \<Rightarrow> finish cl p apiKey inq (out\<lparr>oq_Body := Some (Inr originalBody), oq_URL := static\<rparr>)
                 | Inr (newBody, targetURL) \<Rightarrow>
                     if parse_url targetURL
                     then finish cl p apiKey inq (out\<lparr>oq_Body := Some (Inr newBody), oq_URL := FullURL targetURL\<rparr>)
                     else finish cl p apiKey inq (out\<lparr>oq_Body := Some (Inr originalBody), oq_URL := static\<rparr>)))"

definition rewrite ::
    "'c cloud \<Rightarrow> (string \<Rightarrow> bool) \<Rightarrow> provider_impl \<Rightarrow> string \<Rightarrow> in_request \<Rightarrow> out_request \<Rightarrow> out_request" where
  "rewrite cl parse_url p apiKey inq out =
     (if RequiresBodyTransform p then rewriteWithTransform cl parse_url p apiKey inq out
      else case iq_responsesURL inq of
             Some u \<Rightarrow> finish cl p apiKey inq (out\<lparr>oq_URL := FullURL u\<rparr>)
           | None \<Rightarrow> finish cl p apiKey inq (out\<lparr>oq_URL := JoinURL (bp_baseURL (impl_base p)) (iq_Path inq)\<rparr>))"

section \<open>Selecting a key\<close>

text \<open>The key identifier for the response hook, the key, the headers for the client; or the answer, or a panic.\<close>

datatype key_choice = KeyChosen string string header | KeyRefused response | KeyPanic

definition selectKeyFromPool ::
    "('l, 'r, 'c) rate_lib \<Rightarrow> (rat \<Rightarrow> rat) \<Rightarrow> lo_pool \<Rightarrow> (nat \<Rightarrow> sel_env) \<Rightarrow> go_time \<Rightarrow> (key_err \<Rightarrow> string) \<Rightarrow> header \<Rightarrow>
     ('l, selector) key_pool \<Rightarrow> key_choice \<times> ('l, selector) key_pool" where
  "selectKeyFromPool RL fl L envs now show_err writer pool =
     (case GetKey RL envs pool of
        (Inl PanicNilLimiter, pool) \<Rightarrow> (KeyPanic, pool)
      | (Inl ErrAllKeysExhausted, pool) \<Rightarrow>
          (KeyRefused (WriteRateLimitError fl writer (GetEarliestResetTime L now pool)), pool)
      | (Inl err, pool) \<Rightarrow>
          (KeyRefused (WriteError writer 500 ''internal_error'' (''failed to select API key: '' @ show_err err)), pool)
      | (Inr (keyID, selectedKey), pool) \<Rightarrow>
          (let stats = GetStats L now pool;
               writer = header_set writer ''X-CC-Relay-Key-ID'' keyID;
               writer = header_set writer ''X-CC-Relay-Keys-Total'' (itoa (st_TotalKeys stats));
               writer = header_set writer ''X-CC-Relay-Keys-Available'' (itoa (st_AvailableKeys stats))
           in (KeyChosen keyID selectedKey writer, pool)))"

text \<open>
  The request's headers, with the selected key on them, and the key identifier in its context; the transparent mode
  leaves all of it alone.
\<close>

datatype auth_choice = Proceed header "string option" header | Answered response | AuthPanic

definition handleAuthAndKeySelection ::
    "('l, 'r, 'c) rate_lib \<Rightarrow> (rat \<Rightarrow> rat) \<Rightarrow> lo_pool \<Rightarrow> (nat \<Rightarrow> sel_env) \<Rightarrow> go_time \<Rightarrow> (key_err \<Rightarrow> string) \<Rightarrow> header \<Rightarrow>
     provider_impl \<Rightarrow> string \<Rightarrow> header \<Rightarrow> ('l, selector) key_pool option \<Rightarrow>
     auth_choice \<times> ('l, selector) key_pool option" where
  "handleAuthAndKeySelection RL fl L envs now show_err writer p apiKey inH pool =
     (if transparent p inH then (Proceed inH None writer, pool)
      else case pool of
             None \<Rightarrow> (Proceed (header_set inH ''X-Selected-Key'' apiKey) None writer, None)
           | Some q \<Rightarrow>
               (case selectKeyFromPool RL fl L envs now show_err writer q of
                  (KeyChosen keyID key writer, q) \<Rightarrow>
                    (Proceed (header_set inH ''X-Selected-Key'' key) (Some keyID) writer, Some q)
                | (KeyRefused resp, q) \<Rightarrow> (Answered resp, Some q)
                | (KeyPanic, q) \<Rightarrow> (AuthPanic, Some q)))"


section \<open>Facts about headers\<close>

lemma canonical_auth:
  "canonical_key ''Authorization'' = ''Authorization''" "canonical_key ''x-api-key'' = ''X-Api-Key''"
  "canonical_key ''X-Selected-Key'' = ''X-Selected-Key''" "canonical_key ''Anthropic-Version'' = ''Anthropic-Version''"
  by code_simp+

lemmas header_simps = header_set_def header_del_def header_override_def canonical_auth canonical_literals

lemma anthropic_header_literals [simp]:
  "\<not> anthropic_header ''Authorization''" "\<not> anthropic_header ''X-Api-Key''" "\<not> anthropic_header ''X-Selected-Key''"
  by (simp_all add: anthropic_header_def)

text \<open>What a provider adds to the headers are the client's \<open>Anthropic-*\<close> headers, a version and a content type.\<close>

lemma ForwardHeaders_other:
  "\<not> anthropic_header k \<Longrightarrow> k \<noteq> ''Content-Type'' \<Longrightarrow> ForwardHeaders p h k = []"
  by (cases p) (auto simp: Base_ForwardHeaders_def Azure_ForwardHeaders_def header_simps Let_def anthropic_header_def)

lemma ForwardHeaders_literals [simp]:
  "ForwardHeaders p h ''Authorization'' = []" "ForwardHeaders p h ''X-Api-Key'' = []" "ForwardHeaders p h ''X-Selected-Key'' = []"
  by (simp_all add: ForwardHeaders_other)

text \<open>The key that is used, and the header it goes into.\<close>

definition used_key :: "header \<Rightarrow> string \<Rightarrow> string" where
  "used_key inH apiKey = (if header_get inH ''X-Selected-Key'' = '''' then apiKey else header_get inH ''X-Selected-Key'')"

fun by_bearer :: "provider_impl \<Rightarrow> bool" where
  "by_bearer (MiniMaxProvider b) = True"
| "by_bearer (OpenAIProvider b) = True"
| "by_bearer (GenericProvider b authMethod) = (authMethod = ''bearer'')"
| "by_bearer (AzureProvider b r d v authMethod) = (authMethod = ''entra_id'')"
| "by_bearer p = False"

fun cloud_provider :: "provider_impl \<Rightarrow> bool" where
  "cloud_provider (BedrockProvider b r) = True"
| "cloud_provider (VertexProvider b i r) = True"
| "cloud_provider p = False"

lemma Authenticate_keyed:
  assumes "\<not> cloud_provider p"
  shows "Authenticate cl p key body h =
    (if by_bearer p then bearer_auth key h else api_key_auth key h)"
  using assms by (cases p) simp_all

lemma setAuth_keyed:
  assumes "\<not> cloud_provider p"
  shows "setAuth cl p apiKey inH body out ''X-Selected-Key'' = []"
    and "\<not> transparent p inH \<Longrightarrow> setAuth cl p apiKey inH body out ''Authorization'' =
         (if by_bearer p \<and> used_key inH apiKey \<noteq> '''' then [''Bearer '' @ used_key inH apiKey] else [])"
    and "\<not> transparent p inH \<Longrightarrow> setAuth cl p apiKey inH body out ''X-Api-Key'' =
         (if \<not> by_bearer p \<and> used_key inH apiKey \<noteq> '''' then [used_key inH apiKey] else [])"
  unfolding setAuth_def Let_def Authenticate_keyed [OF assms]
  by (simp_all add: header_simps bearer_auth_def api_key_auth_def flip: used_key_def)

section \<open>Properties\<close>


text \<open>
  A cloud provider without a configured key is never authenticated. Its credentials do not come from a
  key (AWS credentials, a Google token), and the example configuration gives none; but the request is only
  authenticated when there is a key, so it goes out without credentials, and these are not even asked for.
\<close>

lemma keyless_cloud_unauthenticated:
  assumes "cloud_provider p" and "apiKey = ''''" and "header_get inH ''X-Selected-Key'' = ''''"
  shows "setAuth cl p apiKey inH body out = setAuth cl' p apiKey inH body out \<and>
    setAuth cl p apiKey inH body out ''Authorization'' = []"
proof -
  have "\<not> transparent p inH" using assms(1) by (cases p) (simp_all add: transparent_def)
  then show ?thesis using assms(2,3) by (simp add: setAuth_def Let_def header_simps)
qed

text \<open>
  The version header of the client reaches the cloud providers. \<open>ForwardHeaders\<close> removes it, because the
  version goes in the body there, but from a copy: the outgoing request, which starts as a clone of the incoming
  one, keeps it.
\<close>

lemma cloud_keeps_version_header:
  assumes "p = VertexProvider b projectID region" and "out ''Anthropic-Version'' = [v]"
  shows "ForwardHeaders p inH ''Anthropic-Version'' = [] \<and>
    setAuth cl p apiKey inH body out ''Anthropic-Version'' = [v]"
proof -
  have v: "snd (Vertex_Authenticate cl h) ''Anthropic-Version'' = h ''Anthropic-Version''" for h
    by (simp add: Vertex_Authenticate_def header_simps split: option.split sum.split)
  have fw: "ForwardHeaders p inH ''Anthropic-Version'' = []" using assms(1) by (simp add: header_simps)
  have "\<not> transparent p inH" using assms(1) by (simp add: transparent_def)
  then show ?thesis using assms v fw by (simp add: setAuth_def Let_def header_override_def) (simp add: header_simps)
qed

text \<open>The credentials of a transparent request do not depend on the selected key.\<close>

lemma transparent_set: "transparent p (header_set h ''X-Selected-Key'' k) = transparent p h"
  by (simp add: transparent_def client_auth_def header_get_def header_simps)

lemma transparent_ignores_key:
  assumes "transparent p inH"
  shows "setAuth cl p apiKey (header_set inH ''X-Selected-Key'' k) body (header_set out ''X-Selected-Key'' k) =
    setAuth cl p apiKey inH body out"
  using assms transparent_set [of p inH k]
  by (auto simp: setAuth_def Let_def header_simps fun_eq_iff)


text \<open>What a selection from a well-formed pool can give.\<close>

lemma GetKey_outcome:
  assumes "pool_ok q" and "\<And>i. env_ok (envs i)"
  obtains (none) q' where "GetKey RL envs q = (Inl ErrAllKeysExhausted, q')"
  | (key) k j q' where "GetKey RL envs q = (Inr (k_ID k, k_APIKey k), q')" "k \<in> set (pool_Keys q)"
      "IsAvailable (env_now (envs j)) k"
proof -
  note ready = pool_ok_loop_ready [OF assms(1)]
  obtain r q' where g: "GetKey RL envs q = (r, q')" by fastforce
  show thesis
  proof (cases r)
    case (Inl e)
    have "fst (GetKey RL envs q) = Inl e" using g Inl by simp
    then have "e = ErrAllKeysExhausted"
      unfolding GetKey_def by (rule tier.GetKey_loop_error [where envs = envs and RL = RL, OF assms(2) ready refl])
    then show thesis using none g Inl by simp
  next
    case (Inr x)
    obtain i a where x: "x = (i, a)" by fastforce
    have "fst (GetKey RL envs q) = Inr (i, a)" using g Inr x by simp
    then have "\<exists>k \<in> set (pool_Keys q). \<exists>j. i = k_ID k \<and> a = k_APIKey k \<and> IsAvailable (env_now (envs j)) k"
      unfolding GetKey_def by (rule tier.GetKey_loop_sound [where envs = envs and RL = RL, OF assms(2) ready])
    then show thesis using key g Inr x by blast
  qed
qed

text \<open>
  What is learned from a response concerns the key that was sent. On the path without retry, a request to a provider
  with a pool is either answered 429, when the pool gives no key, or goes out with the credentials of one
  available key of the pool, whose identifier is the one the response hook will use; only in transparent mode the
  client's credentials go out, and then there is no identifier.
\<close>

lemma selected_key_is_sent:
  assumes "pool_ok q" and "\<And>i. env_ok (envs i)" and "\<not> cloud_provider p" and "\<forall>k \<in> set (pool_Keys q). k_APIKey k \<noteq> ''''"
    and "fst (handleAuthAndKeySelection RL fl L envs now show_err writer p apiKey inH (Some q)) = choice"
  shows "case choice of
      Proceed h (Some i) writer' \<Rightarrow> \<not> transparent p inH \<and>
        (\<exists>k \<in> set (pool_Keys q). \<exists>j. i = k_ID k \<and> IsAvailable (env_now (envs j)) k \<and>
          (if by_bearer p then setAuth cl p apiKey h body out ''Authorization'' = [''Bearer '' @ k_APIKey k]
           else setAuth cl p apiKey h body out ''X-Api-Key'' = [k_APIKey k]))
    | Proceed h None writer' \<Rightarrow> transparent p inH \<and> h = inH
    | Answered resp \<Rightarrow> rs_StatusCode resp = 429 \<and> fst (GetKey RL envs q) = Inl ErrAllKeysExhausted
    | AuthPanic \<Rightarrow> False"
proof (cases "transparent p inH")
  case True
  then show ?thesis using assms(5) by (auto simp: handleAuthAndKeySelection_def)
next
  case nt: False
  show ?thesis
  proof (cases rule: GetKey_outcome [where envs = envs and RL = RL, OF assms(1,2), case_names none key])
    case (none q')
    then show ?thesis
      using nt assms(5) by (auto simp: handleAuthAndKeySelection_def selectKeyFromPool_def WriteRateLimitError_def
          WriteError_def writeJSON_def)
  next
    case (key k j q')
    let ?h = "header_set inH ''X-Selected-Key'' (k_APIKey k)"
    obtain writer' where c: "choice = Proceed ?h (Some (k_ID k)) writer'"
      using nt assms(5) key(1) by (auto simp: handleAuthAndKeySelection_def selectKeyFromPool_def Let_def)
    have u: "used_key ?h apiKey = k_APIKey k" using key(2) assms(4) by (simp add: used_key_def)
    have "\<not> transparent p ?h" using nt by (simp add: transparent_set)
    then have "if by_bearer p then setAuth cl p apiKey ?h body out ''Authorization'' = [''Bearer '' @ k_APIKey k]
        else setAuth cl p apiKey ?h body out ''X-Api-Key'' = [k_APIKey k]"
      using u key(2) assms(4) setAuth_keyed(2,3) [where cl = cl and inH = ?h, OF assms(3)] by simp
    then show ?thesis using c nt key(2,3) by auto
  qed
qed

section \<open>Witnesses\<close>

definition demo_plain :: provider_impl where
  "demo_plain = OllamaProvider (NewBaseProviderWithMapping ''o'' ''http://h'' ''ollama'' [] Map.empty)"

definition demo_vertex :: provider_impl where
  "demo_vertex = VertexProvider (NewBaseProviderWithMapping ''v'' ''http://h'' ''google'' [] Map.empty) ''p'' ''r''"


lemma keyless_cloud_unauthenticated_witness:
  "setAuth demo_cloud demo_vertex '''' (\<lambda>_. []) None (\<lambda>_. []) ''Authorization'' = []"
  using keyless_cloud_unauthenticated [of demo_vertex "''''" "\<lambda>_. []" demo_cloud None "\<lambda>_. []" demo_cloud]
  by (simp add: demo_vertex_def header_get_def)

lemma cloud_keeps_version_header_witness:
  "setAuth demo_cloud demo_vertex ''k'' (\<lambda>_. []) None ((\<lambda>_. [])(''Anthropic-Version'' := [''2023-06-01''])) ''Anthropic-Version'' =
     [''2023-06-01'']"
  using cloud_keeps_version_header [OF demo_vertex_def,
      of "(\<lambda>_. [])(''Anthropic-Version'' := [''2023-06-01''])" "''2023-06-01''" "\<lambda>_. []" demo_cloud "''k''" None] by simp

lemma selected_key_is_sent_witness:
  "case fst (handleAuthAndKeySelection bkt_lib (\<lambda>x. x) std_lo_pool (\<lambda>_. demo_env) 0 (\<lambda>_. '''') (\<lambda>_. []) demo_plain '''' (\<lambda>_. [])
       (Some demo_pool)) of
     Proceed h (Some i) writer' \<Rightarrow> i \<in> k_ID ` set (pool_Keys demo_pool) | Proceed h None writer' \<Rightarrow> False
   | Answered resp \<Rightarrow> rs_StatusCode resp = 429 | AuthPanic \<Rightarrow> False"
proof -
  have keys: "\<forall>k \<in> set (pool_Keys demo_pool). k_APIKey k \<noteq> ''''" by (simp add: demo_pool_Keys demo_cfg_def)
  have nc: "\<not> cloud_provider demo_plain" "\<not> transparent demo_plain (\<lambda>_. [])" by (simp_all add: demo_plain_def transparent_def)
  show ?thesis
    using selected_key_is_sent [where envs = "\<lambda>_. demo_env" and RL = bkt_lib and cl = demo_cloud and body = None
        and out = "\<lambda>_. []" and inH = "\<lambda>_. []" and apiKey = "''''" and fl = "\<lambda>x. x" and L = std_lo_pool and now = 0
        and show_err = "\<lambda>_. ''''" and writer = "\<lambda>_. []",
        OF reachable_ok [OF demo_pool_reachable] demo_env_ok nc(1) keys refl] nc(2)
    by (auto split: auth_choice.splits option.splits)
qed

end
