(* ===== verification/Retry_Auth.thy ===== *)
theory Retry_Auth
  imports Handler_Retry_Facts Proxy_Auth
begin

text \<open>
  The retry path and the credentials together: what is sent with an attempt (\<open>provider_proxy.go\<close>) and what is learned
  from its response (\<open>handler.go\<close>, \<open>keypool_updater.go\<close>).
\<close>

lemma learned_key:
  assumes "pool_ok p" and "keyID \<in> dom (p_keyMap p)" and "keyID \<noteq> []" and "rs_StatusCode resp = 403"
    and "\<And>i. env_ok (envs i)" and "\<And>i. env_now (envs i) \<le> now + hours 5"
  shows "fst (GetKey RL envs (snd (snd (UpdateKeyPoolFromResponse RL fl env now owner st (Some keyID) resp p)))) \<noteq> Inr (keyID, api)"
proof -
  obtain a where a: "p_keyMap p keyID = Some a" using assms(2) by auto
  let ?q = "learned RL fl env owner keyID resp p"
  have q: "pool_ok ?q" by (rule learned_frame(1) [OF assms(1) a])
  have known: "keyID \<in> dom (p_keyMap ?q)" using assms(2) by (simp only: learned_frame(2) [OF assms(1) a])
  have "snd (snd (UpdateKeyPoolFromResponse RL fl env now owner st (Some keyID) resp p)) = MarkKeyExhausted now keyID (hours 5) ?q"
    unfolding Update_eq [OF assms(1,3)] using assms(4) by (simp add: mark_from_status_def learned_def Let_def)
  then show ?thesis using exhausted_excluded [where envs = envs, OF q known assms(5,6)] by simp
qed

lemma send_attempt_pool:
  assumes "he_upstream he (hw_tick w) att = Some resp" and "prov_Name (at_provider att) \<noteq> ''''"
    and "hw_proxies w (prov_Name (at_provider att)) = Some pp" and "pp_KeyPool pp = Some a"
  shows "hw_pools (snd (send_attempt he att w)) a =
    snd (snd (UpdateKeyPoolFromResponse (he_RL he) (he_fl he) (he_clock he (Suc (hw_tick w))) (he_mark he (Suc (hw_tick w)))
      (prov_Owner (pp_Provider pp)) (resolveCooldownStrategy he (prov_Name (at_provider att))) (Some (at_keyID att)) resp
      (hw_pools w a)))"
  using assms
  by (auto simp: send_attempt_def handler_modifyResponse_def reportOutcomeWithSkip_frame Let_def split: prod.splits sum.splits)

text \<open>
  With retries on, a client that brings its own credentials uses up keys that are never sent. The retry loops
  select a key of the pool for every attempt, the reverse proxy of a transparent provider sends the client's
  credentials whatever key was selected, so that trying another key repeats the request as it was; and a 403 to those
  credentials takes the selected key out of the pool for five hours.
\<close>

lemma retry_rests_unsent_keys:
  assumes "transparent p inH" and "at_apiKey att = key"
    and "he_upstream he (hw_tick w) att = Some resp" and "rs_StatusCode resp = 403" and "prov_Name (at_provider att) \<noteq> ''''"
    and "hw_proxies w (prov_Name (at_provider att)) = Some pp" and "pp_KeyPool pp = Some a" and "pool_ok (hw_pools w a)"
    and "at_keyID att \<in> dom (p_keyMap (hw_pools w a))" and "at_keyID att \<noteq> []"
    and "\<And>i. env_ok (envs i)" and "\<And>i. env_now (envs i) \<le> he_mark he (Suc (hw_tick w)) + hours 5"
  shows "setAuth cl p apiKey (header_set inH ''X-Selected-Key'' key) body (header_set out ''X-Selected-Key'' key) =
      setAuth cl p apiKey inH body out \<and>
    fst (GetKey (he_RL he) envs (hw_pools (snd (send_attempt he att w)) a)) \<noteq> Inr (at_keyID att, api)"
  unfolding send_attempt_pool [OF assms(3,5,6,7)]
  by (intro conjI transparent_ignores_key [OF assms(1)] learned_key [where envs = envs, OF assms(8,9,10,4,11,12)])

section \<open>Witnesses\<close>

definition demo_anthropic :: provider_impl where
  "demo_anthropic = AnthropicProvider (NewBaseProviderWithMapping ''a'' ''https://h'' ''anthropic'' [] Map.empty)"

lemma retry_rests_unsent_keys_witness:
  "fst (GetKey bkt_lib (\<lambda>_. demo_env)
     (hw_pools (snd (send_attempt (demo_handler (\<lambda>_ _. Some (demo_response 403)))
        \<lparr>at_provider = demo_prov_of ''a'', at_keyID = k_ID (init_key 1 (pc_Keys demo_cfg ! 1)), at_apiKey = ''sk-bbbb'', at_body = None\<rparr>
        (demo_state\<lparr>hw_proxies := [''a'' \<mapsto> \<lparr>pp_Provider = demo_prov_of ''a'', pp_APIKey = '''', pp_KeyPool = Some 0\<rparr>]\<rparr>))) 0))
   \<noteq> Inr (k_ID (init_key 1 (pc_Keys demo_cfg ! 1)), ''sk-bbbb'')"
proof -
  let ?id = "k_ID (init_key 1 (pc_Keys demo_cfg ! 1))"
  have tr: "transparent demo_anthropic (header_set (\<lambda>_. []) ''Authorization'' ''Bearer client'')"
    by (simp add: transparent_def client_auth_def demo_anthropic_def)
  have ne: "?id \<noteq> []" by (simp add: init_key_def Let_def key_id_def)
  have mem: "?id \<in> dom (p_keyMap demo_pool)" using demo_pool_keyMap by auto
  have now: "env_now demo_env \<le> he_mark (demo_handler (\<lambda>_ _. Some (demo_response 403))) n + hours 5" for n
    by (simp add: demo_handler_def time_defs)
  let ?he = "demo_handler (\<lambda>_ _. Some (demo_response 403))"
  let ?w = "demo_state\<lparr>hw_proxies := [''a'' \<mapsto> \<lparr>pp_Provider = demo_prov_of ''a'', pp_APIKey = '''', pp_KeyPool = Some 0\<rparr>]\<rparr>"
  let ?att = "\<lparr>at_provider = demo_prov_of ''a'', at_keyID = ?id, at_apiKey = ''sk-bbbb'', at_body = None\<rparr>"
  have up: "he_upstream ?he (hw_tick ?w) ?att = Some (demo_response 403)" "rs_StatusCode (demo_response 403) = 403"
    "prov_Name (at_provider ?att) \<noteq> ''''"
    "hw_proxies ?w (prov_Name (at_provider ?att)) = Some \<lparr>pp_Provider = demo_prov_of ''a'', pp_APIKey = '''', pp_KeyPool = Some 0\<rparr>"
    "pool_ok (hw_pools ?w 0)" "at_keyID ?att \<in> dom (p_keyMap (hw_pools ?w 0))" "at_keyID ?att \<noteq> []"
    using ne mem reachable_ok [OF demo_pool_reachable]
    by (simp_all add: demo_state_def demo_handler_def demo_response_def demo_prov_of_def)
  have "fst (GetKey (he_RL ?he) (\<lambda>_. demo_env) (hw_pools (snd (send_attempt ?he ?att ?w)) 0)) \<noteq> Inr (at_keyID ?att, ''sk-bbbb'')"
    by (rule conjunct2 [OF retry_rests_unsent_keys [where envs = "\<lambda>_. demo_env", OF tr refl up(1-4) _ up(5-7) demo_env_ok now]])
      simp
  moreover have "he_RL ?he = bkt_lib" by (simp add: demo_handler_def)
  ultimately show ?thesis by simp
qed

end
