(* ===== verification/Peek_Writer.thy ===== *)
theory Peek_Writer
  imports Retry_Loop Error_Responses
begin

text \<open>
  The response writer of streaming requests with retries (\<open>internal/proxy/peek_writer.go\<close>): it holds back a 429
  or 403, and lets everything else through as it comes; and the recorder that buffers the other requests
  (\<open>flushRecorder\<close> in \<open>retry.go\<close>).
\<close>

section \<open>The writers underneath\<close>

text \<open>
  The client's writer of \<open>net/http\<close>: the headers set so far, what was sent of status and headers, the body, and the
  interim answers (1xx), which can come before. The first status counts; a write without one sends 200.
\<close>

record real_writer =
  rw_header :: header
  rw_sent :: "(int \<times> header) option"
  rw_body :: string
  rw_interim :: "int list"

definition interim_code :: "int \<Rightarrow> bool" where
  "interim_code code \<longleftrightarrow> 100 \<le> code \<and> code \<le> 199 \<and> code \<noteq> 101"

definition real_WriteHeader :: "int \<Rightarrow> real_writer \<Rightarrow> real_writer" where
  "real_WriteHeader code w =
     (if rw_sent w \<noteq> None then w
      else if interim_code code then w\<lparr>rw_interim := rw_interim w @ [code]\<rparr>
      else w\<lparr>rw_sent := Some (code, rw_header w)\<rparr>)"

definition real_Write :: "string \<Rightarrow> real_writer \<Rightarrow> real_writer" where
  "real_Write data w = (let w = real_WriteHeader 200 w in w\<lparr>rw_body := rw_body w @ data\<rparr>)"

definition header_copy :: "header \<Rightarrow> header \<Rightarrow> header" where
  "header_copy src dst = (\<lambda>k. if src k = [] then dst k else src k)"

definition header_add :: "header \<Rightarrow> header \<Rightarrow> header" where
  "header_add src dst = (\<lambda>k. dst k @ src k)"

section \<open>The peeking writer\<close>

record peek_writer =
  pw_header :: header
  pw_body :: string
  pw_statusCode :: int
  pw_committed :: bool
  pw_wroteHeader :: bool
  pw_is429 :: bool

definition newPeekWriter :: peek_writer where
  "newPeekWriter =
     \<lparr>pw_header = (\<lambda>_. []), pw_body = '''', pw_statusCode = 0, pw_committed = False, pw_wroteHeader = False, pw_is429 = False\<rparr>"

definition pw_commit :: "peek_writer \<times> real_writer \<Rightarrow> peek_writer \<times> real_writer" where
  "pw_commit s =
     (let (pw, w) = s
      in if pw_committed pw then s
         else let w = w\<lparr>rw_header := header_copy (pw_header pw) (rw_header w)\<rparr>;
                  w = real_WriteHeader (if pw_statusCode pw = 0 then 200 else pw_statusCode pw) w;
                  (body, w) = (if pw_body pw \<noteq> '''' then ('''', real_Write (pw_body pw) w) else (pw_body pw, w))
              in (pw\<lparr>pw_body := body, pw_committed := True\<rparr>, w))"

definition pw_WriteHeader :: "int \<Rightarrow> peek_writer \<times> real_writer \<Rightarrow> peek_writer \<times> real_writer" where
  "pw_WriteHeader code s =
     (let (pw, w) = s
      in if pw_wroteHeader pw then s
         else let pw = pw\<lparr>pw_wroteHeader := True, pw_statusCode := code\<rparr>
              in if isRetryableStatusCode code then (pw\<lparr>pw_is429 := True\<rparr>, w) else pw_commit (pw, w))"

definition pw_Write :: "string \<Rightarrow> peek_writer \<times> real_writer \<Rightarrow> peek_writer \<times> real_writer" where
  "pw_Write data s =
     (let (pw, w) = s
      in if pw_committed pw then (pw, real_Write data w)
         else if pw_statusCode pw = 0
         then let (pw, w) = pw_commit (pw\<lparr>pw_statusCode := 200\<rparr>, w) in (pw, real_Write data w)
         else (pw\<lparr>pw_body := pw_body pw @ data\<rparr>, w))"

text \<open>\<open>Header()\<close> gives the map to change.\<close>

definition pw_change_header :: "(header \<Rightarrow> header) \<Rightarrow> peek_writer \<times> real_writer \<Rightarrow> peek_writer \<times> real_writer" where
  "pw_change_header f s =
     (let (pw, w) = s
      in if pw_committed pw then (pw, w\<lparr>rw_header := f (rw_header w)\<rparr>) else (pw\<lparr>pw_header := f (pw_header pw)\<rparr>, w))"

definition pw_FlushBuffered429 :: "peek_writer \<times> real_writer \<Rightarrow> peek_writer \<times> real_writer" where
  "pw_FlushBuffered429 s = (if pw_committed (fst s) \<or> \<not> pw_is429 (fst s) then s else pw_commit s)"

section \<open>What the reverse proxy writes\<close>

text \<open>
  For each interim answer of the upstream its headers and code, after which it clears the headers it was given; then
  the headers and the status of the response, and its body in pieces.
\<close>

definition pw_interim :: "int \<times> header \<Rightarrow> peek_writer \<times> real_writer \<Rightarrow> peek_writer \<times> real_writer" where
  "pw_interim x s =
     (let before = pw_committed (fst s);
          (pw, w) = pw_WriteHeader (fst x) (pw_change_header (header_add (snd x)) s)
      in if before then (pw, w\<lparr>rw_header := (\<lambda>_. [])\<rparr>) else (pw\<lparr>pw_header := (\<lambda>_. [])\<rparr>, w))"

definition peek_response ::
    "(int \<times> header) list \<Rightarrow> int \<Rightarrow> header \<Rightarrow> string list \<Rightarrow> peek_writer \<times> real_writer \<Rightarrow> peek_writer \<times> real_writer" where
  "peek_response interims code h chunks s =
     fold pw_Write chunks (pw_WriteHeader code (pw_change_header (header_add h) (fold pw_interim interims s)))"

text \<open>The same without the peeking writer in between, and with a recorder, that keeps the first code.\<close>

definition direct_response :: "int \<Rightarrow> header \<Rightarrow> string list \<Rightarrow> real_writer \<Rightarrow> real_writer" where
  "direct_response code h chunks w =
     fold real_Write chunks (real_WriteHeader code (w\<lparr>rw_header := header_add h (rw_header w)\<rparr>))"

record recorder =
  rd_Code :: int
  rd_Header :: header
  rd_Body :: string

definition recorded_response :: "int \<Rightarrow> header \<Rightarrow> string list \<Rightarrow> recorder" where
  "recorded_response code h chunks = \<lparr>rd_Code = code, rd_Header = header_add h (\<lambda>_. []), rd_Body = concat chunks\<rparr>"

definition flushRecorder :: "recorder \<Rightarrow> real_writer \<Rightarrow> real_writer" where
  "flushRecorder r w =
     (let w = real_WriteHeader (rd_Code r) (w\<lparr>rw_header := header_copy (rd_Header r) (rw_header w)\<rparr>)
      in if rd_Body r = '''' then w else real_Write (rd_Body r) w)"

section \<open>Facts\<close>

lemma real_Write_sent: "rw_sent w \<noteq> None \<Longrightarrow> real_Write d w = w\<lparr>rw_body := rw_body w @ d\<rparr>"
  by (simp add: real_Write_def real_WriteHeader_def)

lemma fold_real_Write: "rw_sent w \<noteq> None \<Longrightarrow> fold real_Write cs w = w\<lparr>rw_body := rw_body w @ concat cs\<rparr>"
  by (induction cs arbitrary: w) (simp_all add: real_Write_sent)

lemma fold_pw_Write_committed: "pw_committed pw \<Longrightarrow> fold pw_Write cs (pw, w) = (pw, fold real_Write cs w)"
  by (induction cs arbitrary: w) (simp_all add: pw_Write_def)

lemma fold_pw_Write_held:
  "\<not> pw_committed pw \<Longrightarrow> pw_statusCode pw \<noteq> 0 \<Longrightarrow> fold pw_Write cs (pw, w) = (pw\<lparr>pw_body := pw_body pw @ concat cs\<rparr>, w)"
  by (induction cs arbitrary: pw) (simp_all add: pw_Write_def)

lemma header_add_empty [simp]: "header_add h (\<lambda>_. []) = h"
  by (simp add: header_add_def)

lemma peek_held:
  assumes "isRetryableStatusCode code"
  shows "peek_response [] code h chunks (newPeekWriter, w) =
    (\<lparr>pw_header = h, pw_body = concat chunks, pw_statusCode = code, pw_committed = False, pw_wroteHeader = True,
      pw_is429 = True\<rparr>, w)"
  using assms
  by (auto simp: peek_response_def newPeekWriter_def pw_change_header_def pw_WriteHeader_def fold_pw_Write_held
      isRetryableStatusCode_def)

section \<open>Properties\<close>

text \<open>
  Streaming is transparent. A response that is not retried reaches the client through the peeking writer exactly as it
  would without it: same status, same headers, same body, as soon as each piece is written; the writer holds nothing
  back.
\<close>

lemma peek_passthrough:
  assumes "\<not> isRetryableStatusCode code" and "200 \<le> code" and "rw_sent w = None"
    and "\<And>k. rw_header w k = [] \<or> h k = []"
  shows "snd (peek_response [] code h chunks (newPeekWriter, w)) = direct_response code h chunks w \<and>
    pw_committed (fst (peek_response [] code h chunks (newPeekWriter, w)))"
proof -
  have h: "header_copy h (rw_header w) = header_add h (rw_header w)"
    using assms(4) by (force simp: header_copy_def header_add_def fun_eq_iff)
  show ?thesis
    using assms(1-3) h
    by (simp add: peek_response_def direct_response_def newPeekWriter_def pw_change_header_def pw_WriteHeader_def pw_commit_def
        fold_pw_Write_committed Let_def)
qed

text \<open>
  A 429 or 403 is held back whole: the client's writer is untouched, so the request can be tried again; and given
  up, it reaches the client as the buffered response of a request without streaming does, with the same override of
  \<open>Retry-After\<close>.
\<close>

lemma peek_holds_retryable:
  assumes "isRetryableStatusCode code" and "rw_sent w = None"
  shows "snd (peek_response [] code h chunks (newPeekWriter, w)) = w \<and>
    \<not> pw_committed (fst (peek_response [] code h chunks (newPeekWriter, w))) \<and>
    pw_is429 (fst (peek_response [] code h chunks (newPeekWriter, w))) \<and>
    snd (pw_FlushBuffered429 (pw_change_header (\<lambda>h. header_set h ''Retry-After'' (itoa ClientRetryAfterSec))
        (peek_response [] code h chunks (newPeekWriter, w)))) =
      flushRecorder ((recorded_response code h chunks)\<lparr>rd_Header := header_set h ''Retry-After'' (itoa ClientRetryAfterSec)\<rparr>) w"
  using assms(1) unfolding peek_held [OF assms(1)]
  by (auto simp: pw_change_header_def pw_FlushBuffered429_def pw_commit_def flushRecorder_def recorded_response_def
      isRetryableStatusCode_def Let_def)

text \<open>
  An interim answer hides the real one. When the upstream sends a 1xx (early hints, processing) first, the peeking
  writer takes it for the status: it commits, forgets the final status, and the client gets the body as a 200. A 429 is
  then not retried, and an error arrives as a success.
\<close>

lemma interim_hides_status:
  assumes "interim_code c" and "rw_sent w = None" and "chunks \<noteq> []"
  shows "\<exists>hdr. rw_sent (snd (peek_response [(c, h1)] code h chunks (newPeekWriter, w))) = Some (200, hdr) \<and>
    \<not> pw_is429 (fst (peek_response [(c, h1)] code h chunks (newPeekWriter, w)))"
proof -
  have c: "\<not> isRetryableStatusCode c" "c \<noteq> 0" using assms(1) by (auto simp: interim_code_def isRetryableStatusCode_def)
  obtain pw w' where s: "peek_response [(c, h1)] code h [] (newPeekWriter, w) = (pw, w')" by fastforce
  have f: "pw_committed pw" "\<not> pw_is429 pw" "rw_sent w' = None"
    using s c assms(1,2)
    by (auto simp: peek_response_def newPeekWriter_def pw_interim_def pw_change_header_def pw_WriteHeader_def pw_commit_def
        real_WriteHeader_def Let_def)
  have "peek_response [(c, h1)] code h chunks (newPeekWriter, w) = fold pw_Write chunks (pw, w')"
    using s by (simp add: peek_response_def)
  then have r: "peek_response [(c, h1)] code h chunks (newPeekWriter, w) = (pw, fold real_Write chunks w')"
    by (simp add: fold_pw_Write_committed f(1))
  obtain d ds where "chunks = d # ds" using assms(3) by (cases chunks) auto
  moreover have "rw_sent (fold real_Write ds v) = rw_sent v" if "rw_sent v \<noteq> None" for v
    using that by (simp add: fold_real_Write)
  ultimately show ?thesis
    using f r by (simp add: real_Write_def real_WriteHeader_def interim_code_def Let_def)
qed

section \<open>The two ways of serving a request with retries\<close>

text \<open>
  What the client's writer gets in the end. \<open>show_error\<close> renders the two errors that have a text of their own.
\<close>

definition write_answer :: "response \<Rightarrow> real_writer \<Rightarrow> real_writer" where
  "write_answer r w =
     (let w = real_WriteHeader (rs_StatusCode r) (w\<lparr>rw_header := rs_Header r\<rparr>)
      in case rs_Body r of Inr b \<Rightarrow> real_Write b w | Inl e \<Rightarrow> w)"

definition own_error :: "(go_error \<Rightarrow> string) \<Rightarrow> string \<Rightarrow> reply \<Rightarrow> real_writer \<Rightarrow> real_writer" where
  "own_error show_error none reply w =
     (case reply of
        NoProvider e \<Rightarrow>
          write_answer (WriteError (rw_header w) 503 ''api_error'' (''failed to select provider: '' @ show_error e)) w
      | NoProxy e \<Rightarrow>
          write_answer (WriteError (rw_header w) 500 ''internal_error'' (''failed to get proxy for provider '' @ show_error e)) w
      | NoAttempt \<Rightarrow> write_answer (WriteError (rw_header w) 503 ''api_error'' none) w
      | _ \<Rightarrow> w)"

definition body_text :: "response \<Rightarrow> string" where
  "body_text r = (case rs_Body r of Inr b \<Rightarrow> b | Inl e \<Rightarrow> '''')"

definition serveBufferedWithRetry ::
    "(go_error \<Rightarrow> string) \<Rightarrow> 'w retry_ops \<Rightarrow> retry_config \<Rightarrow> (string \<Rightarrow> string) \<Rightarrow> retry_request \<Rightarrow> 'w \<Rightarrow> real_writer \<Rightarrow>
     'w \<times> real_writer" where
  "serveBufferedWithRetry show_error ops cfg strip rq w rw =
     (let (reply, w) = serveWithRetry ops cfg strip rq w
      in (w, case reply of
               Flush r \<Rightarrow> flushRecorder \<lparr>rd_Code = rs_StatusCode r, rd_Header = rs_Header r, rd_Body = body_text r\<rparr> rw
             | _ \<Rightarrow> own_error show_error ''no providers available for retry'' reply rw))"

text \<open>
  The loops of a streaming request are the same; every attempt writes through a peeking writer, and what is given up is
  flushed from the last one. \<open>chunks\<close> is how the body of a response arrives.
\<close>

definition serveStreamingWithRetry ::
    "(go_error \<Rightarrow> string) \<Rightarrow> (response \<Rightarrow> string list) \<Rightarrow> 'w retry_ops \<Rightarrow> retry_config \<Rightarrow> (string \<Rightarrow> string) \<Rightarrow>
     retry_request \<Rightarrow> 'w \<Rightarrow> real_writer \<Rightarrow> 'w \<times> real_writer" where
  "serveStreamingWithRetry show_error chunks ops cfg strip rq w rw =
     (let (reply, w) = serveWithRetry ops cfg strip rq w
      in (w, case reply of
               Flush r \<Rightarrow> snd (pw_FlushBuffered429
                 (peek_response [] (rs_StatusCode r) (rs_Header r) (chunks r) (newPeekWriter, rw)))
             | _ \<Rightarrow> own_error show_error ''no providers available for streaming retry'' reply rw))"

lemma flushRecorder_direct:
  assumes "rw_sent w = None" and "\<And>k. rw_header w k = [] \<or> h k = []" and "200 \<le> code"
  shows "flushRecorder \<lparr>rd_Code = code, rd_Header = h, rd_Body = concat chunks\<rparr> w = direct_response code h chunks w"
proof -
  have h: "header_copy h (rw_header w) = header_add h (rw_header w)"
    using assms(2) by (force simp: header_copy_def header_add_def fun_eq_iff)
  show ?thesis
    using assms(1,3) h
    by (auto simp: flushRecorder_def direct_response_def real_WriteHeader_def interim_code_def fold_real_Write real_Write_sent Let_def)
qed

lemma peek_direct:
  assumes "rw_sent w = None" and "\<And>k. rw_header w k = [] \<or> h k = []" and "200 \<le> code"
  shows "snd (pw_FlushBuffered429 (peek_response [] code h chunks (newPeekWriter, w))) = direct_response code h chunks w"
proof -
  have h: "header_copy h (rw_header w) = header_add h (rw_header w)"
    using assms(2) by (force simp: header_copy_def header_add_def fun_eq_iff)
  show ?thesis
  proof (cases "isRetryableStatusCode code")
    case True
    then show ?thesis
      using assms(1,3) h unfolding peek_held [OF True]
      by (auto simp: pw_FlushBuffered429_def pw_commit_def direct_response_def real_WriteHeader_def interim_code_def
          fold_real_Write real_Write_sent Let_def)
  next
    case False
    then show ?thesis
      using assms(1,3) h
      by (simp add: peek_response_def direct_response_def newPeekWriter_def pw_change_header_def pw_WriteHeader_def pw_commit_def
          pw_FlushBuffered429_def fold_pw_Write_committed Let_def)
  qed
qed


section \<open>Witnesses\<close>

definition demo_writer :: real_writer where
  "demo_writer = \<lparr>rw_header = (\<lambda>_. []), rw_sent = None, rw_body = '''', rw_interim = []\<rparr>"

lemma peek_passthrough_witness:
  "rw_body (snd (peek_response [] 200 (\<lambda>_. []) [''data: 1'', ''data: 2''] (newPeekWriter, demo_writer))) = ''data: 1data: 2''"
  using peek_passthrough [of 200 demo_writer "\<lambda>_. []" "[''data: 1'', ''data: 2'']"]
  by (simp add: demo_writer_def isRetryableStatusCode_def direct_response_def real_Write_def real_WriteHeader_def interim_code_def)

lemma peek_holds_retryable_witness:
  "snd (peek_response [] 429 (\<lambda>_. []) [''slow down''] (newPeekWriter, demo_writer)) = demo_writer"
  using peek_holds_retryable [of 429 demo_writer "\<lambda>_. []" "[''slow down'']"]
  by (simp add: demo_writer_def isRetryableStatusCode_def)

lemma interim_hides_status_witness:
  "\<exists>hdr. rw_sent (snd (peek_response [(103, \<lambda>_. [])] 429 (\<lambda>_. []) [''slow down''] (newPeekWriter, demo_writer))) = Some (200, hdr)"
  using interim_hides_status [of 103 demo_writer "[''slow down'']" "\<lambda>_. []" 429 "\<lambda>_. []"]
  by (simp add: demo_writer_def interim_code_def)

definition one_shot :: "unit retry_ops" where
  "one_shot =
     \<lparr>op_select = (\<lambda>rx w. (Inr (\<lparr>prov_Name = ''a'', prov_Owner = ''x''\<rparr>, False), w)), op_proxy = (\<lambda>p w. (Inr (False, ''sk''), w)),
      op_key = (\<lambda>p rx w. (Inr None, w)),
      op_send = (\<lambda>a w. (Inr \<lparr>rs_StatusCode = 200, rs_Header = (\<lambda>_. []), rs_Body = Inr ''hello''\<rparr>, w)),
      op_sleep = (\<lambda>d w. w), op_release = (\<lambda>p w. w),
      op_clock = (\<lambda>w. \<lparr>ce_now = 0, ce_json = (\<lambda>_. None), ce_rfc3339 = (\<lambda>_. None), ce_http_time = (\<lambda>_. None),
        ce_parse_local = (\<lambda>_ _. None)\<rparr>)\<rparr>"


end
