(* ===== verification/SSE_Body.thy ===== *)
theory SSE_Body
  imports Event_Stream_Facts
begin

text \<open>
  The body that the reverse proxy reads in place of an Event Stream response (\<open>eventStreamToSSEBody\<close> in
  \<open>internal/proxy/provider_proxy.go\<close>): it converts frames to SSE as they become complete, whatever the pieces the
  upstream's body comes in.
\<close>

section \<open>The reader\<close>

text \<open>
  The upstream's body is the list of what its \<open>Read\<close> calls give, data and error, and \<open>EOF\<close> from then on.
\<close>

type_synonym source = "(bytes \<times> go_error option) list"

fun source_read :: "source \<Rightarrow> (bytes \<times> go_error option) \<times> source" where
  "source_read [] = (([], Some EOF), [])"
| "source_read (x # xs) = (x, xs)"

record sse_reader =
  sr_sse :: bytes
  sr_es :: bytes
  sr_done :: bool

definition newEventStreamToSSEBody :: sse_reader where
  "newEventStreamToSSEBody = \<lparr>sr_sse = [], sr_es = [], sr_done = False\<rparr>"

definition ErrStreamClosed :: go_error where
  "ErrStreamClosed = Sentinel ''stream closed''"

text \<open>A message consumes at least sixteen bytes.\<close>

lemma parse_consumes: "ParseEventStreamMessage es = Inr (m, n) \<Longrightarrow> 16 \<le> n \<and> n \<le> length es"
  by (auto simp: ParseEventStreamMessage_def parseAndValidatePrelude_def eventStreamMinMsgLen_def eventStreamPreludeLen_def
      eventStreamTrailerLen_def Let_def split: if_splits sum.splits option.splits)

function parseEventStreamBuffer ::
    "(bytes \<Rightarrow> bytes) \<Rightarrow> bytes \<Rightarrow> bytes \<Rightarrow> go_error option \<times> bytes \<times> bytes" where
  "parseEventStreamBuffer quote es sse =
     (case ParseEventStreamMessage es of
        Inl (GoPanic m) \<Rightarrow> (Some (GoPanic m), es, sse)
      | Inl e \<Rightarrow> (None, es, sse)
      | Inr (msg, consumed) \<Rightarrow>
          parseEventStreamBuffer quote (drop consumed es) (sse @ FormatMessageAsSSE quote (Some msg)))"
  by pat_completeness auto
termination
  by (relation "measure (\<lambda>(quote, es, sse). length es)") (auto dest!: parse_consumes)

declare parseEventStreamBuffer.simps [simp del]

definition readAndBuffer ::
    "(bytes \<Rightarrow> bytes) \<Rightarrow> sse_reader \<Rightarrow> source \<Rightarrow> go_error option \<times> sse_reader \<times> source" where
  "readAndBuffer quote st src =
     (let ((chunk, readErr), src) = source_read src
      in if chunk = [] \<and> readErr = None then (Some ErrStreamClosed, st, src)
         else let (panic, es, sse) = parseEventStreamBuffer quote (sr_es st @ chunk) (sr_sse st);
                  st = st\<lparr>sr_es := es, sr_sse := sse\<rparr>
              in case panic of
                   Some e \<Rightarrow> (Some e, st, src)
                 | None \<Rightarrow> if readErr = Some EOF then (Some EOF, st\<lparr>sr_done := True\<rparr>, src) else (readErr, st, src))"

lemma readAndBuffer_source: "readAndBuffer quote st src = (e, st', src') \<Longrightarrow> src' = tl src \<and> (src = [] \<longrightarrow> e \<noteq> None)"
  by (cases src) (auto simp: readAndBuffer_def Let_def split: prod.splits option.splits if_splits)

text \<open>\<open>p\<close> is the length of the buffer to read into.\<close>

function sse_Read ::
    "(bytes \<Rightarrow> bytes) \<Rightarrow> nat \<Rightarrow> sse_reader \<Rightarrow> source \<Rightarrow> (go_error + bytes) \<times> sse_reader \<times> source" where
  "sse_Read quote p st src =
     (if sr_sse st \<noteq> [] then (Inr (take p (sr_sse st)), st\<lparr>sr_sse := drop p (sr_sse st)\<rparr>, src)
      else if sr_done st then (Inl EOF, st, src)
      else case readAndBuffer quote st src of
             (Some e, st, src) \<Rightarrow>
               if errors_is e EOF
               then if sr_sse st = [] then (Inl EOF, st, src) else sse_Read quote p st src
               else (Inl e, st, src)
           | (None, st, src) \<Rightarrow> sse_Read quote p st src)"
  by pat_completeness auto
termination
  by (relation "measure (\<lambda>(quote, p, st, src). length src + (if sr_sse st = [] then 1 else 0))")
    (auto dest!: readAndBuffer_source [OF sym] simp: length_tl split: if_splits intro: diff_less)

declare sse_Read.simps [simp del]

text \<open>A client that reads until there is an error, with at most \<open>n\<close> calls: what it got, and the error.\<close>

fun read_until_error ::
    "(bytes \<Rightarrow> bytes) \<Rightarrow> nat \<Rightarrow> nat \<Rightarrow> sse_reader \<Rightarrow> source \<Rightarrow> bytes \<times> go_error option" where
  "read_until_error quote p 0 st src = ([], None)"
| "read_until_error quote p (Suc n) st src =
     (case sse_Read quote p st src of
        (Inl e, st, src) \<Rightarrow> ([], Some e)
      | (Inr b, st, src) \<Rightarrow> apfst ((@) b) (read_until_error quote p n st src))"


section \<open>Parsing is incremental\<close>

lemma go_slice_append: "go_slice a l h = Some s \<Longrightarrow> go_slice (a @ b) l h = Some s"
  by (auto simp: go_slice_def split: if_splits)

lemma parse_append:
  assumes "ParseEventStreamMessage a = Inr (m, n)"
  shows "ParseEventStreamMessage (a @ b) = Inr (m, n)"
proof -
  obtain total hlen where pre: "parseAndValidatePrelude a = Inr (total, hlen)"
    using assms by (auto simp: ParseEventStreamMessage_def split: if_splits sum.splits)
  have len: "\<not> length a < 16" using assms by (auto simp: ParseEventStreamMessage_def split: if_splits)
  have tot: "total = get32 (take 4 a)" "16 \<le> unat total" "unat total \<le> length a"
    using pre by (auto simp: parseAndValidatePrelude_def Let_def split: if_splits)
  have pre': "parseAndValidatePrelude (a @ b) = Inr (total, hlen)"
    using pre len by (auto simp: parseAndValidatePrelude_def Let_def take_append drop_append split: if_splits)
  have sub: "unat (total - 4) = unat total - 4"
    using tot(2) by (simp add: unat_sub word_le_nat_alt)
  have crc: "verifyMessageCRC (a @ b) total = verifyMessageCRC a total"
    using tot(2,3) unfolding verifyMessageCRC_def Let_def sub by (simp add: take_append drop_append)
  obtain hb headers payload where parts: "verifyMessageCRC a total = None"
    "go_slice a 12 (unat (12 + hlen)) = Some hb" "parseEventStreamHeaders hb = Inr headers"
    "go_slice a (unat (12 + hlen)) (unat (12 + hlen + (total - 12 - hlen - 4))) = Some payload"
    "m = \<lparr>em_Headers = headers, em_Payload = payload\<rparr>" "n = unat total"
    using assms len by (simp add: ParseEventStreamMessage_def pre Let_def del: add_diff_eq split: option.splits sum.splits)
  show ?thesis
    using len parts(1,3,5,6) go_slice_append [OF parts(2), of b] go_slice_append [OF parts(4), of b]
    by (simp add: ParseEventStreamMessage_def pre' crc Let_def)
qed

lemma buffer_append_output:
  "parseEventStreamBuffer quote es sse =
    (let (p, r, x) = parseEventStreamBuffer quote es [] in (p, r, sse @ x))"
proof (induction "length es" arbitrary: es sse rule: less_induct)
  case less
  show ?case
  proof (cases "ParseEventStreamMessage es")
    case (Inl e)
    then show ?thesis by (simp add: parseEventStreamBuffer.simps [of quote es] split: go_error.split)
  next
    case (Inr mn)
    obtain m n where mn: "mn = (m, n)" by fastforce
    have "length (drop n es) < length es" using parse_consumes [OF Inr [unfolded mn]] by auto
    from less [OF this, of "sse @ FormatMessageAsSSE quote (Some m)"] less [OF this, of "FormatMessageAsSSE quote (Some m)"]
    show ?thesis
      using Inr mn by (simp add: parseEventStreamBuffer.simps [of quote es] split_def Let_def)
  qed
qed

text \<open>What is left and what was written after parsing some bytes.\<close>

lemma buffer_incremental:
  "parseEventStreamBuffer quote a s = (None, r, out) \<Longrightarrow>
   parseEventStreamBuffer quote (a @ b) s = parseEventStreamBuffer quote (r @ b) out"
proof (induction "length a" arbitrary: a s rule: less_induct)
  case less
  show ?case
  proof (cases "ParseEventStreamMessage a")
    case (Inl e)
    then show ?thesis using less.prems by (simp add: parseEventStreamBuffer.simps [of quote a] split: go_error.splits)
  next
    case (Inr mn)
    obtain m n where mn: "mn = (m, n)" by fastforce
    have n: "16 \<le> n" "n \<le> length a" using parse_consumes [OF Inr [unfolded mn]] by simp_all
    have "parseEventStreamBuffer quote (drop n a) (s @ FormatMessageAsSSE quote (Some m)) = (None, r, out)"
      using less.prems Inr mn by (simp add: parseEventStreamBuffer.simps [of quote a])
    from less.hyps [OF _ this] n have "parseEventStreamBuffer quote (drop n a @ b) (s @ FormatMessageAsSSE quote (Some m)) =
        parseEventStreamBuffer quote (r @ b) out" by simp
    then show ?thesis
      using parse_append [OF Inr [unfolded mn], of b] n by (simp add: parseEventStreamBuffer.simps [of quote "a @ b"])
  qed
qed

lemma buffer_stuck:
  "parseEventStreamBuffer quote a s = (None, r, out) \<Longrightarrow> parseEventStreamBuffer quote r x = (None, r, x)"
proof (induction "length a" arbitrary: a s rule: less_induct)
  case less
  show ?case
  proof (cases "ParseEventStreamMessage a")
    case (Inl e)
    then show ?thesis
      using less.prems by (auto simp: parseEventStreamBuffer.simps [of quote a] parseEventStreamBuffer.simps [of quote r] split: go_error.splits)
  next
    case (Inr mn)
    obtain m n where mn: "mn = (m, n)" by fastforce
    have n: "16 \<le> n" "n \<le> length a" using parse_consumes [OF Inr [unfolded mn]] by simp_all
    show ?thesis
      by (rule less.hyps [of "drop n a" "s @ FormatMessageAsSSE quote (Some m)"])
        (use less.prems Inr mn n in \<open>simp_all add: parseEventStreamBuffer.simps [of quote a]\<close>)
  qed
qed

section \<open>Reading to the end\<close>

fun ok_source :: "source \<Rightarrow> bool" where
  "ok_source [] = True"
| "ok_source ((c, e) # xs) = (if e = Some EOF then xs = [] else e = None \<and> c \<noteq> [] \<and> ok_source xs)"

definition source_data :: "source \<Rightarrow> bytes" where
  "source_data src = concat (map fst src)"

definition reader_ok :: "(bytes \<Rightarrow> bytes) \<Rightarrow> sse_reader \<Rightarrow> source \<Rightarrow> bool" where
  "reader_ok quote st src \<longleftrightarrow>
     parseEventStreamBuffer quote (sr_es st) [] = (None, sr_es st, []) \<and>
     (\<forall>a b. source_data src = a @ b \<longrightarrow> fst (parseEventStreamBuffer quote (sr_es st @ a) []) = None) \<and>
     ok_source src \<and> (sr_done st \<longrightarrow> src = [])"

definition still_to_come :: "(bytes \<Rightarrow> bytes) \<Rightarrow> sse_reader \<Rightarrow> source \<Rightarrow> bytes" where
  "still_to_come quote st src =
     sr_sse st @ snd (snd (parseEventStreamBuffer quote (sr_es st @ source_data src) []))"

lemma readAndBuffer_ok:
  assumes "reader_ok quote st src" and "\<not> sr_done st"
  shows "\<exists>e st'. readAndBuffer quote st src = (e, st', tl src) \<and> (e = None \<or> e = Some EOF \<and> sr_done st') \<and>
    reader_ok quote st' (tl src) \<and> still_to_come quote st' (tl src) = still_to_come quote st src \<and> (src = [] \<longrightarrow> e = Some EOF)"
proof -
  obtain c e xs where src: "source_read src = ((c, e), xs)" "xs = tl src" "source_data src = c @ source_data xs"
    by (cases src) (auto simp: source_data_def)
  have ok: "ok_source xs" "\<not> (c = [] \<and> e = None)" "e = None \<or> e = Some EOF \<and> xs = []" "src = [] \<longrightarrow> e = Some EOF"
    using assms(1) src by (cases src; auto simp: reader_ok_def split: if_splits)+
  have none: "fst (parseEventStreamBuffer quote (sr_es st @ a) []) = None" if "source_data src = a @ b" for a b
    using assms(1) that by (auto simp: reader_ok_def)
  obtain r x where p: "parseEventStreamBuffer quote (sr_es st @ c) [] = (None, r, x)"
    using none [OF src(3)] by (metis prod.collapse)
  have p': "parseEventStreamBuffer quote (sr_es st @ c) (sr_sse st) = (None, r, sr_sse st @ x)"
    by (subst buffer_append_output) (simp add: p)
  let ?st = "st\<lparr>sr_es := r, sr_sse := sr_sse st @ x, sr_done := sr_done st \<or> e = Some EOF\<rparr>"
  have run: "readAndBuffer quote st src = (e, ?st, xs)"
    using ok(2,3) src(1) p' assms(2) by (auto simp: readAndBuffer_def EOF_def)
  have cont: "parseEventStreamBuffer quote (sr_es st @ c @ a) [] = parseEventStreamBuffer quote (r @ a) x" for a
    using buffer_incremental [OF p, of a] by simp
  have "fst (parseEventStreamBuffer quote (r @ a) []) = None" if "source_data xs = a @ b" for a b
    using none [of "c @ a" b] that src(3) cont [of a] buffer_append_output [of quote "r @ a" x]
    by (simp add: split_def Let_def)
  then have inv: "reader_ok quote ?st xs"
    using buffer_stuck [OF p] ok(1,3) assms(2) by (auto simp: reader_ok_def)
  have "still_to_come quote ?st xs = still_to_come quote st src"
    using cont [of "source_data xs"] buffer_append_output [of quote "r @ source_data xs" x]
    by (simp add: still_to_come_def src(3) split_def Let_def)
  then show ?thesis using run inv ok(3,4) src(2) by auto
qed

lemma reader_done: "reader_ok quote st src \<Longrightarrow> sr_done st \<Longrightarrow> still_to_come quote st src = sr_sse st"
  by (simp add: reader_ok_def still_to_come_def source_data_def)

lemma sse_Read_spec:
  assumes "reader_ok quote st src" and "0 < p"
  obtains (data) b st' src' where "sse_Read quote p st src = (Inr b, st', src')" "b \<noteq> []" "reader_ok quote st' src'"
      "still_to_come quote st src = b @ still_to_come quote st' src'"
  | (ended) st' src' where "sse_Read quote p st src = (Inl EOF, st', src')" "still_to_come quote st src = []"
  using assms
proof (induction "length src + (if sr_sse st = [] then 1 else 0)" arbitrary: st src thesis rule: less_induct)
  case less
  note data = less.prems(1) and ended = less.prems(2)
  show ?case
  proof (cases "sr_sse st = []")
    case False
    show ?thesis
      by (rule data [of "take p (sr_sse st)" "st\<lparr>sr_sse := drop p (sr_sse st)\<rparr>" src])
        (use False less.prems(3,4) in \<open>auto simp: sse_Read.simps [of quote p st] reader_ok_def still_to_come_def\<close>)
  next
    case empty: True
    show ?thesis
    proof (cases "sr_done st")
      case True
      then show ?thesis
        using ended [of st src] empty reader_done [OF less.prems(3)] by (simp add: sse_Read.simps [of quote p st])
    next
      case False
      obtain e st' where r: "readAndBuffer quote st src = (e, st', tl src)" "e = None \<or> e = Some EOF \<and> sr_done st'"
        "reader_ok quote st' (tl src)" "still_to_come quote st' (tl src) = still_to_come quote st src" "src = [] \<longrightarrow> e = Some EOF"
        using readAndBuffer_ok [OF less.prems(3) False] by blast
      have eof: "errors_is EOF EOF" by (simp add: EOF_def)
      show ?thesis
      proof (cases "e = Some EOF \<and> sr_sse st' = []")
        case True
        have "sr_done st'" using True r(2) by simp
        have "sse_Read quote p st src = (Inl EOF, st', tl src)"
          using r(1) empty False True eof by (simp add: sse_Read.simps [of quote p st])
        then show ?thesis
          using reader_done [OF r(3) \<open>sr_done st'\<close>] r(4) True by (intro ended) simp_all
      next
        case go: False
        have next': "sse_Read quote p st src = sse_Read quote p st' (tl src)"
          using r(1,2) empty False go eof by (auto simp: sse_Read.simps [of quote p st])
        have "length (tl src) + (if sr_sse st' = [] then 1 else 0) < length src + (if sr_sse st = [] then 1 else 0)"
          using empty go r(2,5) by (cases src) auto
        from less.hyps [OF this _ _ r(3) less.prems(4)] show ?thesis
          using data ended unfolding next' r(4) by metis
      qed
    qed
  qed
qed

lemma read_all:
  assumes "reader_ok quote st src" and "0 < p" and "length (still_to_come quote st src) < n"
  shows "read_until_error quote p n st src = (still_to_come quote st src, Some EOF)"
  using assms
proof (induction n arbitrary: st src)
  case (Suc n)
  show ?case
  proof (cases rule: sse_Read_spec [OF Suc.prems(1,2), case_names data ended])
    case (data b st' src')
    then have "length (still_to_come quote st' src') < n" using Suc.prems(3) by (cases b) auto
    from Suc.IH [OF data(3) Suc.prems(2) this] show ?thesis using data by simp
  qed simp
qed simp

section \<open>Frames in chunks\<close>

definition intact :: "bytes \<Rightarrow> bool" where
  "intact b \<longleftrightarrow> framed b \<and> (\<exists>m n. ParseEventStreamMessage b = Inr (m, n))"

definition corrupt :: "bytes \<Rightarrow> bool" where
  "corrupt b \<longleftrightarrow> framed b \<and>
     (ParseEventStreamMessage b = Inl (OtherError ''eventstream: prelude CRC mismatch'') \<or>
      ParseEventStreamMessage b = Inl (OtherError ''eventstream: message CRC mismatch''))"

definition waits :: "bytes \<Rightarrow> bool" where
  "waits b \<longleftrightarrow> (\<exists>e. ParseEventStreamMessage b = Inl (OtherError e))"

lemma waits_buffer: "waits b \<Longrightarrow> parseEventStreamBuffer quote b s = (None, b, s)"
  by (auto simp: waits_def parseEventStreamBuffer.simps [of quote b])

lemma partial_waits: "framed b \<Longrightarrow> k < length b \<Longrightarrow> waits (take k b)"
  using framed_len [of b]
  by (auto simp: waits_def ParseEventStreamMessage_def parseAndValidatePrelude_def Let_def min_def framed_def)

lemma parse_intact:
  assumes "intact b"
  obtains m where "ParseEventStreamMessage (b @ r) = Inr (m, length b)" "convert quote b = FormatMessageAsSSE quote (Some m)"
proof -
  obtain m n where m: "ParseEventStreamMessage b = Inr (m, n)" and f: "framed b" using assms by (auto simp: intact_def)
  have "n = unat (get32 (take 4 b))"
    using m by (auto simp: ParseEventStreamMessage_def parseAndValidatePrelude_def Let_def split: if_splits sum.splits option.splits)
  then have "n = length b" using framed_len [OF f] by simp
  with that m parse_append [OF m, of r] show ?thesis by (simp add: convert_def)
qed

lemma corrupt_waits:
  assumes "corrupt b"
  shows "waits (b @ r)"
proof -
  have f: "framed b" and len: "16 \<le> length b" and tot: "unat (get32 (take 4 b)) = length b"
    using assms framed_len [of b] by (auto simp: corrupt_def framed_def)
  have prelude: "parseAndValidatePrelude (b @ r) =
      (if crc32c (take 8 b) \<noteq> get32 (take 4 (drop 8 b)) then Inl (OtherError ''eventstream: prelude CRC mismatch'')
       else Inr (get32 (take 4 b), get32 (take 4 (drop 4 b))))" for r
    using len tot by (simp add: parseAndValidatePrelude_def Let_def take_append drop_append)
  have "unat (get32 (take 4 b) - 4) = length b - 4"
    using tot len by (simp add: unat_sub word_le_nat_alt)
  then have crc: "verifyMessageCRC (b @ r) (get32 (take 4 b)) = verifyMessageCRC b (get32 (take 4 b))"
    using len by (simp add: verifyMessageCRC_def Let_def take_append drop_append)
  have no: "out_of_range \<noteq> OtherError e" for e by (simp add: out_of_range_def)
  show ?thesis
  proof (cases "crc32c (take 8 b) = get32 (take 4 (drop 8 b)) \<and> verifyMessageCRC b (get32 (take 4 b)) = None")
    case True
    then show ?thesis
      using assms len prelude [of "[]"] no
      by (auto simp: corrupt_def ParseEventStreamMessage_def Let_def split: option.splits sum.splits)
  next
    case False
    then show ?thesis
      using len prelude [of r] crc
      by (auto simp: waits_def ParseEventStreamMessage_def verifyMessageCRC_def Let_def)
  qed
qed

lemma buffer_intact:
  assumes "intact b"
  shows "parseEventStreamBuffer quote (b @ r) s = parseEventStreamBuffer quote r (s @ convert quote b)"
proof -
  obtain m where "ParseEventStreamMessage (b @ r) = Inr (m, length b)" "convert quote b = FormatMessageAsSSE quote (Some m)"
    by (rule parse_intact [OF assms])
  then show ?thesis by (simp add: parseEventStreamBuffer.simps [of quote "b @ r"])
qed

lemma buffer_frames:
  assumes "\<forall>b \<in> set bs. intact b"
  shows "parseEventStreamBuffer quote (concat bs @ r) s = parseEventStreamBuffer quote r (s @ concat (map (convert quote) bs))"
  using assms by (induction bs arbitrary: s) (simp_all add: buffer_intact)

text \<open>Frames, and then bytes that never complete a message.\<close>

lemma prefix_of_frames:
  assumes "\<forall>b \<in> set bs. intact b" and "\<And>k. waits (take k t)" and "concat bs @ t = a @ c"
  shows "fst (parseEventStreamBuffer quote a s) = None"
  using assms(1,3)
proof (induction bs arbitrary: a s)
  case Nil
  then have "a = take (length a) t" by simp
  with assms(2) [of "length a"] show ?case by (simp add: waits_buffer)
next
  case (Cons b bs)
  show ?case
  proof (cases "length a < length b")
    case True
    have "a = take (length a) ((b @ concat bs) @ t)" using Cons.prems(2) by simp
    then have "a = take (length a) b" using True by simp
    then show ?thesis
      using partial_waits [of b "length a"] True Cons.prems(1) by (simp add: intact_def waits_buffer)
  next
    case False
    have eq: "b @ concat bs @ t = a @ c" using Cons.prems(2) by simp
    then have "take (length b) a = b" using False by (metis append_eq_conv_conj linorder_not_less take_append take_eq_Nil2 diff_is_0_eq append_Nil2 take0)
    then obtain a' where a: "a = b @ a'" "concat bs @ t = a' @ c"
      using eq by (metis append.assoc append_take_drop_id same_append_eq)
    then show ?thesis
      using Cons.IH [OF _ a(2)] Cons.prems(1) by (simp add: buffer_intact)
  qed
qed

lemma body_of_frames:
  assumes "\<forall>b \<in> set bs. intact b" "\<And>k. waits (take k t)" "ok_source src" "source_data src = concat bs @ t" "0 < p"
    and "length (concat (map (convert quote) bs)) < n"
  shows "read_until_error quote p n newEventStreamToSSEBody src = (concat (map (convert quote) bs), Some EOF)"
proof -
  have w: "waits t" using assms(2) [of "length t"] by simp
  have "waits []" by (simp add: waits_def ParseEventStreamMessage_def)
  then have ok: "reader_ok quote newEventStreamToSSEBody src"
    using prefix_of_frames [OF assms(1,2)] assms(3,4)
    by (simp add: reader_ok_def newEventStreamToSSEBody_def waits_buffer)
  have all: "still_to_come quote newEventStreamToSSEBody src = concat (map (convert quote) bs)"
    using buffer_frames [OF assms(1), where r = t and s = "[]"] waits_buffer [OF w] assms(4)
    by (simp add: still_to_come_def newEventStreamToSSEBody_def)
  show ?thesis using read_all [OF ok assms(5)] assms(6) unfolding all by simp
qed

text \<open>
  C21: The body that replaces an Event Stream response does not depend on how the stream is cut: whatever chunks the
  frames arrive in and whatever buffer the client reads with, the client gets the SSE texts of the frames, in
  order and complete, and then the end of the stream.
\<close>

theorem sse_body_chunks:
  assumes "\<forall>b \<in> set bs. intact b" "ok_source src" "source_data src = concat bs" "0 < p"
    and "length (concat (map (convert quote) bs)) < n"
  shows "read_until_error quote p n newEventStreamToSSEBody src = (concat (map (convert quote) bs), Some EOF)"
  by (rule body_of_frames [where t = "[]"]) (use assms in \<open>simp_all add: waits_def ParseEventStreamMessage_def\<close>)

text \<open>Two messages, cut in the middle of the second, read one byte at a time.\<close>

definition ping_frame :: bytes where
  "ping_frame = encode_message [(bytes_of '':event-type'', bytes_of ''ping'')] (bytes_of ''{}'')"

lemma ping_fits:
  "\<forall>h \<in> set [(bytes_of '':event-type'', bytes_of ''ping'')]. header_fits h"
  "16 + length (encode_headers [(bytes_of '':event-type'', bytes_of ''ping'')]) + length (bytes_of ''{}'') < 2 ^ 32"
  by (simp_all add: header_fits_def bytes_of_def encode_headers_def encode_header_def)

lemma ping_intact: "intact ping_frame" "convert quote ping_frame = formatSSEEvent (bytes_of ''ping'') (bytes_of ''{}'')"
  "10 < length ping_frame" "ping_frame \<noteq> []" "drop 10 ping_frame \<noteq> []"
proof -
  show len: "10 < length ping_frame" by (simp add: ping_frame_def encode_message_def)
  show "ping_frame \<noteq> []" "drop 10 ping_frame \<noteq> []" using len by auto
  show "intact ping_frame"
    unfolding intact_def ping_frame_def using framed_encode [OF ping_fits(2)] parse_encoded_message [OF ping_fits, of "[]"] by simp
  show "convert quote ping_frame = formatSSEEvent (bytes_of ''ping'') (bytes_of ''{}'')"
    unfolding ping_frame_def no_panic_encode(2) [OF ping_fits]
    by (simp add: FormatMessageAsSSE_def header_of_def) (simp add: bytes_of_def)
qed

lemma sse_body_chunks_witness:
  "read_until_error id 1 1000 newEventStreamToSSEBody
      [(ping_frame @ take 10 ping_frame, None), (drop 10 ping_frame, Some EOF)] =
    (formatSSEEvent (bytes_of ''ping'') (bytes_of ''{}'') @ formatSSEEvent (bytes_of ''ping'') (bytes_of ''{}''), Some EOF)"
proof -
  have "length (formatSSEEvent (bytes_of ''ping'') (bytes_of ''{}'')) < 500"
    by (simp add: formatSSEEvent_def bytes_of_def mapBedrockEventType_def)
  then show ?thesis
    using sse_body_chunks [of "[ping_frame, ping_frame]"
        "[(ping_frame @ take 10 ping_frame, None), (drop 10 ping_frame, Some EOF)]" 1 id 1000] ping_intact
    by (simp add: source_data_def)
qed

text \<open>
  A frame that fails a checksum blocks this body: it is neither skipped nor reported, so that the client gets the
  events before it, none of those after it, and a regular end of the stream. The other converter, over the
  same bytes, skips the frame and goes on.
\<close>

lemma sse_body_stops_at_corruption:
  assumes "\<forall>b \<in> set bs \<union> set cs. intact b" "corrupt bad" "0 < p"
    and "ok_source src" "source_data src = concat bs @ bad @ concat cs"
    and "length (concat (map (convert quote) bs)) < n"
  shows "read_until_error quote p n newEventStreamToSSEBody src = (concat (map (convert quote) bs), Some EOF) \<and>
    concat (snd (processEventStream quote (\<lambda>_. None) (source_data src))) = concat (map (convert quote) (bs @ cs))"
proof
  have "waits (take k (bad @ concat cs))" for k
    using corrupt_waits [OF assms(2), of "take (k - length bad) (concat cs)"] partial_waits [of bad k] assms(2)
    by (cases "k < length bad") (auto simp: corrupt_def)
  then show "read_until_error quote p n newEventStreamToSSEBody src = (concat (map (convert quote) bs), Some EOF)"
    using assms by (intro body_of_frames [where t = "bad @ concat cs"]) auto
next
  have "no_panic b" if "intact b \<or> corrupt b" for b using that by (auto simp: intact_def corrupt_def no_panic_def)
  then have "\<forall>b \<in> set (bs @ [bad] @ cs). framed b \<and> no_panic b"
    using assms(1,2) by (auto simp: corrupt_def intact_def)
  from process_loop_frames [OF this, of quote 0 "[]" "[]"]
  have run: "snd (processEventStream quote (\<lambda>_. None) (source_data src)) =
      filter (\<lambda>x. x \<noteq> []) (map (convert quote) (bs @ [bad] @ cs))"
    using assms(5) by (simp add: processEventStream_def process_loop_EOF)
  have "concat (filter (\<lambda>x. x \<noteq> []) xs) = concat xs" for xs :: "bytes list" by (induction xs) auto
  moreover have "convert quote bad = []" using assms(2) by (auto simp: corrupt_def convert_def)
  ultimately show "concat (snd (processEventStream quote (\<lambda>_. None) (source_data src))) = concat (map (convert quote) (bs @ cs))"
    unfolding run by simp
qed

definition bad_frame :: bytes where
  "bad_frame = put32 16 @ put32 0 @ put32 (unat (crc32c (put32 16 @ put32 0) + 1)) @ put32 0"

lemma bad_frame_corrupt: "corrupt bad_frame"
proof -
  have len: "length bad_frame = 16" by (simp add: bad_frame_def)
  have tot: "get32 (take 4 bad_frame) = 16" by (simp add: bad_frame_def)
  have "take 8 bad_frame = put32 16 @ put32 0" by (simp add: bad_frame_def)
  moreover have "take 4 (drop 8 bad_frame) = put32 (unat (crc32c (put32 16 @ put32 0) + 1))" by (simp add: bad_frame_def)
  ultimately have "crc32c (take 8 bad_frame) \<noteq> get32 (take 4 (drop 8 bad_frame))" by simp
  then show ?thesis by (simp add: corrupt_def framed_def ParseEventStreamMessage_def parseAndValidatePrelude_def tot len)
qed

lemma sse_body_stops_at_corruption_witness:
  "read_until_error id 100 1000 newEventStreamToSSEBody [(ping_frame, None), (bad_frame @ ping_frame, Some EOF)] =
      (formatSSEEvent (bytes_of ''ping'') (bytes_of ''{}''), Some EOF) \<and>
    concat (snd (processEventStream id (\<lambda>_. None) (ping_frame @ bad_frame @ ping_frame))) =
      formatSSEEvent (bytes_of ''ping'') (bytes_of ''{}'') @ formatSSEEvent (bytes_of ''ping'') (bytes_of ''{}'')"
proof -
  have "length (formatSSEEvent (bytes_of ''ping'') (bytes_of ''{}'')) < 1000"
    by (simp add: formatSSEEvent_def bytes_of_def mapBedrockEventType_def)
  moreover have "ok_source [(ping_frame, None), (bad_frame @ ping_frame, Some EOF)]"
    using ping_intact(4) by simp
  ultimately show ?thesis
    using sse_body_stops_at_corruption [of "[ping_frame]" "[ping_frame]" bad_frame 100
        "[(ping_frame, None), (bad_frame @ ping_frame, Some EOF)]" id 1000, OF _ bad_frame_corrupt]
    by (simp add: ping_intact source_data_def)
qed

end
