(* ===== verification/Client_Auth.thy ===== *)
theory Client_Auth
  imports Config Error_Responses
begin

text \<open>
  The authentication of clients: the authenticators of \<open>internal/auth\<close> and the middleware that uses them
  (\<open>AuthMiddleware\<close>, \<open>MultiAuthMiddleware\<close> and \<open>LiveAuthMiddleware\<close> in \<open>internal/proxy/middleware.go\<close>).
  Keys and tokens are compared by their SHA-256 digests; the digest is an argument \<open>sha\<close>, and what is said of it
  is only that equal digests are accepted.
\<close>

section \<open>Authenticators\<close>

datatype auth_type = TypeAPIKey | TypeBearer | TypeNone

record auth_result =
  ar_Type :: auth_type
  ar_Error :: string
  ar_Token :: string
  ar_Valid :: bool

text \<open>A bearer authenticator without a secret (\<open>validateSecret\<close> is false) has no digest.\<close>

datatype 'h authenticator =
    APIKeyAuthenticator 'h
  | BearerAuthenticator "'h option"

definition NewAPIKeyAuthenticator :: "(string \<Rightarrow> 'h) \<Rightarrow> string \<Rightarrow> 'h authenticator" where
  "NewAPIKeyAuthenticator sha expectedKey = APIKeyAuthenticator (sha expectedKey)"

definition NewBearerAuthenticator :: "(string \<Rightarrow> 'h) \<Rightarrow> string \<Rightarrow> 'h authenticator" where
  "NewBearerAuthenticator sha secret = BearerAuthenticator (if secret \<noteq> '''' then Some (sha secret) else None)"

text \<open>\<open>strings.TrimSpace\<close> and \<open>strings.EqualFold\<close> on ASCII text.\<close>

definition is_space :: "char \<Rightarrow> bool" where
  "is_space c \<longleftrightarrow> (of_char c :: nat) \<in> {9, 10, 11, 12, 13, 32}"

definition TrimSpace :: "string \<Rightarrow> string" where
  "TrimSpace s = rev (dropWhile is_space (rev (dropWhile is_space s)))"

definition refused :: "auth_type \<Rightarrow> string \<Rightarrow> auth_result" where
  "refused t e = \<lparr>ar_Type = t, ar_Error = e, ar_Token = '''', ar_Valid = False\<rparr>"

definition accepted :: "auth_type \<Rightarrow> auth_result" where
  "accepted t = \<lparr>ar_Type = t, ar_Error = '''', ar_Token = '''', ar_Valid = True\<rparr>"

definition APIKey_Validate :: "(string \<Rightarrow> 'h) \<Rightarrow> 'h \<Rightarrow> header \<Rightarrow> auth_result" where
  "APIKey_Validate sha expectedHash r =
     (let providedKey = header_get r ''x-api-key''
      in if providedKey = '''' then refused TypeAPIKey ''missing x-api-key header''
         else if sha providedKey \<noteq> expectedHash then refused TypeAPIKey ''invalid x-api-key''
         else accepted TypeAPIKey)"

definition Bearer_Validate :: "(string \<Rightarrow> 'h) \<Rightarrow> 'h option \<Rightarrow> header \<Rightarrow> auth_result" where
  "Bearer_Validate sha secretHash r =
     (let authHeader = header_get r ''Authorization''
      in if authHeader = '''' then refused TypeBearer ''missing authorization header''
         else if length authHeader < 7 \<or> map to_lower (take 6 authHeader) \<noteq> ''bearer''
         then refused TypeBearer ''invalid authorization scheme''
         else let token = TrimSpace (drop 7 authHeader)
              in if token = '''' then refused TypeBearer ''empty bearer token''
                 else case secretHash of
                        None \<Rightarrow> accepted TypeBearer
                      | Some h \<Rightarrow> if sha token \<noteq> h then refused TypeBearer ''invalid bearer token'' else accepted TypeBearer)"

fun Validate_auth :: "(string \<Rightarrow> 'h) \<Rightarrow> 'h authenticator \<Rightarrow> header \<Rightarrow> auth_result" where
  "Validate_auth sha (APIKeyAuthenticator h) r = APIKey_Validate sha h r"
| "Validate_auth sha (BearerAuthenticator h) r = Bearer_Validate sha h r"

text \<open>
  The chain folds with \<open>lo.Reduce\<close>, an argument \<open>red\<close> whose contract is \<open>reduce_ok\<close>: from the left, from the initial value.
\<close>

type_synonym 'h lo_reduce =
  "(auth_result \<Rightarrow> 'h authenticator \<Rightarrow> auth_result) \<Rightarrow> auth_result \<Rightarrow> 'h authenticator list \<Rightarrow> auth_result"

definition reduce_ok :: "'h lo_reduce \<Rightarrow> bool" where
  "reduce_ok red \<longleftrightarrow> (\<forall>f a xs. red f a xs = foldl f a xs)"

definition Chain_Validate :: "'h lo_reduce \<Rightarrow> (string \<Rightarrow> 'h) \<Rightarrow> 'h authenticator list \<Rightarrow> header \<Rightarrow> auth_result" where
  "Chain_Validate red sha authenticators r =
     (if authenticators = [] then refused TypeNone ''no authentication configured''
      else let result = red (\<lambda>acc a. if ar_Valid acc then acc else Validate_auth sha a r) (refused TypeNone '''') authenticators
           in if \<not> ar_Valid result then refused TypeNone (ar_Error result) else result)"

section \<open>The middleware\<close>

text \<open>
  The answer of a middleware that stops the request, or \<^term>\<open>None\<close> when the next handler is called. \<open>writer\<close> are the
  headers of the response so far.
\<close>

definition failAuth :: "header \<Rightarrow> string \<Rightarrow> response" where
  "failAuth writer reason = WriteError writer 401 ''authentication_error'' reason"

definition AuthMiddleware :: "(string \<Rightarrow> 'h) \<Rightarrow> string \<Rightarrow> header \<Rightarrow> header \<Rightarrow> response option" where
  "AuthMiddleware sha expectedAPIKey writer r =
     (let providedKey = header_get r ''x-api-key''
      in if providedKey = '''' then Some (failAuth writer ''missing x-api-key header'')
         else if sha providedKey \<noteq> sha expectedAPIKey then Some (failAuth writer ''invalid x-api-key'')
         else None)"

definition handleAuthResult :: "header \<Rightarrow> auth_result \<Rightarrow> response option" where
  "handleAuthResult writer result =
     (if \<not> ar_Valid result then Some (WriteError writer 401 ''authentication_error'' (ar_Error result)) else None)"

definition configured_authenticators :: "(string \<Rightarrow> 'h) \<Rightarrow> auth_config \<Rightarrow> string \<Rightarrow> 'h authenticator list" where
  "configured_authenticators sha authConfig key =
     (if IsBearerEnabled authConfig then [NewBearerAuthenticator sha (au_BearerSecret authConfig)] else []) @
     (if key \<noteq> '''' then [NewAPIKeyAuthenticator sha key] else [])"

definition MultiAuthMiddleware ::
    "'h lo_reduce \<Rightarrow> (string \<Rightarrow> 'h) \<Rightarrow> auth_config \<Rightarrow> header \<Rightarrow> header \<Rightarrow> response option" where
  "MultiAuthMiddleware red sha authConfig writer r =
     (let authenticators = configured_authenticators sha authConfig (au_APIKey authConfig)
      in if authenticators = [] then None
         else handleAuthResult writer (Chain_Validate red sha authenticators r))"

text \<open>The chain of the live middleware: nothing, one authenticator, or several.\<close>

datatype 'h chain = NoChain | OneAuth "'h authenticator" | ChainAuthenticator "'h authenticator list"

record 'h auth_cache =
  ac_chain :: "'h chain"
  ac_fingerprint :: string

definition cached :: "'h auth_cache option \<Rightarrow> string \<Rightarrow> 'h auth_cache option" where
  "cached s fp = (case s of Some c \<Rightarrow> if ac_fingerprint c = fp then Some c else None | None \<Rightarrow> None)"

definition buildAuthCache :: "(string \<Rightarrow> 'h) \<Rightarrow> string \<Rightarrow> auth_config \<Rightarrow> string \<Rightarrow> 'h auth_cache" where
  "buildAuthCache sha fp authConfig effectiveKey =
     \<lparr>ac_chain = (case configured_authenticators sha authConfig effectiveKey of
          [] \<Rightarrow> NoChain | [a] \<Rightarrow> OneAuth a | as \<Rightarrow> ChainAuthenticator as),
      ac_fingerprint = fp\<rparr>"

definition getOrBuild ::
    "(string \<Rightarrow> 'h) \<Rightarrow> string \<Rightarrow> auth_config \<Rightarrow> string \<Rightarrow> 'h auth_cache option \<Rightarrow> 'h auth_cache \<times> 'h auth_cache option" where
  "getOrBuild sha fp authConfig effectiveKey s =
     (case cached s fp of
        Some c \<Rightarrow> (c, s)
      | None \<Rightarrow> (let c = buildAuthCache sha fp authConfig effectiveKey in (c, Some c)))"

definition authFingerprint :: "bool \<Rightarrow> string \<Rightarrow> string \<Rightarrow> string" where
  "authFingerprint bearerEnabled bearerSecret apiKey =
     ''b'' @ (if bearerEnabled then ''1'' else ''0'') @ ''|'' @ itoa (int (length bearerSecret)) @ '':'' @ bearerSecret @
     ''|'' @ itoa (int (length apiKey)) @ '':'' @ apiKey"

fun chain_Validate :: "'h lo_reduce \<Rightarrow> (string \<Rightarrow> 'h) \<Rightarrow> 'h chain \<Rightarrow> header \<Rightarrow> auth_result option" where
  "chain_Validate red sha NoChain r = None"
| "chain_Validate red sha (OneAuth a) r = Some (Validate_auth sha a r)"
| "chain_Validate red sha (ChainAuthenticator as) r = Some (Chain_Validate red sha as r)"

definition LiveAuthMiddleware ::
    "'h lo_reduce \<Rightarrow> (string \<Rightarrow> 'h) \<Rightarrow> config option \<Rightarrow> header \<Rightarrow> header \<Rightarrow> 'h auth_cache option \<Rightarrow>
     response option \<times> 'h auth_cache option" where
  "LiveAuthMiddleware red sha cfg writer r s =
     (case cfg of
        None \<Rightarrow> (None, s)
      | Some cfg \<Rightarrow>
          (let authConfig = sv_Auth (cf_Server cfg);
               effectiveKey = GetEffectiveAPIKey (cf_Server cfg);
               fp = authFingerprint (IsBearerEnabled authConfig) (au_BearerSecret authConfig) effectiveKey;
               (c, s) = getOrBuild sha fp authConfig effectiveKey s
           in (case chain_Validate red sha (ac_chain c) r of
                 None \<Rightarrow> None
               | Some result \<Rightarrow> handleAuthResult writer result, s)))"

end
