(* ===== verification/Client_Auth_Facts.thy ===== *)
theory Client_Auth_Facts
  imports Client_Auth Proxy_Auth Pool_Service
begin

text \<open>
  What the authentication of clients guarantees: which requests pass, that the cached chain is always the one of the
  current configuration, and what becomes of the client's credentials afterwards.
\<close>

section \<open>The fingerprint\<close>

lemma digits_colon:
  assumes "nat_digits m @ CHR '':'' # s = nat_digits n @ CHR '':'' # t"
  shows "m = n \<and> s = t"
proof -
  have no: "CHR '':'' \<notin> set (nat_digits k)" for k
    using nat_digits_digits [of k] by (auto simp: list_all_iff is_digit_def)
  have "takeWhile (\<lambda>c. c \<noteq> CHR '':'') (nat_digits k @ CHR '':'' # u) = nat_digits k" for k u
    using no [of k] by (subst takeWhile_append2) auto
  with assms have "nat_digits m = nat_digits n" by metis
  with assms show ?thesis by (auto dest: nat_digits_inj)
qed

lemma authFingerprint_inj:
  assumes "authFingerprint b s k = authFingerprint b' s' k'"
  shows "b = b' \<and> s = s' \<and> k = k'"
proof -
  have b: "b = b'" and "nat_digits (length s) @ CHR '':'' # s @ CHR ''|'' # nat_digits (length k) @ CHR '':'' # k =
      nat_digits (length s') @ CHR '':'' # s' @ CHR ''|'' # nat_digits (length k') @ CHR '':'' # k'"
    using assms by (auto simp: authFingerprint_def itoa_def split: if_splits)
  from digits_colon [OF this(2)] have "s = s'"
    "nat_digits (length k) @ CHR '':'' # k = nat_digits (length k') @ CHR '':'' # k'" by auto
  from b this(1) digits_colon [OF this(2)] show ?thesis by simp
qed

section \<open>The decision\<close>

text \<open>What the authenticators of a configuration decide: the first that accepts, or the error of the last.\<close>

definition auth_decision :: "(string \<Rightarrow> 'h) \<Rightarrow> 'h authenticator list \<Rightarrow> header \<Rightarrow> header \<Rightarrow> response option" where
  "auth_decision sha as writer r =
     (if as = [] \<or> (\<exists>a \<in> set as. ar_Valid (Validate_auth sha a r)) then None
      else Some (WriteError writer 401 ''authentication_error'' (ar_Error (Validate_auth sha (last as) r))))"

lemma foldl_valid: "ar_Valid acc \<Longrightarrow> foldl (\<lambda>acc a. if ar_Valid acc then acc else f a) acc as = acc"
  by (induction as) auto

lemma foldl_auth:
  "\<not> ar_Valid acc \<Longrightarrow>
   (let res = foldl (\<lambda>acc a. if ar_Valid acc then acc else f a) acc as
    in (ar_Valid res \<longleftrightarrow> (\<exists>a \<in> set as. ar_Valid (f a))) \<and> (\<not> ar_Valid res \<longrightarrow> res = (if as = [] then acc else f (last as))))"
proof (induction as arbitrary: acc)
  case (Cons a as)
  show ?case
  proof (cases "ar_Valid (f a)")
    case True
    then show ?thesis using Cons.prems by (simp add: foldl_valid Let_def)
  next
    case False
    then show ?thesis using Cons.IH [OF False] Cons.prems by (cases "as = []") (simp_all add: Let_def)
  qed
qed simp

lemma Chain_decision:
  assumes "reduce_ok red" and "as \<noteq> []"
  shows "handleAuthResult writer (Chain_Validate red sha as r) = auth_decision sha as writer r"
proof -
  have "\<not> ar_Valid (refused TypeNone '''')" by (simp add: refused_def)
  from foldl_auth [OF this, of "\<lambda>a. Validate_auth sha a r" as] show ?thesis
    using assms by (auto simp: Chain_Validate_def handleAuthResult_def auth_decision_def reduce_ok_def refused_def Let_def)
qed

lemma built_decision:
  assumes "reduce_ok red"
  shows "(case chain_Validate red sha (ac_chain (buildAuthCache sha fp a k)) r of
      None \<Rightarrow> None | Some result \<Rightarrow> handleAuthResult writer result) =
    auth_decision sha (configured_authenticators sha a k) writer r"
proof (cases "configured_authenticators sha a k")
  case (Cons x xs)
  then show ?thesis
    using Chain_decision [OF assms, of "x # xs" writer sha r]
    by (cases xs) (auto simp: buildAuthCache_def auth_decision_def handleAuthResult_def)
qed (simp add: buildAuthCache_def auth_decision_def)

text \<open>A cache holds the chain of the settings its fingerprint stands for.\<close>

definition auth_cache_ok :: "(string \<Rightarrow> 'h) \<Rightarrow> 'h auth_cache option \<Rightarrow> bool" where
  "auth_cache_ok sha s \<longleftrightarrow>
     (\<forall>c. s = Some c \<longrightarrow> (\<exists>a k. c = buildAuthCache sha (authFingerprint (IsBearerEnabled a) (au_BearerSecret a) k) a k))"

lemma build_by_fingerprint:
  "IsBearerEnabled a = IsBearerEnabled a' \<Longrightarrow> au_BearerSecret a = au_BearerSecret a' \<Longrightarrow>
   buildAuthCache sha fp a k = buildAuthCache sha fp a' k"
  by (simp add: buildAuthCache_def configured_authenticators_def)

definition config_decision :: "(string \<Rightarrow> 'h) \<Rightarrow> config option \<Rightarrow> header \<Rightarrow> header \<Rightarrow> response option" where
  "config_decision sha cfg writer r =
     (case cfg of
        None \<Rightarrow> None
      | Some cfg \<Rightarrow>
          auth_decision sha
            (configured_authenticators sha (sv_Auth (cf_Server cfg)) (GetEffectiveAPIKey (cf_Server cfg))) writer r)"

lemma live_step:
  assumes "reduce_ok red" and "auth_cache_ok sha s"
  shows "\<exists>s'. LiveAuthMiddleware red sha cfg writer r s = (config_decision sha cfg writer r, s') \<and> auth_cache_ok sha s'"
proof (cases cfg)
  case None
  then show ?thesis using assms(2) by (simp add: LiveAuthMiddleware_def config_decision_def)
next
  case (Some cf)
  let ?a = "sv_Auth (cf_Server cf)" and ?k = "GetEffectiveAPIKey (cf_Server cf)"
  let ?fp = "authFingerprint (IsBearerEnabled ?a) (au_BearerSecret ?a) ?k"
  have "\<exists>s'. getOrBuild sha ?fp ?a ?k s = (buildAuthCache sha ?fp ?a ?k, s') \<and> auth_cache_ok sha s'"
  proof (cases "cached s ?fp")
    case None
    then show ?thesis by (auto simp: getOrBuild_def auth_cache_ok_def Let_def)
  next
    case (Some c)
    then have s: "s = Some c" "ac_fingerprint c = ?fp" by (auto simp: cached_def split: option.splits if_splits)
    then obtain a k where c: "c = buildAuthCache sha (authFingerprint (IsBearerEnabled a) (au_BearerSecret a) k) a k"
      using assms(2) by (auto simp: auth_cache_ok_def)
    with s(2) have "authFingerprint (IsBearerEnabled a) (au_BearerSecret a) k = ?fp" by (simp add: buildAuthCache_def)
    note eq = authFingerprint_inj [OF this]
    then have "c = buildAuthCache sha ?fp ?a ?k"
      unfolding c using build_by_fingerprint [of a ?a sha ?fp k] by simp
    with Some assms(2) show ?thesis by (simp add: getOrBuild_def)
  qed
  with Some show ?thesis
    using built_decision [OF assms(1), where sha = sha and fp = ?fp and a = ?a and k = ?k]
    by (auto simp: LiveAuthMiddleware_def config_decision_def Let_def)
qed

section \<open>Properties\<close>

text \<open>Requests one after the other, each under the configuration of its time.\<close>

fun live_answers ::
    "'h lo_reduce \<Rightarrow> (string \<Rightarrow> 'h) \<Rightarrow> 'h auth_cache option \<Rightarrow> (config option \<times> header \<times> header) list \<Rightarrow> response option list" where
  "live_answers red sha s [] = []"
| "live_answers red sha s ((cfg, writer, r) # rest) =
     (let (a, s) = LiveAuthMiddleware red sha cfg writer r s in a # live_answers red sha s rest)"

text \<open>
  C8: The cache of authenticators is never stale. In any sequence of requests and reloads, each request is decided by the
  authenticators of the configuration at that time, as if they were built for it: it passes when one of them
  accepts or none is configured, and otherwise gets 401 with the error of the last one. In particular two
  configurations never share a fingerprint, whatever delimiters the secrets contain.
\<close>

theorem live_auth_current:
  assumes "reduce_ok red"
  shows "live_answers red sha None reqs = map (\<lambda>(cfg, writer, r). config_decision sha cfg writer r) reqs"
proof -
  have "live_answers red sha s reqs = map (\<lambda>(cfg, writer, r). config_decision sha cfg writer r) reqs"
    if "auth_cache_ok sha s" for s
    using that
  proof (induction reqs arbitrary: s)
    case (Cons x reqs)
    obtain cfg writer r where x: "x = (cfg, writer, r)" by (cases x)
    obtain s' where "LiveAuthMiddleware red sha cfg writer r s = (config_decision sha cfg writer r, s')" "auth_cache_ok sha s'"
      using live_step [OF assms Cons.prems] by blast
    then show ?case using Cons.IH [of s'] x by simp
  qed simp
  then show ?thesis by (simp add: auth_cache_ok_def)
qed


text \<open>A request carries a bearer token, or a key, that the configuration accepts.\<close>

definition bearer_credential :: "(string \<Rightarrow> 'h) \<Rightarrow> string \<Rightarrow> header \<Rightarrow> bool" where
  "bearer_credential sha secret r \<longleftrightarrow>
     (\<exists>scheme c token. header_get r ''Authorization'' = scheme @ c # token \<and> map to_lower scheme = ''bearer'' \<and>
        TrimSpace token \<noteq> '''' \<and> (secret = '''' \<or> sha (TrimSpace token) = sha secret))"

definition key_credential :: "(string \<Rightarrow> 'h) \<Rightarrow> string \<Rightarrow> header \<Rightarrow> bool" where
  "key_credential sha key r \<longleftrightarrow> header_get r ''x-api-key'' \<noteq> '''' \<and> sha (header_get r ''x-api-key'') = sha key"

lemma Bearer_Validate_valid:
  "ar_Valid (Validate_auth sha (NewBearerAuthenticator sha secret) r) \<longleftrightarrow> bearer_credential sha secret r"
proof -
  let ?h = "header_get r ''Authorization''"
  have split: "(\<exists>scheme c token. ?h = scheme @ c # token \<and> map to_lower scheme = ''bearer'' \<and> P token) \<longleftrightarrow>
      7 \<le> length ?h \<and> map to_lower (take 6 ?h) = ''bearer'' \<and> P (drop 7 ?h)" for P
  proof (intro iffI; elim exE conjE)
    fix scheme c token
    assume h: "?h = scheme @ c # token" "map to_lower scheme = ''bearer''" "P token"
    have "length (map to_lower scheme) = 6" by (subst h(2)) simp
    then have "length scheme = 6" by (simp only: length_map)
    with h show "7 \<le> length ?h \<and> map to_lower (take 6 ?h) = ''bearer'' \<and> P (drop 7 ?h)" by simp
  next
    assume h: "7 \<le> length ?h" "map to_lower (take 6 ?h) = ''bearer''" "P (drop 7 ?h)"
    have "Suc 6 = 7" by simp
    then have "?h = take 6 ?h @ ?h ! 6 # drop 7 ?h" using id_take_nth_drop [of 6 ?h] h(1) by (metis Suc_le_lessD)
    then show "\<exists>scheme c token. ?h = scheme @ c # token \<and> map to_lower scheme = ''bearer'' \<and> P token"
      by (intro exI [of _ "take 6 ?h"] exI [of _ "?h ! 6"] exI [of _ "drop 7 ?h"] conjI h)
  qed
  show ?thesis
    unfolding bearer_credential_def split
    by (auto simp: NewBearerAuthenticator_def Bearer_Validate_def accepted_def refused_def Let_def)
qed

lemma APIKey_Validate_valid:
  "ar_Valid (Validate_auth sha (NewAPIKeyAuthenticator sha key) r) \<longleftrightarrow> key_credential sha key r"
  by (auto simp: NewAPIKeyAuthenticator_def APIKey_Validate_def key_credential_def accepted_def refused_def Let_def)

lemma live_admission:
  assumes "reduce_ok red" and "auth_cache_ok sha s"
    and "LiveAuthMiddleware red sha (Some cfg) writer r s = (answer, s')"
    and "a = sv_Auth (cf_Server cfg)" and "key = GetEffectiveAPIKey (cf_Server cfg)"
  shows "(answer = None \<longleftrightarrow>
      \<not> IsBearerEnabled a \<and> key = '''' \<or>
      IsBearerEnabled a \<and> bearer_credential sha (au_BearerSecret a) r \<or>
      key \<noteq> '''' \<and> key_credential sha key r) \<and>
    (\<forall>resp. answer = Some resp \<longrightarrow> rs_StatusCode resp = 401)"
proof -
  have "answer = config_decision sha (Some cfg) writer r" using live_step [OF assms(1,2), of "Some cfg" writer r] assms(3) by auto
  then show ?thesis
    unfolding assms(4,5)
    by (simp add: config_decision_def auth_decision_def configured_authenticators_def Bearer_Validate_valid
        APIKey_Validate_valid WriteError_def writeJSON_def)
qed

text \<open>
  C23: Who passes the live middleware: everyone when nothing is configured, and otherwise exactly the requests with a bearer
  token that has the digest of the secret (any token that is not blank, when bearer is enabled without a secret), or with
  a key that has the digest of the effective key. The others get 401.
\<close>

theorem live_auth_admission:
  assumes "reduce_ok red" and "auth_cache_ok sha s"
    and "LiveAuthMiddleware red sha (Some cfg) writer r s = (answer, s')"
    and "a = sv_Auth (cf_Server cfg)" and "key = GetEffectiveAPIKey (cf_Server cfg)"
  shows "(answer = None \<longleftrightarrow>
      \<not> IsBearerEnabled a \<and> key = '''' \<or>
      IsBearerEnabled a \<and> bearer_credential sha (au_BearerSecret a) r \<or>
      key \<noteq> '''' \<and> key_credential sha key r) \<and>
    (\<forall>resp. answer = Some resp \<longrightarrow> rs_StatusCode resp = 401)"
  by (rule live_admission [OF assms])

text \<open>
  The static middleware of \<open>SetupRoutesWithProviders\<close>: the configured methods, or else the key of the server.
\<close>

definition static_auth :: "'h lo_reduce \<Rightarrow> (string \<Rightarrow> 'h) \<Rightarrow> server_config \<Rightarrow> header \<Rightarrow> header \<Rightarrow> response option" where
  "static_auth red sha sv writer r =
     (if Auth_IsEnabled (sv_Auth sv) then MultiAuthMiddleware red sha (sv_Auth sv) writer r
      else if sv_APIKey sv \<noteq> '''' then AuthMiddleware sha (sv_APIKey sv) writer r else None)"

text \<open>
  The static and the live middleware agree, down to the text of the answer, unless bearer tokens are enabled together with
  the old key of the server and no key of its own: then the live one takes that key too.
\<close>

lemma static_live_agree:
  assumes "reduce_ok red" and "auth_cache_ok sha s"
    and "\<not> IsBearerEnabled (sv_Auth (cf_Server cfg)) \<or> au_APIKey (sv_Auth (cf_Server cfg)) \<noteq> '''' \<or>
      sv_APIKey (cf_Server cfg) = ''''"
  shows "static_auth red sha (cf_Server cfg) writer r = fst (LiveAuthMiddleware red sha (Some cfg) writer r s)"
proof -
  let ?sv = "cf_Server cfg"
  let ?as = "\<lambda>k. configured_authenticators sha (sv_Auth ?sv) k"
  have live: "fst (LiveAuthMiddleware red sha (Some cfg) writer r s) = auth_decision sha (?as (GetEffectiveAPIKey ?sv)) writer r"
    using live_step [OF assms(1,2), of "Some cfg" writer r] by (auto simp: config_decision_def)
  have multi: "MultiAuthMiddleware red sha (sv_Auth ?sv) writer r = auth_decision sha (?as (au_APIKey (sv_Auth ?sv))) writer r"
    using Chain_decision [OF assms(1)] by (simp add: MultiAuthMiddleware_def auth_decision_def Let_def)
  have legacy: "AuthMiddleware sha k writer r = auth_decision sha [NewAPIKeyAuthenticator sha k] writer r" for k
    by (auto simp: AuthMiddleware_def auth_decision_def NewAPIKeyAuthenticator_def APIKey_Validate_def failAuth_def
        accepted_def refused_def Let_def)
  show ?thesis
    using assms(3) unfolding live static_auth_def multi legacy
    by (auto simp: GetEffectiveAPIKey_def Auth_IsEnabled_def IsBearerEnabled_def configured_authenticators_def auth_decision_def)
qed

text \<open>
  With client authentication on, the keys configured for Anthropic are never used. Every request that passes carries
  credentials; the handler takes them for the client's own credentials at the provider, selects no key, and sends
  them on, the secret of this proxy among them.
\<close>

lemma auth_disables_anthropic_keys:
  assumes "reduce_ok red" and "auth_cache_ok sha s"
    and "LiveAuthMiddleware red sha (Some cfg) writer r s = (None, s')"
    and "IsBearerEnabled (sv_Auth (cf_Server cfg)) \<or> GetEffectiveAPIKey (cf_Server cfg) \<noteq> ''''"
    and "p = AnthropicProvider b"
  shows "handleAuthAndKeySelection RL fl L envs now show_err writer p apiKey r pool = (Proceed r None writer, pool) \<and>
    setAuth cl p apiKey r body r ''Authorization'' = r ''Authorization'' \<and>
    setAuth cl p apiKey r body r ''X-Api-Key'' = r ''X-Api-Key''"
proof -
  have "bearer_credential sha secret r \<longrightarrow> header_get r ''Authorization'' \<noteq> ''''" for secret
    by (auto simp: bearer_credential_def)
  then have "client_auth r"
    using live_admission [OF assms(1-3) refl refl] assms(4) by (auto simp: client_auth_def key_credential_def)
  then have "transparent p r" using assms(5) by (simp add: transparent_def)
  then show ?thesis by (simp add: handleAuthAndKeySelection_def setAuth_def Let_def header_simps)
qed


section \<open>Witnesses\<close>

definition demo_auth_config :: "auth_config \<Rightarrow> config" where
  "demo_auth_config a = demo_config\<lparr>cf_Server := (cf_Server demo_config)\<lparr>sv_Auth := a\<rparr>\<rparr>"

definition demo_auth :: "bool \<Rightarrow> string \<Rightarrow> string \<Rightarrow> auth_config" where
  "demo_auth b s k = \<lparr>au_APIKey = k, au_BearerSecret = s, au_AllowBearer = b, au_AllowSubscription = False\<rparr>"

definition key_header :: "string \<Rightarrow> header" where
  "key_header k = header_set (\<lambda>_. []) ''x-api-key'' k"

lemma key_header_get [simp]:
  "header_get (key_header k) ''x-api-key'' = k" "header_get (key_header k) ''Authorization'' = ''''"
  by (simp_all add: key_header_def header_get_def header_simps)

lemma demo_settings [simp]:
  "sv_Auth (cf_Server (demo_auth_config a)) = a"
  "GetEffectiveAPIKey (cf_Server (demo_auth_config (demo_auth b s k))) = k"
  by (simp_all add: demo_auth_config_def demo_auth_def GetEffectiveAPIKey_def demo_config_def)

lemma foldl_reduce_ok: "reduce_ok foldl"
  by (simp add: reduce_ok_def)

lemma empty_cache_ok: "auth_cache_ok sha None"
  by (simp add: auth_cache_ok_def)

text \<open>The secret is moved behind a delimiter by a reload; a request with the old key is refused afterwards.\<close>

lemma live_auth_current_witness:
  "map (\<lambda>a. a = None) (live_answers foldl (\<lambda>s. s) None
     [(Some (demo_auth_config (demo_auth False '''' ''k'')), \<lambda>_. [], key_header ''k''),
      (Some (demo_auth_config (demo_auth False ''|1:'' ''j'')), \<lambda>_. [], key_header ''k'')]) = [True, False]"
  unfolding live_auth_current [OF foldl_reduce_ok]
  by (simp add: config_decision_def auth_decision_def configured_authenticators_def APIKey_Validate_valid key_credential_def
      IsBearerEnabled_def) (simp add: demo_auth_def)

lemma live_auth_admission_witness:
  "fst (LiveAuthMiddleware foldl (\<lambda>s. s) (Some (demo_auth_config (demo_auth True ''s'' ''k''))) (\<lambda>_. []) (key_header ''k'') None) = None"
proof -
  obtain answer s' where run: "LiveAuthMiddleware foldl (\<lambda>s. s) (Some (demo_auth_config (demo_auth True ''s'' ''k''))) (\<lambda>_. [])
      (key_header ''k'') None = (answer, s')" by (metis prod.exhaust)
  show ?thesis
    using live_auth_admission [OF foldl_reduce_ok empty_cache_ok run refl refl] run by (simp add: key_credential_def)
qed

lemma static_live_agree_witness:
  "static_auth foldl (\<lambda>s. s) (cf_Server (demo_auth_config (demo_auth True '''' ''k''))) (\<lambda>_. []) (key_header ''j'') =
   fst (LiveAuthMiddleware foldl (\<lambda>s. s) (Some (demo_auth_config (demo_auth True '''' ''k''))) (\<lambda>_. []) (key_header ''j'') None)"
  by (rule static_live_agree [OF foldl_reduce_ok empty_cache_ok]) (simp add: demo_auth_def)

lemma auth_disables_anthropic_keys_witness:
  "\<exists>s'. LiveAuthMiddleware foldl (\<lambda>s. s) (Some (demo_auth_config (demo_auth False '''' ''k''))) (\<lambda>_. []) (key_header ''k'') None =
      (None, s') \<and>
    setAuth demo_cloud (AnthropicProvider demo_base) ''sk-configured'' (key_header ''k'') None (key_header ''k'') ''X-Api-Key'' = [''k'']"
proof -
  obtain answer s' where run: "LiveAuthMiddleware foldl (\<lambda>s. s) (Some (demo_auth_config (demo_auth False '''' ''k''))) (\<lambda>_. [])
      (key_header ''k'') None = (answer, s')" by (metis prod.exhaust)
  have none: "answer = None"
    using live_step [OF foldl_reduce_ok empty_cache_ok, of "\<lambda>s. s" "Some (demo_auth_config (demo_auth False '''' ''k''))" "\<lambda>_. []" "key_header ''k''"] run
    by (auto simp: config_decision_def auth_decision_def configured_authenticators_def APIKey_Validate_valid key_credential_def)
  have "key_header ''k'' ''X-Api-Key'' = [''k'']" by (simp add: key_header_def header_simps)
  then show ?thesis
    using auth_disables_anthropic_keys [OF foldl_reduce_ok empty_cache_ok run [unfolded none] _ refl, where RL = bkt_lib and cl = demo_cloud and b = demo_base
        and body = None and apiKey = "''sk-configured''"] run none
    by simp
qed

end
