(* ===== verification/Concurrency_Limit.thy ===== *)
theory Concurrency_Limit
  imports Error_Responses
begin

text \<open>
  The limit on concurrent requests (\<open>ConcurrencyLimiter\<close> and \<open>ConcurrencyMiddleware\<close> in
  \<open>internal/proxy/middleware.go\<close>): the operations one after the other, and the same operations as the atomic steps of
  goroutines that interleave, with changes of the limit by a reload in between.
\<close>

section \<open>One after the other\<close>

record limiter =
  lm_limit :: int
  lm_current :: int

definition NewConcurrencyLimiter :: "int \<Rightarrow> limiter" where
  "NewConcurrencyLimiter maxLimit = \<lparr>lm_limit = maxLimit, lm_current = 0\<rparr>"

definition limiter_SetLimit :: "int \<Rightarrow> limiter \<Rightarrow> limiter" where
  "limiter_SetLimit maxLimit l = l\<lparr>lm_limit := maxLimit\<rparr>"

definition limiter_GetLimit :: "limiter \<Rightarrow> int" where
  "limiter_GetLimit l = lm_limit l"

definition CurrentInFlight :: "limiter \<Rightarrow> int" where
  "CurrentInFlight l = lm_current l"

definition add_current :: "int \<Rightarrow> limiter \<Rightarrow> limiter" where
  "add_current d l = l\<lparr>lm_current := wrap64 (lm_current l + d)\<rparr>"

text \<open>Nobody interferes: the first compare-and-swap succeeds.\<close>

definition TryAcquire :: "limiter \<Rightarrow> bool \<times> limiter" where
  "TryAcquire l =
     (if lm_limit l \<le> 0 then (True, add_current 1 l)
      else if lm_limit l \<le> lm_current l then (False, l)
      else (True, l\<lparr>lm_current := wrap64 (lm_current l + 1)\<rparr>))"

definition limiter_Release :: "limiter \<Rightarrow> limiter" where
  "limiter_Release l = add_current (- 1) l"

text \<open>
  The middleware: \<open>nxt\<close> serves the request with the limiter as it is then, and may leave it changed by others; the release
  is deferred. The answer is \<^term>\<open>Inl\<close> when the request is refused.
\<close>

definition ConcurrencyMiddleware :: "header \<Rightarrow> (limiter \<Rightarrow> 'a \<times> limiter) \<Rightarrow> limiter \<Rightarrow> (response + 'a) \<times> limiter" where
  "ConcurrencyMiddleware writer nxt l =
     (case TryAcquire l of
        (False, l) \<Rightarrow> (Inl (WriteError writer 503 ''server_busy'' ''server is at maximum capacity, please retry later''), l)
      | (True, l) \<Rightarrow> (let (a, l) = nxt l in (Inr a, limiter_Release l)))"

section \<open>Interleaved\<close>

text \<open>
  Where a goroutine is: before \<open>TryAcquire\<close>, after it read a limit (unlimited or \<open>n\<close>), after it read the counter, in the
  request, or refused. A goroutine that is through begins the next request.
\<close>

datatype pc = Idle | Unlimited | Limited int | Counted int int | Serving | Refused

record limiter_run =
  lr_limiter :: limiter
  lr_pcs :: "pc list"

definition goto :: "nat \<Rightarrow> pc \<Rightarrow> limiter \<Rightarrow> limiter_run \<Rightarrow> limiter_run" where
  "goto i pc l s = s\<lparr>lr_limiter := l, lr_pcs := (lr_pcs s)[i := pc]\<rparr>"

text \<open>The next atomic operation of goroutine \<open>i\<close>.\<close>

definition goroutine_step :: "nat \<Rightarrow> limiter_run \<Rightarrow> limiter_run" where
  "goroutine_step i s =
     (let l = lr_limiter s
      in case lr_pcs s ! i of
           Idle \<Rightarrow> goto i (if lm_limit l \<le> 0 then Unlimited else Limited (lm_limit l)) l s
         | Unlimited \<Rightarrow> goto i Serving (add_current 1 l) s
         | Limited n \<Rightarrow> goto i (if n \<le> lm_current l then Refused else Counted n (lm_current l)) l s
         | Counted n c \<Rightarrow>
             if lm_current l = c then goto i Serving (l\<lparr>lm_current := wrap64 (c + 1)\<rparr>) s else goto i (Limited n) l s
         | Serving \<Rightarrow> goto i Idle (limiter_Release l) s
         | Refused \<Rightarrow> goto i Idle l s)"

text \<open>\<open>Ls\<close> are the limits that reloads set.\<close>

inductive limiter_step :: "int set \<Rightarrow> limiter_run \<Rightarrow> limiter_run \<Rightarrow> bool" for Ls where
  goroutine: "i < length (lr_pcs s) \<Longrightarrow> limiter_step Ls s (goroutine_step i s)"
| reload: "n \<in> Ls \<Longrightarrow> limiter_step Ls s (s\<lparr>lr_limiter := limiter_SetLimit n (lr_limiter s)\<rparr>)"

inductive limiter_reachable :: "int set \<Rightarrow> int \<Rightarrow> nat \<Rightarrow> limiter_run \<Rightarrow> bool" for Ls n k where
  start: "limiter_reachable Ls n k \<lparr>lr_limiter = NewConcurrencyLimiter n, lr_pcs = replicate k Idle\<rparr>"
| next_step: "limiter_reachable Ls n k s \<Longrightarrow> limiter_step Ls s s' \<Longrightarrow> limiter_reachable Ls n k s'"

definition in_flight :: "limiter_run \<Rightarrow> int" where
  "in_flight s = int (length (filter (\<lambda>p. p = Serving) (lr_pcs s)))"

section \<open>Facts\<close>

lemma serving_update:
  assumes "i < length ps"
  shows "int (length (filter (\<lambda>p. p = Serving) (ps[i := q]))) =
    int (length (filter (\<lambda>p. p = Serving) ps)) - (if ps ! i = Serving then 1 else 0) + (if q = Serving then 1 else 0)"
  using assms
proof (induction ps arbitrary: i)
  case (Cons p ps)
  show ?case
  proof (cases i)
    case (Suc j)
    with Cons.prems Cons.IH [of j] show ?thesis by (cases "p = Serving"; simp split del: if_split)
  qed simp
qed simp

text \<open>
  The invariant: the counter is the number of requests being served, and every goroutine that is deciding works with a
  limit that was set.
\<close>

definition pc_ok :: "int \<Rightarrow> pc \<Rightarrow> bool" where
  "pc_ok M p = (case p of Limited n \<Rightarrow> n \<le> M | Counted n c \<Rightarrow> n \<le> M \<and> c < n | _ \<Rightarrow> True)"

definition limiter_inv :: "int \<Rightarrow> nat \<Rightarrow> limiter_run \<Rightarrow> bool" where
  "limiter_inv M k s \<longleftrightarrow>
     length (lr_pcs s) = k \<and> lm_current (lr_limiter s) = in_flight s \<and> lm_limit (lr_limiter s) \<le> M \<and>
     (\<forall>p \<in> set (lr_pcs s). pc_ok M p)"

lemma in_flight_bounds: "0 \<le> in_flight s" "in_flight s \<le> int (length (lr_pcs s))"
  by (simp_all add: in_flight_def)

lemma in_flight_room: "i < length (lr_pcs s) \<Longrightarrow> lr_pcs s ! i \<noteq> Serving \<Longrightarrow> in_flight s + 1 \<le> int (length (lr_pcs s))"
  using serving_update [of i "lr_pcs s" Serving] length_filter_le [of "\<lambda>p. p = Serving" "(lr_pcs s)[i := Serving]"]
  by (simp add: in_flight_def)

lemma limiter_inv_goto:
  assumes "limiter_inv M k s" and "i < k" and "pc_ok M q" and "lm_limit l = lm_limit (lr_limiter s)"
    and "lm_current l = in_flight s - (if lr_pcs s ! i = Serving then 1 else 0) + (if q = Serving then 1 else 0)"
  shows "limiter_inv M k (goto i q l s)"
  using assms serving_update [of i "lr_pcs s" q] set_update_subset_insert [of "lr_pcs s" i q]
  by (auto simp: limiter_inv_def goto_def in_flight_def split: if_splits)

lemma limiter_inv_step:
  assumes "limiter_inv M k s" and "int k < 2 ^ 63" and "limiter_step Ls s s'" and "\<forall>n \<in> Ls. n \<le> M"
  shows "limiter_inv M k s'"
  using assms(3)
proof (cases rule: limiter_step.cases)
  case (reload n)
  then show ?thesis using assms(1,4) by (simp add: limiter_inv_def limiter_SetLimit_def in_flight_def)
next
  case (goroutine i)
  have i: "i < k" and cur: "lm_current (lr_limiter s) = in_flight s" and ok: "pc_ok M (lr_pcs s ! i)"
    and top: "lm_limit (lr_limiter s) \<le> M"
    using assms(1) goroutine(2) by (simp_all add: limiter_inv_def)
  have up: "wrap64 (in_flight s + 1) = in_flight s + 1" if "lr_pcs s ! i \<noteq> Serving"
    using in_flight_room [OF goroutine(2) that] in_flight_bounds(1) [of s] assms(1,2)
    by (intro wrap64_small) (auto simp: limiter_inv_def)
  have down: "wrap64 (in_flight s - 1) = in_flight s - 1" if "lr_pcs s ! i = Serving"
    using in_flight_bounds [of s] in_flight_bounds(1) [of "goto i Idle l s" for l] serving_update [OF goroutine(2), of Idle] that
      assms(1,2) length_filter_le [of "\<lambda>p. p = Serving" "lr_pcs s"]
    by (intro wrap64_small) (auto simp: limiter_inv_def in_flight_def goto_def)
  show ?thesis
    unfolding goroutine(1) goroutine_step_def Let_def
    using assms(1) i cur ok up down top
    by (cases "lr_pcs s ! i")
      (auto intro!: limiter_inv_goto simp: pc_ok_def add_current_def limiter_Release_def)
qed


lemma limiter_inv_start: "n \<le> M \<Longrightarrow> limiter_inv M k \<lparr>lr_limiter = NewConcurrencyLimiter n, lr_pcs = replicate k Idle\<rparr>"
  by (simp add: limiter_inv_def NewConcurrencyLimiter_def in_flight_def pc_ok_def)

lemma limiter_inv_reachable:
  assumes "limiter_reachable Ls n k s" and "int k < 2 ^ 63" and "n \<le> M" and "\<forall>m \<in> Ls. m \<le> M"
  shows "limiter_inv M k s"
  using assms(1)
proof (induction rule: limiter_reachable.induct)
  case start
  show ?case by (rule limiter_inv_start [OF assms(3)])
next
  case (next_step s s')
  show ?case by (rule limiter_inv_step [OF next_step.IH assms(2) next_step.hyps(2) assms(4)])
qed

text \<open>With positive limits only.\<close>

definition limiter_bounded :: "int \<Rightarrow> limiter_run \<Rightarrow> bool" where
  "limiter_bounded M s \<longleftrightarrow> 0 < lm_limit (lr_limiter s) \<and> Unlimited \<notin> set (lr_pcs s) \<and> in_flight s \<le> M"

lemma limiter_bounded_goto:
  assumes "limiter_bounded M s" and "i < length (lr_pcs s)" and "q \<noteq> Unlimited"
    and "lm_limit l = lm_limit (lr_limiter s)" and "q = Serving \<Longrightarrow> in_flight s < M"
  shows "limiter_bounded M (goto i q l s)"
  using assms serving_update [OF assms(2), of q] set_update_subset_insert [of "lr_pcs s" i q]
  by (auto simp: limiter_bounded_def goto_def in_flight_def split: if_splits)

lemma limiter_bounded_step:
  assumes "limiter_bounded M s" and "limiter_inv M k s" and "limiter_step Ls s s'" and "\<forall>n \<in> Ls. 0 < n"
  shows "limiter_bounded M s'"
  using assms(3)
proof (cases rule: limiter_step.cases)
  case (reload n)
  then show ?thesis using assms(1,4) by (simp add: limiter_bounded_def limiter_SetLimit_def in_flight_def)
next
  case (goroutine i)
  have i: "lr_pcs s ! i \<in> set (lr_pcs s)" using goroutine(2) by simp
  have "pc_ok M (lr_pcs s ! i)" "lr_pcs s ! i \<noteq> Unlimited" "lm_current (lr_limiter s) = in_flight s" "0 < lm_limit (lr_limiter s)"
    using assms(1,2) i by (auto simp: limiter_inv_def limiter_bounded_def)
  then show ?thesis
    unfolding goroutine(1) goroutine_step_def Let_def
    using assms(1) goroutine(2)
    by (cases "lr_pcs s ! i")
      (auto intro!: limiter_bounded_goto simp: pc_ok_def add_current_def limiter_Release_def)
qed

section \<open>Properties\<close>

text \<open>
  C9: The concurrency limit holds under every interleaving of goroutines and reloads: the counter is always the number of
  requests being served (so that no slot is ever lost), and as long as only positive limits are set there are never
  more of them than the greatest limit that was set.
\<close>

theorem limiter_safe:
  assumes "limiter_reachable Ls n k s" and "int k < 2 ^ 63"
    and "0 < n" and "n \<le> M" and "\<forall>m \<in> Ls. 0 < m \<and> m \<le> M"
  shows "CurrentInFlight (lr_limiter s) = in_flight s \<and> in_flight s \<le> M"
proof -
  have inv: "limiter_inv M k s" if "limiter_reachable Ls n k s" for s
    using limiter_inv_reachable [OF that assms(2,4)] assms(5) by blast
  have "limiter_bounded M s"
    using assms(1)
  proof (induction rule: limiter_reachable.induct)
    case start
    then show ?case using assms(3,4) by (simp add: limiter_bounded_def NewConcurrencyLimiter_def in_flight_def)
  next
    case (next_step s s')
    show ?case by (rule limiter_bounded_step [OF next_step.IH inv [OF next_step.hyps(1)] next_step.hyps(2)]) (use assms(5) in blast)
  qed
  with inv [OF assms(1)] show ?thesis by (simp add: CurrentInFlight_def limiter_inv_def limiter_bounded_def)
qed

text \<open>
  The compare-and-swap loop refines the sequential operation and is lock-free. A goroutine that is left
  alone decides within three atomic steps, with the answer and the limiter of \<open>TryAcquire\<close>; and when its
  compare-and-swap fails, another request was admitted or finished since it read the counter.
\<close>

lemma limiter_decides:
  assumes "limiter_inv M k s" and "i < k"
  shows "(lr_pcs s ! i = Idle \<longrightarrow>
      (\<exists>m \<le> 3. (goroutine_step i ^^ m) s =
         goto i (if fst (TryAcquire (lr_limiter s)) then Serving else Refused) (snd (TryAcquire (lr_limiter s))) s)) \<and>
    (lr_pcs s ! i = Counted b c \<and> lm_current (lr_limiter s) = c \<and> int k < 2 ^ 63 \<and> (limiter_step Ls)\<^sup>*\<^sup>* s s' \<and>
       (\<forall>m \<in> Ls. m \<le> M) \<and> lr_pcs s' ! i = Counted b c \<and> lr_pcs (goroutine_step i s') ! i \<noteq> Serving \<longrightarrow>
     in_flight s' \<noteq> in_flight s)"
proof (intro conjI impI; (elim conjE)?)
  assume idle: "lr_pcs s ! i = Idle"
  have i: "i < length (lr_pcs s)" using assms by (simp add: limiter_inv_def)
  have goto2: "goto i q l (goto i q' l' s) = goto i q l s" for q q' l l' by (simp add: goto_def)
  have at: "lr_pcs (goto i q l s) ! i = q" "lr_limiter (goto i q l s) = l" for q l using i by (simp_all add: goto_def)
  show "\<exists>m \<le> 3. (goroutine_step i ^^ m) s =
      goto i (if fst (TryAcquire (lr_limiter s)) then Serving else Refused) (snd (TryAcquire (lr_limiter s))) s"
  proof (cases "lm_limit (lr_limiter s) \<le> 0")
    case True
    then show ?thesis
      using idle by (intro exI [of _ 2]) (simp add: numeral_2_eq_2 goroutine_step_def goto2 at TryAcquire_def Let_def)
  next
    case limited: False
    show ?thesis
    proof (cases "lm_limit (lr_limiter s) \<le> lm_current (lr_limiter s)")
      case True
      then show ?thesis
        using idle limited by (intro exI [of _ 2]) (simp add: numeral_2_eq_2 goroutine_step_def goto2 at TryAcquire_def Let_def)
    next
      case False
      then show ?thesis
        using idle limited by (intro exI [of _ 3]) (simp add: numeral_3_eq_3 goroutine_step_def goto2 at TryAcquire_def Let_def)
    qed
  qed
next
  assume h: "lr_pcs s ! i = Counted b c" "lm_current (lr_limiter s) = c" "int k < 2 ^ 63" "(limiter_step Ls)\<^sup>*\<^sup>* s s'"
    "\<forall>m \<in> Ls. m \<le> M" "lr_pcs s' ! i = Counted b c" "lr_pcs (goroutine_step i s') ! i \<noteq> Serving"
  have "limiter_inv M k s'" using h(4)
    by (induction rule: rtranclp_induct) (use assms(1) limiter_inv_step [OF _ h(3) _ h(5)] in blast)+
  then have inv: "lm_current (lr_limiter s') = in_flight s'" "i < length (lr_pcs s')" using assms(2) by (simp_all add: limiter_inv_def)
  then have "lm_current (lr_limiter s') \<noteq> c" using h(6,7) by (auto simp: goroutine_step_def goto_def)
  then show "in_flight s' \<noteq> in_flight s" using inv(1) h(2) assms(1) by (simp add: limiter_inv_def)
qed

section \<open>Witnesses\<close>

text \<open>Two goroutines, a limit of one: the second is refused while the first is served.\<close>

definition demo_run :: limiter_run where
  "demo_run = fold goroutine_step [0, 1, 0, 1, 0, 1, 1] \<lparr>lr_limiter = NewConcurrencyLimiter 1, lr_pcs = [Idle, Idle]\<rparr>"

lemma fold_reachable:
  "limiter_reachable Ls n k s \<Longrightarrow> \<forall>i \<in> set is. i < k \<Longrightarrow> length (lr_pcs s) = k \<Longrightarrow>
   limiter_reachable Ls n k (fold goroutine_step is s)"
proof (induction "is" arbitrary: s)
  case (Cons i "is")
  have "length (lr_pcs (goroutine_step i s)) = k"
    using Cons.prems(3) by (simp add: goroutine_step_def goto_def Let_def split: pc.split)
  moreover have "limiter_reachable Ls n k (goroutine_step i s)"
    using Cons.prems by (intro next_step [OF Cons.prems(1)] goroutine) simp
  ultimately show ?case using Cons.IH Cons.prems(2) by simp
qed simp

lemma demo_run_pcs: "lr_pcs demo_run = [Serving, Refused]"
  by (simp add: demo_run_def goroutine_step_def goto_def NewConcurrencyLimiter_def wrap64_def)

lemma limiter_safe_witness: "CurrentInFlight (lr_limiter demo_run) = 1 \<and> in_flight demo_run \<le> 1"
proof -
  have "limiter_reachable {} 1 2 \<lparr>lr_limiter = NewConcurrencyLimiter 1, lr_pcs = [Idle, Idle]\<rparr>"
    using limiter_reachable.start [of "{}" 1 2] by (simp add: numeral_2_eq_2)
  then have "limiter_reachable {} 1 2 demo_run" unfolding demo_run_def by (intro fold_reachable) auto
  from limiter_safe [OF this, of 1] show ?thesis by (simp add: in_flight_def demo_run_pcs)
qed

lemma limiter_decides_witness:
  "\<exists>m \<le> 3. lr_pcs ((goroutine_step 0 ^^ m) \<lparr>lr_limiter = NewConcurrencyLimiter 5, lr_pcs = [Idle]\<rparr>) = [Serving]"
proof -
  have "limiter_inv 5 1 \<lparr>lr_limiter = NewConcurrencyLimiter 5, lr_pcs = [Idle]\<rparr>"
    using limiter_inv_start [of 5 5 1] by simp
  from conjunct1 [OF limiter_decides [OF this, of 0]] show ?thesis
    by (auto simp: goto_def TryAcquire_def NewConcurrencyLimiter_def)
qed

end
