(* ===== verification/Json_Edit.thy ===== *)
theory Json_Edit
  imports ZAI_Cooldown "HOL-Library.List_Lexorder" "HOL-Library.Char_ord"
begin

text \<open>
  JSON documents as the proxy reads and edits them: the third-party packages \<open>gjson\<close> and \<open>sjson\<close> are the fields of
  a record, with their documented behaviour as the contract \<open>json_ok\<close>, and \<open>encoding/json\<close> writes Go values.
\<close>

section \<open>Reading\<close>

text \<open>\<open>Get\<close> with the name of a member; \<open>Exists\<close> is that there is a value.\<close>

fun jget :: "json \<Rightarrow> string \<Rightarrow> json option" where
  "jget (JObj ms) k = map_of ms k"
| "jget v k = None"

text \<open>\<open>ForEach\<close> over the values of an array or an object; any other value is visited itself.\<close>

fun jvalues :: "json option \<Rightarrow> json list" where
  "jvalues None = []"
| "jvalues (Some (JArr xs)) = xs"
| "jvalues (Some (JObj ms)) = map snd ms"
| "jvalues (Some v) = [v]"

section \<open>Editing\<close>

datatype json_step = Key string | Idx nat

fun upd_member :: "string \<Rightarrow> (json \<Rightarrow> json) \<Rightarrow> (string \<times> json) list \<Rightarrow> (string \<times> json) list" where
  "upd_member k f [] = [(k, f JNull)]"
| "upd_member k f ((j, v) # ms) = (if j = k then (j, f v) # ms else (j, v) # upd_member k f ms)"

fun jput :: "json_step list \<Rightarrow> json \<Rightarrow> json \<Rightarrow> json" where
  "jput [] v d = v"
| "jput (Key k # p) v (JObj ms) = JObj (upd_member k (jput p v) ms)"
| "jput (Idx i # p) v (JArr xs) = JArr (if i < length xs then xs[i := jput p v (xs ! i)] else xs)"
| "jput (s # p) v d = d"

fun jdelete :: "json_step list \<Rightarrow> json \<Rightarrow> json" where
  "jdelete [Key k] (JObj ms) = JObj (filter (\<lambda>m. fst m \<noteq> k) ms)"
| "jdelete [Idx i] (JArr xs) = JArr (take i xs @ drop (Suc i) xs)"
| "jdelete (Key k # p) (JObj ms) = JObj (map (\<lambda>(j, v). (j, if j = k then jdelete p v else v)) ms)"
| "jdelete (Idx i # p) (JArr xs) = JArr (if i < length xs then xs[i := jdelete p (xs ! i)] else xs)"
| "jdelete p d = d"

text \<open>The containers on the way are there; the last member may be new.\<close>

fun jpath :: "json_step list \<Rightarrow> json \<Rightarrow> bool" where
  "jpath [] d = True"
| "jpath (Key k # p) (JObj ms) = (p = [] \<or> (case map_of ms k of Some v \<Rightarrow> jpath p v | None \<Rightarrow> False))"
| "jpath (Idx i # p) (JArr xs) = (i < length xs \<and> jpath p (xs ! i))"
| "jpath (s # p) d = False"

text \<open>No object has a member twice.\<close>

fun jwf :: "json \<Rightarrow> bool" where
  "jwf (JObj ms) = (distinct (map fst ms) \<and> (\<forall>m \<in> set ms. jwf (snd m)))"
| "jwf (JArr xs) = (\<forall>x \<in> set xs. jwf x)"
| "jwf v = True"

text \<open>
  A body of type \<open>'b\<close>: its bytes, the document that \<open>gjson\<close> reads in them, the text of a value that is no string
  (\<open>String\<close>), setting and deleting with \<open>sjson\<close>, the body these return beside an error, and what a number becomes as
  a \<open>float64\<close>.
\<close>

record 'b json_lib =
  jl_bytes :: "'b \<Rightarrow> string"
  jl_doc :: "'b \<Rightarrow> json"
  jl_raw :: "json \<Rightarrow> string"
  jl_set :: "'b \<Rightarrow> json_step list \<Rightarrow> json \<Rightarrow> go_error + 'b"
  jl_delete :: "'b \<Rightarrow> json_step list \<Rightarrow> go_error + 'b"
  jl_failed :: "'b \<Rightarrow> 'b"
  jl_float :: "string \<Rightarrow> string"

definition json_ok :: "'b json_lib \<Rightarrow> bool" where
  "json_ok J \<longleftrightarrow>
     (\<forall>b p v. jwf (jl_doc J b) \<longrightarrow> jpath p (jl_doc J b) \<longrightarrow>
        (\<exists>b'. jl_set J b p v = Inr b' \<and> jl_doc J b' = jput p v (jl_doc J b))) \<and>
     (\<forall>b p. jwf (jl_doc J b) \<longrightarrow> jpath p (jl_doc J b) \<longrightarrow> p \<noteq> [] \<longrightarrow>
        (\<exists>b'. jl_delete J b p = Inr b' \<and> jl_doc J b' = jdelete p (jl_doc J b)))"

definition jstring :: "'b json_lib \<Rightarrow> json option \<Rightarrow> string" where
  "jstring J v = (case v of None \<Rightarrow> '''' | Some (JStr s) \<Rightarrow> s | Some JNull \<Rightarrow> '''' | Some x \<Rightarrow> jl_raw J x)"

text \<open>\<open>Value\<close>, and the result written by \<open>encoding/json\<close>: a Go map has its keys sorted.\<close>

definition json_map :: "(string \<times> json) list \<Rightarrow> json" where
  "json_map ms = JObj (sort_key fst ms)"

fun go_value :: "(string \<Rightarrow> string) \<Rightarrow> json \<Rightarrow> json" where
  "go_value fl (JNum s) = JNum (fl s)"
| "go_value fl (JArr xs) = JArr (map (go_value fl) xs)"
| "go_value fl (JObj ms) = json_map (map (\<lambda>(k, v). (k, go_value fl v)) ms)"
| "go_value fl v = v"

section \<open>Facts\<close>

lemma jstring_simps [simp]: "jstring J None = ''''" "jstring J (Some (JStr s)) = s"
  by (simp_all add: jstring_def)

lemma map_of_sort_key: "distinct (map fst ms) \<Longrightarrow> map_of (sort_key fst ms) k = map_of ms k"
  by (rule map_of_inject_set [THEN iffD2, THEN fun_cong]) (simp_all add: distinct_map inj_on_def)

lemma keys_upd_member: "map fst (upd_member k f ms) = (if k \<in> fst ` set ms then map fst ms else map fst ms @ [k])"
  by (induction ms) force+

lemma values_upd_member: "m \<in> set (upd_member k f ms) \<Longrightarrow> m \<in> set ms \<or> m = (k, f JNull) \<or> (\<exists>v. (k, v) \<in> set ms \<and> m = (k, f v))"
  by (induction ms) (auto split: if_splits)

lemma map_of_upd_member:
  "map_of (upd_member k f ms) j = (if j = k then Some (f (case map_of ms k of Some v \<Rightarrow> v | None \<Rightarrow> JNull)) else map_of ms j)"
  by (induction ms) auto

lemma upd_member_twice: "upd_member k f (upd_member k g ms) = upd_member k (\<lambda>v. f (g v)) ms"
  by (induction ms) auto

lemma upd_member_same: "map_of ms k = Some v \<Longrightarrow> f v = v \<Longrightarrow> distinct (map fst ms) \<Longrightarrow> upd_member k f ms = ms"
  by (induction ms) auto

lemma jwf_jput: "jwf d \<Longrightarrow> jwf v \<Longrightarrow> jwf (jput p v d)"
proof (induction p v d rule: jput.induct)
  case (2 k p v ms)
  have "jwf (snd m)" if "m \<in> set (upd_member k (jput p v) ms)" for m
  proof -
    have "jwf (jput p v d)" if "jwf d" for d using 2 that by simp
    with values_upd_member [OF that] 2 show ?thesis by (fastforce simp: jwf.simps)
  qed
  with 2 show ?case by (simp add: keys_upd_member)
next
  case (3 i p v xs)
  then show ?case by (auto dest!: set_update_subset_insert [THEN subsetD])
qed simp_all

end
