(* ===== verification/Thinking.thy ===== *)
theory Thinking
  imports Json_Edit
begin

text \<open>
  The thinking blocks of a request (\<open>internal/proxy/thinking.go\<close>, \<open>signature_cache.go\<close>): unsigned blocks are
  dropped, signatures are restored from the client or the cache, blocks are put in order, and everything about
  thinking is stripped when a conversation moves to another provider.
\<close>

section \<open>Signatures\<close>

fun contains_str :: "string \<Rightarrow> string \<Rightarrow> bool" where
  "contains_str pat [] = (pat = [])"
| "contains_str pat (c # s) = (take (length pat) (c # s) = pat \<or> contains_str pat s)"

definition GetModelGroup :: "string \<Rightarrow> string" where
  "GetModelGroup modelName =
     (let modelLower = map to_lower modelName
      in if contains_str ''claude'' modelLower then ''claude''
         else if contains_str ''gpt'' modelLower then ''gpt''
         else if contains_str ''gemini'' modelLower then ''gemini''
         else modelName)"

definition GeminiSignatureSentinel :: string where
  "GeminiSignatureSentinel = ''skip_thought_signature_validator''"

definition IsValidSignature :: "string \<Rightarrow> string \<Rightarrow> bool" where
  "IsValidSignature modelName signature =
     (if signature = '''' then False
      else if signature = GeminiSignatureSentinel then GetModelGroup modelName = ''gemini''
      else 50 \<le> length signature)"

text \<open>
  The cache behind \<open>SignatureCache\<close> is an interface: \<open>ca_get\<close> and \<open>ca_set\<close> are its \<open>Get\<close> and \<open>SetWithTTL\<close> over a
  store of type \<open>'s\<close>; \<open>ca_hash\<close> is the SHA-256 digest in hexadecimal digits. A nil cache is \<^term>\<open>None\<close>.
\<close>

record 's cache_ops =
  ca_get :: "'s \<Rightarrow> string \<Rightarrow> go_error + string"
  ca_set :: "string \<Rightarrow> string \<Rightarrow> 's \<Rightarrow> 's"
  ca_hash :: "string \<Rightarrow> string"

definition cacheKey :: "'s cache_ops \<Rightarrow> string \<Rightarrow> string \<Rightarrow> string" where
  "cacheKey C modelGroup text = ''sig:'' @ modelGroup @ '':'' @ take 16 (ca_hash C text)"

definition sigcache_Get :: "'s cache_ops \<Rightarrow> string \<Rightarrow> string \<Rightarrow> 's option \<Rightarrow> string" where
  "sigcache_Get C modelName text sc =
     (case sc of
        None \<Rightarrow> ''''
      | Some s \<Rightarrow> (case ca_get C s (cacheKey C (GetModelGroup modelName) text) of Inl e \<Rightarrow> '''' | Inr data \<Rightarrow> data))"

definition sigcache_Set :: "'s cache_ops \<Rightarrow> string \<Rightarrow> string \<Rightarrow> string \<Rightarrow> 's option \<Rightarrow> 's option" where
  "sigcache_Set C modelName text signature sc =
     (case sc of
        None \<Rightarrow> None
      | Some s \<Rightarrow>
          if \<not> IsValidSignature modelName signature then Some s
          else Some (ca_set C (cacheKey C (GetModelGroup modelName) text) signature s))"

definition FormatSignature :: "string \<Rightarrow> string \<Rightarrow> string" where
  "FormatSignature modelName signature = GetModelGroup modelName @ ''#'' @ signature"

definition ParseSignature :: "string \<Rightarrow> (string \<times> string) option" where
  "ParseSignature prefixed =
     (let before = takeWhile (\<lambda>c. c \<noteq> CHR ''#'') prefixed
      in if length before = length prefixed then None else Some (before, drop (Suc (length before)) prefixed))"

text \<open>The fast checks on the bytes of a body; the markers contain the quotes.\<close>

definition dq :: "string \<Rightarrow> string" where
  "dq s = [CHR 34] @ s @ [CHR 34]"

definition HasThinkingBlocks :: "string \<Rightarrow> bool" where
  "HasThinkingBlocks body =
     ((contains_str (dq ''type'' @ '':'' @ dq ''thinking'') body \<or> contains_str (dq ''type'' @ '': '' @ dq ''thinking'') body) \<and>
      contains_str (dq ''thinking'') body \<and> contains_str (dq ''signature'') body)"

section \<open>Blocks\<close>

definition block_type :: "'b json_lib \<Rightarrow> json \<Rightarrow> string" where
  "block_type J block = jstring J (jget block ''type'')"

definition is_thinking :: "'b json_lib \<Rightarrow> json \<Rightarrow> bool" where
  "is_thinking J block \<longleftrightarrow> block_type J block = ''thinking''"

definition resolveThinkingSignature ::
    "'b json_lib \<Rightarrow> 's cache_ops \<Rightarrow> string \<Rightarrow> 's option \<Rightarrow> json \<Rightarrow> string" where
  "resolveThinkingSignature J C modelName sc block =
     (let thinkingText = jstring J (jget block ''thinking'');
          clientSig = jstring J (jget block ''signature'');
          fallback = sigcache_Get C modelName thinkingText sc
      in if clientSig \<noteq> ''''
         then (case ParseSignature clientSig of
                 Some (_, rawSig) \<Rightarrow> rawSig
               | None \<Rightarrow> if IsValidSignature modelName clientSig then clientSig else fallback)
         else fallback)"

record thinking_ctx =
  tc_CurrentSignature :: string
  tc_DroppedBlocks :: int
  tc_ReorderedBlocks :: bool

record block_analysis =
  ba_thinkingResults :: "(nat \<times> string \<times> bool) list"
  ba_blockTypes :: "string list"
  ba_toolUseIndexes :: "nat list"
  ba_totalBlocks :: int

fun analyze_loop ::
    "'b json_lib \<Rightarrow> 's cache_ops \<Rightarrow> string \<Rightarrow> 's option \<Rightarrow> nat \<Rightarrow> json list \<Rightarrow> block_analysis \<Rightarrow> thinking_ctx \<Rightarrow>
     block_analysis \<times> thinking_ctx" where
  "analyze_loop J C modelName sc key [] a tc = (a, tc)"
| "analyze_loop J C modelName sc key (block # blocks) a tc =
     (let blockType = block_type J block;
          a = a\<lparr>ba_blockTypes := ba_blockTypes a @ [blockType], ba_totalBlocks := ba_totalBlocks a + 1\<rparr>
      in if blockType = ''thinking''
         then let sig = resolveThinkingSignature J C modelName sc block;
                  keep = (sig \<noteq> '''')
              in analyze_loop J C modelName sc (Suc key) blocks
                   (a\<lparr>ba_thinkingResults := ba_thinkingResults a @ [(key, sig, keep)]\<rparr>)
                   (if keep then tc\<lparr>tc_CurrentSignature := sig\<rparr> else tc)
         else if blockType = ''tool_use'' \<and> jget block ''signature'' \<noteq> None
         then analyze_loop J C modelName sc (Suc key) blocks (a\<lparr>ba_toolUseIndexes := ba_toolUseIndexes a @ [key]\<rparr>) tc
         else analyze_loop J C modelName sc (Suc key) blocks a tc)"

definition analyzeContentBlocks ::
    "'b json_lib \<Rightarrow> 's cache_ops \<Rightarrow> string \<Rightarrow> 's option \<Rightarrow> json list \<Rightarrow> thinking_ctx \<Rightarrow> block_analysis \<times> thinking_ctx" where
  "analyzeContentBlocks J C modelName sc content tc =
     analyze_loop J C modelName sc 0 content
       \<lparr>ba_thinkingResults = [], ba_blockTypes = [], ba_toolUseIndexes = [], ba_totalBlocks = 0\<rparr> tc"

definition countKeptBlocks :: "block_analysis \<Rightarrow> int" where
  "countKeptBlocks a =
     foldl (\<lambda>kept (i, sig, keep). if \<not> keep then kept - 1 else kept) (ba_totalBlocks a) (ba_thinkingResults a)"

fun first_block_index :: "(string \<Rightarrow> bool) \<Rightarrow> nat \<Rightarrow> string list \<Rightarrow> int" where
  "first_block_index p i [] = - 1"
| "first_block_index p i (t # ts) = (if p t then int i else first_block_index p (Suc i) ts)"

definition findFirstIndex :: "string list \<Rightarrow> string \<Rightarrow> int" where
  "findFirstIndex types target = first_block_index (\<lambda>t. t = target) 0 types"

definition findFirstNonIndex :: "string list \<Rightarrow> string \<Rightarrow> int" where
  "findFirstNonIndex types target = first_block_index (\<lambda>t. t \<noteq> target) 0 types"

definition checkReorderNeeded :: "string list \<Rightarrow> bool" where
  "checkReorderNeeded blockTypes =
     (let firstThinking = findFirstIndex blockTypes ''thinking''; firstOther = findFirstNonIndex blockTypes ''thinking''
      in firstThinking \<noteq> - 1 \<and> firstOther \<noteq> - 1 \<and> firstOther < firstThinking)"

definition reorderBlocks :: "json list \<Rightarrow> string list \<Rightarrow> json list" where
  "reorderBlocks blocks types =
     map fst (filter (\<lambda>(b, t). t = ''thinking'') (zip blocks types)) @
     map fst (filter (\<lambda>(b, t). t \<noteq> ''thinking'') (zip blocks types))"

text \<open>The fields of a block as a Go map; a block of a known type is an object.\<close>

definition block_map :: "'b json_lib \<Rightarrow> json \<Rightarrow> (string \<times> json) list" where
  "block_map J block = (case block of JObj ms \<Rightarrow> map (\<lambda>(k, v). (k, go_value (jl_float J) v)) ms | _ \<Rightarrow> [])"

definition processThinkingBlock ::
    "'b json_lib \<Rightarrow> 's cache_ops \<Rightarrow> string \<Rightarrow> 's option \<Rightarrow> json \<Rightarrow> thinking_ctx \<Rightarrow> json option \<times> thinking_ctx" where
  "processThinkingBlock J C modelName sc block tc =
     (let signature = resolveThinkingSignature J C modelName sc block
      in if signature = '''' then (None, tc\<lparr>tc_DroppedBlocks := tc_DroppedBlocks tc + 1\<rparr>)
         else (Some (json_map (upd_member ''signature'' (\<lambda>_. JStr signature) (block_map J block))),
               tc\<lparr>tc_CurrentSignature := signature\<rparr>))"

definition processToolUseBlock :: "'b json_lib \<Rightarrow> json \<Rightarrow> json" where
  "processToolUseBlock J block = json_map (filter (\<lambda>m. fst m \<noteq> ''signature'') (block_map J block))"

fun collectBlocks ::
    "'b json_lib \<Rightarrow> 's cache_ops \<Rightarrow> string \<Rightarrow> 's option \<Rightarrow> json list \<Rightarrow> json list \<times> string list \<Rightarrow> thinking_ctx \<Rightarrow>
     (json list \<times> string list) \<times> thinking_ctx" where
  "collectBlocks J C modelName sc [] col tc = (col, tc)"
| "collectBlocks J C modelName sc (block # blocks) (modifiedBlocks, modifiedTypes) tc =
     (let blockType = block_type J block
      in if blockType = ''thinking''
         then (case processThinkingBlock J C modelName sc block tc of
                 (Some processed, tc) \<Rightarrow>
                   collectBlocks J C modelName sc blocks (modifiedBlocks @ [processed], modifiedTypes @ [blockType]) tc
               | (None, tc) \<Rightarrow> collectBlocks J C modelName sc blocks (modifiedBlocks, modifiedTypes) tc)
         else collectBlocks J C modelName sc blocks
           (modifiedBlocks @ [if blockType = ''tool_use'' then processToolUseBlock J block else go_value (jl_float J) block],
            modifiedTypes @ [blockType]) tc)"

section \<open>Messages\<close>

definition messagePath :: "nat \<Rightarrow> json_step list" where
  "messagePath idx = [Key ''messages'', Idx idx]"

definition messageContentPath :: "nat \<Rightarrow> json_step list" where
  "messageContentPath idx = [Key ''messages'', Idx idx, Key ''content'']"

definition messages_of :: "json \<Rightarrow> json list option" where
  "messages_of d = (case jget d ''messages'' of Some (JArr ms) \<Rightarrow> Some ms | _ \<Rightarrow> None)"

definition role_of :: "'b json_lib \<Rightarrow> json \<Rightarrow> string" where
  "role_of J msg = jstring J (jget msg ''role'')"

definition assistantContent :: "'b json_lib \<Rightarrow> json \<Rightarrow> json list option" where
  "assistantContent J msg =
     (if role_of J msg \<noteq> ''assistant'' then None
      else case jget msg ''content'' of Some (JArr blocks) \<Rightarrow> Some blocks | _ \<Rightarrow> None)"

definition countMessages :: "json \<Rightarrow> nat" where
  "countMessages d = (case messages_of d of Some ms \<Rightarrow> length ms | None \<Rightarrow> 0)"

text \<open>\<open>gjson\<close> at an index: nothing outside the array.\<close>

definition message_at :: "json \<Rightarrow> nat \<Rightarrow> json" where
  "message_at d i = (case messages_of d of Some ms \<Rightarrow> if i < length ms then ms ! i else JNull | None \<Rightarrow> JNull)"

definition isConsecutiveUserPair :: "'b json_lib \<Rightarrow> json \<Rightarrow> nat \<Rightarrow> nat \<Rightarrow> bool" where
  "isConsecutiveUserPair J d idxA idxB \<longleftrightarrow> role_of J (message_at d idxA) = ''user'' \<and> role_of J (message_at d idxB) = ''user''"

definition nextMessageHasToolResult :: "'b json_lib \<Rightarrow> json \<Rightarrow> nat \<Rightarrow> bool" where
  "nextMessageHasToolResult J d nextIdx \<longleftrightarrow>
     (let nextMsg = message_at d nextIdx
      in role_of J nextMsg = ''user'' \<and> list_ex (\<lambda>b. block_type J b = ''tool_result'') (jvalues (jget nextMsg ''content'')))"

definition WouldOrphanToolResults :: "'b json_lib \<Rightarrow> 'b \<Rightarrow> nat \<Rightarrow> bool" where
  "WouldOrphanToolResults J body msgIndex =
     (let d = jl_doc J body; totalMessages = countMessages d; nextIdx = msgIndex + 1
      in if totalMessages = 0 then False
         else if 0 < msgIndex \<and> nextIdx < totalMessages \<and> isConsecutiveUserPair J d (msgIndex - 1) nextIdx then True
         else nextIdx < totalMessages \<and> nextMessageHasToolResult J d nextIdx)"

definition placeholder :: json where
  "placeholder = JArr [json_map [(''type'', JStr ''text''), (''text'', JStr '''')]]"

definition ReplaceContentWithPlaceholder :: "'b json_lib \<Rightarrow> 'b \<Rightarrow> nat \<Rightarrow> 'b" where
  "ReplaceContentWithPlaceholder J body msgIndex =
     (case jl_set J body (messageContentPath msgIndex) placeholder of Inl e \<Rightarrow> body | Inr b \<Rightarrow> b)"

definition signature_path :: "nat \<Rightarrow> nat \<Rightarrow> json_step list" where
  "signature_path msgIndex i = messageContentPath msgIndex @ [Idx i, Key ''signature'']"

fun set_signatures :: "'b json_lib \<Rightarrow> nat \<Rightarrow> (nat \<times> string \<times> bool) list \<Rightarrow> 'b \<Rightarrow> go_error + 'b" where
  "set_signatures J msgIndex [] b = Inr b"
| "set_signatures J msgIndex ((i, sig, keep) # rs) b =
     (if \<not> keep then set_signatures J msgIndex rs b
      else case jl_set J b (signature_path msgIndex i) (JStr sig) of
             Inl e \<Rightarrow> Inl (Wrapped ''failed to update signature'' e)
           | Inr b \<Rightarrow> set_signatures J msgIndex rs b)"

fun delete_signatures :: "'b json_lib \<Rightarrow> nat \<Rightarrow> nat list \<Rightarrow> 'b \<Rightarrow> go_error + 'b" where
  "delete_signatures J msgIndex [] b = Inr b"
| "delete_signatures J msgIndex (i # is) b =
     (case jl_delete J b (signature_path msgIndex i) of
        Inl e \<Rightarrow> Inl (Wrapped ''failed to delete tool_use signature'' e)
      | Inr b \<Rightarrow> delete_signatures J msgIndex is b)"

definition surgicalUpdate ::
    "'b json_lib \<Rightarrow> 'b \<Rightarrow> nat \<Rightarrow> (nat \<times> string \<times> bool) list \<Rightarrow> nat list \<Rightarrow> go_error + 'b" where
  "surgicalUpdate J body msgIndex thinkingResults toolUseIndexes =
     (case set_signatures J msgIndex thinkingResults body of
        Inl e \<Rightarrow> Inl e
      | Inr b \<Rightarrow> delete_signatures J msgIndex toolUseIndexes b)"

definition rebuildContent ::
    "'b json_lib \<Rightarrow> 's cache_ops \<Rightarrow> 'b \<Rightarrow> nat \<Rightarrow> json list \<Rightarrow> string \<Rightarrow> 's option \<Rightarrow> thinking_ctx \<Rightarrow> bool \<Rightarrow>
     (go_error + 'b) \<times> thinking_ctx" where
  "rebuildContent J C body msgIndex content modelName sc tc needsReorder =
     (let ((blocks, types), tc) = collectBlocks J C modelName sc content ([], []) (tc\<lparr>tc_ReorderedBlocks := needsReorder\<rparr>);
          blocks = (if needsReorder then reorderBlocks blocks types else blocks)
      in (jl_set J body (messageContentPath msgIndex) (JArr blocks), tc))"

text \<open>The new body and whether the message is to be dropped, or an error; and the context.\<close>

definition processAssistantContent ::
    "'b json_lib \<Rightarrow> 's cache_ops \<Rightarrow> 'b \<Rightarrow> nat \<Rightarrow> json list \<Rightarrow> string \<Rightarrow> 's option \<Rightarrow> thinking_ctx \<Rightarrow>
     (go_error + 'b \<times> bool) \<times> thinking_ctx" where
  "processAssistantContent J C body msgIndex content modelName sc tc =
     (let (analysis, tc) = analyzeContentBlocks J C modelName sc content tc;
          keptCount = countKeptBlocks analysis
      in if keptCount = 0
         then if WouldOrphanToolResults J body msgIndex
              then (Inr (ReplaceContentWithPlaceholder J body msgIndex, False),
                    tc\<lparr>tc_DroppedBlocks := tc_DroppedBlocks tc + ba_totalBlocks analysis\<rparr>)
              else (Inr (body, True),
                    tc\<lparr>tc_DroppedBlocks := tc_DroppedBlocks tc + (ba_totalBlocks analysis - keptCount)\<rparr>)
         else let needsDrop = (keptCount < ba_totalBlocks analysis);
                  needsReorder = checkReorderNeeded (ba_blockTypes analysis)
              in if \<not> needsDrop \<and> \<not> needsReorder
                 then (map_sum id (\<lambda>b. (b, False))
                         (surgicalUpdate J body msgIndex (ba_thinkingResults analysis) (ba_toolUseIndexes analysis)), tc)
                 else (case rebuildContent J C body msgIndex content modelName sc tc needsReorder of
                         (Inl e, tc) \<Rightarrow> (Inl (Wrapped ''failed to set content'' e), tc)
                       | (Inr b, tc) \<Rightarrow> (Inr (b, False), tc)))"

fun drop_loop :: "'b json_lib \<Rightarrow> nat list \<Rightarrow> 'b \<Rightarrow> go_error + 'b" where
  "drop_loop J [] b = Inr b"
| "drop_loop J (i # is) b = (case jl_delete J b (messagePath i) of Inl e \<Rightarrow> Inl e | Inr b \<Rightarrow> drop_loop J is b)"

definition dropMessagesByIndex :: "'b json_lib \<Rightarrow> 'b \<Rightarrow> nat list \<Rightarrow> go_error + 'b" where
  "dropMessagesByIndex J body indexes = drop_loop J (rev (sort indexes)) body"

fun request_loop ::
    "'b json_lib \<Rightarrow> 's cache_ops \<Rightarrow> string \<Rightarrow> 's option \<Rightarrow> nat \<Rightarrow> json list \<Rightarrow> 'b \<Rightarrow> nat list \<Rightarrow> thinking_ctx \<Rightarrow>
     (go_error + 'b \<times> nat list) \<times> thinking_ctx" where
  "request_loop J C modelName sc key [] b drops tc = (Inr (b, drops), tc)"
| "request_loop J C modelName sc key (msg # msgs) b drops tc =
     (case assistantContent J msg of
        None \<Rightarrow> request_loop J C modelName sc (Suc key) msgs b drops tc
      | Some content \<Rightarrow>
          (case processAssistantContent J C b key content modelName sc tc of
             (Inl e, tc) \<Rightarrow> (Inl e, tc)
           | (Inr (b, dropMessage), tc) \<Rightarrow>
               request_loop J C modelName sc (Suc key) msgs b (if dropMessage then drops @ [key] else drops) tc))"

definition ProcessRequestThinking ::
    "'b json_lib \<Rightarrow> 's cache_ops \<Rightarrow> 'b \<Rightarrow> string \<Rightarrow> 's option \<Rightarrow> ('b \<times> thinking_ctx \<times> go_error option)" where
  "ProcessRequestThinking J C body modelName sc =
     (let tc = \<lparr>tc_CurrentSignature = '''', tc_DroppedBlocks = 0, tc_ReorderedBlocks = False\<rparr>
      in case messages_of (jl_doc J body) of
           None \<Rightarrow> (body, tc, None)
         | Some msgs \<Rightarrow>
             (case request_loop J C modelName sc 0 msgs body [] tc of
                (Inl e, tc) \<Rightarrow> (body, tc, Some e)
              | (Inr (b, drops), tc) \<Rightarrow>
                  if drops = [] then (b, tc, None)
                  else case dropMessagesByIndex J b drops of
                         Inl e \<Rightarrow> (body, tc, Some e)
                       | Inr b \<Rightarrow> (b, tc, None)))"

section \<open>Another provider\<close>

fun strip_loop :: "'b json_lib \<Rightarrow> nat \<Rightarrow> json list \<Rightarrow> 'b \<Rightarrow> nat list \<Rightarrow> 'b \<times> nat list" where
  "strip_loop J key [] b drops = (b, drops)"
| "strip_loop J key (msg # msgs) b drops =
     (if role_of J msg \<noteq> ''assistant'' then strip_loop J (Suc key) msgs b drops
      else let rcPath = messagePath key @ [Key ''reasoning_content'']
           in case (if jget (message_at (jl_doc J b) key) ''reasoning_content'' \<noteq> None then jl_delete J b rcPath else Inr b) of
                Inl e \<Rightarrow> strip_loop J (Suc key) msgs (jl_failed J b) drops
              | Inr b \<Rightarrow>
                  (case jget msg ''content'' of
                     Some (JArr blocks) \<Rightarrow>
                       if \<not> list_ex (is_thinking J) blocks then strip_loop J (Suc key) msgs b drops
                       else if list_all (is_thinking J) blocks
                       then if WouldOrphanToolResults J b key
                            then strip_loop J (Suc key) msgs (ReplaceContentWithPlaceholder J b key) drops
                            else strip_loop J (Suc key) msgs b (drops @ [key])
                       else let kept = map (go_value (jl_float J)) (filter (\<lambda>x. \<not> is_thinking J x) blocks)
                            in strip_loop J (Suc key) msgs
                                 (case jl_set J b (messageContentPath key) (JArr kept) of Inl e \<Rightarrow> jl_failed J b | Inr b \<Rightarrow> b) drops
                   | _ \<Rightarrow> strip_loop J (Suc key) msgs b drops))"

definition stripThinkingFromMessages :: "'b json_lib \<Rightarrow> 'b \<Rightarrow> json list \<Rightarrow> 'b \<times> nat list" where
  "stripThinkingFromMessages J body messages = strip_loop J 0 messages body []"

definition StripThinkingForProviderSwitch :: "'b json_lib \<Rightarrow> 'b \<Rightarrow> 'b" where
  "StripThinkingForProviderSwitch J body =
     (if \<not> HasThinkingBlocks (jl_bytes J body) \<and> \<not> contains_str (dq ''reasoning_content'') (jl_bytes J body) then body
      else case (if jget (jl_doc J body) ''thinking'' \<noteq> None then jl_delete J body [Key ''thinking''] else Inr body) of
             Inl e \<Rightarrow> body
           | Inr b \<Rightarrow>
               (case messages_of (jl_doc J b) of
                  None \<Rightarrow> b
                | Some messages \<Rightarrow>
                    (let (b, drops) = stripThinkingFromMessages J b messages
                     in if drops = [] then b
                        else case dropMessagesByIndex J b drops of Inl e \<Rightarrow> body | Inr b \<Rightarrow> b)))"

end
