(* ===== verification/Thinking_Facts.thy ===== *)
theory Thinking_Facts
  imports Thinking
begin

text \<open>
  What becomes of a conversation: the edits of a body, message by message and index by index, are a map over its
  messages (\<open>ProcessRequestThinking_thinned\<close>).
\<close>

section \<open>A body by its messages\<close>

definition set_msgs :: "json \<Rightarrow> json list \<Rightarrow> json" where
  "set_msgs d ms = jput [Key ''messages''] (JArr ms) d"

lemma jput_Nil [simp]: "jput [] v = (\<lambda>_. v)"
  by (simp add: fun_eq_iff)

lemma messages_ofE:
  assumes "messages_of d = Some ms"
  obtains fs where "d = JObj fs" "map_of fs ''messages'' = Some (JArr ms)"
  using assms by (cases d) (auto simp: messages_of_def split: option.splits json.splits)

lemma messages_of_set [simp]: "messages_of d = Some ms \<Longrightarrow> messages_of (set_msgs d xs) = Some xs"
  by (erule messages_ofE) (simp add: set_msgs_def messages_of_def map_of_upd_member)

lemma set_msgs_twice [simp]: "messages_of d = Some ms \<Longrightarrow> set_msgs (set_msgs d xs) ys = set_msgs d ys"
  by (erule messages_ofE) (simp add: set_msgs_def upd_member_twice)

lemma jget_set_msgs: "messages_of d = Some ms \<Longrightarrow> k \<noteq> ''messages'' \<Longrightarrow> jget (set_msgs d xs) k = jget d k"
  by (erule messages_ofE) (simp add: set_msgs_def map_of_upd_member)

lemma set_msgs_same: "messages_of d = Some ms \<Longrightarrow> jwf d \<Longrightarrow> set_msgs d ms = d"
  by (erule messages_ofE) (simp add: set_msgs_def upd_member_same)

lemma jwf_set_msgs: "jwf d \<Longrightarrow> \<forall>m \<in> set xs. jwf m \<Longrightarrow> jwf (set_msgs d xs)"
  by (simp add: set_msgs_def jwf_jput)

lemma jwf_messages: "messages_of d = Some ms \<Longrightarrow> jwf d \<Longrightarrow> m \<in> set ms \<Longrightarrow> jwf m"
  by (erule messages_ofE) (auto dest!: map_of_SomeD)

lemma upd_member_cong: "map_of ms k = Some v \<Longrightarrow> f v = g v \<Longrightarrow> upd_member k f ms = upd_member k g ms"
  by (induction ms) auto

lemma jput_message:
  assumes "messages_of d = Some ms" and "i < length ms"
  shows "jput (Key ''messages'' # Idx i # p) v d = set_msgs d (ms[i := jput p v (ms ! i)])"
  using assms by (elim messages_ofE) (auto simp: set_msgs_def intro!: upd_member_cong)

lemma jpath_message:
  assumes "messages_of d = Some ms" and "i < length ms"
  shows "jpath (Key ''messages'' # Idx i # p) d = jpath p (ms ! i)"
  using assms by (elim messages_ofE) simp

lemma map_member_upd:
  "map_of fs k = Some v \<Longrightarrow> distinct (map fst fs) \<Longrightarrow>
   map (\<lambda>(j, x). (j, if j = k then g x else x)) fs = upd_member k (\<lambda>_. g v) fs"
proof (induction fs)
  case (Cons f fs)
  have "map (\<lambda>(j, x). (j, if j = k then g x else x)) fs = fs" if "k \<notin> fst ` set fs"
    using that by (intro map_idI) (auto simp: rev_image_eqI)
  then show ?case using Cons by (cases f) auto
qed simp

lemma jdelete_message:
  assumes "messages_of d = Some ms" and "i < length ms" and "jwf d"
  shows "p \<noteq> [] \<Longrightarrow> jdelete (Key ''messages'' # Idx i # p) d = set_msgs d (ms[i := jdelete p (ms ! i)])"
    and "jdelete [Key ''messages'', Idx i] d = set_msgs d (take i ms @ drop (Suc i) ms)"
proof -
  obtain fs where d: "d = JObj fs" "map_of fs ''messages'' = Some (JArr ms)" by (rule messages_ofE [OF assms(1)])
  have fs: "distinct (map fst fs)" using assms(3) d by simp
  show "jdelete (Key ''messages'' # Idx i # p) d = set_msgs d (ms[i := jdelete p (ms ! i)])" if "p \<noteq> []"
  proof (cases p)
    case (Cons a q)
    show ?thesis
      unfolding Cons using assms(2) d map_member_upd [OF d(2) fs, of "jdelete (Idx i # a # q)"]
      by (simp add: set_msgs_def split_def)
  qed (use that in simp)
  show "jdelete [Key ''messages'', Idx i] d = set_msgs d (take i ms @ drop (Suc i) ms)"
    using d map_member_upd [OF d(2) fs, of "jdelete [Idx i]"] by (simp add: set_msgs_def split_def)
qed

lemma jwf_jdelete: "jwf d \<Longrightarrow> jwf (jdelete p d)"
  by (induction p d rule: jdelete.induct)
    (auto simp: split_def comp_def intro: distinct_map_filter dest: in_set_takeD in_set_dropD
      dest!: set_update_subset_insert [THEN subsetD])

text \<open>The body \<open>b\<close> has the messages \<open>ms\<close> in the document \<open>d\<close>.\<close>

definition has_msgs :: "'b json_lib \<Rightarrow> 'b \<Rightarrow> json \<Rightarrow> json list \<Rightarrow> bool" where
  "has_msgs J b d ms \<longleftrightarrow> jl_doc J b = set_msgs d ms \<and> messages_of d \<noteq> None \<and> jwf (set_msgs d ms)"

lemma has_msgs_doc: "has_msgs J b d ms \<Longrightarrow> messages_of (jl_doc J b) = Some ms"
  by (auto simp: has_msgs_def)

lemma jl_set_message:
  assumes "json_ok J" and "has_msgs J b d ms" and "i < length ms" and "jpath p (ms ! i)" and "jwf v"
  obtains b' where "jl_set J b (Key ''messages'' # Idx i # p) v = Inr b'" "has_msgs J b' d (ms[i := jput p v (ms ! i)])"
proof -
  obtain ms0 where d: "messages_of d = Some ms0" using assms(2) by (auto simp: has_msgs_def)
  have doc: "jl_doc J b = set_msgs d ms" and wf: "jwf (set_msgs d ms)" using assms(2) by (auto simp: has_msgs_def)
  have "jpath (Key ''messages'' # Idx i # p) (jl_doc J b)"
    using jpath_message [OF messages_of_set [OF d] assms(3)] assms(4) doc by simp
  then obtain b' where b': "jl_set J b (Key ''messages'' # Idx i # p) v = Inr b'"
      "jl_doc J b' = jput (Key ''messages'' # Idx i # p) v (set_msgs d ms)"
    using assms(1) wf doc by (metis json_ok_def)
  then have "jl_doc J b' = set_msgs d (ms[i := jput p v (ms ! i)])"
    using jput_message [OF messages_of_set [OF d] assms(3)] d by simp
  moreover have "jwf (jl_doc J b')" unfolding b'(2) by (rule jwf_jput [OF wf assms(5)])
  ultimately show ?thesis using that b'(1) d by (auto simp: has_msgs_def)
qed

lemma jl_delete_message:
  assumes "json_ok J" and "has_msgs J b d ms" and "i < length ms" and "jpath p (ms ! i)" and "p \<noteq> []"
  obtains b' where "jl_delete J b (Key ''messages'' # Idx i # p) = Inr b'" "has_msgs J b' d (ms[i := jdelete p (ms ! i)])"
proof -
  obtain ms0 where d: "messages_of d = Some ms0" using assms(2) by (auto simp: has_msgs_def)
  have doc: "jl_doc J b = set_msgs d ms" and wf: "jwf (set_msgs d ms)" using assms(2) by (auto simp: has_msgs_def)
  have "jpath (Key ''messages'' # Idx i # p) (jl_doc J b)"
    using jpath_message [OF messages_of_set [OF d] assms(3)] assms(4) doc by simp
  then obtain b' where b': "jl_delete J b (Key ''messages'' # Idx i # p) = Inr b'"
      "jl_doc J b' = jdelete (Key ''messages'' # Idx i # p) (set_msgs d ms)"
    using assms(1) wf doc by (metis json_ok_def list.distinct(1))
  then have "jl_doc J b' = set_msgs d (ms[i := jdelete p (ms ! i)])"
    using jdelete_message(1) [OF messages_of_set [OF d] assms(3) wf assms(5)] d by simp
  moreover have "jwf (jl_doc J b')" unfolding b'(2) by (rule jwf_jdelete [OF wf])
  ultimately show ?thesis using that b'(1) d by (auto simp: has_msgs_def)
qed

lemma jl_drop_message:
  assumes "json_ok J" and "has_msgs J b d ms" and "i < length ms"
  obtains b' where "jl_delete J b (messagePath i) = Inr b'" "has_msgs J b' d (take i ms @ drop (Suc i) ms)"
proof -
  obtain ms0 where d: "messages_of d = Some ms0" using assms(2) by (auto simp: has_msgs_def)
  have doc: "jl_doc J b = set_msgs d ms" and wf: "jwf (set_msgs d ms)" using assms(2) by (auto simp: has_msgs_def)
  have "jpath [Key ''messages'', Idx i] (jl_doc J b)"
    using jpath_message [OF messages_of_set [OF d] assms(3)] doc by simp
  then obtain b' where b': "jl_delete J b [Key ''messages'', Idx i] = Inr b'"
      "jl_doc J b' = jdelete [Key ''messages'', Idx i] (set_msgs d ms)"
    using assms(1) wf doc by (metis json_ok_def list.distinct(1))
  then have "jl_doc J b' = set_msgs d (take i ms @ drop (Suc i) ms)"
    using jdelete_message(2) [OF messages_of_set [OF d] assms(3) wf] d by simp
  moreover have "jwf (jl_doc J b')" unfolding b'(2) by (rule jwf_jdelete [OF wf])
  ultimately show ?thesis using that b'(1) d by (auto simp: has_msgs_def messagePath_def)
qed


section \<open>What the messages become\<close>

definition kept_block :: "'b json_lib \<Rightarrow> 's cache_ops \<Rightarrow> string \<Rightarrow> 's option \<Rightarrow> json \<Rightarrow> bool" where
  "kept_block J C m sc b \<longleftrightarrow> (is_thinking J b \<longrightarrow> resolveThinkingSignature J C m sc b \<noteq> '''')"

definition surgical_block :: "'b json_lib \<Rightarrow> 's cache_ops \<Rightarrow> string \<Rightarrow> 's option \<Rightarrow> json \<Rightarrow> json" where
  "surgical_block J C m sc b =
     (if is_thinking J b then jput [Key ''signature''] (JStr (resolveThinkingSignature J C m sc b)) b
      else if block_type J b = ''tool_use'' then jdelete [Key ''signature''] b else b)"

definition rebuilt_block :: "'b json_lib \<Rightarrow> 's cache_ops \<Rightarrow> string \<Rightarrow> 's option \<Rightarrow> json \<Rightarrow> json" where
  "rebuilt_block J C m sc b =
     (if is_thinking J b
      then json_map (upd_member ''signature'' (\<lambda>_. JStr (resolveThinkingSignature J C m sc b)) (block_map J b))
      else if block_type J b = ''tool_use'' then processToolUseBlock J b else go_value (jl_float J) b)"

definition new_content :: "'b json_lib \<Rightarrow> 's cache_ops \<Rightarrow> string \<Rightarrow> 's option \<Rightarrow> json list \<Rightarrow> json list" where
  "new_content J C m sc blocks =
     (let needsReorder = checkReorderNeeded (map (block_type J) blocks); kept = filter (kept_block J C m sc) blocks
      in if kept = blocks \<and> \<not> needsReorder then map (surgical_block J C m sc) blocks
         else map (rebuilt_block J C m sc)
           (if needsReorder then filter (is_thinking J) kept @ filter (\<lambda>b. \<not> is_thinking J b) kept else kept))"

definition orphans :: "'b json_lib \<Rightarrow> json list \<Rightarrow> nat \<Rightarrow> bool" where
  "orphans J ms i \<longleftrightarrow>
     i + 1 < length ms \<and> role_of J (ms ! (i + 1)) = ''user'' \<and>
     (0 < i \<and> role_of J (ms ! (i - 1)) = ''user'' \<or>
      list_ex (\<lambda>b. block_type J b = ''tool_result'') (jvalues (jget (ms ! (i + 1)) ''content'')))"

definition with_content :: "json \<Rightarrow> json \<Rightarrow> json" where
  "with_content v msg = jput [Key ''content''] v msg"

definition thinned_message ::
    "'b json_lib \<Rightarrow> 's cache_ops \<Rightarrow> string \<Rightarrow> 's option \<Rightarrow> json list \<Rightarrow> nat \<Rightarrow> json option" where
  "thinned_message J C m sc ms i =
     (case assistantContent J (ms ! i) of
        None \<Rightarrow> Some (ms ! i)
      | Some blocks \<Rightarrow>
          if filter (kept_block J C m sc) blocks = []
          then (if orphans J ms i then Some (with_content placeholder (ms ! i)) else None)
          else Some (with_content (JArr (new_content J C m sc blocks)) (ms ! i)))"

section \<open>The analysis of the blocks\<close>

lemma analyze_loop_spec:
  "\<exists>a' tc'. analyze_loop J C m sc key blocks a tc = (a', tc') \<and>
     ba_blockTypes a' = ba_blockTypes a @ map (block_type J) blocks \<and>
     ba_totalBlocks a' = ba_totalBlocks a + int (length blocks) \<and>
     ba_thinkingResults a' = ba_thinkingResults a @
       map (\<lambda>(i, b). (i, resolveThinkingSignature J C m sc b, resolveThinkingSignature J C m sc b \<noteq> ''''))
         (filter (\<lambda>(i, b). is_thinking J b) (enumerate key blocks)) \<and>
     ba_toolUseIndexes a' = ba_toolUseIndexes a @
       map fst (filter (\<lambda>(i, b). block_type J b = ''tool_use'' \<and> jget b ''signature'' \<noteq> None) (enumerate key blocks))"
proof (induction blocks arbitrary: key a tc)
  case (Cons b blocks)
  let ?a = "a\<lparr>ba_blockTypes := ba_blockTypes a @ [block_type J b], ba_totalBlocks := ba_totalBlocks a + 1\<rparr>"
  let ?sig = "resolveThinkingSignature J C m sc b"
  show ?case
  proof (cases "is_thinking J b")
    case True
    then show ?thesis
      using Cons.IH [of "Suc key" "?a\<lparr>ba_thinkingResults := ba_thinkingResults ?a @ [(key, ?sig, ?sig \<noteq> '''')]\<rparr>"
          "if ?sig \<noteq> '''' then tc\<lparr>tc_CurrentSignature := ?sig\<rparr> else tc"]
      by (elim exE conjE) (simp add: is_thinking_def Let_def)
  next
    case False
    show ?thesis
    proof (cases "block_type J b = ''tool_use'' \<and> jget b ''signature'' \<noteq> None")
      case True
      then show ?thesis
        using False Cons.IH [of "Suc key" "?a\<lparr>ba_toolUseIndexes := ba_toolUseIndexes ?a @ [key]\<rparr>" tc]
        by (elim exE conjE) (simp add: is_thinking_def Let_def)
    next
      case nosig: False
      have "analyze_loop J C m sc key (b # blocks) a tc = analyze_loop J C m sc (Suc key) blocks ?a tc"
        using False nosig by (simp only: analyze_loop.simps Let_def is_thinking_def if_False)
      then show ?thesis
        using False nosig Cons.IH [of "Suc key" ?a tc] by (elim exE conjE) simp
    qed
  qed
qed simp

lemma countKept_foldl:
  "foldl (\<lambda>kept (i, sig, keep). if \<not> keep then kept - 1 else kept) t rs = t - int (length (filter (\<lambda>(i, sig, keep). \<not> keep) rs))"
  by (induction rs arbitrary: t) (auto simp: split_def)

lemma length_filter_enumerate: "length (filter (\<lambda>(i, b). P b) (enumerate k xs)) = length (filter P xs)"
  by (induction xs arbitrary: k) auto

lemma analyze_spec:
  obtains a tc' where "analyzeContentBlocks J C m sc blocks tc = (a, tc')"
    "ba_blockTypes a = map (block_type J) blocks" "ba_totalBlocks a = int (length blocks)"
    "ba_thinkingResults a = map (\<lambda>(i, b). (i, resolveThinkingSignature J C m sc b, resolveThinkingSignature J C m sc b \<noteq> ''''))
         (filter (\<lambda>(i, b). is_thinking J b) (enumerate 0 blocks))"
    "ba_toolUseIndexes a =
       map fst (filter (\<lambda>(i, b). block_type J b = ''tool_use'' \<and> jget b ''signature'' \<noteq> None) (enumerate 0 blocks))"
    "countKeptBlocks a = int (length (filter (kept_block J C m sc) blocks))"
proof -
  obtain a tc' where a: "analyzeContentBlocks J C m sc blocks tc = (a, tc')"
    "ba_blockTypes a = map (block_type J) blocks" "ba_totalBlocks a = int (length blocks)"
    "ba_thinkingResults a = map (\<lambda>(i, b). (i, resolveThinkingSignature J C m sc b, resolveThinkingSignature J C m sc b \<noteq> ''''))
         (filter (\<lambda>(i, b). is_thinking J b) (enumerate 0 blocks))"
    "ba_toolUseIndexes a =
       map fst (filter (\<lambda>(i, b). block_type J b = ''tool_use'' \<and> jget b ''signature'' \<noteq> None) (enumerate 0 blocks))"
    unfolding analyzeContentBlocks_def
    using analyze_loop_spec [of J C m sc 0 blocks "\<lparr>ba_thinkingResults = [], ba_blockTypes = [], ba_toolUseIndexes = [], ba_totalBlocks = 0\<rparr>" tc]
    by auto
  have "countKeptBlocks a = int (length blocks) - int (length (filter (\<lambda>b. \<not> kept_block J C m sc b) blocks))"
    using length_filter_enumerate [of "\<lambda>b. \<not> kept_block J C m sc b" 0 blocks]
    unfolding countKeptBlocks_def countKept_foldl a by (simp add: filter_map comp_def split_def kept_block_def)
  then have "countKeptBlocks a = int (length (filter (kept_block J C m sc) blocks))"
    using sum_length_filter_compl [of "kept_block J C m sc" blocks] by simp
  with a that show ?thesis by blast
qed


section \<open>Editing the blocks of one message\<close>

lemma jget_with_content:
  assumes "jget msg ''content'' = Some v"
  shows "jget (with_content w msg) ''content'' = Some w"
    and "k \<noteq> ''content'' \<Longrightarrow> jget (with_content w msg) k = jget msg k"
    and "with_content w (with_content u msg) = with_content w msg"
  using assms by (cases msg; simp add: with_content_def map_of_upd_member upd_member_twice)+

lemma with_content_same: "jget msg ''content'' = Some v \<Longrightarrow> jwf msg \<Longrightarrow> with_content v msg = msg"
  by (cases msg) (simp_all add: with_content_def upd_member_same)

lemma content_edit:
  assumes "jget msg ''content'' = Some (JArr cs)" and "x < length cs"
  shows "jput [Key ''content'', Idx x, Key k] v msg = with_content (JArr (cs[x := jput [Key k] v (cs ! x)])) msg"
    and "jpath [Key ''content'', Idx x, Key k] msg = (\<exists>fs. cs ! x = JObj fs)"
    and "jwf msg \<Longrightarrow> jdelete [Key ''content'', Idx x, Key k] msg =
      with_content (JArr (cs[x := jdelete [Key k] (cs ! x)])) msg"
proof -
  obtain fs where msg: "msg = JObj fs" "map_of fs ''content'' = Some (JArr cs)" using assms(1) by (cases msg) auto
  show "jput [Key ''content'', Idx x, Key k] v msg = with_content (JArr (cs[x := jput [Key k] v (cs ! x)])) msg"
    using msg assms(2) by (auto simp: with_content_def intro!: upd_member_cong)
  show "jpath [Key ''content'', Idx x, Key k] msg = (\<exists>fs. cs ! x = JObj fs)"
    using msg assms(2) by (cases "cs ! x") auto
  show "jdelete [Key ''content'', Idx x, Key k] msg = with_content (JArr (cs[x := jdelete [Key k] (cs ! x)])) msg" if "jwf msg"
    using msg assms(2) that map_member_upd [OF msg(2), of "jdelete [Idx x, Key k]"] by (simp add: with_content_def split_def)
qed

lemma has_msgs_wf: "has_msgs J b d ms \<Longrightarrow> m \<in> set ms \<Longrightarrow> jwf m"
  using jwf_messages [OF messages_of_set] by (fastforce simp: has_msgs_def)

lemma set_signatures_ok:
  assumes "json_ok J" and "has_msgs J b d ms" and "i < length ms" and "jget (ms ! i) ''content'' = Some (JArr cs)"
    and "\<forall>(x, s, k) \<in> set rs. x < length cs \<and> k \<and> (\<exists>fs. cs ! x = JObj fs)"
  shows "\<exists>b'. set_signatures J i rs b = Inr b' \<and> has_msgs J b' d
    (ms[i := with_content (JArr (fold (\<lambda>(x, s, k) cs. cs[x := jput [Key ''signature''] (JStr s) (cs ! x)]) rs cs)) (ms ! i)])"
  using assms(2-5)
proof (induction rs arbitrary: b ms cs)
  case Nil
  then show ?case using with_content_same [OF Nil.prems(3) has_msgs_wf [OF Nil.prems(1)]] by simp
next
  case (Cons r rs)
  obtain x s k where r: "r = (x, s, k)" by (cases r)
  obtain fs where x: "x < length cs" "k" "cs ! x = JObj fs" using Cons.prems(4) r by auto
  let ?cs = "cs[x := jput [Key ''signature''] (JStr s) (cs ! x)]" and ?m = "ms ! i"
  have "jpath [Key ''content'', Idx x, Key ''signature''] ?m"
    unfolding content_edit(2) [OF Cons.prems(3) x(1)] using x(3) by blast
  from jl_set_message [OF assms(1) Cons.prems(1,2) this, of "JStr s"] obtain b'
    where b': "jl_set J b (signature_path i x) (JStr s) = Inr b'" "has_msgs J b' d (ms[i := with_content (JArr ?cs) ?m])"
    unfolding content_edit(1) [OF Cons.prems(3) x(1)] by (auto simp: signature_path_def messageContentPath_def)
  have ok: "\<forall>(y, s, k) \<in> set rs. y < length ?cs \<and> k \<and> (\<exists>fs. ?cs ! y = JObj fs)"
    using Cons.prems(4) x(1,3) by (fastforce simp: nth_list_update)
  have c: "jget (ms[i := with_content (JArr ?cs) ?m] ! i) ''content'' = Some (JArr ?cs)"
    using Cons.prems(2) jget_with_content(1) [OF Cons.prems(3)] by simp
  from Cons.IH [OF b'(2) _ c ok] Cons.prems(2) show ?case
    using r x(2) b'(1) jget_with_content(3) [OF Cons.prems(3)] by simp
qed

lemma delete_signatures_ok:
  assumes "json_ok J" and "has_msgs J b d ms" and "i < length ms" and "jget (ms ! i) ''content'' = Some (JArr cs)"
    and "\<forall>x \<in> set xs. x < length cs \<and> (\<exists>fs. cs ! x = JObj fs)"
  shows "\<exists>b'. delete_signatures J i xs b = Inr b' \<and> has_msgs J b' d
    (ms[i := with_content (JArr (fold (\<lambda>x cs. cs[x := jdelete [Key ''signature''] (cs ! x)]) xs cs)) (ms ! i)])"
  using assms(2-5)
proof (induction xs arbitrary: b ms cs)
  case Nil
  then show ?case using with_content_same [OF Nil.prems(3) has_msgs_wf [OF Nil.prems(1)]] by simp
next
  case (Cons x xs)
  obtain fs where x: "x < length cs" "cs ! x = JObj fs" using Cons.prems(4) by auto
  let ?cs = "cs[x := jdelete [Key ''signature''] (cs ! x)]" and ?m = "ms ! i"
  have wf: "jwf ?m" using has_msgs_wf [OF Cons.prems(1)] Cons.prems(2) by simp
  have "jpath [Key ''content'', Idx x, Key ''signature''] ?m"
    unfolding content_edit(2) [OF Cons.prems(3) x(1)] using x(2) by blast
  from jl_delete_message [OF assms(1) Cons.prems(1,2) this] obtain b'
    where b': "jl_delete J b (signature_path i x) = Inr b'" "has_msgs J b' d (ms[i := with_content (JArr ?cs) ?m])"
    unfolding content_edit(3) [OF Cons.prems(3) x(1) wf] by (auto simp: signature_path_def messageContentPath_def)
  have ok: "\<forall>y \<in> set xs. y < length ?cs \<and> (\<exists>fs. ?cs ! y = JObj fs)"
    using Cons.prems(4) x by (fastforce simp: nth_list_update)
  have c: "jget (ms[i := with_content (JArr ?cs) ?m] ! i) ''content'' = Some (JArr ?cs)"
    using Cons.prems(2) jget_with_content(1) [OF Cons.prems(3)] by simp
  from Cons.IH [OF b'(2) _ c ok] Cons.prems(2) show ?case
    using b'(1) jget_with_content(3) [OF Cons.prems(3)] by simp
qed

text \<open>Independent updates of a list at distinct indexes.\<close>

lemma fold_at:
  "distinct (map fst ps) \<Longrightarrow> \<forall>p \<in> set ps. fst p < length cs \<Longrightarrow>
   length (fold (\<lambda>(x, y) cs. cs[x := f y (cs ! x)]) ps cs) = length cs \<and>
   (\<forall>j < length cs. fold (\<lambda>(x, y) cs. cs[x := f y (cs ! x)]) ps cs ! j =
      (case map_of ps j of None \<Rightarrow> cs ! j | Some y \<Rightarrow> f y (cs ! j)))"
proof (induction ps arbitrary: cs)
  case (Cons p ps)
  obtain x y where p: "p = (x, y)" by (cases p)
  have no: "map_of ps x = None" using Cons.prems(1) p by (simp add: map_of_eq_None_iff)
  show ?case
    using Cons.IH [of "cs[x := f y (cs ! x)]"] Cons.prems p no
    by (auto simp: nth_list_update split: option.splits)
qed simp

lemma distinct_enumerate_filter: "distinct (map fst (filter P (enumerate 0 xs)))"
  by (rule distinct_map_filter) simp

lemma map_of_enumerate_filter:
  assumes "j < length xs"
  shows "map_of (filter (\<lambda>(i, b). P b) (enumerate 0 xs)) j = (if P (xs ! j) then Some (xs ! j) else None)"
proof (cases "P (xs ! j)")
  case True
  then have "(j, xs ! j) \<in> set (filter (\<lambda>(i, b). P b) (enumerate 0 xs))"
    using assms by (simp add: in_set_enumerate_eq)
  with True show ?thesis by (simp add: map_of_is_SomeI [OF distinct_enumerate_filter])
next
  case False
  then have "j \<notin> fst ` set (filter (\<lambda>(i, b). P b) (enumerate 0 xs))" by (auto simp: in_set_enumerate_eq)
  with False show ?thesis by (simp add: map_of_eq_None_iff)
qed

lemma typed_block: "block_type J b \<noteq> '''' \<Longrightarrow> \<exists>fs. b = JObj fs"
  by (cases b) (simp_all add: block_type_def)

lemma fold_map_pairs: "fold f (map g xs) a = fold (\<lambda>x. f (g x)) xs a"
  by (induction xs arbitrary: a) auto

lemma surgicalUpdate_ok:
  assumes "json_ok J" and "has_msgs J b d ms" and "i < length ms" and "jget (ms ! i) ''content'' = Some (JArr cs)"
    and "filter (kept_block J C m sc) cs = cs"
  shows "\<exists>b'. surgicalUpdate J b i
      (map (\<lambda>(i, b). (i, resolveThinkingSignature J C m sc b, resolveThinkingSignature J C m sc b \<noteq> ''''))
         (filter (\<lambda>(i, b). is_thinking J b) (enumerate 0 cs)))
      (map fst (filter (\<lambda>(i, b). block_type J b = ''tool_use'' \<and> jget b ''signature'' \<noteq> None) (enumerate 0 cs))) = Inr b' \<and>
    has_msgs J b' d (ms[i := with_content (JArr (map (surgical_block J C m sc) cs)) (ms ! i)])"
proof -
  let ?sig = "resolveThinkingSignature J C m sc"
  let ?T = "filter (\<lambda>(i, b). is_thinking J b) (enumerate 0 cs)"
  let ?U = "filter (\<lambda>(i, b). block_type J b = ''tool_use'' \<and> jget b ''signature'' \<noteq> None) (enumerate 0 cs)"
  let ?rs = "map (\<lambda>(i, b). (i, ?sig b, ?sig b \<noteq> '''')) ?T"
  let ?put = "\<lambda>y b. jput [Key ''signature''] (JStr (?sig y)) b" and ?del = "\<lambda>y::json. jdelete [Key ''signature'']"
  let ?cs = "fold (\<lambda>(x, y) cs. cs[x := ?put y (cs ! x)]) ?T cs"
  have kept: "\<forall>b \<in> set cs. kept_block J C m sc b" using assms(5) by (simp add: filter_id_conv)
  have obj: "\<exists>fs. b = JObj fs" if "is_thinking J b \<or> block_type J b = ''tool_use''" for b
    using that typed_block [of J b] by (auto simp: is_thinking_def)
  have "\<forall>(x, s, k) \<in> set ?rs. x < length cs \<and> k \<and> (\<exists>fs. cs ! x = JObj fs)"
    using kept obj by (auto simp: in_set_enumerate_eq kept_block_def)
  from set_signatures_ok [OF assms(1-4) this] obtain b1 where b1: "set_signatures J i ?rs b = Inr b1"
    "has_msgs J b1 d (ms[i := with_content (JArr ?cs) (ms ! i)])"
    by (auto simp: fold_map_pairs split_def)
  have len: "length ?cs = length cs" and at: "j < length cs \<Longrightarrow> ?cs ! j = (if is_thinking J (cs ! j) then ?put (cs ! j) (cs ! j) else cs ! j)" for j
    using fold_at [OF distinct_enumerate_filter, of "\<lambda>(i, b). is_thinking J b" cs cs ?put]
    by (auto simp: map_of_enumerate_filter in_set_enumerate_eq)
  have same: "?cs ! x = cs ! x" if "x < length cs" "block_type J (cs ! x) = ''tool_use''" for x
    using at [OF that(1)] that(2) by (simp add: is_thinking_def)
  let ?m = "ms[i := with_content (JArr ?cs) (ms ! i)]"
  have c1: "jget (?m ! i) ''content'' = Some (JArr ?cs)" using assms(3) jget_with_content(1) [OF assms(4)] by simp
  have "\<forall>x \<in> set (map fst ?U). x < length ?cs \<and> (\<exists>fs. ?cs ! x = JObj fs)"
    using obj same by (auto simp: in_set_enumerate_eq len)
  from delete_signatures_ok [OF assms(1) b1(2) _ c1 this] obtain b2 where b2: "delete_signatures J i (map fst ?U) b1 = Inr b2"
    "has_msgs J b2 d (?m[i := with_content (JArr (fold (\<lambda>x cs. cs[x := jdelete [Key ''signature''] (cs ! x)]) (map fst ?U) ?cs)) (?m ! i)])"
    using assms(3) by auto
  have "fold (\<lambda>x cs. cs[x := jdelete [Key ''signature''] (cs ! x)]) (map fst ?U) ?cs =
      fold (\<lambda>(x, y) cs. cs[x := ?del y (cs ! x)]) ?U ?cs"
    by (simp add: fold_map_pairs split_def)
  moreover have "fold (\<lambda>(x, y) cs. cs[x := ?del y (cs ! x)]) ?U ?cs = map (surgical_block J C m sc) cs"
  proof (rule nth_equalityI)
    have U: "length (fold (\<lambda>(x, y) cs. cs[x := ?del y (cs ! x)]) ?U ?cs) = length ?cs \<and>
      (\<forall>j < length ?cs. fold (\<lambda>(x, y) cs. cs[x := ?del y (cs ! x)]) ?U ?cs ! j =
        (case map_of ?U j of None \<Rightarrow> ?cs ! j | Some y \<Rightarrow> ?del y (?cs ! j)))"
      by (rule fold_at [OF distinct_enumerate_filter]) (auto simp: in_set_enumerate_eq len)
    then show "length (fold (\<lambda>(x, y) cs. cs[x := ?del y (cs ! x)]) ?U ?cs) = length (map (surgical_block J C m sc) cs)"
      using len by simp
    fix j assume "j < length (fold (\<lambda>(x, y) cs. cs[x := ?del y (cs ! x)]) ?U ?cs)"
    then have j: "j < length cs" using U len by simp
    have excl: "is_thinking J b \<Longrightarrow> block_type J b = ''thinking''" for b by (simp add: is_thinking_def)
    have nodel: "jdelete [Key ''signature''] b = b" if "jget b ''signature'' = None" for b
      using that by (cases b) (force simp: map_of_eq_None_iff intro!: filter_True)+
    show "fold (\<lambda>(x, y) cs. cs[x := ?del y (cs ! x)]) ?U ?cs ! j = map (surgical_block J C m sc) cs ! j"
      using U j len at [OF j] nodel [of "cs ! j"] excl [of "cs ! j"]
      by (auto simp: map_of_enumerate_filter surgical_block_def)
  qed
  ultimately show ?thesis
    using b1(1) b2 assms(3) jget_with_content(3) [OF assms(4)] by (auto simp: surgicalUpdate_def)
qed


section \<open>One message\<close>

lemma collectBlocks_spec:
  "\<exists>tc'. collectBlocks J C m sc content (bs, ts) tc =
    ((bs @ map (rebuilt_block J C m sc) (filter (kept_block J C m sc) content),
      ts @ map (block_type J) (filter (kept_block J C m sc) content)), tc')"
proof (induction content arbitrary: bs ts tc)
  case (Cons b content)
  show ?case
  proof (cases "is_thinking J b \<and> resolveThinkingSignature J C m sc b = ''''")
    case True
    then have t: "block_type J b = ''thinking''" "\<not> kept_block J C m sc b" by (simp_all add: is_thinking_def kept_block_def)
    have "collectBlocks J C m sc (b # content) (bs, ts) tc =
        collectBlocks J C m sc content (bs, ts) (tc\<lparr>tc_DroppedBlocks := tc_DroppedBlocks tc + 1\<rparr>)"
      using True t(1) by (simp add: processThinkingBlock_def Let_def)
    then show ?thesis using Cons.IH [of bs ts "tc\<lparr>tc_DroppedBlocks := tc_DroppedBlocks tc + 1\<rparr>"] t(2) by simp
  next
    case False
    have "\<exists>tc1. collectBlocks J C m sc (b # content) (bs, ts) tc =
        collectBlocks J C m sc content (bs @ [rebuilt_block J C m sc b], ts @ [block_type J b]) tc1"
      using False by (simp add: processThinkingBlock_def rebuilt_block_def is_thinking_def Let_def) blast
    then obtain tc1 where tc1: "collectBlocks J C m sc (b # content) (bs, ts) tc =
        collectBlocks J C m sc content (bs @ [rebuilt_block J C m sc b], ts @ [block_type J b]) tc1" by blast
    have "kept_block J C m sc b" using False by (simp add: kept_block_def)
    then show ?thesis
      using Cons.IH [of "bs @ [rebuilt_block J C m sc b]" "ts @ [block_type J b]" tc1] tc1 by simp
  qed
qed simp

lemma reorderBlocks_map:
  "reorderBlocks (map f bs) (map (block_type J) bs) = map f (filter (is_thinking J) bs @ filter (\<lambda>b. \<not> is_thinking J b) bs)"
proof -
  have "map fst (filter (\<lambda>(b, t). P t) (zip (map f bs) (map (block_type J) bs))) = map f (filter (\<lambda>b. P (block_type J b)) bs)" for P
    by (induction bs) auto
  moreover have "is_thinking J = (\<lambda>b. block_type J b = ''thinking'')" by (simp add: fun_eq_iff is_thinking_def)
  ultimately show ?thesis by (simp add: reorderBlocks_def)
qed

lemma jwf_json_map: "distinct (map fst ms) \<Longrightarrow> \<forall>x \<in> set ms. jwf (snd x) \<Longrightarrow> jwf (json_map ms)"
  by (simp add: json_map_def distinct_map inj_on_def)

lemma jwf_go_value: "jwf v \<Longrightarrow> jwf (go_value fl v)"
proof (induction fl v rule: go_value.induct)
  case (3 fl ms)
  then show ?case by (fastforce intro!: jwf_json_map simp: split_def comp_def)
qed auto

lemma block_map_ok:
  assumes "jwf b"
  shows "distinct (map fst (block_map J b))" and "\<forall>x \<in> set (block_map J b). jwf (snd x)"
  using assms by (cases b; auto simp: block_map_def split_def comp_def intro: jwf_go_value)+

lemma jwf_rebuilt_block: "jwf b \<Longrightarrow> jwf (rebuilt_block J C m sc b)"
  using block_map_ok [of b J]
  by (auto simp: rebuilt_block_def processToolUseBlock_def keys_upd_member jwf_go_value
      intro!: jwf_json_map distinct_map_filter dest!: values_upd_member)

lemma assistantContentD: "assistantContent J msg = Some blocks \<Longrightarrow> role_of J msg = ''assistant'' \<and> jget msg ''content'' = Some (JArr blocks)"
  by (auto simp: assistantContent_def split: if_splits option.splits json.splits)

lemma has_msgs_set_content:
  assumes "json_ok J" and "has_msgs J b d ms" and "i < length ms" and "jget (ms ! i) ''content'' = Some w" and "jwf v"
  shows "\<exists>b'. jl_set J b (messageContentPath i) v = Inr b' \<and> has_msgs J b' d (ms[i := with_content v (ms ! i)])"
proof -
  have "jpath [Key ''content''] (ms ! i)" using assms(4) by (cases "ms ! i") simp_all
  from jl_set_message [OF assms(1-3) this assms(5)] show ?thesis
    by (auto simp: messageContentPath_def with_content_def)
qed

lemma WouldOrphan_msgs: "has_msgs J b d ms \<Longrightarrow> WouldOrphanToolResults J b i = orphans J ms i"
  using has_msgs_doc [of J b d ms]
  by (auto simp: WouldOrphanToolResults_def orphans_def countMessages_def message_at_def isConsecutiveUserPair_def
      nextMessageHasToolResult_def Let_def)

lemma jwf_placeholder: "jwf placeholder"
  by (simp add: placeholder_def jwf_json_map)

lemma processAssistantContent_ok:
  assumes "json_ok J" and "has_msgs J b d ms" and "i < length ms" and "assistantContent J (ms ! i) = Some blocks"
  shows "\<exists>b' tc'. processAssistantContent J C b i blocks m sc tc = (Inr (b', thinned_message J C m sc ms i = None), tc') \<and>
    has_msgs J b' d (case thinned_message J C m sc ms i of None \<Rightarrow> ms | Some msg \<Rightarrow> ms[i := msg])"
proof -
  obtain a tc1 where a: "analyzeContentBlocks J C m sc blocks tc = (a, tc1)"
    "ba_blockTypes a = map (block_type J) blocks" "ba_totalBlocks a = int (length blocks)"
    "ba_thinkingResults a = map (\<lambda>(i, b). (i, resolveThinkingSignature J C m sc b, resolveThinkingSignature J C m sc b \<noteq> ''''))
         (filter (\<lambda>(i, b). is_thinking J b) (enumerate 0 blocks))"
    "ba_toolUseIndexes a =
       map fst (filter (\<lambda>(i, b). block_type J b = ''tool_use'' \<and> jget b ''signature'' \<noteq> None) (enumerate 0 blocks))"
    "countKeptBlocks a = int (length (filter (kept_block J C m sc) blocks))"
    by (rule analyze_spec)
  have content: "jget (ms ! i) ''content'' = Some (JArr blocks)" using assistantContentD [OF assms(4)] by simp
  have wf: "\<forall>x \<in> set blocks. jwf x"
  proof -
    have "jwf (ms ! i)" using has_msgs_wf [OF assms(2)] assms(3) by simp
    with content have "jwf (JArr blocks)" by (cases "ms ! i") (auto dest!: map_of_SomeD)
    then show ?thesis by simp
  qed
  let ?kept = "filter (kept_block J C m sc) blocks"
  show ?thesis
  proof (cases "?kept = []")
    case none: True
    show ?thesis
    proof (cases "orphans J ms i")
      case True
      obtain b' where "jl_set J b (messageContentPath i) placeholder = Inr b'"
        "has_msgs J b' d (ms[i := with_content placeholder (ms ! i)])"
        using has_msgs_set_content [OF assms(1-3) content jwf_placeholder] by blast
      with True none show ?thesis
        by (simp add: processAssistantContent_def a WouldOrphan_msgs [OF assms(2)] thinned_message_def assms(4)
            ReplaceContentWithPlaceholder_def)
    next
      case False
      with none assms(2) show ?thesis
        by (simp add: processAssistantContent_def a WouldOrphan_msgs [OF assms(2)] thinned_message_def assms(4))
    qed
  next
    case some: False
    then have thin: "thinned_message J C m sc ms i = Some (with_content (JArr (new_content J C m sc blocks)) (ms ! i))"
      by (simp add: thinned_message_def assms(4))
    have all: "length ?kept < length blocks \<longleftrightarrow> ?kept \<noteq> blocks"
      using length_filter_less [of _ blocks "kept_block J C m sc"] by (metis filter_id_conv less_irrefl)
    show ?thesis
    proof (cases "?kept = blocks \<and> \<not> checkReorderNeeded (map (block_type J) blocks)")
      case True
      obtain b' where b': "surgicalUpdate J b i (ba_thinkingResults a) (ba_toolUseIndexes a) = Inr b'"
        "has_msgs J b' d (ms[i := with_content (JArr (map (surgical_block J C m sc) blocks)) (ms ! i)])"
        using surgicalUpdate_ok [OF assms(1-3) content conjunct1 [OF True]] unfolding a by blast
      have "blocks \<noteq> []" using some True by auto
      then show ?thesis
        using b' True all thin by (simp add: processAssistantContent_def a new_content_def)
    next
      case False
      let ?re = "checkReorderNeeded (map (block_type J) blocks)"
      obtain tc2 where col: "collectBlocks J C m sc blocks ([], []) (tc1\<lparr>tc_ReorderedBlocks := ?re\<rparr>) =
          ((map (rebuilt_block J C m sc) ?kept, map (block_type J) ?kept), tc2)"
        using collectBlocks_spec [of J C m sc blocks "[]" "[]" "tc1\<lparr>tc_ReorderedBlocks := ?re\<rparr>"] by auto
      let ?v = "JArr (new_content J C m sc blocks)"
      have v: "new_content J C m sc blocks =
          (if ?re then reorderBlocks (map (rebuilt_block J C m sc) ?kept) (map (block_type J) ?kept)
           else map (rebuilt_block J C m sc) ?kept)"
        using False by (auto simp: new_content_def reorderBlocks_map)
      have "jwf ?v" unfolding new_content_def Let_def using False wf jwf_rebuilt_block [where J = J and C = C and m = m and sc = sc] by auto
      from has_msgs_set_content [OF assms(1-3) content this] obtain b' where b': "jl_set J b (messageContentPath i) ?v = Inr b'"
        "has_msgs J b' d (ms[i := with_content ?v (ms ! i)])" by blast
      have re: "rebuildContent J C b i blocks m sc tc1 ?re = (Inr b', tc2)"
        using b'(1) by (simp add: rebuildContent_def col v)
      have no: "(\<not> length ?kept < length blocks \<and> \<not> ?re) = False" using False all by blast
      have "processAssistantContent J C b i blocks m sc tc = (Inr (b', False), tc2)"
        unfolding processAssistantContent_def a(1) prod.case Let_def a(2,3,6) of_nat_less_iff no if_False re
        using some by simp
      then show ?thesis using b'(2) thin by simp
    qed
  qed
qed


section \<open>All messages\<close>

text \<open>
  A function that says what becomes of each message, \<^term>\<open>None\<close> for one that is dropped, applied to all of them;
  and the list while the loop is at an index, where a message to be dropped is still there.
\<close>

definition mapped :: "(nat \<Rightarrow> json option) \<Rightarrow> json list \<Rightarrow> json list" where
  "mapped f ms = map (\<lambda>i. the (f i)) (filter (\<lambda>i. f i \<noteq> None) [0..<length ms])"

definition partly :: "(nat \<Rightarrow> json) \<Rightarrow> json list \<Rightarrow> nat \<Rightarrow> json list" where
  "partly h ms i = map (\<lambda>j. if j < i then h j else ms ! j) [0..<length ms]"

definition or_old :: "(nat \<Rightarrow> json option) \<Rightarrow> json list \<Rightarrow> nat \<Rightarrow> json" where
  "or_old f ms j = (case f j of Some x \<Rightarrow> x | None \<Rightarrow> ms ! j)"

abbreviation thinned :: "'b json_lib \<Rightarrow> 's cache_ops \<Rightarrow> string \<Rightarrow> 's option \<Rightarrow> json list \<Rightarrow> json list" where
  "thinned J C m sc ms \<equiv> mapped (thinned_message J C m sc ms) ms"

abbreviation partly_thinned ::
    "'b json_lib \<Rightarrow> 's cache_ops \<Rightarrow> string \<Rightarrow> 's option \<Rightarrow> json list \<Rightarrow> nat \<Rightarrow> json list" where
  "partly_thinned J C m sc ms i \<equiv> partly (or_old (thinned_message J C m sc ms) ms) ms i"

lemma partly_length [simp]: "length (partly h ms i) = length ms"
  by (simp add: partly_def)

lemma partly_0: "partly h ms 0 = ms"
  by (simp add: partly_def map_nth)

lemma partly_later: "i \<le> j \<Longrightarrow> j < length ms \<Longrightarrow> partly h ms i ! j = ms ! j"
  by (simp add: partly_def)

lemma partly_Suc: "i < length ms \<Longrightarrow> partly h ms (Suc i) = (partly h ms i)[i := h i]"
  by (rule nth_equalityI) (auto simp: partly_def nth_list_update less_Suc_eq)

lemma partly_or_old_Suc:
  assumes "i < length ms"
  shows "partly (or_old f ms) ms (Suc i) =
    (case f i of None \<Rightarrow> partly (or_old f ms) ms i | Some x \<Rightarrow> (partly (or_old f ms) ms i)[i := x])"
  using assms list_update_id [of "partly (or_old f ms) ms i" i]
  by (simp add: partly_Suc or_old_def partly_later split: option.split)

lemma or_old_Some: "f j = Some x \<Longrightarrow> or_old f ms j = x"
  by (simp add: or_old_def)

lemma nths_map_upt: "nths (map f [0..<n]) A = map f (filter (\<lambda>j. j \<in> A) [0..<n])"
  by (induction n) (simp_all add: nths_append)

lemma nths_partly:
  assumes "\<And>j x. f j = Some x \<Longrightarrow> h j = x"
  shows "nths (partly h ms (length ms)) (- set (filter (\<lambda>j. f j = None) [0..<length ms])) = mapped f ms"
  unfolding partly_def nths_map_upt mapped_def by (rule map_cong [OF filter_cong]) (auto simp: assms)

lemma thinned_role: "thinned_message J C m sc ms j = Some x \<Longrightarrow> role_of J x = role_of J (ms ! j)"
  by (auto simp: thinned_message_def role_of_def jget_with_content dest!: assistantContentD split: option.splits if_splits)

lemma role_or_old:
  "(\<And>j x. f j = Some x \<Longrightarrow> role_of J x = role_of J (ms ! j)) \<Longrightarrow> role_of J (or_old f ms j) = role_of J (ms ! j)"
  by (simp add: or_old_def split: option.split)

lemma orphans_partly:
  assumes "\<And>j. role_of J (h j) = role_of J (ms ! j)" and "i < length ms"
  shows "orphans J (partly h ms i) i = orphans J ms i"
proof -
  have "role_of J (partly h ms i ! j) = role_of J (ms ! j)" if "j < length ms" for j
    using that assms(1) by (simp add: partly_def)
  with assms(2) show ?thesis
    by (cases "i + 1 < length ms") (simp_all add: orphans_def partly_later)
qed

lemma thinned_message_at:
  "ms' ! i = ms ! i \<Longrightarrow> orphans J ms' i = orphans J ms i \<Longrightarrow> thinned_message J C m sc ms' i = thinned_message J C m sc ms i"
  unfolding thinned_message_def by (simp only:)

lemma thinned_message_partly:
  assumes "i < length ms"
  shows "thinned_message J C m sc (partly_thinned J C m sc ms i) i = thinned_message J C m sc ms i"
  by (rule thinned_message_at [OF partly_later [OF order_refl assms] orphans_partly [OF role_or_old [OF thinned_role] assms]])

lemma request_loop_ok:
  assumes "json_ok J" and "has_msgs J b d (partly_thinned J C m sc ms i)" and "i \<le> length ms"
    and "msgs = drop i ms"
  shows "\<exists>b' tc'. request_loop J C m sc i msgs b (filter (\<lambda>j. thinned_message J C m sc ms j = None) [0..<i]) tc =
      (Inr (b', filter (\<lambda>j. thinned_message J C m sc ms j = None) [0..<length ms]), tc') \<and>
    has_msgs J b' d (partly_thinned J C m sc ms (length ms))"
  using assms(2-4)
proof (induction msgs arbitrary: i b tc)
  case Nil
  then have "i = length ms" by simp
  with Nil show ?case by simp
next
  case (Cons msg msgs)
  have i: "i < length ms" using Cons.prems(3) by (metis drop_all leI list.distinct(1))
  then have msg: "msg = ms ! i" "msgs = drop (Suc i) ms" using Cons.prems(3) by (simp_all add: Cons_nth_drop_Suc [symmetric])
  let ?P = "\<lambda>j. thinned_message J C m sc ms j = None"
  show ?case
  proof (cases "assistantContent J msg")
    case None
    then have t: "thinned_message J C m sc ms i = Some (ms ! i)" using msg by (simp add: thinned_message_def)
    have "partly_thinned J C m sc ms (Suc i) = partly_thinned J C m sc ms i"
      using i by (simp add: partly_or_old_Suc t) (metis list_update_id partly_later order_refl)
    then show ?thesis
      using Cons.IH [of b "Suc i" tc] Cons.prems(1) i msg(2) None t by simp
  next
    case (Some blocks)
    have at: "partly_thinned J C m sc ms i ! i = msg" using i msg(1) by (simp add: partly_later)
    obtain b1 tc1 where run: "processAssistantContent J C b i blocks m sc tc = (Inr (b1, ?P i), tc1)"
      "has_msgs J b1 d (partly_thinned J C m sc ms (Suc i))"
      using processAssistantContent_ok [OF assms(1) Cons.prems(1), of i blocks C m sc tc] i at Some
      unfolding thinned_message_partly [OF i] partly_or_old_Suc [OF i] by auto
    have "(if ?P i then filter ?P [0..<i] @ [i] else filter ?P [0..<i]) = filter ?P [0..<Suc i]" by simp
    then show ?thesis
      using Cons.IH [OF run(2) _ msg(2), of tc1] i Some run(1) by simp
  qed
qed

lemma nths_delete:
  assumes "k < length xs" and "\<forall>i \<in> A. i < k"
  shows "nths (take k xs @ drop (Suc k) xs) (- A) = nths xs (- (insert k A))"
proof -
  have after: "nths ys {j. j + n \<in> - B} = ys" if "\<forall>i \<in> B. i < n" for ys :: "'a list" and n B
    using that by (intro nths_all) force
  have before: "nths (take k xs) (- A) = nths (take k xs) (- (insert k A))"
    unfolding nths_def by (rule arg_cong [where f = "map fst"], rule filter_cong [OF refl]) (auto simp: in_set_zip)
  have split: "xs = take k xs @ [xs ! k] @ drop (Suc k) xs" using id_take_nth_drop [OF assms(1)] by simp
  have "nths xs (- (insert k A)) = nths (take k xs @ [xs ! k] @ drop (Suc k) xs) (- (insert k A))" using split by simp
  also have "\<dots> = nths (take k xs) (- (insert k A)) @ drop (Suc k) xs"
    using assms(1) after [of "insert k A" "Suc k" "drop (Suc k) xs"] less_SucI assms(2)
    by (simp add: nths_append nths_Cons add.commute)
  also have "\<dots> = nths (take k xs @ drop (Suc k) xs) (- A)"
    using assms after [of A k "drop (Suc k) xs"] before by (simp add: nths_append)
  finally show ?thesis by simp
qed

lemma drop_loop_ok:
  assumes "json_ok J" and "has_msgs J b d xs" and "sorted_wrt (<) ds" and "\<forall>i \<in> set ds. i < length xs"
  shows "\<exists>b'. drop_loop J (rev ds) b = Inr b' \<and> has_msgs J b' d (nths xs (- set ds))"
  using assms(2-4)
proof (induction ds arbitrary: b xs rule: rev_induct)
  case Nil
  then show ?case by (simp add: nths_all)
next
  case (snoc k ds)
  have k: "k < length xs" "\<forall>i \<in> set ds. i < k" using snoc.prems(2,3) by (simp_all add: sorted_wrt_append)
  obtain b1 where b1: "jl_delete J b (messagePath k) = Inr b1" "has_msgs J b1 d (take k xs @ drop (Suc k) xs)"
    by (rule jl_drop_message [OF assms(1) snoc.prems(1) k(1)])
  have "\<forall>i \<in> set ds. i < length (take k xs @ drop (Suc k) xs)" using k by auto
  from snoc.IH [OF b1(2) _ this] snoc.prems(2) obtain b' where "drop_loop J (rev ds) b1 = Inr b'"
    "has_msgs J b' d (nths (take k xs @ drop (Suc k) xs) (- set ds))" by (auto simp: sorted_wrt_append)
  with b1(1) show ?case by (simp add: nths_delete [OF k])
qed

lemma dropMessages_mapped:
  assumes "json_ok J" and "\<And>j x. f j = Some x \<Longrightarrow> h j = x" and "has_msgs J b d (partly h ms (length ms))"
  shows "\<exists>b'. (if filter (\<lambda>j. f j = None) [0..<length ms] = [] then Inr b
      else dropMessagesByIndex J b (filter (\<lambda>j. f j = None) [0..<length ms])) = Inr b' \<and> has_msgs J b' d (mapped f ms)"
proof -
  let ?drops = "filter (\<lambda>j. f j = None) [0..<length ms]"
  have result: "nths (partly h ms (length ms)) (- set ?drops) = mapped f ms" by (rule nths_partly [OF assms(2)])
  show ?thesis
  proof (cases "?drops = []")
    case True
    then have "partly h ms (length ms) = mapped f ms" using result by (simp add: nths_all)
    with True assms(3) show ?thesis by simp
  next
    case False
    have sorted: "sorted_wrt (<) ?drops" by (intro sorted_wrt_filter) simp
    have inside: "\<forall>i \<in> set ?drops. i < length (partly h ms (length ms))" by simp
    have sort: "sort ?drops = ?drops" by (rule sorted_sort_id) (rule strict_sorted_imp_sorted [OF sorted])
    obtain b' where "dropMessagesByIndex J b ?drops = Inr b'" "has_msgs J b' d (mapped f ms)"
      using drop_loop_ok [OF assms(1,3) sorted inside] unfolding result dropMessagesByIndex_def sort by (elim exE conjE)
    with False show ?thesis by auto
  qed
qed

lemma ProcessRequestThinking_thinned:
  assumes "json_ok J" and "jwf (jl_doc J b)" and "messages_of (jl_doc J b) = Some ms"
  shows "\<exists>b' tc. ProcessRequestThinking J C b m sc = (b', tc, None) \<and> jl_doc J b' = set_msgs (jl_doc J b) (thinned J C m sc ms)"
proof -
  let ?d = "jl_doc J b" and ?drops = "filter (\<lambda>j. thinned_message J C m sc ms j = None) [0..<length ms]"
  let ?tc = "\<lparr>tc_CurrentSignature = '''', tc_DroppedBlocks = 0, tc_ReorderedBlocks = False\<rparr>"
  have start: "has_msgs J b ?d (partly_thinned J C m sc ms 0)"
    using assms(2,3) by (simp add: partly_0 has_msgs_def set_msgs_same)
  obtain b1 tc1 where loop: "request_loop J C m sc 0 ms b [] ?tc = (Inr (b1, ?drops), tc1)"
    "has_msgs J b1 ?d (partly_thinned J C m sc ms (length ms))"
    using request_loop_ok [OF assms(1) start, of ms ?tc] by auto
  obtain b' where b': "(if ?drops = [] then Inr b1 else dropMessagesByIndex J b1 ?drops) = Inr b'" "has_msgs J b' ?d (thinned J C m sc ms)"
    using dropMessages_mapped [OF assms(1) _ loop(2)] or_old_Some by blast
  have "ProcessRequestThinking J C b m sc =
      (if ?drops = [] then (b1, tc1, None)
       else case dropMessagesByIndex J b1 ?drops of Inl e \<Rightarrow> (b, tc1, Some e) | Inr b \<Rightarrow> (b, tc1, None))"
    unfolding ProcessRequestThinking_def Let_def assms(3) option.case loop(1) prod.case sum.case ..
  also have "\<dots> = (b', tc1, None)" using b'(1) by (cases "?drops = []") (simp_all only: if_True if_False sum.case simp_thms sum.inject)
  finally show ?thesis using b'(2) by (auto simp: has_msgs_def)
qed

end
