(* ===== verification/Thinking_Switch.thy ===== *)
theory Thinking_Switch
  imports Thinking_Facts
begin

text \<open>
  A conversation that moves to another provider (\<open>StripThinkingForProviderSwitch\<close>): the edits of the body, message
  by message, are a map over its messages that leaves nothing about thinking.
\<close>

section \<open>What the messages become\<close>

definition no_reasoning :: "json \<Rightarrow> json" where
  "no_reasoning msg = jdelete [Key ''reasoning_content''] msg"

definition stripped_message :: "'b json_lib \<Rightarrow> json list \<Rightarrow> nat \<Rightarrow> json option" where
  "stripped_message J ms i =
     (let msg = ms ! i; plain = no_reasoning msg
      in if role_of J msg \<noteq> ''assistant'' then Some msg
         else case jget msg ''content'' of
                Some (JArr blocks) \<Rightarrow>
                  if \<not> list_ex (is_thinking J) blocks then Some plain
                  else if list_all (is_thinking J) blocks
                  then (if orphans J ms i then Some (with_content placeholder plain) else None)
                  else Some (with_content (JArr (map (go_value (jl_float J)) (filter (\<lambda>x. \<not> is_thinking J x) blocks))) plain)
              | _ \<Rightarrow> Some plain)"

definition stripped_so_far :: "'b json_lib \<Rightarrow> json list \<Rightarrow> nat \<Rightarrow> json" where
  "stripped_so_far J ms j = (case stripped_message J ms j of Some x \<Rightarrow> x | None \<Rightarrow> no_reasoning (ms ! j))"

abbreviation stripped :: "'b json_lib \<Rightarrow> json list \<Rightarrow> json list" where
  "stripped J ms \<equiv> mapped (stripped_message J ms) ms"

section \<open>The loop\<close>

lemma map_of_filter_other: "k \<noteq> j \<Longrightarrow> map_of (filter (\<lambda>m. fst m \<noteq> j) ms) k = map_of ms k"
  by (induction ms) auto

lemma jget_no_reasoning: "k \<noteq> ''reasoning_content'' \<Longrightarrow> jget (no_reasoning msg) k = jget msg k"
  by (cases msg) (simp_all add: no_reasoning_def map_of_filter_other)

lemma jget_no_reasoning_gone: "jget (no_reasoning msg) ''reasoning_content'' = None"
  by (cases msg) (auto simp: no_reasoning_def map_of_eq_None_iff)

lemma no_reasoning_same: "jget msg ''reasoning_content'' = None \<Longrightarrow> no_reasoning msg = msg"
  by (cases msg) (force simp: no_reasoning_def map_of_eq_None_iff intro!: filter_True)+

lemma role_object: "role_of J msg = ''assistant'' \<Longrightarrow> \<exists>fs. msg = JObj fs"
  by (cases msg) (simp_all add: role_of_def)

lemma reasoning_deleted:
  assumes "json_ok J" and "has_msgs J b d ms" and "i < length ms" and "role_of J (ms ! i) = ''assistant''"
  shows "\<exists>b'. (if jget (message_at (jl_doc J b) i) ''reasoning_content'' \<noteq> None
        then jl_delete J b (messagePath i @ [Key ''reasoning_content'']) else Inr b) = Inr b' \<and>
      has_msgs J b' d (ms[i := no_reasoning (ms ! i)])"
proof -
  have at: "message_at (jl_doc J b) i = ms ! i"
    using has_msgs_doc [OF assms(2)] assms(3) by (simp add: message_at_def)
  show ?thesis
  proof (cases "jget (ms ! i) ''reasoning_content'' = None")
    case True
    then show ?thesis using assms(2) at by (simp add: no_reasoning_same)
  next
    case False
    have "jpath [Key ''reasoning_content''] (ms ! i)" using role_object [OF assms(4)] by auto
    from jl_delete_message [OF assms(1-3) this] obtain b' where
      "jl_delete J b (Key ''messages'' # Idx i # [Key ''reasoning_content'']) = Inr b'"
      "has_msgs J b' d (ms[i := jdelete [Key ''reasoning_content''] (ms ! i)])" by auto
    then show ?thesis using False at by (simp add: messagePath_def no_reasoning_def)
  qed
qed

lemma stripped_message_other: "role_of J (ms ! i) \<noteq> ''assistant'' \<Longrightarrow> stripped_message J ms i = Some (ms ! i)"
  by (simp add: stripped_message_def Let_def)

lemma role_no_reasoning: "role_of J (no_reasoning msg) = role_of J msg"
  by (simp add: role_of_def jget_no_reasoning)

lemma role_with_content: "jget msg ''content'' = Some v \<Longrightarrow> role_of J (with_content w msg) = role_of J msg"
  by (simp add: role_of_def jget_with_content)

lemma stripped_role: "role_of J (stripped_so_far J ms j) = role_of J (ms ! j)"
  by (auto simp: stripped_so_far_def stripped_message_def Let_def role_no_reasoning role_with_content jget_no_reasoning
      split: option.split json.split)

lemma orphans_update: "orphans J (ms[i := x]) i = orphans J ms i"
  by (cases "0 < i") (simp_all add: orphans_def)

text \<open>One round of the loop, for a list where the messages after the current one are the original ones.\<close>

lemma strip_step:
  assumes "json_ok J" and "has_msgs J b d (partly (stripped_so_far J ms) ms i)" and "i < length ms"
  shows "\<exists>b'. strip_loop J i ((ms ! i) # msgs) b drops =
      strip_loop J (Suc i) msgs b' (if stripped_message J ms i = None then drops @ [i] else drops) \<and>
    has_msgs J b' d (partly (stripped_so_far J ms) ms (Suc i))"
proof (cases "role_of J (ms ! i) = ''assistant''")
  case False
  then show ?thesis
    using assms(2,3) list_update_id [of "partly (stripped_so_far J ms) ms i" i]
    by (intro exI [of _ b]) (simp add: stripped_message_other partly_Suc stripped_so_far_def partly_later)
next
  case True
  let ?h = "stripped_so_far J ms" and ?msg = "ms ! i" and ?plain = "no_reasoning (ms ! i)"
  let ?ms = "(partly ?h ms i)[i := ?plain]"
  have at: "partly ?h ms i ! i = ?msg" using assms(3) by (simp add: partly_later)
  have i: "i < length ?ms" using assms(3) by simp
  obtain b1 where b1: "(if jget (message_at (jl_doc J b) i) ''reasoning_content'' \<noteq> None
        then jl_delete J b (messagePath i @ [Key ''reasoning_content'']) else Inr b) = Inr b1" "has_msgs J b1 d ?ms"
    using reasoning_deleted [OF assms(1,2), of i] assms(3) True at by auto
  have here: "?ms ! i = ?plain" using i by simp
  note run = strip_loop.simps(2) Let_def b1(1) sum.case if_not_P [OF not_not [THEN iffD2, OF True]]
  show ?thesis
  proof (cases "\<exists>blocks. jget ?msg ''content'' = Some (JArr blocks) \<and> list_ex (is_thinking J) blocks")
    case no: False
    have spec: "stripped_message J ms i = Some ?plain"
      using no True by (auto simp: stripped_message_def Let_def split: option.split json.split)
    have "strip_loop J i (?msg # msgs) b drops = strip_loop J (Suc i) msgs b1 drops"
      unfolding run using no by (auto split: option.split json.split)
    then show ?thesis using b1(2) spec assms(3) by (auto simp: partly_Suc stripped_so_far_def)
  next
    case yes: True
    then obtain blocks where blocks: "jget ?msg ''content'' = Some (JArr blocks)" "list_ex (is_thinking J) blocks" by blast
    have content: "jget (?ms ! i) ''content'' = Some (JArr blocks)"
      unfolding here using blocks by (simp add: jget_no_reasoning)
    have orph: "WouldOrphanToolResults J b1 i = orphans J ms i"
      unfolding WouldOrphan_msgs [OF b1(2)] orphans_update by (rule orphans_partly [OF stripped_role assms(3)])
    show ?thesis
    proof (cases "list_all (is_thinking J) blocks")
      case all: True
      then have spec: "stripped_message J ms i = (if orphans J ms i then Some (with_content placeholder ?plain) else None)"
        using True blocks by (simp add: stripped_message_def Let_def)
      obtain b2 where b2: "jl_set J b1 (messageContentPath i) placeholder = Inr b2"
        "has_msgs J b2 d (?ms[i := with_content placeholder (?ms ! i)])"
        using has_msgs_set_content [OF assms(1) b1(2) i content jwf_placeholder] by blast
      have "strip_loop J i (?msg # msgs) b drops =
          (if orphans J ms i then strip_loop J (Suc i) msgs b2 drops else strip_loop J (Suc i) msgs b1 (drops @ [i]))"
        unfolding run blocks(1) option.case json.case orph using blocks(2) all b2(1)
        by (simp add: ReplaceContentWithPlaceholder_def)
      then show ?thesis
        using b1(2) b2(2) spec assms(3) by (cases "orphans J ms i") (auto simp: partly_Suc stripped_so_far_def)
    next
      case some: False
      let ?v = "JArr (map (go_value (jl_float J)) (filter (\<lambda>x. \<not> is_thinking J x) blocks))"
      have "jwf (JArr blocks)"
        using has_msgs_wf [OF b1(2), of ?plain] set_update_memI [of i "partly ?h ms i" ?plain] assms(3)
          blocks(1) jget_no_reasoning [of "''content''" ?msg]
        by (cases ?plain) (auto dest!: map_of_SomeD)
      then have "jwf ?v" by (simp add: jwf_go_value)
      from has_msgs_set_content [OF assms(1) b1(2) i content this] obtain b2 where
        b2: "jl_set J b1 (messageContentPath i) ?v = Inr b2" "has_msgs J b2 d (?ms[i := with_content ?v (?ms ! i)])" by blast
      have spec: "stripped_message J ms i = Some (with_content ?v ?plain)"
        using True blocks some by (simp add: stripped_message_def Let_def)
      have "strip_loop J i (?msg # msgs) b drops = strip_loop J (Suc i) msgs b2 drops"
        unfolding run blocks(1) option.case json.case using blocks(2) some b2(1) by simp
      then show ?thesis using b2(2) spec assms(3) by (auto simp: partly_Suc stripped_so_far_def)
    qed
  qed
qed

lemma strip_loop_ok:
  assumes "json_ok J" and "has_msgs J b d (partly (stripped_so_far J ms) ms i)" and "i \<le> length ms" and "msgs = drop i ms"
  shows "\<exists>b'. strip_loop J i msgs b (filter (\<lambda>j. stripped_message J ms j = None) [0..<i]) =
      (b', filter (\<lambda>j. stripped_message J ms j = None) [0..<length ms]) \<and>
    has_msgs J b' d (partly (stripped_so_far J ms) ms (length ms))"
  using assms(2-4)
proof (induction msgs arbitrary: i b)
  case Nil
  then have "i = length ms" by simp
  with Nil show ?case by simp
next
  case (Cons msg msgs)
  have i: "i < length ms" using Cons.prems(3) by (metis drop_all leI list.distinct(1))
  then have msg: "msg = ms ! i" "msgs = drop (Suc i) ms" using Cons.prems(3) by (simp_all add: Cons_nth_drop_Suc [symmetric])
  let ?D = "\<lambda>i. filter (\<lambda>j. stripped_message J ms j = None) [0..<i]"
  obtain b' where b': "strip_loop J i (ms ! i # msgs) b (?D i) =
      strip_loop J (Suc i) msgs b' (if stripped_message J ms i = None then ?D i @ [i] else ?D i)"
    "has_msgs J b' d (partly (stripped_so_far J ms) ms (Suc i))"
    using strip_step [OF assms(1) Cons.prems(1) i] by blast
  have "(if stripped_message J ms i = None then ?D i @ [i] else ?D i) = ?D (Suc i)" by simp
  with Cons.IH [OF b'(2) _ msg(2)] i b'(1) msg(1) show ?case by simp
qed

lemma Strip_stripped:
  assumes "json_ok J" and "jwf (jl_doc J b)" and "messages_of (jl_doc J b) = Some ms"
    and "HasThinkingBlocks (jl_bytes J b) \<or> contains_str (dq ''reasoning_content'') (jl_bytes J b)"
  shows "jl_doc J (StripThinkingForProviderSwitch J b) = set_msgs (jdelete [Key ''thinking''] (jl_doc J b)) (stripped J ms)"
proof -
  let ?d = "jl_doc J b" and ?e = "jdelete [Key ''thinking''] (jl_doc J b)"
  obtain fs where fs: "?d = JObj fs" using assms(3) by (rule messages_ofE)
  have msgs: "messages_of ?e = Some ms" using assms(3) fs by (simp add: messages_of_def map_of_filter_other)
  have same: "?e = ?d" if "jget ?d ''thinking'' = None"
    using that fs by (force simp: map_of_eq_None_iff intro!: filter_True)
  obtain b1 where b1: "(if jget ?d ''thinking'' \<noteq> None then jl_delete J b [Key ''thinking''] else Inr b) = Inr b1" "jl_doc J b1 = ?e"
  proof (cases "jget ?d ''thinking'' = None")
    case True
    then show ?thesis using that [of b] same by simp
  next
    case False
    have "jpath [Key ''thinking''] ?d" using fs by simp
    then obtain b1 where "jl_delete J b [Key ''thinking''] = Inr b1" "jl_doc J b1 = ?e"
      using assms(1,2) by (metis json_ok_def list.distinct(1))
    with False that show ?thesis by simp
  qed
  have start: "has_msgs J b1 ?e (partly (stripped_so_far J ms) ms 0)"
    using b1(2) msgs jwf_jdelete [OF assms(2), of "[Key ''thinking'']"] by (simp add: partly_0 has_msgs_def set_msgs_same)
  let ?drops = "filter (\<lambda>j. stripped_message J ms j = None) [0..<length ms]"
  obtain b2 where b2: "strip_loop J 0 ms b1 [] = (b2, ?drops)"
    "has_msgs J b2 ?e (partly (stripped_so_far J ms) ms (length ms))"
    using strip_loop_ok [OF assms(1) start, of ms] by auto
  obtain b' where b': "(if ?drops = [] then Inr b2 else dropMessagesByIndex J b2 ?drops) = Inr b'" "has_msgs J b' ?e (stripped J ms)"
    using dropMessages_mapped [OF assms(1) _ b2(2)] stripped_so_far_def by (metis option.simps(5))
  have gate: "\<not> (\<not> HasThinkingBlocks (jl_bytes J b) \<and> \<not> contains_str (dq ''reasoning_content'') (jl_bytes J b))"
    using assms(4) by blast
  have "StripThinkingForProviderSwitch J b =
      (if ?drops = [] then b2 else case dropMessagesByIndex J b2 ?drops of Inl e \<Rightarrow> b | Inr b \<Rightarrow> b)"
    unfolding StripThinkingForProviderSwitch_def if_not_P [OF gate] b1(1) sum.case b1(2) msgs option.case
      stripThinkingFromMessages_def b2(1) Let_def prod.case ..
  also have "\<dots> = b'" using b'(1) by (cases "?drops = []") (simp_all only: if_True if_False sum.case simp_thms sum.inject)
  finally show ?thesis using b'(2) by (simp add: has_msgs_def)
qed

end
