(* ===== verification/Thinking_Properties.thy ===== *)
theory Thinking_Properties
  imports Thinking_Switch
begin

text \<open>
  The properties of the thinking blocks: what a request becomes before it is sent, that nothing unsigned is sent,
  that a switch of providers leaves nothing, and where the code departs from what it means to do.
\<close>

section \<open>Blocks after the edit\<close>

lemma go_value_string [simp]: "go_value fl v = JStr s \<longleftrightarrow> v = JStr s"
  by (cases v) (simp_all add: json_map_def)

lemma map_of_json_map: "distinct (map fst ms) \<Longrightarrow> jget (json_map ms) k = map_of ms k"
  by (simp add: json_map_def map_of_sort_key)

lemma map_of_block_map: "jget b k = Some v \<Longrightarrow> map_of (block_map J b) k = Some (go_value (jl_float J) v)"
  by (cases b) (auto simp: block_map_def map_of_map)

lemma map_of_block_map_string: "map_of (block_map J b) k = Some (JStr s) \<longleftrightarrow> jget b k = Some (JStr s)"
  by (cases b) (auto simp: block_map_def map_of_map)

lemma jget_go_value:
  assumes "jwf (JObj ms)"
  shows "jget (go_value fl (JObj ms)) k = map_option (go_value fl) (map_of ms k)"
proof -
  have "map fst (map (\<lambda>(k, v). (k, go_value fl v)) ms) = map fst ms" by (simp add: split_def comp_def)
  then have "jget (go_value fl (JObj ms)) k = map_of (map (\<lambda>(k, v). (k, go_value fl v)) ms) k"
    using assms by (simp only: go_value.simps) (simp only: map_of_json_map jwf.simps)
  then show ?thesis by (simp only: map_of_map comp_apply)
qed

lemma jget_go_value_string:
  "jwf b \<Longrightarrow> jget (go_value fl b) k = Some (JStr s) \<longleftrightarrow> jget b k = Some (JStr s)"
  by (cases b) (simp_all only: jget_go_value, auto)

lemma rebuilt_type:
  assumes "jwf b" and "jget (rebuilt_block J C m sc b) ''type'' = Some (JStr t)"
  shows "jget b ''type'' = Some (JStr t)"
proof -
  have "jget (rebuilt_block J C m sc b) ''type'' = map_of (block_map J b) ''type'' \<or> rebuilt_block J C m sc b = go_value (jl_float J) b"
    using block_map_ok(1) [OF assms(1), of J]
    by (auto simp: rebuilt_block_def processToolUseBlock_def map_of_json_map keys_upd_member map_of_upd_member
        distinct_map_filter map_of_filter_other)
  then show ?thesis using assms(2) map_of_block_map_string jget_go_value_string [OF assms(1)] by metis
qed

lemma surgical_type: "jget (surgical_block J C m sc b) ''type'' = jget b ''type''"
  by (cases b) (auto simp: surgical_block_def map_of_upd_member map_of_filter_other)

lemma typed_thinking: "jget b ''type'' = Some (JStr t) \<Longrightarrow> block_type J b = t"
  by (simp add: block_type_def)

definition sound_block :: "json \<Rightarrow> bool" where
  "sound_block b \<longleftrightarrow>
     (jget b ''type'' = Some (JStr ''thinking'') \<longrightarrow> (\<exists>s. s \<noteq> '''' \<and> jget b ''signature'' = Some (JStr s))) \<and>
     (jget b ''type'' = Some (JStr ''tool_use'') \<longrightarrow> jget b ''signature'' = None)"

lemma sound_surgical:
  assumes "kept_block J C m sc b"
  shows "sound_block (surgical_block J C m sc b)"
proof -
  have "\<exists>s. s \<noteq> '''' \<and> jget (surgical_block J C m sc b) ''signature'' = Some (JStr s)"
    if "jget b ''type'' = Some (JStr ''thinking'')"
    using assms typed_thinking [OF that, of J] that
    by (cases b) (simp_all add: kept_block_def surgical_block_def is_thinking_def map_of_upd_member)
  moreover have "jget (surgical_block J C m sc b) ''signature'' = None" if "jget b ''type'' = Some (JStr ''tool_use'')"
    using typed_thinking [OF that, of J] that
    by (cases b) (auto simp: surgical_block_def is_thinking_def map_of_eq_None_iff)
  ultimately show ?thesis by (simp add: sound_block_def surgical_type)
qed

lemma sound_rebuilt:
  assumes "kept_block J C m sc b" and "jwf b"
  shows "sound_block (rebuilt_block J C m sc b)"
proof -
  have d: "distinct (map fst (block_map J b))" by (rule block_map_ok(1) [OF assms(2)])
  have "\<exists>s. s \<noteq> '''' \<and> jget (rebuilt_block J C m sc b) ''signature'' = Some (JStr s)"
    if "jget b ''type'' = Some (JStr ''thinking'')"
    using assms(1) d typed_thinking [OF that, of J]
    by (auto simp: kept_block_def rebuilt_block_def is_thinking_def map_of_json_map keys_upd_member map_of_upd_member)
  moreover have "jget (rebuilt_block J C m sc b) ''signature'' = None" if "jget b ''type'' = Some (JStr ''tool_use'')"
    using d typed_thinking [OF that, of J]
    by (auto simp: rebuilt_block_def is_thinking_def processToolUseBlock_def map_of_json_map distinct_map_filter map_of_eq_None_iff)
  ultimately show ?thesis using rebuilt_type [OF assms(2), of J C m sc] by (auto simp: sound_block_def)
qed

lemma sound_content: "\<forall>b \<in> set blocks. jwf b \<Longrightarrow> \<forall>b \<in> set (new_content J C m sc blocks). sound_block b"
  by (auto simp: new_content_def Let_def filter_id_conv intro!: sound_surgical sound_rebuilt split: if_splits)

lemma content_wf: "jwf msg \<Longrightarrow> jget msg ''content'' = Some (JArr blocks) \<Longrightarrow> \<forall>b \<in> set blocks. jwf b"
  by (cases msg) (auto dest!: map_of_SomeD)

lemma in_mapped: "x \<in> set (mapped f ms) \<longleftrightarrow> (\<exists>i < length ms. f i = Some x)"
  by (force simp: mapped_def)

text \<open>Messages that are not the assistant's are kept, in their order.\<close>

lemma mapped_others:
  assumes "\<And>i. i < length ms \<Longrightarrow> \<not> P (ms ! i) \<Longrightarrow> f i = Some (ms ! i)"
    and "\<And>i x. i < length ms \<Longrightarrow> f i = Some x \<Longrightarrow> P x = P (ms ! i)"
  shows "filter (\<lambda>m. \<not> P m) (mapped f ms) = filter (\<lambda>m. \<not> P m) ms"
proof -
  let ?F = "\<lambda>n. filter (\<lambda>m. \<not> P m) (map (\<lambda>i. the (f i)) (filter (\<lambda>i. f i \<noteq> None) [0..<n]))"
  have "?F n = filter (\<lambda>m. \<not> P m) (take n ms)" if "n \<le> length ms" for n
    using that
  proof (induction n)
    case (Suc n)
    then have n: "n < length ms" "?F n = filter (\<lambda>m. \<not> P m) (take n ms)" by simp_all
    have "?F (Suc n) = ?F n @ filter (\<lambda>m. \<not> P m) (case f n of None \<Rightarrow> [] | Some x \<Rightarrow> [x])"
      by (simp split: option.split)
    moreover have "filter (\<lambda>m. \<not> P m) (case f n of None \<Rightarrow> [] | Some x \<Rightarrow> [x]) = filter (\<lambda>m. \<not> P m) [ms ! n]"
      using assms(1) [OF n(1)] assms(2) [OF n(1)] by (cases "P (ms ! n)") (simp_all split: option.split)
    ultimately show ?case using n by (simp only: take_Suc_conv_app_nth filter_append)
  qed simp
  then show ?thesis by (simp add: mapped_def)
qed

section \<open>What is sent\<close>

text \<open>A library for the witnesses: the body is the document, its bytes are its text (without escapes).\<close>

fun plain_text :: "json \<Rightarrow> string" where
  "plain_text JNull = ''null''"
| "plain_text (JBool b) = (if b then ''true'' else ''false'')"
| "plain_text (JNum s) = s"
| "plain_text (JStr s) = dq s"
| "plain_text (JArr xs) = ''['' @ concat (map (\<lambda>x. plain_text x @ '','') xs) @ '']''"
| "plain_text (JObj ms) = ''{'' @ concat (map (\<lambda>(k, v). dq k @ '':'' @ plain_text v @ '','') ms) @ ''}''"

definition plain_json :: "json json_lib" where
  "plain_json = \<lparr>jl_bytes = plain_text, jl_doc = id, jl_raw = plain_text, jl_set = \<lambda>b p v. Inr (jput p v b),
     jl_delete = \<lambda>b p. Inr (jdelete p b), jl_failed = id, jl_float = id\<rparr>"

lemma plain_json_ok: "json_ok plain_json"
  by (simp add: json_ok_def plain_json_def)

definition plain_cache :: "(string \<rightharpoonup> string) cache_ops" where
  "plain_cache = \<lparr>ca_get = \<lambda>s k. (case s k of None \<Rightarrow> Inl (Sentinel ''cache: key not found'') | Some v \<Rightarrow> Inr v),
     ca_set = \<lambda>k v s. s(k \<mapsto> v), ca_hash = id\<rparr>"

definition no_cache :: "(string \<rightharpoonup> string) option" where
  "no_cache = None"

text \<open>
  C6: Before a request is sent to a provider its messages become exactly what the specification says, message by
  message (non-assistant messages as they are; an assistant message with its unsigned thinking blocks gone, the
  others signed, and nothing if no block is left), whatever the byte edits do on the way; nothing else of the
  document changes and no error is reported.
\<close>

theorem thinking_request_refines:
  assumes "json_ok J" and "jwf (jl_doc J b)" and "messages_of (jl_doc J b) = Some ms"
  shows "\<exists>b' tc. ProcessRequestThinking J C b m sc = (b', tc, None) \<and>
    messages_of (jl_doc J b') = Some (mapped (thinned_message J C m sc ms) ms) \<and>
    (\<forall>k. k \<noteq> ''messages'' \<longrightarrow> jget (jl_doc J b') k = jget (jl_doc J b) k)"
proof -
  obtain b' tc where "ProcessRequestThinking J C b m sc = (b', tc, None)"
    "jl_doc J b' = set_msgs (jl_doc J b) (thinned J C m sc ms)"
    using ProcessRequestThinking_thinned [OF assms] by blast
  then show ?thesis using assms(3) by (auto simp: jget_set_msgs)
qed

definition text_block :: "string \<Rightarrow> json" where
  "text_block s = JObj [(''type'', JStr ''text''), (''text'', JStr s)]"

definition thinking_block :: "string \<Rightarrow> string \<Rightarrow> json" where
  "thinking_block s sig = JObj [(''type'', JStr ''thinking''), (''thinking'', JStr s), (''signature'', JStr sig)]"

definition chat_message :: "string \<Rightarrow> json list \<Rightarrow> json" where
  "chat_message r blocks = JObj [(''role'', JStr r), (''content'', JArr blocks)]"

definition request_of :: "json list \<Rightarrow> json" where
  "request_of ms = JObj [(''model'', JStr ''claude-x''), (''messages'', JArr ms)]"

lemma request_of_doc: "messages_of (jl_doc plain_json (request_of ms)) = Some ms"
  by (simp add: plain_json_def request_of_def messages_of_def)

lemma jwf_examples [simp]: "jwf (text_block s)" "jwf (thinking_block s sig)" "jwf (chat_message r bs) = list_all jwf bs"
    "jwf (request_of ms) = list_all jwf ms"
  by (auto simp: text_block_def thinking_block_def chat_message_def request_of_def list_all_iff)

lemma jget_examples [simp]:
  "jget (text_block s) ''type'' = Some (JStr ''text'')"
  "jget (thinking_block s sig) ''type'' = Some (JStr ''thinking'')"
  "jget (thinking_block s sig) ''signature'' = Some (JStr sig)"
  "jget (thinking_block s sig) ''thinking'' = Some (JStr s)"
  "jget (chat_message r bs) ''role'' = Some (JStr r)" "jget (chat_message r bs) ''content'' = Some (JArr bs)"
  by (simp_all add: text_block_def thinking_block_def chat_message_def)

lemma type_examples [simp]:
  "block_type J (text_block s) = ''text''" "block_type J (thinking_block s sig) = ''thinking''"
  "is_thinking J (thinking_block s sig)" "\<not> is_thinking J (text_block s)" "role_of J (chat_message r bs) = r"
  by (simp_all add: block_type_def is_thinking_def role_of_def)

lemma thinking_request_refines_witness:
  "\<exists>b' tc. ProcessRequestThinking plain_json plain_cache
      (request_of [chat_message ''user'' [text_block ''hi''], chat_message ''assistant'' [thinking_block ''t'' '''']]) ''claude-x'' no_cache =
        (b', tc, None) \<and>
    messages_of (jl_doc plain_json b') = Some [chat_message ''user'' [text_block ''hi'']]"
proof -
  let ?ms = "[chat_message ''user'' [text_block ''hi''], chat_message ''assistant'' [thinking_block ''t'' '''']]"
  have thin: "mapped (thinned_message plain_json plain_cache ''claude-x'' no_cache ?ms) ?ms = [chat_message ''user'' [text_block ''hi'']]"
    by (simp add: mapped_def thinned_message_def assistantContent_def kept_block_def resolveThinkingSignature_def
        sigcache_Get_def no_cache_def orphans_def upt_rec)
  have wf: "jwf (jl_doc plain_json (request_of ?ms))" by (simp add: plain_json_def)
  obtain b' tc where
    "ProcessRequestThinking plain_json plain_cache (request_of ?ms) ''claude-x'' no_cache = (b', tc, None)"
    "messages_of (jl_doc plain_json b') = Some (mapped (thinned_message plain_json plain_cache ''claude-x'' no_cache ?ms) ?ms)"
    using thinking_request_refines [OF plain_json_ok wf request_of_doc, of plain_cache "''claude-x''" no_cache] by (elim exE conjE)
  then show ?thesis unfolding thin by (intro exI conjI)
qed

lemma thinned_message_other: "role_of J (ms ! i) \<noteq> ''assistant'' \<Longrightarrow> thinned_message J C m sc ms i = Some (ms ! i)"
  by (simp add: thinned_message_def assistantContent_def)



section \<open>Where the rules do not hold\<close>

text \<open>
  The order of the blocks is decided before the unsigned ones are dropped, by the first thinking block and the
  first other block: an unsigned thinking block in front makes a signed one that comes after text stay behind it,
  although thinking blocks have to come first.
\<close>

lemma thinking_reorder_missed:
  assumes "json_ok J" and "jwf (jl_doc J b)" and "messages_of (jl_doc J b) = Some [msg]"
    and "assistantContent J msg = Some [t1, x, t2]"
    and "is_thinking J t1" and "resolveThinkingSignature J C m sc t1 = ''''"
    and "\<not> is_thinking J x" and "is_thinking J t2" and "resolveThinkingSignature J C m sc t2 \<noteq> ''''"
  shows "\<exists>b' tc. ProcessRequestThinking J C b m sc = (b', tc, None) \<and>
    messages_of (jl_doc J b') =
      Some [with_content (JArr [rebuilt_block J C m sc x, rebuilt_block J C m sc t2]) msg]"
proof -
  have types: "block_type J t1 = ''thinking''" "block_type J x \<noteq> ''thinking''" "block_type J t2 = ''thinking''"
    using assms(5,7,8) by (simp_all add: is_thinking_def)
  have "new_content J C m sc [t1, x, t2] = [rebuilt_block J C m sc x, rebuilt_block J C m sc t2]"
    using types assms(5-9) by (simp add: new_content_def kept_block_def checkReorderNeeded_def findFirstIndex_def findFirstNonIndex_def)
  moreover have "filter (kept_block J C m sc) [t1, x, t2] \<noteq> []" using assms(7) by (simp add: kept_block_def)
  ultimately have "mapped (thinned_message J C m sc [msg]) [msg] =
      [with_content (JArr [rebuilt_block J C m sc x, rebuilt_block J C m sc t2]) msg]"
    using assms(4) by (simp only: mapped_def thinned_message_def) (simp add: upt_rec)
  then show ?thesis
    using ProcessRequestThinking_thinned [OF assms(1-3), of C m sc] messages_of_set [OF assms(3)] by auto
qed

lemma thinking_reorder_missed_witness:
  "\<exists>b' tc. ProcessRequestThinking plain_json plain_cache
      (request_of [chat_message ''assistant'' [thinking_block ''a'' '''', text_block ''b'', thinking_block ''c'' ''g#sig'']]) ''claude-x''
      no_cache = (b', tc, None) \<and>
    (\<exists>msg. messages_of (jl_doc plain_json b') = Some [msg] \<and>
      (\<exists>u v. jget msg ''content'' = Some (JArr [u, v]) \<and> block_type plain_json u = ''text'' \<and> block_type plain_json v = ''thinking''))"
proof -
  let ?t1 = "thinking_block ''a'' ''''" and ?x = "text_block ''b''" and ?t2 = "thinking_block ''c'' ''g#sig''"
  let ?msg = "chat_message ''assistant'' [?t1, ?x, ?t2]"
  let ?r = "rebuilt_block plain_json plain_cache ''claude-x'' no_cache"
  have wf: "jwf (jl_doc plain_json (request_of [?msg]))" by (simp add: plain_json_def)
  have a: "assistantContent plain_json ?msg = Some [?t1, ?x, ?t2]" by (simp add: assistantContent_def)
  have s: "resolveThinkingSignature plain_json plain_cache ''claude-x'' no_cache ?t1 = ''''"
      "resolveThinkingSignature plain_json plain_cache ''claude-x'' no_cache ?t2 \<noteq> ''''"
    by (simp_all add: resolveThinkingSignature_def sigcache_Get_def no_cache_def ParseSignature_def Let_def)
  have t: "is_thinking plain_json ?t1" "\<not> is_thinking plain_json ?x" "is_thinking plain_json ?t2" by simp_all
  have c: "jget (with_content (JArr [?r ?x, ?r ?t2]) ?msg) ''content'' = Some (JArr [?r ?x, ?r ?t2])"
    by (rule jget_with_content(1)) simp
  have ty: "block_type plain_json (?r ?x) = ''text''" "block_type plain_json (?r ?t2) = ''thinking''"
    by (simp_all add: rebuilt_block_def text_block_def thinking_block_def block_map_def is_thinking_def block_type_def
        map_of_json_map)
  show ?thesis
    using thinking_reorder_missed [OF plain_json_ok wf request_of_doc a t(1) s(1) t(2,3) s(2)] c ty by blast
qed

text \<open>
  Whether a message may be dropped is judged with the neighbours of the unedited list: of two assistant messages
  in a row that both lose all their blocks, both are dropped, and the user messages around them become neighbours,
  which the check was written to avoid.
\<close>

lemma thinking_drop_leaves_user_pair:
  assumes "json_ok J" and "jwf (jl_doc J b)" and "messages_of (jl_doc J b) = Some [u, a1, a2, v]"
    and "role_of J u = ''user''" and "role_of J v = ''user''"
    and "assistantContent J a1 = Some bs1" and "filter (kept_block J C m sc) bs1 = []"
    and "assistantContent J a2 = Some bs2" and "filter (kept_block J C m sc) bs2 = []"
    and "\<not> nextMessageHasToolResult J (jl_doc J b) 3"
  shows "\<exists>b' tc. ProcessRequestThinking J C b m sc = (b', tc, None) \<and> messages_of (jl_doc J b') = Some [u, v]"
proof -
  let ?ms = "[u, a1, a2, v]"
  have role: "role_of J a1 = ''assistant''" "role_of J a2 = ''assistant''"
    using assistantContentD [OF assms(6)] assistantContentD [OF assms(8)] by simp_all
  have other: "assistantContent J u = None" "assistantContent J v = None"
    using assms(4,5) by (simp_all add: assistantContent_def)
  have no: "\<not> list_ex (\<lambda>b. block_type J b = ''tool_result'') (jvalues (jget v ''content''))"
    using assms(3,5,10) by (simp add: nextMessageHasToolResult_def message_at_def)
  have "\<not> orphans J ?ms 1" "\<not> orphans J ?ms 2" using role no by (simp_all add: orphans_def)
  then have "thinned_message J C m sc ?ms 0 = Some u" "thinned_message J C m sc ?ms 1 = None"
    "thinned_message J C m sc ?ms 2 = None" "thinned_message J C m sc ?ms 3 = Some v"
    using other assms(6-9) by (simp_all add: thinned_message_def)
  then have "mapped (thinned_message J C m sc ?ms) ?ms = [u, v]"
    by (simp add: mapped_def upt_rec numeral_2_eq_2 numeral_3_eq_3)
  then show ?thesis
    using ProcessRequestThinking_thinned [OF assms(1-3), of C m sc] messages_of_set [OF assms(3)] by auto
qed

lemma thinking_drop_leaves_user_pair_witness:
  "\<exists>b' tc. ProcessRequestThinking plain_json plain_cache
      (request_of [chat_message ''user'' [text_block ''a''], chat_message ''assistant'' [thinking_block ''x'' ''''],
        chat_message ''assistant'' [thinking_block ''y'' ''''], chat_message ''user'' [text_block ''b'']]) ''claude-x'' no_cache = (b', tc, None) \<and>
    messages_of (jl_doc plain_json b') = Some [chat_message ''user'' [text_block ''a''], chat_message ''user'' [text_block ''b'']]"
proof (rule thinking_drop_leaves_user_pair [OF plain_json_ok _ request_of_doc])
  have "resolveThinkingSignature plain_json plain_cache ''claude-x'' no_cache (thinking_block t '''') = ''''" for t
    by (simp add: resolveThinkingSignature_def sigcache_Get_def no_cache_def)
  then show "filter (kept_block plain_json plain_cache ''claude-x'' no_cache) [thinking_block ''x'' ''''] = []"
    and "filter (kept_block plain_json plain_cache ''claude-x'' no_cache) [thinking_block ''y'' ''''] = []"
    by (simp_all add: kept_block_def)
qed (simp_all add: assistantContent_def nextMessageHasToolResult_def message_at_def request_of_doc,
    simp add: plain_json_def)

text \<open>
  A signature with a model-group prefix is taken without any check: of a client's signature with a \<open>#\<close> in it
  the rest is sent, for every model and however short it is; with nothing after the \<open>#\<close> the block is dropped even
  when the cache has a signature for its text.
\<close>

lemma prefixed_signature_unchecked:
  assumes "jget block ''signature'' = Some (JStr (p @ ''#'' @ s))" and "CHR ''#'' \<notin> set p"
  shows "resolveThinkingSignature J C m sc block = s"
proof -
  have "takeWhile (\<lambda>c. c \<noteq> CHR ''#'') (p @ ''#'' @ s) = p"
    using assms(2) by (subst takeWhile_append2) auto
  then have "ParseSignature (p @ ''#'' @ s) = Some (p, s)" by (simp add: ParseSignature_def)
  then show ?thesis using assms(1) by (simp add: resolveThinkingSignature_def)
qed

lemma prefixed_signature_unchecked_witness:
  "resolveThinkingSignature plain_json plain_cache ''claude-x'' (Some [''sig:claude:t'' \<mapsto> ''cached'']) (thinking_block ''t'' ''x#'') = '''' \<and>
   sigcache_Get plain_cache ''claude-x'' ''t'' (Some [''sig:claude:t'' \<mapsto> ''cached'']) = ''cached''"
  using prefixed_signature_unchecked [of "thinking_block ''t'' ''x#''" "''x''" "''''"]
  by (simp add: sigcache_Get_def cacheKey_def plain_cache_def GetModelGroup_def to_lower_def is_upper_def)

section \<open>After a switch\<close>

lemma stripped_message_clean:
  assumes "stripped_message J ms i = Some msg" and "role_of J (ms ! i) = ''assistant''" and "jwf (ms ! i)"
  shows "jget msg ''reasoning_content'' = None \<and>
    (\<forall>blocks. jget msg ''content'' = Some (JArr blocks) \<longrightarrow> (\<forall>blk \<in> set blocks. jget blk ''type'' \<noteq> Some (JStr ''thinking'')))"
proof -
  let ?plain = "no_reasoning (ms ! i)"
  have not: "jget blk ''type'' \<noteq> Some (JStr ''thinking'')" if "\<not> is_thinking J blk" for blk
    using that typed_thinking [of blk _ J] by (auto simp: is_thinking_def)
  have plain: "jget ?plain ''reasoning_content'' = None" "jget ?plain ''content'' = jget (ms ! i) ''content''"
    by (simp_all add: jget_no_reasoning_gone jget_no_reasoning)
  consider (same) "msg = ?plain" "\<forall>blocks. jget (ms ! i) ''content'' = Some (JArr blocks) \<longrightarrow> \<not> list_ex (is_thinking J) blocks"
    | (place) blocks where "jget (ms ! i) ''content'' = Some (JArr blocks)" "msg = with_content placeholder ?plain"
    | (kept) blocks where "jget (ms ! i) ''content'' = Some (JArr blocks)"
        "msg = with_content (JArr (map (go_value (jl_float J)) (filter (\<lambda>x. \<not> is_thinking J x) blocks))) ?plain"
    using assms(1,2) unfolding stripped_message_def Let_def by (auto split: option.splits json.splits if_splits)
  then show ?thesis
  proof cases
    case same
    then show ?thesis using plain not by (auto simp: list_ex_iff)
  next
    case place
    then show ?thesis
      using plain jget_with_content [of ?plain "JArr blocks"]
      by (simp add: placeholder_def map_of_json_map)
  next
    case kept
    then show ?thesis
      using plain jget_with_content [of ?plain "JArr blocks"] not content_wf [OF assms(3) kept(1)]
      by (auto simp: jget_go_value_string)
  qed
qed




end
