(* ===== verification/Request_Prep.thy ===== *)
theory Request_Prep
  imports Thinking Retry_Loop Model_Routing Error_Responses "HOL-Library.AList"
begin

text \<open>
  What the messages handler reads in a request before it is sent (\<open>prepareRequest\<close>, \<open>processThinkingSignatures\<close> and
  \<open>detectThinkingAffinity\<close> in \<open>handler.go\<close>, \<open>model_extract.go\<close>, \<open>thinking_affinity.go\<close>), how it tells a streaming
  request (\<open>isStreamingRequest\<close> in \<open>retry.go\<close>), and the renaming of models (\<open>model_rewrite.go\<close>).
\<close>

section \<open>Bodies\<close>

text \<open>
  A body is read once: what \<open>io.ReadAll\<close> gives for it, the bytes and perhaps an error; \<^term>\<open>None\<close> is a nil body. What
  was read is put back as a body of its own, which ends without an error.
\<close>

type_synonym req_body = "(string \<times> go_error option) option"

definition restored :: "string \<Rightarrow> req_body" where
  "restored content = Some (content, None)"

fun IsBodyTooLargeError :: "go_error \<Rightarrow> bool" where
  "IsBodyTooLargeError (Sentinel s) = (s = ''http: request body too large'')"
| "IsBodyTooLargeError (Wrapped m e) = IsBodyTooLargeError e"
| "IsBodyTooLargeError e = False"

section \<open>Reading with \<open>encoding/json\<close>\<close>

text \<open>
  \<open>Unmarshal\<close> into a \<open>map[string]any\<close>; \<open>dec\<close> is the parser, \<^term>\<open>None\<close> for bytes that are no JSON. Of a member that is
  there twice the last one counts.
\<close>

definition any_map :: "(string \<Rightarrow> json option) \<Rightarrow> string \<Rightarrow> (string \<times> json) list option" where
  "any_map dec body = (case dec body of Some (JObj ms) \<Rightarrow> Some (AList.clearjunk (rev ms)) | Some JNull \<Rightarrow> Some [] | _ \<Rightarrow> None)"

text \<open>\<open>IsStreamingRequest\<close> of \<open>sse.go\<close> and \<open>OpenAIGetIsStreaming\<close> of \<open>openai_sse.go\<close> read the same.\<close>

definition OpenAIGetIsStreaming :: "(string \<Rightarrow> json option) \<Rightarrow> string \<Rightarrow> bool" where
  "OpenAIGetIsStreaming dec body =
     (case any_map dec body of None \<Rightarrow> False | Some req \<Rightarrow> map_of req ''stream'' = Some (JBool True))"

definition ExtractModelWithBodyCheck ::
    "(string \<Rightarrow> json option) \<Rightarrow> req_body \<Rightarrow> (string option \<times> bool) \<times> req_body" where
  "ExtractModelWithBodyCheck dec body =
     (case body of
        None \<Rightarrow> ((None, False), None)
      | Some (content, Some err) \<Rightarrow> ((None, IsBodyTooLargeError err), restored content)
      | Some (content, None) \<Rightarrow>
          ((case any_map dec content of
              None \<Rightarrow> None
            | Some m \<Rightarrow> (case map_of m ''model'' of Some (JStr s) \<Rightarrow> if s = '''' then None else Some s | _ \<Rightarrow> None), False),
           restored content))"

text \<open>
  \<open>Unmarshal\<close> into a struct: the names of the fields are compared without case, a member of another type is an error, null
  leaves a field as it is. A field that several members match is set by each in turn; for the two fields that are lists
  the last one counts, where \<open>encoding/json\<close> would write its elements over the former ones.
\<close>

definition members :: "(string \<times> json) list \<Rightarrow> string \<Rightarrow> json list" where
  "members ms field = map snd (filter (\<lambda>m. map to_lower (fst m) = field) ms)"

fun dec_string :: "string \<Rightarrow> json list \<Rightarrow> string option" where
  "dec_string s [] = Some s"
| "dec_string s (JStr t # vs) = dec_string t vs"
| "dec_string s (JNull # vs) = dec_string s vs"
| "dec_string s (v # vs) = None"

fun dec_slice :: "(json \<Rightarrow> 'a option) \<Rightarrow> 'a list \<Rightarrow> json list \<Rightarrow> 'a list option" where
  "dec_slice d xs [] = Some xs"
| "dec_slice d xs (JArr vs # ws) = (case those (map d vs) of None \<Rightarrow> None | Some ys \<Rightarrow> dec_slice d ys ws)"
| "dec_slice d xs (JNull # ws) = dec_slice d [] ws"
| "dec_slice d xs (v # ws) = None"

fun dec_struct :: "((string \<times> json) list \<Rightarrow> 'a option) \<Rightarrow> json \<Rightarrow> 'a option" where
  "dec_struct d (JObj ms) = d ms"
| "dec_struct d JNull = d []"
| "dec_struct d v = None"

text \<open>Type and signature of a block; role and blocks of a message; the messages.\<close>

definition dec_block :: "json \<Rightarrow> (string \<times> string) option" where
  "dec_block = dec_struct (\<lambda>ms.
     case (dec_string '''' (members ms ''type''), dec_string '''' (members ms ''signature'')) of
       (Some t, Some s) \<Rightarrow> Some (t, s) | _ \<Rightarrow> None)"

definition dec_message :: "json \<Rightarrow> (string \<times> (string \<times> string) list) option" where
  "dec_message = dec_struct (\<lambda>ms.
     case (dec_string '''' (members ms ''role''), dec_slice dec_block [] (members ms ''content'')) of
       (Some r, Some bs) \<Rightarrow> Some (r, bs) | _ \<Rightarrow> None)"

definition dec_messages :: "json \<Rightarrow> (string \<times> (string \<times> string) list) list option" where
  "dec_messages = dec_struct (\<lambda>ms. dec_slice dec_message [] (members ms ''messages''))"

definition HasThinkingSignature :: "(string \<Rightarrow> json option) \<Rightarrow> req_body \<Rightarrow> bool \<times> req_body" where
  "HasThinkingSignature dec body =
     (case body of
        None \<Rightarrow> (False, None)
      | Some (content, Some err) \<Rightarrow> (False, restored content)
      | Some (content, None) \<Rightarrow>
          (case Option.bind (dec content) dec_messages of
             None \<Rightarrow> False
           | Some msgs \<Rightarrow>
               list_ex (\<lambda>(role, blocks). role = ''assistant'' \<and> list_ex (\<lambda>(t, sig). t = ''thinking'' \<and> sig \<noteq> '''') blocks) msgs,
           restored content))"

section \<open>Streaming requests\<close>

text \<open>\<open>strings.Index\<close>, and the first occurrence of a text cut off with all before it.\<close>

fun after_first :: "string \<Rightarrow> string \<Rightarrow> string option" where
  "after_first pat [] = (if pat = [] then Some [] else None)"
| "after_first pat (c # s) =
     (if take (length pat) (c # s) = pat then Some (drop (length pat) (c # s)) else after_first pat s)"

definition containsStreamTrue :: "string \<Rightarrow> bool" where
  "containsStreamTrue body =
     (case after_first (dq ''stream'') body of
        None \<Rightarrow> False
      | Some rest \<Rightarrow>
          let window = take 20 rest; colonIdx = length (takeWhile (\<lambda>c. c \<noteq> CHR '':'') window)
          in if colonIdx = length window then False
             else let afterColon = dropWhile (\<lambda>c. (of_char c :: nat) \<in> {32, 9, 10, 13}) (drop (Suc colonIdx) rest)
                  in take 4 afterColon = ''true'')"

definition isStreamingRequest :: "header \<Rightarrow> req_body \<Rightarrow> bool \<times> req_body" where
  "isStreamingRequest headers body =
     (if header_get headers ''Accept'' = ''text/event-stream'' then (True, body)
      else case body of
             None \<Rightarrow> (False, None)
           | Some (content, Some err) \<Rightarrow> (False, Some ('''', Some err))
           | Some (content, None) \<Rightarrow> (containsStreamTrue content, restored content))"

section \<open>Preparing a request\<close>

record prep_env =
  pe_dec :: "string \<Rightarrow> json option"
  pe_has_router :: bool
  pe_providers :: "provider_info list option"

record request_prep =
  rp_body :: req_body
  rp_model :: string
  rp_hasThinking :: bool
  rp_original :: "string option"
  rp_thinking :: "thinking_ctx option"

text \<open>\<open>sc\<close> is the signature cache of the handler, \<^term>\<open>None\<close> when it has none.\<close>

definition processThinkingSignatures ::
    "string json_lib \<Rightarrow> 's cache_ops \<Rightarrow> 's option \<Rightarrow> string \<Rightarrow> req_body \<Rightarrow> req_body \<times> thinking_ctx option" where
  "processThinkingSignatures J C sc model body =
     (case sc of
        None \<Rightarrow> (body, None)
      | Some s \<Rightarrow>
          (case body of
             None \<Rightarrow> (None, None)
           | Some (content, Some err) \<Rightarrow> (restored content, None)
           | Some (content, None) \<Rightarrow>
               if \<not> HasThinkingBlocks content then (restored content, None)
               else let modelName = (if model = '''' then jstring J (jget (jl_doc J content) ''model'') else model)
                    in case ProcessRequestThinking J C content modelName sc of
                         (_, _, Some e) \<Rightarrow> (restored content, None)
                       | (modified, tc, None) \<Rightarrow> (restored modified, Some tc)))"

definition detectThinkingAffinity :: "prep_env \<Rightarrow> req_body \<Rightarrow> bool \<times> req_body" where
  "detectThinkingAffinity pe body =
     (if \<not> pe_has_router pe then (False, body)
      else case pe_providers pe of
             None \<Rightarrow> (False, body)
           | Some ps \<Rightarrow> if length ps \<le> 1 then (False, body) else HasThinkingSignature (pe_dec pe) body)"

text \<open>The answer that ends the request (with the headers set so far), or the prepared request.\<close>

definition prepareRequest ::
    "string json_lib \<Rightarrow> 's cache_ops \<Rightarrow> 's option \<Rightarrow> prep_env \<Rightarrow> header \<Rightarrow> req_body \<Rightarrow> response + request_prep" where
  "prepareRequest J C sc pe writer body =
     (let ((modelOpt, bodyTooLarge), body) = ExtractModelWithBodyCheck (pe_dec pe) body
      in if bodyTooLarge then Inl (WriteBodyTooLargeError writer)
         else let model = (case modelOpt of Some m \<Rightarrow> m | None \<Rightarrow> '''');
                  original = map_option fst body;
                  (body, tc) = processThinkingSignatures J C sc model (map_option (\<lambda>b. (fst b, None)) body);
                  (hasThinking, body) = detectThinkingAffinity pe body
              in Inr \<lparr>rp_body = body, rp_model = model, rp_hasThinking = hasThinking, rp_original = original,
                   rp_thinking = tc\<rparr>)"

text \<open>Which of the three paths \<open>ServeHTTP\<close> takes, and what the retry loops are given.\<close>

datatype serve_path = Refuse response | StreamingRetry request_prep | BufferedRetry request_prep | DirectPath request_prep

definition ServeHTTP_path ::
    "string json_lib \<Rightarrow> 's cache_ops \<Rightarrow> 's option \<Rightarrow> prep_env \<Rightarrow> bool \<Rightarrow> header \<Rightarrow> header \<Rightarrow> req_body \<Rightarrow> serve_path" where
  "ServeHTTP_path J C sc pe retryEnabled writer headers body =
     (case prepareRequest J C sc pe writer body of
        Inl resp \<Rightarrow> Refuse resp
      | Inr prep \<Rightarrow>
          if \<not> retryEnabled then DirectPath prep
          else let (streaming, body) = isStreamingRequest headers (rp_body prep); prep = prep\<lparr>rp_body := body\<rparr>
               in if streaming then StreamingRetry prep else BufferedRetry prep)"

definition retry_request_of :: "request_prep \<Rightarrow> retry_request" where
  "retry_request_of prep =
     \<lparr>rq_body = map_option fst (rp_body prep), rq_original = rp_original prep, rq_hasThinking = rp_hasThinking prep\<rparr>"

section \<open>Renaming models\<close>

text \<open>
  \<open>RewriteRequest\<close> with a mapping; \<open>enc\<close> is \<open>json.Marshal\<close> and \<open>fl\<close> what a number becomes as a \<open>float64\<close>. A failure on the
  way leaves the body as it was.
\<close>

datatype rewrite_result = NotRewritten string | Rewritten string string

definition tryRewrite ::
    "(string \<Rightarrow> json option) \<Rightarrow> (json \<Rightarrow> string) \<Rightarrow> (string \<Rightarrow> string) \<Rightarrow> (string \<times> string) list \<Rightarrow> string \<Rightarrow> go_error + rewrite_result" where
  "tryRewrite dec enc fl mapping bodyBytes =
     (case any_map dec bodyBytes of
        None \<Rightarrow> Inl (OtherError ''json'')
      | Some body \<Rightarrow>
          (case map_of body ''model'' of
             None \<Rightarrow> Inl (Sentinel ''no model field in body'')
           | Some (JStr originalModel) \<Rightarrow>
               (case map_of mapping originalModel of
                  None \<Rightarrow> Inr (NotRewritten originalModel)
                | Some newName \<Rightarrow>
                    Inr (Rewritten newName
                      (enc (json_map (map (\<lambda>(k, v). (k, if k = ''model'' then JStr newName else go_value fl v)) body)))))
           | Some v \<Rightarrow> Inl (Sentinel ''model field is not a string'')))"

definition RewriteRequest ::
    "(string \<Rightarrow> json option) \<Rightarrow> (json \<Rightarrow> string) \<Rightarrow> (string \<Rightarrow> string) \<Rightarrow> (string \<times> string) list \<Rightarrow> req_body \<Rightarrow>
     go_error option \<times> req_body" where
  "RewriteRequest dec enc fl mapping body =
     (if mapping = [] then (None, body)
      else case body of
             None \<Rightarrow> (None, None)
           | Some (content, Some err) \<Rightarrow> (Some err, restored content)
           | Some (content, None) \<Rightarrow>
               (None, restored (case tryRewrite dec enc fl mapping content of
                  Inr (Rewritten m new) \<Rightarrow> new | _ \<Rightarrow> content)))"

definition RewriteModel :: "(string \<times> string) list \<Rightarrow> string \<Rightarrow> string" where
  "RewriteModel mapping model = (case map_of mapping model of Some newName \<Rightarrow> newName | None \<Rightarrow> model)"

definition rewriteModelIfNeeded ::
    "(string \<Rightarrow> json option) \<Rightarrow> (json \<Rightarrow> string) \<Rightarrow> (string \<Rightarrow> string) \<Rightarrow> (string \<times> string) list \<Rightarrow> req_body \<Rightarrow> req_body" where
  "rewriteModelIfNeeded dec enc fl mapping body = snd (RewriteRequest dec enc fl mapping body)"

end
