(* ===== verification/Request_Prep_Facts.thy ===== *)
theory Request_Prep_Facts
  imports Request_Prep Thinking_Properties Failover_Router
begin

text \<open>
  The properties of a prepared request: what is renamed, what is taken for streaming, when a conversation is kept at its
  provider, and what becomes of a body that could not be read to its end.
\<close>

section \<open>Decoding\<close>

lemma those_None: "None \<in> set xs \<Longrightarrow> those xs = None"
  by (induction xs) (auto split: option.splits)

lemma dec_slice_None: "JStr s \<in> set vs \<Longrightarrow> dec_slice d xs vs = None"
  by (induction d xs vs rule: dec_slice.induct) (auto split: option.split)

text \<open>A message whose content is a string.\<close>

definition string_content :: "json \<Rightarrow> bool" where
  "string_content msg = (case msg of JObj fs \<Rightarrow> list_ex (\<lambda>v. \<exists>s. v = JStr s) (members fs ''content'') | _ \<Rightarrow> False)"

lemma dec_message_string: "string_content msg \<Longrightarrow> dec_message msg = None"
  by (auto simp: string_content_def dec_message_def list_ex_iff dec_slice_None split: json.splits option.split)

lemma dec_messages_string:
  assumes "members ms ''messages'' = [JArr msgs]" and "\<exists>msg \<in> set msgs. string_content msg"
  shows "dec_messages (JObj ms) = None"
proof -
  have "those (map dec_message msgs) = None" using assms(2) dec_message_string by (intro those_None) force
  then show ?thesis using assms(1) by (simp add: dec_messages_def)
qed

text \<open>The search puts back what it read.\<close>

lemma affinity_restores: "snd (detectThinkingAffinity pe (restored content)) = restored content"
  by (simp add: detectThinkingAffinity_def HasThinkingSignature_def restored_def split: option.split)

definition found_signature :: "prep_env \<Rightarrow> string \<Rightarrow> bool" where
  "found_signature pe content = fst (detectThinkingAffinity pe (restored content))"

lemma affinity_run: "detectThinkingAffinity pe (Some (content, None)) = (found_signature pe content, Some (content, None))"
  using affinity_restores [of pe content] by (simp add: prod_eq_iff restored_def found_signature_def)

text \<open>
  One message whose content is a string, which the API allows and clients send, makes the search for thinking
  signatures fail to decode the whole request: the conversation is not kept at its provider although signed thinking
  blocks are in it, and when another provider is tried after all its thinking blocks are not stripped.
\<close>

lemma affinity_lost_on_string_content:
  assumes "pe_dec pe content = Some (JObj ms)" and "members ms ''messages'' = [JArr msgs]"
    and "\<exists>msg \<in> set msgs. string_content msg"
  shows "\<exists>prep. prepareRequest J C None pe writer (Some (content, None)) = Inr prep \<and> \<not> rp_hasThinking prep \<and>
    (\<forall>strip i. attempt_body strip (retry_request_of prep) i = Some content)"
proof -
  have "Option.bind (pe_dec pe content) dec_messages = None" using assms(1) dec_messages_string [OF assms(2,3)] by simp
  then have "detectThinkingAffinity pe (restored content) = (False, restored content)"
    by (simp add: detectThinkingAffinity_def HasThinkingSignature_def restored_def split: option.split)
  then show ?thesis
    by (simp add: prepareRequest_def ExtractModelWithBodyCheck_def processThinkingSignatures_def attempt_body_def
        retry_request_of_def restored_def)
qed

text \<open>
  A body that breaks off before its end, for another reason than its size, is put back as a complete one: the request
  is prepared without a model and goes on, on every path, with the part that was read.
\<close>

lemma broken_body_goes_on:
  assumes "\<not> IsBodyTooLargeError err"
  shows "\<exists>prep. prepareRequest J C None pe writer (Some (content, Some err)) = Inr prep \<and>
    rp_body prep = Some (content, None) \<and> rp_model prep = '''' \<and>
    (ServeHTTP_path J C None pe False writer headers (Some (content, Some err)) = DirectPath prep) \<and>
    attempt_body strip (retry_request_of prep) 0 = Some content"
  using assms by (simp add: ServeHTTP_path_def prepareRequest_def ExtractModelWithBodyCheck_def restored_def affinity_run
      processThinkingSignatures_def attempt_body_def retry_request_of_def split: option.split)

section \<open>Streaming\<close>

text \<open>
  The stream flag is looked for behind the first occurrence of the word in quotes only: a request in which it stands
  somewhere before, with no colon near by, is taken for a buffered one when retries are on, although its stream member is
  true.
\<close>

lemma stream_flag_missed:
  assumes "after_first (dq ''stream'') content = Some rest" and "CHR '':'' \<notin> set (take 20 rest)"
    and "header_get headers ''Accept'' \<noteq> ''text/event-stream''" and "OpenAIGetIsStreaming (pe_dec pe) content"
  shows "\<exists>prep. ServeHTTP_path J C None pe True writer headers (Some (content, None)) = BufferedRetry prep \<and>
    rp_body prep = Some (content, None)"
proof -
  have "takeWhile (\<lambda>c. c \<noteq> CHR '':'') (take 20 rest) = take 20 rest"
    using assms(2) by (subst takeWhile_eq_all_conv) auto
  then have "length (takeWhile (\<lambda>c. c \<noteq> CHR '':'') (take 20 rest)) = length (take 20 rest)" by (simp only:)
  then have "\<not> containsStreamTrue content" using assms(1) by (simp only: containsStreamTrue_def Let_def option.case simp_thms if_True)
  then have stream: "isStreamingRequest headers (restored content) = (False, restored content)"
    using assms(3) by (simp add: isStreamingRequest_def restored_def)
  from stream show ?thesis
    by (simp add: ServeHTTP_path_def prepareRequest_def ExtractModelWithBodyCheck_def processThinkingSignatures_def restored_def
        affinity_run split: option.split)
qed

section \<open>Renaming\<close>

text \<open>The document that is written, for a document without a repeated member.\<close>

definition renamed :: "(string \<Rightarrow> string) \<Rightarrow> (string \<times> json) list \<Rightarrow> string \<Rightarrow> json" where
  "renamed fl ms newName = json_map (map (\<lambda>(k, v). (k, if k = ''model'' then JStr newName else go_value fl v)) (rev ms))"

lemma jget_renamed:
  assumes "distinct (map fst ms)"
  shows "jget (renamed fl ms newName) k =
    map_option (if k = ''model'' then (\<lambda>_. JStr newName) else go_value fl) (map_of ms k)"
proof -
  let ?f = "\<lambda>k v. if k = ''model'' then JStr newName else go_value fl v"
  let ?ms = "map (\<lambda>(k, v). (k, ?f k v)) (rev ms)"
  have d: "distinct (map fst (rev ms))" using assms by (simp add: rev_map [symmetric])
  have "map fst ?ms = map fst (rev ms)" by (simp add: split_def comp_def)
  then have "jget (json_map ?ms) k = map_of ?ms k" using d by (simp only: map_of_json_map)
  also have "\<dots> = map_option (?f k) (map_of (rev ms) k)" by (induction ms) (auto simp: map_add_def split: option.split)
  also have "map_of (rev ms) = map_of ms" using d assms by (intro map_of_inject_set [THEN iffD2]) simp_all
  finally show ?thesis by (auto simp: renamed_def)
qed


section \<open>Witnesses\<close>

definition chat_json :: json where
  "chat_json = JObj [(''messages'', JArr [
     JObj [(''role'', JStr ''user''), (''content'', JStr ''hi'')],
     JObj [(''role'', JStr ''assistant''), (''content'', JArr [thinking_block ''t'' ''signed''])]])]"

definition text_json :: "string json_lib" where
  "text_json = \<lparr>jl_bytes = id, jl_doc = \<lambda>_. chat_json, jl_raw = plain_text, jl_set = \<lambda>b p v. Inr b, jl_delete = \<lambda>b p. Inr b,
     jl_failed = id, jl_float = id\<rparr>"

definition chat_env :: prep_env where
  "chat_env = \<lparr>pe_dec = \<lambda>s. if s = ''chat'' then Some chat_json else if s = ''m'' then Some (JObj [(''model'', JStr ''m'')])
       else if s = dq ''stream'' @ '',and twenty characters,'' @ dq ''stream'' @ '':true'' then Some (JObj [(''stream'', JBool True)])
       else None,
     pe_has_router = True, pe_providers = Some [zero_provider, zero_provider]\<rparr>"

lemma affinity_lost_on_string_content_witness:
  "\<exists>prep. prepareRequest text_json plain_cache None chat_env (\<lambda>_. []) (Some (''chat'', None)) = Inr prep \<and> \<not> rp_hasThinking prep"
proof -
  have "pe_dec chat_env ''chat'' = Some (JObj [(''messages'', JArr [
      JObj [(''role'', JStr ''user''), (''content'', JStr ''hi'')],
      JObj [(''role'', JStr ''assistant''), (''content'', JArr [thinking_block ''t'' ''signed''])]])])"
    by (simp add: chat_env_def chat_json_def)
  from affinity_lost_on_string_content [OF this, of _ text_json plain_cache "\<lambda>_. []"] show ?thesis
    by (fastforce simp: members_def to_lower_def is_upper_def string_content_def)
qed

lemma broken_body_goes_on_witness:
  "\<exists>prep. prepareRequest text_json plain_cache None chat_env (\<lambda>_. []) (Some (''{'', Some (OtherError ''unexpected EOF''))) = Inr prep \<and>
    rp_body prep = Some (''{'', None)"
  using broken_body_goes_on [of "OtherError ''unexpected EOF''" text_json plain_cache chat_env "\<lambda>_. []" "''{''" "\<lambda>_. []" id] by auto

lemma stream_flag_missed_witness:
  "\<exists>prep. ServeHTTP_path text_json plain_cache None chat_env True (\<lambda>_. []) (\<lambda>_. [])
    (Some (dq ''stream'' @ '',and twenty characters,'' @ dq ''stream'' @ '':true'', None)) = BufferedRetry prep"
proof -
  let ?c = "dq ''stream'' @ '',and twenty characters,'' @ dq ''stream'' @ '':true''"
  have "after_first (dq ''stream'') ?c = Some ('',and twenty characters,'' @ dq ''stream'' @ '':true'')" by (simp add: dq_def)
  moreover have "CHR '':'' \<notin> set (take 20 ('',and twenty characters,'' @ dq ''stream'' @ '':true''))" by (simp add: dq_def)
  moreover have "OpenAIGetIsStreaming (pe_dec chat_env) ?c"
    by (simp add: OpenAIGetIsStreaming_def any_map_def chat_env_def dq_def)
  ultimately show ?thesis
    using stream_flag_missed [of ?c _ "\<lambda>_. []" chat_env text_json plain_cache "\<lambda>_. []"] by (auto simp: header_get_def)
qed


end
