(* ===== verification/Handler_Direct.thy ===== *)
theory Handler_Direct
  imports Handler_Retry_Facts Proxy_Auth Request_Prep
begin

text \<open>
  The path without retries (\<open>serveDirect\<close>, \<open>selectProviderWithTracking\<close> and \<open>prepareProxyRequest\<close> in \<open>handler.go\<close>): one
  provider, one key, one attempt.
\<close>

section \<open>The path\<close>

text \<open>
  What it reads besides the environment of the handler: the kind of each provider and its model mapping, by name, and
  how errors are shown.
\<close>

record direct_env =
  dv_impl :: "string \<Rightarrow> provider_impl"
  dv_mapping :: "string \<Rightarrow> (string \<times> string) list"
  dv_show :: "go_error \<Rightarrow> string"
  dv_show_key :: "key_err \<Rightarrow> string"
  dv_dec :: "string \<Rightarrow> json option"
  dv_enc :: "json \<Rightarrow> string"
  dv_float :: "string \<Rightarrow> string"

text \<open>
  The router of the handler is the live router, which tracks loads: the selected provider is acquired, also when it is the
  default one.
\<close>

definition selectProviderWithTracking ::
    "('l, 'r, 'c, 'b) handler_env \<Rightarrow> string \<Rightarrow> bool \<Rightarrow> ('l, 'b) handler_state \<Rightarrow>
     (go_error + provider \<times> bool) \<times> ('l, 'b) handler_state" where
  "selectProviderWithTracking he model hasThinking w =
     (let se = he_select he (hw_tick w) (hw_tracker w);
          (r, s) = selectProvider se (he_route he (hw_tick w)) (he_routing he) model hasThinking (hw_router w);
          w = w\<lparr>hw_tick := Suc (hw_tick w), hw_router := s\<rparr>
      in case r of
           Inl e \<Rightarrow> (Inl e, w)
         | Inr info \<Rightarrow>
             (case pi_Provider info of
                None \<Rightarrow> (Inl (GoPanic ''nil provider''), w)
              | Some p \<Rightarrow>
                  if se_has_router se then (Inr (p, True), w\<lparr>hw_router := live_Acquire p (he_routing he) (hw_router w)\<rparr>)
                  else (Inr (p, False), w)))"

text \<open>The reply to the client, or a panic; the headers of the relay that the writer has by then.\<close>

datatype direct_reply = Sent response header | Replied response | PanickedDirect go_error

definition auth_and_key ::
    "('l, 'r, 'c, 'b) handler_env \<Rightarrow> direct_env \<Rightarrow> header \<Rightarrow> header \<Rightarrow> provider \<Rightarrow> provider_proxy \<Rightarrow> ('l, 'b) handler_state \<Rightarrow>
     auth_choice \<times> ('l, 'b) handler_state" where
  "auth_and_key he dv writer headers p pp w =
     (let (r, pool) = handleAuthAndKeySelection (he_RL he) (he_fl he) (he_lo_pool he) (he_keys he (hw_tick w))
            (he_mark he (hw_tick w)) (dv_show_key dv) writer (dv_impl dv (prov_Name p)) (pp_APIKey pp) headers
            (map_option (hw_pools w) (pp_KeyPool pp));
          w = w\<lparr>hw_tick := Suc (hw_tick w)\<rparr>
      in (r, case (pp_KeyPool pp, pool) of
               (Some a, Some q) \<Rightarrow> w\<lparr>hw_pools := (hw_pools w)(a := q)\<rparr> | _ \<Rightarrow> w))"

text \<open>Forwarding: the hook sees the key only when one was taken from a pool.\<close>

definition forward ::
    "('l, 'r, 'c, 'b) handler_env \<Rightarrow> upstream_attempt \<Rightarrow> string option \<Rightarrow> ('l, 'b) handler_state \<Rightarrow>
     (go_error + response) \<times> ('l, 'b) handler_state" where
  "forward he a keyID w =
     (let up = he_upstream he (hw_tick w) a; w = w\<lparr>hw_tick := Suc (hw_tick w)\<rparr>
      in case (case up of
             None \<Rightarrow> (Inr bad_gateway, w)
           | Some resp \<Rightarrow> handler_modifyResponse he (prov_Name (at_provider a)) keyID resp w) of
           (Inl e, w) \<Rightarrow> (Inl e, w)
         | (Inr resp, w) \<Rightarrow> (Inr resp, w\<lparr>hw_log := hw_log w @ [(a, resp)]\<rparr>))"

definition with_provider ::
    "('l, 'r, 'c, 'b) handler_env \<Rightarrow> direct_env \<Rightarrow> header \<Rightarrow> header \<Rightarrow> request_prep \<Rightarrow> provider \<Rightarrow> ('l, 'b) handler_state \<Rightarrow>
     direct_reply \<times> ('l, 'b) handler_state" where
  "with_provider he dv writer headers prep p w =
     (case getOrCreateProxy he p w of
        (Inl e, w) \<Rightarrow>
          (Replied (WriteError writer 500 ''internal_error''
             (''failed to get proxy for provider '' @ prov_Name p @ '': '' @ dv_show dv e)), w)
      | (Inr pp, w) \<Rightarrow>
          (case auth_and_key he dv writer headers p pp w of
             (Answered resp, w) \<Rightarrow> (Replied resp, w)
           | (AuthPanic, w) \<Rightarrow> (PanickedDirect (GoPanic ''nil limiter''), w)
           | (Proceed inH keyID writer, w) \<Rightarrow>
               (let body = rewriteModelIfNeeded (dv_dec dv) (dv_enc dv) (dv_float dv) (dv_mapping dv (prov_Name p)) (rp_body prep);
                    a = \<lparr>at_provider = p, at_keyID = (case keyID of Some k \<Rightarrow> k | None \<Rightarrow> ''''),
                      at_apiKey = header_get inH ''X-Selected-Key'', at_body = map_option fst body\<rparr>
                in case forward he a keyID w of
                     (Inl e, w) \<Rightarrow> (PanickedDirect e, w) | (Inr resp, w) \<Rightarrow> (Sent resp writer, w))))"

definition serveDirect ::
    "('l, 'r, 'c, 'b) handler_env \<Rightarrow> direct_env \<Rightarrow> header \<Rightarrow> header \<Rightarrow> request_prep \<Rightarrow> ('l, 'b) handler_state \<Rightarrow>
     direct_reply \<times> ('l, 'b) handler_state" where
  "serveDirect he dv writer headers prep w =
     (case selectProviderWithTracking he (rp_model prep) (rp_hasThinking prep) w of
        (Inl (GoPanic m), w) \<Rightarrow> (PanickedDirect (GoPanic m), w)
      | (Inl e, w) \<Rightarrow> (Replied (WriteError writer 503 ''api_error'' (''failed to select provider: '' @ dv_show dv e)), w)
      | (Inr (p, acquired), w) \<Rightarrow>
          (let (r, w) = with_provider he dv writer headers prep p w
           in (r, if acquired then release_provider he p w else w)))"

section \<open>Facts\<close>

lemma auth_and_key_frame:
  "hw_router (snd (auth_and_key he dv writer headers p pp w)) = hw_router w"
  "hw_log (snd (auth_and_key he dv writer headers p pp w)) = hw_log w"
  by (simp_all add: auth_and_key_def split_def Let_def split: option.split)

lemma forward_frame:
  "hw_router (snd (forward he a k w)) = hw_router w"
  "hw_log (snd (forward he a k w)) = (case fst (forward he a k w) of Inr resp \<Rightarrow> hw_log w @ [(a, resp)] | Inl e \<Rightarrow> hw_log w)"
  using handler_modifyResponse_frame [of he "prov_Name (at_provider a)" k]
  by (auto simp: forward_def Let_def split_def split: option.splits prod.splits sum.splits)

text \<open>The log has the one request that was sent, if one was sent.\<close>

definition logged :: "provider \<Rightarrow> history \<Rightarrow> direct_reply \<Rightarrow> history \<Rightarrow> bool" where
  "logged p old r new = (case r of Sent resp h \<Rightarrow> (\<exists>a. at_provider a = p \<and> new = old @ [(a, resp)]) | _ \<Rightarrow> new = old)"

lemma with_provider_frame:
  assumes "with_provider he dv writer headers prep p w = (r, w')"
  shows "hw_router w' = hw_router w \<and> logged p (hw_log w) r (hw_log w')"
proof -
  obtain r1 w1 where g: "getOrCreateProxy he p w = (r1, w1)" by fastforce
  then have f1: "hw_router w1 = hw_router w" "hw_log w1 = hw_log w" using getOrCreateProxy_frame [of he p w] by simp_all
  show ?thesis
  proof (cases r1)
    case (Inl e)
    then show ?thesis using assms g f1 by (auto simp: with_provider_def logged_def)
  next
    case (Inr pp)
    obtain c w2 where k: "auth_and_key he dv writer headers p pp w1 = (c, w2)" by fastforce
    then have f2: "hw_router w2 = hw_router w" "hw_log w2 = hw_log w"
      using auth_and_key_frame [of he dv writer headers p pp w1] f1 by simp_all
    show ?thesis
    proof (cases c)
      case (Proceed inH keyID wr)
      let ?a = "\<lparr>at_provider = p, at_keyID = (case keyID of Some k \<Rightarrow> k | None \<Rightarrow> ''''), at_apiKey = header_get inH ''X-Selected-Key'',
        at_body = map_option fst (rewriteModelIfNeeded (dv_dec dv) (dv_enc dv) (dv_float dv) (dv_mapping dv (prov_Name p)) (rp_body prep))\<rparr>"
      obtain fr w3 where f: "forward he ?a keyID w2 = (fr, w3)" by fastforce
      then have f3: "hw_router w3 = hw_router w"
          "hw_log w3 = (case fr of Inr resp \<Rightarrow> hw_log w @ [(?a, resp)] | Inl e \<Rightarrow> hw_log w)"
        using forward_frame [of he ?a keyID w2] f2 by (cases fr; simp)+
      have "with_provider he dv writer headers prep p w =
          (case fr of Inl e \<Rightarrow> (PanickedDirect e, w3) | Inr resp \<Rightarrow> (Sent resp wr, w3))"
        unfolding with_provider_def g Inr prod.case sum.case k Proceed auth_choice.case Let_def f by (cases fr) simp_all
      then show ?thesis
        using assms f3 by (cases fr) (auto simp: logged_def intro!: exI [of _ ?a])
    qed (use assms g k Inr f2 in \<open>auto simp: with_provider_def logged_def\<close>)
  qed
qed

lemma balanced_tracked:
  assumes "balanced he model L [] w"
  shows "selectProviderWithTracking he model b w = (Inl e, w') \<Longrightarrow> balanced he model L [] w'"
    and "selectProviderWithTracking he model b w = (Inr (p, t), w') \<Longrightarrow> balanced he model L (if t then [p] else []) w'"
proof -
  let ?se = "he_select he (hw_tick w) (hw_tracker w)" and ?env = "he_route he (hw_tick w)"
  obtain r where r: "rc_router (hw_router w) = Some (RLeastLoaded r)" "\<forall>n. name_load r n = wrap64 (L n)"
    and inv: "handler_inv he model w" "(rc_strategy (hw_router w), rc_timeout (hw_router w)) = routing_key (he_routing he)"
    using assms by (auto simp: balanced_def)
  obtain x s where x: "selectProvider ?se ?env (he_routing he) model b (hw_router w) = (x, s)" by fastforce
  have ok: "handler_ok he model" and env: "route_env_ok ?env" and cache: "cache_ok (hw_router w)"
    using inv(1) by (auto simp: handler_inv_def handler_ok_def)
  obtain cs cs' where c: "providerCandidates ?se = Some cs" "applyModelRouting ?se cs model = Inr (Some cs')"
    by (rule handler_ok_candidates [OF ok])
  then have live: "(x, s) = live_Select ?env (he_routing he) (hw_router w) (applyThinkingAffinity ?env cs' b)"
    using x by (simp add: selectProvider_def)
  obtain r' where s: "s = (hw_router w)\<lparr>rc_router := Some (RLeastLoaded r')\<rparr>" "name_load r' = name_load r"
    using live_Select_steady [OF inv(2) r(1), of ?env "applyThinkingAffinity ?env cs' b"] live by (metis snd_conv)
  have cok: "cache_ok s" using r(1) s cache by (simp add: cache_ok_def)
  have acq: "live_Acquire p (he_routing he) s = s\<lparr>rc_router := Some (RLeastLoaded (LeastLoaded_Acquire p r'))\<rparr>" for p
    by (rule track_steady) (use s inv(2) in simp_all)
  have acq_ok: "cache_ok (live_Acquire p (he_routing he) s)" for p
    using cok by (simp add: live_Acquire_def live_track_ok router_track_inv)
  let ?w = "w\<lparr>hw_tick := Suc (hw_tick w), hw_router := s\<rparr>"
  have plain: "balanced he model L [] ?w" using s inv r cok by (simp add: balanced_def handler_inv_def)
  have got: "balanced he model L [p] (?w\<lparr>hw_router := live_Acquire p (he_routing he) s\<rparr>)" for p
    using s inv r acq acq_ok
    by (simp add: balanced_def handler_inv_def LeastLoaded_Acquire_def counter_Add_load wrap64_move algebra_simps)
  have run: "selectProviderWithTracking he model b w = (case x of
      Inl e \<Rightarrow> (Inl e, ?w)
    | Inr info \<Rightarrow> (case pi_Provider info of None \<Rightarrow> (Inl (GoPanic ''nil provider''), ?w)
        | Some p \<Rightarrow> if se_has_router ?se then (Inr (p, True), ?w\<lparr>hw_router := live_Acquire p (he_routing he) s\<rparr>)
            else (Inr (p, False), ?w)))"
    by (simp add: selectProviderWithTracking_def x Let_def split: sum.split option.split)
  show "selectProviderWithTracking he model b w = (Inl e, w') \<Longrightarrow> balanced he model L [] w'"
    using plain unfolding run by (auto split: sum.splits option.splits if_splits)
  show "selectProviderWithTracking he model b w = (Inr (p, t), w') \<Longrightarrow> balanced he model L (if t then [p] else []) w'"
    using plain got unfolding run by (auto split: sum.splits option.splits if_splits)
qed


section \<open>Witness\<close>

definition demo_direct :: direct_env where
  "demo_direct = \<lparr>dv_impl = \<lambda>_. demo_plain, dv_mapping = \<lambda>_. [], dv_show = \<lambda>_. ''error'', dv_show_key = \<lambda>_. ''error'',
     dv_dec = \<lambda>_. None, dv_enc = \<lambda>_. '''', dv_float = id\<rparr>"

definition demo_prep :: request_prep where
  "demo_prep = \<lparr>rp_body = Some (''{}'', None), rp_model = ''m'', rp_hasThinking = False, rp_original = Some ''{}'', rp_thinking = None\<rparr>"


end
