(* ===== verification/OpenAI_Handler.thy ===== *)
theory OpenAI_Handler
  imports Handler_Direct
begin

text \<open>
  The handler of the OpenAI endpoints (\<open>openai_handler.go\<close>, \<open>openai_retry.go\<close>): its own selection, proxies and response
  hook under a copy of the retry loops, and its path without retries.
\<close>

section \<open>The request\<close>

definition extractOpenAIModel :: "(string \<Rightarrow> json option) \<Rightarrow> string \<Rightarrow> string" where
  "extractOpenAIModel dec body =
     (if body = '''' then ''''
      else case Option.bind (dec body) (dec_struct (\<lambda>ms. dec_string '''' (members ms ''model''))) of
             Some m \<Rightarrow> m | None \<Rightarrow> '''')"

section \<open>Selection, proxies and the hook\<close>

text \<open>The providers now; a handler of this kind always has a router, which tracks loads.\<close>

definition openai_candidates ::
    "('l, 'r, 'c, 'b) handler_env \<Rightarrow> ('l, 'b) handler_state \<Rightarrow> provider_info list" where
  "openai_candidates he w =
     (case se_providers (he_select he (hw_tick w) (hw_tracker w)) of None \<Rightarrow> [] | Some ps \<Rightarrow> ps)"

definition openai_eligible ::
    "('l, 'r, 'c, 'b) handler_env \<Rightarrow> ('l, 'b) handler_state \<Rightarrow> provider_info list \<Rightarrow> provider_info list" where
  "openai_eligible he w candidates =
     filter (\<lambda>c. hasAvailableKeys he w (case pi_Provider c of Some p \<Rightarrow> prov_Name p | None \<Rightarrow> '''')) candidates"

definition selectProviderExcludingOpenAI ::
    "('l, 'r, 'c, 'b) handler_env \<Rightarrow> retry_ctx \<Rightarrow> ('l, 'b) handler_state \<Rightarrow>
     (go_error + provider \<times> bool) \<times> ('l, 'b) handler_state" where
  "selectProviderExcludingOpenAI he rx w =
     (let candidates = openai_candidates he w; w' = w\<lparr>hw_tick := Suc (hw_tick w)\<rparr>
      in if candidates = [] then (Inl (OtherError ''no openai providers available''), w')
         else if list_ex (\<lambda>c. pi_Provider c = None) candidates then (Inl (GoPanic ''nil provider''), w')
         else let candidates = openai_eligible he w candidates;
                  candidates = (if rx_excludedProviders rx = {} then candidates
                    else filter (\<lambda>c. (case pi_Provider c of Some p \<Rightarrow> prov_Name p | None \<Rightarrow> '''') \<notin> rx_excludedProviders rx) candidates)
              in if candidates = [] then (Inl (OtherError ''all providers excluded after retry''), w')
                 else case live_Select (he_route he (hw_tick w)) (he_routing he) (hw_router w) candidates of
                        (Inl e, r) \<Rightarrow> (Inl e, w'\<lparr>hw_router := r\<rparr>)
                      | (Inr p, r) \<Rightarrow>
                          (selected True p,
                           w'\<lparr>hw_router := (case pi_Provider p of
                                Some prov \<Rightarrow> live_Acquire prov (he_routing he) r | None \<Rightarrow> r)\<rparr>))"

text \<open>
  A proxy is kept while name and base URL of its provider are the same; here the base URL goes with the name. Without
  maps of keys and pools a new proxy has neither.
\<close>

definition openaiProxyMatches ::
    "('l, 'r, 'c, 'b) handler_env \<Rightarrow> provider \<Rightarrow> string \<Rightarrow> nat option \<Rightarrow> provider_proxy option \<Rightarrow> bool" where
  "openaiProxyMatches he prov key pool pp =
     (case pp of
        None \<Rightarrow> False
      | Some pp \<Rightarrow> prov_Name (pp_Provider pp) = prov_Name prov \<and>
          he_BaseURL he (prov_Name (pp_Provider pp)) = he_BaseURL he (prov_Name prov) \<and>
          (he_keymap he = None \<or> pp_APIKey pp = key) \<and> (he_poolmap he = None \<or> pp_KeyPool pp = pool))"

definition getOrCreateOpenAIProxy ::
    "('l, 'r, 'c, 'b) handler_env \<Rightarrow> provider \<Rightarrow> ('l, 'b) handler_state \<Rightarrow>
     (go_error + provider_proxy) \<times> ('l, 'b) handler_state" where
  "getOrCreateOpenAIProxy he prov w =
     (let (key, pool) = currentKeyPool he (prov_Name prov); old = hw_proxies w (prov_Name prov)
      in if openaiProxyMatches he prov key pool old then (Inr (the old), w)
         else case NewProviderProxy he prov key pool of
                Inl e \<Rightarrow> (Inl (Wrapped (''create proxy for '' @ prov_Name prov) e), w)
              | Inr pp \<Rightarrow> (Inr pp, w\<lparr>hw_proxies := (hw_proxies w)(prov_Name prov \<mapsto> pp)\<rparr>))"

text \<open>The proxies of the first providers are made with the handler.\<close>

fun initProxies ::
    "('l, 'r, 'c, 'b) handler_env \<Rightarrow> provider list \<Rightarrow> (string \<rightharpoonup> provider_proxy) \<Rightarrow> go_error + (string \<rightharpoonup> provider_proxy)" where
  "initProxies he [] m = Inr m"
| "initProxies he (prov # provs) m =
     (let (key, pool) = currentKeyPool he (prov_Name prov)
      in case NewProviderProxy he prov key pool of
           Inl e \<Rightarrow> Inl (Wrapped (''openai handler: create proxy for '' @ prov_Name prov) e)
         | Inr pp \<Rightarrow> initProxies he provs (m(prov_Name prov \<mapsto> pp)))"

definition openai_proxy_of ::
    "('l, 'r, 'c, 'b) handler_env \<Rightarrow> provider \<Rightarrow> ('l, 'b) handler_state \<Rightarrow>
     (go_error + bool \<times> string) \<times> ('l, 'b) handler_state" where
  "openai_proxy_of he prov w =
     apfst (map_sum id (\<lambda>pp. (pp_KeyPool pp \<noteq> None, pp_APIKey pp))) (getOrCreateOpenAIProxy he prov w)"

text \<open>The hook teaches the key pool and does not report to the health tracker.\<close>

definition openai_modifyResponse ::
    "('l, 'r, 'c, 'b) handler_env \<Rightarrow> string \<Rightarrow> string option \<Rightarrow> response \<Rightarrow> ('l, 'b) handler_state \<Rightarrow>
     (go_error + response) \<times> ('l, 'b) handler_state" where
  "openai_modifyResponse he providerName keyID resp w =
     (case (if providerName = '''' then None else hw_proxies w providerName) of
        Some pp \<Rightarrow>
          (case pp_KeyPool pp of
             Some a \<Rightarrow>
               (let (r, resp, p) = UpdateKeyPoolFromResponse (he_RL he) (he_fl he) (he_clock he (hw_tick w))
                       (he_mark he (hw_tick w)) (prov_Owner (pp_Provider pp)) (resolveCooldownStrategy he providerName)
                       keyID resp (hw_pools w a);
                    w = w\<lparr>hw_pools := (hw_pools w)(a := p)\<rparr>
                in case r of Inl e \<Rightarrow> (Inl (GoPanic ''nil limiter''), w) | Inr skip \<Rightarrow> (Inr resp, w))
           | None \<Rightarrow> (Inr resp, w))
      | None \<Rightarrow> (Inr resp, w))"

definition openai_forward ::
    "('l, 'r, 'c, 'b) handler_env \<Rightarrow> upstream_attempt \<Rightarrow> ('l, 'b) handler_state \<Rightarrow>
     (go_error + response) \<times> ('l, 'b) handler_state" where
  "openai_forward he a w =
     (let up = he_upstream he (hw_tick w) a; w = w\<lparr>hw_tick := Suc (hw_tick w)\<rparr>
      in case (case up of
             None \<Rightarrow> (Inr bad_gateway, w)
           | Some resp \<Rightarrow> openai_modifyResponse he (prov_Name (at_provider a)) (Some (at_keyID a)) resp w) of
           (Inl e, w) \<Rightarrow> (Inl e, w)
         | (Inr resp, w) \<Rightarrow> (Inr resp, w\<lparr>hw_log := hw_log w @ [(a, resp)]\<rparr>))"

section \<open>With retries\<close>

definition openai_ops :: "('l, 'r, 'c, 'b) handler_env \<Rightarrow> ('l, 'b) handler_state retry_ops" where
  "openai_ops he =
     \<lparr>op_select = selectProviderExcludingOpenAI he, op_proxy = openai_proxy_of he,
      op_key = selectKeyFromPoolExcluding he, op_send = openai_forward he,
      op_sleep = (\<lambda>d w. w\<lparr>hw_tick := Suc (hw_tick w)\<rparr>), op_release = release_provider he,
      op_clock = (\<lambda>w. he_clock he (hw_tick w))\<rparr>"

definition serveOpenAIWithRetry ::
    "('l, 'r, 'c, 'b) handler_env \<Rightarrow> retry_config \<Rightarrow> string \<Rightarrow> ('l, 'b) handler_state \<Rightarrow> reply \<times> ('l, 'b) handler_state" where
  "serveOpenAIWithRetry he cfg body w =
     serveWithRetry (openai_ops he) cfg id \<lparr>rq_body = Some body, rq_original = None, rq_hasThinking = False\<rparr> w"

text \<open>What the client gets for the outcome of the loops; a panic ends the connection.\<close>

definition openai_answer :: "(go_error \<Rightarrow> string) \<Rightarrow> header \<Rightarrow> reply \<Rightarrow> response option" where
  "openai_answer show_error writer r =
     (case r of
        Flush resp \<Rightarrow> Some resp
      | NoProvider e \<Rightarrow>
          Some (writeOpenAIError writer 503 (''failed to select provider: '' @ show_error e) ''server_error'' ''no_providers'')
      | NoProxy e \<Rightarrow> Some (writeOpenAIError writer 500 (''failed to get proxy: '' @ show_error e) ''internal_error'' '''')
      | NoAttempt \<Rightarrow> Some (writeOpenAIError writer 503 ''no providers available for retry'' ''server_error'' ''no_providers'')
      | Panicked e \<Rightarrow> None)"

section \<open>Without retries\<close>

text \<open>
  The URL of a provider for the responses API: \<open>parse\<close> is \<open>url.Parse\<close>, scheme and host. The retry loops skip an entry with
  a bad URL, the direct path refuses the request.
\<close>

definition usable_url :: "(string \<Rightarrow> (string \<times> string) option) \<Rightarrow> string \<Rightarrow> bool" where
  "usable_url parse u = (case parse u of Some (scheme, host) \<Rightarrow> host \<noteq> '''' \<and> scheme \<in> {''http'', ''https''} | None \<Rightarrow> False)"

definition resolveOpenAIResponsesURL ::
    "(string \<Rightarrow> (string \<times> string) option) \<Rightarrow> bool \<Rightarrow> config option \<Rightarrow> string \<Rightarrow> string option" where
  "resolveOpenAIResponsesURL parse responsesAPI cfg providerName =
     (if \<not> responsesAPI then None
      else case cfg of
             None \<Rightarrow> None
           | Some c \<Rightarrow>
               map_option pv_ResponsesURL
                 (List.find (\<lambda>pc. pv_Name pc = providerName \<and> pv_ResponsesURL pc \<noteq> '''' \<and> usable_url parse (pv_ResponsesURL pc))
                   (cf_OpenAIProviders c)))"

definition direct_responses_url ::
    "(string \<Rightarrow> (string \<times> string) option) \<Rightarrow> bool \<Rightarrow> config option \<Rightarrow> string \<Rightarrow> bool \<times> string option" where
  "direct_responses_url parse responsesAPI cfg providerName =
     (if \<not> responsesAPI then (True, None)
      else case cfg of
             None \<Rightarrow> (True, None)
           | Some c \<Rightarrow>
               (case List.find (\<lambda>pc. pv_Name pc = providerName \<and> pv_ResponsesURL pc \<noteq> '''') (cf_OpenAIProviders c) of
                  None \<Rightarrow> (True, None)
                | Some pc \<Rightarrow> if usable_url parse (pv_ResponsesURL pc) then (True, Some (pv_ResponsesURL pc)) else (False, None)))"

record openai_env =
  oe_show :: "go_error \<Rightarrow> string"
  oe_show_key :: "key_err \<Rightarrow> string"
  oe_parse :: "string \<Rightarrow> (string \<times> string) option"
  oe_responsesAPI :: bool
  oe_dec :: "string \<Rightarrow> json option"
  oe_enc :: "json \<Rightarrow> string"
  oe_float :: "string \<Rightarrow> string"
  oe_mapping :: "string \<Rightarrow> (string \<times> string) list"

text \<open>The key for one attempt: its identifier and the key, or the answer, or a panic.\<close>

definition openai_direct_key ::
    "('l, 'r, 'c, 'b) handler_env \<Rightarrow> openai_env \<Rightarrow> header \<Rightarrow> provider_proxy \<Rightarrow> ('l, 'b) handler_state \<Rightarrow>
     key_choice \<times> ('l, 'b) handler_state" where
  "openai_direct_key he oe writer pp w =
     (case pp_KeyPool pp of
        None \<Rightarrow> (KeyChosen ''default'' (pp_APIKey pp) writer, w)
      | Some a \<Rightarrow>
          (let (r, p) = GetKey (he_RL he) (he_keys he (hw_tick w)) (hw_pools w a);
               stats = GetStats (he_lo_pool he) (he_mark he (hw_tick w)) p;
               w = w\<lparr>hw_tick := Suc (hw_tick w), hw_pools := (hw_pools w)(a := p)\<rparr>
           in case r of
                Inl PanicNilLimiter \<Rightarrow> (KeyPanic, w)
              | Inl ErrAllKeysExhausted \<Rightarrow>
                  (KeyRefused (writeOpenAIError writer 429 ''all keys exhausted for provider'' ''rate_limit_error'' ''keys_exhausted''), w)
              | Inl err \<Rightarrow>
                  (KeyRefused (writeOpenAIError writer 500 (''failed to select key: '' @ oe_show_key oe err) ''internal_error'' ''''), w)
              | Inr (keyID, key) \<Rightarrow>
                  (KeyChosen keyID key
                    (header_set (header_set (header_set writer ''X-CC-Relay-Key-ID'' keyID)
                      ''X-CC-Relay-Keys-Total'' (itoa (st_TotalKeys stats)))
                      ''X-CC-Relay-Keys-Available'' (itoa (st_AvailableKeys stats))), w)))"

text \<open>The selection: an eligible provider, which is not acquired.\<close>

definition openai_direct_select ::
    "('l, 'r, 'c, 'b) handler_env \<Rightarrow> openai_env \<Rightarrow> header \<Rightarrow> ('l, 'b) handler_state \<Rightarrow>
     (direct_reply + provider) \<times> ('l, 'b) handler_state" where
  "openai_direct_select he oe writer w =
     (let infos = openai_candidates he w; w' = w\<lparr>hw_tick := Suc (hw_tick w)\<rparr>
      in if infos = []
         then (Inl (Replied (writeOpenAIError writer 503 ''no openai providers available'' ''server_error'' ''no_providers'')), w')
         else if list_ex (\<lambda>c. pi_Provider c = None) infos then (Inl (PanickedDirect (GoPanic ''nil provider'')), w')
         else if openai_eligible he w infos = []
         then (Inl (Replied (writeOpenAIError writer 429 ''all provider keys exhausted'' ''rate_limit_error'' ''keys_exhausted'')), w')
         else let (r, s) = live_Select (he_route he (hw_tick w)) (he_routing he) (hw_router w) (openai_eligible he w infos);
                  w' = w'\<lparr>hw_router := s\<rparr>
              in case r of
                   Inl e \<Rightarrow>
                     (Inl (Replied (writeOpenAIError writer 503 (''failed to select provider: '' @ oe_show oe e) ''server_error''
                       ''no_providers'')), w')
                 | Inr info \<Rightarrow>
                     (case pi_Provider info of
                        None \<Rightarrow> (Inl (PanickedDirect (GoPanic ''nil provider'')), w')
                      | Some prov \<Rightarrow> (Inr prov, w')))"

text \<open>The attempt.\<close>

definition openai_direct_attempt ::
    "('l, 'r, 'c, 'b) handler_env \<Rightarrow> openai_env \<Rightarrow> header \<Rightarrow> string \<Rightarrow> provider \<Rightarrow> ('l, 'b) handler_state \<Rightarrow>
     direct_reply \<times> ('l, 'b) handler_state" where
  "openai_direct_attempt he oe writer body prov w =
     (case getOrCreateOpenAIProxy he prov w of
        (Inl e, w) \<Rightarrow>
          (Replied (writeOpenAIError writer 500 (''failed to get proxy: '' @ oe_show oe e) ''internal_error'' ''''), w)
      | (Inr pp, w) \<Rightarrow>
          (case openai_direct_key he oe writer pp w of
             (KeyPanic, w) \<Rightarrow> (PanickedDirect (GoPanic ''nil limiter''), w)
           | (KeyRefused resp, w) \<Rightarrow> (Replied resp, w)
           | (KeyChosen keyID key writer, w) \<Rightarrow>
               if \<not> fst (direct_responses_url (oe_parse oe) (oe_responsesAPI oe) (he_config he) (prov_Name prov))
               then (Replied (writeOpenAIError writer 500 ''invalid responses_url for provider'' ''server_error''
                 ''invalid_provider_config''), w)
               else let sent = snd (RewriteRequest (oe_dec oe) (oe_enc oe) (oe_float oe)
                          (oe_mapping oe (prov_Name prov)) (restored body))
                    in case openai_forward he \<lparr>at_provider = prov, at_keyID = keyID, at_apiKey = key,
                          at_body = map_option fst sent\<rparr> w of
                         (Inl e, w) \<Rightarrow> (PanickedDirect e, w)
                       | (Inr resp, w) \<Rightarrow> (Sent resp writer, w)))"

definition serveOpenAIDirect ::
    "('l, 'r, 'c, 'b) handler_env \<Rightarrow> openai_env \<Rightarrow> header \<Rightarrow> string \<Rightarrow> ('l, 'b) handler_state \<Rightarrow>
     direct_reply \<times> ('l, 'b) handler_state" where
  "serveOpenAIDirect he oe writer body w =
     (case openai_direct_select he oe writer w of
        (Inl reply, w) \<Rightarrow> (reply, w)
      | (Inr prov, w) \<Rightarrow> openai_direct_attempt he oe writer body prov w)"

text \<open>The paths of \<open>ServeHTTP\<close>; a body that cannot be read to its end is refused. The streaming loops answer as the
  buffered ones (\<open>streaming_equals_buffered\<close>).\<close>

datatype openai_path = OpenAIRefuse response | OpenAIRetry bool string string | OpenAIDirect string string

definition openai_ServeHTTP_path ::
    "(go_error \<Rightarrow> string) \<Rightarrow> (string \<Rightarrow> json option) \<Rightarrow> retry_config \<Rightarrow> header \<Rightarrow> string \<times> go_error option \<Rightarrow> openai_path" where
  "openai_ServeHTTP_path show_error dec cfg writer body =
     (case snd body of
        Some e \<Rightarrow> OpenAIRefuse (writeOpenAIError writer 400 (''failed to read request body: '' @ show_error e) ''invalid_request_error'' '''')
      | None \<Rightarrow>
          (let model = extractOpenAIModel dec (fst body); isStreaming = OpenAIGetIsStreaming dec (fst body)
           in if rc_Enabled cfg then OpenAIRetry isStreaming model (fst body) else OpenAIDirect model (fst body)))"

end
