(* ===== verification/OpenAI_Facts.thy ===== *)
theory OpenAI_Facts
  imports OpenAI_Handler
begin

text \<open>
  The OpenAI handler under the retry loops: its operations keep the contracts of the loops, so the guarantees of the messages
  handler hold here too. What it does not do: it reports no outcome to the health tracker, and without retries it
  acquires no provider.
\<close>

section \<open>The contract\<close>

text \<open>At any moment the providers are a non-nil list, each with a key pool.\<close>

definition openai_ok :: "('l, 'r, 'c, 'b) handler_env \<Rightarrow> bool" where
  "openai_ok he \<longleftrightarrow>
     (\<forall>i. route_env_ok (he_route he i)) \<and>
     (\<forall>i t cs. se_providers (he_select he i t) = Some cs \<longrightarrow> usable cs \<and>
        (\<forall>c \<in> set cs. \<forall>p. pi_Provider c = Some p \<longrightarrow> pooled_provider he p))"

definition openai_inv :: "('l, 'r, 'c, 'b) handler_env \<Rightarrow> ('l, 'b) handler_state \<Rightarrow> bool" where
  "openai_inv he w \<longleftrightarrow> openai_ok he \<and> cache_ok (hw_router w)"

lemma openai_candidates_ok:
  assumes "openai_ok he"
  shows "usable (openai_candidates he w)"
    and "c \<in> set (openai_candidates he w) \<Longrightarrow> pi_Provider c = Some p \<Longrightarrow> pooled_provider he p"
    and "\<not> list_ex (\<lambda>c. pi_Provider c = None) (openai_candidates he w)"
proof -
  let ?se = "he_select he (hw_tick w) (hw_tracker w)"
  have all: "usable (openai_candidates he w) \<and>
      (\<forall>c \<in> set (openai_candidates he w). \<forall>p. pi_Provider c = Some p \<longrightarrow> pooled_provider he p)"
  proof (cases "se_providers ?se")
    case None
    then show ?thesis by (simp add: openai_candidates_def usable_def slice_ok_def)
  next
    case (Some cs)
    with assms show ?thesis by (fastforce simp: openai_ok_def openai_candidates_def)
  qed
  show "usable (openai_candidates he w)" using all by (rule conjunct1)
  show "pooled_provider he p" if "c \<in> set (openai_candidates he w)" "pi_Provider c = Some p" using all that by blast
  show "\<not> list_ex (\<lambda>c. pi_Provider c = None) (openai_candidates he w)" using all by (auto simp: usable_def list_ex_iff)
qed

lemma usable_subset: "usable cs \<Longrightarrow> set cs' \<subseteq> set cs \<Longrightarrow> length cs' \<le> length cs \<Longrightarrow> usable cs'"
  by (auto simp: usable_def slice_ok_def)

lemma openai_eligible_ok:
  "usable cs \<Longrightarrow> usable (openai_eligible he w cs)" "set (openai_eligible he w cs) \<subseteq> set cs"
  by (auto simp: openai_eligible_def intro: usable_subset)

text \<open>The providers a selection of a retry chooses from.\<close>

definition openai_left ::
    "('l, 'r, 'c, 'b) handler_env \<Rightarrow> retry_ctx \<Rightarrow> ('l, 'b) handler_state \<Rightarrow> provider_info list" where
  "openai_left he rx w =
     (let cs = openai_eligible he w (openai_candidates he w)
      in if rx_excludedProviders rx = {} then cs
         else filter (\<lambda>c. (case pi_Provider c of Some p \<Rightarrow> prov_Name p | None \<Rightarrow> '''') \<notin> rx_excludedProviders rx) cs)"

lemma openai_left_ok:
  assumes "openai_ok he"
  shows "usable (openai_left he rx w)"
    and "c \<in> set (openai_left he rx w) \<Longrightarrow> pi_Provider c = Some p \<Longrightarrow>
      prov_Name p \<notin> rx_excludedProviders rx \<and> pooled_provider he p"
proof -
  let ?cs = "openai_eligible he w (openai_candidates he w)"
  have us: "usable ?cs" by (rule openai_eligible_ok(1) [OF openai_candidates_ok(1) [OF assms]])
  then show "usable (openai_left he rx w)" by (auto simp: openai_left_def Let_def intro: usable_subset [OF us])
  assume c: "c \<in> set (openai_left he rx w)" "pi_Provider c = Some p"
  then have "c \<in> set (openai_candidates he w)"
    using openai_eligible_ok(2) [of he w "openai_candidates he w"] by (auto simp: openai_left_def Let_def split: if_splits)
  then show "prov_Name p \<notin> rx_excludedProviders rx \<and> pooled_provider he p"
    using openai_candidates_ok(2) [OF assms _ c(2), of w] c by (auto simp: openai_left_def Let_def split: if_splits)
qed

text \<open>The outcomes of a selection.\<close>

lemma selectProviderExcludingOpenAI_cases:
  assumes "openai_inv he w"
  obtains (err) e r where
      "selectProviderExcludingOpenAI he rx w = (Inl e, w\<lparr>hw_tick := Suc (hw_tick w), hw_router := r\<rparr>)" "cache_ok r"
      "r = hw_router w \<or> (\<exists>ps. r = snd (live_Select (he_route he (hw_tick w)) (he_routing he) (hw_router w) ps))"
  | (chosen) p r where
      "selectProviderExcludingOpenAI he rx w =
        (Inr (p, True), w\<lparr>hw_tick := Suc (hw_tick w), hw_router := live_Acquire p (he_routing he) r\<rparr>)"
      "cache_ok r" "prov_Name p \<notin> rx_excludedProviders rx" "pooled_provider he p"
      "\<exists>ps. r = snd (live_Select (he_route he (hw_tick w)) (he_routing he) (hw_router w) ps)"
proof -
  have ok: "openai_ok he" and r0: "cache_ok (hw_router w)" using assms by (simp_all add: openai_inv_def)
  have env: "route_env_ok (he_route he i)" for i using ok by (simp add: openai_ok_def)
  let ?ps = "openai_left he rx w" and ?cs = "openai_candidates he w"
  note us = openai_left_ok(1) [OF ok, of rx w] and full = openai_candidates_ok(3) [OF ok, of w]
  obtain res r where s: "live_Select (he_route he (hw_tick w)) (he_routing he) (hw_router w) ?ps = (res, r)" by fastforce
  have r: "cache_ok r" using live_Select_ok [OF r0 env us, of "hw_tick w" "he_routing he"] s by simp
  have at: "\<exists>ps. r = snd (live_Select (he_route he (hw_tick w)) (he_routing he) (hw_router w) ps)"
    by (rule exI [of _ ?ps]) (simp add: s)
  have run: "selectProviderExcludingOpenAI he rx w =
      (if ?cs = [] then (Inl (OtherError ''no openai providers available''), w\<lparr>hw_tick := Suc (hw_tick w)\<rparr>)
       else if ?ps = [] then (Inl (OtherError ''all providers excluded after retry''), w\<lparr>hw_tick := Suc (hw_tick w)\<rparr>)
       else case res of
              Inl e \<Rightarrow> (Inl e, w\<lparr>hw_tick := Suc (hw_tick w), hw_router := r\<rparr>)
            | Inr c \<Rightarrow> (selected True c, w\<lparr>hw_tick := Suc (hw_tick w), hw_router :=
                (case pi_Provider c of Some p \<Rightarrow> live_Acquire p (he_routing he) r | None \<Rightarrow> r)\<rparr>))"
    using full s by (simp add: selectProviderExcludingOpenAI_def openai_left_def Let_def split: sum.split)
  have same: "w\<lparr>hw_tick := Suc (hw_tick w)\<rparr> = w\<lparr>hw_tick := Suc (hw_tick w), hw_router := hw_router w\<rparr>" by simp
  show thesis
  proof (cases "?cs = [] \<or> ?ps = []")
    case True
    then obtain e where "selectProviderExcludingOpenAI he rx w = (Inl e, w\<lparr>hw_tick := Suc (hw_tick w), hw_router := hw_router w\<rparr>)"
      using run by (auto split: if_splits)
    then show thesis by (rule err [OF _ r0]) simp
  next
    case ne: False
    show thesis
    proof (cases res)
      case (Inl e)
      then show thesis using run ne by (intro err [OF _ r disjI2 [OF at]]) simp_all
    next
      case (Inr c)
      have mem: "c \<in> set ?ps" using live_Select_sound [OF r0 env us, of "hw_tick w" "he_routing he"] s Inr by simp
      then obtain p where p: "pi_Provider c = Some p" using us by (auto simp: usable_def)
      have "selectProviderExcludingOpenAI he rx w =
          (Inr (p, True), w\<lparr>hw_tick := Suc (hw_tick w), hw_router := live_Acquire p (he_routing he) r\<rparr>)"
        using run ne Inr p by (simp add: selected_def)
      then show thesis by (rule chosen [OF _ r _ _ at]) (use openai_left_ok(2) [OF ok mem p] in simp_all)
    qed
  qed
qed

text \<open>What each operation leaves alone.\<close>

definition same_but_select :: "('l, 'b) handler_state \<Rightarrow> ('l, 'b) handler_state \<Rightarrow> bool" where
  "same_but_select w w' \<longleftrightarrow> hw_log w' = hw_log w \<and> hw_tracker w' = hw_tracker w"

lemma selectProviderExcludingOpenAI_frame: "same_but_select w (snd (selectProviderExcludingOpenAI he rx w))"
  by (auto simp: same_but_select_def selectProviderExcludingOpenAI_def Let_def split: option.splits sum.splits prod.splits)

lemma getOrCreateOpenAIProxy_frame:
  "same_but_select w (snd (getOrCreateOpenAIProxy he p w))" "hw_router (snd (getOrCreateOpenAIProxy he p w)) = hw_router w"
  by (auto simp: same_but_select_def getOrCreateOpenAIProxy_def Let_def split: sum.splits prod.splits)

lemma selectKeyFromPoolExcluding_same: "same_but_select w (snd (selectKeyFromPoolExcluding he p rx w))"
  by (simp add: same_but_select_def selectKeyFromPoolExcluding_frame selectKeyFromPoolExcluding_tracker)

lemma openai_modifyResponse_frame:
  "same_but_select w (snd (openai_modifyResponse he n k resp w))" "hw_router (snd (openai_modifyResponse he n k resp w)) = hw_router w"
  by (auto simp: same_but_select_def openai_modifyResponse_def Let_def split: option.splits prod.splits sum.splits)

lemma openai_forward_frame:
  "hw_router (snd (openai_forward he a w)) = hw_router w" "hw_tracker (snd (openai_forward he a w)) = hw_tracker w"
  "hw_log (snd (openai_forward he a w)) =
    (case fst (openai_forward he a w) of Inr resp \<Rightarrow> hw_log w @ [(a, resp)] | Inl e \<Rightarrow> hw_log w)"
  using openai_modifyResponse_frame [where he = he and n = "prov_Name (at_provider a)" and k = "Some (at_keyID a)"]
  by (auto simp: same_but_select_def openai_forward_def Let_def split_def split: option.splits prod.splits sum.splits)

lemma getOrCreateOpenAIProxy_pooled:
  assumes "pooled_provider he p" and "fst (getOrCreateOpenAIProxy he p w) = Inr pp"
  shows "pp_KeyPool pp \<noteq> None"
proof -
  have map: "he_poolmap he \<noteq> None" using assms(1) by (cases "he_poolmap he") (auto simp: pooled_provider_def currentKeyPool_def)
  obtain key pool where k: "currentKeyPool he (prov_Name p) = (key, pool)" by fastforce
  then have "pool \<noteq> None" using assms(1) by (simp add: pooled_provider_def)
  then show ?thesis
    using assms(2) k map
    by (auto simp: getOrCreateOpenAIProxy_def openaiProxyMatches_def NewProviderProxy_def Let_def
        split: option.splits if_splits)
qed

lemma openai_ops_simps [simp]:
  "op_select (openai_ops he) = selectProviderExcludingOpenAI he"
  "op_proxy (openai_ops he) = openai_proxy_of he"
  "op_key (openai_ops he) = selectKeyFromPoolExcluding he"
  "op_send (openai_ops he) = openai_forward he"
  "op_sleep (openai_ops he) d w = w\<lparr>hw_tick := Suc (hw_tick w)\<rparr>"
  "op_release (openai_ops he) = release_provider he"
  "op_clock (openai_ops he) w = he_clock he (hw_tick w)"
  by (simp_all add: openai_ops_def)

lemmas openai_frames = selectProviderExcludingOpenAI_frame [unfolded same_but_select_def]
  getOrCreateOpenAIProxy_frame [unfolded same_but_select_def] selectKeyFromPoolExcluding_same [unfolded same_but_select_def]
  openai_forward_frame selectKeyFromPoolExcluding_frame

lemma openai_proxy_of_snd: "snd (openai_proxy_of he p w) = snd (getOrCreateOpenAIProxy he p w)"
  by (simp add: openai_proxy_of_def)

interpretation oar: retry_contract "openai_ops he" hw_log "openai_inv he" "pooled_provider he"
  for he :: "('l, 'r, 'c, 'b) handler_env"
proof unfold_locales
  fix w rx p t and w' :: "('l, 'b) handler_state"
  assume "openai_inv he w" "op_select (openai_ops he) rx w = (Inr (p, t), w')"
  then show "prov_Name p \<notin> rx_excludedProviders rx \<and> pooled_provider he p"
    by (auto elim: selectProviderExcludingOpenAI_cases [where rx = rx])
next
  fix w rx and w' :: "('l, 'b) handler_state"
  assume "openai_inv he w"
  then have "cache_ok (hw_router (snd (selectProviderExcludingOpenAI he rx w)))"
    by (rule selectProviderExcludingOpenAI_cases [where rx = rx])
      (simp_all add: live_Acquire_def live_track_ok router_track_inv)
  then show "openai_inv he (snd (op_select (openai_ops he) rx w))"
    using \<open>openai_inv he w\<close> by (simp add: openai_inv_def)
next
  fix w w' :: "('l, 'b) handler_state" and p rx k apiKey
  assume "op_key (openai_ops he) p rx w = (Inr (Some (k, apiKey)), w')"
  then show "\<not> isKeyExcluded (prov_Name p) k rx"
    by (auto simp: selectKeyFromPoolExcluding_def split: option.splits intro!: select_key_fresh dest: arg_cong [of _ _ fst])
next
  fix w w' :: "('l, 'b) handler_state" and p pl apiKey
  assume "pooled_provider he p" "op_proxy (openai_ops he) p w = (Inr (pl, apiKey), w')"
  then show pl
    using getOrCreateOpenAIProxy_pooled [of he p w]
    by (cases "fst (getOrCreateOpenAIProxy he p w)") (auto simp: openai_proxy_of_def apfst_def map_prod_def split_def)
qed (simp_all add: openai_inv_def openai_frames openai_proxy_of_snd)

text \<open>
  The OpenAI handler never comes back to what a request gave up either. When every provider has a key pool: after a 403
  the key is not used again, no key is used more often than the same-key retries plus one, and a provider that was left is
  not tried again.
\<close>

lemma openai_never_repeats:
  assumes "openai_ok he" and "cache_ok (hw_router w)" and "hw_log w = []"
    and "retry_run (openai_ops he) cfg strip rq w = (reply, acquired, st)"
  shows "spent_once (nat (GetSameKeyRetries cfg) + 1) (hw_log (rs_world st)) \<and> never_back (hw_log (rs_world st))"
  using oar.retry_run_block [OF _ assms(3,4)] assms(1,2) by (simp add: openai_inv_def)

section \<open>The load counters\<close>

text \<open>The least-loaded router while the configuration stays: its counters count the acquisitions not released yet.\<close>

definition loads_are :: "('l, 'r, 'c, 'b) handler_env \<Rightarrow> (string \<Rightarrow> int) \<Rightarrow> provider list \<Rightarrow> router_cache \<Rightarrow> bool" where
  "loads_are he L acq s \<longleftrightarrow> cache_ok s \<and> (rc_strategy s, rc_timeout s) = routing_key (he_routing he) \<and>
     (\<exists>r. rc_router s = Some (RLeastLoaded r) \<and> (\<forall>n. name_load r n = wrap64 (L n + held n acq)))"

lemma loads_are_select:
  assumes "loads_are he L acq s"
  shows "loads_are he L acq (snd (live_Select env (he_routing he) s ps))"
proof -
  obtain r where r: "rc_router s = Some (RLeastLoaded r)" "\<forall>n. name_load r n = wrap64 (L n + held n acq)"
    and key: "cache_ok s" "(rc_strategy s, rc_timeout s) = routing_key (he_routing he)" using assms by (auto simp: loads_are_def)
  obtain r' where "snd (live_Select env (he_routing he) s ps) = s\<lparr>rc_router := Some (RLeastLoaded r')\<rparr>" "name_load r' = name_load r"
    using live_Select_steady [OF key(2) r(1)] by blast
  then show ?thesis using key r by (simp add: loads_are_def cache_ok_def)
qed

lemma loads_are_acquire:
  assumes "loads_are he L acq s"
  shows "loads_are he L (p # acq) (live_Acquire p (he_routing he) s)"
proof -
  obtain r where r: "rc_router s = Some (RLeastLoaded r)" "\<forall>n. name_load r n = wrap64 (L n + held n acq)"
    and key: "cache_ok s" "(rc_strategy s, rc_timeout s) = routing_key (he_routing he)" using assms by (auto simp: loads_are_def)
  have "cache_ok (live_Acquire p (he_routing he) s)" using key(1) by (simp add: live_Acquire_def live_track_ok router_track_inv)
  then show ?thesis
    using track_steady(1) [OF key(2) r(1), of p] key r(2)
    by (auto simp: loads_are_def LeastLoaded_Acquire_def counter_Add_load wrap64_move algebra_simps)
qed

lemma loads_are_release:
  assumes "loads_are he L (p # acq) s"
  shows "loads_are he L acq (live_Release p (he_routing he) s)"
proof -
  obtain r where r: "rc_router s = Some (RLeastLoaded r)" "\<forall>n. name_load r n = wrap64 (L n + held n (p # acq))"
    and key: "cache_ok s" "(rc_strategy s, rc_timeout s) = routing_key (he_routing he)" using assms by (auto simp: loads_are_def)
  have "cache_ok (live_Release p (he_routing he) s)" using key(1) by (simp add: live_Release_def live_track_ok router_track_inv)
  then show ?thesis
    using track_steady(2) [OF key(2) r(1), of p] key r(2)
    by (auto simp: loads_are_def LeastLoaded_Release_def counter_Add_load wrap64_move algebra_simps)
qed

definition openai_balanced ::
    "('l, 'r, 'c, 'b) handler_env \<Rightarrow> (string \<Rightarrow> int) \<Rightarrow> 'b tracker option \<Rightarrow> provider list \<Rightarrow> ('l, 'b) handler_state \<Rightarrow> bool" where
  "openai_balanced he L T acq w \<longleftrightarrow> openai_ok he \<and> loads_are he L acq (hw_router w) \<and> hw_tracker w = T"

lemma openai_balanced_select:
  assumes "openai_balanced he L T acq w"
  shows "selectProviderExcludingOpenAI he rx w = (Inl e, w') \<Longrightarrow> openai_balanced he L T acq w'"
    and "selectProviderExcludingOpenAI he rx w = (Inr (p, t), w') \<Longrightarrow> openai_balanced he L T (if t then p # acq else acq) w'"
proof -
  have ok: "openai_ok he" and loads: "loads_are he L acq (hw_router w)" and T: "hw_tracker w = T"
    using assms by (simp_all add: openai_balanced_def)
  have inv: "openai_inv he w" using ok loads by (simp add: openai_inv_def loads_are_def)
  have both: "case fst (selectProviderExcludingOpenAI he rx w) of
      Inl e \<Rightarrow> openai_balanced he L T acq (snd (selectProviderExcludingOpenAI he rx w))
    | Inr (p, t) \<Rightarrow> openai_balanced he L T (if t then p # acq else acq) (snd (selectProviderExcludingOpenAI he rx w))"
  proof (cases rule: selectProviderExcludingOpenAI_cases [OF inv, where rx = rx, case_names err chosen])
    case (err e r)
    then show ?thesis using ok loads T loads_are_select [OF loads] by (auto simp: openai_balanced_def)
  next
    case (chosen p r)
    then have "loads_are he L acq r" using loads_are_select [OF loads] by blast
    then have "loads_are he L (p # acq) (live_Acquire p (he_routing he) r)" by (rule loads_are_acquire)
    then show ?thesis using ok T by (simp add: openai_balanced_def chosen(1))
  qed
  show "selectProviderExcludingOpenAI he rx w = (Inl e, w') \<Longrightarrow> openai_balanced he L T acq w'" using both by simp
  show "selectProviderExcludingOpenAI he rx w = (Inr (p, t), w') \<Longrightarrow> openai_balanced he L T (if t then p # acq else acq) w'"
    using both by simp
qed

interpretation oab: retry_invariant "openai_ops he" "openai_balanced he L T"
  for he :: "('l, 'r, 'c, 'b) handler_env" and L T
proof unfold_locales
  fix acq rx e p t and w w' :: "('l, 'b) handler_state"
  assume "openai_balanced he L T acq w"
  then show "op_select (openai_ops he) rx w = (Inl e, w') \<Longrightarrow> openai_balanced he L T acq w'"
    and "op_select (openai_ops he) rx w = (Inr (p, t), w') \<Longrightarrow> openai_balanced he L T (if t then p # acq else acq) w'"
    using openai_balanced_select [of he L T acq w rx] by (simp_all split del: if_split)
next
  fix acq p and w :: "('l, 'b) handler_state"
  assume "openai_balanced he L T (p # acq) w"
  then show "openai_balanced he L T acq (op_release (openai_ops he) p w)"
    by (simp add: openai_balanced_def loads_are_release release_provider_def)
qed (simp_all add: openai_balanced_def openai_frames openai_proxy_of_snd selectKeyFromPoolExcluding_tracker)

lemma loads_are_start:
  assumes "cache_ok s" and "(rc_strategy s, rc_timeout s) = routing_key (he_routing he)"
    and "rc_router s = Some (RLeastLoaded r)" and "\<And>n. in_int64 (name_load r n)"
  shows "loads_are he (name_load r) [] s"
  using assms by (simp add: loads_are_def)

lemma loads_are_same:
  assumes "loads_are he (name_load r) [] s" and "\<And>n. in_int64 (name_load r n)"
  shows "\<exists>r'. rc_router s = Some (RLeastLoaded r') \<and> name_load r' = name_load r"
  using assms by (auto simp: loads_are_def fun_eq_iff)

text \<open>
  With retries an OpenAI request leaves every load counter as it was, however it goes; and it leaves the health
  tracker as it was: no outcome of an OpenAI request is reported, so failing OpenAI providers never open
  their circuit breakers although their provider lists ask the tracker for their health.
\<close>

lemma openai_retry_balanced_unreported:
  assumes "openai_ok he" and "cache_ok (hw_router w)"
    and "(rc_strategy (hw_router w), rc_timeout (hw_router w)) = routing_key (he_routing he)"
    and "rc_router (hw_router w) = Some (RLeastLoaded r)" and "\<And>n. in_int64 (name_load r n)"
    and "serveOpenAIWithRetry he cfg body w = (reply, w')"
  shows "(\<exists>r'. rc_router (hw_router w') = Some (RLeastLoaded r') \<and> name_load r' = name_load r) \<and>
    hw_tracker w' = hw_tracker w"
proof -
  have "openai_balanced he (name_load r) (hw_tracker w) [] w"
    using loads_are_start [OF assms(2-5)] assms(1) by (simp add: openai_balanced_def)
  from oab.serveWithRetry_I [OF this assms(6) [unfolded serveOpenAIWithRetry_def]]
  show ?thesis using loads_are_same [OF _ assms(5), of he "hw_router w'"] by (simp add: openai_balanced_def)
qed

section \<open>Without retries\<close>

lemma openai_direct_select_loads:
  "loads_are he L acq (hw_router w) \<Longrightarrow> loads_are he L acq (hw_router (snd (openai_direct_select he oe h w)))"
  using loads_are_select [of he L acq "hw_router w"]
  by (simp add: openai_direct_select_def Let_def split_def split: sum.split option.split)

text \<open>Requests that have chosen their providers and are still on their way: \<open>n\<close> selections one after the other.\<close>

fun openai_in_flight ::
    "('l, 'r, 'c, 'b) handler_env \<Rightarrow> openai_env \<Rightarrow> header \<Rightarrow> nat \<Rightarrow> ('l, 'b) handler_state \<Rightarrow> ('l, 'b) handler_state" where
  "openai_in_flight he oe h 0 w = w"
| "openai_in_flight he oe h (Suc n) w = openai_in_flight he oe h n (snd (openai_direct_select he oe h w))"

lemma openai_in_flight_loads:
  "loads_are he L acq (hw_router w) \<Longrightarrow> loads_are he L acq (hw_router (openai_in_flight he oe h n w))"
  by (induction n arbitrary: w) (simp_all add: openai_direct_select_loads)

text \<open>
  Without retries OpenAI requests are not counted. Whatever number of requests have chosen their provider
  and wait for its answer, every load counter is what it was before the first of them: least loaded sees idle providers, while
  the messages handler acquires the provider of such a request.
\<close>

lemma openai_direct_uncounted:
  assumes "cache_ok (hw_router w)"
    and "(rc_strategy (hw_router w), rc_timeout (hw_router w)) = routing_key (he_routing he)"
    and "rc_router (hw_router w) = Some (RLeastLoaded r)" and "\<And>n. in_int64 (name_load r n)"
  shows "\<exists>r'. rc_router (hw_router (openai_in_flight he oe h n w)) = Some (RLeastLoaded r') \<and> name_load r' = name_load r"
  using loads_are_same [OF openai_in_flight_loads [OF loads_are_start [OF assms]] assms(4)] .

section \<open>Witnesses\<close>

lemma demo_openai_ok: "openai_ok (demo_handler up)"
  using demo_renv_ok demo_provs_facts(3)
  by (auto simp: openai_ok_def demo_handler_def demo_selection_def pooled_provider_def currentKeyPool_def)

lemma openai_never_repeats_witness:
  "\<exists>reply acquired st.
     retry_run (openai_ops (demo_handler (\<lambda>_ _. Some (demo_response 403)))) demo_retry id demo_request demo_state = (reply, acquired, st) \<and>
     spent_once 2 (hw_log (rs_world st)) \<and> never_back (hw_log (rs_world st))"
proof -
  obtain reply acquired st where run:
    "retry_run (openai_ops (demo_handler (\<lambda>_ _. Some (demo_response 403)))) demo_retry id demo_request demo_state = (reply, acquired, st)"
    by (metis prod_cases3)
  have "nat (GetSameKeyRetries demo_retry) + 1 = 2" by (simp add: GetSameKeyRetries_def demo_retry_def)
  then show ?thesis
    using openai_never_repeats [OF demo_openai_ok demo_state_facts(1,2) run] run by (auto simp: numeral_2_eq_2)
qed

lemma openai_retry_balanced_unreported_witness:
  "\<exists>reply w' r'. serveOpenAIWithRetry (demo_handler (\<lambda>_ _. Some (demo_response 500))) demo_retry ''{}'' demo_state = (reply, w') \<and>
     rc_router (hw_router w') = Some (RLeastLoaded r') \<and> name_load r' = name_load Map.empty \<and>
     hw_tracker w' = Some (NewTracker demo_breaker_cfg)"
proof -
  obtain reply w' where run:
    "serveOpenAIWithRetry (demo_handler (\<lambda>_ _. Some (demo_response 500))) demo_retry ''{}'' demo_state = (reply, w')" by fastforce
  show ?thesis
    using openai_retry_balanced_unreported [OF demo_openai_ok demo_state_facts(1,3,4,5) run] run by (auto simp: demo_state_def)
qed

definition demo_openai :: openai_env where
  "demo_openai = \<lparr>oe_show = \<lambda>_. ''error'', oe_show_key = \<lambda>_. ''error'', oe_parse = \<lambda>_. None, oe_responsesAPI = False,
     oe_dec = \<lambda>_. None, oe_enc = \<lambda>_. '''', oe_float = id, oe_mapping = \<lambda>_. []\<rparr>"

lemma openai_direct_uncounted_witness:
  "\<exists>r'. rc_router (hw_router (openai_in_flight (demo_handler (\<lambda>_ _. None)) demo_openai (\<lambda>_. []) 2 demo_state)) = Some (RLeastLoaded r') \<and>
     name_load r' = name_load Map.empty"
  by (rule openai_direct_uncounted [OF demo_state_facts(1,3,4,5)])

end
