(* ===== verification/SSE_Events.thy ===== *)
theory SSE_Events
  imports CR_Prelude
begin

text \<open>
  The events of a stream (\<open>sse_stream.go\<close>): their wire format, the parser, and the loop that forwards them to a client.
  What \<open>ro\<close> does with observers is a parameter only where it shows: an observer is the list of what it was told.
\<close>

section \<open>Events on the wire\<close>

record sse_event =
  ev_Event :: string
  ev_ID :: string
  ev_Data :: string
  ev_Retry :: int

definition empty_event :: sse_event where
  "empty_event = \<lparr>ev_Event = '''', ev_ID = '''', ev_Data = '''', ev_Retry = 0\<rparr>"

abbreviation lf :: char where "lf \<equiv> CHR 10"
abbreviation cr :: char where "cr \<equiv> CHR 13"

fun split_at_lf :: "string \<Rightarrow> string list" where
  "split_at_lf [] = [[]]"
| "split_at_lf (c # s) = (if c = lf then [] # split_at_lf s else (c # hd (split_at_lf s)) # tl (split_at_lf s))"

fun join_with_lf :: "string list \<Rightarrow> string" where
  "join_with_lf [] = []"
| "join_with_lf [l] = l"
| "join_with_lf (l # m # ls) = l @ lf # join_with_lf (m # ls)"

definition event_String :: "sse_event \<Rightarrow> string" where
  "event_String e =
     (if ev_Event e \<noteq> '''' then ''event: '' @ ev_Event e @ [lf] else '''') @
     (if ev_ID e \<noteq> '''' then ''id: '' @ ev_ID e @ [lf] else '''') @
     (if 0 < ev_Retry e then ''retry: '' @ itoa (ev_Retry e) @ [lf] else '''') @
     (if ev_Data e \<noteq> '''' then concat (map (\<lambda>l. ''data: '' @ l @ [lf]) (split_at_lf (ev_Data e))) else '''') @ [lf]"

section \<open>The parser\<close>

text \<open>What the observer is told: events, and at the end that the stream is complete or failed.\<close>

record sse_parser =
  ps_dataLines :: "string list"
  ps_event :: sse_event
  ps_out :: "sse_event list"

definition newSSEParser :: sse_parser where
  "newSSEParser = \<lparr>ps_dataLines = [], ps_event = empty_event, ps_out = []\<rparr>"

definition trimLineEndings :: "string \<Rightarrow> string" where
  "trimLineEndings line =
     (let line = (if line \<noteq> [] \<and> last line = lf then butlast line else line)
      in if line \<noteq> [] \<and> last line = cr then butlast line else line)"

definition emitEventIfReady :: "sse_parser \<Rightarrow> sse_parser" where
  "emitEventIfReady p =
     (if ps_dataLines p = [] then p
      else \<lparr>ps_dataLines = [], ps_event = empty_event,
        ps_out = ps_out p @ [(ps_event p)\<lparr>ev_Data := join_with_lf (ps_dataLines p)\<rparr>]\<rparr>)"

definition splitFieldValue :: "string \<Rightarrow> string \<times> string" where
  "splitFieldValue line =
     (let field = takeWhile (\<lambda>c. c \<noteq> CHR '':'') line; rest = dropWhile (\<lambda>c. c \<noteq> CHR '':'') line
      in case rest of
           [] \<Rightarrow> (line, '''')
         | _ # value \<Rightarrow> (field, if value \<noteq> [] \<and> hd value = CHR '' '' then tl value else value))"

definition setRetry :: "string \<Rightarrow> sse_parser \<Rightarrow> sse_parser" where
  "setRetry value p =
     (case atoi value of Some n \<Rightarrow> p\<lparr>ps_event := (ps_event p)\<lparr>ev_Retry := n\<rparr>\<rparr> | None \<Rightarrow> p)"

definition setField :: "string \<Rightarrow> string \<Rightarrow> sse_parser \<Rightarrow> sse_parser" where
  "setField field value p =
     (if field = ''event'' then p\<lparr>ps_event := (ps_event p)\<lparr>ev_Event := value\<rparr>\<rparr>
      else if field = ''data'' then p\<lparr>ps_dataLines := ps_dataLines p @ [value]\<rparr>
      else if field = ''id'' then p\<lparr>ps_event := (ps_event p)\<lparr>ev_ID := value\<rparr>\<rparr>
      else if field = ''retry'' then setRetry value p else p)"

definition isComment :: "string \<Rightarrow> bool" where
  "isComment line \<longleftrightarrow> line \<noteq> [] \<and> hd line = CHR '':''"

definition parseField :: "string \<Rightarrow> sse_parser \<Rightarrow> sse_parser" where
  "parseField line p = (if isComment line then p else case splitFieldValue line of (field, value) \<Rightarrow> setField field value p)"

definition processLine :: "string \<Rightarrow> sse_parser \<Rightarrow> sse_parser" where
  "processLine line p =
     (if line = [] then p
      else let line = trimLineEndings line in if line = [] then emitEventIfReady p else parseField line p)"

text \<open>\<open>ReadBytes\<close> until the end: the lines with their ends, and what is left behind the last of them.\<close>

fun read_lines :: "string \<Rightarrow> string list" where
  "read_lines [] = [[]]"
| "read_lines (c # s) =
     (if c = lf then [lf] # read_lines s else (c # hd (read_lines s)) # tl (read_lines s))"

definition parseStream :: "string \<Rightarrow> sse_parser \<Rightarrow> sse_parser" where
  "parseStream body p = emitEventIfReady (fold processLine (read_lines body) p)"

text \<open>A body and the error its reader ends with, \<^term>\<open>None\<close> for the end of the file.\<close>

definition StreamSSE :: "string \<Rightarrow> go_error option \<Rightarrow> sse_event list \<times> go_error option" where
  "StreamSSE body err = (ps_out (parseStream body newSSEParser), err)"

section \<open>Operators\<close>

definition FilterEvents :: "string \<Rightarrow> sse_event list \<Rightarrow> sse_event list" where
  "FilterEvents eventType = filter (\<lambda>e. ev_Event e = eventType)"

definition FilterEventsByPrefix :: "string \<Rightarrow> sse_event list \<Rightarrow> sse_event list" where
  "FilterEventsByPrefix prefix = filter (\<lambda>e. take (length prefix) (ev_Event e) = prefix)"

definition MapEventData :: "(string \<Rightarrow> string) \<Rightarrow> sse_event list \<Rightarrow> sse_event list" where
  "MapEventData mapper = map (\<lambda>e. e\<lparr>ev_Data := mapper (ev_Data e)\<rparr>)"

section \<open>Forwarding\<close>

text \<open>
  The channel of errors has room for one value and nobody reads it before the stream has ended: a second send blocks
  for ever. \<open>wr\<close> is what the writes to the client give, in order; the result is \<^term>\<open>None\<close> when the call does not return.
  A closed channel that is empty gives nil.
\<close>

datatype err_chan = Room | Full "go_error option"

fun forward_events :: "(nat \<Rightarrow> go_error option) \<Rightarrow> nat \<Rightarrow> sse_event list \<Rightarrow> err_chan \<Rightarrow> string list \<Rightarrow> (err_chan \<times> string list) option" where
  "forward_events wr i [] ch out = Some (ch, out)"
| "forward_events wr i (e # es) ch out =
     (case wr i of
        None \<Rightarrow> forward_events wr (Suc i) es ch (out @ [event_String e])
      | Some err \<Rightarrow>
          (case ch of Room \<Rightarrow> forward_events wr (Suc i) es (Full (Some err)) out | Full x \<Rightarrow> None))"

definition ErrNotFlushable :: go_error where
  "ErrNotFlushable = Sentinel ''sse: ResponseWriter does not implement http.Flusher''"

definition ForwardSSE ::
    "bool \<Rightarrow> (nat \<Rightarrow> go_error option) \<Rightarrow> sse_event list \<times> go_error option \<Rightarrow> (go_error option \<times> string list) option" where
  "ForwardSSE flushable wr stream =
     (if \<not> flushable then Some (Some ErrNotFlushable, [])
      else case forward_events wr 0 (fst stream) Room [] of
             None \<Rightarrow> None
           | Some (ch, out) \<Rightarrow>
               (case (ch, snd stream) of
                  (Room, None) \<Rightarrow> Some (None, out)
                | (Room, Some err) \<Rightarrow> Some (Some err, out)
                | (Full e, None) \<Rightarrow> Some (e, out)
                | (Full e, Some err) \<Rightarrow> None))"

definition WriteSSEEvent :: "bool \<Rightarrow> go_error option \<Rightarrow> sse_event \<Rightarrow> go_error option" where
  "WriteSSEEvent flushable written event = (if \<not> flushable then Some ErrNotFlushable else written)"

end
