(* ===== verification/SSE_Events_Facts.thy ===== *)
theory SSE_Events_Facts
  imports SSE_Events
begin

text \<open>
  The parser reads back what events wr; where it departs from the specification of server-sent events; and when
  forwarding does not return.
\<close>

section \<open>Lines\<close>

lemma split_at_lf_ne [simp]: "split_at_lf s \<noteq> []"
  by (induction s) auto

lemma split_at_lf_lines: "l \<in> set (split_at_lf s) \<Longrightarrow> lf \<notin> set l"
proof (induction s arbitrary: l)
  case (Cons c s)
  then show ?case by (cases "split_at_lf s") (auto split: if_splits)
qed simp

lemma join_with_lf_Cons: "ls \<noteq> [] \<Longrightarrow> join_with_lf (l # ls) = l @ lf # join_with_lf ls"
  by (cases ls) auto

lemma join_with_lf_push: "ls \<noteq> [] \<Longrightarrow> join_with_lf ((c # hd ls) # tl ls) = c # join_with_lf ls"
  by (cases ls rule: join_with_lf.cases) auto

lemma join_split_at_lf [simp]: "join_with_lf (split_at_lf s) = s"
  by (induction s) (auto simp: join_with_lf_Cons join_with_lf_push)

lemma read_lines_ne [simp]: "read_lines s \<noteq> []"
  by (induction s) auto

lemma read_lines_line: "lf \<notin> set l \<Longrightarrow> read_lines (l @ lf # s) = (l @ [lf]) # read_lines s"
  by (induction l) auto

text \<open>The lines of a text are read one after the other.\<close>

lemma fold_line:
  "lf \<notin> set l \<Longrightarrow> fold processLine (read_lines (l @ lf # s)) p = fold processLine (read_lines s) (processLine (l @ [lf]) p)"
  by (simp add: read_lines_line)

definition line_ok :: "string \<Rightarrow> bool" where
  "line_ok l \<longleftrightarrow> lf \<notin> set l \<and> (l \<noteq> [] \<longrightarrow> last l \<noteq> cr)"

lemma trim_line: "line_ok l \<Longrightarrow> trimLineEndings (l @ [lf]) = l"
  by (auto simp: trimLineEndings_def line_ok_def)

definition field_name :: "string \<Rightarrow> bool" where
  "field_name f \<longleftrightarrow> f \<noteq> [] \<and> CHR '':'' \<notin> set f \<and> lf \<notin> set f"

lemma splitFieldValue_written: "field_name f \<Longrightarrow> splitFieldValue (f @ '': '' @ v) = (f, v)"
proof -
  assume "field_name f"
  then have "takeWhile (\<lambda>c. c \<noteq> CHR '':'') (f @ '': '' @ v) = f" "dropWhile (\<lambda>c. c \<noteq> CHR '':'') (f @ '': '' @ v) = '': '' @ v"
    by (auto simp: field_name_def takeWhile_append dropWhile_append)
  then show ?thesis by (simp add: splitFieldValue_def)
qed

lemma processLine_field:
  assumes "field_name f" and "line_ok v"
  shows "processLine (f @ '': '' @ v @ [lf]) p = setField f v p"
proof -
  have ok: "line_ok (f @ '': '' @ v)" using assms by (auto simp: line_ok_def field_name_def)
  have "\<not> isComment (f @ '': '' @ v)" using assms(1) by (cases f) (auto simp: isComment_def field_name_def)
  then show ?thesis
    using trim_line [OF ok] splitFieldValue_written [OF assms(1), of v] by (simp add: processLine_def Let_def parseField_def)
qed

lemma fold_field:
  assumes "field_name f" and "line_ok v"
  shows "fold processLine (read_lines (f @ '': '' @ v @ lf # s)) p = fold processLine (read_lines s) (setField f v p)"
  using fold_line [of "f @ '': '' @ v" s p] processLine_field [OF assms, of p] assms by (auto simp: line_ok_def field_name_def)

lemma field_names [simp]: "field_name ''event''" "field_name ''id''" "field_name ''retry''" "field_name ''data''"
  by (simp_all add: field_name_def)

lemma fold_blank:
  "fold processLine (read_lines (lf # s)) p = fold processLine (read_lines s) (emitEventIfReady p)"
  by (simp add: processLine_def trimLineEndings_def)

lemma fold_data_lines:
  assumes "\<forall>l \<in> set ls. line_ok l"
  shows "fold processLine (read_lines (concat (map (\<lambda>l. ''data: '' @ l @ [lf]) ls) @ s)) p =
    fold processLine (read_lines s) (p\<lparr>ps_dataLines := ps_dataLines p @ ls\<rparr>)"
  using assms
proof (induction ls arbitrary: p)
  case (Cons l ls)
  have "fold processLine (read_lines (''data'' @ '': '' @ l @ lf # concat (map (\<lambda>l. ''data: '' @ l @ [lf]) ls) @ s)) p =
      fold processLine (read_lines (concat (map (\<lambda>l. ''data: '' @ l @ [lf]) ls) @ s)) (setField ''data'' l p)"
    by (rule fold_field) (use Cons.prems in simp_all)
  with Cons show ?case by (simp add: setField_def)
qed simp

section \<open>The round trip\<close>

text \<open>
  What an event must be to survive: data, no line ends in its fields, no carriage return at the end of a line, and a
  retry time that is an \<open>int\<close>.
\<close>

definition event_ok :: "sse_event \<Rightarrow> bool" where
  "event_ok e \<longleftrightarrow> line_ok (ev_Event e) \<and> line_ok (ev_ID e) \<and> ev_Data e \<noteq> '''' \<and> (\<forall>l \<in> set (split_at_lf (ev_Data e)). line_ok l) \<and>
     0 \<le> ev_Retry e \<and> in_int64 (ev_Retry e)"

lemma itoa_line: "0 \<le> i \<Longrightarrow> line_ok (itoa i)"
proof -
  assume "0 \<le> i"
  then have "list_all is_digit (itoa i)" by (simp add: itoa_def nat_digits_digits)
  moreover have "\<not> is_digit lf" "\<not> is_digit cr" by (simp_all add: is_digit_def)
  ultimately show ?thesis unfolding line_ok_def list_all_iff by (metis last_in_set)
qed

lemma fold_opt_field:
  assumes "field_name f" and "line_ok v"
  shows "fold processLine (read_lines ((if v \<noteq> '''' then f @ '': '' @ v @ [lf] else '''') @ s)) p =
    fold processLine (read_lines s) (if v \<noteq> '''' then setField f v p else p)"
  using fold_field [OF assms, of s p] by simp

lemma parse_event:
  assumes "event_ok e"
  shows "fold processLine (read_lines (event_String e @ s)) (newSSEParser\<lparr>ps_out := out\<rparr>) =
    fold processLine (read_lines s) (newSSEParser\<lparr>ps_out := out @ [e]\<rparr>)"
proof -
  have ok: "line_ok (ev_Event e)" "line_ok (ev_ID e)" "ev_Data e \<noteq> ''''" "\<forall>l \<in> set (split_at_lf (ev_Data e)). line_ok l"
    "0 \<le> ev_Retry e" "in_int64 (ev_Retry e)"
    using assms by (auto simp: event_ok_def)
  let ?data = "concat (map (\<lambda>l. ''data: '' @ l @ [lf]) (split_at_lf (ev_Data e))) @ lf # s"
  let ?retry = "(if 0 < ev_Retry e then ''retry: '' @ itoa (ev_Retry e) @ [lf] else '''') @ ?data"
  let ?id = "(if ev_ID e \<noteq> '''' then ''id'' @ '': '' @ ev_ID e @ [lf] else '''') @ ?retry"
  define p0 where "p0 = newSSEParser\<lparr>ps_out := out\<rparr>"
  define p1 where "p1 = p0\<lparr>ps_event := (ps_event p0)\<lparr>ev_Event := ev_Event e\<rparr>\<rparr>"
  define p2 where "p2 = p1\<lparr>ps_event := (ps_event p1)\<lparr>ev_ID := ev_ID e\<rparr>\<rparr>"
  define p3 where "p3 = p2\<lparr>ps_event := (ps_event p2)\<lparr>ev_Retry := ev_Retry e\<rparr>\<rparr>"
  have start: "event_String e @ s = (if ev_Event e \<noteq> '''' then ''event'' @ '': '' @ ev_Event e @ [lf] else '''') @ ?id"
    using ok(3) by (simp add: event_String_def)
  have s1: "fold processLine (read_lines (event_String e @ s)) p0 = fold processLine (read_lines ?id) p1"
    unfolding start fold_opt_field [OF field_names(1) ok(1)]
    by (rule arg_cong [of _ _ "fold processLine (read_lines ?id)"]) (simp add: p1_def p0_def setField_def newSSEParser_def empty_event_def)
  have s2: "fold processLine (read_lines ?id) p1 = fold processLine (read_lines ?retry) p2"
    unfolding fold_opt_field [OF field_names(2) ok(2)]
    by (rule arg_cong [of _ _ "fold processLine (read_lines ?retry)"])
      (simp add: p2_def p1_def p0_def setField_def newSSEParser_def empty_event_def)
  have s3: "fold processLine (read_lines ?retry) p2 = fold processLine (read_lines ?data) p3"
  proof (cases "0 < ev_Retry e")
    case True
    have "fold processLine (read_lines (''retry'' @ '': '' @ itoa (ev_Retry e) @ lf # ?data)) p2 =
        fold processLine (read_lines ?data) (setField ''retry'' (itoa (ev_Retry e)) p2)"
      by (rule fold_field [OF field_names(3) itoa_line [OF ok(5)]])
    moreover have "setField ''retry'' (itoa (ev_Retry e)) p2 = p3"
      by (simp add: setField_def setRetry_def atoi_itoa [OF ok(6)] p3_def)
    ultimately show ?thesis using True by simp
  next
    case False
    then have "p3 = p2" using ok(5) by (simp add: p3_def p2_def p1_def p0_def newSSEParser_def empty_event_def)
    then show ?thesis using False by simp
  qed
  have "fold processLine (read_lines ?data) p3 =
      fold processLine (read_lines s) (emitEventIfReady (p3\<lparr>ps_dataLines := ps_dataLines p3 @ split_at_lf (ev_Data e)\<rparr>))"
    unfolding fold_data_lines [OF ok(4)] by (rule fold_blank)
  moreover have "emitEventIfReady (p3\<lparr>ps_dataLines := ps_dataLines p3 @ split_at_lf (ev_Data e)\<rparr>) = newSSEParser\<lparr>ps_out := out @ [e]\<rparr>"
    by (simp add: emitEventIfReady_def p3_def p2_def p1_def p0_def newSSEParser_def empty_event_def)
  ultimately show ?thesis using s1 s2 s3 by (simp add: p0_def)
qed

lemma parse_events:
  assumes "\<forall>e \<in> set es. event_ok e"
  shows "fold processLine (read_lines (concat (map event_String es) @ s)) (newSSEParser\<lparr>ps_out := out\<rparr>) =
    fold processLine (read_lines s) (newSSEParser\<lparr>ps_out := out @ es\<rparr>)"
  using assms
proof (induction es arbitrary: out)
  case (Cons e es)
  then show ?case using parse_event [of e "concat (map event_String es) @ s" out] by simp
qed simp

text \<open>
  C37: What \<open>String\<close> writes \<open>StreamSSE\<close> reads back: a stream of events, each with data, with fields free of line ends and
  lines that do not end with a carriage return, is parsed to exactly these events, in their order, with their data,
  types, identifiers and retry times.
\<close>

lemma sse_roundtrip:
  assumes "\<forall>e \<in> set es. event_ok e"
  shows "StreamSSE (concat (map event_String es)) err = (es, err)"
proof -
  have "fold processLine (read_lines (concat (map event_String es))) newSSEParser = newSSEParser\<lparr>ps_out := es\<rparr>"
    using parse_events [OF assms, of "[]" "[]"] by (simp add: newSSEParser_def processLine_def)
  then show ?thesis by (simp add: StreamSSE_def parseStream_def emitEventIfReady_def newSSEParser_def)
qed

section \<open>Departures\<close>

text \<open>
  The type of an event without data is taken over by the next event. The specification the parser refers to drops such
  an event with its type; here it stays behind, so the following data arrive under a type of another event.
\<close>

lemma sse_type_leaks:
  assumes "line_ok t" and "t \<noteq> ''''" and "d \<noteq> ''''" and "\<forall>l \<in> set (split_at_lf d). line_ok l"
  shows "fst (StreamSSE (event_String (empty_event\<lparr>ev_Event := t\<rparr>) @ event_String (empty_event\<lparr>ev_Data := d\<rparr>)) err) =
    [empty_event\<lparr>ev_Event := t, ev_Data := d\<rparr>]"
proof -
  let ?d = "concat (map (\<lambda>l. ''data: '' @ l @ [lf]) (split_at_lf d)) @ [lf]"
  have w: "event_String (empty_event\<lparr>ev_Event := t\<rparr>) @ event_String (empty_event\<lparr>ev_Data := d\<rparr>) = ''event'' @ '': '' @ t @ lf # lf # ?d"
    using assms(2,3) by (simp add: event_String_def empty_event_def)
  let ?p = "newSSEParser\<lparr>ps_event := empty_event\<lparr>ev_Event := t\<rparr>\<rparr>"
  have "fold processLine (read_lines (''event'' @ '': '' @ t @ lf # lf # ?d)) newSSEParser = fold processLine (read_lines (lf # ?d)) ?p"
    unfolding fold_field [OF field_names(1) assms(1)] by (simp add: setField_def newSSEParser_def)
  also have "\<dots> = fold processLine (read_lines ?d) ?p"
    unfolding fold_blank by (simp add: emitEventIfReady_def newSSEParser_def)
  also have "\<dots> = emitEventIfReady (?p\<lparr>ps_dataLines := split_at_lf d\<rparr>)"
    unfolding fold_data_lines [OF assms(4)] fold_blank by (simp add: newSSEParser_def processLine_def)
  finally show ?thesis
    unfolding w by (simp add: StreamSSE_def parseStream_def emitEventIfReady_def newSSEParser_def empty_event_def)
qed

lemma forward_stuck: "wr j = Some e \<Longrightarrow> i \<le> j \<Longrightarrow> j < i + length es \<Longrightarrow> forward_events wr i es (Full x) out = None"
proof (induction es arbitrary: i out)
  case (Cons e es)
  then show ?case by (cases "i = j") (auto split: option.split)
qed simp

lemma forward_none:
  assumes "wr j = Some e" and "wr k = Some f" and "i \<le> j" and "j < k" and "k < i + length es"
  shows "forward_events wr i es Room out = None"
  using assms(3-5)
proof (induction es arbitrary: i out)
  case (Cons x es)
  show ?case
  proof (cases "wr i")
    case None
    then have "i \<noteq> j" using assms(1) by auto
    then show ?thesis using Cons None by simp
  next
    case (Some y)
    have "i = j \<or> Suc i \<le> j" using Cons.prems(1) by auto
    then show ?thesis
      using Some Cons.prems forward_stuck [of wr k f "Suc i" es "Some y" out, OF assms(2)]
      by auto
  qed
qed simp

text \<open>
  Forwarding does not return when two writes to the client fail. A client that goes away makes every later wr
  fail; the second error finds the channel full and nobody who reads it, so the goroutine of the request stays for ever.
\<close>

lemma forward_blocks:
  assumes "wr j = Some e" and "wr k = Some f" and "j < k" and "k < length (fst stream)"
  shows "ForwardSSE True wr stream = None"
  using forward_none [of wr j e k f 0 "fst stream" "[]", OF assms(1,2)] assms(3,4) by (simp add: ForwardSSE_def)

lemma forward_all:
  "(\<And>i. wr i = None) \<Longrightarrow> forward_events wr i es ch out = Some (ch, out @ map event_String es)"
  by (induction es arbitrary: i out) auto

lemma forward_faithful:
  assumes "\<And>i. wr i = None"
  shows "ForwardSSE True wr (es, err) = Some (err, map event_String es)"
  by (simp add: ForwardSSE_def forward_all [OF assms] split: option.split)

section \<open>Witnesses\<close>

definition demo_event :: sse_event where
  "demo_event = \<lparr>ev_Event = ''m'', ev_ID = '''', ev_Data = [CHR ''a'', lf, CHR ''b''], ev_Retry = 0\<rparr>"

lemma sse_roundtrip_witness: "StreamSSE (concat (map event_String [demo_event, demo_event])) None = ([demo_event, demo_event], None)"
  by (rule sse_roundtrip) (simp add: event_ok_def demo_event_def line_ok_def in_int64_def)

lemma sse_type_leaks_witness:
  "fst (StreamSSE (event_String (empty_event\<lparr>ev_Event := ''m''\<rparr>) @ event_String (empty_event\<lparr>ev_Data := ''x''\<rparr>)) None) =
    [empty_event\<lparr>ev_Event := ''m'', ev_Data := ''x''\<rparr>]"
  by (rule sse_type_leaks) (simp_all add: line_ok_def)

lemma forward_blocks_witness:
  "ForwardSSE True (\<lambda>i. Some (OtherError ''broken pipe'')) ([demo_event, demo_event], None) = None"
  by (rule forward_blocks [of _ 0 _ 1]) simp_all

end
