(* ===== verification/Stream_Converter.thy ===== *)
theory Stream_Converter
  imports Request_Prep
begin

text \<open>
  Chat completion chunks turned into events of the responses API (\<open>responses_sse.go\<close>, with the output types of
  \<open>responses_types.go\<close>). The parser of \<open>encoding/json\<close>, the clock, the identifiers and what the writes to the client give are
  arguments.
\<close>

section \<open>Output\<close>

record function_call =
  fc_Name :: string
  fc_Arguments :: string
  fc_CallID :: string

text \<open>A part of the content is its type and its text; a message its role and parts.\<close>

record output_item =
  oi_ID :: string
  oi_Type :: string
  oi_Message :: "(string \<times> (string \<times> string) list) option"
  oi_FunctionCall :: "function_call option"

definition part_json :: "string \<times> string \<Rightarrow> json" where
  "part_json p = JObj [(''type'', JStr (fst p)), (''text'', JStr (snd p))]"

text \<open>\<open>MarshalJSON\<close>: \<^term>\<open>None\<close> is an error.\<close>

definition OutputItem_MarshalJSON :: "output_item \<Rightarrow> json option" where
  "OutputItem_MarshalJSON o' =
     (if oi_Type o' = ''message''
      then (case oi_Message o' of
              None \<Rightarrow> None
            | Some (role, content) \<Rightarrow>
                Some (JObj [(''id'', JStr (oi_ID o')), (''type'', JStr (oi_Type o')),
                  (''message'', JObj [(''role'', JStr role), (''content'', JArr (map part_json content))])]))
      else if oi_Type o' = ''function_call''
      then (case oi_FunctionCall o' of
              None \<Rightarrow> None
            | Some fc \<Rightarrow>
                Some (JObj [(''id'', JStr (oi_ID o')), (''type'', JStr (oi_Type o')),
                  (''function_call'', JObj ([(''name'', JStr (fc_Name fc)), (''arguments'', JStr (fc_Arguments fc))] @
                     (if fc_CallID fc = '''' then [] else [(''call_id'', JStr (fc_CallID fc))])))]))
      else Some (JObj [(''id'', JStr (oi_ID o')), (''type'', JStr (oi_Type o'))]))"

record responses_response =
  rr_ID :: string
  rr_CreatedAt :: int
  rr_Model :: string
  rr_Status :: string
  rr_Output :: "output_item list"
  rr_Usage :: "int \<times> int \<times> int"

definition usage_json :: "int \<times> int \<times> int \<Rightarrow> json" where
  "usage_json u = JObj [(''input_tokens'', JNum (itoa (fst u))), (''output_tokens'', JNum (itoa (fst (snd u)))),
     (''total_tokens'', JNum (itoa (snd (snd u))))]"

definition response_json :: "responses_response \<Rightarrow> json option" where
  "response_json r =
     map_option (\<lambda>items. JObj [(''id'', JStr (rr_ID r)), (''object'', JStr ''response''), (''created_at'', JNum (itoa (rr_CreatedAt r))),
         (''model'', JStr (rr_Model r)), (''status'', JStr (rr_Status r)), (''output'', JArr items), (''usage'', usage_json (rr_Usage r))])
       (those (map OutputItem_MarshalJSON (rr_Output r)))"

section \<open>The converter\<close>

record stream_converter =
  sc_responseID :: string
  sc_outputItems :: "output_item list"
  sc_currentItem :: "output_item option"
  sc_contentBuffer :: string
  sc_completed :: bool
  sc_created :: bool
  sc_model :: string
  sc_writes :: nat
  sc_out :: "string list"

text \<open>
  \<open>ce_now\<close> and \<open>ce_id\<close> are the clock and the fresh identifiers, by the number of writes before; \<open>ce_write\<close> is what each
  write gives, and \<open>ce_nil\<close> that there is no writer. \<open>sc_out\<close> are the texts written.
\<close>

record conv_env =
  ce_dec :: "string \<Rightarrow> json option"
  ce_now :: "nat \<Rightarrow> int"
  ce_id :: "nat \<Rightarrow> string"
  ce_write :: "nat \<Rightarrow> go_error option"
  ce_nil :: bool

definition NewStreamConverter :: "string \<Rightarrow> stream_converter" where
  "NewStreamConverter responseID =
     \<lparr>sc_responseID = responseID, sc_outputItems = [], sc_currentItem = None, sc_contentBuffer = '''', sc_completed = False,
      sc_created = False, sc_model = '''', sc_writes = 0, sc_out = []\<rparr>"

definition converter_Reset :: "string \<Rightarrow> stream_converter \<Rightarrow> stream_converter" where
  "converter_Reset responseID sc =
     (NewStreamConverter responseID)\<lparr>sc_writes := sc_writes sc, sc_out := sc_out sc\<rparr>"

text \<open>A step gives an error or nil; the next one follows when it gave none.\<close>

type_synonym conv_step = "stream_converter \<Rightarrow> go_error option \<times> stream_converter"

definition then_do :: "conv_step \<Rightarrow> conv_step \<Rightarrow> conv_step" where
  "then_do f g sc = (case f sc of (Some e, sc) \<Rightarrow> (Some e, sc) | (None, sc) \<Rightarrow> g sc)"

fun all_do :: "conv_step list \<Rightarrow> conv_step" where
  "all_do [] = (\<lambda>sc. (None, sc))"
| "all_do (f # fs) = then_do f (all_do fs)"

definition fprintf :: "conv_env \<Rightarrow> string \<Rightarrow> conv_step" where
  "fprintf ce txt sc =
     (let sc' = sc\<lparr>sc_writes := Suc (sc_writes sc)\<rparr>
      in case ce_write ce (sc_writes sc) of
           Some e \<Rightarrow> (Some e, sc') | None \<Rightarrow> (None, sc'\<lparr>sc_out := sc_out sc @ [txt]\<rparr>))"

definition emitSSEEvent :: "conv_env \<Rightarrow> string \<Rightarrow> json option \<Rightarrow> conv_step" where
  "emitSSEEvent ce eventType data =
     (if ce_nil ce then (\<lambda>sc. (Some (OtherError ''stream converter: event writer is nil''), sc))
      else then_do (fprintf ce (''event: '' @ eventType @ [CHR 10]))
             (case data of
                None \<Rightarrow> (\<lambda>sc. (Some (OtherError ''json''), sc))
              | Some d \<Rightarrow> fprintf ce (''data: '' @ json_text d @ [CHR 10, CHR 10])))"

definition emit :: "conv_env \<Rightarrow> string \<Rightarrow> (string \<times> json) list \<Rightarrow> conv_step" where
  "emit ce eventType ms = emitSSEEvent ce eventType (Some (json_map ((''type'', JStr eventType) # ms)))"

definition emit_response :: "conv_env \<Rightarrow> string \<Rightarrow> responses_response \<Rightarrow> conv_step" where
  "emit_response ce eventType resp =
     emitSSEEvent ce eventType
       (map_option (\<lambda>r. json_map [(''type'', JStr eventType), (''response'', r)]) (response_json resp))"

definition emitCreatedAndInProgressEvents :: "conv_env \<Rightarrow> conv_step" where
  "emitCreatedAndInProgressEvents ce sc =
     (let resp = \<lparr>rr_ID = sc_responseID sc, rr_CreatedAt = ce_now ce (sc_writes sc), rr_Model = sc_model sc,
            rr_Status = ''in_progress'', rr_Output = [], rr_Usage = (0, 0, 0)\<rparr>
      in then_do (emit_response ce ''response.created'' resp) (emit_response ce ''response.in_progress'' resp) sc)"

definition text_part :: "string \<Rightarrow> json" where
  "text_part text = JArr [part_json (''output_text'', text)]"

definition emitContentDelta :: "conv_env \<Rightarrow> string \<Rightarrow> conv_step" where
  "emitContentDelta ce content =
     then_do
       (\<lambda>sc. if sc_currentItem sc \<noteq> None then (None, sc)
          else let itemID = ce_id ce (sc_writes sc);
                   item = \<lparr>oi_ID = itemID, oi_Type = ''message'', oi_Message = Some (''assistant'', [(''output_text'', '''')]),
                     oi_FunctionCall = None\<rparr>
               in emit ce ''response.output_item.added''
                    [(''item'', json_map [(''type'', JStr ''message''), (''role'', JStr ''assistant''), (''id'', JStr itemID),
                       (''content'', text_part '''')])]
                    (sc\<lparr>sc_currentItem := Some item, sc_outputItems := sc_outputItems sc @ [item]\<rparr>))
       (\<lambda>sc. emit ce ''response.output_text.delta'' [(''delta'', JStr content)]
          (sc\<lparr>sc_contentBuffer := sc_contentBuffer sc @ content\<rparr>))"

text \<open>
  \<open>v[k]\<close> for a decoded object, and a type assertion to \<open>string\<close> that falls back to the empty one.
\<close>

definition any_get :: "json \<Rightarrow> string \<Rightarrow> json option" where
  "any_get v k = (case v of JObj ms \<Rightarrow> map_of (rev ms) k | _ \<Rightarrow> None)"

definition any_string :: "json option \<Rightarrow> string" where
  "any_string v = (case v of Some (JStr s) \<Rightarrow> s | _ \<Rightarrow> '''')"

definition any_list :: "json option \<Rightarrow> json list" where
  "any_list v = (case v of Some (JArr xs) \<Rightarrow> xs | _ \<Rightarrow> [])"

definition function_json :: "output_item \<Rightarrow> function_call \<Rightarrow> (string \<times> json) list \<Rightarrow> json" where
  "function_json item fc rest = json_map ([(''type'', JStr ''function_call''), (''id'', JStr (oi_ID item)),
     (''call_id'', JStr (fc_CallID fc)), (''name'', JStr (fc_Name fc)), (''arguments'', JStr (fc_Arguments fc))] @ rest)"

definition tool_call_delta :: "conv_env \<Rightarrow> json \<Rightarrow> conv_step" where
  "tool_call_delta ce tc =
     (case tc of
        JObj _ \<Rightarrow>
          (let callID = any_string (any_get tc ''id'');
               fn = (case any_get tc ''function'' of Some f \<Rightarrow> f | None \<Rightarrow> JNull);
               argsDelta = any_string (any_get fn ''arguments'')
           in then_do
                (\<lambda>sc. if callID = '''' then (None, sc)
                   else let fc = \<lparr>fc_Name = any_string (any_get fn ''name''), fc_Arguments = '''', fc_CallID = callID\<rparr>;
                            item = \<lparr>oi_ID = callID, oi_Type = ''function_call'', oi_Message = None, oi_FunctionCall = Some fc\<rparr>
                        in emit ce ''response.output_item.added'' [(''item'', function_json item fc [])]
                             (sc\<lparr>sc_outputItems := sc_outputItems sc @ [item]\<rparr>))
                (if argsDelta = '''' then (\<lambda>sc. (None, sc))
                 else emit ce ''response.function_call_arguments.delta''
                   [(''item_id'', JStr callID), (''delta'', JStr argsDelta)]))
      | _ \<Rightarrow> (\<lambda>sc. (None, sc)))"

definition handleToolCallsDelta :: "conv_env \<Rightarrow> json list \<Rightarrow> conv_step" where
  "handleToolCallsDelta ce toolCalls = all_do (map (tool_call_delta ce) toolCalls)"

definition emit_text_done :: "conv_env \<Rightarrow> conv_step" where
  "emit_text_done ce sc =
     (case sc_currentItem sc of
        None \<Rightarrow> (None, sc)
      | Some item \<Rightarrow>
          then_do (emit ce ''response.output_text.done'' [(''text'', JStr (sc_contentBuffer sc))])
            (emit ce ''response.output_item.done''
               [(''item'', json_map [(''type'', JStr ''message''), (''role'', JStr ''assistant''), (''id'', JStr (oi_ID item)),
                  (''content'', text_part (sc_contentBuffer sc)), (''status'', JStr ''completed'')])]) sc)"

definition function_done :: "conv_env \<Rightarrow> output_item \<Rightarrow> conv_step" where
  "function_done ce item =
     (if oi_Type item = ''function_call''
      then (case oi_FunctionCall item of
              None \<Rightarrow> (\<lambda>sc. (Some (GoPanic ''nil pointer''), sc))
            | Some fc \<Rightarrow> emit ce ''response.output_item.done'' [(''item'', function_json item fc [(''status'', JStr ''completed'')])])
      else (\<lambda>sc. (None, sc)))"

definition emit_completed :: "conv_env \<Rightarrow> string \<Rightarrow> conv_step" where
  "emit_completed ce status sc =
     emit_response ce ''response.completed''
       \<lparr>rr_ID = sc_responseID sc, rr_CreatedAt = ce_now ce (sc_writes sc), rr_Model = sc_model sc, rr_Status = status,
        rr_Output = sc_outputItems sc, rr_Usage = (0, 0, 0)\<rparr> (sc\<lparr>sc_completed := True\<rparr>)"

definition emitFinishEvents :: "conv_env \<Rightarrow> string \<Rightarrow> conv_step" where
  "emitFinishEvents ce finishReason =
     (let status = (if finishReason = ''length'' then ''incomplete'' else ''completed'')
      in then_do (emit_text_done ce)
           (then_do (\<lambda>sc. all_do (map (function_done ce) (sc_outputItems sc)) sc) (emit_completed ce status)))"

definition emitCompletedEvent :: "conv_env \<Rightarrow> conv_step" where
  "emitCompletedEvent ce sc =
     (if sc_completed sc then (None, sc) else then_do (emit_text_done ce) (emit_completed ce ''completed'') sc)"

definition choice_of :: "(string \<times> json) list \<Rightarrow> (string \<times> json) list option" where
  "choice_of chunk = (case any_list (map_of chunk ''choices'') of JObj ms # _ \<Rightarrow> Some ms | _ \<Rightarrow> None)"

definition delta_steps :: "conv_env \<Rightarrow> json \<Rightarrow> conv_step" where
  "delta_steps ce delta =
     (let content = any_string (any_get delta ''content'')
      in then_do (if content = '''' then (\<lambda>sc. (None, sc)) else emitContentDelta ce content)
           (handleToolCallsDelta ce (any_list (any_get delta ''tool_calls''))))"

definition choice_steps :: "conv_env \<Rightarrow> (string \<times> json) list \<Rightarrow> conv_step" where
  "choice_steps ce choice =
     (let finishReason = any_string (any_get (JObj choice) ''finish_reason'')
      in then_do
           (case any_get (JObj choice) ''delta'' of
              Some (JObj ms) \<Rightarrow> delta_steps ce (JObj ms) | _ \<Rightarrow> (\<lambda>sc. (None, sc)))
           (if finishReason = '''' then (\<lambda>sc. (None, sc)) else emitFinishEvents ce finishReason))"

text \<open>A chunk of seven bytes passes the guard, and the slice of its data has its end before its start.\<close>

definition ProcessChunk :: "conv_env \<Rightarrow> string \<Rightarrow> conv_step" where
  "ProcessChunk ce chunkData sc =
     (if sc_completed sc then (None, sc)
      else if length chunkData < 7 \<or> take 6 chunkData \<noteq> ''data: '' then (Some (OtherError ''invalid SSE chunk format''), sc)
      else if length chunkData < 8 then (Some (GoPanic ''slice bounds out of range''), sc)
      else let jsonData = take (length chunkData - 8) (drop 6 chunkData)
           in if jsonData = ''[DONE]'' then emitCompletedEvent ce sc
              else case any_map (ce_dec ce) jsonData of
                     None \<Rightarrow> (Some (Wrapped ''failed to parse SSE chunk'' (OtherError ''json'')), sc)
                   | Some chunk \<Rightarrow>
                       (let sc = (if sc_model sc = '''' then sc\<lparr>sc_model := any_string (map_of chunk ''model'')\<rparr> else sc)
                        in then_do
                             (\<lambda>sc. if sc_created sc then (None, sc)
                                else then_do (emitCreatedAndInProgressEvents ce) (\<lambda>sc. (None, sc\<lparr>sc_created := True\<rparr>)) sc)
                             (case choice_of chunk of None \<Rightarrow> (\<lambda>sc. (None, sc)) | Some choice \<Rightarrow> choice_steps ce choice) sc))"

section \<open>The stream\<close>

text \<open>\<open>handleStreamingResponse\<close>: the lines that carry data, until one of them fails.\<close>

fun stream_lines :: "conv_env \<Rightarrow> string list \<Rightarrow> conv_step" where
  "stream_lines ce [] sc = (None, sc)"
| "stream_lines ce (line # rest) sc =
     (if take 6 line \<noteq> ''data: '' then stream_lines ce rest sc
      else then_do (ProcessChunk ce (line @ [CHR 10, CHR 10])) (stream_lines ce rest) sc)"

end
