(* ===== verification/Stream_Converter_Facts.thy ===== *)
theory Stream_Converter_Facts
  imports Stream_Converter
begin

text \<open>
  The order of the events of a converted stream as a state machine, which the converter follows whatever chunks come; and
  what its last event leaves out.
\<close>

section \<open>The protocol\<close>

datatype conv_phase = Unannounced | Announced | Running | Closing | Finished

type_synonym conv_event = "string \<times> json"

definition payload_string :: "json \<Rightarrow> string \<Rightarrow> string" where
  "payload_string d k = any_string (jget d k)"

text \<open>The content of the item of an event: its text, when it is a message.\<close>

definition done_item_ok :: "string \<Rightarrow> json \<Rightarrow> bool" where
  "done_item_ok text d \<longleftrightarrow>
     (case jget d ''item'' of
        Some item \<Rightarrow> jget item ''type'' = Some (JStr ''message'') \<longrightarrow> jget item ''content'' = Some (text_part text)
      | None \<Rightarrow> False)"

text \<open>A phase with the text sent so far, and the next event.\<close>

definition protocol :: "conv_phase \<times> string \<Rightarrow> conv_event \<Rightarrow> (conv_phase \<times> string) option" where
  "protocol s e =
     (case (s, e) of ((ph, text), (t, d)) \<Rightarrow>
        if t = ''response.created'' then (if ph = Unannounced then Some (Announced, text) else None)
        else if t = ''response.in_progress'' then (if ph = Announced then Some (Running, text) else None)
        else if t = ''response.output_item.added'' \<or> t = ''response.function_call_arguments.delta''
        then (if ph = Running then Some (Running, text) else None)
        else if t = ''response.output_text.delta''
        then (if ph = Running then Some (Running, text @ payload_string d ''delta'') else None)
        else if t = ''response.output_text.done''
        then (if ph = Running \<and> payload_string d ''text'' = text then Some (Closing, text) else None)
        else if t = ''response.output_item.done''
        then (if ph \<in> {Running, Closing} \<and> done_item_ok text d then Some (Closing, text) else None)
        else if t = ''response.completed''
        then (if ph \<in> {Unannounced, Running, Closing} then Some (Finished, text) else None)
        else None)"

fun follows :: "conv_phase \<times> string \<Rightarrow> conv_event list \<Rightarrow> (conv_phase \<times> string) option" where
  "follows s [] = Some s"
| "follows s (e # es) = (case protocol s e of None \<Rightarrow> None | Some s' \<Rightarrow> follows s' es)"

lemma follows_snoc: "follows s (es @ [e]) = (case follows s es of None \<Rightarrow> None | Some s' \<Rightarrow> protocol s' e)"
  by (induction es arbitrary: s) (auto split: option.split)

definition event_texts :: "conv_event \<Rightarrow> string list" where
  "event_texts e = [''event: '' @ fst e @ [CHR 10], ''data: '' @ json_text (snd e) @ [CHR 10, CHR 10]]"

text \<open>What the output of a response says: the texts of its messages and the arguments of its calls.\<close>

definition item_says :: "json \<Rightarrow> string" where
  "item_says item =
     (case jget item ''message'' of
        Some m \<Rightarrow> concat (map (\<lambda>p. payload_string p ''text'') (any_list (jget m ''content'')))
      | None \<Rightarrow> (case jget item ''function_call'' of Some f \<Rightarrow> payload_string f ''arguments'' | None \<Rightarrow> ''''))"

definition response_says :: "json \<Rightarrow> string" where
  "response_says d =
     (case jget d ''response'' of Some r \<Rightarrow> concat (map item_says (any_list (jget r ''output''))) | None \<Rightarrow> '''')"

section \<open>Single events\<close>

definition conv_good :: "conv_env \<Rightarrow> bool" where
  "conv_good ce \<longleftrightarrow> \<not> ce_nil ce \<and> (\<forall>i. ce_write ce i = None)"

lemma emitSSEEvent_good:
  "conv_good ce \<Longrightarrow> emitSSEEvent ce t (Some d) sc =
    (None, sc\<lparr>sc_writes := Suc (Suc (sc_writes sc)), sc_out := sc_out sc @ event_texts (t, d)\<rparr>)"
  by (simp add: conv_good_def emitSSEEvent_def then_do_def fprintf_def Let_def event_texts_def)

text \<open>Items whose content was not filled in.\<close>

definition blank :: "output_item \<Rightarrow> bool" where
  "blank item \<longleftrightarrow>
     oi_Type item = ''message'' \<and> (\<exists>role. oi_Message item = Some (role, [(''output_text'', '''')])) \<or>
     oi_Type item = ''function_call'' \<and> (\<exists>fc. oi_FunctionCall item = Some fc \<and> fc_Arguments fc = '''')"

lemma blank_marshals: "blank item \<Longrightarrow> \<exists>j. OutputItem_MarshalJSON item = Some j \<and> item_says j = ''''"
  by (auto simp: blank_def OutputItem_MarshalJSON_def item_says_def payload_string_def any_string_def any_list_def part_json_def)

lemma blanks_marshal:
  "\<forall>item \<in> set items. blank item \<Longrightarrow>
    \<exists>js. those (map OutputItem_MarshalJSON items) = Some js \<and> concat (map item_says js) = ''''"
proof (induction items)
  case (Cons item items)
  then obtain j js where "OutputItem_MarshalJSON item = Some j" "item_says j = ''''"
    "those (map OutputItem_MarshalJSON items) = Some js" "concat (map item_says js) = ''''"
    using blank_marshals [of item] by auto
  then show ?case by simp
qed simp

lemma json_map_response: "json_map [(''type'', t), (''response'', r)] = JObj [(''response'', r), (''type'', t)]"
  by (simp add: json_map_def)

definition conv_at :: "conv_phase \<Rightarrow> stream_converter \<Rightarrow> bool" where
  "conv_at ph sc \<longleftrightarrow>
     (\<exists>evs. sc_out sc = concat (map event_texts evs) \<and> follows (Unannounced, '''') evs = Some (ph, sc_contentBuffer sc) \<and>
        (\<forall>e \<in> set evs. fst e = ''response.completed'' \<longrightarrow> response_says (snd e) = '''')) \<and>
     (\<forall>item \<in> set (sc_outputItems sc). blank item) \<and>
     (ph = Unannounced \<longrightarrow> sc_outputItems sc = [] \<and> sc_currentItem sc = None)"

lemma protocol_announces: "protocol s e = Some (ph, text) \<Longrightarrow> ph \<noteq> Unannounced"
  by (auto simp: protocol_def split: prod.splits if_splits)

lemma conv_at_event:
  assumes "conv_at ph sc" and "protocol (ph, sc_contentBuffer sc) (t, d) = Some (ph', sc_contentBuffer sc')"
    and "t = ''response.completed'' \<longrightarrow> response_says d = ''''"
    and "sc_out sc' = sc_out sc @ event_texts (t, d)" and "sc_outputItems sc' = sc_outputItems sc"
  shows "conv_at ph' sc'"
proof -
  obtain evs where evs: "sc_out sc = concat (map event_texts evs)" "follows (Unannounced, '''') evs = Some (ph, sc_contentBuffer sc)"
    "\<forall>e \<in> set evs. fst e = ''response.completed'' \<longrightarrow> response_says (snd e) = ''''" "\<forall>item \<in> set (sc_outputItems sc). blank item"
    using assms(1) by (auto simp: conv_at_def)
  have "follows (Unannounced, '''') (evs @ [(t, d)]) = Some (ph', sc_contentBuffer sc')"
    by (simp only: follows_snoc evs(2) option.case assms(2))
  moreover have "sc_out sc' = concat (map event_texts (evs @ [(t, d)]))" using evs(1) assms(4) by simp
  moreover have "\<forall>e \<in> set (evs @ [(t, d)]). fst e = ''response.completed'' \<longrightarrow> response_says (snd e) = ''''"
    using evs(3) assms(3) by auto
  ultimately show ?thesis
    using evs(4) assms(5) protocol_announces [OF assms(2)] unfolding conv_at_def by metis
qed

section \<open>Steps\<close>

text \<open>From a phase of \<open>P\<close> the step comes to one of \<open>Q\<close>, without an error.\<close>

definition goes :: "conv_phase set \<Rightarrow> conv_step \<Rightarrow> conv_phase set \<Rightarrow> bool" where
  "goes P f Q \<longleftrightarrow>
     (\<forall>sc. (\<exists>ph \<in> P. conv_at ph sc) \<longrightarrow>
        fst (f sc) = None \<and> (\<exists>ph \<in> Q. conv_at ph (snd (f sc))) \<and>
        sc_completed (snd (f sc)) = sc_completed sc \<and> sc_created (snd (f sc)) = sc_created sc)"

lemma goes_ex:
  assumes "goes P f Q" and "conv_at ph sc" and "ph \<in> P"
  shows "\<exists>sc'. f sc = (None, sc') \<and> (\<exists>ph' \<in> Q. conv_at ph' sc') \<and> sc_completed sc' = sc_completed sc \<and> sc_created sc' = sc_created sc"
  using assms unfolding goes_def by (intro exI [of _ "snd (f sc)"]) (metis prod.collapse)

lemma goesI:
  assumes "\<And>sc ph. ph \<in> P \<Longrightarrow> conv_at ph sc \<Longrightarrow>
      fst (f sc) = None \<and> (\<exists>ph \<in> Q. conv_at ph (snd (f sc))) \<and>
      sc_completed (snd (f sc)) = sc_completed sc \<and> sc_created (snd (f sc)) = sc_created sc"
  shows "goes P f Q"
  using assms by (auto simp: goes_def)

lemma goes_then_do: "goes P f Q \<Longrightarrow> goes Q g R \<Longrightarrow> goes P (then_do f g) R"
  unfolding goes_def then_do_def by (auto split: prod.split option.split) (metis fst_conv option.distinct(1) snd_conv)+

lemma goes_skip: "P \<subseteq> Q \<Longrightarrow> goes P (\<lambda>sc. (None, sc)) Q"
  by (auto simp: goes_def)

lemma goes_all: "(\<And>f. f \<in> set fs \<Longrightarrow> goes P f P) \<Longrightarrow> goes P (all_do fs) P"
  by (induction fs) (auto intro: goes_skip goes_then_do)

lemma goes_emit:
  assumes "conv_good ce"
    and "\<And>sc ph. ph \<in> P \<Longrightarrow> conv_at ph sc \<Longrightarrow> \<exists>ph' \<in> Q. protocol (ph, sc_contentBuffer sc) (t, d) = Some (ph', sc_contentBuffer sc)"
    and "t \<noteq> ''response.completed''"
  shows "goes P (emitSSEEvent ce t (Some d)) Q"
proof (rule goesI)
  fix sc ph
  assume at: "ph \<in> P" "conv_at ph sc"
  obtain ph' where ph': "ph' \<in> Q" "protocol (ph, sc_contentBuffer sc) (t, d) = Some (ph', sc_contentBuffer sc)" using assms(2) [OF at] by blast
  have "conv_at ph' (snd (emitSSEEvent ce t (Some d) sc))"
    by (rule conv_at_event [OF at(2), of t d]) (use ph'(2) assms(3) in \<open>simp_all add: emitSSEEvent_good [OF assms(1)]\<close>)
  then show "fst (emitSSEEvent ce t (Some d) sc) = None \<and> (\<exists>ph \<in> Q. conv_at ph (snd (emitSSEEvent ce t (Some d) sc))) \<and>
      sc_completed (snd (emitSSEEvent ce t (Some d) sc)) = sc_completed sc \<and>
      sc_created (snd (emitSSEEvent ce t (Some d) sc)) = sc_created sc"
    using ph'(1) by (auto simp: emitSSEEvent_good [OF assms(1)])
qed

text \<open>An item is added to the output before its event is sent.\<close>

lemma goes_add_item:
  assumes "\<And>sc. goes {Running} (g sc) {Running}" and "\<And>sc. blank (item sc)"
    and "\<And>sc. sc_out (k sc) = sc_out sc \<and> sc_contentBuffer (k sc) = sc_contentBuffer sc \<and>
      sc_outputItems (k sc) = sc_outputItems sc @ [item sc] \<and> sc_completed (k sc) = sc_completed sc \<and> sc_created (k sc) = sc_created sc"
  shows "goes {Running} (\<lambda>sc. g sc (k sc)) {Running}"
proof (rule goesI)
  fix sc ph
  assume "ph \<in> {Running}" "conv_at ph sc"
  then have "conv_at Running (k sc)" using assms(2,3) by (auto simp: conv_at_def)
  with assms(1) [of sc, unfolded goes_def, rule_format, of "k sc"] assms(3) [of sc]
  show "fst (g sc (k sc)) = None \<and> (\<exists>ph \<in> {Running}. conv_at ph (snd (g sc (k sc)))) \<and>
      sc_completed (snd (g sc (k sc))) = sc_completed sc \<and> sc_created (snd (g sc (k sc))) = sc_created sc"
    by auto
qed

lemma goes_added: "conv_good ce \<Longrightarrow> goes {Running} (emit ce ''response.output_item.added'' ms) {Running}"
  unfolding emit_def by (rule goes_emit) (simp_all add: protocol_def)

lemma goes_args: "conv_good ce \<Longrightarrow> goes {Running} (emit ce ''response.function_call_arguments.delta'' ms) {Running}"
  unfolding emit_def by (rule goes_emit) (simp_all add: protocol_def)

lemma delta_event: "json_map [(''type'', t), (''delta'', v)] = JObj [(''delta'', v), (''type'', t)]"
  by (simp add: json_map_def)

lemma goes_text_delta:
  assumes "conv_good ce"
  shows "goes {Running} (\<lambda>sc. emit ce ''response.output_text.delta'' [(''delta'', JStr c)] (sc\<lparr>sc_contentBuffer := sc_contentBuffer sc @ c\<rparr>)) {Running}"
proof (rule goesI)
  fix sc ph
  assume at: "ph \<in> {Running}" "conv_at ph sc"
  let ?d = "JObj [(''delta'', JStr c), (''type'', JStr ''response.output_text.delta'')]"
  let ?sc = "snd (emit ce ''response.output_text.delta'' [(''delta'', JStr c)] (sc\<lparr>sc_contentBuffer := sc_contentBuffer sc @ c\<rparr>))"
  have run: "emit ce ''response.output_text.delta'' [(''delta'', JStr c)] (sc\<lparr>sc_contentBuffer := sc_contentBuffer sc @ c\<rparr>) =
      (None, sc\<lparr>sc_contentBuffer := sc_contentBuffer sc @ c, sc_writes := Suc (Suc (sc_writes sc)),
        sc_out := sc_out sc @ event_texts (''response.output_text.delta'', ?d)\<rparr>)"
    unfolding emit_def delta_event emitSSEEvent_good [OF assms] by simp
  have "conv_at Running ?sc"
    by (rule conv_at_event [OF at(2), of "''response.output_text.delta''" ?d])
      (use at(1) in \<open>simp_all add: run protocol_def payload_string_def any_string_def\<close>)
  then show "fst (emit ce ''response.output_text.delta'' [(''delta'', JStr c)] (sc\<lparr>sc_contentBuffer := sc_contentBuffer sc @ c\<rparr>)) = None \<and>
      (\<exists>ph \<in> {Running}. conv_at ph ?sc) \<and> sc_completed ?sc = sc_completed sc \<and> sc_created ?sc = sc_created sc"
    by (simp add: run)
qed

lemma goes_if: "(b \<Longrightarrow> goes P f Q) \<Longrightarrow> (\<not> b \<Longrightarrow> goes P g Q) \<Longrightarrow> goes P (\<lambda>sc. if b then f sc else g sc) Q"
  by (cases b) auto

text \<open>A step that depends on the state.\<close>

lemma goes_case: "(\<And>sc. b sc \<Longrightarrow> goes P f Q) \<Longrightarrow> (\<And>sc. \<not> b sc \<Longrightarrow> goes P g Q) \<Longrightarrow> goes P (\<lambda>sc. if b sc then f sc else g sc) Q"
  unfolding goes_def by simp

lemma goes_emitContentDelta:
  assumes "conv_good ce"
  shows "goes {Running} (emitContentDelta ce c) {Running}"
proof -
  let ?item = "\<lambda>sc. \<lparr>oi_ID = ce_id ce (sc_writes sc), oi_Type = ''message'',
    oi_Message = Some (''assistant'', [(''output_text'', '''')]), oi_FunctionCall = None\<rparr>"
  show ?thesis
    unfolding emitContentDelta_def Let_def
    by (rule goes_then_do [OF goes_case goes_text_delta [OF assms]], rule goes_skip, rule subset_refl,
        rule goes_add_item [where item = ?item, OF goes_added [OF assms]])
      (simp_all add: blank_def)
qed

lemma goes_tool_item:
  assumes "conv_good ce" and "oi_Type item = ''function_call''" and "oi_FunctionCall item = Some fc" and "fc_Arguments fc = ''''"
  shows "goes {Running} (\<lambda>sc. if c then (None, sc)
    else emit ce ''response.output_item.added'' ms (sc\<lparr>sc_outputItems := sc_outputItems sc @ [item]\<rparr>)) {Running}"
proof (rule goes_if)
  show "goes {Running} (Pair None) {Running}" by (rule goes_skip) simp
  show "goes {Running} (\<lambda>sc. emit ce ''response.output_item.added'' ms (sc\<lparr>sc_outputItems := sc_outputItems sc @ [item]\<rparr>)) {Running}"
    by (rule goes_add_item [where item = "\<lambda>sc. item", OF goes_added [OF assms(1)]]) (use assms(2-4) in \<open>simp_all add: blank_def\<close>)
qed

lemma goes_tool_call_delta: "conv_good ce \<Longrightarrow> goes {Running} (tool_call_delta ce tc) {Running}"
proof -
  assume good: "conv_good ce"
  have skip: "goes {Running} (Pair None) {Running}" by (rule goes_skip) simp
  show ?thesis
  proof (cases tc)
    case (JObj ms)
    show ?thesis
      unfolding tool_call_delta_def JObj json.case Let_def
      by (rule goes_then_do [where Q = "{Running}"], rule goes_tool_item [OF good])
        (simp add: skip goes_args [OF good])+
  qed (simp_all add: tool_call_delta_def skip)
qed

lemma goes_delta_steps: "conv_good ce \<Longrightarrow> goes {Running} (delta_steps ce d) {Running}"
  unfolding delta_steps_def handleToolCallsDelta_def Let_def
  by (rule goes_then_do [where Q = "{Running}"])
    (auto intro!: goes_all goes_skip goes_emitContentDelta goes_tool_call_delta)

text \<open>The end of the text.\<close>

lemma text_done_event: "json_map [(''type'', t), (''text'', v)] = JObj [(''text'', v), (''type'', t)]"
  by (simp add: json_map_def)

lemma item_done_event: "json_map [(''type'', t), (''item'', v)] = JObj [(''item'', v), (''type'', t)]"
  by (simp add: json_map_def)

lemma message_done_item:
  "json_map [(''type'', a), (''role'', b), (''id'', c), (''content'', d), (''status'', e)] =
    JObj [(''content'', d), (''id'', c), (''role'', b), (''status'', e), (''type'', a)]"
  by (simp add: json_map_def)

lemma function_json_sorted:
  "function_json item fc [] = JObj [(''arguments'', JStr (fc_Arguments fc)), (''call_id'', JStr (fc_CallID fc)),
     (''id'', JStr (oi_ID item)), (''name'', JStr (fc_Name fc)), (''type'', JStr ''function_call'')]"
  "function_json item fc [(''status'', s)] = JObj [(''arguments'', JStr (fc_Arguments fc)), (''call_id'', JStr (fc_CallID fc)),
     (''id'', JStr (oi_ID item)), (''name'', JStr (fc_Name fc)), (''status'', s), (''type'', JStr ''function_call'')]"
  by (simp_all add: function_json_def json_map_def)

text \<open>Two events for the text, whose values come from the state.\<close>

lemma goes_emit_text_done:
  assumes "conv_good ce" and "P \<subseteq> {Unannounced, Running}"
  shows "goes P (emit_text_done ce) (insert Closing P)"
proof (rule goesI)
  fix sc ph
  assume at: "ph \<in> P" "conv_at ph sc"
  show "fst (emit_text_done ce sc) = None \<and> (\<exists>ph \<in> insert Closing P. conv_at ph (snd (emit_text_done ce sc))) \<and>
      sc_completed (snd (emit_text_done ce sc)) = sc_completed sc \<and> sc_created (snd (emit_text_done ce sc)) = sc_created sc"
  proof (cases "sc_currentItem sc")
    case None
    then show ?thesis using at by (auto simp: emit_text_done_def)
  next
    case (Some item)
    then have ph: "ph = Running" using at assms(2) by (auto simp: conv_at_def)
    let ?text = "sc_contentBuffer sc"
    let ?d1 = "JObj [(''text'', JStr ?text), (''type'', JStr ''response.output_text.done'')]"
    let ?i = "JObj [(''content'', text_part ?text), (''id'', JStr (oi_ID item)), (''role'', JStr ''assistant''), (''status'', JStr ''completed''), (''type'', JStr ''message'')]"
    let ?d2 = "JObj [(''item'', ?i), (''type'', JStr ''response.output_item.done'')]"
    define s1 where "s1 = sc\<lparr>sc_writes := Suc (Suc (sc_writes sc)), sc_out := sc_out sc @ event_texts (''response.output_text.done'', ?d1)\<rparr>"
    define s2 where "s2 = s1\<lparr>sc_writes := Suc (Suc (sc_writes s1)), sc_out := sc_out s1 @ event_texts (''response.output_item.done'', ?d2)\<rparr>"
    have run: "emit_text_done ce sc = (None, s2)"
      unfolding emit_text_done_def Some option.case emit_def text_done_event item_done_event message_done_item then_do_def emitSSEEvent_good [OF assms(1)]
      by (simp add: s1_def s2_def)
    have "conv_at Closing s1"
      by (rule conv_at_event [OF at(2), of "''response.output_text.done''" ?d1])
        (use ph in \<open>simp_all add: s1_def protocol_def payload_string_def any_string_def\<close>)
    then have "conv_at Closing s2"
      by (rule conv_at_event [of _ _ "''response.output_item.done''" ?d2])
        (simp_all add: s1_def s2_def protocol_def done_item_ok_def)
    then show ?thesis by (auto simp: run s1_def s2_def)
  qed
qed

lemma goes_function_done:
  assumes "conv_good ce" and "blank item"
  shows "goes {Running, Closing} (function_done ce item) {Running, Closing}"
proof (cases "oi_Type item = ''function_call''")
  case True
  then obtain fc where fc: "oi_FunctionCall item = Some fc" using assms(2) by (auto simp: blank_def)
  show ?thesis
    unfolding function_done_def if_P [OF True] fc option.case emit_def item_done_event function_json_sorted
    by (rule goes_emit [OF assms(1)]) (simp_all add: protocol_def done_item_ok_def)
qed (simp add: function_done_def goes_skip)

section \<open>Chunks\<close>

lemma emit_completed_at:
  assumes "conv_good ce" and "conv_at ph sc" and "ph \<in> {Unannounced, Running, Closing}"
  shows "fst (emit_completed ce status sc) = None \<and> conv_at Finished (snd (emit_completed ce status sc)) \<and>
    sc_completed (snd (emit_completed ce status sc))"
proof -
  let ?r = "\<lparr>rr_ID = sc_responseID sc, rr_CreatedAt = ce_now ce (sc_writes sc), rr_Model = sc_model sc, rr_Status = status,
    rr_Output = sc_outputItems sc, rr_Usage = (0, 0, 0)\<rparr>"
  have "\<forall>item \<in> set (sc_outputItems sc). blank item" using assms(2) by (auto simp: conv_at_def)
  then obtain js where js: "those (map OutputItem_MarshalJSON (sc_outputItems sc)) = Some js" "concat (map item_says js) = ''''"
    using blanks_marshal by blast
  obtain j where j: "response_json ?r = Some j" "jget j ''output'' = Some (JArr js)"
    using js(1) by (auto simp: response_json_def)
  let ?d = "JObj [(''response'', j), (''type'', JStr ''response.completed'')]"
  have run: "emit_completed ce status sc = (None, sc\<lparr>sc_completed := True, sc_writes := Suc (Suc (sc_writes sc)),
      sc_out := sc_out sc @ event_texts (''response.completed'', ?d)\<rparr>)"
    unfolding emit_completed_def emit_response_def j(1) option.map json_map_response emitSSEEvent_good [OF assms(1)] by simp
  have "response_says ?d = ''''" using j(2) js(2) by (simp add: response_says_def any_list_def)
  then have "conv_at Finished (snd (emit_completed ce status sc))"
    by (intro conv_at_event [OF assms(2), of "''response.completed''" ?d])
      (use assms(3) in \<open>simp_all add: run protocol_def\<close>)
  then show ?thesis by (simp add: run)
qed

text \<open>Between two chunks: nothing was sent, or the response is announced and open, or it is completed.\<close>

definition conv_ok :: "stream_converter \<Rightarrow> bool" where
  "conv_ok sc \<longleftrightarrow>
     (if sc_completed sc then conv_at Finished sc
      else conv_at (if sc_created sc then Running else Unannounced) sc)"

text \<open>A step from which the converter comes out well, with an error or not.\<close>

definition ends_ok :: "go_error option \<times> stream_converter \<Rightarrow> bool" where
  "ends_ok r = conv_ok (snd r)"

lemma finish_ok:
  assumes "conv_good ce" and "conv_at Running sc"
  shows "conv_ok (snd (emitFinishEvents ce reason sc)) \<and> fst (emitFinishEvents ce reason sc) = None"
proof -
  obtain sc1 where sc1: "emit_text_done ce sc = (None, sc1)" "conv_at Running sc1 \<or> conv_at Closing sc1"
    using goes_ex [OF goes_emit_text_done [OF assms(1), of "{Running}"] assms(2)] by auto
  have all: "goes {Running, Closing} (all_do (map (function_done ce) (sc_outputItems sc1))) {Running, Closing}"
  proof (rule goes_all)
    fix f
    assume "f \<in> set (map (function_done ce) (sc_outputItems sc1))"
    then obtain item where "f = function_done ce item" "blank item" using sc1(2) by (auto simp: conv_at_def)
    then show "goes {Running, Closing} f {Running, Closing}" by (simp add: goes_function_done [OF assms(1)])
  qed
  then obtain sc2 where sc2: "all_do (map (function_done ce) (sc_outputItems sc1)) sc1 = (None, sc2)" "conv_at Running sc2 \<or> conv_at Closing sc2"
    using sc1(2) goes_ex [OF all, of Running sc1] goes_ex [OF all, of Closing sc1] by auto
  let ?st = "if reason = ''length'' then ''incomplete'' else ''completed''"
  have run: "emitFinishEvents ce reason sc = emit_completed ce ?st sc2"
    by (simp add: emitFinishEvents_def Let_def then_do_def sc1(1) sc2(1))
  show ?thesis
    using sc2(2) emit_completed_at [OF assms(1), of Running sc2 ?st] emit_completed_at [OF assms(1), of Closing sc2 ?st]
    by (auto simp: run conv_ok_def)
qed

lemma completed_event_ok:
  assumes "conv_good ce" and "conv_ok sc"
  shows "conv_ok (snd (emitCompletedEvent ce sc)) \<and> fst (emitCompletedEvent ce sc) = None"
proof (cases "sc_completed sc")
  case True
  then show ?thesis using assms(2) by (simp add: emitCompletedEvent_def)
next
  case False
  then obtain ph where ph: "ph \<in> {Unannounced, Running}" "conv_at ph sc" using assms(2) by (auto simp: conv_ok_def split: if_splits)
  then obtain sc1 ph1 where sc1: "emit_text_done ce sc = (None, sc1)" "conv_at ph1 sc1" "ph1 \<in> {Unannounced, Running, Closing}"
    using goes_ex [OF goes_emit_text_done [OF assms(1), of "{Unannounced, Running}"] ph(2,1)] by auto
  show ?thesis
    using False emit_completed_at [OF assms(1) sc1(2,3), of "''completed''"]
    by (auto simp: emitCompletedEvent_def then_do_def sc1(1) conv_ok_def)
qed

lemma announce_at:
  assumes "conv_good ce" and "conv_at Unannounced sc"
  shows "fst (emitCreatedAndInProgressEvents ce sc) = None \<and> conv_at Running (snd (emitCreatedAndInProgressEvents ce sc)) \<and>
    sc_completed (snd (emitCreatedAndInProgressEvents ce sc)) = sc_completed sc"
proof -
  let ?r = "\<lparr>rr_ID = sc_responseID sc, rr_CreatedAt = ce_now ce (sc_writes sc), rr_Model = sc_model sc,
    rr_Status = ''in_progress'', rr_Output = [], rr_Usage = (0, 0, 0)\<rparr>"
  obtain j where j: "response_json ?r = Some j" by (simp add: response_json_def)
  have first: "goes {Unannounced} (emit_response ce ''response.created'' ?r) {Announced}"
    unfolding emit_response_def j option.map by (rule goes_emit [OF assms(1)]) (simp_all add: protocol_def)
  have second: "goes {Announced} (emit_response ce ''response.in_progress'' ?r) {Running}"
    unfolding emit_response_def j option.map by (rule goes_emit [OF assms(1)]) (simp_all add: protocol_def)
  show ?thesis
    using goes_then_do [OF first second] assms(2) by (auto simp: goes_def emitCreatedAndInProgressEvents_def Let_def)
qed

lemma conv_at_created: "conv_at ph (sc\<lparr>sc_created := b\<rparr>) = conv_at ph sc" "conv_at ph (sc\<lparr>sc_model := m\<rparr>) = conv_at ph sc"
  by (simp_all add: conv_at_def)

lemma choice_ok:
  assumes "conv_good ce" and "conv_at Running sc" and "sc_created sc" and "\<not> sc_completed sc"
  shows "conv_ok (snd (choice_steps ce choice sc)) \<and> fst (choice_steps ce choice sc) = None"
proof -
  define d where "d = (case any_get (JObj choice) ''delta'' of Some (JObj ms) \<Rightarrow> delta_steps ce (JObj ms) | _ \<Rightarrow> (\<lambda>sc. (None, sc)))"
  have d: "goes {Running} d {Running}"
    using goes_delta_steps [OF assms(1)] goes_skip [of "{Running}" "{Running}"] unfolding d_def by (simp split: option.split json.split)
  obtain sc1 where sc1: "d sc = (None, sc1)" "conv_at Running sc1" "sc_created sc1" "\<not> sc_completed sc1"
    using goes_ex [OF d assms(2)] assms(3,4) by auto
  have run: "choice_steps ce choice sc =
      (if any_string (any_get (JObj choice) ''finish_reason'') = '''' then (None, sc1)
       else emitFinishEvents ce (any_string (any_get (JObj choice) ''finish_reason'')) sc1)"
    using sc1(1) unfolding choice_steps_def Let_def d_def [symmetric] then_do_def by simp
  have "conv_ok sc1" using sc1 by (simp add: conv_ok_def)
  then show ?thesis using finish_ok [OF assms(1) sc1(2)] by (simp add: run)
qed

lemma ProcessChunk_ok:
  assumes "conv_good ce" and "conv_ok sc"
  shows "conv_ok (snd (ProcessChunk ce chunk sc))"
proof (cases "sc_completed sc \<or> length chunk < 8 \<or> take 6 chunk \<noteq> ''data: ''")
  case True
  then show ?thesis using assms(2) by (auto simp: ProcessChunk_def)
next
  case False
  let ?json = "take (length chunk - 8) (drop 6 chunk)"
  show ?thesis
  proof (cases "?json = ''[DONE]''")
    case True
    then show ?thesis using False completed_event_ok [OF assms] by (simp add: ProcessChunk_def Let_def)
  next
    case json: False
    show ?thesis
    proof (cases "any_map (ce_dec ce) ?json")
      case None
      then show ?thesis using False json assms(2) by (simp add: ProcessChunk_def Let_def)
    next
      case (Some ms)
      define s0 where "s0 = (if sc_model sc = '''' then sc\<lparr>sc_model := any_string (map_of ms ''model'')\<rparr> else sc)"
      have s0: "conv_ok s0" "\<not> sc_completed s0" using assms(2) False by (auto simp: s0_def conv_ok_def conv_at_created)
      define f where "f = (\<lambda>sc. if sc_created sc then (None, sc)
        else then_do (emitCreatedAndInProgressEvents ce) (\<lambda>sc. (None, sc\<lparr>sc_created := True\<rparr>)) sc)"
      obtain s1 where s1: "f s0 = (None, s1)" "conv_at Running s1" "sc_created s1" "\<not> sc_completed s1"
      proof (cases "sc_created s0")
        case True
        then show thesis using that [of s0] s0 by (simp add: f_def conv_ok_def)
      next
        case False
        then have "conv_at Unannounced s0" using s0 by (simp add: conv_ok_def)
        from announce_at [OF assms(1) this] obtain s' where "emitCreatedAndInProgressEvents ce s0 = (None, s')" "conv_at Running s'" "\<not> sc_completed s'"
          using s0(2) by (metis prod.collapse)
        then show thesis using that [of "s'\<lparr>sc_created := True\<rparr>"] False by (simp add: f_def then_do_def conv_at_created)
      qed
      have run: "ProcessChunk ce chunk sc = (case choice_of ms of None \<Rightarrow> (None, s1) | Some choice \<Rightarrow> choice_steps ce choice s1)"
        using False json Some s1(1) unfolding ProcessChunk_def then_do_def [of f] s0_def f_def
        by (simp add: Let_def then_do_def split: option.split)
      show ?thesis
      proof (cases "choice_of ms")
        case None
        then show ?thesis using run s1 by (simp add: conv_ok_def)
      next
        case (Some choice)
        then show ?thesis using run choice_ok [OF assms(1) s1(2-4), of choice] by simp
      qed
    qed
  qed
qed

lemma stream_lines_ok: "conv_good ce \<Longrightarrow> conv_ok sc \<Longrightarrow> conv_ok (snd (stream_lines ce lines sc))"
proof (induction lines arbitrary: sc)
  case (Cons line rest)
  then show ?case
    using ProcessChunk_ok [OF Cons.prems, of "line @ [CHR 10, CHR 10]"]
    by (auto simp: then_do_def split: prod.split option.split)
qed simp

lemma start_ok: "conv_ok (NewStreamConverter rid)"
  unfolding conv_ok_def conv_at_def
  by (simp add: NewStreamConverter_def exI [of _ "[]"])

section \<open>Properties\<close>


text \<open>
  The completed response says nothing. Whatever was streamed, the output of the response in the last event has empty
  texts and empty arguments: the items in it are the ones of their first event, which are never filled in.
\<close>

lemma completed_response_blank:
  assumes "conv_good ce" and "stream_lines ce lines (NewStreamConverter rid) = (r, sc)"
  shows "\<exists>evs. sc_out sc = concat (map event_texts evs) \<and> follows (Unannounced, '''') evs \<noteq> None \<and>
    (\<forall>d. (''response.completed'', d) \<in> set evs \<longrightarrow> response_says d = '''')"
proof -
  have "conv_ok sc" using stream_lines_ok [OF assms(1) start_ok, of lines rid] assms(2) by simp
  then obtain ph where "conv_at ph sc" by (auto simp: conv_ok_def split: if_splits)
  then show ?thesis unfolding conv_at_def by (metis fst_conv option.distinct(1) snd_conv)
qed

section \<open>Witnesses\<close>

text \<open>One chunk with a text and the end of it.\<close>

definition demo_chunk :: json where
  "demo_chunk = JObj [(''model'', JStr ''m''), (''choices'', JArr [JObj
     [(''delta'', JObj [(''content'', JStr ''hi'')]), (''finish_reason'', JStr ''stop'')]])]"

definition demo_conv :: conv_env where
  "demo_conv = \<lparr>ce_dec = \<lambda>s. Some demo_chunk, ce_now = \<lambda>_. 0, ce_id = \<lambda>_. ''msg_1'', ce_write = \<lambda>_. None, ce_nil = False\<rparr>"


lemma completed_response_blank_witness:
  "\<exists>r sc evs. stream_lines demo_conv [''data: {}''] (NewStreamConverter ''resp_1'') = (r, sc) \<and>
     sc_out sc = concat (map event_texts evs) \<and> length (sc_out sc) = 14 \<and>
     (\<forall>d. (''response.completed'', d) \<in> set evs \<longrightarrow> response_says d = '''')"
proof -
  let ?run = "stream_lines demo_conv [''data: {}''] (NewStreamConverter ''resp_1'')"
  have good: "conv_good demo_conv" by (simp add: conv_good_def demo_conv_def)
  have "length (sc_out (snd ?run)) = 14" by code_simp
  then show ?thesis
    using completed_response_blank [OF good prod.collapse [symmetric], of "[''data: {}'']" "''resp_1''"] by (metis prod.collapse)
qed

end
