(* ===== verification/Responses_Converter.thy ===== *)
theory Responses_Converter
  imports Stream_Converter
begin

text \<open>
  Requests of the responses API turned into chat completion requests, and chat completions into responses
  (\<open>responses_converter.go\<close>), with the decoding and encoding of their items (\<open>responses_types.go\<close>, \<open>openai_types.go\<close>). JSON texts
  are their parsed values.
\<close>

section \<open>Items of a request\<close>

record message_content =
  mc_Raw :: string
  mc_Parts :: "(string \<times> string) list"
  mc_IsString :: bool

record message_input =
  mi_Role :: string
  mi_Content :: message_content

record function_call_input =
  fi_ID :: string
  fi_CallID :: string
  fi_Name :: string
  fi_Arguments :: string

record function_call_output =
  fo_CallID :: string
  fo_Output :: string

record input_item =
  ii_Type :: string
  ii_Message :: "message_input option"
  ii_FunctionCallInput :: "function_call_input option"
  ii_FunctionCallOutput :: "function_call_output option"

definition MessageContent_Text :: "message_content \<Rightarrow> string" where
  "MessageContent_Text mc = (if mc_IsString mc then mc_Raw mc else concat (map snd (mc_Parts mc)))"

section \<open>Decoding\<close>

text \<open>A member of the object with its name and a string in it; null leaves it as it is.\<close>

definition str_field :: "(string \<times> json) list \<Rightarrow> string \<Rightarrow> string option" where
  "str_field ms k = dec_string '''' (members ms k)"

definition dec_part :: "json \<Rightarrow> (string \<times> string) option" where
  "dec_part = dec_struct (\<lambda>ms. case (str_field ms ''type'', str_field ms ''text'') of (Some t, Some x) \<Rightarrow> Some (t, x) | _ \<Rightarrow> None)"

definition MessageContent_UnmarshalJSON :: "message_content \<Rightarrow> json \<Rightarrow> message_content option" where
  "MessageContent_UnmarshalJSON mc data =
     (case dec_string '''' [data] of
        Some s \<Rightarrow> Some (mc\<lparr>mc_Raw := s, mc_IsString := True\<rparr>)
      | None \<Rightarrow> (case dec_slice dec_part [] [data] of
                   Some parts \<Rightarrow> Some (mc\<lparr>mc_Parts := parts, mc_IsString := False\<rparr>) | None \<Rightarrow> None))"

definition MessageContent_MarshalJSON :: "message_content \<Rightarrow> json" where
  "MessageContent_MarshalJSON mc =
     (if mc_IsString mc then JStr (mc_Raw mc)
      else if mc_Parts mc = [] then JNull else JArr (map part_json (mc_Parts mc)))"

fun dec_each :: "('a \<Rightarrow> json \<Rightarrow> 'a option) \<Rightarrow> 'a \<Rightarrow> json list \<Rightarrow> 'a option" where
  "dec_each d x [] = Some x"
| "dec_each d x (v # vs) = (case d x v of None \<Rightarrow> None | Some y \<Rightarrow> dec_each d y vs)"

text \<open>
  Members decoded through a pointer to a variable: null clears the pointer, and what comes after it goes to another
  object.
\<close>

fun dec_pointed :: "('a \<Rightarrow> json \<Rightarrow> 'a option) \<Rightarrow> bool \<Rightarrow> 'a \<Rightarrow> json list \<Rightarrow> 'a option" where
  "dec_pointed d live x [] = Some x"
| "dec_pointed d live x (JNull # vs) = dec_pointed d False x vs"
| "dec_pointed d live x (v # vs) =
     (case d x v of None \<Rightarrow> None | Some y \<Rightarrow> dec_pointed d live (if live then y else x) vs)"

definition no_content :: message_content where
  "no_content = \<lparr>mc_Raw = '''', mc_Parts = [], mc_IsString = False\<rparr>"

definition no_message :: message_input where
  "no_message = \<lparr>mi_Role = '''', mi_Content = no_content\<rparr>"

definition dec_message_input :: "message_input \<Rightarrow> json \<Rightarrow> message_input option" where
  "dec_message_input m = dec_struct (\<lambda>ms.
     case (dec_string (mi_Role m) (members ms ''role''),
           dec_each MessageContent_UnmarshalJSON (mi_Content m) (members ms ''content'')) of
       (Some r, Some c) \<Rightarrow> Some \<lparr>mi_Role = r, mi_Content = c\<rparr> | _ \<Rightarrow> None)"

definition dec_call_input :: "(string \<times> json) list \<Rightarrow> function_call_input option" where
  "dec_call_input ms =
     (case (str_field ms ''id'', str_field ms ''call_id'', str_field ms ''name'', str_field ms ''arguments'') of
        (Some i, Some c, Some n, Some a) \<Rightarrow> Some \<lparr>fi_ID = i, fi_CallID = c, fi_Name = n, fi_Arguments = a\<rparr> | _ \<Rightarrow> None)"

definition dec_call_output :: "function_call_output \<Rightarrow> json \<Rightarrow> function_call_output option" where
  "dec_call_output f = dec_struct (\<lambda>ms.
     case (dec_string (fo_CallID f) (members ms ''call_id''), dec_string (fo_Output f) (members ms ''output'')) of
       (Some c, Some x) \<Rightarrow> Some \<lparr>fo_CallID = c, fo_Output = x\<rparr> | _ \<Rightarrow> None)"

definition json_error :: go_error where
  "json_error = OtherError ''json''"

text \<open>
  The custom decoder of an item. It decodes into a pointer to a variable of type pointer: null sets that to nil, and the
  next line reads through it.
\<close>

definition InputItem_UnmarshalJSON :: "json \<Rightarrow> go_error + input_item" where
  "InputItem_UnmarshalJSON data =
     (case data of
        JNull \<Rightarrow> Inl (GoPanic ''nil pointer dereference'')
      | JObj ms \<Rightarrow>
          (case dec_string ''input'' (members ms ''type'') of
             None \<Rightarrow> Inl json_error
           | Some t \<Rightarrow>
               (let item = \<lparr>ii_Type = t, ii_Message = None, ii_FunctionCallInput = None, ii_FunctionCallOutput = None\<rparr>
                in if t = ''message''
                   then (case dec_pointed dec_message_input True no_message (members ms ''message'') of
                           None \<Rightarrow> Inl json_error | Some m \<Rightarrow> Inr (item\<lparr>ii_Message := Some m\<rparr>))
                   else if t = ''function_call''
                   then (case dec_call_input ms of
                           None \<Rightarrow> Inl json_error | Some c \<Rightarrow> Inr (item\<lparr>ii_FunctionCallInput := Some c\<rparr>))
                   else if t = ''function_call_output''
                   then (case dec_pointed dec_call_output True \<lparr>fo_CallID = '''', fo_Output = ''''\<rparr> (members ms ''function_call_output'') of
                           None \<Rightarrow> Inl json_error | Some f \<Rightarrow> Inr (item\<lparr>ii_FunctionCallOutput := Some f\<rparr>))
                   else Inl json_error))
      | _ \<Rightarrow> Inl json_error)"

definition message_input_json :: "message_input \<Rightarrow> json" where
  "message_input_json m = JObj [(''role'', JStr (mi_Role m)), (''content'', MessageContent_MarshalJSON (mi_Content m))]"

definition InputItem_MarshalJSON :: "input_item \<Rightarrow> json option" where
  "InputItem_MarshalJSON i =
     (if ii_Type i = ''message''
      then map_option (\<lambda>m. JObj [(''type'', JStr (ii_Type i)), (''message'', message_input_json m)]) (ii_Message i)
      else if ii_Type i = ''function_call_output''
      then map_option (\<lambda>f. JObj [(''type'', JStr (ii_Type i)),
        (''function_call_output'', JObj [(''call_id'', JStr (fo_CallID f)), (''output'', JStr (fo_Output f))])]) (ii_FunctionCallOutput i)
      else if ii_Type i = ''function_call''
      then map_option (\<lambda>c. JObj [(''type'', JStr (ii_Type i)), (''id'', JStr (fi_ID c)), (''call_id'', JStr (fi_CallID c)),
        (''name'', JStr (fi_Name c)), (''arguments'', JStr (fi_Arguments c))]) (ii_FunctionCallInput i)
      else Some (JObj [(''type'', JStr (ii_Type i))]))"

text \<open>The decoder of an output item, the same way.\<close>

definition dec_output_message :: "string \<times> (string \<times> string) list \<Rightarrow> json \<Rightarrow> (string \<times> (string \<times> string) list) option" where
  "dec_output_message m = dec_struct (\<lambda>ms.
     case (dec_string (fst m) (members ms ''role''), dec_slice dec_part (snd m) (members ms ''content'')) of
       (Some r, Some c) \<Rightarrow> Some (r, c) | _ \<Rightarrow> None)"

definition dec_function_call :: "function_call \<Rightarrow> json \<Rightarrow> function_call option" where
  "dec_function_call f = dec_struct (\<lambda>ms.
     case (dec_string (fc_Name f) (members ms ''name''), dec_string (fc_Arguments f) (members ms ''arguments''),
           dec_string (fc_CallID f) (members ms ''call_id'')) of
       (Some n, Some a, Some c) \<Rightarrow> Some \<lparr>fc_Name = n, fc_Arguments = a, fc_CallID = c\<rparr> | _ \<Rightarrow> None)"

definition OutputItem_UnmarshalJSON :: "json \<Rightarrow> go_error + output_item" where
  "OutputItem_UnmarshalJSON data =
     (case data of
        JNull \<Rightarrow> Inl (GoPanic ''nil pointer dereference'')
      | JObj ms \<Rightarrow>
          (case (dec_string ''output'' (members ms ''type''), str_field ms ''id'') of
             (Some t, Some i) \<Rightarrow>
               (let item = \<lparr>oi_ID = i, oi_Type = t, oi_Message = None, oi_FunctionCall = None\<rparr>
                in if t = ''message''
                   then (case dec_pointed dec_output_message True ('''', []) (members ms ''message'') of
                           None \<Rightarrow> Inl json_error | Some m \<Rightarrow> Inr (item\<lparr>oi_Message := Some m\<rparr>))
                   else if t = ''function_call''
                   then (case dec_pointed dec_function_call True \<lparr>fc_Name = '''', fc_Arguments = '''', fc_CallID = ''''\<rparr>
                             (members ms ''function_call'') of
                           None \<Rightarrow> Inl json_error | Some f \<Rightarrow> Inr (item\<lparr>oi_FunctionCall := Some f\<rparr>))
                   else Inl json_error)
           | _ \<Rightarrow> Inl json_error)
      | _ \<Rightarrow> Inl json_error)"

section \<open>The request\<close>

text \<open>The function of a tool: name, description and parameters.\<close>

record tool =
  tl_Type :: string
  tl_Name :: string
  tl_Description :: string
  tl_Parameters :: "(string \<times> json) list"

record responses_request =
  rq_Model :: string
  rq_Instructions :: string
  rq_Input :: "input_item list"
  rq_Stream :: "bool option"
  rq_Temperature :: "string option"
  rq_MaxOutputTokens :: "int option"
  rq_TopP :: "string option"
  rq_Tools :: "tool list"

fun dec_items :: "json list \<Rightarrow> go_error + input_item list" where
  "dec_items [] = Inr []"
| "dec_items (v # vs) =
     (case InputItem_UnmarshalJSON v of
        Inl e \<Rightarrow> Inl e | Inr i \<Rightarrow> (case dec_items vs of Inl e \<Rightarrow> Inl e | Inr is \<Rightarrow> Inr (i # is)))"

fun dec_input :: "input_item list \<Rightarrow> json list \<Rightarrow> go_error + input_item list" where
  "dec_input x [] = Inr x"
| "dec_input x (JArr vs # ws) = (case dec_items vs of Inl e \<Rightarrow> Inl e | Inr is \<Rightarrow> dec_input is ws)"
| "dec_input x (JNull # ws) = dec_input [] ws"
| "dec_input x (v # ws) = (case dec_input x ws of Inl e \<Rightarrow> Inl e | Inr _ \<Rightarrow> Inl json_error)"

fun dec_optional :: "(json \<Rightarrow> 'a option) \<Rightarrow> 'a option \<Rightarrow> json list \<Rightarrow> 'a option option" where
  "dec_optional d x [] = Some x"
| "dec_optional d x (JNull # vs) = dec_optional d None vs"
| "dec_optional d x (v # vs) = (case d v of None \<Rightarrow> None | Some y \<Rightarrow> dec_optional d (Some y) vs)"

definition dec_bool :: "json \<Rightarrow> bool option" where
  "dec_bool v = (case v of JBool b \<Rightarrow> Some b | _ \<Rightarrow> None)"

definition dec_int :: "json \<Rightarrow> int option" where
  "dec_int v = (case v of JNum s \<Rightarrow> atoi s | _ \<Rightarrow> None)"

definition dec_float :: "(string \<Rightarrow> string option) \<Rightarrow> json \<Rightarrow> string option" where
  "dec_float fl v = (case v of JNum s \<Rightarrow> fl s | _ \<Rightarrow> None)"

fun dec_map :: "(string \<times> json) list \<Rightarrow> json list \<Rightarrow> (string \<times> json) list option" where
  "dec_map m [] = Some m"
| "dec_map m (JObj ms # vs) = dec_map (AList.clearjunk (rev ms @ m)) vs"
| "dec_map m (JNull # vs) = dec_map [] vs"
| "dec_map m (v # vs) = None"

definition no_tool :: tool where
  "no_tool = \<lparr>tl_Type = '''', tl_Name = '''', tl_Description = '''', tl_Parameters = []\<rparr>"

definition dec_tool_function :: "tool \<Rightarrow> json \<Rightarrow> tool option" where
  "dec_tool_function t v =
     (case v of
        JNull \<Rightarrow> Some t
      | JObj ms \<Rightarrow>
          (case (dec_string (tl_Name t) (members ms ''name''), dec_string (tl_Description t) (members ms ''description''),
                 dec_map (tl_Parameters t) (members ms ''parameters'')) of
             (Some n, Some d, Some p) \<Rightarrow> Some (t\<lparr>tl_Name := n, tl_Description := d, tl_Parameters := p\<rparr>) | _ \<Rightarrow> None)
      | _ \<Rightarrow> None)"

definition dec_tool :: "json \<Rightarrow> tool option" where
  "dec_tool = dec_struct (\<lambda>ms.
     case (str_field ms ''type'', dec_each dec_tool_function no_tool (members ms ''function'')) of
       (Some t, Some f) \<Rightarrow> Some (f\<lparr>tl_Type := t\<rparr>) | _ \<Rightarrow> None)"

text \<open>
  \<open>Unmarshal\<close> into \<open>ResponsesAPIRequest\<close>: the errors of the items end it, and only then the others count.
\<close>

definition dec_request :: "(string \<Rightarrow> string option) \<Rightarrow> json \<Rightarrow> go_error + responses_request" where
  "dec_request fl data =
     (case data of
        JNull \<Rightarrow> Inr \<lparr>rq_Model = '''', rq_Instructions = '''', rq_Input = [], rq_Stream = None, rq_Temperature = None,
          rq_MaxOutputTokens = None, rq_TopP = None, rq_Tools = []\<rparr>
      | JObj ms \<Rightarrow>
          (case dec_input [] (members ms ''input'') of
             Inl e \<Rightarrow> Inl e
           | Inr input \<Rightarrow>
               (case (str_field ms ''model'', str_field ms ''instructions'', dec_optional dec_bool None (members ms ''stream''),
                      dec_optional (dec_float fl) None (members ms ''temperature''),
                      dec_optional dec_int None (members ms ''max_output_tokens''),
                      dec_optional (dec_float fl) None (members ms ''top_p''), dec_slice dec_tool [] (members ms ''tools''),
                      str_field ms ''previous_response_id'') of
                  (Some m, Some ins, Some st, Some temp, Some mx, Some tp, Some tools, Some prev) \<Rightarrow>
                    Inr \<lparr>rq_Model = m, rq_Instructions = ins, rq_Input = input, rq_Stream = st, rq_Temperature = temp,
                      rq_MaxOutputTokens = mx, rq_TopP = tp, rq_Tools = tools\<rparr>
                | _ \<Rightarrow> Inl json_error))
      | _ \<Rightarrow> Inl json_error)"

section \<open>Conversion\<close>

record tool_call =
  tc_ID :: string
  tc_Type :: string
  tc_Name :: string
  tc_Arguments :: string

record chat_msg =
  cm_Role :: string
  cm_Content :: string
  cm_ToolCallID :: string
  cm_ToolCalls :: "tool_call list"

record chat_request =
  cq_Model :: string
  cq_Messages :: "chat_msg list"
  cq_Stream :: bool
  cq_Temperature :: "string option"
  cq_MaxTokens :: "int option"
  cq_TopP :: "string option"
  cq_Tools :: "tool list"

definition filterFunctionTools :: "tool list \<Rightarrow> tool list" where
  "filterFunctionTools tools = filter (\<lambda>t. tl_Type t = ''function'') tools"

definition flushToolCalls :: "chat_msg list \<Rightarrow> tool_call list \<Rightarrow> chat_msg list \<times> tool_call list" where
  "flushToolCalls messages pending =
     (if pending = [] then (messages, [])
      else (messages @ [\<lparr>cm_Role = ''assistant'', cm_Content = '''', cm_ToolCallID = '''', cm_ToolCalls = pending\<rparr>], []))"

definition convert_item :: "input_item \<Rightarrow> chat_msg list \<times> tool_call list \<Rightarrow> chat_msg list \<times> tool_call list" where
  "convert_item item st =
     (case st of (messages, pending) \<Rightarrow>
        if ii_Type item = ''message''
        then let (messages, pending) = flushToolCalls messages pending
             in (case ii_Message item of
                   None \<Rightarrow> (messages, pending)
                 | Some m \<Rightarrow>
                     if mi_Role m = '''' then (messages, pending)
                     else (messages @ [\<lparr>cm_Role = mi_Role m, cm_Content = MessageContent_Text (mi_Content m), cm_ToolCallID = '''',
                             cm_ToolCalls = []\<rparr>], pending))
        else if ii_Type item = ''function_call''
        then (case ii_FunctionCallInput item of
                None \<Rightarrow> (messages, pending)
              | Some c \<Rightarrow> (messages, pending @ [\<lparr>tc_ID = fi_CallID c, tc_Type = ''function'', tc_Name = fi_Name c,
                  tc_Arguments = fi_Arguments c\<rparr>]))
        else if ii_Type item = ''function_call_output''
        then let (messages, pending) = flushToolCalls messages pending
             in (case ii_FunctionCallOutput item of
                   None \<Rightarrow> (messages, pending)
                 | Some f \<Rightarrow> (messages @ [\<lparr>cm_Role = ''tool'', cm_Content = fo_Output f, cm_ToolCallID = fo_CallID f,
                     cm_ToolCalls = []\<rparr>], pending))
        else (messages, pending))"

definition convert_messages :: "responses_request \<Rightarrow> chat_msg list" where
  "convert_messages req =
     (let start = (if rq_Instructions req = '''' then []
            else [\<lparr>cm_Role = ''system'', cm_Content = rq_Instructions req, cm_ToolCallID = '''', cm_ToolCalls = []\<rparr>]);
          (messages, pending) = fold convert_item (rq_Input req) (start, [])
      in fst (flushToolCalls messages pending))"

definition ConvertRequest :: "responses_request option \<Rightarrow> go_error + chat_request" where
  "ConvertRequest req =
     (case req of
        None \<Rightarrow> Inl (OtherError ''responses converter: request is nil'')
      | Some req \<Rightarrow>
          Inr \<lparr>cq_Model = rq_Model req, cq_Messages = convert_messages req, cq_Stream = (rq_Stream req = Some True),
            cq_Temperature = rq_Temperature req, cq_MaxTokens = rq_MaxOutputTokens req, cq_TopP = rq_TopP req,
            cq_Tools = filterFunctionTools (rq_Tools req)\<rparr>)"

section \<open>Responses\<close>

record chat_choice =
  cc_Role :: string
  cc_Content :: string
  cc_ToolCalls :: "tool_call list"
  cc_FinishReason :: "string option"

record chat_response =
  cp_Model :: string
  cp_Choices :: "chat_choice list"
  cp_Usage :: "int \<times> int \<times> int"

definition mapFinishReason :: "string option \<Rightarrow> string" where
  "mapFinishReason reason =
     (case reason of None \<Rightarrow> ''completed''
      | Some r \<Rightarrow> if r \<in> {''stop'', ''tool_calls''} then ''completed'' else ''incomplete'')"

definition buildOutputItems :: "string \<Rightarrow> chat_choice \<Rightarrow> output_item list" where
  "buildOutputItems itemID msg =
     \<lparr>oi_ID = itemID, oi_Type = ''message'',
      oi_Message = Some (cc_Role msg, if cc_Content msg = '''' then [] else [(''output_text'', cc_Content msg)]),
      oi_FunctionCall = None\<rparr>
     # map (\<lambda>tc. \<lparr>oi_ID = tc_ID tc, oi_Type = ''function_call'', oi_Message = None,
         oi_FunctionCall = Some \<lparr>fc_Name = tc_Name tc, fc_Arguments = tc_Arguments tc, fc_CallID = tc_ID tc\<rparr>\<rparr>) (cc_ToolCalls msg)"

text \<open>\<open>responseID\<close>, \<open>itemID\<close> and \<open>now\<close> are the fresh identifiers and the clock; usage is prompt, completion and total.\<close>

definition ConvertResponse ::
    "string \<Rightarrow> string \<Rightarrow> int \<Rightarrow> chat_response option \<Rightarrow> go_error + responses_response" where
  "ConvertResponse responseID itemID now chatResp =
     (case chatResp of
        None \<Rightarrow> Inl (OtherError ''responses converter: response is nil'')
      | Some resp \<Rightarrow>
          (case cp_Choices resp of
             [] \<Rightarrow> Inl (OtherError ''responses converter: no choices in response'')
           | choice # _ \<Rightarrow>
               Inr \<lparr>rr_ID = responseID, rr_CreatedAt = now, rr_Model = cp_Model resp,
                 rr_Status = mapFinishReason (cc_FinishReason choice), rr_Output = buildOutputItems itemID choice,
                 rr_Usage = cp_Usage resp\<rparr>))"

text \<open>\<open>GenerateItemID\<close> and \<open>GenerateResponseID\<close>, from the formatted time and eight random bytes.\<close>

definition id_charset :: string where
  "id_charset = ''abcdefghijklmnopqrstuvwxyzABCDEFGHIJKLMNOPQRSTUVWXYZ0123456789''"

definition randomString :: "nat list \<Rightarrow> string" where
  "randomString randBytes = map (\<lambda>b. id_charset ! (b mod length id_charset)) randBytes"

definition GenerateItemID :: "string \<Rightarrow> string \<Rightarrow> nat list \<Rightarrow> string" where
  "GenerateItemID pre time randBytes = pre @ ''_'' @ time @ ''_'' @ randomString randBytes"

definition GenerateResponseID :: "string \<Rightarrow> nat list \<Rightarrow> string" where
  "GenerateResponseID time randBytes = ''resp_'' @ time @ ''_'' @ randomString randBytes"

end
