(* ===== verification/Responses_Converter_Facts.thy ===== *)
theory Responses_Converter_Facts
  imports Responses_Converter
begin

text \<open>
  Items survive encoding and decoding; the conversion keeps the conversation and the order of calls and answers that chat
  completions ask for; and the inputs of clients that the decoder does not understand.
\<close>

section \<open>Round trips\<close>

lemma members_hit [simp]: "members ((k, v) # ms) k' = (if map to_lower k = k' then v # members ms k' else members ms k')"
  by (simp add: members_def)

lemma members_Nil [simp]: "members [] k = []"
  by (simp add: members_def)

definition content_ok :: "message_content \<Rightarrow> bool" where
  "content_ok mc \<longleftrightarrow> (if mc_IsString mc then mc_Parts mc = [] else mc_Raw mc = '''' \<and> mc_Parts mc \<noteq> [])"

definition input_item_ok :: "input_item \<Rightarrow> bool" where
  "input_item_ok i \<longleftrightarrow>
     ii_Type i = ''message'' \<and> (\<exists>m. ii_Message i = Some m \<and> content_ok (mi_Content m)) \<and> ii_FunctionCallInput i = None \<and>
       ii_FunctionCallOutput i = None \<or>
     ii_Type i = ''function_call'' \<and> ii_FunctionCallInput i \<noteq> None \<and> ii_Message i = None \<and> ii_FunctionCallOutput i = None \<or>
     ii_Type i = ''function_call_output'' \<and> ii_FunctionCallOutput i \<noteq> None \<and> ii_Message i = None \<and> ii_FunctionCallInput i = None"

lemmas lower_names = to_lower_def is_upper_def

lemma dec_part_json [simp]: "dec_part (part_json p) = Some p"
  by (simp add: dec_part_def part_json_def str_field_def lower_names)

lemma those_map_Some: "(\<And>x. x \<in> set xs \<Longrightarrow> f (g x) = Some x) \<Longrightarrow> those (map f (map g xs)) = Some xs"
  by (induction xs) auto

lemma content_roundtrip:
  assumes "content_ok mc"
  shows "MessageContent_UnmarshalJSON no_content (MessageContent_MarshalJSON mc) = Some mc"
proof (cases "mc_IsString mc")
  case True
  then show ?thesis using assms by (simp add: MessageContent_UnmarshalJSON_def MessageContent_MarshalJSON_def no_content_def content_ok_def)
next
  case False
  have "those (map dec_part (map part_json (mc_Parts mc))) = Some (mc_Parts mc)" by (rule those_map_Some) simp
  then show ?thesis
    using False assms by (simp add: MessageContent_UnmarshalJSON_def MessageContent_MarshalJSON_def no_content_def content_ok_def)
qed

lemma message_roundtrip:
  "content_ok (mi_Content m) \<Longrightarrow> dec_message_input no_message (message_input_json m) = Some m"
  using content_roundtrip [of "mi_Content m"]
  by (simp add: dec_message_input_def message_input_json_def no_message_def lower_names)

lemma item_roundtrip:
  assumes "input_item_ok i"
  shows "\<exists>j. InputItem_MarshalJSON i = Some j \<and> InputItem_UnmarshalJSON j = Inr i"
proof -
  consider (message) m where "ii_Type i = ''message''" "ii_Message i = Some m" "content_ok (mi_Content m)"
      "ii_FunctionCallInput i = None" "ii_FunctionCallOutput i = None"
    | (call) c where "ii_Type i = ''function_call''" "ii_FunctionCallInput i = Some c" "ii_Message i = None" "ii_FunctionCallOutput i = None"
    | (answer) f where "ii_Type i = ''function_call_output''" "ii_FunctionCallOutput i = Some f" "ii_Message i = None"
      "ii_FunctionCallInput i = None"
    using assms by (auto simp: input_item_ok_def)
  then show ?thesis
  proof cases
    case message
    obtain ms where ms: "message_input_json m = JObj ms" by (simp add: message_input_json_def)
    have "dec_pointed dec_message_input True no_message [JObj ms] = Some m"
      using message_roundtrip [OF message(3)] by (simp add: ms)
    then show ?thesis
      using message by (simp add: InputItem_MarshalJSON_def InputItem_UnmarshalJSON_def ms lower_names)
  next
    case call
    then show ?thesis
      by (simp add: InputItem_MarshalJSON_def InputItem_UnmarshalJSON_def dec_call_input_def str_field_def lower_names)
  next
    case answer
    then show ?thesis
      by (simp add: InputItem_MarshalJSON_def InputItem_UnmarshalJSON_def dec_call_output_def lower_names)
  qed
qed

text \<open>
  What is written for an item of a request is read back as the same item, for messages with a text or with parts, calls
  and outputs of calls. (A message with no parts is written as null, which is read as the empty text.)
\<close>

lemma input_item_roundtrip:
  assumes "input_item_ok i"
  shows "\<exists>j. InputItem_MarshalJSON i = Some j \<and> InputItem_UnmarshalJSON j = Inr i"
  using item_roundtrip [OF assms] .

definition output_item_ok :: "output_item \<Rightarrow> bool" where
  "output_item_ok i \<longleftrightarrow>
     oi_Type i = ''message'' \<and> oi_Message i \<noteq> None \<and> oi_FunctionCall i = None \<or>
     oi_Type i = ''function_call'' \<and> oi_FunctionCall i \<noteq> None \<and> oi_Message i = None"

lemma output_item_roundtrip:
  assumes "output_item_ok i"
  shows "\<exists>j. OutputItem_MarshalJSON i = Some j \<and> OutputItem_UnmarshalJSON j = Inr i"
proof (cases "oi_Type i = ''message''")
  case True
  then obtain r ps where m: "oi_Message i = Some (r, ps)" "oi_FunctionCall i = None" using assms by (auto simp: output_item_ok_def)
  have "those (map dec_part (map part_json ps)) = Some ps" by (rule those_map_Some) simp
  then show ?thesis
    using True m by (simp add: OutputItem_MarshalJSON_def OutputItem_UnmarshalJSON_def dec_output_message_def str_field_def lower_names)
next
  case False
  then obtain f where f: "oi_Type i = ''function_call''" "oi_FunctionCall i = Some f" "oi_Message i = None"
    using assms by (auto simp: output_item_ok_def)
  then show ?thesis
    by (cases "fc_CallID f = ''''") (simp_all add: OutputItem_MarshalJSON_def OutputItem_UnmarshalJSON_def dec_function_call_def str_field_def lower_names)
qed

section \<open>The conversation\<close>

text \<open>What a request says, as a list of turns: something said in a role, a call, an answer.\<close>

datatype turn = Said string string | Called string string string | Returned string string

fun item_turns :: "input_item \<Rightarrow> turn list" where
  "item_turns i =
     (if ii_Type i = ''message''
      then (case ii_Message i of
              Some m \<Rightarrow> if mi_Role m = '''' then [] else [Said (mi_Role m) (MessageContent_Text (mi_Content m))] | None \<Rightarrow> [])
      else if ii_Type i = ''function_call''
      then (case ii_FunctionCallInput i of Some c \<Rightarrow> [Called (fi_CallID c) (fi_Name c) (fi_Arguments c)] | None \<Rightarrow> [])
      else if ii_Type i = ''function_call_output''
      then (case ii_FunctionCallOutput i of Some f \<Rightarrow> [Returned (fo_CallID f) (fo_Output f)] | None \<Rightarrow> [])
      else [])"

definition call_turns :: "tool_call list \<Rightarrow> turn list" where
  "call_turns tcs = map (\<lambda>tc. Called (tc_ID tc) (tc_Name tc) (tc_Arguments tc)) tcs"

definition chat_turns :: "chat_msg \<Rightarrow> turn list" where
  "chat_turns m =
     (if cm_ToolCalls m \<noteq> [] then call_turns (cm_ToolCalls m)
      else if cm_Role m = ''tool'' then [Returned (cm_ToolCallID m) (cm_Content m)] else [Said (cm_Role m) (cm_Content m)])"

definition state_turns :: "chat_msg list \<times> tool_call list \<Rightarrow> turn list" where
  "state_turns st = concat (map chat_turns (fst st)) @ call_turns (snd st)"

definition plain_roles :: "input_item \<Rightarrow> bool" where
  "plain_roles i \<longleftrightarrow> (\<forall>m. ii_Message i = Some m \<longrightarrow> mi_Role m \<noteq> ''tool'')"

lemma flush_turns: "state_turns (flushToolCalls ms pending) = state_turns (ms, pending)"
  by (simp add: flushToolCalls_def state_turns_def chat_turns_def call_turns_def)

lemma flush_snd [simp]: "snd (flushToolCalls ms pending) = []"
  by (simp add: flushToolCalls_def)

lemma convert_item_turns:
  assumes "plain_roles i"
  shows "state_turns (convert_item i st) = state_turns st @ item_turns i"
proof -
  obtain ms pending where st: "st = (ms, pending)" by fastforce
  obtain ms' where f: "flushToolCalls ms pending = (ms', [])" using flush_snd [of ms pending] by (metis prod.collapse)
  have t: "concat (map chat_turns ms') = state_turns (ms, pending)"
    using flush_turns [of ms pending] by (simp add: f state_turns_def call_turns_def)
  show ?thesis
    using assms t
    by (auto simp: st convert_item_def f Let_def state_turns_def chat_turns_def call_turns_def plain_roles_def split: option.split)
qed

lemma fold_convert_turns:
  "\<forall>i \<in> set items. plain_roles i \<Longrightarrow> state_turns (fold convert_item items st) = state_turns st @ concat (map item_turns items)"
  by (induction items arbitrary: st) (simp_all add: convert_item_turns)

lemma conversation_of:
  assumes "\<forall>i \<in> set (rq_Input req). plain_roles i" and "ConvertRequest (Some req) = Inr chat"
  shows "concat (map chat_turns (cq_Messages chat)) =
    (if rq_Instructions req = '''' then [] else [Said ''system'' (rq_Instructions req)]) @ concat (map item_turns (rq_Input req))"
proof -
  let ?start = "if rq_Instructions req = '''' then []
    else [\<lparr>cm_Role = ''system'', cm_Content = rq_Instructions req, cm_ToolCallID = '''', cm_ToolCalls = []\<rparr>]"
  obtain ms pending where st: "fold convert_item (rq_Input req) (?start, []) = (ms, pending)" by fastforce
  have "cq_Messages chat = fst (flushToolCalls ms pending)"
    using assms(2) st by (auto simp: ConvertRequest_def convert_messages_def Let_def)
  moreover have "state_turns (ms, pending) = state_turns (?start, []) @ concat (map item_turns (rq_Input req))"
    using fold_convert_turns [OF assms(1), of "(?start, [])"] by (simp only: st)
  ultimately show ?thesis
    using flush_turns [of ms pending] by (simp add: state_turns_def chat_turns_def call_turns_def)
qed

text \<open>
  The conversion keeps the conversation: the chat messages say, call and return exactly what the items did, in the same
  order, after the instructions as a system message; only messages without a role are left out.
\<close>

lemma conversation_kept:
  assumes "\<forall>i \<in> set (rq_Input req). plain_roles i" and "ConvertRequest (Some req) = Inr chat"
  shows "concat (map chat_turns (cq_Messages chat)) =
    (if rq_Instructions req = '''' then [] else [Said ''system'' (rq_Instructions req)]) @ concat (map item_turns (rq_Input req))"
  by (rule conversation_of [OF assms])

section \<open>Calls and answers\<close>

text \<open>
  Chat completions want every answer of a tool in the block behind the message with its call. The same for items: calls are
  open until a message or, once answered, the next calls.
\<close>

fun answers_ok :: "string set \<Rightarrow> chat_msg list \<Rightarrow> bool" where
  "answers_ok ids [] = True"
| "answers_ok ids (m # ms) =
     (if cm_Role m = ''tool'' then cm_ToolCallID m \<in> ids \<and> answers_ok ids ms
      else answers_ok (tc_ID ` set (cm_ToolCalls m)) ms)"

fun turns_ok :: "string set \<Rightarrow> bool \<Rightarrow> turn list \<Rightarrow> bool" where
  "turns_ok ids calling [] = True"
| "turns_ok ids calling (Said r t # ts) = turns_ok {} False ts"
| "turns_ok ids calling (Called i n a # ts) = turns_ok (insert i (if calling then ids else {})) True ts"
| "turns_ok ids calling (Returned i x # ts) = (i \<in> ids \<and> turns_ok ids False ts)"

lemma answers_ok_append: "answers_ok ids (ms @ ms') = (answers_ok ids ms \<and>
    answers_ok (fold (\<lambda>m ids. if cm_Role m = ''tool'' then ids else tc_ID ` set (cm_ToolCalls m)) ms ids) ms')"
  by (induction ms arbitrary: ids) auto

lemma turns_ok_calls:
  "tcs \<noteq> [] \<Longrightarrow> turns_ok ids c (call_turns tcs @ ts) = turns_ok (tc_ID ` set tcs \<union> (if c then ids else {})) True ts"
  by (induction tcs arbitrary: ids c rule: list_nonempty_induct) (auto simp: call_turns_def insert_commute)

text \<open>A message that was converted: calls are in assistant messages only, and never in two messages in a row.\<close>

definition msg_ok :: "chat_msg \<Rightarrow> bool" where
  "msg_ok m \<longleftrightarrow> (cm_ToolCalls m \<noteq> [] \<longrightarrow> cm_Role m = ''assistant'')"

definition apart :: "chat_msg list \<Rightarrow> bool" where
  "apart ms \<longleftrightarrow> successively (\<lambda>m m'. cm_ToolCalls m = [] \<or> cm_ToolCalls m' = []) ms"

lemma apart_simps [simp]:
  "apart []" "apart [m]" "apart (m # m' # ms) = ((cm_ToolCalls m = [] \<or> cm_ToolCalls m' = []) \<and> apart (m' # ms))"
  "apart (ms @ [m]) = (apart ms \<and> (ms \<noteq> [] \<longrightarrow> cm_ToolCalls (last ms) = [] \<or> cm_ToolCalls m = []))"
  by (auto simp: apart_def successively_append_iff)

lemma apart_Cons: "apart (m # ms) \<Longrightarrow> apart ms \<and> (ms \<noteq> [] \<longrightarrow> cm_ToolCalls m \<noteq> [] \<longrightarrow> cm_ToolCalls (hd ms) = [])"
  by (cases ms) auto

lemma answers_turns:
  "\<forall>m \<in> set ms. msg_ok m \<Longrightarrow> apart ms \<Longrightarrow> (c \<and> ms \<noteq> [] \<longrightarrow> cm_ToolCalls (hd ms) = []) \<Longrightarrow>
    answers_ok ids ms = turns_ok ids c (concat (map chat_turns ms))"
proof (induction ms arbitrary: ids c)
  case (Cons m ms)
  note ap = apart_Cons [OF Cons.prems(2)]
  have IH: "c' \<and> ms \<noteq> [] \<longrightarrow> cm_ToolCalls (hd ms) = [] \<Longrightarrow>
      answers_ok ids' ms = turns_ok ids' c' (concat (map chat_turns ms))" for ids' c'
    by (rule Cons.IH) (use Cons.prems(1) ap in auto)
  show ?case
  proof (cases "cm_ToolCalls m = []")
    case True
    then have "chat_turns m = (if cm_Role m = ''tool'' then [Returned (cm_ToolCallID m) (cm_Content m)] else [Said (cm_Role m) (cm_Content m)])"
      by (simp add: chat_turns_def)
    then show ?thesis using True IH [of False] by simp
  next
    case False
    then have "cm_Role m = ''assistant''" "\<not> c" using Cons.prems(1,3) by (auto simp: msg_ok_def)
    moreover have "chat_turns m = call_turns (cm_ToolCalls m)" using False by (simp add: chat_turns_def)
    ultimately show ?thesis
      using False IH [of True] ap by (simp add: turns_ok_calls)
  qed
qed simp

definition converted_ok :: "chat_msg list \<times> tool_call list \<Rightarrow> bool" where
  "converted_ok st \<longleftrightarrow> (\<forall>m \<in> set (fst st). msg_ok m) \<and> apart (fst st) \<and>
     (snd st \<noteq> [] \<and> fst st \<noteq> [] \<longrightarrow> cm_ToolCalls (last (fst st)) = [])"

lemma flush_ok: "converted_ok (ms, pending) \<Longrightarrow> converted_ok (flushToolCalls ms pending)"
  by (auto simp: converted_ok_def flushToolCalls_def msg_ok_def)

lemma said_ok: "converted_ok (ms, []) \<Longrightarrow> cm_ToolCalls m = [] \<Longrightarrow> converted_ok (ms @ [m], p)"
  by (auto simp: converted_ok_def msg_ok_def)

text \<open>Items that say something: messages with a role, and complete calls and outputs.\<close>

definition full_item :: "input_item \<Rightarrow> bool" where
  "full_item i \<longleftrightarrow> plain_roles i \<and> item_turns i \<noteq> []"

lemma convert_item_ok:
  assumes "full_item i" and "converted_ok st" and "snd st = [] \<longrightarrow> fst st = [] \<or> cm_ToolCalls (last (fst st)) = []"
  shows "converted_ok (convert_item i st) \<and>
    (snd (convert_item i st) = [] \<longrightarrow> fst (convert_item i st) = [] \<or> cm_ToolCalls (last (fst (convert_item i st))) = [])"
proof -
  obtain ms pending where st: "st = (ms, pending)" by fastforce
  obtain ms' where f: "flushToolCalls ms pending = (ms', [])" using flush_snd [of ms pending] by (metis prod.collapse)
  have ok': "converted_ok (ms', [])" using flush_ok [of ms pending] assms(2) by (simp add: st f)
  consider (said) m where "ii_Type i = ''message''" "ii_Message i = Some m" "mi_Role m \<noteq> ''''"
    | (called) c where "ii_Type i = ''function_call''" "ii_FunctionCallInput i = Some c"
    | (returned) x where "ii_Type i = ''function_call_output''" "ii_FunctionCallOutput i = Some x"
    using assms(1) by (auto simp: full_item_def split: if_splits option.splits)
  then show ?thesis
  proof cases
    case said
    then show ?thesis using said_ok [OF ok'] by (simp add: convert_item_def st f Let_def)
  next
    case called
    then show ?thesis using assms(2,3) by (auto simp: convert_item_def st converted_ok_def)
  next
    case returned
    then show ?thesis using said_ok [OF ok'] by (simp add: convert_item_def st f Let_def)
  qed
qed

lemma fold_convert_ok:
  "\<forall>i \<in> set items. full_item i \<Longrightarrow> converted_ok st \<Longrightarrow> snd st = [] \<longrightarrow> fst st = [] \<or> cm_ToolCalls (last (fst st)) = [] \<Longrightarrow>
    converted_ok (fold convert_item items st)"
  by (induction items arbitrary: st) (simp_all add: convert_item_ok)

text \<open>
  C29: The conversion groups calls exactly as chat completions need them. For complete items, every answer of a tool in
  the converted request stands in the block behind the message with its call if and only if the items had their calls
  and outputs in such an order.
\<close>

lemma answers_follow_calls:
  assumes "\<forall>i \<in> set (rq_Input req). full_item i" and "ConvertRequest (Some req) = Inr chat"
  shows "answers_ok {} (cq_Messages chat) = turns_ok {} False (concat (map item_turns (rq_Input req)))"
proof -
  let ?start = "if rq_Instructions req = '''' then []
    else [\<lparr>cm_Role = ''system'', cm_Content = rq_Instructions req, cm_ToolCallID = '''', cm_ToolCalls = []\<rparr>]"
  obtain ms pending where st: "fold convert_item (rq_Input req) (?start, []) = (ms, pending)" by fastforce
  have msgs: "cq_Messages chat = fst (flushToolCalls ms pending)"
    using assms(2) st by (auto simp: ConvertRequest_def convert_messages_def Let_def)
  have "converted_ok (fold convert_item (rq_Input req) (?start, []))"
    by (rule fold_convert_ok [OF assms(1)]) (simp_all add: converted_ok_def msg_ok_def)
  then have ok: "converted_ok (flushToolCalls ms pending)" unfolding st by (rule flush_ok)
  have plain: "\<forall>i \<in> set (rq_Input req). plain_roles i" using assms(1) by (simp add: full_item_def)
  have "answers_ok {} (cq_Messages chat) = turns_ok {} False (concat (map chat_turns (cq_Messages chat)))"
    by (rule answers_turns) (use ok msgs in \<open>simp_all add: converted_ok_def\<close>)
  then show ?thesis using conversation_of [OF plain assms(2)] by simp
qed

section \<open>What the decoder does not understand\<close>

lemma dec_items_null:
  "list_all (\<lambda>v. \<exists>i. InputItem_UnmarshalJSON v = Inr i) vs \<Longrightarrow> dec_items (vs @ JNull # ws) = Inl (GoPanic ''nil pointer dereference'')"
  by (induction vs) (auto simp: InputItem_UnmarshalJSON_def)

text \<open>
  A null in the input of a request crashes its handler: behind any items that are fine, the decoder of the
  item reads through a nil pointer, whatever the rest of the request is.
\<close>

lemma null_item_panics:
  assumes "members ms ''input'' = [JArr (map (\<lambda>i. the (InputItem_MarshalJSON i)) items @ JNull # ws)]"
    and "\<forall>i \<in> set items. input_item_ok i"
  shows "dec_request fl (JObj ms) = Inl (GoPanic ''nil pointer dereference'')"
proof -
  have "list_all (\<lambda>v. \<exists>i. InputItem_UnmarshalJSON v = Inr i) (map (\<lambda>i. the (InputItem_MarshalJSON i)) items)"
    using assms(2) item_roundtrip by (fastforce simp: list_all_iff)
  then have "dec_items (map (\<lambda>i. the (InputItem_MarshalJSON i)) items @ JNull # ws) = Inl (GoPanic ''nil pointer dereference'')"
    by (rule dec_items_null)
  then show ?thesis by (simp add: dec_request_def assms(1))
qed

text \<open>A message as the responses API documents it: role and content beside the type.\<close>

definition api_message :: "string \<times> json \<Rightarrow> json" where
  "api_message m = JObj [(''type'', JStr ''message''), (''role'', JStr (fst m)), (''content'', snd m)]"

lemma api_message_decoded:
  "InputItem_UnmarshalJSON (api_message m) = Inr \<lparr>ii_Type = ''message'', ii_Message = Some no_message, ii_FunctionCallInput = None,
     ii_FunctionCallOutput = None\<rparr>"
  by (simp add: api_message_def InputItem_UnmarshalJSON_def lower_names)

lemma dec_items_api: "dec_items (map api_message ms) = Inr (map (\<lambda>m. \<lparr>ii_Type = ''message'', ii_Message = Some no_message,
    ii_FunctionCallInput = None, ii_FunctionCallOutput = None\<rparr>) ms)"
  by (induction ms) (simp_all add: api_message_decoded)

lemma fold_silent: "fold convert_item (map (\<lambda>m. \<lparr>ii_Type = ''message'', ii_Message = Some no_message, ii_FunctionCallInput = None,
    ii_FunctionCallOutput = None\<rparr>) xs) (ms, []) = (ms, [])"
  by (induction xs) (simp_all add: convert_item_def flushToolCalls_def no_message_def)

text \<open>
  Messages in the documented form of the responses API, with role and content beside the type, are accepted and
  lost: the decoder looks for them under a member of their own, and the chat request has no message of the user at all.
\<close>

lemma api_messages_lost:
  assumes "dec_request fl (JObj [(''model'', JStr model), (''input'', JArr (map api_message msgs))]) = Inr req"
    and "ConvertRequest (Some req) = Inr chat"
  shows "cq_Messages chat = []"
proof -
  have "rq_Instructions req = ''''" "rq_Input req = map (\<lambda>m. \<lparr>ii_Type = ''message'', ii_Message = Some no_message,
      ii_FunctionCallInput = None, ii_FunctionCallOutput = None\<rparr>) msgs"
    using assms(1) by (auto simp: dec_request_def dec_items_api lower_names str_field_def)
  then show ?thesis
    using assms(2) fold_silent [of msgs "[]"] by (auto simp: ConvertRequest_def convert_messages_def Let_def flushToolCalls_def)
qed

section \<open>Witnesses\<close>

definition demo_said :: input_item where
  "demo_said = \<lparr>ii_Type = ''message'', ii_Message = Some \<lparr>mi_Role = ''user'', mi_Content = \<lparr>mc_Raw = ''hi'', mc_Parts = [], mc_IsString = True\<rparr>\<rparr>,
     ii_FunctionCallInput = None, ii_FunctionCallOutput = None\<rparr>"

definition demo_call :: input_item where
  "demo_call = \<lparr>ii_Type = ''function_call'', ii_Message = None, ii_FunctionCallInput = Some \<lparr>fi_ID = ''1'', fi_CallID = ''c'', fi_Name = ''f'',
     fi_Arguments = ''{}''\<rparr>, ii_FunctionCallOutput = None\<rparr>"

definition demo_answer :: input_item where
  "demo_answer = \<lparr>ii_Type = ''function_call_output'', ii_Message = None, ii_FunctionCallInput = None,
     ii_FunctionCallOutput = Some \<lparr>fo_CallID = ''c'', fo_Output = ''x''\<rparr>\<rparr>"

definition demo_responses :: responses_request where
  "demo_responses = \<lparr>rq_Model = ''m'', rq_Instructions = '''', rq_Input = [demo_said, demo_call, demo_answer], rq_Stream = None,
     rq_Temperature = None, rq_MaxOutputTokens = None, rq_TopP = None, rq_Tools = []\<rparr>"

lemma input_item_roundtrip_witness:
  "\<exists>j. InputItem_MarshalJSON demo_said = Some j \<and> InputItem_UnmarshalJSON j = Inr demo_said"
  by (rule input_item_roundtrip) (simp add: input_item_ok_def demo_said_def content_ok_def)

lemma conversation_kept_witness:
  "\<exists>chat. ConvertRequest (Some demo_responses) = Inr chat \<and>
     concat (map chat_turns (cq_Messages chat)) = [Said ''user'' ''hi'', Called ''c'' ''f'' ''{}'', Returned ''c'' ''x'']"
proof -
  have c: "ConvertRequest (Some demo_responses) = Inr (projr (ConvertRequest (Some demo_responses)))" by (simp add: ConvertRequest_def)
  have "\<forall>i \<in> set (rq_Input demo_responses). plain_roles i"
    by (simp add: demo_responses_def demo_said_def demo_call_def demo_answer_def plain_roles_def)
  from conversation_kept [OF this c] show ?thesis
    by (intro exI [of _ "projr (ConvertRequest (Some demo_responses))"])
      (simp add: c [symmetric], simp add: demo_responses_def demo_said_def demo_call_def demo_answer_def MessageContent_Text_def)
qed

lemma answers_follow_calls_witness:
  "\<exists>chat. ConvertRequest (Some demo_responses) = Inr chat \<and> answers_ok {} (cq_Messages chat)"
proof -
  have c: "ConvertRequest (Some demo_responses) = Inr (projr (ConvertRequest (Some demo_responses)))" by (simp add: ConvertRequest_def)
  have "\<forall>i \<in> set (rq_Input demo_responses). full_item i"
    by (simp add: demo_responses_def demo_said_def demo_call_def demo_answer_def plain_roles_def full_item_def)
  from answers_follow_calls [OF this c] show ?thesis
    by (intro exI [of _ "projr (ConvertRequest (Some demo_responses))"])
      (simp add: c [symmetric], simp add: demo_responses_def demo_said_def demo_call_def demo_answer_def)
qed

lemma null_item_panics_witness:
  "dec_request (\<lambda>s. Some s) (JObj [(''model'', JStr ''m''), (''input'', JArr [JNull])]) = Inl (GoPanic ''nil pointer dereference'')"
  by (rule null_item_panics [of _ "[]" "[]"]) (simp_all add: lower_names)

lemma api_messages_lost_witness:
  "\<exists>req chat. dec_request (\<lambda>s. Some s) (JObj [(''model'', JStr ''m''), (''input'', JArr (map api_message [(''user'', JStr ''hi'')]))]) = Inr req \<and>
     ConvertRequest (Some req) = Inr chat \<and> cq_Messages chat = []"
proof -
  let ?d = "dec_request (\<lambda>s. Some s) (JObj [(''model'', JStr ''m''), (''input'', JArr (map api_message [(''user'', JStr ''hi'')]))])"
  obtain req where r: "?d = Inr req" using dec_items_api [of "[(''user'', JStr ''hi'')]"] by (auto simp: dec_request_def lower_names str_field_def)
  obtain chat where c: "ConvertRequest (Some req) = Inr chat" by (simp add: ConvertRequest_def)
  show ?thesis using api_messages_lost [OF r c] r c by blast
qed

end
