(* ===== verification/Codex_Images.thy ===== *)
theory Codex_Images
  imports Client_Auth Request_Prep SSE_Events
begin

text \<open>
  The images API on top of the Codex backend (\<open>images_handler.go\<close>, \<open>images_converter.go\<close>, \<open>images_sse.go\<close>,
  \<open>images_types.go\<close>) and its configuration (\<open>CodexImagesConfig\<close> in \<open>config.go\<close>). What the backend answers, multipart parsing and
  content sniffing are arguments.
\<close>

section \<open>Configuration\<close>

record codex_images_config =
  ci_Enabled :: bool
  ci_AuthFile :: string
  ci_BaseURL :: string
  ci_Model :: string
  ci_Originator :: string
  ci_UserAgent :: string
  ci_Instructions :: string
  ci_RequestTimeoutMs :: int
  ci_MaxImagesPerRequest :: int

definition TrimRight_slash :: "string \<Rightarrow> string" where
  "TrimRight_slash s = rev (dropWhile (\<lambda>c. c = CHR ''/'') (rev s))"

definition Codex_GetBaseURL :: "codex_images_config \<Rightarrow> string" where
  "Codex_GetBaseURL c = (if ci_BaseURL c = '''' then ''https://chatgpt.com'' else TrimRight_slash (ci_BaseURL c))"

definition Codex_GetModel :: "codex_images_config \<Rightarrow> string" where
  "Codex_GetModel c = (if ci_Model c = '''' then ''gpt-5.6-luna'' else ci_Model c)"

definition Codex_GetOriginator :: "codex_images_config \<Rightarrow> string" where
  "Codex_GetOriginator c = (if ci_Originator c = '''' then ''codex_cli_rs'' else ci_Originator c)"

definition Codex_GetUserAgent :: "codex_images_config \<Rightarrow> string" where
  "Codex_GetUserAgent c =
     (if ci_UserAgent c = '''' then ''codex_cli_rs/0.55.0 (Windows 11; x86_64) WindowsTerminal'' else ci_UserAgent c)"

definition Codex_GetInstructions :: "codex_images_config \<Rightarrow> string" where
  "Codex_GetInstructions c =
     (if ci_Instructions c = ''''
      then ''You are Codex, a coding assistant. '' @
        ''When the user asks to create or edit an image, call the image_generation tool immediately. '' @
        ''Do not ask clarifying questions.''
      else ci_Instructions c)"

definition Codex_GetRequestTimeout :: "codex_images_config \<Rightarrow> duration" where
  "Codex_GetRequestTimeout c = (if ci_RequestTimeoutMs c \<le> 0 then millis 300000 else wrap64 (millis (ci_RequestTimeoutMs c)))"

definition GetMaxImagesPerRequest :: "codex_images_config \<Rightarrow> int" where
  "GetMaxImagesPerRequest c = (if ci_MaxImagesPerRequest c \<le> 0 then 10 else ci_MaxImagesPerRequest c)"

section \<open>Requests\<close>

record images_request =
  ig_Model :: string
  ig_Prompt :: string
  ig_N :: int
  ig_Size :: string
  ig_Quality :: string
  ig_Background :: string
  ig_Moderation :: string
  ig_OutputFormat :: string
  ig_OutputCompression :: "int option"
  ig_ResponseFormat :: string

text \<open>A part of the input: its type, text and image URL.\<close>

record image_part =
  ip_Type :: string
  ip_Text :: string
  ip_ImageURL :: string

record codex_input =
  xi_Type :: string
  xi_Role :: string
  xi_Content :: "image_part list"

record codex_request =
  cx_Model :: string
  cx_Instructions :: string
  cx_Input :: "codex_input list"
  cx_Tool :: images_request
  cx_PromptCacheKey :: string

definition BuildCodexImageRequest :: "images_request option \<Rightarrow> string \<Rightarrow> string \<Rightarrow> go_error + codex_request" where
  "BuildCodexImageRequest req hostModel instructions =
     (case req of
        None \<Rightarrow> Inl (OtherError ''images converter: request is nil'')
      | Some r \<Rightarrow>
          if TrimSpace (ig_Prompt r) = '''' then Inl (OtherError ''prompt is required'')
          else Inr \<lparr>cx_Model = hostModel, cx_Instructions = instructions,
            cx_Input = [\<lparr>xi_Type = ''message'', xi_Role = ''user'',
              xi_Content = [\<lparr>ip_Type = ''input_text'', ip_Text = ig_Prompt r, ip_ImageURL = ''''\<rparr>]\<rparr>],
            cx_Tool = r, cx_PromptCacheKey = ''''\<rparr>)"

text \<open>\<open>base64.StdEncoding\<close>.\<close>

definition b64_alphabet :: string where
  "b64_alphabet = ''ABCDEFGHIJKLMNOPQRSTUVWXYZabcdefghijklmnopqrstuvwxyz0123456789+/''"

definition b64_digit :: "nat \<Rightarrow> char" where
  "b64_digit n = b64_alphabet ! n"

fun base64 :: "string \<Rightarrow> string" where
  "base64 [] = []"
| "base64 [a] = (let x = of_char a in [b64_digit (x div 4), b64_digit ((x mod 4) * 16), CHR ''='', CHR ''=''])"
| "base64 [a, b] =
     (let x = of_char a; y = of_char b
      in [b64_digit (x div 4), b64_digit ((x mod 4) * 16 + y div 16), b64_digit ((y mod 16) * 4), CHR ''=''])"
| "base64 (a # b # c # s) =
     (let x = of_char a; y = of_char b; z = of_char c
      in [b64_digit (x div 4), b64_digit ((x mod 4) * 16 + y div 16), b64_digit ((y mod 16) * 4 + z div 64), b64_digit (z mod 64)] @ base64 s)"

text \<open>A payload is its MIME type and its data.\<close>

definition imageDataURL :: "string \<times> string \<Rightarrow> string" where
  "imageDataURL p = ''data:'' @ (if fst p = '''' then ''image/png'' else fst p) @ '';base64,'' @ base64 (snd p)"

definition prependImageParts :: "codex_request \<Rightarrow> (string \<times> string) list \<Rightarrow> go_error + codex_request" where
  "prependImageParts req payloads =
     (case cx_Input req of
        [item] \<Rightarrow>
          (case xi_Content item of
             [textPart] \<Rightarrow>
               Inr (req\<lparr>cx_Input := [item\<lparr>xi_Content :=
                 map (\<lambda>p. \<lparr>ip_Type = ''input_image'', ip_Text = '''', ip_ImageURL = imageDataURL p\<rparr>) payloads @ [textPart]\<rparr>]\<rparr>)
           | _ \<Rightarrow> Inl (OtherError ''images converter: unexpected input structure''))
      | _ \<Rightarrow> Inl (OtherError ''images converter: unexpected input structure''))"

text \<open>The JSON of a request; empty members are left out (\<open>omitempty\<close>).\<close>

definition opt_str :: "string \<Rightarrow> string \<Rightarrow> (string \<times> json) list" where
  "opt_str k v = (if v = '''' then [] else [(k, JStr v)])"

definition image_part_json :: "image_part \<Rightarrow> json" where
  "image_part_json p = JObj ([(''type'', JStr (ip_Type p))] @ opt_str ''text'' (ip_Text p) @ opt_str ''image_url'' (ip_ImageURL p))"

definition tool_json :: "images_request \<Rightarrow> json" where
  "tool_json r = JObj ([(''type'', JStr ''image_generation'')] @ opt_str ''size'' (ig_Size r) @ opt_str ''quality'' (ig_Quality r) @
     opt_str ''background'' (ig_Background r) @ opt_str ''moderation'' (ig_Moderation r) @ opt_str ''output_format'' (ig_OutputFormat r) @
     (case ig_OutputCompression r of None \<Rightarrow> [] | Some c \<Rightarrow> [(''output_compression'', JNum (itoa c))]))"

definition codex_request_json :: "codex_request \<Rightarrow> json" where
  "codex_request_json req = JObj ([(''model'', JStr (cx_Model req)), (''instructions'', JStr (cx_Instructions req)),
     (''input'', JArr (map (\<lambda>i. JObj [(''type'', JStr (xi_Type i)), (''role'', JStr (xi_Role i)),
        (''content'', JArr (map image_part_json (xi_Content i)))]) (cx_Input req))),
     (''tools'', JArr [tool_json (cx_Tool req)]), (''tool_choice'', JStr ''auto''), (''parallel_tool_calls'', JBool False)] @
     opt_str ''prompt_cache_key'' (cx_PromptCacheKey req) @
     [(''reasoning'', JObj [(''effort'', JStr ''low''), (''summary'', JStr ''auto'')]), (''store'', JBool False), (''stream'', JBool True)])"

section \<open>The event stream of the backend\<close>

record codex_item =
  it_Type :: string
  it_Status :: string
  it_Result :: string
  it_RevisedPrompt :: string

text \<open>Usage is input, output and total tokens; of an error only the message counts.\<close>

record codex_event =
  ce_Type :: string
  ce_Item :: "codex_item option"
  ce_Usage :: "(int \<times> int \<times> int) option"
  ce_Error :: "string option"
  ce_HasResponse :: bool

definition dec_codex_item :: "json \<Rightarrow> codex_item option" where
  "dec_codex_item = dec_struct (\<lambda>ms.
     case (dec_string '''' (members ms ''type''), dec_string '''' (members ms ''status''), dec_string '''' (members ms ''result''),
           dec_string '''' (members ms ''revised_prompt'')) of
       (Some t, Some s, Some r, Some p) \<Rightarrow> Some \<lparr>it_Type = t, it_Status = s, it_Result = r, it_RevisedPrompt = p\<rparr> | _ \<Rightarrow> None)"

fun dec_last :: "(json \<Rightarrow> 'a option) \<Rightarrow> 'a option \<Rightarrow> json list \<Rightarrow> 'a option option" where
  "dec_last d x [] = Some x"
| "dec_last d x (JNull # vs) = dec_last d None vs"
| "dec_last d x (v # vs) = (case d v of None \<Rightarrow> None | Some y \<Rightarrow> dec_last d (Some y) vs)"

fun dec_ints :: "int \<Rightarrow> json list \<Rightarrow> int option" where
  "dec_ints n [] = Some n"
| "dec_ints n (JNull # vs) = dec_ints n vs"
| "dec_ints n (JNum s # vs) = (case atoi s of None \<Rightarrow> None | Some m \<Rightarrow> dec_ints m vs)"
| "dec_ints n (v # vs) = None"

definition dec_usage :: "json \<Rightarrow> (int \<times> int \<times> int) option" where
  "dec_usage = dec_struct (\<lambda>ms.
     case (dec_ints 0 (members ms ''input_tokens''), dec_ints 0 (members ms ''output_tokens''), dec_ints 0 (members ms ''total_tokens'')) of
       (Some i, Some o', Some t) \<Rightarrow> Some (i, o', t) | _ \<Rightarrow> None)"

definition dec_error :: "json \<Rightarrow> string option" where
  "dec_error = dec_struct (\<lambda>ms.
     case (dec_string '''' (members ms ''code''), dec_string '''' (members ms ''message'')) of
       (Some c, Some m) \<Rightarrow> Some m | _ \<Rightarrow> None)"

definition dec_response :: "json \<Rightarrow> ((int \<times> int \<times> int) option \<times> string option) option" where
  "dec_response = dec_struct (\<lambda>ms.
     case (dec_string '''' (members ms ''id''), dec_string '''' (members ms ''status''),
           dec_last dec_usage None (members ms ''usage''), dec_last dec_error None (members ms ''error'')) of
       (Some i, Some s, Some u, Some e) \<Rightarrow> Some (u, e) | _ \<Rightarrow> None)"

text \<open>An object that comes twice is taken from the last time, where \<open>encoding/json\<close> would merge both.\<close>

definition dec_event :: "json \<Rightarrow> codex_event option" where
  "dec_event = dec_struct (\<lambda>ms.
     case (dec_string '''' (members ms ''type''), dec_last dec_codex_item None (members ms ''item''),
           dec_last dec_response None (members ms ''response'')) of
       (Some t, Some i, Some r) \<Rightarrow>
         Some \<lparr>ce_Type = t, ce_Item = i, ce_Usage = Option.bind r fst, ce_Error = Option.bind r snd, ce_HasResponse = (r \<noteq> None)\<rparr>
     | _ \<Rightarrow> None)"

fun trimEOL :: "string \<Rightarrow> string" where
  "trimEOL s = rev (dropWhile (\<lambda>c. c = lf \<or> c = cr) (rev s))"

definition parseSSEDataLine :: "string \<Rightarrow> string option" where
  "parseSSEDataLine line =
     (if take 5 line \<noteq> ''data:'' then None
      else let payload = TrimSpace (drop 5 line) in if payload = '''' \<or> payload = ''[DONE]'' then None else Some payload)"

text \<open>An image is its data and the revised prompt.\<close>

definition collectImageItem :: "codex_item option \<Rightarrow> (string \<times> string) list" where
  "collectImageItem item =
     (case item of
        None \<Rightarrow> []
      | Some i \<Rightarrow> if it_Type i \<noteq> ''image_generation_call'' \<or> it_Result i = '''' then [] else [(it_Result i, it_RevisedPrompt i)])"

definition sseFailureError :: "codex_event \<Rightarrow> go_error" where
  "sseFailureError ev =
     (case ce_Error ev of
        Some m \<Rightarrow> if m \<noteq> '''' then OtherError (''codex image generation failed: '' @ m)
                  else if (case ce_Item ev of Some i \<Rightarrow> it_Status i = ''failed'' | None \<Rightarrow> False)
                  then OtherError ''codex image generation failed for item''
                  else OtherError (''codex image generation failed (event '' @ ce_Type ev @ '')'')
      | None \<Rightarrow> if (case ce_Item ev of Some i \<Rightarrow> it_Status i = ''failed'' | None \<Rightarrow> False)
                then OtherError ''codex image generation failed for item''
                else OtherError (''codex image generation failed (event '' @ ce_Type ev @ '')''))"

text \<open>How the reading of a body ends.\<close>

datatype body_end = BodyEOF | BodyUnexpectedEOF | BodyError go_error

text \<open>
  The lines of \<open>readLongLine\<close>: each with what it gives after them. A line is too long when the 1025th buffer of 64 KiB fills
  without an end of line; the text behind the last line counts only at a proper end.
\<close>

definition maxSSELineBytes :: nat where
  "maxSSELineBytes = 67108864"

definition line_too_long :: "string \<Rightarrow> bool" where
  "line_too_long line \<longleftrightarrow> maxSSELineBytes + 65536 \<le> length (filter (\<lambda>c. c \<noteq> lf) line)"

type_synonym images_result = "(string \<times> string) list \<times> (int \<times> int \<times> int) option"

definition stream_end :: "body_end \<Rightarrow> (string \<times> string) list \<Rightarrow> (int \<times> int \<times> int) option \<Rightarrow> bool \<Rightarrow> go_error + images_result" where
  "stream_end ending results usage completed =
     (case ending of
        BodyError e \<Rightarrow> Inl (Wrapped ''reading codex image stream'' e)
      | _ \<Rightarrow> if \<not> completed \<and> results = [] then Inl (OtherError ''codex image stream ended without a completed response'')
             else Inr (results, usage))"

definition line_event :: "(string \<Rightarrow> json option) \<Rightarrow> string \<Rightarrow> codex_event option" where
  "line_event dec line = Option.bind (Option.bind (parseSSEDataLine (trimEOL line)) dec) dec_event"

fun aggregate_loop ::
    "(string \<Rightarrow> json option) \<Rightarrow> body_end \<Rightarrow> string list \<Rightarrow> (string \<times> string) list \<Rightarrow> (int \<times> int \<times> int) option \<Rightarrow> bool \<Rightarrow>
     go_error + images_result" where
  "aggregate_loop dec ending [] results usage completed = stream_end ending results usage completed"
| "aggregate_loop dec ending (line # lines) results usage completed =
     (if line_too_long line then Inl (Wrapped ''reading codex image stream'' (OtherError ''codex image stream line exceeds 67108864 bytes''))
      else case line_event dec line of
             None \<Rightarrow> aggregate_loop dec ending lines results usage completed
           | Some ev \<Rightarrow>
               if ce_Type ev = ''response.output_item.done''
               then aggregate_loop dec ending lines (results @ collectImageItem (ce_Item ev)) usage completed
               else if ce_Type ev = ''response.completed''
               then aggregate_loop dec ending lines results (if ce_HasResponse ev then ce_Usage ev else usage) True
               else if ce_Type ev = ''response.failed'' \<or> ce_Type ev = ''error'' then Inl (sseFailureError ev)
               else aggregate_loop dec ending lines results usage completed)"

definition body_lines :: "string \<Rightarrow> body_end \<Rightarrow> string list" where
  "body_lines body ending = (if ending = BodyEOF then read_lines body else butlast (read_lines body))"

definition aggregateCodexImageSSE :: "(string \<Rightarrow> json option) \<Rightarrow> string \<Rightarrow> body_end \<Rightarrow> go_error + images_result" where
  "aggregateCodexImageSSE dec body ending = aggregate_loop dec ending (body_lines body ending) [] None False"

section \<open>The handler\<close>

record codex_token =
  tk_AccessToken :: string
  tk_AccountID :: string
  tk_AuthMode :: string

text \<open>
  What the backend answers to a request: no connection, a status that is not 200 with what is read of its body, or a
  stream.
\<close>

datatype codex_reply =
    NoReply go_error
  | StatusReply int string header
  | StreamReply string body_end header

record images_env =
  ie_dec :: "string \<Rightarrow> json option"
  ie_show :: "go_error \<Rightarrow> string"
  ie_url_ok :: "string \<Rightarrow> bool"
  ie_reqid :: "nat \<Rightarrow> string"
  ie_reply :: "nat \<Rightarrow> codex_reply"
  ie_now :: int

record codex_call =
  cl_URL :: string
  cl_Body :: string
  cl_Header :: header

text \<open>Why a call failed: any error, or the status and text of the backend.\<close>

datatype codex_failure = CallFailed go_error | UpstreamStatus int string

definition readLimitedBody :: "string \<Rightarrow> string" where
  "readLimitedBody body = TrimSpace (take 4096 body)"

definition codex_headers :: "codex_images_config \<Rightarrow> codex_token \<Rightarrow> string \<Rightarrow> header" where
  "codex_headers ci token requestID =
     (let h = header_set (header_set (header_set (\<lambda>_. []) ''Authorization'' (''Bearer '' @ tk_AccessToken token))
                ''Content-Type'' ''application/json'') ''Accept'' ''text/event-stream, application/json'';
          h = (if tk_AccountID token = '''' then h else header_set h ''chatgpt-account-id'' (tk_AccountID token))
      in fold (\<lambda>(k, v) h. header_set h k v)
           [(''originator'', Codex_GetOriginator ci), (''OpenAI-Beta'', ''responses=experimental''), (''session-id'', requestID),
            (''session_id'', requestID), (''thread-id'', requestID), (''x-client-request-id'', requestID),
            (''User-Agent'', Codex_GetUserAgent ci)] h)"

text \<open>
  One call: the body is encoded before the identifier of the request is put into the request. The result is the images with
  their usage or the failure, the headers of the answer, and the call that was made.
\<close>

definition callCodex ::
    "images_env \<Rightarrow> codex_images_config \<Rightarrow> codex_token \<Rightarrow> nat \<Rightarrow> codex_request \<Rightarrow>
     (codex_failure + images_result) \<times> header option \<times> codex_call option" where
  "callCodex ie ci token i outbound =
     (let body = json_text (codex_request_json outbound); url = Codex_GetBaseURL ci @ ''/backend-api/codex/responses''
      in if \<not> ie_url_ok ie url then (Inl (CallFailed (Wrapped ''building codex request'' (OtherError url))), None, None)
         else let requestID = ie_reqid ie i; outbound = outbound\<lparr>cx_PromptCacheKey := requestID\<rparr>;
                  call = Some \<lparr>cl_URL = url, cl_Body = body, cl_Header = codex_headers ci token requestID\<rparr>
              in case ie_reply ie i of
                   NoReply e \<Rightarrow> (Inl (CallFailed (Wrapped ''codex backend request failed'' e)), None, call)
                 | StatusReply status text h \<Rightarrow> (Inl (UpstreamStatus status (readLimitedBody text)), Some h, call)
                 | StreamReply text ending h \<Rightarrow>
                     (case aggregateCodexImageSSE (ie_dec ie) text ending of
                        Inl e \<Rightarrow> (Inl (CallFailed e), Some h, call) | Inr r \<Rightarrow> (Inr r, Some h, call)))"

definition writeImagesError :: "header \<Rightarrow> int \<Rightarrow> string \<Rightarrow> string \<Rightarrow> response" where
  "writeImagesError writer statusCode errType message =
     writeJSON writer statusCode (JObj [(''error'', JObj [(''message'', JStr message), (''type'', JStr errType)])])"

definition writeImagesErrorFromUpstream :: "(go_error \<Rightarrow> string) \<Rightarrow> header \<Rightarrow> codex_failure \<Rightarrow> response" where
  "writeImagesErrorFromUpstream show_error writer f =
     (case f of
        CallFailed e \<Rightarrow> writeImagesError writer 502 ''api_error'' (show_error e)
      | UpstreamStatus status text \<Rightarrow>
          if status = 401
          then writeImagesError writer 503 ''invalid_request_error''
            (''Codex login expired '' @ [CHR 0xE2, CHR 0x80, CHR 0x94] @ '' open the Codex app (or run `codex login`) to refresh the token, then retry'')
          else if status = 403
          then writeImagesError writer 403 ''invalid_request_error''
            (''Codex backend rejected the request (account may lack access): '' @ text)
          else if status = 429
          then writeImagesError writer 429 ''rate_limit_error'' (''Codex account rate limit reached, retry later: '' @ text)
          else writeImagesError writer 502 ''api_error'' (''codex backend returned HTTP '' @ itoa status @ '': '' @ text))"

text \<open>Images and usage so far, the headers of the last answer and the calls made.\<close>

record images_state =
  is_data :: "(string \<times> string) list"
  is_usage :: "int \<times> int \<times> int"
  is_quota :: "header option"
  is_calls :: "codex_call list"

definition add_usage :: "(int \<times> int \<times> int) option \<Rightarrow> int \<times> int \<times> int \<Rightarrow> int \<times> int \<times> int" where
  "add_usage u s =
     (case u of None \<Rightarrow> s
      | Some (i, o', t) \<Rightarrow> (wrap64 (fst s + i), wrap64 (fst (snd s) + o'), wrap64 (snd (snd s) + t)))"

definition image_outbound :: "codex_images_config \<Rightarrow> images_request \<Rightarrow> (string \<times> string) list \<Rightarrow> (int \<times> string \<times> go_error) + codex_request" where
  "image_outbound ci req edits =
     (case BuildCodexImageRequest (Some req) (Codex_GetModel ci) (Codex_GetInstructions ci) of
        Inl e \<Rightarrow> Inl (400, ''invalid_request_error'', e)
      | Inr outbound \<Rightarrow>
          if edits = [] then Inr outbound
          else case prependImageParts outbound edits of Inl e \<Rightarrow> Inl (500, ''api_error'', e) | Inr o' \<Rightarrow> Inr o')"

fun images_loop ::
    "images_env \<Rightarrow> codex_images_config \<Rightarrow> codex_token \<Rightarrow> header \<Rightarrow> images_request \<Rightarrow> (string \<times> string) list \<Rightarrow> nat \<Rightarrow> nat \<Rightarrow>
     images_state \<Rightarrow> response option \<times> images_state" where
  "images_loop ie ci token writer req edits i 0 st = (None, st)"
| "images_loop ie ci token writer req edits i (Suc n) st =
     (case image_outbound ci req edits of
        Inl (code, typ, e) \<Rightarrow> (Some (writeImagesError writer code typ (ie_show ie e)), st)
      | Inr outbound \<Rightarrow>
          (let (r, quota, call) = callCodex ie ci token i outbound;
               st = st\<lparr>is_quota := quota, is_calls := is_calls st @ (case call of Some c \<Rightarrow> [c] | None \<Rightarrow> [])\<rparr>
           in case r of
                Inl f \<Rightarrow>
                  if i = 0 \<and> is_data st = [] then (Some (writeImagesErrorFromUpstream (ie_show ie) writer f), st)
                  else (None, st)
              | Inr (result, u) \<Rightarrow>
                  images_loop ie ci token writer req edits (Suc i) n
                    (st\<lparr>is_data := is_data st @ result, is_usage := add_usage u (is_usage st)\<rparr>)))"

definition image_data_json :: "string \<times> string \<Rightarrow> json" where
  "image_data_json d = JObj ([(''b64_json'', JStr (fst d))] @ opt_str ''revised_prompt'' (snd d))"

definition images_response_json :: "int \<Rightarrow> (string \<times> string) list \<Rightarrow> int \<times> int \<times> int \<Rightarrow> json" where
  "images_response_json now images u = JObj [(''created'', JNum (itoa now)), (''data'', JArr (map image_data_json images)),
     (''usage'', JObj [(''total_tokens'', JNum (itoa (snd (snd u)))), (''input_tokens'', JNum (itoa (fst u))),
        (''output_tokens'', JNum (itoa (fst (snd u))))])]"

definition quota_names :: "string list" where
  "quota_names = [''x-codex-primary-used-percent'', ''x-codex-secondary-used-percent'', ''x-codex-primary-reset-after-seconds'',
     ''x-codex-plan-type'']"

definition surface_quota :: "header option \<Rightarrow> header \<Rightarrow> header" where
  "surface_quota quota writer =
     (case quota of
        None \<Rightarrow> writer
      | Some q \<Rightarrow> fold (\<lambda>name h. if header_get q name = '''' then h else header_set h name (header_get q name)) quota_names writer)"

text \<open>\<open>cfg\<close> is the configuration now; \<open>token\<close> is what \<open>resolveToken\<close> gives for its file.\<close>

definition serveImages ::
    "images_env \<Rightarrow> codex_images_config option \<Rightarrow> (string \<Rightarrow> go_error + codex_token) \<Rightarrow> header \<Rightarrow> images_request \<Rightarrow>
     (string \<times> string) list \<Rightarrow> response \<times> codex_call list" where
  "serveImages ie cfg token writer req edits =
     (case cfg of
        None \<Rightarrow> (writeImagesError writer 500 ''api_error'' ''configuration is unavailable'', [])
      | Some ci \<Rightarrow>
          if TrimSpace (ig_Prompt req) = ''''
          then (writeImagesError writer 400 ''invalid_request_error'' ''prompt is required and must be non-empty'', [])
          else if ig_ResponseFormat req = ''url''
          then (writeImagesError writer 400 ''invalid_request_error''
            (''response_format 'url' is not supported; the Codex backend only returns base64 images (b64_json)''), [])
          else let n = (if ig_N req \<le> 0 then 1 else ig_N req)
               in if GetMaxImagesPerRequest ci < n
                  then (writeImagesError writer 400 ''invalid_request_error'' (''n must be at most '' @ itoa (GetMaxImagesPerRequest ci)), [])
                  else case token (ci_AuthFile ci) of
                         Inl e \<Rightarrow> (writeImagesError writer 503 ''invalid_request_error'' (ie_show ie e), [])
                       | Inr tk \<Rightarrow>
                           (case images_loop ie ci tk writer req edits 0 (nat n)
                                   \<lparr>is_data = [], is_usage = (0, 0, 0), is_quota = None, is_calls = []\<rparr> of
                              (Some resp, st) \<Rightarrow> (resp, is_calls st)
                            | (None, st) \<Rightarrow>
                                if is_data st = []
                                then (writeImagesError writer 502 ''api_error'' ''no image was generated by the Codex backend'', is_calls st)
                                else (writeJSON (surface_quota (is_quota st) writer) 200
                                        (images_response_json (ie_now ie) (is_data st) (is_usage st)), is_calls st)))"

section \<open>The two endpoints\<close>

definition dec_images_request :: "json \<Rightarrow> images_request option" where
  "dec_images_request = dec_struct (\<lambda>ms.
     let s = (\<lambda>k. dec_string '''' (members ms k))
     in case (s ''model'', s ''prompt'', dec_ints 0 (members ms ''n''), s ''size'', s ''quality'', s ''style'', s ''background'') of
          (Some m, Some p, Some n, Some sz, Some q, Some st, Some b) \<Rightarrow>
            (case (s ''moderation'', s ''output_format'',
                   dec_last (\<lambda>v. case v of JNum x \<Rightarrow> atoi x | _ \<Rightarrow> None) None (members ms ''output_compression''),
                   s ''response_format'', s ''user'') of
               (Some md, Some f, Some oc, Some rf, Some u) \<Rightarrow>
                 Some \<lparr>ig_Model = m, ig_Prompt = p, ig_N = n, ig_Size = sz, ig_Quality = q, ig_Background = b, ig_Moderation = md,
                   ig_OutputFormat = f, ig_OutputCompression = oc, ig_ResponseFormat = rf\<rparr>
             | _ \<Rightarrow> None)
        | _ \<Rightarrow> None)"

text \<open>\<open>first_value\<close> is the first JSON value of the body: the decoder does not look behind it.\<close>

definition HandleGenerations ::
    "images_env \<Rightarrow> codex_images_config option \<Rightarrow> (string \<Rightarrow> go_error + codex_token) \<Rightarrow> header \<Rightarrow> (go_error + json) \<Rightarrow>
     response \<times> codex_call list" where
  "HandleGenerations ie cfg token writer first_value =
     (case (case first_value of Inl e \<Rightarrow> Inl e
            | Inr v \<Rightarrow> (case dec_images_request v of None \<Rightarrow> Inl (OtherError ''json'') | Some req \<Rightarrow> Inr req)) of
        Inl e \<Rightarrow> (writeImagesError writer 400 ''invalid_request_error'' (''invalid JSON body: '' @ ie_show ie e), [])
      | Inr req \<Rightarrow> serveImages ie cfg token writer req [])"

text \<open>\<open>Sscanf\<close> with \<open>%d\<close>: blanks, a sign, digits, and the rest does not matter.\<close>

definition parseFormInt :: "string \<Rightarrow> int option" where
  "parseFormInt v =
     (let s = dropWhile (\<lambda>c. c = CHR '' '' \<or> c = CHR 9 \<or> c = cr) v;
          sign = (if s \<noteq> [] \<and> hd s \<in> {CHR ''-'', CHR ''+''} then [hd s] else []);
          digits = takeWhile is_digit (drop (length sign) s)
      in if digits = [] then None else atoi (sign @ digits))"

text \<open>An uploaded file: whether it opens, its content type and its data with a read error.\<close>

record upload =
  up_Opens :: bool
  up_ContentType :: string
  up_Data :: string
  up_Error :: bool

definition maxEditsUploadBytes :: nat where
  "maxEditsUploadBytes = 52428800"

definition readFileHeaderPayload :: "(string \<Rightarrow> string) \<Rightarrow> upload \<Rightarrow> (string \<times> string) list" where
  "readFileHeaderPayload sniff u =
     (if \<not> up_Opens u \<or> up_Error u \<or> up_Data u = '''' \<or> maxEditsUploadBytes < length (up_Data u) then []
      else [(if take 6 (up_ContentType u) = ''image/'' then up_ContentType u else sniff (take 512 (up_Data u)), up_Data u)])"

definition collectEditImages :: "(string \<Rightarrow> string) \<Rightarrow> (string \<Rightarrow> upload list) \<Rightarrow> (string \<times> string) list" where
  "collectEditImages sniff files =
     concat (map (readFileHeaderPayload sniff) (files ''image'' @ files ''image[]'' @ files ''mask''))"

text \<open>\<open>form\<close> are the values and files of the parsed form, or the error of parsing it.\<close>

definition HandleEdits ::
    "images_env \<Rightarrow> codex_images_config option \<Rightarrow> (string \<Rightarrow> go_error + codex_token) \<Rightarrow> header \<Rightarrow> (string \<Rightarrow> string) \<Rightarrow>
     go_error + (string \<Rightarrow> string) \<times> (string \<Rightarrow> upload list) \<Rightarrow> response \<times> codex_call list" where
  "HandleEdits ie cfg token writer sniff form =
     (case form of
        Inl e \<Rightarrow> (writeImagesError writer 400 ''invalid_request_error'' (''invalid multipart form: '' @ ie_show ie e), [])
      | Inr (v, files) \<Rightarrow>
          (let req = \<lparr>ig_Model = v ''model'', ig_Prompt = v ''prompt'',
                 ig_N = (case parseFormInt (v ''n'') of Some n \<Rightarrow> n | None \<Rightarrow> 0), ig_Size = v ''size'', ig_Quality = v ''quality'',
                 ig_Background = v ''background'', ig_Moderation = v ''moderation'', ig_OutputFormat = v ''output_format'',
                 ig_OutputCompression = parseFormInt (v ''output_compression''), ig_ResponseFormat = v ''response_format''\<rparr>;
               payloads = collectEditImages sniff files
           in if payloads = []
              then (writeImagesError writer 400 ''invalid_request_error''
                (''an image file is required in the 'image' (or 'image[]') form field''), [])
              else serveImages ie cfg token writer req payloads))"

end
