(* ===== verification/Codex_Images_Facts.thy ===== *)
theory Codex_Images_Facts
  imports Codex_Images
begin

text \<open>
  What the aggregation of a stream gives, how many calls a request for images makes and what they carry, and how a failure
  behind an empty answer is reported.
\<close>

section \<open>The stream\<close>

definition stream_events :: "(string \<Rightarrow> json option) \<Rightarrow> string list \<Rightarrow> codex_event list" where
  "stream_events dec lines = List.map_filter (line_event dec) lines"

definition failing :: "codex_event \<Rightarrow> bool" where
  "failing ev \<longleftrightarrow> ce_Type ev \<in> {''response.failed'', ''error''}"

definition completing :: "codex_event \<Rightarrow> bool" where
  "completing ev \<longleftrightarrow> ce_Type ev = ''response.completed''"

definition images_of :: "codex_event list \<Rightarrow> (string \<times> string) list" where
  "images_of evs = concat (map (\<lambda>ev. collectImageItem (ce_Item ev)) (filter (\<lambda>ev. ce_Type ev = ''response.output_item.done'') evs))"

definition usage_of :: "codex_event list \<Rightarrow> (int \<times> int \<times> int) option \<Rightarrow> (int \<times> int \<times> int) option" where
  "usage_of evs u = fold (\<lambda>ev u. if completing ev \<and> ce_HasResponse ev then ce_Usage ev else u) evs u"

lemma stream_events_simps [simp]:
  "stream_events dec [] = []"
  "stream_events dec (l # ls) = (case line_event dec l of None \<Rightarrow> stream_events dec ls | Some ev \<Rightarrow> ev # stream_events dec ls)"
  by (simp_all add: stream_events_def List.map_filter_def split: option.split)

lemma images_of_Cons [simp]:
  "images_of (ev # evs) = (if ce_Type ev = ''response.output_item.done'' then collectImageItem (ce_Item ev) else []) @ images_of evs"
  "images_of [] = []"
  by (simp_all add: images_of_def)

lemma usage_of_Cons [simp]:
  "usage_of (ev # evs) u = usage_of evs (if completing ev \<and> ce_HasResponse ev then ce_Usage ev else u)" "usage_of [] u = u"
  by (simp_all add: usage_of_def)

lemma aggregate_loop_spec:
  assumes "\<forall>l \<in> set lines. \<not> line_too_long l"
  shows "aggregate_loop dec ending lines results usage completed =
    (let evs = stream_events dec lines
     in case List.find failing evs of
          Some ev \<Rightarrow> Inl (sseFailureError ev)
        | None \<Rightarrow> stream_end ending (results @ images_of evs) (usage_of evs usage) (completed \<or> list_ex completing evs))"
  using assms
proof (induction lines arbitrary: results usage completed)
  case (Cons line lines)
  show ?case
  proof (cases "line_event dec line")
    case None
    then show ?thesis using Cons by simp
  next
    case (Some ev)
    consider "ce_Type ev = ''response.output_item.done''" | "ce_Type ev = ''response.completed''" | "failing ev"
      | "ce_Type ev \<noteq> ''response.output_item.done''" "ce_Type ev \<noteq> ''response.completed''" "\<not> failing ev" by blast
    then show ?thesis
    proof cases
      case 1
      then show ?thesis using Cons Some by (simp add: failing_def completing_def Let_def cong: option.case_cong)
    next
      case 2
      then show ?thesis using Cons Some by (simp add: failing_def completing_def Let_def cong: option.case_cong)
    next
      case 3
      then show ?thesis using Cons.prems Some by (auto simp: failing_def Let_def)
    next
      case 4
      then show ?thesis using Cons Some by (simp add: failing_def completing_def Let_def cong: option.case_cong)
    qed
  qed
qed simp

text \<open>
  A stream of the backend gives its images in order. When no line is longer than the limit: the first event that
  reports a failure is the error; otherwise the images of all finished items are the result, with the usage of the
  last completed response, also when the stream is cut off after an image; without an image and without a completed response, or
  with a read error, it is an error.
\<close>

lemma image_stream_spec:
  assumes "\<forall>l \<in> set (body_lines body ending). \<not> line_too_long l"
  shows "aggregateCodexImageSSE dec body ending =
    (let evs = stream_events dec (body_lines body ending)
     in case List.find failing evs of
          Some ev \<Rightarrow> Inl (sseFailureError ev)
        | None \<Rightarrow> stream_end ending (images_of evs) (usage_of evs None) (list_ex completing evs))"
  using aggregate_loop_spec [OF assms, of dec ending "[]" None False] by (simp add: aggregateCodexImageSSE_def Let_def cong: option.case_cong)

section \<open>The calls\<close>

text \<open>A call whose body is the encoded request, without the identifier that is set too late.\<close>

definition call_ok :: "codex_images_config \<Rightarrow> images_request \<Rightarrow> (string \<times> string) list \<Rightarrow> codex_call \<Rightarrow> bool" where
  "call_ok ci req edits c \<longleftrightarrow>
     (\<exists>out. image_outbound ci req edits = Inr out \<and> cx_PromptCacheKey out = '''' \<and> cl_Body c = json_text (codex_request_json out))"

lemma image_outbound_key: "image_outbound ci req edits = Inr out \<Longrightarrow> cx_PromptCacheKey out = ''''"
  by (auto simp: image_outbound_def BuildCodexImageRequest_def prependImageParts_def split: if_splits)

lemma callCodex_call: "callCodex ie ci token i out = (r, q, Some c) \<Longrightarrow> cl_Body c = json_text (codex_request_json out)"
  by (auto simp: callCodex_def Let_def split: if_splits codex_reply.splits sum.splits)

lemma images_loop_calls:
  "images_loop ie ci token writer req edits i n st = (r, st') \<Longrightarrow>
    \<exists>new. is_calls st' = is_calls st @ new \<and> length new \<le> n \<and> (\<forall>c \<in> set new. call_ok ci req edits c)"
proof (induction n arbitrary: i st)
  case (Suc n)
  show ?case
  proof (cases "image_outbound ci req edits")
    case (Inl e)
    then show ?thesis using Suc.prems by (auto split: prod.splits)
  next
    case (Inr out)
    obtain x q call where x: "callCodex ie ci token i out = (x, q, call)" by (metis prod_cases3)
    let ?new = "case call of Some c \<Rightarrow> [c] | None \<Rightarrow> []"
    have new: "length ?new \<le> 1" "\<forall>c \<in> set ?new. call_ok ci req edits c"
      using callCodex_call x image_outbound_key [OF Inr] Inr by (auto simp: call_ok_def split: option.splits)
    show ?thesis
    proof (cases x)
      case (Inl f)
      then show ?thesis using Suc.prems Inr x new by (auto simp: Let_def split: if_splits intro!: exI [of _ ?new])
    next
      case res: (Inr ru)
      obtain rs u where ru: "ru = (rs, u)" by fastforce
      let ?st = "st\<lparr>is_quota := q, is_calls := is_calls st @ ?new, is_data := is_data st @ rs, is_usage := add_usage u (is_usage st)\<rparr>"
      have "images_loop ie ci token writer req edits (Suc i) n ?st = (r, st')"
        using Suc.prems Inr x res ru by (simp add: Let_def)
      from Suc.IH [OF this] obtain more' where "is_calls st' = is_calls st @ ?new @ more'" "length more' \<le> n" "\<forall>c \<in> set more'. call_ok ci req edits c"
        by auto
      then show ?thesis using new by (intro exI [of _ "?new @ more'"]) auto
    qed
  qed
qed simp

text \<open>
  C38: A request for images makes at most as many calls as the configuration allows, and the identifier that is
  meant to key the prompt cache is in none of them: the body of each call is encoded before it is set.
\<close>

lemma image_calls_bounded:
  assumes "serveImages ie (Some ci) token writer req edits = (resp, calls)"
  shows "int (length calls) \<le> GetMaxImagesPerRequest ci \<and> (\<forall>c \<in> set calls. call_ok ci req edits c)"
proof -
  have pos: "0 < GetMaxImagesPerRequest ci" by (simp add: GetMaxImagesPerRequest_def)
  let ?n = "if ig_N req \<le> 0 then 1 else ig_N req"
  let ?start = "\<lparr>is_data = [], is_usage = (0, 0, 0), is_quota = None, is_calls = []\<rparr>"
  show ?thesis
  proof (cases "calls = []")
    case True
    then show ?thesis using pos by simp
  next
    case False
    then obtain tk where tk: "token (ci_AuthFile ci) = Inr tk" and n: "?n \<le> GetMaxImagesPerRequest ci"
      using assms unfolding serveImages_def option.case Let_def
      by (cases "token (ci_AuthFile ci)") (auto split: if_split_asm)
    obtain r st where loop: "images_loop ie ci tk writer req edits 0 (nat ?n) ?start = (r, st)" by fastforce
    have "is_calls st = calls"
      using assms False tk loop unfolding serveImages_def option.case Let_def
      by (auto split: if_split_asm option.splits)
    then show ?thesis
      using images_loop_calls [OF loop] n by (auto split: if_splits)
  qed
qed

section \<open>A hidden failure\<close>

text \<open>
  A refusal behind an empty answer is hidden. When the first call ends well without an image and the second is refused,
  say because the login expired or the rate limit is reached, the client gets 502 and that no image was generated:
  only the failure of the first call is reported as what it is.
\<close>

lemma later_refusal_hidden:
  assumes "ie_url_ok ie (Codex_GetBaseURL ci @ ''/backend-api/codex/responses'')"
    and "ie_reply ie 0 = StreamReply text ending h" and "aggregateCodexImageSSE (ie_dec ie) text ending = Inr ([], u)"
    and "ie_reply ie 1 = StatusReply status body h'"
    and "TrimSpace (ig_Prompt req) \<noteq> ''''" and "ig_ResponseFormat req \<noteq> ''url''" and "2 \<le> ig_N req"
    and "ig_N req \<le> GetMaxImagesPerRequest ci" and "token (ci_AuthFile ci) = Inr tk"
  shows "fst (serveImages ie (Some ci) token writer req []) =
    writeImagesError writer 502 ''api_error'' ''no image was generated by the Codex backend''"
proof -
  obtain m where m: "nat (ig_N req) = Suc (Suc m)" using assms(7) by (metis Suc_nat_eq_nat_zadd1 add.commute nat_numeral numeral_2_eq_2 le_Suc_ex nat_mono add_Suc)
  obtain out where out: "image_outbound ci req [] = Inr out"
    using assms(5) by (simp add: image_outbound_def BuildCodexImageRequest_def)
  let ?start = "\<lparr>is_data = [], is_usage = (0, 0, 0), is_quota = None, is_calls = []\<rparr>"
  have c0: "\<exists>c. callCodex ie ci tk 0 out = (Inr ([], u), Some h, Some c)"
    using assms(1-3) by (simp add: callCodex_def Let_def)
  have c1: "\<exists>c f. callCodex ie ci tk 1 out = (Inl f, Some h', Some c)"
    using assms(1,4) by (simp add: callCodex_def Let_def)
  from c0 c1 have "\<exists>st. images_loop ie ci tk writer req [] 0 (Suc (Suc m)) ?start = (None, st) \<and> is_data st = []"
    by (auto simp: out Let_def)
  then show ?thesis
    using assms(5-9) m by (auto simp: serveImages_def Let_def)
qed

section \<open>Witnesses\<close>

definition demo_images :: "(nat \<Rightarrow> codex_reply) \<Rightarrow> images_env" where
  "demo_images reply =
     \<lparr>ie_dec = (\<lambda>s. Some (JObj [(''type'', JStr ''response.completed'')])), ie_show = (\<lambda>_. ''error''), ie_url_ok = (\<lambda>_. True),
      ie_reqid = (\<lambda>_. ''id''), ie_reply = reply, ie_now = 0\<rparr>"

definition demo_ci :: codex_images_config where
  "demo_ci = \<lparr>ci_Enabled = True, ci_AuthFile = '''', ci_BaseURL = '''', ci_Model = '''', ci_Originator = '''', ci_UserAgent = '''',
     ci_Instructions = '''', ci_RequestTimeoutMs = 0, ci_MaxImagesPerRequest = 0\<rparr>"

definition demo_image_request :: images_request where
  "demo_image_request = \<lparr>ig_Model = '''', ig_Prompt = ''cat'', ig_N = 2, ig_Size = '''', ig_Quality = '''', ig_Background = '''',
     ig_Moderation = '''', ig_OutputFormat = '''', ig_OutputCompression = None, ig_ResponseFormat = ''''\<rparr>"

definition demo_token :: codex_token where
  "demo_token = \<lparr>tk_AccessToken = ''t'', tk_AccountID = '''', tk_AuthMode = ''''\<rparr>"

definition demo_replies :: "nat \<Rightarrow> codex_reply" where
  "demo_replies i = (if i = 0 then StreamReply ''data: {}'' BodyEOF (\<lambda>_. []) else StatusReply 401 '''' (\<lambda>_. []))"

lemma demo_lines: "body_lines ''data: {}'' BodyEOF = [''data: {}'']"
  by (simp add: body_lines_def)

lemma demo_short: "\<not> line_too_long ''data: {}''"
  by (simp add: line_too_long_def maxSSELineBytes_def)

lemma image_stream_spec_witness:
  "aggregateCodexImageSSE (ie_dec (demo_images demo_replies)) ''data: {}'' BodyEOF = Inr ([], None)"
proof -
  have "stream_events (ie_dec (demo_images demo_replies)) [''data: {}''] =
      [\<lparr>ce_Type = ''response.completed'', ce_Item = None, ce_Usage = None, ce_Error = None, ce_HasResponse = False\<rparr>]"
    by (simp add: line_event_def parseSSEDataLine_def TrimSpace_def is_space_def demo_images_def dec_event_def members_def to_lower_def is_upper_def)
  moreover have "\<forall>l \<in> set (body_lines ''data: {}'' BodyEOF). \<not> line_too_long l" by (simp only: demo_lines) (simp add: demo_short)
  ultimately show ?thesis
    using image_stream_spec [of "''data: {}''" BodyEOF "ie_dec (demo_images demo_replies)"]
    by (simp only: demo_lines) (simp add: Let_def failing_def completing_def stream_end_def images_of_def)
qed

lemma image_calls_bounded_witness:
  "\<exists>resp calls. serveImages (demo_images demo_replies) (Some demo_ci) (\<lambda>_. Inr demo_token) (\<lambda>_. []) demo_image_request [] = (resp, calls) \<and>
     length calls \<le> 10"
proof -
  obtain resp calls where run:
    "serveImages (demo_images demo_replies) (Some demo_ci) (\<lambda>_. Inr demo_token) (\<lambda>_. []) demo_image_request [] = (resp, calls)" by fastforce
  show ?thesis using image_calls_bounded [OF run] run by (auto simp: GetMaxImagesPerRequest_def demo_ci_def)
qed

lemma demo_empty_answer: "aggregateCodexImageSSE (ie_dec (demo_images reply)) ''data: {}'' BodyEOF = Inr ([], None)"
  unfolding aggregateCodexImageSSE_def demo_lines
  by (simp add: demo_short line_event_def parseSSEDataLine_def TrimSpace_def is_space_def demo_images_def dec_event_def members_def
      to_lower_def is_upper_def stream_end_def)

lemma later_refusal_hidden_witness:
  "fst (serveImages (demo_images demo_replies) (Some demo_ci) (\<lambda>_. Inr demo_token) (\<lambda>_. []) demo_image_request []) =
    writeImagesError (\<lambda>_. []) 502 ''api_error'' ''no image was generated by the Codex backend''"
  by (rule later_refusal_hidden [of _ _ "''data: {}''" BodyEOF "\<lambda>_. []" None 401 "''''" "\<lambda>_. []", OF _ _ demo_empty_answer])
    (simp_all add: demo_images_def demo_replies_def demo_image_request_def demo_ci_def GetMaxImagesPerRequest_def TrimSpace_def is_space_def)

end
