(* ===== verification/Codex_Auth.thy ===== *)
theory Codex_Auth
  imports Codex_Images
begin

text \<open>
  The login of the Codex client (\<open>codexauth/token.go\<close>, \<open>codexauth/refresh.go\<close>) and how the images handler keeps its source of
  tokens. The file is its bytes and modification time; JSON, times and base64 decoding of the standard library and the
  answers of the token endpoint are arguments.
\<close>

section \<open>The file\<close>

record codex_lib =
  cx_dec :: "string \<Rightarrow> json option"
  cx_enc :: "json \<Rightarrow> string"
  cx_float :: "string \<Rightarrow> string"
  cx_time :: "string \<Rightarrow> int option"
  cx_base64 :: "string \<Rightarrow> string option"

text \<open>The subset of the file that is read; a zero time is \<^term>\<open>None\<close>.\<close>

record auth_file =
  af_AuthMode :: string
  af_IDToken :: string
  af_AccessToken :: string
  af_RefreshToken :: string
  af_AccountID :: string
  af_LastRefresh :: "int option"

definition no_auth :: auth_file where
  "no_auth = \<lparr>af_AuthMode = '''', af_IDToken = '''', af_AccessToken = '''', af_RefreshToken = '''', af_AccountID = '''', af_LastRefresh = None\<rparr>"

definition dec_tokens :: "auth_file \<Rightarrow> json \<Rightarrow> auth_file option" where
  "dec_tokens af v =
     (case v of
        JNull \<Rightarrow> Some af
      | JObj ms \<Rightarrow>
          (case (dec_string (af_IDToken af) (members ms ''id_token''), dec_string (af_AccessToken af) (members ms ''access_token''),
                 dec_string (af_RefreshToken af) (members ms ''refresh_token''), dec_string (af_AccountID af) (members ms ''account_id'')) of
             (Some i, Some a, Some r, Some c) \<Rightarrow>
               Some (af\<lparr>af_IDToken := i, af_AccessToken := a, af_RefreshToken := r, af_AccountID := c\<rparr>)
           | _ \<Rightarrow> None)
      | _ \<Rightarrow> None)"

fun fold_dec :: "('a \<Rightarrow> json \<Rightarrow> 'a option) \<Rightarrow> 'a \<Rightarrow> json list \<Rightarrow> 'a option" where
  "fold_dec d x [] = Some x"
| "fold_dec d x (v # vs) = (case d x v of None \<Rightarrow> None | Some y \<Rightarrow> fold_dec d y vs)"

definition dec_time :: "codex_lib \<Rightarrow> auth_file \<Rightarrow> json \<Rightarrow> auth_file option" where
  "dec_time L af v =
     (case v of
        JNull \<Rightarrow> Some af
      | JStr s \<Rightarrow> (case cx_time L s of None \<Rightarrow> None | Some t \<Rightarrow> Some (af\<lparr>af_LastRefresh := Some t\<rparr>))
      | _ \<Rightarrow> None)"

definition dec_auth_file :: "codex_lib \<Rightarrow> json \<Rightarrow> auth_file option" where
  "dec_auth_file L = dec_struct (\<lambda>ms.
     case (dec_string '''' (members ms ''auth_mode''), fold_dec dec_tokens no_auth (members ms ''tokens'')) of
       (Some m, Some af) \<Rightarrow> fold_dec (dec_time L) (af\<lparr>af_AuthMode := m\<rparr>) (members ms ''last_refresh'')
     | _ \<Rightarrow> None)"

text \<open>A file: its bytes and its modification time, \<^term>\<open>None\<close> when there is none.\<close>

type_synonym auth_disk = "(string \<times> int) option"

definition not_logged_in :: go_error where
  "not_logged_in = OtherError ''Codex is not logged in''"

definition readAuthFile :: "codex_lib \<Rightarrow> auth_disk \<Rightarrow> go_error + auth_file \<times> string" where
  "readAuthFile L disk =
     (case disk of
        None \<Rightarrow> Inl not_logged_in
      | Some (data, _) \<Rightarrow>
          (case Option.bind (cx_dec L data) (dec_auth_file L) of
             None \<Rightarrow> Inl (Wrapped ''Codex auth file contains invalid JSON'' (OtherError ''json''))
           | Some af \<Rightarrow> Inr (af, data)))"

section \<open>The source of tokens\<close>

record token_source =
  ts_cached :: "codex_token option"
  ts_mtime :: int
  ts_size :: nat

definition NewTokenSource :: token_source where
  "NewTokenSource = \<lparr>ts_cached = None, ts_mtime = 0, ts_size = 0\<rparr>"

definition token_of :: "auth_file \<Rightarrow> codex_token" where
  "token_of af = \<lparr>tk_AccessToken = af_AccessToken af, tk_AccountID = af_AccountID af, tk_AuthMode = af_AuthMode af\<rparr>"

definition no_access_token :: go_error where
  "no_access_token = OtherError ''Codex auth file has no access token''"

text \<open>The file may change between the look at its date and the reading: \<open>seen\<close> and \<open>disk\<close> are the two.\<close>

definition TokenSource_Get ::
    "codex_lib \<Rightarrow> auth_disk \<Rightarrow> auth_disk \<Rightarrow> token_source \<Rightarrow> (go_error + codex_token) \<times> token_source" where
  "TokenSource_Get L seen disk s =
     (case seen of
        None \<Rightarrow> (Inl not_logged_in, s)
      | Some (d, mtime) \<Rightarrow>
          if ts_cached s \<noteq> None \<and> mtime = ts_mtime s \<and> length d = ts_size s then (Inr (the (ts_cached s)), s)
          else case readAuthFile L disk of
                 Inl e \<Rightarrow> (Inl e, s)
               | Inr (af, _) \<Rightarrow>
                   if af_AccessToken af = '''' then (Inl no_access_token, s)
                   else (Inr (token_of af), \<lparr>ts_cached = Some (token_of af), ts_mtime = mtime, ts_size = length d\<rparr>))"

section \<open>Refreshing\<close>

text \<open>\<open>strings.Split\<close> at one character.\<close>

fun split_at :: "char \<Rightarrow> string \<Rightarrow> string list" where
  "split_at c [] = [[]]"
| "split_at c (x # s) = (if x = c then [] # split_at c s else (x # hd (split_at c s)) # tl (split_at c s))"

definition jwtExpiry :: "codex_lib \<Rightarrow> string \<Rightarrow> int option" where
  "jwtExpiry L token =
     (case split_at (CHR ''.'') token of
        [_, payload, _] \<Rightarrow>
          (let pad = length payload mod 4; payload = (if pad = 0 then payload else payload @ replicate (4 - pad) (CHR ''=''))
           in case cx_base64 L payload of
                None \<Rightarrow> None
              | Some decoded \<Rightarrow>
                  (case Option.bind (cx_dec L decoded) (dec_struct (\<lambda>ms. dec_ints 0 (members ms ''exp''))) of
                     None \<Rightarrow> None | Some e \<Rightarrow> if e = 0 then None else Some (seconds e)))
      | _ \<Rightarrow> None)"

definition needsRefresh :: "codex_lib \<Rightarrow> go_time \<Rightarrow> auth_file \<Rightarrow> bool" where
  "needsRefresh L now af =
     (if af_AccessToken af = '''' then af_RefreshToken af \<noteq> ''''
      else case jwtExpiry L (af_AccessToken af) of
             Some e \<Rightarrow> e \<le> now + minutes 5
           | None \<Rightarrow> (case af_LastRefresh af of None \<Rightarrow> False | Some t \<Rightarrow> hours 192 < now - t))"

text \<open>The answer of the endpoint, and the tokens in it: of the identity, for access, for the next refresh.\<close>

datatype refresh_reply = RefreshFailed go_error | RefreshReply int string

type_synonym refresh_response = "string \<times> string \<times> string"

text \<open>\<open>strings.Contains\<close>.\<close>

definition contains :: "string \<Rightarrow> string \<Rightarrow> bool" where
  "contains s pat = (after_first pat s \<noteq> None)"

definition isRefreshRejected :: "int \<Rightarrow> string \<Rightarrow> bool" where
  "isRefreshRejected status body =
     (status = 401 \<or> status = 400 \<and>
        list_ex (contains (map to_lower body))
          [''invalid_grant'', ''refresh_token_expired'', ''refresh_token_reused'', ''refresh_token_invalidated''])"

definition summarizeBody :: "string \<Rightarrow> string" where
  "summarizeBody body = (let s = TrimSpace body in if 300 < length s then take 300 s @ ''...'' else s)"

definition ErrRefreshTokenRejected :: go_error where
  "ErrRefreshTokenRejected = Sentinel ''Codex refresh token was rejected''"

definition requestRefresh :: "codex_lib \<Rightarrow> refresh_reply \<Rightarrow> go_error + refresh_response" where
  "requestRefresh L reply =
     (case reply of
        RefreshFailed e \<Rightarrow> Inl (Wrapped ''Codex token refresh request failed'' e)
      | RefreshReply status text \<Rightarrow>
          (let body = take 1048576 text
           in if status \<noteq> 200
              then (if isRefreshRejected status body then Inl (Wrapped (''HTTP '' @ itoa status) ErrRefreshTokenRejected)
                    else Inl (OtherError (''Codex token refresh endpoint returned HTTP '' @ itoa status @ '': '' @ summarizeBody body)))
              else case Option.bind (cx_dec L body) (dec_struct (\<lambda>ms.
                     case (dec_string '''' (members ms ''id_token''), dec_string '''' (members ms ''access_token''),
                           dec_string '''' (members ms ''refresh_token'')) of
                       (Some i, Some a, Some r) \<Rightarrow> Some (i, a, r) | _ \<Rightarrow> None)) of
                     None \<Rightarrow> Inl (Wrapped ''Codex token refresh response was not valid JSON'' (OtherError ''json''))
                   | Some resp \<Rightarrow> Inr resp))"

text \<open>A Go map with a member set.\<close>

definition put_member :: "string \<Rightarrow> json \<Rightarrow> (string \<times> json) list \<Rightarrow> (string \<times> json) list" where
  "put_member k v ms = AList.update k v ms"

definition put_token :: "string \<Rightarrow> string \<Rightarrow> (string \<times> json) list \<Rightarrow> (string \<times> json) list" where
  "put_token k v ms = (if v = '''' then ms else put_member k (JStr v) ms)"

text \<open>The document that is written: \<open>stamp\<close> is the time now as text.\<close>

definition refreshed_doc :: "refresh_response \<Rightarrow> string \<Rightarrow> (string \<times> json) list \<Rightarrow> (string \<times> json) list" where
  "refreshed_doc resp stamp doc =
     (case resp of (i, a, r) \<Rightarrow>
        let tokens = (case map_of doc ''tokens'' of Some (JObj ms) \<Rightarrow> AList.clearjunk (rev ms) | _ \<Rightarrow> [])
        in put_member ''last_refresh'' (JStr stamp)
             (put_member ''tokens'' (json_map (put_token ''refresh_token'' r (put_token ''access_token'' a (put_token ''id_token'' i tokens)))) doc))"

text \<open>
  \<open>werr\<close> is the error of the first step of the atomic replacement that fails; then the file is what it was. A null document
  would be a nil map that is written to.
\<close>

definition persistRefreshedTokens ::
    "codex_lib \<Rightarrow> go_error option \<Rightarrow> string \<Rightarrow> int \<Rightarrow> string \<Rightarrow> refresh_response \<Rightarrow> auth_disk \<Rightarrow> go_error option \<times> auth_disk" where
  "persistRefreshedTokens L werr stamp mtime original resp disk =
     (case cx_dec L original of
        Some JNull \<Rightarrow> (Some (GoPanic ''assignment to entry in nil map''), disk)
      | _ \<Rightarrow>
          (case any_map (cx_dec L) original of
             None \<Rightarrow> (Some (Wrapped ''Codex auth file contains invalid JSON'' (OtherError ''json'')), disk)
           | Some doc \<Rightarrow>
               (case werr of
                  Some e \<Rightarrow> (Some e, disk)
                | None \<Rightarrow> (None, Some (cx_enc L (go_value (cx_float L) (json_map (refreshed_doc resp stamp doc))) @ [CHR 10], mtime)))))"

definition cacheLocked :: "auth_disk \<Rightarrow> auth_file \<Rightarrow> token_source \<Rightarrow> (go_error + codex_token) \<times> token_source" where
  "cacheLocked disk af s =
     (if af_AccessToken af = '''' then (Inl no_access_token, s)
      else case disk of
             None \<Rightarrow> (Inl (OtherError ''cannot access Codex auth file''), s)
           | Some (d, mtime) \<Rightarrow>
               (Inr (token_of af), \<lparr>ts_cached = Some (token_of af), ts_mtime = mtime, ts_size = length d\<rparr>))"

text \<open>
  What a refresh meets: whether the lock between processes is had, the answer of the endpoint to a refresh token, the error
  of writing, the time, and the modification time of the new file.
\<close>

record refresh_env =
  re_locked :: "go_error option"
  re_reply :: "string \<Rightarrow> refresh_reply"
  re_write :: "go_error option"
  re_now :: go_time
  re_stamp :: string
  re_mtime :: int

definition refreshed_file :: "refresh_response \<Rightarrow> auth_file \<Rightarrow> auth_file" where
  "refreshed_file resp af =
     (case resp of (i, a, r) \<Rightarrow>
        af\<lparr>af_IDToken := (if i = '''' then af_IDToken af else i), af_AccessToken := (if a = '''' then af_AccessToken af else a),
           af_RefreshToken := (if r = '''' then af_RefreshToken af else r)\<rparr>)"

definition refreshLocked ::
    "codex_lib \<Rightarrow> refresh_env \<Rightarrow> bool \<Rightarrow> auth_disk \<Rightarrow> token_source \<Rightarrow> (go_error + codex_token) \<times> auth_disk \<times> token_source" where
  "refreshLocked L re force disk s =
     (case re_locked re of
        Some e \<Rightarrow> (Inl e, disk, s)
      | None \<Rightarrow>
          (case readAuthFile L disk of
             Inl e \<Rightarrow> (Inl e, disk, s)
           | Inr (af, raw) \<Rightarrow>
               if \<not> force \<and> \<not> needsRefresh L (re_now re) af
               then (let (r, s) = cacheLocked disk af s in (r, disk, s))
               else if af_RefreshToken af = '''' then (Inl (OtherError ''Codex auth file has no refresh token''), disk, s)
               else (case requestRefresh L (re_reply re (af_RefreshToken af)) of
                       Inl e \<Rightarrow> (Inl e, disk, s)
                     | Inr resp \<Rightarrow>
                         if resp = ('''', '''', '''') then (Inl (OtherError ''Codex token refresh returned no tokens''), disk, s)
                         else (case persistRefreshedTokens L (re_write re) (re_stamp re) (re_mtime re) raw resp disk of
                                 (Some e, disk) \<Rightarrow> (Inl e, disk, s)
                               | (None, disk) \<Rightarrow>
                                   if fst (snd resp) = '''' \<and> af_AccessToken af = ''''
                                   then (Inl (OtherError ''Codex token refresh returned no access token''), disk, s)
                                   else (let (r, s) = cacheLocked disk (refreshed_file resp af) s in (r, disk, s))))))"

definition EnsureFresh ::
    "codex_lib \<Rightarrow> refresh_env \<Rightarrow> auth_disk \<Rightarrow> token_source \<Rightarrow> (go_error + codex_token) \<times> auth_disk \<times> token_source" where
  "EnsureFresh L re = refreshLocked L re False"

definition TokenSource_Refresh ::
    "codex_lib \<Rightarrow> refresh_env \<Rightarrow> auth_disk \<Rightarrow> token_source \<Rightarrow> (go_error + codex_token) \<times> auth_disk \<times> token_source" where
  "TokenSource_Refresh L re = refreshLocked L re True"

section \<open>The source of the images handler\<close>

text \<open>The source is kept while the configured path stays the same; \<open>path\<close> gives the files by their names.\<close>

record images_tokens =
  im_source :: "token_source option"
  im_authPath :: string

definition resolveToken ::
    "codex_lib \<Rightarrow> (string \<Rightarrow> auth_disk) \<Rightarrow> string \<Rightarrow> images_tokens \<Rightarrow> (go_error + codex_token) \<times> images_tokens" where
  "resolveToken L path authFile h =
     (let s = (case im_source h of
                 None \<Rightarrow> NewTokenSource
               | Some s \<Rightarrow> if im_authPath h \<noteq> authFile then NewTokenSource else s);
          (r, s) = TokenSource_Get L (path authFile) (path authFile) s
      in (r, \<lparr>im_source = Some s, im_authPath = authFile\<rparr>))"

end
