(* ===== verification/Codex_Auth_Facts.thy ===== *)
theory Codex_Auth_Facts
  imports Codex_Auth
begin

text \<open>
  Tokens are those of the file when they are asked for, however the file changes and whoever asks at the same time; and what a
  refresh does to the file.
\<close>

section \<open>Current tokens\<close>

text \<open>
  The versions of the file over time. Several goroutines ask: each looks at the date of some version, waits for the lock and
  reads a version that is as old or younger. They are listed in the order in which they get the lock.
\<close>

fun token_run :: "codex_lib \<Rightarrow> (nat \<Rightarrow> auth_disk) \<Rightarrow> (nat \<times> nat) list \<Rightarrow> token_source \<Rightarrow> (go_error + codex_token) list" where
  "token_run L v [] s = []"
| "token_run L v ((i, j) # asks) s =
     (let (r, s) = TokenSource_Get L (v i) (v j) s in r # token_run L v asks s)"

text \<open>No two versions have the same date and length.\<close>

definition dated :: "(nat \<Rightarrow> auth_disk) \<Rightarrow> bool" where
  "dated v \<longleftrightarrow> (\<forall>i j d m d'. v i = Some (d, m) \<longrightarrow> v j = Some (d', m) \<longrightarrow> length d = length d' \<longrightarrow> i = j)"

text \<open>The token of a version.\<close>

definition version_token :: "codex_lib \<Rightarrow> (nat \<Rightarrow> auth_disk) \<Rightarrow> nat \<Rightarrow> codex_token \<Rightarrow> bool" where
  "version_token L v n tok \<longleftrightarrow> (\<exists>af raw. readAuthFile L (v n) = Inr (af, raw) \<and> af_AccessToken af \<noteq> '''' \<and> tok = token_of af)"

text \<open>What is cached: the date of one version, the token of a later one, both of the past.\<close>

definition source_ok :: "codex_lib \<Rightarrow> (nat \<Rightarrow> auth_disk) \<Rightarrow> nat \<Rightarrow> token_source \<Rightarrow> bool" where
  "source_ok L v now s \<longleftrightarrow>
     (\<forall>tok. ts_cached s = Some tok \<longrightarrow>
        (\<exists>a b d. a \<le> b \<and> b \<le> now \<and> v a = Some (d, ts_mtime s) \<and> length d = ts_size s \<and> version_token L v b tok))"

lemma Get_step:
  assumes "dated v" and "source_ok L v now s" and "i \<le> j" and "now \<le> j" and "TokenSource_Get L (v i) (v j) s = (r, s')"
  shows "source_ok L v j s' \<and> (\<forall>tok. r = Inr tok \<longrightarrow> (\<exists>n. i \<le> n \<and> n \<le> j \<and> version_token L v n tok))"
proof -
  have later: "source_ok L v j s" using assms(2,4) by (fastforce simp: source_ok_def)
  show ?thesis
  proof (cases "v i")
    case None
    then show ?thesis using assms(5) later by (auto simp: TokenSource_Get_def)
  next
    case (Some dm)
    obtain d m where dm: "v i = Some (d, m)" using Some by (cases dm) auto
    show ?thesis
    proof (cases "ts_cached s \<noteq> None \<and> m = ts_mtime s \<and> length d = ts_size s")
      case True
      then obtain tok where tok: "ts_cached s = Some tok" by blast
      then have res: "r = Inr tok" "s' = s" using assms(5) dm True by (auto simp: TokenSource_Get_def)
      obtain a b d' where ab: "a \<le> b" "b \<le> now" "v a = Some (d', ts_mtime s)" "length d' = ts_size s" "version_token L v b tok"
        using assms(2) tok by (auto simp: source_ok_def)
      have "a = i" using assms(1) ab(3,4) dm True unfolding dated_def by metis
      then show ?thesis using res later ab assms(4) by (auto intro!: exI [of _ b])
    next
      case False
      then have run: "TokenSource_Get L (v i) (v j) s = (case readAuthFile L (v j) of
          Inl e \<Rightarrow> (Inl e, s)
        | Inr (af, _) \<Rightarrow> if af_AccessToken af = '''' then (Inl no_access_token, s)
            else (Inr (token_of af), \<lparr>ts_cached = Some (token_of af), ts_mtime = m, ts_size = length d\<rparr>))"
        unfolding TokenSource_Get_def dm option.case prod.case by (rule if_not_P)
      show ?thesis
      proof (cases "r")
        case (Inl e)
        then have "s' = s" using assms(5) unfolding run by (auto split: sum.splits prod.splits if_splits)
        then show ?thesis using Inl later by simp
      next
        case (Inr tok)
        then obtain af raw where af: "readAuthFile L (v j) = Inr (af, raw)" "af_AccessToken af \<noteq> ''''" "tok = token_of af"
          "s' = \<lparr>ts_cached = Some (token_of af), ts_mtime = m, ts_size = length d\<rparr>"
          using assms(5) unfolding run by (auto split: sum.splits prod.splits if_splits)
        then have "version_token L v j tok" by (auto simp: version_token_def)
        then show ?thesis
          using Inr af(3,4) dm assms(3) by (auto simp: source_ok_def)
      qed
    qed
  qed
qed

lemma token_run_current:
  assumes "dated v" and "source_ok L v now s" and "\<forall>(i, j) \<in> set asks. i \<le> j \<and> now \<le> j" and "sorted (map snd asks)"
    and "k < length asks" and "token_run L v asks s ! k = Inr tok"
  shows "\<exists>n. fst (asks ! k) \<le> n \<and> n \<le> snd (asks ! k) \<and> version_token L v n tok"
  using assms(2-6)
proof (induction asks arbitrary: s now k)
  case (Cons ask asks)
  obtain i j where ask: "ask = (i, j)" by fastforce
  obtain r s' where r: "TokenSource_Get L (v i) (v j) s = (r, s')" by fastforce
  have ij: "i \<le> j" "now \<le> j" using Cons.prems(2) ask by auto
  note step = Get_step [OF assms(1) Cons.prems(1) ij r]
  show ?case
  proof (cases k)
    case 0
    then show ?thesis using Cons.prems(5) step by (simp add: ask r)
  next
    case (Suc k')
    have "\<forall>(i', j') \<in> set asks. i' \<le> j' \<and> j \<le> j'" using Cons.prems(2,3) by (auto simp: ask)
    with Cons.IH [of j s' k'] step show ?thesis
      using Cons.prems(3-5) Suc by (auto simp: ask r)
  qed
qed simp

text \<open>
  C27: A token is never older than the question. Goroutines may ask at the same time while the Codex client rewrites the
  file between their look at its date and their reading; as long as no two versions of the file agree in date and length,
  everyone who gets a token gets that of a version which the file had between the question and the answer.
\<close>

lemma codex_token_current:
  assumes "dated v" and "\<forall>(i, j) \<in> set asks. i \<le> j" and "sorted (map snd asks)" and "k < length asks"
    and "token_run L v asks NewTokenSource ! k = Inr tok"
  shows "\<exists>n. fst (asks ! k) \<le> n \<and> n \<le> snd (asks ! k) \<and> version_token L v n tok"
  by (rule token_run_current [OF assms(1) _ _ assms(3-5), of 0]) (use assms(2) in \<open>auto simp: source_ok_def NewTokenSource_def\<close>)

section \<open>Refreshing\<close>

lemma map_of_put_member [simp]: "map_of (put_member k v ms) k' = (if k' = k then Some v else map_of ms k')"
  by (simp add: put_member_def update_conv')

lemma map_of_put_token: "map_of (put_token k v ms) k' = (if k' = k \<and> v \<noteq> '''' then Some (JStr v) else map_of ms k')"
  by (simp add: put_token_def)

text \<open>The tokens of a document.\<close>

definition doc_tokens :: "(string \<times> json) list \<Rightarrow> string \<Rightarrow> json option" where
  "doc_tokens doc k = (case map_of doc ''tokens'' of Some (JObj ms) \<Rightarrow> map_of (rev ms) k | _ \<Rightarrow> None)"

lemma distinct_put_member: "distinct (map fst ms) \<Longrightarrow> distinct (map fst (put_member k v ms))"
  by (simp add: put_member_def distinct_update)

lemma distinct_put_token: "distinct (map fst ms) \<Longrightarrow> distinct (map fst (put_token k v ms))"
  by (simp add: put_token_def distinct_put_member)

text \<open>The old document with the tokens that came back and the time, and with nothing else changed.\<close>

definition updates :: "refresh_response \<Rightarrow> string \<Rightarrow> (string \<times> json) list \<Rightarrow> (string \<times> json) list \<Rightarrow> bool" where
  "updates resp stamp doc new \<longleftrightarrow>
     (\<forall>k. k \<noteq> ''tokens'' \<longrightarrow> k \<noteq> ''last_refresh'' \<longrightarrow> map_of new k = map_of doc k) \<and>
     map_of new ''last_refresh'' = Some (JStr stamp) \<and>
     (\<forall>k. doc_tokens new k =
        (if k = ''id_token'' \<and> fst resp \<noteq> '''' then Some (JStr (fst resp))
         else if k = ''access_token'' \<and> fst (snd resp) \<noteq> '''' then Some (JStr (fst (snd resp)))
         else if k = ''refresh_token'' \<and> snd (snd resp) \<noteq> '''' then Some (JStr (snd (snd resp)))
         else doc_tokens doc k))"

lemma refreshed_doc_updates: "updates resp stamp doc (refreshed_doc resp stamp doc)"
proof -
  obtain i a r where resp: "resp = (i, a, r)" by (metis prod_cases3)
  define old where "old = (case map_of doc ''tokens'' of Some (JObj ms) \<Rightarrow> AList.clearjunk (rev ms) | _ \<Rightarrow> [])"
  define ts where "ts = put_token ''refresh_token'' r (put_token ''access_token'' a (put_token ''id_token'' i old))"
  have old: "distinct (map fst old)" "map_of old k = doc_tokens doc k" for k
    by (simp_all add: old_def doc_tokens_def map_of_clearjunk distinct_clearjunk split: option.split json.split)
  have d: "distinct (map fst ts)" unfolding ts_def by (intro distinct_put_token old)
  have "map_of (rev (sort_key fst ts)) k = map_of ts k" for k
  proof -
    have "distinct (map fst (sort_key fst ts))" using d by (simp add: distinct_map inj_on_def)
    then have "map_of (rev (sort_key fst ts)) = map_of (sort_key fst ts)"
      by (intro map_of_inject_set [THEN iffD2]) (simp_all add: rev_map [symmetric])
    then show ?thesis using map_of_sort_key [OF d] by simp
  qed
  moreover have "refreshed_doc resp stamp doc = put_member ''last_refresh'' (JStr stamp) (put_member ''tokens'' (json_map ts) doc)"
    by (simp add: refreshed_doc_def resp ts_def old_def Let_def)
  ultimately show ?thesis
    by (simp add: updates_def doc_tokens_def [of "put_member _ _ _"] json_map_def resp)
      (simp add: ts_def map_of_put_token old(2))
qed

text \<open>
  C28: A refresh changes the file only to what the endpoint returned. Either the file stays as it is, or it is replaced as a
  whole by its own document with exactly the returned tokens and the time put in: the account, members the relay does
  not know, and tokens that did not come back are kept.
\<close>

lemma refresh_keeps_document:
  assumes "refreshLocked L re force disk s = (r, disk', s')" and "disk' \<noteq> disk"
  shows "\<exists>data mtime af doc resp new. disk = Some (data, mtime) \<and> readAuthFile L disk = Inr (af, data) \<and>
    any_map (cx_dec L) data = Some doc \<and> requestRefresh L (re_reply re (af_RefreshToken af)) = Inr resp \<and>
    updates resp (re_stamp re) doc new \<and>
    disk' = Some (cx_enc L (go_value (cx_float L) (json_map new)) @ [CHR 10], re_mtime re)"
proof -
  have unlocked: "re_locked re = None" using assms by (auto simp: refreshLocked_def split: option.splits)
  obtain af raw where af: "readAuthFile L disk = Inr (af, raw)"
    using assms unlocked by (cases "readAuthFile L disk") (auto simp: refreshLocked_def)
  then obtain mtime where disk: "disk = Some (raw, mtime)"
    by (auto simp: readAuthFile_def split: option.splits)
  obtain resp where resp: "requestRefresh L (re_reply re (af_RefreshToken af)) = Inr resp"
    using assms unlocked af
    by (cases "requestRefresh L (re_reply re (af_RefreshToken af))") (auto simp: refreshLocked_def split: if_splits prod.splits)
  have "disk' = snd (persistRefreshedTokens L (re_write re) (re_stamp re) (re_mtime re) raw resp disk)"
    using assms unlocked af resp
    by (cases "persistRefreshedTokens L (re_write re) (re_stamp re) (re_mtime re) raw resp disk")
      (auto simp: refreshLocked_def split: if_splits prod.splits option.splits)
  then obtain doc where doc: "any_map (cx_dec L) raw = Some doc"
    "disk' = Some (cx_enc L (go_value (cx_float L) (json_map (refreshed_doc resp (re_stamp re) doc))) @ [CHR 10], re_mtime re)"
    using assms(2) by (auto simp: persistRefreshedTokens_def split: option.splits json.splits)
  show ?thesis using disk af doc resp refreshed_doc_updates by blast
qed

text \<open>A failed refresh of a file with an access token leaves file and cache alone.\<close>

lemma refresh_failure_harmless:
  assumes "refreshLocked L re force disk s = (Inl e, disk', s')"
    and "\<And>af raw. readAuthFile L disk = Inr (af, raw) \<Longrightarrow> af_AccessToken af \<noteq> ''''"
  shows "disk' = disk \<and> s' = s"
proof (cases "readAuthFile L disk")
  case (Inl e)
  then show ?thesis using assms(1) by (auto simp: refreshLocked_def split: option.splits)
next
  case (Inr p)
  obtain af raw where af: "p = (af, raw)" by fastforce
  have tok: "af_AccessToken af \<noteq> ''''" using assms(2) Inr af by simp
  then have new: "af_AccessToken (refreshed_file resp af) \<noteq> ''''" for resp by (cases resp) (simp add: refreshed_file_def)
  have there: "disk \<noteq> None" using Inr by (cases disk) (simp_all add: readAuthFile_def)
  show ?thesis
    using assms(1) tok new there Inr af
    by (auto simp: refreshLocked_def cacheLocked_def persistRefreshedTokens_def Let_def
        split: option.splits sum.splits if_splits json.splits prod.splits)
qed

section \<open>Witnesses\<close>

definition demo_login :: json where
  "demo_login = JObj [(''tokens'', JObj [(''access_token'', JStr ''a''), (''refresh_token'', JStr ''r''), (''account_id'', JStr ''c'')]),
     (''other'', JBool True)]"

definition demo_codex :: codex_lib where
  "demo_codex = \<lparr>cx_dec = (\<lambda>s. if s = ''resp'' then Some (JObj [(''access_token'', JStr ''b'')]) else Some demo_login),
     cx_enc = (\<lambda>_. ''new''), cx_float = (\<lambda>s. s), cx_time = (\<lambda>_. None), cx_base64 = (\<lambda>_. None)\<rparr>"

definition demo_refresh :: refresh_env where
  "demo_refresh = \<lparr>re_locked = None, re_reply = (\<lambda>_. RefreshReply 200 ''resp''), re_write = None, re_now = 0, re_stamp = ''now'', re_mtime = 5\<rparr>"

lemma demo_read:
  "d \<noteq> ''resp'' \<Longrightarrow> readAuthFile demo_codex (Some (d, m)) =
    Inr (no_auth\<lparr>af_AccessToken := ''a'', af_RefreshToken := ''r'', af_AccountID := ''c''\<rparr>, d)"
  by (simp add: readAuthFile_def demo_codex_def demo_login_def dec_auth_file_def dec_tokens_def members_def to_lower_def is_upper_def no_auth_def)

lemma codex_token_current_witness:
  "token_run demo_codex (\<lambda>n. Some (''{}'', int n)) [(0, 1), (0, 1)] NewTokenSource ! 1 = Inr \<lparr>tk_AccessToken = ''a'', tk_AccountID = ''c'', tk_AuthMode = ''''\<rparr> \<and>
   (\<exists>n. n \<le> 1 \<and> version_token demo_codex (\<lambda>n. Some (''{}'', int n)) n \<lparr>tk_AccessToken = ''a'', tk_AccountID = ''c'', tk_AuthMode = ''''\<rparr>)"
proof -
  let ?v = "\<lambda>n. Some (''{}'', int n)" and ?t = "\<lparr>tk_AccessToken = ''a'', tk_AccountID = ''c'', tk_AuthMode = ''''\<rparr>"
  have run: "token_run demo_codex ?v [(0, 1), (0, 1)] NewTokenSource ! 1 = Inr ?t"
    by (simp add: TokenSource_Get_def demo_read NewTokenSource_def token_of_def no_auth_def)
  have "dated ?v" by (simp add: dated_def)
  from codex_token_current [OF this _ _ _ run] run show ?thesis by auto
qed

lemma refresh_keeps_document_witness:
  "\<exists>r s' new resp. refreshLocked demo_codex demo_refresh True (Some (''old'', 1)) NewTokenSource = (r, Some (''new'' @ [CHR 10], 5), s') \<and>
     updates resp ''now'' [(''other'', JBool True), (''tokens'', JObj [(''access_token'', JStr ''a''), (''refresh_token'', JStr ''r''), (''account_id'', JStr ''c'')])] new"
proof -
  have reply: "requestRefresh demo_codex (RefreshReply 200 ''resp'') = Inr ([], ''b'', [])"
    by (simp add: requestRefresh_def demo_codex_def members_def to_lower_def is_upper_def)
  have kept: "persistRefreshedTokens demo_codex None stamp 5 ''old'' resp disk = (None, Some (''new'' @ [CHR 10], 5))" for stamp resp disk
    by (simp add: persistRefreshedTokens_def demo_codex_def demo_login_def any_map_def)
  have disk: "fst (snd (refreshLocked demo_codex demo_refresh True (Some (''old'', 1)) NewTokenSource)) = Some (''new'' @ [CHR 10], 5)"
    by (simp add: refreshLocked_def demo_refresh_def demo_read reply no_auth_def kept cacheLocked_def refreshed_file_def)
  obtain r d s' where run0: "refreshLocked demo_codex demo_refresh True (Some (''old'', 1)) NewTokenSource = (r, d, s')" by (rule prod_cases3)
  have run: "refreshLocked demo_codex demo_refresh True (Some (''old'', 1)) NewTokenSource = (r, Some (''new'' @ [CHR 10], 5), s')"
    using disk unfolding run0 by simp
  have "any_map (cx_dec demo_codex) ''old'' =
      Some [(''other'', JBool True), (''tokens'', JObj [(''access_token'', JStr ''a''), (''refresh_token'', JStr ''r''), (''account_id'', JStr ''c'')])]"
    by code_simp
  with refresh_keeps_document [OF run] obtain resp new where "updates resp ''now'' [(''other'', JBool True),
      (''tokens'', JObj [(''access_token'', JStr ''a''), (''refresh_token'', JStr ''r''), (''account_id'', JStr ''c'')])] new"
    by (auto simp: demo_refresh_def)
  with run show ?thesis by blast
qed

end
