(* ===== verification/Cache_Config.thy ===== *)
theory Cache_Config
  imports Config
begin

text \<open>
  The configuration of the cache (\<open>internal/cache/config.go\<close>) and the settings of an embedded Olric node that are made
  from it (the first part of \<open>internal/cache/olric.go\<close>). Olric and memberlist are third-party: their default settings are
  arguments.
\<close>

section \<open>The records\<close>

record ristretto_config =
  rcf_NumCounters :: int
  rcf_MaxCost :: int
  rcf_BufferItems :: int

record olric_config =
  ocf_DMapName :: string
  ocf_BindAddr :: string
  ocf_Environment :: string
  ocf_Addresses :: "string list"
  ocf_Peers :: "string list"
  ocf_ReplicaCount :: int
  ocf_ReadQuorum :: int
  ocf_WriteQuorum :: int
  ocf_LeaveTimeout :: duration
  ocf_MemberCountQuorum :: int
  ocf_Embedded :: bool

record cache_config =
  ccf_Mode :: string
  ccf_Olric :: olric_config
  ccf_Ristretto :: ristretto_config

definition DefaultRistrettoConfig :: ristretto_config where
  "DefaultRistrettoConfig = \<lparr>rcf_NumCounters = 1000000, rcf_MaxCost = 100 * 2 ^ 20, rcf_BufferItems = 64\<rparr>"

definition DefaultOlricConfig :: olric_config where
  "DefaultOlricConfig =
     \<lparr>ocf_DMapName = ''cc-relay'', ocf_BindAddr = '''', ocf_Environment = ''local'', ocf_Addresses = [], ocf_Peers = [],
      ocf_ReplicaCount = 1, ocf_ReadQuorum = 1, ocf_WriteQuorum = 1, ocf_LeaveTimeout = seconds 5, ocf_MemberCountQuorum = 1,
      ocf_Embedded = False\<rparr>"

section \<open>Validation: the first error, or none\<close>

definition validateEnvironment :: "olric_config \<Rightarrow> string option" where
  "validateEnvironment o' =
     (if ocf_Environment o' \<in> {'''', ''local'', ''lan'', ''wan''} then None
      else Some ''cache: olric.environment must be \"local\", \"lan\", or \"wan\"'')"

definition validateQuorum :: "olric_config \<Rightarrow> string option" where
  "validateQuorum o' =
     (if 0 < ocf_WriteQuorum o' \<and> 0 < ocf_ReplicaCount o' \<and> ocf_ReplicaCount o' < ocf_WriteQuorum o'
      then Some ''cache: olric.write_quorum cannot exceed replica_count''
      else if 0 < ocf_ReadQuorum o' \<and> 0 < ocf_ReplicaCount o' \<and> ocf_ReplicaCount o' < ocf_ReadQuorum o'
      then Some ''cache: olric.read_quorum cannot exceed replica_count''
      else if ocf_MemberCountQuorum o' < 0 then Some ''cache: olric.member_count_quorum cannot be negative''
      else None)"

definition OlricConfig_Validate :: "olric_config \<Rightarrow> string option" where
  "OlricConfig_Validate o' =
     (if \<not> ocf_Embedded o' \<and> ocf_Addresses o' = [] then Some ''cache: olric.addresses required when not embedded''
      else if ocf_Embedded o' \<and> ocf_BindAddr o' = '''' then Some ''cache: olric.bind_addr required when embedded''
      else case validateEnvironment o' of
             Some e \<Rightarrow> Some e
           | None \<Rightarrow>
               (case validateQuorum o' of
                  Some e \<Rightarrow> Some e
                | None \<Rightarrow>
                    if ocf_LeaveTimeout o' < 0 then Some ''cache: olric.leave_timeout cannot be negative'' else None))"

definition cache_unknown_mode :: "string \<Rightarrow> string" where
  "cache_unknown_mode m = ''cache: unknown mode '' @ CHR 0x22 # m @ [CHR 0x22]"

definition Cache_Config_Validate :: "cache_config \<Rightarrow> string option" where
  "Cache_Config_Validate c =
     (if ccf_Mode c = ''single'' then
        (if rcf_MaxCost (ccf_Ristretto c) \<le> 0 then Some ''cache: ristretto.max_cost must be positive''
         else if rcf_NumCounters (ccf_Ristretto c) \<le> 0 then Some ''cache: ristretto.num_counters must be positive''
         else None)
      else if ccf_Mode c = ''ha'' then OlricConfig_Validate (ccf_Olric c)
      else if ccf_Mode c = ''disabled'' then None
      else if ccf_Mode c = '''' then Some ''cache: mode is required''
      else Some (cache_unknown_mode (ccf_Mode c)))"

section \<open>The settings of an embedded node\<close>

text \<open>The settings of memberlist and of Olric that the code reads or writes.\<close>

record memberlist_settings =
  mls_BindAddr :: string
  mls_BindPort :: int
  mls_AdvertisePort :: int

record olric_settings =
  ols_BindAddr :: string
  ols_BindPort :: int
  ols_Memberlist :: "memberlist_settings option"
  ols_Peers :: "string list"
  ols_ReplicaCount :: int
  ols_ReadQuorum :: int
  ols_WriteQuorum :: int
  ols_MemberCountQuorum :: int
  ols_LeaveTimeout :: duration

definition parseBindAddr :: "string \<Rightarrow> string \<times> int" where
  "parseBindAddr a =
     (case split_host_port a of
        None \<Rightarrow> (a, 0)
      | Some (h, portStr) \<Rightarrow> (case atoi portStr of None \<Rightarrow> (h, 0) | Some p \<Rightarrow> (h, p)))"

definition getEnvironment :: "string \<Rightarrow> string" where
  "getEnvironment e = (if e = '''' then ''local'' else e)"

definition applyBindPort :: "int \<Rightarrow> olric_settings \<Rightarrow> olric_settings" where
  "applyBindPort port c = (if 0 < port then c\<lparr>ols_BindPort := port\<rparr> else c)"

definition configureMemberlist :: "memberlist_settings \<Rightarrow> string \<Rightarrow> int \<Rightarrow> olric_settings \<Rightarrow> olric_settings" where
  "configureMemberlist defaultLocal bindAddr bindPort c =
     (let m = (case ols_Memberlist c of None \<Rightarrow> defaultLocal | Some m \<Rightarrow> m);
          m = m\<lparr>mls_BindAddr := bindAddr\<rparr>;
          m = (if 0 < bindPort
               then m\<lparr>mls_BindPort := wrap64 (bindPort + 2), mls_AdvertisePort := wrap64 (bindPort + 2)\<rparr> else m)
      in c\<lparr>ols_Memberlist := Some m\<rparr>)"

definition applyClusterSettings :: "olric_config \<Rightarrow> olric_settings \<Rightarrow> olric_settings" where
  "applyClusterSettings cfg c =
     (let c = (if ocf_Peers cfg \<noteq> [] then c\<lparr>ols_Peers := ocf_Peers cfg\<rparr> else c);
          c = (if 0 < ocf_ReplicaCount cfg then c\<lparr>ols_ReplicaCount := ocf_ReplicaCount cfg\<rparr> else c);
          c = (if 0 < ocf_ReadQuorum cfg then c\<lparr>ols_ReadQuorum := ocf_ReadQuorum cfg\<rparr> else c);
          c = (if 0 < ocf_WriteQuorum cfg then c\<lparr>ols_WriteQuorum := ocf_WriteQuorum cfg\<rparr> else c);
          c = (if 0 < ocf_MemberCountQuorum cfg then c\<lparr>ols_MemberCountQuorum := ocf_MemberCountQuorum cfg\<rparr> else c);
          c = (if 0 < ocf_LeaveTimeout cfg then c\<lparr>ols_LeaveTimeout := ocf_LeaveTimeout cfg\<rparr> else c)
      in c)"

text \<open>\<open>defaults\<close> is \<open>olricconfig.New\<close>, \<open>defaultLocal\<close> is \<open>memberlist.DefaultLocalConfig\<close>. Loggers are left out.\<close>

definition buildOlricConfig :: "(string \<Rightarrow> olric_settings) \<Rightarrow> memberlist_settings \<Rightarrow> olric_config \<Rightarrow> olric_settings" where
  "buildOlricConfig defaults defaultLocal cfg =
     (let c = defaults (getEnvironment (ocf_Environment cfg));
          (bindAddr, bindPort) = parseBindAddr (ocf_BindAddr cfg);
          c = applyBindPort bindPort (c\<lparr>ols_BindAddr := bindAddr\<rparr>);
          c = configureMemberlist defaultLocal bindAddr bindPort c
      in applyClusterSettings cfg c)"

section \<open>Facts\<close>

text \<open>What a valid configuration is, independent of the order of the checks.\<close>

definition olric_ok :: "olric_config \<Rightarrow> bool" where
  "olric_ok o' \<longleftrightarrow>
     (if ocf_Embedded o' then ocf_BindAddr o' \<noteq> '''' else ocf_Addresses o' \<noteq> []) \<and>
     ocf_Environment o' \<in> {'''', ''local'', ''lan'', ''wan''} \<and>
     (0 < ocf_ReplicaCount o' \<longrightarrow> ocf_WriteQuorum o' \<le> ocf_ReplicaCount o' \<and> ocf_ReadQuorum o' \<le> ocf_ReplicaCount o') \<and>
     0 \<le> ocf_MemberCountQuorum o' \<and> 0 \<le> ocf_LeaveTimeout o'"

lemma OlricConfig_Validate_iff: "OlricConfig_Validate o' = None \<longleftrightarrow> olric_ok o'"
  by (auto simp: OlricConfig_Validate_def validateEnvironment_def validateQuorum_def olric_ok_def split: if_splits)

lemma Cache_Config_Validate_iff:
  "Cache_Config_Validate c = None \<longleftrightarrow>
     ccf_Mode c = ''single'' \<and> 0 < rcf_MaxCost (ccf_Ristretto c) \<and> 0 < rcf_NumCounters (ccf_Ristretto c) \<or>
     ccf_Mode c = ''ha'' \<and> olric_ok (ccf_Olric c) \<or> ccf_Mode c = ''disabled''"
  by (auto simp: Cache_Config_Validate_def OlricConfig_Validate_iff)

lemma defaults_valid:
  "Cache_Config_Validate \<lparr>ccf_Mode = ''single'', ccf_Olric = o', ccf_Ristretto = DefaultRistrettoConfig\<rparr> = None"
  "OlricConfig_Validate (DefaultOlricConfig\<lparr>ocf_Addresses := [a]\<rparr>) = None"
  by (simp_all add: Cache_Config_Validate_iff OlricConfig_Validate_iff olric_ok_def DefaultRistrettoConfig_def DefaultOlricConfig_def
      time_defs)

text \<open>An address that \<open>host:port\<close> builds comes apart into the same host and port.\<close>

definition plain_host :: "string \<Rightarrow> bool" where
  "plain_host h \<longleftrightarrow> CHR '':'' \<notin> set h \<and> CHR ''['' \<notin> set h \<and> CHR '']'' \<notin> set h"

lemma digits_plain: "list_all is_digit ds \<Longrightarrow> plain_host ds"
  by (auto simp: plain_host_def list_all_iff is_digit_def dest: bspec [where x = "CHR '':''"] bspec [where x = "CHR ''[''"]
      bspec [where x = "CHR '']''"])

lemma itoa_plain: "0 \<le> p \<Longrightarrow> plain_host (itoa p)"
  by (simp add: itoa_def digits_plain nat_digits_digits)

lemma split_joined:
  assumes h: "plain_host h" and p: "plain_host p"
  shows "split_host_port (h @ CHR '':'' # p) = Some (h, p)"
proof -
  have "takeWhile (\<lambda>x. x \<noteq> CHR '':'') (rev (h @ CHR '':'' # p)) = rev p"
    using p by (auto simp: takeWhile_tail plain_host_def)
  then have i: "last_index (CHR '':'') (h @ CHR '':'' # p) = Some (length h)" by (simp add: last_index_def)
  have "(h @ CHR '':'' # p) ! 0 \<noteq> CHR ''[''" using h by (cases h) (auto simp: plain_host_def)
  then show ?thesis using h p by (simp add: split_host_port_def i plain_host_def)
qed

lemma parseBindAddr_joined:
  assumes "plain_host h" and "0 \<le> p" and "in_int64 p"
  shows "parseBindAddr (h @ CHR '':'' # itoa p) = (h, p)"
  using assms by (simp add: parseBindAddr_def split_joined itoa_plain atoi_itoa)

text \<open>A host alone is kept as it is; so are the brackets around an address of version 6 without a port.\<close>

lemma parseBindAddr_host: "plain_host h \<Longrightarrow> parseBindAddr h = (h, 0)"
  by (simp add: parseBindAddr_def split_host_port_def last_index_def plain_host_def)

lemma parseBindAddr_bracketed: "parseBindAddr ''[::1]'' = (''[::1]'', 0)" "parseBindAddr ''[::1]:3320'' = (''::1'', 3320)"
  by (code_simp, code_simp)

text \<open>
  The settings of the node, value by value: what is configured where it is positive (or not empty), and the default of the
  environment otherwise. Memberlist listens two ports above the node.
\<close>

definition set_or :: "int \<Rightarrow> int \<Rightarrow> int" where
  "set_or v d = (if 0 < v then v else d)"

lemma buildOlricConfig_spec:
  fixes defaults local cfg
  defines "d \<equiv> defaults (getEnvironment (ocf_Environment cfg))" and "c \<equiv> buildOlricConfig defaults local cfg"
    and "b \<equiv> parseBindAddr (ocf_BindAddr cfg)"
  shows "ols_BindAddr c = fst b" and "ols_BindPort c = set_or (snd b) (ols_BindPort d)"
    and "ols_Peers c = (if ocf_Peers cfg = [] then ols_Peers d else ocf_Peers cfg)"
    and "ols_ReplicaCount c = set_or (ocf_ReplicaCount cfg) (ols_ReplicaCount d)"
    and "ols_ReadQuorum c = set_or (ocf_ReadQuorum cfg) (ols_ReadQuorum d)"
    and "ols_WriteQuorum c = set_or (ocf_WriteQuorum cfg) (ols_WriteQuorum d)"
    and "ols_MemberCountQuorum c = set_or (ocf_MemberCountQuorum cfg) (ols_MemberCountQuorum d)"
    and "ols_LeaveTimeout c = set_or (ocf_LeaveTimeout cfg) (ols_LeaveTimeout d)"
    and "\<exists>m. ols_Memberlist c = Some m \<and> mls_BindAddr m = fst b \<and> (0 < snd b \<longrightarrow> mls_BindPort m = wrap64 (snd b + 2))"
  by (simp_all add: assms buildOlricConfig_def applyClusterSettings_def applyBindPort_def configureMemberlist_def Let_def split_def
      set_or_def)

text \<open>
  Validation compares the quorums with the replica count only where both are configured. With a replica count left out, Olric's
  own default counts, and a quorum above it passes.
\<close>

lemma quorum_above_default_passes:
  fixes d
  defines "cfg \<equiv> DefaultOlricConfig\<lparr>ocf_Embedded := True, ocf_BindAddr := ''127.0.0.1:3320'', ocf_ReplicaCount := 0, ocf_WriteQuorum := 3\<rparr>"
  assumes "ols_ReplicaCount (d ''local'') = 1"
  shows "OlricConfig_Validate cfg = None \<and>
    ols_ReplicaCount (buildOlricConfig d l cfg) < ols_WriteQuorum (buildOlricConfig d l cfg)"
  using assms by (simp add: OlricConfig_Validate_iff olric_ok_def DefaultOlricConfig_def time_defs buildOlricConfig_spec set_or_def getEnvironment_def)

end
