(* ===== verification/Cache_Backends.thy ===== *)
theory Cache_Backends
  imports Cache_Config
begin

text \<open>
  The cache (\<open>internal/cache\<close>): its interface, the three implementations (\<open>noop.go\<close>, \<open>ristretto.go\<close>, \<open>olric.go\<close>) and their
  construction (\<open>factory.go\<close>), one operation after the other; theory \<open>Cache_Concurrent\<close> interleaves them. Ristretto and Olric are
  third-party and arguments.

  A byte slice is the address of an array, because the copies the code makes are there to keep the arrays of callers apart from those in
  the cache. Logging and read locks are left out here: alone, the check of \<open>closed\<close> under the lock sees what the one before it saw.
\<close>

type_synonym addr = nat

datatype cache_error = ErrNotFound | ErrClosed | ErrSerializationFailed | ErrCacheFetchFailed | ErrCacheCorrupt | CacheOther string

record 'b cache_world =
  cw_mem :: "addr \<Rightarrow> string"
  cw_next :: addr
  cw_closed :: bool
  cw_backend :: 'b

text \<open>\<open>make\<close> and \<open>copy\<close>: a new array with these bytes.\<close>

definition new_bytes :: "string \<Rightarrow> 'b cache_world \<Rightarrow> addr \<times> 'b cache_world" where
  "new_bytes v w = (cw_next w, w\<lparr>cw_mem := (cw_mem w)(cw_next w := v), cw_next := cw_next w + 1\<rparr>)"

definition copy_bytes :: "addr \<Rightarrow> 'b cache_world \<Rightarrow> addr \<times> 'b cache_world" where
  "copy_bytes a w = new_bytes (cw_mem w a) w"

section \<open>The interface\<close>

text \<open>The first argument is the error of the context, if it is done.\<close>

record 's cache_iface =
  ci_Get :: "cache_error option \<Rightarrow> string \<Rightarrow> 's \<Rightarrow> (cache_error + addr) \<times> 's"
  ci_Set :: "cache_error option \<Rightarrow> string \<Rightarrow> addr \<Rightarrow> 's \<Rightarrow> (cache_error + unit) \<times> 's"
  ci_SetWithTTL :: "cache_error option \<Rightarrow> string \<Rightarrow> addr \<Rightarrow> duration \<Rightarrow> 's \<Rightarrow> (cache_error + unit) \<times> 's"
  ci_Delete :: "cache_error option \<Rightarrow> string \<Rightarrow> 's \<Rightarrow> (cache_error + unit) \<times> 's"
  ci_Exists :: "cache_error option \<Rightarrow> string \<Rightarrow> 's \<Rightarrow> (cache_error + bool) \<times> 's"
  ci_Close :: "'s \<Rightarrow> cache_error option \<times> 's"

record cache_stats =
  st_Hits :: "64 word"
  st_Misses :: "64 word"
  st_KeyCount :: "64 word"
  st_BytesUsed :: "64 word"
  st_Evictions :: "64 word"

definition no_stats :: cache_stats where
  "no_stats = \<lparr>st_Hits = 0, st_Misses = 0, st_KeyCount = 0, st_BytesUsed = 0, st_Evictions = 0\<rparr>"

text \<open>The checks every operation makes first.\<close>

definition when_open :: "cache_error option \<Rightarrow> ('b cache_world \<Rightarrow> (cache_error + 'a) \<times> 'b cache_world) \<Rightarrow>
    'b cache_world \<Rightarrow> (cache_error + 'a) \<times> 'b cache_world" where
  "when_open ctx held w =
     (case ctx of Some e \<Rightarrow> (Inl e, w) | None \<Rightarrow> if cw_closed w then (Inl ErrClosed, w) else held w)"

section \<open>No cache\<close>

text \<open>The context is ignored.\<close>

definition noop_Get :: "cache_error option \<Rightarrow> string \<Rightarrow> 'b cache_world \<Rightarrow> (cache_error + addr) \<times> 'b cache_world" where
  "noop_Get ctx key w = (if cw_closed w then (Inl ErrClosed, w) else (Inl ErrNotFound, w))"

definition noop_Set :: "cache_error option \<Rightarrow> string \<Rightarrow> addr \<Rightarrow> 'b cache_world \<Rightarrow> (cache_error + unit) \<times> 'b cache_world" where
  "noop_Set ctx key value w = (if cw_closed w then (Inl ErrClosed, w) else (Inr (), w))"

definition noop_SetWithTTL :: "cache_error option \<Rightarrow> string \<Rightarrow> addr \<Rightarrow> duration \<Rightarrow> 'b cache_world \<Rightarrow> (cache_error + unit) \<times> 'b cache_world" where
  "noop_SetWithTTL ctx key value ttl w = (if cw_closed w then (Inl ErrClosed, w) else (Inr (), w))"

definition noop_Delete :: "cache_error option \<Rightarrow> string \<Rightarrow> 'b cache_world \<Rightarrow> (cache_error + unit) \<times> 'b cache_world" where
  "noop_Delete ctx key w = (if cw_closed w then (Inl ErrClosed, w) else (Inr (), w))"

definition noop_Exists :: "cache_error option \<Rightarrow> string \<Rightarrow> 'b cache_world \<Rightarrow> (cache_error + bool) \<times> 'b cache_world" where
  "noop_Exists ctx key w = (if cw_closed w then (Inl ErrClosed, w) else (Inr False, w))"

definition noop_Close :: "'b cache_world \<Rightarrow> cache_error option \<times> 'b cache_world" where
  "noop_Close w = (if cw_closed w then (None, w) else (None, w\<lparr>cw_closed := True\<rparr>))"

definition noop_Stats :: "'b cache_world \<Rightarrow> cache_stats" where
  "noop_Stats w = no_stats"

definition noop_cache :: "'b cache_world cache_iface" where
  "noop_cache = \<lparr>ci_Get = noop_Get, ci_Set = noop_Set, ci_SetWithTTL = noop_SetWithTTL, ci_Delete = noop_Delete,
     ci_Exists = noop_Exists, ci_Close = noop_Close\<rparr>"

section \<open>Ristretto\<close>

text \<open>
  The library: \<open>'b\<close> is its state, entries that await admission, evictions and the clock included. It keeps the slices it is given, not their
  bytes.
\<close>

record ristretto_metrics =
  rm_Hits :: "64 word"
  rm_Misses :: "64 word"
  rm_KeysAdded :: "64 word"
  rm_KeysEvicted :: "64 word"
  rm_CostAdded :: "64 word"
  rm_CostEvicted :: "64 word"

record 'b ristretto_lib =
  rl_New :: "int \<Rightarrow> int \<Rightarrow> int \<Rightarrow> string + 'b"
  rl_Get :: "string \<Rightarrow> 'b \<Rightarrow> addr option \<times> 'b"
  rl_Set :: "string \<Rightarrow> addr \<Rightarrow> int \<Rightarrow> 'b \<Rightarrow> 'b"
  rl_SetWithTTL :: "string \<Rightarrow> addr \<Rightarrow> int \<Rightarrow> duration \<Rightarrow> 'b \<Rightarrow> 'b"
  rl_Del :: "string \<Rightarrow> 'b \<Rightarrow> 'b"
  rl_Wait :: "'b \<Rightarrow> 'b"
  rl_Close :: "'b \<Rightarrow> 'b"
  rl_Metrics :: "'b \<Rightarrow> ristretto_metrics"

definition newRistrettoCache :: "'b ristretto_lib \<Rightarrow> ristretto_config \<Rightarrow> string + 'b" where
  "newRistrettoCache B cfg =
     rl_New B (rcf_NumCounters cfg) (rcf_MaxCost cfg) (if rcf_BufferItems cfg \<le> 0 then 64 else rcf_BufferItems cfg)"

text \<open>The part of each operation that holds the lock, and the operation.\<close>

definition ristretto_get :: "'b ristretto_lib \<Rightarrow> string \<Rightarrow> 'b cache_world \<Rightarrow> (cache_error + addr) \<times> 'b cache_world" where
  "ristretto_get B key w =
     (case rl_Get B key (cw_backend w) of
        (None, b) \<Rightarrow> (Inl ErrNotFound, w\<lparr>cw_backend := b\<rparr>)
      | (Some value, b) \<Rightarrow> (let (result, w) = copy_bytes value (w\<lparr>cw_backend := b\<rparr>) in (Inr result, w)))"

definition ristretto_Get :: "'b ristretto_lib \<Rightarrow> cache_error option \<Rightarrow> string \<Rightarrow> 'b cache_world \<Rightarrow> (cache_error + addr) \<times> 'b cache_world" where
  "ristretto_Get B ctx key = when_open ctx (ristretto_get B key)"

definition ristretto_set :: "'b ristretto_lib \<Rightarrow> string \<Rightarrow> addr \<Rightarrow> 'b cache_world \<Rightarrow> (cache_error + unit) \<times> 'b cache_world" where
  "ristretto_set B key value w =
     (let (valueCopy, w) = copy_bytes value w
      in (Inr (), w\<lparr>cw_backend := rl_Set B key valueCopy (int (length (cw_mem w value))) (cw_backend w)\<rparr>))"

definition ristretto_Set :: "'b ristretto_lib \<Rightarrow> cache_error option \<Rightarrow> string \<Rightarrow> addr \<Rightarrow> 'b cache_world \<Rightarrow>
    (cache_error + unit) \<times> 'b cache_world" where
  "ristretto_Set B ctx key value = when_open ctx (ristretto_set B key value)"

definition ristretto_set_ttl :: "'b ristretto_lib \<Rightarrow> string \<Rightarrow> addr \<Rightarrow> duration \<Rightarrow> 'b cache_world \<Rightarrow> (cache_error + unit) \<times> 'b cache_world" where
  "ristretto_set_ttl B key value ttl w =
     (let (valueCopy, w) = copy_bytes value w
      in (Inr (), w\<lparr>cw_backend := rl_SetWithTTL B key valueCopy (int (length (cw_mem w value))) ttl (cw_backend w)\<rparr>))"

definition ristretto_SetWithTTL :: "'b ristretto_lib \<Rightarrow> cache_error option \<Rightarrow> string \<Rightarrow> addr \<Rightarrow> duration \<Rightarrow> 'b cache_world \<Rightarrow>
    (cache_error + unit) \<times> 'b cache_world" where
  "ristretto_SetWithTTL B ctx key value ttl = when_open ctx (ristretto_set_ttl B key value ttl)"

definition ristretto_delete :: "'b ristretto_lib \<Rightarrow> string \<Rightarrow> 'b cache_world \<Rightarrow> (cache_error + unit) \<times> 'b cache_world" where
  "ristretto_delete B key w = (Inr (), w\<lparr>cw_backend := rl_Del B key (cw_backend w)\<rparr>)"

definition ristretto_Delete :: "'b ristretto_lib \<Rightarrow> cache_error option \<Rightarrow> string \<Rightarrow> 'b cache_world \<Rightarrow>
    (cache_error + unit) \<times> 'b cache_world" where
  "ristretto_Delete B ctx key = when_open ctx (ristretto_delete B key)"

definition ristretto_exists :: "'b ristretto_lib \<Rightarrow> string \<Rightarrow> 'b cache_world \<Rightarrow> (cache_error + bool) \<times> 'b cache_world" where
  "ristretto_exists B key w = (case rl_Get B key (cw_backend w) of (found, b) \<Rightarrow> (Inr (found \<noteq> None), w\<lparr>cw_backend := b\<rparr>))"

definition ristretto_Exists :: "'b ristretto_lib \<Rightarrow> cache_error option \<Rightarrow> string \<Rightarrow> 'b cache_world \<Rightarrow>
    (cache_error + bool) \<times> 'b cache_world" where
  "ristretto_Exists B ctx key = when_open ctx (ristretto_exists B key)"

definition ristretto_close :: "'b ristretto_lib \<Rightarrow> 'b cache_world \<Rightarrow> cache_error option \<times> 'b cache_world" where
  "ristretto_close B w = (None, w\<lparr>cw_backend := rl_Close B (rl_Wait B (cw_backend w))\<rparr>)"

definition ristretto_Close :: "'b ristretto_lib \<Rightarrow> 'b cache_world \<Rightarrow> cache_error option \<times> 'b cache_world" where
  "ristretto_Close B w = (if cw_closed w then (None, w) else ristretto_close B (w\<lparr>cw_closed := True\<rparr>))"

definition ristretto_Stats :: "'b ristretto_lib \<Rightarrow> 'b cache_world \<Rightarrow> cache_stats" where
  "ristretto_Stats B w =
     (if cw_closed w then no_stats
      else let m = rl_Metrics B (cw_backend w)
           in \<lparr>st_Hits = rm_Hits m, st_Misses = rm_Misses m, st_KeyCount = rm_KeysAdded m - rm_KeysEvicted m,
               st_BytesUsed = rm_CostAdded m - rm_CostEvicted m, st_Evictions = rm_KeysEvicted m\<rparr>)"

definition ristretto_cache :: "'b ristretto_lib \<Rightarrow> 'b cache_world cache_iface" where
  "ristretto_cache B = \<lparr>ci_Get = ristretto_Get B, ci_Set = ristretto_Set B, ci_SetWithTTL = ristretto_SetWithTTL B,
     ci_Delete = ristretto_Delete B, ci_Exists = ristretto_Exists B, ci_Close = ristretto_Close B\<rparr>"

section \<open>Olric\<close>

datatype dm_error = KeyNotFound | DMError string

definition dm_err :: "dm_error \<Rightarrow> cache_error" where
  "dm_err e = (case e of KeyNotFound \<Rightarrow> CacheOther ''key not found'' | DMError s \<Rightarrow> CacheOther s)"

text \<open>How the start of an embedded node ends: ready, failed, or nothing within ten seconds (or the context was cancelled).\<close>

datatype node_start = NodeReady | NodeFailed string | NodeSilent

record ('b, 'v) olric_lib =
  ol_New :: "olric_settings \<Rightarrow> 'b \<Rightarrow> string option \<times> 'b"
  ol_Start :: "'b \<Rightarrow> node_start \<times> 'b"
  ol_NewClusterClient :: "string list \<Rightarrow> 'b \<Rightarrow> string option \<times> 'b"
  ol_NewDMap :: "string \<Rightarrow> 'b \<Rightarrow> string option \<times> 'b"
  ol_Get :: "string \<Rightarrow> 'b \<Rightarrow> (dm_error + 'v) \<times> 'b"
  ol_Byte :: "'v \<Rightarrow> string + string"
  ol_Put :: "string \<Rightarrow> string \<Rightarrow> duration option \<Rightarrow> 'b \<Rightarrow> dm_error option \<times> 'b"
  ol_Delete :: "string \<Rightarrow> 'b \<Rightarrow> dm_error option \<times> 'b"
  ol_DMapClose :: "'b \<Rightarrow> string option \<times> 'b"
  ol_Shutdown :: "'b \<Rightarrow> string option \<times> 'b"
  ol_ClientClose :: "'b \<Rightarrow> string option \<times> 'b"
  ol_Stats :: "'b \<Rightarrow> (string + string \<times> nat) \<times> 'b"

text \<open>The handles of a cache: \<open>db\<close> is there only for an embedded node.\<close>

record olric_handles =
  oh_db :: bool
  oh_dmap :: bool
  oh_client :: bool
  oh_name :: string

definition newEmbeddedOlricCache :: "('b, 'v) olric_lib \<Rightarrow> (string \<Rightarrow> olric_settings) \<Rightarrow> memberlist_settings \<Rightarrow> olric_config \<Rightarrow>
    string \<Rightarrow> 'b \<Rightarrow> (string + olric_handles) \<times> 'b" where
  "newEmbeddedOlricCache B defaults local cfg dmapName b =
     (case ol_New B (buildOlricConfig defaults local cfg) b of
        (Some e, b) \<Rightarrow> (Inl e, b)
      | (None, b) \<Rightarrow>
          (case ol_Start B b of
             (NodeFailed e, b) \<Rightarrow> (Inl e, b)
           | (_, b) \<Rightarrow>
               (case ol_NewDMap B dmapName b of
                  (Some e, b) \<Rightarrow> (Inl e, snd (ol_Shutdown B b))
                | (None, b) \<Rightarrow> (Inr \<lparr>oh_db = True, oh_dmap = True, oh_client = True, oh_name = dmapName\<rparr>, b))))"

definition newClientOlricCache :: "('b, 'v) olric_lib \<Rightarrow> olric_config \<Rightarrow> string \<Rightarrow> 'b \<Rightarrow> (string + olric_handles) \<times> 'b" where
  "newClientOlricCache B cfg dmapName b =
     (if ocf_Addresses cfg = [] then (Inl ''cache: olric addresses required for client mode'', b)
      else case ol_NewClusterClient B (ocf_Addresses cfg) b of
             (Some e, b) \<Rightarrow> (Inl e, b)
           | (None, b) \<Rightarrow>
               (case ol_NewDMap B dmapName b of
                  (Some e, b) \<Rightarrow> (Inl e, snd (ol_ClientClose B b))
                | (None, b) \<Rightarrow> (Inr \<lparr>oh_db = False, oh_dmap = True, oh_client = True, oh_name = dmapName\<rparr>, b)))"

definition newOlricCache :: "('b, 'v) olric_lib \<Rightarrow> (string \<Rightarrow> olric_settings) \<Rightarrow> memberlist_settings \<Rightarrow> olric_config \<Rightarrow> 'b \<Rightarrow>
    (string + olric_handles) \<times> 'b" where
  "newOlricCache B defaults local cfg b =
     (let dmapName = (if ocf_DMapName cfg = '''' then ''cc-relay'' else ocf_DMapName cfg)
      in if ocf_Embedded cfg then newEmbeddedOlricCache B defaults local cfg dmapName b else newClientOlricCache B cfg dmapName b)"

definition olric_get :: "('b, 'v) olric_lib \<Rightarrow> string \<Rightarrow> 'b cache_world \<Rightarrow> (cache_error + addr) \<times> 'b cache_world" where
  "olric_get B key w =
     (case ol_Get B key (cw_backend w) of
        (Inl e, b) \<Rightarrow> (Inl (if e = KeyNotFound then ErrNotFound else dm_err e), w\<lparr>cw_backend := b\<rparr>)
      | (Inr resp, b) \<Rightarrow>
          (case ol_Byte B resp of
             Inl e \<Rightarrow> (Inl (CacheOther e), w\<lparr>cw_backend := b\<rparr>)
           | Inr bytes \<Rightarrow>
               (let (value, w) = new_bytes bytes (w\<lparr>cw_backend := b\<rparr>);
                    (result, w) = copy_bytes value w
                in (Inr result, w))))"

definition olric_Get :: "('b, 'v) olric_lib \<Rightarrow> cache_error option \<Rightarrow> string \<Rightarrow> 'b cache_world \<Rightarrow> (cache_error + addr) \<times> 'b cache_world" where
  "olric_Get B ctx key = when_open ctx (olric_get B key)"

definition olric_put :: "('b, 'v) olric_lib \<Rightarrow> string \<Rightarrow> addr \<Rightarrow> duration option \<Rightarrow> 'b cache_world \<Rightarrow>
    (cache_error + unit) \<times> 'b cache_world" where
  "olric_put B key value ex w =
     (let (valueCopy, w) = copy_bytes value w
      in case ol_Put B key (cw_mem w valueCopy) ex (cw_backend w) of
           (Some e, b) \<Rightarrow> (Inl (dm_err e), w\<lparr>cw_backend := b\<rparr>)
         | (None, b) \<Rightarrow> (Inr (), w\<lparr>cw_backend := b\<rparr>))"

definition olric_Set :: "('b, 'v) olric_lib \<Rightarrow> cache_error option \<Rightarrow> string \<Rightarrow> addr \<Rightarrow> 'b cache_world \<Rightarrow>
    (cache_error + unit) \<times> 'b cache_world" where
  "olric_Set B ctx key value = when_open ctx (olric_put B key value None)"

definition olric_SetWithTTL :: "('b, 'v) olric_lib \<Rightarrow> cache_error option \<Rightarrow> string \<Rightarrow> addr \<Rightarrow> duration \<Rightarrow> 'b cache_world \<Rightarrow>
    (cache_error + unit) \<times> 'b cache_world" where
  "olric_SetWithTTL B ctx key value ttl = when_open ctx (olric_put B key value (Some ttl))"

definition olric_delete :: "('b, 'v) olric_lib \<Rightarrow> string \<Rightarrow> 'b cache_world \<Rightarrow> (cache_error + unit) \<times> 'b cache_world" where
  "olric_delete B key w =
     (case ol_Delete B key (cw_backend w) of
        (Some KeyNotFound, b) \<Rightarrow> (Inr (), w\<lparr>cw_backend := b\<rparr>)
      | (Some e, b) \<Rightarrow> (Inl (dm_err e), w\<lparr>cw_backend := b\<rparr>)
      | (None, b) \<Rightarrow> (Inr (), w\<lparr>cw_backend := b\<rparr>))"

definition olric_Delete :: "('b, 'v) olric_lib \<Rightarrow> cache_error option \<Rightarrow> string \<Rightarrow> 'b cache_world \<Rightarrow> (cache_error + unit) \<times> 'b cache_world" where
  "olric_Delete B ctx key = when_open ctx (olric_delete B key)"

definition olric_exists :: "('b, 'v) olric_lib \<Rightarrow> string \<Rightarrow> 'b cache_world \<Rightarrow> (cache_error + bool) \<times> 'b cache_world" where
  "olric_exists B key w =
     (case ol_Get B key (cw_backend w) of
        (Inl e, b) \<Rightarrow> (if e = KeyNotFound then Inr False else Inl (dm_err e), w\<lparr>cw_backend := b\<rparr>)
      | (Inr _, b) \<Rightarrow> (Inr True, w\<lparr>cw_backend := b\<rparr>))"

definition olric_Exists :: "('b, 'v) olric_lib \<Rightarrow> cache_error option \<Rightarrow> string \<Rightarrow> 'b cache_world \<Rightarrow> (cache_error + bool) \<times> 'b cache_world" where
  "olric_Exists B ctx key = when_open ctx (olric_exists B key)"

definition olric_close :: "('b, 'v) olric_lib \<Rightarrow> olric_handles \<Rightarrow> 'b cache_world \<Rightarrow> cache_error option \<times> 'b cache_world" where
  "olric_close B h w =
     (let b = (if oh_dmap h then snd (ol_DMapClose B (cw_backend w)) else cw_backend w);
          (err, b) = (if oh_db h then ol_Shutdown B b else if oh_client h then ol_ClientClose B b else (None, b))
      in (map_option CacheOther err, w\<lparr>cw_backend := b\<rparr>))"

definition olric_Close :: "('b, 'v) olric_lib \<Rightarrow> olric_handles \<Rightarrow> 'b cache_world \<Rightarrow> cache_error option \<times> 'b cache_world" where
  "olric_Close B h w = (if cw_closed w then (None, w) else olric_close B h (w\<lparr>cw_closed := True\<rparr>))"

text \<open>Nothing but zeros, open or closed.\<close>

definition olric_Stats :: "'b cache_world \<Rightarrow> cache_stats" where
  "olric_Stats w = (if cw_closed w then no_stats else no_stats)"

definition olric_ping :: "('b, 'v) olric_lib \<Rightarrow> 'b cache_world \<Rightarrow> (cache_error + unit) \<times> 'b cache_world" where
  "olric_ping B w =
     (case ol_Get B ''__ping_healthcheck__'' (cw_backend w) of
        (Inl e, b) \<Rightarrow> (if e = KeyNotFound then Inr () else Inl (dm_err e), w\<lparr>cw_backend := b\<rparr>)
      | (Inr _, b) \<Rightarrow> (Inr (), w\<lparr>cw_backend := b\<rparr>))"

definition olric_Ping :: "('b, 'v) olric_lib \<Rightarrow> cache_error option \<Rightarrow> 'b cache_world \<Rightarrow> (cache_error + unit) \<times> 'b cache_world" where
  "olric_Ping B ctx = when_open ctx (olric_ping B)"

text \<open>The statistics of an embedded node: its address in the cluster and the members it knows.\<close>

definition MemberlistAddr :: "('b, 'v) olric_lib \<Rightarrow> olric_handles \<Rightarrow> 'b cache_world \<Rightarrow> string \<times> 'b cache_world" where
  "MemberlistAddr B h w =
     (if \<not> oh_db h then ('''', w)
      else if cw_closed w then ('''', w)
      else case ol_Stats B (cw_backend w) of
             (Inl _, b) \<Rightarrow> ('''', w\<lparr>cw_backend := b\<rparr>)
           | (Inr (member, n), b) \<Rightarrow> (member, w\<lparr>cw_backend := b\<rparr>))"

definition ClusterMembers :: "('b, 'v) olric_lib \<Rightarrow> olric_handles \<Rightarrow> 'b cache_world \<Rightarrow> nat \<times> 'b cache_world" where
  "ClusterMembers B h w =
     (if \<not> oh_db h then (0, w)
      else if cw_closed w then (0, w)
      else case ol_Stats B (cw_backend w) of
             (Inl _, b) \<Rightarrow> (0, w\<lparr>cw_backend := b\<rparr>)
           | (Inr (member, n), b) \<Rightarrow> (n, w\<lparr>cw_backend := b\<rparr>))"

definition IsEmbedded :: "olric_handles \<Rightarrow> bool" where
  "IsEmbedded h = oh_db h"

definition olric_cache :: "('b, 'v) olric_lib \<Rightarrow> olric_handles \<Rightarrow> 'b cache_world cache_iface" where
  "olric_cache B h = \<lparr>ci_Get = olric_Get B, ci_Set = olric_Set B, ci_SetWithTTL = olric_SetWithTTL B,
     ci_Delete = olric_Delete B, ci_Exists = olric_Exists B, ci_Close = olric_Close B h\<rparr>"

section \<open>Construction\<close>

datatype ('r, 'o) new_cache = NewRistretto 'r | NewOlric olric_handles 'o | NewNoop

definition New :: "'r ristretto_lib \<Rightarrow> ('o, 'v) olric_lib \<Rightarrow> (string \<Rightarrow> olric_settings) \<Rightarrow> memberlist_settings \<Rightarrow> 'o \<Rightarrow> cache_config \<Rightarrow>
    string + ('r, 'o) new_cache" where
  "New R B defaults local b cfg =
     (case Cache_Config_Validate cfg of
        Some e \<Rightarrow> Inl e
      | None \<Rightarrow>
          if ccf_Mode cfg = ''single'' then map_sum id NewRistretto (newRistrettoCache R (ccf_Ristretto cfg))
          else if ccf_Mode cfg = ''ha'' then
            (case newOlricCache B defaults local (ccf_Olric cfg) b of (Inl e, b) \<Rightarrow> Inl e | (Inr h, b) \<Rightarrow> Inr (NewOlric h b))
          else if ccf_Mode cfg = ''disabled'' then Inr NewNoop
          else Inl (cache_unknown_mode (ccf_Mode cfg)))"

end
