(* ===== verification/Cache_Facts.thy ===== *)
theory Cache_Facts
  imports Cache_Backends
begin

text \<open>
  What every cache promises: the locale \<open>cache_laws\<close> over its interface, interpreted on the three implementations; and that
  Ristretto's cache hands out nothing but what was stored under the key, whatever callers do with their slices.
\<close>

section \<open>The operations as values\<close>

datatype cache_op =
    GetOp "cache_error option" string
  | SetOp "cache_error option" string addr
  | SetTTLOp "cache_error option" string addr duration
  | DeleteOp "cache_error option" string
  | ExistsOp "cache_error option" string
  | CloseOp

datatype cache_reply = Failed cache_error | Bytes addr | Done | Found bool

definition cache_reply_of :: "('a \<Rightarrow> cache_reply) \<Rightarrow> cache_error + 'a \<Rightarrow> cache_reply" where
  "cache_reply_of ok r = (case r of Inl e \<Rightarrow> Failed e | Inr a \<Rightarrow> ok a)"

fun perform :: "'s cache_iface \<Rightarrow> cache_op \<Rightarrow> 's \<Rightarrow> cache_reply \<times> 's" where
  "perform C (GetOp ctx k) w = apfst (cache_reply_of Bytes) (ci_Get C ctx k w)"
| "perform C (SetOp ctx k a) w = apfst (cache_reply_of (\<lambda>_. Done)) (ci_Set C ctx k a w)"
| "perform C (SetTTLOp ctx k a t) w = apfst (cache_reply_of (\<lambda>_. Done)) (ci_SetWithTTL C ctx k a t w)"
| "perform C (DeleteOp ctx k) w = apfst (cache_reply_of (\<lambda>_. Done)) (ci_Delete C ctx k w)"
| "perform C (ExistsOp ctx k) w = apfst (cache_reply_of Found) (ci_Exists C ctx k w)"
| "perform C CloseOp w = apfst (\<lambda>e. case e of Some e \<Rightarrow> Failed e | None \<Rightarrow> Done) (ci_Close C w)"

fun op_ctx :: "cache_op \<Rightarrow> cache_error option" where
  "op_ctx (GetOp ctx k) = ctx"
| "op_ctx (SetOp ctx k a) = ctx"
| "op_ctx (SetTTLOp ctx k a t) = ctx"
| "op_ctx (DeleteOp ctx k) = ctx"
| "op_ctx (ExistsOp ctx k) = ctx"
| "op_ctx CloseOp = None"

text \<open>The answer of a closed cache to an operation whose context is not done.\<close>

definition closed_reply :: "cache_op \<Rightarrow> cache_reply" where
  "closed_reply op = (if op = CloseOp then Done else Failed ErrClosed)"

fun performs :: "'s cache_iface \<Rightarrow> cache_op list \<Rightarrow> 's \<Rightarrow> cache_reply list \<times> 's" where
  "performs C [] w = ([], w)"
| "performs C (op # ops) w = (let (r, w) = perform C op w; (rs, w) = performs C ops w in (r # rs, w))"

section \<open>The laws of a cache\<close>

locale cache_laws =
  fixes C :: "'s cache_iface" and shut :: "'s \<Rightarrow> bool"
  assumes shut_replies: "shut w \<Longrightarrow> op_ctx op = None \<Longrightarrow> perform C op w = (closed_reply op, w)"
    and cancelled_keeps: "op_ctx op = Some e \<Longrightarrow> \<exists>r. perform C op w = (r, w)"
    and close_shuts: "shut (snd (perform C CloseOp w))"
    and open_stays: "\<not> shut w \<Longrightarrow> op \<noteq> CloseOp \<Longrightarrow> \<not> shut (snd (perform C op w))"
    and open_replies: "\<not> shut w \<Longrightarrow> op_ctx op = None \<Longrightarrow> op \<noteq> CloseOp \<Longrightarrow> fst (perform C op w) \<noteq> Failed ErrClosed"
begin

lemma shut_performs:
  "shut w \<Longrightarrow> \<forall>op \<in> set ops. op_ctx op = None \<Longrightarrow> performs C ops w = (map closed_reply ops, w)"
  by (induction ops) (simp_all add: shut_replies)

lemma shut_stays: "shut w \<Longrightarrow> shut (snd (perform C op w))"
  using cancelled_keeps [of op _ w] shut_replies [of w op] by (cases "op_ctx op") auto

text \<open>A cache is shut exactly when an operation closed it.\<close>

lemma shut_iff: "shut (snd (performs C ops w)) \<longleftrightarrow> shut w \<or> CloseOp \<in> set ops"
proof (induction ops arbitrary: w)
  case (Cons op ops)
  show ?case
  proof (cases "perform C op w")
    case (Pair r w')
    then have "shut w' \<longleftrightarrow> shut w \<or> op = CloseOp"
      using close_shuts [of w] open_stays [of w op] shut_stays [of w op] by (cases "op = CloseOp") auto
    then show ?thesis using Pair Cons.IH [of w'] by (auto simp: split_def Let_def)
  qed
qed simp

lemma after_close:
  assumes "\<forall>op \<in> set later. op_ctx op = None"
  shows "fst (performs C (CloseOp # later) w) = fst (perform C CloseOp w) # map closed_reply later"
  using assms shut_performs [OF close_shuts] by (simp add: split_def)

end

section \<open>The implementations keep them\<close>

lemma when_open_closed [simp]: "cw_closed w \<Longrightarrow> when_open None held w = (Inl ErrClosed, w)"
  by (simp add: when_open_def)

lemma when_open_open [simp]: "\<not> cw_closed w \<Longrightarrow> when_open None held w = held w"
  by (simp add: when_open_def)

lemma when_open_done [simp]: "when_open (Some e) held w = (Inl e, w)"
  by (simp add: when_open_def)

lemma new_bytes_simps [simp]:
  "fst (new_bytes v w) = cw_next w" "cw_closed (snd (new_bytes v w)) = cw_closed w" "cw_backend (snd (new_bytes v w)) = cw_backend w"
  by (simp_all add: new_bytes_def)

lemma copy_bytes_simps [simp]:
  "fst (copy_bytes a w) = cw_next w" "cw_closed (snd (copy_bytes a w)) = cw_closed w" "cw_backend (snd (copy_bytes a w)) = cw_backend w"
  by (simp_all add: copy_bytes_def)

lemmas cache_reply_simps = cache_reply_of_def closed_reply_def

lemmas noop_defs = noop_cache_def noop_Get_def noop_Set_def noop_SetWithTTL_def noop_Delete_def noop_Exists_def noop_Close_def

lemmas ristretto_defs = ristretto_cache_def ristretto_Get_def ristretto_Set_def ristretto_SetWithTTL_def ristretto_Delete_def
  ristretto_Exists_def ristretto_Close_def

lemmas ristretto_bodies = ristretto_get_def ristretto_set_def ristretto_set_ttl_def ristretto_delete_def ristretto_exists_def
  ristretto_close_def

lemmas olric_defs = olric_cache_def olric_Get_def olric_Set_def olric_SetWithTTL_def olric_Delete_def olric_Exists_def olric_Close_def

lemmas olric_bodies = olric_get_def olric_put_def olric_delete_def olric_exists_def olric_close_def

lemma dm_err_open [simp]: "dm_err e \<noteq> ErrClosed" "dm_err e \<noteq> ErrNotFound"
  by (cases e; simp add: dm_err_def)+

text \<open>What an operation does while it holds the lock neither opens nor closes the cache, nor answers that it is closed.\<close>

lemma ristretto_held:
  "cw_closed (snd (ristretto_get B k w)) = cw_closed w" "fst (ristretto_get B k w) \<noteq> Inl ErrClosed"
  "cw_closed (snd (ristretto_set B k a w)) = cw_closed w" "fst (ristretto_set B k a w) \<noteq> Inl ErrClosed"
  "cw_closed (snd (ristretto_set_ttl B k a t w)) = cw_closed w" "fst (ristretto_set_ttl B k a t w) \<noteq> Inl ErrClosed"
  "cw_closed (snd (ristretto_delete B k w)) = cw_closed w" "fst (ristretto_delete B k w) \<noteq> Inl ErrClosed"
  "cw_closed (snd (ristretto_exists B k w)) = cw_closed w" "fst (ristretto_exists B k w) \<noteq> Inl ErrClosed"
  "cw_closed (snd (ristretto_close B w)) = cw_closed w"
  by (auto simp: ristretto_bodies copy_bytes_def new_bytes_def split: prod.splits option.splits)

lemma olric_held:
  "cw_closed (snd (olric_get B k w)) = cw_closed w" "fst (olric_get B k w) \<noteq> Inl ErrClosed"
  "cw_closed (snd (olric_put B k a x w)) = cw_closed w" "fst (olric_put B k a x w) \<noteq> Inl ErrClosed"
  "cw_closed (snd (olric_delete B k w)) = cw_closed w" "fst (olric_delete B k w) \<noteq> Inl ErrClosed"
  "cw_closed (snd (olric_exists B k w)) = cw_closed w" "fst (olric_exists B k w) \<noteq> Inl ErrClosed"
  "cw_closed (snd (olric_close B h w)) = cw_closed w"
  by (auto simp: olric_bodies copy_bytes_def new_bytes_def Let_def split_def split: prod.splits option.splits sum.splits dm_error.splits)

lemma reply_closed: "cache_reply_of ok r = Failed ErrClosed \<longleftrightarrow> r = Inl ErrClosed \<or> (\<exists>a. r = Inr a \<and> ok a = Failed ErrClosed)"
  by (cases r) (simp_all add: cache_reply_of_def)

interpretation noop_laws: cache_laws noop_cache cw_closed
proof
  fix op w
  show "cw_closed w \<Longrightarrow> op_ctx op = None \<Longrightarrow> perform noop_cache op w = (closed_reply op, w)"
    by (cases op) (simp_all add: noop_defs cache_reply_simps)
  show "\<exists>r. perform noop_cache op w = (r, w)" if "op_ctx op = Some e" for e
    using that by (cases op) (simp_all add: noop_defs)
  show "cw_closed (snd (perform noop_cache CloseOp w))" by (simp add: noop_defs)
  show "\<not> cw_closed w \<Longrightarrow> op \<noteq> CloseOp \<Longrightarrow> \<not> cw_closed (snd (perform noop_cache op w))"
    by (cases op) (simp_all add: noop_defs)
  show "\<not> cw_closed w \<Longrightarrow> op_ctx op = None \<Longrightarrow> op \<noteq> CloseOp \<Longrightarrow> fst (perform noop_cache op w) \<noteq> Failed ErrClosed"
    by (cases op) (simp_all add: noop_defs cache_reply_simps)
qed

interpretation ristretto_laws: cache_laws "ristretto_cache B" cw_closed for B
proof
  fix op w
  show "cw_closed w \<Longrightarrow> op_ctx op = None \<Longrightarrow> perform (ristretto_cache B) op w = (closed_reply op, w)"
    by (cases op) (simp_all add: ristretto_defs cache_reply_simps)
  show "\<exists>r. perform (ristretto_cache B) op w = (r, w)" if "op_ctx op = Some e" for e
    using that by (cases op) (simp_all add: ristretto_defs)
  show "cw_closed (snd (perform (ristretto_cache B) CloseOp w))" by (simp add: ristretto_defs ristretto_held)
  show "\<not> cw_closed w \<Longrightarrow> op \<noteq> CloseOp \<Longrightarrow> \<not> cw_closed (snd (perform (ristretto_cache B) op w))"
    by (cases op; cases "op_ctx op"; simp add: ristretto_defs ristretto_held)
  show "\<not> cw_closed w \<Longrightarrow> op_ctx op = None \<Longrightarrow> op \<noteq> CloseOp \<Longrightarrow> fst (perform (ristretto_cache B) op w) \<noteq> Failed ErrClosed"
    by (cases op) (simp_all add: ristretto_defs ristretto_held reply_closed)
qed

interpretation olric_laws: cache_laws "olric_cache B h" cw_closed for B h
proof
  fix op w
  show "cw_closed w \<Longrightarrow> op_ctx op = None \<Longrightarrow> perform (olric_cache B h) op w = (closed_reply op, w)"
    by (cases op) (simp_all add: olric_defs cache_reply_simps)
  show "\<exists>r. perform (olric_cache B h) op w = (r, w)" if "op_ctx op = Some e" for e
    using that by (cases op) (simp_all add: olric_defs)
  show "cw_closed (snd (perform (olric_cache B h) CloseOp w))" by (simp add: olric_defs olric_held)
  show "\<not> cw_closed w \<Longrightarrow> op \<noteq> CloseOp \<Longrightarrow> \<not> cw_closed (snd (perform (olric_cache B h) op w))"
    by (cases op; cases "op_ctx op"; simp add: olric_defs olric_held)
  show "\<not> cw_closed w \<Longrightarrow> op_ctx op = None \<Longrightarrow> op \<noteq> CloseOp \<Longrightarrow> fst (perform (olric_cache B h) op w) \<noteq> Failed ErrClosed"
    by (cases op) (simp_all add: olric_defs olric_held reply_closed)
qed

section \<open>What the cache hands out was stored\<close>

text \<open>
  The documented behaviour of Ristretto that matters: \<open>may b k\<close> are the slices it may return for \<open>k\<close>; only a write for
  the key adds to them, and no operation moves a slice to another key. It may forget entries at any time.
\<close>

definition keeps_slices :: "'b ristretto_lib \<Rightarrow> ('b \<Rightarrow> string \<Rightarrow> addr set) \<Rightarrow> bool" where
  "keeps_slices B may \<longleftrightarrow>
     (\<forall>k b a b'. rl_Get B k b = (Some a, b') \<longrightarrow> a \<in> may b k) \<and>
     (\<forall>k b k'. may (snd (rl_Get B k b)) k' \<subseteq> may b k') \<and>
     (\<forall>k a c b k'. may (rl_Set B k a c b) k' \<subseteq> may b k' \<union> {x. k' = k \<and> x = a}) \<and>
     (\<forall>k a c t b k'. may (rl_SetWithTTL B k a c t b) k' \<subseteq> may b k' \<union> {x. k' = k \<and> x = a}) \<and>
     (\<forall>k b k'. may (rl_Del B k b) k' \<subseteq> may b k') \<and>
     (\<forall>b k'. may (rl_Wait B b) k' \<subseteq> may b k') \<and>
     (\<forall>b k'. may (rl_Close B b) k' \<subseteq> may b k')"

text \<open>
  A run: the cache with its memory, the arrays that callers hold, and the pairs of key and bytes stored so far. Callers operate
  on the cache with arrays they hold, write to them and make new ones; Ristretto evicts and expires in between.
\<close>

record 'b cache_run =
  cr_world :: "'b cache_world"
  cr_held :: "addr set"
  cr_stored :: "(string \<times> string) set"

fun op_args :: "cache_op \<Rightarrow> addr set" where
  "op_args (SetOp ctx k a) = {a}"
| "op_args (SetTTLOp ctx k a t) = {a}"
| "op_args _ = {}"

fun stores :: "'b cache_world \<Rightarrow> cache_op \<Rightarrow> (string \<times> string) set" where
  "stores w (SetOp ctx k a) = {(k, cw_mem w a)}"
| "stores w (SetTTLOp ctx k a t) = {(k, cw_mem w a)}"
| "stores w _ = {}"

definition handed_out :: "cache_reply \<Rightarrow> addr set" where
  "handed_out r = (case r of Bytes a \<Rightarrow> {a} | _ \<Rightarrow> {})"

inductive cache_step :: "'b ristretto_lib \<Rightarrow> ('b \<Rightarrow> string \<Rightarrow> addr set) \<Rightarrow> 'b cache_run \<Rightarrow> 'b cache_run \<Rightarrow> bool" for B may where
  operation: "perform (ristretto_cache B) op (cr_world s) = (r, w') \<Longrightarrow> op_args op \<subseteq> cr_held s \<Longrightarrow>
    cache_step B may s \<lparr>cr_world = w', cr_held = cr_held s \<union> handed_out r,
      cr_stored = cr_stored s \<union> (if r = Done then stores (cr_world s) op else {})\<rparr>"
| overwrite: "a \<in> cr_held s \<Longrightarrow>
    cache_step B may s (s\<lparr>cr_world := (cr_world s)\<lparr>cw_mem := (cw_mem (cr_world s))(a := v)\<rparr>\<rparr>)"
| allocate: "new_bytes v (cr_world s) = (a, w') \<Longrightarrow> cache_step B may s (s\<lparr>cr_world := w', cr_held := insert a (cr_held s)\<rparr>)"
| background: "\<forall>k. may b' k \<subseteq> may (cw_backend (cr_world s)) k \<Longrightarrow>
    cache_step B may s (s\<lparr>cr_world := (cr_world s)\<lparr>cw_backend := b'\<rparr>\<rparr>)"

inductive cache_reachable :: "'b ristretto_lib \<Rightarrow> ('b \<Rightarrow> string \<Rightarrow> addr set) \<Rightarrow> 'b cache_run \<Rightarrow> bool" for B may where
  start: "\<forall>k. may (cw_backend w) k = {} \<Longrightarrow> H \<subseteq> {..<cw_next w} \<Longrightarrow>
    cache_reachable B may \<lparr>cr_world = w, cr_held = H, cr_stored = {}\<rparr>"
| next_step: "cache_reachable B may s \<Longrightarrow> cache_step B may s s' \<Longrightarrow> cache_reachable B may s'"

text \<open>The slices in the cache are held by no caller and have the bytes of a write.\<close>

definition cache_inv :: "('b \<Rightarrow> string \<Rightarrow> addr set) \<Rightarrow> 'b cache_run \<Rightarrow> bool" where
  "cache_inv may s \<longleftrightarrow>
     (let w = cr_world s
      in cr_held s \<subseteq> {..<cw_next w} \<and>
         (\<forall>k. \<forall>a \<in> may (cw_backend w) k. a < cw_next w \<and> a \<notin> cr_held s \<and> (k, cw_mem w a) \<in> cr_stored s))"

text \<open>One operation: what it hands out is a new array with bytes stored for its key, and the invariant holds again.\<close>

definition after_op :: "'b cache_run \<Rightarrow> cache_op \<Rightarrow> cache_reply \<Rightarrow> 'b cache_world \<Rightarrow> 'b cache_run" where
  "after_op s op r w' = \<lparr>cr_world = w', cr_held = cr_held s \<union> handed_out r,
      cr_stored = cr_stored s \<union> (if r = Done then stores (cr_world s) op else {})\<rparr>"

lemma keeps_slices_drop:
  assumes "keeps_slices B may"
  shows "may (snd (rl_Get B k b)) k' \<subseteq> may b k'" and "may (rl_Set B k a c b) k' \<subseteq> may b k' \<union> {x. k' = k \<and> x = a}"
    and "may (rl_SetWithTTL B k a c t b) k' \<subseteq> may b k' \<union> {x. k' = k \<and> x = a}"
    and "may (rl_Del B k b) k' \<subseteq> may b k'" and "may (rl_Wait B b) k' \<subseteq> may b k'" and "may (rl_Close B b) k' \<subseteq> may b k'"
  using assms by (simp_all only: keeps_slices_def)

lemma keeps_slices_get: "keeps_slices B may \<Longrightarrow> rl_Get B k b = (Some a, b') \<Longrightarrow> a \<in> may b k"
  by (simp add: keeps_slices_def)

lemma cache_inv_same_memory:
  assumes "cache_inv may s" and "cw_mem w' = cw_mem (cr_world s)" and "cw_next w' = cw_next (cr_world s)"
    and "\<forall>k. may (cw_backend w') k \<subseteq> may (cw_backend (cr_world s)) k" and "cr_stored s \<subseteq> S"
  shows "cache_inv may \<lparr>cr_world = w', cr_held = cr_held s, cr_stored = S\<rparr>"
  using assms by (fastforce simp: cache_inv_def Let_def)

lemma cache_inv_get:
  assumes inv: "cache_inv may s" and lib: "keeps_slices B may" and run: "ristretto_get B k (cr_world s) = (x, w')"
  shows "cache_inv may \<lparr>cr_world = w', cr_held = cr_held s \<union> handed_out (cache_reply_of Bytes x), cr_stored = cr_stored s\<rparr> \<and>
    (\<forall>r. x = Inr r \<longrightarrow> r \<notin> cr_held s \<and> (k, cw_mem w' r) \<in> cr_stored s)"
proof (cases "rl_Get B k (cw_backend (cr_world s))")
  case (Pair found b)
  have sub: "may b k' \<subseteq> may (cw_backend (cr_world s)) k'" for k' using keeps_slices_drop(1) [OF lib, of k "cw_backend (cr_world s)" k'] Pair by simp
  show ?thesis
  proof (cases found)
    case None
    then have "x = Inl ErrNotFound" "w' = (cr_world s)\<lparr>cw_backend := b\<rparr>" using run Pair by (simp_all add: ristretto_get_def)
    then show ?thesis using inv sub by (fastforce simp: cache_inv_def Let_def handed_out_def cache_reply_of_def)
  next
    case (Some a)
    then have "a \<in> may (cw_backend (cr_world s)) k" using keeps_slices_get [OF lib] Pair by blast
    moreover have "x = Inr (cw_next (cr_world s))"
      and w': "w' = snd (copy_bytes a ((cr_world s)\<lparr>cw_backend := b\<rparr>))"
      using run Pair Some by (auto simp: ristretto_get_def split_def Let_def)
    ultimately show ?thesis using inv sub
      by (fastforce simp: cache_inv_def Let_def handed_out_def cache_reply_of_def copy_bytes_def new_bytes_def)
  qed
qed

lemma cache_inv_write:
  assumes inv: "cache_inv may s" and held: "a \<in> cr_held s"
    and sub: "\<forall>k'. may b' k' \<subseteq> may (cw_backend (cr_world s)) k' \<union> {x. k' = k \<and> x = cw_next (cr_world s)}"
  shows "cache_inv may \<lparr>cr_world = (snd (copy_bytes a (cr_world s)))\<lparr>cw_backend := b'\<rparr>, cr_held = cr_held s,
    cr_stored = cr_stored s \<union> {(k, cw_mem (cr_world s) a)}\<rparr>"
  using assms by (fastforce simp: cache_inv_def Let_def copy_bytes_def new_bytes_def)

lemma ristretto_refused:
  assumes "op_ctx op \<noteq> None \<or> cw_closed w" and "op \<noteq> CloseOp"
  shows "\<exists>e. perform (ristretto_cache B) op w = (Failed e, w)"
  using assms by (cases op; cases "op_ctx op"; simp add: ristretto_defs cache_reply_of_def)

lemma cache_inv_op:
  assumes inv: "cache_inv may s" and lib: "keeps_slices B may"
    and run: "perform (ristretto_cache B) op (cr_world s) = (r, w')" and args: "op_args op \<subseteq> cr_held s"
  shows "cache_inv may (after_op s op r w')"
proof -
  let ?w = "cr_world s"
  note drop = keeps_slices_drop [OF lib]
  have same: "cache_inv may (after_op s op r ?w)" if "handed_out r = {}"
    using cache_inv_same_memory [OF inv refl refl, of "cr_stored s \<union> X" for X] that by (simp add: after_op_def)
  show ?thesis
  proof (cases "op_ctx op = None \<and> \<not> cw_closed ?w \<or> op = CloseOp")
    case False
    then obtain e where "r = Failed e" "w' = ?w" using ristretto_refused [of op ?w B] run by auto
    then show ?thesis using same by (simp add: handed_out_def)
  next
    case True
    show ?thesis
    proof (cases op)
      case (GetOp ctx k)
      then obtain x where "ristretto_get B k ?w = (x, w')" and r: "r = cache_reply_of Bytes x"
        using run True by (cases "ristretto_get B k ?w") (auto simp: ristretto_defs)
      with cache_inv_get [OF inv lib this(1)] show ?thesis using GetOp by (cases x) (simp_all add: after_op_def cache_reply_of_def)
    next
      case (SetOp ctx k a)
      then have "r = Done" "w' = (snd (copy_bytes a ?w))\<lparr>cw_backend := rl_Set B k (cw_next ?w) (int (length (cw_mem (snd (copy_bytes a ?w)) a))) (cw_backend ?w)\<rparr>"
        using run True by (auto simp: ristretto_defs ristretto_set_def split_def Let_def cache_reply_of_def)
      then show ?thesis
        using cache_inv_write [OF inv, of a _ k] args SetOp drop by (simp add: after_op_def handed_out_def)
    next
      case (SetTTLOp ctx k a t)
      then have "r = Done" "w' = (snd (copy_bytes a ?w))\<lparr>cw_backend := rl_SetWithTTL B k (cw_next ?w) (int (length (cw_mem (snd (copy_bytes a ?w)) a))) t (cw_backend ?w)\<rparr>"
        using run True by (auto simp: ristretto_defs ristretto_set_ttl_def split_def Let_def cache_reply_of_def)
      then show ?thesis
        using cache_inv_write [OF inv, of a _ k] args SetTTLOp drop by (simp add: after_op_def handed_out_def)
    next
      case (DeleteOp ctx k)
      then have "r = Done" "w' = ?w\<lparr>cw_backend := rl_Del B k (cw_backend ?w)\<rparr>"
        using run True by (auto simp: ristretto_defs ristretto_delete_def cache_reply_of_def)
      then show ?thesis
        using cache_inv_same_memory [OF inv, of w'] DeleteOp drop by (simp add: after_op_def handed_out_def)
    next
      case (ExistsOp ctx k)
      then have "\<exists>y. r = Found y" "w' = ?w\<lparr>cw_backend := snd (rl_Get B k (cw_backend ?w))\<rparr>"
        using run True by (auto simp: ristretto_defs ristretto_exists_def cache_reply_of_def split_def)
      then show ?thesis
        using cache_inv_same_memory [OF inv, of w'] ExistsOp drop by (auto simp: after_op_def handed_out_def)
    next
      case CloseOp
      have "may (rl_Close B (rl_Wait B b)) k \<subseteq> may b k" for b k
        using drop(6) [of "rl_Wait B b" k] drop(5) [of b k] by (rule order_trans)
      moreover from CloseOp have "r = Done" "w' = ?w \<or> w' = ?w\<lparr>cw_closed := True, cw_backend := rl_Close B (rl_Wait B (cw_backend ?w))\<rparr>"
        using run by (auto simp: ristretto_defs ristretto_close_def split: if_splits)
      ultimately show ?thesis
        using cache_inv_same_memory [OF inv, of w'] CloseOp by (auto simp: after_op_def handed_out_def)
    qed
  qed
qed

lemma cache_inv_reachable:
  assumes "cache_reachable B may s" and lib: "keeps_slices B may"
  shows "cache_inv may s"
  using assms(1)
proof induction
  case (start w H)
  then show ?case by (simp add: cache_inv_def Let_def)
next
  case (next_step s s')
  show ?case using next_step(2)
  proof cases
    case (operation op r w')
    then show ?thesis using cache_inv_op [OF next_step.IH lib] by (simp add: after_op_def)
  next
    case (overwrite a v)
    then show ?thesis using next_step.IH by (auto simp: cache_inv_def Let_def)
  next
    case (allocate v a w')
    then show ?thesis using next_step.IH by (fastforce simp: cache_inv_def Let_def new_bytes_def)
  next
    case (background b')
    then show ?thesis using next_step.IH by (fastforce simp: cache_inv_def Let_def)
  qed
qed

lemma ristretto_stored:
  assumes "cache_reachable B may s" and "keeps_slices B may" and "ristretto_Get B ctx k (cr_world s) = (Inr r, w')"
  shows "(k, cw_mem w' r) \<in> cr_stored s \<and> r \<notin> cr_held s"
proof -
  have "ristretto_get B k (cr_world s) = (Inr r, w')"
    using assms(3) by (cases ctx; cases "cw_closed (cr_world s)"; simp add: ristretto_Get_def)
  then show ?thesis using cache_inv_get [OF cache_inv_reachable [OF assms(1,2)] assms(2)] by blast
qed

text \<open>
  C30: Whatever callers do with the arrays they hold, before and after a write or a read, what the cache returns for a key are
  the bytes that a write stored under this key, in an array that no caller holds yet.
\<close>

lemma ristretto_returns_stored:
  assumes "cache_reachable B may s" and "keeps_slices B may" and "ristretto_Get B ctx k (cr_world s) = (Inr r, w')"
  shows "(k, cw_mem w' r) \<in> cr_stored s \<and> r \<notin> cr_held s"
  using assms by (rule ristretto_stored)

text \<open>
  Nothing is left of a closed cache: whatever came before, every later operation answers that the cache is closed, a second
  Close does nothing, and the library is not called again.
\<close>

lemma closed_cache_answers:
  assumes "CloseOp \<in> set earlier" and "\<forall>op \<in> set later. op_ctx op = None"
    and "C = noop_cache \<or> C = ristretto_cache B \<or> C = olric_cache L h"
  shows "performs C later (snd (performs C earlier w)) = (map closed_reply later, snd (performs C earlier w))"
  using assms noop_laws.shut_iff noop_laws.shut_performs ristretto_laws.shut_iff ristretto_laws.shut_performs
    olric_laws.shut_iff olric_laws.shut_performs by metis

section \<open>Witnesses\<close>

text \<open>Ristretto as a map of slices.\<close>

definition map_ristretto :: "(string \<Rightarrow> addr option) ristretto_lib" where
  "map_ristretto = \<lparr>rl_New = (\<lambda>_ _ _. Inr (\<lambda>_. None)), rl_Get = (\<lambda>k b. (b k, b)), rl_Set = (\<lambda>k a c b. b(k \<mapsto> a)),
     rl_SetWithTTL = (\<lambda>k a c t b. b(k \<mapsto> a)), rl_Del = (\<lambda>k b. b(k := None)), rl_Wait = id, rl_Close = (\<lambda>_ _. None),
     rl_Metrics = (\<lambda>_. \<lparr>rm_Hits = 0, rm_Misses = 0, rm_KeysAdded = 0, rm_KeysEvicted = 0, rm_CostAdded = 0, rm_CostEvicted = 0\<rparr>)\<rparr>"

lemma map_ristretto_set: "rl_Set map_ristretto k a c b = b(k \<mapsto> a)" "rl_Get map_ristretto k b = (b k, b)"
  by (simp_all add: map_ristretto_def)

definition map_slices :: "(string \<Rightarrow> addr option) \<Rightarrow> string \<Rightarrow> addr set" where
  "map_slices b k = set_option (b k)"

lemma map_ristretto_keeps: "keeps_slices map_ristretto map_slices"
  by (auto simp: keeps_slices_def map_ristretto_def map_slices_def split: if_splits)

definition demo_world :: "(string \<Rightarrow> addr option) cache_world" where
  "demo_world = \<lparr>cw_mem = (\<lambda>_. ''v''), cw_next = 1, cw_closed = False, cw_backend = (\<lambda>_. None)\<rparr>"

text \<open>Store an array, overwrite it, read it back.\<close>

definition demo_cache_run :: "(string \<Rightarrow> addr option) cache_run" where
  "demo_cache_run = \<lparr>cr_world = \<lparr>cw_mem = (\<lambda>_. ''v'')(1 := ''v'', 0 := ''x''), cw_next = 2, cw_closed = False, cw_backend = [''k'' \<mapsto> 1]\<rparr>,
     cr_held = {0}, cr_stored = {(''k'', ''v'')}\<rparr>"

lemma demo_cache_run_reachable: "cache_reachable map_ristretto map_slices demo_cache_run"
proof -
  let ?s0 = "\<lparr>cr_world = demo_world, cr_held = {0}, cr_stored = {}\<rparr>"
  have "cache_reachable map_ristretto map_slices ?s0"
    by (rule cache_reachable.start) (simp_all add: demo_world_def map_slices_def)
  from next_step [OF this operation [where op = "SetOp None ''k'' 0"]]
  have "cache_reachable map_ristretto map_slices
     \<lparr>cr_world = \<lparr>cw_mem = (\<lambda>_. ''v'')(1 := ''v''), cw_next = 2, cw_closed = False, cw_backend = [''k'' \<mapsto> 1]\<rparr>,
      cr_held = {0}, cr_stored = {(''k'', ''v'')}\<rparr>"
    by (simp add: ristretto_defs ristretto_set_def copy_bytes_def new_bytes_def demo_world_def map_ristretto_set cache_reply_of_def
        handed_out_def numeral_2_eq_2)
  from next_step [OF this overwrite [where a = 0 and v = "''x''"]] show ?thesis by (simp add: demo_cache_run_def)
qed

lemma ristretto_returns_stored_witness:
  "\<exists>r w'. ristretto_Get map_ristretto None ''k'' (cr_world demo_cache_run) = (Inr r, w') \<and> cw_mem w' r = ''v'' \<and> r \<notin> {0}"
proof -
  have run: "ristretto_Get map_ristretto None ''k'' (cr_world demo_cache_run) =
      (Inr 2, (cr_world demo_cache_run)\<lparr>cw_mem := (cw_mem (cr_world demo_cache_run))(2 := ''v''), cw_next := 3\<rparr>)"
    by (simp add: ristretto_Get_def ristretto_get_def map_ristretto_set demo_cache_run_def copy_bytes_def new_bytes_def)
  show ?thesis
    using ristretto_returns_stored [OF demo_cache_run_reachable map_ristretto_keeps run] run by (simp add: demo_cache_run_def)
qed

lemma closed_cache_answers_witness:
  "performs (ristretto_cache map_ristretto) [GetOp None ''k'', CloseOp] (snd (performs (ristretto_cache map_ristretto) [CloseOp] demo_world)) =
    ([Failed ErrClosed, Done], snd (performs (ristretto_cache map_ristretto) [CloseOp] demo_world))"
  using closed_cache_answers [of "[CloseOp]" "[GetOp None ''k'', CloseOp]" "ristretto_cache map_ristretto" map_ristretto _ _ demo_world]
  by (simp add: closed_reply_def)

end
