(* ===== verification/Cache_Concurrent.thy ===== *)
theory Cache_Concurrent
  imports Cache_Facts
begin

text \<open>
  The caches under concurrent use: every load of the \<open>closed\<close> flag, every acquisition and release of the lock and every call of
  the library is a step, and the steps of any number of goroutines interleave. Ristretto's cache and Olric's have the same
  frame, so what differs (what an operation does under the lock, and what Close does once the flag is set) is an argument.

  Calls of the library are one step each: both libraries document that they may be used concurrently.
\<close>

section \<open>The frame\<close>

record 'b locked_cache =
  lc_held :: "cache_op \<Rightarrow> 'b cache_world \<Rightarrow> cache_reply \<times> 'b cache_world"
  lc_close :: "'b cache_world \<Rightarrow> cache_reply \<times> 'b cache_world"

fun ristretto_body :: "'b ristretto_lib \<Rightarrow> cache_op \<Rightarrow> 'b cache_world \<Rightarrow> cache_reply \<times> 'b cache_world" where
  "ristretto_body B (GetOp ctx k) w = apfst (cache_reply_of Bytes) (ristretto_get B k w)"
| "ristretto_body B (SetOp ctx k a) w = apfst (cache_reply_of (\<lambda>_. Done)) (ristretto_set B k a w)"
| "ristretto_body B (SetTTLOp ctx k a t) w = apfst (cache_reply_of (\<lambda>_. Done)) (ristretto_set_ttl B k a t w)"
| "ristretto_body B (DeleteOp ctx k) w = apfst (cache_reply_of (\<lambda>_. Done)) (ristretto_delete B k w)"
| "ristretto_body B (ExistsOp ctx k) w = apfst (cache_reply_of Found) (ristretto_exists B k w)"
| "ristretto_body B CloseOp w = (Done, w)"

fun olric_body :: "('b, 'v) olric_lib \<Rightarrow> cache_op \<Rightarrow> 'b cache_world \<Rightarrow> cache_reply \<times> 'b cache_world" where
  "olric_body B (GetOp ctx k) w = apfst (cache_reply_of Bytes) (olric_get B k w)"
| "olric_body B (SetOp ctx k a) w = apfst (cache_reply_of (\<lambda>_. Done)) (olric_put B k a None w)"
| "olric_body B (SetTTLOp ctx k a t) w = apfst (cache_reply_of (\<lambda>_. Done)) (olric_put B k a (Some t) w)"
| "olric_body B (DeleteOp ctx k) w = apfst (cache_reply_of (\<lambda>_. Done)) (olric_delete B k w)"
| "olric_body B (ExistsOp ctx k) w = apfst (cache_reply_of Found) (olric_exists B k w)"
| "olric_body B CloseOp w = (Done, w)"

definition close_reply :: "cache_error option \<Rightarrow> cache_reply" where
  "close_reply e = (case e of Some e \<Rightarrow> Failed e | None \<Rightarrow> Done)"

definition ristretto_locked :: "'b ristretto_lib \<Rightarrow> 'b locked_cache" where
  "ristretto_locked B = \<lparr>lc_held = ristretto_body B, lc_close = apfst close_reply \<circ> ristretto_close B\<rparr>"

definition olric_locked :: "('b, 'v) olric_lib \<Rightarrow> olric_handles \<Rightarrow> 'b locked_cache" where
  "olric_locked B h = \<lparr>lc_held = olric_body B, lc_close = apfst close_reply \<circ> olric_close B h\<rparr>"

text \<open>One call with nobody else around.\<close>

definition alone :: "'b locked_cache \<Rightarrow> cache_op \<Rightarrow> 'b cache_world \<Rightarrow> cache_reply \<times> 'b cache_world" where
  "alone G op w =
     (case op_ctx op of
        Some e \<Rightarrow> (Failed e, w)
      | None \<Rightarrow>
          if cw_closed w then (closed_reply op, w)
          else if op = CloseOp then lc_close G (w\<lparr>cw_closed := True\<rparr>)
          else lc_held G op w)"

section \<open>Goroutines\<close>

text \<open>
  Where a goroutine is in a call: called; past the first look at the flag; with the read lock; past the second look; with a reply and
  the lock; with the write lock; with the flag set; with a reply and the write lock; with a reply and no lock.
\<close>

datatype cpc =
    Resting
  | Called cache_op
  | Passed cache_op
  | Reading cache_op
  | Inside cache_op
  | Unlocking cache_op cache_reply
  | Writing
  | Closing
  | Unlocking_write cache_reply
  | Returning cache_op cache_reply

fun reads :: "cpc \<Rightarrow> bool" where
  "reads (Reading op) = True"
| "reads (Inside op) = True"
| "reads (Unlocking op r) = True"
| "reads _ = False"

fun writes :: "cpc \<Rightarrow> bool" where
  "writes Writing = True"
| "writes Closing = True"
| "writes (Unlocking_write r) = True"
| "writes _ = False"

text \<open>
  The shared state, and what is recorded of a run: in \<open>cs_log\<close> the calls in the order in which they took effect, in \<open>cs_done i\<close> the
  calls from which goroutine \<open>i\<close> has returned.
\<close>

record 'b cache_sys =
  cs_world :: "'b cache_world"
  cs_pcs :: "cpc list"
  cs_log :: "(nat \<times> cache_op \<times> cache_reply) list"
  cs_done :: "nat \<Rightarrow> (cache_op \<times> cache_reply) list"

definition move :: "nat \<Rightarrow> cpc \<Rightarrow> 'b cache_sys \<Rightarrow> 'b cache_sys" where
  "move i p s = s\<lparr>cs_pcs := (cs_pcs s)[i := p]\<rparr>"

definition effect :: "nat \<Rightarrow> cache_op \<Rightarrow> cache_reply \<Rightarrow> cpc \<Rightarrow> 'b cache_world \<Rightarrow> 'b cache_sys \<Rightarrow> 'b cache_sys" where
  "effect i op r p w s = (move i p s)\<lparr>cs_world := w, cs_log := cs_log s @ [(i, op, r)]\<rparr>"

text \<open>The next step of goroutine \<open>i\<close>; none when it rests or waits for the lock.\<close>

definition cache_advance :: "'b locked_cache \<Rightarrow> nat \<Rightarrow> 'b cache_sys \<Rightarrow> 'b cache_sys option" where
  "cache_advance G i s =
     (let w = cs_world s
      in case cs_pcs s ! i of
           Resting \<Rightarrow> None
         | Called op \<Rightarrow>
             Some (case op_ctx op of
                     Some e \<Rightarrow> effect i op (Failed e) (Returning op (Failed e)) w s
                   | None \<Rightarrow>
                       if cw_closed w then effect i op (closed_reply op) (Returning op (closed_reply op)) w s
                       else move i (Passed op) s)
         | Passed op \<Rightarrow>
             if op = CloseOp
             then (if \<exists>p \<in> set (cs_pcs s). reads p \<or> writes p then None else Some (move i Writing s))
             else (if \<exists>p \<in> set (cs_pcs s). writes p then None else Some (move i (Reading op) s))
         | Reading op \<Rightarrow>
             Some (if cw_closed w then effect i op (Failed ErrClosed) (Unlocking op (Failed ErrClosed)) w s
                   else move i (Inside op) s)
         | Inside op \<Rightarrow> Some (case lc_held G op w of (r, w') \<Rightarrow> effect i op r (Unlocking op r) w' s)
         | Unlocking op r \<Rightarrow> Some (move i (Returning op r) s)
         | Writing \<Rightarrow>
             Some (if cw_closed w then effect i CloseOp Done (Unlocking_write Done) w s
                   else let w = w\<lparr>cw_closed := True\<rparr> in effect i CloseOp (fst (lc_close G w)) Closing w s)
         | Closing \<Rightarrow> Some (case lc_close G w of (r, w') \<Rightarrow> (move i (Unlocking_write r) s)\<lparr>cs_world := w'\<rparr>)
         | Unlocking_write r \<Rightarrow> Some (move i (Returning CloseOp r) s)
         | Returning op r \<Rightarrow> Some ((move i Resting s)\<lparr>cs_done := (cs_done s)(i := cs_done s i @ [(op, r)])\<rparr>))"

inductive cache_sys_step :: "'b locked_cache \<Rightarrow> 'b cache_sys \<Rightarrow> 'b cache_sys \<Rightarrow> bool" for G where
  call: "i < length (cs_pcs s) \<Longrightarrow> cs_pcs s ! i = Resting \<Longrightarrow> cache_sys_step G s (move i (Called op) s)"
| advance: "i < length (cs_pcs s) \<Longrightarrow> cache_advance G i s = Some s' \<Longrightarrow> cache_sys_step G s s'"

inductive cache_sys_reachable :: "'b locked_cache \<Rightarrow> 'b cache_world \<Rightarrow> 'b cache_sys \<Rightarrow> bool" for G w0 where
  start: "cache_sys_reachable G w0 \<lparr>cs_world = w0, cs_pcs = replicate n Resting, cs_log = [], cs_done = (\<lambda>_. [])\<rparr>"
| next_step: "cache_sys_reachable G w0 s \<Longrightarrow> cache_sys_step G s s' \<Longrightarrow> cache_sys_reachable G w0 s'"

section \<open>What the log means\<close>

text \<open>The calls of a log made one after the other give the recorded replies and the world \<open>w'\<close>.\<close>

fun replays :: "'b locked_cache \<Rightarrow> 'b cache_world \<Rightarrow> (nat \<times> cache_op \<times> cache_reply) list \<Rightarrow> 'b cache_world \<Rightarrow> bool" where
  "replays G w [] w' \<longleftrightarrow> w' = w"
| "replays G w ((i, op, r) # l) w' \<longleftrightarrow> fst (alone G op w) = r \<and> replays G (snd (alone G op w)) l w'"

lemma replays_append: "replays G w (l1 @ l2) w' \<longleftrightarrow> (\<exists>w1. replays G w l1 w1 \<and> replays G w1 l2 w')"
  by (induction l1 arbitrary: w) auto

lemma replays_snoc: "replays G w l w1 \<Longrightarrow> alone G op w1 = (r, w') \<Longrightarrow> replays G w (l @ [(i, op, r)]) w'"
  by (auto simp: replays_append)

definition calls_of :: "nat \<Rightarrow> (nat \<times> cache_op \<times> cache_reply) list \<Rightarrow> (cache_op \<times> cache_reply) list" where
  "calls_of i l = map snd (filter (\<lambda>e. fst e = i) l)"

lemma calls_of_snoc [simp]: "calls_of i (l @ [(j, c)]) = (if i = j then calls_of i l @ [c] else calls_of i l)"
  by (simp add: calls_of_def)

lemma calls_of_Nil [simp]: "calls_of i [] = []"
  by (simp add: calls_of_def)

text \<open>A call that has taken effect and not yet returned.\<close>

fun pending :: "'b locked_cache \<Rightarrow> 'b cache_world \<Rightarrow> cpc \<Rightarrow> (cache_op \<times> cache_reply) list" where
  "pending G w (Unlocking op r) = [(op, r)]"
| "pending G w (Unlocking_write r) = [(CloseOp, r)]"
| "pending G w (Returning op r) = [(op, r)]"
| "pending G w Closing = [(CloseOp, fst (lc_close G w))]"
| "pending G w _ = []"

text \<open>The world once a Close in progress is through.\<close>

definition settled :: "'b locked_cache \<Rightarrow> 'b cache_sys \<Rightarrow> 'b cache_world" where
  "settled G s = (if Closing \<in> set (cs_pcs s) then snd (lc_close G (cs_world s)) else cs_world s)"

definition locks_ok :: "cpc list \<Rightarrow> bool" where
  "locks_ok ps \<longleftrightarrow> (\<forall>i < length ps. \<forall>j < length ps. writes (ps ! i) \<longrightarrow> i \<noteq> j \<longrightarrow> \<not> reads (ps ! j) \<and> \<not> writes (ps ! j))"

fun pc_fits :: "bool \<Rightarrow> cpc \<Rightarrow> bool" where
  "pc_fits shut (Passed op) \<longleftrightarrow> op_ctx op = None"
| "pc_fits shut (Reading op) \<longleftrightarrow> op_ctx op = None \<and> op \<noteq> CloseOp"
| "pc_fits shut (Inside op) \<longleftrightarrow> op_ctx op = None \<and> op \<noteq> CloseOp \<and> \<not> shut"
| "pc_fits shut Closing \<longleftrightarrow> shut"
| "pc_fits shut _ \<longleftrightarrow> True"

definition cache_sys_inv :: "'b locked_cache \<Rightarrow> 'b cache_world \<Rightarrow> 'b cache_sys \<Rightarrow> bool" where
  "cache_sys_inv G w0 s \<longleftrightarrow>
     locks_ok (cs_pcs s) \<and> (\<forall>p \<in> set (cs_pcs s). pc_fits (cw_closed (cs_world s)) p) \<and>
     replays G w0 (cs_log s) (settled G s) \<and>
     (\<forall>i < length (cs_pcs s). calls_of i (cs_log s) = cs_done s i @ pending G (cs_world s) (cs_pcs s ! i)) \<and>
     (\<forall>i \<ge> length (cs_pcs s). calls_of i (cs_log s) = cs_done s i)"

section \<open>The invariant\<close>

lemma locks_okD:
  assumes "locks_ok ps" and "j < length ps" and "k < length ps" and "writes (ps ! j)" and "j \<noteq> k"
  shows "\<not> reads (ps ! k)" and "\<not> writes (ps ! k)"
  using assms unfolding locks_ok_def by blast+

lemma reads_not_writes: "reads p \<Longrightarrow> \<not> writes p"
  by (cases p) simp_all

lemma locks_ok_update:
  assumes ok: "locks_ok ps" and i: "i < length ps"
    and w: "writes p \<longrightarrow> writes (ps ! i) \<or> (\<forall>q \<in> set ps. \<not> reads q \<and> \<not> writes q)"
    and r: "reads p \<longrightarrow> reads (ps ! i) \<or> (\<forall>q \<in> set ps. \<not> writes q)"
  shows "locks_ok (ps[i := p])"
  unfolding locks_ok_def length_list_update
proof (intro allI impI)
  fix j k assume j: "j < length ps" and k: "k < length ps" and wj: "writes (ps[i := p] ! j)" and jk: "j \<noteq> k"
  note D = locks_okD [OF ok]
  consider "j = i" "k \<noteq> i" | "j \<noteq> i" "k = i" | "j \<noteq> i" "k \<noteq> i" using jk by blast
  then show "\<not> reads (ps[i := p] ! k) \<and> \<not> writes (ps[i := p] ! k)"
  proof cases
    case 1
    then have "writes p" using wj i by simp
    then have "\<not> reads (ps ! k) \<and> \<not> writes (ps ! k)" using w D [OF i k] 1 nth_mem [OF k] by blast
    then show ?thesis using 1 by simp
  next
    case 2
    then have "writes (ps ! j)" using wj by simp
    then have "\<not> reads (ps ! i)" "\<not> writes (ps ! i)" "\<exists>q \<in> set ps. writes q" using D [OF j i] 2 nth_mem [OF j] by blast+
    then have "\<not> reads p \<and> \<not> writes p" using w r by blast
    then show ?thesis using 2 i by simp
  next
    case 3
    then show ?thesis using D [OF j k _ jk] wj by simp
  qed
qed

lemma reads_no_writer:
  assumes "locks_ok ps" and "i < length ps" and "reads (ps ! i)"
  shows "\<forall>q \<in> set ps. \<not> writes q"
proof
  fix q assume "q \<in> set ps"
  then obtain j where "j < length ps" "q = ps ! j" by (auto simp: in_set_conv_nth)
  then show "\<not> writes q" using locks_okD(1) [OF assms(1), of j i] assms(2,3) reads_not_writes by (cases "j = i") auto
qed

lemma Closing_writes: "\<not> writes p \<Longrightarrow> p \<noteq> Closing"
  by auto

lemma pending_not_Closing: "p \<noteq> Closing \<Longrightarrow> pending G w p = pending G w' p"
  by (cases p) simp_all

lemma pc_fits_not_inside: "\<not> reads p \<Longrightarrow> pc_fits shut p \<Longrightarrow> pc_fits True p"
  by (cases p) simp_all

lemma cache_sys_inv_update:
  assumes inv: "cache_sys_inv G w0 s" and i: "i < length (cs_pcs s)"
    and lw: "writes p \<longrightarrow> writes (cs_pcs s ! i) \<or> (\<forall>q \<in> set (cs_pcs s). \<not> reads q \<and> \<not> writes q)"
    and lr: "reads p \<longrightarrow> reads (cs_pcs s ! i) \<or> (\<forall>q \<in> set (cs_pcs s). \<not> writes q)"
    and s': "cs_pcs s' = (cs_pcs s)[i := p]"
    and fit: "pc_fits (cw_closed (cs_world s')) p"
    and fits: "\<And>j. j < length (cs_pcs s) \<Longrightarrow> j \<noteq> i \<Longrightarrow> pc_fits (cw_closed (cs_world s')) (cs_pcs s ! j)"
    and rep: "replays G w0 (cs_log s') (settled G s')"
    and mine: "calls_of i (cs_log s') = cs_done s' i @ pending G (cs_world s') p"
    and others: "\<And>j. j \<noteq> i \<Longrightarrow> calls_of j (cs_log s') = calls_of j (cs_log s) \<and> cs_done s' j = cs_done s j"
    and pend: "\<And>j. j < length (cs_pcs s) \<Longrightarrow> j \<noteq> i \<Longrightarrow>
      pending G (cs_world s') (cs_pcs s ! j) = pending G (cs_world s) (cs_pcs s ! j)"
  shows "cache_sys_inv G w0 s'"
proof -
  have "locks_ok (cs_pcs s')" using inv i lw lr unfolding s' cache_sys_inv_def by (intro locks_ok_update) simp_all
  moreover have "\<forall>q \<in> set (cs_pcs s'). pc_fits (cw_closed (cs_world s')) q"
    unfolding s' using fit fits i by (auto simp: in_set_conv_nth nth_list_update split: if_splits)
  moreover have "\<forall>j < length (cs_pcs s'). calls_of j (cs_log s') = cs_done s' j @ pending G (cs_world s') (cs_pcs s' ! j)"
    unfolding s' using mine others pend i inv by (auto simp: nth_list_update cache_sys_inv_def)
  moreover have "\<forall>j \<ge> length (cs_pcs s'). calls_of j (cs_log s') = cs_done s' j"
    unfolding s' using others i inv by (auto simp: cache_sys_inv_def)
  ultimately show ?thesis using rep by (simp add: cache_sys_inv_def)
qed

lemma settled_same:
  assumes "i < length (cs_pcs s)" and "cs_pcs s ! i \<noteq> Closing" and "p \<noteq> Closing"
    and "cs_pcs s' = (cs_pcs s)[i := p]" and "cs_world s' = cs_world s"
  shows "settled G s' = settled G s"
proof -
  have "Closing \<in> set ((cs_pcs s)[i := p]) \<longleftrightarrow> Closing \<in> set (cs_pcs s)"
    using assms(1-3) by (metis in_set_conv_nth length_list_update nth_list_update_eq nth_list_update_neq)
  then show ?thesis using assms(4,5) by (simp add: settled_def)
qed

lemma settled_no_Closing: "Closing \<notin> set (cs_pcs s) \<Longrightarrow> settled G s = cs_world s"
  by (simp add: settled_def)

text \<open>A step that changes neither the world nor the record of the run.\<close>

lemma inv_move:
  assumes inv: "cache_sys_inv G w0 s" and i: "i < length (cs_pcs s)"
    and "writes p \<longrightarrow> writes (cs_pcs s ! i) \<or> (\<forall>q \<in> set (cs_pcs s). \<not> reads q \<and> \<not> writes q)"
    and "reads p \<longrightarrow> reads (cs_pcs s ! i) \<or> (\<forall>q \<in> set (cs_pcs s). \<not> writes q)"
    and "pc_fits (cw_closed (cs_world s)) p" and nc: "cs_pcs s ! i \<noteq> Closing" "p \<noteq> Closing"
    and "pending G (cs_world s) p = pending G (cs_world s) (cs_pcs s ! i)"
  shows "cache_sys_inv G w0 (move i p s)"
proof (rule cache_sys_inv_update [OF inv i assms(3,4)])
  have "settled G (move i p s) = settled G s"
    by (rule settled_same [OF i nc]) (simp_all add: move_def)
  then show "replays G w0 (cs_log (move i p s)) (settled G (move i p s))" using inv by (simp add: cache_sys_inv_def move_def)
qed (use assms in \<open>simp_all add: move_def cache_sys_inv_def\<close>)

text \<open>A call that takes effect without changing the world.\<close>

lemma inv_effect_same:
  assumes inv: "cache_sys_inv G w0 s" and i: "i < length (cs_pcs s)"
    and "writes p \<longrightarrow> writes (cs_pcs s ! i)" and "reads p \<longrightarrow> reads (cs_pcs s ! i)"
    and "pc_fits (cw_closed (cs_world s)) p" and nc: "cs_pcs s ! i \<noteq> Closing" "p \<noteq> Closing"
    and "pending G (cs_world s) (cs_pcs s ! i) = []" and "pending G (cs_world s) p = [(op, r)]"
    and eff: "alone G op (settled G s) = (r, settled G s)"
  shows "cache_sys_inv G w0 (effect i op r p (cs_world s) s)"
proof (rule cache_sys_inv_update [OF inv i])
  have "settled G (effect i op r p (cs_world s) s) = settled G s"
    by (rule settled_same [OF i nc]) (simp_all add: effect_def move_def)
  then show "replays G w0 (cs_log (effect i op r p (cs_world s) s)) (settled G (effect i op r p (cs_world s) s))"
    using inv eff by (auto simp: cache_sys_inv_def effect_def move_def intro: replays_snoc)
qed (use assms in \<open>auto simp: effect_def move_def cache_sys_inv_def\<close>)

locale lock_protected =
  fixes G :: "'b locked_cache"
  assumes held_keeps: "cw_closed (snd (lc_held G op w)) = cw_closed w"
    and close_keeps: "cw_closed (snd (lc_close G w)) = cw_closed w"
begin

lemma settled_closed: "cw_closed (settled G s) = cw_closed (cs_world s)"
  by (simp add: settled_def close_keeps)

lemma alone_refused:
  "op_ctx op = Some e \<Longrightarrow> alone G op w = (Failed e, w)"
  "op_ctx op = None \<Longrightarrow> cw_closed w \<Longrightarrow> alone G op w = (closed_reply op, w)"
  by (simp_all add: alone_def)

lemma alone_close: "\<not> cw_closed w \<Longrightarrow> alone G CloseOp w = lc_close G (w\<lparr>cw_closed := True\<rparr>)"
  by (simp add: alone_def)

lemma alone_held: "op_ctx op = None \<Longrightarrow> \<not> cw_closed w \<Longrightarrow> op \<noteq> CloseOp \<Longrightarrow> alone G op w = lc_held G op w"
  by (simp add: alone_def)

end

lemma no_Closing: "\<forall>q \<in> set ps. \<not> writes q \<Longrightarrow> Closing \<notin> set ps"
  using writes.simps(2) by blast

lemma inv_at:
  assumes "cache_sys_inv G w0 s" and "i < length (cs_pcs s)"
  shows "locks_ok (cs_pcs s)" and "pc_fits (cw_closed (cs_world s)) (cs_pcs s ! i)"
    and "replays G w0 (cs_log s) (settled G s)"
    and "calls_of i (cs_log s) = cs_done s i @ pending G (cs_world s) (cs_pcs s ! i)"
  using assms by (simp_all add: cache_sys_inv_def)

context lock_protected
begin

lemma step_called:
  assumes inv: "cache_sys_inv G w0 s" and i: "i < length (cs_pcs s)" and at: "cs_pcs s ! i = Called op"
    and go: "cache_advance G i s = Some s'"
  shows "cache_sys_inv G w0 s'"
proof (cases "op_ctx op")
  case (Some e)
  then have s': "s' = effect i op (Failed e) (Returning op (Failed e)) (cs_world s) s" using go at by (simp add: cache_advance_def)
  show ?thesis unfolding s' by (rule inv_effect_same [OF inv i]) (simp_all add: at alone_refused(1) [OF Some])
next
  case None
  show ?thesis
  proof (cases "cw_closed (cs_world s)")
    case True
    then have s': "s' = effect i op (closed_reply op) (Returning op (closed_reply op)) (cs_world s) s"
      using go at None by (simp add: cache_advance_def)
    show ?thesis unfolding s'
      by (rule inv_effect_same [OF inv i]) (simp_all add: at alone_refused(2) [OF None] settled_closed True)
  next
    case False
    then have s': "s' = move i (Passed op) s" using go at None by (simp add: cache_advance_def)
    show ?thesis unfolding s' by (rule inv_move [OF inv i]) (simp_all add: at None)
  qed
qed

lemma step_passed:
  assumes inv: "cache_sys_inv G w0 s" and i: "i < length (cs_pcs s)" and at: "cs_pcs s ! i = Passed op"
    and go: "cache_advance G i s = Some s'"
  shows "cache_sys_inv G w0 s'"
proof (cases "op = CloseOp")
  case True
  then have s': "s' = move i Writing s" and free: "\<forall>q \<in> set (cs_pcs s). \<not> reads q \<and> \<not> writes q"
    using go at by (auto simp: cache_advance_def split: if_splits)
  show ?thesis unfolding s' by (rule inv_move [OF inv i]) (use free in \<open>simp_all add: at\<close>)
next
  case False
  then have s': "s' = move i (Reading op) s" and free: "\<forall>q \<in> set (cs_pcs s). \<not> writes q"
    using go at by (auto simp: cache_advance_def split: if_splits)
  have "op_ctx op = None" using inv_at(2) [OF inv i] at by simp
  then show ?thesis unfolding s' by (intro inv_move [OF inv i]) (use free False in \<open>simp_all add: at\<close>)
qed

lemma step_reading:
  assumes inv: "cache_sys_inv G w0 s" and i: "i < length (cs_pcs s)" and at: "cs_pcs s ! i = Reading op"
    and go: "cache_advance G i s = Some s'"
  shows "cache_sys_inv G w0 s'"
proof -
  have op: "op_ctx op = None" "op \<noteq> CloseOp" using inv_at(2) [OF inv i] at by simp_all
  show ?thesis
  proof (cases "cw_closed (cs_world s)")
    case True
    then have s': "s' = effect i op (Failed ErrClosed) (Unlocking op (Failed ErrClosed)) (cs_world s) s"
      using go at by (simp add: cache_advance_def)
    show ?thesis unfolding s'
      by (rule inv_effect_same [OF inv i]) (simp_all add: at alone_refused(2) [OF op(1)] settled_closed True closed_reply_def op(2))
  next
    case False
    then have s': "s' = move i (Inside op) s" using go at by (simp add: cache_advance_def)
    show ?thesis unfolding s' by (rule inv_move [OF inv i]) (simp_all add: at op False)
  qed
qed

lemma step_inside:
  assumes inv: "cache_sys_inv G w0 s" and i: "i < length (cs_pcs s)" and at: "cs_pcs s ! i = Inside op"
    and go: "cache_advance G i s = Some s'"
  shows "cache_sys_inv G w0 s'"
proof -
  have op: "op_ctx op = None" "op \<noteq> CloseOp" "\<not> cw_closed (cs_world s)" using inv_at(2) [OF inv i] at by simp_all
  have free: "\<forall>q \<in> set (cs_pcs s). \<not> writes q" by (rule reads_no_writer [OF inv_at(1) [OF inv i] i]) (simp add: at)
  obtain r w' where held: "lc_held G op (cs_world s) = (r, w')" by fastforce
  then have s': "s' = effect i op r (Unlocking op r) w' s" using go at by (simp add: cache_advance_def)
  have keeps: "cw_closed w' = cw_closed (cs_world s)" using held_keeps [of op "cs_world s"] held by simp
  have still: "\<forall>q \<in> set ((cs_pcs s)[i := Unlocking op r]). \<not> writes q"
    using free set_update_subset_insert [of "cs_pcs s" i "Unlocking op r"] by auto
  have "replays G w0 (cs_log s) (cs_world s)"
    using inv_at(3) [OF inv i] settled_no_Closing [OF no_Closing [OF free]] by simp
  then have rep: "replays G w0 (cs_log s @ [(i, op, r)]) w'"
    by (rule replays_snoc) (simp add: alone_held op held)
  show ?thesis unfolding s'
  proof (rule cache_sys_inv_update [OF inv i, where p = "Unlocking op r"])
    show "replays G w0 (cs_log (effect i op r (Unlocking op r) w' s)) (settled G (effect i op r (Unlocking op r) w' s))"
      using rep no_Closing [OF still] by (simp add: effect_def move_def settled_def)
    show "pending G (cs_world (effect i op r (Unlocking op r) w' s)) (cs_pcs s ! j) = pending G (cs_world s) (cs_pcs s ! j)"
      if "j < length (cs_pcs s)" for j
      using free nth_mem [OF that] by (intro pending_not_Closing) auto
  qed (use inv keeps inv_at(4) [OF inv i] in \<open>simp_all add: at effect_def move_def cache_sys_inv_def\<close>)
qed

lemma step_writing:
  assumes inv: "cache_sys_inv G w0 s" and i: "i < length (cs_pcs s)" and at: "cs_pcs s ! i = Writing"
    and go: "cache_advance G i s = Some s'"
  shows "cache_sys_inv G w0 s'"
proof -
  have alone_here: "\<not> reads (cs_pcs s ! j)" "\<not> writes (cs_pcs s ! j)" if "j < length (cs_pcs s)" "j \<noteq> i" for j
    using locks_okD [OF inv_at(1) [OF inv i] i that(1)] that(2) at by auto
  have nc: "Closing \<notin> set (cs_pcs s)"
  proof
    assume "Closing \<in> set (cs_pcs s)"
    then obtain j where "j < length (cs_pcs s)" "cs_pcs s ! j = Closing" by (auto simp: in_set_conv_nth)
    then show False using alone_here(2) [of j] at by (cases "j = i") auto
  qed
  show ?thesis
  proof (cases "cw_closed (cs_world s)")
    case True
    then have s': "s' = effect i CloseOp Done (Unlocking_write Done) (cs_world s) s" using go at by (simp add: cache_advance_def)
    show ?thesis unfolding s'
      by (rule inv_effect_same [OF inv i]) (simp_all add: at settled_no_Closing [OF nc] alone_def closed_reply_def True)
  next
    case False
    define w where "w = (cs_world s)\<lparr>cw_closed := True\<rparr>"
    have s': "s' = effect i CloseOp (fst (lc_close G w)) Closing w s"
      using go at False by (simp add: cache_advance_def w_def Let_def)
    have "replays G w0 (cs_log s) (cs_world s)" using inv_at(3) [OF inv i] settled_no_Closing [OF nc] by simp
    then have rep: "replays G w0 (cs_log s @ [(i, CloseOp, fst (lc_close G w))]) (snd (lc_close G w))"
      by (rule replays_snoc) (simp add: alone_close False w_def)
    show ?thesis unfolding s'
    proof (rule cache_sys_inv_update [OF inv i, where p = "Closing"])
      show "replays G w0 (cs_log (effect i CloseOp (fst (lc_close G w)) Closing w s))
          (settled G (effect i CloseOp (fst (lc_close G w)) Closing w s))"
        using rep i by (simp add: effect_def move_def settled_def set_update_memI)
      show "pc_fits (cw_closed (cs_world (effect i CloseOp (fst (lc_close G w)) Closing w s))) (cs_pcs s ! j)"
        if "j < length (cs_pcs s)" "j \<noteq> i" for j
        using pc_fits_not_inside [OF alone_here(1) [OF that]] inv_at(2) [OF inv that(1)] by (simp add: effect_def w_def)
      show "pending G (cs_world (effect i CloseOp (fst (lc_close G w)) Closing w s)) (cs_pcs s ! j) = pending G (cs_world s) (cs_pcs s ! j)"
        if "j < length (cs_pcs s)" for j
        using nc nth_mem [OF that] by (intro pending_not_Closing) auto
    qed (use inv inv_at(4) [OF inv i] in \<open>simp_all add: at effect_def move_def w_def\<close>)
  qed
qed

lemma step_closing:
  assumes inv: "cache_sys_inv G w0 s" and i: "i < length (cs_pcs s)" and at: "cs_pcs s ! i = Closing"
    and go: "cache_advance G i s = Some s'"
  shows "cache_sys_inv G w0 s'"
proof -
  obtain r w' where close: "lc_close G (cs_world s) = (r, w')" by fastforce
  then have s': "s' = (move i (Unlocking_write r) s)\<lparr>cs_world := w'\<rparr>" using go at by (simp add: cache_advance_def)
  have keeps: "cw_closed w' = cw_closed (cs_world s)" using close_keeps [of "cs_world s"] close by simp
  have others: "\<not> writes (cs_pcs s ! j)" if "j < length (cs_pcs s)" "j \<noteq> i" for j
    using locks_okD(2) [OF inv_at(1) [OF inv i] i that(1)] that(2) at by auto
  have nc: "Closing \<notin> set (cs_pcs s')"
  proof
    assume "Closing \<in> set (cs_pcs s')"
    then obtain j where "j < length (cs_pcs s)" "(cs_pcs s)[i := Unlocking_write r] ! j = Closing"
      by (auto simp: s' move_def in_set_conv_nth)
    then show False using others [of j] i by (cases "j = i") auto
  qed
  have "settled G s = w'" using nth_mem [OF i] at close by (simp add: settled_def)
  then have "settled G s' = settled G s" using nc by (simp add: settled_def s')
  then have rep: "replays G w0 (cs_log s') (settled G s')" using inv_at(3) [OF inv i] by (simp add: s' move_def)
  show ?thesis
  proof (rule cache_sys_inv_update [OF inv i, where p = "Unlocking_write r"])
    show "pending G (cs_world s') (cs_pcs s ! j) = pending G (cs_world s) (cs_pcs s ! j)" if "j < length (cs_pcs s)" "j \<noteq> i" for j
      using others [OF that] by (intro pending_not_Closing) auto
    show "cs_pcs s' = (cs_pcs s)[i := Unlocking_write r]" by (simp add: s' move_def)
  qed (use inv rep keeps close inv_at(4) [OF inv i] in \<open>simp_all add: at s' move_def cache_sys_inv_def\<close>)
qed

lemma step_returning:
  assumes inv: "cache_sys_inv G w0 s" and i: "i < length (cs_pcs s)" and at: "cs_pcs s ! i = Returning op r"
    and go: "cache_advance G i s = Some s'"
  shows "cache_sys_inv G w0 s'"
proof -
  have s': "s' = (move i Resting s)\<lparr>cs_done := (cs_done s)(i := cs_done s i @ [(op, r)])\<rparr>" using go at by (simp add: cache_advance_def)
  have "settled G s' = settled G s"
    by (rule settled_same [OF i, of Resting]) (simp_all add: at s' move_def)
  then have rep: "replays G w0 (cs_log s') (settled G s')" using inv_at(3) [OF inv i] by (simp add: s' move_def)
  show ?thesis
  proof (rule cache_sys_inv_update [OF inv i, where p = "Resting"])
    show "cs_pcs s' = (cs_pcs s)[i := Resting]" by (simp add: s' move_def)
  qed (use inv rep inv_at(4) [OF inv i] in \<open>simp_all add: at s' move_def cache_sys_inv_def\<close>)
qed

lemma inv_advance:
  assumes inv: "cache_sys_inv G w0 s" and i: "i < length (cs_pcs s)" and go: "cache_advance G i s = Some s'"
  shows "cache_sys_inv G w0 s'"
proof (cases "cs_pcs s ! i")
  case Resting
  then show ?thesis using go by (simp add: cache_advance_def)
next
  case (Unlocking op r)
  then have "s' = move i (Returning op r) s" using go by (simp add: cache_advance_def)
  then show ?thesis using inv_move [OF inv i, of "Returning op r"] Unlocking by simp
next
  case (Unlocking_write r)
  then have "s' = move i (Returning CloseOp r) s" using go by (simp add: cache_advance_def)
  then show ?thesis using inv_move [OF inv i, of "Returning CloseOp r"] Unlocking_write by simp
qed (use step_called [OF inv i _ go] step_passed [OF inv i _ go] step_reading [OF inv i _ go] step_inside [OF inv i _ go]
      step_writing [OF inv i _ go] step_closing [OF inv i _ go] step_returning [OF inv i _ go] in blast)+

lemma inv_reachable:
  assumes "cache_sys_reachable G w0 s"
  shows "cache_sys_inv G w0 s"
  using assms
proof induction
  case (start n)
  have "settled G \<lparr>cs_world = w0, cs_pcs = replicate n Resting, cs_log = [], cs_done = (\<lambda>_. [])\<rparr> = w0"
    by (simp add: settled_def)
  then show ?case by (simp add: cache_sys_inv_def locks_ok_def)
next
  case (next_step s s')
  show ?case using next_step(2)
  proof cases
    case (call i op)
    show ?thesis unfolding call(1) by (rule inv_move [OF next_step.IH call(2)]) (simp_all add: call(3))
  next
    case (advance i)
    show ?thesis by (rule inv_advance [OF next_step.IH advance])
  qed
qed

end

section \<open>The two caches\<close>

interpretation ristretto_frame: lock_protected "ristretto_locked B" for B
proof
  fix op w
  show "cw_closed (snd (lc_held (ristretto_locked B) op w)) = cw_closed w"
    by (cases op) (simp_all add: ristretto_locked_def ristretto_held)
  show "cw_closed (snd (lc_close (ristretto_locked B) w)) = cw_closed w"
    by (simp add: ristretto_locked_def ristretto_held)
qed

interpretation olric_frame: lock_protected "olric_locked B h" for B h
proof
  fix op w
  show "cw_closed (snd (lc_held (olric_locked B h) op w)) = cw_closed w"
    by (cases op) (simp_all add: olric_locked_def olric_held)
  show "cw_closed (snd (lc_close (olric_locked B h) w)) = cw_closed w"
    by (simp add: olric_locked_def olric_held)
qed

text \<open>A call alone is the operation of theory \<open>Cache_Backends\<close>.\<close>

lemma alone_ristretto: "alone (ristretto_locked B) op w = perform (ristretto_cache B) op w"
proof (cases "op_ctx op")
  case None
  then show ?thesis
    by (cases op) (simp_all add: alone_def ristretto_locked_def ristretto_defs cache_reply_simps close_reply_def [abs_def])
next
  case (Some e)
  then show ?thesis by (cases op) (simp_all add: alone_def ristretto_defs cache_reply_of_def)
qed

lemma alone_olric: "alone (olric_locked B h) op w = perform (olric_cache B h) op w"
proof (cases "op_ctx op")
  case None
  then show ?thesis
    by (cases op) (simp_all add: alone_def olric_locked_def olric_defs cache_reply_simps close_reply_def [abs_def])
next
  case (Some e)
  then show ?thesis by (cases op) (simp_all add: alone_def olric_defs cache_reply_of_def)
qed

definition log_ops :: "(nat \<times> cache_op \<times> cache_reply) list \<Rightarrow> cache_op list" where
  "log_ops l = map (fst \<circ> snd) l"

definition log_replies :: "(nat \<times> cache_op \<times> cache_reply) list \<Rightarrow> cache_reply list" where
  "log_replies l = map (snd \<circ> snd) l"

lemma replays_performs:
  assumes "\<And>op w. alone G op w = perform C op w"
  shows "replays G w l w' \<Longrightarrow> performs C (log_ops l) w = (log_replies l, w')"
  by (induction l arbitrary: w) (auto simp: assms log_ops_def log_replies_def split_def Let_def)

lemma pending_short: "length (pending G w p) \<le> 1"
  by (cases p) simp_all

lemma linearized:
  assumes inv: "cache_sys_inv G w0 s" and eq: "\<And>op w. alone G op w = perform C op w"
  shows "\<exists>w'. performs C (log_ops (cs_log s)) w0 = (log_replies (cs_log s), w') \<and>
      (Closing \<notin> set (cs_pcs s) \<longrightarrow> w' = cs_world s) \<and>
      (\<forall>i < length (cs_pcs s). \<exists>now. calls_of i (cs_log s) = cs_done s i @ now \<and> length now \<le> 1)"
proof (intro exI conjI)
  show "performs C (log_ops (cs_log s)) w0 = (log_replies (cs_log s), settled G s)"
    using replays_performs [OF eq] inv by (simp add: cache_sys_inv_def)
  show "Closing \<notin> set (cs_pcs s) \<longrightarrow> settled G s = cs_world s" by (simp add: settled_def)
  show "\<forall>i < length (cs_pcs s). \<exists>now. calls_of i (cs_log s) = cs_done s i @ now \<and> length now \<le> 1"
    using inv pending_short by (auto simp: cache_sys_inv_def)
qed

lemma can_move: "reads (cs_pcs s ! i) \<or> writes (cs_pcs s ! i) \<Longrightarrow> cache_advance G i s \<noteq> None"
  by (cases "cs_pcs s ! i") (simp_all add: cache_advance_def Let_def)

text \<open>
  C12: However the calls of any number of goroutines interleave, both caches behave as if every call happened at once, somewhere between its
  start and its return: the calls in the order of the log, made one after the other on the initial cache, give the replies that the
  goroutines got and, unless a Close is on its way, the present cache; and what a goroutine has had back is its part of the log.
\<close>

lemma cache_linearizable:
  assumes "cache_sys_reachable G w0 s" and "G = ristretto_locked B \<and> C = ristretto_cache B \<or> G = olric_locked L h \<and> C = olric_cache L h"
  shows "\<exists>w'. performs C (log_ops (cs_log s)) w0 = (log_replies (cs_log s), w') \<and>
      (Closing \<notin> set (cs_pcs s) \<longrightarrow> w' = cs_world s) \<and>
      (\<forall>i < length (cs_pcs s). \<exists>now. calls_of i (cs_log s) = cs_done s i @ now \<and> length now \<le> 1)"
  using assms(2)
proof
  assume "G = ristretto_locked B \<and> C = ristretto_cache B"
  then have G: "G = ristretto_locked B" and C: "C = ristretto_cache B" by simp_all
  show ?thesis unfolding C by (rule linearized [OF ristretto_frame.inv_reachable [OF assms(1) [unfolded G]] alone_ristretto])
next
  assume "G = olric_locked L h \<and> C = olric_cache L h"
  then have G: "G = olric_locked L h" and C: "C = olric_cache L h" by simp_all
  show ?thesis unfolding C by (rule linearized [OF olric_frame.inv_reachable [OF assms(1) [unfolded G]] alone_olric])
qed

text \<open>
While a goroutine is about to call the library, the cache is open and nobody closes it: the library is never used once it is being
  closed.
\<close>

lemma library_open_when_used:
  assumes "cache_sys_reachable G w0 s" and "G = ristretto_locked B \<or> G = olric_locked L h"
    and "i < length (cs_pcs s)" and "cs_pcs s ! i = Inside op"
  shows "\<not> cw_closed (cs_world s) \<and> Writing \<notin> set (cs_pcs s) \<and> Closing \<notin> set (cs_pcs s)"
proof -
  have inv: "cache_sys_inv G w0 s"
    using assms(1,2) ristretto_frame.inv_reachable olric_frame.inv_reachable by blast
  have "\<forall>q \<in> set (cs_pcs s). \<not> writes q"
    by (rule reads_no_writer [OF inv_at(1) [OF inv assms(3)] assms(3)]) (simp add: assms(4))
  then show ?thesis using inv_at(2) [OF inv assms(3)] assms(4) writes.simps(1,2) by auto
qed


section \<open>Witnesses\<close>

text \<open>One goroutine stores a value.\<close>

definition demo_sys :: "cpc \<Rightarrow> (string \<Rightarrow> addr option) cache_sys" where
  "demo_sys p = \<lparr>cs_world = demo_world, cs_pcs = [p], cs_log = [], cs_done = (\<lambda>_. [])\<rparr>"

definition demo_set :: cache_op where
  "demo_set = SetOp None ''k'' 0"

lemma demo_ops: "op_ctx demo_set = None" "demo_set \<noteq> CloseOp" "\<not> cw_closed demo_world"
  by (simp_all add: demo_set_def demo_world_def)

lemma advance_reachable:
  "cache_sys_reachable G w0 s \<Longrightarrow> i < length (cs_pcs s) \<Longrightarrow> cache_advance G i s = Some s' \<Longrightarrow> cache_sys_reachable G w0 s'"
  by (rule next_step [OF _ advance])

lemma demo_sys_reachable: "cache_sys_reachable G demo_world (demo_sys (Inside demo_set))"
proof -
  have rest: "demo_sys Resting = \<lparr>cs_world = demo_world, cs_pcs = replicate 1 Resting, cs_log = [], cs_done = (\<lambda>_. [])\<rparr>"
    by (simp add: demo_sys_def)
  have "cache_sys_reachable G demo_world (demo_sys Resting)" unfolding rest by (rule cache_sys_reachable.start)
  from next_step [OF this call [of 0 _ _ demo_set]] have "cache_sys_reachable G demo_world (demo_sys (Called demo_set))"
    by (simp add: demo_sys_def move_def)
  from advance_reachable [OF this, of 0 "demo_sys (Passed demo_set)"]
  have "cache_sys_reachable G demo_world (demo_sys (Passed demo_set))"
    by (simp add: demo_sys_def move_def cache_advance_def demo_ops)
  from advance_reachable [OF this, of 0 "demo_sys (Reading demo_set)"]
  have "cache_sys_reachable G demo_world (demo_sys (Reading demo_set))"
    by (simp add: demo_sys_def move_def cache_advance_def demo_ops)
  from advance_reachable [OF this, of 0 "demo_sys (Inside demo_set)"] show ?thesis
    by (simp add: demo_sys_def move_def cache_advance_def demo_ops)
qed

definition demo_stored :: "(string \<Rightarrow> addr option) cache_sys" where
  "demo_stored = effect 0 demo_set Done (Unlocking demo_set Done)
     (demo_world\<lparr>cw_mem := (cw_mem demo_world)(1 := ''v''), cw_next := 2, cw_backend := [''k'' \<mapsto> 1]\<rparr>) (demo_sys (Inside demo_set))"

lemma demo_stored_reachable: "cache_sys_reachable (ristretto_locked map_ristretto) demo_world demo_stored"
proof (rule advance_reachable [OF demo_sys_reachable])
  have "lc_held (ristretto_locked map_ristretto) demo_set demo_world =
      (Done, demo_world\<lparr>cw_mem := (cw_mem demo_world)(1 := ''v''), cw_next := 2, cw_backend := [''k'' \<mapsto> 1]\<rparr>)"
    by (simp add: ristretto_locked_def demo_set_def ristretto_set_def copy_bytes_def new_bytes_def demo_world_def map_ristretto_set
        cache_reply_of_def numeral_2_eq_2)
  then show "cache_advance (ristretto_locked map_ristretto) 0 (demo_sys (Inside demo_set)) = Some demo_stored"
    by (simp add: cache_advance_def demo_stored_def demo_sys_def)
qed (simp add: demo_sys_def)

lemma cache_linearizable_witness:
  "performs (ristretto_cache map_ristretto) [demo_set] demo_world = ([Done], cs_world demo_stored)"
  using cache_linearizable [OF demo_stored_reachable disjI1 [OF conjI [OF refl refl]]]
  by (auto simp: demo_stored_def demo_sys_def effect_def move_def log_ops_def log_replies_def)

lemma library_open_when_used_witness:
  "cs_pcs (demo_sys (Inside demo_set)) ! 0 = Inside demo_set \<and> \<not> cw_closed (cs_world (demo_sys (Inside demo_set)))"
  using library_open_when_used [OF demo_sys_reachable [of "ristretto_locked map_ristretto"] disjI1 [OF refl], of 0 demo_set]
  by (simp add: demo_sys_def)


end
