(* ===== verification/RO_Cache.thy ===== *)
theory RO_Cache
  imports Cache_Facts
begin

text \<open>
  The cache behind observables (\<open>internal/cache/ro_cache.go\<close>). The stream library \<open>samber/ro\<close> is third-party: an observable is what a
  subscriber sees of it, the values and how they end, and what subscribing does to the world. Subscribing returns when the
  observable has ended, as the observables of this file do. JSON of the standard library is an argument.
\<close>

datatype ending = Completed | Errored cache_error

type_synonym ('b, 'a) observable = "'b cache_world \<Rightarrow> ('a list \<times> ending) \<times> 'b cache_world"

record 'b ro_cache =
  ro_cache :: "'b cache_world cache_iface"
  ro_ttl :: duration

definition NewROCache :: "'b cache_world cache_iface \<Rightarrow> duration \<Rightarrow> 'b ro_cache" where
  "NewROCache cache defaultTTL = \<lparr>ro_cache = cache, ro_ttl = defaultTTL\<rparr>"

definition GetTTL :: "'b ro_cache \<Rightarrow> duration" where
  "GetTTL c = ro_ttl c"

definition Underlying :: "'b ro_cache \<Rightarrow> 'b cache_world cache_iface" where
  "Underlying c = ro_cache c"

section \<open>Get or fetch\<close>

text \<open>
  \<open>none\<close> is the nil slice, the result of a fetch without values. The observer of the fetch keeps the last value and an error.
\<close>

definition GetOrFetch :: "'b ro_cache \<Rightarrow> addr \<Rightarrow> cache_error option \<Rightarrow> string \<Rightarrow> ('b, addr) observable \<Rightarrow> ('b, addr) observable" where
  "GetOrFetch c none ctx key fetch w =
     (case ci_Get (ro_cache c) ctx key w of
        (Inr data, w) \<Rightarrow> (([data], Completed), w)
      | (Inl err, w) \<Rightarrow>
          if err \<noteq> ErrNotFound then (([], Errored err), w)
          else case fetch w of
                 ((_, Errored fetchErr), w) \<Rightarrow> (([], Errored fetchErr), w)
               | ((items, Completed), w) \<Rightarrow>
                   (let result = (if items = [] then none else last items);
                        (_, w) = ci_SetWithTTL (ro_cache c) ctx key result (ro_ttl c) w
                    in (([result], Completed), w)))"

text \<open>The typed variant. \<open>dec\<close> and \<open>enc\<close> are \<open>json.Unmarshal\<close> and \<open>json.Marshal\<close>.\<close>

definition getCachedTyped :: "(string \<Rightarrow> 'a option) \<Rightarrow> 'b ro_cache \<Rightarrow> cache_error option \<Rightarrow> string \<Rightarrow> 'b cache_world \<Rightarrow>
    (cache_error + 'a option) \<times> 'b cache_world" where
  "getCachedTyped dec c ctx key w =
     (case ci_Get (ro_cache c) ctx key w of
        (Inl err, w) \<Rightarrow> (if err = ErrNotFound then Inr None else Inl err, w)
      | (Inr data, w) \<Rightarrow> (case dec (cw_mem w data) of None \<Rightarrow> (Inl ErrCacheCorrupt, w) | Some result \<Rightarrow> (Inr (Some result), w)))"

definition fetchTyped :: "('b, 'a) observable \<Rightarrow> 'b cache_world \<Rightarrow> (cache_error + 'a option) \<times> 'b cache_world" where
  "fetchTyped fetch w =
     (case fetch w of
        ((_, Errored e), w) \<Rightarrow> (Inl e, w)
      | ((items, Completed), w) \<Rightarrow> (Inr (if items = [] then None else Some (last items)), w))"

definition cacheTyped :: "('a \<Rightarrow> string option) \<Rightarrow> 'b ro_cache \<Rightarrow> cache_error option \<Rightarrow> string \<Rightarrow> 'a \<Rightarrow> 'b cache_world \<Rightarrow> 'b cache_world" where
  "cacheTyped enc c ctx key value w =
     (case enc value of
        None \<Rightarrow> w
      | Some data \<Rightarrow> (let (a, w) = new_bytes data w in snd (ci_SetWithTTL (ro_cache c) ctx key a (ro_ttl c) w)))"

definition GetOrFetchTyped :: "(string \<Rightarrow> 'a option) \<Rightarrow> ('a \<Rightarrow> string option) \<Rightarrow> 'b ro_cache \<Rightarrow> cache_error option \<Rightarrow> string \<Rightarrow>
    ('b, 'a) observable \<Rightarrow> ('b, 'a) observable" where
  "GetOrFetchTyped dec enc c ctx key fetch w =
     (case getCachedTyped dec c ctx key w of
        (Inr (Some result), w) \<Rightarrow> (([result], Completed), w)
      | (r, w) \<Rightarrow>
          if \<exists>err. r = Inl err \<and> err \<noteq> ErrCacheCorrupt then (([], Errored (projl r)), w)
          else case fetchTyped fetch w of
                 (Inl e, w) \<Rightarrow> (([], Errored e), w)
               | (Inr None, w) \<Rightarrow> (([], Errored ErrCacheFetchFailed), w)
               | (Inr (Some fetched), w) \<Rightarrow> (([fetched], Completed), cacheTyped enc c ctx key fetched w))"

section \<open>The other operations\<close>

definition done_or_error :: "(cache_error + unit) \<times> 'b cache_world \<Rightarrow> ('a list \<times> ending) \<times> 'b cache_world" where
  "done_or_error r = (case r of (Inl e, w) \<Rightarrow> (([], Errored e), w) | (Inr _, w) \<Rightarrow> (([], Completed), w))"

definition Invalidate :: "'b ro_cache \<Rightarrow> cache_error option \<Rightarrow> string \<Rightarrow> ('b, unit) observable" where
  "Invalidate c ctx key w = done_or_error (ci_Delete (ro_cache c) ctx key w)"

fun InvalidateMany :: "'b ro_cache \<Rightarrow> cache_error option \<Rightarrow> string list \<Rightarrow> ('b, string) observable" where
  "InvalidateMany c ctx [] w = (([], Completed), w)"
| "InvalidateMany c ctx (key # keys) w =
     (case ci_Delete (ro_cache c) ctx key w of
        (r, w) \<Rightarrow>
          if \<exists>e. r = Inl e \<and> e \<noteq> ErrNotFound then (([], Errored (projl r)), w)
          else (case InvalidateMany c ctx keys w of ((ks, end'), w) \<Rightarrow> ((key # ks, end'), w)))"

definition ro_Set :: "'b ro_cache \<Rightarrow> cache_error option \<Rightarrow> string \<Rightarrow> addr \<Rightarrow> ('b, unit) observable" where
  "ro_Set c ctx key value w = done_or_error (ci_SetWithTTL (ro_cache c) ctx key value (ro_ttl c) w)"

definition ro_SetWithTTL :: "'b ro_cache \<Rightarrow> cache_error option \<Rightarrow> string \<Rightarrow> addr \<Rightarrow> duration \<Rightarrow> ('b, unit) observable" where
  "ro_SetWithTTL c ctx key value ttl w = done_or_error (ci_SetWithTTL (ro_cache c) ctx key value ttl w)"

definition ro_Get :: "'b ro_cache \<Rightarrow> cache_error option \<Rightarrow> string \<Rightarrow> ('b, addr) observable" where
  "ro_Get c ctx key w =
     (case ci_Get (ro_cache c) ctx key w of (Inl e, w) \<Rightarrow> (([], Errored e), w) | (Inr data, w) \<Rightarrow> (([data], Completed), w))"

definition ro_Exists :: "'b ro_cache \<Rightarrow> cache_error option \<Rightarrow> string \<Rightarrow> ('b, bool) observable" where
  "ro_Exists c ctx key w =
     (case ci_Exists (ro_cache c) ctx key w of (Inl e, w) \<Rightarrow> (([], Errored e), w) | (Inr x, w) \<Rightarrow> (([x], Completed), w))"

text \<open>Every item of the source is stored as it passes.\<close>

definition stream_store :: "('a \<Rightarrow> string option) \<Rightarrow> 'b ro_cache \<Rightarrow> cache_error option \<Rightarrow> ('a \<Rightarrow> string) \<Rightarrow> 'a \<Rightarrow> 'b cache_world \<Rightarrow>
    'b cache_world" where
  "stream_store enc c ctx keyFunc item w = cacheTyped enc c ctx (keyFunc item) item w"

definition ro_Stream :: "('a \<Rightarrow> string option) \<Rightarrow> 'b ro_cache \<Rightarrow> cache_error option \<Rightarrow> ('b, 'a) observable \<Rightarrow> ('a \<Rightarrow> string) \<Rightarrow>
    ('b, 'a) observable" where
  "ro_Stream enc c ctx source keyFunc w =
     (case source w of ((items, end'), w) \<Rightarrow> ((items, end'), fold (stream_store enc c ctx keyFunc) items w))"

section \<open>Facts\<close>

text \<open>What the caller of a fetch sees, and what is stored: three cases by what the cache answers.\<close>

lemma GetOrFetch_hit:
  "ci_Get (ro_cache c) ctx key w = (Inr data, w') \<Longrightarrow> GetOrFetch c none ctx key fetch w = (([data], Completed), w')"
  by (simp add: GetOrFetch_def)

lemma GetOrFetch_failed:
  "ci_Get (ro_cache c) ctx key w = (Inl e, w') \<Longrightarrow> e \<noteq> ErrNotFound \<Longrightarrow> GetOrFetch c none ctx key fetch w = (([], Errored e), w')"
  by (simp add: GetOrFetch_def)

lemma GetOrFetch_miss:
  assumes "ci_Get (ro_cache c) ctx key w = (Inl ErrNotFound, w1)"
  shows "GetOrFetch c none ctx key fetch w =
    (case fetch w1 of
       ((items, Errored e), w2) \<Rightarrow> (([], Errored e), w2)
     | ((items, Completed), w2) \<Rightarrow>
         (([if items = [] then none else last items], Completed),
          snd (ci_SetWithTTL (ro_cache c) ctx key (if items = [] then none else last items) (ro_ttl c) w2)))"
  using assms by (simp add: GetOrFetch_def Let_def split_def split: ending.split)

lemma GetOrFetch_one_ending:
  assumes "GetOrFetch c none ctx key fetch w = ((items, e), w')"
  shows "(e = Completed \<longleftrightarrow> length items = 1) \<and> (e \<noteq> Completed \<longleftrightarrow> items = [])"
  using assms by (auto simp: GetOrFetch_def split_def Let_def split: prod.splits sum.splits if_splits ending.splits)

text \<open>What comes out of a closed cache is the error, and nothing is fetched.\<close>

lemma closed_not_fetched:
  assumes "cw_closed w" and "c = NewROCache (ristretto_cache B) t \<or> c = NewROCache (olric_cache L h) t \<or> c = NewROCache noop_cache t"
  shows "GetOrFetch c none None key fetch w = (([], Errored ErrClosed), w)"
  using assms by (auto simp: GetOrFetch_def NewROCache_def ristretto_defs olric_defs noop_defs)

text \<open>Without a cache every call fetches.\<close>

lemma noop_always_fetches:
  assumes "\<not> cw_closed w" and "fetch w = ((items, Completed), w2)" and "items \<noteq> []"
  shows "fst (GetOrFetch (NewROCache noop_cache t) none ctx key fetch w) = ([last items], Completed)"
  using assms by (simp add: GetOrFetch_def NewROCache_def noop_defs split_def)

text \<open>
  Get or fetch on Ristretto's cache gives, in exactly one value or one error, bytes that a write stored under the key, or else the last
  value of the fetch; it fetches only when the key is not there.
\<close>

lemma GetOrFetch_stored_or_fetched:
  assumes "cache_reachable B may s" and "keeps_slices B may"
    and "GetOrFetch (NewROCache (ristretto_cache B) t) none ctx key fetch (cr_world s) = (([r], Completed), w')"
  shows "(key, cw_mem w' r) \<in> cr_stored s \<and> r \<notin> cr_held s \<or>
    (\<exists>w1 items w2. ristretto_Get B ctx key (cr_world s) = (Inl ErrNotFound, w1) \<and> fetch w1 = ((items, Completed), w2) \<and>
       r = (if items = [] then none else last items))"
proof (cases "ristretto_Get B ctx key (cr_world s)")
  case (Pair x w1)
  show ?thesis
  proof (cases x)
    case (Inl e)
    obtain items e2 w2 where f: "fetch w1 = ((items, e2), w2)" by (metis prod.exhaust)
    have "e = ErrNotFound \<and> e2 = Completed \<and> r = (if items = [] then none else last items)"
      using assms(3) Pair Inl f
      by (auto simp: GetOrFetch_def NewROCache_def ristretto_cache_def split_def Let_def split: if_splits ending.splits)
    then show ?thesis using Pair Inl f by blast
  next
    case (Inr a)
    then have "r = a" "w' = w1" using assms(3) Pair by (simp_all add: GetOrFetch_def NewROCache_def ristretto_cache_def)
    then show ?thesis using ristretto_stored [OF assms(1,2)] Pair Inr by blast
  qed
qed

text \<open>
A fetch that completes without a value is taken for one that gave an empty value: it is emitted and stored, so that for the time to
  live every caller gets an empty answer. The typed variant reports the failure and stores nothing.
\<close>

lemma empty_fetch_cached:
  assumes "ristretto_Get B None key w = (Inl ErrNotFound, w1)" and "\<not> cw_closed w" and "fetch w1 = (([], Completed), w1)"
    and "cw_mem w1 none = ''''" and "typed w1 = (([], Completed), w1)"
  shows "(\<exists>a w2. GetOrFetch (NewROCache (ristretto_cache B) t) none None key fetch w = (([none], Completed), w2) \<and>
      cw_mem w2 a = '''' \<and> cw_backend w2 = rl_SetWithTTL B key a 0 t (cw_backend w1)) \<and>
    GetOrFetchTyped dec enc (NewROCache (ristretto_cache B) t) None key typed w = (([], Errored ErrCacheFetchFailed), w1)"
proof
  have open1: "\<not> cw_closed w1"
    using assms(1,2) ristretto_held(1) [of B key w] by (simp add: ristretto_Get_def)
  show "\<exists>a w2. GetOrFetch (NewROCache (ristretto_cache B) t) none None key fetch w = (([none], Completed), w2) \<and>
      cw_mem w2 a = '''' \<and> cw_backend w2 = rl_SetWithTTL B key a 0 t (cw_backend w1)"
    using assms(1,3,4) open1
    by (intro exI [of _ "cw_next w1"])
      (simp add: GetOrFetch_def NewROCache_def ristretto_cache_def ristretto_SetWithTTL_def ristretto_set_ttl_def copy_bytes_def
        new_bytes_def)
  show "GetOrFetchTyped dec enc (NewROCache (ristretto_cache B) t) None key typed w = (([], Errored ErrCacheFetchFailed), w1)"
    using assms(1,5) by (simp add: GetOrFetchTyped_def getCachedTyped_def fetchTyped_def NewROCache_def ristretto_cache_def)
qed

text \<open>Storing what passes does not change what passes.\<close>

lemma ro_Stream_transparent: "fst (ro_Stream enc c ctx source keyFunc w) = fst (source w)"
  by (simp add: ro_Stream_def split_def)

text \<open>
  Keys are invalidated in order up to the first failure, and each one that was is emitted; the caches of this package never
  answer a delete with \<^const>\<open>ErrNotFound\<close>, so a completed run emits all keys.
\<close>

lemma InvalidateMany_prefix:
  "InvalidateMany c ctx keys w = ((ks, e), w') \<Longrightarrow> (\<exists>rest. keys = ks @ rest) \<and> (e = Completed \<longrightarrow> ks = keys)"
proof (induction keys arbitrary: w ks e w')
  case (Cons k keys)
  then show ?case by (fastforce split: prod.splits if_splits)
qed simp

section \<open>Witnesses\<close>

lemma GetOrFetch_stored_or_fetched_witness:
  "\<exists>r w'. GetOrFetch (NewROCache (ristretto_cache map_ristretto) 0) 0 None ''k'' (\<lambda>w. (([], Completed), w)) (cr_world demo_cache_run) =
      (([r], Completed), w') \<and> (''k'', cw_mem w' r) \<in> cr_stored demo_cache_run"
proof -
  let ?f = "\<lambda>w :: (string \<Rightarrow> addr option) cache_world. (([] :: addr list, Completed), w)"
  have get: "ristretto_Get map_ristretto None ''k'' (cr_world demo_cache_run) =
      (Inr 2, (cr_world demo_cache_run)\<lparr>cw_mem := (cw_mem (cr_world demo_cache_run))(2 := ''v''), cw_next := 3\<rparr>)"
    by (simp add: ristretto_Get_def ristretto_get_def map_ristretto_set demo_cache_run_def copy_bytes_def new_bytes_def)
  have run: "GetOrFetch (NewROCache (ristretto_cache map_ristretto) 0) 0 None ''k'' ?f (cr_world demo_cache_run) =
      (([2], Completed), (cr_world demo_cache_run)\<lparr>cw_mem := (cw_mem (cr_world demo_cache_run))(2 := ''v''), cw_next := 3\<rparr>)"
    by (rule GetOrFetch_hit) (simp add: NewROCache_def ristretto_cache_def get)
  show ?thesis
    using GetOrFetch_stored_or_fetched [OF demo_cache_run_reachable map_ristretto_keeps run] run get by auto
qed

lemma empty_fetch_cached_witness:
  "\<exists>a w2. GetOrFetch (NewROCache (ristretto_cache map_ristretto) 5) 0 None ''k'' (\<lambda>w. (([], Completed), w))
      (demo_world\<lparr>cw_mem := (\<lambda>_. '''')\<rparr>) = (([0], Completed), w2) \<and> cw_backend w2 ''k'' = Some a \<and> cw_mem w2 a = ''''"
proof -
  let ?w = "demo_world\<lparr>cw_mem := (\<lambda>_. '''')\<rparr>"
  have get: "ristretto_Get map_ristretto None ''k'' ?w = (Inl ErrNotFound, ?w)"
    by (simp add: ristretto_Get_def ristretto_get_def map_ristretto_set demo_world_def)
  have "rl_SetWithTTL map_ristretto ''k'' a 0 5 b ''k'' = Some a" for a b by (simp add: map_ristretto_def)
  then show ?thesis
    using empty_fetch_cached [OF get, of "\<lambda>w. (([], Completed), w)" 0 "\<lambda>w. (([] :: unit list, Completed), w)" 5]
    by (fastforce simp: demo_world_def)
qed

end
