(* ===== verification/Responses_Handler.thy ===== *)
theory Responses_Handler
  imports OpenAI_Handler Responses_Converter
begin

text \<open>
  The handler of \<open>/v1/responses\<close> over chat completions (\<open>responses_handler.go\<close>): it decodes a request, selects a provider and a
  key, sends the converted request and converts what comes back, whole or as a stream.
\<close>

section \<open>Chat completions as JSON\<close>

text \<open>The request as it is sent (\<open>openai_types.go\<close>); \<open>fl\<close> is what a number of the free-form parameters becomes as a \<open>float64\<close>.\<close>

definition opt_member :: "bool \<Rightarrow> string \<Rightarrow> json \<Rightarrow> (string \<times> json) list" where
  "opt_member present k v = (if present then [(k, v)] else [])"

definition chat_tool_call_json :: "tool_call \<Rightarrow> json" where
  "chat_tool_call_json c = JObj [(''id'', JStr (tc_ID c)), (''type'', JStr (tc_Type c)),
     (''function'', JObj [(''name'', JStr (tc_Name c)), (''arguments'', JStr (tc_Arguments c))])]"

definition chat_message_json :: "chat_msg \<Rightarrow> json" where
  "chat_message_json m = JObj ([(''role'', JStr (cm_Role m)), (''content'', JStr (cm_Content m))] @
     opt_member (cm_ToolCallID m \<noteq> '''') ''tool_call_id'' (JStr (cm_ToolCallID m)) @
     opt_member (cm_ToolCalls m \<noteq> []) ''tool_calls'' (JArr (map chat_tool_call_json (cm_ToolCalls m))))"

definition chat_tool_json :: "(string \<Rightarrow> string) \<Rightarrow> tool \<Rightarrow> json" where
  "chat_tool_json fl t = JObj [(''type'', JStr (tl_Type t)), (''function'', JObj ([(''name'', JStr (tl_Name t))] @
     opt_member (tl_Description t \<noteq> '''') ''description'' (JStr (tl_Description t)) @
     opt_member (tl_Parameters t \<noteq> []) ''parameters'' (go_value fl (JObj (tl_Parameters t)))))]"

definition number_member :: "string \<Rightarrow> string option \<Rightarrow> (string \<times> json) list" where
  "number_member k v = (case v of None \<Rightarrow> [] | Some n \<Rightarrow> [(k, JNum n)])"

definition chat_request_json :: "(string \<Rightarrow> string) \<Rightarrow> chat_request \<Rightarrow> json" where
  "chat_request_json fl c = JObj ([(''model'', JStr (cq_Model c)), (''messages'', JArr (map chat_message_json (cq_Messages c)))] @
     opt_member (cq_Stream c) ''stream'' (JBool True) @
     number_member ''temperature'' (cq_Temperature c) @ number_member ''max_tokens'' (map_option itoa (cq_MaxTokens c)) @
     number_member ''top_p'' (cq_TopP c) @
     opt_member (cq_Tools c \<noteq> []) ''tools'' (JArr (map (chat_tool_json fl) (cq_Tools c))))"

text \<open>The response as it is read.\<close>

fun dec_number :: "int \<Rightarrow> json list \<Rightarrow> int option" where
  "dec_number n [] = Some n"
| "dec_number n (JNull # vs) = dec_number n vs"
| "dec_number n (v # vs) = (case dec_int v of None \<Rightarrow> None | Some m \<Rightarrow> dec_number m vs)"

definition dec_call_function :: "string \<times> string \<Rightarrow> json \<Rightarrow> (string \<times> string) option" where
  "dec_call_function f = dec_struct (\<lambda>ms.
     case (dec_string (fst f) (members ms ''name''), dec_string (snd f) (members ms ''arguments'')) of
       (Some n, Some a) \<Rightarrow> Some (n, a) | _ \<Rightarrow> None)"

definition dec_tool_call :: "json \<Rightarrow> tool_call option" where
  "dec_tool_call = dec_struct (\<lambda>ms.
     case (str_field ms ''id'', str_field ms ''type'', dec_each dec_call_function ('''', '''') (members ms ''function'')) of
       (Some i, Some t, Some (n, a)) \<Rightarrow> Some \<lparr>tc_ID = i, tc_Type = t, tc_Name = n, tc_Arguments = a\<rparr> | _ \<Rightarrow> None)"

definition dec_chat_message :: "string \<times> string \<times> tool_call list \<Rightarrow> json \<Rightarrow> (string \<times> string \<times> tool_call list) option" where
  "dec_chat_message m = dec_struct (\<lambda>ms.
     case (dec_string (fst m) (members ms ''role''), dec_string (fst (snd m)) (members ms ''content''),
           dec_slice dec_tool_call (snd (snd m)) (members ms ''tool_calls'')) of
       (Some r, Some c, Some ts) \<Rightarrow> Some (r, c, ts) | _ \<Rightarrow> None)"

definition dec_any_string :: "json \<Rightarrow> string option" where
  "dec_any_string v = (case v of JStr s \<Rightarrow> Some s | _ \<Rightarrow> None)"

definition dec_choice :: "json \<Rightarrow> chat_choice option" where
  "dec_choice = dec_struct (\<lambda>ms.
     case (dec_number 0 (members ms ''index''), dec_each dec_chat_message ('''', '''', []) (members ms ''message''),
           dec_optional dec_any_string None (members ms ''finish_reason'')) of
       (Some _, Some (r, c, ts), Some f) \<Rightarrow> Some \<lparr>cc_Role = r, cc_Content = c, cc_ToolCalls = ts, cc_FinishReason = f\<rparr>
     | _ \<Rightarrow> None)"

definition dec_chat_usage :: "int \<times> int \<times> int \<Rightarrow> json \<Rightarrow> (int \<times> int \<times> int) option" where
  "dec_chat_usage u = dec_struct (\<lambda>ms.
     case (dec_number (fst u) (members ms ''prompt_tokens''), dec_number (fst (snd u)) (members ms ''completion_tokens''),
           dec_number (snd (snd u)) (members ms ''total_tokens'')) of
       (Some p, Some c, Some t) \<Rightarrow> Some (p, c, t) | _ \<Rightarrow> None)"

definition dec_chat_response :: "json \<Rightarrow> chat_response option" where
  "dec_chat_response = dec_struct (\<lambda>ms.
     case (str_field ms ''id'', str_field ms ''object'', dec_number 0 (members ms ''created''), str_field ms ''model'',
           dec_slice dec_choice [] (members ms ''choices''), dec_each dec_chat_usage (0, 0, 0) (members ms ''usage'')) of
       (Some _, Some _, Some _, Some m, Some cs, Some u) \<Rightarrow> Some \<lparr>cp_Model = m, cp_Choices = cs, cp_Usage = u\<rparr> | _ \<Rightarrow> None)"

section \<open>The surroundings\<close>

record responses_call =
  rcl_URL :: string
  rcl_Key :: string
  rcl_Body :: string

text \<open>
  \<open>rv_float\<close> decodes a number of the request and \<open>rv_fl\<close> one in a free-form value; \<open>rv_do\<close> is the HTTP client: no connection, or
  a status and a body with the error at its end.
\<close>

record responses_env =
  rv_dec :: "string \<Rightarrow> json option"
  rv_float :: "string \<Rightarrow> string option"
  rv_fl :: "string \<Rightarrow> string"
  rv_show :: "go_error \<Rightarrow> string"
  rv_show_key :: "key_err \<Rightarrow> string"
  rv_mapping :: "string \<Rightarrow> (string \<times> string) list"
  rv_request :: "string \<Rightarrow> go_error option"
  rv_do :: "responses_call \<Rightarrow> go_error + int \<times> string \<times> go_error option"
  rv_ids :: "string \<times> string"
  rv_now :: int
  rv_conv :: conv_env

section \<open>Key and provider\<close>

datatype responses_reply = Replied_with response | Responses_panic go_error

definition responses_refuse :: "header \<Rightarrow> int \<Rightarrow> string \<Rightarrow> string \<Rightarrow> responses_reply" where
  "responses_refuse writer status kind msg = Replied_with (WriteError writer status kind msg)"

text \<open>Identifier and key, or the answer.\<close>

definition responses_selectKey ::
    "('l, 'r, 'c, 'b) handler_env \<Rightarrow> responses_env \<Rightarrow> header \<Rightarrow> provider \<Rightarrow> ('l, 'b) handler_state \<Rightarrow>
     (responses_reply + string \<times> string) \<times> ('l, 'b) handler_state" where
  "responses_selectKey he rv writer prov w =
     (case Option.bind (he_poolmap he) (\<lambda>m. m (prov_Name prov)) of
        Some a \<Rightarrow>
          (case GetKey (he_RL he) (he_keys he (hw_tick w)) (hw_pools w a) of
             (r, p) \<Rightarrow>
               (case r of
                  Inl PanicNilLimiter \<Rightarrow> Inl (Responses_panic (GoPanic ''nil limiter''))
                | Inl ErrAllKeysExhausted \<Rightarrow> Inl (responses_refuse writer 429 ''rate_limit_error'' ''all keys exhausted for provider'')
                | Inl err \<Rightarrow> Inl (responses_refuse writer 500 ''internal_error'' (''failed to select key: '' @ rv_show_key rv err))
                | Inr (keyID, key) \<Rightarrow> Inr (keyID, key),
                w\<lparr>hw_tick := Suc (hw_tick w), hw_pools := (hw_pools w)(a := p)\<rparr>))
      | None \<Rightarrow>
          (case Option.bind (he_keymap he) (\<lambda>m. m (prov_Name prov)) of
             Some key \<Rightarrow> Inr (''default'', key)
           | None \<Rightarrow> Inl (responses_refuse writer 500 ''internal_error''
               (''failed to select key: no API key configured for provider '' @ CHR 0x22 # prov_Name prov @ [CHR 0x22])), w))"

definition responses_select ::
    "('l, 'r, 'c, 'b) handler_env \<Rightarrow> responses_env \<Rightarrow> header \<Rightarrow> ('l, 'b) handler_state \<Rightarrow>
     (responses_reply + provider) \<times> ('l, 'b) handler_state" where
  "responses_select he rv writer w =
     (let infos = openai_candidates he w; w' = w\<lparr>hw_tick := Suc (hw_tick w)\<rparr>
      in if infos = [] then (Inl (responses_refuse writer 503 ''server_error'' ''no providers available''), w')
         else if list_ex (\<lambda>c. pi_Provider c = None) infos then (Inl (Responses_panic (GoPanic ''nil provider'')), w')
         else if openai_eligible he w infos = []
         then (Inl (responses_refuse writer 429 ''rate_limit_error'' ''all provider keys exhausted''), w')
         else let (r, s) = live_Select (he_route he (hw_tick w)) (he_routing he) (hw_router w) (openai_eligible he w infos);
                  w' = w'\<lparr>hw_router := s\<rparr>
              in case r of
                   Inl e \<Rightarrow> (Inl (responses_refuse writer 503 ''server_error'' (''failed to select provider: '' @ rv_show rv e)), w')
                 | Inr info \<Rightarrow>
                     (case pi_Provider info of
                        None \<Rightarrow> (Inl (Responses_panic (GoPanic ''nil provider'')), w')
                      | Some prov \<Rightarrow> (Inr prov, w')))"

section \<open>The request\<close>

text \<open>Reading and converting: the chat request, or the answer.\<close>

definition responses_decode ::
    "responses_env \<Rightarrow> header \<Rightarrow> string \<Rightarrow> string \<times> go_error option \<Rightarrow> responses_reply + chat_request" where
  "responses_decode rv writer httpMethod body =
     (if httpMethod \<noteq> ''POST''
      then Inl (responses_refuse writer 405 ''method_not_allowed'' ''Only POST method is supported for /v1/responses'')
      else case snd body of
             Some e \<Rightarrow> Inl (responses_refuse writer 400 ''invalid_request'' (''failed to read request body: '' @ rv_show rv e))
           | None \<Rightarrow>
               (case (case rv_dec rv (fst body) of None \<Rightarrow> Inl json_error | Some d \<Rightarrow> dec_request (rv_float rv) d) of
                  Inl (GoPanic p) \<Rightarrow> Inl (Responses_panic (GoPanic p))
                | Inl e \<Rightarrow> Inl (responses_refuse writer 400 ''invalid_request'' (''failed to parse JSON request: '' @ rv_show rv e))
                | Inr req \<Rightarrow>
                    if rq_Model req = '''' then Inl (responses_refuse writer 400 ''invalid_request'' ''model is required'')
                    else if rq_Input req = []
                    then Inl (responses_refuse writer 400 ''invalid_request'' ''input is required and cannot be empty'')
                    else case ConvertRequest (Some req) of
                           Inl e \<Rightarrow> Inl (responses_refuse writer 500 ''internal_error'' (''failed to convert request: '' @ rv_show rv e))
                         | Inr chat \<Rightarrow> Inr chat))"

definition trim_slashes :: "string \<Rightarrow> string" where
  "trim_slashes s = rev (dropWhile (\<lambda>c. c = CHR ''/'') (rev s))"

text \<open>The call that is made: its target, and the headers of the response so far.\<close>

definition responses_prepare ::
    "('l, 'r, 'c, 'b) handler_env \<Rightarrow> responses_env \<Rightarrow> header \<Rightarrow> chat_request \<Rightarrow> ('l, 'b) handler_state \<Rightarrow>
     (responses_reply + responses_call \<times> header) \<times> ('l, 'b) handler_state" where
  "responses_prepare he rv writer chat w =
     (case responses_select he rv writer w of
        (Inl reply, w) \<Rightarrow> (Inl reply, w)
      | (Inr prov, w) \<Rightarrow>
          (case responses_selectKey he rv writer prov w of
             (Inl reply, w) \<Rightarrow> (Inl reply, w)
           | (Inr (keyID, key), w) \<Rightarrow>
               (let url = trim_slashes (he_BaseURL he (prov_Name prov)) @ ''/chat/completions'';
                    chat = (if rv_mapping rv (prov_Name prov) = [] then chat
                            else chat\<lparr>cq_Model := RewriteModel (rv_mapping rv (prov_Name prov)) (cq_Model chat)\<rparr>)
                in case rv_request rv url of
                     Some e \<Rightarrow>
                       (Inl (responses_refuse writer 500 ''internal_error'' (''failed to create upstream request: '' @ rv_show rv e)), w)
                   | None \<Rightarrow>
                       (Inr (\<lparr>rcl_URL = url, rcl_Key = key, rcl_Body = json_text (chat_request_json (rv_fl rv) chat)\<rparr>,
                         header_set (header_set writer ''X-Relay-Provider'' (prov_Name prov)) ''X-Relay-Key-ID'' keyID), w))))"

section \<open>The answer\<close>

definition forwardUpstreamError :: "responses_env \<Rightarrow> header \<Rightarrow> int \<Rightarrow> string \<times> go_error option \<Rightarrow> responses_reply" where
  "forwardUpstreamError rv writer status body =
     (if snd body \<noteq> None then responses_refuse writer 502 ''api_error'' ''upstream returned error''
      else case Option.bind (any_map (rv_dec rv) (fst body)) (\<lambda>m. Option.bind (map_of m ''error'') (\<lambda>e. any_get e ''message'')) of
             Some (JStr msg) \<Rightarrow> responses_refuse writer status ''upstream_error'' msg
           | _ \<Rightarrow> responses_refuse writer status ''upstream_error'' (fst body))"

definition handleNonStreamingResponse :: "responses_env \<Rightarrow> header \<Rightarrow> string \<times> go_error option \<Rightarrow> responses_reply" where
  "handleNonStreamingResponse rv writer body =
     (case snd body of
        Some e \<Rightarrow> responses_refuse writer 502 ''api_error'' (''failed to read upstream response: '' @ rv_show rv e)
      | None \<Rightarrow>
          (case Option.bind (rv_dec rv (fst body)) dec_chat_response of
             None \<Rightarrow> responses_refuse writer 502 ''api_error'' (''failed to parse upstream response: '' @ rv_show rv json_error)
           | Some chat \<Rightarrow>
               (case ConvertResponse (fst (rv_ids rv)) (snd (rv_ids rv)) (rv_now rv) (Some chat) of
                  Inl e \<Rightarrow> responses_refuse writer 500 ''internal_error'' (''failed to convert response: '' @ rv_show rv e)
                | Inr resp \<Rightarrow>
                    Replied_with \<lparr>rs_StatusCode = 200, rs_Header = header_set writer ''Content-Type'' ''application/json'',
                      rs_Body = Inr (case response_json resp of None \<Rightarrow> '''' | Some v \<Rightarrow> json_text v @ [CHR 10])\<rparr>)))"

text \<open>\<open>bufio.Scanner\<close> over lines: the ends of lines are cut off, a last line needs none, and a line of a megabyte ends the scan.\<close>

definition drop_cr :: "string \<Rightarrow> string" where
  "drop_cr l = (if l \<noteq> [] \<and> last l = CHR 0x0D then butlast l else l)"

definition maxScanToken :: nat where
  "maxScanToken = 1024 * 1024"

function scan_lines :: "string \<Rightarrow> string list" where
  "scan_lines s =
     (if s = [] then []
      else let l = takeWhile (\<lambda>c. c \<noteq> CHR 10) s; rest = dropWhile (\<lambda>c. c \<noteq> CHR 10) s
           in if maxScanToken \<le> length l then []
              else drop_cr l # scan_lines (drop 1 rest))"
  by pat_completeness auto
termination
proof (relation "measure length")
  fix s l rest :: string
  assume "s \<noteq> []" "l = takeWhile (\<lambda>c. c \<noteq> CHR 10) s" "rest = dropWhile (\<lambda>c. c \<noteq> CHR 10) s"
  then show "(drop 1 rest, s) \<in> measure length"
    using length_dropWhile_le [of "\<lambda>c. c \<noteq> CHR 10" s] by (cases s) auto
qed simp

declare scan_lines.simps [simp del]

definition handleStreamingResponse :: "responses_env \<Rightarrow> header \<Rightarrow> string \<Rightarrow> responses_reply" where
  "handleStreamingResponse rv writer body =
     (let header = header_set (header_set (header_set writer ''Content-Type'' ''text/event-stream'') ''Cache-Control'' ''no-cache'')
            ''Connection'' ''keep-alive'';
          (err, sc) = stream_lines (rv_conv rv) (scan_lines body) (NewStreamConverter (fst (rv_ids rv)))
      in case err of
           Some (GoPanic p) \<Rightarrow> Responses_panic (GoPanic p)
         | _ \<Rightarrow> Replied_with \<lparr>rs_StatusCode = 200, rs_Header = header, rs_Body = Inr (concat (sc_out sc))\<rparr>)"

definition responses_answer :: "responses_env \<Rightarrow> header \<Rightarrow> bool \<Rightarrow> responses_call \<Rightarrow> responses_reply" where
  "responses_answer rv writer isStreaming call =
     (case rv_do rv call of
        Inl e \<Rightarrow> responses_refuse writer 502 ''api_error'' (''upstream connection failed: '' @ rv_show rv e)
      | Inr (status, body) \<Rightarrow>
          if 400 \<le> status then forwardUpstreamError rv writer status body
          else if isStreaming then handleStreamingResponse rv writer (fst body)
          else handleNonStreamingResponse rv writer body)"

text \<open>The reply, the calls made, and the state after it.\<close>

definition ResponsesHandler_ServeHTTP ::
    "('l, 'r, 'c, 'b) handler_env \<Rightarrow> responses_env \<Rightarrow> header \<Rightarrow> string \<Rightarrow> string \<times> go_error option \<Rightarrow> ('l, 'b) handler_state \<Rightarrow>
     responses_reply \<times> responses_call list \<times> ('l, 'b) handler_state" where
  "ResponsesHandler_ServeHTTP he rv writer httpMethod body w =
     (case responses_decode rv writer httpMethod body of
        Inl reply \<Rightarrow> (reply, [], w)
      | Inr chat \<Rightarrow>
          (case responses_prepare he rv writer chat w of
             (Inl reply, w) \<Rightarrow> (reply, [], w)
           | (Inr (call, writer), w) \<Rightarrow> (responses_answer rv writer (cq_Stream chat) call, [call], w)))"

end
