(* ===== verification/Responses_Handler_Facts.thy ===== *)
theory Responses_Handler_Facts
  imports Responses_Handler OpenAI_Facts
begin

text \<open>
  What a request to the responses handler sends, what becomes of the answer, and that nothing is learnt from it.
\<close>

section \<open>What is sent\<close>

lemma responses_decode_sound:
  assumes "responses_decode rv writer m body = Inr chat"
  shows "\<exists>d req. m = ''POST'' \<and> snd body = None \<and> rv_dec rv (fst body) = Some d \<and> dec_request (rv_float rv) d = Inr req \<and>
    rq_Model req \<noteq> '''' \<and> rq_Input req \<noteq> [] \<and> ConvertRequest (Some req) = Inr chat"
  using assms
  by (auto simp: responses_decode_def responses_refuse_def split: if_splits option.splits sum.splits go_error.splits)

definition key_of_provider ::
    "('l, 'r, 'c, 'b) handler_env \<Rightarrow> ('l, 'b) handler_state \<Rightarrow> string \<Rightarrow> string \<Rightarrow> string \<Rightarrow> bool" where
  "key_of_provider he w name keyID key \<longleftrightarrow>
     (case Option.bind (he_poolmap he) (\<lambda>m. m name) of
        Some a \<Rightarrow> \<exists>envs. fst (GetKey (he_RL he) envs (hw_pools w a)) = Inr (keyID, key)
      | None \<Rightarrow> Option.bind (he_keymap he) (\<lambda>m. m name) = Some key \<and> keyID = ''default'')"

lemma responses_select_pools: "responses_select he rv writer w = (r, w') \<Longrightarrow> hw_pools w' = hw_pools w"
  by (auto simp: responses_select_def Let_def split: if_splits prod.splits sum.splits option.splits)

lemma responses_selectKey_sound:
  assumes "responses_selectKey he rv writer prov w = (Inr (keyID, key), w')"
  shows "key_of_provider he w (prov_Name prov) keyID key"
proof (cases "Option.bind (he_poolmap he) (\<lambda>m. m (prov_Name prov))")
  case None
  then show ?thesis using assms by (auto simp: responses_selectKey_def key_of_provider_def split: option.splits)
next
  case (Some a)
  obtain r p where g: "GetKey (he_RL he) (he_keys he (hw_tick w)) (hw_pools w a) = (r, p)" by fastforce
  then have "r = Inr (keyID, key)"
    using assms Some by (auto simp: responses_selectKey_def split: sum.splits key_err.splits)
  then show ?thesis using g Some by (auto simp: key_of_provider_def intro!: exI [of _ "he_keys he (hw_tick w)"])
qed

text \<open>The request as it is sent to a provider: the converted request with the provider's name for the model.\<close>

definition sent_request :: "responses_env \<Rightarrow> string \<Rightarrow> chat_request \<Rightarrow> string" where
  "sent_request rv name chat =
     json_text (chat_request_json (rv_fl rv) (chat\<lparr>cq_Model := RewriteModel (rv_mapping rv name) (cq_Model chat)\<rparr>))"

lemma RewriteModel_Nil [simp]: "RewriteModel [] m = m"
  by (simp add: RewriteModel_def)

lemma responses_prepare_sound:
  assumes "responses_prepare he rv writer chat w = (Inr (call, writer'), w')"
  shows "\<exists>(prov :: provider) keyID. rcl_URL call = trim_slashes (he_BaseURL he (prov_Name prov)) @ ''/chat/completions'' \<and>
    key_of_provider he w (prov_Name prov) keyID (rcl_Key call) \<and> rcl_Body call = sent_request rv (prov_Name prov) chat \<and>
    writer' = header_set (header_set writer ''X-Relay-Provider'' (prov_Name prov)) ''X-Relay-Key-ID'' keyID"
proof -
  obtain r w1 where s: "responses_select he rv writer w = (r, w1)" by fastforce
  then obtain prov where r: "r = Inr prov" using assms by (cases r) (simp_all add: responses_prepare_def)
  obtain k w2 where k: "responses_selectKey he rv writer prov w1 = (k, w2)" by fastforce
  then obtain keyID key where kk: "k = Inr (keyID, key)" using assms s r by (cases k) (auto simp: responses_prepare_def)
  have "key_of_provider he w (prov_Name prov) keyID key"
    using responses_selectKey_sound [OF k [unfolded kk]] responses_select_pools [OF s] by (simp add: key_of_provider_def cong: option.case_cong)
  moreover have "rcl_URL call = trim_slashes (he_BaseURL he (prov_Name prov)) @ ''/chat/completions'' \<and> rcl_Key call = key \<and>
      rcl_Body call = sent_request rv (prov_Name prov) chat \<and>
      writer' = header_set (header_set writer ''X-Relay-Provider'' (prov_Name prov)) ''X-Relay-Key-ID'' keyID"
    using assms s r k kk by (auto simp: responses_prepare_def Let_def sent_request_def split: option.splits if_splits)
  ultimately show ?thesis by (intro exI [of _ prov] exI [of _ keyID]) simp
qed


section \<open>What comes back\<close>

text \<open>
  The handler learns nothing from what the provider answers: after the request, the key pools, the router, the health tracker and
  everything else it keeps are the same whether the provider answered, refused the key, was at its limit or could not be reached. A key that was
  refused or is at its limit is offered again to the next request.
\<close>

lemma responses_forgets:
  "snd (snd (ResponsesHandler_ServeHTTP he (rv\<lparr>rv_do := do1\<rparr>) writer m body w)) =
   snd (snd (ResponsesHandler_ServeHTTP he (rv\<lparr>rv_do := do2\<rparr>) writer m body w))"
proof -
  have d: "responses_decode (rv\<lparr>rv_do := f\<rparr>) = responses_decode rv" for f
    by (intro ext) (simp add: responses_decode_def cong: option.case_cong sum.case_cong go_error.case_cong if_cong)
  have s: "responses_select he (rv\<lparr>rv_do := f\<rparr>) = responses_select he rv" for f
    by (intro ext) (simp add: responses_select_def cong: option.case_cong sum.case_cong if_cong)
  have k: "responses_selectKey he (rv\<lparr>rv_do := f\<rparr>) = responses_selectKey he rv" for f
    by (intro ext) (simp add: responses_selectKey_def cong: option.case_cong sum.case_cong key_err.case_cong)
  have p: "responses_prepare he (rv\<lparr>rv_do := f\<rparr>) = responses_prepare he rv" for f
    by (intro ext) (simp add: responses_prepare_def s k cong: option.case_cong sum.case_cong if_cong)
  show ?thesis
    by (simp add: ResponsesHandler_ServeHTTP_def d p split: sum.split prod.split)
qed

text \<open>A status of 400 or more reaches the client unchanged, with the message of the provider if it has the usual form.\<close>

lemma upstream_status_kept:
  assumes "rv_do rv call = Inr (status, txt, None)" and "400 \<le> status"
  shows "\<exists>msg. responses_answer rv writer streaming call = Replied_with (WriteError writer status ''upstream_error'' msg)"
  using assms
  by (auto simp: responses_answer_def forwardUpstreamError_def responses_refuse_def split: option.split json.split)

text \<open>A completion is answered with its text and its calls, in their order.\<close>

lemma completion_answered:
  assumes "rv_do rv call = Inr (status, txt, None)" and "status < 400"
    and "rv_dec rv txt = Some d" and "dec_chat_response d = Some chat" and "cp_Choices chat = choice # others"
  shows "\<exists>resp v. responses_answer rv writer False call =
      Replied_with \<lparr>rs_StatusCode = 200, rs_Header = header_set writer ''Content-Type'' ''application/json'', rs_Body = Inr v\<rparr> \<and>
    ConvertResponse (fst (rv_ids rv)) (snd (rv_ids rv)) (rv_now rv) (Some chat) = Inr resp \<and>
    rr_Output resp = buildOutputItems (snd (rv_ids rv)) choice \<and> rr_Status resp = mapFinishReason (cc_FinishReason choice)"
  using assms by (simp add: responses_answer_def handleNonStreamingResponse_def ConvertResponse_def)

section \<open>Lines\<close>

lemma scan_lines_Nil [simp]: "scan_lines '''' = []"
  by (subst scan_lines.simps) simp

lemma scan_lines_line:
  assumes "CHR 10 \<notin> set l" and "length l < maxScanToken"
  shows "scan_lines (l @ CHR 10 # rest) = drop_cr l # scan_lines rest"
proof -
  have "takeWhile (\<lambda>c. c \<noteq> CHR 10) (l @ CHR 10 # rest) = l" "dropWhile (\<lambda>c. c \<noteq> CHR 10) (l @ CHR 10 # rest) = CHR 10 # rest"
    using assms(1) by (auto simp: takeWhile_tail dropWhile_append3)
  then show ?thesis using assms(2) by (subst scan_lines.simps) (simp add: Let_def)
qed

text \<open>A line of a megabyte ends the stream, and the client is not told.\<close>

lemma scan_lines_long:
  assumes "CHR 10 \<notin> set l" and "maxScanToken \<le> length l"
  shows "scan_lines (l @ CHR 10 # rest) = []"
proof -
  have "takeWhile (\<lambda>c. c \<noteq> CHR 10) (l @ CHR 10 # rest) = l" using assms(1) by (auto simp: takeWhile_tail)
  then show ?thesis using assms(2) by (subst scan_lines.simps) (simp add: Let_def)
qed

end
