(* ===== verification/Middleware_Chain.thy ===== *)
theory Middleware_Chain
  imports Client_Auth_Facts Concurrency_Limit Peek_Writer Request_Prep
begin

text \<open>
  The middleware around the handlers and its order (\<open>internal/proxy/middleware.go\<close>, \<open>routes.go\<close>, \<open>openai_routes.go\<close>): request
  identifiers, logging with its copy of the body and its redaction (\<open>debug.go\<close>), the limit on the body, and the chain of the
  messages endpoint. What is logged is a value here; how it is formatted is left out.
\<close>

section \<open>Request identifiers\<close>

definition AddRequestID :: "string \<Rightarrow> string \<Rightarrow> string" where
  "AddRequestID uuid requestID = (if requestID = '''' then uuid else requestID)"

text \<open>The identifier in the context, and the headers of the answer with it.\<close>

definition RequestIDMiddleware :: "string \<Rightarrow> header \<Rightarrow> header \<Rightarrow> string \<times> header" where
  "RequestIDMiddleware uuid req writer =
     (let requestID = header_get req ''X-Request-ID'';
          inContext = AddRequestID uuid requestID;
          requestID = (if requestID = '''' then inContext else requestID)
      in (inContext, header_set writer ''X-Request-ID'' requestID))"

definition short_id :: "string \<Rightarrow> string" where
  "short_id requestID = (if 8 < length requestID then take 8 requestID else requestID)"

section \<open>The limit on the body\<close>

text \<open>\<open>http.MaxBytesReader\<close>: at most so many bytes, and an error when there are more.\<close>

definition max_bytes_reader :: "int \<Rightarrow> string \<times> go_error option \<Rightarrow> string \<times> go_error option" where
  "max_bytes_reader limit body =
     (if limit < int (length (fst body)) then (take (nat limit) (fst body), Some (Sentinel ''http: request body too large'')) else body)"

definition MaxBodyBytesMiddleware :: "int \<Rightarrow> req_body \<Rightarrow> req_body" where
  "MaxBodyBytesMiddleware limit body = (if 0 < limit then map_option (max_bytes_reader limit) body else body)"

section \<open>Redaction\<close>

definition is_ws :: "char \<Rightarrow> bool" where
  "is_ws c \<longleftrightarrow> c \<in> {CHR 0x09, CHR 10, CHR 0x0C, CHR 0x0D, CHR '' ''}"

definition sensitivePatterns :: "string list" where
  "sensitivePatterns = [''api_key'', ''x-api-key'', ''bearer'', ''password'', ''token'', ''secret'', ''authorization'']"

text \<open>
  A match of the pattern of a name at the start of a text: the quoted name, a colon between blanks, and a quoted value of at least
  one character, up to the next quote. The result is what follows.
\<close>

definition match_sensitive :: "string \<Rightarrow> string \<Rightarrow> string option" where
  "match_sensitive name s =
     (let q = CHR 0x22; key = q # name @ [q]
      in if take (length key) s \<noteq> key then None
         else case dropWhile is_ws (drop (length key) s) of
                c # s1 \<Rightarrow>
                  if c \<noteq> CHR '':'' then None
                  else (case dropWhile is_ws s1 of
                          c2 # s2 \<Rightarrow>
                            if c2 \<noteq> q then None
                            else (case dropWhile (\<lambda>x. x \<noteq> q) s2 of
                                    c3 # rest \<Rightarrow> if takeWhile (\<lambda>x. x \<noteq> q) s2 = '''' then None else Some rest
                                  | [] \<Rightarrow> None)
                        | [] \<Rightarrow> None)
              | [] \<Rightarrow> None)"

definition redacted :: string where
  "redacted = CHR 0x22 # ''***'' @ [CHR 0x22, CHR '':'', CHR 0x22] @ ''REDACTED'' @ [CHR 0x22]"

text \<open>\<open>ReplaceAllString\<close>, with as much fuel as the text has bytes.\<close>

fun replace_sensitive :: "nat \<Rightarrow> string \<Rightarrow> string \<Rightarrow> string" where
  "replace_sensitive 0 name s = s"
| "replace_sensitive (Suc n) name s =
     (case s of
        [] \<Rightarrow> []
      | c # cs \<Rightarrow> (case match_sensitive name s of
                    Some rest \<Rightarrow> redacted @ replace_sensitive n name rest
                  | None \<Rightarrow> c # replace_sensitive n name cs))"

definition redactSensitiveFields :: "string \<Rightarrow> string" where
  "redactSensitiveFields body = fold (\<lambda>name s. replace_sensitive (length s) name s) sensitivePatterns body"

section \<open>Logging\<close>

text \<open>A body that is read by the logger: its bytes, and what is left of it for the handlers.\<close>

definition readAndRestoreBody :: "req_body \<Rightarrow> string option \<times> req_body" where
  "readAndRestoreBody body =
     (case body of
        None \<Rightarrow> (None, None)
      | Some (content, Some e) \<Rightarrow> (None, Some ('''', Some e))
      | Some (content, None) \<Rightarrow> (Some content, Some (content, None)))"

definition truncateBody :: "string \<Rightarrow> int \<Rightarrow> string" where
  "truncateBody body maxSize = (if maxSize < int (length body) then take (nat maxSize) body else body)"

definition extractModelInfo :: "(string \<Rightarrow> json option) \<Rightarrow> (string \<Rightarrow> int) \<Rightarrow> string \<Rightarrow> string \<times> int" where
  "extractModelInfo dec num body =
     (if body = '''' then ('''', 0)
      else case any_map dec body of
             None \<Rightarrow> ('''', 0)
           | Some m \<Rightarrow> (case map_of m ''model'' of Some (JStr s) \<Rightarrow> s | _ \<Rightarrow> '''',
                        case map_of m ''max_tokens'' of Some (JNum n) \<Rightarrow> num n | _ \<Rightarrow> 0))"

record request_details =
  rd_ContentType :: string
  rd_BodyLength :: nat
  rd_Model :: string
  rd_MaxTokens :: int
  rd_BodyPreview :: string

definition LogRequestDetails :: "(string \<Rightarrow> json option) \<Rightarrow> (string \<Rightarrow> int) \<Rightarrow> bool \<Rightarrow> debug_options \<Rightarrow> header \<Rightarrow> req_body \<Rightarrow>
    request_details option \<times> req_body" where
  "LogRequestDetails dec num debugLevel opts req body =
     (if \<not> do_LogRequestBody opts \<or> \<not> debugLevel then (None, body)
      else case readAndRestoreBody body of
             (None, body) \<Rightarrow> (None, body)
           | (Some bytes, body) \<Rightarrow>
               (let bytes = truncateBody bytes (GetMaxBodyLogSize opts);
                    (model, maxTokens) = extractModelInfo dec num bytes
                in (Some \<lparr>rd_ContentType = header_get req ''Content-Type'', rd_BodyLength = length bytes, rd_Model = model,
                      rd_MaxTokens = maxTokens, rd_BodyPreview = redactSensitiveFields bytes\<rparr>, body)))"

text \<open>The preview: at most 500 bytes are read, put back in front of the rest, and 200 are logged.\<close>

definition getBodyPreview :: "req_body \<Rightarrow> string \<times> req_body" where
  "getBodyPreview body =
     (case body of
        None \<Rightarrow> ('''', None)
      | Some (content, err) \<Rightarrow>
          if err \<noteq> None \<and> length content < 500 then ('''', Some ('''', err))
          else if content = '''' then ('''', Some (content, err))
          else let preview = take 500 content;
                   preview = (if 200 < length preview then take 200 preview @ ''...'' else preview)
               in (redactSensitiveFields preview, Some (content, err)))"

text \<open>The level at which the end of a request is logged, and its symbol, in UTF-8.\<close>

definition completion_level :: "int \<Rightarrow> string" where
  "completion_level statusCode = (if 500 \<le> statusCode then ''error'' else if 400 \<le> statusCode then ''warn'' else ''info'')"

definition statusSymbol :: "int \<Rightarrow> string" where
  "statusSymbol statusCode =
     (if 500 \<le> statusCode then [CHR 0xE2, CHR 0x9C, CHR 0x97]
      else if 400 \<le> statusCode then [CHR 0xE2, CHR 0x9A, CHR 0xA0] else [CHR 0xE2, CHR 0x9C, CHR 0x93])"

text \<open>The writer that logging puts around the client's: what it notes, and that it is passed on.\<close>

record logged_writer =
  lw_real :: real_writer
  lw_statusCode :: int
  lw_sseEvents :: nat
  lw_isStreaming :: bool
  lw_providerName :: string
  lw_bodyBuf :: string
  lw_captureBody :: bool

definition logging_writer :: "real_writer \<Rightarrow> logged_writer" where
  "logging_writer w = \<lparr>lw_real = w, lw_statusCode = 200, lw_sseEvents = 0, lw_isStreaming = False, lw_providerName = '''', lw_bodyBuf = '''',
     lw_captureBody = False\<rparr>"

definition logged_WriteHeader :: "int \<Rightarrow> logged_writer \<Rightarrow> logged_writer" where
  "logged_WriteHeader code lw =
     (let lw = lw\<lparr>lw_statusCode := code\<rparr>;
          lw = (if header_get (rw_header (lw_real lw)) ''Content-Type'' = ''text/event-stream'' then lw\<lparr>lw_isStreaming := True\<rparr> else lw);
          lw = (if 400 \<le> code \<and> \<not> lw_isStreaming lw then lw\<lparr>lw_captureBody := True\<rparr> else lw)
      in lw\<lparr>lw_real := real_WriteHeader code (lw_real lw)\<rparr>)"

fun count_events :: "string \<Rightarrow> nat" where
  "count_events [] = 0"
| "count_events (c # cs) = (if take 6 (c # cs) = ''event:'' then 1 else 0) + count_events cs"

definition logged_Write :: "string \<Rightarrow> logged_writer \<Rightarrow> logged_writer" where
  "logged_Write data lw =
     (let lw = (if lw_captureBody lw then lw\<lparr>lw_bodyBuf := lw_bodyBuf lw @ data\<rparr> else lw);
          lw = (if lw_isStreaming lw then lw\<lparr>lw_sseEvents := lw_sseEvents lw + count_events data\<rparr> else lw)
      in lw\<lparr>lw_real := real_Write data (lw_real lw)\<rparr>)"

definition SetProviderName :: "string \<Rightarrow> logged_writer \<Rightarrow> logged_writer" where
  "SetProviderName name lw = lw\<lparr>lw_providerName := name\<rparr>"

text \<open>The level and the body of the completion message.\<close>

definition logRequestCompletion :: "logged_writer \<Rightarrow> string \<times> string option \<times> nat option \<times> string option" where
  "logRequestCompletion lw =
     (completion_level (lw_statusCode lw),
      if 400 \<le> lw_statusCode lw \<and> lw_bodyBuf lw \<noteq> '''' then Some (lw_bodyBuf lw) else None,
      if lw_isStreaming lw \<and> 0 < lw_sseEvents lw then Some (lw_sseEvents lw) else None,
      if lw_providerName lw \<noteq> '''' then Some (lw_providerName lw) else None)"

section \<open>Flushing\<close>

text \<open>
  What stands around the client's writer. A method is found on the outermost one only: the writer of the logging middleware embeds
  an interface without \<open>Flush\<close> and has none of its own, nor \<open>Unwrap\<close>.
\<close>

datatype writer_kind = ServerWriter | LoggingWriter writer_kind | PeekWriter writer_kind

fun is_Flusher :: "writer_kind \<Rightarrow> bool" where
  "is_Flusher ServerWriter = True"
| "is_Flusher (LoggingWriter k) = False"
| "is_Flusher (PeekWriter k) = True"

fun Flush_reaches :: "writer_kind \<Rightarrow> bool" where
  "Flush_reaches ServerWriter = True"
| "Flush_reaches (LoggingWriter k) = False"
| "Flush_reaches (PeekWriter k) = (is_Flusher k \<and> Flush_reaches k)"

text \<open>
  The server's writer keeps up to \<open>cap\<close> bytes back until it is flushed or the handler returns: what the client has, and
  what is held.
\<close>

definition server_write :: "nat \<Rightarrow> string \<Rightarrow> string \<times> string \<Rightarrow> string \<times> string" where
  "server_write cap data s = (if length (snd s) + length data \<le> cap then (fst s, snd s @ data) else (fst s @ snd s @ data, ''''))"

definition server_flush :: "string \<times> string \<Rightarrow> string \<times> string" where
  "server_flush s = (fst s @ snd s, '''')"

definition send_event :: "nat \<Rightarrow> writer_kind \<Rightarrow> string \<Rightarrow> string \<times> string \<Rightarrow> string \<times> string" where
  "send_event cap k event s =
     (let s = server_write cap event s in if is_Flusher k \<and> Flush_reaches k then server_flush s else s)"

section \<open>The chain of the messages endpoint\<close>

record ('h, 'w) chain_env =
  ch_uuid :: string
  ch_reduce :: "'h lo_reduce"
  ch_sha :: "string \<Rightarrow> 'h"
  ch_config :: "config option"
  ch_debugLevel :: bool
  ch_dec :: "string \<Rightarrow> json option"
  ch_num :: "string \<Rightarrow> int"
  ch_handler :: "header \<Rightarrow> header \<Rightarrow> req_body \<Rightarrow> 'w \<Rightarrow> response \<times> 'w"

record ('h, 'w) chain_state =
  cs_limiter :: "limiter option"
  cs_auth :: "'h auth_cache option"
  cs_handled :: 'w

definition no_debug :: debug_options where
  "no_debug = \<lparr>do_LogRequestBody = False, do_LogResponseHeaders = False, do_LogTLSMetrics = False, do_MaxBodyLogSize = 0\<rparr>"

text \<open>From the authentication inwards.\<close>

definition authenticated_handler :: "('h, 'w) chain_env \<Rightarrow> header \<Rightarrow> header \<Rightarrow> req_body \<Rightarrow> ('h, 'w) chain_state \<Rightarrow>
    response \<times> ('h, 'w) chain_state" where
  "authenticated_handler ce writer req body s =
     (case LiveAuthMiddleware (ch_reduce ce) (ch_sha ce) (ch_config ce) writer req (cs_auth s) of
        (Some refusal, a) \<Rightarrow> (refusal, s\<lparr>cs_auth := a\<rparr>)
      | (None, a) \<Rightarrow> (case ch_handler ce writer req body (cs_handled s) of (r, w) \<Rightarrow> (r, s\<lparr>cs_auth := a, cs_handled := w\<rparr>)))"

definition body_limit :: "config option \<Rightarrow> int" where
  "body_limit cfg = (case cfg of None \<Rightarrow> 0 | Some c \<Rightarrow> sv_MaxBodyBytes (cf_Server c))"

text \<open>From the limit on concurrent requests inwards.\<close>

definition limited_handler :: "('h, 'w) chain_env \<Rightarrow> header \<Rightarrow> header \<Rightarrow> req_body \<Rightarrow> ('h, 'w) chain_state \<Rightarrow>
    response \<times> ('h, 'w) chain_state" where
  "limited_handler ce writer req body s =
     (let inner = (\<lambda>s. authenticated_handler ce writer req (MaxBodyBytesMiddleware (body_limit (ch_config ce)) body) s)
      in case cs_limiter s of
           None \<Rightarrow> inner s
         | Some l \<Rightarrow>
             (case ConcurrencyMiddleware writer (\<lambda>l. (inner (s\<lparr>cs_limiter := Some l\<rparr>), l)) l of
                (Inl refusal, l) \<Rightarrow> (refusal, s\<lparr>cs_limiter := Some l\<rparr>)
              | (Inr (r, s), l) \<Rightarrow> (r, s\<lparr>cs_limiter := Some l\<rparr>)))"

definition buildMessagesHandler :: "('h, 'w) chain_env \<Rightarrow> header \<Rightarrow> req_body \<Rightarrow> ('h, 'w) chain_state \<Rightarrow>
    (response \<times> request_details option \<times> string) \<times> ('h, 'w) chain_state" where
  "buildMessagesHandler ce req body s =
     (let (requestID, writer) = RequestIDMiddleware (ch_uuid ce) req (\<lambda>_. []);
          opts = (case ch_config ce of None \<Rightarrow> no_debug | Some c \<Rightarrow> lg_DebugOptions (cf_Logging c));
          (details, body) = LogRequestDetails (ch_dec ce) (ch_num ce) (ch_debugLevel ce) opts req body;
          (preview, body) = (if ch_debugLevel ce \<and> do_LogRequestBody opts then getBodyPreview body else ('''', body));
          (r, s) = limited_handler ce writer req body s
      in ((r, details, preview), s))"

end
