(* ===== verification/Middleware_Facts.thy ===== *)
theory Middleware_Facts
  imports Middleware_Chain
begin

text \<open>
  What the chain of the messages endpoint does with a request, in which order it refuses one, what the logger shows of a body, and why a stream
  does not reach the client event by event.
\<close>

section \<open>Bodies\<close>

lemma LogRequestDetails_keeps_body: "snd (LogRequestDetails dec num lvl opts req (Some (content, None))) = Some (content, None)"
  by (simp add: LogRequestDetails_def readAndRestoreBody_def split_def Let_def)

lemma LogRequestDetails_no_body [simp]: "snd (LogRequestDetails dec num lvl opts req None) = None"
  by (simp add: LogRequestDetails_def readAndRestoreBody_def)

lemma getBodyPreview_keeps_body: "snd (getBodyPreview (Some (content, None))) = Some (content, None)"
  by (simp add: getBodyPreview_def Let_def)

lemma getBodyPreview_no_body [simp]: "snd (getBodyPreview None) = None"
  by (simp add: getBodyPreview_def)

lemma max_bytes_bounded: "0 \<le> limit \<Longrightarrow> int (length (fst (max_bytes_reader limit body))) \<le> limit"
  by (simp add: max_bytes_reader_def)

text \<open>A body above the limit is recognised as such by the handler that reads it.\<close>

lemma oversized_detected:
  assumes "0 < limit" and "limit < int (length content)"
  shows "fst (ExtractModelWithBodyCheck dec (MaxBodyBytesMiddleware limit (Some (content, err)))) = (None, True)"
  using assms by (simp add: MaxBodyBytesMiddleware_def max_bytes_reader_def ExtractModelWithBodyCheck_def)

lemma within_limit_kept:
  "int (length content) \<le> limit \<Longrightarrow> MaxBodyBytesMiddleware limit (Some (content, err)) = Some (content, err)"
  by (simp add: MaxBodyBytesMiddleware_def max_bytes_reader_def)

section \<open>The order of the checks\<close>

lemma release_after_acquire:
  "in_int64 (lm_current l) \<Longrightarrow> limiter_Release (l\<lparr>lm_current := wrap64 (lm_current l + 1)\<rparr>) = l"
  using wrap64_add_left [of "lm_current l + 1" "- 1"] by (simp add: limiter_Release_def add_current_def)

text \<open>The chain as a decision: a place, then the authentication, then the handler with the limited body.\<close>

definition chain_decision :: "('h, 'w) chain_env \<Rightarrow> header \<Rightarrow> req_body \<Rightarrow> ('h, 'w) chain_state \<Rightarrow> response \<times> ('h, 'w) chain_state" where
  "chain_decision ce req body s =
     (let writer = snd (RequestIDMiddleware (ch_uuid ce) req (\<lambda>_. []));
          full = (case cs_limiter s of None \<Rightarrow> False | Some l \<Rightarrow> 0 < lm_limit l \<and> lm_limit l \<le> lm_current l);
          (verdict, a) = LiveAuthMiddleware (ch_reduce ce) (ch_sha ce) (ch_config ce) writer req (cs_auth s)
      in if full then (WriteError writer 503 ''server_busy'' ''server is at maximum capacity, please retry later'', s)
         else case verdict of
                Some refusal \<Rightarrow> (refusal, s\<lparr>cs_auth := a\<rparr>)
              | None \<Rightarrow> (let (r, w) = ch_handler ce writer req (MaxBodyBytesMiddleware (body_limit (ch_config ce)) body) (cs_handled s)
                         in (r, s\<lparr>cs_auth := a, cs_handled := w\<rparr>)))"

lemma limited_handler_decision:
  assumes "case cs_limiter s of None \<Rightarrow> True | Some l \<Rightarrow> in_int64 (lm_current l)"
  shows "limited_handler ce (snd (RequestIDMiddleware (ch_uuid ce) req (\<lambda>_. []))) req body s = chain_decision ce req body s"
proof (cases "cs_limiter s")
  case None
  then show ?thesis
    by (simp add: limited_handler_def chain_decision_def authenticated_handler_def Let_def split_def split: option.split)
next
  case (Some l)
  have rel: "limiter_Release (l\<lparr>lm_current := wrap64 (lm_current l + 1)\<rparr>) = l" using release_after_acquire assms Some by simp
  show ?thesis
    using Some rel
    by (cases s)
      (auto simp: limited_handler_def chain_decision_def authenticated_handler_def ConcurrencyMiddleware_def TryAcquire_def
        add_current_def Let_def split_def split: option.split)
qed

text \<open>
  C11: A request to the messages endpoint with a body that can be read is refused for want of a place before its credentials are looked at, then for its
  credentials, and only then handled, with the body up to the limit. Whatever is logged, the handler sees the same request, and
  the place is given back.
\<close>

lemma messages_chain_decides:
  assumes "body = None \<or> body = Some (content, None)" and "case cs_limiter s of None \<Rightarrow> True | Some l \<Rightarrow> in_int64 (lm_current l)"
  shows "\<exists>details preview. buildMessagesHandler ce req body s =
    ((fst (chain_decision ce req body s), details, preview), snd (chain_decision ce req body s))"
proof -
  have kept: "snd (LogRequestDetails dec num lvl opts req body) = body" "snd (getBodyPreview body) = body" for dec num lvl opts
    using assms(1) LogRequestDetails_keeps_body getBodyPreview_keeps_body by fastforce+
  show ?thesis
    using limited_handler_decision [OF assms(2), of ce req body]
    by (auto simp: buildMessagesHandler_def Let_def split_def kept)
qed

text \<open>Every answer that the chain itself gives carries the identifier of the request.\<close>

lemma chain_answers_identified:
  "header_get (rs_Header (WriteError (snd (RequestIDMiddleware uuid req (\<lambda>_. []))) status kind msg)) ''X-Request-ID'' =
     AddRequestID uuid (header_get req ''X-Request-ID'')"
proof -
  have "canonical_key ''X-Request-ID'' \<noteq> canonical_key ''Content-Type''" by code_simp
  then show ?thesis
    by (simp add: WriteError_def writeJSON_def RequestIDMiddleware_def AddRequestID_def Let_def header_get_def header_simps)
qed

section \<open>Streams\<close>

text \<open>The writers that the messages handler and the others are given.\<close>

definition chain_writer :: "bool \<Rightarrow> writer_kind" where
  "chain_writer retrying = (if retrying then PeekWriter (LoggingWriter ServerWriter) else LoggingWriter ServerWriter)"

lemma unflushed_events:
  "length (snd s) + length (concat events) \<le> cap \<Longrightarrow>
     fold (send_event cap (chain_writer retrying)) events s = (fst s, snd s @ concat events)"
proof (induction events arbitrary: s)
  case (Cons e es)
  have "send_event cap (chain_writer retrying) e s = (fst s, snd s @ e)"
    using Cons.prems by (simp add: send_event_def chain_writer_def server_write_def)
  then show ?case using Cons by simp
qed simp

lemma flushed_events: "fold (send_event cap ServerWriter) events (out, '''') = (out @ concat events, '''')"
proof (induction events arbitrary: out)
  case (Cons e es)
  have "send_event cap ServerWriter e (out, '''') = (out @ e, '''')" by (simp add: send_event_def server_write_def server_flush_def)
  then show ?case using Cons by simp
qed simp

text \<open>
  No flush gets through the logging middleware, which is around every handler: the client has received nothing of a stream until the events
  fill the buffer of the server or the handler returns, where without the middleware it has every event at once.
\<close>

lemma stream_held_back:
  assumes "length (concat events) \<le> cap"
  shows "fst (fold (send_event cap (chain_writer retrying)) events ('''', '''')) = '''' \<and>
    fst (fold (send_event cap ServerWriter) events ('''', '''')) = concat events"
  using unflushed_events [of "('''', '''')" events cap retrying] assms by (simp add: flushed_events)

text \<open>What is noted of the answer never changes it.\<close>

lemma logging_transparent:
  "lw_real (logged_WriteHeader code lw) = real_WriteHeader code (lw_real lw)"
  "lw_real (logged_Write data lw) = real_Write data (lw_real lw)"
  by (simp_all add: logged_WriteHeader_def logged_Write_def Let_def)

text \<open>The body of an error answer is captured whole.\<close>

lemma error_body_captured:
  assumes "400 \<le> code" and "header_get (rw_header w) ''Content-Type'' \<noteq> ''text/event-stream''"
  shows "lw_bodyBuf (fold logged_Write chunks (logged_WriteHeader code (logging_writer w))) = concat chunks"
proof -
  have "lw_captureBody lw \<Longrightarrow> lw_bodyBuf (fold logged_Write chunks lw) = lw_bodyBuf lw @ concat chunks" for lw
  proof (induction chunks arbitrary: lw)
    case (Cons c cs)
    have "lw_captureBody (logged_Write c lw)" "lw_bodyBuf (logged_Write c lw) = lw_bodyBuf lw @ c"
      using Cons.prems by (simp_all add: logged_Write_def Let_def)
    then show ?case using Cons.IH [of "logged_Write c lw"] by simp
  qed simp
  then show ?thesis using assms by (simp add: logged_WriteHeader_def logging_writer_def Let_def)
qed

text \<open>Events are counted chunk by chunk: one that is cut in two is not counted.\<close>

lemma split_event_uncounted:
  "count_events (''event: ping'') = 1" "count_events ''eve'' + count_events ''nt: ping'' = 0"
  by (code_simp, code_simp)

section \<open>Redaction\<close>

lemma count_dropWhile: "count_list (dropWhile P s) x \<le> count_list s x"
  by (induction s) auto

lemma count_dropWhile_same: "\<not> P x \<Longrightarrow> count_list (dropWhile P s) x = count_list s x"
  by (induction s) auto

lemma dropWhile_quote: "dropWhile (\<lambda>y. y \<noteq> x) s = c # r \<Longrightarrow> c = x \<and> count_list s x = Suc (count_list r x)"
  by (induction s) (auto split: if_splits)

lemma case_head:
  "(case xs of c # s \<Rightarrow> if c \<noteq> x then None else f s | [] \<Rightarrow> None) = Some r \<Longrightarrow> \<exists>s. xs = x # s \<and> f s = Some r"
  by (cases xs) (auto split: if_splits)

lemma match_needs_quotes:
  assumes "match_sensitive name s = Some rest" and "name \<in> set sensitivePatterns"
  shows "4 \<le> count_list s (CHR 0x22)"
proof -
  let ?q = "CHR 0x22" and ?key = "CHR 0x22 # name @ [CHR 0x22]"
  have key: "count_list ?key ?q = 2" using assms(2) by (auto simp: sensitivePatterns_def)
  have s: "s = ?key @ drop (length ?key) s"
  proof -
    have "take (length ?key) s = ?key" using assms(1) by (simp add: match_sensitive_def Let_def split: if_splits)
    then show ?thesis using append_take_drop_id [of "length ?key" s] by metis
  qed
  define body where "body = (\<lambda>s2. case dropWhile (\<lambda>x. x \<noteq> ?q) s2 of
      c3 # rest \<Rightarrow> if takeWhile (\<lambda>x. x \<noteq> ?q) s2 = '''' then None else Some rest | [] \<Rightarrow> None)"
  define inner where "inner = (\<lambda>s1. case dropWhile is_ws s1 of c2 # s2 \<Rightarrow> if c2 \<noteq> ?q then None else body s2 | [] \<Rightarrow> None)"
  have outer: "(case dropWhile is_ws (drop (length ?key) s) of c # s1 \<Rightarrow> if c \<noteq> CHR '':'' then None else inner s1 | [] \<Rightarrow> None) = Some rest"
    using assms(1) unfolding match_sensitive_def Let_def inner_def body_def by (simp split: if_splits)
  obtain s1 where s1: "dropWhile is_ws (drop (length ?key) s) = CHR '':'' # s1" and m1: "inner s1 = Some rest"
    using case_head [OF outer] by blast
  obtain s2 where s2: "dropWhile is_ws s1 = ?q # s2" and m2: "body s2 = Some rest"
    using case_head [OF m1 [unfolded inner_def]] by blast
  obtain c r where r: "dropWhile (\<lambda>x. x \<noteq> ?q) s2 = c # r"
    using m2 unfolding body_def by (cases "dropWhile (\<lambda>x. x \<noteq> ?q) s2") simp_all
  have "1 \<le> count_list s2 ?q" by (simp add: conjunct2 [OF dropWhile_quote [OF r]])
  moreover have ws: "\<not> is_ws ?q" by (simp add: is_ws_def)
  moreover have "Suc (count_list s2 ?q) = count_list s1 ?q"
    unfolding count_dropWhile_same [where P = is_ws and s = s1, OF ws, symmetric] s2 by simp
  moreover have "count_list s1 ?q = count_list (drop (length ?key) s) ?q"
    unfolding count_dropWhile_same [where P = is_ws and s = "drop (length ?key) s", OF ws, symmetric] s1 by simp
  ultimately have "2 \<le> count_list (drop (length ?key) s) ?q" by linarith
  then show ?thesis using key arg_cong [OF s, of "\<lambda>t. count_list t ?q"] by (simp only: count_list_append)
qed

lemma few_quotes_kept:
  "name \<in> set sensitivePatterns \<Longrightarrow> count_list s (CHR 0x22) < 4 \<Longrightarrow> replace_sensitive n name s = s"
proof (induction n arbitrary: s)
  case (Suc n)
  show ?case
  proof (cases s)
    case (Cons c cs)
    have "match_sensitive name (c # cs) = None"
    proof (cases "match_sensitive name (c # cs)")
      case (Some r)
      then show ?thesis using match_needs_quotes [OF Some Suc.prems(1)] Suc.prems(2) Cons by simp
    qed
    moreover have "count_list cs (CHR 0x22) < 4" using Suc.prems(2) Cons by (simp split: if_splits)
    ultimately show ?thesis using Suc.IH [OF Suc.prems(1)] Cons by simp
  qed simp
qed simp

lemma redact_few_quotes:
  assumes "count_list s (CHR 0x22) < 4"
  shows "redactSensitiveFields s = s"
proof -
  have "set ns \<subseteq> set sensitivePatterns \<Longrightarrow> fold (\<lambda>name s. replace_sensitive (length s) name s) ns s = s" for ns
    using assms by (induction ns) (simp_all add: few_quotes_kept)
  then show ?thesis by (simp add: redactSensitiveFields_def)
qed

text \<open>What redaction is for: a member of the kind is replaced, name and value.\<close>

lemma redaction_example:
  "redactSensitiveFields (''{'' @ CHR 0x22 # ''api_key'' @ CHR 0x22 # '': '' @ CHR 0x22 # ''sk-1'' @ CHR 0x22 # ''}'') = ''{'' @ redacted @ ''}''"
  by code_simp

text \<open>
  The body is cut to the size for the log before it is redacted. When the cut falls into the value of a sensitive member, its closing
  quote is gone and the pattern does not match: what is left of the secret is logged as it is.
\<close>

lemma truncated_secret_logged:
  assumes "do_LogRequestBody opts" and "CHR 0x22 \<notin> set secret" and "n < length secret"
    and "GetMaxBodyLogSize opts = 12 + int n"
  defines "start \<equiv> ''{'' @ CHR 0x22 # ''api_key'' @ [CHR 0x22, CHR '':'', CHR 0x22]"
  shows "\<exists>d. fst (LogRequestDetails dec num True opts req (Some (start @ secret @ rest, None))) = Some d \<and>
    rd_BodyPreview d = start @ take n secret"
proof -
  have len: "length start = 12" by (simp add: start_def)
  have cut: "truncateBody (start @ secret @ rest) (GetMaxBodyLogSize opts) = start @ take n secret"
    using assms(3,4) len by (simp add: truncateBody_def nat_add_distrib)
  have "count_list (take n secret) (CHR 0x22) = 0" using assms(2) by (meson count_list_0_iff in_set_takeD)
  then have "count_list (start @ take n secret) (CHR 0x22) < 4" by (simp add: start_def)
  then have "redactSensitiveFields (start @ take n secret) = start @ take n secret" by (rule redact_few_quotes)
  then show ?thesis
    using assms(1) by (simp add: LogRequestDetails_def readAndRestoreBody_def Let_def split_def cut)
qed

section \<open>Witnesses\<close>

definition demo_chain :: "(string, nat) chain_env" where
  "demo_chain = \<lparr>ch_uuid = ''u'', ch_reduce = foldl, ch_sha = (\<lambda>s. s), ch_config = None, ch_debugLevel = True, ch_dec = (\<lambda>_. None),
     ch_num = (\<lambda>_. 0), ch_handler = (\<lambda>writer req body n. (writeJSON writer 200 JNull, n + 1))\<rparr>"

definition demo_chain_state :: "(string, nat) chain_state" where
  "demo_chain_state = \<lparr>cs_limiter = Some \<lparr>lm_limit = 2, lm_current = 1\<rparr>, cs_auth = None, cs_handled = 0\<rparr>"

lemma messages_chain_decides_witness:
  "snd (buildMessagesHandler demo_chain (\<lambda>_. []) (Some (''{}'', None)) demo_chain_state) = demo_chain_state\<lparr>cs_handled := 1\<rparr>"
proof -
  have "snd (chain_decision demo_chain (\<lambda>_. []) (Some (''{}'', None)) demo_chain_state) = demo_chain_state\<lparr>cs_handled := 1\<rparr>"
    by (simp add: chain_decision_def demo_chain_def demo_chain_state_def LiveAuthMiddleware_def Let_def split_def)
  then show ?thesis
    using messages_chain_decides [of "Some (''{}'', None)" "''{}''" demo_chain_state demo_chain "\<lambda>_. []"]
    by (auto simp: demo_chain_state_def in_int64_def)
qed

lemma stream_held_back_witness:
  "fst (fold (send_event 2048 (chain_writer False)) [''data: 1'', ''data: 2''] ('''', '''')) = ''''"
  using stream_held_back [of "[''data: 1'', ''data: 2'']" 2048 False] by simp

lemma truncated_secret_logged_witness:
  "\<exists>d. fst (LogRequestDetails (\<lambda>_. None) (\<lambda>_. 0) True \<lparr>do_LogRequestBody = True, do_LogResponseHeaders = False, do_LogTLSMetrics = False,
      do_MaxBodyLogSize = 14\<rparr> (\<lambda>_. []) (Some ((''{'' @ CHR 0x22 # ''api_key'' @ [CHR 0x22, CHR '':'', CHR 0x22]) @ ''sk-1'' @ [CHR 0x22, CHR ''}''], None))) = Some d \<and>
    rd_BodyPreview d = (''{'' @ CHR 0x22 # ''api_key'' @ [CHR 0x22, CHR '':'', CHR 0x22]) @ ''sk''"
  using truncated_secret_logged [of "\<lparr>do_LogRequestBody = True, do_LogResponseHeaders = False, do_LogTLSMetrics = False,
      do_MaxBodyLogSize = 14\<rparr>" "''sk-1''" 2 "\<lambda>_. None" "\<lambda>_. 0" "\<lambda>_. []" "[CHR 0x22, CHR ''}'']"]
  by (simp add: GetMaxBodyLogSize_def numeral_2_eq_2)

end
