(* ===== verification/Response_Signatures.thy ===== *)
theory Response_Signatures
  imports Thinking Client_Auth
begin

text \<open>
  The signatures of thinking blocks in responses (\<open>ProcessResponseSignature\<close> and \<open>ProcessNonStreamingResponse\<close> in
  \<open>internal/proxy/thinking.go\<close>, \<open>sse.go\<close>): they are cached under the text of the block and sent on with the group of the model in
  front, which is what \<open>resolveThinkingSignature\<close> takes off when the client sends the block back.
\<close>

section \<open>Whole responses\<close>

definition jget2 :: "json \<Rightarrow> string \<Rightarrow> string \<Rightarrow> json option" where
  "jget2 d k l = Option.bind (jget d k) (\<lambda>v. jget v l)"

definition response_set :: "'s cache_ops \<Rightarrow> string \<Rightarrow> string \<Rightarrow> string \<Rightarrow> 's option \<Rightarrow> 's option" where
  "response_set C modelName thinkingText signature sc =
     (if sc \<noteq> None \<and> thinkingText \<noteq> '''' then sigcache_Set C modelName thinkingText signature sc else sc)"

definition ProcessResponseSignature ::
    "'b json_lib \<Rightarrow> 's cache_ops \<Rightarrow> string \<Rightarrow> string \<Rightarrow> 'b \<Rightarrow> 's option \<Rightarrow> 'b \<times> 's option" where
  "ProcessResponseSignature J C thinkingText modelName eventData sc =
     (let signature = jstring J (jget2 (jl_doc J eventData) ''delta'' ''signature'');
          signature = (if signature = '''' then jstring J (jget (jl_doc J eventData) ''signature'') else signature)
      in if signature = '''' then (eventData, sc)
         else let sc = response_set C modelName thinkingText signature sc;
                  prefixedSig = FormatSignature modelName signature;
                  path = (if jget2 (jl_doc J eventData) ''delta'' ''signature'' \<noteq> None then [Key ''delta'', Key ''signature''] else [Key ''signature''])
              in case jl_set J eventData path (JStr prefixedSig) of
                   Inl e \<Rightarrow> (eventData, sc)
                 | Inr modifiedData \<Rightarrow> (modifiedData, sc))"

text \<open>An edit that fails is dropped, but not what it returns beside the error: that is the body from then on.\<close>

fun response_loop ::
    "'b json_lib \<Rightarrow> 's cache_ops \<Rightarrow> string \<Rightarrow> nat \<Rightarrow> json list \<Rightarrow> 'b \<Rightarrow> 's option \<Rightarrow> 'b \<times> 's option" where
  "response_loop J C modelName key [] b sc = (b, sc)"
| "response_loop J C modelName key (block # blocks) b sc =
     (let thinkingText = jstring J (jget block ''thinking''); signature = jstring J (jget block ''signature'')
      in if \<not> is_thinking J block \<or> signature = '''' then response_loop J C modelName (Suc key) blocks b sc
         else response_loop J C modelName (Suc key) blocks
                (case jl_set J b [Key ''content'', Idx key, Key ''signature''] (JStr (FormatSignature modelName signature)) of
                   Inl e \<Rightarrow> jl_failed J b
                 | Inr b' \<Rightarrow> b')
                (response_set C modelName thinkingText signature sc))"

definition content_of :: "json \<Rightarrow> json list option" where
  "content_of d = (case jget d ''content'' of Some (JArr xs) \<Rightarrow> Some xs | _ \<Rightarrow> None)"

definition ProcessNonStreamingResponse ::
    "'b json_lib \<Rightarrow> 's cache_ops \<Rightarrow> string \<Rightarrow> 'b \<Rightarrow> 's option \<Rightarrow> 'b \<times> 's option" where
  "ProcessNonStreamingResponse J C modelName body sc =
     (case content_of (jl_doc J body) of
        None \<Rightarrow> (body, sc)
      | Some content \<Rightarrow> response_loop J C modelName 0 content body sc)"

section \<open>Streams\<close>

fun cut_at :: "string \<Rightarrow> string \<Rightarrow> string option" where
  "cut_at pat [] = (if pat = [] then Some [] else None)"
| "cut_at pat (c # s) = (if take (length pat) (c # s) = pat then Some (drop (length pat) (c # s)) else cut_at pat s)"

text \<open>The data of an event; cutting a line feed off the trimmed data never finds one.\<close>

definition extractSSEData :: "string \<Rightarrow> string option" where
  "extractSSEData eventLine =
     (case cut_at ''data:'' eventLine of
        None \<Rightarrow> None
      | Some rest \<Rightarrow>
          (let data = TrimSpace rest; data = (if data \<noteq> [] \<and> last data = CHR 10 then butlast data else data)
           in if data = '''' then None else Some data))"

definition thinkingDeltaMarker :: string where
  "thinkingDeltaMarker = dq ''type'' @ '':'' @ dq ''thinking_delta''"

definition signatureDeltaMarker :: string where
  "signatureDeltaMarker = dq ''type'' @ '':'' @ dq ''signature_delta''"

record 's sig_processor =
  sp_cache :: "'s option"
  sp_modelName :: string
  sp_currentSignature :: string
  sp_thinkingText :: string

definition NewSSESignatureProcessor :: "'s option \<Rightarrow> string \<Rightarrow> 's sig_processor" where
  "NewSSESignatureProcessor cache modelName =
     \<lparr>sp_cache = cache, sp_modelName = modelName, sp_currentSignature = '''', sp_thinkingText = ''''\<rparr>"

text \<open>\<open>body_of\<close> is the document of some bytes; the cache that is passed on is nil, the signature is in the cache by then.\<close>

definition processSignatureDelta ::
    "'b json_lib \<Rightarrow> (string \<Rightarrow> 'b) \<Rightarrow> 's cache_ops \<Rightarrow> string \<Rightarrow> string \<Rightarrow> 's sig_processor \<Rightarrow> string \<times> 's sig_processor" where
  "processSignatureDelta J body_of C eventData data p =
     (let signature = jstring J (jget2 (jl_doc J (body_of data)) ''delta'' ''signature'')
      in if signature = '''' then (eventData, p)
         else let thinkingText = sp_thinkingText p;
                  p = p\<lparr>sp_cache := response_set C (sp_modelName p) thinkingText signature (sp_cache p),
                        sp_currentSignature := signature, sp_thinkingText := ''''\<rparr>;
                  modifiedData = fst (ProcessResponseSignature J C thinkingText (sp_modelName p) (body_of data) None)
              in (''data: '' @ jl_bytes J modifiedData @ [CHR 10, CHR 10], p))"

definition ProcessEvent ::
    "'b json_lib \<Rightarrow> (string \<Rightarrow> 'b) \<Rightarrow> 's cache_ops \<Rightarrow> string \<Rightarrow> 's sig_processor \<Rightarrow> string \<times> 's sig_processor" where
  "ProcessEvent J body_of C eventData p =
     (if \<not> contains_str ''data:'' eventData then (eventData, p)
      else case extractSSEData eventData of
             None \<Rightarrow> (eventData, p)
           | Some data \<Rightarrow>
               if contains_str thinkingDeltaMarker data
               then (eventData, p\<lparr>sp_thinkingText := sp_thinkingText p @
                      jstring J (jget2 (jl_doc J (body_of data)) ''delta'' ''thinking'')\<rparr>)
               else if contains_str signatureDeltaMarker data then processSignatureDelta J body_of C eventData data p
               else (eventData, p))"

fun process_events ::
    "'b json_lib \<Rightarrow> (string \<Rightarrow> 'b) \<Rightarrow> 's cache_ops \<Rightarrow> string list \<Rightarrow> 's sig_processor \<Rightarrow> string list \<times> 's sig_processor" where
  "process_events J body_of C [] p = ([], p)"
| "process_events J body_of C (e # es) p =
     (let (out, p) = ProcessEvent J body_of C e p; (outs, p) = process_events J body_of C es p in (out # outs, p))"

definition SetSSEHeaders :: "header \<Rightarrow> header" where
  "SetSSEHeaders h =
     header_set (header_set (header_set (header_set h ''Content-Type'' ''text/event-stream'') ''Cache-Control'' ''no-cache, no-transform'')
       ''X-Accel-Buffering'' ''no'') ''Connection'' ''keep-alive''"

end
