(* ===== verification/Response_Signatures_Facts.thy ===== *)
theory Response_Signatures_Facts
  imports Response_Signatures Thinking_Properties
begin

text \<open>
  The signature of a response comes back with the next request: as the client sends it, or from the cache; and a streamed block is
  cached as a whole one is.
\<close>

section \<open>The content of a response\<close>

definition set_content :: "json \<Rightarrow> json list \<Rightarrow> json" where
  "set_content d xs = jput [Key ''content''] (JArr xs) d"

lemma content_ofE:
  assumes "content_of d = Some xs"
  obtains fs where "d = JObj fs" "map_of fs ''content'' = Some (JArr xs)"
  using assms by (cases d) (auto simp: content_of_def split: option.splits json.splits)

lemma content_of_set [simp]: "content_of d = Some xs \<Longrightarrow> content_of (set_content d ys) = Some ys"
  by (erule content_ofE) (simp add: set_content_def content_of_def map_of_upd_member)

lemma set_content_twice [simp]: "content_of d = Some xs \<Longrightarrow> set_content (set_content d ys) zs = set_content d zs"
  by (erule content_ofE) (simp add: set_content_def upd_member_twice)

lemma set_content_same: "content_of d = Some xs \<Longrightarrow> jwf d \<Longrightarrow> set_content d xs = d"
  by (erule content_ofE) (simp add: set_content_def upd_member_same)

lemma jput_block:
  assumes "content_of d = Some xs" and "i < length xs"
  shows "jput (Key ''content'' # Idx i # p) v d = set_content d (xs[i := jput p v (xs ! i)])"
  using assms by (elim content_ofE) (auto simp: set_content_def intro!: upd_member_cong)

lemma jpath_block:
  assumes "content_of d = Some xs" and "i < length xs"
  shows "jpath (Key ''content'' # Idx i # p) d = jpath p (xs ! i)"
  using assms by (elim content_ofE) simp

text \<open>What becomes of a block, and of the cache with it.\<close>

definition block_text :: "'b json_lib \<Rightarrow> json \<Rightarrow> string" where
  "block_text J block = jstring J (jget block ''thinking'')"

definition block_signature :: "'b json_lib \<Rightarrow> json \<Rightarrow> string" where
  "block_signature J block = (if is_thinking J block then jstring J (jget block ''signature'') else '''')"

definition signed_block :: "'b json_lib \<Rightarrow> string \<Rightarrow> json \<Rightarrow> json" where
  "signed_block J modelName block =
     (if block_signature J block = '''' then block
      else jput [Key ''signature''] (JStr (FormatSignature modelName (block_signature J block))) block)"

definition cache_block :: "'b json_lib \<Rightarrow> 's cache_ops \<Rightarrow> string \<Rightarrow> json \<Rightarrow> 's option \<Rightarrow> 's option" where
  "cache_block J C modelName block sc =
     (if block_signature J block = '''' then sc else response_set C modelName (block_text J block) (block_signature J block) sc)"

lemma thinking_is_object: "is_thinking J block \<Longrightarrow> \<exists>fs. block = JObj fs"
  by (cases block) (auto simp: is_thinking_def block_type_def jstring_def)

lemma response_loop_spec:
  assumes "json_ok J" and "content_of d = Some xs0"
  shows "jl_doc J b = set_content d (map (signed_block J m) done @ blocks) \<Longrightarrow> jwf (jl_doc J b) \<Longrightarrow> key = length done \<Longrightarrow>
    jl_doc J (fst (response_loop J C m key blocks b sc)) = set_content d (map (signed_block J m) (done @ blocks)) \<and>
    snd (response_loop J C m key blocks b sc) = fold (cache_block J C m) blocks sc"
proof (induction blocks arbitrary: "done" key b sc)
  case (Cons block blocks)
  have IH: "jl_doc J (fst (response_loop J C m (Suc key) blocks b' sc')) = set_content d (map (signed_block J m) (done @ block # blocks)) \<and>
      snd (response_loop J C m (Suc key) blocks b' sc') = fold (cache_block J C m) blocks sc'"
    if "jl_doc J b' = set_content d (map (signed_block J m) done @ signed_block J m block # blocks)" "jwf (jl_doc J b')" for b' sc'
    using Cons.IH [of b' "done @ [block]" "Suc key" sc'] that Cons.prems(3) by simp
  show ?case
  proof (cases "block_signature J block = ''''")
    case True
    then have skip: "response_loop J C m key (block # blocks) b sc = response_loop J C m (Suc key) blocks b sc"
      by (auto simp: block_signature_def Let_def)
    have "signed_block J m block = block" "cache_block J C m block sc = sc" using True by (simp_all add: signed_block_def cache_block_def)
    then show ?thesis unfolding skip using IH [of b sc] Cons.prems(1,2) by simp
  next
    case False
    let ?sig = "FormatSignature m (block_signature J block)"
    have th: "is_thinking J block" and sig: "block_signature J block = jstring J (jget block ''signature'')"
      using False by (auto simp: block_signature_def split: if_splits)
    have at: "content_of (jl_doc J b) = Some (map (signed_block J m) done @ block # blocks)"
      using Cons.prems(1) assms(2) by simp
    have nth: "(map (signed_block J m) done @ block # blocks) ! key = block" "key < length (map (signed_block J m) done @ block # blocks)"
      using Cons.prems(3) by (simp_all add: nth_append)
    obtain fs where fs: "block = JObj fs" using thinking_is_object [OF th] by blast
    have "jpath [Key ''content'', Idx key, Key ''signature''] (jl_doc J b)"
      using jpath_block [OF at nth(2)] nth(1) fs by simp
    then obtain b' where b': "jl_set J b [Key ''content'', Idx key, Key ''signature''] (JStr ?sig) = Inr b'"
        "jl_doc J b' = jput [Key ''content'', Idx key, Key ''signature''] (JStr ?sig) (jl_doc J b)"
      using assms(1) Cons.prems(2) unfolding json_ok_def by blast
    have doc: "jl_doc J b' = set_content d (map (signed_block J m) done @ signed_block J m block # blocks)"
      using b'(2) jput_block [OF at nth(2)] nth(1) Cons.prems(1,3) assms(2) False
      by (simp add: signed_block_def list_update_append)
    have wf: "jwf (jl_doc J b')" unfolding b'(2) by (rule jwf_jput [OF Cons.prems(2)]) simp
    have "response_loop J C m key (block # blocks) b sc =
        response_loop J C m (Suc key) blocks b' (response_set C m (block_text J block) (block_signature J block) sc)"
      using th sig False b'(1) by (simp add: Let_def block_text_def)
    moreover have "cache_block J C m block sc = response_set C m (block_text J block) (block_signature J block) sc"
      using False by (simp add: cache_block_def)
    ultimately show ?thesis using IH [OF doc wf] by simp
  qed
qed simp

text \<open>A response is its blocks, signed one by one, and they are cached in their order; nothing else of it changes.\<close>

lemma ProcessNonStreamingResponse_spec:
  assumes "json_ok J" and "jwf (jl_doc J body)" and "content_of (jl_doc J body) = Some xs"
  shows "jl_doc J (fst (ProcessNonStreamingResponse J C m body sc)) = set_content (jl_doc J body) (map (signed_block J m) xs)"
    and "snd (ProcessNonStreamingResponse J C m body sc) = fold (cache_block J C m) xs sc"
  using response_loop_spec [OF assms(1,3), of body m "[]" xs 0 C sc] assms set_content_same [OF assms(3,2)]
  by (simp_all add: ProcessNonStreamingResponse_def)

section \<open>A signature comes back\<close>

text \<open>A store that keeps what it was given: one entry for each key.\<close>

definition keeps_entries :: "'s cache_ops \<Rightarrow> bool" where
  "keeps_entries C \<longleftrightarrow> (\<forall>k v s. ca_get C (ca_set C k v s) k = Inr v) \<and>
     (\<forall>k k' v s. k' \<noteq> k \<longrightarrow> ca_get C (ca_set C k v s) k' = ca_get C s k')"

lemma response_set_get:
  assumes "keeps_entries C" and "IsValidSignature m sig" and "t \<noteq> ''''" and "GetModelGroup m' = GetModelGroup m"
  shows "sigcache_Get C m' t (response_set C m t sig (Some s)) = sig"
  using assms by (simp add: response_set_def sigcache_Set_def sigcache_Get_def keeps_entries_def)

lemma response_set_other:
  assumes "keeps_entries C" and "cacheKey C (GetModelGroup m) t' \<noteq> cacheKey C (GetModelGroup m) t"
  shows "sigcache_Get C m t (response_set C m t' sig sc) = sigcache_Get C m t sc"
  using assms by (auto simp: response_set_def sigcache_Set_def sigcache_Get_def keeps_entries_def split: option.split)

lemma response_set_some: "\<exists>s'. response_set C m t sig (Some s) = Some s'"
  by (simp add: response_set_def sigcache_Set_def)

lemma cache_block_some: "\<exists>s'. cache_block J C m block (Some s) = Some s'"
  using response_set_some [of C m] by (simp add: cache_block_def)

lemma cache_blocks_some: "\<exists>s'. fold (cache_block J C m) blocks (Some s) = Some s'"
proof (induction blocks arbitrary: s)
  case (Cons x xs)
  obtain s' where "cache_block J C m x (Some s) = Some s'" using cache_block_some [of J C m x s] by blast
  then show ?case using Cons by simp
qed simp

lemma cache_blocks_other:
  assumes "keeps_entries C"
    and "\<And>x. x \<in> set blocks \<Longrightarrow> cacheKey C (GetModelGroup m) (block_text J x) \<noteq> cacheKey C (GetModelGroup m) t"
  shows "sigcache_Get C m t (fold (cache_block J C m) blocks sc) = sigcache_Get C m t sc"
  using assms(2)
proof (induction blocks arbitrary: sc)
  case (Cons x xs)
  have "sigcache_Get C m t (cache_block J C m x sc) = sigcache_Get C m t sc"
    using response_set_other [OF assms(1)] Cons.prems by (simp add: cache_block_def)
  then show ?case using Cons by simp
qed simp

lemma sigcache_Get_group: "GetModelGroup m' = GetModelGroup m \<Longrightarrow> sigcache_Get C m' t sc = sigcache_Get C m t sc"
  by (simp add: sigcache_Get_def cong: option.case_cong)

lemma ParseSignature_Format:
  assumes "CHR ''#'' \<notin> set (GetModelGroup m)"
  shows "ParseSignature (FormatSignature m sig) = Some (GetModelGroup m, sig)"
proof -
  have "takeWhile (\<lambda>c. c \<noteq> CHR ''#'') (GetModelGroup m @ ''#'' @ sig) = GetModelGroup m"
    using assms by (subst takeWhile_append2) auto
  then show ?thesis by (simp add: FormatSignature_def ParseSignature_def Let_def)
qed


section \<open>Streams\<close>

lemma cut_at_contains: "cut_at pat s = Some r \<Longrightarrow> contains_str pat s"
  by (induction s) (auto split: if_splits)

lemma extractSSEData_contains: "extractSSEData e = Some d \<Longrightarrow> contains_str ''data:'' e"
  using cut_at_contains [of "''data:''" e] by (auto simp: extractSSEData_def split: option.splits)

text \<open>An event with a piece of a text, and one with a signature.\<close>

definition text_event :: "'b json_lib \<Rightarrow> (string \<Rightarrow> 'b) \<Rightarrow> string \<Rightarrow> string \<Rightarrow> bool" where
  "text_event J body_of e t \<longleftrightarrow>
     (case extractSSEData e of
        None \<Rightarrow> False
      | Some d \<Rightarrow> contains_str thinkingDeltaMarker d \<and> jstring J (jget2 (jl_doc J (body_of d)) ''delta'' ''thinking'') = t)"

definition signature_event :: "'b json_lib \<Rightarrow> (string \<Rightarrow> 'b) \<Rightarrow> string \<Rightarrow> json \<Rightarrow> string \<Rightarrow> bool" where
  "signature_event J body_of e doc sig \<longleftrightarrow>
     (case extractSSEData e of
        None \<Rightarrow> False
      | Some d \<Rightarrow> \<not> contains_str thinkingDeltaMarker d \<and> contains_str signatureDeltaMarker d \<and> jl_doc J (body_of d) = doc \<and>
          jget2 doc ''delta'' ''signature'' = Some (JStr sig))"

lemma text_event_step:
  "text_event J body_of e t \<Longrightarrow> ProcessEvent J body_of C e p = (e, p\<lparr>sp_thinkingText := sp_thinkingText p @ t\<rparr>)"
  using extractSSEData_contains [of e] by (auto simp: text_event_def ProcessEvent_def split: option.splits)

lemma text_events_step:
  "list_all2 (text_event J body_of) es ts \<Longrightarrow>
   process_events J body_of C es p = (es, p\<lparr>sp_thinkingText := sp_thinkingText p @ concat ts\<rparr>)"
  by (induction es ts arbitrary: p rule: list_all2_induct) (simp_all add: text_event_step)

lemma process_events_append:
  "process_events J body_of C (es @ es') p =
     (let (outs, p) = process_events J body_of C es p; (outs', p) = process_events J body_of C es' p in (outs @ outs', p))"
  by (induction es arbitrary: p) (simp_all add: Let_def split_def)

lemma jget2_path:
  assumes "jget2 d k l = Some v"
  shows "jpath [Key k, Key l] d" "jget2 (jput [Key k, Key l] w d) k l = Some w"
proof -
  obtain fs x where d: "d = JObj fs" "map_of fs k = Some x" "jget x l = Some v"
    using assms by (cases d) (auto simp: jget2_def bind_eq_Some_conv)
  then obtain gs where "x = JObj gs" by (cases x) auto
  with d show "jpath [Key k, Key l] d" "jget2 (jput [Key k, Key l] w d) k l = Some w"
    by (simp_all add: jget2_def map_of_upd_member)
qed

lemma signature_event_step:
  assumes "json_ok J" and "signature_event J body_of e doc sig" and "jwf doc" and "sig \<noteq> ''''"
  shows "\<exists>b. ProcessEvent J body_of C e p =
      (''data: '' @ jl_bytes J b @ [CHR 10, CHR 10],
       p\<lparr>sp_cache := response_set C (sp_modelName p) (sp_thinkingText p) sig (sp_cache p), sp_currentSignature := sig, sp_thinkingText := ''''\<rparr>) \<and>
    jl_doc J b = jput [Key ''delta'', Key ''signature''] (JStr (FormatSignature (sp_modelName p) sig)) doc"
proof -
  obtain d where d: "extractSSEData e = Some d" "\<not> contains_str thinkingDeltaMarker d" "contains_str signatureDeltaMarker d"
      "jl_doc J (body_of d) = doc" "jget2 doc ''delta'' ''signature'' = Some (JStr sig)"
    using assms(2) by (auto simp: signature_event_def split: option.splits)
  obtain b where b: "jl_set J (body_of d) [Key ''delta'', Key ''signature''] (JStr (FormatSignature (sp_modelName p) sig)) = Inr b"
      "jl_doc J b = jput [Key ''delta'', Key ''signature''] (JStr (FormatSignature (sp_modelName p) sig)) doc"
    using assms(1,3) jget2_path(1) [OF d(5)] d(4) unfolding json_ok_def by metis
  show ?thesis
    using d assms(4) b extractSSEData_contains [OF d(1)]
    by (intro exI [of _ b]) (simp add: ProcessEvent_def processSignatureDelta_def ProcessResponseSignature_def response_set_def Let_def)
qed

text \<open>
  A thinking block that is streamed is cached as the same block of a whole response is: after the pieces of its text and its
  signature the cache is the same. The pieces are passed on as they are, and the signature with the group in front.
\<close>

theorem stream_caches_as_whole:
  assumes "json_ok J" and "list_all2 (text_event J body_of) es ts" and "signature_event J body_of e doc sig" and "jwf doc"
    and "sig \<noteq> ''''" and "block_text J block = concat ts" and "block_signature J block = sig"
  shows "\<exists>b p. process_events J body_of C (es @ [e]) (NewSSESignatureProcessor sc m) = (es @ [''data: '' @ jl_bytes J b @ [CHR 10, CHR 10]], p) \<and>
    sp_cache p = cache_block J C m block sc \<and> sp_thinkingText p = '''' \<and>
    jget2 (jl_doc J b) ''delta'' ''signature'' = Some (JStr (FormatSignature m sig))"
proof -
  have "jget2 doc ''delta'' ''signature'' = Some (JStr sig)"
    using assms(3) by (auto simp: signature_event_def split: option.splits)
  note path = jget2_path(2) [OF this]
  let ?p = "NewSSESignatureProcessor sc m\<lparr>sp_thinkingText := concat ts\<rparr>"
  obtain b where b: "ProcessEvent J body_of C e ?p = (''data: '' @ jl_bytes J b @ [CHR 10, CHR 10],
      ?p\<lparr>sp_cache := response_set C m (concat ts) sig sc, sp_currentSignature := sig, sp_thinkingText := ''''\<rparr>)"
      "jl_doc J b = jput [Key ''delta'', Key ''signature''] (JStr (FormatSignature m sig)) doc"
    using signature_event_step [OF assms(1,3,4,5), of C ?p] by (auto simp: NewSSESignatureProcessor_def)
  have es: "process_events J body_of C es (NewSSESignatureProcessor sc m) = (es, ?p)"
    using text_events_step [OF assms(2), of C "NewSSESignatureProcessor sc m"] by (simp add: NewSSESignatureProcessor_def)
  show ?thesis
    by (intro exI [of _ b] exI [of _ "?p\<lparr>sp_cache := response_set C m (concat ts) sig sc, sp_currentSignature := sig, sp_thinkingText := ''''\<rparr>"])
      (use assms(5-7) path b es in \<open>simp add: process_events_append Let_def cache_block_def\<close>)
qed

text \<open>
  A block whose signature never comes leaves its text behind: the signature of the next block is cached under both texts, and a request with
  that block does not find it.
\<close>

lemma unsigned_text_leaks:
  assumes "json_ok J" and "list_all2 (text_event J body_of) es ts" and "list_all2 (text_event J body_of) es' ts'"
    and "signature_event J body_of e doc sig" and "jwf doc" and "sig \<noteq> ''''" and "keeps_entries C"
    and "cacheKey C (GetModelGroup m) (concat ts @ concat ts') \<noteq> cacheKey C (GetModelGroup m) (concat ts')"
  shows "sigcache_Get C m (concat ts') (sp_cache (snd (process_events J body_of C (es @ es' @ [e]) (NewSSESignatureProcessor sc m)))) =
    sigcache_Get C m (concat ts') sc"
proof -
  have "list_all2 (text_event J body_of) (es @ es') (ts @ ts')" using assms(2,3) by (simp add: list_all2_appendI)
  from text_events_step [OF this, of C "NewSSESignatureProcessor sc m"]
  have "snd (process_events J body_of C (es @ es' @ [e]) (NewSSESignatureProcessor sc m)) =
      snd (ProcessEvent J body_of C e (NewSSESignatureProcessor sc m\<lparr>sp_thinkingText := concat ts @ concat ts'\<rparr>))"
    by (simp only: append_assoc [symmetric] process_events_append [of J body_of C "es @ es'"]) (simp add: Let_def split_def NewSSESignatureProcessor_def)
  then show ?thesis
    using signature_event_step [OF assms(1,4,5,6), of C "NewSSESignatureProcessor sc m\<lparr>sp_thinkingText := concat ts @ concat ts'\<rparr>"]
      response_set_other [OF assms(7,8)]
    by (auto simp: NewSSESignatureProcessor_def)
qed

text \<open>The markers have no blank: an event with one after its colon is passed on unseen.\<close>

lemma spaced_marker_missed:
  "ProcessEvent J body_of C (''data: '' @ dq ''type'' @ '': '' @ dq ''thinking_delta'') p =
     (''data: '' @ dq ''type'' @ '': '' @ dq ''thinking_delta'', p)"
proof -
  have "extractSSEData (''data: '' @ dq ''type'' @ '': '' @ dq ''thinking_delta'') = Some (dq ''type'' @ '': '' @ dq ''thinking_delta'')"
    "\<not> contains_str thinkingDeltaMarker (dq ''type'' @ '': '' @ dq ''thinking_delta'')"
    "\<not> contains_str signatureDeltaMarker (dq ''type'' @ '': '' @ dq ''thinking_delta'')"
    by (code_simp, code_simp, code_simp)
  then show ?thesis by (simp only: ProcessEvent_def) simp
qed

section \<open>Witnesses\<close>

definition long_signature :: string where
  "long_signature = replicate 50 (CHR ''s'')"

definition signed_response :: json where
  "signed_response = JObj [(''content'', JArr [thinking_block ''t'' long_signature, text_block ''x''])]"

lemma plain_cache_keeps: "keeps_entries plain_cache"
  by (simp add: keeps_entries_def plain_cache_def)


definition demo_delta :: "string \<Rightarrow> json" where
  "demo_delta d = JObj [(''delta'', if contains_str thinkingDeltaMarker d then JObj [(''thinking'', JStr ''t'')]
     else JObj [(''signature'', JStr long_signature)])]"

lemma stream_caches_as_whole_witness:
  "\<exists>b p. process_events plain_json demo_delta plain_cache ([''data:'' @ thinkingDeltaMarker] @ [''data:'' @ signatureDeltaMarker])
      (NewSSESignatureProcessor no_cache ''claude-1'') =
      ([''data:'' @ thinkingDeltaMarker] @ [''data: '' @ jl_bytes plain_json b @ [CHR 10, CHR 10]], p) \<and>
    sp_cache p = cache_block plain_json plain_cache ''claude-1'' (thinking_block ''t'' long_signature) no_cache \<and> sp_thinkingText p = '''' \<and>
    jget2 (jl_doc plain_json b) ''delta'' ''signature'' = Some (JStr (FormatSignature ''claude-1'' long_signature))"
proof (rule stream_caches_as_whole [OF plain_json_ok])
  show "list_all2 (text_event plain_json demo_delta) [''data:'' @ thinkingDeltaMarker] [''t'']"
    by code_simp
  show "signature_event plain_json demo_delta (''data:'' @ signatureDeltaMarker) (JObj [(''delta'', JObj [(''signature'', JStr long_signature)])])
      long_signature"
    by code_simp
qed (simp_all add: long_signature_def block_text_def block_signature_def thinking_block_def is_thinking_def block_type_def plain_json_def)

end
