(* ===== verification/Routes.thy ===== *)
theory Routes
  imports Config Codex_Images Model_Routing
begin

text \<open>
  Which handler a request reaches (\<open>routes.go\<close>, \<open>openai_routes.go\<close>, \<open>responses_routes.go\<close>, \<open>images_routes.go\<close> in
  \<open>internal/proxy\<close>; \<open>server_service.go\<close>, \<open>responses_provider_filter.go\<close> in \<open>internal/di\<close>) and through which middleware. The multiplexer
  of \<open>net/http\<close> is written out as documented for the patterns that the program uses.
\<close>

section \<open>The multiplexer\<close>

text \<open>A path is its segments; the root is one empty segment, and a path with a slash at its end has an empty last one.\<close>

datatype pattern_seg = Lit string | Wild

record pattern =
  pt_Method :: "string option"
  pt_Segs :: "pattern_seg list"
  pt_Subtree :: bool

fun segs_match :: "pattern_seg list \<Rightarrow> bool \<Rightarrow> string list \<Rightarrow> bool" where
  "segs_match [] subtree segs = (if subtree then segs \<noteq> [] else segs = [])"
| "segs_match (Lit l # ps) subtree (s # segs) = (s = l \<and> segs_match ps subtree segs)"
| "segs_match (Wild # ps) subtree (s # segs) = (s \<noteq> '''' \<and> segs_match ps subtree segs)"
| "segs_match (p # ps) subtree [] = False"

definition method_matches :: "string option \<Rightarrow> string \<Rightarrow> bool" where
  "method_matches pm m = (case pm of None \<Rightarrow> True | Some x \<Rightarrow> m = x \<or> (x = ''GET'' \<and> m = ''HEAD''))"

definition pattern_matches :: "string \<Rightarrow> string list \<Rightarrow> pattern \<Rightarrow> bool" where
  "pattern_matches m segs p \<longleftrightarrow> method_matches (pt_Method p) m \<and> segs_match (pt_Segs p) (pt_Subtree p) segs"

fun wild_values :: "pattern_seg list \<Rightarrow> string list \<Rightarrow> string list" where
  "wild_values (Wild # ps) (s # segs) = s # wild_values ps segs"
| "wild_values (Lit l # ps) (s # segs) = wild_values ps segs"
| "wild_values ps segs = []"

text \<open>The first pattern matches whatever the second does.\<close>

fun segs_cover :: "pattern_seg list \<Rightarrow> bool \<Rightarrow> pattern_seg list \<Rightarrow> bool \<Rightarrow> bool" where
  "segs_cover [] True ps sub = (ps \<noteq> [] \<or> sub)"
| "segs_cover [] False ps sub = (ps = [] \<and> \<not> sub)"
| "segs_cover (Wild # qs) qsub (p # ps) sub = (p \<noteq> Lit [] \<and> segs_cover qs qsub ps sub)"
| "segs_cover (Lit a # qs) qsub (Lit b # ps) sub = (a = b \<and> segs_cover qs qsub ps sub)"
| "segs_cover qs qsub ps sub = False"

definition covers :: "pattern \<Rightarrow> pattern \<Rightarrow> bool" where
  "covers q p \<longleftrightarrow>
     (case pt_Method q of None \<Rightarrow> True | Some x \<Rightarrow> pt_Method p = Some x \<or> (x = ''GET'' \<and> pt_Method p = Some ''HEAD'')) \<and>
     segs_cover (pt_Segs q) (pt_Subtree q) (pt_Segs p) (pt_Subtree p)"

definition mux_find :: "(pattern \<times> 'h) list \<Rightarrow> string \<Rightarrow> string list \<Rightarrow> (pattern \<times> 'h) option" where
  "mux_find routes m segs =
     (let ms = filter (\<lambda>r. pattern_matches m segs (fst r)) routes
      in find (\<lambda>r. list_all (\<lambda>q. covers (fst q) (fst r)) ms) ms)"

definition clean_segs :: "string list \<Rightarrow> string list" where
  "clean_segs segs =
     (let np = fold (\<lambda>s acc. if s = '''' \<or> s = ''.'' then acc else if s = ''..'' then butlast acc else acc @ [s]) segs []
      in if np = [] then [''''] else if segs \<noteq> [] \<and> last segs = '''' then np @ [''''] else np)"

datatype 'h dispatch = Handled 'h "string list" | RedirectTo "string list" | MethodNotAllowed | NotFound

text \<open>
  A path without the slash at its end is redirected to the subtree of that name unless a pattern matches it exactly; a path that is not clean is
  redirected to the clean one. Escapes in paths and the way of the \<open>CONNECT\<close> method around both are left out.
\<close>

definition serve_mux :: "(pattern \<times> 'h) list \<Rightarrow> string \<Rightarrow> string list \<Rightarrow> 'h dispatch" where
  "serve_mux routes m segs =
     (let path = clean_segs segs; found = mux_find routes m path;
          exact = (case found of None \<Rightarrow> False | Some (p, h) \<Rightarrow> \<not> pt_Subtree p \<or> last path = '''');
          slashed = mux_find routes m (path @ [''''])
      in if \<not> exact \<and> last path \<noteq> '''' \<and>
           (case slashed of None \<Rightarrow> False | Some (p, h) \<Rightarrow> pt_Subtree p \<and> length (pt_Segs p) = length path)
         then RedirectTo (path @ [''''])
         else if path \<noteq> segs then RedirectTo path
         else case found of
                Some (p, h) \<Rightarrow> Handled h (wild_values (pt_Segs p) path)
              | None \<Rightarrow> if list_ex (\<lambda>r. segs_match (pt_Segs (fst r)) (pt_Subtree (fst r)) path) routes then MethodNotAllowed else NotFound)"

section \<open>The routes\<close>

datatype endpoint =
    MessagesEndpoint | ModelsEndpoint | ProvidersEndpoint | QuotaEndpoint | HealthEndpoint
  | ChatEndpoint | OpenAIModelsEndpoint | OpenAIProvidersEndpoint | OpenAIQuotaEndpoint
  | ResponsesEndpoint | ResponsesModelsEndpoint | ResponsesProvidersEndpoint
  | GenerationsEndpoint | EditsEndpoint

datatype layer = RequestIDLayer | LoggingLayer | ConcurrencyLayer | MaxBodyLayer | AuthLayer

text \<open>An endpoint with the middleware around it, the outermost first.\<close>

type_synonym routed = "layer list \<times> endpoint"

definition route :: "string \<Rightarrow> pattern_seg list \<Rightarrow> 'h \<Rightarrow> pattern \<times> 'h" where
  "route m segs h = (\<lparr>pt_Method = Some m, pt_Segs = segs, pt_Subtree = False\<rparr>, h)"

definition limiter_layer :: "bool \<Rightarrow> layer list" where
  "limiter_layer limited = (if limited then [ConcurrencyLayer] else [])"

definition messages_layers :: "bool \<Rightarrow> layer list" where
  "messages_layers limited = [RequestIDLayer, LoggingLayer] @ limiter_layer limited @ [MaxBodyLayer, AuthLayer]"

definition wireOpenAICompatMiddleware :: "bool \<Rightarrow> layer list" where
  "wireOpenAICompatMiddleware limited = [RequestIDLayer, LoggingLayer] @ limiter_layer limited @ [MaxBodyLayer]"

definition wireImagesMiddleware :: "bool \<Rightarrow> layer list" where
  "wireImagesMiddleware limited = [RequestIDLayer, LoggingLayer] @ limiter_layer limited @ [MaxBodyLayer]"

text \<open>\<open>handler\<close> is what building the proxy handler gives: an error or nothing.\<close>

definition SetupRoutesWithLiveKeyPools :: "go_error option \<Rightarrow> bool option \<Rightarrow> go_error + (pattern \<times> routed) list" where
  "SetupRoutesWithLiveKeyPools handler opts =
     (case opts of
        None \<Rightarrow> Inl (OtherError ''routes options are required'')
      | Some limited \<Rightarrow>
          (case handler of
             Some e \<Rightarrow> Inl e
           | None \<Rightarrow> Inr [
               route ''POST'' [Lit ''v1'', Lit ''messages''] (messages_layers limited, MessagesEndpoint),
               route ''GET'' [Lit ''v1'', Lit ''models''] ([], ModelsEndpoint),
               route ''GET'' [Lit ''v1'', Lit ''providers''] ([], ProvidersEndpoint),
               route ''GET'' [Lit ''v1'', Lit ''providers'', Wild, Lit ''quota''] ([], QuotaEndpoint),
               route ''GET'' [Lit ''health''] ([], HealthEndpoint)]))"

definition SetupOpenAIRoutes :: "go_error option \<Rightarrow> bool option \<Rightarrow> go_error + (pattern \<times> routed) list" where
  "SetupOpenAIRoutes handler opts =
     (case opts of
        None \<Rightarrow> Inl (OtherError ''openai routes options are required'')
      | Some limited \<Rightarrow>
          (case handler of
             Some e \<Rightarrow> Inl e
           | None \<Rightarrow> Inr [
               route ''POST'' [Lit ''openai'', Lit ''v1'', Lit ''chat'', Lit ''completions''] (wireOpenAICompatMiddleware limited, ChatEndpoint),
               route ''GET'' [Lit ''openai'', Lit ''v1'', Lit ''models''] ([], OpenAIModelsEndpoint),
               route ''GET'' [Lit ''openai'', Lit ''v1'', Lit ''providers''] ([], OpenAIProvidersEndpoint),
               route ''GET'' [Lit ''openai'', Lit ''v1'', Lit ''providers'', Wild, Lit ''quota''] ([], OpenAIQuotaEndpoint)]))"

definition SetupResponsesRoutes :: "go_error option \<Rightarrow> bool option \<Rightarrow> go_error + (pattern \<times> routed) list" where
  "SetupResponsesRoutes handler opts =
     (case opts of
        None \<Rightarrow> Inl (OtherError ''responses routes options are required'')
      | Some limited \<Rightarrow>
          (case handler of
             Some e \<Rightarrow> Inl e
           | None \<Rightarrow> Inr [
               route ''POST'' [Lit ''openai'', Lit ''v1'', Lit ''responses''] (wireOpenAICompatMiddleware limited, ResponsesEndpoint),
               route ''GET'' [Lit ''openai'', Lit ''v1'', Lit ''responses'', Lit ''models''] ([], ResponsesModelsEndpoint),
               route ''GET'' [Lit ''openai'', Lit ''v1'', Lit ''responses'', Lit ''providers''] ([], ResponsesProvidersEndpoint)]))"

text \<open>The options with their handler: whether there is a limiter, when both are given.\<close>

definition SetupImagesRoutes :: "bool option \<Rightarrow> go_error + (pattern \<times> routed) list" where
  "SetupImagesRoutes opts =
     (case opts of
        None \<Rightarrow> Inl (OtherError ''images routes options are required'')
      | Some limited \<Rightarrow> Inr [
          route ''POST'' [Lit ''v1'', Lit ''images'', Lit ''generations''] (wireImagesMiddleware limited, GenerationsEndpoint),
          route ''POST'' [Lit ''v1'', Lit ''images'', Lit ''edits''] (wireImagesMiddleware limited, EditsEndpoint)])"

section \<open>The server\<close>

text \<open>What is mounted at the root: a whole multiplexer or an endpoint.\<close>

datatype mounted = Mounted_mux "(pattern \<times> routed) list" | Mounted routed

definition subtree :: "pattern_seg list \<Rightarrow> 'h \<Rightarrow> pattern \<times> 'h" where
  "subtree segs h = (\<lparr>pt_Method = None, pt_Segs = segs, pt_Subtree = True\<rparr>, h)"

text \<open>The errors of building the handlers of messages, chat, responses and images. A service that cannot be built panics.\<close>

record server_env =
  se_messages :: "go_error option"
  se_chat :: "go_error option"
  se_responses :: "go_error option"
  se_images :: "go_error option"

definition NewHTTPServer :: "server_env \<Rightarrow> codex_images_config \<Rightarrow> config \<Rightarrow> go_error + (pattern \<times> mounted) list" where
  "NewHTTPServer se images cfg =
     (let hasAnthropicProvider = list_ex pv_Enabled (cf_Providers cfg);
          messages = SetupRoutesWithLiveKeyPools (se_messages se) (Some True);
          chat = SetupOpenAIRoutes (se_chat se) (Some True);
          responses = SetupResponsesRoutes (se_responses se) (Some True)
      in if \<not> hasAnthropicProvider \<and> cf_OpenAIProviders cfg = []
         then Inl (OtherError ''no enabled provider found in providers or openai_providers'')
         else case (if hasAnthropicProvider then map_sum id (\<lambda>mux. [subtree [] (Mounted_mux mux)]) messages else Inr []) of
                Inl e \<Rightarrow> Inl (GoPanic ''failed to setup proxy handler'')
              | Inr root1 \<Rightarrow>
                  (case (if cf_OpenAIProviders cfg \<noteq> []
                         then (case (chat, responses) of
                                 (Inr c, Inr r) \<Rightarrow> Inr [subtree [Lit ''openai''] (Mounted_mux (c @ r))]
                               | _ \<Rightarrow> Inl (GoPanic ''failed to setup openai handler''))
                         else Inr []) of
                     Inl e \<Rightarrow> Inl e
                   | Inr root2 \<Rightarrow>
                       if \<not> ci_Enabled images then Inr (root1 @ root2)
                       else if se_images se \<noteq> None then Inl (GoPanic ''images handler'')
                       else case SetupImagesRoutes (Some True) of
                              Inl e \<Rightarrow> Inl (Wrapped ''failed to setup codex image routes'' e)
                            | Inr rs \<Rightarrow> Inr (root1 @ root2 @ map (\<lambda>(p, r). (p, Mounted r)) rs)))"

definition serve_root :: "(pattern \<times> mounted) list \<Rightarrow> string \<Rightarrow> string list \<Rightarrow> routed dispatch" where
  "serve_root rootMux m segs =
     (case serve_mux rootMux m segs of
        Handled (Mounted_mux mux) ws \<Rightarrow> serve_mux mux m segs
      | Handled (Mounted r) ws \<Rightarrow> Handled r ws
      | RedirectTo p \<Rightarrow> RedirectTo p
      | MethodNotAllowed \<Rightarrow> MethodNotAllowed
      | NotFound \<Rightarrow> NotFound)"

section \<open>The providers of the responses route\<close>

text \<open>The names allowed by the configuration, if there is one; none at all allows every provider. A provider info without a provider panics.\<close>

definition responsesProviderInfos :: "(unit \<Rightarrow> provider_info list) option \<Rightarrow> string list option \<Rightarrow> (go_error + provider_info list)" where
  "responsesProviderInfos getInfos names =
     (case getInfos of
        None \<Rightarrow> Inr []
      | Some f \<Rightarrow>
          (let infos = f ()
           in case names of
                None \<Rightarrow> Inr infos
              | Some ns \<Rightarrow>
                  if ns = [] then Inr infos
                  else if list_ex (\<lambda>i. pi_Provider i = None) infos then Inl (GoPanic ''nil provider'')
                  else Inr (filter (\<lambda>i. case pi_Provider i of Some p \<Rightarrow> prov_Name p \<in> set ns | None \<Rightarrow> False) infos)))"

definition responsesLiveProvidersGetter :: "provider_info list \<Rightarrow> provider option list" where
  "responsesLiveProvidersGetter infos = map pi_Provider infos"

text \<open>A list from the accessor unless it is nil; the messages routes fall back to the first provider.\<close>

definition liveProvidersGetter :: "'p \<Rightarrow> 'p list option option \<Rightarrow> 'p list" where
  "liveProvidersGetter primary getAll =
     (case getAll of Some (Some ps) \<Rightarrow> ps | _ \<Rightarrow> [primary])"

definition openAILiveProvidersGetter :: "'p list option option \<Rightarrow> 'p list" where
  "openAILiveProvidersGetter getAll = (case getAll of Some (Some ps) \<Rightarrow> ps | _ \<Rightarrow> [])"

end
