(* ===== verification/Routes_Facts.thy ===== *)
theory Routes_Facts
  imports Routes Pool_Service
begin

text \<open>
  The nested multiplexers serve one flat table of routes; what of it is authenticated and limited; and which settings have no effect on it.
\<close>

section \<open>Patterns that never match the same request\<close>

fun segs_apart :: "pattern_seg list \<Rightarrow> bool \<Rightarrow> pattern_seg list \<Rightarrow> bool \<Rightarrow> bool" where
  "segs_apart (Lit a # qs) qsub (Lit b # ps) sub = (a \<noteq> b \<or> segs_apart qs qsub ps sub)"
| "segs_apart (q # qs) qsub (p # ps) sub = segs_apart qs qsub ps sub"
| "segs_apart [] qsub (p # ps) sub = (\<not> qsub)"
| "segs_apart (q # qs) qsub [] sub = (\<not> sub)"
| "segs_apart [] qsub [] sub = (qsub \<noteq> sub)"

definition apart :: "pattern \<Rightarrow> pattern \<Rightarrow> bool" where
  "apart q p \<longleftrightarrow> segs_apart (pt_Segs q) (pt_Subtree q) (pt_Segs p) (pt_Subtree p)"

lemma segs_apart: "segs_apart qs qsub ps sub \<Longrightarrow> segs_match qs qsub segs \<Longrightarrow> \<not> segs_match ps sub segs"
proof (induction qs qsub ps sub arbitrary: segs rule: segs_apart.induct [case_names lits wild_l wild_r fst_end snd_end both])
  case (lits a qs qsub b ps sub)
  then show ?case by (cases segs) auto
next
  case (wild_l qs qsub p ps sub)
  then show ?case by (cases segs; cases p) auto
next
  case (wild_r q qs qsub ps sub)
  then show ?case by (cases segs; cases q) auto
next
  case (fst_end qsub p ps sub)
  then show ?case by (cases segs; cases p) auto
next
  case (snd_end q qs qsub sub)
  then show ?case by (cases segs; cases q) auto
qed (auto split: if_splits)

lemma apart_matches: "apart q p \<Longrightarrow> pattern_matches m segs q \<Longrightarrow> \<not> pattern_matches m segs p"
  using segs_apart by (auto simp: apart_def pattern_matches_def)

lemma segs_cover_refl: "segs_cover ps sub ps sub"
proof (induction ps)
  case Nil
  show ?case by (cases sub) simp_all
next
  case (Cons p ps)
  then show ?case by (cases p) simp_all
qed

lemma find_SomeD: "find P xs = Some x \<Longrightarrow> x \<in> set xs \<and> P x"
  by (auto simp: find_Some_iff)

lemma covers_refl [simp]: "covers p p"
  by (simp add: covers_def segs_cover_refl split: option.split)

text \<open>Patterns of a table are apart, or one of them is strictly more general.\<close>

definition tidy :: "pattern list \<Rightarrow> bool" where
  "tidy ps \<longleftrightarrow> (\<forall>q \<in> set ps. \<forall>p \<in> set ps. q = p \<or> apart q p \<or> covers q p \<noteq> covers p q)"

lemma mux_find_iff:
  assumes "tidy (map fst routes)" and "distinct (map fst routes)"
  shows "mux_find routes m segs = Some r \<longleftrightarrow>
    r \<in> set routes \<and> pattern_matches m segs (fst r) \<and> (\<forall>q \<in> set routes. pattern_matches m segs (fst q) \<longrightarrow> covers (fst q) (fst r))"
    (is "?find \<longleftrightarrow> ?best r")
proof
  assume ?find
  then show "?best r" unfolding mux_find_def Let_def by (auto simp: list_all_iff dest!: find_SomeD)
next
  let ?ms = "filter (\<lambda>r. pattern_matches m segs (fst r)) routes"
  assume r: "?best r"
  then have "\<exists>x \<in> set ?ms. list_all (\<lambda>q. covers (fst q) (fst x)) ?ms"
    by (intro bexI [of _ r]) (simp_all add: list_all_iff)
  then obtain x where x: "mux_find routes m segs = Some x"
    unfolding mux_find_def Let_def by (metis (no_types, lifting) find_None_iff not_None_eq)
  then have mem: "x \<in> set ?ms" and all: "\<forall>q \<in> set ?ms. covers (fst q) (fst x)"
    unfolding mux_find_def Let_def by (auto simp: list_all_iff dest!: find_SomeD)
  have "r \<in> set ?ms" using r by simp
  with all have "covers (fst r) (fst x)" by blast
  moreover have "covers (fst x) (fst r)" using r mem by simp
  moreover have "\<not> apart (fst r) (fst x)" using r mem apart_matches [of "fst r" "fst x" m segs] by fastforce
  ultimately have "fst r = fst x" using assms(1) r mem unfolding tidy_def by auto
  then have "r = x" using assms(2) r mem by (auto simp: distinct_map inj_on_def)
  then show ?find using x by simp
qed

section \<open>Tables without subtrees\<close>

definition flat :: "(pattern \<times> 'h) list \<Rightarrow> bool" where
  "flat routes \<longleftrightarrow> (\<forall>p \<in> set (map fst routes). \<not> pt_Subtree p) \<and> distinct (map fst routes) \<and>
     (\<forall>q \<in> set (map fst routes). \<forall>p \<in> set (map fst routes). q = p \<or> apart q p)"

lemma flat_tidy: "flat routes \<Longrightarrow> tidy (map fst routes)"
  by (auto simp: flat_def tidy_def)

lemma flat_find:
  assumes "flat routes"
  shows "mux_find routes m segs = Some r \<longleftrightarrow> r \<in> set routes \<and> pattern_matches m segs (fst r)"
proof -
  have "covers (fst q) (fst r)" if "r \<in> set routes" "pattern_matches m segs (fst r)" "q \<in> set routes" "pattern_matches m segs (fst q)" for q
    using assms that apart_matches [of "fst q" "fst r"] unfolding flat_def by (metis covers_refl image_eqI set_map)
  then show ?thesis using mux_find_iff [OF flat_tidy [OF assms]] assms by (auto simp: flat_def)
qed

text \<open>What a route handles: a request with a clean path that its pattern matches.\<close>

definition handles :: "(pattern \<times> 'h) list \<Rightarrow> string \<Rightarrow> string list \<Rightarrow> 'h \<Rightarrow> string list \<Rightarrow> bool" where
  "handles routes m segs h ws \<longleftrightarrow>
     clean_segs segs = segs \<and> (\<exists>p. (p, h) \<in> set routes \<and> pattern_matches m segs p \<and> ws = wild_values (pt_Segs p) segs)"

lemma flat_serve:
  assumes "flat routes"
  shows "serve_mux routes m segs = Handled h ws \<longleftrightarrow> handles routes m segs h ws"
proof -
  have sub: "\<not> pt_Subtree p" if "mux_find routes m s = Some (p, h)" for p h s
    using assms that by (auto simp: flat_find flat_def)
  have "serve_mux routes m segs = Handled h ws \<longleftrightarrow>
      clean_segs segs = segs \<and> (\<exists>p. mux_find routes m segs = Some (p, h) \<and> ws = wild_values (pt_Segs p) segs)"
    using sub [of "clean_segs segs @ ['''']"] by (auto simp: serve_mux_def Let_def split: option.split)
  then show ?thesis using flat_find [OF assms, of m segs] by (auto simp: handles_def)
qed

section \<open>The table of the server\<close>

definition messages_routes :: "(pattern \<times> routed) list" where
  "messages_routes = (case SetupRoutesWithLiveKeyPools None (Some True) of Inr rs \<Rightarrow> rs | Inl e \<Rightarrow> [])"

definition openai_routes :: "(pattern \<times> routed) list" where
  "openai_routes =
     (case SetupOpenAIRoutes None (Some True) of Inr rs \<Rightarrow> rs | Inl e \<Rightarrow> []) @
     (case SetupResponsesRoutes None (Some True) of Inr rs \<Rightarrow> rs | Inl e \<Rightarrow> [])"

definition images_routes :: "(pattern \<times> routed) list" where
  "images_routes = (case SetupImagesRoutes (Some True) of Inr rs \<Rightarrow> rs | Inl e \<Rightarrow> [])"

text \<open>All routes of a configuration, side by side.\<close>

definition served_routes :: "codex_images_config \<Rightarrow> config \<Rightarrow> (pattern \<times> routed) list" where
  "served_routes images cfg =
     (if list_ex pv_Enabled (cf_Providers cfg) then messages_routes else []) @
     (if cf_OpenAIProviders cfg \<noteq> [] then openai_routes else []) @ (if ci_Enabled images then images_routes else [])"

lemma tables_flat: "flat messages_routes" "flat openai_routes" "flat images_routes"
  by (code_simp, code_simp, code_simp)

definition root_of :: "bool \<Rightarrow> bool \<Rightarrow> bool \<Rightarrow> (pattern \<times> mounted) list" where
  "root_of a b c =
     (if a then [subtree [] (Mounted_mux messages_routes)] else []) @
     (if b then [subtree [Lit ''openai''] (Mounted_mux openai_routes)] else []) @
     (if c then map (\<lambda>(p, r). (p, Mounted r)) images_routes else [])"

lemma setup_tables:
  "SetupRoutesWithLiveKeyPools h (Some True) = (case h of None \<Rightarrow> Inr messages_routes | Some e \<Rightarrow> Inl e)"
  "(case (SetupOpenAIRoutes h (Some True), SetupResponsesRoutes h' (Some True)) of
      (Inr c, Inr r) \<Rightarrow> Inr [subtree [Lit ''openai''] (Mounted_mux (c @ r))] | _ \<Rightarrow> Inl e) =
    (if h = None \<and> h' = None then Inr [subtree [Lit ''openai''] (Mounted_mux openai_routes)] else Inl e)"
  "SetupImagesRoutes (Some True) = Inr images_routes"
  by (simp_all add: messages_routes_def openai_routes_def images_routes_def SetupRoutesWithLiveKeyPools_def SetupOpenAIRoutes_def
      SetupResponsesRoutes_def SetupImagesRoutes_def split: option.split)

lemma NewHTTPServer_root:
  assumes "NewHTTPServer se images cfg = Inr mux"
  shows "mux = root_of (list_ex pv_Enabled (cf_Providers cfg)) (cf_OpenAIProviders cfg \<noteq> []) (ci_Enabled images)"
proof -
  note s = assms [unfolded NewHTTPServer_def Let_def setup_tables]
  show ?thesis
    by (cases "list_ex pv_Enabled (cf_Providers cfg)"; cases "cf_OpenAIProviders cfg = []"; cases "se_messages se"; cases "ci_Enabled images")
      (use s in \<open>auto simp: root_of_def split: if_splits\<close>)
qed

definition root_patterns :: "bool \<Rightarrow> bool \<Rightarrow> bool \<Rightarrow> pattern list" where
  "root_patterns a b c =
     (if a then [\<lparr>pt_Method = None, pt_Segs = [], pt_Subtree = True\<rparr>] else []) @
     (if b then [\<lparr>pt_Method = None, pt_Segs = [Lit ''openai''], pt_Subtree = True\<rparr>] else []) @
     (if c then [\<lparr>pt_Method = Some ''POST'', pt_Segs = [Lit ''v1'', Lit ''images'', Lit ''generations''], pt_Subtree = False\<rparr>,
                 \<lparr>pt_Method = Some ''POST'', pt_Segs = [Lit ''v1'', Lit ''images'', Lit ''edits''], pt_Subtree = False\<rparr>] else [])"

lemma root_patterns: "map fst (root_of a b c) = root_patterns a b c"
  by (simp add: root_of_def root_patterns_def subtree_def images_routes_def SetupImagesRoutes_def route_def)

lemma root_tidy: "tidy (map fst (root_of a b c))" "distinct (map fst (root_of a b c))"
proof -
  have "tidy (root_patterns True True True)" by code_simp
  moreover have "set (root_patterns a b c) \<subseteq> set (root_patterns True True True)" by (auto simp: root_patterns_def)
  ultimately show "tidy (map fst (root_of a b c))" unfolding root_patterns tidy_def by blast
  show "distinct (map fst (root_of a b c))" unfolding root_patterns by (simp add: root_patterns_def)
qed

text \<open>The messages routes are apart from the mounted ones beside them, the routes of OpenAI are below their subtree.\<close>

lemma tables_apart:
  "list_all (\<lambda>r. list_all (\<lambda>p. apart p (fst r)) (root_patterns False True True)) messages_routes"
  "list_all (\<lambda>r. list_all (\<lambda>p. apart p (fst r)) (root_patterns False False True)) openai_routes"
  "list_all (\<lambda>r. list_all (\<lambda>p. apart p (fst r)) (root_patterns False True False)) images_routes"
  "list_all (\<lambda>r. segs_cover [Lit ''openai''] True (pt_Segs (fst r)) (pt_Subtree (fst r))) openai_routes"
  "list_all (\<lambda>r. \<not> segs_match (pt_Segs (fst r)) (pt_Subtree (fst r)) [''openai''] \<and> \<not> segs_match (pt_Segs (fst r)) (pt_Subtree (fst r)) [])
     (messages_routes @ openai_routes @ images_routes)"
  by (code_simp, code_simp, code_simp, code_simp, code_simp)

lemma segs_cover_match: "segs_cover qs qsub ps sub \<Longrightarrow> segs_match ps sub segs \<Longrightarrow> segs_match qs qsub segs"
proof (induction qs qsub ps sub arbitrary: segs rule: segs_cover.induct)
  case (1 ps sub)
  then show ?case by (cases ps; cases "hd ps"; cases segs) auto
next
  case (3 qs qsub p ps sub)
  then show ?case by (cases segs; cases p) auto
next
  case (4 a qs qsub b ps sub)
  then show ?case by (cases segs) auto
qed auto

lemma root_mem:
  "q \<in> set (root_of a b c) \<longleftrightarrow>
     (a \<and> q = subtree [] (Mounted_mux messages_routes)) \<or> (b \<and> q = subtree [Lit ''openai''] (Mounted_mux openai_routes)) \<or>
     (c \<and> (\<exists>p h. (p, h) \<in> set images_routes \<and> q = (p, Mounted h)))"
  by (auto simp: root_of_def)

lemma root_find:
  "mux_find (root_of a b c) m segs = Some r \<longleftrightarrow>
     r \<in> set (root_of a b c) \<and> pattern_matches m segs (fst r) \<and>
     (\<forall>q \<in> set (root_patterns a b c). pattern_matches m segs q \<longrightarrow> covers q (fst r))"
  using mux_find_iff [OF root_tidy, of a b c m segs r] by (simp flip: root_patterns)

lemma root_patterns_cases:
  assumes "q \<in> set (root_patterns a b c)"
  obtains "q = \<lparr>pt_Method = None, pt_Segs = [], pt_Subtree = True\<rparr>" | "q = \<lparr>pt_Method = None, pt_Segs = [Lit ''openai''], pt_Subtree = True\<rparr>"
  | "q \<in> set (root_patterns False False True)" "c"
  using assms by (auto simp: root_patterns_def split: if_splits)

lemma openai_pattern: "\<lparr>pt_Method = None, pt_Segs = [Lit ''openai''], pt_Subtree = True\<rparr> \<in> set (root_patterns False True c)"
  by (simp add: root_patterns_def)

lemma images_patterns: "q \<in> set (root_patterns False False True) \<Longrightarrow> q \<in> set (root_patterns False True True)"
  by (simp add: root_patterns_def)

lemma images_pattern: "p \<in> set (root_patterns False False True) \<longleftrightarrow> p \<in> set (map fst images_routes)"
  by (simp add: root_patterns_def images_routes_def SetupImagesRoutes_def route_def)

lemma not_both:
  "list_all (\<lambda>r. list_all (\<lambda>p. apart p (fst r)) ps) rs \<Longrightarrow> (p, h) \<in> set rs \<Longrightarrow> pattern_matches m segs p \<Longrightarrow> q \<in> set ps \<Longrightarrow>
   \<not> pattern_matches m segs q"
  using apart_matches [of q p m segs] by (fastforce simp: list_all_iff)

lemma covers_root: "covers \<lparr>pt_Method = None, pt_Segs = [], pt_Subtree = True\<rparr> p \<longleftrightarrow> pt_Segs p \<noteq> [] \<or> pt_Subtree p"
  by (simp add: covers_def)

lemma serve_root_mux:
  assumes "clean_segs segs = segs" and "mux_find (root_of a b c) m segs = Some (p, x)" and "segs \<noteq> [''openai'']" and "segs \<noteq> []"
  shows "serve_mux (root_of a b c) m segs = Handled x (wild_values (pt_Segs p) segs)"
proof -
  have "length (pt_Segs p') \<noteq> length segs" if "mux_find (root_of a b c) m (segs @ ['''']) = Some (p', h')" "pt_Subtree p'" for p' h'
  proof
    assume len: "length (pt_Segs p') = length segs"
    have "(p', h') \<in> set (root_of a b c)" and "segs_match (pt_Segs p') True (segs @ [''''])"
      using that unfolding root_find by (simp_all add: pattern_matches_def)
    moreover from this(1) have "p' \<in> set (root_patterns a b c)" unfolding root_patterns [symmetric] by force
    ultimately have "p' \<in> set (root_patterns a b c)" "segs_match (pt_Segs p') True (segs @ [''''])" by simp_all
    with that(2) len assms(3,4) show False by (cases segs) (auto simp: root_patterns_def split: if_splits)
  qed
  then show ?thesis using assms(1,2) by (auto simp: serve_mux_def Let_def split: option.split)
qed

lemma flat_handled:
  assumes "NewHTTPServer se images cfg = Inr mux"
  shows "serve_root mux m segs = Handled h ws \<longleftrightarrow> handles (served_routes images cfg) m segs h ws"
proof -
  define a b c where "a = list_ex pv_Enabled (cf_Providers cfg)" and "b = (cf_OpenAIProviders cfg \<noteq> [])" and "c = ci_Enabled images"
  have mux: "mux = root_of a b c" using NewHTTPServer_root [OF assms] by (simp add: a_def b_def c_def)
  have served: "served_routes images cfg = (if a then messages_routes else []) @ (if b then openai_routes else []) @ (if c then images_routes else [])"
    by (simp add: served_routes_def a_def b_def c_def)
  show ?thesis
  proof
    assume l: "serve_root mux m segs = Handled h ws"
    show "handles (served_routes images cfg) m segs h ws"
    proof (cases "serve_mux mux m segs")
      case (Handled x ws0)
      then have cl: "clean_segs segs = segs"
        and f: "\<exists>p. mux_find (root_of a b c) m segs = Some (p, x) \<and> ws0 = wild_values (pt_Segs p) segs"
        by (auto simp: serve_mux_def Let_def mux split: if_splits option.splits)
      then obtain p where p: "(p, x) \<in> set (root_of a b c)" "pattern_matches m segs p" "ws0 = wild_values (pt_Segs p) segs"
        by (auto simp: root_find)
      show ?thesis
      proof (cases x)
        case (Mounted_mux t)
        then have t: "(a \<and> t = messages_routes) \<or> (b \<and> t = openai_routes)" using p(1) by (auto simp: root_mem subtree_def)
        then have "flat t" using tables_flat by auto
        then have "handles t m segs h ws" using l Handled Mounted_mux by (simp add: serve_root_def flat_serve)
        then show ?thesis using t by (auto simp: handles_def served)
      next
        case (Mounted r)
        then have "h = r" "ws = ws0" "c" "(p, r) \<in> set images_routes"
          using l Handled p(1) by (auto simp: serve_root_def root_mem subtree_def)
        then show ?thesis using cl p(2,3) by (auto simp: handles_def served)
      qed
    qed (use l in \<open>simp_all add: serve_root_def\<close>)
  next
    assume "handles (served_routes images cfg) m segs h ws"
    then obtain p where cl: "clean_segs segs = segs" and p: "(p, h) \<in> set (served_routes images cfg)" "pattern_matches m segs p"
        "ws = wild_values (pt_Segs p) segs" by (auto simp: handles_def)
    have "(p, h) \<in> set (messages_routes @ openai_routes @ images_routes)" using p(1) by (auto simp: served split: if_splits)
    then have "\<not> segs_match (pt_Segs p) (pt_Subtree p) [''openai''] \<and> \<not> segs_match (pt_Segs p) (pt_Subtree p) []"
      using tables_apart(5) unfolding list_all_iff by fastforce
    with p(2) have ne: "segs \<noteq> [''openai'']" "segs \<noteq> []" unfolding pattern_matches_def by metis+
    consider (M) "a" "(p, h) \<in> set messages_routes" | (O) "b" "(p, h) \<in> set openai_routes" | (I) "c" "(p, h) \<in> set images_routes"
      using p(1) by (auto simp: served split: if_splits)
    then show "serve_root mux m segs = Handled h ws"
    proof cases
      case M
      have "mux_find (root_of a b c) m segs = Some (subtree [] (Mounted_mux messages_routes))"
        unfolding root_find
      proof (intro conjI ballI impI)
        fix q assume q: "q \<in> set (root_patterns a b c)" "pattern_matches m segs q"
        from q(1) show "covers q (fst (subtree [] (Mounted_mux messages_routes)))"
          by (rule root_patterns_cases)
            (use q(2) not_both [OF tables_apart(1) M(2) p(2)] openai_pattern images_patterns in \<open>auto simp: subtree_def\<close>)
      qed (use M(1) ne(2) in \<open>auto simp: root_mem subtree_def pattern_matches_def method_matches_def\<close>)
      then have "serve_mux mux m segs = Handled (Mounted_mux messages_routes) []"
        using serve_root_mux [OF cl _ ne] by (simp add: mux subtree_def)
      then show ?thesis
        using flat_serve [OF tables_flat(1), of m segs h ws] M(2) p(2,3) cl by (auto simp: serve_root_def handles_def)
    next
      case O
      have "segs_match [Lit ''openai''] True segs"
        using O(2) tables_apart(4) segs_cover_match p(2) by (fastforce simp: list_all_iff pattern_matches_def)
      then have "mux_find (root_of a b c) m segs = Some (subtree [Lit ''openai''] (Mounted_mux openai_routes))"
        unfolding root_find
      proof (intro conjI ballI impI)
        fix q assume q: "q \<in> set (root_patterns a b c)" "pattern_matches m segs q"
        from q(1) show "covers q (fst (subtree [Lit ''openai''] (Mounted_mux openai_routes)))"
          by (rule root_patterns_cases)
            (use q(2) not_both [OF tables_apart(2) O(2) p(2)] in \<open>auto simp: subtree_def covers_root\<close>)
      qed (use O(1) in \<open>auto simp: root_mem subtree_def pattern_matches_def method_matches_def\<close>)
      then have "serve_mux mux m segs = Handled (Mounted_mux openai_routes) []"
        using serve_root_mux [OF cl _ ne] by (cases segs) (simp_all add: mux subtree_def)
      then show ?thesis
        using flat_serve [OF tables_flat(2), of m segs h ws] O(2) p(2,3) cl by (auto simp: serve_root_def handles_def)
    next
      case I
      have "mux_find (root_of a b c) m segs = Some (p, Mounted h)"
        unfolding root_find
      proof (intro conjI ballI impI)
        fix q assume q: "q \<in> set (root_patterns a b c)" "pattern_matches m segs q"
        from q(1) show "covers q (fst (p, Mounted h))"
        proof (cases rule: root_patterns_cases)
          case 1
          then show ?thesis using ne(2) p(2) by (cases "pt_Segs p") (auto simp: covers_root pattern_matches_def split: if_splits)
        next
          case 2
          then show ?thesis using q(2) not_both [OF tables_apart(3) I(2) p(2)] openai_pattern by blast
        next
          case 3
          have "p \<in> set (map fst images_routes)" using I(2) by force
          then have "q = p \<or> apart q p" using 3(1) tables_flat(3) unfolding images_pattern flat_def by blast
          then show ?thesis using apart_matches q(2) p(2) by auto
        qed
      qed (use I p(2) in \<open>cases h, auto simp: root_mem\<close>)
      then have "serve_mux mux m segs = Handled (Mounted h) ws"
        using serve_root_mux [OF cl _ ne] p(3) by (simp add: mux)
      then show ?thesis by (simp add: serve_root_def)
    qed
  qed
qed

text \<open>
  C17: However the multiplexers are nested, a request is handled by the route that the one flat table of the configuration has for it, and
  only when its path is clean.
\<close>

theorem routes_flat:
  assumes "NewHTTPServer se images cfg = Inr mux"
  shows "serve_root mux m segs = Handled h ws \<longleftrightarrow> handles (served_routes images cfg) m segs h ws"
  by (rule flat_handled [OF assms])

section \<open>What is authenticated and limited\<close>

definition spends_keys :: "endpoint \<Rightarrow> bool" where
  "spends_keys e \<longleftrightarrow> e \<in> {MessagesEndpoint, ChatEndpoint, ResponsesEndpoint, GenerationsEndpoint, EditsEndpoint}"

lemma table_layers:
  "list_all (\<lambda>r. case snd r of (ls, e) \<Rightarrow>
      (AuthLayer \<in> set ls \<longleftrightarrow> e = MessagesEndpoint) \<and> (ConcurrencyLayer \<in> set ls \<longleftrightarrow> spends_keys e) \<and> (MaxBodyLayer \<in> set ls \<longleftrightarrow> spends_keys e))
     (messages_routes @ openai_routes @ images_routes)"
  by code_simp

lemma served_in_tables: "x \<in> set (served_routes images cfg) \<Longrightarrow> x \<in> set (messages_routes @ openai_routes @ images_routes)"
  by (auto simp: served_routes_def split: if_splits)

text \<open>
  C32: Of everything the server answers, only the messages endpoint asks for the credentials of the client; the chat, responses and images
  endpoints send requests with the configured keys for anyone, and so does the quota endpoint, which is limited in no way. The limits on concurrent requests
  and on the body hold for exactly the endpoints that relay requests.
\<close>

theorem only_messages_authenticated:
  assumes "NewHTTPServer se images cfg = Inr mux" and "serve_root mux m segs = Handled (ls, e) ws"
  shows "(AuthLayer \<in> set ls \<longleftrightarrow> e = MessagesEndpoint) \<and> (ConcurrencyLayer \<in> set ls \<longleftrightarrow> spends_keys e) \<and>
    (MaxBodyLayer \<in> set ls \<longleftrightarrow> spends_keys e)"
proof -
  obtain p where "(p, ls, e) \<in> set (messages_routes @ openai_routes @ images_routes)"
    using assms served_in_tables flat_handled [OF assms(1)] by (fastforce simp: handles_def)
  then show ?thesis using table_layers unfolding list_all_iff by fastforce
qed

text \<open>
  The switch of the responses API and its prefix are never read: with a provider for the OpenAI endpoints, responses are served under
  the fixed path.
\<close>

lemma responses_always_served:
  assumes "NewHTTPServer se images cfg = Inr mux" and "cf_OpenAIProviders cfg \<noteq> []"
  shows "serve_root mux ''POST'' [''openai'', ''v1'', ''responses''] = Handled (wireOpenAICompatMiddleware True, ResponsesEndpoint) []"
proof -
  have "handles openai_routes ''POST'' [''openai'', ''v1'', ''responses''] (wireOpenAICompatMiddleware True, ResponsesEndpoint) []"
  proof -
    have "(\<lparr>pt_Method = Some ''POST'', pt_Segs = [Lit ''openai'', Lit ''v1'', Lit ''responses''], pt_Subtree = False\<rparr>,
        wireOpenAICompatMiddleware True, ResponsesEndpoint) \<in> set openai_routes"
      by (simp add: openai_routes_def SetupOpenAIRoutes_def SetupResponsesRoutes_def route_def)
    moreover have "clean_segs [''openai'', ''v1'', ''responses''] = [''openai'', ''v1'', ''responses'']" by code_simp
    ultimately show ?thesis by (force simp: handles_def pattern_matches_def method_matches_def)
  qed
  then show ?thesis using assms(2) unfolding flat_handled [OF assms(1)] by (auto simp: handles_def served_routes_def)
qed

section \<open>The providers of the responses route\<close>

lemma responses_providers_allowed:
  assumes "responsesProviderInfos getInfos (Some ns) = Inr infos" and "ns \<noteq> []" and "i \<in> set infos"
  shows "\<exists>p. pi_Provider i = Some p \<and> prov_Name p \<in> set ns"
  using assms by (auto simp: responsesProviderInfos_def Let_def split: option.splits if_splits)

section \<open>Witnesses\<close>

definition no_errors :: server_env where
  "no_errors = \<lparr>se_messages = None, se_chat = None, se_responses = None, se_images = None\<rparr>"

definition no_images :: codex_images_config where
  "no_images = \<lparr>ci_Enabled = False, ci_AuthFile = '''', ci_BaseURL = '''', ci_Model = '''', ci_Originator = '''', ci_UserAgent = '''',
     ci_Instructions = '''', ci_RequestTimeoutMs = 0, ci_MaxImagesPerRequest = 0\<rparr>"

lemma demo_server: "NewHTTPServer no_errors no_images demo_config = Inr (root_of True False False)"
  by (simp add: NewHTTPServer_def no_errors_def no_images_def demo_config_def demo_provider_def setup_tables Let_def root_of_def)

lemma routes_flat_witness:
  "\<forall>h ws. serve_root (root_of True False False) ''GET'' [''health''] = Handled h ws \<longleftrightarrow>
     handles (served_routes no_images demo_config) ''GET'' [''health''] h ws"
  using routes_flat [OF demo_server] by blast

lemma demo_messages:
  "serve_root (root_of True False False) ''POST'' [''v1'', ''messages''] = Handled (messages_layers True, MessagesEndpoint) []"
  by code_simp

lemma only_messages_authenticated_witness:
  "AuthLayer \<in> set (messages_layers True) \<and> ConcurrencyLayer \<in> set (messages_layers True)"
  using only_messages_authenticated [OF demo_server demo_messages] by (simp add: spends_keys_def)

end
