(* ===== verification/Status_Pages.thy ===== *)
theory Status_Pages
  imports Providers Responses_Handler
begin

text \<open>
  The pages about models, providers and quotas (\<open>models.go\<close>, \<open>openai_models.go\<close>, \<open>providers_handler.go\<close>, \<open>zai_quota_handler.go\<close> in
  \<open>internal/proxy\<close>, \<open>providers/zai_quota.go\<close>).
\<close>

section \<open>Models\<close>

text \<open>A provider as the pages see it.\<close>

record listed_provider =
  lv_Name :: string
  lv_Owner :: string
  lv_BaseURL :: string
  lv_Models :: "model_info list"

text \<open>The list is asked for when there is an accessor. The three kinds of page have the same way of it.\<close>

definition providerList :: "'p list option \<Rightarrow> 'p list \<Rightarrow> 'p list" where
  "providerList getProviders fixed = (case getProviders of Some ps \<Rightarrow> ps | None \<Rightarrow> fixed)"

definition model_json :: "model_info \<Rightarrow> json" where
  "model_json m = JObj [(''id'', JStr (mi_ID m)), (''type'', JStr (mi_Type m)), (''display_name'', JStr (mi_DisplayName m)),
     (''created_at'', JStr (mi_CreatedAt m))]"

definition ModelsHandler_ServeHTTP :: "header \<Rightarrow> listed_provider list \<Rightarrow> response" where
  "ModelsHandler_ServeHTTP writer ps =
     (let allModels = concat (map lv_Models ps);
          firstID = (if allModels = [] then JNull else JStr (mi_ID (hd allModels)));
          lastID = (if allModels = [] then JNull else JStr (mi_ID (last allModels)))
      in writeJSON writer 200
           (JObj [(''data'', JArr (map model_json allModels)), (''has_more'', JBool False), (''first_id'', firstID), (''last_id'', lastID)]))"

definition OpenAIModelsHandler_ServeHTTP :: "header \<Rightarrow> int \<Rightarrow> listed_provider list \<Rightarrow> response" where
  "OpenAIModelsHandler_ServeHTTP writer now ps =
     writeJSON writer 200
       (JObj [(''object'', JStr ''list''),
         (''data'', JArr (concat (map (\<lambda>p. map (\<lambda>m. JObj [(''id'', JStr (mi_ID m)), (''object'', JStr ''model''), (''created'', JNum (itoa now)),
            (''owned_by'', JStr (lv_Owner p))]) (lv_Models p)) ps)))])"

section \<open>Providers\<close>

record key_status_json =
  kj_ID :: string
  kj_Available :: bool
  kj_Healthy :: bool
  kj_CooldownSeconds :: int
  kj_RPMRemaining :: int
  kj_RPMLimit :: int

record provider_status =
  pj_Name :: string
  pj_Type :: string
  pj_BaseURL :: string
  pj_Models :: "string list"
  pj_Active :: bool
  pj_Keys :: "key_status_json list"
  pj_KeysAvailable :: int
  pj_KeysTotal :: int

text \<open>The two readings of the clock for a key, and the rounding of seconds.\<close>

definition key_page_status :: "(rat \<Rightarrow> rat) \<Rightarrow> go_time \<times> go_time \<Rightarrow> key_metadata \<Rightarrow> key_status_json" where
  "key_page_status fl clock key =
     (let snap = Snapshot (fst clock) key;
          remaining = time_until (snd clock) (ks_CooldownUntil snap);
          cooldownSec = (if ks_CooldownUntil snap \<noteq> 0 \<and> 0 < remaining then float_to_int (duration_seconds fl remaining) else 0)
      in \<lparr>kj_ID = ks_ID snap, kj_Available = ks_Available snap, kj_Healthy = ks_Healthy snap, kj_CooldownSeconds = cooldownSec,
          kj_RPMRemaining = ks_RPMRemaining snap, kj_RPMLimit = ks_RPMLimit snap\<rparr>)"

text \<open>A nil pool counts as none. The clock is read twice for each key, by its place in the pool.\<close>

definition provider_page_status ::
    "(rat \<Rightarrow> rat) \<Rightarrow> (nat \<Rightarrow> go_time \<times> go_time) \<Rightarrow> ('l, 's) key_pool option \<Rightarrow> listed_provider \<Rightarrow> provider_status" where
  "provider_page_status fl clock pool p =
     (let info = \<lparr>pj_Name = lv_Name p, pj_Type = lv_Owner p, pj_BaseURL = lv_BaseURL p, pj_Models = map mi_ID (lv_Models p), pj_Active = True,
            pj_Keys = [], pj_KeysAvailable = 0, pj_KeysTotal = 0\<rparr>
      in case pool of
           None \<Rightarrow> info
         | Some pl \<Rightarrow>
             (let keys = pool_Keys pl
              in fold (\<lambda>(i, key) info.
                   let s = key_page_status fl (clock i) key;
                       info = (if kj_Available s then info\<lparr>pj_KeysAvailable := pj_KeysAvailable info + 1\<rparr> else info)
                   in info\<lparr>pj_Keys := pj_Keys info @ [s]\<rparr>)
                 (enumerate 0 keys) (info\<lparr>pj_KeysTotal := int (length keys)\<rparr>)))"

definition key_status_object :: "key_status_json \<Rightarrow> json" where
  "key_status_object k = JObj [(''id'', JStr (kj_ID k)), (''available'', JBool (kj_Available k)), (''healthy'', JBool (kj_Healthy k)),
     (''cooldown_seconds'', JNum (itoa (kj_CooldownSeconds k))), (''rpm_remaining'', JNum (itoa (kj_RPMRemaining k))),
     (''rpm_limit'', JNum (itoa (kj_RPMLimit k)))]"

definition provider_status_object :: "provider_status \<Rightarrow> json" where
  "provider_status_object p = JObj ([(''name'', JStr (pj_Name p)), (''type'', JStr (pj_Type p)), (''base_url'', JStr (pj_BaseURL p)),
     (''models'', JArr (map JStr (pj_Models p))), (''active'', JBool (pj_Active p))] @
     opt_member (pj_Keys p \<noteq> []) ''keys'' (JArr (map key_status_object (pj_Keys p))) @
     [(''keys_available'', JNum (itoa (pj_KeysAvailable p))), (''keys_total'', JNum (itoa (pj_KeysTotal p)))])"

definition ProvidersHandler_ServeHTTP ::
    "(rat \<Rightarrow> rat) \<Rightarrow> (string \<Rightarrow> nat \<Rightarrow> go_time \<times> go_time) \<Rightarrow> header \<Rightarrow> (string \<rightharpoonup> ('l, 's) key_pool) \<Rightarrow> listed_provider list \<Rightarrow> response" where
  "ProvidersHandler_ServeHTTP fl clock writer pools ps =
     writeJSON writer 200
       (JObj [(''object'', JStr ''list''),
         (''data'', JArr (map (\<lambda>p. provider_status_object (provider_page_status fl (clock (lv_Name p)) (pools (lv_Name p)) p)) ps))])"

section \<open>Quotas\<close>

record quota_limit =
  ql_Type :: string
  ql_Percentage :: int
  ql_Usage :: int
  ql_CurrentValue :: int
  ql_Remaining :: int
  ql_NextResetTime :: int

text \<open>The limits can be absent.\<close>

record zai_quota =
  zq_Msg :: string
  zq_Level :: string
  zq_Limits :: "quota_limit list option"
  zq_Code :: int
  zq_Success :: bool

definition dec_limit :: "json \<Rightarrow> quota_limit option" where
  "dec_limit = dec_struct (\<lambda>ms.
     case (str_field ms ''type'', dec_number 0 (members ms ''percentage''), dec_number 0 (members ms ''usage''),
           dec_number 0 (members ms ''currentValue''), dec_number 0 (members ms ''remaining''), dec_number 0 (members ms ''nextResetTime'')) of
       (Some t, Some p, Some u, Some c, Some r, Some n) \<Rightarrow>
         Some \<lparr>ql_Type = t, ql_Percentage = p, ql_Usage = u, ql_CurrentValue = c, ql_Remaining = r, ql_NextResetTime = n\<rparr>
     | _ \<Rightarrow> None)"

definition dec_limits :: "json \<Rightarrow> quota_limit list option" where
  "dec_limits v = (case v of JArr vs \<Rightarrow> those (map dec_limit vs) | _ \<Rightarrow> None)"

definition dec_quota_data :: "string \<times> quota_limit list option \<Rightarrow> json \<Rightarrow> (string \<times> quota_limit list option) option" where
  "dec_quota_data d = dec_struct (\<lambda>ms.
     case (dec_string (fst d) (members ms ''level''), dec_optional dec_limits (snd d) (members ms ''limits'')) of
       (Some l, Some ls) \<Rightarrow> Some (l, ls) | _ \<Rightarrow> None)"

fun dec_flag :: "bool \<Rightarrow> json list \<Rightarrow> bool option" where
  "dec_flag b [] = Some b"
| "dec_flag b (JNull # vs) = dec_flag b vs"
| "dec_flag b (JBool c # vs) = dec_flag c vs"
| "dec_flag b (v # vs) = None"

definition dec_quota :: "json \<Rightarrow> zai_quota option" where
  "dec_quota = dec_struct (\<lambda>ms.
     case (str_field ms ''msg'', dec_each dec_quota_data ('''', None) (members ms ''data''), dec_number 0 (members ms ''code''),
           dec_flag False (members ms ''success'')) of
       (Some m, Some (l, ls), Some c, Some s) \<Rightarrow> Some \<lparr>zq_Msg = m, zq_Level = l, zq_Limits = ls, zq_Code = c, zq_Success = s\<rparr>
     | _ \<Rightarrow> None)"

definition limit_json :: "quota_limit \<Rightarrow> json" where
  "limit_json l = JObj ([(''type'', JStr (ql_Type l)), (''percentage'', JNum (itoa (ql_Percentage l)))] @
     opt_member (ql_Usage l \<noteq> 0) ''usage'' (JNum (itoa (ql_Usage l))) @
     opt_member (ql_CurrentValue l \<noteq> 0) ''currentValue'' (JNum (itoa (ql_CurrentValue l))) @
     opt_member (ql_Remaining l \<noteq> 0) ''remaining'' (JNum (itoa (ql_Remaining l))) @
     opt_member (ql_NextResetTime l \<noteq> 0) ''nextResetTime'' (JNum (itoa (ql_NextResetTime l))))"

definition quota_json :: "zai_quota \<Rightarrow> json" where
  "quota_json q = JObj [(''msg'', JStr (zq_Msg q)),
     (''data'', JObj [(''level'', JStr (zq_Level q)), (''limits'', case zq_Limits q of None \<Rightarrow> JNull | Some ls \<Rightarrow> JArr (map limit_json ls))]),
     (''code'', JNum (itoa (zq_Code q))), (''success'', JBool (zq_Success q))]"

text \<open>
  What is used of the standard library: \<open>qe_parse\<close> is \<open>url.Parse\<close>, scheme and host; \<open>qe_request\<close> an error of making the request; \<open>qe_do\<close>
  the client; \<open>qe_dec\<close> the first JSON value of a body that may end in an error; \<open>qe_show\<close> and \<open>qe_quote\<close> are \<open>Error\<close> and \<open>%q\<close>.
\<close>

record quota_call =
  qc_URL :: string
  qc_Authorization :: string

record quota_env =
  qe_parse :: "string \<Rightarrow> go_error + string \<times> string"
  qe_request :: "string \<Rightarrow> go_error option"
  qe_do :: "quota_call \<Rightarrow> go_error + int \<times> string"
  qe_dec :: "string \<Rightarrow> go_error + json"
  qe_show :: "go_error \<Rightarrow> string"
  qe_quote :: "string \<Rightarrow> string"

definition ZAIQuotaURL :: "quota_env \<Rightarrow> string \<Rightarrow> go_error + string" where
  "ZAIQuotaURL Q baseURL =
     (case qe_parse Q baseURL of
        Inl e \<Rightarrow> Inl (Wrapped ''parse ZAI base URL'' e)
      | Inr (scheme, host) \<Rightarrow>
          if scheme = '''' \<or> host = '''' then Inl (OtherError (''invalid ZAI base URL '' @ qe_quote Q baseURL))
          else Inr (scheme @ ''://'' @ host @ ''/api/monitor/usage/quota/limit''))"

text \<open>The result and the calls made.\<close>

definition QueryZAIQuota :: "quota_env \<Rightarrow> string \<Rightarrow> string \<Rightarrow> (go_error + zai_quota) \<times> quota_call list" where
  "QueryZAIQuota Q baseURL apiKey =
     (if apiKey = '''' then (Inl (OtherError ''ZAI API key is empty''), [])
      else case ZAIQuotaURL Q baseURL of
             Inl e \<Rightarrow> (Inl e, [])
           | Inr endpoint \<Rightarrow>
               (case qe_request Q endpoint of
                  Some e \<Rightarrow> (Inl (Wrapped ''create ZAI quota request'' e), [])
                | None \<Rightarrow>
                    (let call = \<lparr>qc_URL = endpoint, qc_Authorization = apiKey\<rparr>
                     in (case qe_do Q call of
                           Inl e \<Rightarrow> Inl (Wrapped ''query ZAI quota'' e)
                         | Inr (status, body) \<Rightarrow>
                             if status < 200 \<or> 300 \<le> status then Inl (OtherError (''ZAI quota request failed with status '' @ itoa status))
                             else (case qe_dec Q body of
                                     Inl e \<Rightarrow> Inl (Wrapped ''decode ZAI quota response'' e)
                                   | Inr d \<Rightarrow> (case dec_quota d of
                                                None \<Rightarrow> Inl (Wrapped ''decode ZAI quota response'' json_error)
                                              | Some q \<Rightarrow> Inr q)),
                         [call]))))"

text \<open>The parameters of the query; the key and its identifier, or the error.\<close>

definition resolvePoolAPIKey :: "quota_env \<Rightarrow> string \<Rightarrow> string \<Rightarrow> key_metadata list \<Rightarrow> go_error + string \<times> string" where
  "resolvePoolAPIKey Q rawIndex requestedID keys =
     (if rawIndex \<noteq> ''''
      then (case atoi rawIndex of
              Some idx \<Rightarrow>
                if 0 \<le> idx \<and> idx < int (length keys) then Inr (k_APIKey (keys ! nat idx), k_ID (keys ! nat idx))
                else Inl (OtherError (''invalid key_index '' @ qe_quote Q rawIndex))
            | None \<Rightarrow> Inl (OtherError (''invalid key_index '' @ qe_quote Q rawIndex)))
      else if requestedID = ''''
      then (case keys of
              [key] \<Rightarrow> Inr (k_APIKey key, k_ID key)
            | _ \<Rightarrow> Inl (OtherError ''key_index or key_id is required for pooled providers''))
      else case find (\<lambda>key. k_ID key = requestedID) keys of
             Some key \<Rightarrow> Inr (k_APIKey key, k_ID key)
           | None \<Rightarrow> Inl (OtherError (''key_id '' @ qe_quote Q requestedID @ '' not found'')))"

definition resolveAPIKey ::
    "quota_env \<Rightarrow> (string \<rightharpoonup> ('l, 's) key_pool) \<Rightarrow> (string \<rightharpoonup> string) \<Rightarrow> string \<Rightarrow> string \<Rightarrow> string \<Rightarrow> go_error + string \<times> string" where
  "resolveAPIKey Q pools keys name rawIndex requestedID =
     (case pools name of
        Some pool \<Rightarrow> resolvePoolAPIKey Q rawIndex requestedID (pool_Keys pool)
      | None \<Rightarrow>
          (case keys name of
             Some key \<Rightarrow> if key = '''' then Inl (OtherError (''no API key configured for provider '' @ qe_quote Q name)) else Inr (key, ''default'')
           | None \<Rightarrow> Inl (OtherError (''no API key configured for provider '' @ qe_quote Q name))))"

text \<open>Without a function for it, the owner of the provider decides.\<close>

definition isZhipu :: "(string \<Rightarrow> bool) option \<Rightarrow> listed_provider \<Rightarrow> bool" where
  "isZhipu isZhipuProvider p = (case isZhipuProvider of Some f \<Rightarrow> f (lv_Name p) | None \<Rightarrow> lv_Owner p = ''zhipu'')"

definition ZAIQuotaHandler_ServeHTTP ::
    "quota_env \<Rightarrow> header \<Rightarrow> listed_provider list \<Rightarrow> (string \<rightharpoonup> ('l, 's) key_pool) \<Rightarrow> (string \<rightharpoonup> string) \<Rightarrow> (string \<Rightarrow> bool) option \<Rightarrow>
     string \<Rightarrow> string \<Rightarrow> string \<Rightarrow> response \<times> quota_call list" where
  "ZAIQuotaHandler_ServeHTTP Q writer ps pools keys zhipu name rawIndex requestedID =
     (case find (\<lambda>p. lv_Name p = name) ps of
        None \<Rightarrow> (WriteError writer 404 ''not_found_error'' (''provider '' @ qe_quote Q name @ '' not found''), [])
      | Some p \<Rightarrow>
          if \<not> isZhipu zhipu p then (WriteError writer 400 ''invalid_request_error'' ''quota lookup requires zhipu: true'', [])
          else (case resolveAPIKey Q pools keys (lv_Name p) rawIndex requestedID of
                  Inl e \<Rightarrow> (WriteError writer 400 ''invalid_request_error'' (qe_show Q e), [])
                | Inr (apiKey, keyID) \<Rightarrow>
                    (case QueryZAIQuota Q (lv_BaseURL p) apiKey of
                       (Inl e, calls) \<Rightarrow> (WriteError writer 502 ''api_error'' (qe_show Q e), calls)
                     | (Inr quota, calls) \<Rightarrow>
                         (writeJSON writer 200 (JObj [(''key_id'', JStr keyID), (''object'', JStr ''zai_quota''),
                            (''provider'', JStr (lv_Name p)), (''quota'', quota_json quota)]), calls))))"

end
