(* ===== verification/Status_Pages_Facts.thy ===== *)
theory Status_Pages_Facts
  imports Status_Pages Key_Pool_Facts
begin

text \<open>
  What the status pages give away, that they agree with the key pool, and whose key a quota lookup uses.
\<close>

section \<open>The providers page\<close>

definition page_keys :: "(rat \<Rightarrow> rat) \<Rightarrow> (nat \<Rightarrow> go_time \<times> go_time) \<Rightarrow> key_metadata list \<Rightarrow> key_status_json list" where
  "page_keys fl clock keys = map (\<lambda>(i, key). key_page_status fl (clock i) key) (enumerate 0 keys)"

lemma page_fold:
  "fold (\<lambda>(i, key) info. let s = key_page_status fl (clock i) key;
        info = (if kj_Available s then info\<lparr>pj_KeysAvailable := pj_KeysAvailable info + 1\<rparr> else info) in info\<lparr>pj_Keys := pj_Keys info @ [s]\<rparr>) xs info =
   info\<lparr>pj_Keys := pj_Keys info @ map (\<lambda>(i, key). key_page_status fl (clock i) key) xs,
     pj_KeysAvailable := pj_KeysAvailable info + int (length (filter (\<lambda>(i, key). kj_Available (key_page_status fl (clock i) key)) xs))\<rparr>"
  by (induction xs arbitrary: info) (auto simp: Let_def split_def)

text \<open>A pool is shown key by key, in its order.\<close>

lemma provider_page_status_pool:
  "provider_page_status fl clock (Some pl) p =
     \<lparr>pj_Name = lv_Name p, pj_Type = lv_Owner p, pj_BaseURL = lv_BaseURL p, pj_Models = map mi_ID (lv_Models p), pj_Active = True,
      pj_Keys = page_keys fl clock (pool_Keys pl),
      pj_KeysAvailable = int (length (filter kj_Available (page_keys fl clock (pool_Keys pl)))),
      pj_KeysTotal = int (length (pool_Keys pl))\<rparr>"
  unfolding provider_page_status_def Let_def option.case page_fold [unfolded Let_def]
  by (simp add: page_keys_def filter_map comp_def split_def)

text \<open>A key without its secret.\<close>

definition public_key :: "key_metadata \<Rightarrow> key_metadata" where
  "public_key k = k\<lparr>k_APIKey := ''''\<rparr>"

lemma key_page_status_public: "key_page_status fl c (public_key k) = key_page_status fl c k"
  by (simp add: key_page_status_def Snapshot_def public_key_def)

lemma page_keys_public: "map public_key ks = map public_key ls \<Longrightarrow> page_keys fl clock ks = page_keys fl clock ls"
proof -
  assume e: "map public_key ks = map public_key ls"
  have "map (\<lambda>(i, key). key_page_status fl (clock i) key) (enumerate n (map public_key xs)) =
      map (\<lambda>(i, key). key_page_status fl (clock i) key) (enumerate n xs)" for xs n
    by (induction xs arbitrary: n) (simp_all add: key_page_status_public)
  then have p: "page_keys fl clock (map public_key xs) = page_keys fl clock xs" for xs
    by (simp add: page_keys_def)
  show ?thesis using p [of ks] p [of ls] by (simp add: e)
qed

text \<open>
  The page about providers, which anyone may read, gives away nothing of the secrets of the keys: two runs whose pools are the same
  but for them show the same page.
\<close>

theorem providers_page_hides_keys:
  assumes "\<And>n. rel_option (\<lambda>a b. map public_key (pool_Keys a) = map public_key (pool_Keys b)) (pools n) (pools' n)"
  shows "ProvidersHandler_ServeHTTP fl clock writer pools ps = ProvidersHandler_ServeHTTP fl clock writer pools' ps"
proof -
  have "provider_page_status fl c (pools n) p = provider_page_status fl c (pools' n) p" for c n p
    using assms [of n]
  proof (cases rule: option.rel_cases)
    case (Some a b)
    moreover from Some(3) have "length (pool_Keys a) = length (pool_Keys b)" by (rule map_eq_imp_length_eq)
    moreover have "page_keys fl c (pool_Keys a) = page_keys fl c (pool_Keys b)" by (rule page_keys_public [OF Some(3)])
    ultimately show ?thesis by (simp add: provider_page_status_pool)
  qed (simp add: provider_page_status_def)
  then show ?thesis by (simp add: ProvidersHandler_ServeHTTP_def)
qed

text \<open>
  The numbers of the page are those of the pool: with the same clock, as many keys are shown as available as the statistics of the
  pool count, and all its keys are shown.
\<close>

theorem providers_page_agrees:
  assumes "lo_pool_ok L"
  shows "pj_KeysAvailable (provider_page_status fl (\<lambda>_. (now, now')) (Some pl) p) = st_AvailableKeys (GetStats L now pl) \<and>
    pj_KeysTotal (provider_page_status fl (\<lambda>_. (now, now')) (Some pl) p) = st_TotalKeys (GetStats L now pl)"
proof -
  have "st_AvailableKeys (foldl (stats_step now) st ks) = st_AvailableKeys st + int (length (filter (IsAvailable now) ks))" for st ks
    by (induction ks arbitrary: st) (auto simp: stats_step_def Let_def)
  moreover have "st_TotalKeys (foldl (stats_step now) st ks) = st_TotalKeys st" for st ks
    by (induction ks arbitrary: st) (auto simp: stats_step_def Let_def)
  moreover have "filter kj_Available (page_keys fl (\<lambda>_. (now, now')) ks) = map (key_page_status fl (now, now')) (filter (IsAvailable now) ks)" for ks
  proof -
    have "page_keys fl (\<lambda>_. (now, now')) ks = map (key_page_status fl (now, now')) ks"
      by (simp add: page_keys_def split_def flip: map_map [unfolded comp_def])
    moreover have "kj_Available (key_page_status fl (now, now') k) = IsAvailable now k" for k
      by (simp add: key_page_status_def Snapshot_def IsAvailable_def Let_def)
    ultimately show ?thesis by (simp add: filter_map comp_def)
  qed
  ultimately show ?thesis
    using assms by (simp add: provider_page_status_pool GetStats_def lo_pool_ok_def pool_Keys_def)
qed

section \<open>The quota page\<close>

lemma resolvePoolAPIKey_mem:
  "resolvePoolAPIKey Q rawIndex requestedID keys = Inr (apiKey, keyID) \<Longrightarrow> \<exists>k \<in> set keys. k_APIKey k = apiKey \<and> k_ID k = keyID"
  by (auto simp: resolvePoolAPIKey_def find_Some_iff split: if_splits option.splits list.splits)

definition key_for ::
    "(string \<rightharpoonup> ('l, 's) key_pool) \<Rightarrow> (string \<rightharpoonup> string) \<Rightarrow> string \<Rightarrow> string \<Rightarrow> bool" where
  "key_for pools keys name apiKey \<longleftrightarrow>
     (case pools name of Some pool \<Rightarrow> apiKey \<in> k_APIKey ` set (pool_Keys pool) | None \<Rightarrow> keys name = Some apiKey)"

lemma resolveAPIKey_sound: "resolveAPIKey Q pools keys name rawIndex requestedID = Inr (apiKey, keyID) \<Longrightarrow> key_for pools keys name apiKey"
  using resolvePoolAPIKey_mem by (fastforce simp: resolveAPIKey_def key_for_def split: option.splits if_splits)

lemma QueryZAIQuota_calls:
  "call \<in> set (snd (QueryZAIQuota Q baseURL apiKey)) \<Longrightarrow>
     qc_Authorization call = apiKey \<and> apiKey \<noteq> '''' \<and> ZAIQuotaURL Q baseURL = Inr (qc_URL call)"
  by (auto simp: QueryZAIQuota_def Let_def split: if_splits sum.splits option.splits)

lemma QueryZAIQuota_once: "length (snd (QueryZAIQuota Q baseURL apiKey)) \<le> 1"
  by (auto simp: QueryZAIQuota_def Let_def split: sum.splits option.splits)

text \<open>
  A quota lookup makes at most one call, to the host of the first provider of the name, with a key of that provider; and only for a
  provider that is marked for it.
\<close>

lemma quota_call_sound:
  "length (snd (ZAIQuotaHandler_ServeHTTP Q writer ps pools keys zhipu name rawIndex requestedID)) \<le> 1 \<and>
   (case snd (ZAIQuotaHandler_ServeHTTP Q writer ps pools keys zhipu name rawIndex requestedID) of
      [] \<Rightarrow> True
    | call # _ \<Rightarrow> \<exists>p. find (\<lambda>p. lv_Name p = name) ps = Some p \<and> isZhipu zhipu p \<and> ZAIQuotaURL Q (lv_BaseURL p) = Inr (qc_URL call) \<and>
        key_for pools keys name (qc_Authorization call) \<and> qc_Authorization call \<noteq> '''')"
proof (cases "find (\<lambda>p. lv_Name p = name) ps")
  case None
  then show ?thesis by (simp add: ZAIQuotaHandler_ServeHTTP_def)
next
  case (Some p)
  then have n: "lv_Name p = name" by (auto simp: find_Some_iff)
  show ?thesis
  proof (cases "isZhipu zhipu p")
    case False
    then show ?thesis using Some by (simp add: ZAIQuotaHandler_ServeHTTP_def)
  next
    case True
    show ?thesis
    proof (cases "resolveAPIKey Q pools keys name rawIndex requestedID")
      case (Inl e)
      then show ?thesis using Some True n by (simp add: ZAIQuotaHandler_ServeHTTP_def)
    next
      case (Inr r)
      obtain apiKey keyID where r: "r = (apiKey, keyID)" by fastforce
      have "snd (ZAIQuotaHandler_ServeHTTP Q writer ps pools keys zhipu name rawIndex requestedID) = snd (QueryZAIQuota Q (lv_BaseURL p) apiKey)"
        using Some True n Inr r by (auto simp: ZAIQuotaHandler_ServeHTTP_def split: sum.split prod.split)
      then show ?thesis
        using Some True n resolveAPIKey_sound [OF Inr [unfolded r]] QueryZAIQuota_once [of Q "lv_BaseURL p" apiKey]
          QueryZAIQuota_calls [of _ Q "lv_BaseURL p" apiKey]
        by (auto split: list.split)
    qed
  qed
qed

section \<open>Witnesses\<close>

definition small_pool :: "string \<Rightarrow> (unit, unit) key_pool" where
  "small_pool secret = \<lparr>p_heap = \<lambda>_. (NewKeyMetadata 0 ''k'' 1 1 1)\<lparr>k_APIKey := secret, k_ID := ''id''\<rparr>, p_keys = [0], p_keyMap = [''id'' \<mapsto> 0],
     p_limiters = Map.empty, p_selector = (), p_provider = ''p''\<rparr>"

lemma providers_page_hides_keys_witness:
  "ProvidersHandler_ServeHTTP id (\<lambda>_ _. (1, 1)) (\<lambda>_. []) [''p'' \<mapsto> small_pool ''sk-1''] [\<lparr>lv_Name = ''p'', lv_Owner = ''o'', lv_BaseURL = ''u'', lv_Models = []\<rparr>] =
   ProvidersHandler_ServeHTTP id (\<lambda>_ _. (1, 1)) (\<lambda>_. []) [''p'' \<mapsto> small_pool ''sk-2''] [\<lparr>lv_Name = ''p'', lv_Owner = ''o'', lv_BaseURL = ''u'', lv_Models = []\<rparr>]"
  by (rule providers_page_hides_keys) (simp add: small_pool_def pool_Keys_def public_key_def)

lemma providers_page_agrees_witness:
  "pj_KeysTotal (provider_page_status id (\<lambda>_. (1, 1)) (Some (small_pool ''sk-1'')) \<lparr>lv_Name = ''p'', lv_Owner = ''o'', lv_BaseURL = ''u'', lv_Models = []\<rparr>) = 1"
  using providers_page_agrees [OF std_lo_pool_ok, of id 1 1 "small_pool ''sk-1''" "\<lparr>lv_Name = ''p'', lv_Owner = ''o'', lv_BaseURL = ''u'', lv_Models = []\<rparr>"]
  by (simp add: small_pool_def provider_page_status_pool pool_Keys_def)

end
