(* ===== verification/Config_Loading.thy ===== *)
theory Config_Loading
  imports Config Concurrency_Limit
begin

text \<open>
  From a file to the configuration in use: reading it (\<open>loader.go\<close>), noticing that it changed (\<open>watcher.go\<close>) and what the services do
  then (\<open>runtime.go\<close>; \<open>config_service.go\<close>, \<open>concurrency_service.go\<close> in \<open>internal/di\<close>). The parsers of YAML and TOML, the file system and its
  notifications are arguments or steps of the environment.
\<close>

section \<open>Reading a file\<close>

text \<open>\<open>os.ExpandEnv\<close>: the name after a dollar sign and how many bytes it takes.\<close>

definition shell_special :: "char \<Rightarrow> bool" where
  "shell_special c \<longleftrightarrow> c \<in> set ''*#$@!?-0123456789''"

definition alpha_num :: "char \<Rightarrow> bool" where
  "alpha_num c \<longleftrightarrow> c = CHR ''_'' \<or> is_digit c \<or> (97 \<le> (of_char c :: nat) \<and> (of_char c :: nat) \<le> 122) \<or>
     (65 \<le> (of_char c :: nat) \<and> (of_char c :: nat) \<le> 90)"

definition getShellName :: "string \<Rightarrow> string \<times> nat" where
  "getShellName s =
     (case s of
        [] \<Rightarrow> ('''', 0)
      | c # cs \<Rightarrow>
          if c = CHR ''{''
          then if 2 < length s \<and> shell_special (s ! 1) \<and> s ! 2 = CHR ''}'' then ([s ! 1], 3)
               else let name = takeWhile (\<lambda>x. x \<noteq> CHR ''}'') cs
                    in if length name = length cs then ('''', 1)
                       else if name = '''' then ('''', 2) else (name, length name + 2)
          else if shell_special c then ([c], 1)
          else (takeWhile alpha_num s, length (takeWhile alpha_num s)))"

function expand :: "(string \<Rightarrow> string) \<Rightarrow> string \<Rightarrow> string" where
  "expand env [] = []"
| "expand env [c] = [c]"
| "expand env (c # d # s) =
     (if c \<noteq> CHR ''$'' then c # expand env (d # s)
      else case getShellName (d # s) of
             (name, w) \<Rightarrow> (if name \<noteq> '''' then env name else if 0 < w then '''' else [c]) @ expand env (drop w (d # s)))"
  by pat_completeness auto
termination by (relation "measure (length \<circ> snd)") auto

datatype config_format = FormatYAML | FormatTOML

text \<open>\<open>filepath.Ext\<close>: from the last dot of the last element.\<close>

definition path_ext :: "string \<Rightarrow> string" where
  "path_ext path =
     (let r = rev path; after = takeWhile (\<lambda>c. c \<noteq> CHR ''.'' \<and> c \<noteq> CHR ''/'') r; rest = drop (length after) r
      in case rest of c # _ \<Rightarrow> if c = CHR ''.'' then c # rev after else '''' | [] \<Rightarrow> '''')"

definition detectFormat :: "string \<Rightarrow> go_error + config_format" where
  "detectFormat path =
     (let ext = map to_lower (path_ext path)
      in if ext = ''.yaml'' \<or> ext = ''.yml'' then Inr FormatYAML
         else if ext = ''.toml'' then Inr FormatTOML
         else Inl (OtherError (''unsupported config format '' @ ext)))"

text \<open>
  \<open>le_clean\<close> is \<open>filepath.Clean\<close>; \<open>le_open\<close> the file system: what reading the file gives, with the error at its end; \<open>le_yaml\<close> and \<open>le_toml\<close>
  the parsers. The error of closing the file reaches nobody.
\<close>

record 'c load_env =
  le_clean :: "string \<Rightarrow> string"
  le_open :: "string \<Rightarrow> go_error + string \<times> go_error option"
  le_env :: "string \<Rightarrow> string"
  le_yaml :: "string \<Rightarrow> go_error + 'c"
  le_toml :: "string \<Rightarrow> go_error + 'c"

definition loadFromReaderWithFormat :: "'c load_env \<Rightarrow> config_format \<Rightarrow> string \<times> go_error option \<Rightarrow> go_error + 'c" where
  "loadFromReaderWithFormat E format body =
     (case snd body of
        Some e \<Rightarrow> Inl (Wrapped ''failed to read config'' e)
      | None \<Rightarrow>
          (let expanded = expand (le_env E) (fst body)
           in case format of
                FormatYAML \<Rightarrow> (case le_yaml E expanded of Inl e \<Rightarrow> Inl (Wrapped ''failed to parse config YAML'' e) | Inr c \<Rightarrow> Inr c)
              | FormatTOML \<Rightarrow> (case le_toml E expanded of Inl e \<Rightarrow> Inl (Wrapped ''failed to parse config TOML'' e) | Inr c \<Rightarrow> Inr c)))"

definition Load :: "'c load_env \<Rightarrow> string \<Rightarrow> go_error + 'c" where
  "Load E path =
     (let path = le_clean E path
      in case detectFormat path of
           Inl e \<Rightarrow> Inl e
         | Inr format \<Rightarrow>
             (case le_open E path of
                Inl e \<Rightarrow> Inl (Wrapped (''failed to open config file '' @ path) e)
              | Inr body \<Rightarrow> loadFromReaderWithFormat E format body))"

section \<open>Noticing changes\<close>

text \<open>A notification: the base name of the file, and whether it was written or created.\<close>

record fs_event =
  fe_Base :: string
  fe_Write :: bool
  fe_Create :: bool

definition shouldProcessEvent :: "string \<Rightarrow> fs_event \<Rightarrow> bool" where
  "shouldProcessEvent targetFile event \<longleftrightarrow> fe_Base event = targetFile \<and> (fe_Write event \<or> fe_Create event)"

text \<open>
  A reload runs in the goroutine of its timer: it has passed the check that the watcher is open, or it has loaded a configuration
  and called some of the callbacks.
\<close>

datatype 'c reload = Fired | Calling 'c nat

text \<open>
  \<open>wt_file\<close> is what loading the file gives; \<open>wt_state\<close> is what the callbacks change. Stopping a timer and starting another leaves one timer
  armed, and does nothing to a reload whose timer has fired.
\<close>

record ('c, 's) watcher =
  wt_file :: "'c option"
  wt_events :: "fs_event list"
  wt_timer :: bool
  wt_reloads :: "'c reload list"
  wt_closed :: bool
  wt_watching :: bool
  wt_state :: 's

type_synonym ('c, 's) callback = "'c \<Rightarrow> 's \<Rightarrow> 's"

definition new_watcher :: "'c option \<Rightarrow> 's \<Rightarrow> ('c, 's) watcher" where
  "new_watcher contents s = \<lparr>wt_file = contents, wt_events = [], wt_timer = False, wt_reloads = [], wt_closed = False, wt_watching = True, wt_state = s\<rparr>"

definition remove_at :: "nat \<Rightarrow> 'a list \<Rightarrow> 'a list" where
  "remove_at i xs = take i xs @ drop (Suc i) xs"

definition handleEvent :: "string \<Rightarrow> fs_event \<Rightarrow> ('c, 's) watcher \<Rightarrow> ('c, 's) watcher" where
  "handleEvent targetFile event w = (if shouldProcessEvent targetFile event then w\<lparr>wt_timer := True\<rparr> else w)"

definition timer_fires :: "('c, 's) watcher \<Rightarrow> ('c, 's) watcher" where
  "timer_fires w = w\<lparr>wt_timer := False, wt_reloads := (if wt_closed w then wt_reloads w else wt_reloads w @ [Fired])\<rparr>"

definition triggerReload :: "nat \<Rightarrow> ('c, 's) watcher \<Rightarrow> ('c, 's) watcher" where
  "triggerReload i w =
     (case wt_file w of
        None \<Rightarrow> w\<lparr>wt_reloads := remove_at i (wt_reloads w)\<rparr>
      | Some cfg \<Rightarrow> w\<lparr>wt_reloads := (wt_reloads w)[i := Calling cfg 0]\<rparr>)"

definition invokeCallback :: "('c, 's) callback list \<Rightarrow> nat \<Rightarrow> 'c \<Rightarrow> nat \<Rightarrow> ('c, 's) watcher \<Rightarrow> ('c, 's) watcher" where
  "invokeCallback cbs i cfg n w =
     (if n < length cbs
      then w\<lparr>wt_state := (cbs ! n) cfg (wt_state w), wt_reloads := (wt_reloads w)[i := Calling cfg (Suc n)]\<rparr>
      else w\<lparr>wt_reloads := remove_at i (wt_reloads w)\<rparr>)"

definition watcher_Close :: "('c, 's) watcher \<Rightarrow> go_error option \<times> ('c, 's) watcher" where
  "watcher_Close w =
     (if wt_closed w then (Some (Sentinel ''config: watcher already closed''), w) else (None, w\<lparr>wt_closed := True\<rparr>))"

text \<open>
  The steps: the file changes, which makes a notification for it; other notifications; the loop takes a notification; the timer fires; a reload
  loads the file; it calls the next callback, or is done; the watcher is closed; the context of the loop is cancelled, which stops the timer. With \<open>one\<close> a reload loads the file only when no other is calling callbacks.
\<close>

inductive watch_step :: "bool \<Rightarrow> ('c, 's) callback list \<Rightarrow> string \<Rightarrow> ('c, 's) watcher \<Rightarrow> ('c, 's) watcher \<Rightarrow> bool"
  for one :: bool and cbs :: "('c, 's) callback list" and target :: string where
  changes: "shouldProcessEvent target ev \<Longrightarrow> watch_step one cbs target w (w\<lparr>wt_file := contents, wt_events := wt_events w @ [ev]\<rparr>)"
| notifies: "watch_step one cbs target w (w\<lparr>wt_events := wt_events w @ [ev]\<rparr>)"
| handles_event: "wt_events w = ev # evs \<Longrightarrow> \<not> wt_closed w \<Longrightarrow> wt_watching w \<Longrightarrow>
    watch_step one cbs target w (handleEvent target ev (w\<lparr>wt_events := evs\<rparr>))"
| fires: "wt_timer w \<Longrightarrow> watch_step one cbs target w (timer_fires w)"
| loads: "i < length (wt_reloads w) \<Longrightarrow> wt_reloads w ! i = Fired \<Longrightarrow>
    (one \<longrightarrow> (\<forall>r \<in> set (wt_reloads w). r = Fired)) \<Longrightarrow> watch_step one cbs target w (triggerReload i w)"
| calls: "i < length (wt_reloads w) \<Longrightarrow> wt_reloads w ! i = Calling cfg n \<Longrightarrow> watch_step one cbs target w (invokeCallback cbs i cfg n w)"
| closes: "watch_step one cbs target w (snd (watcher_Close w))"
| cancels: "watch_step one cbs target w (w\<lparr>wt_watching := False, wt_timer := False\<rparr>)"

inductive_cases watch_stepE: "watch_step one cbs target w w'"

section \<open>The services\<close>

text \<open>
  The configuration in use (\<open>ConfigService\<close>, which is also what \<open>Runtime\<close> is), the concurrency limit, and what the other services keep:
  pools, provider maps, the health checker, with callbacks of their own.
\<close>

record 'o service_state =
  sst_config :: config
  sst_limiter :: limiter
  sst_rest :: 'o

definition Runtime_Get :: "'o service_state \<Rightarrow> config" where
  "Runtime_Get s = sst_config s"

definition Runtime_Store :: "config \<Rightarrow> 'o service_state \<Rightarrow> 'o service_state" where
  "Runtime_Store cfg s = s\<lparr>sst_config := cfg\<rparr>"

definition limit_callback :: "config \<Rightarrow> 'o service_state \<Rightarrow> 'o service_state" where
  "limit_callback newCfg s =
     (let newLimit = sv_MaxConcurrent (cf_Server newCfg); oldLimit = lm_limit (sst_limiter s)
      in if newLimit \<noteq> oldLimit then s\<lparr>sst_limiter := limiter_SetLimit newLimit (sst_limiter s)\<rparr> else s)"

definition rest_callback :: "(config \<Rightarrow> 'o \<Rightarrow> 'o) \<Rightarrow> config \<Rightarrow> 'o service_state \<Rightarrow> 'o service_state" where
  "rest_callback f cfg s = s\<lparr>sst_rest := f cfg (sst_rest s)\<rparr>"

text \<open>
  The order of registration: services register when they are built, \<open>before\<close> and \<open>after\<close> the one of the limit, the configuration itself when
  the watch starts.
\<close>

definition service_callbacks :: "(config \<Rightarrow> 'o \<Rightarrow> 'o) list \<Rightarrow> (config \<Rightarrow> 'o \<Rightarrow> 'o) list \<Rightarrow> (config, 'o service_state) callback list" where
  "service_callbacks before after = map rest_callback before @ limit_callback # map rest_callback after @ [Runtime_Store]"

definition NewConcurrencyService :: "config option \<Rightarrow> limiter" where
  "NewConcurrencyService cfg = NewConcurrencyLimiter (case cfg of None \<Rightarrow> 0 | Some c \<Rightarrow> sv_MaxConcurrent (cf_Server c))"

text \<open>A configuration that cannot be loaded is an error; a watcher that cannot be made only means that changes are not noticed.\<close>

definition NewConfig :: "'c load_env \<Rightarrow> string \<Rightarrow> go_error option \<Rightarrow> go_error + 'c \<times> bool" where
  "NewConfig E path watcher_error =
     (case Load E path of
        Inl e \<Rightarrow> Inl (Wrapped (''failed to load config from '' @ path) e)
      | Inr cfg \<Rightarrow> Inr (cfg, watcher_error = None))"

end
