(* ===== verification/Config_Loading_Facts.thy ===== *)
theory Config_Loading_Facts
  imports Config_Loading Pool_Service
begin

text \<open>
  When the configuration in use is the one in the file: always after reloads that do not overlap, and not in general when they do. And what
  the expansion of environment variables does to a text.
\<close>

section \<open>Quiet watchers\<close>

definition quiet :: "('c, 's) watcher \<Rightarrow> bool" where
  "quiet w \<longleftrightarrow> wt_events w = [] \<and> \<not> wt_timer w \<and> wt_reloads w = []"

definition reload_pending :: "string \<Rightarrow> ('c, 's) watcher \<Rightarrow> bool" where
  "reload_pending target w \<longleftrightarrow> (\<exists>ev \<in> set (wt_events w). shouldProcessEvent target ev) \<or> wt_timer w \<or> Fired \<in> set (wt_reloads w)"

definition one_calling :: "'c reload list \<Rightarrow> bool" where
  "one_calling rs \<longleftrightarrow> length (filter (\<lambda>r. r \<noteq> Fired) rs) \<le> 1"

lemma split_at:
  assumes "i < length rs"
  obtains xs ys where "rs = xs @ rs ! i # ys" "\<And>x. rs[i := x] = xs @ x # ys" "remove_at i rs = xs @ ys"
proof
  show "rs = take i rs @ rs ! i # drop (Suc i) rs" using assms by (rule id_take_nth_drop)
  show "rs[i := x] = take i rs @ x # drop (Suc i) rs" for x using assms by (rule upd_conv_take_nth_drop)
qed (simp add: remove_at_def)

lemma all_fired: "filter (\<lambda>r. r \<noteq> Fired) xs = [] \<longleftrightarrow> (\<forall>r \<in> set xs. r = Fired)"
  by (induction xs) auto

lemma one_calling_remove:
  assumes "one_calling rs" and "i < length rs"
  shows "one_calling (remove_at i rs)"
proof -
  obtain xs ys where s: "rs = xs @ rs ! i # ys" "remove_at i rs = xs @ ys" using split_at [OF assms(2)] by metis
  have "length (filter (\<lambda>r. r \<noteq> Fired) (xs @ rs ! i # ys)) \<le> 1" using assms(1) s(1) by (simp add: one_calling_def)
  then show ?thesis by (simp add: s(2) one_calling_def split: if_splits)
qed

lemma one_calling_load: "\<forall>r \<in> set rs. r = Fired \<Longrightarrow> one_calling (rs[i := x])"
proof (cases "i < length rs")
  case True
  assume a: "\<forall>r \<in> set rs. r = Fired"
  obtain xs ys where s: "rs = xs @ rs ! i # ys" "rs[i := x] = xs @ x # ys" using split_at [OF True] by metis
  have "set xs \<subseteq> set rs" "set ys \<subseteq> set rs" by (subst s(1), force)+
  then have "filter (\<lambda>r. r \<noteq> Fired) xs = []" "filter (\<lambda>r. r \<noteq> Fired) ys = []" unfolding all_fired using a by auto
  then show ?thesis by (simp add: s(2) one_calling_def)
next
  case False
  assume a: "\<forall>r \<in> set rs. r = Fired"
  then have "filter (\<lambda>r. r \<noteq> Fired) rs = []" unfolding all_fired by simp
  then show ?thesis using False by (simp add: one_calling_def list_update_beyond)
qed

lemma one_calling_snoc: "one_calling rs \<Longrightarrow> one_calling (rs @ [Fired])"
  by (simp add: one_calling_def)

text \<open>The reload that calls callbacks is the only one that does.\<close>

lemma calling_unique:
  assumes "one_calling rs" and "i < length rs" and "rs ! i = Calling cfg n"
  shows "Calling c m \<in> set rs \<longleftrightarrow> c = cfg \<and> m = n"
    and "Calling c m \<in> set (rs[i := Calling cfg n']) \<longleftrightarrow> c = cfg \<and> m = n'"
    and "Calling c m \<notin> set (remove_at i rs)"
    and "Fired \<in> set rs \<Longrightarrow> Fired \<in> set (rs[i := x])" and "Fired \<in> set rs \<Longrightarrow> Fired \<in> set (remove_at i rs)"
    and "one_calling (rs[i := x])"
proof -
  obtain xs ys where s: "rs = xs @ rs ! i # ys" "\<And>x. rs[i := x] = xs @ x # ys" "remove_at i rs = xs @ ys" using split_at [OF assms(2)] by metis
  have "length (filter (\<lambda>r. r \<noteq> Fired) (xs @ rs ! i # ys)) \<le> 1" using assms(1) s(1) by (simp add: one_calling_def)
  then have "filter (\<lambda>r. r \<noteq> Fired) xs = []" "filter (\<lambda>r. r \<noteq> Fired) ys = []" using assms(3) by simp_all
  then have f: "\<forall>r \<in> set xs. r = Fired" "\<forall>r \<in> set ys. r = Fired" unfolding all_fired by simp_all
  have rs: "set rs = set xs \<union> {Calling cfg n} \<union> set ys" by (subst s(1)) (simp add: assms(3))
  show "Calling c m \<in> set rs \<longleftrightarrow> c = cfg \<and> m = n" using f by (auto simp: rs)
  show "Calling c m \<in> set (rs[i := Calling cfg n']) \<longleftrightarrow> c = cfg \<and> m = n'" using f by (auto simp: s(2))
  show "Calling c m \<notin> set (remove_at i rs)" using f by (auto simp: s(3))
  show "Fired \<in> set (rs[i := x])" if "Fired \<in> set rs" using that by (auto simp: rs s(2))
  show "Fired \<in> set (remove_at i rs)" if "Fired \<in> set rs" using that by (auto simp: rs s(3))
  show "one_calling (rs[i := x])" using f by (simp add: s(2) one_calling_def flip: all_fired)
qed

text \<open>What a callback maintains: a part of the state that is what the configuration says.\<close>

locale reload_target =
  fixes cbs :: "('c, 's) callback list" and view :: "'s \<Rightarrow> 'v" and val :: "'c \<Rightarrow> 'v" and k :: nat
  assumes k_bound: "k < length cbs"
    and sets: "view ((cbs ! k) c s) = val c"
    and keeps: "n < length cbs \<Longrightarrow> n \<noteq> k \<Longrightarrow> view ((cbs ! n) c s) = view s"
begin

text \<open>No reload is at work with a configuration that is not that of the file, and the state has it unless one will set it.\<close>

definition fresh :: "('c, 's) watcher \<Rightarrow> bool" where
  "fresh w \<longleftrightarrow> (\<forall>c n. Calling c n \<in> set (wt_reloads w) \<longrightarrow> wt_file w = Some c) \<and>
     (\<forall>c. wt_file w = Some c \<longrightarrow> view (wt_state w) = val c \<or> (\<exists>n \<le> k. Calling c n \<in> set (wt_reloads w)))"

definition reload_inv :: "string \<Rightarrow> ('c, 's) watcher \<Rightarrow> bool" where
  "reload_inv target w \<longleftrightarrow> one_calling (wt_reloads w) \<and> (\<not> wt_closed w \<longrightarrow> wt_watching w \<longrightarrow> reload_pending target w \<or> fresh w)"

lemma reload_inv_step:
  assumes "watch_step True cbs target w w'" and "reload_inv target w"
  shows "reload_inv target w'"
  using assms(1)
proof cases
  case (changes ev contents)
  then show ?thesis using assms(2) by (auto simp: reload_inv_def reload_pending_def)
next
  case (notifies ev)
  then show ?thesis using assms(2) by (auto simp: reload_inv_def reload_pending_def fresh_def)
next
  case (handles_event ev evs)
  then show ?thesis using assms(2) by (auto simp: reload_inv_def reload_pending_def fresh_def handleEvent_def)
next
  case fires
  then show ?thesis using assms(2) one_calling_snoc by (auto simp: reload_inv_def reload_pending_def timer_fires_def)
next
  case (loads i)
  show ?thesis
  proof (cases "wt_file w")
    case None
    then have w': "w' = w\<lparr>wt_reloads := remove_at i (wt_reloads w)\<rparr>" using loads by (simp add: triggerReload_def)
    have "\<forall>r \<in> set (remove_at i (wt_reloads w)). r = Fired"
      using loads(4) by (auto simp: remove_at_def dest!: in_set_takeD in_set_dropD)
    then have "fresh w'" using None by (auto simp: w' fresh_def)
    moreover have "one_calling (wt_reloads w')"
      using assms(2) one_calling_remove [OF _ loads(2)] unfolding w' reload_inv_def by simp
    ultimately show ?thesis by (simp add: reload_inv_def)
  next
    case (Some cfg)
    then have w': "w' = w\<lparr>wt_reloads := (wt_reloads w)[i := Calling cfg 0]\<rparr>" using loads by (simp add: triggerReload_def)
    have "Calling cfg 0 \<in> set ((wt_reloads w)[i := Calling cfg 0])" using loads(2) by (rule set_update_memI)
    moreover have "x = Calling cfg 0" if "x \<in> set ((wt_reloads w)[i := Calling cfg 0])" "x \<noteq> Fired" for x
      using set_update_subset_insert [THEN subsetD, OF that(1)] loads(4) that(2) by auto
    ultimately have "fresh w'" using Some by (fastforce simp: w' fresh_def)
    then show ?thesis using loads(4) one_calling_load by (auto simp: w' reload_inv_def)
  qed
next
  case (calls i cfg n)
  have one: "one_calling (wt_reloads w)" using assms(2) by (simp add: reload_inv_def)
  note u = calling_unique [OF one calls(2,3)]
  show ?thesis
  proof (cases "n < length cbs")
    case True
    then have w': "w' = w\<lparr>wt_state := (cbs ! n) cfg (wt_state w), wt_reloads := (wt_reloads w)[i := Calling cfg (Suc n)]\<rparr>"
      using calls by (simp add: invokeCallback_def)
    have "reload_pending target w \<Longrightarrow> reload_pending target w'" using u(4) by (auto simp: w' reload_pending_def)
    moreover have "fresh w \<Longrightarrow> fresh w'"
      using True sets keeps by (cases "n = k") (auto simp: w' fresh_def u)
    ultimately show ?thesis using assms(2) u(6) by (auto simp: w' reload_inv_def)
  next
    case False
    then have w': "w' = w\<lparr>wt_reloads := remove_at i (wt_reloads w)\<rparr>" using calls by (simp add: invokeCallback_def)
    have "reload_pending target w \<Longrightarrow> reload_pending target w'" using u(5) by (auto simp: w' reload_pending_def)
    moreover have "fresh w \<Longrightarrow> fresh w'" using False k_bound by (auto simp: w' fresh_def u)
    ultimately show ?thesis using assms(2) one_calling_remove [OF one calls(2)] by (auto simp: w' reload_inv_def)
  qed
next
  case closes
  then show ?thesis using assms(2) by (auto simp: reload_inv_def watcher_Close_def)
next
  case cancels
  then show ?thesis using assms(2) by (simp add: reload_inv_def)
qed

lemma reload_inv_new: "(\<forall>c. contents = Some c \<longrightarrow> view s = val c) \<Longrightarrow> reload_inv target (new_watcher contents s)"
  by (simp add: reload_inv_def new_watcher_def one_calling_def fresh_def)

lemma caught_up:
  assumes "(watch_step True cbs target)\<^sup>*\<^sup>* (new_watcher contents s) w" and "\<forall>c. contents = Some c \<longrightarrow> view s = val c"
    and "quiet w" and "\<not> wt_closed w" and "wt_watching w" and "wt_file w = Some c"
  shows "view (wt_state w) = val c"
proof -
  from assms(1) have "reload_inv target w"
    by (induction rule: rtranclp_induct) (use reload_inv_new assms(2) reload_inv_step in blast)+
  then show ?thesis using assms(3-6) by (auto simp: reload_inv_def quiet_def reload_pending_def fresh_def)
qed

end

section \<open>Watchers settle\<close>

definition reload_work :: "nat \<Rightarrow> 'c reload \<Rightarrow> nat" where
  "reload_work L r = (case r of Fired \<Rightarrow> L + 3 | Calling c n \<Rightarrow> Suc (L + 1 - n))"

definition work_left :: "nat \<Rightarrow> ('c, 's) watcher \<Rightarrow> nat" where
  "work_left L w = length (wt_events w) * (L + 5) + (if wt_timer w then L + 4 else 0) + sum_list (map (reload_work L) (wt_reloads w))"

lemma work_at:
  assumes "i < length rs"
  shows "sum_list (map f (rs[i := x])) + f (rs ! i) = sum_list (map f rs) + (f x :: nat)"
    and "sum_list (map f (remove_at i rs)) + f (rs ! i) = sum_list (map f rs)"
proof -
  obtain xs ys where s: "rs = xs @ rs ! i # ys" "rs[i := x] = xs @ x # ys" "remove_at i rs = xs @ ys" using split_at [OF assms] by metis
  have m: "sum_list (map f rs) = sum_list (map f xs) + (f (rs ! i) + sum_list (map f ys))"
    using arg_cong [OF s(1), of "\<lambda>l. sum_list (map f l)"] by simp
  show "sum_list (map f (rs[i := x])) + f (rs ! i) = sum_list (map f rs) + f x"
    and "sum_list (map f (remove_at i rs)) + f (rs ! i) = sum_list (map f rs)"
    by (simp_all add: m s(2,3))
qed

text \<open>A watcher that is not quiet can go on without a change of the file, and has less to do then.\<close>

lemma watcher_goes_on:
  assumes "\<not> quiet w" and "\<not> wt_closed w" and "wt_watching w"
  shows "\<exists>w'. watch_step True cbs target w w' \<and> work_left (length cbs) w' < work_left (length cbs) w \<and>
    wt_file w' = wt_file w \<and> \<not> wt_closed w' \<and> wt_watching w'"
proof -
  let ?L = "length cbs"
  consider (event) ev evs where "wt_events w = ev # evs" | (timer) "wt_timer w"
    | (calling) i c n where "i < length (wt_reloads w)" "wt_reloads w ! i = Calling c n"
    | (fired) i where "i < length (wt_reloads w)" "wt_reloads w ! i = Fired" "\<forall>r \<in> set (wt_reloads w). r = Fired"
  proof (cases "\<exists>r \<in> set (wt_reloads w). r \<noteq> Fired")
    case True
    then obtain i where "i < length (wt_reloads w)" "wt_reloads w ! i \<noteq> Fired" by (auto simp: in_set_conv_nth)
    then show ?thesis using calling by (cases "wt_reloads w ! i") auto
  next
    case False
    then have f: "\<forall>r \<in> set (wt_reloads w). r = Fired" by blast
    show ?thesis
    proof (cases "wt_reloads w")
      case Nil
      then show ?thesis using assms(1) event timer by (cases "wt_events w") (auto simp: quiet_def)
    next
      case (Cons r rs)
      then show ?thesis using fired [of 0] f by simp
    qed
  qed
  then show ?thesis
  proof cases
    case event
    show ?thesis
      by (rule exI [of _ "handleEvent target ev (w\<lparr>wt_events := evs\<rparr>)"])
        (use event assms watch_step.handles_event [OF event] in \<open>auto simp: handleEvent_def work_left_def\<close>)
  next
    case timer
    show ?thesis
      by (rule exI [of _ "timer_fires w"])
        (use timer assms watch_step.fires [OF timer] in \<open>auto simp: timer_fires_def work_left_def reload_work_def\<close>)
  next
    case calling
    have "work_left ?L (invokeCallback cbs i c n w) < work_left ?L w"
      using work_at(1) [OF calling(1), of "reload_work ?L" "Calling c (Suc n)"] work_at(2) [OF calling(1), of "reload_work ?L"] calling(2)
      by (cases "n < ?L") (simp_all add: invokeCallback_def work_left_def reload_work_def)
    then show ?thesis
      using watch_step.calls [OF calling, of True cbs target] assms by (intro exI [of _ "invokeCallback cbs i c n w"]) (simp add: invokeCallback_def)
  next
    case fired
    have "watch_step True cbs target w (triggerReload i w)" using fired by (auto intro: watch_step.loads)
    moreover have "work_left ?L (triggerReload i w) < work_left ?L w"
    proof (cases "wt_file w")
      case None
      then show ?thesis
        using work_at(2) [OF fired(1), of "reload_work ?L"] fired(2) by (simp add: triggerReload_def work_left_def reload_work_def)
    next
      case (Some c)
      then show ?thesis
        using work_at(1) [OF fired(1), of "reload_work ?L" "Calling c 0"] fired(2) by (simp add: triggerReload_def work_left_def reload_work_def)
    qed
    ultimately show ?thesis
      using assms by (intro exI [of _ "triggerReload i w"]) (simp add: triggerReload_def split: option.split)
  qed
qed

lemma watcher_settles:
  "\<not> wt_closed w \<Longrightarrow> wt_watching w \<Longrightarrow>
   \<exists>w'. (watch_step True cbs target)\<^sup>*\<^sup>* w w' \<and> quiet w' \<and> wt_file w' = wt_file w \<and> \<not> wt_closed w' \<and> wt_watching w'"
proof (induction "work_left (length cbs) w" arbitrary: w rule: less_induct)
  case less
  show ?case
  proof (cases "quiet w")
    case False
    then obtain w1 where w1: "watch_step True cbs target w w1" "work_left (length cbs) w1 < work_left (length cbs) w"
        "wt_file w1 = wt_file w" "\<not> wt_closed w1" "wt_watching w1"
      using watcher_goes_on less.prems by metis
    then show ?thesis using less.hyps [OF w1(2,4,5)] by (metis converse_rtranclp_into_rtranclp)
  qed (use less.prems in blast)
qed

section \<open>The services follow the file\<close>

lemma service_callback_at:
  assumes "n < length (service_callbacks before after)"
  shows "(\<exists>f. service_callbacks before after ! n = rest_callback f) \<or>
    n = length before \<and> service_callbacks before after ! n = limit_callback \<or>
    n = length before + Suc (length after) \<and> service_callbacks before after ! n = Runtime_Store"
  using assms by (auto simp: service_callbacks_def nth_append nth_Cons split: nat.split)

lemma service_callback_limit: "service_callbacks before after ! length before = limit_callback"
  by (simp add: service_callbacks_def nth_append)

lemma service_callback_store: "service_callbacks before after ! Suc (length before + length after) = Runtime_Store"
  by (simp add: service_callbacks_def nth_append)

lemmas service_ops = Runtime_Get_def Runtime_Store_def limit_callback_def rest_callback_def limiter_SetLimit_def Let_def

interpretation config_target: reload_target "service_callbacks before after" Runtime_Get id "Suc (length before + length after)" for before after
proof
  fix n c and s :: "'a service_state"
  assume "n < length (service_callbacks before after)" "n \<noteq> Suc (length before + length after)"
  then show "Runtime_Get ((service_callbacks before after ! n) c s) = Runtime_Get s"
    using service_callback_at [of n before after] by (auto simp: service_ops)
qed (simp_all add: service_callbacks_def service_callback_store [unfolded service_callbacks_def] Runtime_Get_def Runtime_Store_def)

interpretation limit_target: reload_target "service_callbacks before after" "\<lambda>s. lm_limit (sst_limiter s)"
    "\<lambda>c. sv_MaxConcurrent (cf_Server c)" "length before" for before after
proof
  fix n c and s :: "'a service_state"
  assume "n < length (service_callbacks before after)" "n \<noteq> length before"
  then show "lm_limit (sst_limiter ((service_callbacks before after ! n) c s)) = lm_limit (sst_limiter s)"
    using service_callback_at [of n before after] by (auto simp: service_ops)
qed (simp_all add: service_callbacks_def service_callback_limit [unfolded service_callbacks_def] limit_callback_def limiter_SetLimit_def Let_def)

text \<open>
  As long as a reload is over before the next one reads the file, the services catch up with every change: whatever happened, from any
  point on they can settle, and whenever they have settled the configuration in use is the one in the file, if that can be loaded, and the
  limit on concurrent requests is its limit.
\<close>

lemma reloads_catch_up:
  assumes "(watch_step True (service_callbacks before after) target)\<^sup>*\<^sup>* (new_watcher (Some c0) s0) w" and "Runtime_Get s0 = c0"
    and "lm_limit (sst_limiter s0) = sv_MaxConcurrent (cf_Server c0)" and "\<not> wt_closed w" and "wt_watching w" and "wt_file w = Some c"
  shows "(\<exists>w'. (watch_step True (service_callbacks before after) target)\<^sup>*\<^sup>* w w' \<and> quiet w' \<and> wt_file w' = Some c) \<and>
    (quiet w \<longrightarrow> Runtime_Get (wt_state w) = c \<and> lm_limit (sst_limiter (wt_state w)) = sv_MaxConcurrent (cf_Server c))"
  using watcher_settles [OF assms(4,5), of "service_callbacks before after" target] config_target.caught_up [OF assms(1) _ _ assms(4-6)]
    limit_target.caught_up [OF assms(1) _ _ assms(4-6)] assms(2,3,6)
  by auto

section \<open>Reloads that overlap\<close>

definition run_callbacks :: "('c, 's) callback list \<Rightarrow> 'c \<Rightarrow> 's \<Rightarrow> 's" where
  "run_callbacks cbs c s = fold (\<lambda>cb. cb c) cbs s"

definition open_watcher :: "'c option \<Rightarrow> fs_event list \<Rightarrow> bool \<Rightarrow> 'c reload list \<Rightarrow> 's \<Rightarrow> ('c, 's) watcher" where
  "open_watcher f es t rs s = \<lparr>wt_file = f, wt_events = es, wt_timer = t, wt_reloads = rs, wt_closed = False, wt_watching = True, wt_state = s\<rparr>"

lemma begin_reload:
  assumes "shouldProcessEvent target ev"
  shows "(watch_step False cbs target)\<^sup>*\<^sup>* (open_watcher f [] False rs s) (open_watcher (Some c) [] False (rs @ [Calling c 0]) s)"
proof -
  have "watch_step False cbs target (open_watcher f [] False rs s) (open_watcher (Some c) [ev] False rs s)"
    using watch_step.changes [OF assms, of False cbs "open_watcher f [] False rs s" "Some c"] by (simp add: open_watcher_def)
  moreover have "watch_step False cbs target (open_watcher (Some c) [ev] False rs s) (open_watcher (Some c) [] True rs s)"
    using watch_step.handles_event [of "open_watcher (Some c) [ev] False rs s" ev "[]" False cbs target] assms
    by (simp add: open_watcher_def handleEvent_def)
  moreover have "watch_step False cbs target (open_watcher (Some c) [] True rs s) (open_watcher (Some c) [] False (rs @ [Fired]) s)"
    using watch_step.fires [of "open_watcher (Some c) [] True rs s" False cbs target] by (simp add: open_watcher_def timer_fires_def)
  moreover have "watch_step False cbs target (open_watcher (Some c) [] False (rs @ [Fired]) s)
      (open_watcher (Some c) [] False (rs @ [Calling c 0]) s)"
    using watch_step.loads [of "length rs" "open_watcher (Some c) [] False (rs @ [Fired]) s" False cbs target]
    by (simp add: open_watcher_def triggerReload_def)
  ultimately show ?thesis by (meson converse_rtranclp_into_rtranclp rtranclp.rtrancl_refl)
qed

lemma end_reload:
  "n \<le> length cbs \<Longrightarrow> (watch_step False cbs target)\<^sup>*\<^sup>* (open_watcher f [] False (rs @ [Calling c n]) s)
     (open_watcher f [] False rs (run_callbacks (drop n cbs) c s))"
proof (induction "length cbs - n" arbitrary: n s)
  case 0
  have "watch_step False cbs target (open_watcher f [] False (rs @ [Calling c n]) s) (open_watcher f [] False rs s)"
    using watch_step.calls [of "length rs" "open_watcher f [] False (rs @ [Calling c n]) s" c n False cbs target] 0
    by (simp add: open_watcher_def invokeCallback_def remove_at_def)
  then show ?case using 0 by (simp add: run_callbacks_def)
next
  case (Suc m)
  then have n: "n < length cbs" by simp
  have "watch_step False cbs target (open_watcher f [] False (rs @ [Calling c n]) s)
      (open_watcher f [] False (rs @ [Calling c (Suc n)]) ((cbs ! n) c s))"
    using watch_step.calls [of "length rs" "open_watcher f [] False (rs @ [Calling c n]) s" c n False cbs target] n
    by (simp add: open_watcher_def invokeCallback_def)
  also have "(watch_step False cbs target)\<^sup>*\<^sup>* \<dots> (open_watcher f [] False rs (run_callbacks (drop (Suc n) cbs) c ((cbs ! n) c s)))"
    using Suc n by simp
  finally show ?case by (simp add: run_callbacks_def Cons_nth_drop_Suc [OF n, symmetric])
qed

lemma run_service_callbacks: "Runtime_Get (run_callbacks (service_callbacks before after) c s) = c"
  by (simp add: run_callbacks_def service_callbacks_def Runtime_Get_def Runtime_Store_def)

text \<open>
  C33: Nothing keeps reloads from overlapping: a timer that has fired is not stopped by the next change. A slow reload can then put an older
  configuration back over a newer one, and it stays although the file has the newer one and nothing is pending.
\<close>

theorem stale_reload:
  assumes "shouldProcessEvent target ev"
  shows "\<exists>w. (watch_step False (service_callbacks before after) target)\<^sup>*\<^sup>* (new_watcher (Some c0) s0) w \<and> quiet w \<and> \<not> wt_closed w \<and>
    wt_watching w \<and> wt_file w = Some new \<and> Runtime_Get (wt_state w) = old"
proof -
  let ?C = "service_callbacks before after"
  let ?S = "(watch_step False ?C target)\<^sup>*\<^sup>*"
  have "?S (open_watcher (Some c0) [] False [] s0) (open_watcher (Some old) [] False [Calling old 0] s0)"
    using begin_reload [OF assms, of ?C "Some c0" "[]" s0 old] by simp
  also have "?S \<dots> (open_watcher (Some new) [] False ([Calling old 0] @ [Calling new 0]) s0)" by (rule begin_reload [OF assms])
  also have "?S \<dots> (open_watcher (Some new) [] False [Calling old 0] (run_callbacks ?C new s0))"
    using end_reload [of 0 ?C target "Some new" "[Calling old 0]" new s0] by simp
  also have "?S \<dots> (open_watcher (Some new) [] False [] (run_callbacks ?C old (run_callbacks ?C new s0)))"
    using end_reload [of 0 ?C target "Some new" "[]" old "run_callbacks ?C new s0"] by simp
  finally show ?thesis
    by (intro exI [of _ "open_watcher (Some new) [] False [] (run_callbacks ?C old (run_callbacks ?C new s0))"])
      (simp add: open_watcher_def new_watcher_def quiet_def run_service_callbacks)
qed

section \<open>Expansion\<close>

text \<open>Only a dollar sign changes a text; but one before a letter starts a name without braces, too, and is gone with the name.\<close>

lemma expand_plain: "CHR ''$'' \<notin> set s \<Longrightarrow> expand env s = s"
  by (induction env s rule: expand.induct) auto

lemma expand_braces:
  assumes "n \<noteq> []" and "\<forall>c \<in> set n. c \<noteq> CHR ''}'' \<and> \<not> shell_special c"
  shows "expand env (''${'' @ n @ ''}'' @ s) = env n @ expand env s"
proof -
  have "takeWhile (\<lambda>x. x \<noteq> CHR ''}'') (n @ CHR ''}'' # s) = n"
    using assms(2) by (simp add: takeWhile_append2 takeWhile_tail)
  moreover have "\<not> shell_special ((n @ CHR ''}'' # s) ! 0)" using assms by (cases n) auto
  ultimately have "getShellName (CHR ''{'' # n @ CHR ''}'' # s) = (n, length n + 2)"
    using assms(1) by (simp add: getShellName_def Let_def)
  then show ?thesis using assms(1) by simp
qed

lemma dollar_eaten: "expand (\<lambda>_. []) ''api_key: pa$word'' = ''api_key: pa''"
  by code_simp

section \<open>Witnesses\<close>

definition demo_services :: "unit service_state" where
  "demo_services = \<lparr>sst_config = demo_config, sst_limiter = NewConcurrencyLimiter 0, sst_rest = ()\<rparr>"

definition demo_new_config :: config where
  "demo_new_config = demo_config\<lparr>cf_Server := (cf_Server demo_config)\<lparr>sv_MaxConcurrent := 7\<rparr>\<rparr>"

definition demo_write :: fs_event where
  "demo_write = \<lparr>fe_Base = ''c'', fe_Write = True, fe_Create = False\<rparr>"

lemma demo_write: "shouldProcessEvent ''c'' demo_write"
  by (simp add: shouldProcessEvent_def demo_write_def)

definition demo_changed :: "(config, unit service_state) watcher" where
  "demo_changed = (new_watcher (Some demo_config) demo_services)\<lparr>wt_file := Some demo_new_config, wt_events := [demo_write]\<rparr>"

lemma demo_changed: "(watch_step True (service_callbacks [] []) ''c'')\<^sup>*\<^sup>* (new_watcher (Some demo_config) demo_services) demo_changed"
  using watch_step.changes [OF demo_write, of True "service_callbacks [] []" "new_watcher (Some demo_config) demo_services" "Some demo_new_config"]
  by (simp add: demo_changed_def new_watcher_def r_into_rtranclp)

lemma reloads_catch_up_witness:
  "\<not> quiet demo_changed \<and> (\<exists>w'. (watch_step True (service_callbacks [] []) ''c'')\<^sup>*\<^sup>* demo_changed w' \<and> quiet w' \<and> wt_file w' = Some demo_new_config)"
proof
  show "\<not> quiet demo_changed" by (simp add: quiet_def demo_changed_def)
  have "Runtime_Get demo_services = demo_config" "lm_limit (sst_limiter demo_services) = sv_MaxConcurrent (cf_Server demo_config)"
    by (simp_all add: demo_services_def Runtime_Get_def NewConcurrencyLimiter_def demo_config_def)
  moreover have "\<not> wt_closed demo_changed" "wt_watching demo_changed" "wt_file demo_changed = Some demo_new_config"
    by (simp_all add: demo_changed_def new_watcher_def)
  ultimately show "\<exists>w'. (watch_step True (service_callbacks [] []) ''c'')\<^sup>*\<^sup>* demo_changed w' \<and> quiet w' \<and> wt_file w' = Some demo_new_config"
    using reloads_catch_up [OF demo_changed] by blast
qed

lemma stale_reload_witness:
  "\<exists>w :: (config, unit service_state) watcher. wt_file w = Some demo_new_config \<and> Runtime_Get (wt_state w) = demo_config \<and> quiet w"
  using stale_reload [OF demo_write, of "[]" "[]" demo_config demo_services demo_new_config demo_config] by blast

end
