(* ===== verification/Command_Line.thy ===== *)
theory Command_Line
  imports Config_Loading Codex_Auth
begin

text \<open>
  The commands (\<open>cmd/cc-relay\<close>): the settings of Claude Code that \<open>config cc init\<close> and \<open>config cc remove\<close> edit, the check and the
  template of the configuration, where the configuration is looked for, what the flags of \<open>serve\<close> change and what \<open>status\<close> asks. Files are
  their contents, or \<^term>\<open>None\<close>; what the operating system answers is an argument.
\<close>

section \<open>Settings of Claude Code\<close>

text \<open>
  \<open>si_read\<close> is an error of reading a file that is there; \<open>si_write\<close> an error of writing, with what it leaves, as the file is written in place.
\<close>

record settings_io =
  si_read :: "go_error option"
  si_mkdir :: "go_error option"
  si_write :: "(go_error \<times> string option) option"

definition BASE_URL :: string where "BASE_URL = ''ANTHROPIC_BASE_URL''"
definition AUTH_TOKEN :: string where "AUTH_TOKEN = ''ANTHROPIC_AUTH_TOKEN''"

definition proxyEnvVars :: "string list" where
  "proxyEnvVars = [BASE_URL, AUTH_TOKEN]"

text \<open>\<open>settings["env"].(map[string]any)\<close>\<close>

definition settings_env :: "(string \<times> json) list \<Rightarrow> (string \<times> json) list option" where
  "settings_env settings = (case map_of settings ''env'' of Some (JObj ms) \<Rightarrow> Some (AList.clearjunk (rev ms)) | _ \<Rightarrow> None)"

definition settings_text :: "codex_lib \<Rightarrow> (string \<times> json) list \<Rightarrow> string" where
  "settings_text L settings = cx_enc L (go_value (cx_float L) (json_map settings))"

definition write_settings :: "settings_io \<Rightarrow> string \<Rightarrow> go_error option \<times> string option" where
  "write_settings E data =
     (case si_write E of
        None \<Rightarrow> (None, Some data)
      | Some (e, left) \<Rightarrow> (Some (Wrapped ''failed to write settings.json'' e), left))"

text \<open>The settings with the two variables; without an object \<open>env\<close> there is a new one.\<close>

definition relay_settings :: "string \<Rightarrow> (string \<times> json) list \<Rightarrow> (string \<times> json) list" where
  "relay_settings proxyURL settings =
     (let env = (case settings_env settings of None \<Rightarrow> [] | Some env \<Rightarrow> env);
          env = put_member AUTH_TOKEN (JStr ''managed-by-cc-relay'') (put_member BASE_URL (JStr proxyURL) env)
      in put_member ''env'' (json_map env) settings)"

text \<open>Every error of reading is taken for a missing file; \<open>null\<close> is a nil map that is written to.\<close>

definition applyCCRelayConfig :: "codex_lib \<Rightarrow> settings_io \<Rightarrow> string \<Rightarrow> string option \<Rightarrow> go_error option \<times> string option" where
  "applyCCRelayConfig L E proxyURL disk =
     (case (if si_read E = None then disk else None) of
        Some data \<Rightarrow>
          (case any_map (cx_dec L) data of
             None \<Rightarrow> (Some (Wrapped ''failed to parse settings.json'' (OtherError ''json'')), disk)
           | Some settings \<Rightarrow>
               if cx_dec L data = Some JNull then (Some (GoPanic ''assignment to entry in nil map''), disk)
               else (case si_mkdir E of
                       Some e \<Rightarrow> (Some (Wrapped ''failed to create .claude directory'' e), disk)
                     | None \<Rightarrow> write_settings E (settings_text L (relay_settings proxyURL settings))))
      | None \<Rightarrow>
          (case si_mkdir E of
             Some e \<Rightarrow> (Some (Wrapped ''failed to create .claude directory'' e), disk)
           | None \<Rightarrow> write_settings E (settings_text L (relay_settings proxyURL []))))"

definition readClaudeSettings :: "codex_lib \<Rightarrow> settings_io \<Rightarrow> string option \<Rightarrow> go_error + (string \<times> json) list option" where
  "readClaudeSettings L E disk =
     (case disk of
        None \<Rightarrow> Inr None
      | Some data \<Rightarrow>
          (case si_read E of
             Some e \<Rightarrow> Inl (Wrapped ''failed to read settings.json'' e)
           | None \<Rightarrow>
               (case any_map (cx_dec L) data of
                  None \<Rightarrow> Inl (Wrapped ''failed to parse settings.json'' (OtherError ''json''))
                | Some settings \<Rightarrow> Inr (Some settings))))"

definition removeProxyEnvVars :: "(string \<times> json) list \<Rightarrow> string list \<times> (string \<times> json) list" where
  "removeProxyEnvVars env = (filter (\<lambda>k. map_of env k \<noteq> None) proxyEnvVars, filter (\<lambda>(k, _). k \<notin> set proxyEnvVars) env)"

definition updateSettingsEnv :: "(string \<times> json) list \<Rightarrow> (string \<times> json) list \<Rightarrow> (string \<times> json) list" where
  "updateSettingsEnv settings env =
     (if env = [] then AList.delete ''env'' settings else put_member ''env'' (json_map env) settings)"

text \<open>The variables that were removed, or the error.\<close>

definition removeCCRelayConfig :: "codex_lib \<Rightarrow> settings_io \<Rightarrow> string option \<Rightarrow> (go_error + string list) \<times> string option" where
  "removeCCRelayConfig L E disk =
     (case readClaudeSettings L E disk of
        Inl e \<Rightarrow> (Inl e, disk)
      | Inr None \<Rightarrow> (Inr [], disk)
      | Inr (Some settings) \<Rightarrow>
          (case settings_env settings of
             None \<Rightarrow> (Inr [], disk)
           | Some env \<Rightarrow>
               (case removeProxyEnvVars env of
                  (removed, env) \<Rightarrow>
                    if removed = [] then (Inr [], disk)
                    else (case write_settings E (settings_text L (updateSettingsEnv settings env)) of
                            (Some e, disk) \<Rightarrow> (Inl e, disk)
                          | (None, disk) \<Rightarrow> (Inr removed, disk)))))"

section \<open>The configuration\<close>

text \<open>\<open>config validate\<close>\<close>

fun validate_enabled :: "provider_config list \<Rightarrow> bool \<Rightarrow> string option \<times> bool" where
  "validate_enabled [] seen = (None, seen)"
| "validate_enabled (p # ps) seen =
     (if pv_Enabled p
      then (if pv_Keys p = [] then (Some (''provider '' @ pv_Name p @ '' has no API keys configured''), True) else validate_enabled ps True)
      else validate_enabled ps seen)"

definition validateConfig :: "config \<Rightarrow> string option" where
  "validateConfig cfg =
     (if sv_Listen (cf_Server cfg) = '''' then Some ''server.listen is required''
      else if sv_APIKey (cf_Server cfg) = '''' then Some ''server.api_key is required''
      else case validate_enabled (cf_Providers cfg) False of
             (Some e, _) \<Rightarrow> Some e
           | (None, seen) \<Rightarrow> if \<not> seen then Some ''no enabled providers configured'' else None)"

definition validateConfigAtPath :: "config load_env \<Rightarrow> string \<Rightarrow> go_error option" where
  "validateConfigAtPath E path =
     (case Load E path of Inl e \<Rightarrow> Some e | Inr cfg \<Rightarrow> map_option OtherError (validateConfig cfg))"

text \<open>
  Where the configuration is looked for; \<open>clean\<close> is \<open>filepath.Clean\<close>. \<open>findConfigFileForValidate\<close> and \<open>findConfigFileForStatus\<close> are copies.
\<close>

definition defaultConfigFile :: string where "defaultConfigFile = ''config.yaml''"

definition home_config :: "(string \<Rightarrow> string) \<Rightarrow> string \<Rightarrow> string" where
  "home_config clean home = clean (home @ ''/.config/cc-relay/'' @ defaultConfigFile)"

definition findConfigFile :: "(string \<Rightarrow> string) \<Rightarrow> (string \<Rightarrow> bool) \<Rightarrow> string option \<Rightarrow> string" where
  "findConfigFile clean stat home =
     (if stat defaultConfigFile then defaultConfigFile
      else case home of
             Some h \<Rightarrow> if h \<noteq> '''' \<and> stat (home_config clean h) then home_config clean h else defaultConfigFile
           | None \<Rightarrow> defaultConfigFile)"

text \<open>
  \<open>config init\<close> writes the template. \<open>io_stat\<close> is an error of looking for a file although it is there, which is taken for its absence.
\<close>

record init_io =
  io_home :: "go_error + string"
  io_stat :: "string \<Rightarrow> go_error option"
  io_mkdir :: "go_error option"
  io_write :: "(go_error \<times> string option) option"

definition runConfigInit ::
    "(string \<Rightarrow> string) \<Rightarrow> init_io \<Rightarrow> string \<Rightarrow> string \<Rightarrow> bool \<Rightarrow> (string \<Rightarrow> string option) \<Rightarrow> go_error option \<times> (string \<Rightarrow> string option)" where
  "runConfigInit clean E template output force files =
     (case (if output = '''' then map_sum id (home_config clean) (io_home E) else Inr output) of
        Inl e \<Rightarrow> (Some (Wrapped ''failed to get home directory'' e), files)
      | Inr output \<Rightarrow>
          if files output \<noteq> None \<and> io_stat E output = None \<and> \<not> force
          then (Some (OtherError (''config file already exists at '' @ output @ '' (use --force to overwrite)'')), files)
          else (case io_mkdir E of
                  Some e \<Rightarrow> (Some (Wrapped ''failed to create config directory'' e), files)
                | None \<Rightarrow>
                    (case io_write E of
                       Some (e, left) \<Rightarrow> (Some (Wrapped ''failed to write config file'' e), files(output := left))
                     | None \<Rightarrow> (None, files(output := Some template)))))"

section \<open>Serving and status\<close>

text \<open>The flags of \<open>serve\<close> change the configuration that was loaded, not the one of the next reload.\<close>

record serve_flags =
  fl_debugMode :: bool
  fl_logLevel :: string
  fl_logFormat :: string

definition serve_logging :: "serve_flags \<Rightarrow> logging_config \<Rightarrow> logging_config" where
  "serve_logging flags l =
     (let l = (if fl_debugMode flags then EnableAllDebugOptions l else l);
          l = (if fl_logLevel flags \<noteq> '''' then l\<lparr>lg_Level := fl_logLevel flags\<rparr> else l)
      in if fl_logFormat flags \<noteq> '''' then l\<lparr>lg_Format := fl_logFormat flags\<rparr> else l)"

definition serve_config :: "serve_flags \<Rightarrow> config \<Rightarrow> config" where
  "serve_config flags cfg = cfg\<lparr>cf_Logging := serve_logging flags (cf_Logging cfg)\<rparr>"

text \<open>\<open>st_line\<close> is the first line of the answer, with its newline, or the error before one.\<close>

record status_net =
  st_dial :: "string \<Rightarrow> go_error option"
  st_send :: "string \<Rightarrow> go_error option"
  st_line :: "go_error + string"

definition crlf :: string where "crlf = [CHR 13, CHR 10]"

definition health_request :: string where
  "health_request = ''GET /health HTTP/1.1'' @ crlf @ ''Host: localhost'' @ crlf @ ''Connection: close'' @ crlf @ crlf"

definition checkHealth :: "status_net \<Rightarrow> string \<Rightarrow> go_error option" where
  "checkHealth net listenAddr =
     (if listenAddr = '''' then Some (OtherError ''server listen address is empty'')
      else case st_dial net listenAddr of
             Some e \<Rightarrow> Some (Wrapped ''server not reachable'' e)
           | None \<Rightarrow>
               (case st_send net health_request of
                  Some e \<Rightarrow> Some (Wrapped ''failed to send request'' e)
                | None \<Rightarrow>
                    (case st_line net of
                       Inl e \<Rightarrow> Some (Wrapped ''failed to read response'' e)
                     | Inr line \<Rightarrow>
                         if 12 \<le> length line \<and> take 3 (drop 9 line) = ''200'' then None
                         else Some (OtherError (''health check failed: '' @ line)))))"

definition checkStatusWithConfig :: "config load_env \<Rightarrow> status_net \<Rightarrow> string \<Rightarrow> go_error option" where
  "checkStatusWithConfig E net path =
     (case Load E path of
        Inl e \<Rightarrow> Some (Wrapped ''failed to load config'' e)
      | Inr cfg \<Rightarrow> checkHealth net (sv_Listen (cf_Server cfg)))"

end
