(* ===== verification/Command_Line_Facts.thy ===== *)
theory Command_Line_Facts
  imports Command_Line Codex_Auth_Facts Pool_Service
begin

text \<open>
  What the commands keep of the files they edit, and which configurations \<open>config validate\<close> accepts.
\<close>

section \<open>Settings\<close>

definition io_fine :: settings_io where
  "io_fine = \<lparr>si_read = None, si_mkdir = None, si_write = None\<rparr>"

text \<open>The settings of a text that was written, as they are read back.\<close>

definition read_back :: "(string \<Rightarrow> string) \<Rightarrow> (string \<times> json) list \<Rightarrow> (string \<times> json) list" where
  "read_back fl s = AList.clearjunk (rev (sort_key fst (map (\<lambda>(k, v). (k, go_value fl v)) (sort_key fst s))))"

lemma distinct_sorted: "distinct (map fst (s :: (string \<times> 'a) list)) \<Longrightarrow> distinct (map fst (sort_key fst s))"
  by (simp add: distinct_map)

lemma no_members: "s = [] \<longleftrightarrow> (\<forall>k. map_of s k = None)"
  by (simp flip: map_of_eq_empty_iff add: fun_eq_iff)

lemma map_of_rev_distinct: "distinct (map fst s) \<Longrightarrow> map_of (rev s) = map_of s"
  by (rule map_of_inject_set [THEN iffD2]) (simp_all add: rev_map [symmetric])

lemma map_of_read_back: "distinct (map fst s) \<Longrightarrow> map_of (read_back fl s) k = map_option (go_value fl) (map_of s k)"
proof -
  assume d: "distinct (map fst s)"
  let ?m = "map (\<lambda>(k, v). (k, go_value fl v)) (sort_key fst s)"
  have fst_m: "map fst ?m = map fst (sort_key fst s)" by (simp add: comp_def case_prod_unfold)
  have dm: "distinct (map fst ?m)" unfolding fst_m using d by (rule distinct_sorted)
  have ds: "distinct (map fst (sort_key fst ?m))" using dm by (rule distinct_sorted)
  have "map_of (read_back fl s) k = map_of (rev (sort_key fst ?m)) k" by (simp add: read_back_def map_of_clearjunk)
  also have "\<dots> = map_of ?m k" using map_of_rev_distinct [OF ds] map_of_sort_key [OF dm] by simp
  also have "\<dots> = map_option (go_value fl) (map_of (sort_key fst s) k)" by (simp add: map_of_map)
  also have "\<dots> = map_option (go_value fl) (map_of s k)" using map_of_sort_key [OF d] by simp
  finally show ?thesis .
qed

lemma any_map_distinct: "any_map dec data = Some s \<Longrightarrow> distinct (map fst s)"
  by (auto simp: any_map_def split: option.splits json.splits)

lemma settings_env_distinct: "settings_env s = Some env \<Longrightarrow> distinct (map fst env)"
  by (auto simp: settings_env_def split: option.splits json.splits)

lemma any_map_read_back:
  "dec text = Some (go_value fl (json_map s)) \<Longrightarrow> any_map dec text = Some (read_back fl s)"
  by (simp add: any_map_def json_map_def read_back_def)

lemma settings_env_read_back:
  assumes "distinct (map fst s)" and "map_of s ''env'' = Some (json_map env)"
  shows "settings_env (read_back fl s) = Some (read_back fl env)"
  using map_of_read_back [OF assms(1), of fl "''env''"] assms(2) by (simp add: settings_env_def json_map_def read_back_def)

definition relay_env :: "string \<Rightarrow> (string \<times> json) list \<Rightarrow> (string \<times> json) list" where
  "relay_env proxyURL settings = put_member AUTH_TOKEN (JStr ''managed-by-cc-relay'')
     (put_member BASE_URL (JStr proxyURL) (case settings_env settings of None \<Rightarrow> [] | Some env \<Rightarrow> env))"

lemma relay_settings_eq: "relay_settings proxyURL settings = put_member ''env'' (json_map (relay_env proxyURL settings)) settings"
  by (simp add: relay_settings_def relay_env_def Let_def)

lemma distinct_relay_env: "distinct (map fst (relay_env proxyURL settings))"
  using settings_env_distinct by (auto simp: relay_env_def intro!: distinct_put_member split: option.split)

lemma removed_vars: "map_of (snd (removeProxyEnvVars env)) k = (if k \<in> set proxyEnvVars then None else map_of env k)"
proof -
  have "map_of (filter (\<lambda>(k, _). P k) env) k = (if P k then map_of env k else None)" for P by (induction env) auto
  then show ?thesis by (simp add: removeProxyEnvVars_def)
qed

lemma map_of_updateSettingsEnv:
  "map_of (updateSettingsEnv s env) k = (if k = ''env'' then if env = [] then None else Some (json_map env) else map_of s k)"
  by (simp add: updateSettingsEnv_def map_of_put_member delete_conv')

text \<open>
  C34: Configuring Claude Code for the relay and undoing it keeps every other setting and every other environment variable, up to how the
  numbers are written; an empty \<open>env\<close> is taken out.
\<close>

theorem cc_init_then_remove:
  assumes "any_map (cx_dec L) data = Some settings" and "cx_dec L data \<noteq> Some JNull"
    and "env = (case settings_env settings of None \<Rightarrow> [] | Some env \<Rightarrow> env)" and "\<forall>k \<in> set proxyEnvVars. map_of env k = None"
    and "cx_dec L (settings_text L (relay_settings url settings)) = Some (go_value (cx_float L) (json_map (relay_settings url settings)))"
  shows "\<exists>mid new env'. applyCCRelayConfig L io_fine url (Some data) = (None, Some mid) \<and>
    removeCCRelayConfig L io_fine (Some mid) = (Inr proxyEnvVars, Some (settings_text L new)) \<and>
    (\<forall>k. k \<noteq> ''env'' \<longrightarrow> map_of new k = map_option (go_value (cx_float L)) (map_of settings k)) \<and>
    map_of new ''env'' = (if env = [] then None else Some (json_map env')) \<and>
    (\<forall>k. map_of env' k = map_option (go_value (cx_float L)) (map_of env k))"
proof -
  let ?fl = "cx_float L" and ?mid = "relay_settings url settings"
  let ?s = "read_back ?fl ?mid" and ?e = "read_back ?fl (relay_env url settings)"
  define ev where "ev = snd (removeProxyEnvVars ?e)"
  have dmid: "distinct (map fst ?mid)" using any_map_distinct [OF assms(1)] by (simp add: relay_settings_eq distinct_put_member)
  have e: "map_of ?e k = map_option (go_value ?fl) (map_of (relay_env url settings) k)" for k
    by (rule map_of_read_back [OF distinct_relay_env])
  have re: "map_of (relay_env url settings) k =
      (if k = AUTH_TOKEN then Some (JStr ''managed-by-cc-relay'') else if k = BASE_URL then Some (JStr url) else map_of env k)" for k
    by (simp add: relay_env_def map_of_put_member assms(3))
  have "fst (removeProxyEnvVars ?e) = proxyEnvVars" by (simp add: removeProxyEnvVars_def e re proxyEnvVars_def)
  then have all_removed: "removeProxyEnvVars ?e = (proxyEnvVars, ev)" by (simp add: prod_eq_iff ev_def)
  have env': "map_of ev k = map_option (go_value ?fl) (map_of env k)" for k
    using assms(4) by (auto simp: ev_def removed_vars e re proxyEnvVars_def)
  have empty: "ev = [] \<longleftrightarrow> env = []" unfolding no_members [of ev] no_members [of env] env' by simp
  have "applyCCRelayConfig L io_fine url (Some data) = (None, Some (settings_text L ?mid))"
    using assms(1,2) by (simp add: applyCCRelayConfig_def io_fine_def write_settings_def)
  moreover have "removeCCRelayConfig L io_fine (Some (settings_text L ?mid)) =
      (Inr proxyEnvVars, Some (settings_text L (updateSettingsEnv ?s ev)))"
    using any_map_read_back [where dec = "cx_dec L", OF assms(5)] settings_env_read_back [OF dmid, of "relay_env url settings" ?fl] all_removed
    by (simp add: removeCCRelayConfig_def readClaudeSettings_def io_fine_def relay_settings_eq map_of_put_member write_settings_def
        proxyEnvVars_def)
  moreover have "map_of (updateSettingsEnv ?s ev) k = map_option (go_value ?fl) (map_of settings k)" if "k \<noteq> ''env''" for k
    using that map_of_read_back [OF dmid] by (simp add: map_of_updateSettingsEnv relay_settings_eq map_of_put_member)
  ultimately show ?thesis using env' empty by (intro exI [of _ "settings_text L ?mid"] exI [of _ "updateSettingsEnv ?s ev"] exI [of _ ev])
      (simp add: map_of_updateSettingsEnv)
qed

text \<open>A file that cannot be read is replaced by one with the two variables only, and \<open>null\<close> is a panic.\<close>

lemma unreadable_settings_replaced:
  "applyCCRelayConfig L (io_fine\<lparr>si_read := Some e\<rparr>) url (Some data) = (None, Some (settings_text L (relay_settings url [])))"
  by (simp add: applyCCRelayConfig_def io_fine_def write_settings_def)

lemma null_settings_panic:
  "cx_dec L data = Some JNull \<Longrightarrow> applyCCRelayConfig L io_fine url (Some data) = (Some (GoPanic ''assignment to entry in nil map''), Some data)"
  by (simp add: applyCCRelayConfig_def any_map_def io_fine_def)

section \<open>Configurations\<close>

lemma validate_enabled_spec:
  "validate_enabled ps seen =
     (case find (\<lambda>p. pv_Enabled p \<and> pv_Keys p = []) ps of
        Some p \<Rightarrow> (Some (''provider '' @ pv_Name p @ '' has no API keys configured''), True)
      | None \<Rightarrow> (None, seen \<or> (\<exists>p \<in> set ps. pv_Enabled p)))"
  by (induction ps seen rule: validate_enabled.induct) (auto split: option.split)

lemma validateConfig_spec:
  "validateConfig cfg = None \<longleftrightarrow> sv_Listen (cf_Server cfg) \<noteq> [] \<and> sv_APIKey (cf_Server cfg) \<noteq> [] \<and>
     (\<exists>p \<in> set (cf_Providers cfg). pv_Enabled p) \<and> (\<forall>p \<in> set (cf_Providers cfg). pv_Enabled p \<longrightarrow> pv_Keys p \<noteq> [])"
  by (auto simp: validateConfig_def validate_enabled_spec find_None_iff find_Some_iff split: option.splits)

text \<open>The command asks for an API key that the server does not need, and looks at none of what the validation of the configuration checks.\<close>

lemma command_rejects_valid: "valid_config (\<lambda>_. False) demo_config \<and> validateConfig demo_config = Some ''server.api_key is required''"
  using demo_config_valid by (simp add: validateConfig_def demo_config_def)

lemma command_accepts_invalid:
  "\<exists>cfg. validateConfig cfg = None \<and> \<not> valid_config parseIP cfg"
proof
  let ?cfg = "demo_config\<lparr>cf_Server := (cf_Server demo_config)\<lparr>sv_Listen := ''nowhere'', sv_APIKey := ''k''\<rparr>\<rparr>"
  show "validateConfig ?cfg = None \<and> \<not> valid_config parseIP ?cfg"
    by (simp add: validateConfig_def demo_config_def demo_provider_def valid_config_def server_ok_def listen_ok_def split_host_port_def last_index_def)
qed

lemma config_init_keeps:
  assumes "files output = Some old" and "output \<noteq> []" and "io_stat E output = None"
  shows "snd (runConfigInit clean E template output False files) = files"
  using assms by (simp add: runConfigInit_def)

section \<open>Witnesses\<close>

definition demo_settings :: json where
  "demo_settings = JObj [(''theme'', JStr ''dark''), (''env'', JObj [(''DEBUG'', JStr ''1'')])]"

definition demo_settings_lib :: codex_lib where
  "demo_settings_lib = \<lparr>cx_dec = (\<lambda>s. if s = ''old'' then Some demo_settings
       else Some (JObj [(''env'', JObj [(''ANTHROPIC_AUTH_TOKEN'', JStr ''managed-by-cc-relay''), (''ANTHROPIC_BASE_URL'', JStr ''u''), (''DEBUG'', JStr ''1'')]),
         (''theme'', JStr ''dark'')])),
     cx_enc = (\<lambda>_. ''new''), cx_float = id, cx_time = (\<lambda>_. None), cx_base64 = (\<lambda>_. None)\<rparr>"

lemma demo_settings_read: "any_map (cx_dec demo_settings_lib) ''old'' = Some [(''env'', JObj [(''DEBUG'', JStr ''1'')]), (''theme'', JStr ''dark'')]"
  by code_simp

lemma cc_init_then_remove_witness:
  "fst (removeCCRelayConfig demo_settings_lib io_fine (snd (applyCCRelayConfig demo_settings_lib io_fine ''u'' (Some ''old'')))) = Inr proxyEnvVars"
proof -
  have "cx_dec demo_settings_lib ''old'' \<noteq> Some JNull" by code_simp
  moreover have "settings_env [(''env'', JObj [(''DEBUG'', JStr ''1'')]), (''theme'', JStr ''dark'')] = Some [(''DEBUG'', JStr ''1'')]" by code_simp
  moreover have "\<forall>k \<in> set proxyEnvVars. map_of [(''DEBUG'', JStr ''1'')] k = None" by code_simp
  moreover have "cx_dec demo_settings_lib (settings_text demo_settings_lib (relay_settings ''u'' [(''env'', JObj [(''DEBUG'', JStr ''1'')]), (''theme'', JStr ''dark'')])) =
      Some (go_value (cx_float demo_settings_lib) (json_map (relay_settings ''u'' [(''env'', JObj [(''DEBUG'', JStr ''1'')]), (''theme'', JStr ''dark'')])))"
    by code_simp
  ultimately show ?thesis
    using cc_init_then_remove [OF demo_settings_read, where env = "[(''DEBUG'', JStr ''1'')]" and url = "''u''"] by auto
qed

end
