(* ===== verification/Lifecycle.thy ===== *)
theory Lifecycle
  imports Config_Loading Circuit_Health
begin

text \<open>
  How the relay is started and stopped: the checker of the health of providers, which is replaced at every reload (\<open>health_service.go\<close> of
  \<open>internal/di\<close>, \<open>Checker\<close> of \<open>internal/health\<close>), the server that other programs embed (\<open>server.go\<close>), and the shutdown of the command
  (\<open>serve.go\<close>, \<open>container.go\<close>). \<open>net/http\<close> is modelled, the container of \<open>samber/do\<close> is an argument.
\<close>

section \<open>The checks\<close>

definition providerHealthBaseURL :: "provider_config \<Rightarrow> string" where
  "providerHealthBaseURL p =
     (if pv_Type p = ''bedrock''
      then (if pv_AWSRegion p \<noteq> '''' then ''https://bedrock-runtime.'' @ pv_AWSRegion p @ ''.amazonaws.com'' else pv_BaseURL p)
      else if pv_Type p = ''vertex''
      then (if pv_GCPRegion p \<noteq> '''' then ''https://'' @ pv_GCPRegion p @ ''-aiplatform.googleapis.com'' else pv_BaseURL p)
      else if pv_Type p = ''azure''
      then (if pv_AzureResourceName p \<noteq> '''' then ''https://'' @ pv_AzureResourceName p @ ''.services.ai.azure.com'' else pv_BaseURL p)
      else pv_BaseURL p)"

definition RegisterProvider :: "string \<Rightarrow> health_check \<Rightarrow> (string \<rightharpoonup> health_check) \<Rightarrow> (string \<rightharpoonup> health_check)" where
  "RegisterProvider n check checks = checks(n \<mapsto> check)"

fun registerProviders ::
    "(string \<Rightarrow> (string \<times> string) option) \<Rightarrow> provider_config list \<Rightarrow> (string \<rightharpoonup> health_check) \<Rightarrow> (string \<rightharpoonup> health_check)" where
  "registerProviders parseURL [] checks = checks"
| "registerProviders parseURL (p # ps) checks =
     registerProviders parseURL ps
       (if \<not> pv_Enabled p then checks
        else RegisterProvider (pv_Name p) (NewProviderHealthCheck parseURL (pv_Name p) (providerHealthBaseURL p)) checks)"

text \<open>A reload forgets what is known about the providers and makes the checks anew.\<close>

definition rebuild_checks ::
    "(string \<Rightarrow> (string \<times> string) option) \<Rightarrow> breaker_config \<Rightarrow> provider_config list \<Rightarrow> 'b tracker \<Rightarrow> 'b tracker \<times> (string \<rightharpoonup> health_check)" where
  "rebuild_checks parseURL cfg ps t = (Tracker_Reset cfg t, registerProviders parseURL ps Map.empty)"

section \<open>Replacing the checker\<close>

definition drop_at :: "nat \<Rightarrow> 'a list \<Rightarrow> 'a list" where
  "drop_at i xs = take i xs @ drop (Suc i) xs"

text \<open>
  Checkers are numbered as they are made. What goroutines have left to do outside of the lock: to start a checker, or to stop the old one and
  start the new one.
\<close>

datatype checker_work = Starts nat | Stops nat nat

record checker_service =
  cks_current :: nat
  cks_next :: nat
  cks_started :: bool
  cks_cancelled :: "nat list"
  cks_running :: "nat list"
  cks_work :: "checker_work list"

definition NewCheckerService :: checker_service where
  "NewCheckerService = \<lparr>cks_current = 0, cks_next = 1, cks_started = False, cks_cancelled = [], cks_running = [], cks_work = []\<rparr>"

definition CheckerService_Start :: "checker_service \<Rightarrow> checker_service" where
  "CheckerService_Start s = s\<lparr>cks_started := True, cks_work := cks_work s @ [Starts (cks_current s)]\<rparr>"

definition swapChecker :: "checker_service \<Rightarrow> checker_service" where
  "swapChecker s =
     s\<lparr>cks_current := cks_next s, cks_next := Suc (cks_next s),
       cks_work := (if cks_started s then cks_work s @ [Stops (cks_current s) (cks_next s)] else cks_work s)\<rparr>"

definition CheckerService_Shutdown :: "checker_service \<Rightarrow> checker_service" where
  "CheckerService_Shutdown s =
     (if cks_started s then s\<lparr>cks_cancelled := cks_current s # cks_cancelled s, cks_started := False\<rparr> else s)"

text \<open>\<open>Checker.Start\<close>, with the goroutine that ends when its context is cancelled; \<open>enabled\<close> says of which checkers the configuration has checks on.\<close>

definition Checker_Start :: "(nat \<Rightarrow> bool) \<Rightarrow> nat \<Rightarrow> checker_service \<Rightarrow> checker_service" where
  "Checker_Start enabled c s = (if enabled c then s\<lparr>cks_running := cks_running s @ [c]\<rparr> else s)"

definition Checker_Stop :: "nat \<Rightarrow> checker_service \<Rightarrow> checker_service" where
  "Checker_Stop c s = s\<lparr>cks_cancelled := c # cks_cancelled s\<rparr>"

text \<open>
  The steps: the service is started; a reload exchanges the checker; it stops the old one; a checker is started; the service is shut down; a
  cancelled goroutine ends. \<open>Stop\<close> also waits for the goroutine; the steps do not, which allows more.
\<close>

inductive checker_step :: "(nat \<Rightarrow> bool) \<Rightarrow> checker_service \<Rightarrow> checker_service \<Rightarrow> bool" for enabled :: "nat \<Rightarrow> bool" where
  starts: "checker_step enabled s (CheckerService_Start s)"
| reloads: "checker_step enabled s (swapChecker s)"
| stops: "i < length (cks_work s) \<Longrightarrow> cks_work s ! i = Stops old new \<Longrightarrow>
    checker_step enabled s (Checker_Stop old (s\<lparr>cks_work := (cks_work s)[i := Starts new]\<rparr>))"
| runs: "i < length (cks_work s) \<Longrightarrow> cks_work s ! i = Starts c \<Longrightarrow>
    checker_step enabled s (Checker_Start enabled c (s\<lparr>cks_work := drop_at i (cks_work s)\<rparr>))"
| shuts_down: "checker_step enabled s (CheckerService_Shutdown s)"
| ends: "i < length (cks_running s) \<Longrightarrow> cks_running s ! i \<in> set (cks_cancelled s) \<Longrightarrow>
    checker_step enabled s (s\<lparr>cks_running := drop_at i (cks_running s)\<rparr>)"

inductive_cases checker_stepE: "checker_step enabled s s'"

text \<open>The checkers that check.\<close>

definition live_checkers :: "checker_service \<Rightarrow> nat set" where
  "live_checkers s = set (cks_running s) - set (cks_cancelled s)"

section \<open>The embedded server\<close>

datatype server_status = StatusStopped | StatusRunning | StatusError

text \<open>The goroutine of a start: about to listen, serving, back with an error, back without one (or with the error noted), and at its end.\<close>

datatype serve_goroutine = Listens | Serves | Failed go_error | Returned | Done

text \<open>
  \<open>eb_down\<close>: the server of \<open>net/http\<close> was shut down, after which it does not listen again; \<open>eb_closed\<close>: so was the container;
  \<open>eb_watches\<close>: the contexts of the watches of the configuration that were not cancelled, \<open>eb_cancel\<close> the one that can be.
\<close>

record embedded =
  eb_status :: server_status
  eb_err :: "go_error option"
  eb_down :: bool
  eb_closed :: bool
  eb_watches :: "nat list"
  eb_cancel :: "nat option"
  eb_next :: nat
  eb_goroutines :: "serve_goroutine list"

text \<open>\<open>NewServer\<close>: what comes of the container, the logger and the server.\<close>

definition ccrelay_NewServer :: "go_error option \<Rightarrow> go_error option \<Rightarrow> go_error option \<Rightarrow> go_error + embedded" where
  "ccrelay_NewServer container_err logger_err server_err =
     (case container_err of
        Some e \<Rightarrow> Inl e
      | None \<Rightarrow>
          (case logger_err of
             Some e \<Rightarrow> Inl e
           | None \<Rightarrow>
               (case server_err of
                  Some e \<Rightarrow> Inl e
                | None \<Rightarrow> Inr \<lparr>eb_status = StatusStopped, eb_err = None, eb_down = False, eb_closed = False, eb_watches = [], eb_cancel = None,
                                eb_next = 0, eb_goroutines = []\<rparr>)))"

text \<open>\<open>resolves\<close>: whether a container that was shut down still gives its services; if not, \<open>MustInvoke\<close> panics.\<close>

definition Embedded_Start :: "bool \<Rightarrow> embedded \<Rightarrow> go_error option \<times> embedded" where
  "Embedded_Start resolves s =
     (if eb_status s = StatusRunning then (Some (OtherError ''server is already running''), s)
      else if eb_closed s \<and> \<not> resolves then (Some (GoPanic ''DI: could not find service''), s)
      else (None, s\<lparr>eb_status := StatusRunning, eb_watches := eb_next s # eb_watches s, eb_cancel := Some (eb_next s), eb_next := Suc (eb_next s),
                    eb_goroutines := eb_goroutines s @ [Listens]\<rparr>))"

text \<open>Shutting the server down makes \<open>ListenAndServe\<close> return without an error that is noted.\<close>

definition Embedded_Stop :: "embedded \<Rightarrow> go_error option \<times> embedded" where
  "Embedded_Stop s =
     (if eb_status s \<noteq> StatusRunning then (Some (OtherError ''server is not running''), s)
      else (None, s\<lparr>eb_watches := filter (\<lambda>w. Some w \<noteq> eb_cancel s) (eb_watches s), eb_down := True, eb_closed := True,
                    eb_goroutines := map (\<lambda>g. if g = Serves then Returned else g) (eb_goroutines s), eb_status := StatusStopped\<rparr>))"

definition goroutine_to :: "nat \<Rightarrow> serve_goroutine \<Rightarrow> embedded \<Rightarrow> embedded" where
  "goroutine_to i g s = s\<lparr>eb_goroutines := (eb_goroutines s)[i := g]\<rparr>"

text \<open>The result of listening: an error, or that requests are served; after a shutdown \<open>ErrServerClosed\<close>, which is not noted.\<close>

definition ListenAndServe :: "go_error option \<Rightarrow> embedded \<Rightarrow> serve_goroutine" where
  "ListenAndServe failure s = (if eb_down s then Returned else case failure of Some e \<Rightarrow> Failed e | None \<Rightarrow> Serves)"

definition note_error :: "go_error \<Rightarrow> embedded \<Rightarrow> embedded" where
  "note_error e s = s\<lparr>eb_status := StatusError, eb_err := Some e\<rparr>"

definition note_end :: "embedded \<Rightarrow> embedded" where
  "note_end s = (if eb_status s = StatusRunning then s\<lparr>eb_status := StatusStopped\<rparr> else s)"

text \<open>With \<open>patient\<close> the server is started only when the goroutines of earlier starts have ended.\<close>

inductive embedded_step :: "bool \<Rightarrow> bool \<Rightarrow> embedded \<Rightarrow> embedded \<Rightarrow> bool" for patient resolves :: bool where
  start: "(patient \<longrightarrow> (\<forall>g \<in> set (eb_goroutines s). g = Done)) \<Longrightarrow> embedded_step patient resolves s (snd (Embedded_Start resolves s))"
| stop: "embedded_step patient resolves s (snd (Embedded_Stop s))"
| listen: "i < length (eb_goroutines s) \<Longrightarrow> eb_goroutines s ! i = Listens \<Longrightarrow>
    embedded_step patient resolves s (goroutine_to i (ListenAndServe failure s) s)"
| fail: "i < length (eb_goroutines s) \<Longrightarrow> eb_goroutines s ! i = Serves \<Longrightarrow>
    embedded_step patient resolves s (goroutine_to i (Failed e) s)"
| error: "i < length (eb_goroutines s) \<Longrightarrow> eb_goroutines s ! i = Failed e \<Longrightarrow>
    embedded_step patient resolves s (goroutine_to i Returned (note_error e s))"
| over: "i < length (eb_goroutines s) \<Longrightarrow> eb_goroutines s ! i = Returned \<Longrightarrow>
    embedded_step patient resolves s (goroutine_to i Done (note_end s))"

inductive_cases embedded_stepE: "embedded_step patient resolves s s'"

section \<open>The command\<close>

text \<open>
  What a shutdown does, in its order. \<open>end_of\<close> is an error of serving other than \<open>ErrServerClosed\<close>, which comes before any signal and ends the
  command without a shutdown; the errors of the shutdown are only logged.
\<close>

datatype shutdown_step = CancelWatch | ShutdownServer | ShutdownContainer

definition runWithGracefulShutdown :: "bool \<Rightarrow> go_error option \<Rightarrow> go_error option \<times> shutdown_step list" where
  "runWithGracefulShutdown watching end_of =
     (case end_of of
        Some e \<Rightarrow> (Some e, [])
      | None \<Rightarrow> (None, (if watching then [CancelWatch] else []) @ [ShutdownServer, ShutdownContainer]))"

text \<open>The report of the injector, if it comes before the deadline: whether it succeeded, and its text.\<close>

definition ShutdownWithContext :: "(bool \<times> string) option option \<Rightarrow> go_error \<Rightarrow> go_error option" where
  "ShutdownWithContext report deadline =
     (case report of
        None \<Rightarrow> Some (Wrapped ''shutdown timed out'' deadline)
      | Some None \<Rightarrow> None
      | Some (Some (succeed, text)) \<Rightarrow> if succeed then None else Some (OtherError (''shutdown failed: '' @ text)))"

end
