(* ===== verification/Lifecycle_Facts.thy ===== *)
theory Lifecycle_Facts
  imports Lifecycle
begin

text \<open>
  At most one checker checks, and the server that says it does not serve does not, unless it is started again too early.
\<close>

section \<open>The checks\<close>

lemma registerProviders_dom:
  "dom (registerProviders parseURL ps checks) = dom checks \<union> {pv_Name p |p. p \<in> set ps \<and> pv_Enabled p}"
  by (induction parseURL ps checks rule: registerProviders.induct) (auto simp: RegisterProvider_def)

section \<open>Checkers\<close>

lemma drop_at_set: "set (drop_at i xs) \<subseteq> set xs"
  by (auto simp: drop_at_def dest: in_set_takeD in_set_dropD)

lemma in_drop_at: "x \<in> set xs \<Longrightarrow> x \<noteq> xs ! i \<Longrightarrow> x \<in> set (drop_at i xs)"
  by (induction xs arbitrary: i) (auto simp: drop_at_def nth_Cons split: nat.splits, (metis append_eq_Cons_conv id_take_nth_drop in_set_conv_decomp)?)

lemma in_update: "x \<in> set xs \<Longrightarrow> x \<noteq> xs ! i \<Longrightarrow> x \<in> set (xs[i := y])"
  by (metis in_set_conv_nth length_list_update nth_list_update_neq)

text \<open>A checker that is about to be started or runs is in order: it is the current one of a started service, cancelled, or about to be stopped.\<close>

definition accounted :: "checker_service \<Rightarrow> nat \<Rightarrow> bool" where
  "accounted s c \<longleftrightarrow> cks_started s \<and> c = cks_current s \<or> c \<in> set (cks_cancelled s) \<or> (\<exists>new. Stops c new \<in> set (cks_work s))"

fun work_accounted :: "checker_service \<Rightarrow> checker_work \<Rightarrow> bool" where
  "work_accounted s (Starts c) = accounted s c"
| "work_accounted s (Stops old new) = accounted s new"

definition checkers_inv :: "checker_service \<Rightarrow> bool" where
  "checkers_inv s \<longleftrightarrow> (\<forall>c \<in> set (cks_running s). accounted s c) \<and> (\<forall>w \<in> set (cks_work s). work_accounted s w)"

lemma accounted_step:
  assumes "checker_step enabled s s'" and "accounted s c"
  shows "accounted s' c"
  using assms(1)
proof cases
  case starts
  then show ?thesis using assms(2) by (auto simp: accounted_def CheckerService_Start_def)
next
  case reloads
  then show ?thesis using assms(2) by (auto simp: accounted_def swapChecker_def)
next
  case (stops i old new)
  then show ?thesis using assms(2) in_update [of "Stops c _" "cks_work s" i] by (fastforce simp: accounted_def Checker_Stop_def)
next
  case (runs i c')
  then show ?thesis using assms(2) in_drop_at [of "Stops c _" "cks_work s" i] by (fastforce simp: accounted_def Checker_Start_def)
next
  case shuts_down
  then show ?thesis using assms(2) by (auto simp: accounted_def CheckerService_Shutdown_def)
next
  case (ends i)
  then show ?thesis using assms(2) by (auto simp: accounted_def)
qed

lemma work_accounted_step: "checker_step enabled s s' \<Longrightarrow> work_accounted s w \<Longrightarrow> work_accounted s' w"
  by (cases w) (auto intro: accounted_step)

lemma checkers_inv_step:
  assumes step: "checker_step enabled s s'" and inv: "checkers_inv s"
  shows "checkers_inv s'"
proof -
  have "(\<forall>c \<in> set (cks_running s'). c \<in> set (cks_running s) \<or> accounted s' c) \<and>
      (\<forall>w \<in> set (cks_work s'). w \<in> set (cks_work s) \<or> work_accounted s' w)"
    using step
  proof cases
    case starts
    then show ?thesis by (simp add: CheckerService_Start_def accounted_def)
  next
    case reloads
    then show ?thesis by (simp add: swapChecker_def accounted_def)
  next
    case (stops i old new)
    have "work_accounted s (Stops old new)" using inv stops nth_mem by (fastforce simp: checkers_inv_def)
    then have "accounted s' new" using accounted_step [OF step] by simp
    then show ?thesis
      using stops set_update_subset_insert [of "cks_work s" i "Starts new"] by (auto simp: Checker_Stop_def)
  next
    case (runs i c)
    have "work_accounted s (Starts c)" using inv runs nth_mem by (fastforce simp: checkers_inv_def)
    then have "accounted s' c" using accounted_step [OF step] by simp
    then show ?thesis using runs drop_at_set [of i "cks_work s"] by (auto simp: Checker_Start_def)
  next
    case shuts_down
    then show ?thesis by (simp add: CheckerService_Shutdown_def)
  next
    case (ends i)
    then show ?thesis using drop_at_set [of i "cks_running s"] by auto
  qed
  then show ?thesis using inv accounted_step [OF step] work_accounted_step [OF step] unfolding checkers_inv_def by blast
qed

text \<open>The current checker of a started service runs, is cancelled, or will be started.\<close>

definition checks_on :: "(nat \<Rightarrow> bool) \<Rightarrow> checker_service \<Rightarrow> bool" where
  "checks_on enabled s \<longleftrightarrow> (cks_started s \<longrightarrow> enabled (cks_current s) \<longrightarrow> cks_current s \<notin> set (cks_cancelled s) \<longrightarrow>
     cks_current s \<in> set (cks_running s) \<or> Starts (cks_current s) \<in> set (cks_work s) \<or> (\<exists>old. Stops old (cks_current s) \<in> set (cks_work s)))"

lemma checks_on_step:
  assumes "checker_step enabled s s'" and "checks_on enabled s"
  shows "checks_on enabled s'"
  using assms(1)
proof cases
  case starts
  then show ?thesis by (simp add: checks_on_def CheckerService_Start_def)
next
  case reloads
  then show ?thesis by (simp add: checks_on_def swapChecker_def) blast
next
  case (stops i old new)
  have "Starts new \<in> set ((cks_work s)[i := Starts new])" using stops(2) by (rule set_update_memI)
  then show ?thesis
    using assms(2) stops in_update [of _ "cks_work s" i] by (fastforce simp: checks_on_def Checker_Stop_def)
next
  case (runs i c)
  then show ?thesis using assms(2) in_drop_at [of _ "cks_work s" i] by (fastforce simp: checks_on_def Checker_Start_def)
next
  case shuts_down
  then show ?thesis using assms(2) by (auto simp: checks_on_def CheckerService_Shutdown_def)
next
  case (ends i)
  then have "cks_current s \<in> set (drop_at i (cks_running s))" if "cks_current s \<in> set (cks_running s)" "cks_current s \<notin> set (cks_cancelled s)"
    using that in_drop_at [of "cks_current s" "cks_running s" i] by force
  then show ?thesis using assms(2) ends(1) by (auto simp: checks_on_def)
qed

text \<open>
  C18: In every interleaving of starts, reloads and shutdowns a checker that checks is the current one of a started service, or a reload is
  about to stop it. So when no goroutine is at work there is none but the current one and none after a shutdown; and the current one checks if
  the service was started and the configuration asks for it, unless it was stopped.
\<close>

theorem one_checker:
  assumes "(checker_step enabled)\<^sup>*\<^sup>* NewCheckerService s"
  shows "(\<forall>c \<in> live_checkers s. cks_started s \<and> c = cks_current s \<or> (\<exists>new. Stops c new \<in> set (cks_work s))) \<and>
    (cks_work s = [] \<longrightarrow> live_checkers s \<subseteq> (if cks_started s then {cks_current s} else {}) \<and>
       (cks_started s \<and> enabled (cks_current s) \<and> cks_current s \<notin> set (cks_cancelled s) \<longrightarrow> cks_current s \<in> live_checkers s))"
proof -
  from assms have inv: "checkers_inv s \<and> checks_on enabled s"
  proof (induction rule: rtranclp_induct)
    case base
    show ?case by (simp add: checkers_inv_def checks_on_def NewCheckerService_def)
  next
    case (step s s')
    then show ?case using checkers_inv_step checks_on_step by blast
  qed
  then have live: "\<forall>c \<in> live_checkers s. cks_started s \<and> c = cks_current s \<or> (\<exists>new. Stops c new \<in> set (cks_work s))"
    by (auto simp: live_checkers_def checkers_inv_def accounted_def)
  then show ?thesis using inv by (auto simp: live_checkers_def checks_on_def)
qed

text \<open>A service that is started again after a shutdown has a checker that was stopped; nothing checks until a reload.\<close>

lemma restarted_checker_dead:
  "cks_started s \<Longrightarrow> cks_current (CheckerService_Start (CheckerService_Shutdown s)) \<in> set (cks_cancelled (CheckerService_Start (CheckerService_Shutdown s)))"
  by (simp add: CheckerService_Start_def CheckerService_Shutdown_def)

section \<open>The embedded server\<close>

lemma in_goroutines_to:
  "g \<in> set (eb_goroutines (goroutine_to i g' s)) \<Longrightarrow> g = g' \<or> g \<in> set (eb_goroutines s)"
  by (auto simp: goroutine_to_def dest: set_update_subset_insert [THEN subsetD])

lemma goroutine_to_simps [simp]:
  "eb_status (goroutine_to i g s) = eb_status s" "eb_down (goroutine_to i g s) = eb_down s" "eb_closed (goroutine_to i g s) = eb_closed s"
  "eb_watches (goroutine_to i g s) = eb_watches s" "length (eb_goroutines (goroutine_to i g s)) = length (eb_goroutines s)"
  by (simp_all add: goroutine_to_def)

lemma note_simps [simp]:
  "eb_down (note_error e s) = eb_down s" "eb_goroutines (note_error e s) = eb_goroutines s"
  "eb_down (note_end s) = eb_down s" "eb_goroutines (note_end s) = eb_goroutines s"
  "eb_goroutines (goroutine_to i g (note_end s)) = eb_goroutines (goroutine_to i g s)"
  "eb_goroutines (goroutine_to i g (note_error e s)) = eb_goroutines (goroutine_to i g s)"
  by (simp_all add: note_error_def note_end_def goroutine_to_def)

text \<open>A server that was shut down does not serve any more, and stays shut down.\<close>

lemma down_step:
  assumes "embedded_step patient resolves s s'" and "eb_down s \<longrightarrow> Serves \<notin> set (eb_goroutines s)"
  shows "(eb_down s \<longrightarrow> eb_down s') \<and> (eb_down s' \<longrightarrow> Serves \<notin> set (eb_goroutines s'))"
  using assms(1)
proof cases
  case start
  then show ?thesis using assms(2) by (auto simp: Embedded_Start_def)
next
  case stop
  then show ?thesis using assms(2) by (auto simp: Embedded_Stop_def)
next
  case (listen i failure)
  then show ?thesis using assms(2) by (auto simp: ListenAndServe_def dest!: in_goroutines_to split: if_splits option.splits)
next
  case (fail i e)
  then show ?thesis using assms(2) by (auto dest!: in_goroutines_to)
next
  case (error i e)
  then show ?thesis using assms(2) by (auto dest!: in_goroutines_to)
next
  case (over i)
  then show ?thesis using assms(2) by (auto dest!: in_goroutines_to)
qed

text \<open>With patient starts one goroutine at most is not done, and it is what the status says.\<close>

definition embedded_inv :: "embedded \<Rightarrow> bool" where
  "embedded_inv s \<longleftrightarrow> (\<forall>i < length (eb_goroutines s). \<forall>j < length (eb_goroutines s).
       eb_goroutines s ! i \<noteq> Done \<longrightarrow> eb_goroutines s ! j \<noteq> Done \<longrightarrow> i = j) \<and>
     (Serves \<in> set (eb_goroutines s) \<longrightarrow> eb_status s = StatusRunning \<and> \<not> eb_down s) \<and>
     (Listens \<in> set (eb_goroutines s) \<longrightarrow> eb_status s = StatusRunning \<or> eb_down s) \<and>
     (eb_status s = StatusRunning \<longrightarrow> (\<exists>g \<in> set (eb_goroutines s). g \<noteq> Done))"

lemma one_goroutine:
  assumes "embedded_inv s" and "i < length (eb_goroutines s)" and "eb_goroutines s ! i \<noteq> Done"
  shows "set (eb_goroutines (goroutine_to i g s)) \<subseteq> {Done, g}" and "g \<in> set (eb_goroutines (goroutine_to i g s))"
    and "a < length (eb_goroutines s) \<Longrightarrow> eb_goroutines (goroutine_to i g s) ! a \<noteq> Done \<Longrightarrow> a = i"
proof -
  have others: "a = i" if "a < length (eb_goroutines s)" "eb_goroutines s ! a \<noteq> Done" for a
    using assms that unfolding embedded_inv_def by blast
  show unique: "a = i" if "a < length (eb_goroutines s)" "eb_goroutines (goroutine_to i g s) ! a \<noteq> Done" for a
    using others that by (cases "a = i") (auto simp: goroutine_to_def)
  show "set (eb_goroutines (goroutine_to i g s)) \<subseteq> {Done, g}"
  proof
    fix x
    assume "x \<in> set (eb_goroutines (goroutine_to i g s))"
    then obtain a where "a < length (eb_goroutines s)" "x = eb_goroutines (goroutine_to i g s) ! a"
      by (auto simp: in_set_conv_nth)
    then show "x \<in> {Done, g}" using unique [of a] assms(2) by (cases "x = Done") (auto simp: goroutine_to_def)
  qed
  show "g \<in> set (eb_goroutines (goroutine_to i g s))" using assms(2) by (simp add: goroutine_to_def set_update_memI)
qed

lemma embedded_inv_to:
  assumes "embedded_inv s" and "i < length (eb_goroutines s)" and "eb_goroutines s ! i \<noteq> Done"
    and "eb_goroutines s' = eb_goroutines (goroutine_to i g s)"
    and "g = Serves \<longrightarrow> eb_status s' = StatusRunning \<and> \<not> eb_down s'" and "g \<noteq> Listens" and "eb_status s' = StatusRunning \<longrightarrow> g \<noteq> Done"
  shows "embedded_inv s'"
proof -
  note one = one_goroutine [OF assms(1-3), where g = g]
  have "Serves \<in> set (eb_goroutines s') \<Longrightarrow> g = Serves" "Listens \<notin> set (eb_goroutines s')" using one(1) assms(4,6) by auto
  then show ?thesis using one(2,3) assms(4,5,7) unfolding embedded_inv_def by (auto simp: assms(4))
qed

lemma embedded_inv_step:
  assumes "embedded_step True resolves s s'" and inv: "embedded_inv s"
  shows "embedded_inv s'"
  using assms(1)
proof cases
  case start
  then have d: "\<forall>g \<in> set (eb_goroutines s). g = Done" by simp
  then have n: "eb_status s \<noteq> StatusRunning" using inv by (auto simp: embedded_inv_def)
  show ?thesis
  proof (cases "eb_closed s \<and> \<not> resolves")
    case False
    then have s': "eb_goroutines s' = eb_goroutines s @ [Listens]" "eb_status s' = StatusRunning" using start n by (auto simp: Embedded_Start_def)
    have "Serves \<notin> set (eb_goroutines s')" using d by (auto simp: s')
    moreover have "i = length (eb_goroutines s)" if "i < length (eb_goroutines s')" "eb_goroutines s' ! i \<noteq> Done" for i
      using that d by (auto simp: s' nth_append less_Suc_eq split: if_splits)
    ultimately show ?thesis unfolding embedded_inv_def by (auto simp: s')
  qed (use start n inv in \<open>simp add: Embedded_Start_def\<close>)
next
  case stop
  show ?thesis
  proof (cases "eb_status s = StatusRunning")
    case True
    then have s': "eb_goroutines s' = map (\<lambda>g. if g = Serves then Returned else g) (eb_goroutines s)" "eb_status s' = StatusStopped" "eb_down s'"
      using stop by (auto simp: Embedded_Stop_def)
    have "i = j" if "i < length (eb_goroutines s)" "j < length (eb_goroutines s)" "eb_goroutines s' ! i \<noteq> Done" "eb_goroutines s' ! j \<noteq> Done" for i j
    proof -
      have "eb_goroutines s ! i \<noteq> Done" "eb_goroutines s ! j \<noteq> Done" using that by (auto simp: s')
      then show "i = j" using inv that(1,2) unfolding embedded_inv_def by blast
    qed
    then show ?thesis unfolding embedded_inv_def by (auto simp: s')
  qed (use stop inv in \<open>simp add: Embedded_Stop_def\<close>)
next
  case (listen i failure)
  have "Listens \<in> set (eb_goroutines s)" using listen(2,3) nth_mem by force
  then have "eb_status s = StatusRunning \<or> eb_down s" using inv by (simp add: embedded_inv_def)
  then show ?thesis
    using listen by (intro embedded_inv_to [OF inv listen(2), where g = "ListenAndServe failure s"])
      (auto simp: ListenAndServe_def split: option.splits)
next
  case (fail i e)
  then show ?thesis by (intro embedded_inv_to [OF inv fail(2), where g = "Failed e"]) auto
next
  case (error i e)
  then show ?thesis by (intro embedded_inv_to [OF inv error(2), where g = Returned]) auto
next
  case (over i)
  then show ?thesis by (intro embedded_inv_to [OF inv over(2), where g = Done]) (auto simp: note_end_def goroutine_to_def)
qed

lemma embedded_reaches:
  assumes "(embedded_step patient resolves)\<^sup>*\<^sup>* s s'" and "eb_down s \<longrightarrow> Serves \<notin> set (eb_goroutines s)"
  shows "(eb_down s \<longrightarrow> eb_down s') \<and> (eb_down s' \<longrightarrow> Serves \<notin> set (eb_goroutines s'))"
  using assms(1)
proof (induction rule: rtranclp_induct)
  case base
  show ?case using assms(2) by simp
next
  case (step s1 s2)
  then show ?case using down_step [OF step(2)] by blast
qed

text \<open>
  C19: When the server is started only after the goroutines of earlier starts have ended, one that serves says so, so a status other than
  running is never wrong. And in any case a server that was stopped never serves again, whatever a later start returns.
\<close>

theorem embedded_truthful:
  assumes "ccrelay_NewServer None None None = Inr s0" and "(embedded_step patient resolves)\<^sup>*\<^sup>* s0 s"
  shows "(patient \<longrightarrow> Serves \<in> set (eb_goroutines s) \<longrightarrow> eb_status s = StatusRunning) \<and>
    (eb_status s = StatusRunning \<longrightarrow> (embedded_step patient resolves)\<^sup>*\<^sup>* (snd (Embedded_Stop s)) s' \<longrightarrow> Serves \<notin> set (eb_goroutines s'))"
proof -
  have s0: "embedded_inv s0" "eb_goroutines s0 = []" using assms(1) by (auto simp: ccrelay_NewServer_def embedded_inv_def)
  have "embedded_inv s" if patient
    using assms(2) unfolding that [THEN eqTrueI] by (induction rule: rtranclp_induct) (use s0 embedded_inv_step in blast)+
  moreover have "Serves \<notin> set (eb_goroutines s')"
    if "eb_status s = StatusRunning" "(embedded_step patient resolves)\<^sup>*\<^sup>* (snd (Embedded_Stop s)) s'"
  proof -
    have "eb_down (snd (Embedded_Stop s))" "Serves \<notin> set (eb_goroutines (snd (Embedded_Stop s)))" using that(1) by (auto simp: Embedded_Stop_def)
    then show ?thesis using embedded_reaches [OF that(2)] by blast
  qed
  ultimately show ?thesis by (auto simp: embedded_inv_def)
qed

lemma embedded_run:
  assumes "ccrelay_NewServer None None None = Inr s0"
  obtains s1 s2 where
    "(embedded_step patient resolves)\<^sup>*\<^sup>* s0 s1" "eb_goroutines s1 = [Returned]" "eb_status s1 = StatusError" "eb_watches s1 = [0]" "\<not> eb_closed s1" "\<not> eb_down s1"
    "(embedded_step patient resolves)\<^sup>*\<^sup>* s1 s2" "eb_goroutines s2 = [Done]" "eb_status s2 = StatusError" "eb_watches s2 = [0]" "\<not> eb_closed s2"
proof -
  let ?S = "embedded_step patient resolves" and ?e = "NetError ''address already in use''"
  define a where "a = snd (Embedded_Start resolves s0)"
  define b where "b = goroutine_to 0 (ListenAndServe (Some ?e) a) a"
  define c where "c = goroutine_to 0 Returned (note_error ?e b)"
  define d where "d = goroutine_to 0 Done (note_end c)"
  have s0: "s0 = \<lparr>eb_status = StatusStopped, eb_err = None, eb_down = False, eb_closed = False, eb_watches = [], eb_cancel = None,
      eb_next = 0, eb_goroutines = []\<rparr>" using assms by (simp add: ccrelay_NewServer_def)
  have a: "eb_goroutines a = [Listens]" "eb_watches a = [0]" "\<not> eb_closed a" "\<not> eb_down a" by (simp_all add: a_def s0 Embedded_Start_def)
  have b: "eb_goroutines b = [Failed ?e]" using a by (simp add: b_def goroutine_to_def ListenAndServe_def)
  have c: "eb_goroutines c = [Returned]" "eb_status c = StatusError" "eb_watches c = [0]" "\<not> eb_closed c" "\<not> eb_down c"
    using a b by (simp_all add: c_def b_def goroutine_to_def note_error_def)
  have d: "eb_goroutines d = [Done]" "eb_status d = StatusError" "eb_watches d = [0]" "\<not> eb_closed d"
    using c by (simp_all add: d_def goroutine_to_def note_end_def)
  have "?S s0 a" unfolding a_def by (rule embedded_step.start) (simp add: s0)
  moreover have "?S a b" unfolding b_def by (rule embedded_step.listen) (simp_all add: a)
  moreover have "?S b c" unfolding c_def by (rule embedded_step.error) (simp_all add: b)
  ultimately have "?S\<^sup>*\<^sup>* s0 c" by (meson converse_rtranclp_into_rtranclp rtranclp.rtrancl_refl)
  moreover have "?S c d" unfolding d_def by (rule embedded_step.over) (simp_all add: c)
  ultimately show ?thesis using that c d r_into_rtranclp [of ?S c d] by blast
qed

text \<open>
  C35: A server that is started again as soon as it reports an error can serve while it says that it is stopped, and cannot be stopped then. And
  one that ended with an error cannot be stopped at all: its container stays open and the configuration is watched on.
\<close>

theorem embedded_lost:
  assumes "ccrelay_NewServer None None None = Inr s0"
  shows "(\<exists>s. (embedded_step False resolves)\<^sup>*\<^sup>* s0 s \<and> Serves \<in> set (eb_goroutines s) \<and> eb_status s = StatusStopped \<and>
      fst (Embedded_Stop s) \<noteq> None) \<and>
    (\<exists>s. (embedded_step True resolves)\<^sup>*\<^sup>* s0 s \<and> eb_status s = StatusError \<and> (\<forall>g \<in> set (eb_goroutines s). g = Done) \<and>
      eb_watches s \<noteq> [] \<and> \<not> eb_closed s \<and> fst (Embedded_Stop s) \<noteq> None)"
proof
  let ?S = "embedded_step False resolves"
  obtain c where c: "?S\<^sup>*\<^sup>* s0 c" "eb_goroutines c = [Returned]" "eb_status c = StatusError" "\<not> eb_closed c" "\<not> eb_down c"
    by (rule embedded_run [OF assms, of False resolves]) blast
  define d where "d = snd (Embedded_Start resolves c)"
  define e where "e = goroutine_to 1 (ListenAndServe None d) d"
  define f where "f = goroutine_to 0 Done (note_end e)"
  have d: "eb_goroutines d = [Returned, Listens]" "eb_status d = StatusRunning" "\<not> eb_down d"
    using c by (simp_all add: d_def Embedded_Start_def)
  have e: "eb_goroutines e = [Returned, Serves]" "eb_status e = StatusRunning" using d by (simp_all add: e_def goroutine_to_def ListenAndServe_def)
  have f: "eb_goroutines f = [Done, Serves]" "eb_status f = StatusStopped" using e by (simp_all add: f_def goroutine_to_def note_end_def)
  have "?S c d" unfolding d_def by (rule embedded_step.start) simp
  moreover have "?S d e" unfolding e_def by (rule embedded_step.listen) (simp_all add: d)
  moreover have "?S e f" unfolding f_def by (rule embedded_step.over) (simp_all add: e)
  ultimately have "?S\<^sup>*\<^sup>* s0 f" using c(1) by (meson rtranclp.rtrancl_into_rtrancl)
  then show "\<exists>s. ?S\<^sup>*\<^sup>* s0 s \<and> Serves \<in> set (eb_goroutines s) \<and> eb_status s = StatusStopped \<and> fst (Embedded_Stop s) \<noteq> None"
    using f by (intro exI [of _ f]) (simp add: Embedded_Stop_def)
  obtain g where "(embedded_step True resolves)\<^sup>*\<^sup>* s0 g" "eb_goroutines g = [Done]" "eb_status g = StatusError" "eb_watches g = [0]" "\<not> eb_closed g"
    by (rule embedded_run [OF assms, of True resolves]) (meson rtranclp_trans)
  then show "\<exists>s. (embedded_step True resolves)\<^sup>*\<^sup>* s0 s \<and> eb_status s = StatusError \<and> (\<forall>g \<in> set (eb_goroutines s). g = Done) \<and>
      eb_watches s \<noteq> [] \<and> \<not> eb_closed s \<and> fst (Embedded_Stop s) \<noteq> None"
    by (intro exI [of _ g]) (simp add: Embedded_Stop_def)
qed

section \<open>Witnesses\<close>

lemma one_checker_witness: "live_checkers (swapChecker NewCheckerService) = {}"
  using one_checker [OF r_into_rtranclp [where r = "checker_step (\<lambda>_. True)", OF checker_step.reloads]]
  by (simp add: swapChecker_def NewCheckerService_def)

definition demo_embedded :: embedded where
  "demo_embedded = \<lparr>eb_status = StatusStopped, eb_err = None, eb_down = False, eb_closed = False, eb_watches = [], eb_cancel = None,
     eb_next = 0, eb_goroutines = []\<rparr>"

lemma demo_embedded: "ccrelay_NewServer None None None = Inr demo_embedded"
  by (simp add: ccrelay_NewServer_def demo_embedded_def)

lemma embedded_truthful_witness:
  "\<exists>s s'. eb_status s = StatusRunning \<and> s' = snd (Embedded_Start True (snd (Embedded_Stop s))) \<and> Serves \<notin> set (eb_goroutines s')"
proof -
  let ?S = "embedded_step False True" and ?s = "snd (Embedded_Start True demo_embedded)"
  have "?S\<^sup>*\<^sup>* demo_embedded ?s" by (rule r_into_rtranclp [where r = ?S], rule embedded_step.start) simp
  moreover have "?S\<^sup>*\<^sup>* (snd (Embedded_Stop ?s)) (snd (Embedded_Start True (snd (Embedded_Stop ?s))))"
    by (rule r_into_rtranclp [where r = ?S], rule embedded_step.start) simp
  moreover have "eb_status ?s = StatusRunning" by (simp add: Embedded_Start_def demo_embedded_def)
  ultimately show ?thesis using embedded_truthful [OF demo_embedded] by blast
qed

lemma embedded_lost_witness: "\<exists>s. (embedded_step False True)\<^sup>*\<^sup>* demo_embedded s \<and> Serves \<in> set (eb_goroutines s) \<and> eb_status s = StatusStopped"
  using embedded_lost [OF demo_embedded, of True] by blast

end
