(* ===== verification/Services.thy ===== *)
theory Services
  imports Config_Loading Pool_Service Providers Lifecycle
begin

text \<open>
  The services together (\<open>internal/di\<close>): what a start builds from a configuration (\<open>NewProviderMap\<close>, \<open>NewKeyPool\<close>, \<open>NewKeyPoolMap\<close>,
  \<open>NewProviderInfo\<close> and their OpenAI counterparts, \<open>NewConcurrencyService\<close>, \<open>NewChecker\<close>), and the callbacks they register, in the order in
  which the container builds them. Both sections of providers are taken to be in use; with one of them only its callbacks are registered.
\<close>

section \<open>State\<close>

text \<open>
  \<open>sl_aws\<close> and \<open>sl_google\<close> are the errors of finding cloud credentials, \<open>sl_health\<close> the section about circuit breakers, \<open>sl_url\<close> is
  \<open>url.Parse\<close>, \<open>sl_healthy\<close> what the closures of the tracker answer.
\<close>

record ('l, 'r, 'c) services_lib =
  sl_rate :: "('l, 'r, 'c) rate_lib"
  sl_float :: "rat \<Rightarrow> rat"
  sl_aws :: "go_error option"
  sl_google :: "go_error option"
  sl_health :: "config \<Rightarrow> breaker_config"
  sl_url :: "string \<Rightarrow> (string \<times> string) option"
  sl_healthy :: "string \<Rightarrow> bool"

record ('l, 'b) services =
  ss_providers :: provider_map_result
  ss_pool :: "'l key_pool_service"
  ss_pools :: "'l pool_maps"
  ss_infos :: "provider_info list"
  ss_openai_providers :: provider_map_result
  ss_openai_pools :: "'l pool_maps"
  ss_openai_infos :: "provider_info list"
  ss_tracker :: "'b tracker"
  ss_checks :: "string \<rightharpoonup> health_check"

text \<open>A provider as the routers see it.\<close>

definition routed_provider :: "provider_impl \<Rightarrow> provider" where
  "routed_provider p = \<lparr>prov_Name = bp_name (impl_base p), prov_Owner = bp_owner (impl_base p)\<rparr>"

definition infos_of :: "('l, 'r, 'c) services_lib \<Rightarrow> provider_config list \<Rightarrow> provider_map_result \<Rightarrow> provider_info list" where
  "infos_of L cfgs r = rebuildProviderInfos cfgs (\<lambda>n. map_option routed_provider (pr_ProviderMap r n)) (sl_healthy L)"

section \<open>Callbacks\<close>

definition provider_map_callback :: "('l, 'r, 'c) services_lib \<Rightarrow> config \<Rightarrow> ('l, 'b) services \<Rightarrow> ('l, 'b) services" where
  "provider_map_callback L cfg s = s\<lparr>ss_providers := providers_RebuildFrom (sl_aws L) (sl_google L) cfg (ss_providers s)\<rparr>"

definition key_pool_callback :: "('l, 'r, 'c) services_lib \<Rightarrow> config \<Rightarrow> ('l, 'b) services \<Rightarrow> ('l, 'b) services" where
  "key_pool_callback L cfg s = s\<lparr>ss_pool := snd (primary_RebuildFrom (sl_rate L) (sl_float L) (cf_Providers cfg) (ss_pool s))\<rparr>"

definition key_pool_map_callback :: "('l, 'r, 'c) services_lib \<Rightarrow> config \<Rightarrow> ('l, 'b) services \<Rightarrow> ('l, 'b) services" where
  "key_pool_map_callback L cfg s = s\<lparr>ss_pools := snd (pools_RebuildFrom (sl_rate L) (sl_float L) cfg (ss_pools s))\<rparr>"

definition provider_info_callback :: "('l, 'r, 'c) services_lib \<Rightarrow> config \<Rightarrow> ('l, 'b) services \<Rightarrow> ('l, 'b) services" where
  "provider_info_callback L cfg s = s\<lparr>ss_infos := infos_of L (cf_Providers cfg) (ss_providers s)\<rparr>"

text \<open>The OpenAI section: without a provider the current ones are kept.\<close>

definition openai_providers_RebuildFrom ::
    "go_error option \<Rightarrow> go_error option \<Rightarrow> config \<Rightarrow> provider_map_result \<Rightarrow> provider_map_result" where
  "openai_providers_RebuildFrom aws_config google_creds cfg s =
     (let r = rebuildProviderMap aws_config google_creds (cf_OpenAIProviders cfg)
      in if pr_AllProviders r = [] then s else r)"

definition openai_provider_map_callback :: "('l, 'r, 'c) services_lib \<Rightarrow> config \<Rightarrow> ('l, 'b) services \<Rightarrow> ('l, 'b) services" where
  "openai_provider_map_callback L cfg s =
     s\<lparr>ss_openai_providers := openai_providers_RebuildFrom (sl_aws L) (sl_google L) cfg (ss_openai_providers s)\<rparr>"

definition openai_key_pool_map_callback :: "('l, 'r, 'c) services_lib \<Rightarrow> config \<Rightarrow> ('l, 'b) services \<Rightarrow> ('l, 'b) services" where
  "openai_key_pool_map_callback L cfg s =
     s\<lparr>ss_openai_pools := snd (openai_RebuildFrom (sl_rate L) (sl_float L) cfg (ss_openai_pools s))\<rparr>"

definition openai_provider_info_callback :: "('l, 'r, 'c) services_lib \<Rightarrow> config \<Rightarrow> ('l, 'b) services \<Rightarrow> ('l, 'b) services" where
  "openai_provider_info_callback L cfg s = s\<lparr>ss_openai_infos := infos_of L (cf_OpenAIProviders cfg) (ss_openai_providers s)\<rparr>"

definition checker_callback :: "('l, 'r, 'c) services_lib \<Rightarrow> config \<Rightarrow> ('l, 'b) services \<Rightarrow> ('l, 'b) services" where
  "checker_callback L cfg s =
     (case rebuild_checks (sl_url L) (sl_health L cfg) (cf_Providers cfg) (ss_tracker s) of
        (t, checks) \<Rightarrow> s\<lparr>ss_tracker := t, ss_checks := checks\<rparr>)"

text \<open>
  The order: the handler of the messages endpoint asks for its services one after the other, the limit is the last of them, then those of the
  OpenAI section; the checker is built when the server is.
\<close>

definition before_limit :: "('l, 'r, 'c) services_lib \<Rightarrow> (config \<Rightarrow> ('l, 'b) services \<Rightarrow> ('l, 'b) services) list" where
  "before_limit L = [provider_map_callback L, key_pool_callback L, key_pool_map_callback L, provider_info_callback L]"

definition after_limit :: "('l, 'r, 'c) services_lib \<Rightarrow> (config \<Rightarrow> ('l, 'b) services \<Rightarrow> ('l, 'b) services) list" where
  "after_limit L = [openai_provider_map_callback L, openai_key_pool_map_callback L, openai_provider_info_callback L, checker_callback L]"

definition registered :: "('l, 'r, 'c) services_lib \<Rightarrow> (config, ('l, 'b) services service_state) callback list" where
  "registered L = service_callbacks (before_limit L) (after_limit L)"

section \<open>Starting\<close>

definition no_pools :: "'l pool_maps" where
  "no_pools = \<lparr>pm_Pools = Map.empty, pm_Keys = Map.empty\<rparr>"

text \<open>An error of building a pool ends a start; the OpenAI section gives none.\<close>

definition start_services :: "('l, 'r, 'c) services_lib \<Rightarrow> config \<Rightarrow> go_error + ('l, 'b) services service_state" where
  "start_services L cfg =
     (case NewProviderMap (sl_aws L) (sl_google L) cfg of
        Inl e \<Rightarrow> Inl e
      | Inr providers \<Rightarrow>
          (case primary_RebuildFrom (sl_rate L) (sl_float L) (cf_Providers cfg) \<lparr>ks_Pool = None, ks_ProviderName = ''''\<rparr> of
             (Some e, _) \<Rightarrow> Inl (OtherError ''failed to create key pool'')
           | (None, pool) \<Rightarrow>
               (case pools_RebuildFrom (sl_rate L) (sl_float L) cfg no_pools of
                  (Some e, _) \<Rightarrow> Inl (OtherError ''failed to create key pool'')
                | (None, pools) \<Rightarrow>
                    (let openai = rebuildProviderMap (sl_aws L) (sl_google L) (cf_OpenAIProviders cfg)
                     in Inr \<lparr>sst_config = cfg, sst_limiter = NewConcurrencyService (Some cfg),
                             sst_rest = \<lparr>ss_providers = providers, ss_pool = pool, ss_pools = pools,
                               ss_infos = infos_of L (cf_Providers cfg) providers, ss_openai_providers = openai,
                               ss_openai_pools = snd (openai_RebuildFrom (sl_rate L) (sl_float L) cfg no_pools),
                               ss_openai_infos = infos_of L (cf_OpenAIProviders cfg) openai, ss_tracker = NewTracker (sl_health L cfg),
                               ss_checks = registerProviders (sl_url L) (cf_Providers cfg) Map.empty\<rparr>\<rparr>))))"

end
