(* ===== verification/Services_Facts.thy ===== *)
theory Services_Facts
  imports Services Config_Loading_Facts
begin

text \<open>
  A reload leaves the services as a start would, and what requests can meet in between.
\<close>

lemmas callback_defs = provider_map_callback_def key_pool_callback_def key_pool_map_callback_def provider_info_callback_def
  openai_provider_map_callback_def openai_key_pool_map_callback_def openai_provider_info_callback_def checker_callback_def

lemma primary_fresh:
  "primary_RebuildFrom RL fl ps s0 = (None, pool) \<Longrightarrow> primary_RebuildFrom RL fl ps s = (None, pool)"
  by (induction ps) (auto split: if_splits sum.splits)

lemma pools_fresh: "pools_RebuildFrom RL fl cfg s = pools_RebuildFrom RL fl cfg s'"
  by (simp add: pools_RebuildFrom_def)

lemma providers_fresh: "NewProviderMap a g cfg = Inr r \<Longrightarrow> providers_RebuildFrom a g cfg s = r"
  by (auto simp: NewProviderMap_def providers_RebuildFrom_def Let_def split: if_splits)

lemma openai_fresh:
  "pr_AllProviders (rebuildProviderMap a g (cf_OpenAIProviders cfg)) \<noteq> [] \<Longrightarrow>
   openai_providers_RebuildFrom a g cfg s = rebuildProviderMap a g (cf_OpenAIProviders cfg)"
  by (simp add: openai_providers_RebuildFrom_def Let_def)

lemma reset_fresh: "Tracker_Reset cfg t = NewTracker cfg"
  by (simp add: Tracker_Reset_def NewTracker_def)

lemma limit_eq: "limit_callback cfg s = s\<lparr>sst_limiter := (sst_limiter s)\<lparr>lm_limit := sv_MaxConcurrent (cf_Server cfg)\<rparr>\<rparr>"
  by (simp add: limit_callback_def limiter_SetLimit_def Let_def)

text \<open>The state a start would give, but for the number of requests in flight.\<close>

definition as_started :: "('l, 'r, 'c) services_lib \<Rightarrow> config \<Rightarrow> ('l, 'b) services service_state \<Rightarrow> bool" where
  "as_started L cfg s \<longleftrightarrow> (\<forall>new. start_services L cfg = Inr new \<longrightarrow>
     pr_AllProviders (rebuildProviderMap (sl_aws L) (sl_google L) (cf_OpenAIProviders cfg)) \<noteq> [] \<longrightarrow>
     s = new\<lparr>sst_limiter := (sst_limiter new)\<lparr>lm_current := lm_current (sst_limiter s)\<rparr>\<rparr>)"

lemma run_registered:
  fixes s :: "('l, 'b) services service_state"
  shows "as_started L cfg (run_callbacks (registered L) cfg s)"
  unfolding as_started_def
proof (intro allI impI)
  fix new :: "('l, 'b) services service_state"
  assume st: "start_services L cfg = Inr new"
    and openai: "pr_AllProviders (rebuildProviderMap (sl_aws L) (sl_google L) (cf_OpenAIProviders cfg)) \<noteq> []"
  obtain providers pool pools where
    p: "NewProviderMap (sl_aws L) (sl_google L) cfg = Inr providers"
      "primary_RebuildFrom (sl_rate L) (sl_float L) (cf_Providers cfg) \<lparr>ks_Pool = None, ks_ProviderName = ''''\<rparr> = (None, pool)"
      "pools_RebuildFrom (sl_rate L) (sl_float L) cfg no_pools = (None, pools)"
    using st by (auto simp: start_services_def split: sum.splits prod.splits option.splits)
  have pools: "pools_RebuildFrom (sl_rate L) (sl_float L) cfg z = (None, pools)" for z
    using p(3) by (simp add: pools_RebuildFrom_def)
  have openai_pools: "openai_RebuildFrom (sl_rate L) (sl_float L) cfg z = openai_RebuildFrom (sl_rate L) (sl_float L) cfg no_pools" for z
    by (simp add: openai_RebuildFrom_def)
  have new: "new = \<lparr>sst_config = cfg, sst_limiter = NewConcurrencyService (Some cfg),
      sst_rest = \<lparr>ss_providers = providers, ss_pool = pool, ss_pools = pools, ss_infos = infos_of L (cf_Providers cfg) providers,
        ss_openai_providers = rebuildProviderMap (sl_aws L) (sl_google L) (cf_OpenAIProviders cfg),
        ss_openai_pools = snd (openai_RebuildFrom (sl_rate L) (sl_float L) cfg no_pools),
        ss_openai_infos = infos_of L (cf_OpenAIProviders cfg) (rebuildProviderMap (sl_aws L) (sl_google L) (cf_OpenAIProviders cfg)),
        ss_tracker = NewTracker (sl_health L cfg), ss_checks = registerProviders (sl_url L) (cf_Providers cfg) Map.empty\<rparr>\<rparr>"
    using st p by (simp add: start_services_def Let_def)
  note run = run_callbacks_def registered_def service_callbacks_def before_limit_def after_limit_def rest_callback_def callback_defs
    Runtime_Store_def rebuild_checks_def limit_eq providers_fresh [OF p(1)] primary_fresh [OF p(2)] pools openai_pools [of "ss_openai_pools _"]
    openai_fresh [OF openai] reset_fresh NewConcurrencyService_def NewConcurrencyLimiter_def
  show "run_callbacks (registered L) cfg s =
      new\<lparr>sst_limiter := (sst_limiter new)\<lparr>lm_current := lm_current (sst_limiter (run_callbacks (registered L) cfg s))\<rparr>\<rparr>"
    unfolding new by (rule service_state.equality; (rule services.equality limiter.equality)?) (simp_all add: run)
qed

section \<open>What reloads leave\<close>

lemma one_fired:
  assumes "one_calling rs" and "i < length rs" and "rs ! i = Calling c n"
  shows "\<forall>r \<in> set (remove_at i rs). r = Fired"
proof
  fix r
  assume "r \<in> set (remove_at i rs)"
  then show "r = Fired" using calling_unique(3) [OF assms] by (cases r rule: reload.exhaust) auto
qed

locale reload_outcome =
  fixes cbs :: "('c, 's) callback list" and outcome :: "'c \<Rightarrow> 's \<Rightarrow> bool"
  assumes outcome_run: "outcome c (run_callbacks cbs c s)"
begin

text \<open>A reload at work has called a part of the callbacks; when none is, the state is the outcome for the file.\<close>

definition half_way :: "('c, 's) watcher \<Rightarrow> bool" where
  "half_way w \<longleftrightarrow> one_calling (wt_reloads w) \<and>
     (\<forall>c n. Calling c n \<in> set (wt_reloads w) \<longrightarrow> n \<le> length cbs \<and> (\<exists>s. wt_state w = run_callbacks (take n cbs) c s))"

definition current :: "('c, 's) watcher \<Rightarrow> bool" where
  "current w \<longleftrightarrow> (\<forall>c n. Calling c n \<in> set (wt_reloads w) \<longrightarrow> wt_file w = Some c) \<and>
     ((\<forall>r \<in> set (wt_reloads w). r = Fired) \<longrightarrow> (\<forall>c. wt_file w = Some c \<longrightarrow> outcome c (wt_state w)))"

definition outcome_inv :: "string \<Rightarrow> ('c, 's) watcher \<Rightarrow> bool" where
  "outcome_inv target w \<longleftrightarrow> half_way w \<and> (\<not> wt_closed w \<longrightarrow> wt_watching w \<longrightarrow> reload_pending target w \<or> current w)"

lemma outcome_inv_step:
  assumes "watch_step True cbs target w w'" and inv: "outcome_inv target w"
  shows "outcome_inv target w'"
  using assms(1)
proof cases
  case (changes ev contents)
  then show ?thesis using inv by (auto simp: outcome_inv_def half_way_def reload_pending_def)
next
  case (notifies ev)
  then show ?thesis using inv by (auto simp: outcome_inv_def half_way_def reload_pending_def current_def)
next
  case (handles_event ev evs)
  then show ?thesis using inv by (auto simp: outcome_inv_def half_way_def reload_pending_def current_def handleEvent_def)
next
  case fires
  then show ?thesis using inv one_calling_snoc by (auto simp: outcome_inv_def half_way_def reload_pending_def timer_fires_def)
next
  case (loads i)
  have one: "one_calling (remove_at i (wt_reloads w))"
    using inv one_calling_remove [OF _ loads(2)] by (simp add: outcome_inv_def half_way_def)
  have fired: "\<forall>r \<in> set (wt_reloads w). r = Fired" using loads(4) by simp
  show ?thesis
  proof (cases "wt_file w")
    case None
    then have w': "w' = w\<lparr>wt_reloads := remove_at i (wt_reloads w)\<rparr>" using loads by (simp add: triggerReload_def)
    have "\<forall>r \<in> set (remove_at i (wt_reloads w)). r = Fired" using fired by (auto simp: remove_at_def dest!: in_set_takeD in_set_dropD)
    then have "current w'" "half_way w'" using None one by (auto simp: w' current_def half_way_def)
    then show ?thesis by (simp add: outcome_inv_def)
  next
    case (Some cfg)
    then have w': "w' = w\<lparr>wt_reloads := (wt_reloads w)[i := Calling cfg 0]\<rparr>" using loads by (simp add: triggerReload_def)
    have only: "x = Calling cfg 0" if "x \<in> set ((wt_reloads w)[i := Calling cfg 0])" "x \<noteq> Fired" for x
      using set_update_subset_insert [THEN subsetD, OF that(1)] fired that(2) by auto
    moreover have "Calling cfg 0 \<in> set ((wt_reloads w)[i := Calling cfg 0])" using loads(2) by (rule set_update_memI)
    ultimately have "current w'" using Some unfolding w' current_def by fastforce
    moreover have "half_way w'"
      using only one_calling_load [OF fired, of i "Calling cfg 0"] unfolding w' half_way_def
      by (fastforce simp: run_callbacks_def)
    ultimately show ?thesis by (simp add: outcome_inv_def)
  qed
next
  case (calls i cfg n)
  have half: "half_way w" using inv by (simp add: outcome_inv_def)
  then have one: "one_calling (wt_reloads w)" by (simp add: half_way_def)
  note u = calling_unique [OF one calls(2,3)]
  have here: "Calling cfg n \<in> set (wt_reloads w)" using calls(2,3) nth_mem by metis
  then obtain s where s: "n \<le> length cbs" "wt_state w = run_callbacks (take n cbs) cfg s" using half unfolding half_way_def by blast
  show ?thesis
  proof (cases "n < length cbs")
    case True
    then have w': "w' = w\<lparr>wt_state := (cbs ! n) cfg (wt_state w), wt_reloads := (wt_reloads w)[i := Calling cfg (Suc n)]\<rparr>"
      using calls by (simp add: invokeCallback_def)
    have "wt_state w' = run_callbacks (take (Suc n) cbs) cfg s" using True s(2) by (simp add: w' run_callbacks_def take_Suc_conv_app_nth)
    then have "half_way w'" using u(2,6) True unfolding half_way_def by (auto simp: w')
    moreover have "reload_pending target w'" if "reload_pending target w" using that u(4) by (auto simp: w' reload_pending_def)
    moreover have "current w'" if "current w"
      using that here u(2) set_update_memI [OF calls(2), of "Calling cfg (Suc n)"] unfolding current_def by (fastforce simp: w')
    ultimately show ?thesis using inv by (auto simp: outcome_inv_def w')
  next
    case False
    then have w': "w' = w\<lparr>wt_reloads := remove_at i (wt_reloads w)\<rparr>" using calls by (simp add: invokeCallback_def)
    have fired: "\<forall>r \<in> set (remove_at i (wt_reloads w)). r = Fired" by (rule one_fired [OF one calls(2,3)])
    have "half_way w'" using one_calling_remove [OF one calls(2)] fired by (auto simp: w' half_way_def)
    moreover have "reload_pending target w'" if "reload_pending target w" using that u(5) by (auto simp: w' reload_pending_def)
    moreover have "current w'" if "current w"
    proof -
      have "wt_file w = Some cfg" using that here unfolding current_def by blast
      then show ?thesis using fired False s outcome_run by (auto simp: w' current_def)
    qed
    ultimately show ?thesis using inv by (auto simp: outcome_inv_def w')
  qed
next
  case closes
  then show ?thesis using inv by (auto simp: outcome_inv_def half_way_def watcher_Close_def)
next
  case cancels
  then show ?thesis using inv by (simp add: outcome_inv_def half_way_def)
qed

lemma outcome_quiet:
  assumes "(watch_step True cbs target)\<^sup>*\<^sup>* (new_watcher contents s) w" and "\<forall>c. contents = Some c \<longrightarrow> outcome c s"
    and "quiet w" and "\<not> wt_closed w" and "wt_watching w" and "wt_file w = Some c"
  shows "outcome c (wt_state w)"
proof -
  have new: "outcome_inv target (new_watcher contents s)"
    using assms(2) by (simp add: outcome_inv_def half_way_def current_def new_watcher_def one_calling_def)
  from assms(1) have "outcome_inv target w"
    by (induction rule: rtranclp_induct) (use new outcome_inv_step in blast)+
  then show ?thesis using assms(3-6) by (auto simp: outcome_inv_def quiet_def reload_pending_def current_def)
qed

end

interpretation restart: reload_outcome "registered L" "as_started L" for L
  by unfold_locales (rule run_registered)


section \<open>In between\<close>

lemma pools_of_enabled:
  assumes "\<forall>p \<in> set ps. pv_Enabled p \<longrightarrow> pv_Name p \<noteq> n"
  shows "pm_Pools (fst (rebuildKeyPoolMap RL fl ps)) n = None \<and> pm_Keys (fst (rebuildKeyPoolMap RL fl ps)) n = None"
  using rebuild_loop_other [OF assms, of RL fl "(\<lparr>pm_Pools = Map.empty, pm_Keys = Map.empty\<rparr>, None)"] by (simp add: rebuildKeyPoolMap_def)

text \<open>
  C36: The callbacks are not one step. When a provider is taken out of the configuration, there is a time during the reload in which the routers
  still get it but it has neither a pool nor a key.
\<close>

theorem reload_window:
  assumes "i \<in> set (ss_infos (sst_rest s))" and "pi_Provider i = Some p" and "\<forall>q \<in> set (cf_Providers c). pv_Enabled q \<longrightarrow> pv_Name q \<noteq> prov_Name p"
  shows "\<exists>n < length (registered L). \<exists>s'. s' = run_callbacks (take n (registered L)) c s \<and> i \<in> set (ss_infos (sst_rest s')) \<and>
    pm_Pools (ss_pools (sst_rest s')) (prov_Name p) = None \<and> pm_Keys (ss_pools (sst_rest s')) (prov_Name p) = None"
  using assms pools_of_enabled [OF assms(3), of "sl_rate L" "sl_float L"]
  by (intro exI [of _ 3])
    (simp add: registered_def service_callbacks_def before_limit_def after_limit_def run_callbacks_def rest_callback_def callback_defs
      pools_RebuildFrom_def numeral_3_eq_3)

text \<open>A reload with no enabled provider says that it keeps the current ones; but no router gets them, and their keys are gone.\<close>

lemma no_infos: "\<forall>p \<in> set ps. \<not> pv_Enabled p \<Longrightarrow> rebuildProviderInfos ps pm h = []"
  by (induction ps) auto

lemma no_map: "\<forall>p \<in> set ps. \<not> pv_Enabled p \<Longrightarrow> provider_map_loop a g ps r = r"
  by (induction ps) auto

lemma kept_providers_unused:
  assumes "\<forall>p \<in> set (cf_Providers c). \<not> pv_Enabled p"
  shows "ss_providers (sst_rest (run_callbacks (registered L) c s)) = ss_providers (sst_rest s) \<and>
    ss_infos (sst_rest (run_callbacks (registered L) c s)) = [] \<and>
    pm_Keys (ss_pools (sst_rest (run_callbacks (registered L) c s))) n = None"
proof -
  have "providers_RebuildFrom a g c r = r" for a g r
    using no_map [OF assms] by (simp add: providers_RebuildFrom_def rebuildProviderMap_def Let_def)
  moreover have "pm_Keys (fst (rebuildKeyPoolMap RL fl (cf_Providers c))) n = None" for RL fl
    using pools_of_enabled [of "cf_Providers c" n RL fl] assms by simp
  ultimately show ?thesis
    using no_infos [OF assms]
    by (simp add: registered_def service_callbacks_def before_limit_def after_limit_def run_callbacks_def rest_callback_def callback_defs
        pools_RebuildFrom_def infos_of_def Runtime_Store_def limit_eq split: prod.split)
qed

section \<open>Witnesses\<close>

definition demo_lib :: "(bucket, bool, unit) services_lib" where
  "demo_lib = \<lparr>sl_rate = bkt_lib, sl_float = (\<lambda>x. x), sl_aws = None, sl_google = None, sl_health = (\<lambda>_. demo_breaker_cfg),
     sl_url = (\<lambda>_. None), sl_healthy = (\<lambda>_. True)\<rparr>"

definition both_sections :: config where
  "both_sections = demo_config\<lparr>cf_OpenAIProviders := [demo_provider]\<rparr>"

definition busier :: config where
  "busier = both_sections\<lparr>cf_Server := (cf_Server demo_config)\<lparr>sv_MaxConcurrent := 7\<rparr>\<rparr>"

lemma demo_created: "\<exists>p. createProvider a g demo_provider = Inr p \<and> bp_name (impl_base p) = ''a''"
proof -
  obtain p where p: "createProvider a g demo_provider = Inr p" using createProvider_plain [of demo_provider a g] by (auto simp: demo_provider_def)
  then show ?thesis using createProvider_name [OF p] by (simp add: demo_provider_def)
qed

lemma demo_starts:
  assumes "cf_Providers c = [demo_provider]" and "cf_OpenAIProviders c = [demo_provider]"
  shows "\<exists>new p i. start_services demo_lib c = Inr (new :: (bucket, 'b) services service_state) \<and> sst_config new = c \<and>
    pr_AllProviders (rebuildProviderMap (sl_aws demo_lib) (sl_google demo_lib) (cf_OpenAIProviders c)) \<noteq> [] \<and>
    i \<in> set (ss_infos (sst_rest new)) \<and> pi_Provider i = Some p \<and> prov_Name p = ''a''"
proof -
  obtain p where p: "createProvider None None demo_provider = Inr p" "bp_name (impl_base p) = ''a''" using demo_created by blast
  have d: "pv_Enabled demo_provider" "IsPoolingEnabled demo_provider" "pv_Name demo_provider = ''a''"
    by (simp_all add: demo_provider_def IsPoolingEnabled_def)
  show ?thesis
    using p d demo_built
    by (simp add: start_services_def assms demo_lib_def NewProviderMap_def rebuildProviderMap_def Let_def pools_RebuildFrom_def
        rebuildKeyPoolMap_def rebuild_step_def infos_of_def routed_provider_def split: option.split)
qed


lemma reload_window_witness:
  "\<exists>n (s' :: (bucket, unit) services service_state). (\<exists>i \<in> set (ss_infos (sst_rest s')). map_option prov_Name (pi_Provider i) = Some ''a'') \<and>
     pm_Keys (ss_pools (sst_rest s')) ''a'' = None \<and> n < length (registered demo_lib :: (config, (bucket, unit) services service_state) callback list)"
proof -
  obtain new :: "(bucket, unit) services service_state" and p i where
    new: "i \<in> set (ss_infos (sst_rest new))" "pi_Provider i = Some p" "prov_Name p = ''a''"
    using demo_starts [of both_sections] by (auto simp: both_sections_def demo_config_def)
  show ?thesis using reload_window [OF new(1,2), of "demo_config\<lparr>cf_Providers := []\<rparr>" demo_lib] new(2,3) by fastforce
qed

end
