(* ===== verification/Spec2Isabelle.thy ===== *)
theory Spec2Isabelle
  imports Key_Pool_Facts Provider_Router_Facts Failover_Router Circuit_Health Event_Stream_Facts ZAI_Cooldown
    Key_Updater Pool_Service Model_Routing Router_Service Retry_Loop Retry_Facts Retry_Properties Retry_Invariant
    Handler_Retry Handler_Retry_Facts Providers Error_Responses Proxy_Auth Retry_Auth Peek_Writer SSE_Body
    Client_Auth Client_Auth_Facts Concurrency_Limit Json_Edit Thinking Thinking_Facts Thinking_Switch Thinking_Properties
    Request_Prep Request_Prep_Facts Handler_Direct OpenAI_Handler OpenAI_Facts
    SSE_Events SSE_Events_Facts Stream_Converter Stream_Converter_Facts Responses_Converter Responses_Converter_Facts
    Codex_Images Codex_Images_Facts Codex_Auth Codex_Auth_Facts Cache_Config Cache_Backends Cache_Facts Cache_Concurrent RO_Cache
    Responses_Handler Responses_Handler_Facts Middleware_Chain Middleware_Facts Response_Signatures Response_Signatures_Facts Routes Routes_Facts
    Status_Pages Status_Pages_Facts Config_Loading Config_Loading_Facts
    Command_Line Command_Line_Facts Lifecycle Lifecycle_Facts Services Services_Facts
begin

text \<open>
  A verification development for cc-relay, an HTTP relay written in Go. It takes requests of the Anthropic messages API and of
  the OpenAI chat, responses and images APIs, and sends each to one of several configured providers with one of several API keys.

  \<^bold>\<open>The parts of the program and how they work together.\<close> A request passes the middleware (request identifier, logging, a limit on
  concurrent requests, a limit on the body, authentication) and reaches a handler. The messages handler reads the model, prepares the
  thinking blocks of the conversation, asks a router for a provider and a key pool for a key, and lets a reverse proxy send it, in up to
  three nested retry loops. What comes back teaches the key pool (headers, cooldowns), the health tracker (circuit breakers) and the
  router (requests in flight), and is streamed to the client, converted where the provider speaks another format. Pools, providers and
  routers follow the configuration, which can change while the program runs.

  \<^bold>\<open>Keys\<close> (\<open>internal/keypool\<close>, \<open>internal/ratelimit\<close>).
  \<^item> \<open>Key_Metadata\<close>: \<open>key.go\<close>. The record \<open>key_metadata\<close> is the struct; one function per method.
  \<^item> \<open>Rate_Limit\<close>: \<open>token_bucket.go\<close>, \<open>limiter.go\<close>, \<open>ro_limiter.go\<close>. Two token buckets per key, over the behaviour of \<open>x/time/rate\<close>.
  \<^item> \<open>Key_Selectors\<close>: the strategies. The locale \<open>key_selector\<close> is what a strategy promises (a member of the list that is available, or
    the exhausted error), \<open>tiered_selector\<close> adds the priority tiers; both are interpreted on the code's strategies.
  \<^item> \<open>Key_Pool\<close>, \<open>Key_Pool_Facts\<close>: \<open>pool.go\<close>. Soundness and completeness of \<open>GetKey\<close>, the invariant of reachable pools, cooldowns.
  \<^item> \<open>Key_Updater\<close>: \<open>keypool_updater.go\<close>. \<open>Pool_Service\<close>: \<open>keypool_service.go\<close> and its neighbours in \<open>internal/di\<close>.

  \<^bold>\<open>Providers\<close> (\<open>internal/router\<close>, \<open>internal/health\<close>, \<open>internal/providers\<close>).
  \<^item> \<open>Provider_Router\<close>, \<open>Provider_Router_Facts\<close>, \<open>Failover_Router\<close>: the six strategies, under the locale \<open>provider_router\<close> (a member of
    the list that is healthy, or a sentinel error, and the state kept well formed); shares and fairness over runs of selections.
  \<^item> \<open>Router_Service\<close>: the strategies behind one interface and the live router that follows the configuration.
  \<^item> \<open>Circuit_Health\<close>: the tracker of circuit breakers, over the documented behaviour of \<open>gobreaker\<close>.
  \<^item> \<open>Providers\<close>: what is sent to each kind of provider. \<open>ZAI_Cooldown\<close>: how long a key rests after a refusal.
  \<^item> \<open>Event_Stream\<close>, \<open>Event_Stream_Facts\<close>: the AWS Event Stream parser. Index expressions that the code does not check are slices that can
    fail (\<open>go_slice\<close>), so that a panic is a value; a slice that Go would grant up to its capacity panics here.

  \<^bold>\<open>Handlers\<close> (\<open>internal/proxy\<close>).
  \<^item> \<open>Retry_Loop\<close>: \<open>serveWithRetry\<close> and the loops under it, over a record of the operations that they call (\<open>retry_ops\<close>), as in the code.
    \<open>Retry_Facts\<close>, \<open>Retry_Invariant\<close> and \<open>Retry_Properties\<close> reason over histories of attempts, in the locales \<open>retry_history\<close>,
    \<open>retry_contract\<close> and \<open>retry_invariant\<close>.
  \<^item> \<open>Handler_Retry\<close>, \<open>Handler_Retry_Facts\<close> and \<open>OpenAI_Handler\<close>, \<open>OpenAI_Facts\<close>: the operations of the two handlers (\<open>handler.go\<close>,
    \<open>openai_handler.go\<close>, \<open>openai_retry.go\<close>) and the interpretations on them. \<open>Handler_Direct\<close>: the path without retries.
  \<^item> \<open>Request_Prep\<close>, \<open>Request_Prep_Facts\<close>, \<open>Model_Routing\<close>: the model of a request, its renaming, the affinity of a conversation.
  \<^item> \<open>Json_Edit\<close>: documents and their edits; \<open>gjson\<close> and \<open>sjson\<close> are the fields of a record with laws. \<open>Thinking\<close>, \<open>Thinking_Facts\<close>,
    \<open>Thinking_Switch\<close>, \<open>Thinking_Properties\<close>: \<open>thinking.go\<close> and \<open>signature_cache.go\<close>; the edits by index refine a map over the messages.
  \<^item> \<open>Response_Signatures\<close>, \<open>Response_Signatures_Facts\<close>: signatures in responses and streams (\<open>thinking.go\<close>, \<open>sse.go\<close>), and that they come back in
    requests.
  \<^item> \<open>Proxy_Auth\<close>, \<open>Retry_Auth\<close>: which credentials are sent. \<open>Error_Responses\<close>: the answers of the proxy itself.
  \<^item> \<open>Peek_Writer\<close>, \<open>SSE_Body\<close>, \<open>SSE_Events\<close>, \<open>SSE_Events_Facts\<close>: writers, bodies and events of streams.
  \<^item> \<open>Stream_Converter\<close>, \<open>Responses_Converter\<close> and their facts: the responses API over chat completions; the order of the events is a
    state machine that the converter follows. \<open>Responses_Handler\<close>, \<open>Responses_Handler_Facts\<close>: the handler.
  \<^item> \<open>Codex_Images\<close>, \<open>Codex_Auth\<close> and their facts: the images API and its login (\<open>codexauth\<close>).
  \<^item> \<open>Client_Auth\<close>, \<open>Client_Auth_Facts\<close>, \<open>Concurrency_Limit\<close>, \<open>Middleware_Chain\<close>, \<open>Middleware_Facts\<close>: \<open>middleware.go\<close>, \<open>internal/auth\<close>, the
    part of \<open>debug.go\<close> that looks at requests and the chain of \<open>routes.go\<close>. The concurrency limit is a step relation over goroutines.
  \<^item> \<open>Routes\<close>, \<open>Routes_Facts\<close>: the multiplexers of \<open>routes.go\<close>, its neighbours and \<open>server_service.go\<close>, and that they are one flat table.
  \<^item> \<open>Status_Pages\<close>, \<open>Status_Pages_Facts\<close>: the pages about models, providers and the quota of Z.AI.

  \<^bold>\<open>Configuration and cache.\<close>
  \<^item> \<open>Config\<close>: the records of \<open>config.go\<close> with their getters, and the validator, which accepts exactly the valid configurations.
  \<^item> \<open>Cache_Config\<close>, \<open>Cache_Backends\<close>, \<open>Cache_Facts\<close>, \<open>RO_Cache\<close>: the caches, under the locale \<open>cache_laws\<close>. Arrays live at addresses of a
    store, so that it shows whether a caller can change what is stored.
  \<^item> \<open>Cache_Concurrent\<close>: the caches under interleaved calls, step by step, and that they are linearizable (locale \<open>lock_protected\<close>).

  \<^bold>\<open>Life of the program\<close> (\<open>internal/config\<close>, \<open>internal/di\<close>, \<open>cmd/cc-relay\<close>, \<open>server.go\<close>).
  \<^item> \<open>Config_Loading\<close>, \<open>Config_Loading_Facts\<close>: \<open>loader.go\<close>, and the watcher of \<open>watcher.go\<close> as a step relation over changes of the file,
    notifications, timers and the reloads they start. The flag \<open>one\<close> of the relation is the case that reloads do not overlap. The locale
    \<open>reload_target\<close> is a part of the state that one callback sets.
  \<^item> \<open>Services\<close>, \<open>Services_Facts\<close>: all services, what a start builds and the callbacks in their order; the locale \<open>reload_outcome\<close> is what a whole
    reload leaves, and its interpretation that this is what a restart gives.
  \<^item> \<open>Lifecycle\<close>, \<open>Lifecycle_Facts\<close>: the health checker that is replaced at reloads and the server for other programs, as step relations over
    goroutines; the shutdown.
  \<^item> \<open>Command_Line\<close>, \<open>Command_Line_Facts\<close>: the commands that edit settings, check configurations, and ask for the status.

  \<open>CR_Prelude\<close> has what all share: Go's integers and the parts of its standard library that several components use.

  \<^bold>\<open>Conventions.\<close> State is passed explicitly. A method that changes its receiver returns it; a function with an error returns a sum, with
  the error on the left; a panic is a value where the code can panic. Errors are \<open>go_error\<close>: sentinels, formatted and wrapped ones.
  Machine integers wrap (\<open>wrap64\<close> in the prelude, \<open>word\<close> in the parsers) where they can reach their bounds. Times and durations are integers
  in nanoseconds. Strings are lists of bytes.

  \<^bold>\<open>Parameters.\<close> Clocks, random numbers, the results of HTTP calls, hashes, JSON syntax, floating-point rounding and the libraries
  (\<open>gobreaker\<close>, \<open>gjson\<close>, \<open>sjson\<close>, Ristretto, Olric, \<open>samber/lo\<close>, \<open>samber/ro\<close>) are arguments of the definitions that use them, with what is relied on as
  named hypotheses (for example \<open>json_ok\<close>). Each such property has a witness in which the parameter is a concrete function.

  \<^bold>\<open>Bounds and fuel.\<close> The retry loops count down the rounds that the configuration allows, which is how the code bounds them. Loops over
  a body end because each round takes something away; their termination is proved. Only \<open>replace_sensitive\<close> has fuel, the length of the text: every
  round takes at least one byte.

  \<^bold>\<open>Not modelled.\<close>
  \<^item> The parsers of YAML and TOML, the file system and its notifications, \<open>samber/do\<close> and the framework of the commands: libraries; what they are
    asked and what they answer is modelled where the code depends on it.
  \<^item> The text of log lines, TLS traces, metrics, the console writer, the version and the template of the configuration: output only.
  \<^item> The reverse proxy of the standard library: what it is given and what it gives back is modelled, its transport is not.
\<close>

end
